(* ===== verification/Prelude.thy ===== *)
theory Prelude
  imports Complex_Main "HOL-Library.Multiset"
begin

text \<open>
  Shared vocabulary of the development: the outcome of a database transaction,
  JSON values, tables of rows, and the generic facts on lists, stable sorting
  and transition tables that the component theories use, partly through the
  collections declared here and partly as locales that the components
  interpret on their own definitions.
\<close>

named_theorems model_defs "definitions unfolded together when an operation is evaluated"
named_theorems row_simps "facts on the selectors of an updated row"

section \<open>Results and transactions\<close>

text \<open>A fallible operation on a state returns the state it leaves and either
  the error it raised (\<^verbatim>\<open>Inl\<close>) or its result (\<^verbatim>\<open>Inr\<close>).\<close>

type_synonym ('s, 'e, 'a) action = "'s \<Rightarrow> 's \<times> ('e + 'a)"

text \<open>\<^verbatim>\<open>dataSource.transaction(body)\<close>: everything the body wrote is kept when it
  returns and undone when it raises.\<close>

definition transaction :: "('s, 'e, 'a) action \<Rightarrow> ('s, 'e, 'a) action" where
  "transaction body s = (case body s of
      (s', Inl e) \<Rightarrow> (s, Inl e)
    | (s', Inr x) \<Rightarrow> (s', Inr x))"

lemma transaction_error: "transaction body s = (s', Inl e) \<Longrightarrow> s' = s"
  by (auto simp: transaction_def split: prod.splits sum.splits)

lemma transaction_ok:
  "transaction body s = (s', Inr x) \<longleftrightarrow> body s = (s', Inr x)"
  by (auto simp: transaction_def split: prod.splits sum.splits)

lemma transaction_cases:
  assumes "transaction body s = (s', r)"
  obtains (error) e where "r = Inl e" "s' = s"
  | (ok) x where "r = Inr x" "body s = (s', Inr x)"
  using assms by (cases r) (auto dest: transaction_error simp: transaction_ok)

text \<open>\<^verbatim>\<open>for (const x of xs) { ... }\<close> with a state threaded through.\<close>

fun for_each :: "('x \<Rightarrow> 's \<Rightarrow> 's) \<Rightarrow> 'x list \<Rightarrow> 's \<Rightarrow> 's" where
  "for_each f [] s = s"
| "for_each f (x # xs) s = for_each f xs (f x s)"

lemma for_each_invariant:
  assumes "I s" and "\<And>x s. x \<in> set xs \<Longrightarrow> I s \<Longrightarrow> I (f x s)"
  shows "I (for_each f xs s)"
  using assms by (induction xs arbitrary: s) auto

section \<open>JSON values\<close>

text \<open>The payloads the services exchange. A property whose value is
  \<^verbatim>\<open>undefined\<close> is absent; a \<^verbatim>\<open>Date\<close> rendered by \<^verbatim>\<open>toISOString\<close> is kept
  as its time in milliseconds (\<^verbatim>\<open>JIso\<close>).\<close>

datatype json =
    JNull
  | JBool bool
  | JNum rat
  | JStr string
  | JIso int
  | JArr "json list"
  | JObj "(string \<times> json) list"

definition opt_field :: "string \<Rightarrow> 'a option \<Rightarrow> ('a \<Rightarrow> json) \<Rightarrow> (string \<times> json) list" where
  "opt_field k v f = (case v of None \<Rightarrow> [] | Some x \<Rightarrow> [(k, f x)])"

lemma opt_field_simps [simp]:
  "opt_field k None f = []"
  "opt_field k (Some x) f = [(k, f x)]"
  by (simp_all add: opt_field_def)

text \<open>\<^verbatim>\<open>payload?.k\<close> read where a non-empty string is needed: any other
  value, the empty string included, is treated as missing.\<close>

fun str_field :: "string \<Rightarrow> json \<Rightarrow> string option" where
  "str_field k (JObj kvs) = (case map_of kvs k of
      Some (JStr s) \<Rightarrow> (if s = [] then None else Some s)
    | _ \<Rightarrow> None)"
| "str_field k _ = None"

lemma str_field_nonempty: "str_field k p = Some s \<Longrightarrow> s \<noteq> []"
  by (cases p) (auto split: option.splits json.splits if_splits)

section \<open>Strings\<close>

definition starts_with :: "string \<Rightarrow> string \<Rightarrow> bool" where
  "starts_with p s = (take (length p) s = p)"

fun includes_str :: "string \<Rightarrow> string \<Rightarrow> bool" where
  "includes_str p [] = (p = [])"
| "includes_str p (c # s) = (starts_with p (c # s) \<or> includes_str p s)"

lemma starts_with_append [simp]: "starts_with p (p @ s)"
  by (simp add: starts_with_def)

lemma includes_str_nil: "includes_str [] s"
  by (cases s) (simp_all add: starts_with_def)

lemma includes_str_append: "includes_str p (u @ p @ v)"
proof (induction u)
  case Nil
  show ?case
    by (cases p) (auto simp: includes_str_nil starts_with_def)
qed simp

text \<open>Decimal rendering of a natural number, as in a template literal.\<close>

fun nat_str :: "nat \<Rightarrow> string" where
  "nat_str n = (if n < 10 then [char_of (48 + n)] else nat_str (n div 10) @ [char_of (48 + n mod 10)])"

declare nat_str.simps [simp del]

text \<open>A template literal renders a missing value as \<^verbatim>\<open>undefined\<close>.\<close>

definition show_text :: "string option \<Rightarrow> string" where
  "show_text v = (case v of None \<Rightarrow> ''undefined'' | Some s \<Rightarrow> s)"

section \<open>Truthiness and rounding\<close>

text \<open>An optional string tested as a condition: \<^verbatim>\<open>undefined\<close>, \<^verbatim>\<open>null\<close> and the empty
  string are false.\<close>

fun truthy :: "string option \<Rightarrow> bool" where
  "truthy None = False"
| "truthy (Some s) = (s \<noteq> [])"

definition or_default :: "string option \<Rightarrow> string \<Rightarrow> string" where
  "or_default v d = (if truthy v then the v else d)"

text \<open>\<^verbatim>\<open>a || b\<close> on optional strings.\<close>

definition or_else :: "string option \<Rightarrow> string option \<Rightarrow> string option" where
  "or_else a b = (if truthy a then a else b)"

text \<open>\<^verbatim>\<open>Math.round\<close>.\<close>

definition js_round :: "rat \<Rightarrow> int" where
  "js_round x = floor (x + 1 / 2)"

lemma js_round_mono: "x \<le> y \<Longrightarrow> js_round x \<le> js_round y"
  by (simp add: js_round_def floor_mono)

lemma js_round_int [simp]: "js_round (of_int n) = n"
proof -
  have "floor (of_int n + 1/2 :: rat) = n"
    by (intro floor_unique) auto
  then show ?thesis by (simp add: js_round_def)
qed

section \<open>Stable sorting and prefixes\<close>

text \<open>\<^verbatim>\<open>Array.prototype.sort\<close> and \<^verbatim>\<open>ORDER BY\<close> with a numeric key keep the
  order of rows with equal keys, as \<^const>\<open>sort_key\<close> does.\<close>

lemma take_sort_key_least:
  assumes "x \<in> set (take n (sort_key f xs))" "y \<in> set (drop n (sort_key f xs))"
  shows "f x \<le> f y"
proof -
  have "sorted (map f (take n (sort_key f xs) @ drop n (sort_key f xs)))"
    by simp
  then show ?thesis
    using assms unfolding map_append sorted_append by auto
qed

lemma set_take_sort_key: "set (take n (sort_key f xs)) \<subseteq> set xs"
  using set_take_subset[of n "sort_key f xs"] by simp

lemma distinct_take_sort_key:
  "distinct (map g xs) \<Longrightarrow> distinct (map g (take n (sort_key f xs)))"
proof -
  assume "distinct (map g xs)"
  then have "distinct xs" and "inj_on g (set xs)"
    by (simp_all add: distinct_map)
  moreover have "inj_on g (set (take n (sort_key f xs)))"
    using \<open>inj_on g (set xs)\<close> set_take_sort_key by (rule inj_on_subset)
  ultimately show ?thesis
    by (simp add: distinct_map distinct_take)
qed

section \<open>Tables of rows\<close>

text \<open>An SQL \<^verbatim>\<open>UPDATE t SET ... WHERE p\<close> on a table kept as a list of rows.\<close>

definition update_rows :: "('r \<Rightarrow> bool) \<Rightarrow> ('r \<Rightarrow> 'r) \<Rightarrow> 'r list \<Rightarrow> 'r list" where
  "update_rows p f rs = map (\<lambda>r. if p r then f r else r) rs"

lemma length_update_rows [simp]: "length (update_rows p f rs) = length rs"
  by (simp add: update_rows_def)

lemma in_update_rows:
  "r \<in> set (update_rows p f rs) \<longleftrightarrow> (\<exists>q \<in> set rs. r = (if p q then f q else q))"
  by (auto simp: update_rows_def)

lemma map_update_rows:
  assumes "\<And>r. g (f r) = g r"
  shows "map g (update_rows p f rs) = map g rs"
  using assms by (auto simp: update_rows_def)

lemma update_rows_none: "(\<And>r. r \<in> set rs \<Longrightarrow> \<not> p r) \<Longrightarrow> update_rows p f rs = rs"
  by (induction rs) (auto simp: update_rows_def)

text \<open>\<^verbatim>\<open>findOne(where key = k)\<close>: the first row with the key.\<close>

definition lookup_by :: "('r \<Rightarrow> 'k) \<Rightarrow> 'k \<Rightarrow> 'r list \<Rightarrow> 'r option" where
  "lookup_by key k rs = find (\<lambda>r. key r = k) rs"

lemma lookup_by_simps [simp]:
  "lookup_by key k [] = None"
  "lookup_by key k (r # rs) = (if key r = k then Some r else lookup_by key k rs)"
  by (simp_all add: lookup_by_def)

lemma lookup_by_SomeD: "lookup_by key k rs = Some r \<Longrightarrow> r \<in> set rs \<and> key r = k"
  by (auto simp: lookup_by_def find_Some_iff)

lemma lookup_by_distinct:
  "distinct (map key rs) \<Longrightarrow> r \<in> set rs \<Longrightarrow> lookup_by key (key r) rs = Some r"
  by (induction rs) (auto simp: rev_image_eqI)

lemma lookup_by_update:
  assumes "\<And>r. key (f r) = key r"
  shows "lookup_by key k (update_rows p f rs)
    = map_option (\<lambda>r. if p r then f r else r) (lookup_by key k rs)"
  using assms by (induction rs) (auto simp: update_rows_def)

lemma lookup_by_append:
  "lookup_by key k (rs @ rs') = (case lookup_by key k rs of None \<Rightarrow> lookup_by key k rs' | Some r \<Rightarrow> Some r)"
  by (induction rs) auto

text \<open>\<^verbatim>\<open>save(r)\<close>: replace the row of the same key, or add one.\<close>

definition save_by :: "('r \<Rightarrow> 'k) \<Rightarrow> 'r \<Rightarrow> 'r list \<Rightarrow> 'r list" where
  "save_by key r rs = (if lookup_by key (key r) rs = None then rs @ [r]
     else update_rows (\<lambda>q. key q = key r) (\<lambda>_. r) rs)"

lemma lookup_by_None: "lookup_by key k rs = None \<longleftrightarrow> k \<notin> key ` set rs"
  by (auto simp: lookup_by_def find_None_iff)

lemma lookup_by_replace:
  "lookup_by key k (update_rows (\<lambda>q. key q = key r) (\<lambda>_. r) rs)
    = (if k = key r \<and> lookup_by key k rs \<noteq> None then Some r else lookup_by key k rs)"
  by (induction rs) (auto simp: update_rows_def)

lemma lookup_save_by:
  "lookup_by key k (save_by key r rs) = (if k = key r then Some r else lookup_by key k rs)"
  by (auto simp: save_by_def lookup_by_replace lookup_by_append split: option.splits)

lemma keys_save_by:
  "map key (save_by key r rs) = (if key r \<in> key ` set rs then map key rs else map key rs @ [key r])"
  by (auto simp: save_by_def lookup_by_None update_rows_def)

lemma distinct_save_by: "distinct (map key rs) \<Longrightarrow> distinct (map key (save_by key r rs))"
  by (auto simp: keys_save_by)

lemma save_by_present:
  "key r \<in> key ` set rs \<Longrightarrow> save_by key r rs = map (\<lambda>q. if key q = key r then r else q) rs"
  by (simp add: save_by_def lookup_by_None update_rows_def)

text \<open>Saving a changed copy of some rows, one after the other.\<close>

lemma for_each_save:
  assumes "\<And>d. key (f d) = key d" "distinct (map key bs)" "key ` set bs \<subseteq> key ` set rs"
  shows "for_each (\<lambda>d. save_by key (f d)) bs rs
    = map (\<lambda>q. case lookup_by key (key q) bs of Some d \<Rightarrow> f d | None \<Rightarrow> q) rs"
  using assms(2,3)
proof (induction bs arbitrary: rs)
  case (Cons b bs)
  let ?rs = "map (\<lambda>q. if key q = key b then f b else q) rs"
  have s: "save_by key (f b) rs = ?rs"
    using Cons.prems(2) save_by_present[of key "f b" rs] by (simp add: assms(1))
  have "map key ?rs = map key rs" by (auto simp: assms(1))
  then have k: "key ` set ?rs = key ` set rs" by (metis set_map)
  have n: "lookup_by key (key b) bs = None"
    using Cons.prems(1) by (simp add: lookup_by_None)
  have "for_each (\<lambda>d. save_by key (f d)) bs ?rs
      = map (\<lambda>q. case lookup_by key (key q) bs of Some d \<Rightarrow> f d | None \<Rightarrow> q) ?rs"
    using Cons.IH[of ?rs] Cons.prems k by simp
  then show ?case
    using s n assms(1) by (auto simp: split: option.splits)
qed simp

lemma lookup_filter:
  assumes "distinct (map key rs)" "q \<in> set rs"
  shows "lookup_by key (key q) (filter P rs) = (if P q then Some q else None)"
proof (cases "P q")
  case True
  then show ?thesis using assms lookup_by_distinct[of key "filter P rs" q] distinct_map_filter by fastforce
next
  case False
  have "key q \<notin> key ` set (filter P rs)"
    using assms False by (auto simp: distinct_map dest: inj_onD)
  then show ?thesis using False by (simp add: lookup_by_None)
qed

lemma for_each_save_filter:
  assumes "\<And>d. key (f d) = key d" "distinct (map key rs)"
  shows "for_each (\<lambda>d. save_by key (f d)) (filter P rs) rs = map (\<lambda>q. if P q then f q else q) rs"
proof -
  have "for_each (\<lambda>d. save_by key (f d)) (filter P rs) rs
      = map (\<lambda>q. case lookup_by key (key q) (filter P rs) of Some d \<Rightarrow> f d | None \<Rightarrow> q) rs"
    using assms by (intro for_each_save distinct_map_filter) auto
  also have "\<dots> = map (\<lambda>q. if P q then f q else q) rs"
    using lookup_filter[OF assms(2)] by (intro map_cong) simp_all
  finally show ?thesis .
qed

definition count_rows :: "('r \<Rightarrow> bool) \<Rightarrow> 'r list \<Rightarrow> nat" where
  "count_rows p rs = length (filter p rs)"

text \<open>What a client of a repository relies on: a saved row is found under its key,
  and the rows of the other keys are as before.\<close>

locale repository =
  fixes find_row :: "'k \<Rightarrow> 't \<Rightarrow> 'r option"
    and save_row :: "'r \<Rightarrow> 't \<Rightarrow> 't"
    and key_of :: "'r \<Rightarrow> 'k"
  assumes found_key: "find_row k t = Some r \<Longrightarrow> key_of r = k"
    and find_saved: "find_row (key_of r) (save_row r t) = Some r"
    and find_other: "k \<noteq> key_of r \<Longrightarrow> find_row k (save_row r t) = find_row k t"
begin

lemma find_save: "find_row k (save_row r t) = (if k = key_of r then Some r else find_row k t)"
  by (simp add: find_saved find_other)

lemma save_twice: "key_of r = key_of q \<Longrightarrow> find_row k (save_row r (save_row q t)) = find_row k (save_row r t)"
  by (simp add: find_save)

lemma save_commute:
  "key_of r \<noteq> key_of q \<Longrightarrow> find_row k (save_row r (save_row q t)) = find_row k (save_row q (save_row r t))"
  by (auto simp: find_save)

text \<open>A property of rows that every save respects holds of every row ever found.\<close>

lemma save_keeps_rows:
  assumes "\<And>k r. find_row k t = Some r \<Longrightarrow> P r" "P q"
  shows "find_row k (save_row q t) = Some r \<Longrightarrow> P r"
  using assms by (auto simp: find_save split: if_splits)

text \<open>A read-modify-write of one row that keeps its key changes no other row.\<close>

lemma modify_row:
  assumes "find_row k t = Some r" "key_of (f r) = key_of r"
  shows "find_row k' (save_row (f r) t) = (if k' = k then Some (f r) else find_row k' t)"
  using assms found_key by (simp add: find_save)

end

section \<open>Sets and maps in insertion order\<close>

text \<open>\<^verbatim>\<open>Set.add\<close> keeps the order of the first insertions.\<close>

definition set_add :: "'a \<Rightarrow> 'a list \<Rightarrow> 'a list" where
  "set_add x xs = (if x \<in> set xs then xs else xs @ [x])"

lemma set_set_add [simp]: "set (set_add x xs) = insert x (set xs)"
  by (auto simp: set_add_def)

lemma distinct_set_add: "distinct xs \<Longrightarrow> distinct (set_add x xs)"
  by (simp add: set_add_def)

text \<open>A \<^verbatim>\<open>Map\<close> that counts the values of a list, in the order of their first occurrence.\<close>

definition count_by :: "('r \<Rightarrow> 'k) \<Rightarrow> 'r list \<Rightarrow> ('k \<times> nat) list" where
  "count_by key rs = map (\<lambda>k. (k, count_rows (\<lambda>r. key r = k) rs)) (foldl (\<lambda>ks r. set_add (key r) ks) [] rs)"

lemma set_add_keys: "set (foldl (\<lambda>ks r. set_add (key r) ks) ks rs) = set ks \<union> key ` set rs"
  by (induction rs arbitrary: ks) auto

lemma distinct_add_keys: "distinct ks \<Longrightarrow> distinct (foldl (\<lambda>ks r. set_add (key r) ks) ks rs)"
  by (induction rs arbitrary: ks) (auto simp: distinct_set_add)

lemma sum_count_rows:
  assumes "distinct ks" "key ` set rs \<subseteq> set ks"
  shows "sum_list (map (\<lambda>k. count_rows (\<lambda>r. key r = k) rs) ks) = length rs"
  using assms(2)
proof (induction rs)
  case Nil
  then show ?case by (simp add: count_rows_def sum_list_triv)
next
  case (Cons r rs)
  have "sum_list (map (\<lambda>k. count_rows (\<lambda>q. key q = k) (r # rs)) ks)
      = sum_list (map (\<lambda>k. count_rows (\<lambda>q. key q = k) rs + (if k = key r then 1 else 0)) ks)"
    by (intro arg_cong[where f = sum_list] map_cong) (auto simp: count_rows_def)
  also have "\<dots> = length rs + sum_list (map (\<lambda>k. if k = key r then 1 else 0) ks)"
    using Cons by (simp add: sum_list_addf)
  also have "sum_list (map (\<lambda>k. if k = key r then 1 else (0::nat)) ks) = 1"
    using assms(1) Cons.prems by (simp add: sum_list_distinct_conv_sum_set)
  finally show ?case by simp
qed

text \<open>The counts of all values add up to the number of rows.\<close>

lemma count_by_total: "sum_list (map snd (count_by key rs)) = length rs"
proof -
  have "sum_list (map (\<lambda>k. count_rows (\<lambda>r. key r = k) rs) (foldl (\<lambda>ks r. set_add (key r) ks) [] rs)) = length rs"
    by (rule sum_count_rows) (simp_all add: distinct_add_keys set_add_keys)
  then show ?thesis by (simp add: count_by_def comp_def)
qed

section \<open>Pages\<close>

text \<open>\<^verbatim>\<open>skip(n).take(m)\<close> of a query.\<close>

definition page_of :: "nat \<Rightarrow> nat \<Rightarrow> 'r list \<Rightarrow> 'r list" where
  "page_of skip take_n rs = take take_n (drop skip rs)"

text \<open>Consecutive pages put together give the list.\<close>

lemma pages_prefix: "concat (map (\<lambda>k. page_of (k * m) m rs) [0..<n]) = take (n * m) rs"
proof (induction n)
  case (Suc n)
  have "take (n * m + m) rs = take (n * m) rs @ take m (drop (n * m) rs)"
    by (simp add: take_add)
  with Suc show ?case by (simp add: page_of_def add.commute)
qed (simp add: page_of_def)

lemma pages_cover: "length rs \<le> n * m \<Longrightarrow> concat (map (\<lambda>k. page_of (k * m) m rs) [0..<n]) = rs"
  by (simp add: pages_prefix)

section \<open>Transition tables\<close>

text \<open>A table gives for every status the statuses it may move to. A table
  whose moves climb a rank has no cycle, and no run of moves is longer than
  the ranks allow.\<close>

definition moves :: "('st \<Rightarrow> 'st list) \<Rightarrow> 'st \<Rightarrow> 'st \<Rightarrow> bool" where
  "moves allowed s t = (t \<in> set (allowed s))"

fun run_of :: "('st \<Rightarrow> 'st list) \<Rightarrow> 'st \<Rightarrow> 'st list \<Rightarrow> bool" where
  "run_of allowed s [] = True"
| "run_of allowed s (t # ts) = (moves allowed s t \<and> run_of allowed t ts)"

locale transition_table =
  fixes allowed :: "'st \<Rightarrow> 'st list"
    and rank :: "'st \<Rightarrow> nat"
  assumes climbs: "t \<in> set (allowed s) \<Longrightarrow> rank s < rank t"
begin

lemma final_stays:
  assumes "(moves allowed)\<^sup>*\<^sup>* s t" and "allowed s = []"
  shows "t = s"
  using assms by (induction rule: converse_rtranclp_induct) (auto simp: moves_def)

lemma climbs_steps: "(moves allowed)\<^sup>+\<^sup>+ s t \<Longrightarrow> rank s < rank t"
proof (induction rule: tranclp_induct)
  case (base t)
  then show ?case by (auto simp: moves_def intro: climbs)
next
  case (step t u)
  then have "rank t < rank u" by (auto simp: moves_def intro: climbs)
  with step.IH show ?case by simp
qed

lemma no_return: "\<not> (moves allowed)\<^sup>+\<^sup>+ s s"
  using climbs_steps by blast

lemma run_length: "run_of allowed s ts \<Longrightarrow> rank s + length ts \<le> rank (last (s # ts))"
proof (induction ts arbitrary: s)
  case (Cons t ts)
  then have "rank s < rank t" and "rank t + length ts \<le> rank (last (t # ts))"
    by (auto simp: moves_def intro: climbs)
  then show ?case by simp
qed simp

end

end
