(* ===== verification/Circuit_Breaker.thy ===== *)
theory Circuit_Breaker
  imports Prelude
begin

text \<open>
  \<^verbatim>\<open>domain-events/circuit-breaker.service.ts\<close>: the map of circuits, the
  admission of a call, the two ways a call ends, and \<^verbatim>\<open>execute\<close> that composes them.
  A call may be suspended while others run, so admission and completion are
  also the steps of a relation in which calls overlap.
\<close>

section \<open>State\<close>

record breaker_config =
  failureThreshold :: nat
  recoveryTimeout :: int
  halfOpenMaxCalls :: nat
  monitoringWindow :: int

datatype circuit_state = CLOSED | OPEN | HALF_OPEN

record breaker =
  cb_state :: circuit_state
  cb_failures :: nat
  cb_successes :: nat
  cb_totalCalls :: nat
  cb_lastFailureTime :: int
  cb_lastSuccessTime :: int
  cb_lastStateChange :: int
  cb_halfOpenCallCount :: nat
  cb_config :: breaker_config
  cb_name :: string

type_synonym circuits = "string \<Rightarrow> breaker option"

datatype 'e breaker_error =
    Breaker_Open string
  | Half_Open_Limit string
  | Call_Failed 'e

definition getDefaultConfig :: breaker_config where
  "getDefaultConfig = \<lparr> failureThreshold = 5, recoveryTimeout = 300000,
     halfOpenMaxCalls = 3, monitoringWindow = 600000 \<rparr>"

definition new_breaker :: "string \<Rightarrow> breaker_config option \<Rightarrow> int \<Rightarrow> breaker" where
  "new_breaker name config now = \<lparr> cb_state = CLOSED, cb_failures = 0, cb_successes = 0,
     cb_totalCalls = 0, cb_lastFailureTime = 0, cb_lastSuccessTime = 0,
     cb_lastStateChange = now, cb_halfOpenCallCount = 0,
     cb_config = (case config of None \<Rightarrow> getDefaultConfig | Some c \<Rightarrow> c), cb_name = name \<rparr>"

definition getCircuitState ::
    "string \<Rightarrow> breaker_config option \<Rightarrow> int \<Rightarrow> circuits \<Rightarrow> circuits \<times> breaker" where
  "getCircuitState name config now cs = (case cs name of
      Some b \<Rightarrow> (cs, b)
    | None \<Rightarrow> (let b = new_breaker name config now in (cs(name \<mapsto> b), b)))"

section \<open>Operations\<close>

text \<open>The part of \<^verbatim>\<open>execute\<close> before the call: the circuit it leaves, and the
  error when the call is refused.\<close>

definition admit :: "string \<Rightarrow> breaker_config \<Rightarrow> int \<Rightarrow> breaker \<Rightarrow> breaker \<times> 'e breaker_error option" where
  "admit name config now b =
    (if cb_state b = OPEN \<and> \<not> now - cb_lastFailureTime b > recoveryTimeout config
     then (b, Some (Breaker_Open name))
     else
       let b' = (if cb_state b = OPEN
                 then b\<lparr> cb_state := HALF_OPEN, cb_halfOpenCallCount := 0 \<rparr> else b)
       in if cb_state b' = HALF_OPEN \<and> cb_halfOpenCallCount b' \<ge> halfOpenMaxCalls config
          then (b', Some (Half_Open_Limit name))
          else (b', None))"

definition onSuccess :: "int \<Rightarrow> breaker \<Rightarrow> breaker" where
  "onSuccess now b =
    (let b1 = b\<lparr> cb_successes := cb_successes b + 1, cb_totalCalls := cb_totalCalls b + 1,
                 cb_lastSuccessTime := now, cb_halfOpenCallCount := 0 \<rparr>
     in if cb_state b1 = HALF_OPEN
        then b1\<lparr> cb_state := CLOSED, cb_failures := 0, cb_lastStateChange := now \<rparr>
        else b1)"

definition onFailure :: "int \<Rightarrow> breaker \<Rightarrow> breaker" where
  "onFailure now b =
    (let b1 = b\<lparr> cb_failures := cb_failures b + 1, cb_totalCalls := cb_totalCalls b + 1,
                 cb_lastFailureTime := now \<rparr>;
         b2 = (if cb_state b1 = HALF_OPEN
               then b1\<lparr> cb_halfOpenCallCount := cb_halfOpenCallCount b1 + 1 \<rparr> else b1)
     in if cb_failures b2 \<ge> failureThreshold (cb_config b2) \<and> cb_state b2 \<noteq> OPEN
        then b2\<lparr> cb_state := OPEN, cb_lastStateChange := now \<rparr>
        else b2)"

text \<open>\<^verbatim>\<open>execute\<close>: the wrapped function runs on a state of its own; \<^verbatim>\<open>now\<close> is the
  time of the call and \<^verbatim>\<open>later\<close> the time at which it ends.\<close>

definition execute_breaker ::
    "string \<Rightarrow> ('s \<Rightarrow> 's \<times> ('e + 'a)) \<Rightarrow> breaker_config \<Rightarrow> int \<Rightarrow> int \<Rightarrow>
     circuits \<times> 's \<Rightarrow> (circuits \<times> 's) \<times> ('e breaker_error + 'a)" where
  "execute_breaker name fn config now later st =
    (let (cs, s) = st;
         (cs1, b) = getCircuitState name (Some config) now cs;
         (b1, refused) = admit name config now b
     in case refused of
          Some err \<Rightarrow> ((cs1(name \<mapsto> b1), s), Inl err)
        | None \<Rightarrow> (case fn s of
              (s', Inr x) \<Rightarrow> ((cs1(name \<mapsto> onSuccess later b1), s'), Inr x)
            | (s', Inl e) \<Rightarrow> ((cs1(name \<mapsto> onFailure later b1), s'), Inl (Call_Failed e))))"

definition resetCircuit :: "string \<Rightarrow> circuits \<Rightarrow> circuits" where
  "resetCircuit name cs = cs(name := None)"

definition setCircuitState :: "string \<Rightarrow> circuit_state \<Rightarrow> int \<Rightarrow> circuits \<Rightarrow> circuits" where
  "setCircuitState name st now cs =
    (let (cs1, b) = getCircuitState name None now cs
     in cs1(name \<mapsto> b\<lparr> cb_state := st, cb_lastStateChange := now \<rparr>))"

definition getMetrics :: "string \<Rightarrow> circuits \<Rightarrow>
    (circuit_state \<times> nat \<times> nat \<times> nat \<times> int \<times> int \<times> int) option" where
  "getMetrics name cs = (case cs name of
      None \<Rightarrow> None
    | Some b \<Rightarrow> Some (cb_state b, cb_failures b, cb_successes b, cb_totalCalls b,
         cb_lastFailureTime b, cb_lastSuccessTime b, cb_lastStateChange b))"

section \<open>Overlapping calls\<close>

text \<open>One circuit with the number of calls in flight: a call is admitted or
  refused, and any call in flight may end at any later moment.\<close>

inductive breaker_step :: "breaker_config \<Rightarrow> breaker \<times> nat \<Rightarrow> breaker \<times> nat \<Rightarrow> bool"
  for config where
  step_admit: "admit name config now b = (b', None :: unit breaker_error option) \<Longrightarrow>
     breaker_step config (b, n) (b', Suc n)"
| step_refuse: "admit name config now b = (b', Some (err :: unit breaker_error)) \<Longrightarrow>
     breaker_step config (b, n) (b', n)"
| step_success: "breaker_step config (b, Suc n) (onSuccess now b, n)"
| step_failure: "breaker_step config (b, Suc n) (onFailure now b, n)"

definition breaker_reachable :: "breaker_config \<Rightarrow> breaker \<times> nat \<Rightarrow> bool" where
  "breaker_reachable config st =
    (\<exists>name now. (breaker_step config)\<^sup>*\<^sup>* (new_breaker name (Some config) now, 0) st)"

definition breaker_inv :: "breaker_config \<Rightarrow> breaker \<Rightarrow> bool" where
  "breaker_inv config b \<longleftrightarrow> cb_config b = config
     \<and> (cb_state b = CLOSED \<longleftrightarrow> cb_failures b < failureThreshold config)
     \<and> (cb_state b = HALF_OPEN \<longrightarrow> cb_halfOpenCallCount b = 0)
     \<and> cb_failures b \<le> cb_totalCalls b
     \<and> cb_successes b \<le> cb_totalCalls b"

section \<open>Lemmas\<close>

lemma circuit_state_exhaust: "(s \<noteq> CLOSED) = (s = OPEN \<or> s = HALF_OPEN)"
  by (cases s) auto

lemma inv_new: "0 < failureThreshold config \<Longrightarrow> breaker_inv config (new_breaker name (Some config) now)"
  by (simp add: breaker_inv_def new_breaker_def)

lemma inv_admit: "breaker_inv config b \<Longrightarrow> admit name config now b = (b', r) \<Longrightarrow> breaker_inv config b'"
  by (auto simp: breaker_inv_def admit_def Let_def split: if_splits)

lemma inv_onSuccess:
  "0 < failureThreshold config \<Longrightarrow> breaker_inv config b \<Longrightarrow> breaker_inv config (onSuccess now b)"
  by (cases "cb_state b") (auto simp: breaker_inv_def onSuccess_def Let_def)

lemma inv_onFailure: "breaker_inv config b \<Longrightarrow> breaker_inv config (onFailure now b)"
  by (cases "cb_state b") (auto simp: breaker_inv_def onFailure_def Let_def)

lemma inv_step:
  assumes "breaker_step config st st'" "0 < failureThreshold config" "breaker_inv config (fst st)"
  shows "breaker_inv config (fst st')"
  using assms by cases (auto intro: inv_admit inv_onSuccess inv_onFailure)

lemma inv_reachable:
  assumes "breaker_reachable config st" "0 < failureThreshold config"
  shows "breaker_inv config (fst st)"
proof -
  obtain name now where "(breaker_step config)\<^sup>*\<^sup>* (new_breaker name (Some config) now, 0) st"
    using assms(1) by (auto simp: breaker_reachable_def)
  then show ?thesis
    by induction (auto intro: inv_new inv_step assms(2))
qed

lemma admit_no_limit:
  assumes "breaker_inv config b" "0 < halfOpenMaxCalls config"
  shows "snd (admit name config now b) \<noteq> Some (Half_Open_Limit l)"
  using assms by (auto simp: admit_def breaker_inv_def Let_def)

lemma execute_breaker_ok:
  assumes "execute_breaker name fn config now later (cs, s) = (st, Inr x)"
  shows "\<exists>s'. fn s = (s', Inr x)"
  using assms by (auto simp: execute_breaker_def split: prod.splits option.splits sum.splits)

text \<open>A sequence of admissions without a completion in between.\<close>

fun admit_times :: "nat \<Rightarrow> string \<Rightarrow> breaker_config \<Rightarrow> int \<Rightarrow> breaker \<Rightarrow> breaker \<times> nat" where
  "admit_times 0 name config now b = (b, 0)"
| "admit_times (Suc k) name config now b = (case admit name config now b of
      (b', None :: unit breaker_error option) \<Rightarrow>
        (case admit_times k name config now b' of (b'', n) \<Rightarrow> (b'', Suc n))
    | (b', Some _) \<Rightarrow> admit_times k name config now b')"

lemma admit_half_open:
  assumes "cb_state b = HALF_OPEN" "cb_halfOpenCallCount b = 0" "0 < halfOpenMaxCalls config"
  shows "admit name config now b = (b, None)"
  using assms by (simp add: admit_def)

lemma admit_times_half_open:
  assumes "cb_state b = HALF_OPEN" "cb_halfOpenCallCount b = 0" "0 < halfOpenMaxCalls config"
  shows "admit_times k name config now b = (b, k)"
  using assms by (induction k) (simp_all add: admit_half_open)

section \<open>Calls one after the other\<close>

text \<open>Calls through one circuit that do not overlap: each has the time at which it
  starts, the time at which it ends and its own function.\<close>

fun calls :: "string \<Rightarrow> breaker_config \<Rightarrow> (int \<times> int \<times> ('s \<Rightarrow> 's \<times> ('e + 'a))) list \<Rightarrow>
    circuits \<times> 's \<Rightarrow> (circuits \<times> 's) \<times> ('e breaker_error + 'a) list" where
  "calls name config [] st = (st, [])"
| "calls name config ((now, later, fn) # xs) st =
    (let (st1, r) = execute_breaker name fn config now later st; (st2, rs) = calls name config xs st1
     in (st2, r # rs))"

text \<open>The contract of the circuit: it is closed after a number of failures, or
  tripped since the time of a failure. While it is tripped it refuses; after the
  timeout it lets one call through, which closes it or trips it again.\<close>

datatype contract = Closed nat | Tripped int

definition contract_call :: "string \<Rightarrow> breaker_config \<Rightarrow> int \<Rightarrow> int \<Rightarrow> ('s \<Rightarrow> 's \<times> ('e + 'a)) \<Rightarrow>
    contract \<times> 's \<Rightarrow> (contract \<times> 's) \<times> ('e breaker_error + 'a)" where
  "contract_call name config now later fn st = (case st of
      (Closed n, s) \<Rightarrow> (case fn s of
          (s', Inr x) \<Rightarrow> ((Closed n, s'), Inr x)
        | (s', Inl e) \<Rightarrow> ((if n + 1 < failureThreshold config then Closed (n + 1) else Tripped later, s'),
                          Inl (Call_Failed e)))
    | (Tripped t, s) \<Rightarrow>
        if now \<le> t + recoveryTimeout config then ((Tripped t, s), Inl (Breaker_Open name))
        else (case fn s of
          (s', Inr x) \<Rightarrow> ((Closed 0, s'), Inr x)
        | (s', Inl e) \<Rightarrow> ((Tripped later, s'), Inl (Call_Failed e))))"

fun contract_calls :: "string \<Rightarrow> breaker_config \<Rightarrow> (int \<times> int \<times> ('s \<Rightarrow> 's \<times> ('e + 'a))) list \<Rightarrow>
    contract \<times> 's \<Rightarrow> (contract \<times> 's) \<times> ('e breaker_error + 'a) list" where
  "contract_calls name config [] st = (st, [])"
| "contract_calls name config ((now, later, fn) # xs) st =
    (let (st1, r) = contract_call name config now later fn st; (st2, rs) = contract_calls name config xs st1
     in (st2, r # rs))"

text \<open>Between calls that do not overlap a circuit is never half open.\<close>

definition contract_of :: "breaker \<Rightarrow> contract" where
  "contract_of b = (if cb_state b = CLOSED then Closed (cb_failures b) else Tripped (cb_lastFailureTime b))"

definition between_calls :: "breaker_config \<Rightarrow> breaker \<Rightarrow> bool" where
  "between_calls config b \<longleftrightarrow> breaker_inv config b \<and> cb_state b \<noteq> HALF_OPEN"

lemma admit_between_calls:
  assumes "between_calls config b" "0 < halfOpenMaxCalls config"
  shows "admit name config now b = (case contract_of b of
      Closed n \<Rightarrow> (b, None)
    | Tripped t \<Rightarrow> if now \<le> t + recoveryTimeout config then (b, Some (Breaker_Open name))
        else (b\<lparr> cb_state := HALF_OPEN, cb_halfOpenCallCount := 0 \<rparr>, None))"
  using assms by (cases "cb_state b") (auto simp: admit_def contract_of_def between_calls_def)

lemma succeeded_between_calls:
  assumes "between_calls config b" "0 < failureThreshold config"
  shows "between_calls config (onSuccess later (b\<lparr> cb_state := HALF_OPEN, cb_halfOpenCallCount := 0 \<rparr>))"
    "contract_of (onSuccess later (b\<lparr> cb_state := HALF_OPEN, cb_halfOpenCallCount := 0 \<rparr>)) = Closed 0"
    "contract_of b = Closed n \<Longrightarrow> between_calls config (onSuccess later b) \<and> contract_of (onSuccess later b) = Closed n"
  using assms by (auto simp: onSuccess_def contract_of_def between_calls_def breaker_inv_def split: if_splits)

lemma failed_between_calls:
  assumes "between_calls config b" "0 < failureThreshold config"
  shows "contract_of b = Tripped t \<Longrightarrow>
      between_calls config (onFailure later (b\<lparr> cb_state := HALF_OPEN, cb_halfOpenCallCount := 0 \<rparr>))
    \<and> contract_of (onFailure later (b\<lparr> cb_state := HALF_OPEN, cb_halfOpenCallCount := 0 \<rparr>)) = Tripped later"
    "contract_of b = Closed n \<Longrightarrow> between_calls config (onFailure later b)
    \<and> contract_of (onFailure later b) = (if n + 1 < failureThreshold config then Closed (n + 1) else Tripped later)"
  using assms by (auto simp: onFailure_def Let_def contract_of_def between_calls_def breaker_inv_def split: if_splits)

lemma execute_breaker_known:
  assumes "cs name = Some b"
  shows "execute_breaker name fn config now later (cs, s) = (case admit name config now b of
      (b1, Some err) \<Rightarrow> ((cs(name \<mapsto> b1), s), Inl err)
    | (b1, None) \<Rightarrow> (case fn s of
          (s', Inr x) \<Rightarrow> ((cs(name \<mapsto> onSuccess later b1), s'), Inr x)
        | (s', Inl e) \<Rightarrow> ((cs(name \<mapsto> onFailure later b1), s'), Inl (Call_Failed e))))"
  using assms by (simp add: execute_breaker_def getCircuitState_def split: prod.split option.split sum.split)

lemma execute_refines_contract:
  assumes "between_calls config b" "cs name = Some b"
    and "0 < failureThreshold config" "0 < halfOpenMaxCalls config"
  shows "\<exists>b'. between_calls config b'
    \<and> fst (fst (execute_breaker name fn config now later (cs, s))) = cs(name \<mapsto> b')
    \<and> contract_call name config now later fn (contract_of b, s)
        = ((contract_of b', snd (fst (execute_breaker name fn config now later (cs, s)))),
           snd (execute_breaker name fn config now later (cs, s)))"
proof (cases "contract_of b")
  case (Closed n)
  then show ?thesis
    using assms succeeded_between_calls(3)[OF assms(1,3) Closed, of later] failed_between_calls(2)[OF assms(1,3) Closed, of later]
    by (auto simp: execute_breaker_known admit_between_calls contract_call_def split: prod.split sum.split)
next
  case (Tripped t)
  then show ?thesis
    using assms succeeded_between_calls(1,2)[OF assms(1,3), of later] failed_between_calls(1)[OF assms(1,3) Tripped, of later]
    by (auto simp: execute_breaker_known admit_between_calls contract_call_def fun_upd_idem split: prod.split sum.split)
qed

lemma calls_refine:
  assumes "between_calls config b" "cs name = Some b"
    and "0 < failureThreshold config" "0 < halfOpenMaxCalls config"
    and "calls name config xs (cs, s) = ((cs', s'), rs)"
  shows "\<exists>b'. cs' = cs(name \<mapsto> b') \<and> contract_calls name config xs (contract_of b, s) = ((contract_of b', s'), rs)"
  using assms(1,2,5)
proof (induction xs arbitrary: b cs s rs)
  case Nil
  then have "cs' = cs(name \<mapsto> b)" by (simp add: fun_upd_idem)
  then show ?case using Nil by auto
next
  case (Cons x xs)
  obtain now later fn where x: "x = (now, later, fn)" by (cases x)
  obtain cs1 s1 r where e: "execute_breaker name fn config now later (cs, s) = ((cs1, s1), r)" by (metis surj_pair)
  obtain b1 where b1: "between_calls config b1" "cs1 = cs(name \<mapsto> b1)"
    "contract_call name config now later fn (contract_of b, s) = ((contract_of b1, s1), r)"
    using execute_refines_contract[where fn = fn and now = now and later = later and s = s and cs = cs and name = name,
        OF Cons.prems(1,2) assms(3,4)] e by auto
  obtain rs1 where r: "calls name config xs (cs1, s1) = ((cs', s'), rs1)" "rs = r # rs1"
    using Cons.prems(3) x e by (auto split: prod.splits)
  obtain b' where "cs' = cs1(name \<mapsto> b')" "contract_calls name config xs (contract_of b1, s1) = ((contract_of b', s'), rs1)"
    using Cons.IH[OF b1(1) _ r(1)] b1(2) by (metis fun_upd_same)
  then have "cs' = cs(name \<mapsto> b') \<and> contract_calls name config (x # xs) (contract_of b, s) = ((contract_of b', s'), rs)"
    using b1(2,3) x r(2) by simp
  then show ?case by blast
qed

section \<open>Properties\<close>

text \<open>A call refused by an open circuit runs nothing: neither the wrapped
  function's state nor the circuit changes.\<close>

theorem execute_open_refuses:
  assumes "cs name = Some b" "cb_state b = OPEN"
    and "now - cb_lastFailureTime b \<le> recoveryTimeout config"
  shows "execute_breaker name fn config now later (cs, s) = ((cs, s), Inl (Breaker_Open name))"
  using assms by (auto simp: execute_breaker_def getCircuitState_def admit_def fun_upd_idem)

text \<open>C5: Calls one after the other through a fresh circuit, at any times and with any
  outcomes, keep the contract: the circuit passes every call until as many have failed as
  the threshold says (successes in between do not make up for earlier failures); then it
  refuses calls without running them until the timeout after the last failure has passed; and
  then one success starts it afresh while one failure trips it again. The results, the
  effects of the functions and the circuit left are the contract's, and no other circuit
  changes; the threshold and the limit on half-open calls are positive.\<close>

theorem calls_refine_contract:
  assumes "0 < failureThreshold config" "0 < halfOpenMaxCalls config" "cs name = None"
    and "calls name config (x # xs) (cs, s) = ((cs', s'), rs)"
  shows "\<exists>b. cs' = cs(name \<mapsto> b)
    \<and> contract_calls name config (x # xs) (Closed 0, s) = ((contract_of b, s'), rs)"
proof -
  obtain now later fn where x: "x = (now, later, fn)" by (cases x)
  let ?b = "new_breaker name (Some config) now"
  have b: "between_calls config ?b" "contract_of ?b = Closed 0"
    using inv_new[OF assms(1)] by (simp_all add: between_calls_def contract_of_def new_breaker_def)
  have "execute_breaker name fn config now later (cs, s) = execute_breaker name fn config now later (cs(name \<mapsto> ?b), s)"
    using assms(3) by (simp add: execute_breaker_def getCircuitState_def Let_def)
  then have "calls name config (x # xs) (cs(name \<mapsto> ?b), s) = ((cs', s'), rs)"
    using assms(4) x by simp
  then show ?thesis using calls_refine[OF b(1) _ assms(1,2)] b(2) by (metis fun_upd_same fun_upd_upd)
qed

text \<open>However calls overlap, the limit on half-open calls refuses nothing: in every
  reachable state of a circuit with a positive threshold and limit no
  admission reports the limit, and a half-open circuit admits any number of
  calls before one of them ends.\<close>

theorem half_open_limit_never_reached:
  assumes "breaker_reachable config (b, n)"
    and "0 < failureThreshold config" "0 < halfOpenMaxCalls config"
  shows "snd (admit name config now b) \<noteq> Some (Half_Open_Limit l)
    \<and> (cb_state b = HALF_OPEN \<longrightarrow> admit_times k name config now b = (b, k))"
proof -
  have "breaker_inv config b"
    using inv_reachable[OF assms(1,2)] by simp
  then show ?thesis
    using admit_no_limit admit_times_half_open assms(3) by (auto simp: breaker_inv_def)
qed

section \<open>Concrete runs\<close>

theorem execute_open_refuses_witness:
  "execute_breaker ''x'' (\<lambda>n :: nat. (n + 1, Inr () :: string + unit)) getDefaultConfig 1000 1001
     ([''x'' \<mapsto> (new_breaker ''x'' None 0)\<lparr> cb_state := OPEN, cb_lastFailureTime := 900 \<rparr>], 7)
   = (([''x'' \<mapsto> (new_breaker ''x'' None 0)\<lparr> cb_state := OPEN, cb_lastFailureTime := 900 \<rparr>], 7),
      Inl (Breaker_Open ''x''))"
  by (rule execute_open_refuses[where b = "(new_breaker ''x'' None 0)\<lparr> cb_state := OPEN, cb_lastFailureTime := 900 \<rparr>"])
    (simp_all add: getDefaultConfig_def)

text \<open>Two failures with a success between them trip the circuit; a call within the timeout
  is refused, and the first call after it closes the circuit again. The functions count.\<close>

definition two_failures :: breaker_config where
  "two_failures = \<lparr> failureThreshold = 2, recoveryTimeout = 100, halfOpenMaxCalls = 1, monitoringWindow = 0 \<rparr>"

definition failing_call :: "nat \<Rightarrow> nat \<times> (string + unit)" where
  "failing_call k = (k + 1, Inl ''lost'')"

definition passing_call :: "nat \<Rightarrow> nat \<times> (string + unit)" where
  "passing_call k = (k + 1, Inr ())"

definition sample_calls :: "(int \<times> int \<times> (nat \<Rightarrow> nat \<times> (string + unit))) list" where
  "sample_calls = [(0, 1, failing_call), (2, 3, passing_call), (4, 5, failing_call), (6, 7, passing_call), (106, 107, passing_call)]"

theorem calls_refine_contract_witness:
  "\<exists>b. calls ''x'' two_failures sample_calls (Map.empty, 0) = (([''x'' \<mapsto> b], 4),
      [Inl (Call_Failed ''lost''), Inr (), Inl (Call_Failed ''lost''), Inl (Breaker_Open ''x''), Inr ()])
    \<and> contract_of b = Closed 0"
proof -
  obtain cs' s' rs where c: "calls ''x'' two_failures sample_calls (Map.empty, 0) = ((cs', s'), rs)" by (metis surj_pair)
  have p: "0 < failureThreshold two_failures" "0 < halfOpenMaxCalls two_failures" by (simp_all add: two_failures_def)
  obtain b where b: "cs' = [''x'' \<mapsto> b]"
    "contract_calls ''x'' two_failures sample_calls (Closed 0, 0) = ((contract_of b, s'), rs)"
    using calls_refine_contract[OF p _ c[unfolded sample_calls_def]] by (auto simp: sample_calls_def)
  have "contract_calls ''x'' two_failures sample_calls (Closed 0, 0) = ((Closed 0, 4),
      [Inl (Call_Failed ''lost''), Inr (), Inl (Call_Failed ''lost''), Inl (Breaker_Open ''x''), Inr ()])"
    by (simp add: sample_calls_def contract_call_def two_failures_def failing_call_def passing_call_def)
  then show ?thesis using b c by auto
qed

definition probe_config :: breaker_config where
  "probe_config = \<lparr> failureThreshold = 1, recoveryTimeout = 100, halfOpenMaxCalls = 1, monitoringWindow = 0 \<rparr>"

definition half_open_probe :: breaker where
  "half_open_probe = fst (admit ''x'' probe_config 200 (onFailure 0 (new_breaker ''x'' (Some probe_config) 0))
     :: breaker \<times> unit breaker_error option)"

lemma half_open_probe_reachable: "breaker_reachable probe_config (half_open_probe, 1)"
proof -
  let ?b0 = "new_breaker ''x'' (Some probe_config) 0"
  have "breaker_step probe_config (?b0, 0) (?b0, Suc 0)"
    by (rule step_admit[where name = "''x''" and now = 0]) (simp add: admit_def new_breaker_def)
  moreover have "breaker_step probe_config (?b0, Suc 0) (onFailure 0 ?b0, 0)"
    by (rule step_failure)
  moreover have "breaker_step probe_config (onFailure 0 ?b0, 0) (half_open_probe, Suc 0)"
    unfolding half_open_probe_def
    by (rule step_admit[where name = "''x''" and now = 200])
      (simp add: admit_def new_breaker_def onFailure_def probe_config_def)
  ultimately have "(breaker_step probe_config)\<^sup>*\<^sup>* (?b0, 0) (half_open_probe, Suc 0)"
    by (metis converse_rtranclp_into_rtranclp rtranclp.rtrancl_refl)
  then show ?thesis by (auto simp: breaker_reachable_def)
qed

theorem half_open_limit_never_reached_witness:
  "cb_state half_open_probe = HALF_OPEN
   \<and> admit_times 1000 ''x'' probe_config 201 half_open_probe = (half_open_probe, 1000)"
proof -
  have s: "cb_state half_open_probe = HALF_OPEN"
    by (simp add: half_open_probe_def admit_def new_breaker_def onFailure_def probe_config_def)
  moreover have positive: "0 < failureThreshold probe_config" "0 < halfOpenMaxCalls probe_config"
    by (simp_all add: probe_config_def)
  ultimately show ?thesis
    using half_open_limit_never_reached[OF half_open_probe_reachable] positive by blast
qed

end
