(* ===== verification/Outbox_Service.thy ===== *)
theory Outbox_Service
  imports Prelude Circuit_Breaker
begin

text \<open>
  \<^verbatim>\<open>domain-events/outbox.service.ts\<close> and \<^verbatim>\<open>domain-events/outbox.entity.ts\<close>: the
  outbox table, the idempotency key of an event, the publication of an event
  with its duplicate check, and the delivery of an event to its registered
  handler (\<^verbatim>\<open>handlers/handler.registry.ts\<close>) behind a circuit breaker. The
  handlers' own effects are on a state \<^typ>\<open>'w\<close> that the model leaves open.
\<close>

section \<open>Rows\<close>

datatype outbox_status = OB_PENDING | OB_PROCESSING | OB_COMPLETED | OB_FAILED

datatype outbox_priority = HIGH | MEDIUM | LOW

record outbox_row =
  ob_id :: nat
  ob_event_type :: "string option"
  ob_payload :: json
  ob_status :: outbox_status
  ob_priority :: outbox_priority
  ob_retry_count :: nat
  ob_last_error :: "string option"
  ob_next_retry_at :: "int option"
  ob_created_at :: int
  ob_processed_at :: "int option"
  ob_locked_at :: "int option"
  ob_locked_by :: "string option"
  ob_idempotency_key :: string
  ob_version :: nat

text \<open>The table with the counter of its generated primary key.\<close>

record outbox_table =
  ot_rows :: "outbox_row list"
  ot_next_id :: nat

section \<open>Publishing\<close>

definition upper_or_underscore :: "char \<Rightarrow> bool" where
  "upper_or_underscore c \<longleftrightarrow> c = CHR ''_'' \<or> (65 \<le> (of_char c :: nat) \<and> (of_char c :: nat) \<le> 90)"

text \<open>The pattern \<^verbatim>\<open>^[A-Z_]+_V[1-3]$\<close>.\<close>

definition isValidVersionedEventType :: "string \<Rightarrow> bool" where
  "isValidVersionedEventType s \<longleftrightarrow> (let p = take (length s - 3) s; q = drop (length s - 3) s in
     p \<noteq> [] \<and> list_all upper_or_underscore p \<and> q \<in> {''_V1'', ''_V2'', ''_V3''})"

definition generateIdempotencyKey :: "string \<Rightarrow> json \<Rightarrow> int \<Rightarrow> (int \<Rightarrow> string) \<Rightarrow> string" where
  "generateIdempotencyKey eventType payload now show_ms =
    (case str_field ''sellerOrderId'' payload of
       Some s \<Rightarrow> eventType @ '':order:'' @ s
     | None \<Rightarrow>
       (case (str_field ''deliveryId'' payload, str_field ''driverId'' payload,
              str_field ''proofType'' payload) of
          (Some d, Some r, _) \<Rightarrow> eventType @ '':delivery:'' @ d @ '':driver:'' @ r
        | (Some d, None, Some p) \<Rightarrow> eventType @ '':delivery:'' @ d @ '':proof:'' @ p
        | (Some d, None, None) \<Rightarrow> eventType @ '':delivery:'' @ d
        | (None, _, _) \<Rightarrow> eventType @ '':ts:'' @ show_ms now))"

definition find_key :: "string \<Rightarrow> outbox_row list \<Rightarrow> outbox_row option" where
  "find_key k rs = find (\<lambda>r. ob_idempotency_key r = k) rs"

definition new_row :: "nat \<Rightarrow> string \<Rightarrow> json \<Rightarrow> nat \<Rightarrow> int \<Rightarrow> string \<Rightarrow> outbox_row" where
  "new_row i eventType payload version now key = \<lparr>
     ob_id = i, ob_event_type = Some eventType, ob_payload = payload, ob_status = OB_PENDING,
     ob_priority = MEDIUM, ob_retry_count = 0, ob_last_error = None, ob_next_retry_at = None,
     ob_created_at = now, ob_processed_at = None, ob_locked_at = None, ob_locked_by = None,
     ob_idempotency_key = key, ob_version = version \<rparr>"

datatype publish_error = Unknown_Versioned_Event_Type string

definition publish ::
    "string \<Rightarrow> json \<Rightarrow> nat \<Rightarrow> int \<Rightarrow> (int \<Rightarrow> string) \<Rightarrow> (outbox_table, publish_error, unit) action" where
  "publish eventType payload version now show_ms t =
    (if \<not> isValidVersionedEventType eventType
     then (t, Inl (Unknown_Versioned_Event_Type eventType))
     else
       let key = generateIdempotencyKey eventType payload now show_ms
       in case find_key key (ot_rows t) of
            Some _ \<Rightarrow> (t, Inr ())
          | None \<Rightarrow>
              (t\<lparr> ot_rows := ot_rows t @ [new_row (ot_next_id t) eventType payload version now key],
                  ot_next_id := ot_next_id t + 1 \<rparr>, Inr ()))"

section \<open>Handling\<close>

text \<open>The event a worker hands to the service.\<close>

record outbox_event =
  ev_id :: nat
  ev_eventType :: string
  ev_payload :: json
  ev_status :: outbox_status
  ev_priority :: outbox_priority
  ev_retryCount :: nat
  ev_lastError :: "string option"
  ev_nextRetryAt :: "int option"
  ev_createdAt :: int
  ev_processedAt :: "int option"
  ev_lockedAt :: "int option"
  ev_lockedBy :: "string option"
  ev_idempotencyKey :: string
  ev_version :: nat

text \<open>A handler works on the state \<^typ>\<open>'w\<close> of the services behind it and may
  throw an error, of which the callers only read the message.\<close>

type_synonym 'w handler = "outbox_event \<Rightarrow> ('w, string, unit) action"
type_synonym 'w registry = "string \<Rightarrow> 'w handler option"

definition register_handler :: "string \<Rightarrow> 'w handler \<Rightarrow> 'w registry \<Rightarrow> 'w registry" where
  "register_handler eventType h reg = reg(eventType \<mapsto> h)"

definition registry_handle :: "'w registry \<Rightarrow> 'w handler" where
  "registry_handle reg event w = (case reg (ev_eventType event) of
      None \<Rightarrow> (w, Inl (''No handler registered for event type: '' @ ev_eventType event))
    | Some h \<Rightarrow> h event w)"

definition validateHandlers :: "'w registry \<Rightarrow> string list \<Rightarrow> string list + unit" where
  "validateHandlers reg required =
    (let missing = filter (\<lambda>t. reg t = None) required
     in if missing \<noteq> [] then Inl missing else Inr ())"

text \<open>The message of the error a guarded call ends with.\<close>

fun breaker_message :: "string breaker_error \<Rightarrow> string" where
  "breaker_message (Breaker_Open name) = ''Circuit breaker OPEN for '' @ name @ '' - service degraded''"
| "breaker_message (Half_Open_Limit name) = ''Circuit breaker HALF_OPEN limit reached for '' @ name"
| "breaker_message (Call_Failed msg) = msg"

definition handle_config :: breaker_config where
  "handle_config = \<lparr> failureThreshold = 5, recoveryTimeout = 300000,
     halfOpenMaxCalls = 3, monitoringWindow = 600000 \<rparr>"

definition handle_event ::
    "'w registry option \<Rightarrow> outbox_event \<Rightarrow> int \<Rightarrow> int \<Rightarrow> (circuits \<times> 'w, string, unit) action" where
  "handle_event reg event now later st =
    (if ev_eventType event = []
     then (st, Inl (''Missing eventType for outbox event '' @ nat_str (ev_id event)))
     else
       let fn = (\<lambda>w. case reg of
                   None \<Rightarrow> (w, Inl ''HandlerRegistry not injected - cannot process outbox event'')
                 | Some g \<Rightarrow> registry_handle g event w)
       in case execute_breaker (''handler_'' @ ev_eventType event) fn handle_config now later st of
            (st', Inr _) \<Rightarrow> (st', Inr ())
          | (st', Inl err) \<Rightarrow> (st', Inl (breaker_message err)))"

definition markAsProcessed :: "nat \<Rightarrow> int \<Rightarrow> outbox_row list \<Rightarrow> outbox_row list" where
  "markAsProcessed i now =
     update_rows (\<lambda>r. ob_id r = i) (\<lambda>r. r\<lparr> ob_status := OB_COMPLETED, ob_processed_at := Some now \<rparr>)"

section \<open>Well-formed tables\<close>

definition outbox_wf :: "outbox_table \<Rightarrow> bool" where
  "outbox_wf t \<longleftrightarrow> distinct (map ob_id (ot_rows t))
     \<and> distinct (map ob_idempotency_key (ot_rows t))
     \<and> (\<forall>r \<in> set (ot_rows t). ob_id r < ot_next_id t)"

lemma find_key_None: "find_key k rs = None \<longleftrightarrow> k \<notin> ob_idempotency_key ` set rs"
  by (auto simp: find_key_def find_None_iff)

lemma find_key_Some: "find_key k rs = Some r \<Longrightarrow> r \<in> set rs \<and> ob_idempotency_key r = k"
  by (auto simp: find_key_def find_Some_iff)

lemma new_row_simps [simp, row_simps]:
  "ob_id (new_row i ty p v now k) = i"
  "ob_idempotency_key (new_row i ty p v now k) = k"
  "ob_event_type (new_row i ty p v now k) = Some ty"
  "ob_payload (new_row i ty p v now k) = p"
  "ob_status (new_row i ty p v now k) = OB_PENDING"
  "ob_retry_count (new_row i ty p v now k) = 0"
  "ob_next_retry_at (new_row i ty p v now k) = None"
  "ob_locked_at (new_row i ty p v now k) = None"
  by (simp_all add: new_row_def)

lemma publish_cases:
  assumes "publish ty p v now sh t = (t', r)"
  obtains (invalid) "\<not> isValidVersionedEventType ty" "t' = t" "r = Inl (Unknown_Versioned_Event_Type ty)"
  | (duplicate) "isValidVersionedEventType ty" "t' = t" "r = Inr ()"
      "generateIdempotencyKey ty p now sh \<in> ob_idempotency_key ` set (ot_rows t)"
  | (added) "isValidVersionedEventType ty" "r = Inr ()"
      "generateIdempotencyKey ty p now sh \<notin> ob_idempotency_key ` set (ot_rows t)"
      "t' = t\<lparr> ot_rows := ot_rows t
          @ [new_row (ot_next_id t) ty p v now (generateIdempotencyKey ty p now sh)],
          ot_next_id := ot_next_id t + 1 \<rparr>"
proof (cases "isValidVersionedEventType ty")
  case False
  then show thesis
    using assms invalid by (simp add: publish_def)
next
  case True
  show thesis
  proof (cases "find_key (generateIdempotencyKey ty p now sh) (ot_rows t)")
    case None
    then show thesis
      using True assms added[OF True] find_key_None[THEN iffD1, OF None]
      by (simp add: publish_def Let_def)
  next
    case (Some x)
    then have "generateIdempotencyKey ty p now sh \<in> ob_idempotency_key ` set (ot_rows t)"
      by (metis find_key_None option.distinct(1))
    then show thesis
      using True Some assms duplicate[OF True] by (simp add: publish_def Let_def)
  qed
qed

lemma publish_wf:
  assumes "outbox_wf t" "publish ty p v now sh t = (t', r)"
  shows "outbox_wf t'"
  using assms(2)
proof (cases rule: publish_cases)
  case added
  then show ?thesis
    using assms(1) by (auto simp: outbox_wf_def less_Suc_eq)
qed (use assms(1) in auto)

lemma publish_rows_grow:
  assumes "publish ty p v now sh t = (t', r)"
  shows "\<exists>new. ot_rows t' = ot_rows t @ new \<and> length new \<le> 1"
  using assms by (cases rule: publish_cases) auto

lemma key_prefix: "\<exists>rest. generateIdempotencyKey ty p now sh = ty @ CHR '':'' # rest"
  by (auto simp: generateIdempotencyKey_def split: option.splits)

lemma upper_not_colon: "upper_or_underscore c \<Longrightarrow> c \<noteq> CHR '':''"
  by (auto simp: upper_or_underscore_def)

lemma valid_type_no_colon:
  assumes "isValidVersionedEventType ty"
  shows "CHR '':'' \<notin> set ty"
proof -
  let ?n = "length ty - 3"
  have p: "list_all upper_or_underscore (take ?n ty)" and q: "drop ?n ty \<in> {''_V1'', ''_V2'', ''_V3''}"
    using assms by (auto simp: isValidVersionedEventType_def Let_def)
  have "CHR '':'' \<notin> set (take ?n ty)"
    using p upper_not_colon by (auto simp: list_all_iff)
  moreover have "CHR '':'' \<notin> set (drop ?n ty)"
    using q by auto
  ultimately show ?thesis
    by (metis Un_iff append_take_drop_id set_append)
qed

lemma colon_split:
  assumes "CHR '':'' \<notin> set a" "CHR '':'' \<notin> set b" "a @ CHR '':'' # u = b @ CHR '':'' # v"
  shows "a = b"
  using assms
proof (induction a arbitrary: b)
  case Nil
  then show ?case by (cases b) auto
next
  case (Cons c a)
  then show ?case by (cases b) auto
qed

section \<open>Properties\<close>

text \<open>A payload that names an order or a delivery has a key that does not depend on
  the time; any other has the time of its publication as key.\<close>

definition stable_payload :: "json \<Rightarrow> bool" where
  "stable_payload p \<longleftrightarrow> str_field ''sellerOrderId'' p \<noteq> None \<or> str_field ''deliveryId'' p \<noteq> None"

lemma stable_key: "stable_payload p \<Longrightarrow> generateIdempotencyKey ty p now sh = generateIdempotencyKey ty p now' sh"
  by (auto simp: stable_payload_def generateIdempotencyKey_def split: option.split)

lemma unstable_key: "\<not> stable_payload p \<Longrightarrow> generateIdempotencyKey ty p now sh = ty @ '':ts:'' @ sh now"
  by (simp add: stable_payload_def generateIdempotencyKey_def)

lemma publish_again:
  assumes "isValidVersionedEventType ty"
  shows "publish ty p v now sh t = (if generateIdempotencyKey ty p now sh \<in> ob_idempotency_key ` set (ot_rows t)
    then (t, Inr ())
    else (t\<lparr> ot_rows := ot_rows t @ [new_row (ot_next_id t) ty p v now (generateIdempotencyKey ty p now sh)],
             ot_next_id := ot_next_id t + 1 \<rparr>, Inr ()))"
  using assms find_key_None[of "generateIdempotencyKey ty p now sh" "ot_rows t"]
  by (auto simp: publish_def Let_def split: option.splits)

text \<open>C4: Publishing keeps the table well formed (one row per generated id and per
  idempotency key), never removes or rewrites a row, appends at most one
  pending row, and afterwards a valid event's key is present. Publishing the payload again,
  at any later time, then changes nothing when the payload names an order or a delivery, or
  when the two times are written alike; any other payload, whose key is the time of its
  publication, is appended a second time unless another event has the key of that moment.\<close>

theorem publish_idempotent_append:
  assumes "outbox_wf t" "publish ty p v now sh t = (t', r)"
  shows "outbox_wf t' \<and> (\<exists>new. ot_rows t' = ot_rows t @ new \<and> length new \<le> 1
            \<and> (\<forall>x \<in> set new. ob_status x = OB_PENDING \<and> ob_event_type x = Some ty \<and> ob_payload x = p))
    \<and> (r = Inr () \<longrightarrow> generateIdempotencyKey ty p now sh \<in> ob_idempotency_key ` set (ot_rows t')
         \<and> (if stable_payload p \<or> sh now' = sh now
            then publish ty p v' now' sh t' = (t', Inr ())
            else (ty @ '':ts:'' @ sh now' \<in> ob_idempotency_key ` set (ot_rows t)
              \<or> ot_rows (fst (publish ty p v' now' sh t'))
                = ot_rows t' @ [new_row (ot_next_id t') ty p v' now' (ty @ '':ts:'' @ sh now')])))"
proof -
  have wf: "outbox_wf t'" using publish_wf assms .
  have again: "publish ty p v' now' sh t' = (t', Inr ())"
    if "isValidVersionedEventType ty" "generateIdempotencyKey ty p now sh \<in> ob_idempotency_key ` set (ot_rows t')"
      "stable_payload p \<or> sh now' = sh now"
  proof -
    have "generateIdempotencyKey ty p now' sh = generateIdempotencyKey ty p now sh"
      using that(3) stable_key unstable_key by metis
    then show ?thesis using publish_again[OF that(1)] that(2) by simp
  qed
  have anew: "ot_rows (fst (publish ty p v' now' sh t'))
      = ot_rows t' @ [new_row (ot_next_id t') ty p v' now' (ty @ '':ts:'' @ sh now')]"
    if "isValidVersionedEventType ty" "\<not> stable_payload p"
      "ty @ '':ts:'' @ sh now' \<notin> ob_idempotency_key ` set (ot_rows t')"
    using publish_again[OF that(1), of p v' now' sh t'] unstable_key[OF that(2)] that(3) by simp
  show ?thesis
    using assms(2)
  proof (cases rule: publish_cases)
    case added
    then show ?thesis using wf again anew unstable_key by auto
  qed (use wf again anew unstable_key in auto)
qed

text \<open>Events of two different versioned types never share an idempotency
  key, whatever their payloads and times.\<close>

theorem idempotency_key_separates_types:
  assumes "isValidVersionedEventType ty1" "isValidVersionedEventType ty2" "ty1 \<noteq> ty2"
  shows "generateIdempotencyKey ty1 p1 now1 sh \<noteq> generateIdempotencyKey ty2 p2 now2 sh"
proof
  assume eq: "generateIdempotencyKey ty1 p1 now1 sh = generateIdempotencyKey ty2 p2 now2 sh"
  obtain u v where "generateIdempotencyKey ty1 p1 now1 sh = ty1 @ CHR '':'' # u"
    and "generateIdempotencyKey ty2 p2 now2 sh = ty2 @ CHR '':'' # v"
    using key_prefix by meson
  then have "ty1 @ CHR '':'' # u = ty2 @ CHR '':'' # v"
    using eq by simp
  then show False
    using colon_split valid_type_no_colon assms by blast
qed

text \<open>Two events of one type whose payloads carry neither an order nor a
  delivery and that are published within one millisecond get one key, so the
  second is dropped although its payload is another one.\<close>

theorem timestamp_key_drops_event:
  assumes "str_field ''sellerOrderId'' p1 = None" "str_field ''deliveryId'' p1 = None"
    and "str_field ''sellerOrderId'' p2 = None" "str_field ''deliveryId'' p2 = None"
    and "publish ty p1 v now sh t = (t1, Inr ())"
  shows "publish ty p2 v now sh t1 = (t1, Inr ())"
proof -
  have same: "generateIdempotencyKey ty p2 now sh = generateIdempotencyKey ty p1 now sh"
    using assms(1-4) by (simp add: generateIdempotencyKey_def)
  have "isValidVersionedEventType ty"
    using assms(5) by (auto simp: publish_def split: if_splits)
  moreover have "generateIdempotencyKey ty p1 now sh \<in> ob_idempotency_key ` set (ot_rows t1)"
    using assms(5) by (cases rule: publish_cases) auto
  ultimately show ?thesis
    using find_key_None[of "generateIdempotencyKey ty p1 now sh" "ot_rows t1"]
    by (auto simp: publish_def Let_def same split: option.splits)
qed

section \<open>Concrete publications\<close>

definition empty_outbox :: outbox_table where
  "empty_outbox = \<lparr> ot_rows = [], ot_next_id = 1 \<rparr>"

definition render_ms :: "int \<Rightarrow> string" where
  "render_ms t = nat_str (nat t)"

definition once_published :: outbox_table where
  "once_published = fst (publish ''DELIVERY_FAILED_V1'' (JObj [(''sellerOrderId'', JStr ''o1'')]) 1 5 render_ms empty_outbox)"

theorem publish_idempotent_append_witness:
  "outbox_wf once_published
    \<and> publish ''DELIVERY_FAILED_V1'' (JObj [(''sellerOrderId'', JStr ''o1'')]) 1 6 render_ms once_published = (once_published, Inr ())"
proof -
  let ?p = "JObj [(''sellerOrderId'', JStr ''o1'')]"
  have v: "isValidVersionedEventType ''DELIVERY_FAILED_V1''"
    by (simp add: isValidVersionedEventType_def upper_or_underscore_def)
  have p: "publish ''DELIVERY_FAILED_V1'' ?p 1 5 render_ms empty_outbox = (once_published, Inr ())"
    by (simp add: once_published_def publish_again[OF v] empty_outbox_def)
  have "outbox_wf empty_outbox" by (simp add: outbox_wf_def empty_outbox_def)
  moreover have "stable_payload ?p" by (simp add: stable_payload_def)
  ultimately show ?thesis using publish_idempotent_append[OF _ p, of 6 1] by simp
qed

theorem idempotency_key_separates_types_witness:
  "generateIdempotencyKey ''DELIVERY_FAILED_V1'' (JObj [(''sellerOrderId'', JStr ''o1'')]) 5 render_ms
   \<noteq> generateIdempotencyKey ''DELIVERY_FAILED_V2'' (JObj [(''sellerOrderId'', JStr ''o1'')]) 5 render_ms"
  by (rule idempotency_key_separates_types)
    (simp_all add: isValidVersionedEventType_def upper_or_underscore_def)

theorem timestamp_key_drops_event_witness:
  "snd (publish ''DRIVER_ONLINE_V1'' (JObj [(''driverId'', JStr ''d1'')]) 1 5 render_ms empty_outbox) = Inr ()
   \<and> publish ''DRIVER_ONLINE_V1'' (JObj [(''driverId'', JStr ''d2'')]) 1 5 render_ms
       (fst (publish ''DRIVER_ONLINE_V1'' (JObj [(''driverId'', JStr ''d1'')]) 1 5 render_ms empty_outbox))
     = (fst (publish ''DRIVER_ONLINE_V1'' (JObj [(''driverId'', JStr ''d1'')]) 1 5 render_ms empty_outbox), Inr ())"
proof -
  have v: "isValidVersionedEventType ''DRIVER_ONLINE_V1''"
    by (simp add: isValidVersionedEventType_def upper_or_underscore_def)
  obtain t1 where p: "publish ''DRIVER_ONLINE_V1'' (JObj [(''driverId'', JStr ''d1'')]) 1 5 render_ms empty_outbox
      = (t1, Inr ())"
    using v by (simp add: publish_def Let_def empty_outbox_def find_key_def)
  show ?thesis
    using timestamp_key_drops_event[OF _ _ _ _ p, of "JObj [(''driverId'', JStr ''d2'')]"] p by simp
qed

end
