(* ===== verification/Worker_Lifecycle.thy ===== *)
theory Worker_Lifecycle
  imports Prelude
begin

text \<open>
  \<^verbatim>\<open>domain-events/worker-lifecycle.service.ts\<close> (the events in flight, the active
  workers and the graceful shutdown) and the batch sizing of
  \<^verbatim>\<open>domain-events/adaptive-batch.service.ts\<close>. The floating-point numbers of the
  latter are rationals.
\<close>

section \<open>Lifecycle\<close>

record lifecycle =
  lc_shutdownRequested :: bool
  lc_processingEvents :: "nat set"
  lc_activeWorkers :: "string set"

definition shutdownTimeout :: int where
  "shutdownTimeout = 30000"

definition initial_lifecycle :: lifecycle where
  "initial_lifecycle = \<lparr> lc_shutdownRequested = False, lc_processingEvents = {}, lc_activeWorkers = {} \<rparr>"

definition addProcessingEvent :: "nat \<Rightarrow> string \<Rightarrow> lifecycle \<Rightarrow> lifecycle" where
  "addProcessingEvent e w lc = lc\<lparr> lc_processingEvents := insert e (lc_processingEvents lc),
     lc_activeWorkers := insert w (lc_activeWorkers lc) \<rparr>"

definition removeProcessingEvent :: "nat \<Rightarrow> string \<Rightarrow> lifecycle \<Rightarrow> lifecycle" where
  "removeProcessingEvent e w lc =
    (let lc1 = lc\<lparr> lc_processingEvents := lc_processingEvents lc - {e} \<rparr>
     in if lc_processingEvents lc1 = {}
        then lc1\<lparr> lc_activeWorkers := lc_activeWorkers lc1 - {w} \<rparr> else lc1)"

definition isShutdownRequested :: "lifecycle \<Rightarrow> bool" where
  "isShutdownRequested lc = lc_shutdownRequested lc"

datatype shutdown_outcome = Already_In_Progress | Completed | Timed_Out

text \<open>\<^verbatim>\<open>sizes ! i\<close> is the number of events in flight at the i-th poll (the initial
  check, then one every second); the timeout beats the poll of its own second.\<close>

definition shutdown :: "nat list \<Rightarrow> lifecycle \<Rightarrow> lifecycle \<times> shutdown_outcome" where
  "shutdown sizes lc =
    (if lc_shutdownRequested lc then (lc, Already_In_Progress)
     else (lc\<lparr> lc_shutdownRequested := True \<rparr>,
           if 0 \<in> set (take (nat (shutdownTimeout div 1000)) sizes) then Completed else Timed_Out))"

definition forceShutdown :: "lifecycle \<Rightarrow> lifecycle" where
  "forceShutdown lc = lc\<lparr> lc_shutdownRequested := True, lc_processingEvents := {}, lc_activeWorkers := {} \<rparr>"

text \<open>\<^verbatim>\<open>onModuleDestroy\<close> of the outbox worker.\<close>

definition worker_destroy :: "nat list \<Rightarrow> lifecycle \<Rightarrow> lifecycle" where
  "worker_destroy sizes lc = (case shutdown sizes lc of
      (lc', Timed_Out) \<Rightarrow> forceShutdown lc'
    | (lc', _) \<Rightarrow> lc')"

text \<open>The clock is read twice: \<^verbatim>\<open>now1\<close> first, and \<^verbatim>\<open>now2\<close> when a shutdown is on.\<close>

definition getShutdownStatus :: "int \<Rightarrow> int \<Rightarrow> lifecycle \<Rightarrow> bool \<times> nat \<times> int" where
  "getShutdownStatus now1 now2 lc =
    (let elapsed = now1 - (if lc_shutdownRequested lc then now2 else 0)
     in (lc_shutdownRequested lc, card (lc_processingEvents lc), max 0 (shutdownTimeout - elapsed)))"

lemma shutdown_requests: "lc_shutdownRequested (fst (shutdown sizes lc))"
  by (simp add: shutdown_def)

lemma worker_destroy_requests: "lc_shutdownRequested (worker_destroy sizes lc)"
  using shutdown_requests[of sizes lc]
  by (auto simp: worker_destroy_def forceShutdown_def split: prod.splits shutdown_outcome.splits)

lemma add_remove_processing:
  "e \<notin> lc_processingEvents lc \<Longrightarrow>
   lc_processingEvents (removeProcessingEvent e w (addProcessingEvent e w lc)) = lc_processingEvents lc"
  by (auto simp: addProcessingEvent_def removeProcessingEvent_def Let_def)

text \<open>The remaining shutdown time of the health check never counts down: while a
  shutdown is on it is the full timeout up to the drift between the two clock
  readings of the one call, however long ago the shutdown was requested, and
  before any shutdown it is 0 as soon as the clock has passed the timeout.\<close>

theorem shutdown_time_never_counts_down:
  "snd (snd (getShutdownStatus now1 now2 (fst (shutdown sizes lc)))) = max 0 (30000 - (now1 - now2))
   \<and> (\<not> lc_shutdownRequested lc \<and> 30000 \<le> now1 \<longrightarrow>
        snd (snd (getShutdownStatus now1 now2 lc)) = 0)"
  using shutdown_requests[of sizes lc]
  by (simp add: getShutdownStatus_def shutdownTimeout_def Let_def)

theorem shutdown_time_never_counts_down_witness:
  "\<not> lc_shutdownRequested initial_lifecycle \<and> (30000::int) \<le> 1700000000000
   \<and> snd (snd (getShutdownStatus 1700000000000 1700000000000 initial_lifecycle)) = 0"
  using shutdown_time_never_counts_down[of 1700000000000 1700000000000 "[]" initial_lifecycle]
  by (simp add: initial_lifecycle_def)

section \<open>Adaptive batch size\<close>

record batch_state =
  bs_currentBatchSize :: int
  bs_lastAdjustmentTime :: int

text \<open>The aggregate over the tracker table that the sizing reads.\<close>

record batch_stats =
  st_totalEvents :: nat
  st_completedEvents :: nat
  st_avgDuration :: rat
  st_maxDuration :: rat
  st_durationStdDev :: rat

definition calculateSystemLoad :: "rat \<Rightarrow> rat \<Rightarrow> rat \<Rightarrow> rat \<Rightarrow> rat" where
  "calculateSystemLoad successRate avgDuration maxDuration durationStdDev =
    (let successRateLoad = 1 - successRate;
         durationLoad = min (avgDuration / (5000 * 2)) 1;
         variabilityLoad = (if durationStdDev > 0 then min (durationStdDev / avgDuration) 1 else 0);
         load = successRateLoad * (4/10) + durationLoad * (4/10) + variabilityLoad * (2/10)
     in max 0 (min 1 load))"

definition batch_adjustment :: "rat \<Rightarrow> rat \<Rightarrow> rat \<Rightarrow> rat" where
  "batch_adjustment successRate avgDuration systemLoad =
    (let a1 = (if successRate < 95/100 then - ((95/100 - successRate) * 2)
               else if successRate > 99/100 then 1/10 else 0);
         a2 = (if avgDuration > 5000 then a1 - (avgDuration - 5000) / 5000
               else if avgDuration < 5000 * (1/2) then a1 + 2/10 else a1)
     in if systemLoad > 8/10 then a2 - 3/10
        else if systemLoad < 3/10 then a2 + 2/10 else a2)"

definition calculateOptimalBatchSize :: "batch_stats \<Rightarrow> int \<Rightarrow> int" where
  "calculateOptimalBatchSize st current =
    (if st_totalEvents st < 10 then 50
     else
       let successRate = (if st_totalEvents st > 0
             then of_nat (st_completedEvents st) / of_nat (st_totalEvents st) else 0);
           systemLoad = calculateSystemLoad successRate (st_avgDuration st)
             (st_maxDuration st) (st_durationStdDev st);
           adjustment = batch_adjustment successRate (st_avgDuration st) systemLoad;
           newBatchSize = js_round (of_int current * (1 + adjustment * (1/10)))
       in max 10 (min 100 newBatchSize))"

text \<open>\<^verbatim>\<open>stats\<close> is \<^const>\<open>None\<close> when the query fails.\<close>

definition getOptimalBatchSize ::
    "batch_stats option \<Rightarrow> int \<Rightarrow> batch_state \<Rightarrow> batch_state \<times> int" where
  "getOptimalBatchSize stats now bs =
    (if now - bs_lastAdjustmentTime bs < 5 * 60 * 1000 then (bs, bs_currentBatchSize bs)
     else case stats of
        None \<Rightarrow> (bs, bs_currentBatchSize bs)
      | Some st \<Rightarrow>
          (let optimalSize = calculateOptimalBatchSize st (bs_currentBatchSize bs)
           in (bs\<lparr> bs_currentBatchSize := optimalSize, bs_lastAdjustmentTime := now \<rparr>, optimalSize)))"

definition resetBatchSize :: "int \<Rightarrow> batch_state \<Rightarrow> batch_state" where
  "resetBatchSize now bs = bs\<lparr> bs_currentBatchSize := 50, bs_lastAdjustmentTime := now \<rparr>"

text \<open>A run of sizing calls, each with the statistics and the time it sees.\<close>

fun sizing_run :: "(batch_stats option \<times> int) list \<Rightarrow> batch_state \<Rightarrow> batch_state" where
  "sizing_run [] bs = bs"
| "sizing_run ((st, now) # xs) bs = sizing_run xs (fst (getOptimalBatchSize st now bs))"

lemma calculateOptimalBatchSize_bounds:
  "10 \<le> calculateOptimalBatchSize st c \<and> calculateOptimalBatchSize st c \<le> 100"
  by (simp add: calculateOptimalBatchSize_def Let_def)

lemma sizing_step:
  assumes "10 \<le> bs_currentBatchSize bs \<and> bs_currentBatchSize bs \<le> 100"
  shows "10 \<le> bs_currentBatchSize (fst (getOptimalBatchSize st now bs))
    \<and> bs_currentBatchSize (fst (getOptimalBatchSize st now bs)) \<le> 100
    \<and> snd (getOptimalBatchSize st now bs) = bs_currentBatchSize (fst (getOptimalBatchSize st now bs))"
  using assms calculateOptimalBatchSize_bounds
  by (auto simp: getOptimalBatchSize_def Let_def split: option.splits)

lemma sizing_run_bounds:
  "10 \<le> bs_currentBatchSize bs \<and> bs_currentBatchSize bs \<le> 100 \<Longrightarrow>
   10 \<le> bs_currentBatchSize (sizing_run xs bs) \<and> bs_currentBatchSize (sizing_run xs bs) \<le> 100"
proof (induction xs arbitrary: bs)
  case (Cons x xs)
  then show ?case using sizing_step by (cases x) auto
qed simp

lemma calculateSystemLoad_bounds:
  "0 \<le> calculateSystemLoad s a m d \<and> calculateSystemLoad s a m d \<le> 1"
  by (simp add: calculateSystemLoad_def Let_def)

lemma js_round_shrinks:
  assumes "0 \<le> c" "a \<le> 0"
  shows "js_round (of_int c * (1 + a * (1/10))) \<le> c"
proof -
  have "a * of_int c \<le> 0"
    using assms by (simp add: mult_nonpos_nonneg)
  then have "of_int c * (1 + a * (1/10)) \<le> (of_int c :: rat)"
    by (simp add: algebra_simps)
  then show ?thesis using js_round_mono js_round_int by metis
qed

lemma batch_adjustment_overload:
  "s < 85/100 \<Longrightarrow> 2500 \<le> d \<Longrightarrow> batch_adjustment s d l \<le> 0"
  by (auto simp: batch_adjustment_def Let_def field_simps)

text \<open>A history of failing, slow events never grows the batch: with at least
  ten events, a success rate below 85% and an average duration of
  at least half the target, the next size is at most the current one.\<close>

theorem overload_never_grows_batch:
  assumes "10 \<le> st_totalEvents st"
    and "of_nat (st_completedEvents st) / of_nat (st_totalEvents st) < (85/100 :: rat)"
    and "2500 \<le> st_avgDuration st" "10 \<le> current"
  shows "calculateOptimalBatchSize st current \<le> current"
proof -
  let ?s = "of_nat (st_completedEvents st) / of_nat (st_totalEvents st) :: rat"
  have pos: "0 < st_totalEvents st" using assms(1) by simp
  define l where "l = calculateSystemLoad ?s (st_avgDuration st) (st_maxDuration st) (st_durationStdDev st)"
  have "batch_adjustment ?s (st_avgDuration st) l \<le> 0"
    using assms(2,3) by (rule batch_adjustment_overload)
  then have "js_round (of_int current * (1 + batch_adjustment ?s (st_avgDuration st) l * (1/10))) \<le> current"
    using assms(4) by (intro js_round_shrinks) auto
  then show ?thesis
    using assms(1,4) pos by (simp add: calculateOptimalBatchSize_def Let_def l_def)
qed

theorem overload_never_grows_batch_witness:
  "calculateOptimalBatchSize \<lparr> st_totalEvents = 20, st_completedEvents = 10, st_avgDuration = 6000,
     st_maxDuration = 9000, st_durationStdDev = 100 \<rparr> 50 \<le> 50"
  by (rule overload_never_grows_batch) simp_all

end
