(* ===== verification/Outbox_Worker.thy ===== *)
theory Outbox_Worker
  imports Prelude Outbox_Service Worker_Lifecycle "HOL-Library.Product_Lexorder"
    "HOL-Library.Sublist"
begin

text \<open>
  \<^verbatim>\<open>domain-events/outbox.worker.ts\<close>: one polling round of a worker (release of stale
  locks, claim of a batch, delivery of each claimed event, completion, retry
  with backoff or failure), and the step relation of several workers on one
  table whose deliveries overlap. Times are milliseconds. The statements of a
  round are atomic, as the database makes them.
\<close>

section \<open>Claiming\<close>

record raw_row =
  rr_id :: nat
  rr_event_type :: string
  rr_payload :: json
  rr_status :: outbox_status
  rr_retry_count :: nat
  rr_last_error :: "string option"
  rr_next_retry_at :: "int option"
  rr_created_at :: int
  rr_processed_at :: "int option"
  rr_locked_at :: "int option"
  rr_locked_by :: "string option"
  rr_idempotency_key :: "string option"
  rr_version :: "nat option"

definition MAX_RETRIES :: nat where
  "MAX_RETRIES = 10"

definition releaseStaleLocks :: "int \<Rightarrow> outbox_row list \<Rightarrow> outbox_row list" where
  "releaseStaleLocks now =
     update_rows (\<lambda>r. ob_status r = OB_PROCESSING
                    \<and> (\<exists>l \<in> set_option (ob_locked_at r). l < now - 120 * 1000))
       (\<lambda>r. r\<lparr> ob_status := OB_PENDING, ob_locked_at := None, ob_locked_by := None \<rparr>)"

fun priority_rank :: "outbox_priority \<Rightarrow> nat" where
  "priority_rank HIGH = 0"
| "priority_rank MEDIUM = 1"
| "priority_rank LOW = 2"

definition claimable :: "int \<Rightarrow> outbox_row \<Rightarrow> bool" where
  "claimable now r \<longleftrightarrow> ob_status r = OB_PENDING
     \<and> (case ob_next_retry_at r of None \<Rightarrow> True | Some t \<Rightarrow> t \<le> now)
     \<and> ob_locked_at r = None"

definition claim_key :: "outbox_row \<Rightarrow> nat \<times> int" where
  "claim_key r = (priority_rank (ob_priority r), ob_created_at r)"

definition selectedRows :: "int \<Rightarrow> nat \<Rightarrow> outbox_row list \<Rightarrow> outbox_row list" where
  "selectedRows now limit rs = take limit (sort_key claim_key (filter (claimable now) rs))"

text \<open>The row given back names neither the key, the version nor the priority.\<close>

definition to_raw :: "outbox_row \<Rightarrow> string + raw_row" where
  "to_raw r = (case ob_event_type r of
      None \<Rightarrow> Inl (''STRUCTURAL_CORRUPTION: Row '' @ nat_str (ob_id r) @ '' missing event_type'')
    | Some ty \<Rightarrow> Inr \<lparr> rr_id = ob_id r, rr_event_type = ty,
        rr_payload = (if ob_payload r = JNull then JObj [] else ob_payload r),
        rr_status = ob_status r, rr_retry_count = ob_retry_count r,
        rr_last_error = ob_last_error r, rr_next_retry_at = ob_next_retry_at r,
        rr_created_at = ob_created_at r, rr_processed_at = ob_processed_at r,
        rr_locked_at = ob_locked_at r, rr_locked_by = ob_locked_by r,
        rr_idempotency_key = None, rr_version = None \<rparr>)"

fun collect_rows :: "outbox_row list \<Rightarrow> string + raw_row list" where
  "collect_rows [] = Inr []"
| "collect_rows (r # rs) = (case to_raw r of
      Inl e \<Rightarrow> Inl e
    | Inr x \<Rightarrow> (case collect_rows rs of Inl e \<Rightarrow> Inl e | Inr xs \<Rightarrow> Inr (x # xs)))"

definition claimBatch ::
    "int \<Rightarrow> string \<Rightarrow> nat \<Rightarrow> (outbox_row list, string, raw_row list) action" where
  "claimBatch now worker limit = transaction (\<lambda>rs.
     let sel = selectedRows now limit rs; ids = map ob_id sel
     in if sel = [] then (rs, Inr [])
        else (update_rows (\<lambda>r. ob_id r \<in> set ids)
                (\<lambda>r. r\<lparr> ob_status := OB_PROCESSING, ob_locked_at := Some now,
                        ob_locked_by := Some worker \<rparr>) rs,
              collect_rows sel))"

section \<open>Completion, retry and failure\<close>

definition markCompleted :: "nat \<Rightarrow> int \<Rightarrow> outbox_row list \<Rightarrow> outbox_row list" where
  "markCompleted i now = update_rows (\<lambda>r. ob_id r = i)
     (\<lambda>r. r\<lparr> ob_status := OB_COMPLETED, ob_processed_at := Some now, ob_last_error := None,
             ob_locked_at := None, ob_locked_by := None \<rparr>)"

definition calculateBackoff :: "nat \<Rightarrow> int" where
  "calculateBackoff retryCount = min (2 ^ retryCount) 300"

definition isStructuralError :: "raw_row \<Rightarrow> string \<Rightarrow> bool" where
  "isStructuralError raw msg \<longleftrightarrow>
     includes_str ''Unknown outbox event type'' msg
     \<or> includes_str ''Missing eventType'' msg
     \<or> includes_str ''No handler registered for'' msg
     \<or> rr_event_type raw = []"

definition next_retry_count :: "raw_row \<Rightarrow> string \<Rightarrow> nat" where
  "next_retry_count raw msg = (if isStructuralError raw msg then MAX_RETRIES else rr_retry_count raw + 1)"

definition handleFailure :: "raw_row \<Rightarrow> nat \<Rightarrow> string \<Rightarrow> int \<Rightarrow> outbox_row list \<Rightarrow> outbox_row list" where
  "handleFailure raw i msg now =
    (let retryCount = next_retry_count raw msg
     in if retryCount \<ge> MAX_RETRIES
        then update_rows (\<lambda>r. ob_id r = i)
          (\<lambda>r. r\<lparr> ob_status := OB_FAILED, ob_retry_count := retryCount,
                  ob_last_error := Some (take 500 msg), ob_locked_at := None, ob_locked_by := None \<rparr>)
        else update_rows (\<lambda>r. ob_id r = i)
          (\<lambda>r. r\<lparr> ob_status := OB_PENDING, ob_retry_count := retryCount,
                  ob_last_error := Some (take 500 msg),
                  ob_next_retry_at := Some (now + calculateBackoff retryCount * 1000),
                  ob_locked_at := None, ob_locked_by := None \<rparr>))"

definition forceFail :: "nat \<Rightarrow> string \<Rightarrow> outbox_row list \<Rightarrow> outbox_row list" where
  "forceFail i reason = update_rows (\<lambda>r. ob_id r = i)
     (\<lambda>r. r\<lparr> ob_status := OB_FAILED, ob_retry_count := MAX_RETRIES,
             ob_last_error := Some (''FORCE_FAIL: '' @ reason),
             ob_locked_at := None, ob_locked_by := None \<rparr>)"

definition toOutboxEvent :: "raw_row \<Rightarrow> string + outbox_event" where
  "toOutboxEvent row =
    (if rr_event_type row = []
     then Inl (''STRUCTURAL_CORRUPTION: Row '' @ nat_str (rr_id row) @ '' missing event_type in toOutboxEvent'')
     else Inr \<lparr> ev_id = rr_id row, ev_eventType = rr_event_type row, ev_payload = rr_payload row,
       ev_status = rr_status row, ev_priority = MEDIUM, ev_retryCount = rr_retry_count row,
       ev_lastError = rr_last_error row, ev_nextRetryAt = rr_next_retry_at row,
       ev_createdAt = rr_created_at row, ev_processedAt = rr_processed_at row,
       ev_lockedAt = rr_locked_at row, ev_lockedBy = rr_locked_by row,
       ev_idempotencyKey = (case rr_idempotency_key row of
           Some k \<Rightarrow> (if k = [] then ''BACKFILL_'' @ nat_str (rr_id row) else k)
         | None \<Rightarrow> ''BACKFILL_'' @ nat_str (rr_id row)),
       ev_version = (case rr_version row of Some v \<Rightarrow> (if v = 0 then 1 else v) | None \<Rightarrow> 1) \<rparr>)"

section \<open>One polling round\<close>

record 'w worker_sys =
  ws_rows :: "outbox_row list"
  ws_circuits :: circuits
  ws_lifecycle :: lifecycle
  ws_world :: 'w

definition processSingle ::
    "'w registry option \<Rightarrow> int \<Rightarrow> raw_row \<Rightarrow> outbox_event \<Rightarrow> 'w worker_sys \<Rightarrow> 'w worker_sys" where
  "processSingle reg now raw event s =
    (case handle_event reg event now now (ws_circuits s, ws_world s) of
       ((cs, w), Inr _) \<Rightarrow> s\<lparr> ws_circuits := cs, ws_world := w,
          ws_rows := markCompleted (ev_id event) now (ws_rows s) \<rparr>
     | ((cs, w), Inl msg) \<Rightarrow> s\<lparr> ws_circuits := cs, ws_world := w,
          ws_rows := handleFailure raw (ev_id event) msg now (ws_rows s) \<rparr>)"

text \<open>The task of one claimed row: \<^const>\<open>None\<close> when it rejects, which rejects
  \<^verbatim>\<open>Promise.all\<close>, or the success flag it resolves to.\<close>

definition process_row ::
    "'w registry option \<Rightarrow> string \<Rightarrow> int \<Rightarrow> raw_row \<Rightarrow> 'w worker_sys \<Rightarrow> 'w worker_sys \<times> bool option" where
  "process_row reg worker now raw s = (case toOutboxEvent raw of
      Inl _ \<Rightarrow> (s, None)
    | Inr event \<Rightarrow>
       if ev_eventType event = []
       then (s\<lparr> ws_rows := forceFail (ev_id event) ''NULL_EVENT_TYPE'' (ws_rows s) \<rparr>, Some False)
       else
         let s1 = s\<lparr> ws_lifecycle := addProcessingEvent (ev_id event) worker (ws_lifecycle s) \<rparr>;
             s2 = processSingle reg now raw event s1
         in (s2\<lparr> ws_lifecycle := removeProcessingEvent (ev_id event) worker (ws_lifecycle s2) \<rparr>, Some True))"

fun process_rows ::
    "'w registry option \<Rightarrow> string \<Rightarrow> int \<Rightarrow> raw_row list \<Rightarrow> 'w worker_sys \<Rightarrow> 'w worker_sys \<times> bool option list" where
  "process_rows reg worker now [] s = (s, [])"
| "process_rows reg worker now (raw # raws) s =
    (let (s1, r) = process_row reg worker now raw s;
         (s2, rs) = process_rows reg worker now raws s1
     in (s2, r # rs))"

text \<open>The counts a round logs; \<^const>\<open>None\<close> when it logs a failure or nothing.\<close>

definition process_round ::
    "'w registry option \<Rightarrow> string \<Rightarrow> nat \<Rightarrow> int \<Rightarrow> 'w worker_sys \<Rightarrow> 'w worker_sys \<times> (nat \<times> nat) option" where
  "process_round reg worker batchSize now s =
    (if isShutdownRequested (ws_lifecycle s) then (s, None)
     else
       let s1 = s\<lparr> ws_rows := releaseStaleLocks now (ws_rows s) \<rparr>
       in case claimBatch now worker batchSize (ws_rows s1) of
            (_, Inl _) \<Rightarrow> (s1, None)
          | (rows, Inr raws) \<Rightarrow>
              if raws = [] then (s1\<lparr> ws_rows := rows \<rparr>, None)
              else
                let (s2, rs) = process_rows reg worker now raws (s1\<lparr> ws_rows := rows \<rparr>)
                in (s2, if None \<in> set rs then None
                        else Some (count_rows (\<lambda>r. r = Some True) rs, count_rows (\<lambda>r. r = Some False) rs)))"

section \<open>Lemmas\<close>

lemma releaseStaleLocks_keeps [simp]:
  "map ob_id (releaseStaleLocks now rs) = map ob_id rs"
  "map ob_event_type (releaseStaleLocks now rs) = map ob_event_type rs"
  by (simp_all add: releaseStaleLocks_def map_update_rows)

lemma markCompleted_keeps [simp]:
  "map ob_id (markCompleted i now rs) = map ob_id rs"
  "map ob_event_type (markCompleted i now rs) = map ob_event_type rs"
  by (simp_all add: markCompleted_def map_update_rows)

lemma handleFailure_keeps [simp]:
  "map ob_id (handleFailure raw i msg now rs) = map ob_id rs"
  "map ob_event_type (handleFailure raw i msg now rs) = map ob_event_type rs"
  by (simp_all add: handleFailure_def map_update_rows Let_def)

lemma forceFail_keeps [simp]:
  "map ob_id (forceFail i reason rs) = map ob_id rs"
  "map ob_event_type (forceFail i reason rs) = map ob_event_type rs"
  by (simp_all add: forceFail_def map_update_rows)

lemma collect_rows_ids: "collect_rows sel = Inr raws \<Longrightarrow> list_all2 (\<lambda>r x. to_raw r = Inr x) sel raws"
  by (induction sel arbitrary: raws) (auto split: sum.splits)

lemma to_raw_id: "to_raw r = Inr x \<Longrightarrow> rr_id x = ob_id r \<and> Some (rr_event_type x) = ob_event_type r
    \<and> rr_retry_count x = ob_retry_count r"
  by (auto simp: to_raw_def split: option.splits)

lemma list_all2_to_raw_ids:
  "list_all2 (\<lambda>r x. to_raw r = Inr x) sel raws \<Longrightarrow> map rr_id raws = map ob_id sel"
  by (induction rule: list_all2_induct) (auto dest: to_raw_id)

lemma collect_rows_typed:
  "(\<And>r. r \<in> set sel \<Longrightarrow> ob_event_type r \<noteq> None) \<Longrightarrow> \<exists>raws. collect_rows sel = Inr raws"
proof (induction sel)
  case (Cons r sel)
  obtain x where "to_raw r = Inr x"
    using Cons.prems[of r] by (auto simp: to_raw_def)
  moreover obtain raws where "collect_rows sel = Inr raws"
    using Cons by auto
  ultimately show ?case by simp
qed simp

definition claim_rows :: "int \<Rightarrow> string \<Rightarrow> nat set \<Rightarrow> outbox_row list \<Rightarrow> outbox_row list" where
  "claim_rows now worker ids = update_rows (\<lambda>r. ob_id r \<in> ids)
     (\<lambda>r. r\<lparr> ob_status := OB_PROCESSING, ob_locked_at := Some now, ob_locked_by := Some worker \<rparr>)"

lemma claim_rows_empty [simp]: "claim_rows now w {} rs = rs"
  by (simp add: claim_rows_def update_rows_none)

lemma claim_rows_keeps [simp]:
  "map ob_id (claim_rows now w ids rs) = map ob_id rs"
  "map ob_event_type (claim_rows now w ids rs) = map ob_event_type rs"
  by (simp_all add: claim_rows_def map_update_rows)

lemma claimBatch_ok:
  assumes "claimBatch now w n rs = (rs', Inr raws)"
  shows "list_all2 (\<lambda>r x. to_raw r = Inr x) (selectedRows now n rs) raws"
    and "map rr_id raws = map ob_id (selectedRows now n rs)"
    and "rs' = claim_rows now w (rr_id ` set raws) rs"
proof -
  show 1: "list_all2 (\<lambda>r x. to_raw r = Inr x) (selectedRows now n rs) raws"
    using assms by (auto simp: claimBatch_def transaction_ok Let_def collect_rows_ids split: if_splits)
  show 2: "map rr_id raws = map ob_id (selectedRows now n rs)"
    using list_all2_to_raw_ids[OF 1] .
  have "rr_id ` set raws = ob_id ` set (selectedRows now n rs)"
    using 2 by (metis list.set_map)
  then show "rs' = claim_rows now w (rr_id ` set raws) rs"
    using assms 1 by (auto simp: claimBatch_def transaction_ok Let_def claim_rows_def split: if_splits
        intro!: update_rows_none[symmetric])
qed

lemma selected_claimable:
  assumes "r \<in> set (selectedRows now n rs)"
  shows "r \<in> set rs" "claimable now r"
  using assms set_take_sort_key[of n claim_key "filter (claimable now) rs"]
  by (auto simp: selectedRows_def)

lemma selected_distinct: "distinct (map ob_id rs) \<Longrightarrow> distinct (map ob_id (selectedRows now n rs))"
  unfolding selectedRows_def by (intro distinct_take_sort_key distinct_map_filter)

lemma selected_length: "length (selectedRows now n rs) \<le> n"
  by (simp add: selectedRows_def)

lemma not_selected:
  assumes "r \<in> set rs" "claimable now r" "r \<notin> set (selectedRows now n rs)"
  shows "r \<in> set (drop n (sort_key claim_key (filter (claimable now) rs)))"
proof -
  have "r \<in> set (sort_key claim_key (filter (claimable now) rs))"
    using assms by simp
  then have "r \<in> set (take n (sort_key claim_key (filter (claimable now) rs)))
      \<union> set (drop n (sort_key claim_key (filter (claimable now) rs)))"
    by (metis append_take_drop_id set_append)
  then show ?thesis using assms(3) by (auto simp: selectedRows_def)
qed

lemma claim_is_best:
  assumes "r \<in> set rs" "claimable now r" "r \<notin> set (selectedRows now n rs)"
  shows "length (selectedRows now n rs) = n"
    and "q \<in> set (selectedRows now n rs) \<Longrightarrow> claim_key q \<le> claim_key r"
proof -
  have d: "r \<in> set (drop n (sort_key claim_key (filter (claimable now) rs)))"
    using not_selected[OF assms] .
  then have "n < length (sort_key claim_key (filter (claimable now) rs))"
    by (metis drop_all empty_iff leI list.set(1))
  then show "length (selectedRows now n rs) = n"
    by (simp add: selectedRows_def)
  show "claim_key q \<le> claim_key r" if "q \<in> set (selectedRows now n rs)"
    using that d take_sort_key_least by (metis selectedRows_def)
qed

lemma selected_iff_id:
  assumes "distinct (map ob_id rs)" "r \<in> set rs"
  shows "ob_id r \<in> ob_id ` set (selectedRows now n rs) \<longleftrightarrow> r \<in> set (selectedRows now n rs)"
proof
  assume "ob_id r \<in> ob_id ` set (selectedRows now n rs)"
  then obtain q where "q \<in> set (selectedRows now n rs)" "ob_id q = ob_id r" by auto
  moreover have "inj_on ob_id (set rs)" using assms(1) by (simp add: distinct_map)
  ultimately show "r \<in> set (selectedRows now n rs)"
    using assms(2) selected_claimable(1) inj_onD by fastforce
qed simp

section \<open>Overlapping workers\<close>

text \<open>The table with the deliveries in flight: a worker that has claimed a row
  keeps its copy of it until the delivery completes or fails, while other
  rounds run.\<close>

type_synonym worker_state = "outbox_row list \<times> (string \<times> raw_row) list"

datatype worker_action =
    Act_Release int
  | Act_Claim int string nat
  | Act_Complete int string raw_row
  | Act_Fail int string raw_row string

inductive worker_step :: "worker_state \<Rightarrow> worker_action \<Rightarrow> worker_state \<Rightarrow> bool" where
  step_release: "worker_step (rs, fl) (Act_Release now) (releaseStaleLocks now rs, fl)"
| step_claim: "claimBatch now w n rs = (rs', Inr raws) \<Longrightarrow>
     worker_step (rs, fl) (Act_Claim now w n) (rs', fl @ map (Pair w) raws)"
| step_complete: "(w, raw) \<in> set fl \<Longrightarrow>
     worker_step (rs, fl) (Act_Complete now w raw) (markCompleted (rr_id raw) now rs, remove1 (w, raw) fl)"
| step_fail: "(w, raw) \<in> set fl \<Longrightarrow>
     worker_step (rs, fl) (Act_Fail now w raw msg)
       (handleFailure raw (rr_id raw) msg now rs, remove1 (w, raw) fl)"

inductive_cases worker_stepE [elim]: "worker_step st act st'"

fun is_release :: "worker_action \<Rightarrow> bool" where
  "is_release (Act_Release now) = True"
| "is_release _ = False"

text \<open>A run from a table without deliveries in flight.\<close>

inductive worker_run :: "outbox_row list \<Rightarrow> worker_action list \<Rightarrow> worker_state \<Rightarrow> bool" for rs0 where
  run_start: "worker_run rs0 [] (rs0, [])"
| run_step: "worker_run rs0 acts st \<Longrightarrow> worker_step st act st' \<Longrightarrow> worker_run rs0 (acts @ [act]) st'"

text \<open>Without a release, every delivery in flight is the only one of its row,
  and its row is still being processed.\<close>

definition flight_inv :: "worker_state \<Rightarrow> bool" where
  "flight_inv st \<longleftrightarrow> distinct (map ob_id (fst st))
     \<and> distinct (map (rr_id \<circ> snd) (snd st))
     \<and> (\<forall>x \<in> set (snd st). \<exists>r. lookup_by ob_id (rr_id (snd x)) (fst st) = Some r \<and> ob_status r = OB_PROCESSING)"

lemma lookup_claim_rows:
  "lookup_by ob_id i (claim_rows now w ids rs) = map_option (\<lambda>r. if ob_id r \<in> ids
     then r\<lparr> ob_status := OB_PROCESSING, ob_locked_at := Some now, ob_locked_by := Some w \<rparr> else r)
     (lookup_by ob_id i rs)"
  unfolding claim_rows_def by (rule lookup_by_update) simp

lemma lookup_markCompleted:
  "lookup_by ob_id i (markCompleted j now rs) = map_option (\<lambda>r. if ob_id r = j
     then r\<lparr> ob_status := OB_COMPLETED, ob_processed_at := Some now, ob_last_error := None,
             ob_locked_at := None, ob_locked_by := None \<rparr> else r) (lookup_by ob_id i rs)"
  unfolding markCompleted_def by (rule lookup_by_update) simp

definition failed_row :: "raw_row \<Rightarrow> string \<Rightarrow> int \<Rightarrow> outbox_row \<Rightarrow> outbox_row" where
  "failed_row raw msg now r =
    (if next_retry_count raw msg \<ge> MAX_RETRIES
     then r\<lparr> ob_status := OB_FAILED, ob_retry_count := next_retry_count raw msg,
             ob_last_error := Some (take 500 msg), ob_locked_at := None, ob_locked_by := None \<rparr>
     else r\<lparr> ob_status := OB_PENDING, ob_retry_count := next_retry_count raw msg,
             ob_last_error := Some (take 500 msg),
             ob_next_retry_at := Some (now + calculateBackoff (next_retry_count raw msg) * 1000),
             ob_locked_at := None, ob_locked_by := None \<rparr>)"

lemma failed_row_id [simp]: "ob_id (failed_row raw msg now r) = ob_id r"
  by (simp add: failed_row_def)

lemma handleFailure_rows:
  "handleFailure raw i msg now rs = update_rows (\<lambda>r. ob_id r = i) (failed_row raw msg now) rs"
  by (simp add: handleFailure_def failed_row_def update_rows_def Let_def)

lemma lookup_handleFailure:
  "lookup_by ob_id i (handleFailure raw j msg now rs) = map_option (\<lambda>r. if ob_id r = j
     then failed_row raw msg now r else r) (lookup_by ob_id i rs)"
  unfolding handleFailure_rows by (rule lookup_by_update) simp

lemma lookup_id: "lookup_by ob_id i rs = Some r \<Longrightarrow> ob_id r = i"
  using lookup_by_SomeD by fastforce

lemma claimed_is_selected:
  assumes "claimBatch now w n rs = (rs', Inr raws)" "x \<in> set raws"
  obtains r where "r \<in> set (selectedRows now n rs)" "to_raw r = Inr x" "ob_id r = rr_id x"
proof -
  obtain k where k: "k < length raws" "raws ! k = x"
    using assms(2) by (auto simp: in_set_conv_nth)
  have l: "list_all2 (\<lambda>r x. to_raw r = Inr x) (selectedRows now n rs) raws"
    using claimBatch_ok(1)[OF assms(1)] .
  then have "to_raw (selectedRows now n rs ! k) = Inr x" "k < length (selectedRows now n rs)"
    using k by (auto simp: list_all2_conv_all_nth)
  then show thesis
    using that[of "selectedRows now n rs ! k"] to_raw_id by fastforce
qed

lemma flight_inv_claim:
  assumes "flight_inv (rs, fl)" "claimBatch now w n rs = (rs', Inr raws)"
  shows "flight_inv (rs', fl @ map (Pair w) raws)"
proof -
  have d: "distinct (map ob_id rs)" using assms(1) by (simp add: flight_inv_def)
  have rs': "rs' = claim_rows now w (rr_id ` set raws) rs"
    using claimBatch_ok(3)[OF assms(2)] .
  have dr: "distinct (map rr_id raws)"
    using claimBatch_ok(2)[OF assms(2)] selected_distinct[OF d] by metis
  have sel: "\<exists>r. lookup_by ob_id (rr_id x) rs = Some r \<and> ob_status r = OB_PENDING" if x: "x \<in> set raws" for x
  proof -
    obtain r where "r \<in> set (selectedRows now n rs)" "ob_id r = rr_id x"
      using claimed_is_selected[OF assms(2) x] by metis
    then show ?thesis
      using selected_claimable lookup_by_distinct[OF d] by (fastforce simp: claimable_def)
  qed
  have old: "\<exists>r. lookup_by ob_id (rr_id (snd y)) rs = Some r \<and> ob_status r = OB_PROCESSING" if "y \<in> set fl" for y
    using that assms(1) by (simp add: flight_inv_def)
  have disj: "rr_id (snd y) \<noteq> rr_id x" if "y \<in> set fl" "x \<in> set raws" for x y
    using old[OF that(1)] sel[OF that(2)] by auto
  have "\<exists>r. lookup_by ob_id (rr_id (snd y)) rs' = Some r \<and> ob_status r = OB_PROCESSING"
    if y: "y \<in> set (fl @ map (Pair w) raws)" for y
  proof (cases "snd y \<in> set raws")
    case True
    then obtain r where "lookup_by ob_id (rr_id (snd y)) rs = Some r" using sel by blast
    moreover from this have "ob_id r \<in> rr_id ` set raws" using True lookup_id by fastforce
    ultimately show ?thesis by (simp add: rs' lookup_claim_rows)
  next
    case False
    then have "y \<in> set fl" using y by auto
    then obtain r where r: "lookup_by ob_id (rr_id (snd y)) rs = Some r" "ob_status r = OB_PROCESSING"
      using old by blast
    then show ?thesis by (simp add: rs' lookup_claim_rows)
  qed
  moreover have "distinct (map (rr_id \<circ> snd) (fl @ map (Pair w) raws))"
    using assms(1) dr disj by (auto simp: flight_inv_def comp_def)
  ultimately show ?thesis
    using d by (simp add: flight_inv_def rs')
qed

lemma remove1_flight:
  assumes "distinct (map g fl)" "x \<in> set fl"
  shows "distinct (map g (remove1 x fl))" and "y \<in> set (remove1 x fl) \<Longrightarrow> y \<in> set fl \<and> g y \<noteq> g x"
proof -
  have d: "distinct fl" using assms(1) by (simp add: distinct_map)
  show "distinct (map g (remove1 x fl))"
    using assms(1) d by (auto simp: distinct_map inj_on_def)
  show "y \<in> set fl \<and> g y \<noteq> g x" if "y \<in> set (remove1 x fl)"
    using that d assms by (auto simp: distinct_map inj_on_def)
qed

lemma flight_inv_finish:
  assumes "flight_inv (rs, fl)" "x \<in> set fl"
    and "map ob_id rs' = map ob_id rs"
    and "\<And>i. i \<noteq> rr_id (snd x) \<Longrightarrow> lookup_by ob_id i rs' = lookup_by ob_id i rs"
  shows "flight_inv (rs', remove1 x fl)"
  using assms remove1_flight[of "rr_id \<circ> snd" fl x]
  by (auto simp: flight_inv_def)

lemma lookup_other:
  "i \<noteq> j \<Longrightarrow> lookup_by ob_id i (markCompleted j now rs) = lookup_by ob_id i rs"
  "i \<noteq> j \<Longrightarrow> lookup_by ob_id i (handleFailure raw j msg now rs) = lookup_by ob_id i rs"
  by (cases "lookup_by ob_id i rs"; auto simp: lookup_markCompleted lookup_handleFailure dest: lookup_id)+

lemma flight_inv_step:
  assumes "worker_step st act st'" "flight_inv st" "\<not> is_release act"
  shows "flight_inv st'"
  using assms(1)
proof cases
  case step_release
  then show ?thesis using assms(3) by simp
next
  case step_claim
  then show ?thesis using assms(2) flight_inv_claim by simp
next
  case (step_complete w raw fl rs now)
  then show ?thesis
    using assms(2) flight_inv_finish[of rs fl "(w, raw)"] lookup_other(1) by simp
next
  case (step_fail w raw fl rs now msg)
  then show ?thesis
    using assms(2) flight_inv_finish[of rs fl "(w, raw)"] lookup_other(2) by simp
qed

lemma completed_stays:
  assumes "worker_step st act st'" "flight_inv st" "\<not> is_release act"
    and "lookup_by ob_id i (fst st) = Some r" "ob_status r = OB_COMPLETED"
  shows "lookup_by ob_id i (fst st') = Some r"
  using assms(1)
proof cases
  case (step_claim now w n rs rs' raws fl)
  have d: "distinct (map ob_id rs)" using assms(2) step_claim by (simp add: flight_inv_def)
  have "i \<notin> rr_id ` set raws"
  proof
    assume "i \<in> rr_id ` set raws"
    then obtain x where x: "x \<in> set raws" "rr_id x = i" by auto
    obtain q where "q \<in> set (selectedRows now n rs)" "ob_id q = i"
      using claimed_is_selected[OF step_claim(4) x(1)] x(2) by metis
    then have "lookup_by ob_id i rs = Some q" "ob_status q = OB_PENDING"
      using selected_claimable lookup_by_distinct[OF d] by (fastforce simp: claimable_def)+
    then show False using assms(4,5) step_claim by simp
  qed
  then show ?thesis
    using claimBatch_ok(3)[OF step_claim(4)] assms(4) step_claim
    by (auto simp: lookup_claim_rows dest: lookup_id)
next
  case step_release
  then show ?thesis using assms(3) by simp
next
  case (step_complete w raw fl rs now)
  then have "i \<noteq> rr_id raw"
    using assms(2,4,5) by (force simp: flight_inv_def)
  then show ?thesis using step_complete assms(4) lookup_other(1) by simp
next
  case (step_fail w raw fl rs now msg)
  then have "i \<noteq> rr_id raw"
    using assms(2,4,5) by (force simp: flight_inv_def)
  then show ?thesis using step_fail assms(4) lookup_other(2) by simp
qed

lemma flight_inv_run:
  assumes "worker_run rs0 acts st" "distinct (map ob_id rs0)" "\<forall>a \<in> set acts. \<not> is_release a"
  shows "flight_inv st"
  using assms
proof induction
  case run_start
  then show ?case by (simp add: flight_inv_def)
next
  case (run_step acts st act st')
  then show ?case using flight_inv_step by auto
qed

section \<open>Rounds in which every delivery fails\<close>

definition fails_on :: "'w registry \<Rightarrow> string \<Rightarrow> bool" where
  "fails_on reg ty \<longleftrightarrow> (\<forall>ev w. ev_eventType ev = ty \<longrightarrow> (\<exists>w' msg. registry_handle reg ev w = (w', Inl msg)))"

lemma handle_event_ok:
  assumes "handle_event (Some reg) ev now later (cs, w) = (st', Inr u)"
  shows "\<exists>w'. registry_handle reg ev w = (w', Inr ())"
proof -
  obtain st x where "execute_breaker (''handler_'' @ ev_eventType ev) (registry_handle reg ev)
      handle_config now later (cs, w) = (st, Inr x)"
    using assms by (auto simp: handle_event_def Let_def split: if_splits prod.splits sum.splits)
  then show ?thesis using execute_breaker_ok[of _ "registry_handle reg ev"] by auto
qed

lemma handle_event_fails:
  assumes "fails_on reg (ev_eventType ev)"
  shows "\<exists>st' msg. handle_event (Some reg) ev now later st = (st', Inl msg)"
proof -
  obtain cs w where st: "st = (cs, w)" by (cases st)
  obtain st' r where r: "handle_event (Some reg) ev now later (cs, w) = (st', r)" by (metis surj_pair)
  show ?thesis
  proof (cases r)
    case (Inl msg)
    then show ?thesis using r st by blast
  next
    case (Inr u)
    then obtain w' where "registry_handle reg ev w = (w', Inr ())"
      using handle_event_ok[of reg ev now later cs w st' u] r by auto
    moreover obtain w'' msg where "registry_handle reg ev w = (w'', Inl msg)"
      using assms unfolding fails_on_def by blast
    ultimately show ?thesis by simp
  qed
qed

lemma process_row_lookup:
  assumes "rr_event_type raw \<noteq> []" "fails_on reg (rr_event_type raw)"
  shows "\<exists>msg. ws_rows (fst (process_row (Some reg) worker now raw s))
      = handleFailure raw (rr_id raw) msg now (ws_rows s)"
proof -
  obtain e where e: "toOutboxEvent raw = Inr e" "ev_eventType e = rr_event_type raw" "ev_id e = rr_id raw"
    using assms(1) by (simp add: toOutboxEvent_def)
  let ?s1 = "s\<lparr> ws_lifecycle := addProcessingEvent (ev_id e) worker (ws_lifecycle s) \<rparr>"
  obtain cs w msg where "handle_event (Some reg) e now now (ws_circuits s, ws_world s) = ((cs, w), Inl msg)"
    using handle_event_fails[of reg e] assms(2) e(2) by (metis surj_pair)
  then have "ws_rows (processSingle (Some reg) now raw e ?s1) = handleFailure raw (rr_id raw) msg now (ws_rows s)"
    by (simp add: processSingle_def e(3))
  moreover have "ws_rows (fst (process_row (Some reg) worker now raw s))
      = ws_rows (processSingle (Some reg) now raw e ?s1)"
    using e assms(1) by (simp add: process_row_def Let_def)
  ultimately show ?thesis by auto
qed

lemma process_row_other:
  assumes "rr_event_type raw = [] \<or> rr_id raw \<noteq> i"
  shows "lookup_by ob_id i (ws_rows (fst (process_row reg worker now raw s))) = lookup_by ob_id i (ws_rows s)"
proof (cases "rr_event_type raw = []")
  case True
  then show ?thesis by (simp add: process_row_def toOutboxEvent_def)
next
  case False
  then have ne: "rr_id raw \<noteq> i" using assms by simp
  obtain e where e: "toOutboxEvent raw = Inr e" "ev_eventType e \<noteq> []" "ev_id e = rr_id raw"
    using False by (simp add: toOutboxEvent_def)
  show ?thesis
    using e ne lookup_other
    by (auto simp: process_row_def processSingle_def Let_def split: prod.splits sum.splits)
qed

lemma process_rows_other:
  assumes "i \<notin> rr_id ` set raws"
  shows "lookup_by ob_id i (ws_rows (fst (process_rows reg worker now raws s))) = lookup_by ob_id i (ws_rows s)"
  using assms
proof (induction raws arbitrary: s)
  case (Cons raw raws)
  then show ?case
    using process_row_other[of raw i reg worker now s]
    by (simp add: Let_def split: prod.splits) (metis fst_conv)
qed simp

lemma process_rows_lookup:
  assumes "fails_on reg (rr_event_type raw)" "distinct (map rr_id raws)" "raw \<in> set raws" "rr_event_type raw \<noteq> []"
    and "lookup_by ob_id (rr_id raw) (ws_rows s) = Some r"
  shows "\<exists>msg. lookup_by ob_id (rr_id raw) (ws_rows (fst (process_rows (Some reg) worker now raws s)))
    = Some (failed_row raw msg now r)"
  using assms(2,3,5)
proof (induction raws arbitrary: s)
  case (Cons x raws)
  define s1 where "s1 = fst (process_row (Some reg) worker now x s)"
  have step: "fst (process_rows (Some reg) worker now (x # raws) s) = fst (process_rows (Some reg) worker now raws s1)"
    by (simp add: s1_def Let_def split: prod.splits)
  show ?case
  proof (cases "x = raw")
    case True
    obtain msg where "ws_rows s1 = handleFailure raw (rr_id raw) msg now (ws_rows s)"
      using process_row_lookup[OF assms(4,1)] True s1_def by blast
    then have "lookup_by ob_id (rr_id raw) (ws_rows s1) = Some (failed_row raw msg now r)"
      using Cons.prems(3) lookup_id by (fastforce simp: lookup_handleFailure)
    moreover have "rr_id raw \<notin> rr_id ` set raws" using Cons.prems(1) True by simp
    ultimately show ?thesis using process_rows_other step by metis
  next
    case False
    then have mem: "raw \<in> set raws" and ne: "rr_id raw \<noteq> rr_id x"
      using Cons.prems(1,2) by (auto simp: rev_image_eqI)
    have "lookup_by ob_id (rr_id raw) (ws_rows s1) = Some r"
      using process_rows_other[of "rr_id raw" "[x]" "Some reg" worker now s] ne Cons.prems(3)
      by (simp add: s1_def Let_def split: prod.splits)
    then show ?thesis using Cons.IH[of s1] Cons.prems(1) mem step by simp
  qed
qed simp

lemma process_row_keeps:
  assumes "process_row reg worker now raw s = (s', r)"
  shows "map ob_id (ws_rows s') = map ob_id (ws_rows s)
    \<and> map ob_event_type (ws_rows s') = map ob_event_type (ws_rows s)
    \<and> lc_shutdownRequested (ws_lifecycle s') = lc_shutdownRequested (ws_lifecycle s)"
  using assms
  by (auto simp: process_row_def processSingle_def addProcessingEvent_def removeProcessingEvent_def Let_def
      split: sum.splits if_splits prod.splits)

lemma process_rows_keeps:
  assumes "process_rows reg worker now raws s = (s', r)"
  shows "map ob_id (ws_rows s') = map ob_id (ws_rows s)
    \<and> map ob_event_type (ws_rows s') = map ob_event_type (ws_rows s)
    \<and> lc_shutdownRequested (ws_lifecycle s') = lc_shutdownRequested (ws_lifecycle s)"
  using assms
proof (induction raws arbitrary: s s' r)
  case (Cons raw raws)
  obtain s1 r1 where "process_row reg worker now raw s = (s1, r1)" by (metis surj_pair)
  moreover obtain s2 r2 where "process_rows reg worker now raws s1 = (s2, r2)" by (metis surj_pair)
  ultimately show ?case
    using Cons.IH process_row_keeps Cons.prems by fastforce
qed simp

text \<open>What the rounds rely on: the worker is not shutting down, the rows neither
  completed nor failed fit in one batch, and no row lacks its type.\<close>

definition live_row :: "outbox_row \<Rightarrow> bool" where
  "live_row r \<longleftrightarrow> ob_status r = OB_PENDING \<or> ob_status r = OB_PROCESSING"

definition rounds_ready :: "nat \<Rightarrow> 'w worker_sys \<Rightarrow> bool" where
  "rounds_ready n s \<longleftrightarrow> \<not> isShutdownRequested (ws_lifecycle s)
     \<and> distinct (map ob_id (ws_rows s)) \<and> length (filter live_row (ws_rows s)) \<le> n
     \<and> None \<notin> set (map ob_event_type (ws_rows s))"

definition due :: "int \<Rightarrow> nat \<Rightarrow> outbox_row \<Rightarrow> bool" where
  "due t k r \<longleftrightarrow> claimable t r \<and> k \<le> ob_retry_count r \<and> ob_event_type r \<noteq> Some []"

lemma claimable_mono: "claimable t r \<Longrightarrow> t \<le> t' \<Longrightarrow> claimable t' r"
  by (auto simp: claimable_def split: option.splits)

lemma claimable_live: "claimable now r \<Longrightarrow> live_row r"
  by (simp add: claimable_def live_row_def)

lemma length_filter_imp: "(\<And>x. P x \<Longrightarrow> Q x) \<Longrightarrow> length (filter P xs) \<le> length (filter Q xs)"
  by (induction xs) (auto simp: le_SucI)

lemma selected_all:
  assumes "length (filter live_row rs) \<le> n"
  shows "set (selectedRows now n rs) = {r \<in> set rs. claimable now r}"
proof -
  have "length (sort_key claim_key (filter (claimable now) rs)) \<le> n"
    using le_trans[OF length_filter_imp[OF claimable_live] assms] by simp
  then show ?thesis by (simp add: selectedRows_def)
qed

lemma released_live: "length (filter live_row (releaseStaleLocks now rs)) = length (filter live_row rs)"
  by (induction rs) (auto simp: releaseStaleLocks_def update_rows_def live_row_def)

lemma live_rows_shrink:
  assumes "distinct (map ob_id rs)" "map ob_id rs' = map ob_id rs"
    and "\<And>i r'. lookup_by ob_id i rs' = Some r' \<Longrightarrow> live_row r' \<Longrightarrow> \<exists>r. lookup_by ob_id i rs = Some r \<and> live_row r"
  shows "length (filter live_row rs') \<le> length (filter live_row rs)"
proof -
  let ?L = "\<lambda>xs. map ob_id (filter live_row xs)"
  have d: "distinct (map ob_id rs')" using assms(1,2) by simp
  have "set (?L rs') \<subseteq> set (?L rs)"
  proof
    fix i assume "i \<in> set (?L rs')"
    then obtain r' where "r' \<in> set rs'" "live_row r'" "ob_id r' = i" by auto
    then obtain r where "lookup_by ob_id i rs = Some r" "live_row r"
      using assms(3)[of i r'] lookup_by_distinct[OF d] by blast
    then show "i \<in> set (?L rs)" using lookup_by_SomeD by fastforce
  qed
  then have "card (set (?L rs')) \<le> card (set (?L rs))" by (intro card_mono) simp_all
  moreover have "distinct (?L rs')" "distinct (?L rs)" using d assms(1) by (auto intro: distinct_map_filter)
  ultimately show ?thesis using distinct_card by (metis length_map)
qed

lemma calculateBackoff_bounds: "1 \<le> calculateBackoff k \<and> calculateBackoff k \<le> 300"
  by (simp add: calculateBackoff_def)

lemma failed_row_due:
  assumes "to_raw r = Inr raw" "due t k r" "ob_event_type q = ob_event_type r"
  shows "ob_status (failed_row raw msg t q) = OB_FAILED
    \<or> due (t + 300000) (k + 1) (failed_row raw msg t q) \<and> ob_retry_count (failed_row raw msg t q) < MAX_RETRIES"
  using assms to_raw_id[OF assms(1)] calculateBackoff_bounds[of "Suc (ob_retry_count r)"]
  by (auto simp: failed_row_def due_def claimable_def next_retry_count_def split: if_splits)

lemma lookup_release:
  assumes "lookup_by ob_id i rs = Some r" "ob_status r \<noteq> OB_PROCESSING"
  shows "lookup_by ob_id i (releaseStaleLocks now rs) = Some r"
  unfolding releaseStaleLocks_def using assms by (subst lookup_by_update) auto

lemma claimed_live:
  assumes "claimBatch now w n rs = (rs', Inr raws)" "x \<in> set raws" "distinct (map ob_id rs)"
  obtains r where "lookup_by ob_id (rr_id x) rs = Some r" "claimable now r"
proof -
  obtain r where r: "r \<in> set (selectedRows now n rs)" "ob_id r = rr_id x"
    using claimed_is_selected[OF assms(1,2)] by metis
  then show thesis
    using that[of r] selected_claimable lookup_by_distinct[OF assms(3)] by metis
qed

lemma rows_processed_live:
  assumes "claimBatch t worker n rs = (rs', Inr raws)" "distinct (map ob_id rs)"
    and "process_rows reg worker t raws (s\<lparr> ws_rows := rs' \<rparr>) = (s2, rr)"
  shows "length (filter live_row (ws_rows s2)) \<le> length (filter live_row rs)"
proof (rule live_rows_shrink[OF assms(2)])
  show "map ob_id (ws_rows s2) = map ob_id rs"
    using process_rows_keeps[OF assms(3)] claimBatch_ok(3)[OF assms(1)] by simp
  fix i r' assume h: "lookup_by ob_id i (ws_rows s2) = Some r'" "live_row r'"
  show "\<exists>r. lookup_by ob_id i rs = Some r \<and> live_row r"
  proof (cases "i \<in> rr_id ` set raws")
    case True
    then obtain x where x: "x \<in> set raws" "i = rr_id x" by auto
    then show ?thesis using claimed_live[OF assms(1) x(1) assms(2)] claimable_live by metis
  next
    case False
    then have "lookup_by ob_id i rs' = Some r'"
      using process_rows_other[OF False, of reg worker t "s\<lparr> ws_rows := rs' \<rparr>"] assms(3) h(1) by simp
    then obtain r where r: "lookup_by ob_id i rs = Some r"
      "r' = (if ob_id r \<in> rr_id ` set raws then r\<lparr> ob_status := OB_PROCESSING, ob_locked_at := Some t, ob_locked_by := Some worker \<rparr> else r)"
      using claimBatch_ok(3)[OF assms(1)] by (auto simp: lookup_claim_rows)
    then show ?thesis using h(2) False lookup_id by fastforce
  qed
qed

lemma round_ready:
  assumes "rounds_ready n s"
  shows "rounds_ready n (fst (process_round reg worker n t s))"
proof -
  let ?rs = "releaseStaleLocks t (ws_rows s)"
  obtain rs' res where c: "claimBatch t worker n ?rs = (rs', res)" by (metis surj_pair)
  have d: "distinct (map ob_id ?rs)" using assms by (simp add: rounds_ready_def)
  show ?thesis
  proof (cases res)
    case (Inl e)
    then show ?thesis using assms c by (simp add: process_round_def rounds_ready_def released_live)
  next
    case (Inr raws)
    then have "rs' = claim_rows t worker (rr_id ` set raws) ?rs" using claimBatch_ok(3) c by simp
    then have k: "map ob_id rs' = map ob_id (ws_rows s)" "map ob_event_type rs' = map ob_event_type (ws_rows s)"
      "raws = [] \<Longrightarrow> rs' = ?rs"
      by simp_all
    obtain s2 rr where p: "process_rows reg worker t raws (s\<lparr> ws_rows := rs' \<rparr>) = (s2, rr)" by (metis surj_pair)
    have k2: "map ob_id (ws_rows s2) = map ob_id (ws_rows s)"
      "map ob_event_type (ws_rows s2) = map ob_event_type (ws_rows s)"
      "lc_shutdownRequested (ws_lifecycle s2) = lc_shutdownRequested (ws_lifecycle s)"
      using process_rows_keeps[OF p] k by simp_all
    have l: "length (filter live_row (ws_rows s2)) \<le> length (filter live_row (ws_rows s))"
      using rows_processed_live[OF _ d p] c Inr by (simp add: released_live)
    have f: "fst (process_round reg worker n t s) = (if isShutdownRequested (ws_lifecycle s) then s
        else if raws = [] then s\<lparr> ws_rows := rs' \<rparr> else s2)"
      using c Inr p by (simp add: process_round_def)
    show ?thesis
      unfolding f using assms k k2 l
      by (auto simp add: rounds_ready_def isShutdownRequested_def released_live simp del: set_map)
  qed
qed

lemma round_result:
  assumes "rounds_ready n s"
  obtains raws rs' where "claimBatch t worker n (releaseStaleLocks t (ws_rows s)) = (rs', Inr raws)"
    "fst (process_round reg worker n t s) = (if raws = [] then s\<lparr> ws_rows := rs' \<rparr>
       else fst (process_rows reg worker t raws (s\<lparr> ws_rows := rs' \<rparr>)))"
proof -
  let ?rs = "releaseStaleLocks t (ws_rows s)"
  have typed: "None \<notin> set (map ob_event_type ?rs)"
    using assms by (simp add: rounds_ready_def del: set_map)
  have "ob_event_type r \<noteq> None" if "r \<in> set (selectedRows t n ?rs)" for r
  proof -
    have "ob_event_type r \<in> set (map ob_event_type ?rs)"
      using selected_claimable(1)[OF that] by (simp only: set_map imageI)
    then show ?thesis using typed by metis
  qed
  then obtain raws where raws: "collect_rows (selectedRows t n ?rs) = Inr raws"
    using collect_rows_typed by blast
  obtain rs' where "claimBatch t worker n ?rs = (rs', Inr raws)"
    using raws by (cases "selectedRows t n ?rs = []") (auto simp: claimBatch_def Let_def transaction_def)
  then show thesis
    using that[of rs' raws] assms
    by (simp add: process_round_def rounds_ready_def split: prod.splits)
qed

lemma round_waits:
  assumes "rounds_ready n s"
    and "lookup_by ob_id i (ws_rows s) = Some r" "ob_status r \<noteq> OB_PROCESSING" "\<not> claimable t r"
  shows "lookup_by ob_id i (ws_rows (fst (process_round (Some reg) worker n t s))) = Some r"
proof -
  let ?rs = "releaseStaleLocks t (ws_rows s)"
  obtain raws rs' where c: "claimBatch t worker n ?rs = (rs', Inr raws)"
    and f: "fst (process_round (Some reg) worker n t s) = (if raws = [] then s\<lparr> ws_rows := rs' \<rparr>
       else fst (process_rows (Some reg) worker t raws (s\<lparr> ws_rows := rs' \<rparr>)))"
    using round_result[OF assms(1)] by blast
  have l: "lookup_by ob_id i ?rs = Some r" using lookup_release assms(2,3) by simp
  have d: "distinct (map ob_id ?rs)" using assms(1) by (simp add: rounds_ready_def)
  have "i \<notin> rr_id ` set raws"
  proof
    assume "i \<in> rr_id ` set raws"
    then obtain x where x: "x \<in> set raws" "rr_id x = i" by auto
    then show False using claimed_live[OF c x(1) d] l assms(4) by (metis option.inject)
  qed
  then have "lookup_by ob_id i rs' = Some r"
    using claimBatch_ok(3)[OF c] l lookup_id by (fastforce simp: lookup_claim_rows)
  then show ?thesis
    using f process_rows_other[OF \<open>i \<notin> rr_id ` set raws\<close>, of "Some reg" worker t "s\<lparr> ws_rows := rs' \<rparr>"] by simp
qed

lemma round_failed:
  assumes "rounds_ready n s"
    and "lookup_by ob_id i (ws_rows s) = Some r" "ob_status r = OB_FAILED"
  shows "lookup_by ob_id i (ws_rows (fst (process_round (Some reg) worker n t s))) = Some r"
  using round_waits[OF assms(1,2)] assms(3) by (simp add: claimable_def)

lemma list_all2_in_left: "list_all2 P xs ys \<Longrightarrow> x \<in> set xs \<Longrightarrow> \<exists>y \<in> set ys. P x y"
  by (induction rule: list_all2_induct) auto

lemma round_due:
  assumes "rounds_ready n s" "fails_on reg ty" "ob_event_type r = Some ty"
    and "lookup_by ob_id i (ws_rows s) = Some r" "due t k r"
  shows "\<exists>r'. lookup_by ob_id i (ws_rows (fst (process_round (Some reg) worker n t s))) = Some r'
    \<and> (ob_status r' = OB_FAILED
       \<or> due (t + 300000) (k + 1) r' \<and> ob_retry_count r' < MAX_RETRIES)
    \<and> ob_event_type r' = Some ty"
proof -
  let ?rs = "releaseStaleLocks t (ws_rows s)"
  obtain raws rs' where c: "claimBatch t worker n ?rs = (rs', Inr raws)"
    and f: "fst (process_round (Some reg) worker n t s) = (if raws = [] then s\<lparr> ws_rows := rs' \<rparr>
       else fst (process_rows (Some reg) worker t raws (s\<lparr> ws_rows := rs' \<rparr>)))"
    using round_result[OF assms(1)] by blast
  have l: "lookup_by ob_id i ?rs = Some r"
    using lookup_release assms(4,5) by (simp add: due_def claimable_def)
  have d: "distinct (map ob_id ?rs)" using assms(1) by (simp add: rounds_ready_def)
  have n: "length (filter live_row ?rs) \<le> n" using assms(1) by (simp add: rounds_ready_def released_live)
  have "r \<in> set (selectedRows t n ?rs)"
    using lookup_by_SomeD[OF l] assms(5) selected_all[OF n] by (simp add: due_def)
  then obtain raw where raw: "raw \<in> set raws" "to_raw r = Inr raw"
    using list_all2_in_left[OF claimBatch_ok(1)[OF c]] by blast
  have ids: "rr_id raw = i" "rr_event_type raw \<noteq> []" "rr_event_type raw = ty"
    using to_raw_id[OF raw(2)] lookup_id[OF l] assms(3,5) by (auto simp: due_def)
  have dr: "distinct (map rr_id raws)"
    using claimBatch_ok(2)[OF c] selected_distinct[OF d] by metis
  define q where "q = r\<lparr> ob_status := OB_PROCESSING, ob_locked_at := Some t, ob_locked_by := Some worker \<rparr>"
  have "lookup_by ob_id i rs' = Some q"
    using claimBatch_ok(3)[OF c] l raw(1) ids(1) lookup_id[OF l]
    by (auto simp: lookup_claim_rows q_def)
  then obtain msg where "lookup_by ob_id i (ws_rows (fst (process_round (Some reg) worker n t s)))
      = Some (failed_row raw msg t q)"
    using process_rows_lookup[OF _ dr raw(1) ids(2), of reg "s\<lparr> ws_rows := rs' \<rparr>" q worker t] f ids(1,3) raw(1) assms(2)
    by (auto split: if_splits)
  moreover have "ob_event_type q = ob_event_type r" by (simp add: q_def)
  ultimately show ?thesis
    using failed_row_due[OF raw(2) assms(5)] assms(3) by (auto simp: failed_row_def)
qed

text \<open>Times at least five minutes apart, the longest backoff.\<close>

fun spaced :: "int \<Rightarrow> int list \<Rightarrow> bool" where
  "spaced t [] = True"
| "spaced t (u # us) = (t \<le> u \<and> spaced (u + 300000) us)"

definition rounds :: "'w registry \<Rightarrow> string \<Rightarrow> nat \<Rightarrow> int list \<Rightarrow> 'w worker_sys \<Rightarrow> 'w worker_sys" where
  "rounds reg worker n = for_each (\<lambda>t s. fst (process_round (Some reg) worker n t s))"

lemma rounds_simps [simp]:
  "rounds reg worker n [] s = s"
  "rounds reg worker n (t # ts) s = rounds reg worker n ts (fst (process_round (Some reg) worker n t s))"
  by (simp_all add: rounds_def)

lemma rounds_failed:
  assumes "rounds_ready n s"
    and "lookup_by ob_id i (ws_rows s) = Some r" "ob_status r = OB_FAILED"
  shows "lookup_by ob_id i (ws_rows (rounds reg worker n ts s)) = Some r"
  using assms
proof (induction ts arbitrary: s)
  case (Cons t ts)
  have "rounds_ready n (fst (process_round (Some reg) worker n t s))"
    using round_ready Cons.prems(1) .
  moreover have "lookup_by ob_id i (ws_rows (fst (process_round (Some reg) worker n t s))) = Some r"
    using round_failed[OF Cons.prems] .
  ultimately show ?case using Cons.IH Cons.prems by simp
qed simp

lemma spaced_mono: "spaced t us \<Longrightarrow> t' \<le> t \<Longrightarrow> spaced t' us"
  by (cases us) auto

text \<open>Rounds at any times, ten of which are so far apart: the rounds between them
  find the event waiting, or use up a delivery earlier.\<close>

lemma rounds_due:
  assumes "rounds_ready n s" "fails_on reg ty" "sorted ts" "subseq us ts" "spaced t0 us"
    and "MAX_RETRIES \<le> k + length us" "us \<noteq> []"
    and "lookup_by ob_id i (ws_rows s) = Some r" "due t0 k r" "ob_event_type r = Some ty"
  shows "\<exists>r'. lookup_by ob_id i (ws_rows (rounds reg worker n ts s)) = Some r' \<and> ob_status r' = OB_FAILED"
  using assms
proof (induction ts arbitrary: s us t0 k r)
  case (Cons t ts)
  let ?s = "fst (process_round (Some reg) worker n t s)"
  obtain u us' where us: "us = u # us'" using Cons.prems(7) by (cases us) auto
  have ready: "rounds_ready n ?s" using round_ready Cons.prems(1) .
  have "u \<in> set (t # ts)" using list_emb_set[OF Cons.prems(4)] us by (metis list.set_intros(1))
  then have tu: "t \<le> u" using Cons.prems(3) by auto
  show ?case
  proof (cases "claimable t r")
    case True
    then have "due t k r" using Cons.prems(9) by (simp add: due_def)
    then obtain r' where r': "lookup_by ob_id i (ws_rows ?s) = Some r'" "ob_event_type r' = Some ty"
      and or: "ob_status r' = OB_FAILED \<or> due (t + 300000) (k + 1) r' \<and> ob_retry_count r' < MAX_RETRIES"
      using round_due[OF Cons.prems(1,2,10,8)] by blast
    show ?thesis
    proof (cases "ob_status r' = OB_FAILED")
      case True
      then show ?thesis using rounds_failed[OF ready r'(1)] by simp
    next
      case False
      then have dn: "due (t + 300000) (k + 1) r'" "k + 1 < MAX_RETRIES" using or by (auto simp: due_def)
      then have "us' \<noteq> []" using Cons.prems(6) us by (cases us') auto
      moreover have "subseq us' ts" using Cons.prems(4) us by (cases "u = t") (auto dest: subseq_Cons')
      moreover have "spaced (t + 300000) us'" using Cons.prems(5) us tu spaced_mono by auto
      ultimately show ?thesis
        using Cons.IH[OF ready Cons.prems(2), of us' "t + 300000" "k + 1" r'] Cons.prems(3,6) us r' dn by simp
    qed
  next
    case False
    have "claimable u r" using Cons.prems(5,9) us claimable_mono by (auto simp: due_def)
    then have "t \<noteq> u" using False by auto
    then have "subseq us ts" using Cons.prems(4) us by (auto elim: list_emb.cases)
    moreover have "lookup_by ob_id i (ws_rows ?s) = Some r"
      using round_waits[OF Cons.prems(1,8) _ False] Cons.prems(9) by (simp add: due_def claimable_def)
    ultimately show ?thesis
      using Cons.IH[OF ready Cons.prems(2), of us t0 k r] Cons.prems(3,5,6,7,9,10) by simp
  qed
qed simp

section \<open>Properties\<close>

text \<open>A pending, unlocked row of a table, for the concrete runs below.\<close>

definition sample_row :: "nat \<Rightarrow> string \<Rightarrow> outbox_row" where
  "sample_row i ty = new_row i ty (JObj []) 1 0 (CHR ''k'' # nat_str i)"

text \<open>C2: A claim takes at most \<^verbatim>\<open>limit\<close> rows, each of them pending, due and
  unlocked, in the order of priority and creation time (no claimable row that
  is left out comes before one that is taken, and rows are left out only when
  the batch is full); the rows taken become PROCESSING under the worker's lock
  and every other row is unchanged.\<close>

theorem claimBatch_takes_best_due_rows:
  assumes "distinct (map ob_id rs)" "claimBatch now w limit rs = (rs', Inr raws)"
  shows "length raws \<le> limit \<and> map ob_id rs' = map ob_id rs
    \<and> (\<forall>r \<in> set rs. if ob_id r \<in> rr_id ` set raws
         then claimable now r \<and> r\<lparr> ob_status := OB_PROCESSING, ob_locked_at := Some now,
                                  ob_locked_by := Some w \<rparr> \<in> set rs'
         else r \<in> set rs' \<and> (claimable now r \<longrightarrow> length raws = limit
              \<and> (\<forall>q \<in> set rs. ob_id q \<in> rr_id ` set raws \<longrightarrow> claim_key q \<le> claim_key r)))"
proof -
  let ?sel = "selectedRows now limit rs"
  have ids: "map rr_id raws = map ob_id ?sel" using claimBatch_ok(2)[OF assms(2)] .
  have len: "length raws = length ?sel" using ids by (metis length_map)
  have mem: "ob_id r \<in> rr_id ` set raws \<longleftrightarrow> r \<in> set ?sel" if "r \<in> set rs" for r
    using selected_iff_id[OF assms(1) that] ids by (metis list.set_map)
  have rs': "rs' = claim_rows now w (rr_id ` set raws) rs" using claimBatch_ok(3)[OF assms(2)] .
  have taken: "claimable now r \<and> r\<lparr> ob_status := OB_PROCESSING, ob_locked_at := Some now,
      ob_locked_by := Some w \<rparr> \<in> set rs'" if "r \<in> set rs" "ob_id r \<in> rr_id ` set raws" for r
    using that mem[OF that(1)] selected_claimable(2) by (auto simp: rs' claim_rows_def in_update_rows)
  have left: "r \<in> set rs' \<and> (claimable now r \<longrightarrow> length raws = limit
      \<and> (\<forall>q \<in> set rs. ob_id q \<in> rr_id ` set raws \<longrightarrow> claim_key q \<le> claim_key r))"
    if "r \<in> set rs" "ob_id r \<notin> rr_id ` set raws" for r
    using that mem claim_is_best[of r rs now limit] len
    by (auto simp: rs' claim_rows_def in_update_rows)
  show ?thesis
    using taken left selected_length len by (simp add: rs')
qed

text \<open>C3: As long as no stale lock is released, a completed event is final: in any
  run of overlapping workers no later step of any worker changes its row.\<close>

theorem completed_final_without_release:
  assumes "worker_run rs0 acts st" "distinct (map ob_id rs0)"
    and "\<forall>a \<in> set acts. \<not> is_release a" "worker_step st act st'" "\<not> is_release act"
    and "lookup_by ob_id i (fst st) = Some r" "ob_status r = OB_COMPLETED"
  shows "lookup_by ob_id i (fst st') = Some r"
  using completed_stays[OF assms(4) flight_inv_run[OF assms(1-3)] assms(5-7)] .

text \<open>The failure handler does not look at who holds the lock: a worker whose
  lock went stale and whose delivery then fails puts an event that another
  worker has completed back to PENDING, so it will be delivered again.\<close>

theorem stale_failure_revives_completed:
  assumes "worker_run rs0 acts (rs, fl)" "(w, raw) \<in> set fl"
    and "lookup_by ob_id (rr_id raw) rs = Some r" "ob_status r = OB_COMPLETED"
    and "\<not> isStructuralError raw msg" "rr_retry_count raw + 1 < MAX_RETRIES"
  shows "\<exists>st'. worker_step (rs, fl) (Act_Fail now w raw msg) st'
    \<and> (\<exists>r'. lookup_by ob_id (rr_id raw) (fst st') = Some r' \<and> ob_status r' = OB_PENDING
         \<and> claimable (now + 300000) r')"
proof -
  have s: "worker_step (rs, fl) (Act_Fail now w raw msg)
      (handleFailure raw (rr_id raw) msg now rs, remove1 (w, raw) fl)"
    using step_fail[OF assms(2)] .
  have "lookup_by ob_id (rr_id raw) (handleFailure raw (rr_id raw) msg now rs) = Some (failed_row raw msg now r)"
    using assms(3) lookup_id by (fastforce simp: lookup_handleFailure)
  moreover have "ob_status (failed_row raw msg now r) = OB_PENDING
      \<and> claimable (now + 300000) (failed_row raw msg now r)"
    using assms(5,6) calculateBackoff_bounds[of "Suc (rr_retry_count raw)"]
    by (auto simp: failed_row_def claimable_def next_retry_count_def)
  ultimately show ?thesis using s by fastforce
qed

text \<open>C1: An event whose own handler always fails is not retried for ever. One worker
  polls, at any increasing times (every five seconds, say) among which there are ten that
  are five minutes apart or more, the first of them when the event is due; the
  worker is not shutting down, the rows neither completed nor failed fit in one batch, and
  no row lacks its type. Then the event is FAILED in the end, whatever the messages of its
  handler, the circuit breakers, and the handlers of the other events do.\<close>

theorem failing_event_reaches_failed:
  assumes "rounds_ready n s" "fails_on reg ty"
    and "lookup_by ob_id i (ws_rows s) = Some r" "claimable t0 r" "ob_event_type r = Some ty" "ty \<noteq> []"
    and "sorted ts" "subseq us ts" "spaced t0 us" "length us = 10"
  shows "\<exists>r'. lookup_by ob_id i (ws_rows (rounds reg worker n ts s)) = Some r' \<and> ob_status r' = OB_FAILED"
proof -
  have "due t0 0 r" using assms(4-6) by (simp add: due_def)
  moreover have "us \<noteq> []" using assms(10) by auto
  ultimately show ?thesis
    using rounds_due[OF assms(1,2,7,8,9) _ _ assms(3)] assms(5,10) by (simp add: MAX_RETRIES_def)
qed

lemma process_rows_untouched:
  assumes "\<And>raw. raw \<in> set raws \<Longrightarrow> rr_event_type raw = [] \<or> rr_id raw \<noteq> i"
  shows "lookup_by ob_id i (ws_rows (fst (process_rows reg worker now raws s))) = lookup_by ob_id i (ws_rows s)"
  using assms
proof (induction raws arbitrary: s)
  case (Cons raw raws)
  then show ?case
    using process_row_other[of raw i reg worker now s]
    by (simp add: Let_def split: prod.splits) (metis fst_conv)
qed simp

lemma process_rows_rejects:
  assumes "raw \<in> set raws" "rr_event_type raw = []"
  shows "None \<in> set (snd (process_rows reg worker now raws s))"
  using assms(1)
proof (induction raws arbitrary: s)
  case (Cons x raws)
  have "snd (process_row reg worker now raw s) = None" for s
    using assms(2) by (simp add: process_row_def toOutboxEvent_def)
  then show ?case
    using Cons by (auto simp: Let_def split: prod.splits) (metis snd_conv)+
qed simp

text \<open>The forced failure of a row without a type is never reached: a claimable
  row whose type is the empty string makes its round log a failure and is left
  PROCESSING with its retry count unchanged, whatever the handlers do, so the
  retry limit never applies to it.\<close>

theorem empty_type_row_is_not_failed:
  assumes "rounds_ready n s" "lookup_by ob_id i (ws_rows s) = Some r"
    and "claimable t r" "ob_event_type r = Some []"
  shows "\<exists>r'. lookup_by ob_id i (ws_rows (fst (process_round reg worker n t s))) = Some r'
    \<and> ob_status r' = OB_PROCESSING \<and> ob_retry_count r' = ob_retry_count r
    \<and> snd (process_round reg worker n t s) = None"
proof -
  let ?rs = "releaseStaleLocks t (ws_rows s)"
  obtain raws rs' where c: "claimBatch t worker n ?rs = (rs', Inr raws)"
    and f: "fst (process_round reg worker n t s) = (if raws = [] then s\<lparr> ws_rows := rs' \<rparr>
       else fst (process_rows reg worker t raws (s\<lparr> ws_rows := rs' \<rparr>)))"
    using round_result[OF assms(1)] by blast
  have l: "lookup_by ob_id i ?rs = Some r" using lookup_release assms(2,3) by (simp add: claimable_def)
  have d: "distinct (map ob_id ?rs)" and n: "length (filter live_row ?rs) \<le> n"
    using assms(1) by (simp_all add: rounds_ready_def released_live)
  have "r \<in> set (selectedRows t n ?rs)"
    using lookup_by_SomeD[OF l] assms(3) selected_all[OF n] by simp
  then obtain raw where raw: "raw \<in> set raws" "to_raw r = Inr raw"
    using list_all2_in_left[OF claimBatch_ok(1)[OF c]] by blast
  have i: "rr_id raw = i" "rr_event_type raw = []"
    using to_raw_id[OF raw(2)] lookup_id[OF l] assms(4) by auto
  have "distinct (map rr_id raws)"
    using claimBatch_ok(2)[OF c] selected_distinct[OF d] by metis
  then have "x = raw \<or> rr_id x \<noteq> i" if "x \<in> set raws" for x
    using that raw(1) i(1) by (auto simp: distinct_map dest: inj_onD)
  then have "lookup_by ob_id i (ws_rows (fst (process_round reg worker n t s))) = lookup_by ob_id i rs'"
    using f process_rows_untouched[of raws i reg worker t "s\<lparr> ws_rows := rs' \<rparr>"] i(2) raw(1) by fastforce
  moreover have "ob_id r = i" using lookup_id[OF l] .
  then have "lookup_by ob_id i rs' = Some (r\<lparr> ob_status := OB_PROCESSING, ob_locked_at := Some t,
      ob_locked_by := Some worker \<rparr>)"
    using claimBatch_ok(3)[OF c] l raw(1) i(1) by (force simp: lookup_claim_rows)
  moreover have "snd (process_round reg worker n t s) = None"
    using process_rows_rejects[OF raw(1) i(2), of reg worker t "s\<lparr> ws_rows := rs' \<rparr>"] c raw(1)
    by (auto simp: process_round_def Let_def split: prod.splits)
  ultimately show ?thesis by simp
qed

section \<open>Concrete runs\<close>

definition locked_row :: "outbox_row \<Rightarrow> int \<Rightarrow> string \<Rightarrow> outbox_row" where
  "locked_row r now w = r\<lparr> ob_status := OB_PROCESSING, ob_locked_at := Some now, ob_locked_by := Some w \<rparr>"

definition sample_raw :: "nat \<Rightarrow> string \<Rightarrow> raw_row" where
  "sample_raw i ty = projr (to_raw (sample_row i ty))"

lemma sample_claim:
  "claimBatch now w 1 [sample_row 0 ''A_V1''] = ([locked_row (sample_row 0 ''A_V1'') now w], Inr [sample_raw 0 ''A_V1''])"
  by (simp add: claimBatch_def transaction_def selectedRows_def sample_row_def new_row_def claimable_def
     claim_key_def update_rows_def to_raw_def locked_row_def sample_raw_def Let_def)

lemma sample_release:
  "now > 120000 \<Longrightarrow> releaseStaleLocks now [locked_row (sample_row 0 ''A_V1'') 0 w] = [sample_row 0 ''A_V1'']"
  by (simp add: releaseStaleLocks_def sample_row_def new_row_def update_rows_def locked_row_def)

lemma sample_stale_run:
  "worker_run [sample_row 0 ''A_V1'']
     [Act_Claim 0 ''w1'' 1, Act_Release 130000, Act_Claim 130000 ''w2'' 1,
      Act_Complete 130500 ''w2'' (sample_raw 0 ''A_V1'')]
     (markCompleted 0 130500 [locked_row (sample_row 0 ''A_V1'') 130000 ''w2''],
      [(''w1'', sample_raw 0 ''A_V1'')])"
proof -
  let ?r = "sample_row 0 ''A_V1''" and ?x = "sample_raw 0 ''A_V1''"
  have a: "worker_run [?r] [Act_Claim 0 ''w1'' 1] ([locked_row ?r 0 ''w1''], [(''w1'', ?x)])"
    using run_step[OF run_start step_claim[OF sample_claim]] by simp
  have b: "worker_run [?r] [Act_Claim 0 ''w1'' 1, Act_Release 130000] ([?r], [(''w1'', ?x)])"
    using run_step[OF a step_release[of _ _ 130000]] by (simp add: sample_release)
  have c: "worker_run [?r] [Act_Claim 0 ''w1'' 1, Act_Release 130000, Act_Claim 130000 ''w2'' 1]
      ([locked_row ?r 130000 ''w2''], [(''w1'', ?x), (''w2'', ?x)])"
    using run_step[OF b step_claim[OF sample_claim[of 130000 "''w2''"]]] by simp
  have i: "rr_id ?x = 0" by (simp add: sample_raw_def to_raw_def sample_row_def)
  show ?thesis
    using run_step[OF c step_complete[of "''w2''" ?x _ _ 130500]] i by simp
qed

theorem stale_failure_revives_completed_witness:
  "\<exists>st'. worker_step (markCompleted 0 130500 [locked_row (sample_row 0 ''A_V1'') 130000 ''w2''],
        [(''w1'', sample_raw 0 ''A_V1'')]) (Act_Fail 131000 ''w1'' (sample_raw 0 ''A_V1'') ''timeout'') st'
    \<and> (\<exists>r'. lookup_by ob_id 0 (fst st') = Some r' \<and> ob_status r' = OB_PENDING \<and> claimable 431000 r')"
proof -
  have i: "rr_id (sample_raw 0 ''A_V1'') = 0" "rr_retry_count (sample_raw 0 ''A_V1'') = 0"
    by (simp_all add: sample_raw_def to_raw_def sample_row_def)
  have s: "\<not> isStructuralError (sample_raw 0 ''A_V1'') ''timeout''"
    by (simp add: isStructuralError_def starts_with_def sample_raw_def to_raw_def sample_row_def)
  show ?thesis
    using stale_failure_revives_completed[OF sample_stale_run, of "''w1''" "sample_raw 0 ''A_V1''" _ "''timeout''" 131000] i s
    by (simp add: lookup_markCompleted locked_row_def sample_row_def MAX_RETRIES_def)
qed

theorem claimBatch_takes_best_due_rows_witness:
  "distinct (map ob_id [sample_row 0 ''A_V1''])
   \<and> rr_id ` set [sample_raw 0 ''A_V1''] = {0}
   \<and> claimable 5 (sample_row 0 ''A_V1'')"
  using claimBatch_takes_best_due_rows[OF _ sample_claim[of 5 "''w1''"]]
  by (simp add: sample_raw_def to_raw_def sample_row_def)

theorem completed_final_without_release_witness:
  "\<exists>r. lookup_by ob_id 0 (markCompleted 0 7 [locked_row (sample_row 0 ''A_V1'') 0 ''w1'']) = Some r
    \<and> ob_status r = OB_COMPLETED
    \<and> lookup_by ob_id 0 (fst (claimBatch 9 ''w2'' 1 (markCompleted 0 7 [locked_row (sample_row 0 ''A_V1'') 0 ''w1'']))) = Some r"
proof -
  let ?r = "sample_row 0 ''A_V1''" and ?x = "sample_raw 0 ''A_V1''"
  let ?rs = "markCompleted 0 7 [locked_row ?r 0 ''w1'']"
  have a: "worker_run [?r] [Act_Claim 0 ''w1'' 1] ([locked_row ?r 0 ''w1''], [(''w1'', ?x)])"
    using run_step[OF run_start step_claim[OF sample_claim]] by simp
  have i: "rr_id ?x = 0" by (simp add: sample_raw_def to_raw_def sample_row_def)
  have b: "worker_run [?r] [Act_Claim 0 ''w1'' 1, Act_Complete 7 ''w1'' ?x] (?rs, [])"
    using run_step[OF a step_complete[of "''w1''" ?x _ _ 7]] i by simp
  have c: "claimBatch 9 ''w2'' 1 ?rs = (?rs, Inr [])"
    by (simp add: claimBatch_def transaction_def selectedRows_def claimable_def markCompleted_def update_rows_def
        locked_row_def sample_row_def new_row_def)
  obtain r where r: "lookup_by ob_id 0 ?rs = Some r" "ob_status r = OB_COMPLETED"
    by (simp add: lookup_markCompleted locked_row_def sample_row_def)
  have "lookup_by ob_id 0 (fst (?rs, [] :: (string \<times> raw_row) list)) = Some r"
    using completed_final_without_release[OF b _ _ step_claim[OF c], of 0 r] r by simp
  then show ?thesis using r c by simp
qed

definition failing_registry :: "unit registry" where
  "failing_registry = (\<lambda>ty. Some (\<lambda>ev w. (w, if ty = ''A_V1'' then Inl ''downstream error'' else Inr ())))"

text \<open>The poll of every five seconds, for forty-five minutes.\<close>

definition poll_times :: "int list" where
  "poll_times = map (\<lambda>k. 5000 * int k) [0..<541]"

definition spread_times :: "int list" where
  "spread_times = filter (\<lambda>t. t mod 300000 = 0) poll_times"

lemma poll_times_spread:
  "sorted poll_times" "subseq spread_times poll_times" "spaced 0 spread_times" "length spread_times = 10"
proof -
  show "sorted poll_times"
    unfolding poll_times_def sorted_map by (rule sorted_wrt_mono_rel[OF _ sorted_upt]) simp
  show "subseq spread_times poll_times" by (simp add: spread_times_def)
  have e: "spread_times = [0, 300000, 600000, 900000, 1200000, 1500000, 1800000, 2100000, 2400000, 2700000]"
    unfolding spread_times_def poll_times_def by code_simp
  show "spaced 0 spread_times" "length spread_times = 10" by (simp_all add: e)
qed

theorem failing_event_reaches_failed_witness:
  "\<exists>r'. lookup_by ob_id 0 (ws_rows (rounds failing_registry ''w1'' 10 poll_times
       \<lparr> ws_rows = [sample_row 0 ''A_V1'', sample_row 1 ''B_V1''], ws_circuits = Map.empty,
         ws_lifecycle = initial_lifecycle, ws_world = () \<rparr>)) = Some r' \<and> ob_status r' = OB_FAILED"
  using failing_event_reaches_failed[of 10 "\<lparr> ws_rows = [sample_row 0 ''A_V1'', sample_row 1 ''B_V1''],
      ws_circuits = Map.empty, ws_lifecycle = initial_lifecycle, ws_world = () \<rparr>" failing_registry "''A_V1''" 0 "sample_row 0 ''A_V1''" 0
      poll_times spread_times "''w1''"] poll_times_spread
  by (simp add: rounds_ready_def isShutdownRequested_def initial_lifecycle_def fails_on_def registry_handle_def
      failing_registry_def sample_row_def claimable_def new_row_def live_row_def)

theorem empty_type_row_is_not_failed_witness:
  "snd (process_round (Some failing_registry) ''w1'' 1 0
     \<lparr> ws_rows = [sample_row 0 []], ws_circuits = Map.empty, ws_lifecycle = initial_lifecycle, ws_world = () \<rparr>) = None"
proof -
  let ?s = "\<lparr> ws_rows = [sample_row 0 []], ws_circuits = Map.empty,
      ws_lifecycle = initial_lifecycle, ws_world = () \<rparr>"
  have "rounds_ready 1 ?s"
    by (simp add: rounds_ready_def isShutdownRequested_def initial_lifecycle_def sample_row_def)
  moreover have "claimable 0 (sample_row 0 [])" by (simp add: sample_row_def claimable_def)
  ultimately show ?thesis
    using empty_type_row_is_not_failed[of 1 ?s 0 "sample_row 0 []" 0 "Some failing_registry" "''w1''"]
    by (auto simp: sample_row_def)
qed

end
