(* ===== verification/Outbox_Refinement.thy ===== *)
theory Outbox_Refinement
  imports Outbox_Worker
begin

text \<open>
  An abstract queue of events, and the proof that the outbox workers implement it:
  the state of an event is waiting, worked on, done or dead, with the number of its
  failures, and nothing else of the row matters. Overlapping workers that claim,
  complete and fail rows take the steps of the queue as long as no stale lock is
  released.
\<close>

section \<open>The abstract queue\<close>

datatype event_state = Waiting nat | Working nat | Done | Dead

type_synonym queue = "nat \<Rightarrow> event_state option"

datatype queue_action = Take "nat set" | Finish nat | Give_Up_Or_Back nat

inductive queue_step :: "queue \<Rightarrow> queue_action \<Rightarrow> queue \<Rightarrow> bool" where
  q_take: "(\<And>i. i \<in> S \<Longrightarrow> \<exists>n. q i = Some (Waiting n)) \<Longrightarrow>
    queue_step q (Take S) (\<lambda>i. if i \<in> S then (case q i of Some (Waiting n) \<Rightarrow> Some (Working n) | x \<Rightarrow> x) else q i)"
| q_finish: "q i = Some (Working n) \<Longrightarrow> queue_step q (Finish i) (q(i \<mapsto> Done))"
| q_back: "q i = Some (Working n) \<Longrightarrow> n + 1 < MAX_RETRIES \<Longrightarrow> queue_step q (Give_Up_Or_Back i) (q(i \<mapsto> Waiting (n + 1)))"
| q_dead: "q i = Some (Working n) \<Longrightarrow> queue_step q (Give_Up_Or_Back i) (q(i \<mapsto> Dead))"

inductive_cases queue_takeE: "queue_step q (Take S) q'"
inductive_cases queue_finishE: "queue_step q (Finish i) q'"
inductive_cases queue_backE: "queue_step q (Give_Up_Or_Back i) q'"

inductive queue_run :: "queue \<Rightarrow> queue_action list \<Rightarrow> queue \<Rightarrow> bool" for q0 where
  q_start: "queue_run q0 [] q0"
| q_more: "queue_run q0 as q \<Longrightarrow> queue_step q a q' \<Longrightarrow> queue_run q0 (as @ [a]) q'"

text \<open>How often an event has failed, as far as its state shows.\<close>

fun failures :: "event_state \<Rightarrow> nat" where
  "failures (Waiting n) = n"
| "failures (Working n) = n"
| "failures Done = 0"
| "failures Dead = MAX_RETRIES"

definition final :: "event_state option \<Rightarrow> bool" where
  "final x = (x = Some Done \<or> x = Some Dead)"

lemma queue_final_stays: "queue_step q a q' \<Longrightarrow> final (q i) \<Longrightarrow> q' i = q i"
  by (induction rule: queue_step.induct) (auto simp: final_def split: option.splits event_state.splits)

text \<open>An event that is not dead fails at most nine times more than it has.\<close>

definition fail_count :: "nat \<Rightarrow> queue_action list \<Rightarrow> nat" where
  "fail_count i as = length (filter (\<lambda>a. a = Give_Up_Or_Back i) as)"

lemma queue_fail_bound:
  assumes "queue_run q0 as q"
  shows "(case q i of Some (Waiting n) \<Rightarrow> fail_count i as \<le> n \<and> (0 < fail_count i as \<longrightarrow> n < MAX_RETRIES)
      | Some (Working n) \<Rightarrow> fail_count i as \<le> n \<and> (0 < fail_count i as \<longrightarrow> n < MAX_RETRIES)
      | None \<Rightarrow> fail_count i as = 0
      | Some _ \<Rightarrow> fail_count i as \<le> MAX_RETRIES)"
  using assms
proof induction
  case q_start
  then show ?case by (auto simp: fail_count_def split: option.splits event_state.splits)
next
  case (q_more as q a q')
  have c: "fail_count i (as @ [a]) = fail_count i as + (if a = Give_Up_Or_Back i then 1 else 0)"
    by (simp add: fail_count_def)
  from q_more.hyps(2) show ?case
    using q_more.IH unfolding c
    by cases (auto simp: MAX_RETRIES_def split: option.splits event_state.splits)
qed

section \<open>The workers refine the queue\<close>

definition abs_row :: "outbox_row \<Rightarrow> event_state" where
  "abs_row r = (case ob_status r of
      OB_PENDING \<Rightarrow> Waiting (ob_retry_count r)
    | OB_PROCESSING \<Rightarrow> Working (ob_retry_count r)
    | OB_COMPLETED \<Rightarrow> Done
    | OB_FAILED \<Rightarrow> Dead)"

definition abs_queue :: "outbox_row list \<Rightarrow> queue" where
  "abs_queue rs i = map_option abs_row (lookup_by ob_id i rs)"

text \<open>A copy in flight carries the retry count of its row.\<close>

definition copies_ok :: "worker_state \<Rightarrow> bool" where
  "copies_ok st = (\<forall>x \<in> set (snd st). \<forall>r. lookup_by ob_id (rr_id (snd x)) (fst st) = Some r
     \<longrightarrow> ob_retry_count r = rr_retry_count (snd x))"

fun abs_action :: "outbox_row list \<Rightarrow> worker_action \<Rightarrow> queue_action" where
  "abs_action rs (Act_Claim now w n) = Take (ob_id ` set (selectedRows now n rs))"
| "abs_action rs (Act_Complete now w raw) = Finish (rr_id raw)"
| "abs_action rs (Act_Fail now w raw msg) = Give_Up_Or_Back (rr_id raw)"
| "abs_action rs (Act_Release now) = Take {}"

lemma selected_lookup:
  assumes "distinct (map ob_id rs)" "r \<in> set (selectedRows now n rs)"
  shows "lookup_by ob_id (ob_id r) rs = Some r" "ob_status r = OB_PENDING"
  using selected_claimable[OF assms(2)] lookup_by_distinct[OF assms(1)] by (auto simp: claimable_def)

lemma claim_refines:
  assumes "flight_inv (rs, fl)" "claimBatch now w n rs = (rs', Inr raws)"
  shows "queue_step (abs_queue rs) (Take (ob_id ` set (selectedRows now n rs))) (abs_queue rs')"
proof -
  let ?S = "ob_id ` set (selectedRows now n rs)"
  have d: "distinct (map ob_id rs)" using assms(1) by (simp add: flight_inv_def)
  have ids: "rr_id ` set raws = ?S" using claimBatch_ok(2)[OF assms(2)] by (metis list.set_map)
  have w: "\<exists>n. abs_queue rs i = Some (Waiting n)" if "i \<in> ?S" for i
    using that selected_lookup[OF d] by (fastforce simp: abs_queue_def abs_row_def)
  have "abs_queue rs' = (\<lambda>i. if i \<in> ?S then (case abs_queue rs i of Some (Waiting n) \<Rightarrow> Some (Working n) | x \<Rightarrow> x)
      else abs_queue rs i)"
  proof
    fix i
    show "abs_queue rs' i = (if i \<in> ?S then (case abs_queue rs i of Some (Waiting n) \<Rightarrow> Some (Working n) | x \<Rightarrow> x)
        else abs_queue rs i)"
    proof (cases "i \<in> ?S")
      case True
      then obtain r where r: "lookup_by ob_id i rs = Some r" "ob_status r = OB_PENDING" "ob_id r = i"
        using selected_lookup[OF d] by auto
      then show ?thesis using True ids
        by (simp add: abs_queue_def claimBatch_ok(3)[OF assms(2)] lookup_claim_rows abs_row_def)
    next
      case False
      then have "lookup_by ob_id i rs' = lookup_by ob_id i rs"
        using ids by (cases "lookup_by ob_id i rs")
          (auto simp: claimBatch_ok(3)[OF assms(2)] lookup_claim_rows dest: lookup_id)
      then show ?thesis using False by (simp add: abs_queue_def)
    qed
  qed
  then show ?thesis using q_take[of ?S "abs_queue rs"] w by presburger
qed

lemma complete_refines:
  assumes "flight_inv (rs, fl)" "(w, raw) \<in> set fl"
  shows "queue_step (abs_queue rs) (Finish (rr_id raw)) (abs_queue (markCompleted (rr_id raw) now rs))"
proof -
  obtain r where r: "lookup_by ob_id (rr_id raw) rs = Some r" "ob_status r = OB_PROCESSING"
    using assms by (fastforce simp: flight_inv_def)
  have "abs_queue (markCompleted (rr_id raw) now rs) = (abs_queue rs)(rr_id raw \<mapsto> Done)"
  proof
    fix i
    show "abs_queue (markCompleted (rr_id raw) now rs) i = ((abs_queue rs)(rr_id raw \<mapsto> Done)) i"
      using r lookup_id[OF r(1)] lookup_other(1)[of i "rr_id raw" now rs]
      by (cases "i = rr_id raw") (simp_all add: abs_queue_def lookup_markCompleted abs_row_def)
  qed
  moreover have "abs_queue rs (rr_id raw) = Some (Working (ob_retry_count r))"
    using r by (simp add: abs_queue_def abs_row_def)
  ultimately show ?thesis using q_finish by metis
qed

lemma fail_refines:
  assumes "flight_inv (rs, fl)" "copies_ok (rs, fl)" "(w, raw) \<in> set fl"
  shows "queue_step (abs_queue rs) (Give_Up_Or_Back (rr_id raw)) (abs_queue (handleFailure raw (rr_id raw) msg now rs))"
proof -
  obtain r where r: "lookup_by ob_id (rr_id raw) rs = Some r" "ob_status r = OB_PROCESSING"
    using assms by (fastforce simp: flight_inv_def)
  have n: "ob_retry_count r = rr_retry_count raw" using assms(2,3) r(1) by (fastforce simp: copies_ok_def)
  let ?n = "ob_retry_count r"
  have q: "abs_queue rs (rr_id raw) = Some (Working ?n)" using r by (simp add: abs_queue_def abs_row_def)
  have u: "abs_queue (handleFailure raw (rr_id raw) msg now rs) = (abs_queue rs)(rr_id raw \<mapsto> abs_row (failed_row raw msg now r))"
  proof
    fix i
    show "abs_queue (handleFailure raw (rr_id raw) msg now rs) i
        = ((abs_queue rs)(rr_id raw \<mapsto> abs_row (failed_row raw msg now r))) i"
      using r lookup_id[OF r(1)] lookup_other(2)[of i "rr_id raw" raw msg now rs]
      by (cases "i = rr_id raw") (simp_all add: abs_queue_def lookup_handleFailure)
  qed
  show ?thesis
  proof (cases "next_retry_count raw msg \<ge> MAX_RETRIES")
    case True
    then have "abs_row (failed_row raw msg now r) = Dead" by (simp add: abs_row_def failed_row_def)
    then show ?thesis using q_dead[of "abs_queue rs" "rr_id raw" ?n] q by (simp add: u)
  next
    case False
    then have "next_retry_count raw msg = ?n + 1" using n by (simp add: next_retry_count_def split: if_splits)
    then have "abs_row (failed_row raw msg now r) = Waiting (?n + 1)" "?n + 1 < MAX_RETRIES"
      using False by (simp_all add: abs_row_def failed_row_def)
    then show ?thesis using q_back[of "abs_queue rs" "rr_id raw" ?n] q by (simp add: u)
  qed
qed

lemma worker_step_refines:
  assumes "worker_step st act st'" "flight_inv st" "copies_ok st" "\<not> is_release act"
  shows "queue_step (abs_queue (fst st)) (abs_action (fst st) act) (abs_queue (fst st'))"
  using assms(1)
proof cases
  case step_release
  then show ?thesis using assms(4) by simp
next
  case step_claim
  then show ?thesis using claim_refines assms(2) by simp
next
  case step_complete
  then show ?thesis using complete_refines assms(2) by simp
next
  case step_fail
  then show ?thesis using fail_refines assms(2,3) by simp
qed

lemma copies_ok_finish:
  assumes "flight_inv (rs, fl)" "copies_ok (rs, fl)" "x \<in> set fl"
    and other: "\<And>i. i \<noteq> rr_id (snd x) \<Longrightarrow> lookup_by ob_id i rs' = lookup_by ob_id i rs"
  shows "copies_ok (rs', remove1 x fl)"
  unfolding copies_ok_def
proof (intro ballI allI impI)
  fix y r assume y: "y \<in> set (snd (rs', remove1 x fl))" and r: "lookup_by ob_id (rr_id (snd y)) (fst (rs', remove1 x fl)) = Some r"
  have "distinct (map (rr_id \<circ> snd) fl)" using assms(1) by (simp add: flight_inv_def)
  then have "y \<in> set fl" "rr_id (snd y) \<noteq> rr_id (snd x)"
    using remove1_flight(2)[of "rr_id \<circ> snd" fl x y] assms(3) y by simp_all
  then show "ob_retry_count r = rr_retry_count (snd y)" using assms(2) r other by (simp add: copies_ok_def)
qed

lemma copies_ok_claim:
  assumes "flight_inv (rs, fl)" "copies_ok (rs, fl)" "claimBatch now w n rs = (rs', Inr raws)"
  shows "copies_ok (rs', fl @ map (Pair w) raws)"
  unfolding copies_ok_def
proof (intro ballI allI impI)
  fix y r assume y: "y \<in> set (snd (rs', fl @ map (Pair w) raws))"
    and "lookup_by ob_id (rr_id (snd y)) (fst (rs', fl @ map (Pair w) raws)) = Some r"
  then have "lookup_by ob_id (rr_id (snd y)) (claim_rows now w (rr_id ` set raws) rs) = Some r"
    by (simp add: claimBatch_ok(3)[OF assms(3)])
  then obtain q where q: "lookup_by ob_id (rr_id (snd y)) rs = Some q" "ob_retry_count r = ob_retry_count q"
    by (auto simp: lookup_claim_rows)
  show "ob_retry_count r = rr_retry_count (snd y)"
  proof (cases "y \<in> set fl")
    case True
    then show ?thesis using assms(2) q by (simp add: copies_ok_def)
  next
    case False
    then have x: "snd y \<in> set raws" using y by auto
    obtain p where p: "p \<in> set (selectedRows now n rs)" "to_raw p = Inr (snd y)" "ob_id p = rr_id (snd y)"
      by (rule claimed_is_selected[OF assms(3) x])
    have "distinct (map ob_id rs)" using assms(1) by (simp add: flight_inv_def)
    then have "lookup_by ob_id (ob_id p) rs = Some p" using selected_lookup(1) p(1) by blast
    then have "p = q" using p(3) q(1) by simp
    then show ?thesis using to_raw_id[OF p(2)] q(2) by simp
  qed
qed

lemma copies_ok_step:
  assumes "worker_step st act st'" "flight_inv st" "copies_ok st" "\<not> is_release act"
  shows "copies_ok st'"
  using assms(1)
proof cases
  case step_release
  then show ?thesis using assms(4) by simp
next
  case step_claim
  then show ?thesis using copies_ok_claim assms(2,3) by simp
next
  case (step_complete w raw fl rs now)
  then show ?thesis using copies_ok_finish[of rs fl "(w, raw)"] lookup_other(1) assms(2,3) by simp
next
  case (step_fail w raw fl rs now msg)
  then show ?thesis using copies_ok_finish[of rs fl "(w, raw)"] lookup_other(2) assms(2,3) by simp
qed

fun fails_of :: "nat \<Rightarrow> worker_action \<Rightarrow> bool" where
  "fails_of i (Act_Fail now w raw msg) = (rr_id raw = i)"
| "fails_of i _ = False"

lemma worker_run_refines:
  assumes "worker_run rs0 acts st" "distinct (map ob_id rs0)" "list_all (\<lambda>a. \<not> is_release a) acts"
  shows "\<exists>as. queue_run (abs_queue rs0) as (abs_queue (fst st)) \<and> length as = length acts
    \<and> (\<forall>i. fail_count i as = length (filter (fails_of i) acts)) \<and> copies_ok st"
  using assms
proof induction
  case run_start
  then show ?case using q_start by (fastforce simp: fail_count_def copies_ok_def)
next
  case (run_step acts st act st')
  then obtain as where as: "queue_run (abs_queue rs0) as (abs_queue (fst st))" "length as = length acts"
    "\<forall>i. fail_count i as = length (filter (fails_of i) acts)" "copies_ok st" by auto
  have nr: "\<not> is_release act" and inv: "flight_inv st"
    using run_step.prems flight_inv_run[OF run_step.hyps(1)] by (auto simp: list_all_iff)
  have "queue_run (abs_queue rs0) (as @ [abs_action (fst st) act]) (abs_queue (fst st'))"
    using q_more[OF as(1)] worker_step_refines[OF run_step.hyps(2) inv as(4) nr] .
  moreover have "fail_count i (as @ [abs_action (fst st) act]) = length (filter (fails_of i) (acts @ [act]))" for i
    using as(3) nr by (cases act) (auto simp: fail_count_def)
  ultimately show ?case using as copies_ok_step[OF run_step.hyps(2) inv as(4) nr]
    by (intro exI[of _ "as @ [abs_action (fst st) act]"]) simp
qed

text \<open>C19: Overlapping workers implement the abstract queue: every run of claims, completions and
  failures, interleaved in any way and without the release of a stale lock, is
  a run of the queue on the states of the events, step for step.\<close>

theorem workers_refine_queue:
  assumes "worker_run rs0 acts st" "distinct (map ob_id rs0)" "list_all (\<lambda>a. \<not> is_release a) acts"
  shows "\<exists>as. queue_run (abs_queue rs0) as (abs_queue (fst st)) \<and> length as = length acts
    \<and> (\<forall>i. fail_count i as = length (filter (fails_of i) acts))"
  using worker_run_refines[OF assms] by blast

lemma workers_refine_queue_witness:
  "\<exists>as. queue_run (abs_queue [sample_row 1 ''E_V1'']) as (abs_queue (fst (fst (claimBatch 5 ''w'' 1 [sample_row 1 ''E_V1'']), [])))
    \<and> length as = 1"
proof -
  let ?rs = "[sample_row 1 ''E_V1'']"
  obtain rs' raws where c: "claimBatch 5 ''w'' 1 ?rs = (rs', Inr raws)"
  proof -
    have "\<exists>raws. snd (claimBatch 5 ''w'' 1 ?rs) = Inr raws" by (intro exI) code_simp
    then show ?thesis using that by (cases "claimBatch 5 ''w'' 1 ?rs") auto
  qed
  have "worker_run ?rs ([] @ [Act_Claim 5 ''w'' 1]) (rs', [] @ map (Pair ''w'') raws)"
    by (rule run_step[OF run_start]) (rule step_claim[OF c])
  then show ?thesis
    using workers_refine_queue[of ?rs "[Act_Claim 5 ''w'' 1]" "(rs', map (Pair ''w'') raws)"] c by auto
qed

text \<open>What the queue promises holds of the rows: without a release of locks no event fails
  more than ten times, however the workers overlap.\<close>

lemma event_fails_at_most_ten_times:
  assumes "worker_run rs0 acts st" "distinct (map ob_id rs0)" "list_all (\<lambda>a. \<not> is_release a) acts"
  shows "length (filter (fails_of i) acts) \<le> 10"
proof -
  obtain as where as: "queue_run (abs_queue rs0) as (abs_queue (fst st))"
      "\<forall>i. fail_count i as = length (filter (fails_of i) acts)"
    using worker_run_refines[OF assms] by blast
  have "fail_count i as \<le> MAX_RETRIES"
    using queue_fail_bound[OF as(1), of i] by (auto simp: MAX_RETRIES_def split: option.splits event_state.splits)
  then show ?thesis using as(2) by (simp add: MAX_RETRIES_def)
qed

end
