(* ===== verification/Outbox_Maintenance.thy ===== *)
theory Outbox_Maintenance
  imports Outbox_Worker
begin

text \<open>
  What happens to outbox rows after the worker is done with them: the janitor
  (\<^verbatim>\<open>src/domain-events/outbox-janitor.service.ts\<close>) and the archive service
  (\<^verbatim>\<open>outbox-archive.service.ts\<close>) move rows to the archive table, compress and delete
  them; the dead-letter service (\<^verbatim>\<open>dead-letter.service.ts\<close>) retries and deletes failed
  rows. The length of a payload as JSON text is a parameter.
\<close>

section \<open>Compressing a payload\<close>

fun cleanPayload :: "json \<Rightarrow> json option"
  and clean_items :: "json list \<Rightarrow> json list"
  and clean_fields :: "(string \<times> json) list \<Rightarrow> (string \<times> json) list" where
  "cleanPayload JNull = None"
| "cleanPayload (JArr xs) = Some (JArr (clean_items xs))"
| "cleanPayload (JObj kvs) = (case clean_fields kvs of [] \<Rightarrow> None | c \<Rightarrow> Some (JObj c))"
| "cleanPayload p = Some p"
| "clean_items [] = []"
| "clean_items (x # xs) = (case cleanPayload x of None \<Rightarrow> clean_items xs | Some y \<Rightarrow> y # clean_items xs)"
| "clean_fields [] = []"
| "clean_fields ((k, v) # kvs) = (case cleanPayload v of None \<Rightarrow> clean_fields kvs | Some y \<Rightarrow> (k, y) # clean_fields kvs)"

fun compressLargeStrings :: "json \<Rightarrow> json"
  and compress_items :: "json list \<Rightarrow> json list"
  and compress_fields :: "(string \<times> json) list \<Rightarrow> (string \<times> json) list" where
  "compressLargeStrings (JStr s) = (if length s > 1000 then JStr s else JStr s)"
| "compressLargeStrings (JArr xs) = JArr (compress_items xs)"
| "compressLargeStrings (JObj kvs) = JObj (compress_fields kvs)"
| "compressLargeStrings p = p"
| "compress_items [] = []"
| "compress_items (x # xs) = compressLargeStrings x # compress_items xs"
| "compress_fields [] = []"
| "compress_fields ((k, v) # kvs) = (k, compressLargeStrings v) # compress_fields kvs"

definition fieldMapping :: "(string \<times> string) list" where
  "fieldMapping = [(''created_at'', ''ca''), (''updated_at'', ''ua''), (''event_type'', ''et''), (''event_id'', ''eid''),
     (''user_id'', ''uid''), (''driver_id'', ''did''), (''delivery_id'', ''dlid''), (''location'', ''loc''),
     (''timestamp'', ''ts''), (''status'', ''st''), (''payload'', ''pl''), (''metadata'', ''md''),
     (''description'', ''desc''), (''message'', ''msg''), (''error'', ''err''), (''success'', ''suc''),
     (''failed'', ''fail''), (''completed'', ''comp''), (''processing'', ''proc''), (''pending'', ''pend'')]"

definition short_name :: "string \<Rightarrow> string" where
  "short_name k = (case map_of fieldMapping k of Some s \<Rightarrow> s | None \<Rightarrow> k)"

text \<open>\<^verbatim>\<open>normalized[key] = value\<close>: a key that is there keeps its place.\<close>

definition put_field :: "string \<Rightarrow> json \<Rightarrow> (string \<times> json) list \<Rightarrow> (string \<times> json) list" where
  "put_field k v kvs = (if k \<in> fst ` set kvs then map (\<lambda>(k', v'). (k', if k' = k then v else v')) kvs else kvs @ [(k, v)])"

fun normalizeFieldNames :: "json \<Rightarrow> json"
  and normalize_items :: "json list \<Rightarrow> json list"
  and normalize_fields :: "(string \<times> json) list \<Rightarrow> (string \<times> json) list \<Rightarrow> (string \<times> json) list" where
  "normalizeFieldNames (JArr xs) = JArr (normalize_items xs)"
| "normalizeFieldNames (JObj kvs) = JObj (normalize_fields kvs [])"
| "normalizeFieldNames p = p"
| "normalize_items [] = []"
| "normalize_items (x # xs) = normalizeFieldNames x # normalize_items xs"
| "normalize_fields [] acc = acc"
| "normalize_fields ((k, v) # kvs) acc = normalize_fields kvs (put_field (short_name k) (normalizeFieldNames v) acc)"

definition compressPayload :: "json \<Rightarrow> json option" where
  "compressPayload p = map_option (\<lambda>c. normalizeFieldNames (compressLargeStrings c)) (cleanPayload p)"

section \<open>The archive\<close>

record archive_row =
  ar_id :: nat
  ar_eventType :: "string option"
  ar_payload :: json
  ar_status :: outbox_status
  ar_retryCount :: nat
  ar_lastError :: "string option"
  ar_nextRetryAt :: "int option"
  ar_createdAt :: int
  ar_processedAt :: "int option"
  ar_lockedAt :: "int option"
  ar_lockedBy :: "string option"
  ar_idempotencyKey :: string
  ar_archivedAt :: int
  ar_isCompressed :: bool
  ar_compressedPayload :: "json option"
  ar_originalSize :: "nat option"
  ar_compressedSize :: "nat option"

record outbox_store =
  hot :: "outbox_row list"
  archive :: "archive_row list"

definition archived :: "nat \<Rightarrow> int \<Rightarrow> nat option \<Rightarrow> outbox_row \<Rightarrow> archive_row" where
  "archived i now sz r = \<lparr> ar_id = i, ar_eventType = ob_event_type r, ar_payload = ob_payload r,
     ar_status = ob_status r, ar_retryCount = ob_retry_count r, ar_lastError = ob_last_error r,
     ar_nextRetryAt = ob_next_retry_at r, ar_createdAt = ob_created_at r, ar_processedAt = ob_processed_at r,
     ar_lockedAt = ob_locked_at r, ar_lockedBy = ob_locked_by r, ar_idempotencyKey = ob_idempotency_key r,
     ar_archivedAt = now, ar_isCompressed = False, ar_compressedPayload = None, ar_originalSize = sz,
     ar_compressedSize = None \<rparr>"

text \<open>\<^verbatim>\<open>save\<close> of a batch inserts all its rows or, when one breaks the unique key of the
  archive, none.\<close>

definition save_batch :: "int \<Rightarrow> (json \<Rightarrow> nat option) \<Rightarrow> outbox_row list \<Rightarrow> archive_row list \<Rightarrow> archive_row list option" where
  "save_batch now sz batch ar = (
    if distinct (map ob_idempotency_key batch) \<and> set (map ob_idempotency_key batch) \<inter> ar_idempotencyKey ` set ar = {}
    then Some (ar @ map (\<lambda>(n, r). archived (length ar + n) now (sz (ob_payload r)) r) (zip [0..<length batch] batch))
    else None)"

definition BATCH_SIZE :: nat where "BATCH_SIZE = 100"

text \<open>The loop over the batches: the archive as it is when the loop ends or raises.\<close>

function save_batches ::
  "int \<Rightarrow> (json \<Rightarrow> nat option) \<Rightarrow> outbox_row list \<Rightarrow> archive_row list \<Rightarrow> archive_row list \<times> bool" where
  "save_batches now sz rs ar = (
    if rs = [] then (ar, True)
    else case save_batch now sz (take BATCH_SIZE rs) ar of
        None \<Rightarrow> (ar, False)
      | Some ar' \<Rightarrow> save_batches now sz (drop BATCH_SIZE rs) ar')"
  by pat_completeness auto
termination by (relation "measure (\<lambda>(now, sz, rs, ar). length rs)") (auto simp: BATCH_SIZE_def)

declare save_batches.simps [simp del]

definition move_rows :: "int \<Rightarrow> (json \<Rightarrow> nat option) \<Rightarrow> outbox_row list \<Rightarrow> (outbox_store, string, nat) action" where
  "move_rows now sz rs st = (
    if rs = [] then (st, Inr 0)
    else case save_batches now sz rs (archive st) of
        (ar, False) \<Rightarrow> (st\<lparr> archive := ar \<rparr>, Inl ''duplicate key value violates unique constraint'')
      | (ar, True) \<Rightarrow> (st\<lparr> archive := ar, hot := filter (\<lambda>r. ob_id r \<notin> ob_id ` set rs) (hot st) \<rparr>, Inr (length rs)))"

definition hour_ms :: int where "hour_ms = 3600000"

definition day_ms :: int where "day_ms = 86400000"

definition to_archive :: "int \<Rightarrow> outbox_row list \<Rightarrow> outbox_row list" where
  "to_archive now rs = sort_key ob_created_at
    (filter (\<lambda>r. ob_status r = OB_COMPLETED \<and> ob_created_at r < now - hour_ms) rs)"

definition archiveCompletedEvents :: "int \<Rightarrow> (json \<Rightarrow> nat) \<Rightarrow> (outbox_store, string, nat) action" where
  "archiveCompletedEvents now sz st = move_rows now (\<lambda>p. Some (sz p)) (to_archive now (hot st)) st"

text \<open>The archive service takes every row that is old enough, of any status.\<close>

definition archiveOldEvents :: "int \<Rightarrow> int \<Rightarrow> (outbox_store, string, nat) action" where
  "archiveOldEvents now daysToKeep st = move_rows now (\<lambda>_. None)
    (sort_key ob_created_at (filter (\<lambda>r. ob_created_at r < now - daysToKeep * day_ms) (hot st))) st"

definition compress_row :: "int \<Rightarrow> (json \<Rightarrow> nat) \<Rightarrow> archive_row \<Rightarrow> archive_row" where
  "compress_row now sz a = (
    if ar_archivedAt a < now - 30 * day_ms \<and> \<not> ar_isCompressed a
    then (case compressPayload (ar_payload a) of
        None \<Rightarrow> a
      | Some c \<Rightarrow> a\<lparr> ar_compressedPayload := Some c, ar_isCompressed := True, ar_compressedSize := Some (sz c) \<rparr>)
    else a)"

definition compressOldArchives :: "int \<Rightarrow> (json \<Rightarrow> nat) \<Rightarrow> outbox_store \<Rightarrow> outbox_store" where
  "compressOldArchives now sz st = st\<lparr> archive := map (compress_row now sz) (archive st) \<rparr>"

definition hardDeleteOldArchives :: "int \<Rightarrow> int \<Rightarrow> outbox_store \<Rightarrow> outbox_store" where
  "hardDeleteOldArchives now retentionDays st =
    st\<lparr> archive := filter (\<lambda>a. \<not> ar_archivedAt a < now - retentionDays * day_ms) (archive st) \<rparr>"

definition hardDeleteOldArchivedEvents :: "int \<Rightarrow> int \<Rightarrow> outbox_store \<Rightarrow> outbox_store \<times> nat" where
  "hardDeleteOldArchivedEvents now daysToKeep st = (
    let old = (\<lambda>a. ar_archivedAt a < now - daysToKeep * day_ms)
    in (st\<lparr> archive := filter (\<lambda>a. \<not> old a) (archive st) \<rparr>, count_rows old (archive st)))"

definition janitor_cleanup :: "(json \<Rightarrow> nat) \<Rightarrow> int \<Rightarrow> int \<Rightarrow> (outbox_store, string, unit) action" where
  "janitor_cleanup sz retentionDays now st = (case archiveCompletedEvents now sz st of
      (st1, Inl e) \<Rightarrow> (st1, Inl e)
    | (st1, Inr _) \<Rightarrow> (hardDeleteOldArchives now retentionDays (compressOldArchives now sz st1), Inr ()))"

definition archiveEventsImmediately :: "int \<Rightarrow> (json \<Rightarrow> nat) \<Rightarrow> nat list \<Rightarrow> (outbox_store, string, nat) action" where
  "archiveEventsImmediately now sz ids st = (
    let rs = filter (\<lambda>r. ob_id r \<in> set ids) (hot st)
    in if rs = [] then (st, Inr 0)
       else case save_batch now (\<lambda>p. Some (sz p)) rs (archive st) of
           None \<Rightarrow> (st, Inl ''duplicate key value violates unique constraint'')
         | Some ar \<Rightarrow> (st\<lparr> archive := ar, hot := filter (\<lambda>r. ob_id r \<notin> set ids) (hot st) \<rparr>, Inr (length rs)))"

section \<open>Dead letters\<close>

text \<open>\<^verbatim>\<open>retryEvent\<close> in two halves, between which other processes see the row: it is made
  pending, and then handled. An \<^verbatim>\<open>undefined\<close> in an update leaves the column.\<close>

definition retry_open :: "nat \<Rightarrow> (outbox_row list, string, outbox_row) action" where
  "retry_open i rs = (case find (\<lambda>r. ob_id r = i \<and> ob_status r = OB_FAILED) rs of
      None \<Rightarrow> (rs, Inl (''Failed event with ID '' @ nat_str i @ '' not found''))
    | Some e \<Rightarrow> (update_rows (\<lambda>r. ob_id r = i) (\<lambda>r. r\<lparr> ob_status := OB_PENDING, ob_retry_count := ob_retry_count e + 1 \<rparr>) rs, Inr e))"

text \<open>The entity as the handler sees it: the row as it was read.\<close>

definition entity_event :: "outbox_row \<Rightarrow> outbox_event" where
  "entity_event r = \<lparr> ev_id = ob_id r, ev_eventType = (case ob_event_type r of Some t \<Rightarrow> t | None \<Rightarrow> []),
     ev_payload = ob_payload r, ev_status = ob_status r, ev_priority = ob_priority r, ev_retryCount = ob_retry_count r,
     ev_lastError = ob_last_error r, ev_nextRetryAt = ob_next_retry_at r, ev_createdAt = ob_created_at r,
     ev_processedAt = ob_processed_at r, ev_lockedAt = ob_locked_at r, ev_lockedBy = ob_locked_by r,
     ev_idempotencyKey = ob_idempotency_key r, ev_version = ob_version r \<rparr>"

definition retry_handle :: "'w registry option \<Rightarrow> int \<Rightarrow> outbox_row \<Rightarrow> ('w worker_sys, string, unit) action" where
  "retry_handle reg now e s = (case handle_event reg (entity_event e) now now (ws_circuits s, ws_world s) of
      ((cs, w), Inr _) \<Rightarrow> (s\<lparr> ws_circuits := cs, ws_world := w,
        ws_rows := update_rows (\<lambda>r. ob_id r = ob_id e) (\<lambda>r. r\<lparr> ob_status := OB_COMPLETED, ob_processed_at := Some now \<rparr>) (ws_rows s) \<rparr>, Inr ())
    | ((cs, w), Inl msg) \<Rightarrow> (s\<lparr> ws_circuits := cs, ws_world := w,
        ws_rows := update_rows (\<lambda>r. ob_id r = ob_id e) (\<lambda>r. r\<lparr> ob_status := OB_FAILED, ob_last_error := Some msg,
          ob_retry_count := ob_retry_count e + 1 \<rparr>) (ws_rows s) \<rparr>, Inl msg))"

definition retryEvent :: "'w registry option \<Rightarrow> int \<Rightarrow> nat \<Rightarrow> ('w worker_sys, string, unit) action" where
  "retryEvent reg now i s = (case retry_open i (ws_rows s) of
      (_, Inl m) \<Rightarrow> (s, Inl m)
    | (rs, Inr e) \<Rightarrow> retry_handle reg now e (s\<lparr> ws_rows := rs \<rparr>))"

text \<open>The counts: failed before, retried, successful, failed again.\<close>

fun retry_each :: "'w registry option \<Rightarrow> int \<Rightarrow> nat list \<Rightarrow> 'w worker_sys \<times> nat \<times> nat \<Rightarrow> 'w worker_sys \<times> nat \<times> nat" where
  "retry_each reg now [] st = st"
| "retry_each reg now (i # rest) (s, ok, bad) = (case retryEvent reg now i s of
      (s', Inr _) \<Rightarrow> retry_each reg now rest (s', ok + 1, bad)
    | (s', Inl _) \<Rightarrow> retry_each reg now rest (s', ok, bad + 1))"

definition failed_rows :: "outbox_row list \<Rightarrow> outbox_row list" where
  "failed_rows rs = filter (\<lambda>r. ob_status r = OB_FAILED) rs"

definition retryAllFailedEvents :: "'w registry option \<Rightarrow> int \<Rightarrow> nat \<Rightarrow> 'w worker_sys \<Rightarrow> 'w worker_sys \<times> nat \<times> nat \<times> nat \<times> nat" where
  "retryAllFailedEvents reg now limit s = (
    let chosen = take limit (sort_key ob_created_at (failed_rows (ws_rows s)))
    in case retry_each reg now (map ob_id chosen) (s, 0, 0) of
         (s', ok, bad) \<Rightarrow> (s', length (failed_rows (ws_rows s)), length chosen, ok, bad))"

text \<open>The inspection: how many failed, the inspected ones by error, and the recent ones.\<close>

definition inspectFailedEvents :: "int \<Rightarrow> nat \<Rightarrow> outbox_row list \<Rightarrow> nat \<times> (string \<Rightarrow> outbox_row list) \<times> outbox_row list" where
  "inspectFailedEvents now limit rs = (
    let inspected = take limit (sort_key (\<lambda>r. - ob_created_at r) (failed_rows rs))
    in (length (failed_rows rs),
        (\<lambda>e. filter (\<lambda>r. or_default (ob_last_error r) ''Unknown Error'' = e) inspected),
        filter (\<lambda>r. ob_created_at r > now - 300000) inspected))"

text \<open>A page of failed rows whose error contains a text; the wild cards of \<^verbatim>\<open>LIKE\<close> in the
  text are not interpreted.\<close>

definition getFailedEvents :: "nat \<Rightarrow> nat \<Rightarrow> string option \<Rightarrow> outbox_row list \<Rightarrow> outbox_row list \<times> nat" where
  "getFailedEvents page limit errorType rs = (
    let matching = (if truthy errorType
          then filter (\<lambda>r. case ob_last_error r of Some m \<Rightarrow> includes_str (the errorType) m | None \<Rightarrow> False) (failed_rows rs)
          else failed_rows rs)
    in (take limit (drop ((page - 1) * limit) (sort_key (\<lambda>r. - ob_created_at r) matching)), length matching))"

definition checkFailureThreshold :: "int \<Rightarrow> nat \<Rightarrow> outbox_row list \<Rightarrow> bool" where
  "checkFailureThreshold now threshold rs =
    (count_rows (\<lambda>r. ob_status r = OB_FAILED \<and> now - hour_ms \<le> ob_created_at r) rs > threshold)"

definition cleanupExpiredEvents :: "int \<Rightarrow> int \<Rightarrow> outbox_row list \<Rightarrow> outbox_row list \<times> nat" where
  "cleanupExpiredEvents now daysToKeep rs = (
    let expired = (\<lambda>r. ob_status r = OB_FAILED \<and> ob_created_at r < now - daysToKeep * day_ms)
    in (filter (\<lambda>r. \<not> expired r) rs, count_rows expired rs))"

section \<open>What compression does\<close>

lemma clean_idempotent:
  "cleanPayload p = Some q \<Longrightarrow> cleanPayload q = Some q"
  "clean_items (clean_items xs) = clean_items xs"
  "clean_fields (clean_fields kvs) = clean_fields kvs"
  by (induction p and xs and kvs arbitrary: q rule: cleanPayload_clean_items_clean_fields.induct)
    (auto split: option.splits list.splits)

lemma large_strings_unchanged:
  "compressLargeStrings p = p" "compress_items xs = xs" "compress_fields kvs = kvs"
  by (induction p and xs and kvs rule: compressLargeStrings_compress_items_compress_fields.induct) simp_all

text \<open>The short names are not distinct from names in use, so a field can be lost.\<close>

lemma compression_loses_a_field:
  "compressPayload (JObj [(''status'', JNum 1), (''st'', JNum 2)]) = compressPayload (JObj [(''st'', JNum 2)])"
  by code_simp

section \<open>Moving rows to the archive\<close>

definition moved :: "int \<Rightarrow> (json \<Rightarrow> nat option) \<Rightarrow> outbox_row \<Rightarrow> archive_row \<Rightarrow> bool" where
  "moved now sz r a = (\<exists>i. a = archived i now (sz (ob_payload r)) r)"

lemma moved_key: "moved now sz r a \<Longrightarrow> ar_idempotencyKey a = ob_idempotency_key r \<and> ar_status a = ob_status r"
  by (auto simp: moved_def archived_def)

lemma moved_keys: "list_all2 (moved now sz) rs zs \<Longrightarrow> map ar_idempotencyKey zs = map ob_idempotency_key rs"
  by (induction rule: list_all2_induct) (auto dest: moved_key)

lemma save_batch_Some:
  assumes "save_batch now sz batch ar = Some ar'"
  obtains zs where "ar' = ar @ zs" "list_all2 (moved now sz) batch zs"
proof -
  have "list_all2 (moved now sz) batch (map (\<lambda>(n, r). archived (length ar + n) now (sz (ob_payload r)) r) (zip [0..<length batch] batch))"
    by (auto simp: list_all2_conv_all_nth moved_def)
  then show ?thesis using assms that by (auto simp: save_batch_def split: if_splits)
qed

text \<open>Whatever happens, the rows of a prefix are in the archive afterwards.\<close>

lemma save_batches_prefix:
  "save_batches now sz rs ar = (ar', ok) \<Longrightarrow>
    \<exists>zs. ar' = ar @ zs \<and> (ok \<longrightarrow> list_all2 (moved now sz) rs zs)"
proof (induction now sz rs ar rule: save_batches.induct)
  case (1 now sz rs ar)
  show ?case
  proof (cases "rs = []")
    case True
    then show ?thesis using "1.prems" by (simp add: save_batches.simps)
  next
    case ne: False
    show ?thesis
    proof (cases "save_batch now sz (take BATCH_SIZE rs) ar")
      case None
      then show ?thesis using "1.prems" ne by (simp add: save_batches.simps)
    next
      case (Some ar1)
      then have r: "save_batches now sz (drop BATCH_SIZE rs) ar1 = (ar', ok)"
        using "1.prems" ne by (simp add: save_batches.simps[of _ _ rs])
      obtain ys where ys: "ar1 = ar @ ys" "list_all2 (moved now sz) (take BATCH_SIZE rs) ys"
        by (rule save_batch_Some[OF Some])
      obtain zs where zs: "ar' = ar1 @ zs" "ok \<longrightarrow> list_all2 (moved now sz) (drop BATCH_SIZE rs) zs"
        using "1.IH"[OF ne Some r] by blast
      have "ok \<longrightarrow> list_all2 (moved now sz) rs (ys @ zs)"
        using list_all2_appendI[OF ys(2)] zs(2) by (metis append_take_drop_id)
      then show ?thesis using ys(1) zs(1) by auto
    qed
  qed
qed

lemma save_batches_duplicate:
  assumes "r \<in> set rs" "ob_idempotency_key r \<in> ar_idempotencyKey ` set ar"
  shows "\<not> snd (save_batches now sz rs ar)"
  using assms
proof (induction now sz rs ar rule: save_batches.induct)
  case (1 now sz rs ar)
  have ne: "rs \<noteq> []" using "1.prems"(1) by auto
  show ?case
  proof (cases "save_batch now sz (take BATCH_SIZE rs) ar")
    case None
    then show ?thesis using ne by (simp add: save_batches.simps[of _ _ rs])
  next
    case (Some ar1)
    then have "r \<notin> set (take BATCH_SIZE rs)"
      using "1.prems"(2) by (auto simp: save_batch_def split: if_splits)
    then have "r \<in> set (drop BATCH_SIZE rs)"
      using "1.prems"(1) by (metis Un_iff append_take_drop_id set_append)
    moreover have "ob_idempotency_key r \<in> ar_idempotencyKey ` set ar1"
      using "1.prems"(2) save_batch_Some[OF Some] by (metis Un_iff image_Un set_append)
    ultimately show ?thesis using "1.IH"[OF ne Some] ne Some by (simp add: save_batches.simps[of _ _ rs])
  qed
qed

lemma save_batches_fresh:
  assumes "distinct (map ob_idempotency_key rs)" "ob_idempotency_key ` set rs \<inter> ar_idempotencyKey ` set ar = {}"
  shows "snd (save_batches now sz rs ar)"
  using assms
proof (induction now sz rs ar rule: save_batches.induct)
  case (1 now sz rs ar)
  show ?case
  proof (cases "rs = []")
    case ne: False
    let ?a = "take BATCH_SIZE rs" and ?b = "drop BATCH_SIZE rs"
    have split: "rs = ?a @ ?b" by simp
    have d: "distinct (map ob_idempotency_key ?a @ map ob_idempotency_key ?b)"
      using "1.prems"(1) by (metis map_append split)
    have sub: "set ?a \<subseteq> set rs" "set ?b \<subseteq> set rs" by (rule set_take_subset, rule set_drop_subset)
    have "set (map ob_idempotency_key ?a) \<inter> ar_idempotencyKey ` set ar = {}" using "1.prems"(2) sub by auto
    then obtain ar1 where ar1: "save_batch now sz ?a ar = Some ar1" using d by (simp add: save_batch_def)
    obtain ys where ys: "ar1 = ar @ ys" "list_all2 (moved now sz) ?a ys" by (rule save_batch_Some[OF ar1])
    have "set (map ar_idempotencyKey ys) = set (map ob_idempotency_key ?a)" using moved_keys[OF ys(2)] by simp
    then have "ar_idempotencyKey ` set ar1 = ar_idempotencyKey ` set ar \<union> ob_idempotency_key ` set ?a"
      by (simp add: ys(1) image_Un)
    moreover have "ob_idempotency_key ` set ?b \<subseteq> ob_idempotency_key ` set rs" using sub(2) by (rule image_mono)
    moreover have "ob_idempotency_key ` set ?a \<inter> ob_idempotency_key ` set ?b = {}" using d by simp
    ultimately have "ob_idempotency_key ` set ?b \<inter> ar_idempotencyKey ` set ar1 = {}" using "1.prems"(2) by blast
    then show ?thesis using "1.IH"[OF ne ar1] d ne ar1 by (simp add: save_batches.simps[of _ _ rs])
  qed (simp add: save_batches.simps)
qed

lemma move_rows_ok:
  assumes "move_rows now sz rs st = (st', Inr n)"
  shows "n = length rs \<and> hot st' = filter (\<lambda>r. ob_id r \<notin> ob_id ` set rs) (hot st)
    \<and> (\<exists>zs. archive st' = archive st @ zs \<and> list_all2 (moved now sz) rs zs)"
proof (cases "rs = []")
  case False
  obtain ar ok where s: "save_batches now sz rs (archive st) = (ar, ok)" by fastforce
  then show ?thesis using assms False save_batches_prefix[OF s] by (cases ok) (auto simp: move_rows_def)
qed (use assms in \<open>auto simp: move_rows_def\<close>)

lemma move_rows_duplicate:
  assumes "r \<in> set rs" "ob_idempotency_key r \<in> ar_idempotencyKey ` set (archive st)"
    and "move_rows now sz rs st = (st', x)"
  shows "(\<exists>e. x = Inl e) \<and> hot st' = hot st \<and> (\<exists>zs. archive st' = archive st @ zs)"
proof -
  obtain ar ok where s: "save_batches now sz rs (archive st) = (ar, ok)" by fastforce
  then have no: "\<not> ok" using save_batches_duplicate[OF assms(1,2), of now sz] by simp
  have "rs \<noteq> []" using assms(1) by auto
  then have "(st', x) = (st\<lparr> archive := ar \<rparr>, Inl ''duplicate key value violates unique constraint'')"
    using assms(3) s no by (simp add: move_rows_def)
  then show ?thesis using save_batches_prefix[OF s] by auto
qed

text \<open>When no key is in the archive yet, the janitor moves exactly the completed rows that
  are more than an hour old, each with its key and status once into the archive, and
  leaves the other rows where they are.\<close>

theorem janitor_moves_completed_rows:
  assumes "distinct (map ob_idempotency_key (hot st))" "distinct (map ob_id (hot st))"
    and "ob_idempotency_key ` set (hot st) \<inter> ar_idempotencyKey ` set (archive st) = {}"
  shows "\<exists>st' zs. archiveCompletedEvents now sz st = (st', Inr (length zs)) \<and> archive st' = archive st @ zs
    \<and> map ar_idempotencyKey zs = map ob_idempotency_key (to_archive now (hot st))
    \<and> hot st' = filter (\<lambda>r. \<not> (ob_status r = OB_COMPLETED \<and> ob_created_at r < now - hour_ms)) (hot st)"
proof -
  let ?P = "\<lambda>r. ob_status r = OB_COMPLETED \<and> ob_created_at r < now - hour_ms"
  let ?rs = "to_archive now (hot st)"
  have set: "set ?rs = {r \<in> set (hot st). ?P r}" by (auto simp: to_archive_def)
  have "distinct (map ob_idempotency_key ?rs)"
    using assms(1) distinct_take_sort_key[of ob_idempotency_key "filter ?P (hot st)" "length (hot st)" ob_created_at]
    by (simp add: to_archive_def distinct_map_filter)
  then have ok: "snd (save_batches now (\<lambda>p. Some (sz p)) ?rs (archive st))"
    using assms(3) set by (intro save_batches_fresh) auto
  obtain st' x where m: "archiveCompletedEvents now sz st = (st', x)" by fastforce
  obtain n where x: "x = Inr n"
    using m ok by (auto simp: archiveCompletedEvents_def move_rows_def split: if_splits prod.splits bool.splits)
  have r: "move_rows now (\<lambda>p. Some (sz p)) ?rs st = (st', Inr n)" using m x by (simp add: archiveCompletedEvents_def)
  obtain zs where zs: "archive st' = archive st @ zs" "list_all2 (moved now (\<lambda>p. Some (sz p))) ?rs zs"
      "n = length ?rs" "hot st' = filter (\<lambda>r. ob_id r \<notin> ob_id ` set ?rs) (hot st)"
    using move_rows_ok[OF r] by blast
  have "ob_id r \<notin> ob_id ` set ?rs \<longleftrightarrow> \<not> ?P r" if "r \<in> set (hot st)" for r
    using that assms(2) unfolding set by (auto simp: distinct_map inj_on_def)
  then have "hot st' = filter (\<lambda>r. \<not> ?P r) (hot st)" unfolding zs(4) by (intro filter_cong) simp_all
  moreover have "n = length zs" using zs(2,3) list_all2_lengthD by fastforce
  ultimately show ?thesis using m x zs(1) moved_keys[OF zs(2)] by blast
qed

definition done_at :: "nat \<Rightarrow> string \<Rightarrow> int \<Rightarrow> outbox_row" where
  "done_at i k t = (new_row i ''E_V1'' JNull 1 t k)\<lparr> ob_status := OB_COMPLETED \<rparr>"

lemma done_at_simps [simp]:
  "ob_id (done_at i k t) = i" "ob_idempotency_key (done_at i k t) = k" "ob_status (done_at i k t) = OB_COMPLETED"
  "ob_created_at (done_at i k t) = t"
  by (simp_all add: done_at_def new_row_def)

lemma janitor_moves_completed_rows_witness:
  "\<exists>st' (zs :: archive_row list). archiveCompletedEvents 5000000 (\<lambda>_. 2) \<lparr> hot = [done_at 1 ''k'' 0, done_at 2 ''l'' 4000000], archive = [] \<rparr>
      = (st', Inr (length zs)) \<and> map ar_idempotencyKey zs = [''k''] \<and> map ob_id (hot st') = [2]"
proof -
  let ?st = "\<lparr> hot = [done_at 1 ''k'' 0, done_at 2 ''l'' 4000000], archive = [] \<rparr>"
  have "map ob_idempotency_key (to_archive 5000000 [done_at 1 ''k'' 0, done_at 2 ''l'' 4000000]) = [''k'']"
    by (simp add: to_archive_def hour_ms_def)
  moreover have "filter (\<lambda>r. \<not> (ob_status r = OB_COMPLETED \<and> ob_created_at r < 5000000 - hour_ms)) (hot ?st)
      = [done_at 2 ''l'' 4000000]" by (simp add: hour_ms_def)
  moreover have pre: "distinct (map ob_idempotency_key (hot ?st))" "distinct (map ob_id (hot ?st))"
    "ob_idempotency_key ` set (hot ?st) \<inter> ar_idempotencyKey ` set (archive ?st) = {}" by simp_all
  obtain st' and zs :: "archive_row list" where "archiveCompletedEvents 5000000 (\<lambda>_. 2) ?st = (st', Inr (length zs))"
    "map ar_idempotencyKey zs = map ob_idempotency_key (to_archive 5000000 (hot ?st))"
    "hot st' = filter (\<lambda>r. \<not> (ob_status r = OB_COMPLETED \<and> ob_created_at r < 5000000 - hour_ms)) (hot ?st)"
    using janitor_moves_completed_rows[OF pre, of 5000000 "\<lambda>_. 2"] by blast
  ultimately show ?thesis by (intro exI[of _ st'] exI[of _ zs]) simp
qed

text \<open>The janitor run at each of the times, its errors caught by the scheduler.\<close>

definition cleanup_runs :: "(json \<Rightarrow> nat) \<Rightarrow> int \<Rightarrow> int list \<Rightarrow> outbox_store \<Rightarrow> outbox_store" where
  "cleanup_runs sz retention runs = for_each (\<lambda>t st. fst (janitor_cleanup sz retention t st)) runs"

text \<open>One completed row whose key is already in the archive stops the janitor for good:
  the hot table accepts a key again once its row has been archived, the archive does
  not, and from then on every run raises before it deletes, compresses or hard-deletes
  anything, so no row leaves either table.\<close>

theorem duplicate_key_stops_janitor:
  assumes "r \<in> set (hot st)" "ob_status r = OB_COMPLETED"
    and "ob_idempotency_key r \<in> ar_idempotencyKey ` set (archive st)"
    and "list_all (\<lambda>t. ob_created_at r < t - hour_ms) runs"
  shows "hot (cleanup_runs sz retention runs st) = hot st
    \<and> set (archive st) \<subseteq> set (archive (cleanup_runs sz retention runs st))"
  unfolding cleanup_runs_def
proof (rule for_each_invariant[where I = "\<lambda>s :: outbox_store. hot s = hot st \<and> set (archive st) \<subseteq> set (archive s)"])
  fix t and s :: outbox_store assume t: "t \<in> set runs" and s: "hot s = hot st \<and> set (archive st) \<subseteq> set (archive s)"
  have r: "r \<in> set (to_archive t (hot s))" using assms(1,2,4) t s by (simp add: to_archive_def list_all_iff)
  have k: "ob_idempotency_key r \<in> ar_idempotencyKey ` set (archive s)" using assms(3) s by blast
  obtain s' x where m: "move_rows t (\<lambda>p. Some (sz p)) (to_archive t (hot s)) s = (s', x)" by fastforce
  then show "hot (fst (janitor_cleanup sz retention t s)) = hot st \<and> set (archive st) \<subseteq> set (archive (fst (janitor_cleanup sz retention t s)))"
    using move_rows_duplicate[OF r k m] s by (auto simp: janitor_cleanup_def archiveCompletedEvents_def)
qed simp

lemma duplicate_key_stops_janitor_witness:
  "hot (cleanup_runs (\<lambda>_. 2) 365 [9000000, 40000000000] \<lparr> hot = [done_at 7 ''k'' 5000000],
      archive = [archived 0 4000000 (Some 2) (done_at 1 ''k'' 0)] \<rparr>) = [done_at 7 ''k'' 5000000]"
  using duplicate_key_stops_janitor[of "done_at 7 ''k'' 5000000" "\<lparr> hot = [done_at 7 ''k'' 5000000],
      archive = [archived 0 4000000 (Some 2) (done_at 1 ''k'' 0)] \<rparr>" "[9000000, 40000000000]" "\<lambda>_. 2" 365]
  by (simp add: archived_def hour_ms_def)

text \<open>The archive service moves rows of any status: an old row that was never delivered
  is gone from the table the workers claim from, and stands in the archive as it was.\<close>

theorem undelivered_event_is_archived:
  assumes "archiveOldEvents now days st = (st', Inr n)" "r \<in> set (hot st)" "ob_created_at r < now - days * day_ms"
  shows "ob_id r \<notin> ob_id ` set (hot st')
    \<and> (\<exists>a \<in> set (archive st'). ar_idempotencyKey a = ob_idempotency_key r \<and> ar_status a = ob_status r)"
proof -
  let ?rs = "sort_key ob_created_at (filter (\<lambda>r. ob_created_at r < now - days * day_ms) (hot st))"
  have r: "r \<in> set ?rs" using assms(2,3) by simp
  have m: "move_rows now (\<lambda>_. None) ?rs st = (st', Inr n)" using assms(1) by (simp add: archiveOldEvents_def)
  obtain zs where zs: "archive st' = archive st @ zs" "list_all2 (moved now (\<lambda>_. None)) ?rs zs"
      "hot st' = filter (\<lambda>r. ob_id r \<notin> ob_id ` set ?rs) (hot st)"
    using move_rows_ok[OF m] by blast
  obtain k where k: "k < length ?rs" "?rs ! k = r" using r unfolding in_set_conv_nth by blast
  then have "k < length zs" "moved now (\<lambda>_. None) r (zs ! k)" using zs(2) unfolding list_all2_conv_all_nth by metis+
  then have "zs ! k \<in> set zs" "moved now (\<lambda>_. None) r (zs ! k)" by simp_all
  then have "\<exists>a \<in> set (archive st'). ar_idempotencyKey a = ob_idempotency_key r \<and> ar_status a = ob_status r"
    using moved_key zs(1) by fastforce
  moreover have "ob_id r \<in> ob_id ` set ?rs" using r by (rule imageI)
  then have "ob_id r \<notin> ob_id ` set (hot st')" by (force simp del: set_sort simp: zs(3))
  ultimately show ?thesis by blast
qed

lemma undelivered_event_is_archived_witness:
  "(case archiveOldEvents 700000000 7 \<lparr> hot = [new_row 1 ''E_V1'' JNull 1 0 ''k''], archive = [] \<rparr> of
      (st', _) \<Rightarrow> hot st' = [] \<and> (\<exists>a \<in> set (archive st'). ar_status a = OB_PENDING))"
proof -
  let ?st = "\<lparr> hot = [new_row 1 ''E_V1'' JNull 1 0 ''k''], archive = [] \<rparr>"
  obtain st' x where e: "archiveOldEvents 700000000 7 ?st = (st', x)" by fastforce
  have "snd (archiveOldEvents 700000000 7 ?st) = Inr 1" "hot (fst (archiveOldEvents 700000000 7 ?st)) = []" by code_simp+
  then have x: "x = Inr 1" "hot st' = []" using e by simp_all
  have "ob_created_at (new_row 1 ''E_V1'' JNull 1 0 ''k'') < 700000000 - 7 * day_ms" by (simp add: new_row_def day_ms_def)
  then have "\<exists>a \<in> set (archive st'). ar_status a = OB_PENDING"
    using undelivered_event_is_archived[of 700000000 7 ?st st' 1 "new_row 1 ''E_V1'' JNull 1 0 ''k''"] e x(1) by auto
  then show ?thesis using e x by simp
qed

section \<open>Retrying a dead letter\<close>

text \<open>Between its two halves a retry leaves the row pending and unlocked, so a worker may claim
  it and deliver the event as well.\<close>

lemma retry_opens_row_to_workers:
  assumes "retry_open i rs = (rs', Inr e)"
    and "ob_locked_at e = None" "case ob_next_retry_at e of None \<Rightarrow> True | Some t \<Rightarrow> t \<le> now"
  shows "\<exists>r \<in> set rs'. ob_id r = i \<and> claimable now r"
proof -
  have f: "find (\<lambda>r. ob_id r = i \<and> ob_status r = OB_FAILED) rs = Some e"
    and rs': "rs' = update_rows (\<lambda>r. ob_id r = i) (\<lambda>r. r\<lparr> ob_status := OB_PENDING, ob_retry_count := ob_retry_count e + 1 \<rparr>) rs"
    using assms(1) by (auto simp: retry_open_def split: option.splits)
  have e: "e \<in> set rs" "ob_id e = i" using f by (auto simp: find_Some_iff)
  let ?r = "e\<lparr> ob_status := OB_PENDING, ob_retry_count := ob_retry_count e + 1 \<rparr>"
  have "?r \<in> set rs'" unfolding rs' update_rows_def using e by force
  moreover have "claimable now ?r" using assms(2,3) by (simp add: claimable_def)
  ultimately show ?thesis using e(2) by (intro bexI[of _ ?r]) simp_all
qed

end
