(* ===== verification/Deliveries.thy ===== *)
theory Deliveries
  imports Prelude Outbox_Service
begin

text \<open>
  \<^verbatim>\<open>deliveries/deliveries.service.ts\<close>, its entities, the notifier of delivery
  events and the SLA monitor: creation, assignment, proof-driven status
  updates, one-time passwords and their verification. Every operation is one
  function on the database; what the program takes from outside (clock,
  random numbers, generated ids, the event names of the shared contract
  package, the row the object mapper writes for an entity, \<^verbatim>\<open>Number\<close> on a
  coordinate) is in an environment record.
\<close>

section \<open>Entities\<close>

datatype delivery_status =
    PENDING | ASSIGNED | PICKED_UP | IN_TRANSIT | DELIVERED | FAILED | CANCELLED

text \<open>A coordinate of a loaded row: a number, or the string in which the database
  driver gives a decimal column.\<close>

datatype coord = Num_Coord real | Str_Coord string

record delivery =
  dl_id :: string
  dl_sellerOrderId :: string
  dl_channelId :: string
  dl_driverId :: "string option"
  dl_status :: delivery_status
  dl_pickupLat :: coord
  dl_pickupLon :: coord
  dl_dropLat :: coord
  dl_dropLon :: coord
  dl_pickupProofUrl :: "string option"
  dl_deliveryProofUrl :: "string option"
  dl_failureCode :: "string option"
  dl_failureReason :: "string option"
  dl_assignedAt :: "int option"
  dl_pickedUpAt :: "int option"
  dl_deliveredAt :: "int option"
  dl_failedAt :: "int option"
  dl_expectedPickupAt :: "int option"
  dl_expectedDeliveryAt :: "int option"
  dl_slaBreachAt :: "int option"
  dl_deliveryOtp :: "string option"
  dl_otpAttempts :: nat
  dl_otpLockedUntil :: "int option"
  dl_createdAt :: int
  dl_lastActivityUpdateAt :: "int option"

datatype delivery_event_type =
    Ev_ASSIGNED | Ev_PICKED_UP | Ev_IN_TRANSIT | Ev_DELIVERED | Ev_FAILED | Ev_CANCELLED

record delivery_event =
  de_id :: string
  de_deliveryId :: string
  de_sellerOrderId :: string
  de_eventType :: delivery_event_type
  de_metadata :: json
  de_proofUrl :: "string option"
  de_failureCode :: "string option"
  de_failureReason :: "string option"
  de_createdAt :: int

section \<open>Environment and database\<close>

record ws_events =
  ws_DELIVERY_ASSIGNED :: string
  ws_DELIVERY_PICKUP_CONFIRMED :: string
  ws_DELIVERY_DROPOFF_CONFIRMED :: string
  ws_DELIVERY_FAILED :: string
  ws_DELIVERY_CANCELLED :: string

record env =
  env_now :: int
  env_ms :: "int \<Rightarrow> string"
  env_random :: rat
  env_new_id :: string
  env_num :: "coord \<Rightarrow> json"
  env_ws :: ws_events
  env_row :: "delivery \<Rightarrow> delivery \<Rightarrow> delivery"

text \<open>The projections that run after a commit, in the order they are called.\<close>

datatype projection =
    Record_Assignment string
  | Record_Pickup string
  | Record_Delivery string
  | Record_Failure string
  | Record_Cancellation string
  | Driver_Completed string "int option" "int option"
  | Driver_Failed string
  | Driver_Cancelled string

record db =
  db_deliveries :: "delivery list"
  db_events :: "delivery_event list"
  db_outbox :: outbox_table
  db_autonomous :: "(string \<times> json) list"
  db_projections :: "projection list"

datatype delivery_error =
    Not_Found
  | Bad_Request string
  | Conflict string
  | Publish_Failed string

definition find_delivery :: "string \<Rightarrow> delivery list \<Rightarrow> delivery option" where
  "find_delivery i ds = lookup_by dl_id i ds"

definition save_delivery :: "delivery \<Rightarrow> delivery list \<Rightarrow> delivery list" where
  "save_delivery d ds = save_by dl_id d ds"

interpretation delivery_repo: repository find_delivery save_delivery dl_id
  by unfold_locales
    (auto simp: find_delivery_def save_delivery_def lookup_save_by dest: lookup_by_SomeD)

text \<open>The events published with no transaction of their own are written by other
  connections: they are kept whether the transaction commits or not.\<close>

fun replay :: "env \<Rightarrow> (string \<times> json) list \<Rightarrow> outbox_table \<Rightarrow> outbox_table" where
  "replay E [] t = t"
| "replay E ((ty, p) # ps) t = replay E ps (fst (publish ty p 1 (env_now E) (env_ms E) t))"

definition delivery_transaction ::
    "env \<Rightarrow> ('x db_scheme, 'e, 'a) action \<Rightarrow> ('x db_scheme, 'e, 'a) action" where
  "delivery_transaction E body s = (case body s of
      (s', Inl e) \<Rightarrow> (s\<lparr> db_outbox := replay E (db_autonomous s') (db_outbox s) \<rparr>, Inl e)
    | (s', Inr x) \<Rightarrow> (s'\<lparr> db_outbox := replay E (db_autonomous s') (db_outbox s'), db_autonomous := [] \<rparr>, Inr x))"

section \<open>Small operations\<close>

fun allowedTransitions :: "delivery_status \<Rightarrow> delivery_status list" where
  "allowedTransitions PENDING = [ASSIGNED, CANCELLED]"
| "allowedTransitions ASSIGNED = [PICKED_UP, FAILED, CANCELLED]"
| "allowedTransitions PICKED_UP = [IN_TRANSIT, DELIVERED, FAILED]"
| "allowedTransitions IN_TRANSIT = [DELIVERED, FAILED]"
| "allowedTransitions DELIVERED = []"
| "allowedTransitions FAILED = []"
| "allowedTransitions CANCELLED = []"

definition haversineKm :: "real \<Rightarrow> real \<Rightarrow> real \<Rightarrow> real \<Rightarrow> real" where
  "haversineKm lat1 lon1 lat2 lon2 =
    (let R = 6371;
         dLat = ((lat2 - lat1) * pi) / 180;
         dLon = ((lon2 - lon1) * pi) / 180;
         a = sin (dLat / 2) ^ 2
           + cos ((lat1 * pi) / 180) * cos ((lat2 * pi) / 180) * sin (dLon / 2) ^ 2
     in R * 2 * (if a < 1 then arctan (sqrt a / sqrt (1 - a)) else pi / 2))"

definition generateOtpCode :: "rat \<Rightarrow> string" where
  "generateOtpCode r = nat_str (nat (floor (100000 + r * 900000)))"

definition resetOtpState :: "delivery \<Rightarrow> delivery" where
  "resetOtpState d = d\<lparr> dl_otpAttempts := 0, dl_otpLockedUntil := None \<rparr>"

definition mapStringToDeliveryStatus :: "string \<Rightarrow> delivery_status" where
  "mapStringToDeliveryStatus s =
    (if s = ''ASSIGNED'' then ASSIGNED
     else if s = ''PICKED_UP'' then PICKED_UP
     else if s = ''DELIVERED'' then DELIVERED
     else if s = ''FAILED'' then FAILED
     else if s = ''CANCELLED'' then CANCELLED
     else if s = ''IN_TRANSIT'' then IN_TRANSIT
     else ASSIGNED)"

fun mapDeliveryStatusToEventType :: "delivery_status \<Rightarrow> delivery_event_type" where
  "mapDeliveryStatusToEventType ASSIGNED = Ev_ASSIGNED"
| "mapDeliveryStatusToEventType PICKED_UP = Ev_PICKED_UP"
| "mapDeliveryStatusToEventType DELIVERED = Ev_DELIVERED"
| "mapDeliveryStatusToEventType FAILED = Ev_FAILED"
| "mapDeliveryStatusToEventType CANCELLED = Ev_CANCELLED"
| "mapDeliveryStatusToEventType IN_TRANSIT = Ev_IN_TRANSIT"
| "mapDeliveryStatusToEventType PENDING = Ev_ASSIGNED"

definition isVendureStatus :: "string \<Rightarrow> bool" where
  "isVendureStatus s \<longleftrightarrow> s = ''ASSIGNED'' \<or> s = ''PICKED_UP'' \<or> s = ''DELIVERED''
     \<or> s = ''FAILED'' \<or> s = ''CANCELLED''"

definition getVendureEventType :: "ws_events \<Rightarrow> string \<Rightarrow> string" where
  "getVendureEventType ws s =
    (if s = ''ASSIGNED'' then ws_DELIVERY_ASSIGNED ws
     else if s = ''PICKED_UP'' then ws_DELIVERY_PICKUP_CONFIRMED ws
     else if s = ''DELIVERED'' then ws_DELIVERY_DROPOFF_CONFIRMED ws
     else if s = ''FAILED'' then ws_DELIVERY_FAILED ws
     else ws_DELIVERY_CANCELLED ws)"

definition new_event :: "env \<Rightarrow> delivery \<Rightarrow> delivery_event_type \<Rightarrow> json \<Rightarrow>
    string option \<Rightarrow> string option \<Rightarrow> string option \<Rightarrow> delivery_event" where
  "new_event E d ty meta proof code reason = \<lparr> de_id = env_new_id E, de_deliveryId = dl_id d,
     de_sellerOrderId = dl_sellerOrderId d, de_eventType = ty, de_metadata = meta, de_proofUrl = proof,
     de_failureCode = code, de_failureReason = reason, de_createdAt = env_now E \<rparr>"

definition createEvent :: "delivery_event \<Rightarrow> 'x db_scheme \<Rightarrow> 'x db_scheme" where
  "createEvent ev s = s\<lparr> db_events := db_events s @ [ev] \<rparr>"

text \<open>The notifier publishes outside the caller's transaction.\<close>

definition proof_payload :: "string \<Rightarrow> delivery_event \<Rightarrow> delivery \<Rightarrow> json" where
  "proof_payload kind ev d = JObj [(''driverId'', JStr (the (dl_driverId d))),
     (''deliveryId'', JStr (dl_id d)), (''proofId'', JStr (de_id ev)),
     (''proofType'', JStr kind), (''acceptedAt'', JIso (de_createdAt ev))]"

definition notify :: "delivery_event \<Rightarrow> delivery \<Rightarrow> 'x db_scheme \<Rightarrow> 'x db_scheme" where
  "notify ev d s =
    (if \<not> truthy (dl_driverId d) then s
     else if de_eventType ev = Ev_PICKED_UP then
       s\<lparr> db_autonomous := db_autonomous s @ [(''PROOF_ACCEPTED_V1'', proof_payload ''PICKUP'' ev d)] \<rparr>
     else if de_eventType ev = Ev_DELIVERED then
       s\<lparr> db_autonomous := db_autonomous s @ [(''PROOF_ACCEPTED_V1'', proof_payload ''DROPOFF'' ev d)] \<rparr>
     else s)"

definition publish_in :: "env \<Rightarrow> string \<Rightarrow> json \<Rightarrow> ('x db_scheme, delivery_error, unit) action" where
  "publish_in E ty p s = (case publish ty p 1 (env_now E) (env_ms E) (db_outbox s) of
      (t, Inr _) \<Rightarrow> (s\<lparr> db_outbox := t \<rparr>, Inr ())
    | (_, Inl (Unknown_Versioned_Event_Type x)) \<Rightarrow> (s, Inl (Publish_Failed x)))"

definition seconds_between :: "int \<Rightarrow> int \<Rightarrow> int" where
  "seconds_between later earlier = js_round (of_int (later - earlier) / 1000)"

text \<open>\<^verbatim>\<open>assignedAt?.getTime() || createdAt.getTime()\<close>\<close>

definition start_time :: "delivery \<Rightarrow> int" where
  "start_time d = (case dl_assignedAt d of Some t \<Rightarrow> (if t = 0 then dl_createdAt d else t) | None \<Rightarrow> dl_createdAt d)"

definition completed_projections :: "delivery \<Rightarrow> projection list" where
  "completed_projections d = Record_Delivery (dl_id d) #
     (if truthy (dl_driverId d)
      then [Driver_Completed (the (dl_driverId d))
              (map_option (\<lambda>t. seconds_between t (start_time d)) (dl_pickedUpAt d))
              (map_option (\<lambda>t. seconds_between t (start_time d)) (dl_deliveredAt d))]
      else [])"

definition project :: "projection list \<Rightarrow> 'x db_scheme \<Rightarrow> 'x db_scheme" where
  "project ps s = s\<lparr> db_projections := db_projections s @ ps \<rparr>"

text \<open>\<^verbatim>\<open>promise.then(f)\<close>: the continuation runs only after success.\<close>

definition and_then :: "('s, 'e, 'a) action \<Rightarrow> ('a \<Rightarrow> 's \<Rightarrow> 's) \<Rightarrow> ('s, 'e, 'a) action" where
  "and_then m f s = (case m s of (s', Inl e) \<Rightarrow> (s', Inl e) | (s', Inr x) \<Rightarrow> (f x s', Inr x))"

section \<open>Operations\<close>

record create_dto =
  cd_sellerOrderId :: string
  cd_channelId :: string
  cd_pickupLat :: coord
  cd_pickupLon :: coord
  cd_dropLat :: coord
  cd_dropLon :: coord
  cd_expectedPickupAt :: "int option"
  cd_expectedDeliveryAt :: "int option"

definition new_delivery :: "env \<Rightarrow> create_dto \<Rightarrow> delivery" where
  "new_delivery E dto = \<lparr> dl_id = env_new_id E, dl_sellerOrderId = cd_sellerOrderId dto,
     dl_channelId = cd_channelId dto, dl_driverId = None, dl_status = PENDING,
     dl_pickupLat = cd_pickupLat dto, dl_pickupLon = cd_pickupLon dto,
     dl_dropLat = cd_dropLat dto, dl_dropLon = cd_dropLon dto,
     dl_pickupProofUrl = None, dl_deliveryProofUrl = None, dl_failureCode = None, dl_failureReason = None,
     dl_assignedAt = None, dl_pickedUpAt = None, dl_deliveredAt = None, dl_failedAt = None,
     dl_expectedPickupAt = cd_expectedPickupAt dto, dl_expectedDeliveryAt = cd_expectedDeliveryAt dto,
     dl_slaBreachAt = None, dl_deliveryOtp = None, dl_otpAttempts = 0, dl_otpLockedUntil = None,
     dl_createdAt = env_now E, dl_lastActivityUpdateAt = None \<rparr>"

definition create_delivery :: "env \<Rightarrow> create_dto \<Rightarrow> ('x db_scheme, delivery_error, delivery) action" where
  "create_delivery E dto s =
    (let d = new_delivery E dto in
     case (dl_expectedPickupAt d, dl_expectedDeliveryAt d) of
       (Some p, Some q) \<Rightarrow>
         if q \<le> p then (s, Inl (Bad_Request ''expectedDeliveryAt must be after expectedPickupAt''))
         else (s\<lparr> db_deliveries := save_delivery d (db_deliveries s) \<rparr>, Inr d)
     | _ \<Rightarrow> (s\<lparr> db_deliveries := save_delivery d (db_deliveries s) \<rparr>, Inr d))"

text \<open>The row written for an entity that was loaded as \<^verbatim>\<open>d0\<close>.\<close>

definition write_back :: "env \<Rightarrow> delivery \<Rightarrow> delivery \<Rightarrow> 'x db_scheme \<Rightarrow> 'x db_scheme" where
  "write_back E d0 d s = s\<lparr> db_deliveries := save_delivery (env_row E d0 d) (db_deliveries s) \<rparr>"

definition assigned_payload :: "env \<Rightarrow> delivery \<Rightarrow> string \<Rightarrow> string \<Rightarrow> json" where
  "assigned_payload E d driverId assignmentId = JObj [
     (''deliveryId'', JStr (dl_id d)), (''sellerOrderId'', JStr (dl_sellerOrderId d)),
     (''channelId'', JStr (dl_channelId d)), (''driverId'', JStr driverId),
     (''assignmentId'', JStr assignmentId),
     (''assignedAt'', JIso (case dl_assignedAt d of Some t \<Rightarrow> t | None \<Rightarrow> env_now E)),
     (''pickupLocation'', JObj [(''lat'', env_num E (dl_pickupLat d)), (''lon'', env_num E (dl_pickupLon d))]),
     (''dropLocation'', JObj [(''lat'', env_num E (dl_dropLat d)), (''lon'', env_num E (dl_dropLon d))])]"

definition assigned_entity :: "env \<Rightarrow> string \<Rightarrow> delivery \<Rightarrow> delivery" where
  "assigned_entity E driverId d =
    (resetOtpState (d\<lparr> dl_driverId := Some driverId, dl_status := ASSIGNED,
                       dl_assignedAt := Some (env_now E) \<rparr>))
       \<lparr> dl_deliveryOtp := Some (generateOtpCode (env_random E)) \<rparr>"

text \<open>The direct socket message is best effort and leaves no trace in the database.\<close>

definition assignDriver ::
    "env \<Rightarrow> string \<Rightarrow> string \<Rightarrow> string \<Rightarrow> ('x db_scheme, delivery_error, delivery) action" where
  "assignDriver E deliveryId driverId assignmentId = and_then
    (delivery_transaction E (\<lambda>s. case find_delivery deliveryId (db_deliveries s) of
        None \<Rightarrow> (s, Inl Not_Found)
      | Some d0 \<Rightarrow>
          let d = assigned_entity E driverId d0;
              s1 = write_back E d0 d s;
              s2 = createEvent (new_event E d Ev_ASSIGNED
                     (JObj [(''driverId'', JStr driverId), (''assignmentId'', JStr assignmentId)]) None None None) s1
          in case publish_in E (ws_DELIVERY_ASSIGNED (env_ws E)) (assigned_payload E d driverId assignmentId) s2 of
               (s3, Inl e) \<Rightarrow> (s3, Inl e)
             | (s3, Inr _) \<Rightarrow> (s3, Inr d)))
    (\<lambda>d. project [Record_Assignment (dl_id d)])"

definition generateDeliveryOtp :: "env \<Rightarrow> string \<Rightarrow> ('x db_scheme, delivery_error, string) action" where
  "generateDeliveryOtp E deliveryId s = (case find_delivery deliveryId (db_deliveries s) of
      None \<Rightarrow> (s, Inl Not_Found)
    | Some d0 \<Rightarrow>
        if \<not> truthy (dl_driverId d0)
        then (s, Inl (Bad_Request ''Cannot generate OTP for unassigned delivery''))
        else if dl_status d0 = DELIVERED \<or> dl_status d0 = CANCELLED
        then (s, Inl (Bad_Request ''Cannot generate OTP in terminal state''))
        else
          let otp = generateOtpCode (env_random E);
              d = resetOtpState (d0\<lparr> dl_deliveryOtp := Some otp \<rparr>);
              s1 = write_back E d0 d s;
              s2 = createEvent (new_event E d Ev_ASSIGNED
                     (JObj [(''otpRegenerated'', JBool True), (''at'', JIso (env_now E))]) None None None) s1
          in (s2, Inr otp))"

text \<open>The distance check of \<^verbatim>\<open>verifyOtp\<close> applies only to numbers.\<close>

definition too_far :: "string \<Rightarrow> real option \<Rightarrow> real option \<Rightarrow> delivery \<Rightarrow> bool" where
  "too_far otp driverLat driverLon d = (case (driverLat, driverLon, dl_dropLat d, dl_dropLon d) of
      (Some la, Some lo, Num_Coord dla, Num_Coord dlo) \<Rightarrow>
        otp \<noteq> ''BYPASS_GEO'' \<and> haversineKm la lo dla dlo > 1 / 4
    | _ \<Rightarrow> False)"

definition wrong_otp_entity :: "env \<Rightarrow> delivery \<Rightarrow> delivery" where
  "wrong_otp_entity E d =
    (let d1 = d\<lparr> dl_otpAttempts := dl_otpAttempts d + 1 \<rparr>
     in if dl_otpAttempts d1 \<ge> 3 then d1\<lparr> dl_otpLockedUntil := Some (env_now E + 15 * 60 * 1000) \<rparr> else d1)"

definition delivered_entity :: "env \<Rightarrow> string option \<Rightarrow> delivery \<Rightarrow> delivery" where
  "delivered_entity E proofUrl d = (resetOtpState d)\<lparr> dl_deliveryOtp := None, dl_status := DELIVERED,
     dl_deliveredAt := Some (env_now E), dl_deliveryProofUrl := proofUrl, dl_slaBreachAt := None,
     dl_lastActivityUpdateAt := Some (env_now E) \<rparr>"

definition dropoff_payload :: "env \<Rightarrow> delivery \<Rightarrow> string option \<Rightarrow> json" where
  "dropoff_payload E d proofUrl = JObj [
     (''sellerOrderId'', JStr (dl_sellerOrderId d)), (''channelId'', JStr (dl_channelId d)),
     (''deliveryProofUrl'', JStr (case proofUrl of
          Some u \<Rightarrow> (if starts_with ''http'' u then u else ''proof://'' @ dl_id d)
        | None \<Rightarrow> ''proof://'' @ dl_id d)),
     (''deliveredAt'', JIso (env_now E))]"

text \<open>The body of the transaction of \<^verbatim>\<open>verifyOtp\<close>: a wrong password is counted and
  saved before the error is raised.\<close>

definition verifyOtp_body ::
    "env \<Rightarrow> string \<Rightarrow> string \<Rightarrow> string option \<Rightarrow> real option \<Rightarrow> real option \<Rightarrow>
     ('x db_scheme, delivery_error, delivery) action" where
  "verifyOtp_body E deliveryId otp proofUrl driverLat driverLon s =
    (case find_delivery deliveryId (db_deliveries s) of
       None \<Rightarrow> (s, Inl Not_Found)
     | Some d0 \<Rightarrow>
        if dl_status d0 = DELIVERED then (s, Inr d0)
        else if \<not> truthy (dl_deliveryOtp d0) then (s, Inl (Bad_Request ''No OTP active for this delivery''))
        else if (\<exists>t \<in> set_option (dl_otpLockedUntil d0). t > env_now E)
          then (s, Inl (Bad_Request ''OTP locked due to failed attempts. Please retry later.''))
        else if too_far otp driverLat driverLon d0
          then (s, Inl (Bad_Request ''Driver is too far from drop-off. Must be within 250m.''))
        else if dl_deliveryOtp d0 \<noteq> Some otp
          then (write_back E d0 (wrong_otp_entity E d0) s, Inl (Bad_Request ''Invalid OTP''))
        else
          let d = delivered_entity E proofUrl d0;
              s1 = write_back E d0 d s;
              ev = new_event E d Ev_DELIVERED JNull proofUrl None None;
              s2 = notify ev d (createEvent ev s1)
          in case publish_in E (ws_DELIVERY_DROPOFF_CONFIRMED (env_ws E)) (dropoff_payload E d proofUrl) s2 of
               (s3, Inl e) \<Rightarrow> (s3, Inl e)
             | (s3, Inr _) \<Rightarrow> (s3, Inr d))"

definition verifyOtp ::
    "env \<Rightarrow> string \<Rightarrow> string \<Rightarrow> string option \<Rightarrow> real option \<Rightarrow> real option \<Rightarrow>
     ('x db_scheme, delivery_error, delivery) action" where
  "verifyOtp E deliveryId otp proofUrl driverLat driverLon = and_then
    (delivery_transaction E (verifyOtp_body E deliveryId otp proofUrl driverLat driverLon))
    (\<lambda>d. project (completed_projections d))"

record update_dto =
  ud_status :: string
  ud_proofUrl :: "string option"
  ud_failureCode :: "string option"
  ud_failureReason :: "string option"

definition updated_entity :: "env \<Rightarrow> update_dto \<Rightarrow> delivery_status \<Rightarrow> delivery \<Rightarrow> delivery" where
  "updated_entity E dto st d0 =
    (let d = d0\<lparr> dl_status := st, dl_lastActivityUpdateAt := Some (env_now E) \<rparr>
     in case st of
       PICKED_UP \<Rightarrow> d\<lparr> dl_pickedUpAt := Some (env_now E), dl_pickupProofUrl := ud_proofUrl dto \<rparr>
     | DELIVERED \<Rightarrow> d\<lparr> dl_deliveredAt := Some (env_now E), dl_deliveryProofUrl := ud_proofUrl dto,
                       dl_slaBreachAt := None \<rparr>
     | FAILED \<Rightarrow> d\<lparr> dl_failedAt := Some (env_now E), dl_failureCode := ud_failureCode dto,
                    dl_failureReason := ud_failureReason dto \<rparr>
     | CANCELLED \<Rightarrow> d\<lparr> dl_status := CANCELLED, dl_failedAt := Some (env_now E),
                       dl_failureCode := Some (or_default (ud_failureCode dto) ''CANCELLED''),
                       dl_failureReason := Some (or_default (ud_failureReason dto) ''Cancelled'') \<rparr>
     | _ \<Rightarrow> d)"

definition safeProofUrl :: "delivery \<Rightarrow> string option \<Rightarrow> string option" where
  "safeProofUrl d url = (case url of
      None \<Rightarrow> None
    | Some u \<Rightarrow> (if starts_with ''http'' u then Some u else if u \<noteq> [] then Some (''proof://'' @ dl_id d) else None))"

definition status_payload :: "update_dto \<Rightarrow> delivery \<Rightarrow> json" where
  "status_payload dto d = JObj (
     [(''sellerOrderId'', JStr (dl_sellerOrderId d)), (''channelId'', JStr (dl_channelId d))]
     @ opt_field ''pickupProofUrl'' (safeProofUrl d (dl_pickupProofUrl d)) JStr
     @ opt_field ''deliveryProofUrl'' (safeProofUrl d (dl_deliveryProofUrl d)) JStr
     @ opt_field ''pickedUpAt'' (dl_pickedUpAt d) JIso
     @ opt_field ''deliveredAt'' (dl_deliveredAt d) JIso
     @ (if ud_status dto = ''FAILED''
        then [(''failure'', JObj ([(''code'', JStr (or_default (ud_failureCode dto) ''UNKNOWN'')),
                 (''reason'', JStr (or_default (ud_failureReason dto) ''Unknown failure''))]
                 @ opt_field ''occurredAt'' (dl_failedAt d) JIso))]
        else []))"

definition status_projections :: "delivery \<Rightarrow> projection list" where
  "status_projections d = (case dl_status d of
      PICKED_UP \<Rightarrow> [Record_Pickup (dl_id d)]
    | DELIVERED \<Rightarrow> completed_projections d
    | FAILED \<Rightarrow> Record_Failure (dl_id d) #
        (if truthy (dl_driverId d) then [Driver_Failed (the (dl_driverId d))] else [])
    | CANCELLED \<Rightarrow> Record_Cancellation (dl_id d) #
        (if truthy (dl_driverId d) then [Driver_Cancelled (the (dl_driverId d))] else [])
    | _ \<Rightarrow> [])"

definition updateStatus_body ::
    "env \<Rightarrow> string \<Rightarrow> update_dto \<Rightarrow> ('x db_scheme, delivery_error, delivery) action" where
  "updateStatus_body E deliveryId dto s =
    (case find_delivery deliveryId (db_deliveries s) of
       None \<Rightarrow> (s, Inl Not_Found)
     | Some d0 \<Rightarrow>
        let st = mapStringToDeliveryStatus (ud_status dto) in
        if dl_status d0 = st then (s, Inr d0)
        else if st \<notin> set (allowedTransitions (dl_status d0)) then (s, Inl (Conflict ''Invalid state transition''))
        else
          let d = updated_entity E dto st d0;
              s1 = write_back E d0 d s;
              ev = new_event E d (mapDeliveryStatusToEventType st) JNull
                     (ud_proofUrl dto) (ud_failureCode dto) (ud_failureReason dto);
              s2 = notify ev d (createEvent ev s1)
          in if isVendureStatus (ud_status dto)
             then (case publish_in E (getVendureEventType (env_ws E) (ud_status dto)) (status_payload dto d) s2 of
                     (s3, Inl e) \<Rightarrow> (s3, Inl e)
                   | (s3, Inr _) \<Rightarrow> (s3, Inr d))
             else (s2, Inr d))"

definition updateStatusInternal ::
    "env \<Rightarrow> string \<Rightarrow> update_dto \<Rightarrow> ('x db_scheme, delivery_error, delivery) action" where
  "updateStatusInternal E deliveryId dto = and_then
    (delivery_transaction E (updateStatus_body E deliveryId dto))
    (\<lambda>d. project (status_projections d))"

definition cancelDelivery ::
    "env \<Rightarrow> string \<Rightarrow> string option \<Rightarrow> ('x db_scheme, delivery_error, unit) action" where
  "cancelDelivery E deliveryId reason s = (case find_delivery deliveryId (db_deliveries s) of
      None \<Rightarrow> (s, Inl Not_Found)
    | Some d \<Rightarrow>
        if dl_status d = CANCELLED \<or> dl_status d = DELIVERED then (s, Inr ())
        else (case updateStatusInternal E deliveryId \<lparr> ud_status = ''CANCELLED'', ud_proofUrl = None,
                 ud_failureCode = Some ''CANCELLED'',
                 ud_failureReason = Some (or_default reason ''Cancelled by driver or system'') \<rparr> s of
                (s', Inl e) \<Rightarrow> (s', Inl e)
              | (s', Inr _) \<Rightarrow> (s', Inr ())))"

section \<open>SLA monitor\<close>

definition sla_breached :: "int \<Rightarrow> delivery \<Rightarrow> bool" where
  "sla_breached now d \<longleftrightarrow> dl_slaBreachAt d = None \<and>
    (dl_status d = ASSIGNED \<and> (\<exists>t \<in> set_option (dl_expectedPickupAt d). t < now)
     \<or> dl_status d \<in> {PICKED_UP, IN_TRANSIT} \<and> (\<exists>t \<in> set_option (dl_expectedDeliveryAt d). t < now))"

text \<open>The lock key in the shared store, and the number of breaches alerted, when any.\<close>

definition checkSlaBreaches :: "int \<Rightarrow> bool \<times> delivery list \<Rightarrow> (bool \<times> delivery list) \<times> nat option" where
  "checkSlaBreaches now st =
    (let (locked, ds) = st
     in if locked then (st, None)
        else
          let breaches = filter (sla_breached now) ds
          in if breaches = [] then ((False, ds), None)
             else ((False, for_each (\<lambda>d. save_delivery (d\<lparr> dl_slaBreachAt := Some now \<rparr>)) breaches ds),
                   Some (length breaches)))"

section \<open>Lemmas\<close>

text \<open>The documented behaviour of the object mapper on a save: it writes every
  defined column of the entity (a column whose value is undefined keeps what
  the row had).\<close>

definition row_ok :: "env \<Rightarrow> bool" where
  "row_ok E \<longleftrightarrow> (\<forall>old new. dl_id (env_row E old new) = dl_id new
     \<and> dl_sellerOrderId (env_row E old new) = dl_sellerOrderId new
     \<and> dl_status (env_row E old new) = dl_status new
     \<and> (dl_driverId new \<noteq> None \<longrightarrow> dl_driverId (env_row E old new) = dl_driverId new)
     \<and> (dl_deliveryOtp new \<noteq> None \<longrightarrow> dl_deliveryOtp (env_row E old new) = dl_deliveryOtp new))"

lemma row_okD:
  assumes "row_ok E"
  shows "dl_id (env_row E old new) = dl_id new"
    "dl_sellerOrderId (env_row E old new) = dl_sellerOrderId new"
    "dl_status (env_row E old new) = dl_status new"
    "dl_driverId new = Some x \<Longrightarrow> dl_driverId (env_row E old new) = Some x"
  using assms by (simp_all add: row_ok_def)

interpretation delivery_table: transition_table allowedTransitions
  "\<lambda>s. case s of PENDING \<Rightarrow> 0 | ASSIGNED \<Rightarrow> 1 | PICKED_UP \<Rightarrow> 2 | IN_TRANSIT \<Rightarrow> 3 | _ \<Rightarrow> (4 :: nat)"
proof
  fix t s assume "t \<in> set (allowedTransitions s)"
  then show "(case s of PENDING \<Rightarrow> 0 | ASSIGNED \<Rightarrow> 1 | PICKED_UP \<Rightarrow> 2 | IN_TRANSIT \<Rightarrow> 3 | _ \<Rightarrow> (4 :: nat))
      < (case t of PENDING \<Rightarrow> 0 | ASSIGNED \<Rightarrow> 1 | PICKED_UP \<Rightarrow> 2 | IN_TRANSIT \<Rightarrow> 3 | _ \<Rightarrow> 4)"
    by (cases s) auto
qed

lemma entity_keeps [simp]:
  "dl_id (updated_entity E dto st d) = dl_id d"
  "dl_sellerOrderId (updated_entity E dto st d) = dl_sellerOrderId d"
  "dl_status (updated_entity E dto st d) = st"
  "dl_id (delivered_entity E p d) = dl_id d"
  "dl_status (delivered_entity E p d) = DELIVERED"
  "dl_id (assigned_entity E r d) = dl_id d"
  "dl_sellerOrderId (assigned_entity E r d) = dl_sellerOrderId d"
  "dl_status (assigned_entity E r d) = ASSIGNED"
  "dl_driverId (assigned_entity E r d) = Some r"
  "dl_id (wrong_otp_entity E d) = dl_id d"
  by (auto simp: updated_entity_def delivered_entity_def assigned_entity_def wrong_otp_entity_def
      resetOtpState_def Let_def split: delivery_status.splits)

lemma effects_keep_deliveries [simp]:
  "db_deliveries (createEvent ev s) = db_deliveries s"
  "db_deliveries (notify ev d s) = db_deliveries s"
  "db_deliveries (project ps s) = db_deliveries s"
  "db_outbox (createEvent ev s) = db_outbox s"
  "db_outbox (notify ev d s) = db_outbox s"
  "db_outbox (project ps s) = db_outbox s"
  "db_autonomous (createEvent ev s) = db_autonomous s"
  "db_autonomous (project ps s) = db_autonomous s"
  "db_outbox (write_back E d0 d s) = db_outbox s"
  "db_autonomous (write_back E d0 d s) = db_autonomous s"
  "db_deliveries (write_back E d0 d s) = save_delivery (env_row E d0 d) (db_deliveries s)"
  by (simp_all add: createEvent_def notify_def project_def write_back_def)

lemma publish_in_keeps:
  assumes "publish_in E ty p s = (s', r)"
  shows "db_deliveries s' = db_deliveries s" "db_autonomous s' = db_autonomous s"
  using assms by (auto simp: publish_in_def split: prod.splits sum.splits publish_error.splits)

lemma delivery_transaction_cases:
  assumes "delivery_transaction E body s = (s', r)"
  obtains (failed) s1 e where "body s = (s1, Inl e)" "r = Inl e" "db_deliveries s' = db_deliveries s"
  | (committed) s1 x where "body s = (s1, Inr x)" "r = Inr x" "db_deliveries s' = db_deliveries s1"
  using assms by (auto simp: delivery_transaction_def split: prod.splits sum.splits)

lemma and_then_transaction_error:
  assumes "and_then (delivery_transaction E body) (\<lambda>d. project (ps d)) s = (s', Inl e)"
  shows "db_deliveries s' = db_deliveries s"
  using assms by (auto simp: and_then_def delivery_transaction_def split: prod.splits sum.splits)

lemma and_then_transaction_ok:
  assumes "and_then (delivery_transaction E body) (\<lambda>d. project (ps d)) s = (s', Inr d)"
  obtains s1 where "body s = (s1, Inr d)" "db_deliveries s' = db_deliveries s1"
    "db_outbox s' = replay E (db_autonomous s1) (db_outbox s1)"
    "db_autonomous s' = []" "db_projections s' = db_projections s1 @ ps d"
  using assms
  by (auto simp: and_then_def delivery_transaction_def project_def split: prod.splits sum.splits)

text \<open>What a successful status update does to the rows.\<close>

lemma updateStatus_rows:
  assumes "row_ok E" "updateStatusInternal E i dto s = (s', Inr d)"
    and "find_delivery i (db_deliveries s) = Some d0"
  shows "(dl_status d0 = mapStringToDeliveryStatus (ud_status dto) \<and> db_deliveries s' = db_deliveries s)
    \<or> (mapStringToDeliveryStatus (ud_status dto) \<in> set (allowedTransitions (dl_status d0))
       \<and> (\<exists>d1. find_delivery i (db_deliveries s') = Some d1
             \<and> dl_status d1 = mapStringToDeliveryStatus (ud_status dto))
       \<and> (\<forall>k. k \<noteq> i \<longrightarrow> find_delivery k (db_deliveries s') = find_delivery k (db_deliveries s)))"
proof -
  let ?st = "mapStringToDeliveryStatus (ud_status dto)"
  obtain s1 where b: "updateStatus_body E i dto s = (s1, Inr d)" and s1: "db_deliveries s' = db_deliveries s1"
    using assms(2) unfolding updateStatusInternal_def by (rule and_then_transaction_ok)
  show ?thesis
  proof (cases "dl_status d0 = ?st")
    case True
    then have "s1 = s" using b assms(3) by (simp add: updateStatus_body_def)
    then show ?thesis using True s1 by simp
  next
    case False
    then have mem: "?st \<in> set (allowedTransitions (dl_status d0))"
      using b assms(3) by (auto simp: updateStatus_body_def Let_def split: if_splits)
    let ?d = "updated_entity E dto ?st d0"
    have id: "dl_id d0 = i" using delivery_repo.found_key[OF assms(3)] .
    have "db_deliveries s1 = save_delivery (env_row E d0 ?d) (db_deliveries s)"
      using b assms(3) False mem publish_in_keeps(1)
      by (fastforce simp: updateStatus_body_def Let_def split: if_splits prod.splits sum.splits)
    then show ?thesis
      using mem id row_okD[OF assms(1)] s1 by (simp add: delivery_repo.find_save)
  qed
qed

text \<open>The requests that follow the transition table.\<close>

datatype status_request = Update string update_dto | Cancel string "string option"

fun run_request :: "env \<Rightarrow> status_request \<Rightarrow> 'x db_scheme \<Rightarrow> 'x db_scheme" where
  "run_request E (Update i dto) s = fst (updateStatusInternal E i dto s)"
| "run_request E (Cancel i reason) s = fst (cancelDelivery E i reason s)"

definition status_of :: "string \<Rightarrow> 'x db_scheme \<Rightarrow> delivery_status option" where
  "status_of i s = map_option dl_status (find_delivery i (db_deliveries s))"

definition follows_table :: "delivery_status option \<Rightarrow> delivery_status option \<Rightarrow> bool" where
  "follows_table a b \<longleftrightarrow> (case (a, b) of
      (None, None) \<Rightarrow> True
    | (Some x, Some y) \<Rightarrow> x = y \<or> moves allowedTransitions x y
    | _ \<Rightarrow> False)"

lemma follows_refl [simp]: "follows_table a a"
  by (simp add: follows_table_def split: option.splits)

lemma updateStatus_follows:
  assumes "row_ok E"
  shows "follows_table (status_of k s) (status_of k (fst (updateStatusInternal E i dto s)))"
proof -
  obtain s' r where u: "updateStatusInternal E i dto s = (s', r)" by (metis surj_pair)
  show ?thesis
  proof (cases r)
    case (Inl e)
    then have "db_deliveries s' = db_deliveries s"
      using u Inl and_then_transaction_error[of E "updateStatus_body E i dto" status_projections s s' e]
      by (simp add: updateStatusInternal_def)
    then show ?thesis using u by (simp add: status_of_def)
  next
    case (Inr d)
    show ?thesis
    proof (cases "find_delivery i (db_deliveries s)")
      case None
      then show ?thesis
        using u Inr by (simp add: updateStatusInternal_def and_then_def delivery_transaction_def updateStatus_body_def)
    next
      case (Some d0)
      then show ?thesis
        using updateStatus_rows[OF assms u[unfolded Inr] Some] u
        by (cases "k = i") (auto simp: status_of_def follows_table_def moves_def split: option.splits)
    qed
  qed
qed

lemma run_request_follows:
  assumes "row_ok E"
  shows "follows_table (status_of k s) (status_of k (run_request E req s))"
proof (cases req)
  case (Update i dto)
  then show ?thesis using updateStatus_follows[OF assms] by simp
next
  case (Cancel i reason)
  let ?dto = "\<lparr> ud_status = ''CANCELLED'', ud_proofUrl = None, ud_failureCode = Some ''CANCELLED'',
      ud_failureReason = Some (or_default reason ''Cancelled by driver or system'') \<rparr>"
  have "fst (cancelDelivery E i reason s) \<in> {s, fst (updateStatusInternal E i ?dto s)}"
    by (auto simp: cancelDelivery_def split: option.splits prod.splits sum.splits)
  then show ?thesis using updateStatus_follows[OF assms, of k s i ?dto] Cancel by auto
qed

fun run_requests :: "(env \<times> status_request) list \<Rightarrow> 'x db_scheme \<Rightarrow> 'x db_scheme" where
  "run_requests [] s = s"
| "run_requests ((E, req) # reqs) s = run_requests reqs (run_request E req s)"

lemma run_requests_follow:
  assumes "\<forall>(E, req) \<in> set reqs. row_ok E" "status_of k s = Some a"
  shows "\<exists>b. status_of k (run_requests reqs s) = Some b \<and> (moves allowedTransitions)\<^sup>*\<^sup>* a b"
  using assms
proof (induction reqs arbitrary: s a)
  case (Cons x reqs)
  obtain E req where x: "x = (E, req)" by (cases x)
  have "follows_table (status_of k s) (status_of k (run_request E req s))"
    using run_request_follows Cons.prems(1) x by auto
  then obtain c where c: "status_of k (run_request E req s) = Some c" "a = c \<or> moves allowedTransitions a c"
    using Cons.prems(2) by (auto simp: follows_table_def split: option.splits)
  obtain b where b: "status_of k (run_requests reqs (run_request E req s)) = Some b"
    "(moves allowedTransitions)\<^sup>*\<^sup>* c b"
    using Cons.IH[of "run_request E req s" c] Cons.prems(1) c(1) by auto
  have "(moves allowedTransitions)\<^sup>*\<^sup>* a b"
    using c(2) b(2) by (auto intro: converse_rtranclp_into_rtranclp)
  then show ?case using b(1) x by auto
qed auto

text \<open>Wrong passwords, one after the other.\<close>

fun wrong_attempts :: "env list \<Rightarrow> string \<Rightarrow> string list \<Rightarrow> 'x db_scheme \<Rightarrow> 'x db_scheme" where
  "wrong_attempts (E # Es) i (otp # otps) s =
     wrong_attempts Es i otps (fst (verifyOtp E i otp None None None s))"
| "wrong_attempts _ i _ s = s"

lemma wrong_otp_rolls_back:
  assumes "find_delivery i (db_deliveries s) = Some d" "dl_status d \<noteq> DELIVERED" "dl_deliveryOtp d \<noteq> Some otp"
  shows "\<exists>e. snd (verifyOtp E i otp p la lo s) = Inl e
    \<and> db_deliveries (fst (verifyOtp E i otp p la lo s)) = db_deliveries s"
proof -
  obtain s' r where v: "verifyOtp E i otp p la lo s = (s', r)" by (metis surj_pair)
  have "\<exists>e s1. verifyOtp_body E i otp p la lo s = (s1, Inl e)"
    using assms by (auto simp: verifyOtp_body_def)
  then obtain e where "r = Inl e"
    using v by (auto simp: verifyOtp_def and_then_def delivery_transaction_def)
  then show ?thesis
    using v and_then_transaction_error[of E "verifyOtp_body E i otp p la lo" completed_projections s s' e]
    by (simp add: verifyOtp_def)
qed

section \<open>Properties\<close>

text \<open>C6: Status updates and cancellations, in any number and for any deliveries,
  move a delivery only along the transition table; so a delivery that is
  DELIVERED, FAILED or CANCELLED keeps its status for ever under them.\<close>

theorem status_requests_follow_table:
  assumes "\<forall>(E, req) \<in> set reqs. row_ok E" "status_of k s = Some a"
  shows "\<exists>b. status_of k (run_requests reqs s) = Some b \<and> (moves allowedTransitions)\<^sup>*\<^sup>* a b
    \<and> (a \<in> {DELIVERED, FAILED, CANCELLED} \<longrightarrow> b = a)"
proof -
  obtain b where b: "status_of k (run_requests reqs s) = Some b" "(moves allowedTransitions)\<^sup>*\<^sup>* a b"
    using run_requests_follow[OF assms] by blast
  moreover have "b = a" if "a \<in> {DELIVERED, FAILED, CANCELLED}"
    using delivery_table.final_stays[OF b(2)] that by auto
  ultimately show ?thesis by blast
qed

text \<open>The lock-out after three wrong one-time passwords never takes effect: the
  attempt is counted inside the transaction that the error rolls back, so any
  number of wrong attempts leaves every delivery row as it was.\<close>

theorem wrong_otp_attempts_are_forgotten:
  assumes "find_delivery i (db_deliveries s) = Some d" "dl_status d \<noteq> DELIVERED"
    and "dl_deliveryOtp d \<notin> Some ` set otps"
  shows "db_deliveries (wrong_attempts Es i otps s) = db_deliveries s"
  using assms
proof (induction Es i otps s rule: wrong_attempts.induct)
  case (1 E Es i otp otps s)
  then have "db_deliveries (fst (verifyOtp E i otp None None None s)) = db_deliveries s"
    using wrong_otp_rolls_back[of i s d otp] by auto
  then show ?case using 1 by auto
qed simp_all

text \<open>C7: The right one-time password delivers from every status but DELIVERED, also
  from CANCELLED and FAILED, which the transition table makes final: the
  verification does not consult the table.\<close>

theorem otp_delivers_from_any_status:
  assumes "row_ok E" "isValidVersionedEventType (ws_DELIVERY_DROPOFF_CONFIRMED (env_ws E))"
    and "find_delivery i (db_deliveries s) = Some d" "dl_status d \<noteq> DELIVERED"
    and "dl_deliveryOtp d = Some otp" "otp \<noteq> []" "dl_otpLockedUntil d = None" "\<not> too_far otp la lo d"
  shows "status_of i (fst (verifyOtp E i otp p la lo s)) = Some DELIVERED
    \<and> snd (verifyOtp E i otp p la lo s) = Inr (delivered_entity E p d)
    \<and> (dl_status d = CANCELLED \<longrightarrow> \<not> (moves allowedTransitions)\<^sup>*\<^sup>* (dl_status d) DELIVERED)"
proof -
  let ?d = "delivered_entity E p d"
  have id: "dl_id d = i" using delivery_repo.found_key[OF assms(3)] .
  obtain s' r where v: "verifyOtp E i otp p la lo s = (s', r)" by (metis surj_pair)
  have pub: "\<exists>s3. publish_in E (ws_DELIVERY_DROPOFF_CONFIRMED (env_ws E)) q t = (s3, Inr ())" for q and t :: "'a db_scheme"
    using assms(2) by (auto simp: publish_in_def publish_def Let_def split: option.splits)
  obtain s1 where b: "verifyOtp_body E i otp p la lo s = (s1, Inr ?d)"
    and d1: "db_deliveries s1 = save_delivery (env_row E d ?d) (db_deliveries s)"
  proof -
    let ?ev = "new_event E ?d Ev_DELIVERED JNull p None None"
    let ?s2 = "notify ?ev ?d (createEvent ?ev (write_back E d ?d s))"
    obtain s3 where p3: "publish_in E (ws_DELIVERY_DROPOFF_CONFIRMED (env_ws E)) (dropoff_payload E ?d p) ?s2 = (s3, Inr ())"
      using pub by blast
    then have "verifyOtp_body E i otp p la lo s = (s3, Inr ?d)"
      using assms(3-8) by (simp add: verifyOtp_body_def Let_def)
    moreover have "db_deliveries s3 = save_delivery (env_row E d ?d) (db_deliveries s)"
      using publish_in_keeps(1)[OF p3] by simp
    ultimately show thesis using that by blast
  qed
  have r: "r = Inr ?d" "db_deliveries s' = db_deliveries s1"
    using v b by (auto simp: verifyOtp_def and_then_def delivery_transaction_def)
  have "status_of i s' = Some DELIVERED"
    using r(2) d1 row_okD[OF assms(1)] id by (simp add: status_of_def delivery_repo.find_save)
  moreover have "\<not> (moves allowedTransitions)\<^sup>*\<^sup>* CANCELLED DELIVERED"
    using delivery_table.final_stays[of CANCELLED DELIVERED] by auto
  ultimately show ?thesis using v r(1) by auto
qed

text \<open>The 250 metre check never applies to a delivery whose drop-off coordinates
  are loaded as decimal strings: the driver's position makes no difference.\<close>

theorem geofence_skipped_for_decimal_strings:
  assumes "\<And>d. find_delivery i (db_deliveries s) = Some d \<Longrightarrow> \<exists>la lo. dl_dropLat d = Str_Coord la \<and> dl_dropLon d = Str_Coord lo"
  shows "verifyOtp E i otp p (Some la) (Some lo) s = verifyOtp E i otp p None None s"
proof -
  have "verifyOtp_body E i otp p (Some la) (Some lo) s = verifyOtp_body E i otp p None None s"
  proof (cases "find_delivery i (db_deliveries s)")
    case (Some d)
    then have "too_far otp (Some la) (Some lo) d = too_far otp None None d"
      using assms by (auto simp: too_far_def)
    then show ?thesis using Some by (simp add: verifyOtp_body_def)
  qed (simp add: verifyOtp_body_def)
  then show ?thesis by (simp add: verifyOtp_def and_then_def delivery_transaction_def)
qed

text \<open>Once the pickup proof of a delivery has been announced, the announcement
  of the drop-off proof to the same driver is dropped as a duplicate, whenever
  it comes: both carry the delivery and the driver, which the key prefers to the proof type.\<close>

theorem dropoff_proof_announcement_dropped:
  assumes "publish ''PROOF_ACCEPTED_V1'' (proof_payload ''PICKUP'' ev1 d) 1 now1 sh t = (t1, Inr ())"
    and "dl_id d1 = dl_id d" "dl_driverId d1 = dl_driverId d" "dl_id d \<noteq> []" "truthy (dl_driverId d)"
  shows "publish ''PROOF_ACCEPTED_V1'' (proof_payload ''DROPOFF'' ev2 d1) 1 now2 sh t1 = (t1, Inr ())"
proof -
  let ?k = "''PROOF_ACCEPTED_V1'' @ '':delivery:'' @ dl_id d @ '':driver:'' @ the (dl_driverId d)"
  have v: "isValidVersionedEventType ''PROOF_ACCEPTED_V1''"
    by (simp add: isValidVersionedEventType_def upper_or_underscore_def)
  have k: "generateIdempotencyKey ''PROOF_ACCEPTED_V1'' (proof_payload kind ev d1) now sh = ?k"
    "generateIdempotencyKey ''PROOF_ACCEPTED_V1'' (proof_payload kind ev d) now sh = ?k" for kind ev now
    using assms(2-5) by (cases "dl_driverId d"; simp add: generateIdempotencyKey_def proof_payload_def)+
  have "?k \<in> ob_idempotency_key ` set (ot_rows t1)"
    using assms(1) by (cases rule: publish_cases) (simp_all only: k, auto)
  then show ?thesis
    using v find_key_None[of ?k "ot_rows t1"] by (auto simp: publish_def Let_def k simp del: append.simps split: option.splits)
qed

lemma haversine_cos_nonneg:
  assumes "- 90 \<le> lat" "lat \<le> (90 :: real)"
  shows "0 \<le> cos ((lat * pi) / 180)"
proof (rule cos_ge_zero)
  have "- 90 * pi \<le> lat * pi" "lat * pi \<le> 90 * pi"
    using assms pi_ge_zero by (intro mult_right_mono; simp)+
  then show "- (pi / 2) \<le> lat * pi / 180" "lat * pi / 180 \<le> pi / 2" by simp_all
qed

lemma sin_half_even: "sin (((a - b) * pi) / 180 / 2) ^ 2 = sin (((b - a) * pi) / 180 / 2) ^ (2 :: nat)"
proof -
  have "((a - b) * pi) / 180 / 2 = - (((b - a) * pi) / 180 / 2)"
    by (simp add: field_simps)
  then show ?thesis by (simp only: sin_minus power2_minus)
qed

text \<open>The distance used by the geofence is symmetric, zero between equal points,
  and for latitudes of the globe never negative nor beyond half the circumference.\<close>

theorem haversine_metric_facts:
  "haversineKm la lo la lo = 0 \<and> haversineKm la1 lo1 la2 lo2 = haversineKm la2 lo2 la1 lo1
   \<and> (\<bar>la1\<bar> \<le> 90 \<and> \<bar>la2\<bar> \<le> 90 \<longrightarrow>
        0 \<le> haversineKm la1 lo1 la2 lo2 \<and> haversineKm la1 lo1 la2 lo2 \<le> 6371 * pi)"
proof (intro conjI impI)
  show "haversineKm la lo la lo = 0" by (simp add: haversineKm_def)
  show "haversineKm la1 lo1 la2 lo2 = haversineKm la2 lo2 la1 lo1"
    using sin_half_even[of la1 la2] sin_half_even[of lo1 lo2]
    by (simp add: haversineKm_def Let_def mult.commute)
next
  assume l: "\<bar>la1\<bar> \<le> 90 \<and> \<bar>la2\<bar> \<le> 90"
  define a where "a = sin (((la2 - la1) * pi) / 180 / 2) ^ 2
      + cos ((la1 * pi) / 180) * cos ((la2 * pi) / 180) * sin (((lo2 - lo1) * pi) / 180 / 2) ^ 2"
  have h: "haversineKm la1 lo1 la2 lo2 = 6371 * 2 * (if a < 1 then arctan (sqrt a / sqrt (1 - a)) else pi / 2)"
    by (simp add: haversineKm_def a_def Let_def)
  have "0 \<le> cos ((la1 * pi) / 180)" "0 \<le> cos ((la2 * pi) / 180)"
    using l haversine_cos_nonneg by auto
  then have "0 \<le> a" by (simp add: a_def)
  then have "0 \<le> arctan (sqrt a / sqrt (1 - a))" if "a < 1"
    using that by simp
  then show "0 \<le> haversineKm la1 lo1 la2 lo2" by (simp add: h)
  have "arctan (sqrt a / sqrt (1 - a)) \<le> pi / 2"
    using arctan_ubound[of "sqrt a / sqrt (1 - a)"] by simp
  then show "haversineKm la1 lo1 la2 lo2 \<le> 6371 * pi" by (simp add: h)
qed

lemma assignDriver_ok:
  assumes "assignDriver E i r a s = (s', Inr x)" "find_delivery i (db_deliveries s) = Some d"
    and "db_autonomous s = []"
  shows "isValidVersionedEventType (ws_DELIVERY_ASSIGNED (env_ws E))"
    "db_outbox s' = fst (publish (ws_DELIVERY_ASSIGNED (env_ws E)) (assigned_payload E (assigned_entity E r d) r a)
        1 (env_now E) (env_ms E) (db_outbox s))"
    "db_deliveries s' = save_delivery (env_row E d (assigned_entity E r d)) (db_deliveries s)"
    "db_autonomous s' = []"
proof -
  let ?body = "\<lambda>s. case find_delivery i (db_deliveries s) of
        None \<Rightarrow> (s, Inl Not_Found)
      | Some d0 \<Rightarrow>
          let d = assigned_entity E r d0;
              s1 = write_back E d0 d s;
              s2 = createEvent (new_event E d Ev_ASSIGNED
                     (JObj [(''driverId'', JStr r), (''assignmentId'', JStr a)]) None None None) s1
          in case publish_in E (ws_DELIVERY_ASSIGNED (env_ws E)) (assigned_payload E d r a) s2 of
               (s3, Inl e) \<Rightarrow> (s3, Inl e)
             | (s3, Inr _) \<Rightarrow> (s3, Inr d)"
  obtain s1 where s1: "?body s = (s1, Inr x)" "db_deliveries s' = db_deliveries s1"
    "db_outbox s' = replay E (db_autonomous s1) (db_outbox s1)" "db_autonomous s' = []"
    using assms(1) unfolding assignDriver_def by (rule and_then_transaction_ok)
  obtain u where u: "publish_in E (ws_DELIVERY_ASSIGNED (env_ws E)) (assigned_payload E (assigned_entity E r d) r a)
      (createEvent (new_event E (assigned_entity E r d) Ev_ASSIGNED
         (JObj [(''driverId'', JStr r), (''assignmentId'', JStr a)]) None None None)
         (write_back E d (assigned_entity E r d) s)) = (s1, Inr u)"
    using s1(1) assms(2) by (auto simp: Let_def split: prod.splits sum.splits)
  have o: "db_outbox s1 = fst (publish (ws_DELIVERY_ASSIGNED (env_ws E))
        (assigned_payload E (assigned_entity E r d) r a) 1 (env_now E) (env_ms E) (db_outbox s))"
    and v: "isValidVersionedEventType (ws_DELIVERY_ASSIGNED (env_ws E))"
    using u by (auto simp: publish_in_def publish_def split: prod.splits sum.splits publish_error.splits if_splits)
  show "isValidVersionedEventType (ws_DELIVERY_ASSIGNED (env_ws E))" using v .
  show "db_outbox s' = fst (publish (ws_DELIVERY_ASSIGNED (env_ws E)) (assigned_payload E (assigned_entity E r d) r a)
        1 (env_now E) (env_ms E) (db_outbox s))"
    using s1(3) o publish_in_keeps(2)[OF u] assms(3) by simp
  show "db_deliveries s' = save_delivery (env_row E d (assigned_entity E r d)) (db_deliveries s)"
    using s1(2) publish_in_keeps(1)[OF u] by simp
  show "db_autonomous s' = []" using s1(4) .
qed

lemma assigned_key:
  "dl_sellerOrderId d \<noteq> [] \<Longrightarrow>
   generateIdempotencyKey ty (assigned_payload E d r a) now sh = ty @ '':order:'' @ dl_sellerOrderId d"
  by (simp add: generateIdempotencyKey_def assigned_payload_def)

lemma publish_key_present:
  assumes "isValidVersionedEventType ty"
  shows "generateIdempotencyKey ty p now sh \<in> ob_idempotency_key ` set (ot_rows (fst (publish ty p v now sh t)))"
proof -
  obtain t' r where eq: "publish ty p v now sh t = (t', r)" by (metis surj_pair)
  then show ?thesis
  proof (cases rule: publish_cases)
    case added
    then show ?thesis using assms eq by simp
  qed (use assms eq in simp_all)
qed

lemma publish_present:
  assumes "generateIdempotencyKey ty p now sh \<in> ob_idempotency_key ` set (ot_rows t)"
  shows "fst (publish ty p v now sh t) = t"
proof -
  obtain t' r where eq: "publish ty p v now sh t = (t', r)" by (metis surj_pair)
  then show ?thesis
  proof (cases rule: publish_cases)
    case added
    then show ?thesis using assms eq by simp
  qed (use assms eq in simp_all)
qed

text \<open>A delivery that is assigned a second time, to another driver, is not
  announced: the row names the new driver, but the outbox still holds only the
  assignment of the first one.\<close>

theorem reassignment_is_not_announced:
  assumes "row_ok E1" "row_ok E2" "env_ws E2 = env_ws E1" "env_ms E2 = env_ms E1"
    and "find_delivery i (db_deliveries s) = Some d" "dl_sellerOrderId d \<noteq> []" "db_autonomous s = []"
    and "assignDriver E1 i r1 a1 s = (s1, Inr x1)" "assignDriver E2 i r2 a2 s1 = (s2, Inr x2)"
  shows "db_outbox s2 = db_outbox s1
    \<and> map_option dl_driverId (find_delivery i (db_deliveries s2)) = Some (Some r2)"
proof -
  let ?d1 = "env_row E1 d (assigned_entity E1 r1 d)"
  note o1 = assignDriver_ok[OF assms(8,5,7)]
  have id: "dl_id d = i" using delivery_repo.found_key[OF assms(5)] .
  have f1: "find_delivery i (db_deliveries s1) = Some ?d1"
    using o1(3) id row_okD[OF assms(1)] by (simp add: delivery_repo.find_save)
  note o2 = assignDriver_ok[OF assms(9) f1 o1(4)]
  have sid: "dl_sellerOrderId ?d1 = dl_sellerOrderId d" using row_okD[OF assms(1)] by simp
  have "fst (publish (ws_DELIVERY_ASSIGNED (env_ws E2)) (assigned_payload E2 (assigned_entity E2 r2 ?d1) r2 a2)
      1 (env_now E2) (env_ms E2) (db_outbox s1)) = db_outbox s1"
    using publish_key_present[OF o1(1), of "assigned_payload E1 (assigned_entity E1 r1 d) r1 a1" "env_now E1"
        "env_ms E1" 1 "db_outbox s"] assms(3,6) sid
    by (intro publish_present) (simp add: assigned_key o1(2))
  moreover have "find_delivery i (db_deliveries s2) = Some (env_row E2 ?d1 (assigned_entity E2 r2 ?d1))"
    using o2(3) id row_okD[OF assms(1)] row_okD[OF assms(2)] by (simp add: delivery_repo.find_save)
  ultimately show ?thesis
    using o2(2) row_okD(4)[OF assms(2), of "assigned_entity E2 r2 ?d1"] by simp
qed


text \<open>One run of the SLA monitor marks exactly the overdue deliveries that were not
  marked before, releases its lock, and a second run at the same time finds
  nothing to mark.\<close>

theorem sla_run_marks_overdue_once:
  assumes "distinct (map dl_id ds)"
  shows "(let ((lock, ds'), alerted) = checkSlaBreaches now (False, ds) in
     \<not> lock
     \<and> ds' = map (\<lambda>d. if sla_breached now d then d\<lparr> dl_slaBreachAt := Some now \<rparr> else d) ds
     \<and> (alerted = None \<longleftrightarrow> (\<forall>d \<in> set ds. \<not> sla_breached now d))
     \<and> checkSlaBreaches now (False, ds') = ((False, ds'), None))"
proof -
  let ?ds = "map (\<lambda>d. if sla_breached now d then d\<lparr> dl_slaBreachAt := Some now \<rparr> else d) ds"
  have m: "for_each (\<lambda>d. save_delivery (d\<lparr> dl_slaBreachAt := Some now \<rparr>)) (filter (sla_breached now) ds) ds = ?ds"
    unfolding save_delivery_def using assms by (intro for_each_save_filter) simp_all
  have again: "filter (sla_breached now) ?ds = []"
    by (auto simp: filter_empty_conv sla_breached_def)
  have eq: "?ds = ds" if "filter (sla_breached now) ds = []"
    using that by (auto simp: filter_empty_conv intro: map_idI)
  show ?thesis
  proof (cases "filter (sla_breached now) ds = []")
    case True
    have "\<forall>d \<in> set ds. \<not> sla_breached now d" using True by (simp add: filter_empty_conv)
    moreover have "checkSlaBreaches now (False, ds) = ((False, ds), None)"
      using True by (simp add: checkSlaBreaches_def)
    ultimately show ?thesis using eq[OF True] by simp
  next
    case False
    have c: "checkSlaBreaches now (False, ds) = ((False, ?ds), Some (length (filter (sla_breached now) ds)))"
      using False by (simp only: checkSlaBreaches_def Let_def prod.case if_False m)
    have c2: "checkSlaBreaches now (False, ?ds) = ((False, ?ds), None)"
      by (simp only: checkSlaBreaches_def Let_def prod.case again if_False if_True refl)
    have "\<not> (\<forall>d \<in> set ds. \<not> sla_breached now d)" using False by (simp add: filter_empty_conv)
    then show ?thesis by (simp only: c c2 Let_def prod.case) blast
  qed
qed

text \<open>Verifying the password of a delivered delivery again succeeds without looking at the
  password and runs the completion statistics once more.\<close>

theorem repeated_verification_counts_again:
  assumes "find_delivery i (db_deliveries s) = Some d" "dl_status d = DELIVERED" "db_autonomous s = []"
  shows "verifyOtp E i otp p la lo s
    = (s\<lparr> db_projections := db_projections s @ completed_projections d \<rparr>, Inr d)"
  using assms by (simp add: verifyOtp_def and_then_def delivery_transaction_def verifyOtp_body_def project_def)

section \<open>Concrete runs\<close>

definition sample_env :: env where
  "sample_env = \<lparr> env_now = 1000000, env_ms = render_ms, env_random = 0, env_new_id = ''id1'',
     env_num = (\<lambda>c. JNull),
     env_ws = \<lparr> ws_DELIVERY_ASSIGNED = ''DELIVERY_ASSIGNED_V1'',
       ws_DELIVERY_PICKUP_CONFIRMED = ''DELIVERY_PICKUP_CONFIRMED_V1'',
       ws_DELIVERY_DROPOFF_CONFIRMED = ''DELIVERY_DROPOFF_CONFIRMED_V1'',
       ws_DELIVERY_FAILED = ''DELIVERY_FAILED_V1'', ws_DELIVERY_CANCELLED = ''DELIVERY_CANCELLED_V1'' \<rparr>,
     env_row = (\<lambda>old new. new) \<rparr>"

definition sample_delivery :: "delivery_status \<Rightarrow> delivery" where
  "sample_delivery st = \<lparr> dl_id = ''d1'', dl_sellerOrderId = ''o1'', dl_channelId = ''c1'',
     dl_driverId = Some ''r1'', dl_status = st,
     dl_pickupLat = Str_Coord ''10.0'', dl_pickupLon = Str_Coord ''20.0'',
     dl_dropLat = Str_Coord ''10.1'', dl_dropLon = Str_Coord ''20.1'',
     dl_pickupProofUrl = None, dl_deliveryProofUrl = None, dl_failureCode = None, dl_failureReason = None,
     dl_assignedAt = Some 1000, dl_pickedUpAt = None, dl_deliveredAt = None, dl_failedAt = None,
     dl_expectedPickupAt = Some 2000, dl_expectedDeliveryAt = Some 3000,
     dl_slaBreachAt = None, dl_deliveryOtp = Some ''123456'', dl_otpAttempts = 0, dl_otpLockedUntil = None,
     dl_createdAt = 500, dl_lastActivityUpdateAt = None \<rparr>"

definition sample_db :: "delivery_status \<Rightarrow> db" where
  "sample_db st = \<lparr> db_deliveries = [sample_delivery st], db_events = [], db_outbox = empty_outbox,
     db_autonomous = [], db_projections = [] \<rparr>"

lemma sample_env_row: "row_ok sample_env"
  by (simp add: row_ok_def sample_env_def)

lemma sample_find: "find_delivery ''d1'' (db_deliveries (sample_db st)) = Some (sample_delivery st)"
  by (simp add: find_delivery_def sample_db_def sample_delivery_def)

lemma sample_valid_types:
  "isValidVersionedEventType ''DELIVERY_ASSIGNED_V1''"
  "isValidVersionedEventType ''DELIVERY_DROPOFF_CONFIRMED_V1''"
  "isValidVersionedEventType ''PROOF_ACCEPTED_V1''"
  by (simp_all add: isValidVersionedEventType_def upper_or_underscore_def)

theorem status_requests_follow_table_witness:
  "status_of ''d1'' (run_requests [(sample_env, Cancel ''d1'' None),
     (sample_env, Update ''d1'' \<lparr> ud_status = ''PICKED_UP'', ud_proofUrl = None,
        ud_failureCode = None, ud_failureReason = None \<rparr>)] (sample_db FAILED)) = Some FAILED"
  using status_requests_follow_table[of "[(sample_env, Cancel ''d1'' None),
     (sample_env, Update ''d1'' \<lparr> ud_status = ''PICKED_UP'', ud_proofUrl = None,
        ud_failureCode = None, ud_failureReason = None \<rparr>)]" "''d1''" "sample_db FAILED" FAILED]
  by (simp add: sample_env_row status_of_def sample_find) (simp add: sample_delivery_def)

theorem wrong_otp_attempts_are_forgotten_witness:
  "db_deliveries (wrong_attempts (replicate 5 sample_env) ''d1'' (replicate 5 ''000000'') (sample_db PICKED_UP))
   = [sample_delivery PICKED_UP]"
  using wrong_otp_attempts_are_forgotten[OF sample_find, of PICKED_UP "replicate 5 ''000000''" "replicate 5 sample_env"]
  by (simp add: sample_delivery_def sample_db_def)

theorem otp_delivers_from_any_status_witness:
  "status_of ''d1'' (fst (verifyOtp sample_env ''d1'' ''123456'' None None None (sample_db CANCELLED))) = Some DELIVERED"
proof -
  have "dl_status (sample_delivery CANCELLED) = CANCELLED" "dl_deliveryOtp (sample_delivery CANCELLED) = Some ''123456''"
    "dl_otpLockedUntil (sample_delivery CANCELLED) = None"
    by (simp_all add: sample_delivery_def)
  moreover have "ws_DELIVERY_DROPOFF_CONFIRMED (env_ws sample_env) = ''DELIVERY_DROPOFF_CONFIRMED_V1''"
    by (simp add: sample_env_def)
  ultimately show ?thesis
    using otp_delivers_from_any_status[OF sample_env_row _ sample_find, of CANCELLED "''123456''" None None None]
      sample_valid_types
    by (simp add: too_far_def)
qed

theorem geofence_skipped_for_decimal_strings_witness:
  "verifyOtp sample_env ''d1'' ''123456'' None (Some 50) (Some 60) (sample_db PICKED_UP)
   = verifyOtp sample_env ''d1'' ''123456'' None None None (sample_db PICKED_UP)"
  by (rule geofence_skipped_for_decimal_strings) (simp add: sample_find sample_delivery_def)

theorem dropoff_proof_announcement_dropped_witness:
  "(let d = sample_delivery PICKED_UP;
        ev = new_event sample_env d Ev_PICKED_UP JNull None None None;
        t1 = fst (publish ''PROOF_ACCEPTED_V1'' (proof_payload ''PICKUP'' ev d) 1 5 render_ms empty_outbox)
    in publish ''PROOF_ACCEPTED_V1'' (proof_payload ''DROPOFF'' ev d) 1 900 render_ms t1 = (t1, Inr ()))"
proof -
  let ?d = "sample_delivery PICKED_UP"
  let ?ev = "new_event sample_env ?d Ev_PICKED_UP JNull None None None"
  obtain t1 where t1: "publish ''PROOF_ACCEPTED_V1'' (proof_payload ''PICKUP'' ?ev ?d) 1 5 render_ms empty_outbox = (t1, Inr ())"
    using sample_valid_types by (simp add: publish_def empty_outbox_def find_key_def Let_def)
  show ?thesis
    using dropoff_proof_announcement_dropped[OF t1, of ?d ?ev 900] t1
    by (simp add: sample_delivery_def Let_def)
qed

theorem haversine_metric_facts_witness:
  "0 \<le> haversineKm 10 20 11 21"
  using haversine_metric_facts[of 0 0 10 20 11 21] by simp

theorem reassignment_is_not_announced_witness:
  "\<exists>s1 s2 x1 x2. assignDriver sample_env ''d1'' ''r1'' ''a1'' (sample_db PENDING) = (s1, Inr x1)
    \<and> assignDriver sample_env ''d1'' ''r2'' ''a2'' s1 = (s2, Inr x2) \<and> db_outbox s2 = db_outbox s1"
proof -
  have e: "\<exists>s' x. assignDriver sample_env ''d1'' r a s = (s', Inr x)"
    if "find_delivery ''d1'' (db_deliveries s) = Some d" for r a d and s :: db
  proof -
    have "\<exists>t'. publish_in sample_env (ws_DELIVERY_ASSIGNED (env_ws sample_env)) q t = (t', Inr ())" for q and t :: db
      using sample_valid_types
      by (auto simp: publish_in_def publish_def sample_env_def Let_def split: option.splits)
    then show ?thesis using that
      by (auto simp: assignDriver_def and_then_def delivery_transaction_def Let_def split: prod.splits sum.splits)
        (metis old.sum.exhaust surj_pair Inl_Inr_False prod.inject)+
  qed
  obtain s1 x1 where a1: "assignDriver sample_env ''d1'' ''r1'' ''a1'' (sample_db PENDING) = (s1, Inr x1)"
    using e[OF sample_find] by blast
  have "db_autonomous (sample_db PENDING) = []" by (simp add: sample_db_def)
  note ok = assignDriver_ok[OF a1 sample_find this]
  have "find_delivery ''d1'' (db_deliveries s1) \<noteq> None"
    using ok(3) by (simp add: delivery_repo.find_save sample_find)
  then obtain s2 x2 where a2: "assignDriver sample_env ''d1'' ''r2'' ''a2'' s1 = (s2, Inr x2)"
    using e by blast
  have "db_outbox s2 = db_outbox s1"
    using reassignment_is_not_announced[OF sample_env_row sample_env_row refl refl sample_find _ _ a1 a2]
    by (simp add: sample_db_def sample_delivery_def)
  then show ?thesis using a1 a2 by blast
qed

theorem sla_run_marks_overdue_once_witness:
  "(let ((lock, ds'), alerted) = checkSlaBreaches 2500 (False, [sample_delivery ASSIGNED]) in \<not> lock \<and> alerted \<noteq> None)"
proof -
  have "sla_breached 2500 (sample_delivery ASSIGNED)" by (simp add: sla_breached_def sample_delivery_def)
  then show ?thesis
    using sla_run_marks_overdue_once[of "[sample_delivery ASSIGNED]" 2500] by (simp add: Let_def split: prod.splits)
qed

theorem repeated_verification_counts_again_witness:
  "db_projections (fst (verifyOtp sample_env ''d1'' ''wrong'' None None None (sample_db DELIVERED)))
   = [Record_Delivery ''d1'', Driver_Completed ''r1'' None None]"
  using repeated_verification_counts_again[OF sample_find, of DELIVERED sample_env "''wrong''" None None None]
  by (simp add: sample_delivery_def sample_db_def completed_projections_def)

end
