(* ===== verification/Drivers.thy ===== *)
theory Drivers
  imports Prelude Outbox_Service
begin

text \<open>
  \<^verbatim>\<open>drivers/entities/driver.entity.ts\<close>, the registration workflow of
  \<^verbatim>\<open>drivers/driver-registration.service.ts\<close>, the activation and status
  operations of \<^verbatim>\<open>drivers/drivers.service.ts\<close> and the capability check of
  \<^verbatim>\<open>drivers/driver-capability.service.ts\<close>. The shared in-memory store is kept as
  the list of commands sent to it; the counters read from it are an argument.
\<close>

section \<open>State\<close>

datatype driver_status = AVAILABLE | BUSY | OFFLINE

datatype registration_status = PROFILE_INCOMPLETE | PENDING_APPROVAL | APPROVED | REJECTED

record driver =
  dr_id :: string
  dr_name :: "string option"
  dr_phone :: "string option"
  dr_email :: "string option"
  dr_googleSub :: "string option"
  dr_cityId :: "string option"
  dr_zoneId :: "string option"
  dr_vehicleType :: "string option"
  dr_vehicleNumber :: "string option"
  dr_isActive :: bool
  dr_status :: driver_status
  dr_currentLat :: "rat option"
  dr_currentLon :: "rat option"
  dr_lastActiveAt :: "int option"
  dr_lastLocationUpdateAt :: "int option"
  dr_lastStatusUpdateAt :: "int option"
  dr_registrationStatus :: registration_status
  dr_approvedAt :: "int option"
  dr_approvedById :: "string option"
  dr_rejectionReason :: "string option"

datatype redis_cmd =
    Mark_Offline string
  | Mark_Busy string
  | Revoke_Token string int
  | Update_Location string rat rat int

datatype audit_entry = Audit string string string

record driver_db =
  dd_drivers :: "driver list"
  dd_stats :: "string list"
  dd_outbox :: outbox_table
  dd_audit :: "audit_entry list"
  dd_redis :: "redis_cmd list"

text \<open>Clock, generated id, and the event names of the contract package.\<close>

record driver_env =
  de_now :: int
  de_ms :: "int \<Rightarrow> string"
  de_new_id :: string
  de_REGISTERED :: string
  de_PROFILE_COMPLETED :: string
  de_APPROVAL_REQUESTED :: string
  de_APPROVED :: string
  de_REJECTED :: string

datatype driver_error = Driver_Not_Found | Driver_Bad_Request string | Driver_Forbidden

definition find_driver :: "string \<Rightarrow> driver list \<Rightarrow> driver option" where
  "find_driver i ds = lookup_by dr_id i ds"

definition save_driver :: "driver \<Rightarrow> driver list \<Rightarrow> driver list" where
  "save_driver d ds = save_by dr_id d ds"

interpretation driver_repo: repository find_driver save_driver dr_id
  by unfold_locales (auto simp: find_driver_def save_driver_def lookup_save_by dest: lookup_by_SomeD)

definition put_driver :: "driver \<Rightarrow> driver_db \<Rightarrow> driver_db" where
  "put_driver d s = s\<lparr> dd_drivers := save_driver d (dd_drivers s) \<rparr>"

section \<open>Registration\<close>

text \<open>Publishing failures are logged and dropped.\<close>

definition emit :: "driver_env \<Rightarrow> string \<Rightarrow> json \<Rightarrow> driver_db \<Rightarrow> driver_db" where
  "emit E ty p s = s\<lparr> dd_outbox := fst (publish ty p 1 (de_now E) (de_ms E) (dd_outbox s)) \<rparr>"

definition emitDriverRegistered :: "driver_env \<Rightarrow> driver \<Rightarrow> driver_db \<Rightarrow> driver_db" where
  "emitDriverRegistered E d = emit E (de_REGISTERED E)
     (JObj ((''driverId'', JStr (dr_id d)) # opt_field ''email'' (dr_email d) JStr))"

definition emitProfileCompleted :: "driver_env \<Rightarrow> driver \<Rightarrow> driver_db \<Rightarrow> driver_db" where
  "emitProfileCompleted E d = emit E (de_PROFILE_COMPLETED E) (JObj [(''driverId'', JStr (dr_id d))])"

definition emitApprovalRequested :: "driver_env \<Rightarrow> driver \<Rightarrow> driver_db \<Rightarrow> driver_db" where
  "emitApprovalRequested E d = emit E (de_APPROVAL_REQUESTED E)
     (JObj ((''driverId'', JStr (dr_id d)) # opt_field ''cityId'' (dr_cityId d) JStr))"

definition emitDriverApproved :: "driver_env \<Rightarrow> driver \<Rightarrow> driver_db \<Rightarrow> driver_db" where
  "emitDriverApproved E d = emit E (de_APPROVED E) (JObj [(''driverId'', JStr (dr_id d))])"

definition emitDriverRejected :: "driver_env \<Rightarrow> driver \<Rightarrow> driver_db \<Rightarrow> driver_db" where
  "emitDriverRejected E d = emit E (de_REJECTED E)
     (JObj ((''driverId'', JStr (dr_id d)) # opt_field ''reason'' (dr_rejectionReason d) JStr))"

definition createDriverFromAuth ::
    "driver_env \<Rightarrow> string \<Rightarrow> string option \<Rightarrow> driver_db \<Rightarrow> driver_db \<times> driver" where
  "createDriverFromAuth E email googleSub s =
    (case lookup_by dr_email (Some email) (dd_drivers s) of
       Some existing \<Rightarrow> (s, existing)
     | None \<Rightarrow>
         let d = \<lparr> dr_id = de_new_id E, dr_name = None, dr_phone = None, dr_email = Some email,
               dr_googleSub = Some (or_default googleSub []), dr_cityId = None, dr_zoneId = None,
               dr_vehicleType = None, dr_vehicleNumber = None, dr_isActive = True, dr_status = AVAILABLE,
               dr_currentLat = None, dr_currentLon = None, dr_lastActiveAt = None,
               dr_lastLocationUpdateAt = None, dr_lastStatusUpdateAt = None,
               dr_registrationStatus = PROFILE_INCOMPLETE, dr_approvedAt = None,
               dr_approvedById = None, dr_rejectionReason = None \<rparr>
         in (emitDriverRegistered E d (put_driver d s), d))"

record profile_data =
  pd_name :: "string option"
  pd_phone :: "string option"
  pd_cityId :: "string option"
  pd_vehicleType :: "string option"
  pd_vehicleNumber :: "string option"

text \<open>\<^verbatim>\<open>if (data.x) driver.x = data.x\<close>\<close>

definition if_given :: "string option \<Rightarrow> string option \<Rightarrow> string option" where
  "if_given new old = (if truthy new then new else old)"

definition apply_profile :: "profile_data \<Rightarrow> driver \<Rightarrow> driver" where
  "apply_profile p d = d\<lparr> dr_name := if_given (pd_name p) (dr_name d),
     dr_phone := if_given (pd_phone p) (dr_phone d), dr_cityId := if_given (pd_cityId p) (dr_cityId d),
     dr_vehicleType := if_given (pd_vehicleType p) (dr_vehicleType d),
     dr_vehicleNumber := if_given (pd_vehicleNumber p) (dr_vehicleNumber d) \<rparr>"

definition profile_complete :: "driver \<Rightarrow> bool" where
  "profile_complete d \<longleftrightarrow> truthy (dr_name d) \<and> truthy (dr_phone d) \<and> truthy (dr_cityId d)"

definition completeProfile ::
    "driver_env \<Rightarrow> string \<Rightarrow> profile_data \<Rightarrow> (driver_db, driver_error, driver) action" where
  "completeProfile E i p s = (case find_driver i (dd_drivers s) of
      None \<Rightarrow> (s, Inl (Driver_Bad_Request ''Driver not found''))
    | Some d0 \<Rightarrow>
        let d1 = apply_profile p d0;
            isComplete = profile_complete d1;
            d = (if isComplete then d1\<lparr> dr_registrationStatus := PENDING_APPROVAL \<rparr> else d1);
            s1 = put_driver d s
        in ((if isComplete then emitProfileCompleted E d s1 else s1), Inr d))"

definition isProfileComplete :: "string \<Rightarrow> driver_db \<Rightarrow> bool" where
  "isProfileComplete i s = (case find_driver i (dd_drivers s) of None \<Rightarrow> False | Some d \<Rightarrow> profile_complete d)"

definition requestApproval :: "driver_env \<Rightarrow> string \<Rightarrow> (driver_db, driver_error, driver) action" where
  "requestApproval E i s = (case find_driver i (dd_drivers s) of
      None \<Rightarrow> (s, Inl (Driver_Bad_Request ''Driver not found''))
    | Some d0 \<Rightarrow>
        if \<not> isProfileComplete i s then (s, Inl (Driver_Bad_Request ''Profile is incomplete''))
        else let d = d0\<lparr> dr_registrationStatus := PENDING_APPROVAL \<rparr>
             in (emitApprovalRequested E d (put_driver d s), Inr d))"

definition approveDriver :: "driver_env \<Rightarrow> string \<Rightarrow> string \<Rightarrow> (driver_db, driver_error, driver) action" where
  "approveDriver E i adminId s = (case find_driver i (dd_drivers s) of
      None \<Rightarrow> (s, Inl (Driver_Bad_Request ''Driver not found''))
    | Some d0 \<Rightarrow>
        if dr_registrationStatus d0 \<noteq> PENDING_APPROVAL
        then (s, Inl (Driver_Bad_Request ''Driver is not pending approval''))
        else
          let d = d0\<lparr> dr_registrationStatus := APPROVED, dr_isActive := True,
                      dr_approvedAt := Some (de_now E), dr_approvedById := Some adminId \<rparr>;
              s1 = put_driver d s;
              s2 = s1\<lparr> dd_stats := List.insert i (dd_stats s1),
                       dd_audit := dd_audit s1 @ [Audit adminId ''DRIVER_APPROVED'' i] \<rparr>
          in (emitDriverApproved E d s2, Inr d))"

definition rejectDriver ::
    "driver_env \<Rightarrow> string \<Rightarrow> string \<Rightarrow> string \<Rightarrow> (driver_db, driver_error, driver) action" where
  "rejectDriver E i adminId reason s = (case find_driver i (dd_drivers s) of
      None \<Rightarrow> (s, Inl (Driver_Bad_Request ''Driver not found''))
    | Some d0 \<Rightarrow>
        if dr_registrationStatus d0 \<noteq> PENDING_APPROVAL
        then (s, Inl (Driver_Bad_Request ''Driver is not pending approval''))
        else
          let d = d0\<lparr> dr_registrationStatus := REJECTED, dr_rejectionReason := Some reason \<rparr>;
              s1 = put_driver d s;
              s2 = s1\<lparr> dd_audit := dd_audit s1 @ [Audit adminId ''DRIVER_REJECTED'' i] \<rparr>
          in (emitDriverRejected E d s2, Inr d))"

definition isEligibleForDispatch :: "string \<Rightarrow> driver_db \<Rightarrow> bool" where
  "isEligibleForDispatch i s = (case find_driver i (dd_drivers s) of
      None \<Rightarrow> False | Some d \<Rightarrow> dr_registrationStatus d = APPROVED)"

section \<open>Activation, status and location\<close>

definition set_active_effects :: "bool \<Rightarrow> string \<Rightarrow> driver_db \<Rightarrow> driver_db" where
  "set_active_effects isActive i s = (if isActive then s
     else s\<lparr> dd_redis := dd_redis s @ [Mark_Offline i, Revoke_Token i 86400] \<rparr>)"

definition setActiveWithCityIsolation ::
    "driver_env \<Rightarrow> string \<Rightarrow> bool \<Rightarrow> string \<Rightarrow> string option \<Rightarrow> (driver_db, driver_error, driver) action" where
  "setActiveWithCityIsolation E i isActive role cityId s = (case find_driver i (dd_drivers s) of
      None \<Rightarrow> (s, Inl Driver_Not_Found)
    | Some d0 \<Rightarrow>
        if role \<noteq> ''SUPER_ADMIN'' \<and> cityId \<noteq> dr_cityId d0 then (s, Inl Driver_Forbidden)
        else let d = d0\<lparr> dr_isActive := isActive, dr_lastActiveAt := Some (de_now E) \<rparr>
             in (set_active_effects isActive i (put_driver d s), Inr d))"

definition updateDriverStatus ::
    "driver_env \<Rightarrow> string \<Rightarrow> driver_status \<Rightarrow> (driver_db, driver_error, driver) action" where
  "updateDriverStatus E i st s = (case find_driver i (dd_drivers s) of
      None \<Rightarrow> (s, Inl Driver_Not_Found)
    | Some d0 \<Rightarrow>
        let d = d0\<lparr> dr_status := st, dr_lastActiveAt := Some (de_now E), dr_lastStatusUpdateAt := Some (de_now E) \<rparr>;
            s1 = put_driver d s;
            cmds = (case st of
                BUSY \<Rightarrow> [Mark_Busy i]
              | OFFLINE \<Rightarrow> [Mark_Offline i]
              | AVAILABLE \<Rightarrow> (case (dr_currentLat d, dr_currentLon d) of
                    (Some la, Some lo) \<Rightarrow> (if la \<noteq> 0 \<and> lo \<noteq> 0 then [Update_Location i la lo 60] else [])
                  | _ \<Rightarrow> []))
        in (s1\<lparr> dd_redis := dd_redis s1 @ cmds \<rparr>, Inr d))"

definition updateLocation ::
    "driver_env \<Rightarrow> string \<Rightarrow> rat \<Rightarrow> rat \<Rightarrow> (driver_db, driver_error, driver) action" where
  "updateLocation E i la lo s = (case find_driver i (dd_drivers s) of
      None \<Rightarrow> (s, Inl Driver_Not_Found)
    | Some d0 \<Rightarrow>
        let d = d0\<lparr> dr_currentLat := Some la, dr_currentLon := Some lo, dr_lastActiveAt := Some (de_now E),
                    dr_lastLocationUpdateAt := Some (de_now E) \<rparr>;
            s1 = put_driver d s
        in (s1\<lparr> dd_redis := dd_redis s1 @ (if dr_status d = AVAILABLE then [Update_Location i la lo 60] else []) \<rparr>,
            Inr d))"

section \<open>Capability\<close>

record constraints =
  cn_maxConcurrentDeliveries :: int
  cn_currentActiveDeliveries :: "int option"
  cn_requiresVehicleVerification :: bool
  cn_requiresBackgroundCheck :: bool
  cn_zoneRestricted :: bool

definition defaultConstraints :: constraints where
  "defaultConstraints = \<lparr> cn_maxConcurrentDeliveries = 0, cn_currentActiveDeliveries = Some 0,
     cn_requiresVehicleVerification = True, cn_requiresBackgroundCheck = True, cn_zoneRestricted = False \<rparr>"

text \<open>\<^verbatim>\<open>active\<close> is the parsed counter of the store; \<^const>\<open>None\<close> when it is not a number.\<close>

definition buildConstraints :: "int option \<Rightarrow> driver \<Rightarrow> constraints" where
  "buildConstraints active d = \<lparr> cn_maxConcurrentDeliveries = 3, cn_currentActiveDeliveries = active,
     cn_requiresVehicleVerification = (dr_vehicleType d = Some ''BIKE'' \<or> dr_vehicleType d = Some ''CAR''),
     cn_requiresBackgroundCheck = True, cn_zoneRestricted = truthy (dr_zoneId d) \<rparr>"

fun driver_status_name :: "driver_status \<Rightarrow> string" where
  "driver_status_name AVAILABLE = ''AVAILABLE''"
| "driver_status_name BUSY = ''BUSY''"
| "driver_status_name OFFLINE = ''OFFLINE''"

fun registration_status_name :: "registration_status \<Rightarrow> string" where
  "registration_status_name PROFILE_INCOMPLETE = ''PROFILE_INCOMPLETE''"
| "registration_status_name PENDING_APPROVAL = ''PENDING_APPROVAL''"
| "registration_status_name APPROVED = ''APPROVED''"
| "registration_status_name REJECTED = ''REJECTED''"

text \<open>A check is the reason of its failure, or nothing.\<close>

definition checkActiveStatus :: "driver \<Rightarrow> string option" where
  "checkActiveStatus d = (if \<not> dr_isActive d then Some ''DRIVER_INACTIVE'' else None)"

definition checkCurrentStatus :: "driver \<Rightarrow> string option" where
  "checkCurrentStatus d = (if dr_status d \<noteq> AVAILABLE
     then Some (''DRIVER_STATUS_'' @ driver_status_name (dr_status d)) else None)"

definition checkRegistrationStatus :: "driver \<Rightarrow> string option" where
  "checkRegistrationStatus d = (if dr_registrationStatus d \<noteq> APPROVED
     then Some (''DRIVER_REGISTRATION_'' @ registration_status_name (dr_registrationStatus d)) else None)"

definition checkVehicleVerification :: "driver \<Rightarrow> constraints \<Rightarrow> string option" where
  "checkVehicleVerification d c = (if cn_requiresVehicleVerification c \<and> \<not> truthy (dr_vehicleNumber d)
     then Some ''VEHICLE_NOT_REGISTERED'' else None)"

definition checkConcurrentDeliveryLimit :: "constraints \<Rightarrow> string option" where
  "checkConcurrentDeliveryLimit c = (case cn_currentActiveDeliveries c of
      Some n \<Rightarrow> (if n \<ge> cn_maxConcurrentDeliveries c then Some ''MAX_CONCURRENT_DELIVERIES_REACHED'' else None)
    | None \<Rightarrow> None)"

definition checkZoneAvailability :: "driver \<Rightarrow> string option" where
  "checkZoneAvailability d = None"

definition checkDocumentExpiry :: "driver \<Rightarrow> string option" where
  "checkDocumentExpiry d = None"

fun first_failure :: "string option list \<Rightarrow> string option" where
  "first_failure [] = None"
| "first_failure (Some r # cs) = Some r"
| "first_failure (None # cs) = first_failure cs"

text \<open>The result is the reason of a refusal, or nothing, with the constraints.\<close>

definition checkDeliveryAcceptanceCapability ::
    "(string \<Rightarrow> int option) \<Rightarrow> driver list \<Rightarrow> string \<Rightarrow> string option \<times> constraints" where
  "checkDeliveryAcceptanceCapability active ds i = (case find_driver i ds of
      None \<Rightarrow> (Some ''DRIVER_NOT_FOUND'', defaultConstraints)
    | Some d \<Rightarrow>
        let c = buildConstraints (active i) d
        in (first_failure [checkActiveStatus d, checkCurrentStatus d, checkRegistrationStatus d,
              checkVehicleVerification d c, checkConcurrentDeliveryLimit c,
              checkZoneAvailability d, checkDocumentExpiry d], c))"

definition canAcceptSpecificDelivery ::
    "(string \<Rightarrow> int option) \<Rightarrow> (string \<Rightarrow> string \<Rightarrow> int option) \<Rightarrow> driver list \<Rightarrow> string \<Rightarrow> string \<Rightarrow> rat \<Rightarrow> string option" where
  "canAcceptSpecificDelivery active rejections ds i deliveryId distKm =
    (case fst (checkDeliveryAcceptanceCapability active ds i) of
       Some r \<Rightarrow> Some r
     | None \<Rightarrow>
         if distKm > 15 then Some ''PICKUP_DISTANCE_EXCEEDS_LIMIT''
         else (case rejections deliveryId i of
                 Some n \<Rightarrow> (if n \<ge> 2 then Some ''MAX_REJECTIONS_EXCEEDED'' else None)
               | None \<Rightarrow> None))"

section \<open>Lemmas\<close>

lemma emit_keeps [simp]:
  "dd_drivers (emit E ty p s) = dd_drivers s" "dd_audit (emit E ty p s) = dd_audit s"
  "dd_stats (emit E ty p s) = dd_stats s" "dd_redis (emit E ty p s) = dd_redis s"
  by (simp_all add: emit_def)

lemmas emits = emitDriverRegistered_def emitProfileCompleted_def emitApprovalRequested_def
  emitDriverApproved_def emitDriverRejected_def

lemma put_driver_drivers [simp]: "dd_drivers (put_driver d s) = save_driver d (dd_drivers s)"
  by (simp add: put_driver_def)

lemma if_given_truthy: "truthy old \<Longrightarrow> truthy (if_given new old)"
  by (simp add: if_given_def)

lemma apply_profile_complete: "profile_complete d \<Longrightarrow> profile_complete (apply_profile p d)"
  by (simp add: profile_complete_def apply_profile_def if_given_truthy)

lemma first_failure_None: "first_failure cs = None \<longleftrightarrow> (\<forall>c \<in> set cs. c = None)"
  by (induction cs rule: first_failure.induct) auto

text \<open>A driver that has entered the approval workflow has a complete profile,
  and an approved one names the administrator.\<close>

definition registration_inv :: "driver \<Rightarrow> bool" where
  "registration_inv d \<longleftrightarrow>
     (dr_registrationStatus d \<noteq> PROFILE_INCOMPLETE \<longrightarrow> profile_complete d)
     \<and> (dr_registrationStatus d = APPROVED \<longrightarrow> dr_approvedById d \<noteq> None \<and> dr_approvedAt d \<noteq> None)"

datatype registration_request =
    Create_From_Auth string "string option"
  | Complete_Profile string profile_data
  | Request_Approval string
  | Approve string string
  | Reject string string string
  | Set_Active string bool string "string option"
  | Set_Status string driver_status
  | Set_Location string rat rat

fun run_registration :: "driver_env \<Rightarrow> registration_request \<Rightarrow> driver_db \<Rightarrow> driver_db" where
  "run_registration E (Create_From_Auth email g) s = fst (createDriverFromAuth E email g s)"
| "run_registration E (Complete_Profile i p) s = fst (completeProfile E i p s)"
| "run_registration E (Request_Approval i) s = fst (requestApproval E i s)"
| "run_registration E (Approve i a) s = fst (approveDriver E i a s)"
| "run_registration E (Reject i a r) s = fst (rejectDriver E i a r s)"
| "run_registration E (Set_Active i b role c) s = fst (setActiveWithCityIsolation E i b role c s)"
| "run_registration E (Set_Status i st) s = fst (updateDriverStatus E i st s)"
| "run_registration E (Set_Location i la lo) s = fst (updateLocation E i la lo s)"

text \<open>Every request leaves the rows as they are or saves one row.\<close>

lemma save_respects:
  assumes "\<And>k d. find_driver k ds = Some d \<Longrightarrow> registration_inv d" "registration_inv q"
    and "find_driver k (save_driver q ds) = Some d"
  shows "registration_inv d"
  using driver_repo.save_keeps_rows[of ds registration_inv q k d] assms by blast

text \<open>What one request does to the rows.\<close>

definition row_effect :: "driver_env \<Rightarrow> registration_request \<Rightarrow> driver_db \<Rightarrow> driver \<Rightarrow> bool" where
  "row_effect E req s q \<longleftrightarrow> (\<exists>d0. find_driver (dr_id q) (dd_drivers s) = Some d0
     \<and> (registration_inv d0 \<longrightarrow> registration_inv q)
     \<and> (dr_registrationStatus q = APPROVED \<longrightarrow> dr_registrationStatus d0 = APPROVED
          \<or> (dr_registrationStatus d0 = PENDING_APPROVAL \<and> (\<exists>a. req = Approve (dr_id q) a))))
   \<or> (dr_registrationStatus q = PROFILE_INCOMPLETE)"

lemma run_registration_rows:
  "dd_drivers (run_registration E req s) = dd_drivers s
   \<or> (\<exists>q. dd_drivers (run_registration E req s) = save_driver q (dd_drivers s) \<and> row_effect E req s q)"
proof (cases req)
  case (Create_From_Auth email g)
  then show ?thesis
    by (auto simp: createDriverFromAuth_def emits Let_def row_effect_def split: option.splits)
next
  case (Complete_Profile i p)
  show ?thesis
  proof (cases "find_driver i (dd_drivers s)")
    case (Some d0)
    have id: "dr_id d0 = i" using driver_repo.found_key[OF Some] .
    define q where "q = (if profile_complete (apply_profile p d0)
        then (apply_profile p d0)\<lparr> dr_registrationStatus := PENDING_APPROVAL \<rparr> else apply_profile p d0)"
    have "dd_drivers (run_registration E req s) = save_driver q (dd_drivers s)"
      using Complete_Profile Some by (simp add: completeProfile_def emits Let_def q_def)
    moreover have "row_effect E req s q"
    proof (cases "profile_complete (apply_profile p d0)")
      case True
      then have "profile_complete q" "dr_registrationStatus q = PENDING_APPROVAL" "dr_id q = i"
        using id by (simp_all add: q_def profile_complete_def) (simp add: apply_profile_def)
      then show ?thesis using Some by (auto simp: row_effect_def registration_inv_def)
    next
      case False
      then have "q = apply_profile p d0" by (simp add: q_def)
      moreover have "\<not> profile_complete d0" using False apply_profile_complete by blast
      ultimately show ?thesis
        using Some id by (auto simp: row_effect_def registration_inv_def apply_profile_def)
    qed
    ultimately show ?thesis by blast
  qed (simp add: Complete_Profile completeProfile_def)
next
  case (Request_Approval i)
  show ?thesis
  proof (cases "find_driver i (dd_drivers s)")
    case (Some d0)
    then have "dr_id d0 = i" using driver_repo.found_key by blast
    then show ?thesis
      using Request_Approval Some
      by (auto simp: requestApproval_def isProfileComplete_def emits Let_def row_effect_def registration_inv_def
          profile_complete_def)
  qed (simp add: Request_Approval requestApproval_def)
next
  case (Approve i a)
  show ?thesis
  proof (cases "find_driver i (dd_drivers s)")
    case (Some d0)
    then have "dr_id d0 = i" using driver_repo.found_key by blast
    then show ?thesis
      using Approve Some
      by (auto simp: approveDriver_def emits Let_def row_effect_def registration_inv_def profile_complete_def)
  qed (simp add: Approve approveDriver_def)
next
  case (Reject i a r)
  show ?thesis
  proof (cases "find_driver i (dd_drivers s)")
    case (Some d0)
    then have "dr_id d0 = i" using driver_repo.found_key by blast
    then show ?thesis
      using Reject Some
      by (auto simp: rejectDriver_def emits Let_def row_effect_def registration_inv_def profile_complete_def)
  qed (simp add: Reject rejectDriver_def)
next
  case (Set_Active i b role c)
  show ?thesis
  proof (cases "find_driver i (dd_drivers s)")
    case (Some d0)
    then have "dr_id d0 = i" using driver_repo.found_key by blast
    then show ?thesis
      using Set_Active Some
      by (auto simp: setActiveWithCityIsolation_def set_active_effects_def Let_def row_effect_def registration_inv_def
          profile_complete_def)
  qed (simp add: Set_Active setActiveWithCityIsolation_def)
next
  case (Set_Status i st)
  show ?thesis
  proof (cases "find_driver i (dd_drivers s)")
    case (Some d0)
    then have "dr_id d0 = i" using driver_repo.found_key by blast
    then show ?thesis
      using Set_Status Some
      by (auto simp: updateDriverStatus_def Let_def row_effect_def registration_inv_def profile_complete_def)
  qed (simp add: Set_Status updateDriverStatus_def)
next
  case (Set_Location i la lo)
  show ?thesis
  proof (cases "find_driver i (dd_drivers s)")
    case (Some d0)
    then have "dr_id d0 = i" using driver_repo.found_key by blast
    then show ?thesis
      using Set_Location Some
      by (auto simp: updateLocation_def Let_def row_effect_def registration_inv_def profile_complete_def)
  qed (simp add: Set_Location updateLocation_def)
qed

section \<open>Properties\<close>

text \<open>C10: Every request of the registration workflow keeps the rows well formed
  (a driver past the incomplete stage has name, phone and city; an approved one
  names its administrator and date), and the only way to become APPROVED is
  the approval of a driver that was pending.\<close>

theorem registration_workflow_invariant:
  assumes "\<And>k d. find_driver k (dd_drivers s) = Some d \<Longrightarrow> registration_inv d"
    and "find_driver k (dd_drivers (run_registration E req s)) = Some d"
  shows "registration_inv d
    \<and> (dr_registrationStatus d = APPROVED \<longrightarrow>
        (\<exists>d0. find_driver k (dd_drivers s) = Some d0 \<and> (dr_registrationStatus d0 = APPROVED
            \<or> (dr_registrationStatus d0 = PENDING_APPROVAL \<and> (\<exists>a. req = Approve k a)))))"
  using run_registration_rows[of E req s]
proof
  assume "dd_drivers (run_registration E req s) = dd_drivers s"
  then show ?thesis using assms by auto
next
  assume "\<exists>q. dd_drivers (run_registration E req s) = save_driver q (dd_drivers s) \<and> row_effect E req s q"
  then obtain q where q: "dd_drivers (run_registration E req s) = save_driver q (dd_drivers s)" "row_effect E req s q"
    by blast
  show ?thesis
  proof (cases "k = dr_id q")
    case True
    then have "d = q" using assms(2) q(1) by (simp add: driver_repo.find_save)
    then show ?thesis
      using q(2) assms(1) True by (auto simp: row_effect_def registration_inv_def)
  next
    case False
    then have "find_driver k (dd_drivers s) = Some d" using assms(2) q(1) by (simp add: driver_repo.find_save)
    then show ?thesis using assms(1) by auto
  qed
qed

text \<open>A driver passes the capability check exactly when it exists, is active,
  available and approved, has a vehicle number if it rides a bike or drives a
  car, and has fewer than three active deliveries (a counter that is not a
  number counts as few).\<close>

theorem capability_iff:
  "fst (checkDeliveryAcceptanceCapability active ds i) = None \<longleftrightarrow>
    (\<exists>d. find_driver i ds = Some d \<and> dr_isActive d \<and> dr_status d = AVAILABLE
       \<and> dr_registrationStatus d = APPROVED
       \<and> (dr_vehicleType d \<in> {Some ''BIKE'', Some ''CAR''} \<longrightarrow> truthy (dr_vehicleNumber d))
       \<and> (\<forall>n. active i = Some n \<longrightarrow> n < 3))"
proof (cases "find_driver i ds")
  case (Some d)
  then show ?thesis
    by (simp add: checkDeliveryAcceptanceCapability_def Let_def first_failure_None checkActiveStatus_def
        checkCurrentStatus_def checkRegistrationStatus_def checkVehicleVerification_def
        checkConcurrentDeliveryLimit_def checkZoneAvailability_def checkDocumentExpiry_def buildConstraints_def
        split: option.splits)
qed (simp add: checkDeliveryAcceptanceCapability_def)

section \<open>Concrete runs\<close>

definition sample_driver :: "string \<Rightarrow> registration_status \<Rightarrow> driver" where
  "sample_driver i rs = \<lparr> dr_id = i, dr_name = Some ''Ann'', dr_phone = Some ''1'', dr_email = None,
     dr_googleSub = None, dr_cityId = Some ''c'', dr_zoneId = None, dr_vehicleType = Some ''BIKE'',
     dr_vehicleNumber = Some ''V1'', dr_isActive = True, dr_status = AVAILABLE, dr_currentLat = None,
     dr_currentLon = None, dr_lastActiveAt = None, dr_lastLocationUpdateAt = None,
     dr_lastStatusUpdateAt = None, dr_registrationStatus = rs, dr_approvedAt = Some 0,
     dr_approvedById = Some ''adm'', dr_rejectionReason = None \<rparr>"

definition sample_driver_db :: driver_db where
  "sample_driver_db = \<lparr> dd_drivers = [sample_driver ''r1'' PENDING_APPROVAL], dd_stats = [],
     dd_outbox = empty_outbox, dd_audit = [], dd_redis = [] \<rparr>"

definition sample_driver_env :: driver_env where
  "sample_driver_env = \<lparr> de_now = 5, de_ms = render_ms, de_new_id = ''new'', de_REGISTERED = ''A_V1'',
     de_PROFILE_COMPLETED = ''B_V1'', de_APPROVAL_REQUESTED = ''C_V1'', de_APPROVED = ''D_V1'', de_REJECTED = ''E_V1'' \<rparr>"

theorem registration_workflow_invariant_witness:
  "\<exists>d. find_driver ''r1'' (dd_drivers (run_registration sample_driver_env (Approve ''r1'' ''adm'') sample_driver_db)) = Some d
     \<and> registration_inv d \<and> dr_registrationStatus d = APPROVED"
proof -
  have rows: "registration_inv d" if "find_driver k (dd_drivers sample_driver_db) = Some d" for k d
    using that by (auto simp: find_driver_def sample_driver_db_def sample_driver_def registration_inv_def profile_complete_def
        split: if_splits)
  obtain d where d: "find_driver ''r1'' (dd_drivers (run_registration sample_driver_env (Approve ''r1'' ''adm'') sample_driver_db)) = Some d"
    "dr_registrationStatus d = APPROVED"
    by (simp add: approveDriver_def emits Let_def find_driver_def save_driver_def save_by_def update_rows_def
        sample_driver_db_def sample_driver_def)
  then show ?thesis
    using registration_workflow_invariant[OF _ d(1)] rows by metis
qed

theorem capability_iff_witness:
  "fst (checkDeliveryAcceptanceCapability (\<lambda>_. Some 2) [sample_driver ''r1'' APPROVED] ''r1'') = None
   \<and> fst (checkDeliveryAcceptanceCapability (\<lambda>_. Some 3) [sample_driver ''r1'' APPROVED] ''r1'') \<noteq> None"
  using capability_iff[of "\<lambda>_. Some 2" "[sample_driver ''r1'' APPROVED]" "''r1''"]
    capability_iff[of "\<lambda>_. Some 3" "[sample_driver ''r1'' APPROVED]" "''r1''"]
  by (simp add: find_driver_def sample_driver_def)

end
