(* ===== verification/Offers.thy ===== *)
theory Offers
  imports Deliveries Drivers
begin

text \<open>
  \<^verbatim>\<open>offers/offers.service.ts\<close> and \<^verbatim>\<open>deliveries/delivery-state-machine.service.ts\<close>: the
  offers of a delivery to drivers, and the two ways an offer is accepted. The
  database of the deliveries is extended with offers, drivers and assignments;
  the commands for the shared store and the socket are a log.
\<close>

section \<open>State\<close>

datatype offer_status = Of_PENDING | Of_ACCEPTED | Of_REJECTED | Of_EXPIRED

record driver_offer =
  of_id :: string
  of_deliveryId :: string
  of_driverId :: string
  of_status :: offer_status
  of_createdAt :: int
  of_expiresAt :: int
  of_acceptedAt :: "int option"
  of_rejectedAt :: "int option"
  of_rejectionReason :: "string option"
  of_driverResponseTimeMs :: "int option"

record assignment =
  as_id :: string
  as_sellerOrderId :: string
  as_driverId :: string

datatype offer_effect =
    Offer_Key string nat string string
  | Delivery_Offers string int string
  | Driver_Offers string string nat
  | Offer_Created_Message string string int

record offers_db = db +
  ob_offers :: "driver_offer list"
  ob_drivers :: "driver list"
  ob_assignments :: "assignment list"
  ob_effects :: "offer_effect list"
  ob_accepted_stats :: "string list"

datatype offer_error =
    Offer_Not_Found string
  | Offer_Conflict string
  | Offer_Bad_Request string
  | Offer_Publish_Failed string

text \<open>What the service reads from outside: the delivery environment, the active
  counters of the capability check, and a generated assignment id.\<close>

record offer_env =
  oe_env :: env
  oe_active :: "string \<Rightarrow> int option"
  oe_assignment_id :: string
  oe_offer_id :: string

definition find_offer :: "string \<Rightarrow> driver_offer list \<Rightarrow> driver_offer option" where
  "find_offer i os = lookup_by of_id i os"

definition save_offer :: "driver_offer \<Rightarrow> driver_offer list \<Rightarrow> driver_offer list" where
  "save_offer f os = save_by of_id f os"

interpretation offer_repo: repository find_offer save_offer of_id
  by unfold_locales (auto simp: find_offer_def save_offer_def lookup_save_by dest: lookup_by_SomeD)

abbreviation now_of :: "offer_env \<Rightarrow> int" where
  "now_of E \<equiv> env_now (oe_env E)"

section \<open>Creating offers\<close>

record create_offer_dto =
  co_driverId :: string
  co_deliveryId :: string
  co_expiresInSeconds :: "nat option"

definition new_offer :: "offer_env \<Rightarrow> create_offer_dto \<Rightarrow> driver_offer" where
  "new_offer E dto = \<lparr> of_id = oe_offer_id E, of_deliveryId = co_deliveryId dto,
     of_driverId = co_driverId dto, of_status = Of_PENDING, of_createdAt = now_of E,
     of_expiresAt = now_of E + int (case co_expiresInSeconds dto of Some n \<Rightarrow> n | None \<Rightarrow> 30) * 1000,
     of_acceptedAt = None, of_rejectedAt = None, of_rejectionReason = None,
     of_driverResponseTimeMs = None \<rparr>"

definition createOfferForDriver ::
    "offer_env \<Rightarrow> create_offer_dto \<Rightarrow> ('x offers_db_scheme, offer_error, driver_offer) action" where
  "createOfferForDriver E dto s =
    (let driverId = co_driverId dto; deliveryId = co_deliveryId dto;
         secs = (case co_expiresInSeconds dto of Some n \<Rightarrow> n | None \<Rightarrow> 30)
     in case find_driver driverId (ob_drivers s) of
       None \<Rightarrow> (s, Inl (Offer_Not_Found driverId))
     | Some drv \<Rightarrow>
         if dr_status drv \<noteq> AVAILABLE then (s, Inl (Offer_Conflict ''driver is not available''))
         else (case fst (checkDeliveryAcceptanceCapability (oe_active E) (ob_drivers s) driverId) of
             Some r \<Rightarrow> (s, Inl (Offer_Conflict r))
           | None \<Rightarrow> (case find_delivery deliveryId (db_deliveries s) of
               None \<Rightarrow> (s, Inl (Offer_Not_Found deliveryId))
             | Some d \<Rightarrow>
                 if dl_status d \<noteq> PENDING then (s, Inl (Offer_Conflict ''delivery is not ready for assignment''))
                 else
                   let f = new_offer E dto
                   in (s\<lparr> ob_offers := ob_offers s @ [f],
                          ob_effects := ob_effects s
                            @ [Offer_Key (of_id f) secs driverId deliveryId,
                               Delivery_Offers deliveryId (now_of E + int secs * 1000) (of_id f),
                               Driver_Offers driverId (of_id f) secs,
                               Offer_Created_Message driverId (of_id f) (of_expiresAt f)] \<rparr>, Inr f))))"

section \<open>Accepting offers\<close>

definition set_driver_busy :: "string \<Rightarrow> driver list \<Rightarrow> driver list" where
  "set_driver_busy i = update_rows (\<lambda>d. dr_id d = i) (\<lambda>d. d\<lparr> dr_status := BUSY \<rparr>)"

definition accepted_offer :: "int \<Rightarrow> driver_offer \<Rightarrow> driver_offer" where
  "accepted_offer acceptedAt f = f\<lparr> of_status := Of_ACCEPTED, of_acceptedAt := Some acceptedAt,
     of_driverResponseTimeMs := Some (acceptedAt - of_createdAt f) \<rparr>"

definition reject_competing :: "string \<Rightarrow> driver_offer list \<Rightarrow> driver_offer list" where
  "reject_competing deliveryId = update_rows (\<lambda>f. of_deliveryId f = deliveryId \<and> of_status f = Of_PENDING)
     (\<lambda>f. f\<lparr> of_status := Of_REJECTED \<rparr>)"

text \<open>\<^verbatim>\<open>OffersService.acceptOffer\<close>\<close>

definition acceptOffer_body ::
    "offer_env \<Rightarrow> string \<Rightarrow> string \<Rightarrow> int \<Rightarrow> ('x offers_db_scheme, offer_error, assignment) action" where
  "acceptOffer_body E offerId driverId acceptedAt s =
    (case find_offer offerId (ob_offers s) of
       None \<Rightarrow> (s, Inl (Offer_Not_Found offerId))
     | Some f \<Rightarrow>
        if of_driverId f \<noteq> driverId then (s, Inl (Offer_Bad_Request ''Invalid driver for this offer''))
        else if of_status f \<noteq> Of_PENDING then (s, Inl (Offer_Bad_Request ''Offer is no longer available''))
        else if of_expiresAt f < now_of E then (s, Inl (Offer_Bad_Request ''Offer has expired''))
        else (case fst (checkDeliveryAcceptanceCapability (oe_active E) (ob_drivers s) driverId) of
            Some r \<Rightarrow> (s, Inl (Offer_Bad_Request r))
          | None \<Rightarrow>
             let s1 = s\<lparr> ob_offers := save_offer (accepted_offer acceptedAt f) (ob_offers s) \<rparr>;
                 s2 = s1\<lparr> ob_offers := reject_competing (of_deliveryId f) (ob_offers s1) \<rparr>
             in case find_delivery (of_deliveryId f) (db_deliveries s2) of
                  None \<Rightarrow> (s2, Inl (Offer_Not_Found (of_deliveryId f)))
                | Some d0 \<Rightarrow>
                    let d = assigned_entity (oe_env E) driverId d0;
                        s3 = write_back (oe_env E) d0 d s2;
                        a = \<lparr> as_id = oe_assignment_id E, as_sellerOrderId = dl_sellerOrderId d, as_driverId = driverId \<rparr>;
                        s4 = s3\<lparr> ob_assignments := ob_assignments s3 @ [a],
                                 ob_drivers := set_driver_busy driverId (ob_drivers s3) \<rparr>
                    in case publish_in (oe_env E) (ws_DELIVERY_ASSIGNED (env_ws (oe_env E)))
                              (assigned_payload (oe_env E) d driverId (as_id a)) s4 of
                         (s5, Inl _) \<Rightarrow> (s5, Inl (Offer_Publish_Failed offerId))
                       | (s5, Inr _) \<Rightarrow> (s5, Inr a)))"

definition acceptOffer ::
    "offer_env \<Rightarrow> string \<Rightarrow> string \<Rightarrow> int \<Rightarrow> ('x offers_db_scheme, offer_error, assignment) action" where
  "acceptOffer E offerId driverId acceptedAt =
     delivery_transaction (oe_env E) (acceptOffer_body E offerId driverId acceptedAt)"

text \<open>\<^verbatim>\<open>DeliveryStateMachine.acceptOffer\<close>\<close>

definition assertValidAssignment :: "delivery \<Rightarrow> offer_error option" where
  "assertValidAssignment d =
    (if truthy (dl_driverId d) then Some (Offer_Conflict ''DELIVERY_ALREADY_ASSIGNED'')
     else if dl_status d \<noteq> PENDING then Some (Offer_Conflict ''INVALID_DELIVERY_STATE'')
     else None)"

definition expire_competing :: "string \<Rightarrow> string \<Rightarrow> driver_offer list \<Rightarrow> driver_offer list" where
  "expire_competing deliveryId offerId =
     update_rows (\<lambda>f. of_deliveryId f = deliveryId \<and> of_status f = Of_PENDING \<and> of_id f \<noteq> offerId)
       (\<lambda>f. f\<lparr> of_status := Of_EXPIRED \<rparr>)"

definition sm_assigned_entity :: "env \<Rightarrow> string \<Rightarrow> delivery \<Rightarrow> delivery" where
  "sm_assigned_entity E driverId d = d\<lparr> dl_status := ASSIGNED, dl_driverId := Some driverId,
     dl_assignedAt := Some (env_now E) \<rparr>"

definition sm_payload :: "delivery \<Rightarrow> string \<Rightarrow> string \<Rightarrow> json" where
  "sm_payload d driverId assignmentId = JObj [(''deliveryId'', JStr (dl_id d)),
     (''driverId'', JStr driverId), (''assignmentId'', JStr assignmentId)]"

definition sm_acceptOffer_body ::
    "offer_env \<Rightarrow> string \<Rightarrow> string \<Rightarrow> ('x offers_db_scheme, offer_error, assignment) action" where
  "sm_acceptOffer_body E offerId driverId s =
    (case lookup_by (\<lambda>f. (of_id f, of_driverId f)) (offerId, driverId) (ob_offers s) of
       None \<Rightarrow> (s, Inl (Offer_Not_Found ''OFFER_NOT_FOUND''))
     | Some f \<Rightarrow>
        if of_status f \<noteq> Of_PENDING then (s, Inl (Offer_Conflict ''OFFER_ALREADY_USED''))
        else if of_expiresAt f < now_of E then (s, Inl (Offer_Conflict ''OFFER_EXPIRED''))
        else (case find_delivery (of_deliveryId f) (db_deliveries s) of
            None \<Rightarrow> (s, Inl (Offer_Not_Found ''DELIVERY_NOT_FOUND''))
          | Some d0 \<Rightarrow> (case assertValidAssignment d0 of
              Some e \<Rightarrow> (s, Inl e)
            | None \<Rightarrow>
               if of_driverId f \<noteq> driverId then (s, Inl (Offer_Conflict ''OFFER_NOT_FOR_DRIVER''))
               else
                 let f' = f\<lparr> of_status := Of_ACCEPTED, of_acceptedAt := Some (now_of E) \<rparr>;
                     s1 = s\<lparr> ob_offers := save_offer f' (ob_offers s) \<rparr>;
                     d = sm_assigned_entity (oe_env E) driverId d0;
                     s2 = write_back (oe_env E) d0 d s1;
                     a = \<lparr> as_id = oe_assignment_id E, as_sellerOrderId = dl_sellerOrderId d, as_driverId = driverId \<rparr>;
                     s3 = s2\<lparr> ob_assignments := ob_assignments s2 @ [a],
                              ob_drivers := set_driver_busy driverId (ob_drivers s2),
                              ob_offers := expire_competing (dl_id d) (of_id f) (ob_offers s2) \<rparr>
                 in case publish_in (oe_env E) ''DELIVERY_ASSIGNED_V1'' (sm_payload d driverId (as_id a)) s3 of
                      (s4, Inl _) \<Rightarrow> (s4, Inl (Offer_Publish_Failed offerId))
                    | (s4, Inr _) \<Rightarrow> (s4, Inr a))))"

definition sm_acceptOffer ::
    "offer_env \<Rightarrow> string \<Rightarrow> string \<Rightarrow> ('x offers_db_scheme, offer_error, assignment) action" where
  "sm_acceptOffer E offerId driverId = and_then
     (delivery_transaction (oe_env E) (sm_acceptOffer_body E offerId driverId))
     (\<lambda>_ s. s\<lparr> ob_accepted_stats := ob_accepted_stats s @ [driverId] \<rparr>)"

section \<open>Rejecting and expiring offers\<close>

definition triggerNextCandidate ::
    "offer_env \<Rightarrow> string \<Rightarrow> ('x offers_db_scheme, offer_error, unit) action" where
  "triggerNextCandidate E deliveryId s =
    (case find_delivery deliveryId (db_deliveries s) of
       None \<Rightarrow> (s, Inr ())
     | Some d \<Rightarrow>
        if dl_status d \<noteq> PENDING then (s, Inr ())
        else
          let excluded = map of_driverId (filter (\<lambda>f. of_deliveryId f = deliveryId) (ob_offers s));
              candidates = filter (\<lambda>r. dr_status r = AVAILABLE) (ob_drivers s)
          in case find (\<lambda>r. dr_id r \<notin> set excluded) candidates of
               None \<Rightarrow> (s, Inr ())
             | Some r \<Rightarrow>
                 (case createOfferForDriver E \<lparr> co_driverId = dr_id r, co_deliveryId = deliveryId,
                         co_expiresInSeconds = Some 30 \<rparr> s of
                    (s', Inl e) \<Rightarrow> (s', Inl e)
                  | (s', Inr _) \<Rightarrow> (s', Inr ())))"

definition rejectOffer ::
    "offer_env \<Rightarrow> string \<Rightarrow> string \<Rightarrow> string option \<Rightarrow> ('x offers_db_scheme, offer_error, string) action" where
  "rejectOffer E offerId driverId reason s =
    (case find_offer offerId (ob_offers s) of
       None \<Rightarrow> (s, Inl (Offer_Not_Found offerId))
     | Some f \<Rightarrow>
        if of_driverId f \<noteq> driverId then (s, Inl (Offer_Bad_Request ''Invalid driver''))
        else if of_status f \<noteq> Of_PENDING then (s, Inl (Offer_Conflict ''Offer already processed''))
        else
          let f' = f\<lparr> of_status := Of_REJECTED, of_rejectedAt := Some (now_of E),
                      of_rejectionReason := (if truthy reason then reason else of_rejectionReason f) \<rparr>;
              s1 = s\<lparr> ob_offers := save_offer f' (ob_offers s) \<rparr>
          in case triggerNextCandidate E (of_deliveryId f) s1 of
               (s2, Inl e) \<Rightarrow> (s2, Inl e)
             | (s2, Inr _) \<Rightarrow> (s2, Inr (or_default reason ''other'')))"

definition expireOffers :: "int \<Rightarrow> driver_offer list \<Rightarrow> driver_offer list" where
  "expireOffers now = update_rows (\<lambda>f. of_status f = Of_PENDING \<and> of_expiresAt f < now)
     (\<lambda>f. f\<lparr> of_status := Of_EXPIRED \<rparr>)"

section \<open>At most one accepted offer\<close>

text \<open>An accepted offer is the only live offer of its delivery, and the
  delivery is no longer pending.\<close>

definition offers_ok :: "driver_offer list \<Rightarrow> delivery list \<Rightarrow> bool" where
  "offers_ok os ds \<longleftrightarrow> distinct (map of_id os)
    \<and> (\<forall>f \<in> set os. of_status f = Of_ACCEPTED \<longrightarrow>
         (\<forall>g \<in> set os. of_deliveryId g = of_deliveryId f \<and> of_id g \<noteq> of_id f \<longrightarrow>
            of_status g \<noteq> Of_PENDING \<and> of_status g \<noteq> Of_ACCEPTED)
         \<and> (\<forall>d. find_delivery (of_deliveryId f) ds = Some d \<longrightarrow> dl_status d \<noteq> PENDING))"

lemma offers_okD:
  assumes "offers_ok os ds" "f \<in> set os" "of_status f = Of_ACCEPTED"
  shows "g \<in> set os \<Longrightarrow> of_deliveryId g = of_deliveryId f \<Longrightarrow> of_id g \<noteq> of_id f \<Longrightarrow>
      of_status g \<noteq> Of_PENDING \<and> of_status g \<noteq> Of_ACCEPTED"
    and "find_delivery (of_deliveryId f) ds = Some d \<Longrightarrow> dl_status d \<noteq> PENDING"
  using assms unfolding offers_ok_def by metis+

lemma offers_ok_mapI:
  assumes "distinct (map of_id os)"
    and h: "\<And>g. of_id (h g) = of_id g" "\<And>g. of_deliveryId (h g) = of_deliveryId g"
    and m: "\<And>f. f \<in> set os \<Longrightarrow> of_status (h f) = Of_ACCEPTED \<Longrightarrow>
       (\<forall>g \<in> set os. of_deliveryId g = of_deliveryId f \<and> of_id g \<noteq> of_id f \<longrightarrow>
            of_status (h g) \<noteq> Of_PENDING \<and> of_status (h g) \<noteq> Of_ACCEPTED)
       \<and> (\<forall>d. find_delivery (of_deliveryId f) ds = Some d \<longrightarrow> dl_status d \<noteq> PENDING)"
  shows "offers_ok (map h os) ds"
proof -
  have "map of_id (map h os) = map of_id os" using h(1) by simp
  moreover have "(\<forall>g \<in> set (map h os). of_deliveryId g = of_deliveryId f \<and> of_id g \<noteq> of_id f \<longrightarrow>
            of_status g \<noteq> Of_PENDING \<and> of_status g \<noteq> Of_ACCEPTED)
         \<and> (\<forall>d. find_delivery (of_deliveryId f) ds = Some d \<longrightarrow> dl_status d \<noteq> PENDING)"
    if f: "f \<in> set (map h os)" "of_status f = Of_ACCEPTED" for f
  proof -
    obtain f0 where f0: "f0 \<in> set os" "f = h f0" using f(1) by auto
    note m0 = m[OF f0(1)]
    have "of_status g \<noteq> Of_PENDING \<and> of_status g \<noteq> Of_ACCEPTED"
      if g: "g \<in> set (map h os)" "of_deliveryId g = of_deliveryId f" "of_id g \<noteq> of_id f" for g
    proof -
      obtain g0 where "g0 \<in> set os" "g = h g0" using g(1) by auto
      then show ?thesis using m0 f0(2) f(2) g(2,3) h by simp
    qed
    then show ?thesis using m0 f0(2) f(2) h(2) by simp
  qed
  ultimately show ?thesis
    using assms(1) unfolding offers_ok_def by metis
qed

lemma offers_ok_map:
  assumes "offers_ok os ds"
    and "\<And>g. of_id (h g) = of_id g" "\<And>g. of_deliveryId (h g) = of_deliveryId g"
    and "\<And>g. g \<in> set os \<Longrightarrow> of_status (h g) \<in> {Of_PENDING, Of_ACCEPTED} \<Longrightarrow> of_status (h g) = of_status g"
  shows "offers_ok (map h os) ds"
proof -
  have "of_status (h g) \<noteq> Of_PENDING \<and> of_status (h g) \<noteq> Of_ACCEPTED"
    if "f \<in> set os" "of_status (h f) = Of_ACCEPTED" "g \<in> set os" "of_deliveryId g = of_deliveryId f" "of_id g \<noteq> of_id f"
    for f g
  proof -
    have "of_status f = Of_ACCEPTED" using assms(4)[OF that(1)] that(2) by simp
    then have "of_status g \<noteq> Of_PENDING \<and> of_status g \<noteq> Of_ACCEPTED"
      using offers_okD(1)[OF assms(1) that(1) _ that(3-5)] by blast
    then show ?thesis using assms(4)[OF that(3)] by auto
  qed
  moreover have "\<forall>d. find_delivery (of_deliveryId f) ds = Some d \<longrightarrow> dl_status d \<noteq> PENDING"
    if "f \<in> set os" "of_status (h f) = Of_ACCEPTED" for f
  proof -
    have "of_status f = Of_ACCEPTED" using assms(4)[OF that(1)] that(2) by simp
    then show ?thesis using offers_okD(2)[OF assms(1) that(1)] by blast
  qed
  moreover have d: "distinct (map of_id os)" using assms(1) by (simp add: offers_ok_def)
  ultimately have main: "(\<forall>g \<in> set os. of_deliveryId g = of_deliveryId f \<and> of_id g \<noteq> of_id f \<longrightarrow>
            of_status (h g) \<noteq> Of_PENDING \<and> of_status (h g) \<noteq> Of_ACCEPTED)
       \<and> (\<forall>d. find_delivery (of_deliveryId f) ds = Some d \<longrightarrow> dl_status d \<noteq> PENDING)"
    if "f \<in> set os" "of_status (h f) = Of_ACCEPTED" for f
    using that by blast
  show ?thesis
    by (rule offers_ok_mapI[OF d assms(2) assms(3) main])
qed

lemma offers_ok_accept:
  assumes "offers_ok os ds" "f \<in> set os" "of_status f = Of_PENDING"
    and "\<And>g. of_id (h g) = of_id g" "\<And>g. of_deliveryId (h g) = of_deliveryId g"
    and "\<And>g. g \<in> set os \<Longrightarrow> of_id g \<noteq> of_id f \<Longrightarrow> of_status (h g) \<in> {Of_PENDING, Of_ACCEPTED} \<Longrightarrow>
           of_status (h g) = of_status g"
    and "\<And>g. g \<in> set os \<Longrightarrow> of_id g \<noteq> of_id f \<Longrightarrow> of_deliveryId g = of_deliveryId f \<Longrightarrow> of_status (h g) \<noteq> Of_PENDING"
    and "\<And>k. k \<noteq> of_deliveryId f \<Longrightarrow> find_delivery k ds' = find_delivery k ds"
    and "\<And>d. find_delivery (of_deliveryId f) ds' = Some d \<Longrightarrow> dl_status d \<noteq> PENDING"
  shows "offers_ok (map h os) ds'"
proof -
  have d: "distinct (map of_id os)" using assms(1) by (simp add: offers_ok_def)
  have same: "x = f" if "x \<in> set os" "of_id x = of_id f" for x
    using d that assms(2) inj_onD[of of_id "set os" x f] by (simp add: distinct_map)
  have noacc: "of_status g \<noteq> Of_ACCEPTED" if "g \<in> set os" "of_deliveryId g = of_deliveryId f" for g
  proof
    assume a: "of_status g = Of_ACCEPTED"
    have "of_id f \<noteq> of_id g \<Longrightarrow> False"
      using offers_okD(1)[OF assms(1) that(1) a assms(2)] that(2) assms(3) by simp
    then have "of_id f = of_id g" by blast
    then have "f = g" using same that(1) by simp
    then show False using a assms(3) by auto
  qed
  have "(\<forall>g \<in> set os. of_deliveryId g = of_deliveryId e \<and> of_id g \<noteq> of_id e \<longrightarrow>
        of_status (h g) \<noteq> Of_PENDING \<and> of_status (h g) \<noteq> Of_ACCEPTED)
      \<and> (\<forall>d. find_delivery (of_deliveryId e) ds' = Some d \<longrightarrow> dl_status d \<noteq> PENDING)"
    if e: "e \<in> set os" "of_status (h e) = Of_ACCEPTED" for e
  proof (cases "of_deliveryId e = of_deliveryId f")
    case True
    have ef: "of_id e = of_id f"
    proof (rule ccontr)
      assume ne: "of_id e \<noteq> of_id f"
      then have "of_status e = Of_ACCEPTED" using assms(6)[OF e(1) ne] e(2) by simp
      then show False using noacc[OF e(1) True] by simp
    qed
    have "of_status (h g) \<noteq> Of_PENDING \<and> of_status (h g) \<noteq> Of_ACCEPTED"
      if "g \<in> set os" "of_deliveryId g = of_deliveryId e" "of_id g \<noteq> of_id e" for g
      using that True ef assms(6)[of g] assms(7)[of g] noacc[of g] by force
    then show ?thesis using assms(9) True by auto
  next
    case False
    then have ne: "of_id e \<noteq> of_id f" using same e(1) by auto
    then have acc: "of_status e = Of_ACCEPTED" using assms(6)[OF e(1) ne] e(2) by simp
    have "of_status (h g) \<noteq> Of_PENDING \<and> of_status (h g) \<noteq> Of_ACCEPTED"
      if g: "g \<in> set os" "of_deliveryId g = of_deliveryId e" "of_id g \<noteq> of_id e" for g
    proof -
      have "of_status g \<noteq> Of_PENDING \<and> of_status g \<noteq> Of_ACCEPTED"
        using offers_okD(1)[OF assms(1) e(1) acc g] .
      moreover have "of_id g \<noteq> of_id f" using same[OF g(1)] g(2) False by auto
      ultimately show ?thesis using assms(6)[OF g(1)] by auto
    qed
    moreover have "\<forall>d. find_delivery (of_deliveryId e) ds' = Some d \<longrightarrow> dl_status d \<noteq> PENDING"
      using offers_okD(2)[OF assms(1) e(1) acc] assms(8)[OF False] by simp
    ultimately show ?thesis by blast
  qed
  then show ?thesis
    by (rule offers_ok_mapI[OF d assms(4) assms(5)])
qed

lemma offers_ok_add:
  assumes "offers_ok os ds" "of_id f \<notin> of_id ` set os" "of_status f = Of_PENDING"
    and "find_delivery (of_deliveryId f) ds = Some d" "dl_status d = PENDING"
  shows "offers_ok (os @ [f]) ds"
proof -
  have "of_deliveryId g \<noteq> of_deliveryId f" if "g \<in> set os" "of_status g = Of_ACCEPTED" for g
    using offers_okD(2)[OF assms(1) that] assms(4,5) by auto
  then show ?thesis
    using assms unfolding offers_ok_def by auto
qed

lemma save_offer_map:
  assumes "g \<in> set os" "of_id f = of_id g"
  shows "save_offer f os = map (\<lambda>q. if of_id q = of_id f then f else q) os"
  unfolding save_offer_def using assms by (intro save_by_present) auto

lemma publish_in_only_outbox:
  "publish_in E ty p s = (s', r) \<Longrightarrow> \<exists>t. s' = s\<lparr> db_outbox := t \<rparr>"
  by (auto simp: publish_in_def split: prod.splits sum.splits publish_error.splits intro: exI[of _ "db_outbox s"])

lemma find_offerD: "find_offer i os = Some f \<Longrightarrow> f \<in> set os \<and> of_id f = i"
  unfolding find_offer_def by (rule lookup_by_SomeD)

lemma acceptOffer_body_ok:
  assumes "acceptOffer_body E i r t s = (s', Inr a)"
  obtains f d0 where "find_offer i (ob_offers s) = Some f" "of_driverId f = r" "of_status f = Of_PENDING"
    "\<not> of_expiresAt f < now_of E"
    "fst (checkDeliveryAcceptanceCapability (oe_active E) (ob_drivers s) r) = None"
    "find_delivery (of_deliveryId f) (db_deliveries s) = Some d0"
    "ob_offers s' = reject_competing (of_deliveryId f) (save_offer (accepted_offer t f) (ob_offers s))"
    "db_deliveries s' = save_delivery (env_row (oe_env E) d0 (assigned_entity (oe_env E) r d0)) (db_deliveries s)"
    "ob_drivers s' = set_driver_busy r (ob_drivers s)"
    "ob_assignments s' = ob_assignments s @ [a]" "as_driverId a = r" "as_sellerOrderId a = dl_sellerOrderId d0"
proof (cases "find_offer i (ob_offers s)")
  case None
  then show thesis using assms by (simp add: acceptOffer_body_def)
next
  case (Some f)
  have g: "of_driverId f = r" "of_status f = Of_PENDING" "\<not> of_expiresAt f < now_of E"
    "fst (checkDeliveryAcceptanceCapability (oe_active E) (ob_drivers s) r) = None"
    using assms Some by (auto simp: acceptOffer_body_def split: if_splits option.splits)
  show thesis
  proof (cases "find_delivery (of_deliveryId f) (db_deliveries s)")
    case None
    then show thesis using assms Some g by (simp add: acceptOffer_body_def Let_def)
  next
    case d0: (Some d0)
    define d where "d = assigned_entity (oe_env E) r d0"
    define a' where "a' = \<lparr> as_id = oe_assignment_id E, as_sellerOrderId = dl_sellerOrderId d, as_driverId = r \<rparr>"
    define s4 where "s4 = (write_back (oe_env E) d0 d
        (s\<lparr> ob_offers := reject_competing (of_deliveryId f) (save_offer (accepted_offer t f) (ob_offers s)) \<rparr>))
        \<lparr> ob_assignments := ob_assignments s @ [a'], ob_drivers := set_driver_busy r (ob_drivers s) \<rparr>"
    obtain s5 q where p: "publish_in (oe_env E) (ws_DELIVERY_ASSIGNED (env_ws (oe_env E)))
        (assigned_payload (oe_env E) d r (as_id a')) s4 = (s5, q)" by (metis surj_pair)
    have "(case q of Inl _ \<Rightarrow> (s5, Inl (Offer_Publish_Failed i)) | Inr _ \<Rightarrow> (s5, Inr a')) = (s', Inr a)"
      using assms Some g d0 p
      by (simp add: acceptOffer_body_def Let_def d_def a'_def s4_def write_back_def split: sum.splits)
    then have e: "s5 = s'" "a' = a" by (auto split: sum.splits)
    obtain t' where "s' = s4\<lparr> db_outbox := t' \<rparr>" using publish_in_only_outbox[OF p] e by auto
    moreover have "as_driverId a = r" "as_sellerOrderId a = dl_sellerOrderId d0"
      unfolding e(2)[symmetric] by (simp_all add: a'_def d_def)
    ultimately show thesis
      using that[OF Some g d0] e(2) by (simp add: s4_def d_def write_back_def)
  qed
qed

lemma offers_ok_acceptOffer:
  assumes "row_ok (oe_env E)" "offers_ok (ob_offers s) (db_deliveries s)"
    and "acceptOffer_body E i r t s = (s', Inr a)"
  shows "offers_ok (ob_offers s') (db_deliveries s')"
  using assms(3)
proof (rule acceptOffer_body_ok)
  fix f d0
  assume f: "find_offer i (ob_offers s) = Some f" "of_status f = Of_PENDING"
    and d0: "find_delivery (of_deliveryId f) (db_deliveries s) = Some d0"
    and o: "ob_offers s' = reject_competing (of_deliveryId f) (save_offer (accepted_offer t f) (ob_offers s))"
    and ds: "db_deliveries s' = save_delivery (env_row (oe_env E) d0 (assigned_entity (oe_env E) r d0)) (db_deliveries s)"
  have mem: "f \<in> set (ob_offers s)" "of_id f = i" using find_offerD[OF f(1)] by auto
  let ?h = "\<lambda>q. (let q' = (if of_id q = of_id f then accepted_offer t f else q)
      in if of_deliveryId q' = of_deliveryId f \<and> of_status q' = Of_PENDING then q'\<lparr> of_status := Of_REJECTED \<rparr> else q')"
  define h where "h = (\<lambda>q. if of_id q = of_id f
      then accepted_offer t f\<lparr> of_id := of_id q, of_deliveryId := of_deliveryId q \<rparr>
      else if of_deliveryId q = of_deliveryId f \<and> of_status q = Of_PENDING then q\<lparr> of_status := Of_REJECTED \<rparr> else q)"
  have d: "distinct (map of_id (ob_offers s))" using assms(2) by (simp add: offers_ok_def)
  have same: "q = f" if "q \<in> set (ob_offers s)" "of_id q = of_id f" for q
    using d that mem(1) inj_onD[of of_id "set (ob_offers s)" q f] by (simp add: distinct_map)
  have "save_offer (accepted_offer t f) (ob_offers s)
      = map (\<lambda>q. if of_id q = of_id f then accepted_offer t f else q) (ob_offers s)"
    using save_offer_map[OF mem(1), of "accepted_offer t f"] by (simp add: accepted_offer_def)
  then have "ob_offers s' = map ?h (ob_offers s)"
    by (simp add: o reject_competing_def update_rows_def Let_def)
  also have "\<dots> = map h (ob_offers s)"
  proof (rule map_cong[OF refl])
    fix q assume "q \<in> set (ob_offers s)"
    then show "?h q = h q" using same[of q] by (auto simp: h_def accepted_offer_def Let_def)
  qed
  finally have oh: "ob_offers s' = map h (ob_offers s)" .
  have id: "dl_id d0 = of_deliveryId f" using delivery_repo.found_key[OF d0] .
  show ?thesis
    unfolding oh ds
    by (rule offers_ok_accept[OF assms(2) mem(1) f(2)])
      (auto simp: h_def accepted_offer_def delivery_repo.find_save row_okD[OF assms(1)] id split: if_splits)
qed

text \<open>The same for the state machine's acceptance.\<close>

lemma sm_acceptOffer_body_ok:
  assumes "sm_acceptOffer_body E i r s = (s', Inr a)"
  obtains f d0 where "f \<in> set (ob_offers s)" "of_id f = i" "of_driverId f = r" "of_status f = Of_PENDING"
    "find_delivery (of_deliveryId f) (db_deliveries s) = Some d0"
    "dl_status d0 = PENDING" "\<not> truthy (dl_driverId d0)"
    "ob_offers s' = expire_competing (of_deliveryId f) i
       (save_offer (f\<lparr> of_status := Of_ACCEPTED, of_acceptedAt := Some (now_of E) \<rparr>) (ob_offers s))"
    "db_deliveries s' = save_delivery (env_row (oe_env E) d0 (sm_assigned_entity (oe_env E) r d0)) (db_deliveries s)"
proof (cases "lookup_by (\<lambda>f. (of_id f, of_driverId f)) (i, r) (ob_offers s)")
  case None
  then show thesis using assms by (simp add: sm_acceptOffer_body_def)
next
  case (Some f)
  have f: "f \<in> set (ob_offers s)" "of_id f = i" "of_driverId f = r"
    using lookup_by_SomeD[OF Some] by auto
  have g: "of_status f = Of_PENDING" "\<not> of_expiresAt f < now_of E"
    using assms Some by (auto simp: sm_acceptOffer_body_def split: if_splits)
  show thesis
  proof (cases "find_delivery (of_deliveryId f) (db_deliveries s)")
    case None
    then show thesis using assms Some g by (simp add: sm_acceptOffer_body_def)
  next
    case d0: (Some d0)
    have id: "dl_id d0 = of_deliveryId f" using delivery_repo.found_key[OF d0] .
    have v: "assertValidAssignment d0 = None"
      using assms Some g d0 by (auto simp: sm_acceptOffer_body_def split: option.splits)
    define d where "d = sm_assigned_entity (oe_env E) r d0"
    define a' where "a' = \<lparr> as_id = oe_assignment_id E, as_sellerOrderId = dl_sellerOrderId d, as_driverId = r \<rparr>"
    define s3 where "s3 = (write_back (oe_env E) d0 d s)
        \<lparr> ob_assignments := ob_assignments s @ [a'], ob_drivers := set_driver_busy r (ob_drivers s),
          ob_offers := expire_competing (dl_id d) (of_id f)
            (save_offer (f\<lparr> of_status := Of_ACCEPTED, of_acceptedAt := Some (now_of E) \<rparr>) (ob_offers s)) \<rparr>"
    obtain s4 q where p: "publish_in (oe_env E) ''DELIVERY_ASSIGNED_V1'' (sm_payload d r (as_id a')) s3 = (s4, q)"
      by (metis surj_pair)
    have "(case q of Inl _ \<Rightarrow> (s4, Inl (Offer_Publish_Failed i)) | Inr _ \<Rightarrow> (s4, Inr a')) = (s', Inr a)"
      using assms Some g d0 p v f
      by (simp add: sm_acceptOffer_body_def Let_def d_def a'_def s3_def write_back_def split: sum.splits)
    then have e: "s4 = s'" by (auto split: sum.splits)
    obtain t' where "s' = s3\<lparr> db_outbox := t' \<rparr>" using publish_in_only_outbox[OF p] e by auto
    moreover have "dl_id d = of_deliveryId f" by (simp add: d_def sm_assigned_entity_def id)
    ultimately show thesis
      using that[OF f g(1) d0] v f(2)
      by (simp add: s3_def d_def write_back_def assertValidAssignment_def split: if_splits)
  qed
qed

lemma offers_ok_sm_acceptOffer:
  assumes "row_ok (oe_env E)" "offers_ok (ob_offers s) (db_deliveries s)"
    and "sm_acceptOffer_body E i r s = (s', Inr a)"
  shows "offers_ok (ob_offers s') (db_deliveries s')"
  using assms(3)
proof (rule sm_acceptOffer_body_ok)
  fix f d0
  assume mem: "f \<in> set (ob_offers s)" "of_id f = i" and f: "of_status f = Of_PENDING"
    and d0: "find_delivery (of_deliveryId f) (db_deliveries s) = Some d0"
    and o: "ob_offers s' = expire_competing (of_deliveryId f) i
       (save_offer (f\<lparr> of_status := Of_ACCEPTED, of_acceptedAt := Some (now_of E) \<rparr>) (ob_offers s))"
    and ds: "db_deliveries s' = save_delivery (env_row (oe_env E) d0 (sm_assigned_entity (oe_env E) r d0)) (db_deliveries s)"
  let ?f = "f\<lparr> of_status := Of_ACCEPTED, of_acceptedAt := Some (now_of E) \<rparr>"
  let ?h = "\<lambda>q. (let q' = (if of_id q = of_id f then ?f else q)
      in if of_deliveryId q' = of_deliveryId f \<and> of_status q' = Of_PENDING \<and> of_id q' \<noteq> i
         then q'\<lparr> of_status := Of_EXPIRED \<rparr> else q')"
  define h where "h = (\<lambda>q. if of_id q = of_id f then ?f\<lparr> of_id := of_id q, of_deliveryId := of_deliveryId q \<rparr>
      else if of_deliveryId q = of_deliveryId f \<and> of_status q = Of_PENDING then q\<lparr> of_status := Of_EXPIRED \<rparr> else q)"
  have d: "distinct (map of_id (ob_offers s))" using assms(2) by (simp add: offers_ok_def)
  have same: "q = f" if "q \<in> set (ob_offers s)" "of_id q = of_id f" for q
    using d that mem(1) inj_onD[of of_id "set (ob_offers s)" q f] by (simp add: distinct_map)
  have "save_offer ?f (ob_offers s) = map (\<lambda>q. if of_id q = of_id f then ?f else q) (ob_offers s)"
    using save_offer_map[OF mem(1), of ?f] by simp
  then have "ob_offers s' = map ?h (ob_offers s)"
    by (simp add: o expire_competing_def update_rows_def Let_def)
  also have "\<dots> = map h (ob_offers s)"
  proof (rule map_cong[OF refl])
    fix q assume q: "q \<in> set (ob_offers s)"
    show "?h q = h q"
    proof (cases "of_id q = of_id f")
      case True
      then have "q = f" using same q by blast
      then show ?thesis by (simp add: h_def)
    next
      case False
      then show ?thesis using mem(2) by (simp add: h_def)
    qed
  qed
  finally have oh: "ob_offers s' = map h (ob_offers s)" .
  have id: "dl_id d0 = of_deliveryId f" using delivery_repo.found_key[OF d0] .
  have st: "dl_status (sm_assigned_entity E r d) = ASSIGNED" "dl_id (sm_assigned_entity E r d) = dl_id d" for E d
    by (simp_all add: sm_assigned_entity_def)
  show ?thesis
    unfolding oh ds
    by (rule offers_ok_accept[OF assms(2) mem(1) f])
      (auto simp: h_def delivery_repo.find_save row_okD[OF assms(1)] id st split: if_splits)
qed

lemma createOffer_ok:
  assumes "createOfferForDriver E dto s = (s', q)"
  shows "(s' = s \<and> (\<exists>e. q = Inl e)) \<or> (\<exists>d effects. find_delivery (co_deliveryId dto) (db_deliveries s) = Some d \<and> dl_status d = PENDING
    \<and> s' = s\<lparr> ob_offers := ob_offers s @ [new_offer E dto], ob_effects := effects \<rparr> \<and> q = Inr (new_offer E dto))"
  using assms by (auto simp: createOfferForDriver_def Let_def split: option.splits if_splits)

lemma offers_ok_createOffer:
  assumes "offers_ok (ob_offers s) (db_deliveries s)" "oe_offer_id E \<notin> of_id ` set (ob_offers s)"
    and "createOfferForDriver E dto s = (s', q)"
  shows "offers_ok (ob_offers s') (db_deliveries s')"
  using createOffer_ok[OF assms(3)] offers_ok_add[OF assms(1), of "new_offer E dto"] assms(1,2)
  by (auto simp: new_offer_def)

lemma offers_ok_rejectOffer:
  assumes "offers_ok (ob_offers s) (db_deliveries s)" "oe_offer_id E \<notin> of_id ` set (ob_offers s)"
  shows "offers_ok (ob_offers (fst (rejectOffer E i r reason s))) (db_deliveries (fst (rejectOffer E i r reason s)))"
proof (cases "find_offer i (ob_offers s)")
  case (Some f)
  let ?f = "f\<lparr> of_status := Of_REJECTED, of_rejectedAt := Some (now_of E),
      of_rejectionReason := (if truthy reason then reason else of_rejectionReason f) \<rparr>"
  let ?s = "s\<lparr> ob_offers := save_offer ?f (ob_offers s) \<rparr>"
  have mem: "f \<in> set (ob_offers s)" using find_offerD[OF Some] by simp
  define h where "h = (\<lambda>q :: driver_offer. if of_id q = of_id f then q\<lparr> of_status := Of_REJECTED, of_rejectedAt := Some (now_of E),
      of_rejectionReason := (if truthy reason then reason else of_rejectionReason f) \<rparr> else q)"
  have d: "distinct (map of_id (ob_offers s))" using assms(1) by (simp add: offers_ok_def)
  have same: "q = f" if "q \<in> set (ob_offers s)" "of_id q = of_id f" for q
    using d that mem inj_onD[of of_id "set (ob_offers s)" q f] by (simp add: distinct_map)
  have "save_offer ?f (ob_offers s) = map (\<lambda>q. if of_id q = of_id f then ?f else q) (ob_offers s)"
    using save_offer_map[OF mem, of ?f] by simp
  also have "\<dots> = map h (ob_offers s)"
  proof (rule map_cong[OF refl])
    fix q assume q: "q \<in> set (ob_offers s)"
    show "(if of_id q = of_id f then ?f else q) = h q"
    proof (cases "of_id q = of_id f")
      case True
      then have "q = f" using same q by blast
      then show ?thesis by (simp add: h_def)
    qed (simp add: h_def)
  qed
  finally have sh: "save_offer ?f (ob_offers s) = map h (ob_offers s)" .
  then have ok: "offers_ok (ob_offers ?s) (db_deliveries ?s)"
  proof -
    have "offers_ok (map h (ob_offers s)) (db_deliveries s)"
      by (rule offers_ok_map[OF assms(1)]) (auto simp: h_def split: if_splits)
    then show ?thesis by (simp add: sh)
  qed
  have fresh: "oe_offer_id E \<notin> of_id ` set (ob_offers ?s)"
  proof -
    have "map of_id (save_offer ?f (ob_offers s)) = map of_id (ob_offers s)"
      unfolding save_offer_def using keys_save_by[of of_id ?f "ob_offers s"] mem by simp
    then have "of_id ` set (save_offer ?f (ob_offers s)) = of_id ` set (ob_offers s)"
      by (metis set_map)
    then show ?thesis using assms(2) by simp
  qed
  have "fst (rejectOffer E i r reason s) \<in> {s, ?s}
      \<or> (\<exists>dto q. createOfferForDriver E dto ?s = (fst (rejectOffer E i r reason s), q))"
    using Some by (auto simp: rejectOffer_def triggerNextCandidate_def Let_def split: option.splits prod.splits sum.splits)
  then show ?thesis
    using assms(1) ok offers_ok_createOffer[OF ok fresh] by auto
qed (simp add: rejectOffer_def assms(1))

datatype offer_request =
    Create_Offer create_offer_dto
  | Accept_Offer string string int
  | SM_Accept_Offer string string
  | Reject_Offer string string "string option"
  | Expire_Offers int

fun run_offer :: "offer_env \<Rightarrow> offer_request \<Rightarrow> 'x offers_db_scheme \<Rightarrow> 'x offers_db_scheme" where
  "run_offer E (Create_Offer dto) s = fst (createOfferForDriver E dto s)"
| "run_offer E (Accept_Offer i r t) s = fst (acceptOffer E i r t s)"
| "run_offer E (SM_Accept_Offer i r) s = fst (sm_acceptOffer E i r s)"
| "run_offer E (Reject_Offer i r reason) s = fst (rejectOffer E i r reason s)"
| "run_offer E (Expire_Offers now) s = s\<lparr> ob_offers := expireOffers now (ob_offers s) \<rparr>"

lemma transaction_offers:
  assumes "delivery_transaction E body s = (s', r)"
  shows "(db_deliveries s' = db_deliveries s \<and> ob_offers s' = ob_offers s)
    \<or> (\<exists>s1 x. body s = (s1, Inr x) \<and> db_deliveries s' = db_deliveries s1 \<and> ob_offers s' = ob_offers s1)"
  using assms by (auto simp: delivery_transaction_def split: prod.splits sum.splits)

section \<open>Properties\<close>

text \<open>C8: Whatever sequence of offers is made, accepted by either of the two services,
  rejected or expired, every delivery has at most one accepted offer; an
  accepted offer leaves no pending one beside it and its delivery is not pending.\<close>

theorem at_most_one_accepted_offer:
  assumes "row_ok (oe_env E)" "offers_ok (ob_offers s) (db_deliveries s)"
    and "oe_offer_id E \<notin> of_id ` set (ob_offers s)"
  shows "offers_ok (ob_offers (run_offer E req s)) (db_deliveries (run_offer E req s))"
proof (cases req)
  case (Create_Offer dto)
  obtain s' q where "createOfferForDriver E dto s = (s', q)" by (metis surj_pair)
  then show ?thesis using offers_ok_createOffer[OF assms(2,3)] Create_Offer by simp
next
  case (Accept_Offer i r t)
  obtain s' q where a: "acceptOffer E i r t s = (s', q)" by (metis surj_pair)
  have "offers_ok (ob_offers s') (db_deliveries s')"
    using transaction_offers[OF a[unfolded acceptOffer_def]]
      offers_ok_acceptOffer[OF assms(1,2)] assms(2) by metis
  then show ?thesis using a Accept_Offer by simp
next
  case (SM_Accept_Offer i r)
  obtain s1 q where a: "delivery_transaction (oe_env E) (sm_acceptOffer_body E i r) s = (s1, q)" by (metis surj_pair)
  have "offers_ok (ob_offers s1) (db_deliveries s1)"
    using transaction_offers[OF a] offers_ok_sm_acceptOffer[OF assms(1,2)] assms(2) by metis
  then show ?thesis using a SM_Accept_Offer by (simp add: sm_acceptOffer_def and_then_def split: sum.splits)
next
  case (Reject_Offer i r reason)
  then show ?thesis using offers_ok_rejectOffer[OF assms(2,3)] by simp
next
  case (Expire_Offers now)
  have "offers_ok (map (\<lambda>f. if of_status f = Of_PENDING \<and> of_expiresAt f < now then f\<lparr> of_status := Of_EXPIRED \<rparr> else f)
      (ob_offers s)) (db_deliveries s)"
    by (rule offers_ok_map[OF assms(2)]) (auto split: if_splits)
  then show ?thesis using Expire_Offers by (simp add: expireOffers_def update_rows_def)
qed

lemma busy_drivers: "x \<in> set (set_driver_busy r ds) \<Longrightarrow> dr_id x = r \<Longrightarrow> dr_status x = BUSY"
proof -
  assume x: "x \<in> set (set_driver_busy r ds)" and id: "dr_id x = r"
  obtain q where q: "x = (if dr_id q = r then q\<lparr> dr_status := BUSY \<rparr> else q)"
    using x unfolding set_driver_busy_def in_update_rows by blast
  show "dr_status x = BUSY"
    by (cases "dr_id q = r") (use q id in simp_all)
qed

lemma none_pending:
  "g \<in> set (reject_competing i os) \<Longrightarrow> of_deliveryId g = i \<Longrightarrow> of_status g \<noteq> Of_PENDING"
proof -
  assume g: "g \<in> set (reject_competing i os)" and id: "of_deliveryId g = i"
  obtain q where q: "g = (if of_deliveryId q = i \<and> of_status q = Of_PENDING then q\<lparr> of_status := Of_REJECTED \<rparr> else q)"
    using g unfolding reject_competing_def in_update_rows by blast
  show "of_status g \<noteq> Of_PENDING"
    by (cases "of_deliveryId q = i \<and> of_status q = Of_PENDING") (use q id in auto)
qed

text \<open>C9: A successful acceptance binds the delivery to the driver: the offer was the
  driver's own, pending and in time, the driver passed the capability check,
  the delivery becomes ASSIGNED to the driver, one assignment of the order is
  added, the driver becomes BUSY, and no pending offer of the delivery is left.\<close>

theorem acceptOffer_assigns:
  assumes "row_ok (oe_env E)" "acceptOffer E i r t s = (s', Inr a)"
  shows "\<exists>f d. find_offer i (ob_offers s) = Some f \<and> of_driverId f = r \<and> of_status f = Of_PENDING
    \<and> now_of E \<le> of_expiresAt f
    \<and> fst (checkDeliveryAcceptanceCapability (oe_active E) (ob_drivers s) r) = None
    \<and> find_delivery (of_deliveryId f) (db_deliveries s') = Some d
    \<and> dl_status d = ASSIGNED \<and> dl_driverId d = Some r
    \<and> ob_assignments s' = ob_assignments s @ [a] \<and> as_driverId a = r
    \<and> as_sellerOrderId a = dl_sellerOrderId d
    \<and> (\<forall>x \<in> set (ob_drivers s'). dr_id x = r \<longrightarrow> dr_status x = BUSY)
    \<and> (\<forall>g \<in> set (ob_offers s'). of_deliveryId g = of_deliveryId f \<longrightarrow> of_status g \<noteq> Of_PENDING)"
proof -
  obtain s1 where b: "acceptOffer_body E i r t s = (s1, Inr a)"
    and s1: "db_deliveries s' = db_deliveries s1" "ob_offers s' = ob_offers s1" "ob_drivers s' = ob_drivers s1"
      "ob_assignments s' = ob_assignments s1"
    using assms(2) by (auto simp: acceptOffer_def delivery_transaction_def split: prod.splits sum.splits)
  obtain f d0 where f: "find_offer i (ob_offers s) = Some f" "of_driverId f = r" "of_status f = Of_PENDING"
    "\<not> of_expiresAt f < now_of E" "fst (checkDeliveryAcceptanceCapability (oe_active E) (ob_drivers s) r) = None"
    and d0: "find_delivery (of_deliveryId f) (db_deliveries s) = Some d0"
    and o: "ob_offers s1 = reject_competing (of_deliveryId f) (save_offer (accepted_offer t f) (ob_offers s))"
    and ds: "db_deliveries s1 = save_delivery (env_row (oe_env E) d0 (assigned_entity (oe_env E) r d0)) (db_deliveries s)"
    and dr: "ob_drivers s1 = set_driver_busy r (ob_drivers s)"
    and as: "ob_assignments s1 = ob_assignments s @ [a]" "as_driverId a = r" "as_sellerOrderId a = dl_sellerOrderId d0"
    using b by (rule acceptOffer_body_ok)
  let ?d = "env_row (oe_env E) d0 (assigned_entity (oe_env E) r d0)"
  have id: "dl_id d0 = of_deliveryId f" using delivery_repo.found_key[OF d0] .
  have "find_delivery (of_deliveryId f) (db_deliveries s') = Some ?d"
    using s1 ds id row_okD[OF assms(1)] by (simp add: delivery_repo.find_save)
  moreover have "dl_status ?d = ASSIGNED" "dl_driverId ?d = Some r" "dl_sellerOrderId ?d = dl_sellerOrderId d0"
    using row_okD[OF assms(1)] by simp_all
  moreover have "\<forall>x \<in> set (ob_drivers s'). dr_id x = r \<longrightarrow> dr_status x = BUSY"
    using busy_drivers s1(3) dr by metis
  moreover have "\<forall>g \<in> set (ob_offers s'). of_deliveryId g = of_deliveryId f \<longrightarrow> of_status g \<noteq> Of_PENDING"
    using none_pending s1(2) o by metis
  ultimately show ?thesis using f as s1 by (intro exI[of _ f] exI[of _ ?d]) simp
qed

lemma acceptOffer_succeeds:
  assumes "isValidVersionedEventType (ws_DELIVERY_ASSIGNED (env_ws (oe_env E)))"
    and "find_offer i (ob_offers s) = Some f" "of_driverId f = r" "of_status f = Of_PENDING"
    and "now_of E \<le> of_expiresAt f"
    and "fst (checkDeliveryAcceptanceCapability (oe_active E) (ob_drivers s) r) = None"
    and "find_delivery (of_deliveryId f) (db_deliveries s) = Some d"
  shows "\<exists>s1 s' a. acceptOffer_body E i r t s = (s1, Inr a) \<and> acceptOffer E i r t s = (s', Inr a)
    \<and> db_deliveries s' = db_deliveries s1"
proof -
  let ?E = "oe_env E"
  have pub: "\<exists>s3. publish_in ?E (ws_DELIVERY_ASSIGNED (env_ws ?E)) q t = (s3, Inr ())" for q and t :: "'a offers_db_scheme"
    using assms(1) by (auto simp: publish_in_def publish_def Let_def split: option.splits)
  let ?s2 = "s\<lparr> ob_offers := reject_competing (of_deliveryId f) (save_offer (accepted_offer t f) (ob_offers s)) \<rparr>"
  let ?d = "assigned_entity ?E r d"
  let ?a = "\<lparr> as_id = oe_assignment_id E, as_sellerOrderId = dl_sellerOrderId ?d, as_driverId = r \<rparr>"
  let ?s3 = "write_back ?E d ?d ?s2"
  let ?s4 = "?s3\<lparr> ob_assignments := ob_assignments ?s3 @ [?a], ob_drivers := set_driver_busy r (ob_drivers ?s3) \<rparr>"
  obtain s5 where "publish_in ?E (ws_DELIVERY_ASSIGNED (env_ws ?E)) (assigned_payload ?E ?d r (as_id ?a)) ?s4 = (s5, Inr ())"
    using pub by blast
  then have "acceptOffer_body E i r t s = (s5, Inr ?a)"
    using assms(2-7) by (simp add: acceptOffer_body_def Let_def)
  then show ?thesis by (simp add: acceptOffer_def delivery_transaction_def)
qed

lemma lookup_pair:
  "lookup_by of_id i os = Some f \<Longrightarrow> lookup_by (\<lambda>f. (of_id f, of_driverId f)) (i, of_driverId f) os = Some f"
  by (induction os) (auto split: if_splits)

text \<open>The acceptance of the offers service does not look at the delivery's status:
  a pending offer of a delivery that is already DELIVERED (or cancelled, or
  assigned to somebody else) takes it back to ASSIGNED, which the transition
  table forbids; the state machine's acceptance refuses the same offer.\<close>

theorem acceptance_reopens_finished_delivery:
  assumes "row_ok (oe_env E)" "isValidVersionedEventType (ws_DELIVERY_ASSIGNED (env_ws (oe_env E)))"
    and "find_offer i (ob_offers s) = Some f" "of_driverId f = r" "of_status f = Of_PENDING"
    and "now_of E \<le> of_expiresAt f"
    and "fst (checkDeliveryAcceptanceCapability (oe_active E) (ob_drivers s) r) = None"
    and "find_delivery (of_deliveryId f) (db_deliveries s) = Some d" "dl_status d = DELIVERED"
  shows "(\<exists>s' a. acceptOffer E i r t s = (s', Inr a) \<and> status_of (of_deliveryId f) s' = Some ASSIGNED)
    \<and> (\<exists>e. snd (sm_acceptOffer_body E i r s) = Inl e)"
proof
  let ?E = "oe_env E"
  obtain s1 s' a where b: "acceptOffer_body E i r t s = (s1, Inr a)"
    and s': "acceptOffer E i r t s = (s', Inr a)" "db_deliveries s' = db_deliveries s1"
    using acceptOffer_succeeds[OF assms(2-8)] by blast
  obtain f' d0 where "find_offer i (ob_offers s) = Some f'"
    and d0: "find_delivery (of_deliveryId f') (db_deliveries s) = Some d0"
    and ds: "db_deliveries s1 = save_delivery (env_row ?E d0 (assigned_entity ?E r d0)) (db_deliveries s)"
    using b by (rule acceptOffer_body_ok)
  then have "f' = f" using assms(3) by simp
  moreover have "dl_id d0 = of_deliveryId f'" using delivery_repo.found_key[OF d0] .
  ultimately show "\<exists>s' a. acceptOffer E i r t s = (s', Inr a) \<and> status_of (of_deliveryId f) s' = Some ASSIGNED"
    using s' ds row_okD[OF assms(1)] by (auto simp: status_of_def delivery_repo.find_save)
  show "\<exists>e. snd (sm_acceptOffer_body E i r s) = Inl e"
  proof -
    have l: "lookup_by (\<lambda>f. (of_id f, of_driverId f)) (i, r) (ob_offers s) = Some f"
      using lookup_pair[of i "ob_offers s" f] assms(3,4) by (simp add: find_offer_def)
    have "assertValidAssignment d \<noteq> None" using assms(9) by (simp add: assertValidAssignment_def)
    then show ?thesis using l assms(5,6,8) by (auto simp: sm_acceptOffer_body_def)
  qed
qed

text \<open>A delivery accepted through the state machine gets no one-time password, so
  its password verification is refused whatever the driver enters.\<close>

theorem state_machine_acceptance_has_no_otp:
  assumes "row_ok (oe_env E)" "\<And>old new. dl_deliveryOtp new = dl_deliveryOtp old \<Longrightarrow>
      dl_deliveryOtp (env_row (oe_env E) old new) = dl_deliveryOtp old"
    and "\<And>d. d \<in> set (db_deliveries s) \<Longrightarrow> dl_status d = PENDING \<Longrightarrow> dl_deliveryOtp d = None"
    and "sm_acceptOffer_body E i r s = (s', Inr a)"
  shows "\<exists>f. f \<in> set (ob_offers s) \<and> of_id f = i
    \<and> snd (verifyOtp E2 (of_deliveryId f) otp p la lo s') = Inl (Bad_Request ''No OTP active for this delivery'')"
  using assms(4)
proof (rule sm_acceptOffer_body_ok)
  fix f d0
  assume f: "f \<in> set (ob_offers s)" "of_id f = i"
    and d0: "find_delivery (of_deliveryId f) (db_deliveries s) = Some d0" "dl_status d0 = PENDING"
    and ds: "db_deliveries s' = save_delivery (env_row (oe_env E) d0 (sm_assigned_entity (oe_env E) r d0)) (db_deliveries s)"
  let ?d = "env_row (oe_env E) d0 (sm_assigned_entity (oe_env E) r d0)"
  have mem: "d0 \<in> set (db_deliveries s)" "dl_id d0 = of_deliveryId f"
    using lookup_by_SomeD[OF d0(1)[unfolded find_delivery_def]] by auto
  have "dl_deliveryOtp ?d = None"
    using assms(2)[of "sm_assigned_entity (oe_env E) r d0" d0] assms(3)[OF mem(1) d0(2)]
    by (simp add: sm_assigned_entity_def)
  moreover have "dl_status ?d = ASSIGNED" "dl_id ?d = of_deliveryId f"
    using row_okD[OF assms(1)] mem(2) by (simp_all add: sm_assigned_entity_def)
  ultimately have "verifyOtp_body E2 (of_deliveryId f) otp p la lo s' = (s', Inl (Bad_Request ''No OTP active for this delivery''))"
    using ds by (simp add: verifyOtp_body_def delivery_repo.find_save)
  then show ?thesis using f by (auto simp: verifyOtp_def and_then_def delivery_transaction_def)
qed

text \<open>When a driver rejects an offer, the search for the next candidate stops at
  the first available driver that has not been asked: if that driver fails the
  capability check, the request ends with an error and no driver is offered the
  delivery, however many eligible drivers follow.\<close>

theorem incapable_candidate_blocks_the_rest:
  assumes "find_delivery i (db_deliveries s) = Some d" "dl_status d = PENDING"
    and "find (\<lambda>r. dr_id r \<notin> set (map of_driverId (filter (\<lambda>f. of_deliveryId f = i) (ob_offers s))))
           (filter (\<lambda>r. dr_status r = AVAILABLE) (ob_drivers s)) = Some x"
    and "fst (checkDeliveryAcceptanceCapability (oe_active E) (ob_drivers s) (dr_id x)) = Some reason"
  shows "\<exists>e. triggerNextCandidate E i s = (s, Inl e)"
proof -
  have "\<exists>e. createOfferForDriver E \<lparr> co_driverId = dr_id x, co_deliveryId = i, co_expiresInSeconds = Some 30 \<rparr> s = (s, Inl e)"
    using assms(4) by (auto simp: createOfferForDriver_def Let_def split: option.splits)
  then show ?thesis
    using assms(1-3) by (auto simp: triggerNextCandidate_def Let_def)
qed

section \<open>Concrete runs\<close>

definition sample_offer :: driver_offer where
  "sample_offer = \<lparr> of_id = ''f1'', of_deliveryId = ''d1'', of_driverId = ''r1'', of_status = Of_PENDING,
     of_createdAt = 990000, of_expiresAt = 1020000, of_acceptedAt = None, of_rejectedAt = None,
     of_rejectionReason = None, of_driverResponseTimeMs = None \<rparr>"

definition sample_offers_db :: "delivery \<Rightarrow> registration_status \<Rightarrow> offers_db" where
  "sample_offers_db d rs = \<lparr> db_deliveries = [d], db_events = [], db_outbox = empty_outbox,
     db_autonomous = [], db_projections = [], ob_offers = [sample_offer],
     ob_drivers = [sample_driver ''r1'' APPROVED, sample_driver ''r2'' rs, sample_driver ''r3'' APPROVED],
     ob_assignments = [], ob_effects = [], ob_accepted_stats = [] \<rparr>"

definition sample_offer_env :: offer_env where
  "sample_offer_env = \<lparr> oe_env = sample_env, oe_active = (\<lambda>_. Some 0), oe_assignment_id = ''a1'', oe_offer_id = ''f2'' \<rparr>"

definition fresh_delivery :: delivery where
  "fresh_delivery = (sample_delivery PENDING)\<lparr> dl_driverId := None, dl_deliveryOtp := None, dl_assignedAt := None \<rparr>"

lemma sample_offer_facts:
  "row_ok (oe_env sample_offer_env)"
  "isValidVersionedEventType (ws_DELIVERY_ASSIGNED (env_ws (oe_env sample_offer_env)))"
  "find_offer ''f1'' (ob_offers (sample_offers_db d rs)) = Some sample_offer"
  "of_driverId sample_offer = ''r1''" "of_status sample_offer = Of_PENDING" "of_deliveryId sample_offer = ''d1''"
  "now_of sample_offer_env \<le> of_expiresAt sample_offer"
  "fst (checkDeliveryAcceptanceCapability (oe_active sample_offer_env) (ob_drivers (sample_offers_db d rs)) ''r1'') = None"
  using sample_env_row sample_valid_types
  by (simp_all add: sample_offer_env_def sample_offer_def sample_offers_db_def find_offer_def capability_iff
      find_driver_def sample_driver_def) (simp_all add: sample_env_def)

lemma sample_offers_delivery:
  "dl_id d = ''d1'' \<Longrightarrow> find_delivery ''d1'' (db_deliveries (sample_offers_db d rs)) = Some d"
  by (simp add: sample_offers_db_def find_delivery_def)

theorem at_most_one_accepted_offer_witness:
  "offers_ok (ob_offers (run_offer sample_offer_env (Accept_Offer ''f1'' ''r1'' 1000000) (sample_offers_db fresh_delivery APPROVED)))
     (db_deliveries (run_offer sample_offer_env (Accept_Offer ''f1'' ''r1'' 1000000) (sample_offers_db fresh_delivery APPROVED)))"
  by (rule at_most_one_accepted_offer)
    (simp_all add: sample_offer_facts(1), simp_all add: offers_ok_def sample_offers_db_def sample_offer_def sample_offer_env_def)

theorem acceptOffer_assigns_witness:
  "\<exists>s' a. acceptOffer sample_offer_env ''f1'' ''r1'' 1000000 (sample_offers_db fresh_delivery APPROVED) = (s', Inr a)
    \<and> as_driverId a = ''r1''"
proof -
  have "dl_id fresh_delivery = ''d1''" by (simp add: fresh_delivery_def sample_delivery_def)
  then obtain s' a where "acceptOffer sample_offer_env ''f1'' ''r1'' 1000000 (sample_offers_db fresh_delivery APPROVED) = (s', Inr a)"
    using acceptOffer_succeeds[OF sample_offer_facts(2-5,7,8), of fresh_delivery APPROVED fresh_delivery 1000000]
      sample_offers_delivery sample_offer_facts(6) by metis
  then show ?thesis using acceptOffer_assigns[OF sample_offer_facts(1)] by blast
qed

theorem acceptance_reopens_finished_delivery_witness:
  "\<exists>s' a. acceptOffer sample_offer_env ''f1'' ''r1'' 1000000 (sample_offers_db (sample_delivery DELIVERED) APPROVED) = (s', Inr a)
    \<and> status_of ''d1'' s' = Some ASSIGNED"
proof -
  have "dl_id (sample_delivery DELIVERED) = ''d1''" "dl_status (sample_delivery DELIVERED) = DELIVERED"
    by (simp_all add: sample_delivery_def)
  then show ?thesis
    using acceptance_reopens_finished_delivery[OF sample_offer_facts(1-5,7,8), of "sample_delivery DELIVERED" APPROVED
        "sample_delivery DELIVERED" 1000000] sample_offers_delivery sample_offer_facts(6)
    by simp
qed

theorem incapable_candidate_blocks_the_rest_witness:
  "\<exists>e. triggerNextCandidate sample_offer_env ''d1'' (sample_offers_db fresh_delivery PROFILE_INCOMPLETE)
     = (sample_offers_db fresh_delivery PROFILE_INCOMPLETE, Inl e)"
proof -
  let ?s = "sample_offers_db fresh_delivery PROFILE_INCOMPLETE"
  have d: "find_delivery ''d1'' (db_deliveries ?s) = Some fresh_delivery" "dl_status fresh_delivery = PENDING"
    by (simp_all add: sample_offers_db_def find_delivery_def fresh_delivery_def sample_delivery_def)
  have f: "find (\<lambda>r. dr_id r \<notin> set (map of_driverId (filter (\<lambda>f. of_deliveryId f = ''d1'') (ob_offers ?s))))
      (filter (\<lambda>r. dr_status r = AVAILABLE) (ob_drivers ?s)) = Some (sample_driver ''r2'' PROFILE_INCOMPLETE)"
    by (simp add: sample_offers_db_def sample_offer_def sample_driver_def)
  obtain reason where "fst (checkDeliveryAcceptanceCapability (oe_active sample_offer_env) (ob_drivers ?s)
      (dr_id (sample_driver ''r2'' PROFILE_INCOMPLETE))) = Some reason"
    by (simp add: checkDeliveryAcceptanceCapability_def sample_offers_db_def find_driver_def sample_driver_def Let_def
        checkActiveStatus_def checkCurrentStatus_def checkRegistrationStatus_def)
  then show ?thesis using incapable_candidate_blocks_the_rest[OF d f] by blast
qed

theorem state_machine_acceptance_has_no_otp_witness:
  "\<exists>s' a. sm_acceptOffer_body sample_offer_env ''f1'' ''r1'' (sample_offers_db fresh_delivery APPROVED) = (s', Inr a)
    \<and> snd (verifyOtp sample_env ''d1'' ''123456'' None None None s') = Inl (Bad_Request ''No OTP active for this delivery'')"
proof -
  let ?s = "sample_offers_db fresh_delivery APPROVED" and ?E = "oe_env sample_offer_env"
  have pub: "\<exists>s3. publish_in ?E ''DELIVERY_ASSIGNED_V1'' q t = (s3, Inr ())" for q and t :: offers_db
    using sample_valid_types(1) by (auto simp: publish_in_def publish_def Let_def split: option.splits)
  have d: "find_delivery (of_deliveryId sample_offer) (db_deliveries ?s) = Some fresh_delivery"
    by (simp add: sample_offers_db_def find_delivery_def fresh_delivery_def sample_delivery_def sample_offer_def)
  have l: "lookup_by (\<lambda>f. (of_id f, of_driverId f)) (''f1'', ''r1'') (ob_offers ?s) = Some sample_offer"
    by (simp add: sample_offers_db_def sample_offer_def)
  have v: "assertValidAssignment fresh_delivery = None"
    by (simp add: assertValidAssignment_def fresh_delivery_def sample_delivery_def)
  let ?f = "sample_offer\<lparr> of_status := Of_ACCEPTED, of_acceptedAt := Some (now_of sample_offer_env) \<rparr>"
  let ?d = "sm_assigned_entity ?E ''r1'' fresh_delivery"
  let ?a = "\<lparr> as_id = oe_assignment_id sample_offer_env, as_sellerOrderId = dl_sellerOrderId ?d, as_driverId = ''r1'' \<rparr>"
  let ?s1 = "?s\<lparr> ob_offers := save_offer ?f (ob_offers ?s) \<rparr>"
  let ?s2 = "write_back ?E fresh_delivery ?d ?s1"
  let ?s3 = "?s2\<lparr> ob_assignments := ob_assignments ?s2 @ [?a], ob_drivers := set_driver_busy ''r1'' (ob_drivers ?s2),
      ob_offers := expire_competing (dl_id ?d) (of_id sample_offer) (ob_offers ?s2) \<rparr>"
  obtain s4 where "publish_in ?E ''DELIVERY_ASSIGNED_V1'' (sm_payload ?d ''r1'' (as_id ?a)) ?s3 = (s4, Inr ())"
    using pub by blast
  then have b: "sm_acceptOffer_body sample_offer_env ''f1'' ''r1'' ?s = (s4, Inr ?a)"
    using d l v sample_offer_facts(4,5,7) by (simp add: sm_acceptOffer_body_def Let_def)
  have rows: "dl_deliveryOtp d = None" if "d \<in> set (db_deliveries ?s)" for d
    using that by (simp add: sample_offers_db_def fresh_delivery_def)
  obtain f where f: "f \<in> set (ob_offers ?s)"
    "snd (verifyOtp sample_env (of_deliveryId f) ''123456'' None None None s4) = Inl (Bad_Request ''No OTP active for this delivery'')"
    using state_machine_acceptance_has_no_otp[OF sample_offer_facts(1) _ _ b, of sample_env "''123456''" None None None] rows
    by (auto simp: sample_offer_env_def sample_env_def)
  then have "of_deliveryId f = ''d1''" by (simp add: sample_offers_db_def sample_offer_def)
  then show ?thesis using b f(2) by auto
qed

end
