(* ===== verification/Dependency_Order.thy ===== *)
theory Dependency_Order
  imports Prelude "HOL-Library.AList"
begin

text \<open>
  Dependency maps as the schema engine keeps them: a JavaScript \<^verbatim>\<open>Map\<close> from a
  statement to the statements it depends on, held as an association list in
  insertion order, together with what it means for a sequence to respect one.
  Every search of the engine (its topological sort and its two cycle searches)
  is proved correct with the lemmas of this theory.
\<close>

type_synonym dep_map = "(string \<times> string list) list"

text \<open>\<^verbatim>\<open>dependencies.get(node) || []\<close>.\<close>

definition deps_of :: "dep_map \<Rightarrow> string \<Rightarrow> string list" where
  "deps_of g n = (case map_of g n of Some ds \<Rightarrow> ds | None \<Rightarrow> [])"

lemma deps_of_update: "deps_of (AList.update k v g) n = (if n = k then v else deps_of g n)"
  by (simp add: deps_of_def update_conv)

lemma deps_of_no_key: "n \<notin> fst ` set g \<Longrightarrow> deps_of g n = []"
  by (simp add: deps_of_def map_of_eq_None_iff[THEN iffD2])

text \<open>The members of a JavaScript \<^verbatim>\<open>Set\<close> built from a list, in insertion order.\<close>

definition js_set :: "'a list \<Rightarrow> 'a list" where
  "js_set xs = rev (remdups (rev xs))"

lemma set_js_set [simp]: "set (js_set xs) = set xs"
  by (simp add: js_set_def)

lemma distinct_js_set [simp]: "distinct (js_set xs)"
  by (simp add: js_set_def)

section \<open>Sequences that respect a dependency relation\<close>

definition depends :: "('a \<Rightarrow> 'a list) \<Rightarrow> 'a \<Rightarrow> 'a \<Rightarrow> bool" where
  "depends dep n d = (d \<in> set (dep n))"

definition cyclic :: "('a \<Rightarrow> 'a list) \<Rightarrow> 'a \<Rightarrow> bool" where
  "cyclic dep n = (depends dep)\<^sup>+\<^sup>+ n n"

definition deps_first :: "('a \<Rightarrow> 'a list) \<Rightarrow> 'a list \<Rightarrow> bool" where
  "deps_first dep R = (\<forall>i<length R. set (dep (R ! i)) \<subseteq> set (take i R))"

lemma deps_first_Nil [simp]: "deps_first dep []"
  by (simp add: deps_first_def)

lemma deps_first_snoc [simp]:
  "deps_first dep (R @ [n]) = (deps_first dep R \<and> set (dep n) \<subseteq> set R)"
  by (auto simp: deps_first_def less_Suc_eq nth_append)

lemma deps_first_prefix: "deps_first dep (R @ S) \<Longrightarrow> deps_first dep R"
  by (induction S rule: rev_induct) (auto simp: append_assoc[symmetric] simp del: append_assoc)

lemma deps_first_closed:
  "deps_first dep R \<Longrightarrow> n \<in> set R \<Longrightarrow> depends dep n d \<Longrightarrow> d \<in> set R"
  by (induction R rule: rev_induct) (auto simp: depends_def)

lemma deps_first_reaches:
  assumes "(depends dep)\<^sup>+\<^sup>+ n d" "deps_first dep R" "n \<in> set R"
  shows "d \<in> set R"
  using assms by (induction rule: tranclp_induct) (auto intro: deps_first_closed)

lemma deps_first_acyclic: "deps_first dep R \<Longrightarrow> n \<in> set R \<Longrightarrow> \<not> cyclic dep n"
proof (induction R rule: rev_induct)
  case (snoc x R)
  show ?case
  proof (cases "n \<in> set R")
    case False
    then have "n = x" using snoc.prems by simp
    show ?thesis
    proof
      assume "cyclic dep n"
      then obtain d where d: "depends dep n d" "(depends dep)\<^sup>*\<^sup>* d n"
        by (auto simp: cyclic_def dest: tranclpD)
      then have "d \<in> set R"
        using snoc.prems \<open>n = x\<close> by (auto simp: depends_def)
      then have "n \<in> set R"
        using d(2) snoc.prems deps_first_reaches[of dep d n R]
        by (auto dest: rtranclpD)
      then show False using False by simp
    qed
  qed (use snoc in auto)
qed simp

text \<open>The position of a dependency is before that of the statement that needs it.\<close>

definition precedes :: "'a list \<Rightarrow> 'a \<Rightarrow> 'a \<Rightarrow> bool" where
  "precedes R a b = (\<exists>R1 R2. R = R1 @ b # R2 \<and> a \<in> set R1)"

lemma deps_first_precedes:
  "deps_first dep R \<Longrightarrow> b \<in> set R \<Longrightarrow> depends dep b a \<Longrightarrow> precedes R a b"
proof -
  assume R: "deps_first dep R" "b \<in> set R" "depends dep b a"
  obtain i where i: "i < length R" "R ! i = b" using R(2) by (auto simp: in_set_conv_nth)
  then have "a \<in> set (take i R)" using R by (auto simp: deps_first_def depends_def)
  moreover have "R = take i R @ b # drop (Suc i) R" using id_take_nth_drop[OF i(1)] unfolding i(2) .
  ultimately show ?thesis unfolding precedes_def by blast
qed

lemma precedes_nth:
  "precedes R a b \<longleftrightarrow> (\<exists>i j. i < j \<and> j < length R \<and> R ! i = a \<and> R ! j = b)"
proof
  assume "precedes R a b"
  then obtain R1 R2 where "R = R1 @ b # R2" "a \<in> set R1" by (auto simp: precedes_def)
  then obtain i where "i < length R1" "R1 ! i = a" "R = R1 @ b # R2"
    by (auto simp: in_set_conv_nth)
  then show "\<exists>i j. i < j \<and> j < length R \<and> R ! i = a \<and> R ! j = b"
    by (intro exI[of _ i] exI[of _ "length R1"]) (simp add: nth_append)
next
  assume "\<exists>i j. i < j \<and> j < length R \<and> R ! i = a \<and> R ! j = b"
  then obtain i j where ij: "i < j" "j < length R" "R ! i = a" "R ! j = b" by auto
  have "R = take j R @ b # drop (Suc j) R" using id_take_nth_drop[OF ij(2)] unfolding ij(4) .
  moreover have "a \<in> set (take j R)" using ij by (auto simp: in_set_conv_nth intro!: exI[of _ i])
  ultimately show "precedes R a b" unfolding precedes_def by blast
qed

lemma precedes_trans:
  assumes "distinct R" "precedes R a b" "precedes R b c"
  shows "precedes R a c"
proof -
  obtain i j where ij: "i < j" "j < length R" "R ! i = a" "R ! j = b"
    using assms(2) by (auto simp: precedes_nth)
  obtain k l where kl: "k < l" "l < length R" "R ! k = b" "R ! l = c"
    using assms(3) by (auto simp: precedes_nth)
  have "j = k" using assms(1) ij kl by (auto simp: nth_eq_iff_index_eq)
  then have "i < l" using ij(1) kl(1) by simp
  then show ?thesis unfolding precedes_nth using ij(3) kl(2,4) by blast
qed

lemma precedes_irrefl: "distinct R \<Longrightarrow> \<not> precedes R a a"
  by (auto simp: precedes_def)

section \<open>Cycles as lists\<close>

text \<open>A list of nodes in which each depends on the next and the last on the first.\<close>

fun dep_chain :: "('a \<Rightarrow> 'a list) \<Rightarrow> 'a list \<Rightarrow> 'a \<Rightarrow> bool" where
  "dep_chain dep [] n = True"
| "dep_chain dep [x] n = depends dep x n"
| "dep_chain dep (x # y # xs) n = (depends dep x y \<and> dep_chain dep (y # xs) n)"

definition dep_cycle :: "('a \<Rightarrow> 'a list) \<Rightarrow> 'a list \<Rightarrow> bool" where
  "dep_cycle dep c = (c \<noteq> [] \<and> dep_chain dep c (hd c))"

lemma dep_chain_snoc: "dep_chain dep p n \<Longrightarrow> depends dep n d \<Longrightarrow> dep_chain dep (p @ [n]) d"
proof (induction p)
  case (Cons x p)
  then show ?case by (cases p) auto
qed simp

lemma dep_chain_reaches: "dep_chain dep p n \<Longrightarrow> v \<in> set p \<Longrightarrow> (depends dep)\<^sup>+\<^sup>+ v n"
proof (induction dep p n arbitrary: v rule: dep_chain.induct)
  case (3 dep x y xs n)
  then have "(depends dep)\<^sup>+\<^sup>+ y n" "depends dep x y" by auto
  then have "(depends dep)\<^sup>+\<^sup>+ x n" by (rule tranclp_into_tranclp2[rotated])
  then show ?case using 3 by auto
qed auto

lemma dep_chain_dropWhile: "dep_chain dep p n \<Longrightarrow> dep_chain dep (dropWhile Q p) n"
proof (induction p)
  case (Cons x p)
  then show ?case by (cases p) auto
qed simp

lemma dep_cycle_cyclic: "dep_cycle dep c \<Longrightarrow> v \<in> set c \<Longrightarrow> cyclic dep v"
proof -
  assume c: "dep_cycle dep c" "v \<in> set c"
  then have to: "(depends dep)\<^sup>+\<^sup>+ v (hd c)"
    by (auto simp: dep_cycle_def intro: dep_chain_reaches)
  have "(depends dep)\<^sup>*\<^sup>* (hd c) v"
    using c unfolding dep_cycle_def
  proof -
    have "dep_chain dep c m \<Longrightarrow> v \<in> set c \<Longrightarrow> (depends dep)\<^sup>*\<^sup>* (hd c) v" for m
      by (induction dep c m rule: dep_chain.induct) (auto intro: converse_rtranclp_into_rtranclp)
    then show ?thesis using c by (auto simp: dep_cycle_def)
  qed
  then show "cyclic dep v" using to by (auto simp: cyclic_def)
qed

end
