(* ===== verification/Migration_Plan.thy ===== *)
theory Migration_Plan
  imports Dependency_Order
begin

text \<open>
  The migration execution plan of the schema engine
  (\<^verbatim>\<open>src/schema/engine/types.ts\<close>, \<^verbatim>\<open>migration-execution-plan.ts\<close> and the validation
  of \<^verbatim>\<open>schema-planner.ts\<close>): schema operations and phases, the order and the
  dependency map built from the phases, the depth-first search for a cycle,
  and the plan's validation and score. The lemmas prove the search sound and
  complete.
\<close>

section \<open>Operations, phases and plans\<close>

datatype SqlCategory = SAFE | DATA | BREAKING | FIX_CATEGORY

text \<open>\<^verbatim>\<open>estimatedRows\<close> is declared a number, but the classifier writes a text such as
  \<^verbatim>\<open>1M+\<close>. \<^verbatim>\<open>X_LARGE\<close> is not a table size of \<^verbatim>\<open>OperationMetadata\<close> but is one of the
  sizes the planner's batch size switches on.\<close>

datatype table_size = SMALL | MEDIUM_TABLE | LARGE | X_LARGE

record OperationMetadata =
  tableSize :: "table_size option"
  estimatedRows :: "string option"
  estimatedTime :: "string option"
  blocking :: "bool option"
  requiresDowntime :: "bool option"
  batchSize :: "nat option"

record SchemaOperation =
  sql :: string
  category :: SqlCategory
  op_reason :: string
  op_metadata :: "OperationMetadata option"
  op_dependencies :: "string list"
  op_conflicts :: "string list"

datatype phase_name = EXPAND | DATA_PHASE | CONTRACT | FIX

record PhasePlan =
  phase :: phase_name
  phase_operations :: "SchemaOperation list"
  phase_order :: "string list"

datatype severity = LOW | MEDIUM | HIGH | CRITICAL

datatype risk_category = PERFORMANCE | DATA_LOSS | BLOCKING | COMPATIBILITY

record RiskReport =
  risk_operation :: string
  risk_severity :: severity
  risk_category :: risk_category
  risk_description :: string
  mitigation :: "string option"
  requiresApproval :: bool

record MigrationExecutionPlan =
  plan_operations :: "SchemaOperation list"
  plan_phases :: "PhasePlan list"
  executionOrder :: "string list"
  plan_dependencies :: dep_map
  plan_risks :: "RiskReport list"
  breakingChanges :: "string list"
  plan_hash :: string

section \<open>Building a plan from phases\<close>

definition buildExecutionOrder :: "PhasePlan list \<Rightarrow> string list" where
  "buildExecutionOrder phases = concat (map phase_order phases)"

text \<open>\<^verbatim>\<open>dependencies.set(operation.sql, operation.dependencies)\<close> for every operation.\<close>

definition set_own_dependencies :: "SchemaOperation list \<Rightarrow> dep_map \<Rightarrow> dep_map" where
  "set_own_dependencies = for_each (\<lambda>op. AList.update (sql op) (op_dependencies op))"

text \<open>The statements of the previous phase become dependencies of every operation
  of the current one.\<close>

definition link_to_previous :: "PhasePlan \<Rightarrow> PhasePlan \<Rightarrow> dep_map \<Rightarrow> dep_map" where
  "link_to_previous previous current =
    for_each (\<lambda>op g. AList.update (sql op) (deps_of g (sql op) @ phase_order previous) g)
      (phase_operations current)"

fun link_phases :: "PhasePlan list \<Rightarrow> dep_map \<Rightarrow> dep_map" where
  "link_phases (previous # current # rest) g =
    link_phases (current # rest) (link_to_previous previous current g)"
| "link_phases [p] g = g"
| "link_phases [] g = g"

definition buildDependencies :: "PhasePlan list \<Rightarrow> dep_map" where
  "buildDependencies phases =
    link_phases phases (for_each (\<lambda>p. set_own_dependencies (phase_operations p)) phases [])"

text \<open>The digest of the plan (\<^verbatim>\<open>createHash("sha256")\<close> on the JSON of its statements,
  cut to 16 characters) is a parameter: it is a function of the statements and
  orders alone.\<close>

type_synonym hash_fn = "(phase_name \<times> string list \<times> string list) list \<Rightarrow> string list \<Rightarrow> string"

definition calculatePlanHash :: "hash_fn \<Rightarrow> PhasePlan list \<Rightarrow> SchemaOperation list \<Rightarrow> string" where
  "calculatePlanHash sha phases ops =
    sha (map (\<lambda>p. (phase p, map sql (phase_operations p), phase_order p)) phases) (map sql ops)"

definition buildFromPhases ::
  "hash_fn \<Rightarrow> PhasePlan list \<Rightarrow> SchemaOperation list \<Rightarrow> RiskReport list \<Rightarrow> string list
    \<Rightarrow> MigrationExecutionPlan" where
  "buildFromPhases sha phases ops risks breaking = \<lparr>
    plan_operations = ops, plan_phases = phases,
    executionOrder = buildExecutionOrder phases,
    plan_dependencies = buildDependencies phases,
    plan_risks = risks, breakingChanges = breaking,
    plan_hash = calculatePlanHash sha phases ops \<rparr>"

section \<open>The search for a cycle\<close>

lemma unvisited_keys_shrink:
  "finite K \<Longrightarrow> n \<in> K \<Longrightarrow> n \<notin> set p \<Longrightarrow> card (K - set (p @ [n])) < card (K - set p)"
  by (intro psubset_card_mono) auto

text \<open>\<^verbatim>\<open>dfs\<close> of \<^verbatim>\<open>findCycle\<close>: \<^verbatim>\<open>path\<close> is both the path and the recursion stack, which
  hold the same nodes and are undone together when a call returns without a
  cycle; a found cycle (\<^verbatim>\<open>Inl\<close>) ends the search, and \<^verbatim>\<open>visited\<close> is threaded through
  the calls otherwise (\<^verbatim>\<open>Inr\<close>). \<^verbatim>\<open>dfs_deps\<close> is the loop over the dependencies.\<close>

function dfs :: "dep_map \<Rightarrow> string list \<Rightarrow> string \<Rightarrow> string set \<Rightarrow> string list + string set"
  and dfs_deps :: "dep_map \<Rightarrow> string list \<Rightarrow> string list \<Rightarrow> string set \<Rightarrow> string list + string set"
where
  "dfs g path node visited =
    (if node \<in> set path then Inl (dropWhile (\<lambda>x. x \<noteq> node) path)
     else if node \<in> visited then Inr visited
     else dfs_deps g (path @ [node]) (deps_of g node) (insert node visited))"
| "dfs_deps g path [] visited = Inr visited"
| "dfs_deps g path (dep # deps) visited = (case dfs g path dep visited of
      Inl cycle \<Rightarrow> Inl cycle
    | Inr visited' \<Rightarrow> dfs_deps g path deps visited')"
  by pat_completeness auto

text \<open>A node with dependencies is a key of the map that is not on the path, so
  the keys off the path bound the depth of the search.\<close>

termination
proof (relation "measures [
    \<lambda>x. case x of Inl (g, path, node, V) \<Rightarrow> card (fst ` set g - set path)
        | Inr (g, path, deps, V) \<Rightarrow> card (fst ` set g - set path),
    \<lambda>x. case x of Inl _ \<Rightarrow> 1 | Inr (g, path, deps, V) \<Rightarrow> 2 * length deps]")
  fix g :: dep_map and path :: "string list" and node :: string and visited :: "string set"
  assume "node \<notin> set path" "node \<notin> visited"
  then show "(Inr (g, path @ [node], deps_of g node, insert node visited),
      Inl (g, path, node, visited)) \<in> measures [
    \<lambda>x. case x of Inl (g, path, node, V) \<Rightarrow> card (fst ` set g - set path)
        | Inr (g, path, deps, V) \<Rightarrow> card (fst ` set g - set path),
    \<lambda>x. case x of Inl _ \<Rightarrow> 1 | Inr (g, path, deps, V) \<Rightarrow> 2 * length deps]"
  proof (cases "node \<in> fst ` set g")
    case True
    then show ?thesis
      using unvisited_keys_shrink[of "fst ` set g" node path] \<open>node \<notin> set path\<close> by simp
  next
    case False
    then have "fst ` set g - set (path @ [node]) = fst ` set g - set path" by auto
    then show ?thesis using False by (simp add: deps_of_no_key)
  qed
qed simp_all

declare dfs.simps [simp del]

definition findCycle :: "dep_map \<Rightarrow> string list option" where
  "findCycle g = (case dfs_deps g [] (map fst g) {} of
      Inl cycle \<Rightarrow> Some cycle
    | Inr visited \<Rightarrow> None)"

text \<open>What a search reports is a cycle.\<close>

lemma dfs_cycle:
  "dfs g path node V = Inl c \<Longrightarrow> dep_chain (deps_of g) path node \<Longrightarrow> dep_cycle (deps_of g) c"
  "dfs_deps g path deps V = Inl c \<Longrightarrow> (\<And>d. d \<in> set deps \<Longrightarrow> dep_chain (deps_of g) path d)
    \<Longrightarrow> dep_cycle (deps_of g) c"
proof (induction g path node V and g path deps V arbitrary: c and c rule: dfs_dfs_deps.induct)
  case (1 g path node V)
  show ?case
  proof (cases "node \<in> set path")
    case True
    then have c: "c = dropWhile (\<lambda>x. x \<noteq> node) path" using 1(2) by (simp add: dfs.simps)
    then obtain xs where "c = node # xs"
      using True by (metis (mono_tags, lifting) dropWhile_eq_Nil_conv hd_Cons_tl hd_dropWhile)
    then show ?thesis
      using c dep_chain_dropWhile[OF 1(3)] by (metis dep_cycle_def list.distinct(1) list.sel(1))
  next
    case False
    have "dfs_deps g (path @ [node]) (deps_of g node) (insert node V) = Inl c" "node \<notin> V"
      using 1(2) False by (auto simp: dfs.simps[of g path] split: if_splits)
    moreover have "dep_chain (deps_of g) (path @ [node]) d" if "d \<in> set (deps_of g node)" for d
      using dep_chain_snoc[OF 1(3), of d] that by (simp add: depends_def)
    ultimately show ?thesis using 1(1) False by blast
  qed
next
  case (3 g path dep deps V)
  then show ?case by (auto split: sum.splits)
qed simp

text \<open>A search that reports none leaves the finished nodes in an order that
  respects the dependencies.\<close>

definition finished_in_order :: "dep_map \<Rightarrow> string list \<Rightarrow> string set \<Rightarrow> bool" where
  "finished_in_order g path V \<longleftrightarrow>
    set path \<subseteq> V \<and> (\<exists>R. deps_first (deps_of g) R \<and> set R = V - set path)"

lemma finish_node:
  assumes "finished_in_order g (path @ [node]) V" "set (deps_of g node) \<subseteq> V - set (path @ [node])"
    "node \<notin> set path"
  shows "finished_in_order g path V"
proof -
  obtain R where R: "deps_first (deps_of g) R" "set R = V - set (path @ [node])"
    using assms(1) by (auto simp: finished_in_order_def)
  then have "deps_first (deps_of g) (R @ [node])" "set (R @ [node]) = V - set path" "set path \<subseteq> V"
    using assms by (auto simp: finished_in_order_def)
  then show ?thesis unfolding finished_in_order_def by blast
qed

lemma dfs_finished:
  "dfs g path node V = Inr V' \<Longrightarrow> finished_in_order g path V
    \<Longrightarrow> finished_in_order g path V' \<and> V \<subseteq> V' \<and> node \<in> V' - set path"
  "dfs_deps g path deps V = Inr V' \<Longrightarrow> finished_in_order g path V
    \<Longrightarrow> finished_in_order g path V' \<and> V \<subseteq> V' \<and> set deps \<subseteq> V' - set path"
proof (induction g path node V and g path deps V arbitrary: V' and V' rule: dfs_dfs_deps.induct)
  case (1 g path node V)
  have off: "node \<notin> set path" using 1(2) by (auto simp: dfs.simps[of g path] split: if_splits)
  show ?case
  proof (cases "node \<in> V")
    case True
    then show ?thesis using 1(2,3) off by (simp add: dfs.simps[of g path])
  next
    case False
    have "finished_in_order g (path @ [node]) (insert node V)"
      using 1(3) False off by (auto simp: finished_in_order_def)
    moreover have "dfs_deps g (path @ [node]) (deps_of g node) (insert node V) = Inr V'"
      using 1(2) False off by (simp add: dfs.simps[of g path])
    ultimately have "finished_in_order g (path @ [node]) V'" "insert node V \<subseteq> V'"
        "set (deps_of g node) \<subseteq> V' - set (path @ [node])"
      using 1(1) False off by blast+
    then show ?thesis using finish_node off by auto
  qed
next
  case (3 g path dep deps V)
  then obtain V1 where V1: "dfs g path dep V = Inr V1" "dfs_deps g path deps V1 = Inr V'"
    by (auto split: sum.splits)
  then show ?case using 3 by fastforce
qed simp

lemma findCycle_None:
  assumes "findCycle g = None" shows "\<not> cyclic (deps_of g) n"
proof
  assume c: "cyclic (deps_of g) n"
  then obtain d where "depends (deps_of g) n d" by (auto simp: cyclic_def dest: tranclpD)
  then have key: "n \<in> fst ` set g"     by (cases "n \<in> fst ` set g") (auto simp: depends_def deps_of_no_key)
  obtain V where V: "dfs_deps g [] (map fst g) {} = Inr V"
    using assms by (auto simp: findCycle_def split: sum.splits)
  have "finished_in_order g [] {}" by (auto simp: finished_in_order_def intro: exI[of _ "[]"])
  then have "finished_in_order g [] V" "n \<in> V"
    using dfs_finished(2)[OF V] key by auto
  then obtain R where "deps_first (deps_of g) R" "n \<in> set R" by (auto simp: finished_in_order_def)
  then have "\<not> cyclic (deps_of g) n" by (rule deps_first_acyclic)
  then show False using c ..
qed

lemma findCycle_Some: "findCycle g = Some c \<Longrightarrow> dep_cycle (deps_of g) c"
  using dfs_cycle(2)[of g "[]" "map fst g" "{}" c] by (auto simp: findCycle_def split: sum.splits)

lemma findCycle_iff: "findCycle g \<noteq> None \<longleftrightarrow> (\<exists>n. cyclic (deps_of g) n)"
proof
  assume "findCycle g \<noteq> None"
  then obtain c where "dep_cycle (deps_of g) c" using findCycle_Some by auto
  then have "cyclic (deps_of g) (hd c)" by (intro dep_cycle_cyclic) (auto simp: dep_cycle_def)
  then show "\<exists>n. cyclic (deps_of g) n" by blast
qed (use findCycle_None in blast)

section \<open>Scores\<close>

fun severity_penalty :: "severity \<Rightarrow> int" where
  "severity_penalty LOW = 5"
| "severity_penalty MEDIUM = 15"
| "severity_penalty HIGH = 30"
| "severity_penalty CRITICAL = 50"

definition is_large :: "SchemaOperation \<Rightarrow> bool" where
  "is_large op = (case op_metadata op of Some m \<Rightarrow> tableSize m = Some LARGE | None \<Rightarrow> False)"

text \<open>\<^verbatim>\<open>calculatePlanScore\<close> of the builder and of \<^verbatim>\<open>schema-planner.ts\<close>, which read
  the risks, the breaking changes and the operations of their plan.\<close>

definition calculatePlanScore :: "RiskReport list \<Rightarrow> string list \<Rightarrow> SchemaOperation list \<Rightarrow> int" where
  "calculatePlanScore risks breaking ops = (
    let score = 100 - sum_list (map (severity_penalty \<circ> risk_severity) risks);
        score = (if length breaking > 0 then score - int (length breaking) * 25 else score);
        score = score - int (length (filter is_large ops)) * 20
    in max 0 score)"

section \<open>Validation\<close>

datatype plan_error =
    CycleDetected "string list"
  | OrderMismatch
  | CriticalRisks "string list"
  | BreakingCompatibility "string list"
  | MixedPhases "phase_name list"

datatype plan_warning =
    NotInOrder string
  | LargeTables "string list"

record ValidationResult =
  isValid :: bool
  val_errors :: "plan_error list"
  val_warnings :: "plan_warning list"
  val_score :: int

definition validatePlan :: "MigrationExecutionPlan \<Rightarrow> ValidationResult" where
  "validatePlan plan = (
    let cycle_errors = (case findCycle (plan_dependencies plan) of
          Some cycle \<Rightarrow> [CycleDetected cycle] | None \<Rightarrow> []);
        expectedOrder = concat (map phase_order (plan_phases plan));
        order_errors = (if executionOrder plan \<noteq> expectedOrder then [OrderMismatch] else []);
        operationSqls = js_set (map sql (plan_operations plan));
        warnings = map NotInOrder (filter (\<lambda>s. s \<notin> set (executionOrder plan)) operationSqls);
        errors = cycle_errors @ order_errors
    in \<lparr> isValid = (errors = []), val_errors = errors, val_warnings = warnings,
         val_score = calculatePlanScore (plan_risks plan) (breakingChanges plan) (plan_operations plan) \<rparr>)"

definition has_mixed_phase :: "PhasePlan \<Rightarrow> bool" where
  "has_mixed_phase p =
    ((\<exists>op \<in> set (phase_operations p). category op = BREAKING)
      \<and> (\<exists>op \<in> set (phase_operations p). category op \<noteq> BREAKING))"

text \<open>\<^verbatim>\<open>validateMigrationPlan\<close> of \<^verbatim>\<open>schema-planner.ts\<close> hands the validation a plan
  with an empty dependency map.\<close>

definition validateMigrationPlan :: "MigrationExecutionPlan \<Rightarrow> ValidationResult" where
  "validateMigrationPlan plan = (
    let criticalRisks = filter (\<lambda>r. risk_severity r = CRITICAL) (plan_risks plan);
        largeTableOps = filter is_large (plan_operations plan);
        mixed = filter has_mixed_phase (plan_phases plan);
        inner = validatePlan (plan\<lparr> executionOrder := concat (map phase_order (plan_phases plan)),
          plan_dependencies := [], plan_hash := ''placeholder-hash'' \<rparr>);
        errors = (if length criticalRisks > 0 then [CriticalRisks (map risk_operation criticalRisks)] else [])
          @ (if length (breakingChanges plan) > 0 then [BreakingCompatibility (breakingChanges plan)] else [])
          @ (if length mixed > 0 then [MixedPhases (map phase mixed)] else [])
          @ val_errors inner;
        warnings = (if length largeTableOps > 0 then [LargeTables (map sql largeTableOps)] else [])
          @ val_warnings inner
    in \<lparr> isValid = (errors = []), val_errors = errors, val_warnings = warnings,
         val_score = calculatePlanScore (plan_risks plan) (breakingChanges plan) (plan_operations plan) \<rparr>)"

lemma severity_penalty_pos: "0 < severity_penalty s"
  by (cases s) simp_all

lemma plan_score_range: "0 \<le> calculatePlanScore rs bs ops \<and> calculatePlanScore rs bs ops \<le> 100"
proof -
  have "0 \<le> sum_list (map (severity_penalty \<circ> risk_severity) rs)"
    by (intro sum_list_nonneg) (auto simp: less_imp_le[OF severity_penalty_pos])
  then show ?thesis by (simp add: calculatePlanScore_def Let_def)
qed

lemma findCycle_empty: "findCycle [] = None"
  by (simp add: findCycle_def)

lemma isValid_validatePlan:
  "isValid (validatePlan plan) \<longleftrightarrow>
    findCycle (plan_dependencies plan) = None \<and>
    executionOrder plan = concat (map phase_order (plan_phases plan))"
  by (auto simp: validatePlan_def Let_def split: option.splits)

text \<open>A plan built from phases is valid exactly when its dependency map has no
  cycle, and the cycle the validation reports is one: each statement of the list
  depends on the next and the last on the first. The order check never fails for
  a built plan.\<close>

theorem built_plan_valid_iff_acyclic:
  "isValid (validatePlan (buildFromPhases sha phases ops risks breaking))
     = (\<nexists>n. cyclic (deps_of (buildDependencies phases)) n)
   \<and> (CycleDetected c \<in> set (val_errors (validatePlan (buildFromPhases sha phases ops risks breaking)))
     \<longrightarrow> dep_cycle (deps_of (buildDependencies phases)) c)"
proof (intro conjI impI)
  let ?plan = "buildFromPhases sha phases ops risks breaking"
  have "isValid (validatePlan ?plan) = (findCycle (buildDependencies phases) = None)"
    by (simp add: isValid_validatePlan buildFromPhases_def buildExecutionOrder_def)
  then show "isValid (validatePlan ?plan) = (\<nexists>n. cyclic (deps_of (buildDependencies phases)) n)"
    using findCycle_iff[of "buildDependencies phases"] by auto
  assume "CycleDetected c \<in> set (val_errors (validatePlan ?plan))"
  then have "findCycle (buildDependencies phases) = Some c"
    by (auto simp: validatePlan_def buildFromPhases_def Let_def split: option.splits if_splits)
  then show "dep_cycle (deps_of (buildDependencies phases)) c" by (rule findCycle_Some)
qed

text \<open>The same statement in two consecutive phases depends on itself.\<close>

definition simple_op :: "string \<Rightarrow> SqlCategory \<Rightarrow> SchemaOperation" where
  "simple_op s c = \<lparr> sql = s, category = c, op_reason = [], op_metadata = None,
     op_dependencies = [], op_conflicts = [] \<rparr>"

definition simple_phase :: "phase_name \<Rightarrow> SchemaOperation list \<Rightarrow> PhasePlan" where
  "simple_phase n ops = \<lparr> phase = n, phase_operations = ops, phase_order = map sql ops \<rparr>"

lemma built_plan_valid_iff_acyclic_witness:
  "dep_cycle (deps_of (buildDependencies
    [simple_phase EXPAND [simple_op ''a'' SAFE], simple_phase DATA_PHASE [simple_op ''a'' DATA]])) [''a'']"
proof -
  let ?ps = "[simple_phase EXPAND [simple_op ''a'' SAFE], simple_phase DATA_PHASE [simple_op ''a'' DATA]]"
  have g: "buildDependencies ?ps = [(''a'', [''a''])]"
    by (simp add: buildDependencies_def set_own_dependencies_def link_to_previous_def simple_phase_def
        simple_op_def deps_of_def)
  have "findCycle [(''a'', [''a''])] = Some [''a'']"
    by (simp add: findCycle_def dfs.simps deps_of_def)
  then have "CycleDetected [''a''] \<in> set (val_errors (validatePlan (buildFromPhases (\<lambda>_ _. []) ?ps [] [] [])))"
    using g by (simp add: validatePlan_def buildFromPhases_def Let_def)
  then show ?thesis
    using built_plan_valid_iff_acyclic[of "\<lambda>_ _. []" ?ps "[]" "[]" "[]" "[''a'']"] by blast
qed

text \<open>The validation that \<^verbatim>\<open>validateMigrationPlan\<close> runs before a production
  migration never reports a dependency cycle, whatever the plan's phases and
  operations depend on: it checks an empty map, so its verdict is the same for
  every dependency map.\<close>

theorem migration_validation_ignores_cycles:
  "CycleDetected c \<notin> set (val_errors (validateMigrationPlan plan))
   \<and> validateMigrationPlan (plan\<lparr> plan_dependencies := g \<rparr>) = validateMigrationPlan plan"
proof
  have "CycleDetected c \<notin> set (val_errors (validatePlan (plan\<lparr> executionOrder := es,
      plan_dependencies := [], plan_hash := h \<rparr>)))" for es h
    by (auto simp: validatePlan_def Let_def findCycle_empty)
  then show "CycleDetected c \<notin> set (val_errors (validateMigrationPlan plan))"
    by (auto simp: validateMigrationPlan_def Let_def)
  show "validateMigrationPlan (plan\<lparr> plan_dependencies := g \<rparr>) = validateMigrationPlan plan"
    by (simp add: validateMigrationPlan_def Let_def)
qed

end
