(* ===== verification/Js_Regex.thy ===== *)
theory Js_Regex
  imports Prelude
begin

text \<open>
  The regular expressions of the schema engine, matched the way JavaScript
  matches them: a pattern is a sequence of tokens, alternatives are tried from
  left to right, a greedy repetition gives characters back one by one and a lazy
  one takes them one by one, and a search tries the positions of the text from
  the left. Repetition is of single characters, which is all the engine uses.
  Every pattern of the engine has the flag \<^verbatim>\<open>i\<close>, so literals are compared without
  regard to case. Texts are lists of 8-bit characters.
\<close>

section \<open>Characters\<close>

definition upper :: "char \<Rightarrow> char" where
  "upper c = (let n = (of_char c :: nat) in if 97 \<le> n \<and> n \<le> 122 then char_of (n - 32) else c)"

definition lower :: "char \<Rightarrow> char" where
  "lower c = (let n = (of_char c :: nat) in if 65 \<le> n \<and> n \<le> 90 then char_of (n + 32) else c)"

definition toUpperCase :: "string \<Rightarrow> string" where
  "toUpperCase s = map upper s"

definition toLowerCase :: "string \<Rightarrow> string" where
  "toLowerCase s = map lower s"

definition is_space :: "char \<Rightarrow> bool" where
  "is_space c = ((of_char c :: nat) \<in> {9, 10, 11, 12, 13, 32, 160})"

definition is_word :: "char \<Rightarrow> bool" where
  "is_word c = (let n = (of_char c :: nat) in (48 \<le> n \<and> n \<le> 57) \<or> (65 \<le> n \<and> n \<le> 90)
     \<or> (97 \<le> n \<and> n \<le> 122) \<or> n = 95)"

definition is_digit :: "char \<Rightarrow> bool" where
  "is_digit c = (let n = (of_char c :: nat) in 48 \<le> n \<and> n \<le> 57)"

definition is_quote :: "char \<Rightarrow> bool" where
  "is_quote c = ((of_char c :: nat) \<in> {34, 39})"

definition is_dquote :: "char \<Rightarrow> bool" where
  "is_dquote c = ((of_char c :: nat) = 34)"

text \<open>\<^verbatim>\<open>.\<close> stops at a line terminator.\<close>

definition is_newline :: "char \<Rightarrow> bool" where
  "is_newline c = ((of_char c :: nat) \<in> {10, 13})"

definition any_char :: "char \<Rightarrow> bool" where
  "any_char c = (\<not> is_newline c)"

text \<open>The same tests on the bits of a character, for evaluation.\<close>

definition low_letter :: "bool \<Rightarrow> bool \<Rightarrow> bool \<Rightarrow> bool \<Rightarrow> bool \<Rightarrow> bool" where
  "low_letter b0 b1 b2 b3 b4 = ((b0 \<or> b1 \<or> b2 \<or> b3 \<or> b4)
     \<and> \<not> (b4 \<and> b3 \<and> (b2 \<or> (b1 \<and> b0))))"

lemma upper_code [code]:
  "upper (Char b0 b1 b2 b3 b4 b5 b6 b7) =
    (if b6 \<and> b5 \<and> \<not> b7 \<and> low_letter b0 b1 b2 b3 b4 then Char b0 b1 b2 b3 b4 False b6 b7
     else Char b0 b1 b2 b3 b4 b5 b6 b7)"
  by (cases b0; cases b1; cases b2; cases b3; cases b4; cases b5; cases b6; cases b7)
    (simp_all add: upper_def low_letter_def char_of_def bit_iff_odd)

lemma lower_code [code]:
  "lower (Char b0 b1 b2 b3 b4 b5 b6 b7) =
    (if b6 \<and> \<not> b5 \<and> \<not> b7 \<and> low_letter b0 b1 b2 b3 b4 then Char b0 b1 b2 b3 b4 True b6 b7
     else Char b0 b1 b2 b3 b4 b5 b6 b7)"
  by (cases b0; cases b1; cases b2; cases b3; cases b4; cases b5; cases b6; cases b7)
    (simp_all add: lower_def low_letter_def char_of_def bit_iff_odd)

lemma is_space_code [code]:
  "is_space (Char b0 b1 b2 b3 b4 b5 b6 b7) =
    (\<not> b6 \<and> \<not> b4 \<and> ((b5 \<and> \<not> b3 \<and> \<not> b2 \<and> \<not> b1 \<and> \<not> b0)
      \<or> (\<not> b7 \<and> \<not> b5 \<and> b3 \<and> ((\<not> b2 \<and> (b0 \<or> b1)) \<or> (b2 \<and> \<not> b1)))))"
  by (cases b0; cases b1; cases b2; cases b3; cases b4; cases b5; cases b6; cases b7)
    (simp_all add: is_space_def)

lemma is_word_code [code]:
  "is_word (Char b0 b1 b2 b3 b4 b5 b6 b7) = (\<not> b7 \<and>
    ((b6 \<and> low_letter b0 b1 b2 b3 b4)
      \<or> (b6 \<and> \<not> b5 \<and> b4 \<and> b3 \<and> b2 \<and> b1 \<and> b0)
      \<or> (\<not> b6 \<and> b5 \<and> b4 \<and> (\<not> b3 \<or> (\<not> b2 \<and> \<not> b1)))))"
  by (cases b0; cases b1; cases b2; cases b3; cases b4; cases b5; cases b6; cases b7)
    (simp_all add: is_word_def low_letter_def)

lemma is_quote_code [code]: "is_quote c = (c = CHR 0x22 \<or> c = CHR 0x27)"
  by (cases c rule: char.exhaust) (auto simp: is_quote_def split: if_splits)

lemma is_dquote_code [code]: "is_dquote c = (c = CHR 0x22)"
  by (cases c rule: char.exhaust) (auto simp: is_dquote_def split: if_splits)

lemma is_newline_code [code]: "is_newline c = (c = CHR 0x0A \<or> c = CHR 0x0D)"
  by (cases c rule: char.exhaust) (auto simp: is_newline_def split: if_splits)

section \<open>Patterns\<close>

datatype rx =
    Lit string
  | One "char \<Rightarrow> bool"
  | Many "char \<Rightarrow> bool"
  | ManyLazy "char \<Rightarrow> bool"
  | Alt "rx list list"
  | Open nat
  | Close nat
  | WordBoundary
  | LineStart
  | TextEnd

text \<open>Where a capture group started, and what it captured last.\<close>

type_synonym captures = "(nat \<times> string) list \<times> (nat \<times> string) list"

definition at_boundary :: "char option \<Rightarrow> string \<Rightarrow> bool" where
  "at_boundary prev s =
    ((case prev of Some c \<Rightarrow> is_word c | None \<Rightarrow> False) \<noteq> (case s of c # _ \<Rightarrow> is_word c | [] \<Rightarrow> False))"

definition last_char :: "char option \<Rightarrow> string \<Rightarrow> char option" where
  "last_char prev s = (if s = [] then prev else Some (last s))"

fun lit_matches :: "string \<Rightarrow> string \<Rightarrow> bool" where
  "lit_matches [] s = True"
| "lit_matches (l # ls) [] = False"
| "lit_matches (l # ls) (c # s) = (upper l = upper c \<and> lit_matches ls s)"

text \<open>The size of what is left to match bounds the recursion of the matcher.\<close>

fun weight :: "rx \<Rightarrow> nat" and weights :: "rx list \<Rightarrow> nat" and alt_weights :: "rx list list \<Rightarrow> nat" where
  "weight (Alt alts) = Suc (alt_weights alts)"
| "weight t = 1"
| "weights [] = 0"
| "weights (t # ts) = Suc (weight t + weights ts)"
| "alt_weights [] = 0"
| "alt_weights (a # alts) = Suc (weights a + alt_weights alts)"

lemma weights_append: "weights (a @ b) = weights a + weights b"
  by (induction a) auto

text \<open>Match the tokens at the front of the text, \<^verbatim>\<open>prev\<close> being the character before
  it; the result is the captures and the text left.\<close>

function rx_at :: "rx list \<Rightarrow> char option \<Rightarrow> string \<Rightarrow> captures \<Rightarrow> (captures \<times> string) option"
  and rx_alts :: "rx list list \<Rightarrow> rx list \<Rightarrow> char option \<Rightarrow> string \<Rightarrow> captures \<Rightarrow> (captures \<times> string) option"
where
  "rx_at [] prev s cs = Some (cs, s)"
| "rx_at (Lit l # ts) prev s cs =
    (if lit_matches l s then rx_at ts (last_char prev (take (length l) s)) (drop (length l) s) cs else None)"
| "rx_at (One p # ts) prev [] cs = None"
| "rx_at (One p # ts) prev (c # s) cs = (if p c then rx_at ts (Some c) s cs else None)"
| "rx_at (Many p # ts) prev [] cs = rx_at ts prev [] cs"
| "rx_at (Many p # ts) prev (c # s) cs = (if p c
      then (case rx_at (Many p # ts) (Some c) s cs of
          Some r \<Rightarrow> Some r
        | None \<Rightarrow> rx_at ts prev (c # s) cs)
      else rx_at ts prev (c # s) cs)"
| "rx_at (ManyLazy p # ts) prev [] cs = rx_at ts prev [] cs"
| "rx_at (ManyLazy p # ts) prev (c # s) cs = (case rx_at ts prev (c # s) cs of
      Some r \<Rightarrow> Some r
    | None \<Rightarrow> if p c then rx_at (ManyLazy p # ts) (Some c) s cs else None)"
| "rx_at (Alt alts # ts) prev s cs = rx_alts alts ts prev s cs"
| "rx_at (Open k # ts) prev s cs = rx_at ts prev s ((k, s) # fst cs, snd cs)"
| "rx_at (Close k # ts) prev s cs = rx_at ts prev s
    (fst cs, (k, case map_of (fst cs) k of
        Some start \<Rightarrow> take (length start - length s) start | None \<Rightarrow> []) # snd cs)"
| "rx_at (WordBoundary # ts) prev s cs = (if at_boundary prev s then rx_at ts prev s cs else None)"
| "rx_at (LineStart # ts) prev s cs =
    (if (case prev of None \<Rightarrow> True | Some c \<Rightarrow> is_newline c) then rx_at ts prev s cs else None)"
| "rx_at (TextEnd # ts) prev s cs = (if s = [] then rx_at ts prev s cs else None)"
| "rx_alts [] ts prev s cs = None"
| "rx_alts (a # alts) ts prev s cs = (case rx_at (a @ ts) prev s cs of
      Some r \<Rightarrow> Some r
    | None \<Rightarrow> rx_alts alts ts prev s cs)"
  by pat_completeness auto

termination
  by (relation "measures [
      \<lambda>x. case x of Inl (ts, prev, s, cs) \<Rightarrow> length s | Inr (alts, ts, prev, s, cs) \<Rightarrow> length s,
      \<lambda>x. case x of Inl (ts, prev, s, cs) \<Rightarrow> weights ts
          | Inr (alts, ts, prev, s, cs) \<Rightarrow> alt_weights alts + weights ts]")
    (auto simp: weights_append)

text \<open>A search from the left; \<^verbatim>\<open>rx_exec_all\<close> is the loop on a global pattern's \<^verbatim>\<open>exec\<close>,
  each search starting where the last match ended.\<close>

fun rx_search :: "rx list \<Rightarrow> char option \<Rightarrow> string \<Rightarrow> (captures \<times> string) option" where
  "rx_search ts prev [] = rx_at ts prev [] ([], [])"
| "rx_search ts prev (c # s) = (case rx_at ts prev (c # s) ([], []) of
      Some r \<Rightarrow> Some r
    | None \<Rightarrow> rx_search ts (Some c) s)"

definition rx_test :: "rx list \<Rightarrow> string \<Rightarrow> bool" where
  "rx_test ts s = (rx_search ts None s \<noteq> None)"

definition captured :: "captures \<Rightarrow> nat \<Rightarrow> string" where
  "captured cs k = (case map_of (snd cs) k of Some w \<Rightarrow> w | None \<Rightarrow> [])"

text \<open>\<^verbatim>\<open>sql.match(pattern)\<close>, its groups numbered from 1.\<close>

definition rx_match :: "rx list \<Rightarrow> string \<Rightarrow> captures option" where
  "rx_match ts s = map_option fst (rx_search ts None s)"

text \<open>A match of the engine's global patterns is never empty, so each search
  starts further on; an empty match, after which JavaScript would not advance,
  ends the loop here.\<close>

function rx_exec_all :: "rx list \<Rightarrow> char option \<Rightarrow> string \<Rightarrow> captures list" where
  "rx_exec_all ts prev s = (case rx_search ts prev s of
      None \<Rightarrow> []
    | Some (cs, rest) \<Rightarrow> (if length rest < length s
        then cs # rx_exec_all ts (last_char prev (take (length s - length rest) s)) rest
        else [cs]))"
  by pat_completeness auto
termination
  by (relation "measure (\<lambda>(ts, prev, s). length s)") auto

declare rx_exec_all.simps [simp del]

section \<open>Token groups\<close>

definition spaces :: "rx list" where
  "spaces = [One is_space, Many is_space]"

definition words :: "rx list" where
  "words = [One is_word, Many is_word]"

definition opt_quote :: "rx list" where
  "opt_quote = [Alt [[One is_quote], []]]"

definition grp :: "nat \<Rightarrow> rx list \<Rightarrow> rx list" where
  "grp k ts = Open k # ts @ [Close k]"

text \<open>\<^verbatim>\<open>"([^"]+)"\<close>.\<close>

definition quoted :: "nat \<Rightarrow> rx list" where
  "quoted k = [One is_dquote] @ grp k [One (\<lambda>c. \<not> is_dquote c), Many (\<lambda>c. \<not> is_dquote c)] @ [One is_dquote]"

text \<open>Two keywords with white space between them, with and without word boundaries.\<close>

definition kw2 :: "string \<Rightarrow> string \<Rightarrow> rx list" where
  "kw2 a b = [Lit a] @ spaces @ [Lit b]"

definition bkw :: "string \<Rightarrow> rx list" where
  "bkw a = [WordBoundary, Lit a, WordBoundary]"

definition bkw2 :: "string \<Rightarrow> string \<Rightarrow> rx list" where
  "bkw2 a b = [WordBoundary] @ kw2 a b @ [WordBoundary]"

lemmas rx_groups = spaces_def words_def opt_quote_def grp_def quoted_def kw2_def bkw_def bkw2_def

section \<open>Facts\<close>

text \<open>A pattern that matches at some position of the text is found.\<close>

lemma last_char_simps [simp]:
  "last_char prev [] = prev"
  "last_char prev (c # u) = last_char (Some c) u"
  by (simp_all add: last_char_def)

lemma rx_search_step: "rx_search ts prev s = (case rx_at ts prev s ([], []) of
    Some r \<Rightarrow> Some r | None \<Rightarrow> (case s of [] \<Rightarrow> None | c # s' \<Rightarrow> rx_search ts (Some c) s'))"
  by (cases s) (auto split: option.splits)

lemma rx_search_iff:
  "rx_search ts prev s \<noteq> None \<longleftrightarrow>
    (\<exists>u v. s = u @ v \<and> rx_at ts (last_char prev u) v ([], []) \<noteq> None)"
proof (induction s arbitrary: prev)
  case (Cons c s)
  have "(\<exists>u v. c # s = u @ v \<and> rx_at ts (last_char prev u) v ([], []) \<noteq> None)
      = (rx_at ts prev (c # s) ([], []) \<noteq> None
        \<or> (\<exists>u v. s = u @ v \<and> rx_at ts (last_char (Some c) u) v ([], []) \<noteq> None))"
    (is "?l = ?r")
  proof
    assume ?l
    then obtain u v where uv: "c # s = u @ v" "rx_at ts (last_char prev u) v ([], []) \<noteq> None" by blast
    show ?r
    proof (cases u)
      case Nil
      then show ?thesis using uv by simp
    next
      case (Cons d u')
      then have "s = u' @ v" "rx_at ts (last_char (Some c) u') v ([], []) \<noteq> None" using uv by simp_all
      then show ?thesis by blast
    qed
  next
    assume ?r
    then show ?l
    proof
      assume "rx_at ts prev (c # s) ([], []) \<noteq> None"
      then show ?l by (intro exI[of _ "[]"] exI[of _ "c # s"]) simp
    next
      assume "\<exists>u v. s = u @ v \<and> rx_at ts (last_char (Some c) u) v ([], []) \<noteq> None"
      then obtain u v where "s = u @ v" "rx_at ts (last_char (Some c) u) v ([], []) \<noteq> None" by blast
      then show ?l by (intro exI[of _ "c # u"] exI[of _ v]) simp
    qed
  qed
  then show ?case using Cons[of "Some c"] by (simp split: option.splits)
qed simp

text \<open>The search of a pattern is a test at every position.\<close>

lemma rx_test_iff:
  "rx_test ts s \<longleftrightarrow> (\<exists>u v. s = u @ v \<and> rx_at ts (last_char None u) v ([], []) \<noteq> None)"
  unfolding rx_test_def by (rule rx_search_iff)

text \<open>A pattern that matches finds the first letter of each of its literals.\<close>

lemma rx_needs_literal:
  "rx_at ts prev s cs \<noteq> None \<Longrightarrow> Lit (a # l) \<in> set ts \<Longrightarrow> \<exists>c \<in> set s. upper a = upper c"
  "rx_alts alts ts prev s cs \<noteq> None \<Longrightarrow> Lit (a # l) \<in> set ts \<Longrightarrow> \<exists>c \<in> set s. upper a = upper c"
proof (induction ts prev s cs and alts ts prev s cs rule: rx_at_rx_alts.induct)
  case (2 m ts prev s cs)
  show ?case
  proof (cases "Lit (a # l) \<in> set ts")
    case True
    then have "\<exists>c \<in> set (drop (length m) s). upper a = upper c"
      using 2 by (auto split: if_splits)
    then show ?thesis by (meson in_set_dropD)
  next
    case False
    then have "m = a # l" using 2(3) by simp
    then show ?thesis using 2(2) by (cases s) (auto split: if_splits)
  qed
qed (auto split: if_splits option.splits)

lemma upper_dot: "upper (CHR ''.'') = upper c \<longleftrightarrow> c = CHR ''.''"
  by (cases c; cases "digit0 c"; cases "digit1 c"; cases "digit2 c"; cases "digit3 c"; cases "digit4 c"; cases "digit5 c";
      cases "digit6 c"; cases "digit7 c") (simp_all add: upper_code low_letter_def)

lemma rx_match_needs_dot:
  assumes "Lit ''.'' \<in> set ts" "CHR ''.'' \<notin> set s"
  shows "rx_match ts s = None"
proof (rule ccontr)
  assume "rx_match ts s \<noteq> None"
  then have "rx_search ts None s \<noteq> None" by (simp add: rx_match_def)
  then obtain u v where uv: "s = u @ v" "rx_at ts (last_char None u) v ([], []) \<noteq> None"
    unfolding rx_search_iff by blast
  from rx_needs_literal(1)[OF uv(2) assms(1)] show False
    using assms(2) uv(1) by (auto simp: upper_dot)
qed

end
