(* ===== verification/Sql_Classify.thy ===== *)
theory Sql_Classify
  imports Migration_Plan Js_Regex
begin

text \<open>
  The classification of SQL statements
  (\<^verbatim>\<open>src/schema/engine/classify-operations.ts\<close>): the ordered rules, the category
  and reason of a statement, and the metadata guessed from its text.
\<close>

section \<open>The rules\<close>

record sql_rule =
  rule_pattern :: "rx list"
  rule_category :: SqlCategory
  rule_reason :: string

definition rule :: "rx list \<Rightarrow> SqlCategory \<Rightarrow> string \<Rightarrow> sql_rule" where
  "rule p c r = \<lparr> rule_pattern = p, rule_category = c, rule_reason = r \<rparr>"

text \<open>\<^verbatim>\<open>^\s*\<close> at the start of a line.\<close>

definition line_start :: "rx list" where
  "line_start = [LineStart, Many is_space]"

definition BREAKING_RULES :: "sql_rule list" where
  "BREAKING_RULES = [
    rule (bkw2 ''DROP'' ''TABLE'') BREAKING ''DROP TABLE removes data permanently'',
    rule (bkw2 ''DROP'' ''COLUMN'') BREAKING ''DROP COLUMN removes data permanently'',
    rule (bkw2 ''DROP'' ''TYPE'') BREAKING ''DROP TYPE is destructive'',
    rule (bkw2 ''ALTER'' ''TYPE'') BREAKING ''ALTER TYPE can cause table rewrites'',
    rule (kw2 ''SET'' ''NOT'' @ spaces @ [Lit ''NULL'']) BREAKING
      ''SET NOT NULL enforces constraint (needs data prep first)'',
    rule (bkw2 ''RENAME'' ''COLUMN'') BREAKING ''RENAME COLUMN breaks existing queries'',
    rule (bkw2 ''RENAME'' ''TABLE'') BREAKING ''RENAME TABLE breaks existing queries'',
    rule (bkw2 ''ALTER'' ''COLUMN'' @ [Many any_char, Lit ''TYPE'', WordBoundary]) BREAKING
      ''Changing column type can corrupt data'']"

definition DATA_RULES :: "sql_rule list" where
  "DATA_RULES = [
    rule (line_start @ [Lit ''UPDATE''] @ spaces @ [One is_word]) DATA ''Data update / backfill'',
    rule (line_start @ kw2 ''INSERT'' ''INTO'' @ [WordBoundary]) DATA ''Data insert / backfill'',
    rule (line_start @ kw2 ''DELETE'' ''FROM'' @ [WordBoundary]) DATA ''Data deletion'',
    rule (line_start @ [Lit ''COPY''] @ spaces @ [One is_word]) DATA ''Bulk data copy'']"

definition SAFE_RULES :: "sql_rule list" where
  "SAFE_RULES = [
    rule (bkw2 ''CREATE'' ''TABLE'') SAFE ''New table (additive)'',
    rule (bkw2 ''CREATE'' ''INDEX'') SAFE ''New index (additive)'',
    rule (bkw2 ''CREATE'' ''TYPE'') SAFE ''New enum/type (additive)'',
    rule (bkw2 ''ADD'' ''COLUMN'') SAFE ''New column (must be nullable)'',
    rule (bkw2 ''ADD'' ''CONSTRAINT'') SAFE ''New constraint (check data first)'',
    rule (bkw2 ''CREATE'' ''SEQUENCE'') SAFE ''New sequence (additive)'']"

definition SQL_RULES :: "sql_rule list" where
  "SQL_RULES = BREAKING_RULES @ DATA_RULES @ SAFE_RULES"

fun apply_rules :: "sql_rule list \<Rightarrow> string \<Rightarrow> SqlCategory \<times> string" where
  "apply_rules [] s = (SAFE, ''Unrecognised statement - defaulting to SAFE'')"
| "apply_rules (r # rs) s =
    (if rx_test (rule_pattern r) s then (rule_category r, rule_reason r) else apply_rules rs s)"

definition classifySqlStatement :: "string \<Rightarrow> SqlCategory \<times> string" where
  "classifySqlStatement s = apply_rules SQL_RULES s"

section \<open>Metadata\<close>

definition table_reference :: "rx list" where
  "table_reference =
    [Alt [[Lit ''FROM''], [Lit ''INTO''], [Lit ''UPDATE''], [Lit ''TABLE'']]] @ spaces @ opt_quote @ grp 1 words"

definition table_size_of :: "string \<Rightarrow> table_size" where
  "table_size_of name =
    (if includes_str ''log'' name \<or> includes_str ''audit'' name \<or> includes_str ''event'' name then LARGE
     else if includes_str ''user'' name \<or> includes_str ''order'' name \<or> includes_str ''product'' name then MEDIUM_TABLE
     else SMALL)"

definition is_blocking :: "string \<Rightarrow> bool" where
  "is_blocking s = (rx_test (kw2 ''ALTER'' ''COLUMN'' @ [Many any_char] @ kw2 ''NOT'' ''NULL'') s
    \<or> rx_test (kw2 ''DROP'' ''COLUMN'') s)"

definition extractOperationMetadata :: "string \<Rightarrow> OperationMetadata" where
  "extractOperationMetadata s = (
    let size = map_option (\<lambda>cs. table_size_of (toLowerCase (captured cs 1))) (rx_match table_reference s);
        block = (if is_blocking s then Some True else None)
    in \<lparr> tableSize = size,
      estimatedRows = Some (if size = Some LARGE then ''1M+''
        else if size = Some MEDIUM_TABLE then ''10K-1M'' else ''< 10K''),
      estimatedTime = Some (if size = Some LARGE then ''5-30 minutes''
        else if size = Some MEDIUM_TABLE then ''30 seconds - 5 minutes'' else ''< 30 seconds''),
      blocking = block, requiresDowntime = block, batchSize = None \<rparr>)"

definition classifyOperation :: "string \<Rightarrow> SchemaOperation" where
  "classifyOperation s = (case classifySqlStatement s of (c, r) \<Rightarrow>
    \<lparr> sql = s, category = c, op_reason = r, op_metadata = Some (extractOperationMetadata s),
      op_dependencies = [], op_conflicts = [] \<rparr>)"

definition classifyOperations :: "string list \<Rightarrow> SchemaOperation list" where
  "classifyOperations = map classifyOperation"

section \<open>What the classification promises\<close>

lemma apply_rules_append:
  "apply_rules (rs @ rs') s = (if \<exists>r \<in> set rs. rx_test (rule_pattern r) s then apply_rules rs s
     else apply_rules rs' s)"
  by (induction rs) auto

lemma apply_rules_category:
  "\<exists>r \<in> set rs. rx_test (rule_pattern r) s \<Longrightarrow> \<forall>r \<in> set rs. rule_category r = c
    \<Longrightarrow> fst (apply_rules rs s) = c"
  by (induction rs) auto

lemma BREAKING_RULES_category: "\<forall>r \<in> set BREAKING_RULES. rule_category r = BREAKING"
  by (simp add: BREAKING_RULES_def rule_def)

lemma breaking_rule_wins:
  "r \<in> set BREAKING_RULES \<Longrightarrow> rx_test (rule_pattern r) s \<Longrightarrow> fst (classifySqlStatement s) = BREAKING"
  using apply_rules_category[OF _ BREAKING_RULES_category, of s]
  by (auto simp: classifySqlStatement_def SQL_RULES_def apply_rules_append)

text \<open>A keyword pair in a text, at word boundaries, is found by its pattern.\<close>

definition word_edge_before :: "string \<Rightarrow> bool" where
  "word_edge_before u = (u = [] \<or> \<not> is_word (last u))"

definition word_edge_after :: "string \<Rightarrow> bool" where
  "word_edge_after v = (v = [] \<or> \<not> is_word (hd v))"

lemma lit_matches_self: "lit_matches l (l @ v)"
  by (induction l) simp_all

lemma rx_at_Lit: "rx_at (Lit l # ts) prev (l @ v) cs = rx_at ts (last_char prev l) v cs"
  by (simp add: lit_matches_self)

lemma bkw2_found:
  assumes "word_edge_before u" "word_edge_after v"
    "a \<noteq> []" "is_word (hd a)" "b \<noteq> []" "is_word (hd b)" "is_word (last b)" "\<not> is_space (hd b)"
  shows "rx_test (bkw2 a b) (u @ a @ '' '' @ b @ v)"
proof -
  obtain a0 a' where a: "a = a0 # a'" using assms(3) by (cases a) auto
  obtain b0 b' where b: "b = b0 # b'" using assms(5) by (cases b) auto
  have sp: "is_space (CHR '' '')" by (simp add: is_space_def)
  have edge: "at_boundary (last_char None u) (a @ w)" for w
    using assms(1,4) a by (auto simp: at_boundary_def last_char_def word_edge_before_def)
  have edge2: "at_boundary (last_char p b) v" for p
    using assms(2,5,7) by (cases v) (auto simp: at_boundary_def last_char_def word_edge_after_def)
  have "rx_at (bkw2 a b) (last_char None u) (a @ '' '' @ b @ v) ([], [])
      = rx_at (One is_space # Many is_space # Lit b # [WordBoundary]) (last_char (last_char None u) a)
          ('' '' @ b @ v) ([], [])"
    unfolding rx_groups by (simp add: edge rx_at_Lit del: rx_at.simps(2))
  also have "\<dots> = rx_at (Lit b # [WordBoundary]) (Some (CHR '' '')) (b @ v) ([], [])"
    using sp assms(8) b by (simp del: rx_at.simps(2))
  also have "\<dots> = Some (([], []), v)"
    unfolding rx_at_Lit by (simp add: edge2)
  finally have "rx_at (bkw2 a b) (last_char None u) (a @ '' '' @ b @ v) ([], []) \<noteq> None" by simp
  then show ?thesis unfolding rx_test_iff by blast
qed

text \<open>A statement whose text has \<^verbatim>\<open>DROP TABLE\<close>, \<^verbatim>\<open>DROP COLUMN\<close>, \<^verbatim>\<open>DROP TYPE\<close>,
  \<^verbatim>\<open>ALTER TYPE\<close>, \<^verbatim>\<open>RENAME COLUMN\<close> or \<^verbatim>\<open>RENAME TABLE\<close> as words is classified BREAKING,
  whatever surrounds it: a rule for data or for additive statements never
  outranks it.\<close>

theorem destructive_words_are_breaking:
  assumes "(a, b) \<in> {(''DROP'', ''TABLE''), (''DROP'', ''COLUMN''), (''DROP'', ''TYPE''), (''ALTER'', ''TYPE''),
      (''RENAME'', ''COLUMN''), (''RENAME'', ''TABLE'')}"
    and "word_edge_before u" "word_edge_after v"
  shows "category (classifyOperation (u @ a @ '' '' @ b @ v)) = BREAKING"
proof -
  have "a \<noteq> [] \<and> is_word (hd a) \<and> b \<noteq> [] \<and> is_word (hd b) \<and> is_word (last b) \<and> \<not> is_space (hd b)"
    using assms(1) by (auto simp: is_word_def is_space_def)
  then have "rx_test (bkw2 a b) (u @ a @ '' '' @ b @ v)"
    using assms(2,3) by (intro bkw2_found) auto
  moreover have "bkw2 a b \<in> rule_pattern ` set BREAKING_RULES"
    using assms(1) unfolding BREAKING_RULES_def rule_def by fastforce
  then obtain r where "r \<in> set BREAKING_RULES" "rule_pattern r = bkw2 a b" by fastforce
  ultimately have "fst (classifySqlStatement (u @ a @ '' '' @ b @ v)) = BREAKING"
    using breaking_rule_wins[of r "u @ a @ '' '' @ b @ v"] by simp
  then show ?thesis by (simp add: classifyOperation_def case_prod_unfold)
qed

lemma destructive_words_are_breaking_witness:
  "category (classifyOperation (''UPDATE x; '' @ ''DROP'' @ '' '' @ ''TABLE'' @ '' x'')) = BREAKING"
  by (rule destructive_words_are_breaking) (simp_all add: word_edge_before_def word_edge_after_def is_word_def)

end
