(* ===== verification/Operation_Graph.thy ===== *)
theory Operation_Graph
  imports Migration_Plan Js_Regex
begin

text \<open>
  The dependency graph between schema operations
  (\<^verbatim>\<open>src/schema/engine/operation-graph.ts\<close>): the tables a statement refers to, when
  one operation depends on another, the graph with its roots and leaves, and its
  validation. The lemmas say when two operations always form a cycle.
\<close>

section \<open>Tables of a statement\<close>

definition reference_patterns :: "rx list list" where
  "reference_patterns = map (\<lambda>kw. kw @ spaces @ opt_quote @ grp 1 words @ opt_quote)
    [[Alt [[Lit ''FROM''], [Lit ''INTO''], [Lit ''UPDATE''], [Lit ''TABLE''], [Lit ''JOIN'']]],
     kw2 ''ALTER'' ''TABLE'',
     [Lit ''DROP''] @ spaces @ [Alt [[Lit ''TABLE''], [Lit ''INDEX'']]],
     [Lit ''CREATE''] @ spaces @ [Alt [[Lit ''TABLE''], [Lit ''INDEX'']]]]"

definition extractTableReferences :: "string \<Rightarrow> string list" where
  "extractTableReferences s = js_set (concat (map (\<lambda>p.
      map (\<lambda>cs. toLowerCase (captured cs 1)) (rx_exec_all p None s)) reference_patterns))"

section \<open>Dependencies between operations\<close>

definition isConflictingOperation :: "SchemaOperation \<Rightarrow> SchemaOperation \<Rightarrow> bool" where
  "isConflictingOperation op1 op2 = (
    if (includes_str ''DROP'' (sql op1) \<and> includes_str ''ADD'' (sql op2))
        \<or> (includes_str ''ADD'' (sql op1) \<and> includes_str ''DROP'' (sql op2)) then True
    else if includes_str ''ALTER'' (sql op1) \<and> includes_str ''ALTER'' (sql op2) then True
    else if category op1 = DATA \<and> category op2 = SAFE then True
    else False)"

definition common_tables :: "string list \<Rightarrow> string list \<Rightarrow> string list" where
  "common_tables t1 t2 = filter (\<lambda>t. t \<in> set t2) t1"

definition hasTableConflict ::
  "SchemaOperation \<Rightarrow> SchemaOperation \<Rightarrow> string list \<Rightarrow> string list \<Rightarrow> bool" where
  "hasTableConflict op1 op2 t1 t2 =
    (if length (common_tables t1 t2) = 0 then False
     else list_ex (\<lambda>t. isConflictingOperation op1 op2) (common_tables t1 t2))"

definition hasForeignKeyDependency ::
  "SchemaOperation \<Rightarrow> SchemaOperation \<Rightarrow> string list \<Rightarrow> string list \<Rightarrow> bool" where
  "hasForeignKeyDependency op1 op2 t1 t2 =
    (if category op1 = BREAKING \<and> category op2 = SAFE then list_ex (\<lambda>t. t \<in> set t2) t1 else False)"

definition hasConstraintDependency ::
  "SchemaOperation \<Rightarrow> SchemaOperation \<Rightarrow> string list \<Rightarrow> string list \<Rightarrow> bool" where
  "hasConstraintDependency op1 op2 t1 t2 =
    (if includes_str ''DROP CONSTRAINT'' (sql op1) \<and> includes_str ''ADD CONSTRAINT'' (sql op2)
     then list_ex (\<lambda>t. t \<in> set t2) t1 else False)"

text \<open>One other operation can be pushed up to three times.\<close>

definition dependencies_on :: "SchemaOperation \<Rightarrow> SchemaOperation \<Rightarrow> string list" where
  "dependencies_on op other = (
    if sql other = sql op then []
    else
      let t1 = extractTableReferences (sql op); t2 = extractTableReferences (sql other)
      in (if hasTableConflict op other t1 t2 then [sql other] else [])
       @ (if hasForeignKeyDependency op other t1 t2 then [sql other] else [])
       @ (if hasConstraintDependency op other t1 t2 then [sql other] else []))"

definition findDependencies :: "SchemaOperation \<Rightarrow> SchemaOperation list \<Rightarrow> string list" where
  "findDependencies op all = concat (map (dependencies_on op) all)"

section \<open>The graph\<close>

record OperationGraph =
  nodes :: "(string \<times> SchemaOperation) list"
  edges :: dep_map
  roots :: "string list"
  leaves :: "string list"

definition graph_nodes :: "PhasePlan list \<Rightarrow> (string \<times> SchemaOperation) list" where
  "graph_nodes phases = for_each (\<lambda>op. AList.update (sql op) op) (concat (map phase_operations phases)) []"

definition graph_edges :: "SchemaOperation list \<Rightarrow> dep_map" where
  "graph_edges all = for_each (\<lambda>op. AList.update (sql op) (findDependencies op all)) all
     (map (\<lambda>op. (sql op, [])) all)"

definition identifyRoots :: "(string \<times> SchemaOperation) list \<Rightarrow> dep_map \<Rightarrow> string list" where
  "identifyRoots ns es = (let nodesWithDependencies = concat (map snd es)
    in filter (\<lambda>n. n \<notin> set nodesWithDependencies) (map fst ns))"

definition identifyLeaves :: "dep_map \<Rightarrow> string list" where
  "identifyLeaves es = map fst (filter (\<lambda>(n, ds). length ds = 0) es)"

definition buildOperationGraph :: "PhasePlan list \<Rightarrow> OperationGraph" where
  "buildOperationGraph phases = (
    let ns = graph_nodes phases;
        allOperations = map snd ns;
        es = graph_edges allOperations
    in \<lparr> nodes = ns, edges = es, roots = identifyRoots ns es, leaves = identifyLeaves es \<rparr>)"

definition countEdges :: "OperationGraph \<Rightarrow> nat" where
  "countEdges g = sum_list (map (length \<circ> snd) (edges g))"

text \<open>\<^verbatim>\<open>validateGraph\<close> searches with the same depth-first search as the plan's
  \<^verbatim>\<open>findCycle\<close>, from every node not yet visited.\<close>

fun graph_dfs_all :: "dep_map \<Rightarrow> string list \<Rightarrow> string set \<Rightarrow> string list + string set" where
  "graph_dfs_all es [] visited = Inr visited"
| "graph_dfs_all es (n # ns) visited =
    (if n \<notin> visited then (case dfs es [] n visited of
        Inl cycle \<Rightarrow> Inl cycle
      | Inr visited' \<Rightarrow> graph_dfs_all es ns visited')
     else graph_dfs_all es ns visited)"

definition validateGraph :: "OperationGraph \<Rightarrow> bool \<times> string list list" where
  "validateGraph g = (case graph_dfs_all (edges g) (map fst (nodes g)) {} of
      Inl cycle \<Rightarrow> (False, [cycle])
    | Inr _ \<Rightarrow> (True, []))"

section \<open>Facts\<close>

lemma graph_dfs_all_eq: "graph_dfs_all es ns V = dfs_deps es [] ns V"
  by (induction ns arbitrary: V) (auto simp: dfs.simps split: sum.splits)

lemma find_append: "find P (xs @ ys) = (case find P xs of Some x \<Rightarrow> Some x | None \<Rightarrow> find P ys)"
  by (induction xs) auto

lemma for_each_update_lookup:
  "map_of (for_each (\<lambda>op. AList.update (k op) (f op)) ops al) n
    = (case find (\<lambda>op. k op = n) (rev ops) of Some op \<Rightarrow> Some (f op) | None \<Rightarrow> map_of al n)"
  by (induction ops arbitrary: al) (auto simp: find_append update_conv split: option.splits)

lemma graph_nodes_ok:
  "distinct (map fst (graph_nodes phases))
   \<and> (\<forall>(k, op) \<in> set (graph_nodes phases). k = sql op)
   \<and> set (map fst (graph_nodes phases)) = sql ` set (concat (map phase_operations phases))"
proof -
  let ?ops = "concat (map phase_operations phases)"
  let ?f = "\<lambda>op al. AList.update (sql op) op al"
  have "distinct (map fst (for_each ?f ops al)) \<and> (\<forall>(k, op) \<in> set (for_each ?f ops al). k = sql op)
      \<and> set (map fst (for_each ?f ops al)) = sql ` set ops \<union> fst ` set al"
    if "distinct (map fst al)" "\<forall>(k, op) \<in> set al. k = sql op"
    for ops and al :: "(string \<times> SchemaOperation) list"
    using that
  proof (induction ops arbitrary: al)
    case (Cons op ops)
    have sub: "set (AList.update (sql op) op al) \<subseteq> insert (sql op, op) (set al)"
      by (induction al) auto
    have "\<forall>(k, op) \<in> set (AList.update (sql op) op al). k = sql op"
      using Cons.prems(2) sub by fastforce
    then show ?case
      using Cons.IH[of "AList.update (sql op) op al"] Cons.prems by (auto simp: distinct_update dom_update)
  qed auto
  from this[of "[]" ?ops] show ?thesis by (simp add: graph_nodes_def)
qed

lemma graph_edges_of:
  assumes "distinct (map sql all)" "op \<in> set all"
  shows "deps_of (graph_edges all) (sql op) = findDependencies op all"
proof -
  have "find (\<lambda>x. sql x = sql op) (rev all) = Some op"
    using assms lookup_by_distinct[of sql "rev all" op] by (simp add: lookup_by_def rev_map[symmetric])
  then show ?thesis by (simp add: graph_edges_def deps_of_def for_each_update_lookup)
qed

text \<open>Validation of a graph whose edges start at its nodes.\<close>

lemma validateGraph_dfs:
  assumes "set (map fst (nodes g)) = fst ` set (edges g)"
  shows "fst (validateGraph g) = (\<nexists>n. cyclic (deps_of (edges g)) n)"
    and "c \<in> set (snd (validateGraph g)) \<Longrightarrow> dep_cycle (deps_of (edges g)) c"
proof -
  show cyc: "dep_cycle (deps_of (edges g)) c" if "c \<in> set (snd (validateGraph g))" for c
    using that dfs_cycle(2)[of "edges g" "[]" "map fst (nodes g)" "{}" c]
    by (auto simp: validateGraph_def graph_dfs_all_eq split: sum.splits)
  show "fst (validateGraph g) = (\<nexists>n. cyclic (deps_of (edges g)) n)"
  proof (cases "dfs_deps (edges g) [] (map fst (nodes g)) {}")
    case (Inl c)
    then have v: "validateGraph g = (False, [c])" by (simp add: validateGraph_def graph_dfs_all_eq)
    then have "dep_cycle (deps_of (edges g)) c" using cyc by simp
    then have "cyclic (deps_of (edges g)) (hd c)" by (intro dep_cycle_cyclic) (auto simp: dep_cycle_def)
    then show ?thesis using v by auto
  next
    case (Inr V)
    have "finished_in_order (edges g) [] {}" by (auto simp: finished_in_order_def intro: exI[of _ "[]"])
    then have V: "finished_in_order (edges g) [] V" "set (map fst (nodes g)) \<subseteq> V"
      using dfs_finished(2)[OF Inr] by auto
    then obtain R where R: "deps_first (deps_of (edges g)) R" "set R = V" by (auto simp: finished_in_order_def)
    have "\<not> cyclic (deps_of (edges g)) n" for n
    proof
      assume c: "cyclic (deps_of (edges g)) n"
      then obtain d where "depends (deps_of (edges g)) n d" by (auto simp: cyclic_def dest: tranclpD)
      then have "n \<in> fst ` set (edges g)"
        by (cases "n \<in> fst ` set (edges g)") (auto simp: depends_def deps_of_no_key)
      then show False using deps_first_acyclic[OF R(1)] V(2) R(2) c assms by blast
    qed
    then show ?thesis using Inr by (auto simp: validateGraph_def graph_dfs_all_eq)
  qed
qed

lemma graph_edges_keys: "fst ` set (graph_edges all) = sql ` set all"
proof -
  have "set (map fst (for_each (\<lambda>op. AList.update (sql op) (f op)) ops al)) = sql ` set ops \<union> set (map fst al)"
    for ops al and f :: "SchemaOperation \<Rightarrow> string list"
    by (induction ops arbitrary: al) (auto simp: dom_update)
  from this[of "\<lambda>op. findDependencies op all" all "map (\<lambda>op. (sql op, [])) all"]
  show ?thesis by (auto simp: graph_edges_def image_image)
qed

lemma graph_node_ops:
  "map sql (map snd (graph_nodes phases)) = map fst (graph_nodes phases)"
  using graph_nodes_ok[of phases] by (auto simp: comp_def case_prod_unfold)

lemma buildOperationGraph_keys:
  "set (map fst (nodes (buildOperationGraph phases))) = fst ` set (edges (buildOperationGraph phases))"
proof -
  have "set (map fst (graph_nodes phases)) = sql ` set (map snd (graph_nodes phases))"
    using graph_node_ops[of phases] by (metis set_map)
  then show ?thesis by (simp add: buildOperationGraph_def Let_def graph_edges_keys)
qed

text \<open>The graph built from phases is valid exactly when its edges have no cycle,
  and the cycle reported for an invalid one is real.\<close>

theorem graph_valid_iff_acyclic:
  "fst (validateGraph (buildOperationGraph phases))
      = (\<nexists>n. cyclic (deps_of (edges (buildOperationGraph phases))) n)
   \<and> list_all (dep_cycle (deps_of (edges (buildOperationGraph phases))))
       (snd (validateGraph (buildOperationGraph phases)))"
  using validateGraph_dfs[OF buildOperationGraph_keys[of phases]] by (auto simp: list_all_iff)

text \<open>Operations that conflict both ways.\<close>

definition mutually_conflicting :: "string \<Rightarrow> string \<Rightarrow> bool" where
  "mutually_conflicting s t = ((includes_str ''ALTER'' s \<and> includes_str ''ALTER'' t)
    \<or> (includes_str ''DROP'' s \<and> includes_str ''ADD'' t) \<or> (includes_str ''ADD'' s \<and> includes_str ''DROP'' t))"

lemma conflict_dependency:
  assumes "mutually_conflicting (sql op) (sql other)" "sql op \<noteq> sql other"
    "t \<in> set (extractTableReferences (sql op))" "t \<in> set (extractTableReferences (sql other))"
    "other \<in> set all"
  shows "sql other \<in> set (findDependencies op all)"
proof -
  have "common_tables (extractTableReferences (sql op)) (extractTableReferences (sql other)) \<noteq> []"
    using assms(3,4) by (auto simp: common_tables_def filter_empty_conv)
  moreover have "isConflictingOperation op other"
    using assms(1) by (auto simp: mutually_conflicting_def isConflictingOperation_def)
  ultimately have "hasTableConflict op other (extractTableReferences (sql op)) (extractTableReferences (sql other))"
    by (cases "common_tables (extractTableReferences (sql op)) (extractTableReferences (sql other))")
      (simp_all add: hasTableConflict_def)
  then have "sql other \<in> set (dependencies_on op other)"
    using assms(2) by (simp add: dependencies_on_def Let_def)
  then show ?thesis using assms(5) by (auto simp: findDependencies_def)
qed

lemma node_dependency:
  assumes "mutually_conflicting s s'" "s \<noteq> s'"
    "t \<in> set (extractTableReferences s)" "t \<in> set (extractTableReferences s')"
    "s \<in> sql ` set (concat (map phase_operations phases))" "s' \<in> sql ` set (concat (map phase_operations phases))"
  shows "depends (deps_of (edges (buildOperationGraph phases))) s s'"
proof -
  let ?all = "map snd (graph_nodes phases)"
  have all: "map sql ?all = map fst (graph_nodes phases)" by (rule graph_node_ops)
  then have "sql ` set ?all = sql ` set (concat (map phase_operations phases))" "distinct (map sql ?all)"
    using graph_nodes_ok[of phases] by (metis set_map, metis)
  then obtain op op' where op: "op \<in> set ?all" "sql op = s" "op' \<in> set ?all" "sql op' = s'"
    using assms(5,6) by (metis (no_types, lifting) imageE)
  then have "s' \<in> set (findDependencies op ?all)"
    using conflict_dependency[of op op' t ?all] assms by auto
  moreover have "deps_of (graph_edges ?all) s = findDependencies op ?all"
    using graph_edges_of[OF \<open>distinct (map sql ?all)\<close> op(1)] op(2) by simp
  ultimately show ?thesis by (simp add: depends_def buildOperationGraph_def Let_def)
qed

text \<open>Two different statements on one table that both alter it, or of which one
  adds and the other drops something, depend on each other, so the graph of any
  phases with such a pair is invalid. This includes every expand and contract
  pair, and every migration with two ALTER statements on one table.\<close>

theorem altering_one_table_twice_is_a_cycle:
  assumes "mutually_conflicting s s'" "s \<noteq> s'"
    "t \<in> set (extractTableReferences s)" "t \<in> set (extractTableReferences s')"
    "s \<in> sql ` set (concat (map phase_operations phases))" "s' \<in> sql ` set (concat (map phase_operations phases))"
  shows "\<not> fst (validateGraph (buildOperationGraph phases))"
proof -
  have "mutually_conflicting s' s" using assms(1) by (auto simp: mutually_conflicting_def)
  then have "depends (deps_of (edges (buildOperationGraph phases))) s s'"
    "depends (deps_of (edges (buildOperationGraph phases))) s' s"
    using node_dependency assms by metis+
  then have "cyclic (deps_of (edges (buildOperationGraph phases))) s"
    unfolding cyclic_def by (meson tranclp.r_into_trancl tranclp.trancl_into_trancl)
  then show ?thesis
    using validateGraph_dfs(1)[OF buildOperationGraph_keys[of phases]] by blast
qed

lemma altering_one_table_twice_is_a_cycle_witness:
  "\<not> fst (validateGraph (buildOperationGraph
      [simple_phase EXPAND [simple_op ''ALTER TABLE t ADD b int'' SAFE],
       simple_phase CONTRACT [simple_op ''ALTER TABLE t DROP a'' BREAKING]]))"
proof (rule altering_one_table_twice_is_a_cycle[of "''ALTER TABLE t ADD b int''" "''ALTER TABLE t DROP a''" "''t''"])
  show "mutually_conflicting ''ALTER TABLE t ADD b int'' ''ALTER TABLE t DROP a''" by code_simp
  show "''t'' \<in> set (extractTableReferences ''ALTER TABLE t ADD b int'')" by code_simp
  show "''t'' \<in> set (extractTableReferences ''ALTER TABLE t DROP a'')" by code_simp
qed (simp_all add: simple_phase_def simple_op_def)

end
