(* ===== verification/Sql_Risk.thy ===== *)
theory Sql_Risk
  imports Sql_Classify Operation_Graph
begin

text \<open>
  The risk analysis (\<^verbatim>\<open>src/schema/engine/risk-analyzer.ts\<close>) and the compatibility
  check (\<^verbatim>\<open>compatibility-check.ts\<close>) of classified operations.
\<close>

section \<open>Risks\<close>

definition risk :: "SchemaOperation \<Rightarrow> severity \<Rightarrow> risk_category \<Rightarrow> string \<Rightarrow> string \<Rightarrow> bool \<Rightarrow> RiskReport" where
  "risk op sev cat desc mit app = \<lparr> risk_operation = sql op, risk_severity = sev, risk_category = cat,
     risk_description = desc, mitigation = Some mit, requiresApproval = app \<rparr>"

definition risk_if :: "bool \<Rightarrow> RiskReport \<Rightarrow> RiskReport list" where
  "risk_if b r = (if b then [r] else [])"

definition has_words :: "rx list \<Rightarrow> SchemaOperation \<Rightarrow> bool" where
  "has_words p op = rx_test p (sql op)"

definition type_change_words :: "rx list" where
  "type_change_words = [WordBoundary] @ kw2 ''ALTER'' ''COLUMN'' @ [Many any_char, Lit ''TYPE'', WordBoundary]"

definition set_not_null_words :: "rx list" where
  "set_not_null_words = [WordBoundary] @ kw2 ''SET'' ''NOT'' @ spaces @ [Lit ''NULL'', WordBoundary]"

definition analyzePerformanceRisks :: "SchemaOperation \<Rightarrow> RiskReport list" where
  "analyzePerformanceRisks op =
    (case op_metadata op of
        None \<Rightarrow> []
      | Some m \<Rightarrow> risk_if (tableSize m = Some LARGE) (risk op HIGH PERFORMANCE
          (''Large table operation on '' @ show_text (estimatedRows m) @ '' rows, estimated time: ''
            @ show_text (estimatedTime m))
          ''Consider running during maintenance window with proper monitoring'' True))
    @ risk_if (has_words type_change_words op) (risk op CRITICAL PERFORMANCE
        ''Column type change will cause full table rewrite''
        ''Use expand-contract pattern with temporary column'' True)
    @ risk_if (has_words (bkw2 ''CREATE'' ''INDEX'') op \<and> \<not> includes_str ''CONCURRENTLY'' (sql op))
        (risk op MEDIUM PERFORMANCE ''Index creation will block table writes''
          ''Use CREATE INDEX CONCURRENTLY for production'' False)
    @ risk_if ((has_words (bkw ''UPDATE'') op \<or> has_words (bkw ''DELETE'') op)
          \<and> \<not> has_words [WordBoundary, Lit ''WHERE'', Many any_char, Lit ''='', Many any_char, Lit ''?''] op)
        (risk op MEDIUM PERFORMANCE ''Operation may cause full table scan''
          ''Ensure proper WHERE clause with indexed columns'' False)"

definition drop_words :: "rx list" where
  "drop_words = [WordBoundary, Lit ''DROP''] @ spaces
    @ [Alt [[Lit ''TABLE''], [Lit ''COLUMN''], [Lit ''TYPE'']], WordBoundary]"

definition analyzeDataLossRisks :: "SchemaOperation \<Rightarrow> RiskReport list" where
  "analyzeDataLossRisks op =
    risk_if (has_words drop_words op) (risk op CRITICAL DATA_LOSS
        ''DROP operation will permanently remove data''
        ''Ensure data backup and verify no dependent code'' True)
    @ risk_if (has_words set_not_null_words op \<and> \<not> has_words (bkw ''DEFAULT'') op)
        (risk op HIGH DATA_LOSS ''SET NOT NULL will fail if null values exist''
          ''Add default value or backfill data first'' True)
    @ risk_if (has_words (bkw2 ''DELETE'' ''FROM'') op \<and> \<not> has_words (bkw ''WHERE'') op)
        (risk op CRITICAL DATA_LOSS ''DELETE without WHERE will remove all rows''
          ''Add WHERE clause or use TRUNCATE if intentional'' True)"

definition analyzeBlockingRisks :: "SchemaOperation \<Rightarrow> RiskReport list" where
  "analyzeBlockingRisks op =
    risk_if (case op_metadata op of Some m \<Rightarrow> blocking m = Some True | None \<Rightarrow> False)
        (risk op HIGH BLOCKING ''Operation will block table access''
          ''Schedule during low-traffic periods'' True)
    @ risk_if (has_words ([WordBoundary, Lit ''ALTER''] @ spaces
          @ [Alt [[Lit ''TABLE''], [Lit ''COLUMN'']], WordBoundary]) op)
        (risk op MEDIUM BLOCKING ''ALTER operation will lock table schema''
          ''Consider using pg_repack for large tables'' False)
    @ (case op_metadata op of
        None \<Rightarrow> []
      | Some m \<Rightarrow> risk_if (truthy (estimatedTime m) \<and> includes_str ''minutes'' (the (estimatedTime m)))
          (risk op MEDIUM BLOCKING (''Long-running operation estimated at '' @ show_text (estimatedTime m))
            ''Monitor progress and have rollback plan ready'' False))"

definition analyzeCompatibilityRisks :: "SchemaOperation \<Rightarrow> RiskReport list" where
  "analyzeCompatibilityRisks op =
    risk_if (category op = BREAKING) (risk op HIGH COMPATIBILITY ''Breaking schema change detected''
        ''Ensure application code is updated and deployed first'' True)
    @ risk_if (has_words type_change_words op) (risk op HIGH COMPATIBILITY
        ''Column type change may break application code''
        ''Update application code to handle new type'' True)
    @ risk_if (has_words (bkw2 ''RENAME'' ''COLUMN'') op) (risk op HIGH COMPATIBILITY
        ''Column rename will break existing queries''
        ''Update all references to old column name'' True)
    @ risk_if (has_words (bkw2 ''DROP'' ''CONSTRAINT'') op) (risk op MEDIUM COMPATIBILITY
        ''Dropping constraint may allow invalid data''
        ''Ensure application validates data appropriately'' False)"

definition analyzeSingleOperation :: "SchemaOperation \<Rightarrow> RiskReport list" where
  "analyzeSingleOperation op = analyzePerformanceRisks op @ analyzeDataLossRisks op
     @ analyzeBlockingRisks op @ analyzeCompatibilityRisks op"

definition analyzeRisk :: "SchemaOperation list \<Rightarrow> RiskReport list" where
  "analyzeRisk ops = concat (map analyzeSingleOperation ops)"

fun severity_score :: "severity \<Rightarrow> nat" where
  "severity_score LOW = 1"
| "severity_score MEDIUM = 3"
| "severity_score HIGH = 5"
| "severity_score CRITICAL = 10"

definition calculateRiskScore :: "SchemaOperation list \<Rightarrow> nat" where
  "calculateRiskScore ops = sum_list (map (severity_score \<circ> risk_severity) (analyzeRisk ops))"

record risk_summary =
  totalRisks :: nat
  criticalRisks :: nat
  highRisks :: nat
  mediumRisks :: nat
  lowRisks :: nat
  approvalsRequired :: nat

definition getRiskSummary :: "SchemaOperation list \<Rightarrow> risk_summary" where
  "getRiskSummary ops = (let risks = analyzeRisk ops;
      n = (\<lambda>s. length (filter (\<lambda>r. risk_severity r = s) risks))
    in \<lparr> totalRisks = length risks, criticalRisks = n CRITICAL, highRisks = n HIGH,
         mediumRisks = n MEDIUM, lowRisks = n LOW,
         approvalsRequired = length (filter requiresApproval risks) \<rparr>)"

section \<open>Compatibility\<close>

definition change_if :: "bool \<Rightarrow> string \<Rightarrow> string list" where
  "change_if b s = (if b then [s] else [])"

definition breaking_changes_of :: "SchemaOperation \<Rightarrow> string list" where
  "breaking_changes_of op =
    change_if (has_words ([WordBoundary, Lit ''DROP''] @ spaces
        @ [Alt [[Lit ''TABLE''], [Lit ''COLUMN''], [Lit ''TYPE''], [Lit ''CONSTRAINT'']], WordBoundary]) op)
      (''DROP operation: '' @ sql op)
    @ change_if (has_words type_change_words op) (''Column type change: '' @ sql op)
    @ change_if (has_words (bkw2 ''RENAME'' ''COLUMN'') op) (''Column rename: '' @ sql op)
    @ change_if (has_words set_not_null_words op \<and> \<not> has_words (bkw ''DEFAULT'') op)
        (''SET NOT NULL without default: '' @ sql op)
    @ change_if (has_words (bkw2 ''DROP'' ''CONSTRAINT'') op) (''Constraint removal: '' @ sql op)"

definition findBreakingChanges :: "SchemaOperation list \<Rightarrow> string list" where
  "findBreakingChanges ops = concat (map breaking_changes_of ops)"

definition add_words :: "rx list" where
  "add_words = bkw2 ''ADD'' ''COLUMN''"

definition quoted_word :: "nat \<Rightarrow> rx list" where
  "quoted_word k = opt_quote @ grp k words @ opt_quote"

fun issue_if :: "bool \<Rightarrow> captures option \<Rightarrow> (captures \<Rightarrow> string) \<Rightarrow> string list" where
  "issue_if True (Some cs) f = [f cs]"
| "issue_if _ _ _ = []"

definition api_issues_of :: "SchemaOperation \<Rightarrow> string list" where
  "api_issues_of op =
    issue_if (has_words (bkw2 ''RENAME'' ''COLUMN'') op)
      (rx_match ([WordBoundary] @ kw2 ''RENAME'' ''COLUMN'' @ spaces @ quoted_word 1 @ spaces @ [Lit ''TO'']
        @ spaces @ quoted_word 2) (sql op))
      (\<lambda>m. ''API breaking: Column \"'' @ captured m 1 @ ''\" renamed to \"'' @ captured m 2
        @ ''\" - update all API consumers'')
    @ issue_if (has_words type_change_words op)
      (rx_match ([WordBoundary] @ kw2 ''ALTER'' ''COLUMN'' @ spaces @ quoted_word 1 @ spaces @ [Lit ''TYPE'']
        @ spaces @ grp 2 words) (sql op))
      (\<lambda>m. ''API breaking: Column \"'' @ captured m 1 @ ''\" type changed to '' @ captured m 2
        @ '' - update API schemas'')
    @ issue_if (has_words (bkw2 ''DROP'' ''TABLE'') op)
      (rx_match ([WordBoundary] @ kw2 ''DROP'' ''TABLE'' @ spaces @ quoted_word 1) (sql op))
      (\<lambda>m. ''API breaking: Table \"'' @ captured m 1 @ ''\" dropped - remove all API endpoints'')
    @ issue_if (has_words (bkw2 ''DROP'' ''COLUMN'') op)
      (rx_match ([WordBoundary] @ kw2 ''DROP'' ''COLUMN'' @ spaces @ quoted_word 1) (sql op))
      (\<lambda>m. ''API breaking: Column \"'' @ captured m 1 @ ''\" dropped - update API responses'')"

definition checkApiCompatibility :: "SchemaOperation list \<Rightarrow> string list" where
  "checkApiCompatibility ops = concat (map api_issues_of ops)"

text \<open>The operations of each table, in the order the tables are first met.\<close>

definition groupOperationsByTable :: "SchemaOperation list \<Rightarrow> (string \<times> SchemaOperation list) list" where
  "groupOperationsByTable ops = (
    let tables = js_set (concat (map (\<lambda>op. extractTableReferences (sql op)) ops))
    in map (\<lambda>t. (t, filter (\<lambda>op. t \<in> set (extractTableReferences (sql op))) ops)) tables)"

definition table_issues :: "string \<times> SchemaOperation list \<Rightarrow> string list" where
  "table_issues g = (case g of (t, ops) \<Rightarrow>
    change_if (list_ex (has_words add_words) ops
        \<and> list_ex (has_words ([WordBoundary] @ kw2 ''SET'' ''NOT'' @ spaces @ [Lit ''NULL'', WordBoundary])) ops)
      (''Table \"'' @ t @ ''\": ADD COLUMN and SET NOT NULL should be separated into different phases'')
    @ change_if (list_ex (has_words (bkw2 ''DROP'' ''COLUMN'')) ops \<and> list_ex (\<lambda>op. category op = DATA) ops)
      (''Table \"'' @ t @ ''\": Data operations should complete before DROP COLUMN''))"

definition checkMigrationCompatibility :: "SchemaOperation list \<Rightarrow> string list" where
  "checkMigrationCompatibility ops = (
    let hasBreaking = list_ex (\<lambda>op. category op = BREAKING) ops;
        hasSafe = list_ex (\<lambda>op. category op = SAFE) ops;
        hasData = list_ex (\<lambda>op. category op = DATA) ops
    in change_if (hasBreaking \<and> hasSafe) ''Mixed SAFE and BREAKING operations - use expand-contract pattern''
     @ change_if (hasBreaking \<and> hasData)
         ''Mixed DATA and BREAKING operations - ensure data operations complete before breaking changes''
     @ concat (map table_issues (groupOperationsByTable ops)))"

record CompatibilityReport =
  cr_breakingChanges :: "string list"
  backwardCompatible :: bool
  apiCompatibility :: bool
  migrationCompatibility :: bool
  cr_recommendations :: "string list"

definition checkCompatibility :: "SchemaOperation list \<Rightarrow> CompatibilityReport" where
  "checkCompatibility ops = (
    let changes = findBreakingChanges ops; api = checkApiCompatibility ops;
        mig = checkMigrationCompatibility ops
    in \<lparr> cr_breakingChanges = changes, backwardCompatible = (changes = []),
         apiCompatibility = (api = []), migrationCompatibility = (mig = []),
         cr_recommendations = api @ mig \<rparr>)"

record compatibility_summary =
  isCompatible :: bool
  breakingChangesCount :: nat
  apiIssuesCount :: nat
  migrationIssuesCount :: nat
  recommendationsCount :: nat

definition getCompatibilitySummary :: "SchemaOperation list \<Rightarrow> compatibility_summary" where
  "getCompatibilitySummary ops = (let report = checkCompatibility ops in \<lparr>
    isCompatible = (backwardCompatible report \<and> apiCompatibility report \<and> migrationCompatibility report),
    breakingChangesCount = length (cr_breakingChanges report),
    apiIssuesCount = length (filter (includes_str ''API'') (cr_recommendations report)),
    migrationIssuesCount = length (filter (\<lambda>r. includes_str ''migration'' r \<or> includes_str ''phase'' r)
      (cr_recommendations report)),
    recommendationsCount = length (cr_recommendations report) \<rparr>)"

definition generateRecommendations :: "SchemaOperation list \<Rightarrow> string list" where
  "generateRecommendations ops =
    change_if (list_ex is_large ops)
      ''Large table operations detected - schedule during maintenance window''
    @ change_if (list_ex (\<lambda>op. case op_metadata op of Some m \<Rightarrow> blocking m = Some True | None \<Rightarrow> False) ops)
      ''Blocking operations detected - consider using pg_repack for large tables''
    @ change_if (list_ex (\<lambda>op. has_words ([WordBoundary, Lit ''DROP''] @ spaces
          @ [Alt [[Lit ''TABLE''], [Lit ''COLUMN'']], WordBoundary]) op \<or> has_words (bkw2 ''DELETE'' ''FROM'') op) ops)
      ''Data loss operations detected - ensure proper backups and validation''
    @ change_if (list_ex (\<lambda>op. has_words type_change_words op
          \<or> (has_words (bkw2 ''ADD'' ''COLUMN'') op \<and> has_words (bkw2 ''NOT'' ''NULL'') op)) ops)
      ''Complex operations detected - consider using expand-contract pattern''"

section \<open>Facts\<close>

lemma risk_count_split:
  "length rs = length (filter (\<lambda>r. risk_severity r = CRITICAL) rs) + length (filter (\<lambda>r. risk_severity r = HIGH) rs)
    + length (filter (\<lambda>r. risk_severity r = MEDIUM) rs) + length (filter (\<lambda>r. risk_severity r = LOW) rs)"
  by (induction rs) (auto, metis severity.exhaust)

lemma risk_score_by_severity:
  "sum_list (map (severity_score \<circ> risk_severity) rs)
    = 10 * length (filter (\<lambda>r. risk_severity r = CRITICAL) rs) + 5 * length (filter (\<lambda>r. risk_severity r = HIGH) rs)
    + 3 * length (filter (\<lambda>r. risk_severity r = MEDIUM) rs) + length (filter (\<lambda>r. risk_severity r = LOW) rs)"
proof (induction rs)
  case (Cons r rs)
  then show ?case by (cases "risk_severity r") simp_all
qed simp

text \<open>Every report of the analysis is of medium severity or above, and asks for
  approval exactly above medium.\<close>

definition graded :: "RiskReport \<Rightarrow> bool" where
  "graded r = (risk_severity r \<noteq> LOW
    \<and> requiresApproval r = (risk_severity r = CRITICAL \<or> risk_severity r = HIGH))"

lemma graded_risk: "graded (risk op s c d m a) = (s \<noteq> LOW \<and> a = (s = CRITICAL \<or> s = HIGH))"
  by (simp add: graded_def risk_def)

lemma list_all_risk_if: "list_all P (risk_if b r) = (b \<longrightarrow> P r)"
  by (simp add: risk_if_def)

lemmas graded_simps = graded_risk list_all_risk_if

lemma graded_performance: "list_all graded (analyzePerformanceRisks op)"
  unfolding analyzePerformanceRisks_def list_all_append
  by (cases "op_metadata op") (simp_all add: graded_simps)

lemma graded_data_loss: "list_all graded (analyzeDataLossRisks op)"
  unfolding analyzeDataLossRisks_def list_all_append by (simp add: graded_simps)

lemma graded_blocking: "list_all graded (analyzeBlockingRisks op)"
  unfolding analyzeBlockingRisks_def list_all_append
  by (cases "op_metadata op") (simp_all add: graded_simps)

lemma graded_compatibility: "list_all graded (analyzeCompatibilityRisks op)"
  unfolding analyzeCompatibilityRisks_def list_all_append by (simp add: graded_simps)

lemma graded_analysis: "r \<in> set (analyzeRisk ops) \<Longrightarrow> graded r"
  using graded_performance graded_data_loss graded_blocking graded_compatibility
  by (fastforce simp: analyzeRisk_def analyzeSingleOperation_def list_all_iff)

text \<open>The risk score of a list of operations is determined by its summary: ten
  points for each critical risk, five for each high one and three for each medium
  one. The analysis reports no low risk, and every high or critical risk, and no
  other, requires approval.\<close>

theorem risk_score_matches_summary:
  "calculateRiskScore ops = 10 * criticalRisks (getRiskSummary ops) + 5 * highRisks (getRiskSummary ops)
      + 3 * mediumRisks (getRiskSummary ops)
   \<and> lowRisks (getRiskSummary ops) = 0
   \<and> approvalsRequired (getRiskSummary ops) = criticalRisks (getRiskSummary ops) + highRisks (getRiskSummary ops)
   \<and> totalRisks (getRiskSummary ops) = approvalsRequired (getRiskSummary ops) + mediumRisks (getRiskSummary ops)"
proof -
  let ?rs = "analyzeRisk ops"
  have low: "filter (\<lambda>r. risk_severity r = LOW) ?rs = []"
    using graded_analysis by (auto simp: filter_empty_conv graded_def)
  have app: "requiresApproval r = (risk_severity r = CRITICAL \<or> risk_severity r = HIGH)" if "r \<in> set ?rs" for r
    using graded_analysis[OF that] by (simp add: graded_def)
  have "filter requiresApproval ?rs = filter (\<lambda>r. risk_severity r = CRITICAL \<or> risk_severity r = HIGH) ?rs"
    using app by (intro filter_cong) auto
  moreover have "length (filter (\<lambda>r. risk_severity r = CRITICAL \<or> risk_severity r = HIGH) rs)
      = length (filter (\<lambda>r. risk_severity r = CRITICAL) rs) + length (filter (\<lambda>r. risk_severity r = HIGH) rs)" for rs
    by (induction rs) auto
  ultimately have "length (filter requiresApproval ?rs) = length (filter (\<lambda>r. risk_severity r = CRITICAL) ?rs)
      + length (filter (\<lambda>r. risk_severity r = HIGH) ?rs)" by metis
  then show ?thesis
    using risk_score_by_severity[of ?rs] risk_count_split[of ?rs] low
    by (simp add: calculateRiskScore_def getRiskSummary_def Let_def)
qed

end
