(* ===== verification/Migration_State.thy ===== *)
theory Migration_State
  imports Prelude "HOL-Library.AList" "HOL-Library.Sublist"
begin

text \<open>
  The migration state machine (\<^verbatim>\<open>src/schema/engine/migration-state.ts\<close>): the
  transition table, the runtime's records, the operations that move a record
  and the guards that an executor calls before it works. The records are a
  JavaScript \<^verbatim>\<open>Map\<close>, an association list in insertion order; the clock
  (\<^verbatim>\<open>new Date()\<close>) is an argument in milliseconds.
\<close>

section \<open>States and transitions\<close>

datatype MigrationState =
    PLANNED | VALIDATED | SIMULATED | APPROVED | REPLAYED
  | EXECUTING | COMPLETED | FAILED | ROLLED_BACK

fun TRANSITIONS :: "MigrationState \<Rightarrow> MigrationState list" where
  "TRANSITIONS PLANNED = [VALIDATED]"
| "TRANSITIONS VALIDATED = [SIMULATED]"
| "TRANSITIONS SIMULATED = [APPROVED]"
| "TRANSITIONS APPROVED = [REPLAYED]"
| "TRANSITIONS REPLAYED = [EXECUTING]"
| "TRANSITIONS EXECUTING = [COMPLETED, FAILED]"
| "TRANSITIONS FAILED = [ROLLED_BACK]"
| "TRANSITIONS COMPLETED = []"
| "TRANSITIONS ROLLED_BACK = []"

definition canTransition :: "MigrationState \<Rightarrow> MigrationState \<Rightarrow> bool" where
  "canTransition s t = (t \<in> set (TRANSITIONS s))"

datatype state_error =
    NotFound string
  | TransitionBlocked MigrationState MigrationState
  | CannotExecute string MigrationState
  | CannotSimulate string MigrationState
  | CannotApprove string MigrationState
  | PlanHashMismatch string string

definition enforceTransition :: "MigrationState \<Rightarrow> MigrationState \<Rightarrow> state_error + unit" where
  "enforceTransition s t = (if canTransition s t then Inr () else Inl (TransitionBlocked s t))"

definition canExecute :: "MigrationState \<Rightarrow> bool" where
  "canExecute s = (s = APPROVED)"

definition isTerminal :: "MigrationState \<Rightarrow> bool" where
  "isTerminal s = (s = COMPLETED \<or> s = ROLLED_BACK)"

definition hasFailed :: "MigrationState \<Rightarrow> bool" where
  "hasFailed s = (s = FAILED \<or> s = ROLLED_BACK)"

datatype health = HEALTHY | UNHEALTHY | UNKNOWN

fun getHealthStatus :: "MigrationState \<Rightarrow> health" where
  "getHealthStatus COMPLETED = HEALTHY"
| "getHealthStatus FAILED = UNHEALTHY"
| "getHealthStatus ROLLED_BACK = UNHEALTHY"
| "getHealthStatus _ = UNKNOWN"

section \<open>The runtime\<close>

record MigrationStateRecord =
  migrationId :: string
  mstate :: MigrationState
  startedAt :: int
  completedAt :: "int option"
  checksum :: "string option"
  planHash :: "string option"
  rec_error :: "string option"
  simulationHash :: "string option"

type_synonym runtime = "(string \<times> MigrationStateRecord) list"

definition createMigration ::
  "int \<Rightarrow> string \<Rightarrow> string option \<Rightarrow> runtime \<Rightarrow> runtime \<times> MigrationStateRecord" where
  "createMigration now mid hash rt = (
    let record = \<lparr> migrationId = mid, mstate = PLANNED, startedAt = now, completedAt = None,
          checksum = None, planHash = hash, rec_error = None, simulationHash = None \<rparr>
    in (AList.update mid record rt, record))"

definition getState :: "runtime \<Rightarrow> string \<Rightarrow> MigrationStateRecord option" where
  "getState rt mid = map_of rt mid"

text \<open>The record is changed in place: an entry of the \<^verbatim>\<open>Map\<close> keeps its position.\<close>

definition updateState ::
  "int \<Rightarrow> string \<Rightarrow> MigrationState \<Rightarrow> string option \<Rightarrow> string option
    \<Rightarrow> (runtime, state_error, MigrationStateRecord) action" where
  "updateState now mid new cs err rt = (case getState rt mid of
      None \<Rightarrow> (rt, Inl (NotFound mid))
    | Some record \<Rightarrow> (case enforceTransition (mstate record) new of
          Inl e \<Rightarrow> (rt, Inl e)
        | Inr _ \<Rightarrow>
            let record = record\<lparr> mstate := new, checksum := cs, rec_error := err \<rparr>;
                record = (if isTerminal new then record\<lparr> completedAt := Some now \<rparr> else record)
            in (AList.update mid record rt, Inr record)))"

definition getMigrationsByState :: "runtime \<Rightarrow> MigrationState \<Rightarrow> MigrationStateRecord list" where
  "getMigrationsByState rt s = filter (\<lambda>r. mstate r = s) (map snd rt)"

record health_summary =
  hs_total :: nat
  hs_healthy :: nat
  hs_unhealthy :: nat
  hs_inProgress :: nat
  hs_failed :: nat

definition getHealthSummary :: "runtime \<Rightarrow> health_summary" where
  "getHealthSummary rt = (let records = map snd rt in \<lparr>
    hs_total = length records,
    hs_healthy = length (filter (\<lambda>r. mstate r = COMPLETED) records),
    hs_unhealthy = length (filter (\<lambda>r. mstate r = FAILED \<or> mstate r = ROLLED_BACK) records),
    hs_inProgress = length (filter (\<lambda>r. mstate r \<noteq> COMPLETED \<and> mstate r \<noteq> FAILED
      \<and> mstate r \<noteq> ROLLED_BACK) records),
    hs_failed = length (filter (\<lambda>r. mstate r = FAILED) records) \<rparr>)"

definition validatePlanHash :: "runtime \<Rightarrow> string \<Rightarrow> string \<Rightarrow> bool" where
  "validatePlanHash rt mid expected = (case getState rt mid of
      None \<Rightarrow> False
    | Some record \<Rightarrow> planHash record = Some expected)"

definition rollbackState ::
  "int \<Rightarrow> string \<Rightarrow> string \<Rightarrow> (runtime, state_error, MigrationStateRecord) action" where
  "rollbackState now mid err rt = (case getState rt mid of
      None \<Rightarrow> (rt, Inl (NotFound mid))
    | Some _ \<Rightarrow> (case updateState now mid FAILED None (Some err) rt of
          (rt', Inl e) \<Rightarrow> (rt', Inl e)
        | (rt', Inr _) \<Rightarrow> updateState now mid ROLLED_BACK None None rt'))"

definition cleanup :: "int \<Rightarrow> int \<Rightarrow> runtime \<Rightarrow> runtime \<times> nat" where
  "cleanup now maxAgeHours rt = (
    let cutoff = now - maxAgeHours * 60 * 60 * 1000;
        old = (\<lambda>(mid, r). case completedAt r of Some t \<Rightarrow> t < cutoff | None \<Rightarrow> False)
    in (filter (\<lambda>e. \<not> old e) rt, length (filter old rt)))"

definition exportState :: "runtime \<Rightarrow> MigrationStateRecord list" where
  "exportState rt = map snd rt"

definition importState :: "MigrationStateRecord list \<Rightarrow> runtime" where
  "importState records = for_each (\<lambda>r. AList.update (migrationId r) r) records []"

section \<open>The guards\<close>

definition guardExecution :: "runtime \<Rightarrow> string \<Rightarrow> state_error + unit" where
  "guardExecution rt mid = (case getState rt mid of
      None \<Rightarrow> Inl (NotFound mid)
    | Some record \<Rightarrow> if \<not> canExecute (mstate record) then Inl (CannotExecute mid (mstate record)) else Inr ())"

definition guardSimulation :: "runtime \<Rightarrow> string \<Rightarrow> state_error + unit" where
  "guardSimulation rt mid = (case getState rt mid of
      None \<Rightarrow> Inl (NotFound mid)
    | Some record \<Rightarrow> if mstate record \<noteq> VALIDATED then Inl (CannotSimulate mid (mstate record)) else Inr ())"

definition guardApproval :: "runtime \<Rightarrow> string \<Rightarrow> state_error + unit" where
  "guardApproval rt mid = (case getState rt mid of
      None \<Rightarrow> Inl (NotFound mid)
    | Some record \<Rightarrow> if mstate record \<noteq> SIMULATED then Inl (CannotApprove mid (mstate record)) else Inr ())"

definition validatePlanConsistency :: "runtime \<Rightarrow> string \<Rightarrow> string \<Rightarrow> state_error + unit" where
  "validatePlanConsistency rt mid hash =
    (if \<not> validatePlanHash rt mid hash then Inl (PlanHashMismatch mid hash) else Inr ())"

section \<open>Facts\<close>

fun mrank :: "MigrationState \<Rightarrow> nat" where
  "mrank PLANNED = 0"
| "mrank VALIDATED = 1"
| "mrank SIMULATED = 2"
| "mrank APPROVED = 3"
| "mrank REPLAYED = 4"
| "mrank EXECUTING = 5"
| "mrank COMPLETED = 6"
| "mrank FAILED = 6"
| "mrank ROLLED_BACK = 7"

interpretation migration_table: transition_table TRANSITIONS mrank
proof
  show "mrank s < mrank t" if "t \<in> set (TRANSITIONS s)" for s t
    using that by (cases s) auto
qed

lemma terminal_is_final: "isTerminal s \<Longrightarrow> (moves TRANSITIONS)\<^sup>*\<^sup>* s t \<Longrightarrow> t = s"
  by (rule migration_table.final_stays) (auto simp: isTerminal_def)

lemma lifecycle_length: "run_of TRANSITIONS PLANNED ts \<Longrightarrow> length ts \<le> 7"
  using migration_table.run_length[of PLANNED ts] by (cases "last (PLANNED # ts)") simp_all

lemma getState_update [simp]:
  "getState (AList.update k r rt) mid = (if mid = k then Some r else getState rt mid)"
  by (simp add: getState_def update_conv)

lemma updateState_cases:
  assumes "updateState now mid new cs err rt = (rt', res)"
  obtains (missing) "getState rt mid = None" "rt' = rt" "res = Inl (NotFound mid)"
  | (blocked) r where "getState rt mid = Some r" "\<not> canTransition (mstate r) new" "rt' = rt"
      "res = Inl (TransitionBlocked (mstate r) new)"
  | (moved) r r' where "getState rt mid = Some r" "canTransition (mstate r) new"
      "rt' = AList.update mid r' rt" "res = Inr r'"
      "r' = r\<lparr> mstate := new, checksum := cs, rec_error := err,
              completedAt := (if isTerminal new then Some now else completedAt r) \<rparr>"
proof (cases "getState rt mid")
  case None
  then have "rt' = rt" "res = Inl (NotFound mid)" using assms by (simp_all add: updateState_def)
  then show thesis by (rule missing[OF None])
next
  case (Some r)
  then show thesis
  proof (cases "canTransition (mstate r) new")
    case False
    then have "rt' = rt" "res = Inl (TransitionBlocked (mstate r) new)"
      using assms Some by (simp_all add: updateState_def enforceTransition_def)
    then show thesis by (rule blocked[OF Some False])
  next
    case True
    let ?r = "r\<lparr> mstate := new, checksum := cs, rec_error := err,
              completedAt := (if isTerminal new then Some now else completedAt r) \<rparr>"
    have "updateState now mid new cs err rt = (AList.update mid ?r rt, Inr ?r)"
      using Some True by (cases "isTerminal new") (simp_all add: updateState_def enforceTransition_def Let_def)
    then have "rt' = AList.update mid ?r rt" "res = Inr ?r" using assms by simp_all
    then show thesis by (rule moved[OF Some True _ _ refl])
  qed
qed

text \<open>A sequence of updates of one migration, ended by the first that raises.\<close>

fun update_all ::
  "int \<Rightarrow> string \<Rightarrow> MigrationState list \<Rightarrow> (runtime, state_error, unit) action" where
  "update_all now mid [] rt = (rt, Inr ())"
| "update_all now mid (t # ts) rt = (case updateState now mid t None None rt of
      (rt', Inl e) \<Rightarrow> (rt', Inl e)
    | (rt', Inr _) \<Rightarrow> update_all now mid ts rt')"

lemma update_all_ok:
  "getState rt mid = Some r \<Longrightarrow>
    (\<exists>rt'. update_all now mid ts rt = (rt', Inr ())) \<longleftrightarrow> run_of TRANSITIONS (mstate r) ts"
proof (induction ts arbitrary: rt r)
  case (Cons t ts)
  obtain rt' res where u: "updateState now mid t None None rt = (rt', res)" by fastforce
  then show ?case
  proof (cases rule: updateState_cases)
    case (moved q q')
    then have "getState rt' mid = Some q'" "mstate q' = t" by simp_all
    then show ?thesis using moved u Cons by (simp add: moves_def canTransition_def)
  qed (use u Cons.prems in \<open>auto simp: moves_def canTransition_def\<close>)
qed simp

definition lifecycle_ok :: "MigrationState list" where
  "lifecycle_ok = [VALIDATED, SIMULATED, APPROVED, REPLAYED, EXECUTING, COMPLETED]"

definition lifecycle_failed :: "MigrationState list" where
  "lifecycle_failed = [VALIDATED, SIMULATED, APPROVED, REPLAYED, EXECUTING, FAILED, ROLLED_BACK]"

lemma run_step: "run_of TRANSITIONS s ts \<longleftrightarrow>
    ts = [] \<or> (\<exists>t us. ts = t # us \<and> t \<in> set (TRANSITIONS s) \<and> run_of TRANSITIONS t us)"
  by (cases ts) (auto simp: moves_def)

lemma runs_from_planned:
  "run_of TRANSITIONS PLANNED ts \<longleftrightarrow> prefix ts lifecycle_ok \<or> prefix ts lifecycle_failed"
proof -
  have rb: "run_of TRANSITIONS ROLLED_BACK ts \<longleftrightarrow> prefix ts []" for ts
    by (subst run_step) simp
  have co: "run_of TRANSITIONS COMPLETED ts \<longleftrightarrow> prefix ts []" for ts
    by (subst run_step) simp
  have fa: "run_of TRANSITIONS FAILED ts \<longleftrightarrow> prefix ts [ROLLED_BACK]" for ts
    by (subst run_step) (auto simp: moves_def rb prefix_Cons)
  have ex: "run_of TRANSITIONS EXECUTING ts \<longleftrightarrow> prefix ts [COMPLETED] \<or> prefix ts [FAILED, ROLLED_BACK]" for ts
    by (subst run_step) (auto simp: moves_def co fa prefix_Cons)
  have re: "run_of TRANSITIONS REPLAYED ts
      \<longleftrightarrow> prefix ts [EXECUTING, COMPLETED] \<or> prefix ts [EXECUTING, FAILED, ROLLED_BACK]" for ts
    by (subst run_step) (auto simp: moves_def ex prefix_Cons)
  have ap: "run_of TRANSITIONS APPROVED ts \<longleftrightarrow> prefix ts (drop 3 lifecycle_ok) \<or> prefix ts (drop 3 lifecycle_failed)" for ts
    by (subst run_step) (auto simp: moves_def re prefix_Cons lifecycle_ok_def lifecycle_failed_def)
  have si: "run_of TRANSITIONS SIMULATED ts \<longleftrightarrow> prefix ts (drop 2 lifecycle_ok) \<or> prefix ts (drop 2 lifecycle_failed)" for ts
    by (subst run_step) (auto simp: moves_def ap prefix_Cons lifecycle_ok_def lifecycle_failed_def)
  have va: "run_of TRANSITIONS VALIDATED ts \<longleftrightarrow> prefix ts (drop 1 lifecycle_ok) \<or> prefix ts (drop 1 lifecycle_failed)" for ts
    by (subst run_step) (auto simp: moves_def si prefix_Cons lifecycle_ok_def lifecycle_failed_def)
  show ?thesis
    by (subst run_step) (auto simp: moves_def va prefix_Cons lifecycle_ok_def lifecycle_failed_def)
qed

text \<open>C11: The updates of a new migration that are all accepted are exactly the
  beginnings of the two lifecycles: planned, validated, simulated, approved,
  replayed, executing and then completed, or failed and rolled back. No step can
  be skipped, repeated or taken back.\<close>

theorem migration_lifecycle_is_linear:
  "(\<exists>rt'. update_all later mid ts (fst (createMigration now mid hash rt)) = (rt', Inr ()))
    = (prefix ts lifecycle_ok \<or> prefix ts lifecycle_failed)"
proof -
  let ?r = "snd (createMigration now mid hash rt)"
  have "getState (fst (createMigration now mid hash rt)) mid = Some ?r" "mstate ?r = PLANNED"
    by (simp_all add: createMigration_def Let_def)
  then show ?thesis using update_all_ok runs_from_planned by metis
qed

text \<open>The execution guard and the transition table never agree. When
  \<^verbatim>\<open>guardExecution\<close> lets a migration through, moving it to \<^verbatim>\<open>EXECUTING\<close> raises; when
  the move is accepted, the guard refuses, since the table wants the migration
  replayed after its approval and the guard wants it approved.\<close>

theorem execution_guard_contradicts_table:
  "\<not> (guardExecution rt mid = Inr () \<and> (\<exists>rt' r. updateState now mid EXECUTING cs err rt = (rt', Inr r)))"
proof
  assume a: "guardExecution rt mid = Inr () \<and> (\<exists>rt' r. updateState now mid EXECUTING cs err rt = (rt', Inr r))"
  then obtain q where q: "getState rt mid = Some q" "mstate q = APPROVED"
    by (auto simp: guardExecution_def canExecute_def split: option.splits if_splits)
  obtain rt' r where "updateState now mid EXECUTING cs err rt = (rt', Inr r)" using a by blast
  then show False using q by (cases rule: updateState_cases) (simp_all add: canTransition_def)
qed

text \<open>Rolling a migration back succeeds exactly when it is executing: a
  failure before the execution, or one already recorded as \<^verbatim>\<open>FAILED\<close>, raises and
  leaves the records as they were. A successful rollback forgets the error it was
  called with, because the second transition clears it.\<close>

theorem rollback_only_from_executing:
  "(case rollbackState now mid err rt of
      (rt', Inr r) \<Rightarrow> map_option mstate (getState rt mid) = Some EXECUTING
        \<and> getState rt' mid = Some r \<and> mstate r = ROLLED_BACK \<and> rec_error r = None
        \<and> completedAt r = Some now
    | (rt', Inl e) \<Rightarrow> map_option mstate (getState rt mid) \<noteq> Some EXECUTING \<and> rt' = rt)"
proof (cases "getState rt mid")
  case None
  then show ?thesis by (simp add: rollbackState_def)
next
  case (Some r)
  obtain rt1 res1 where u1: "updateState now mid FAILED None (Some err) rt = (rt1, res1)" by fastforce
  then show ?thesis
  proof (cases rule: updateState_cases)
    case (blocked q)
    then show ?thesis using Some u1 by (auto simp: rollbackState_def canTransition_def)
  next
    case (moved q q1)
    then have "mstate q = EXECUTING" by (cases "mstate q") (simp_all add: canTransition_def)
    obtain rt2 res2 where u2: "updateState now mid ROLLED_BACK None None rt1 = (rt2, res2)" by fastforce
    then show ?thesis
    proof (cases rule: updateState_cases)
      case (moved p p1)
      then show ?thesis
        using u1 u2 \<open>getState rt mid = Some q\<close> \<open>mstate q = EXECUTING\<close> \<open>res1 = Inr q1\<close>
        by (simp add: rollbackState_def isTerminal_def)
    qed (use moved in \<open>auto simp: canTransition_def\<close>)
  qed (use Some in simp)
qed

section \<open>Records over time\<close>

text \<open>The calls that change the records, and the records they leave.\<close>

datatype runtime_call =
    Create int string "string option"
  | Update int string MigrationState "string option" "string option"
  | Rollback int string string
  | Cleanup int int

fun call :: "runtime_call \<Rightarrow> runtime \<Rightarrow> runtime" where
  "call (Create now mid hash) rt = fst (createMigration now mid hash rt)"
| "call (Update now mid new cs err) rt = fst (updateState now mid new cs err rt)"
| "call (Rollback now mid err) rt = fst (rollbackState now mid err rt)"
| "call (Cleanup now age) rt = fst (cleanup now age rt)"

definition record_ok :: "string \<times> MigrationStateRecord \<Rightarrow> bool" where
  "record_ok e = (migrationId (snd e) = fst e
    \<and> (completedAt (snd e) \<noteq> None \<longleftrightarrow> isTerminal (mstate (snd e))))"

definition runtime_ok :: "runtime \<Rightarrow> bool" where
  "runtime_ok rt = (distinct (map fst rt) \<and> (\<forall>e \<in> set rt. record_ok e))"

lemma runtime_ok_update:
  "runtime_ok rt \<Longrightarrow> record_ok (mid, r) \<Longrightarrow> runtime_ok (AList.update mid r rt)"
  unfolding runtime_ok_def
proof (intro conjI ballI)
  assume rt: "distinct (map fst rt) \<and> (\<forall>e \<in> set rt. record_ok e)" and r: "record_ok (mid, r)"
  show "distinct (map fst (AList.update mid r rt))" using rt by (simp add: distinct_update)
  fix e assume "e \<in> set (AList.update mid r rt)"
  moreover have "set (AList.update mid r rt) \<subseteq> insert (mid, r) (set rt)"
    by (induction rt) auto
  ultimately show "record_ok e" using rt r by auto
qed

lemma getState_ok: "runtime_ok rt \<Longrightarrow> getState rt mid = Some r \<Longrightarrow> record_ok (mid, r)"
  by (auto simp: runtime_ok_def getState_def dest: map_of_SomeD)

lemma updateState_ok:
  assumes "runtime_ok rt" "updateState now mid new cs err rt = (rt', res)"
  shows "runtime_ok rt'"
  using assms(2)
proof (cases rule: updateState_cases)
  case (moved r r')
  have "record_ok (mid, r)" using getState_ok[OF assms(1) moved(1)] .
  moreover have "\<not> isTerminal (mstate r)"
    using moved(2) by (auto simp: isTerminal_def canTransition_def)
  ultimately have "record_ok (mid, r')" using moved(5) by (auto simp: record_ok_def)
  then show ?thesis using assms(1) moved(3) runtime_ok_update by simp
qed (use assms(1) in simp_all)

lemma call_ok: "runtime_ok rt \<Longrightarrow> runtime_ok (call c rt)"
proof (cases c)
  case (Create now mid hash)
  assume "runtime_ok rt"
  then show ?thesis
    by (simp add: Create createMigration_def Let_def runtime_ok_update record_ok_def isTerminal_def)
next
  case (Update now mid new cs err)
  assume "runtime_ok rt"
  then show ?thesis using updateState_ok Update by (metis call.simps(2) prod.collapse)
next
  case (Rollback now mid err)
  assume "runtime_ok rt"
  then show ?thesis
    using updateState_ok
    by (auto simp: Rollback rollbackState_def split: option.splits prod.splits sum.splits)
      (metis fst_conv prod.collapse)+
next
  case (Cleanup now age)
  assume "runtime_ok rt"
  then show ?thesis by (auto simp: Cleanup cleanup_def runtime_ok_def Let_def distinct_map_filter)
qed

text \<open>After any sequence of calls on an empty runtime, every record is filed
  under its own identifier and carries a completion time exactly when it has been
  completed or rolled back. So \<^verbatim>\<open>cleanup\<close> never removes a migration that is still
  under way, nor one that failed and was not rolled back, however old; and the
  health summary counts every migration once.\<close>

theorem runtime_records_invariant:
  "let rt = for_each call calls [] in
    distinct (map fst rt)
    \<and> list_all (\<lambda>(k, r). migrationId r = k \<and> (completedAt r \<noteq> None) = isTerminal (mstate r)) rt
    \<and> filter (\<lambda>(k, r). \<not> isTerminal (mstate r)) (fst (cleanup now age rt))
        = filter (\<lambda>(k, r). \<not> isTerminal (mstate r)) rt
    \<and> hs_total (getHealthSummary rt) = hs_healthy (getHealthSummary rt)
        + hs_unhealthy (getHealthSummary rt) + hs_inProgress (getHealthSummary rt)"
proof -
  define rt where "rt = for_each call calls []"
  have ok: "runtime_ok rt"
    unfolding rt_def by (rule for_each_invariant) (simp_all add: call_ok, simp add: runtime_ok_def)
  then have all: "list_all (\<lambda>(k, r). migrationId r = k \<and> (completedAt r \<noteq> None) = isTerminal (mstate r)) rt"
    by (auto simp: runtime_ok_def record_ok_def list_all_iff)
  have keep: "filter (\<lambda>(k, r). \<not> isTerminal (mstate r)) (fst (cleanup now age rt))
      = filter (\<lambda>(k, r). \<not> isTerminal (mstate r)) rt"
    unfolding cleanup_def Let_def fst_conv filter_filter
    using all by (intro filter_cong) (auto simp: list_all_iff split: option.splits)
  have part: "length (map snd rt) = length (filter (\<lambda>r. mstate r = COMPLETED) (map snd rt))
      + length (filter (\<lambda>r. mstate r = FAILED \<or> mstate r = ROLLED_BACK) (map snd rt))
      + length (filter (\<lambda>r. mstate r \<noteq> COMPLETED \<and> mstate r \<noteq> FAILED \<and> mstate r \<noteq> ROLLED_BACK) (map snd rt))"
    by (induction rt) auto
  show ?thesis
    unfolding rt_def[symmetric] Let_def
    using ok all keep part by (simp add: runtime_ok_def getHealthSummary_def Let_def)
qed

text \<open>Creating a migration that already exists starts its record over, whatever
  state it had reached: a completed or executing migration is planned again and
  loses its completion time, checksum and error.\<close>

lemma create_restarts_migration:
  "let (rt', r) = createMigration now mid hash rt in
    getState rt' mid = Some r \<and> mstate r = PLANNED \<and> completedAt r = None \<and> rec_error r = None
    \<and> (k = mid \<or> getState rt' k = getState rt k)"
  by (simp add: createMigration_def Let_def)

end
