(* ===== verification/Exec_Planner.thy ===== *)
theory Exec_Planner
  imports Migration_Plan Migration_State Js_Regex
begin

text \<open>
  The execution planner (\<^verbatim>\<open>src/schema/engine/execution-planner.ts\<close>): the
  dependency graph of a plan, its topological sort, the simulation, the time
  estimate, the readiness check and the split of a plan into statements run at
  boot and background backfill jobs. The lemmas prove that the sort respects
  every dependency, that it fails exactly on a cycle, and that phases never
  interleave.
\<close>

section \<open>The topological sort\<close>

definition buildDependencyGraph :: "MigrationExecutionPlan \<Rightarrow> dep_map" where
  "buildDependencyGraph plan =
    link_phases (plan_phases plan) (set_own_dependencies (plan_operations plan) [])"

text \<open>\<^verbatim>\<open>visit\<close>, and the loop over the dependencies inside it. The state is the set of
  visited statements and the result so far; a circular dependency is raised as
  the statement it was noticed at. \<^verbatim>\<open>visiting.delete\<close> undoes the addition before
  the call returns, so the set is an argument.\<close>

type_synonym topo_state = "string set \<times> string list"

function visit :: "dep_map \<Rightarrow> string list \<Rightarrow> string set \<Rightarrow> string \<Rightarrow> topo_state \<Rightarrow> string + topo_state"
  and visit_deps :: "dep_map \<Rightarrow> string list \<Rightarrow> string set \<Rightarrow> string list \<Rightarrow> topo_state \<Rightarrow> string + topo_state"
where
  "visit g operations visiting node (visited, result) =
    (if node \<in> visiting then Inl node
     else if node \<in> visited then Inr (visited, result)
     else (case visit_deps g operations (insert node visiting) (deps_of g node) (visited, result) of
         Inl e \<Rightarrow> Inl e
       | Inr (visited', result') \<Rightarrow> Inr (insert node visited', result' @ [node])))"
| "visit_deps g operations visiting [] st = Inr st"
| "visit_deps g operations visiting (dep # deps) st =
    (if dep \<in> set operations then
      (case visit g operations visiting dep st of
         Inl e \<Rightarrow> Inl e
       | Inr st' \<Rightarrow> visit_deps g operations visiting deps st')
     else visit_deps g operations visiting deps st)"
  by pat_completeness auto

text \<open>A statement that is visited with dependencies to follow is a key of the map
  not yet being visited, so the keys bound the depth of the search.\<close>

termination
proof (relation "measures [
    \<lambda>x. case x of Inl (g, ops, vis, node, st) \<Rightarrow> card (fst ` set g - vis)
        | Inr (g, ops, vis, deps, st) \<Rightarrow> card (fst ` set g - vis),
    \<lambda>x. case x of Inl _ \<Rightarrow> 1 | Inr (g, ops, vis, deps, st) \<Rightarrow> 2 * length deps]")
  fix g :: dep_map and ops :: "string list" and vis :: "string set" and node :: string
    and visited :: "string set" and result :: "string list"
  assume "node \<notin> vis" "node \<notin> visited"
  then show "(Inr (g, ops, insert node vis, deps_of g node, visited, result),
      Inl (g, ops, vis, node, visited, result)) \<in> measures [
    \<lambda>x. case x of Inl (g, ops, vis, node, st) \<Rightarrow> card (fst ` set g - vis)
        | Inr (g, ops, vis, deps, st) \<Rightarrow> card (fst ` set g - vis),
    \<lambda>x. case x of Inl _ \<Rightarrow> 1 | Inr (g, ops, vis, deps, st) \<Rightarrow> 2 * length deps]"
  proof (cases "node \<in> fst ` set g")
    case True
    then have "card (fst ` set g - insert node vis) < card (fst ` set g - vis)"
      using \<open>node \<notin> vis\<close> by (intro psubset_card_mono) auto
    then show ?thesis by simp
  next
    case False
    then have "fst ` set g - insert node vis = fst ` set g - vis" by auto
    then show ?thesis using False by (simp add: deps_of_no_key)
  qed
qed simp_all

declare visit.simps [simp del]

fun visit_all :: "dep_map \<Rightarrow> string list \<Rightarrow> string list \<Rightarrow> topo_state \<Rightarrow> string + topo_state" where
  "visit_all g operations [] st = Inr st"
| "visit_all g operations (op # ops) (visited, result) =
    (if op \<notin> visited then
      (case visit g operations {} op (visited, result) of
         Inl e \<Rightarrow> Inl e
       | Inr st' \<Rightarrow> visit_all g operations ops st')
     else visit_all g operations ops (visited, result))"

definition topologicalSort :: "dep_map \<Rightarrow> string list \<Rightarrow> string + string list" where
  "topologicalSort g operations = (case visit_all g operations operations ({}, []) of
      Inl e \<Rightarrow> Inl e
    | Inr (visited, result) \<Rightarrow> Inr result)"

text \<open>The dependencies the sort follows: those among the statements to order.\<close>

definition inner_deps :: "dep_map \<Rightarrow> string list \<Rightarrow> string \<Rightarrow> string list" where
  "inner_deps g operations n = filter (\<lambda>d. d \<in> set operations) (deps_of g n)"

definition sorted_so_far :: "dep_map \<Rightarrow> string list \<Rightarrow> string set \<Rightarrow> topo_state \<Rightarrow> bool" where
  "sorted_so_far g ops vis st = (case st of (visited, result) \<Rightarrow>
    visited = set result \<and> distinct result \<and> deps_first (inner_deps g ops) result
      \<and> set result \<subseteq> set ops \<and> set result \<inter> vis = {})"

lemma visit_sorts:
  "visit g ops vis n st = Inr st' \<Longrightarrow> n \<in> set ops \<Longrightarrow> sorted_so_far g ops vis st
    \<Longrightarrow> sorted_so_far g ops vis st' \<and> set (snd st) \<subseteq> set (snd st') \<and> n \<in> set (snd st')"
  "visit_deps g ops vis ds st = Inr st' \<Longrightarrow> sorted_so_far g ops vis st
    \<Longrightarrow> sorted_so_far g ops vis st' \<and> set (snd st) \<subseteq> set (snd st')
      \<and> set ds \<inter> set ops \<subseteq> set (snd st')"
proof (induction g ops vis n st and g ops vis ds st arbitrary: st' and st' rule: visit_visit_deps.induct)
  case (1 g ops vis n V R)
  have off: "n \<notin> vis" using 1(2) by (auto simp: visit.simps)
  show ?case
  proof (cases "n \<in> V")
    case True
    then show ?thesis using 1(2,4) off by (auto simp: visit.simps sorted_so_far_def)
  next
    case False
    obtain V1 R1 where v: "visit_deps g ops (insert n vis) (deps_of g n) (V, R) = Inr (V1, R1)"
        "st' = (insert n V1, R1 @ [n])"
      using 1(2) off False by (auto simp: visit.simps split: sum.splits)
    have "sorted_so_far g ops (insert n vis) (V, R)"
      using 1(4) False by (simp add: sorted_so_far_def)
    then have s: "sorted_so_far g ops (insert n vis) (V1, R1)" "set R \<subseteq> set R1"
        "set (deps_of g n) \<inter> set ops \<subseteq> set R1"
      using 1(1)[OF off False v(1)] by auto
    then have "sorted_so_far g ops vis st'"
      using v(2) off 1(3) by (auto simp: sorted_so_far_def inner_deps_def)
    then show ?thesis using s v(2) by auto
  qed
next
  case (3 g ops vis d ds st)
  show ?case
  proof (cases "d \<in> set ops")
    case True
    then obtain st1 where "visit g ops vis d st = Inr st1" "visit_deps g ops vis ds st1 = Inr st'"
      using 3(4) by (auto split: sum.splits)
    then show ?thesis using 3(1,2,5) True by fastforce
  qed (use 3 in auto)
qed simp

lemma visit_all_sorts:
  "visit_all g ops xs st = Inr st' \<Longrightarrow> set xs \<subseteq> set ops \<Longrightarrow> sorted_so_far g ops {} st
    \<Longrightarrow> sorted_so_far g ops {} st' \<and> set (snd st) \<subseteq> set (snd st') \<and> set xs \<subseteq> set (snd st')"
proof (induction g ops xs st arbitrary: st' rule: visit_all.induct)
  case (2 g ops x xs V R)
  show ?case
  proof (cases "x \<in> V")
    case True
    then have "sorted_so_far g ops {} st' \<and> set R \<subseteq> set (snd st') \<and> set xs \<subseteq> set (snd st')"
      using 2 by simp
    then show ?thesis using True 2(5) by (auto simp: sorted_so_far_def)
  next
    case False
    then obtain st1 where st1: "visit g ops {} x (V, R) = Inr st1" "visit_all g ops xs st1 = Inr st'"
      using 2(3) by (auto split: sum.splits)
    have "sorted_so_far g ops {} st1 \<and> set R \<subseteq> set (snd st1) \<and> x \<in> set (snd st1)"
      using visit_sorts(1)[OF st1(1)] 2(4,5) by simp
    then show ?thesis using 2(1)[OF False st1(1) st1(2)] 2(4) by auto
  qed
qed simp

text \<open>A raised circular dependency is one.\<close>

lemma visit_error:
  "visit g ops vis n st = Inl e \<Longrightarrow> n \<in> set ops
    \<Longrightarrow> (\<And>v. v \<in> vis \<Longrightarrow> (depends (inner_deps g ops))\<^sup>+\<^sup>+ v n) \<Longrightarrow> cyclic (inner_deps g ops) e"
  "visit_deps g ops vis ds st = Inl e
    \<Longrightarrow> (\<And>v d. v \<in> vis \<Longrightarrow> d \<in> set ds \<Longrightarrow> d \<in> set ops \<Longrightarrow> (depends (inner_deps g ops))\<^sup>+\<^sup>+ v d)
    \<Longrightarrow> cyclic (inner_deps g ops) e"
proof (induction g ops vis n st and g ops vis ds st rule: visit_visit_deps.induct)
  case (1 g ops vis n V R)
  show ?case
  proof (cases "n \<in> vis")
    case True
    then show ?thesis using 1(2) 1(4)[OF True] by (simp add: visit.simps cyclic_def)
  next
    case False
    then have "n \<notin> V" "visit_deps g ops (insert n vis) (deps_of g n) (V, R) = Inl e"
      using 1(2) by (auto simp: visit.simps split: if_splits sum.splits)
    moreover have "(depends (inner_deps g ops))\<^sup>+\<^sup>+ v d"
      if "v \<in> insert n vis" "d \<in> set (deps_of g n)" "d \<in> set ops" for v d
    proof -
      have nd: "depends (inner_deps g ops) n d" using that by (simp add: depends_def inner_deps_def)
      show ?thesis
      proof (cases "v = n")
        case False
        then show ?thesis using that 1(4)[of v] nd by (auto intro: tranclp.trancl_into_trancl)
      qed (use nd in auto)
    qed
    ultimately show ?thesis using 1(1) False by blast
  qed
next
  case (3 g ops vis d ds st)
  then show ?case by (auto split: if_splits sum.splits)
qed simp

lemma visit_all_error:
  "visit_all g ops xs st = Inl e \<Longrightarrow> set xs \<subseteq> set ops \<Longrightarrow> cyclic (inner_deps g ops) e"
proof (induction g ops xs st rule: visit_all.induct)
  case (2 g ops x xs V R)
  then show ?case
    using visit_error(1)[of g ops "{}" x "(V, R)" e] by (auto split: if_splits sum.splits)
qed simp

text \<open>What the sort promises.\<close>

definition orders :: "dep_map \<Rightarrow> string list \<Rightarrow> string list \<Rightarrow> bool" where
  "orders g ops R = (distinct R \<and> set R = set ops \<and> deps_first (inner_deps g ops) R)"

lemma topologicalSort_Inr: "topologicalSort g ops = Inr R \<Longrightarrow> orders g ops R"
  using visit_all_sorts[of g ops ops "({}, [])"]
  by (fastforce simp: topologicalSort_def orders_def sorted_so_far_def split: sum.splits prod.splits)

lemma topologicalSort_Inl: "topologicalSort g ops = Inl e \<Longrightarrow> cyclic (inner_deps g ops) e"
  using visit_all_error[of g ops ops "({}, [])" e]
  by (auto simp: topologicalSort_def split: sum.splits prod.splits)

lemma cyclic_inner: "cyclic (inner_deps g ops) n \<Longrightarrow> n \<in> set ops"
  by (auto simp: cyclic_def depends_def inner_deps_def elim: tranclp.cases)

lemma topologicalSort_cyclic:
  "cyclic (inner_deps g ops) n \<Longrightarrow> \<exists>e. topologicalSort g ops = Inl e"
  using deps_first_acyclic[of "inner_deps g ops"] cyclic_inner[of g ops n]
    topologicalSort_Inr[of g ops]
  by (cases "topologicalSort g ops") (auto simp: orders_def)

section \<open>Resolving the execution order\<close>

record ExecutionOrder =
  eo_phases :: "phase_name list"
  eo_operations :: "string list"
  eo_dependencies :: dep_map

definition groupByPhases :: "PhasePlan list \<Rightarrow> string list \<Rightarrow> phase_name list" where
  "groupByPhases phases order =
    map phase (filter (\<lambda>p. \<exists>op \<in> set order. op \<in> set (phase_order p)) phases)"

definition resolveExecutionOrder :: "MigrationExecutionPlan \<Rightarrow> string + ExecutionOrder" where
  "resolveExecutionOrder plan = (
    let dependencies = buildDependencyGraph plan
    in case topologicalSort dependencies (executionOrder plan) of
        Inl e \<Rightarrow> Inl e
      | Inr order \<Rightarrow> Inr \<lparr> eo_phases = groupByPhases (plan_phases plan) order,
          eo_operations = order, eo_dependencies = dependencies \<rparr>)"

lemma link_to_previous_grows:
  "set (deps_of g n) \<subseteq> set (deps_of (link_to_previous p q g) n)"
proof -
  have "set (deps_of g n) \<subseteq> set (deps_of (for_each (\<lambda>op g. AList.update (sql op)
      (deps_of g (sql op) @ phase_order p) g) ops g) n)" for ops
    by (rule for_each_invariant) (auto simp: deps_of_update)
  then show ?thesis by (simp add: link_to_previous_def)
qed

lemma link_phases_grows: "set (deps_of g n) \<subseteq> set (deps_of (link_phases ps g) n)"
  using link_to_previous_grows
  by (induction ps g rule: link_phases.induct) (auto, blast)

lemma link_to_previous_adds:
  "op \<in> set (phase_operations q) \<Longrightarrow> set (phase_order p) \<subseteq> set (deps_of (link_to_previous p q g) (sql op))"
proof -
  let ?f = "\<lambda>op g. AList.update (sql op) (deps_of g (sql op) @ phase_order p) g"
  have keep: "set (phase_order p) \<subseteq> set (deps_of (for_each ?f ops g) n)"
    if "set (phase_order p) \<subseteq> set (deps_of g n)" for ops g n
    using that by (rule for_each_invariant) (auto simp: deps_of_update)
  have "op \<in> set ops \<Longrightarrow> set (phase_order p) \<subseteq> set (deps_of (for_each ?f ops g) (sql op))" for ops
  proof (induction ops arbitrary: g)
    case (Cons x xs)
    show ?case
    proof (cases "op = x")
      case True
      then show ?thesis using keep[of "?f x g" "sql op" xs] by (simp add: deps_of_update)
    qed (use Cons in simp)
  qed simp
  then show "op \<in> set (phase_operations q) \<Longrightarrow> ?thesis" by (simp add: link_to_previous_def)
qed

lemma link_phases_adds:
  "Suc i < length ps \<Longrightarrow> op \<in> set (phase_operations (ps ! Suc i))
    \<Longrightarrow> set (phase_order (ps ! i)) \<subseteq> set (deps_of (link_phases ps g) (sql op))"
proof (induction ps g arbitrary: i rule: link_phases.induct)
  case (1 p q rest g)
  show ?case
  proof (cases i)
    case 0
    have "set (phase_order p) \<subseteq> set (deps_of (link_to_previous p q g) (sql op))"
      using 1(3) 0 by (intro link_to_previous_adds) simp
    then show ?thesis
      using 0 link_phases_grows[of "link_to_previous p q g" "sql op" "q # rest"] by auto
  next
    case (Suc j)
    then show ?thesis using 1(1)[of j] 1(2,3) by simp
  qed
qed simp_all

text \<open>The plans the lifecycle splitter produces: the order of a phase lists its
  operations, empty phases are dropped, and the plan's order joins the phases.\<close>

definition split_plan :: "MigrationExecutionPlan \<Rightarrow> bool" where
  "split_plan plan \<longleftrightarrow>
    list_all (\<lambda>p. phase_order p = map sql (phase_operations p) \<and> phase_operations p \<noteq> []) (plan_phases plan)
    \<and> executionOrder plan = buildExecutionOrder (plan_phases plan)"

lemma split_plan_phase:
  assumes "split_plan plan" "i < length (plan_phases plan)"
  shows "phase_order (plan_phases plan ! i) = map sql (phase_operations (plan_phases plan ! i))"
    "phase_order (plan_phases plan ! i) \<noteq> []"
    "set (phase_order (plan_phases plan ! i)) \<subseteq> set (executionOrder plan)"
proof -
  show "phase_order (plan_phases plan ! i) = map sql (phase_operations (plan_phases plan ! i))"
    "phase_order (plan_phases plan ! i) \<noteq> []"
    using assms nth_mem[OF assms(2)] by (auto simp: split_plan_def list_all_iff)
  have "set (phase_order (plan_phases plan ! i)) \<subseteq> set (concat (map phase_order (plan_phases plan)))"
    using nth_mem[OF assms(2)] by fastforce
  then show "set (phase_order (plan_phases plan ! i)) \<subseteq> set (executionOrder plan)"
    using assms(1) by (simp add: split_plan_def buildExecutionOrder_def)
qed

lemma resolve_orders:
  "resolveExecutionOrder plan = Inr eo \<Longrightarrow>
    orders (buildDependencyGraph plan) (executionOrder plan) (eo_operations eo)"
  by (auto simp: resolveExecutionOrder_def Let_def split: sum.splits dest: topologicalSort_Inr)

lemma next_phase_after:
  assumes "split_plan plan" "resolveExecutionOrder plan = Inr eo" "Suc i < length (plan_phases plan)"
    "a \<in> set (phase_order (plan_phases plan ! i))" "b \<in> set (phase_order (plan_phases plan ! Suc i))"
  shows "precedes (eo_operations eo) a b"
proof -
  let ?g = "buildDependencyGraph plan" and ?ops = "executionOrder plan"
  obtain op where op: "op \<in> set (phase_operations (plan_phases plan ! Suc i))" "b = sql op"
    using assms(1,3,5) split_plan_phase(1) by fastforce
  have "a \<in> set (deps_of ?g b)"
    using link_phases_adds[OF assms(3) op(1)] assms(4) op(2) by (auto simp: buildDependencyGraph_def)
  moreover have "a \<in> set ?ops" "b \<in> set ?ops"
    using assms split_plan_phase(3)[OF assms(1)] by (meson Suc_lessD subsetD)+
  ultimately have "depends (inner_deps ?g ?ops) b a" by (simp add: depends_def inner_deps_def)
  then show ?thesis
    using resolve_orders[OF assms(2)] \<open>b \<in> set ?ops\<close>
    by (intro deps_first_precedes) (auto simp: orders_def)
qed

lemma later_phase_after:
  assumes "split_plan plan" "resolveExecutionOrder plan = Inr eo"
    "a \<in> set (phase_order (plan_phases plan ! i))"
  shows "i + Suc k < length (plan_phases plan) \<Longrightarrow> b \<in> set (phase_order (plan_phases plan ! (i + Suc k)))
    \<Longrightarrow> precedes (eo_operations eo) a b"
proof (induction k arbitrary: b)
  case 0
  then show ?case using next_phase_after[OF assms(1,2) _ assms(3)] by simp
next
  case (Suc k)
  obtain m where m: "m \<in> set (phase_order (plan_phases plan ! (i + Suc k)))"
    using split_plan_phase(2)[OF assms(1), of "i + Suc k"] Suc.prems(1)
    by (metis Suc_lessD add_Suc_right hd_in_set)
  have "precedes (eo_operations eo) a m" using Suc.IH[OF _ m] Suc.prems by simp
  moreover have "precedes (eo_operations eo) m b"
    using next_phase_after[OF assms(1,2), of "i + Suc k" m b] Suc.prems m by simp
  moreover have "distinct (eo_operations eo)"
    using resolve_orders[OF assms(2)] by (simp add: orders_def)
  ultimately show ?case by (rule precedes_trans[rotated])
qed

text \<open>In the order resolved for a plan of the lifecycle splitter, every
  statement of a phase comes before every statement of every later phase: the
  phases never interleave, whatever the operations themselves depend on. The
  order lists every statement of the plan exactly once.\<close>

theorem phases_never_interleave:
  assumes "split_plan plan" "resolveExecutionOrder plan = Inr eo"
    "i < j" "j < length (plan_phases plan)"
    "a \<in> set (phase_order (plan_phases plan ! i))" "b \<in> set (phase_order (plan_phases plan ! j))"
  shows "precedes (eo_operations eo) a b
    \<and> distinct (eo_operations eo) \<and> set (eo_operations eo) = set (executionOrder plan)"
proof (intro conjI)
  obtain k where "j = i + Suc k" using assms(3) by (metis add_Suc_right less_iff_Suc_add)
  then show "precedes (eo_operations eo) a b"
    using later_phase_after[OF assms(1,2,5)] assms(4,6) by simp
qed (use resolve_orders[OF assms(2)] in \<open>auto simp: orders_def\<close>)

text \<open>C31: The planner resolves a plan exactly when the dependencies among the plan's
  statements have no cycle, and then every statement comes after the ones it
  depends on. A refused plan is refused at a statement of a cycle. A statement
  that occurs in two phases is always refused.\<close>

theorem resolution_iff_acyclic:
  "case resolveExecutionOrder plan of
      Inr eo \<Rightarrow> deps_first (inner_deps (buildDependencyGraph plan) (executionOrder plan)) (eo_operations eo)
        \<and> (\<nexists>n. cyclic (inner_deps (buildDependencyGraph plan) (executionOrder plan)) n)
    | Inl e \<Rightarrow> cyclic (inner_deps (buildDependencyGraph plan) (executionOrder plan)) e"
proof -
  let ?g = "buildDependencyGraph plan" and ?ops = "executionOrder plan"
  show ?thesis
  proof (cases "topologicalSort ?g ?ops")
    case (Inl e)
    then show ?thesis using topologicalSort_Inl by (simp add: resolveExecutionOrder_def Let_def)
  next
    case (Inr R)
    then have "deps_first (inner_deps ?g ?ops) R" "\<nexists>n. cyclic (inner_deps ?g ?ops) n"
      using topologicalSort_Inr[OF Inr] topologicalSort_cyclic[of ?g ?ops] by (auto simp: orders_def)
    then show ?thesis using Inr by (simp add: resolveExecutionOrder_def Let_def)
  qed
qed

text \<open>A plan already in an order that respects its dependencies is left as it is.\<close>

lemma visit_deps_done:
  "set ds \<inter> set ops \<subseteq> set R \<Longrightarrow> set R \<inter> vis = {} \<Longrightarrow> visit_deps g ops vis ds (set R, R) = Inr (set R, R)"
proof (induction ds)
  case (Cons d ds)
  then have "d \<in> set ops \<Longrightarrow> visit g ops vis d (set R, R) = Inr (set R, R)"
    by (auto simp: visit.simps)
  then show ?case using Cons by auto
qed simp

lemma visit_all_in_order:
  "distinct (R @ xs) \<Longrightarrow> deps_first (inner_deps g ops) (R @ xs) \<Longrightarrow> set xs \<subseteq> set ops
    \<Longrightarrow> visit_all g ops xs (set R, R) = Inr (set (R @ xs), R @ xs)"
proof (induction xs arbitrary: R)
  case (Cons x xs)
  have "deps_first (inner_deps g ops) (R @ [x])"
    using Cons.prems(2) deps_first_prefix[of _ "R @ [x]" xs] by simp
  then have "set (deps_of g x) \<inter> set ops \<subseteq> set R" by (auto simp: inner_deps_def)
  then have "visit_deps g ops {x} (deps_of g x) (set R, R) = Inr (set R, R)"
    using Cons.prems(1) by (intro visit_deps_done) auto
  then have "visit g ops {} x (set R, R) = Inr (set (R @ [x]), R @ [x])"
    using Cons.prems(1) by (simp add: visit.simps)
  then show ?case using Cons.IH[of "R @ [x]"] Cons.prems by simp
qed simp

lemma topologicalSort_in_order:
  "distinct ops \<Longrightarrow> deps_first (inner_deps g ops) ops \<Longrightarrow> topologicalSort g ops = Inr ops"
  using visit_all_in_order[of "[]" ops g ops] by (simp add: topologicalSort_def)

section \<open>Table names and dependencies of a simulation\<close>

definition table_patterns :: "rx list list" where
  "table_patterns = map (\<lambda>kw. kw @ spaces @ opt_quote @ grp 1 words)
    [kw2 ''CREATE'' ''TABLE'', kw2 ''ALTER'' ''TABLE'', kw2 ''DROP'' ''TABLE'',
     kw2 ''INSERT'' ''INTO'', [Lit ''UPDATE''], kw2 ''DELETE'' ''FROM'']"

fun first_match :: "rx list list \<Rightarrow> string \<Rightarrow> string option" where
  "first_match [] s = None"
| "first_match (p # ps) s = (case rx_match p s of
      Some cs \<Rightarrow> Some (captured cs 1)
    | None \<Rightarrow> first_match ps s)"

definition extractTableName :: "string \<Rightarrow> string option" where
  "extractTableName s = first_match table_patterns s"

datatype simulation_error =
    MissingDependency string string
  | TableMustExist string
  | CircularDependency string
  | StateError state_error

text \<open>The operations that the creations and the drops of tables are read from: an
  operation on a table counts as a creation when its text has \<^verbatim>\<open>CREATE TABLE\<close> in it,
  and otherwise as a drop when it has \<^verbatim>\<open>DROP TABLE\<close>. The name is tested for
  truth, but a match has at least one character.\<close>

definition creates_table :: "SchemaOperation \<Rightarrow> string \<Rightarrow> bool" where
  "creates_table op t = (extractTableName (sql op) = Some t
    \<and> includes_str ''CREATE TABLE'' (toUpperCase (sql op)))"

definition drops_table :: "SchemaOperation \<Rightarrow> string \<Rightarrow> bool" where
  "drops_table op t = (extractTableName (sql op) = Some t
    \<and> \<not> includes_str ''CREATE TABLE'' (toUpperCase (sql op))
    \<and> includes_str ''DROP TABLE'' (toUpperCase (sql op)))"

definition missing_dependencies :: "ExecutionOrder \<Rightarrow> simulation_error list" where
  "missing_dependencies eo = concat (map (\<lambda>(operation, deps).
      map (MissingDependency operation) (filter (\<lambda>d. d \<notin> set (eo_operations eo)) deps))
    (eo_dependencies eo))"

definition missing_tables :: "SchemaOperation list \<Rightarrow> simulation_error list" where
  "missing_tables ops = concat (map (\<lambda>op. case extractTableName (sql op) of
      Some t \<Rightarrow> (if t \<noteq> [] \<and> \<not> (\<exists>p \<in> set ops. creates_table p t) \<and> \<not> (\<exists>p \<in> set ops. drops_table p t)
        then [TableMustExist t] else [])
    | None \<Rightarrow> []) ops)"

definition validateDependencies :: "MigrationExecutionPlan \<Rightarrow> ExecutionOrder \<Rightarrow> simulation_error list" where
  "validateDependencies plan eo = missing_dependencies eo @ missing_tables (plan_operations plan)"

section \<open>Time estimates\<close>

definition digit_value :: "char \<Rightarrow> nat" where
  "digit_value c = of_char c - 48"

definition parseInt_digits :: "string \<Rightarrow> nat" where
  "parseInt_digits s = foldl (\<lambda>n c. 10 * n + digit_value c) 0 s"

definition time_pattern :: "rx list" where
  "time_pattern = grp 1 [One is_digit, Many is_digit] @ grp 2 [One (\<lambda>c. c \<in> {CHR ''s'', CHR ''m'', CHR ''h''})]"

definition parseTimeEstimate :: "string \<Rightarrow> nat" where
  "parseTimeEstimate s = (case rx_match time_pattern s of
      None \<Rightarrow> 300
    | Some cs \<Rightarrow>
        let v = parseInt_digits (captured cs 1); unit = captured cs 2
        in if unit = ''s'' then v else if unit = ''m'' then v * 60
           else if unit = ''h'' then v * 3600 else 300)"

fun category_seconds :: "SqlCategory \<Rightarrow> nat" where
  "category_seconds SAFE = 30"
| "category_seconds DATA = 300"
| "category_seconds BREAKING = 600"
| "category_seconds FIX_CATEGORY = 0"

definition operation_seconds :: "SchemaOperation \<Rightarrow> nat" where
  "operation_seconds op = (
    let t = (case op_metadata op of Some m \<Rightarrow> estimatedTime m | None \<Rightarrow> None)
    in if truthy t then parseTimeEstimate (the t) else category_seconds (category op))"

definition estimateExecutionTime :: "MigrationExecutionPlan \<Rightarrow> string" where
  "estimateExecutionTime plan = (
    let total = sum_list (map operation_seconds (plan_operations plan))
    in if total < 60 then nat_str total @ ''s''
       else if total < 3600 then nat_str (total div 60) @ ''m '' @ nat_str (total mod 60) @ ''s''
       else nat_str (total div 3600) @ ''h '' @ nat_str ((total mod 3600) div 60) @ ''m'')"

section \<open>Simulation\<close>

record SimulationResult =
  sim_success :: bool
  sim_errors :: "simulation_error list"
  sim_order :: "string list"
  sim_time :: string

definition sim_failure :: "simulation_error list \<Rightarrow> SimulationResult" where
  "sim_failure es = \<lparr> sim_success = False, sim_errors = es, sim_order = [], sim_time = ''0s'' \<rparr>"

text \<open>The digest of a simulation is a function of the plan's hash, the resolved
  order and the dependencies; the digest itself is a parameter.\<close>

type_synonym sim_hash_fn = "string \<Rightarrow> string list \<Rightarrow> dep_map \<Rightarrow> string"

definition calculateSimulationHash ::
  "sim_hash_fn \<Rightarrow> MigrationExecutionPlan \<Rightarrow> ExecutionOrder \<Rightarrow> string" where
  "calculateSimulationHash sha plan eo = sha (plan_hash plan) (eo_operations eo) (eo_dependencies eo)"

text \<open>The simulation digest is written into the runtime's own record before its
  state is moved, so it stays when the move raises.\<close>

definition simulateExecution ::
  "int \<Rightarrow> sim_hash_fn \<Rightarrow> MigrationExecutionPlan \<Rightarrow> string \<Rightarrow> runtime \<Rightarrow> runtime \<times> SimulationResult" where
  "simulateExecution now sha plan mid rt = (case resolveExecutionOrder plan of
      Inl node \<Rightarrow> (rt, sim_failure [CircularDependency node])
    | Inr eo \<Rightarrow>
        let errors = validateDependencies plan eo
        in if errors \<noteq> [] then (rt, sim_failure errors)
        else
          let success = \<lparr> sim_success = True, sim_errors = [], sim_order = eo_operations eo,
                sim_time = estimateExecutionTime plan \<rparr>
          in case getState rt mid of
              None \<Rightarrow> (rt, success)
            | Some record \<Rightarrow>
                let rt1 = AList.update mid (record\<lparr> simulationHash :=
                      Some (calculateSimulationHash sha plan eo) \<rparr>) rt
                in case updateState now mid SIMULATED None None rt1 of
                    (rt2, Inl e) \<Rightarrow> (rt2, sim_failure [StateError e])
                  | (rt2, Inr _) \<Rightarrow> (rt2, success))"

definition validateSimulationConsistency :: "runtime \<Rightarrow> string \<Rightarrow> string \<Rightarrow> bool" where
  "validateSimulationConsistency rt mid hash = (case getState rt mid of
      None \<Rightarrow> False
    | Some record \<Rightarrow> (if planHash record \<noteq> Some hash then False else mstate record = SIMULATED))"

section \<open>Readiness\<close>

datatype recommendation = MaintenanceWindow | LowTraffic | ValidateData

record readiness =
  ready :: bool
  downtime_operations :: "nat option"
  recommendations :: "recommendation list"

definition needs_downtime :: "SchemaOperation \<Rightarrow> bool" where
  "needs_downtime op = (category op = BREAKING
    \<and> (case op_metadata op of Some m \<Rightarrow> requiresDowntime m = Some True | None \<Rightarrow> False))"

definition getExecutionReadiness :: "MigrationExecutionPlan \<Rightarrow> readiness" where
  "getExecutionReadiness plan = (
    let ops = plan_operations plan;
        criticalOps = filter needs_downtime ops;
        largeTableOps = filter is_large ops;
        dataOps = filter (\<lambda>op. category op = DATA) ops;
        issues = (if length criticalOps > 0 then Some (length criticalOps) else None)
    in \<lparr> ready = (issues = None), downtime_operations = issues,
         recommendations = (if length criticalOps > 0 then [MaintenanceWindow] else [])
           @ (if length largeTableOps > 0 then [LowTraffic] else [])
           @ (if length dataOps > 0 then [ValidateData] else []) \<rparr>)"

section \<open>Statements at boot and backfill jobs\<close>

datatype job_status = JOB_PENDING

record PlannedJob =
  job_tableName :: string
  job_migrationName :: string
  job_sqlStatement :: string
  job_totalRows :: nat
  job_status :: job_status
  job_batchSize :: nat
  job_phase :: phase_name
  job_category :: SqlCategory

definition optimalBackfillBatchSize :: "SchemaOperation \<Rightarrow> nat" where
  "optimalBackfillBatchSize op = (case op_metadata op of
      None \<Rightarrow> 1000
    | Some m \<Rightarrow> (case batchSize m of
          Some n \<Rightarrow> (if n \<noteq> 0 then n else (case tableSize m of
              Some SMALL \<Rightarrow> 5000 | Some MEDIUM_TABLE \<Rightarrow> 2000 | Some LARGE \<Rightarrow> 500
            | Some X_LARGE \<Rightarrow> 100 | None \<Rightarrow> 1000))
        | None \<Rightarrow> (case tableSize m of
              Some SMALL \<Rightarrow> 5000 | Some MEDIUM_TABLE \<Rightarrow> 2000 | Some LARGE \<Rightarrow> 500
            | Some X_LARGE \<Rightarrow> 100 | None \<Rightarrow> 1000)))"

text \<open>\<^verbatim>\<open>rows\<close> is the row count the database estimates for a table; a failing
  estimate is 1000 inside \<^verbatim>\<open>estimateTableRowCount\<close>, so it always has a value.\<close>

definition backfill_job :: "(string \<Rightarrow> nat) \<Rightarrow> string \<Rightarrow> PhasePlan \<Rightarrow> SchemaOperation \<Rightarrow> PlannedJob list" where
  "backfill_job rows mid p op =
    (if category op = DATA then
      (case extractTableName (sql op) of
        None \<Rightarrow> []
      | Some t \<Rightarrow> [\<lparr> job_tableName = t, job_migrationName = mid, job_sqlStatement = sql op,
          job_totalRows = rows t, job_status = JOB_PENDING,
          job_batchSize = optimalBackfillBatchSize op,
          job_phase = phase p, job_category = category op \<rparr>])
     else [])"

definition createBackfillJobs :: "(string \<Rightarrow> nat) \<Rightarrow> MigrationExecutionPlan \<Rightarrow> string \<Rightarrow> PlannedJob list" where
  "createBackfillJobs rows plan mid =
    concat (map (\<lambda>p. concat (map (backfill_job rows mid p) (phase_operations p)))
      (filter (\<lambda>p. phase p = DATA_PHASE) (plan_phases plan)))"

text \<open>\<^verbatim>\<open>dataSource.query\<close> is an argument: it changes the database and may raise. A
  statement that raises ends the boot with the database as it is then.\<close>

fun run_statements :: "(string \<Rightarrow> ('db, 'e, unit) action) \<Rightarrow> string list \<Rightarrow> ('db, 'e, unit) action" where
  "run_statements query [] db = (db, Inr ())"
| "run_statements query (s # ss) db = (case query s db of
      (db', Inl e) \<Rightarrow> (db', Inl e)
    | (db', Inr _) \<Rightarrow> run_statements query ss db')"

fun fast_phases ::
  "(string \<Rightarrow> ('db, 'e, unit) action) \<Rightarrow> PhasePlan list \<Rightarrow> phase_name list \<times> phase_name list
    \<Rightarrow> ('db, 'e, phase_name list \<times> phase_name list) action" where
  "fast_phases query [] done_skipped db = (db, Inr done_skipped)"
| "fast_phases query (p # ps) (executed, skipped) db =
    (if phase p = DATA_PHASE then fast_phases query ps (executed, skipped @ [phase p]) db
     else (case run_statements query (map sql (filter (\<lambda>op. category op \<noteq> DATA) (phase_operations p))) db of
         (db', Inl e) \<Rightarrow> (db', Inl e)
       | (db', Inr _) \<Rightarrow> fast_phases query ps (executed @ [phase p], skipped) db'))"

definition executeFastPhases ::
  "(string \<Rightarrow> ('db, 'e, unit) action) \<Rightarrow> MigrationExecutionPlan
    \<Rightarrow> ('db, 'e, phase_name list \<times> phase_name list) action" where
  "executeFastPhases query plan = fast_phases query (plan_phases plan) ([], [])"

section \<open>What the planner does with a plan\<close>

definition sample_plan :: "PhasePlan list \<Rightarrow> MigrationExecutionPlan" where
  "sample_plan phases = buildFromPhases (\<lambda>_ _. ''hash'') phases (concat (map phase_operations phases)) [] []"

definition create_op :: SchemaOperation where
  "create_op = simple_op ''CREATE TABLE t (a int)'' SAFE"

definition alter_op :: SchemaOperation where
  "alter_op = simple_op ''ALTER TABLE t DROP b'' BREAKING"

definition sample_runtime :: runtime where
  "sample_runtime = fst (update_all 5 ''m'' [VALIDATED] (fst (createMigration 1 ''m'' (Some ''hash'') [])))"

lemma run_statements_append:
  "run_statements query (xs @ ys) db = (case run_statements query xs db of
      (db', Inl e) \<Rightarrow> (db', Inl e) | (db', Inr _) \<Rightarrow> run_statements query ys db')"
  by (induction xs arbitrary: db) (auto split: prod.splits sum.splits)

text \<open>The statements that run at boot.\<close>

definition boot_statements :: "PhasePlan list \<Rightarrow> string list" where
  "boot_statements ps = concat (map (\<lambda>p. map sql (filter (\<lambda>op. category op \<noteq> DATA) (phase_operations p)))
    (filter (\<lambda>p. phase p \<noteq> DATA_PHASE) ps))"

lemma fast_phases_run:
  "fast_phases query ps (ex, sk) db = (case run_statements query (boot_statements ps) db of
      (db', Inl e) \<Rightarrow> (db', Inl e)
    | (db', Inr _) \<Rightarrow> (db', Inr (ex @ map phase (filter (\<lambda>p. phase p \<noteq> DATA_PHASE) ps),
        sk @ map phase (filter (\<lambda>p. phase p = DATA_PHASE) ps))))"
proof (induction ps arbitrary: ex sk db)
  case (Cons p ps)
  then show ?case
    by (cases "phase p = DATA_PHASE")
      (auto simp: boot_statements_def run_statements_append split: prod.splits sum.splits)
qed (simp add: boot_statements_def)

text \<open>At boot the planner runs exactly the statements of the phases other than
  DATA that are not DATA operations, in the plan's order and up to the first
  that raises, and on success it reports every phase. The contract statements
  therefore run at once, while the data operations between them and the expand
  statements have only been queued as jobs.\<close>

theorem boot_runs_all_but_data:
  "executeFastPhases query plan db = (case run_statements query (boot_statements (plan_phases plan)) db of
      (db', Inl e) \<Rightarrow> (db', Inl e)
    | (db', Inr _) \<Rightarrow> (db', Inr (filter (\<lambda>n. n \<noteq> DATA_PHASE) (map phase (plan_phases plan)),
        filter (\<lambda>n. n = DATA_PHASE) (map phase (plan_phases plan)))))"
  by (simp add: executeFastPhases_def fast_phases_run filter_map o_def split: prod.splits sum.splits)

text \<open>An operation of a phase is run at boot or becomes a backfill job only when
  its category agrees with its phase. An operation of the DATA phase that is not
  of category DATA, or a DATA operation in another phase, or one whose table
  cannot be read from its text, is neither run nor queued: when no other
  operation has the same text, the migration completes without it.\<close>

theorem mismatched_operation_is_lost:
  assumes "p \<in> set (plan_phases plan)" "op \<in> set (phase_operations p)"
    "(phase p = DATA_PHASE) \<noteq> (category op = DATA)"
    "\<And>q op'. q \<in> set (plan_phases plan) \<Longrightarrow> op' \<in> set (phase_operations q) \<Longrightarrow> sql op' = sql op
      \<Longrightarrow> q = p \<and> op' = op"
  shows "sql op \<notin> set (boot_statements (plan_phases plan))
    \<and> sql op \<notin> job_sqlStatement ` set (createBackfillJobs rows plan mid)"
proof
  have u: "q = p \<and> op' = op"
    if "q \<in> set (plan_phases plan)" "op' \<in> set (phase_operations q)" "sql op' = sql op" for q op'
    using assms(4) that by blast
  show "sql op \<notin> set (boot_statements (plan_phases plan))"
  proof
    assume "sql op \<in> set (boot_statements (plan_phases plan))"
    then obtain q op' where "q \<in> set (plan_phases plan)" "phase q \<noteq> DATA_PHASE"
        "op' \<in> set (phase_operations q)" "category op' \<noteq> DATA" "sql op' = sql op"
      by (auto simp: boot_statements_def)
    then show False using u[of q op'] assms(3) by auto
  qed
  show "sql op \<notin> job_sqlStatement ` set (createBackfillJobs rows plan mid)"
  proof
    assume "sql op \<in> job_sqlStatement ` set (createBackfillJobs rows plan mid)"
    then obtain q op' where "q \<in> set (plan_phases plan)" "phase q = DATA_PHASE"
        "op' \<in> set (phase_operations q)" "category op' = DATA" "sql op' = sql op"
      by (auto simp: createBackfillJobs_def backfill_job_def split: if_splits option.splits)
    then show False using u[of q op'] assms(3) by auto
  qed
qed

text \<open>A simulation refuses every plan with an operation on a table that the plan
  neither creates nor drops, such as one that alters a table in use, and leaves
  the runtime's records as they were. Only plans that stay within the tables they
  create or drop can be simulated, and so approved.\<close>

theorem altering_existing_table_fails_simulation:
  assumes "op \<in> set (plan_operations plan)" "extractTableName (sql op) = Some t" "t \<noteq> []"
    "\<And>p. p \<in> set (plan_operations plan) \<Longrightarrow> \<not> creates_table p t \<and> \<not> drops_table p t"
  shows "fst (simulateExecution now sha plan mid rt) = rt
    \<and> \<not> sim_success (snd (simulateExecution now sha plan mid rt))"
proof -
  have "TableMustExist t \<in> set (missing_tables (plan_operations plan))"
    using assms by (force simp: missing_tables_def)
  then have "validateDependencies plan eo \<noteq> []" for eo
    by (auto simp: validateDependencies_def)
  then show ?thesis
    by (simp add: simulateExecution_def sim_failure_def Let_def split: sum.splits)
qed

text \<open>A simulation that succeeds for a registered migration found it validated,
  leaves it simulated and with its plan's digest, and then the consistency check
  accepts exactly the digest the migration was created with. The check and the
  execution guard exclude each other: a migration that passes
  \<^verbatim>\<open>validateSimulationConsistency\<close> cannot execute, and one that may execute fails
  the check.\<close>

theorem simulation_moves_and_blocks:
  assumes "simulateExecution now sha plan mid rt = (rt', res)" "sim_success res" "getState rt mid = Some r"
  shows "mstate r = VALIDATED \<and> (\<exists>r' eo. getState rt' mid = Some r' \<and> mstate r' = SIMULATED
      \<and> resolveExecutionOrder plan = Inr eo \<and> simulationHash r' = Some (calculateSimulationHash sha plan eo))
    \<and> validateSimulationConsistency rt' mid h = (planHash r = Some h)
    \<and> guardExecution rt' mid \<noteq> Inr ()"
proof -
  obtain eo where eo: "resolveExecutionOrder plan = Inr eo" "validateDependencies plan eo = []"
    using assms(1,2)
    by (cases "resolveExecutionOrder plan") (auto simp: simulateExecution_def sim_failure_def Let_def split: if_splits)
  let ?r1 = "r\<lparr> simulationHash := Some (calculateSimulationHash sha plan eo) \<rparr>"
  let ?rt1 = "AList.update mid ?r1 rt"
  obtain rt2 res2 where u: "updateState now mid SIMULATED None None ?rt1 = (rt2, res2)" by fastforce
  show ?thesis
    using u
  proof (cases rule: updateState_cases)
    case (moved q q')
    then have "q = ?r1" by simp
    moreover have "mstate q = VALIDATED" using moved(2) by (cases "mstate q") (simp_all add: canTransition_def)
    ultimately have q: "q = ?r1" "mstate r = VALIDATED" by simp_all
    have "rt' = rt2" using assms(1,3) eo u moved(4) by (simp add: simulateExecution_def Let_def)
    then show ?thesis
      using moved(3,5) q eo
      by (simp add: validateSimulationConsistency_def guardExecution_def canExecute_def)
  qed (use assms eo u in \<open>auto simp: simulateExecution_def sim_failure_def Let_def\<close>)
qed

section \<open>Witnesses\<close>

lemma sample_tables:
  "extractTableName (sql create_op) = Some ''t''" "extractTableName (sql alter_op) = Some ''t''"
  by code_simp+

lemma sample_resolution:
  "resolveExecutionOrder (sample_plan [simple_phase EXPAND [create_op], simple_phase CONTRACT [alter_op]])
    = Inr \<lparr> eo_phases = [EXPAND, CONTRACT], eo_operations = [sql create_op, sql alter_op],
        eo_dependencies = [(sql create_op, []), (sql alter_op, [sql create_op])] \<rparr>"
  by code_simp

lemma phases_never_interleave_witness:
  "precedes [sql create_op, sql alter_op] (sql create_op) (sql alter_op)"
  using phases_never_interleave[of "sample_plan [simple_phase EXPAND [create_op], simple_phase CONTRACT [alter_op]]"
      _ 0 1 "sql create_op" "sql alter_op", OF _ sample_resolution]
  by (simp add: split_plan_def sample_plan_def buildFromPhases_def simple_phase_def)

lemma mismatched_operation_is_lost_witness:
  "sql alter_op \<notin> set (boot_statements [simple_phase DATA_PHASE [alter_op]])"
  using mismatched_operation_is_lost[of "simple_phase DATA_PHASE [alter_op]"
      "sample_plan [simple_phase DATA_PHASE [alter_op]]" alter_op]
  by (simp add: sample_plan_def buildFromPhases_def simple_phase_def alter_op_def simple_op_def)

lemma altering_existing_table_fails_simulation_witness:
  "\<not> sim_success (snd (simulateExecution 0 (\<lambda>_ _ _. []) (sample_plan [simple_phase CONTRACT [alter_op]]) ''m'' []))"
proof -
  have "\<not> creates_table alter_op ''t''" "\<not> drops_table alter_op ''t''"
    by code_simp+
  then show ?thesis
    using altering_existing_table_fails_simulation[of alter_op "sample_plan [simple_phase CONTRACT [alter_op]]" "''t''"]
      sample_tables(2)
    by (simp add: sample_plan_def buildFromPhases_def simple_phase_def)
qed

lemma simulation_moves_and_blocks_witness:
  "guardExecution (fst (simulateExecution 7 (\<lambda>_ _ _. ''sim'')
     (sample_plan [simple_phase EXPAND [create_op]]) ''m'' sample_runtime)) ''m'' \<noteq> Inr ()"
proof -
  let ?s = "simulateExecution 7 (\<lambda>_ _ _. ''sim'') (sample_plan [simple_phase EXPAND [create_op]]) ''m'' sample_runtime"
  have "sim_success (snd ?s)" by code_simp
  moreover have "getState sample_runtime ''m'' \<noteq> None" by code_simp
  ultimately show ?thesis
    using simulation_moves_and_blocks[of 7 "\<lambda>_ _ _. ''sim''" "sample_plan [simple_phase EXPAND [create_op]]"
        "''m''" sample_runtime "fst ?s" "snd ?s"] by auto
qed

end
