(* ===== verification/Js_Text.thy ===== *)
theory Js_Text
  imports Js_Regex
begin

text \<open>
  Strings as the JavaScript library treats them, as far as several components use
  it: joining and splitting, padding, and numbers rendered and read back.
\<close>

fun js_join :: "string \<Rightarrow> string list \<Rightarrow> string" where
  "js_join sep [] = []"
| "js_join sep [w] = w"
| "js_join sep (w # v # ws) = w @ sep @ js_join sep (v # ws)"

text \<open>\<^verbatim>\<open>s.split(c)\<close> for one character \<^verbatim>\<open>c\<close>.\<close>

fun split_on :: "char \<Rightarrow> string \<Rightarrow> string list" where
  "split_on c [] = [[]]"
| "split_on c (x # xs) = (if x = c then [] # split_on c xs
     else case split_on c xs of [] \<Rightarrow> [[x]] | w # ws \<Rightarrow> (x # w) # ws)"

lemma split_on_not_empty [simp]: "split_on c s \<noteq> []"
  by (induction s) (auto split: list.split)

lemma split_on_word: "c \<notin> set w \<Longrightarrow> split_on c w = [w]"
  by (induction w) auto

lemma split_on_append: "c \<notin> set w \<Longrightarrow> split_on c (w @ c # s) = w # split_on c s"
  by (induction w) auto

text \<open>\<^verbatim>\<open>String.prototype.trim\<close>.\<close>

definition trim :: "string \<Rightarrow> string" where
  "trim s = rev (dropWhile is_space (rev (dropWhile is_space s)))"

definition int_str :: "int \<Rightarrow> string" where
  "int_str i = (if i < 0 then ''-'' @ nat_str (nat (- i)) else nat_str (nat i))"

definition pad2 :: "string \<Rightarrow> string" where
  "pad2 s = replicate (2 - length s) (CHR ''0'') @ s"

text \<open>\<^verbatim>\<open>Number(s)\<close> on a string of digits; the other strings it is given here
  are not numbers, and \<^verbatim>\<open>NaN || 0\<close> is 0.\<close>

definition digits_value :: "string \<Rightarrow> nat" where
  "digits_value s = foldl (\<lambda>n c. 10 * n + (of_char c - 48)) 0 s"

definition number_or_0 :: "string \<Rightarrow> nat" where
  "number_or_0 s = (if list_all is_digit s then digits_value s else 0)"

lemma digit_char: "k < 10 \<Longrightarrow> (of_char (char_of (48 + k :: nat)) :: nat) = 48 + k"
  by (simp add: of_char_of)

lemma is_digit_of_digit [simp]: "k < 10 \<Longrightarrow> is_digit (char_of (48 + k :: nat))" "is_digit (CHR ''0'')"
  by (simp_all add: is_digit_def digit_char Let_def)

lemma nat_str_digits: "list_all is_digit (nat_str n)"
proof (induction n rule: nat_str.induct)
  case (1 n)
  show ?case
    using 1 by (subst nat_str.simps) auto
qed

lemma digits_value_snoc: "digits_value (s @ [c]) = 10 * digits_value s + (of_char c - 48)"
  by (simp add: digits_value_def)

lemma digits_value_nat_str [simp]: "digits_value (nat_str n) = n"
proof (induction n rule: nat_str.induct)
  case (1 n)
  show ?case
  proof (cases "n < 10")
    case True
    then show ?thesis using digit_char[of n]
      by (subst nat_str.simps) (simp add: digits_value_def)
  next
    case False
    then show ?thesis using 1 digit_char[of "n mod 10"]
      by (subst nat_str.simps) (simp add: digits_value_snoc)
  qed
qed

lemma digits_value_zeros: "digits_value (replicate k (CHR ''0'') @ s) = digits_value s"
  by (induction k) (simp_all add: digits_value_def)

lemma number_of_padded: "number_or_0 (pad2 (nat_str n)) = n"
proof -
  have "list_all is_digit (pad2 (nat_str n))"
    using nat_str_digits[of n] by (auto simp: pad2_def list_all_iff)
  then show ?thesis by (simp add: number_or_0_def) (simp add: pad2_def digits_value_zeros)
qed

lemma no_colon_in_padded: "CHR '':'' \<notin> set (pad2 (nat_str n))"
  using nat_str_digits[of n] by (auto simp: pad2_def list_all_iff is_digit_def dest!: bspec)

end
