(* ===== verification/Lifecycle_Split.thy ===== *)
theory Lifecycle_Split
  imports Sql_Risk Exec_Planner Js_Text
begin

text \<open>
  The lifecycle splitter (\<^verbatim>\<open>src/schema/engine/lifecycle-split.ts\<close>): it rewrites
  NOT NULL columns, renames, type changes and enum rebuilds into expand, data and
  contract statements, and files every other operation by its text. The last
  section follows a list of statements through classification, splitting,
  planning and execution.
\<close>

section \<open>What is split\<close>

definition isNotNullViolation :: "string \<Rightarrow> bool" where
  "isNotNullViolation = rx_test (kw2 ''ADD'' ''COLUMN'' @ [Many any_char] @ kw2 ''NOT'' ''NULL'')"

definition isColumnRename :: "string \<Rightarrow> bool" where
  "isColumnRename = rx_test (kw2 ''RENAME'' ''COLUMN'')"

definition isTypeChange :: "string \<Rightarrow> bool" where
  "isTypeChange = rx_test (kw2 ''ALTER'' ''COLUMN'' @ [Many any_char, Lit ''TYPE''])"

definition outbox_enum :: "rx list" where
  "outbox_enum = [Lit ''\"public\".\"outbox_'', Alt [[Lit ''status''], [Lit ''priority'']], Lit ''_enum'']"

definition isEnumIndexDependency :: "string \<Rightarrow> bool" where
  "isEnumIndexDependency s = (
    rx_test (kw2 ''ALTER'' ''TYPE'' @ spaces @ outbox_enum @ [Lit ''\"''] @ spaces @ kw2 ''RENAME'' ''TO'') s
    \<or> rx_test (kw2 ''CREATE'' ''TYPE'' @ spaces @ outbox_enum @ [Lit ''\"''] @ spaces @ kw2 ''AS'' ''ENUM'') s
    \<or> rx_test (kw2 ''DROP'' ''TYPE'' @ spaces @ outbox_enum @ [Lit ''_old\"'']) s)"

section \<open>The rewritten operations\<close>

record MigrationLifecycleSet =
  set_safe :: "SchemaOperation list"
  set_data :: "SchemaOperation list"
  set_breaking :: "SchemaOperation list"

definition unsplit :: "SchemaOperation \<Rightarrow> MigrationLifecycleSet" where
  "unsplit op = \<lparr> set_safe = [op], set_data = [], set_breaking = [] \<rparr>"

definition derived :: "SchemaOperation \<Rightarrow> string \<Rightarrow> SqlCategory \<Rightarrow> string \<Rightarrow> SchemaOperation" where
  "derived op s c r = \<lparr> sql = s, category = c, op_reason = r, op_metadata = op_metadata op,
     op_dependencies = [], op_conflicts = [] \<rparr>"

definition alter_table :: "rx list" where
  "alter_table = kw2 ''ALTER'' ''TABLE'' @ spaces @ quoted 1"

definition column_type_pattern :: "rx list" where
  "column_type_pattern = [Lit ''ADD''] @ spaces @ quoted 1 @ spaces
    @ grp 2 [One any_char, ManyLazy any_char] @ [Alt [spaces @ kw2 ''NOT'' ''NULL'', [TextEnd]]]"

definition rewriteNotNullViolation :: "SchemaOperation \<Rightarrow> MigrationLifecycleSet" where
  "rewriteNotNullViolation op = (case (rx_match alter_table (sql op), rx_match column_type_pattern (sql op)) of
      (Some tm, Some cm) \<Rightarrow>
        let table = captured tm 1; column = captured cm 1; ty = trim (captured cm 2)
        in \<lparr> set_safe = [derived op (''ALTER TABLE \"'' @ table @ ''\" ADD \"'' @ column @ ''\" '' @ ty)
               SAFE ''Add nullable column''],
             set_data = [derived op (''UPDATE \"'' @ table @ ''\" SET \"'' @ column
               @ ''\" = 'TODO_BACKFILL' WHERE \"'' @ column @ ''\" IS NULL'')
               DATA ''Backfill data before NOT NULL''],
             set_breaking = [derived op (''ALTER TABLE \"'' @ table @ ''\" ALTER COLUMN \"'' @ column @ ''\" SET NOT NULL'')
               BREAKING ''Enforce NOT NULL constraint''] \<rparr>
    | _ \<Rightarrow> unsplit op)"

definition rename_pattern :: "rx list" where
  "rename_pattern = kw2 ''RENAME'' ''COLUMN'' @ spaces @ quoted 1 @ spaces @ [Lit ''TO''] @ spaces @ quoted 2"

type_synonym type_map = "(string \<times> (string \<times> string) list) list"

definition detected_type :: "type_map \<Rightarrow> string \<Rightarrow> string \<Rightarrow> string" where
  "detected_type tm table column =
    or_default (case map_of tm table of Some cols \<Rightarrow> map_of cols column | None \<Rightarrow> None) ''VARCHAR''"

definition rewriteColumnRename :: "type_map \<Rightarrow> SchemaOperation \<Rightarrow> MigrationLifecycleSet" where
  "rewriteColumnRename types op = (case (rx_match alter_table (sql op), rx_match rename_pattern (sql op)) of
      (Some tm, Some rm) \<Rightarrow>
        let table = captured tm 1; oldCol = captured rm 1; newCol = captured rm 2;
            detectedType = detected_type types table oldCol
        in \<lparr> set_safe = [derived op (''ALTER TABLE \"'' @ table @ ''\" ADD COLUMN \"'' @ newCol @ ''\" '' @ detectedType)
               SAFE ''Add new column for rename operation''],
             set_data = [derived op (''UPDATE \"'' @ table @ ''\" SET \"'' @ newCol @ ''\" = \"'' @ oldCol @ ''\"'')
               DATA ''Copy data from old column to new column''],
             set_breaking = [derived op (''ALTER TABLE \"'' @ table @ ''\" DROP COLUMN \"'' @ oldCol @ ''\"'')
               BREAKING ''Remove old column after rename''] \<rparr>
    | _ \<Rightarrow> unsplit op)"

definition type_change_pattern :: "rx list" where
  "type_change_pattern = kw2 ''ALTER'' ''COLUMN'' @ spaces @ quoted 1 @ spaces @ [Lit ''TYPE''] @ spaces @ grp 2 words"

definition rewriteTypeChange :: "SchemaOperation \<Rightarrow> MigrationLifecycleSet" where
  "rewriteTypeChange op = (case (rx_match alter_table (sql op), rx_match type_change_pattern (sql op)) of
      (Some tm, Some cm) \<Rightarrow>
        let table = captured tm 1; column = captured cm 1; newType = captured cm 2;
            tempColumn = column @ ''_v2''
        in \<lparr> set_safe = [derived op (''ALTER TABLE \"'' @ table @ ''\" ADD COLUMN \"'' @ tempColumn @ ''\" '' @ newType)
               SAFE ''Add temporary column for type change''],
             set_data = [derived op (''UPDATE \"'' @ table @ ''\" SET \"'' @ tempColumn @ ''\" = CAST(\"'' @ column
               @ ''\" AS '' @ newType @ '')'')
               DATA ''Cast data to new type''],
             set_breaking = [
               derived op (''ALTER TABLE \"'' @ table @ ''\" DROP COLUMN \"'' @ column @ ''\"'')
                 BREAKING ''Remove old column'',
               derived op (''ALTER TABLE \"'' @ table @ ''\" RENAME COLUMN \"'' @ tempColumn @ ''\" TO \"'' @ column @ ''\"'')
                 BREAKING ''Rename temp column to original name''] \<rparr>
    | _ \<Rightarrow> unsplit op)"

text \<open>The three recognised enum operations are split alike, up to the verb in their
  reasons: the two partial indexes are dropped first and created again last, and
  the operation itself goes between them. The whole match of the enum's name is
  group 0.\<close>

definition enum_name :: "rx list" where
  "enum_name = grp 0 [Lit ''outbox_'', Alt [[Lit ''status''], [Lit ''priority'']], Lit ''_enum'']"

definition around_enum :: "SchemaOperation \<Rightarrow> string \<Rightarrow> string \<Rightarrow> MigrationLifecycleSet" where
  "around_enum op enumType verb = \<lparr>
    set_safe = [
      derived op ''DROP INDEX IF EXISTS idx_outbox_worker'' SAFE
        (''Drop partial index depending on '' @ enumType @ '' before enum '' @ verb),
      derived op ''DROP INDEX IF EXISTS idx_outbox_locked'' SAFE
        (''Drop partial index depending on '' @ enumType @ '' before enum '' @ verb)],
    set_data = [op],
    set_breaking = [
      derived op (''CREATE INDEX idx_outbox_worker ON \"outbox\" (\"status\", \"next_retry_at\") WHERE (status = 'PENDING'::''
          @ enumType @ '')'') BREAKING
        (''Recreate partial index after '' @ enumType @ '' '' @ verb),
      derived op (''CREATE INDEX idx_outbox_locked ON \"outbox\" (\"locked_at\") WHERE (status = 'PROCESSING'::''
          @ enumType @ '')'') BREAKING
        (''Recreate partial index after '' @ enumType @ '' '' @ verb)] \<rparr>"

definition rewriteEnumIndexDependency :: "SchemaOperation \<Rightarrow> MigrationLifecycleSet" where
  "rewriteEnumIndexDependency op = (case rx_match enum_name (sql op) of
      None \<Rightarrow> unsplit op
    | Some em \<Rightarrow>
        let enumType = captured em 0; s = sql op
        in if rx_test (kw2 ''ALTER'' ''TYPE'' @ [Many any_char, Lit ''RENAME'', Many any_char, Lit ''TO'',
              Many any_char, Lit ''_old'']) s then around_enum op enumType ''rename''
           else if rx_test (kw2 ''CREATE'' ''TYPE'' @ [Many any_char, Lit ''ENUM'']) s
             then around_enum op enumType ''create''
           else if rx_test (kw2 ''DROP'' ''TYPE'' @ [Many any_char, Lit ''_old'']) s
             then around_enum op enumType ''drop''
           else unsplit op)"

definition classify :: "string \<Rightarrow> SqlCategory" where
  "classify s =
    (if rx_test [Alt [kw2 ''CREATE'' ''TABLE'', kw2 ''CREATE'' ''INDEX'', kw2 ''ADD'' ''COLUMN'']] s
        \<and> \<not> rx_test (kw2 ''NOT'' ''NULL'') s then SAFE
     else if rx_test [Alt [[Lit ''UPDATE''], [Lit ''INSERT''], [Lit ''DELETE'']]] s then DATA
     else BREAKING)"

section \<open>The split\<close>

definition split_operation :: "type_map \<Rightarrow> SchemaOperation \<Rightarrow> MigrationLifecycleSet" where
  "split_operation types op =
    (if isNotNullViolation (sql op) then rewriteNotNullViolation op
     else if isColumnRename (sql op) then rewriteColumnRename types op
     else if isTypeChange (sql op) then rewriteTypeChange op
     else if isEnumIndexDependency (sql op) then rewriteEnumIndexDependency op
     else case classify (sql op) of
         SAFE \<Rightarrow> \<lparr> set_safe = [op], set_data = [], set_breaking = [] \<rparr>
       | DATA \<Rightarrow> \<lparr> set_safe = [], set_data = [op], set_breaking = [] \<rparr>
       | _ \<Rightarrow> \<lparr> set_safe = [], set_data = [], set_breaking = [op] \<rparr>)"

definition push_split :: "type_map \<Rightarrow> SchemaOperation \<Rightarrow> MigrationLifecycleSet \<Rightarrow> MigrationLifecycleSet" where
  "push_split types op acc = (let r = split_operation types op in \<lparr>
    set_safe = set_safe acc @ set_safe r,
    set_data = set_data acc @ set_data r,
    set_breaking = set_breaking acc @ set_breaking r \<rparr>)"

definition lifecycle_phase :: "phase_name \<Rightarrow> SchemaOperation list \<Rightarrow> PhasePlan" where
  "lifecycle_phase n ops = \<lparr> phase = n, phase_operations = ops, phase_order = map sql ops \<rparr>"

definition split_lifecycle :: "type_map \<Rightarrow> SchemaOperation list \<Rightarrow> PhasePlan list" where
  "split_lifecycle types ops = (
    let acc = for_each (push_split types) ops \<lparr> set_safe = [], set_data = [], set_breaking = [] \<rparr>;
        phases = [lifecycle_phase EXPAND (set_safe acc), lifecycle_phase DATA_PHASE (set_data acc),
          lifecycle_phase CONTRACT (set_breaking acc), lifecycle_phase FIX []]
    in filter (\<lambda>p. phase_operations p \<noteq> []) phases)"

section \<open>From statements to a plan\<close>

text \<open>The execution plan that \<^verbatim>\<open>buildMigrationPlan\<close> of \<^verbatim>\<open>schema-planner.ts\<close> has
  \<^verbatim>\<open>buildFromPhases\<close> make, from the statements of the schema difference on.\<close>

definition pipeline_plan :: "hash_fn \<Rightarrow> string list \<Rightarrow> MigrationExecutionPlan" where
  "pipeline_plan sha up = (
    let classified = classifyOperations up;
        risks = analyzeRisk classified;
        compatibility = checkCompatibility classified;
        lifecycle = split_lifecycle [] classified
    in buildFromPhases sha lifecycle classified risks (cr_breakingChanges compatibility))"

text \<open>The plan it returns: the order and the dependencies of the execution plan are
  not part of it. Of its metadata only the hash is kept here.\<close>

record MigrationPlan =
  mp_operations :: "SchemaOperation list"
  mp_phases :: "PhasePlan list"
  mp_graph :: OperationGraph
  mp_risks :: "RiskReport list"
  mp_compatibility :: CompatibilityReport
  mp_planHash :: string

definition buildMigrationPlan :: "hash_fn \<Rightarrow> string list \<Rightarrow> MigrationPlan" where
  "buildMigrationPlan sha up = (
    let classified = classifyOperations up;
        lifecycle = split_lifecycle [] classified;
        executionPlan = pipeline_plan sha up
    in \<lparr> mp_operations = plan_operations executionPlan, mp_phases = plan_phases executionPlan,
         mp_graph = buildOperationGraph lifecycle, mp_risks = analyzeRisk classified,
         mp_compatibility = checkCompatibility classified, mp_planHash = plan_hash executionPlan \<rparr>)"

lemma plan_of_pipeline [simp]:
  "plan_phases (pipeline_plan sha up) = split_lifecycle [] (classifyOperations up)"
  "plan_operations (pipeline_plan sha up) = classifyOperations up"
  "executionOrder (pipeline_plan sha up) = buildExecutionOrder (split_lifecycle [] (classifyOperations up))"
  by (simp_all add: pipeline_plan_def buildFromPhases_def Let_def)

lemma phases_of_plan [simp]: "mp_phases (buildMigrationPlan sha up) = split_lifecycle [] (classifyOperations up)"
  by (simp add: buildMigrationPlan_def Let_def)

lemma split_lifecycle_phase:
  "p \<in> set (split_lifecycle types ops) \<Longrightarrow> phase_order p = map sql (phase_operations p) \<and> phase_operations p \<noteq> []"
  by (auto simp: split_lifecycle_def lifecycle_phase_def Let_def split: if_splits)

lemma pipeline_is_split_plan: "split_plan (pipeline_plan sha up)"
  using split_lifecycle_phase by (auto simp: split_plan_def list_all_iff)

text \<open>C12: For any list of statements, in the order resolved for the execution plan
  that \<^verbatim>\<open>buildMigrationPlan\<close> makes of them, every statement of a phase of the migration plan it
  returns comes before every statement of every later phase, and the order holds
  each statement of the phases once. (The migration plan itself keeps no order.)\<close>

theorem migration_phases_never_interleave:
  assumes "resolveExecutionOrder (pipeline_plan sha up) = Inr eo"
    "i < j" "j < length (mp_phases (buildMigrationPlan sha up))"
    "a \<in> set (phase_order (mp_phases (buildMigrationPlan sha up) ! i))"
    "b \<in> set (phase_order (mp_phases (buildMigrationPlan sha up) ! j))"
  shows "precedes (eo_operations eo) a b \<and> distinct (eo_operations eo)
    \<and> set (eo_operations eo) = set (buildExecutionOrder (mp_phases (buildMigrationPlan sha up)))"
  using phases_never_interleave[OF pipeline_is_split_plan assms(1,2)] assms(3-5) by simp

section \<open>Plans without repeated statements\<close>

lemma link_to_previous_bound:
  "set (deps_of (link_to_previous p q g) b)
    \<subseteq> set (deps_of g b) \<union> (if b \<in> sql ` set (phase_operations q) then set (phase_order p) else {})"
proof -
  have "set (deps_of (for_each (\<lambda>op g. AList.update (sql op) (deps_of g (sql op) @ phase_order p) g) ops g) b)
      \<subseteq> set (deps_of g b) \<union> (if b \<in> sql ` set ops then set (phase_order p) else {})"
    for ops :: "SchemaOperation list"
    by (induction ops arbitrary: g) (force simp: deps_of_update split: if_splits)+
  then show ?thesis by (simp add: link_to_previous_def)
qed

definition texts :: "PhasePlan list \<Rightarrow> string set" where
  "texts ps = sql ` set (concat (map phase_operations ps))"

lemma link_phases_bound:
  "(case ps of [] \<Rightarrow> True | p # rest \<Rightarrow> b \<notin> texts rest) \<Longrightarrow> deps_of (link_phases ps g) b = deps_of g b"
proof (induction ps g rule: link_phases.induct)
  case (1 p q rest g)
  have "deps_of (for_each (\<lambda>op g. AList.update (sql op) (deps_of g (sql op) @ phase_order p) g) ops g) b
      = deps_of g b" if "b \<notin> sql ` set ops" for ops :: "SchemaOperation list"
    using that by (induction ops arbitrary: g) (auto simp: deps_of_update)
  then have "deps_of (link_to_previous p q g) b = deps_of g b"
    using 1(2) by (simp add: link_to_previous_def texts_def image_Un)
  then show ?case using 1 by (simp add: texts_def image_Un)
qed simp_all

lemma deps_first_extend:
  "deps_first dep R \<Longrightarrow> (\<And>x. x \<in> set xs \<Longrightarrow> set (dep x) \<subseteq> set R) \<Longrightarrow> deps_first dep (R @ xs)"
proof (induction xs rule: rev_induct)
  case (snoc x xs)
  then have "deps_first dep ((R @ xs) @ [x])" by (subst deps_first_snoc) auto
  then show ?case by simp
qed simp

lemma later_texts:
  assumes "distinct (concat (map phase_order (p # ps)))"
    "list_all (\<lambda>p. phase_order p = map sql (phase_operations p)) ps" "b \<in> set (phase_order p)"
  shows "b \<notin> texts ps"
proof -
  have "set (phase_order p) \<inter> set (concat (map phase_order ps)) = {}" using assms(1) by simp
  moreover have "set (concat (map phase_order ps)) = texts ps"
    using assms(2) by (auto simp: texts_def list_all_iff)
  ultimately show ?thesis using assms(3) by auto
qed

text \<open>The dependencies of a statement of a later phase lie in the phase before it.\<close>

lemma link_phases_in_order:
  assumes "distinct (concat (map phase_order ps))" "list_all (\<lambda>p. phase_order p = map sql (phase_operations p)) ps"
    "\<And>b. b \<in> texts ps \<Longrightarrow> deps_of g b = []"
    "deps_first (inner_deps G ops) R"
    "\<And>b. b \<in> texts ps \<Longrightarrow> deps_of G b = deps_of (link_phases (p0 # ps) g) b"
    "set (phase_order p0) \<subseteq> set R"
  shows "deps_first (inner_deps G ops) (R @ concat (map phase_order ps))"
  using assms
proof (induction ps arbitrary: p0 g R)
  case (Cons p ps)
  let ?g = "link_to_previous p0 p g"
  have order: "phase_order p = map sql (phase_operations p)" using Cons.prems(2) by simp
  have later: "b \<notin> texts ps" if "b \<in> set (phase_order p)" for b
    using later_texts[OF Cons.prems(1) _ that] Cons.prems(2) by simp
  have own: "set (deps_of G b) \<subseteq> set R" if "b \<in> set (phase_order p)" for b
  proof -
    have b: "b \<in> texts (p # ps)" using that order by (auto simp: texts_def)
    have "deps_of G b = deps_of (link_phases (p # ps) ?g) b" using Cons.prems(5)[OF b] by simp
    also have "\<dots> = deps_of ?g b" using later[OF that] by (intro link_phases_bound) simp
    finally show ?thesis
      using link_to_previous_bound[of p0 p g b] Cons.prems(3)[OF b] Cons.prems(6)
      by (auto split: if_splits)
  qed
  have R': "deps_first (inner_deps G ops) (R @ phase_order p)"
    by (rule deps_first_extend[OF Cons.prems(4)]) (use own in \<open>auto simp: inner_deps_def\<close>)
  have "deps_first (inner_deps G ops) ((R @ phase_order p) @ concat (map phase_order ps))"
  proof (rule Cons.IH[of ?g _ p])
    show "distinct (concat (map phase_order ps))" using Cons.prems(1) by simp
    show "list_all (\<lambda>p. phase_order p = map sql (phase_operations p)) ps" using Cons.prems(2) by simp
    show "deps_of ?g b = []" if "b \<in> texts ps" for b
    proof -
      have "b \<notin> set (phase_order p)" using later that by auto
      then have "b \<notin> sql ` set (phase_operations p)" using order by simp
      moreover have "deps_of g b = []" using Cons.prems(3) that by (auto simp: texts_def)
      ultimately show ?thesis using link_to_previous_bound[of p0 p g b] by simp
    qed
    show "deps_first (inner_deps G ops) (R @ phase_order p)" by (rule R')
    show "deps_of G b = deps_of (link_phases (p # ps) ?g) b" if "b \<in> texts ps" for b
      using Cons.prems(5)[of b] that by (auto simp: texts_def)
    show "set (phase_order p) \<subseteq> set (R @ phase_order p)" by simp
  qed
  then show ?case by simp
qed simp

lemma classified_own_dependencies: "deps_of (set_own_dependencies (classifyOperations up) []) b = []"
proof -
  have "deps_of g b = [] \<Longrightarrow> deps_of (set_own_dependencies (classifyOperations up) g) b = []" for g
    by (induction up arbitrary: g)
      (auto simp: set_own_dependencies_def classifyOperations_def classifyOperation_def deps_of_update
        split: prod.splits)
  from this[of "[]"] show ?thesis by (simp add: deps_of_def)
qed

lemma resolution_in_order:
  assumes "distinct (executionOrder (pipeline_plan sha up))"
  obtains eo where "resolveExecutionOrder (pipeline_plan sha up) = Inr eo"
    "eo_operations eo = executionOrder (pipeline_plan sha up)"
proof -
  let ?plan = "pipeline_plan sha up"
  let ?ps = "split_lifecycle [] (classifyOperations up)" and ?g = "set_own_dependencies (classifyOperations up) []"
  let ?G = "buildDependencyGraph ?plan" and ?ops = "executionOrder ?plan"
  have G: "?G = link_phases ?ps ?g" by (simp add: buildDependencyGraph_def)
  have ops: "?ops = concat (map phase_order ?ps)" by (simp add: buildExecutionOrder_def)
  have orders: "list_all (\<lambda>p. phase_order p = map sql (phase_operations p)) ?ps"
    using split_lifecycle_phase by (auto simp: list_all_iff)
  have "deps_first (inner_deps ?G ?ops) ?ops"
  proof (cases ?ps)
    case (Cons p rest)
    have dist: "distinct (concat (map phase_order (p # rest)))" using assms ops Cons by simp
    have none: "set (deps_of ?G b) \<subseteq> {}" if "b \<in> set (phase_order p)" for b
      using link_phases_bound[where ps = "p # rest" and b = b and g = ?g] later_texts[OF dist _ that] orders Cons G
        classified_own_dependencies by simp
    have first: "deps_first (inner_deps ?G ?ops) ([] @ phase_order p)"
      by (rule deps_first_extend) (use none in \<open>auto simp: inner_deps_def\<close>)
    have "deps_first (inner_deps ?G ?ops) (phase_order p @ concat (map phase_order rest))"
    proof (rule link_phases_in_order[of rest ?g ?G ?ops "phase_order p" p])
      show "deps_first (inner_deps ?G ?ops) (phase_order p)" using first by simp
      show "deps_of ?G b = deps_of (link_phases (p # rest) ?g) b" for b using G Cons by simp
    qed (use dist orders Cons in \<open>simp_all add: classified_own_dependencies\<close>)
    then show ?thesis using ops Cons by simp
  qed (use ops in simp)
  then have "topologicalSort ?G ?ops = Inr ?ops"
    using topologicalSort_in_order assms ops by simp
  then show thesis by (intro that) (auto simp: resolveExecutionOrder_def Let_def)
qed

text \<open>A migration plan in which no statement occurs twice always resolves, and
  the resolved order is the plan's own: expand, data and contract statements in
  the order in which they were split.\<close>

theorem distinct_plan_resolves_to_itself:
  assumes "distinct (executionOrder (pipeline_plan sha up))"
  shows "map_sum (\<lambda>e. e) eo_operations (resolveExecutionOrder (pipeline_plan sha up))
    = Inr (executionOrder (pipeline_plan sha up))"
  using resolution_in_order[OF assms] by fastforce

lemma distinct_plan_resolves_to_itself_witness:
  "map_sum (\<lambda>e. e) eo_operations (resolveExecutionOrder (pipeline_plan (\<lambda>_ _. []) [''CREATE TABLE t (a int)'']))
    = Inr [''CREATE TABLE t (a int)'']"
proof -
  have "executionOrder (pipeline_plan (\<lambda>_ _. []) [''CREATE TABLE t (a int)'']) = [''CREATE TABLE t (a int)'']"
    unfolding plan_of_pipeline by code_simp
  then show ?thesis
    using distinct_plan_resolves_to_itself[of "\<lambda>_ _. []" "[''CREATE TABLE t (a int)'']"] by simp
qed

definition two_phase_sql :: "string list" where
  "two_phase_sql = [''DELETE FROM t'', ''CREATE TABLE t (a int)'']"

lemma migration_phases_never_interleave_witness:
  "precedes [''CREATE TABLE t (a int)'', ''DELETE FROM t''] ''CREATE TABLE t (a int)'' ''DELETE FROM t''"
proof -
  let ?plan = "pipeline_plan (\<lambda>_ _. []) two_phase_sql"
  have ps: "map phase_order (split_lifecycle [] (classifyOperations two_phase_sql))
      = [[''CREATE TABLE t (a int)''], [''DELETE FROM t'']]"
    by code_simp
  then have len: "length (split_lifecycle [] (classifyOperations two_phase_sql)) = 2"
    by (metis length_map length_Cons list.size(3) numeral_2_eq_2)
  have nth: "phase_order (split_lifecycle [] (classifyOperations two_phase_sql) ! i)
      = [[''CREATE TABLE t (a int)''], [''DELETE FROM t'']] ! i" if "i < 2" for i
    using nth_map[of i _ phase_order] that len ps by metis
  have order: "executionOrder ?plan = [''CREATE TABLE t (a int)'', ''DELETE FROM t'']"
    by (simp add: buildExecutionOrder_def ps)
  have "distinct (executionOrder ?plan)" unfolding order by simp
  then obtain eo where eo: "resolveExecutionOrder ?plan = Inr eo" "eo_operations eo = executionOrder ?plan"
    by (rule resolution_in_order)
  then have "eo_operations eo = [''CREATE TABLE t (a int)'', ''DELETE FROM t'']" unfolding order by simp
  then show ?thesis
    using migration_phases_never_interleave[OF eo(1), of 0 1 "''CREATE TABLE t (a int)''" "''DELETE FROM t''"]
      len nth[of 0] nth[of 1] by simp
qed

section \<open>Statements that are lost\<close>

definition standard_statement :: "string \<Rightarrow> bool" where
  "standard_statement s = (\<not> isNotNullViolation s \<and> \<not> isColumnRename s \<and> \<not> isTypeChange s
     \<and> \<not> isEnumIndexDependency s)"

lemma sql_classifyOperation [simp]: "sql (classifyOperation s) = s"
  by (simp add: classifyOperation_def case_prod_unfold)

lemma split_standard:
  "standard_statement (sql op) \<Longrightarrow> set_data (split_operation types op) = (if classify (sql op) = DATA then [op] else [])
    \<and> set_safe (split_operation types op) = (if classify (sql op) = SAFE then [op] else [])
    \<and> set_breaking (split_operation types op) = (if classify (sql op) = BREAKING then [op] else [])"
  by (simp add: split_operation_def standard_statement_def classify_def)

lemma push_standard:
  assumes "\<And>op. op \<in> set ops \<Longrightarrow> standard_statement (sql op)"
  shows "for_each (push_split types) ops acc = \<lparr>
      set_safe = set_safe acc @ filter (\<lambda>op. classify (sql op) = SAFE) ops,
      set_data = set_data acc @ filter (\<lambda>op. classify (sql op) = DATA) ops,
      set_breaking = set_breaking acc @ filter (\<lambda>op. classify (sql op) = BREAKING) ops \<rparr>"
  using assms
proof (induction ops arbitrary: acc)
  case (Cons op ops)
  then show ?case using split_standard[of op types] by (simp add: push_split_def Let_def)
qed simp

lemma split_lifecycle_standard:
  assumes "\<And>op. op \<in> set ops \<Longrightarrow> standard_statement (sql op)"
  shows "p \<in> set (split_lifecycle types ops) \<Longrightarrow> op \<in> set (phase_operations p)
    \<Longrightarrow> op \<in> set ops \<and> (phase p = DATA_PHASE) = (classify (sql op) = DATA)"
  using push_standard[OF assms, where ops = ops and types = types]
  by (auto simp: split_lifecycle_def lifecycle_phase_def Let_def split: if_splits)

text \<open>Among statements that need no rewriting, one that the splitter files as
  data, because its text has \<^verbatim>\<open>UPDATE\<close>, \<^verbatim>\<open>INSERT\<close> or \<^verbatim>\<open>DELETE\<close> somewhere, even inside a column
  name such as \<^verbatim>\<open>updated_at\<close>, but that the classifier does not take for a data
  operation, is neither run at boot nor queued as a backfill job: the migration
  completes without it.\<close>

theorem misfiled_statement_is_lost:
  assumes "\<And>t. t \<in> set up \<Longrightarrow> standard_statement t"
    and "s \<in> set up" "classify s = DATA" "category (classifyOperation s) \<noteq> DATA"
  shows "s \<notin> set (boot_statements (plan_phases (pipeline_plan sha up)))
    \<and> s \<notin> job_sqlStatement ` set (createBackfillJobs rows (pipeline_plan sha up) mid)"
proof -
  have std: "standard_statement (sql op)" if "op \<in> set (classifyOperations up)" for op
    using that assms(1) by (auto simp: classifyOperations_def)
  have where_is: "op = classifyOperation s \<and> phase p = DATA_PHASE"
    if "p \<in> set (split_lifecycle [] (classifyOperations up))" "op \<in> set (phase_operations p)" "sql op = s" for p op
    using split_lifecycle_standard[OF std that(1,2)] that(3) assms(3) by (auto simp: classifyOperations_def)
  show ?thesis
    using where_is assms(4)
    by (fastforce simp: boot_statements_def createBackfillJobs_def backfill_job_def split: if_splits option.splits)
qed

lemma misfiled_statement_is_lost_witness:
  "''CREATE TABLE t (id int NOT NULL, updated_at date)'' \<notin> set (boot_statements (plan_phases
     (pipeline_plan (\<lambda>_ _. []) [''CREATE TABLE t (id int NOT NULL, updated_at date)''])))"
proof -
  let ?s = "''CREATE TABLE t (id int NOT NULL, updated_at date)''"
  have "standard_statement ?s" "classify ?s = DATA" "category (classifyOperation ?s) \<noteq> DATA"
    by code_simp+
  then show ?thesis
    using misfiled_statement_is_lost[of "[?s]" ?s "\<lambda>_ _. []" "\<lambda>_. 0" "[]"] by simp
qed

lemma no_jobs:
  "list_all (\<lambda>p. phase p = DATA_PHASE \<longrightarrow> list_all (\<lambda>op. category op \<noteq> DATA) (phase_operations p)) (plan_phases plan)
    \<Longrightarrow> createBackfillJobs rows plan mid = []"
  by (auto simp: createBackfillJobs_def backfill_job_def list_all_iff)

definition enum_rename :: "string \<Rightarrow> string" where
  "enum_rename kind = ''ALTER TYPE \"public\".\"outbox_'' @ kind @ ''_enum\" RENAME TO \"outbox_'' @ kind @ ''_enum_old\"''"

lemma split_single:
  "split_lifecycle types [op] = filter (\<lambda>p. phase_operations p \<noteq> [])
    [lifecycle_phase EXPAND (set_safe (split_operation types op)),
     lifecycle_phase DATA_PHASE (set_data (split_operation types op)),
     lifecycle_phase CONTRACT (set_breaking (split_operation types op)), lifecycle_phase FIX []]"
  by (simp add: split_lifecycle_def push_split_def Let_def)

lemma enum_rename_rewritten:
  assumes "kind = ''status'' \<or> kind = ''priority''" "sql op = enum_rename kind"
  shows "split_operation types op = around_enum op (''outbox_'' @ kind @ ''_enum'') ''rename''"
proof -
  have "list_all (\<lambda>k. \<not> isNotNullViolation (enum_rename k) \<and> \<not> isColumnRename (enum_rename k)
      \<and> \<not> isTypeChange (enum_rename k) \<and> isEnumIndexDependency (enum_rename k)) [''status'', ''priority'']"
    by code_simp
  then have "split_operation types op = rewriteEnumIndexDependency op"
    using assms by (auto simp: split_operation_def)
  moreover have "list_all (\<lambda>k. map_option (\<lambda>em. captured em 0) (rx_match enum_name (enum_rename k))
        = Some (''outbox_'' @ k @ ''_enum'')
      \<and> rx_test (kw2 ''ALTER'' ''TYPE'' @ [Many any_char, Lit ''RENAME'', Many any_char, Lit ''TO'',
              Many any_char, Lit ''_old'']) (enum_rename k)) [''status'', ''priority'']"
    by code_simp
  ultimately show ?thesis
    using assms by (auto simp: rewriteEnumIndexDependency_def Let_def)
qed

lemma enum_rename_breaking:
  "kind = ''status'' \<or> kind = ''priority'' \<Longrightarrow> category (classifyOperation (enum_rename kind)) = BREAKING"
proof -
  have "list_all (\<lambda>k. fst (classifySqlStatement (enum_rename k)) = BREAKING) [''status'', ''priority'']"
    by code_simp
  then show "kind = ''status'' \<or> kind = ''priority'' \<Longrightarrow> ?thesis"
    by (auto simp: classifyOperation_def case_prod_unfold)
qed

text \<open>Renaming one of the outbox enums as the schema engine does it is lost: the
  plan drops the two partial indexes and creates them again at boot, but the
  rename itself, filed in the DATA phase with category BREAKING, is neither run
  nor queued.\<close>

theorem enum_rename_is_lost:
  assumes "kind = ''status'' \<or> kind = ''priority''"
  shows "boot_statements (plan_phases (pipeline_plan sha [enum_rename kind])) =
      [''DROP INDEX IF EXISTS idx_outbox_worker'', ''DROP INDEX IF EXISTS idx_outbox_locked'',
       ''CREATE INDEX idx_outbox_worker ON \"outbox\" (\"status\", \"next_retry_at\") WHERE (status = 'PENDING'::outbox_''
         @ kind @ ''_enum)'',
       ''CREATE INDEX idx_outbox_locked ON \"outbox\" (\"locked_at\") WHERE (status = 'PROCESSING'::outbox_''
         @ kind @ ''_enum)'']
    \<and> createBackfillJobs rows (pipeline_plan sha [enum_rename kind]) mid = []"
  using enum_rename_rewritten[OF assms, of "classifyOperation (enum_rename kind)" "[]"] enum_rename_breaking[OF assms]
  by (simp add: classifyOperations_def split_single around_enum_def derived_def lifecycle_phase_def
      boot_statements_def createBackfillJobs_def backfill_job_def)

lemma enum_rename_is_lost_witness:
  "createBackfillJobs (\<lambda>_. 0) (pipeline_plan (\<lambda>_ _. []) [enum_rename ''status'']) ''m'' = []"
  using enum_rename_is_lost[of "''status''" "\<lambda>_ _. []" "\<lambda>_. 0" "''m''"] by blast

section \<open>NOT NULL columns\<close>

lemma rx_at_Many_skip:
  "rx_at (Many p # ts) prev s cs \<noteq> None \<Longrightarrow>
    \<exists>w r prev'. s = w @ r \<and> list_all p w \<and> rx_at ts prev' r cs \<noteq> None"
proof (induction s arbitrary: prev)
  case Nil
  then show ?case by auto
next
  case (Cons c s)
  show ?case
  proof (cases "p c \<and> rx_at (Many p # ts) (Some c) s cs \<noteq> None")
    case True
    then obtain w r prev' where "s = w @ r" "list_all p w" "rx_at ts prev' r cs \<noteq> None"
      using Cons.IH by blast
    then show ?thesis using True by (intro exI[of _ "c # w"] exI[of _ r] exI[of _ prev']) simp
  next
    case False
    then have "rx_at ts prev (c # s) cs \<noteq> None" using Cons.prems by (auto split: if_splits option.splits)
    then show ?thesis by (intro exI[of _ "[]"] exI[of _ "c # s"] exI[of _ prev]) simp
  qed
qed

text \<open>After \<^verbatim>\<open>ADD\<close> and white space, the next character decides between the two forms.\<close>

definition after_spaces :: "string \<Rightarrow> char option" where
  "after_spaces s = (case dropWhile is_space s of [] \<Rightarrow> None | c # _ \<Rightarrow> Some c)"

lemma after_spaces_skip:
  "list_all is_space w \<Longrightarrow> \<not> is_space c \<Longrightarrow> after_spaces (w @ c # r) = Some c"
  by (simp add: after_spaces_def dropWhile_append2 list_all_iff)

lemma rx_at_One_head:
  "rx_at (One p # ts) prev v cs \<noteq> None \<Longrightarrow> \<exists>c s. v = c # s \<and> p c \<and> rx_at ts (Some c) s cs \<noteq> None"
  by (cases v) (simp_all split: if_splits)

lemma rx_at_Lit_head:
  "rx_at (Lit l # ts) prev v cs \<noteq> None
    \<Longrightarrow> lit_matches l v \<and> rx_at ts (last_char prev (take (length l) v)) (drop (length l) v) cs \<noteq> None"
  by (simp split: if_splits)

lemma spaces_then:
  assumes "rx_at (Lit l # spaces @ t # ts) prev v cs \<noteq> None"
    "\<And>p r c. rx_at (t # ts) p r c \<noteq> None \<Longrightarrow> r \<noteq> [] \<and> \<not> is_space (hd r) \<and> P (hd r)"
  shows "lit_matches l v \<and> (\<exists>c. after_spaces (drop (length l) v) = Some c \<and> P c)"
proof -
  have l: "lit_matches l v"
    and at: "rx_at (One is_space # Many is_space # t # ts) (last_char prev (take (length l) v)) (drop (length l) v) cs \<noteq> None"
    using rx_at_Lit_head[OF assms(1)] unfolding spaces_def append_Cons append_Nil by blast+
  obtain c0 s0 where s0: "drop (length l) v = c0 # s0" "is_space c0"
      "rx_at (Many is_space # t # ts) (Some c0) s0 cs \<noteq> None"
    using rx_at_One_head[OF at] by blast
  obtain w r p' where w: "s0 = w @ r" "list_all is_space w" "rx_at (t # ts) p' r cs \<noteq> None"
    using rx_at_Many_skip[OF s0(3)] by blast
  then obtain c r' where "r = c # r'" "\<not> is_space c" "P c"
    using assms(2)[OF w(3)] by (cases r) auto
  then show ?thesis
    using l s0(1,2) w(1,2) after_spaces_skip[of "c0 # w" c r'] by auto
qed

lemma lit_first: "rx_at (Lit (x # l) # ts) p r c \<noteq> None \<Longrightarrow> r \<noteq> [] \<and> upper (hd r) = upper x"
  by (cases r) (auto split: if_splits)

definition add_places :: "string \<Rightarrow> nat list" where
  "add_places s = filter (\<lambda>i. lit_matches ''ADD'' (drop i s)) [0..<Suc (length s)]"

lemma one_add_place:
  assumes "length (add_places s) \<le> 1" "s = u @ v" "lit_matches ''ADD'' v" "s = u' @ v'" "lit_matches ''ADD'' v'"
  shows "v = v'"
proof -
  have place: "length a \<in> set (add_places s)" if "s = a @ b" "lit_matches ''ADD'' b" for a b
    unfolding add_places_def that(1) using that(2) by (simp del: upt_Suc)
  have "length u \<in> set (add_places s)" "length u' \<in> set (add_places s)"
    using place[OF assms(2,3)] place[OF assms(4,5)] by auto
  then have "length u = length u'"
    using assms(1) by (cases "add_places s"; cases "tl (add_places s)") auto
  then show ?thesis using assms(2,4) by (metis append_eq_append_conv)
qed

text \<open>A statement that adds a NOT NULL column is rewritten into expand, data and
  contract statements only if the text has \<^verbatim>\<open>ADD\<close> at two places: the detection needs
  \<^verbatim>\<open>ADD COLUMN\<close> and the rewriting needs \<^verbatim>\<open>ADD\<close> before a quoted name. With a single
  \<^verbatim>\<open>ADD\<close> it is filed whole, in whichever of the two forms it is written.\<close>

theorem not_null_column_is_not_split:
  assumes "length (add_places s) \<le> 1" and "isNotNullViolation s"
  shows "split_operation types (classifyOperation s) = unsplit (classifyOperation s)"
proof -
  obtain u v where uv: "s = u @ v"
      "rx_at (Lit ''ADD'' # spaces @ Lit ''COLUMN'' # Many any_char # kw2 ''NOT'' ''NULL'') (last_char None u) v ([], []) \<noteq> None"
    using assms(2) unfolding isNotNullViolation_def rx_test_iff by (auto simp: kw2_def)
  have col: "lit_matches ''ADD'' v \<and> (\<exists>c. after_spaces (drop (length ''ADD'') v) = Some c \<and> upper c = CHR ''C'')"
    by (rule spaces_then[OF uv(2)]) (use lit_first in \<open>fastforce simp: is_space_def upper_def\<close>)
  have "rx_match column_type_pattern s = None"
  proof (rule ccontr)
    assume "rx_match column_type_pattern s \<noteq> None"
    then have "rx_search column_type_pattern None s \<noteq> None" by (simp add: rx_match_def)
    then obtain u' v' where uv': "s = u' @ v'" "rx_at column_type_pattern (last_char None u') v' ([], []) \<noteq> None"
      unfolding rx_search_iff by blast
    then have at: "rx_at (Lit ''ADD'' # spaces @ One is_dquote # tl (quoted 1) @ spaces
        @ grp 2 [One any_char, ManyLazy any_char] @ [Alt [spaces @ kw2 ''NOT'' ''NULL'', [TextEnd]]])
        (last_char None u') v' ([], []) \<noteq> None"
      by (simp add: column_type_pattern_def quoted_def)
    have quo: "lit_matches ''ADD'' v' \<and> (\<exists>c. after_spaces (drop (length ''ADD'') v') = Some c \<and> is_dquote c)"
    proof (rule spaces_then[OF at])
      fix p r c
      assume "rx_at (One is_dquote # tl (quoted 1) @ spaces
        @ grp 2 [One any_char, ManyLazy any_char] @ [Alt [spaces @ kw2 ''NOT'' ''NULL'', [TextEnd]]]) p r c \<noteq> None"
      then show "r \<noteq> [] \<and> \<not> is_space (hd r) \<and> is_dquote (hd r)"
        by (cases r) (auto simp: is_space_def is_dquote_def split: if_splits)
    qed
    have "v = v'" using one_add_place[OF assms(1) uv(1) _ uv'(1)] col quo by blast
    then show False using col quo by (auto simp: is_dquote_def upper_def)
  qed
  then show ?thesis
    using assms(2) by (auto simp: split_operation_def rewriteNotNullViolation_def split: option.splits)
qed

lemma not_null_column_is_not_split_witness:
  "split_operation [] (classifyOperation ''ALTER TABLE \"t\" ADD COLUMN \"c\" int NOT NULL'')
    = unsplit (classifyOperation ''ALTER TABLE \"t\" ADD COLUMN \"c\" int NOT NULL'')"
proof (rule not_null_column_is_not_split)
  show "length (add_places ''ALTER TABLE \"t\" ADD COLUMN \"c\" int NOT NULL'') \<le> 1" by code_simp
  show "isNotNullViolation ''ALTER TABLE \"t\" ADD COLUMN \"c\" int NOT NULL''" by code_simp
qed

end
