(* ===== verification/Driver_Stats.thy ===== *)
theory Driver_Stats
  imports Prelude
begin

text \<open>
  Driver statistics (\<^verbatim>\<open>src/delivery-intelligence/driver/driver-stats.service.ts\<close> and
  its entity): the counters and running means that the delivery projections
  record and the dispatch scores read. Fractions are rational numbers; the
  rounding of binary floating point is not modelled. A missing row is created
  with the column defaults on first use.
\<close>

section \<open>The rows\<close>

record DriverStats =
  stat_driver :: string
  totalDeliveries :: nat
  completedDeliveries :: nat
  failedDeliveries :: nat
  cancelledDeliveries :: nat
  acceptanceCount :: nat
  rejectionCount :: nat
  avgDeliveryTimeSeconds :: int
  avgPickupTimeSeconds :: int
  lastDeliveryAt :: "int option"
  reliabilityScore :: rat

type_synonym stats_table = "DriverStats list"

definition new_stats :: "string \<Rightarrow> DriverStats" where
  "new_stats d = \<lparr> stat_driver = d, totalDeliveries = 0, completedDeliveries = 0, failedDeliveries = 0,
     cancelledDeliveries = 0, acceptanceCount = 0, rejectionCount = 0, avgDeliveryTimeSeconds = 0,
     avgPickupTimeSeconds = 0, lastDeliveryAt = None, reliabilityScore = 0 \<rparr>"

definition getStats :: "string \<Rightarrow> stats_table \<Rightarrow> DriverStats option" where
  "getStats d t = lookup_by stat_driver d t"

definition save_stats :: "DriverStats \<Rightarrow> stats_table \<Rightarrow> stats_table" where
  "save_stats = save_by stat_driver"

definition ensureStats :: "string \<Rightarrow> stats_table \<Rightarrow> stats_table \<times> DriverStats" where
  "ensureStats d t = (case getStats d t of
      Some s \<Rightarrow> (t, s)
    | None \<Rightarrow> (save_stats (new_stats d) t, new_stats d))"

definition getStatsBatch :: "stats_table \<Rightarrow> string list \<Rightarrow> string \<Rightarrow> DriverStats option" where
  "getStatsBatch t ds = map_of (rev (map (\<lambda>s. (stat_driver s, s)) (filter (\<lambda>s. stat_driver s \<in> set ds) t)))"

section \<open>Recording\<close>

definition recordAssignmentAccepted :: "string \<Rightarrow> stats_table \<Rightarrow> stats_table" where
  "recordAssignmentAccepted d t = (case ensureStats d t of (t, s) \<Rightarrow>
    save_stats (s\<lparr> acceptanceCount := acceptanceCount s + 1, totalDeliveries := totalDeliveries s + 1 \<rparr>) t)"

definition recordAssignmentRejected :: "string \<Rightarrow> stats_table \<Rightarrow> stats_table" where
  "recordAssignmentRejected d t = (case ensureStats d t of (t, s) \<Rightarrow>
    save_stats (s\<lparr> rejectionCount := rejectionCount s + 1 \<rparr>) t)"

text \<open>The new mean of \<^verbatim>\<open>n\<close> samples from the mean of the \<^verbatim>\<open>n - 1\<close> before it.\<close>

definition running_mean :: "int \<Rightarrow> nat \<Rightarrow> int \<Rightarrow> int" where
  "running_mean avg n x = js_round ((of_int (avg * (int n - 1)) + of_int x) / of_nat n)"

definition recomputeReliabilityScore :: "DriverStats \<Rightarrow> DriverStats" where
  "recomputeReliabilityScore s = (
    let n = totalDeliveries s
    in if n = 0 then s\<lparr> reliabilityScore := 0 \<rparr>
       else
         let successRate = of_nat (completedDeliveries s) / of_nat n;
             failureRate = of_nat (failedDeliveries s) / of_nat n;
             cancellationRate = of_nat (cancelledDeliveries s) / of_nat n;
             score = successRate * 100 - failureRate * 50 - cancellationRate * 30
         in s\<lparr> reliabilityScore := max 0 (min 100 score) \<rparr>)"

definition complete_stats :: "int \<Rightarrow> int option \<Rightarrow> int option \<Rightarrow> int option \<Rightarrow> DriverStats \<Rightarrow> DriverStats" where
  "complete_stats now pickup total_secs deliveredAt s = (
    let s = s\<lparr> completedDeliveries := completedDeliveries s + 1,
               lastDeliveryAt := Some (case deliveredAt of Some t \<Rightarrow> t | None \<Rightarrow> now) \<rparr>;
        s = (case pickup of None \<Rightarrow> s | Some x \<Rightarrow>
               s\<lparr> avgPickupTimeSeconds := running_mean (avgPickupTimeSeconds s) (completedDeliveries s) x \<rparr>);
        s = (case total_secs of None \<Rightarrow> s | Some x \<Rightarrow>
               s\<lparr> avgDeliveryTimeSeconds := running_mean (avgDeliveryTimeSeconds s) (completedDeliveries s) x \<rparr>)
    in recomputeReliabilityScore s)"

definition recordDeliveryCompleted ::
  "int \<Rightarrow> string \<Rightarrow> int option \<Rightarrow> int option \<Rightarrow> int option \<Rightarrow> stats_table \<Rightarrow> stats_table" where
  "recordDeliveryCompleted now d pickup total_secs deliveredAt t = (case ensureStats d t of (t, s) \<Rightarrow>
    save_stats (complete_stats now pickup total_secs deliveredAt s) t)"

definition recordDeliveryFailed :: "string \<Rightarrow> stats_table \<Rightarrow> stats_table" where
  "recordDeliveryFailed d t = (case ensureStats d t of (t, s) \<Rightarrow>
    save_stats (recomputeReliabilityScore (s\<lparr> failedDeliveries := failedDeliveries s + 1 \<rparr>)) t)"

definition recordDeliveryCancelled :: "string \<Rightarrow> stats_table \<Rightarrow> stats_table" where
  "recordDeliveryCancelled d t = (case ensureStats d t of (t, s) \<Rightarrow>
    save_stats (recomputeReliabilityScore (s\<lparr> cancelledDeliveries := cancelledDeliveries s + 1 \<rparr>)) t)"

section \<open>Facts\<close>

interpretation stats_repo: repository getStats save_stats stat_driver
  by unfold_locales (auto simp: getStats_def save_stats_def lookup_save_by dest: lookup_by_SomeD)

lemma getStats_ensure: "getStats k (fst (ensureStats d t)) =
    (if k = d then Some (snd (ensureStats d t)) else getStats k t)"
  by (auto simp: ensureStats_def stats_repo.find_save new_stats_def split: option.splits)

lemma ensured_driver: "stat_driver (snd (ensureStats d t)) = d"
  using stats_repo.found_key[of d t] by (auto simp: ensureStats_def new_stats_def split: option.splits)

text \<open>The five records change the row of their driver alone.\<close>

lemma record_row:
  assumes "stat_driver (f (snd (ensureStats d t))) = d"
  shows "getStats k (save_stats (f (snd (ensureStats d t))) (fst (ensureStats d t)))
    = (if k = d then Some (f (snd (ensureStats d t))) else getStats k t)"
  using assms by (simp add: stats_repo.find_save getStats_ensure)

section \<open>The running means\<close>

lemma js_round_between:
  assumes "of_int a \<le> x" "x \<le> (of_int b :: rat)" shows "a \<le> js_round x" "js_round x \<le> b"
  using js_round_mono[OF assms(1)] js_round_mono[OF assms(2)] by simp_all

lemma running_mean_between:
  assumes "0 < n" "lo \<le> avg" "lo \<le> x" "avg \<le> hi" "x \<le> hi"
  shows "lo \<le> running_mean avg n x \<and> running_mean avg n x \<le> hi"
proof -
  let ?q = "(of_int (avg * (int n - 1)) + of_int x) / of_nat n :: rat"
  have n: "(0::rat) < of_nat n" "(0::int) \<le> int n - 1" using assms(1) by simp_all
  have "lo * int n \<le> avg * (int n - 1) + x"
    using mult_right_mono[OF assms(2) n(2)] assms(3) by (simp add: algebra_simps)
  then have "(of_int (lo * int n) :: rat) \<le> of_int (avg * (int n - 1) + x)" by (rule of_int_le_iff[THEN iffD2])
  then have lo: "of_int lo \<le> ?q" using n(1) by (simp add: field_simps)
  have "avg * (int n - 1) + x \<le> hi * int n"
    using mult_right_mono[OF assms(4) n(2)] assms(5) by (simp add: algebra_simps)
  then have "(of_int (avg * (int n - 1) + x) :: rat) \<le> of_int (hi * int n)" by (rule of_int_le_iff[THEN iffD2])
  then have "?q \<le> of_int hi" using n(1) by (simp add: field_simps)
  then show ?thesis using js_round_between[OF lo] by (simp add: running_mean_def)
qed

lemma running_mean_first: "running_mean avg 1 x = x"
  by (simp add: running_mean_def)

lemma complete_stats_fields:
  "completedDeliveries (complete_stats now p tt da s) = completedDeliveries s + 1"
  "stat_driver (complete_stats now p tt da s) = stat_driver s"
  "avgPickupTimeSeconds (complete_stats now p tt da s) = (case p of None \<Rightarrow> avgPickupTimeSeconds s
    | Some x \<Rightarrow> running_mean (avgPickupTimeSeconds s) (completedDeliveries s + 1) x)"
  "avgDeliveryTimeSeconds (complete_stats now p tt da s) = (case tt of None \<Rightarrow> avgDeliveryTimeSeconds s
    | Some x \<Rightarrow> running_mean (avgDeliveryTimeSeconds s) (completedDeliveries s + 1) x)"
  by (auto simp: complete_stats_def recomputeReliabilityScore_def Let_def split: option.splits)

text \<open>What can happen to the statistics of a driver.\<close>

datatype stats_call =
    Accepted string
  | Rejected string
  | Completed int string "int option" "int option" "int option"
  | Failed string
  | Cancelled string

fun stats_step :: "stats_call \<Rightarrow> stats_table \<Rightarrow> stats_table" where
  "stats_step (Accepted d) t = recordAssignmentAccepted d t"
| "stats_step (Rejected d) t = recordAssignmentRejected d t"
| "stats_step (Completed now d p tt da) t = recordDeliveryCompleted now d p tt da t"
| "stats_step (Failed d) t = recordDeliveryFailed d t"
| "stats_step (Cancelled d) t = recordDeliveryCancelled d t"

fun sample_bound :: "int \<Rightarrow> stats_call \<Rightarrow> bool" where
  "sample_bound hi (Completed now d p tt da) = (case p of None \<Rightarrow> True | Some x \<Rightarrow> 0 \<le> x \<and> x \<le> hi)"
| "sample_bound hi _ = True"

definition stats_ok :: "int \<Rightarrow> DriverStats \<Rightarrow> bool" where
  "stats_ok hi s = (0 \<le> avgPickupTimeSeconds s \<and> avgPickupTimeSeconds s \<le> hi
    \<and> 0 \<le> reliabilityScore s \<and> reliabilityScore s \<le> 100)"

lemma reliability_range:
  "0 \<le> reliabilityScore (recomputeReliabilityScore s) \<and> reliabilityScore (recomputeReliabilityScore s) \<le> 100"
  by (simp add: recomputeReliabilityScore_def Let_def)

lemma recompute_fields [simp]:
  "avgPickupTimeSeconds (recomputeReliabilityScore s) = avgPickupTimeSeconds s"
  "stat_driver (recomputeReliabilityScore s) = stat_driver s"
  by (simp_all add: recomputeReliabilityScore_def Let_def)

lemma stats_step_ok:
  assumes "\<And>k s. getStats k t = Some s \<Longrightarrow> stats_ok hi s" "sample_bound hi c" "0 \<le> hi"
    "getStats k (stats_step c t) = Some s"
  shows "stats_ok hi s"
proof -
  have ens: "stats_ok hi (snd (ensureStats d t))" for d
    using assms(1)[of d] assms(3) by (auto simp: ensureStats_def stats_ok_def new_stats_def split: option.splits)
  have row: "stats_ok hi s" if "getStats k (save_stats (f (snd (ensureStats d t))) (fst (ensureStats d t))) = Some s"
      "stat_driver (f (snd (ensureStats d t))) = d" "stats_ok hi (f (snd (ensureStats d t)))" for f d
    using that(1) record_row[of f d t k] that(2,3) assms(1)[of k] by (auto split: if_splits)
  show ?thesis
  proof (cases c)
    case (Accepted d)
    show ?thesis
      by (rule row[of "\<lambda>s. s\<lparr> acceptanceCount := acceptanceCount s + 1, totalDeliveries := totalDeliveries s + 1 \<rparr>" d])
        (use assms(4) ens[of d] ensured_driver[of d t] Accepted in
          \<open>simp_all add: recordAssignmentAccepted_def case_prod_unfold stats_ok_def\<close>)
  next
    case (Rejected d)
    show ?thesis
      by (rule row[of "\<lambda>s. s\<lparr> rejectionCount := rejectionCount s + 1 \<rparr>" d])
        (use assms(4) ens[of d] ensured_driver[of d t] Rejected in
          \<open>simp_all add: recordAssignmentRejected_def case_prod_unfold stats_ok_def\<close>)
  next
    case (Completed now d p tt da)
    have "stats_ok hi (complete_stats now p tt da (snd (ensureStats d t)))"
      using ens[of d] assms(2) running_mean_between[of "completedDeliveries (snd (ensureStats d t)) + 1" 0 _ _ hi]
        reliability_range
      by (auto simp: stats_ok_def Completed complete_stats_fields complete_stats_def[of _ _ _ _ "snd (ensureStats d t)"]
          Let_def split: option.splits)
    then show ?thesis
      using assms(4) ensured_driver[of d t] row[of "complete_stats now p tt da" d]
      by (simp add: Completed recordDeliveryCompleted_def case_prod_unfold complete_stats_fields)
  next
    case (Failed d)
    show ?thesis
      by (rule row[of "\<lambda>s. recomputeReliabilityScore (s\<lparr> failedDeliveries := failedDeliveries s + 1 \<rparr>)" d])
        (use assms(4) ens[of d] ensured_driver[of d t] reliability_range Failed in
          \<open>simp_all add: recordDeliveryFailed_def case_prod_unfold stats_ok_def\<close>)
  next
    case (Cancelled d)
    show ?thesis
      by (rule row[of "\<lambda>s. recomputeReliabilityScore (s\<lparr> cancelledDeliveries := cancelledDeliveries s + 1 \<rparr>)" d])
        (use assms(4) ens[of d] ensured_driver[of d t] reliability_range Cancelled in
          \<open>simp_all add: recordDeliveryCancelled_def case_prod_unfold stats_ok_def\<close>)
  qed
qed

text \<open>However the records of deliveries interleave, a driver's mean pickup time
  stays between zero and the longest pickup time recorded, in spite of the
  rounding at every step, and the reliability score stays between 0 and 100.\<close>

theorem driver_statistics_bounds:
  assumes "list_all (sample_bound hi) calls" "0 \<le> hi" "getStats d (for_each stats_step calls []) = Some s"
  shows "0 \<le> avgPickupTimeSeconds s \<and> avgPickupTimeSeconds s \<le> hi
    \<and> 0 \<le> reliabilityScore s \<and> reliabilityScore s \<le> 100"
proof -
  have "\<forall>k s. getStats k (for_each stats_step calls []) = Some s \<longrightarrow> stats_ok hi s"
  proof (rule for_each_invariant)
    show "\<forall>k s. getStats k [] = Some s \<longrightarrow> stats_ok hi s" by (simp add: getStats_def)
    fix c t assume "c \<in> set calls" "\<forall>k s. getStats k t = Some s \<longrightarrow> stats_ok hi s"
    then show "\<forall>k s. getStats k (stats_step c t) = Some s \<longrightarrow> stats_ok hi s"
      using stats_step_ok[of t hi c] assms(1,2) by (auto simp: list_all_iff)
  qed
  then show ?thesis using assms(3) by (simp add: stats_ok_def)
qed

lemma driver_statistics_bounds_witness:
  "(case getStats ''d'' (for_each stats_step [Completed 0 ''d'' (Some 90) None None, Failed ''d''] []) of
      Some s \<Rightarrow> avgPickupTimeSeconds s \<le> 90 | None \<Rightarrow> False)"
proof -
  let ?t = "for_each stats_step [Completed 0 ''d'' (Some 90) None None, Failed ''d''] []"
  have "getStats ''d'' ?t \<noteq> None" by code_simp
  then obtain s where s: "getStats ''d'' ?t = Some s" by blast
  then have "avgPickupTimeSeconds s \<le> 90"
    using driver_statistics_bounds[of 90 "[Completed 0 ''d'' (Some 90) None None, Failed ''d'']" "''d''" s] by simp
  then show ?thesis using s by simp
qed

text \<open>A delivery completed without a pickup time counts as one of zero seconds in
  the next mean: the divisor is the number of completed deliveries, not of
  samples.\<close>

lemma missing_pickup_counts_as_zero:
  "map_option avgPickupTimeSeconds (getStats d
      (recordDeliveryCompleted n2 d (Some x) None None (recordDeliveryCompleted n1 d None None None [])))
    = Some (js_round (of_int x / 2))"
  by (simp add: recordDeliveryCompleted_def case_prod_unfold ensureStats_def getStats_def save_stats_def
      lookup_save_by save_by_def new_stats_def complete_stats_def recomputeReliabilityScore_def Let_def
      running_mean_def update_rows_def)

end
