(* ===== verification/Dispatch_Scoring.thy ===== *)
theory Dispatch_Scoring
  imports Driver_Stats
begin

text \<open>
  Dispatch configuration and scores
  (\<^verbatim>\<open>src/dispatch-scoring/dispatch-config.service.ts\<close> and
  \<^verbatim>\<open>dispatch-scoring.service.ts\<close>): versioned configuration rows, the score of a
  driver from its statistics with weights and decay, its one-hour validity, and
  the eligibility of drivers. Scores are rational numbers; \<^verbatim>\<open>Math.pow\<close> of the decay
  is an exact power.
\<close>

section \<open>Configuration rows\<close>

datatype ConfigType = SCORING_WEIGHTS | THRESHOLDS | DECAY_SETTINGS | ROLLOUT_SETTINGS

datatype ConfigScope = GLOBAL | REGION | DRIVER_TYPE

record DispatchConfig =
  config_id :: nat
  configType :: ConfigType
  configScope :: ConfigScope
  scopeValue :: "string option"
  configKey :: string
  configValue :: json
  config_version :: int
  isActive :: bool

definition DEFAULT_CONFIGS :: "ConfigType \<Rightarrow> json" where
  "DEFAULT_CONFIGS t = (case t of
      SCORING_WEIGHTS \<Rightarrow> JObj [(''completionRate'', JNum (4/10)), (''timing'', JNum (3/10)), (''quality'', JNum (3/10))]
    | THRESHOLDS \<Rightarrow> JObj [(''minimumScore'', JNum 50), (''minimumAssignments'', JNum 5)]
    | DECAY_SETTINGS \<Rightarrow> JObj [(''baseDecay'', JNum (95/100)), (''maxDecayDays'', JNum 30)]
    | ROLLOUT_SETTINGS \<Rightarrow> JObj [(''scoringEnabled'', JBool False), (''rolloutPercentage'', JNum 0),
        (''abTestGroups'', JObj [(''control'', JNum 50), (''scoring'', JNum 50)])])"

text \<open>\<^verbatim>\<open>findOne\<close> with \<^verbatim>\<open>ORDER BY key DESC\<close>: a row with the greatest key, the first such
  row in the order of the table.\<close>

definition latest_by :: "('r \<Rightarrow> int) \<Rightarrow> 'r list \<Rightarrow> 'r option" where
  "latest_by f rs = (case sort_key (\<lambda>r. - f r) rs of [] \<Rightarrow> None | r # _ \<Rightarrow> Some r)"

definition active_config :: "ConfigType \<Rightarrow> ConfigScope \<Rightarrow> string option \<Rightarrow> DispatchConfig \<Rightarrow> bool" where
  "active_config t sc v c = (configType c = t \<and> configScope c = sc
     \<and> (case v of None \<Rightarrow> True | Some x \<Rightarrow> scopeValue c = Some x) \<and> isActive c)"

definition getConfig :: "DispatchConfig list \<Rightarrow> ConfigType \<Rightarrow> string option \<Rightarrow> json" where
  "getConfig cs t driver = (
    let specific = (if truthy driver
          then latest_by config_version (filter (active_config t DRIVER_TYPE driver) cs) else None)
    in case specific of
        Some c \<Rightarrow> configValue c
      | None \<Rightarrow> (case latest_by config_version (filter (active_config t GLOBAL None) cs) of
            Some c \<Rightarrow> configValue c
          | None \<Rightarrow> DEFAULT_CONFIGS t))"

text \<open>A missing scope value in a \<^verbatim>\<open>where\<close> is no condition. \<^verbatim>\<open>new_id\<close> is the identifier the
  database gives the row.\<close>

definition setConfig ::
  "nat \<Rightarrow> ConfigType \<Rightarrow> string \<Rightarrow> json \<Rightarrow> (ConfigScope \<times> string option) option
    \<Rightarrow> DispatchConfig list \<Rightarrow> DispatchConfig list" where
  "setConfig new_id t key value scope cs = (
    let sc = (case scope of Some (s, _) \<Rightarrow> s | None \<Rightarrow> GLOBAL);
        v = (case scope of Some (_, v) \<Rightarrow> v | None \<Rightarrow> None);
        existing = latest_by config_version (filter (\<lambda>c. configType c = t \<and> configKey c = key
          \<and> configScope c = sc \<and> (case v of None \<Rightarrow> True | Some x \<Rightarrow> scopeValue c = Some x)) cs);
        newVersion = (case existing of Some c \<Rightarrow> config_version c + 1 | None \<Rightarrow> 1)
    in cs @ [\<lparr> config_id = new_id, configType = t, configScope = sc,
         scopeValue = (if truthy v then v else None), configKey = key, configValue = value,
         config_version = newVersion, isActive = True \<rparr>])"

definition deactivateConfig :: "nat \<Rightarrow> (DispatchConfig list, string, unit) action" where
  "deactivateConfig i cs = (case lookup_by config_id i cs of
      None \<Rightarrow> (cs, Inl ''Configuration not found'')
    | Some c \<Rightarrow> (save_by config_id (c\<lparr> isActive := False \<rparr>) cs, Inr ()))"

text \<open>\<^verbatim>\<open>{ ...currentConfig, ...settings }\<close>: a property of the second object replaces the
  first object's in its place, a new one is added at the end.\<close>

fun spread :: "(string \<times> json) list \<Rightarrow> (string \<times> json) list \<Rightarrow> (string \<times> json) list" where
  "spread kvs [] = kvs"
| "spread kvs ((k, v) # rest) = spread (if k \<in> fst ` set kvs
     then map (\<lambda>(k', v'). (k', if k' = k then v else v')) kvs else kvs @ [(k, v)]) rest"

fun object_fields :: "json \<Rightarrow> (string \<times> json) list" where
  "object_fields (JObj kvs) = kvs"
| "object_fields _ = []"

definition updateRolloutSettings ::
  "nat \<Rightarrow> (string \<times> json) list \<Rightarrow> DispatchConfig list \<Rightarrow> DispatchConfig list" where
  "updateRolloutSettings new_id settings cs =
    setConfig new_id ROLLOUT_SETTINGS ''rollout_settings''
      (JObj (spread (object_fields (getConfig cs ROLLOUT_SETTINGS None)) settings)) (Some (GLOBAL, None)) cs"

text \<open>\<^verbatim>\<open>config?.k || d\<close> for a number: zero counts as missing. A configured value that
  is not a number is treated as missing here.\<close>

definition num_or :: "json \<Rightarrow> string \<Rightarrow> rat \<Rightarrow> rat" where
  "num_or j k d = (case map_of (object_fields j) k of Some (JNum x) \<Rightarrow> (if x = 0 then d else x) | _ \<Rightarrow> d)"

definition bool_or_false :: "json \<Rightarrow> string \<Rightarrow> bool" where
  "bool_or_false j k = (map_of (object_fields j) k = Some (JBool True))"

definition config_getRolloutPercentage :: "DispatchConfig list \<Rightarrow> rat" where
  "config_getRolloutPercentage cs = num_or (getConfig cs ROLLOUT_SETTINGS None) ''rolloutPercentage'' 0"

definition config_isScoringEnabled :: "DispatchConfig list \<Rightarrow> bool" where
  "config_isScoringEnabled cs = bool_or_false (getConfig cs ROLLOUT_SETTINGS None) ''scoringEnabled''"

section \<open>Scores\<close>

record DispatchScore =
  score_id :: nat
  score_driver :: string
  score :: rat
  lastCalculatedAt :: int
  validUntil :: int
  score_parts :: "rat \<times> rat \<times> rat"

text \<open>The services write and read rows of the type \<^verbatim>\<open>OVERALL\<close> only, so the type of a
  row is left out. The triples are (completion rate, timing, quality).\<close>

type_synonym parts = "rat \<times> rat \<times> rat"

definition DEFAULT_WEIGHTS :: parts where
  "DEFAULT_WEIGHTS = (4/10, 3/10, 3/10)"

definition getScoringWeights :: "DispatchConfig list \<Rightarrow> string \<Rightarrow> parts" where
  "getScoringWeights cs d = (
    let config = getConfig cs SCORING_WEIGHTS (Some d)
    in (num_or config ''completionRate'' (4/10), num_or config ''timing'' (3/10), num_or config ''quality'' (3/10)))"

definition getThresholds :: "DispatchConfig list \<Rightarrow> string \<Rightarrow> rat \<times> rat" where
  "getThresholds cs d = (
    let config = getConfig cs THRESHOLDS (Some d)
    in (num_or config ''minimumScore'' 50, num_or config ''minimumAssignments'' 5))"

definition clamp100 :: "rat \<Rightarrow> rat" where
  "clamp100 x = min 100 (max 0 x)"

definition calculateCompletionRateScore :: "DriverStats \<Rightarrow> rat" where
  "calculateCompletionRateScore s = (
    if acceptanceCount s = 0 then 50
    else clamp100 (of_nat (completedDeliveries s) / of_nat (acceptanceCount s) * 100))"

definition calculateTimingScore :: "DriverStats \<Rightarrow> rat" where
  "calculateTimingScore s = (
    if avgPickupTimeSeconds s = 0 \<or> avgDeliveryTimeSeconds s = 0 then 70
    else let pickupScore = max 0 (100 - of_int (avgPickupTimeSeconds s) / 60 * 5);
             totalTimeScore = max 0 (100 - of_int (avgDeliveryTimeSeconds s) / 3600 * 10)
         in (pickupScore + totalTimeScore) / 2)"

definition calculateQualityScore :: "DriverStats \<Rightarrow> rat" where
  "calculateQualityScore s = (
    if acceptanceCount s = 0 then 80
    else clamp100 ((1 - of_nat (failedDeliveries s + cancelledDeliveries s) / of_nat (acceptanceCount s)) * 100))"

definition round2 :: "rat \<Rightarrow> rat" where
  "round2 x = of_int (js_round (x * 100)) / 100"

definition calculateWeightedScore :: "parts \<Rightarrow> parts \<Rightarrow> rat" where
  "calculateWeightedScore scores weights = (case (scores, weights) of ((a, b, c), (wa, wb, wc)) \<Rightarrow>
    round2 (a * wa + b * wb + c * wc))"

definition DAY_MS :: int where "DAY_MS = 86400000"

definition applyScoreDecay :: "int \<Rightarrow> rat \<Rightarrow> int option \<Rightarrow> rat" where
  "applyScoreDecay now x lastActivity = (case lastActivity of
      None \<Rightarrow> x
    | Some t \<Rightarrow>
        let days = (now - t) div DAY_MS
        in if days \<le> 0 then x else max 0 (round2 (x * (95/100) ^ nat (min days 30))))"

definition driver_parts :: "DriverStats \<Rightarrow> parts" where
  "driver_parts s = (calculateCompletionRateScore s, calculateTimingScore s, calculateQualityScore s)"

definition overall_score :: "int \<Rightarrow> parts \<Rightarrow> DriverStats \<Rightarrow> rat" where
  "overall_score now weights s =
    applyScoreDecay now (calculateWeightedScore (driver_parts s) weights) (lastDeliveryAt s)"

definition HOUR_MS :: int where "HOUR_MS = 3600000"

text \<open>\<^verbatim>\<open>save\<close> of a new row gives it \<^verbatim>\<open>new_id\<close>, which no row has.\<close>

definition latest_score :: "string \<Rightarrow> DispatchScore list \<Rightarrow> DispatchScore option" where
  "latest_score d ss = latest_by lastCalculatedAt (filter (\<lambda>s. score_driver s = d) ss)"

definition createOrUpdateDispatchScore ::
  "int \<Rightarrow> nat \<Rightarrow> string \<Rightarrow> rat \<Rightarrow> parts \<Rightarrow> DispatchScore list \<Rightarrow> DispatchScore list \<times> DispatchScore" where
  "createOrUpdateDispatchScore now new_id d x parts ss = (
    let fresh = \<lparr> score_id = new_id, score_driver = d, score = x, lastCalculatedAt = now,
                  validUntil = now + HOUR_MS, score_parts = parts \<rparr>
    in case latest_score d ss of
         Some e \<Rightarrow>
           if validUntil e > now then
             (let e' = e\<lparr> score := x, lastCalculatedAt := now, validUntil := now + HOUR_MS, score_parts := parts \<rparr>
              in (save_by score_id e' ss, e'))
           else (ss @ [fresh], fresh)
       | None \<Rightarrow> (ss @ [fresh], fresh))"

definition next_id :: "DispatchScore list \<Rightarrow> nat" where
  "next_id ss = Suc (fold (\<lambda>s. max (score_id s)) ss 0)"

definition calculateDispatchScore ::
  "int \<Rightarrow> DispatchConfig list \<Rightarrow> stats_table \<Rightarrow> string \<Rightarrow> (DispatchScore list, string, DispatchScore) action" where
  "calculateDispatchScore now cs t d ss = (case getStats d t of
      None \<Rightarrow> (ss, Inl (''Driver stats not found for driver '' @ d))
    | Some s \<Rightarrow>
        (case createOrUpdateDispatchScore now (next_id ss) d (overall_score now (getScoringWeights cs d) s)
            (driver_parts s) ss of
          (ss', e) \<Rightarrow> (ss', Inr e)))"

text \<open>The breakdown: the overall score, each factor with its weight, and whether the decay
  changed the score. Nothing is stored.\<close>

definition calculateMultiFactorScore ::
  "int \<Rightarrow> DispatchConfig list \<Rightarrow> stats_table \<Rightarrow> string \<Rightarrow> string + rat \<times> (rat \<times> rat) list \<times> bool" where
  "calculateMultiFactorScore now cs t d = (case getStats d t of
      None \<Rightarrow> Inl (''Driver stats not found for driver '' @ d)
    | Some s \<Rightarrow> (case (driver_parts s, getScoringWeights cs d) of ((a, b, c), (wa, wb, wc)) \<Rightarrow>
        let raw = calculateWeightedScore (a, b, c) (wa, wb, wc);
            decayed = applyScoreDecay now raw (lastDeliveryAt s)
        in Inr (decayed, [(a, wa), (b, wb), (c, wc)], raw \<noteq> decayed)))"

definition getCurrentScore ::
  "int \<Rightarrow> DispatchConfig list \<Rightarrow> stats_table \<Rightarrow> string \<Rightarrow> (DispatchScore list, string, rat) action" where
  "getCurrentScore now cs t d ss = (case latest_score d ss of
      Some e \<Rightarrow> (if validUntil e < now then map_prod (\<lambda>s. s) (map_sum (\<lambda>e. e) score) (calculateDispatchScore now cs t d ss)
                 else (ss, Inr (score e)))
    | None \<Rightarrow> map_prod (\<lambda>s. s) (map_sum (\<lambda>e. e) score) (calculateDispatchScore now cs t d ss))"

text \<open>The batch: one query for the rows still valid, newest first, and a calculation for
  every driver without one; a driver whose score cannot be calculated has 0.\<close>

definition valid_scores :: "int \<Rightarrow> string list \<Rightarrow> DispatchScore list \<Rightarrow> (string \<times> rat) list" where
  "valid_scores now ds ss = map (\<lambda>s. (score_driver s, score s))
    (sort_key (\<lambda>s. - lastCalculatedAt s) (filter (\<lambda>s. score_driver s \<in> set ds \<and> validUntil s > now) ss))"

fun batch_scores ::
  "int \<Rightarrow> DispatchConfig list \<Rightarrow> stats_table \<Rightarrow> (string \<times> rat) list \<Rightarrow> string list
    \<Rightarrow> DispatchScore list \<times> (string \<Rightarrow> rat option) \<Rightarrow> DispatchScore list \<times> (string \<Rightarrow> rat option)" where
  "batch_scores now cs t valid [] st = st"
| "batch_scores now cs t valid (d # ds) (ss, result) = (case map_of valid d of
      Some x \<Rightarrow> batch_scores now cs t valid ds (ss, result(d \<mapsto> x))
    | None \<Rightarrow> (case calculateDispatchScore now cs t d ss of
          (ss', Inr e) \<Rightarrow> batch_scores now cs t valid ds (ss', result(d \<mapsto> score e))
        | (ss', Inl _) \<Rightarrow> batch_scores now cs t valid ds (ss', result(d \<mapsto> 0))))"

definition getCurrentScores ::
  "int \<Rightarrow> DispatchConfig list \<Rightarrow> stats_table \<Rightarrow> string list \<Rightarrow> DispatchScore list
    \<Rightarrow> DispatchScore list \<times> (string \<Rightarrow> rat option)" where
  "getCurrentScores now cs t ds ss = batch_scores now cs t (valid_scores now ds ss) ds (ss, Map.empty)"

definition isDriverEligible ::
  "int \<Rightarrow> DispatchConfig list \<Rightarrow> stats_table \<Rightarrow> string \<Rightarrow> DispatchScore list \<Rightarrow> DispatchScore list \<times> bool" where
  "isDriverEligible now cs t d ss = (case getStats d t of
      None \<Rightarrow> (ss, True)
    | Some _ \<Rightarrow> (case getCurrentScore now cs t d ss of
          (ss', Inl _) \<Rightarrow> (ss', False)
        | (ss', Inr x) \<Rightarrow> (ss', \<not> x < fst (getThresholds cs d))))"

text \<open>The batch compares with the default threshold.\<close>

definition areDriversEligible ::
  "int \<Rightarrow> DispatchConfig list \<Rightarrow> stats_table \<Rightarrow> string list \<Rightarrow> DispatchScore list
    \<Rightarrow> DispatchScore list \<times> (string \<Rightarrow> bool option)" where
  "areDriversEligible now cs t ds ss = (
    if ds = [] then (ss, Map.empty)
    else case getCurrentScores now cs t ds ss of
      (ss', scores) \<Rightarrow> (ss', (\<lambda>d. if d \<in> set ds then
          Some (case getStatsBatch t ds d of
              None \<Rightarrow> True
            | Some _ \<Rightarrow> \<not> (case scores d of Some x \<Rightarrow> x | None \<Rightarrow> 0) < 50)
        else None)))"

definition getTopDrivers :: "int \<Rightarrow> nat \<Rightarrow> rat \<Rightarrow> DispatchScore list \<Rightarrow> (string \<times> rat) list" where
  "getTopDrivers now limit minScore ss = map (\<lambda>s. (score_driver s, score s))
    (take limit (sort_key (\<lambda>s. - score s) (sort_key (\<lambda>s. - lastCalculatedAt s)
      (filter (\<lambda>s. score s \<ge> minScore \<and> validUntil s > now) ss))))"

section \<open>The bounds of a score\<close>

lemma round2_mono: "x \<le> y \<Longrightarrow> round2 x \<le> round2 y"
  by (simp add: round2_def js_round_mono divide_right_mono)

lemma round2_int [simp]: "round2 (of_int n) = of_int n"
proof -
  have "(of_int n :: rat) * 100 = of_int (n * 100)" by simp
  then have "js_round ((of_int n :: rat) * 100) = n * 100" by (metis js_round_int)
  then show ?thesis by (simp add: round2_def)
qed

lemma round2_numerals [simp]: "round2 0 = 0" "round2 100 = 100"
  using round2_int[of 0] round2_int[of 100] by simp_all

lemma round2_idem [simp]: "round2 (round2 x) = round2 x"
proof -
  have "round2 x * 100 = of_int (js_round (x * 100))" by (simp add: round2_def)
  then have "js_round (round2 x * 100) = js_round (x * 100)" by (metis js_round_int)
  then show ?thesis by (simp add: round2_def)
qed

lemma clamp100_range: "0 \<le> clamp100 x" "clamp100 x \<le> 100"
  by (simp_all add: clamp100_def)

definition in_percent :: "rat \<Rightarrow> bool" where
  "in_percent x = (0 \<le> x \<and> x \<le> 100)"

lemma driver_parts_range:
  assumes "0 \<le> avgPickupTimeSeconds s" "0 \<le> avgDeliveryTimeSeconds s" "driver_parts s = (a, b, c)"
  shows "in_percent a" "in_percent b" "in_percent c"
  using assms clamp100_range
  by (auto simp: driver_parts_def in_percent_def calculateCompletionRateScore_def calculateQualityScore_def
      calculateTimingScore_def Let_def max_def)

definition weights_ok :: "parts \<Rightarrow> bool" where
  "weights_ok w = (case w of (wa, wb, wc) \<Rightarrow> 0 \<le> wa \<and> 0 \<le> wb \<and> 0 \<le> wc \<and> wa + wb + wc \<le> 1)"

lemma weighted_range:
  assumes "in_percent a" "in_percent b" "in_percent c" "weights_ok w"
  shows "in_percent (calculateWeightedScore (a, b, c) w)"
proof -
  obtain wa wb wc where w: "w = (wa, wb, wc)" by (cases w)
  then have n: "0 \<le> wa" "0 \<le> wb" "0 \<le> wc" "wa + wb + wc \<le> 1" using assms(4) by (simp_all add: weights_ok_def)
  have p: "0 \<le> a * wa" "0 \<le> b * wb" "0 \<le> c * wc" using assms(1-3) n by (simp_all add: in_percent_def)
  have "a * wa \<le> 100 * wa" "b * wb \<le> 100 * wb" "c * wc \<le> 100 * wc"
    using assms(1-3) n by (simp_all add: in_percent_def mult_right_mono)
  then have "a * wa + b * wb + c * wc \<le> 100" using n(4) by linarith
  moreover have "0 \<le> a * wa + b * wb + c * wc" using p by linarith
  ultimately show ?thesis
    using round2_mono[of 0 "a * wa + b * wb + c * wc"] round2_mono[of "a * wa + b * wb + c * wc" 100]
    by (simp add: calculateWeightedScore_def w in_percent_def)
qed

lemma decay_factor_range: "0 \<le> (95/100 :: rat) ^ n" "(95/100 :: rat) ^ n \<le> 1"
  by (simp_all add: power_le_one)

lemma decayed_le:
  assumes "0 \<le> x" shows "max 0 (round2 (x * (95/100) ^ n)) \<le> round2 x"
proof -
  have "x * (95/100) ^ n \<le> x" using assms decay_factor_range[of n] by (simp add: mult_left_le)
  then show ?thesis using round2_mono assms round2_mono[of 0 x] by simp
qed

lemma decay_antimono:
  assumes "0 \<le> x" "round2 x = x" "now \<le> later"
  shows "applyScoreDecay later x la \<le> applyScoreDecay now x la"
proof (cases la)
  case (Some t)
  let ?d = "(now - t) div DAY_MS" and ?e = "(later - t) div DAY_MS"
  have le: "?d \<le> ?e" using assms(3) by (simp add: DAY_MS_def zdiv_mono1)
  show ?thesis
  proof (cases "?d \<le> 0")
    case True
    then show ?thesis using decayed_le[OF assms(1)] assms(2) by (simp add: applyScoreDecay_def Some Let_def)
  next
    case False
    have "nat (min ?d 30) \<le> nat (min ?e 30)" using le by simp
    then have "(95/100 :: rat) ^ nat (min ?e 30) \<le> (95/100) ^ nat (min ?d 30)" by (intro power_decreasing) simp_all
    then have "x * (95/100) ^ nat (min ?e 30) \<le> x * (95/100) ^ nat (min ?d 30)"
      using assms(1) by (rule mult_left_mono)
    then have "round2 (x * (95/100) ^ nat (min ?e 30)) \<le> round2 (x * (95/100) ^ nat (min ?d 30))" by (rule round2_mono)
    then show ?thesis using False le by (auto simp: applyScoreDecay_def Some Let_def max_def)
  qed
qed (simp add: applyScoreDecay_def)

lemma decay_le:
  assumes "0 \<le> x" "round2 x = x" shows "applyScoreDecay now x la \<le> x" "0 \<le> applyScoreDecay now x la"
  using decayed_le[OF assms(1)] assms by (auto simp: applyScoreDecay_def Let_def split: option.splits)

lemma weighted_rounded: "round2 (calculateWeightedScore p w) = calculateWeightedScore p w"
  by (simp add: calculateWeightedScore_def split: prod.splits)

lemma overall_score_range:
  assumes "0 \<le> avgPickupTimeSeconds s" "0 \<le> avgDeliveryTimeSeconds s" "weights_ok w"
  shows "in_percent (overall_score now w s)"
proof -
  obtain a b c where p: "driver_parts s = (a, b, c)" by (cases "driver_parts s")
  have "in_percent (calculateWeightedScore (driver_parts s) w)"
    unfolding p by (rule weighted_range) (use driver_parts_range[OF assms(1,2) p] assms(3) in simp_all)
  then have r: "0 \<le> calculateWeightedScore (driver_parts s) w" "calculateWeightedScore (driver_parts s) w \<le> 100"
    by (simp_all add: in_percent_def)
  have "overall_score now w s \<le> calculateWeightedScore (driver_parts s) w" "0 \<le> overall_score now w s"
    unfolding overall_score_def by (rule decay_le[OF r(1) weighted_rounded])+
  then show ?thesis using r(2) unfolding in_percent_def by linarith
qed

lemma createOrUpdate_score: "score (snd (createOrUpdateDispatchScore now n d x p ss)) = x"
  by (simp add: createOrUpdateDispatchScore_def Let_def split: option.splits)

lemma calculate_score:
  "calculateDispatchScore now cs t d ss = (ss', Inr e) \<Longrightarrow> getStats d t = Some s
    \<Longrightarrow> score e = overall_score now (getScoringWeights cs d) s"
  using createOrUpdate_score[of now "next_id ss" d "overall_score now (getScoringWeights cs d) s" "driver_parts s" ss]
  by (auto simp: calculateDispatchScore_def split: prod.splits)

text \<open>The score a driver gets is between 0 and 100 whenever the weights in effect
  are not negative and sum to at most one, whatever the driver's counters and
  times, and however long ago its last delivery was.\<close>

theorem dispatch_score_bounds:
  assumes "weights_ok (getScoringWeights cs d)"
    and "getStats d t = Some s" "0 \<le> avgPickupTimeSeconds s" "0 \<le> avgDeliveryTimeSeconds s"
    and "calculateDispatchScore now cs t d ss = (ss', Inr e)"
  shows "0 \<le> score e \<and> score e \<le> 100"
  using overall_score_range[OF assms(3,4,1)] calculate_score[OF assms(5,2)] by (simp add: in_percent_def)

lemma dispatch_score_bounds_witness:
  "(case calculateDispatchScore 1000 [] [new_stats ''d''] ''d'' [] of
      (_, Inr e) \<Rightarrow> score e \<le> 100 | (_, Inl _) \<Rightarrow> False)"
proof -
  have w: "weights_ok (getScoringWeights [] ''d'')" by code_simp
  have g: "getStats ''d'' [new_stats ''d''] = Some (new_stats ''d'')" by (simp add: getStats_def new_stats_def)
  obtain ss' e where e: "calculateDispatchScore 1000 [] [new_stats ''d''] ''d'' [] = (ss', Inr e)"
    by (cases "createOrUpdateDispatchScore 1000 (next_id []) ''d''
        (overall_score 1000 (getScoringWeights [] ''d'') (new_stats ''d'')) (driver_parts (new_stats ''d'')) []")
      (simp add: calculateDispatchScore_def g)
  show ?thesis
    unfolding e using dispatch_score_bounds[OF w g _ _ e] by (simp add: new_stats_def)
qed

text \<open>The decay only ever lowers a score, and a driver that stays inactive longer
  never scores higher, in spite of the rounding to cents at every calculation.\<close>

theorem inactive_driver_never_gains:
  assumes "now \<le> later" "0 \<le> calculateWeightedScore (driver_parts s) w"
  shows "overall_score later w s \<le> overall_score now w s
    \<and> overall_score now w s \<le> calculateWeightedScore (driver_parts s) w"
  unfolding overall_score_def
  using decay_antimono[OF assms(2) weighted_rounded assms(1)] decay_le[OF assms(2) weighted_rounded] by simp

lemma inactive_driver_never_gains_witness:
  "overall_score 172800000 DEFAULT_WEIGHTS (new_stats ''d'') \<le> overall_score 0 DEFAULT_WEIGHTS (new_stats ''d'')"
  by (rule inactive_driver_never_gains[THEN conjunct1]) (simp, code_simp)

section \<open>Configuration facts\<close>

lemma latest_by_simps [simp]:
  "latest_by f [] = None"
  "latest_by f (r # rs) = (case latest_by f rs of None \<Rightarrow> Some r | Some x \<Rightarrow> if f x \<le> f r then Some r else Some x)"
  by (auto simp: latest_by_def split: list.splits)

lemma latest_by_empty: "latest_by f rs = None \<longleftrightarrow> rs = []"
  by (induction rs) (auto split: option.splits)

lemma latest_by_Some:
  "latest_by f rs = Some r \<Longrightarrow> r \<in> set rs \<and> (\<forall>q \<in> set rs. f q \<le> f r)"
  by (induction rs arbitrary: r) (force simp: latest_by_empty split: option.splits if_splits)+

lemma latest_by_append:
  "latest_by f (rs @ [n]) = (case latest_by f rs of None \<Rightarrow> Some n | Some x \<Rightarrow> if f n \<le> f x then Some x else Some n)"
  by (induction rs) (auto split: option.splits)

lemma latest_by_last:
  assumes "\<And>q. q \<in> set rs \<Longrightarrow> f q < f r"
  shows "latest_by f (rs @ [r]) = Some r"
  using assms latest_by_Some[of f rs] by (fastforce simp: latest_by_append split: option.splits)

text \<open>The rows that \<^verbatim>\<open>setConfig\<close> numbers its row after, for the global scope.\<close>

definition set_global ::
  "nat \<Rightarrow> ConfigType \<Rightarrow> string \<Rightarrow> json \<Rightarrow> DispatchConfig list \<Rightarrow> DispatchConfig list" where
  "set_global new_id t key v cs = setConfig new_id t key v None cs"

definition global_rows :: "ConfigType \<Rightarrow> DispatchConfig list \<Rightarrow> DispatchConfig list" where
  "global_rows t cs = filter (active_config t GLOBAL None) cs"

lemma getConfig_global: "getConfig cs t None =
    (case latest_by config_version (global_rows t cs) of Some c \<Rightarrow> configValue c | None \<Rightarrow> DEFAULT_CONFIGS t)"
  by (simp add: getConfig_def global_rows_def)

lemma set_global_appends:
  obtains c where "set_global n t key v cs = cs @ [c]" "active_config t GLOBAL None c" "configValue c = v"
    "\<And>q. q \<in> set cs \<Longrightarrow> configType q = t \<Longrightarrow> configKey q = key \<Longrightarrow> configScope q = GLOBAL
      \<Longrightarrow> config_version q < config_version c"
    "config_version c = 1 \<or> (\<exists>q \<in> set cs. configType q = t \<and> configKey q = key \<and> configScope q = GLOBAL
      \<and> config_version c = config_version q + 1)"
proof -
  let ?rows = "filter (\<lambda>c. configType c = t \<and> configKey c = key \<and> configScope c = GLOBAL) cs"
  let ?v = "case latest_by config_version ?rows of Some c \<Rightarrow> config_version c + 1 | None \<Rightarrow> 1"
  let ?c = "\<lparr> config_id = n, configType = t, configScope = GLOBAL, scopeValue = None, configKey = key,
    configValue = v, config_version = ?v, isActive = True \<rparr>"
  have "set_global n t key v cs = cs @ [?c]" by (simp add: set_global_def setConfig_def)
  moreover have "active_config t GLOBAL None ?c" "configValue ?c = v" by (simp_all add: active_config_def)
  moreover have "config_version q < config_version ?c"
    if "q \<in> set cs" "configType q = t" "configKey q = key" "configScope q = GLOBAL" for q
  proof -
    have q: "q \<in> set ?rows" using that by simp
    show ?thesis
    proof (cases "latest_by config_version ?rows")
      case None
      then have "?rows = []" unfolding latest_by_empty .
      then show ?thesis using q by simp
    next
      case (Some x)
      then have "config_version q \<le> config_version x" using latest_by_Some[OF Some] q by blast
      then show ?thesis using Some by simp
    qed
  qed
  moreover have "config_version ?c = 1 \<or> (\<exists>q \<in> set cs. configType q = t \<and> configKey q = key
      \<and> configScope q = GLOBAL \<and> config_version ?c = config_version q + 1)"
  proof (cases "latest_by config_version ?rows")
    case (Some x)
    then show ?thesis using latest_by_Some[OF Some] by auto
  qed simp
  ultimately show ?thesis by (rule that)
qed

text \<open>A value set for a configuration type is the value read back, provided the
  active global rows of that type all carry the key it was set under.\<close>

theorem config_roundtrip:
  assumes "list_all (\<lambda>c. configKey c = key) (global_rows t cs)"
  shows "getConfig (set_global new_id t key v cs) t None = v"
proof -
  obtain c where c: "set_global new_id t key v cs = cs @ [c]" "active_config t GLOBAL None c" "configValue c = v"
    "\<And>q. q \<in> set cs \<Longrightarrow> configType q = t \<Longrightarrow> configKey q = key \<Longrightarrow> configScope q = GLOBAL
      \<Longrightarrow> config_version q < config_version c"
    using set_global_appends[of new_id t key v cs] by metis
  have "config_version q < config_version c" if "q \<in> set (global_rows t cs)" for q
    using that assms c(4)[of q] by (auto simp: global_rows_def active_config_def list_all_iff)
  then have "latest_by config_version (global_rows t cs @ [c]) = Some c" by (rule latest_by_last)
  moreover have "global_rows t (cs @ [c]) = global_rows t cs @ [c]" using c(2) by (simp add: global_rows_def)
  ultimately show ?thesis unfolding getConfig_global c(1) by (simp add: c(3))
qed

definition old_row :: "string \<Rightarrow> int \<Rightarrow> rat \<Rightarrow> DispatchConfig" where
  "old_row key ver x = \<lparr> config_id = 1, configType = ROLLOUT_SETTINGS, configScope = GLOBAL, scopeValue = None,
     configKey = key, configValue = JObj [(''rolloutPercentage'', JNum x)], config_version = ver, isActive = True \<rparr>"

lemma config_roundtrip_witness:
  "getConfig (set_global 2 ROLLOUT_SETTINGS ''k'' (JNum 7) [old_row ''k'' 4 1]) ROLLOUT_SETTINGS None = JNum 7"
  by (rule config_roundtrip) (simp add: global_rows_def old_row_def)

text \<open>Reading a configuration looks at the version alone and not at the key, while
  versions are counted for each key: a value written under a new key does not
  take effect when an active global row of another key of that type has a higher
  version. So a roll-out that was set under another key three times cannot be
  changed by \<^verbatim>\<open>updateRolloutSettings\<close>.\<close>

theorem other_key_hides_new_config:
  assumes "list_all (\<lambda>q. configType q = t \<longrightarrow> configKey q \<noteq> key) cs"
    and "c \<in> set (global_rows t cs)" "1 < config_version c"
  shows "getConfig (set_global new_id t key v cs) t None = getConfig cs t None"
proof -
  obtain n where n: "set_global new_id t key v cs = cs @ [n]" "active_config t GLOBAL None n"
    "config_version n = 1 \<or> (\<exists>q \<in> set cs. configType q = t \<and> configKey q = key \<and> configScope q = GLOBAL
      \<and> config_version n = config_version q + 1)"
    using set_global_appends[of new_id t key v cs] by metis
  then have v: "config_version n = 1" using assms(1) by (auto simp: list_all_iff)
  let ?g = "global_rows t cs"
  have g: "global_rows t (cs @ [n]) = ?g @ [n]" using n(2) by (simp add: global_rows_def)
  obtain x where x: "latest_by config_version ?g = Some x" using assms(2) latest_by_empty[of config_version ?g] by fastforce
  have "config_version c \<le> config_version x" using latest_by_Some[OF x] assms(2) by blast
  then have xv: "config_version n < config_version x" using v assms(3) by simp
  have "latest_by config_version (?g @ [n]) = Some x" using x xv by (simp add: latest_by_append)
  then show ?thesis unfolding getConfig_global n(1) g by (simp add: x)
qed

lemma other_key_hides_new_config_witness:
  "getConfig (set_global 2 ROLLOUT_SETTINGS ''rollout_settings'' (JObj [(''rolloutPercentage'', JNum 0)])
      [old_row ''rollout'' 3 80]) ROLLOUT_SETTINGS None = JObj [(''rolloutPercentage'', JNum 80)]"
proof -
  have "old_row ''rollout'' 3 80 \<in> set (global_rows ROLLOUT_SETTINGS [old_row ''rollout'' 3 80])"
    by (simp add: global_rows_def active_config_def old_row_def)
  then have "getConfig (set_global 2 ROLLOUT_SETTINGS ''rollout_settings'' (JObj [(''rolloutPercentage'', JNum 0)])
      [old_row ''rollout'' 3 80]) ROLLOUT_SETTINGS None = getConfig [old_row ''rollout'' 3 80] ROLLOUT_SETTINGS None"
    by (rule other_key_hides_new_config[rotated]) (simp_all add: old_row_def)
  also have "\<dots> = JObj [(''rolloutPercentage'', JNum 80)]" by code_simp
  finally show ?thesis .
qed

text \<open>A configured weight of zero is replaced by its default, so weights that sum to one
  give a score of 160.\<close>

definition one_sided_weights :: DispatchConfig where
  "one_sided_weights = \<lparr> config_id = 1, configType = SCORING_WEIGHTS, configScope = GLOBAL, scopeValue = None,
     configKey = ''weights'', configValue = JObj [(''completionRate'', JNum 1), (''timing'', JNum 0), (''quality'', JNum 0)],
     config_version = 1, isActive = True \<rparr>"

lemma zero_weight_is_ignored:
  "getScoringWeights [one_sided_weights] d = (1, 3/10, 3/10)"
  "calculateWeightedScore (100, 100, 100) (getScoringWeights [one_sided_weights] d) = 160"
proof -
  show w: "getScoringWeights [one_sided_weights] d = (1, 3/10, 3/10)"
    by (simp add: getScoringWeights_def getConfig_def one_sided_weights_def active_config_def num_or_def Let_def)
  show "calculateWeightedScore (100, 100, 100) (getScoringWeights [one_sided_weights] d) = 160"
    unfolding w by code_simp
qed

section \<open>The batch reads\<close>

text \<open>The valid rows of a driver, and the score read from them.\<close>

definition valid_rows :: "int \<Rightarrow> string \<Rightarrow> DispatchScore list \<Rightarrow> DispatchScore list" where
  "valid_rows now d ss = filter (\<lambda>s. score_driver s = d \<and> validUntil s > now) ss"

lemma map_of_rows: "map_of (map (\<lambda>s. (k s, v s)) xs) d = map_option v (find (\<lambda>s. k s = d) xs)"
  by (induction xs) auto

lemma find_filter_hd: "find P xs = (case filter P xs of [] \<Rightarrow> None | x # _ \<Rightarrow> Some x)"
  by (induction xs) auto

lemma valid_scores_of:
  assumes "d \<in> set ds"
  shows "map_of (valid_scores now ds ss) d = map_option score (latest_by lastCalculatedAt (valid_rows now d ss))"
proof -
  have "filter (\<lambda>s. score_driver s = d) (sort_key (\<lambda>s. - lastCalculatedAt s)
        (filter (\<lambda>s. score_driver s \<in> set ds \<and> validUntil s > now) ss))
      = sort_key (\<lambda>s. - lastCalculatedAt s) (filter (\<lambda>s. score_driver s = d)
          (filter (\<lambda>s. score_driver s \<in> set ds \<and> validUntil s > now) ss))" by (rule filter_sort)
  also have "filter (\<lambda>s. score_driver s = d) (filter (\<lambda>s. score_driver s \<in> set ds \<and> validUntil s > now) ss)
      = valid_rows now d ss"
    using assms by (auto simp: valid_rows_def intro: filter_cong)
  finally show ?thesis by (simp add: valid_scores_def map_of_rows find_filter_hd latest_by_def split: list.split)
qed

text \<open>Calculating a score for a driver without a valid row adds one row.\<close>

lemma calculate_without_valid:
  assumes "valid_rows now d ss = []" "calculateDispatchScore now cs t d ss = (ss', r)"
  shows "case r of
      Inl _ \<Rightarrow> ss' = ss
    | Inr e \<Rightarrow> ss' = ss @ [e] \<and> score_driver e = d \<and> validUntil e = now + HOUR_MS"
proof (cases "getStats d t")
  case (Some s)
  have "\<not> validUntil e > now" if "latest_score d ss = Some e" for e
    using latest_by_Some[of lastCalculatedAt "filter (\<lambda>s. score_driver s = d) ss" e] that assms(1)
    by (auto simp: latest_score_def valid_rows_def filter_empty_conv)
  then obtain e where e: "createOrUpdateDispatchScore now (next_id ss) d (overall_score now (getScoringWeights cs d) s)
      (driver_parts s) ss = (ss @ [e], e)" "score_driver e = d" "validUntil e = now + HOUR_MS"
    by (cases "latest_score d ss") (simp_all add: createOrUpdateDispatchScore_def Let_def)
  then show ?thesis using assms(2) Some by (auto simp: calculateDispatchScore_def)
qed (use assms(2) in \<open>auto simp: calculateDispatchScore_def\<close>)

text \<open>The score that a batch reports for a driver, from the table before it.\<close>

definition reported_score :: "int \<Rightarrow> DispatchConfig list \<Rightarrow> stats_table \<Rightarrow> DispatchScore list \<Rightarrow> string \<Rightarrow> rat" where
  "reported_score now cs t ss d = (case latest_by lastCalculatedAt (valid_rows now d ss) of
      Some e \<Rightarrow> score e
    | None \<Rightarrow> (case getStats d t of None \<Rightarrow> 0 | Some s \<Rightarrow> overall_score now (getScoringWeights cs d) s))"

lemma valid_rows_append: "valid_rows now d (ss @ [e]) = valid_rows now d ss @ valid_rows now d [e]"
  by (simp add: valid_rows_def)

lemma reported_other: "score_driver e \<noteq> d \<Longrightarrow> reported_score now cs t (ss @ [e]) d = reported_score now cs t ss d"
  by (simp add: reported_score_def valid_rows_append) (simp add: valid_rows_def)

lemma calculate_reported:
  assumes "valid_rows now d ss = []" "calculateDispatchScore now cs t d ss = (ss', r)"
  shows "reported_score now cs t ss' k = reported_score now cs t ss k"
    "(case r of Inl _ \<Rightarrow> 0 | Inr e \<Rightarrow> score e) = reported_score now cs t ss d"
    "k \<noteq> d \<Longrightarrow> valid_rows now k ss' = valid_rows now k ss"
proof -
  note c = calculate_without_valid[OF assms]
  have none: "reported_score now cs t ss d = (case getStats d t of None \<Rightarrow> 0
      | Some s \<Rightarrow> overall_score now (getScoringWeights cs d) s)"
    by (simp add: reported_score_def assms(1))
  show r: "(case r of Inl _ \<Rightarrow> 0 | Inr e \<Rightarrow> score e) = reported_score now cs t ss d"
  proof (cases "getStats d t")
    case (Some s)
    then obtain e where "r = Inr e" using assms(2) by (auto simp: calculateDispatchScore_def split: prod.splits)
    then show ?thesis using calculate_score[of now cs t d ss ss' e s] assms(2) Some none by simp
  qed (use assms(2) none in \<open>auto simp: calculateDispatchScore_def\<close>)
  show "reported_score now cs t ss' k = reported_score now cs t ss k"
  proof (cases r)
    case (Inr e)
    then have e: "ss' = ss @ [e]" "score_driver e = d" "validUntil e = now + HOUR_MS" using c by simp_all
    show ?thesis
    proof (cases "k = d")
      case True
      have "valid_rows now d (ss @ [e]) = [e]" using e assms(1) by (simp add: valid_rows_append) (simp add: valid_rows_def HOUR_MS_def)
      then have "reported_score now cs t ss' d = score e" by (simp add: e(1) reported_score_def)
      then show ?thesis using r Inr True by simp
    next
      case False
      then show ?thesis using e reported_other by simp
    qed
  qed (use c in simp)
  show "valid_rows now k ss' = valid_rows now k ss" if "k \<noteq> d"
    using c that by (cases r) (auto simp: valid_rows_append, auto simp: valid_rows_def)
qed

lemma batch_scores_reported:
  assumes "\<And>d. d \<in> set ds \<Longrightarrow> map_of valid d = map_option score (latest_by lastCalculatedAt (valid_rows now d ss))"
    and "distinct ds" "batch_scores now cs t valid ds (ss, result) = (ss', result')"
  shows "result' d = (if d \<in> set ds then Some (reported_score now cs t ss d) else result d)
    \<and> reported_score now cs t ss' k = reported_score now cs t ss k"
  using assms
proof (induction ds arbitrary: ss result)
  case (Cons a ds)
  show ?case
  proof (cases "map_of valid a")
    case (Some x)
    then have x: "x = reported_score now cs t ss a"
      using Cons.prems(1)[of a] by (auto simp: reported_score_def)
    have b: "batch_scores now cs t valid ds (ss, result(a \<mapsto> x)) = (ss', result')" using Cons.prems(3) Some by simp
    show ?thesis using Cons.IH[OF _ _ b] Cons.prems(1,2) x by auto
  next
    case None
    then have e: "valid_rows now a ss = []" using Cons.prems(1)[of a] by (simp add: latest_by_empty)
    obtain ss1 r where c: "calculateDispatchScore now cs t a ss = (ss1, r)" by fastforce
    note keep = calculate_reported[OF e c]
    have b: "batch_scores now cs t valid ds (ss1, result(a \<mapsto> reported_score now cs t ss a)) = (ss', result')"
      using Cons.prems(3) None c keep(2) by (auto split: sum.splits)
    have m: "map_of valid d = map_option score (latest_by lastCalculatedAt (valid_rows now d ss1))" if "d \<in> set ds" for d
    proof -
      have "d \<noteq> a" using that Cons.prems(2) by auto
      then show ?thesis using Cons.prems(1)[of d] keep(3)[of d] that by simp
    qed
    have "distinct ds" using Cons.prems(2) by simp
    from Cons.IH[OF m this b] show ?thesis using Cons.prems(2) keep(1) by (cases "d = a") simp_all
  qed
qed simp

lemma getCurrentScores_reported:
  assumes "distinct ds" "getCurrentScores now cs t ds ss = (ss', result)"
  shows "result d = (if d \<in> set ds then Some (reported_score now cs t ss d) else None)"
    "reported_score now cs t ss' k = reported_score now cs t ss k"
  using batch_scores_reported[of ds "valid_scores now ds ss" now ss cs t Map.empty ss' result d k] assms valid_scores_of
  by (auto simp: getCurrentScores_def)

lemma getStatsBatch_None: "d \<in> set ds \<Longrightarrow> getStatsBatch t ds d = None \<longleftrightarrow> getStats d t = None"
  by (force simp: getStatsBatch_def map_of_eq_None_iff getStats_def lookup_by_None)

lemma areDriversEligible_reported:
  assumes "distinct ds" "areDriversEligible now cs t ds ss = (ss', el)"
  shows "el d = (if d \<in> set ds then Some (getStats d t = None \<or> 50 \<le> reported_score now cs t ss d) else None)"
    "reported_score now cs t ss' k = reported_score now cs t ss k"
proof -
  obtain ss1 scores where g: "getCurrentScores now cs t ds ss = (ss1, scores)" by fastforce
  note r = getCurrentScores_reported[OF assms(1) g]
  show "el d = (if d \<in> set ds then Some (getStats d t = None \<or> 50 \<le> reported_score now cs t ss d) else None)"
    using assms(2) g r(1) getStatsBatch_None[of d ds t]
    by (auto simp: areDriversEligible_def not_less split: if_splits option.splits)
  show "reported_score now cs t ss' k = reported_score now cs t ss k"
    using assms(2) g r(2) by (auto simp: areDriversEligible_def split: if_splits)
qed

end
