(* ===== verification/Safe_Dispatch.thy ===== *)
theory Safe_Dispatch
  imports Drivers Dispatch_Scoring "HOL-Library.Word"
begin

text \<open>
  Safe dispatch (\<^verbatim>\<open>src/safe-dispatch/safe-dispatch.service.ts\<close> and the search of
  \<^verbatim>\<open>src/drivers/drivers.service.ts\<close>): the choice of the cohort by a 32-bit hash of the
  delivery, the health checks, the idempotent fallback with its claim row, and the
  dispatch itself. The callback of the caller is a parameter; every call of it is
  logged in the state. The database picks one of the rows that a query without
  an order matches; which one is a parameter, too.
\<close>

section \<open>Decisions\<close>

datatype DispatchCohort = CONTROL | SCORING | MANUAL

datatype DispatchMethod = LEGACY | SCORING_BASED | MANUAL_OVERRIDE

datatype DispatchStatus = PENDING | ASSIGNED | FAILED | TIMEOUT

record DispatchDecision =
  decision_id :: nat
  deliveryId :: string
  cohort :: DispatchCohort
  dispatchMethod :: DispatchMethod
  dispatchStatus :: DispatchStatus
  scoreUsed :: "rat option"
  fallbackReason :: "string option"
  processingTimeMs :: "int option"
  metadata :: "json option"
  createdAt :: int

record dispatch_state =
  decisions :: "DispatchDecision list"
  callback_log :: "(string \<times> string) list"

text \<open>An error has the HTTP status of an HTTP exception, if it is one, and its message.\<close>

type_synonym dispatch_error = "int option \<times> string"

type_synonym callback = "nat \<Rightarrow> string \<Rightarrow> string \<Rightarrow> dispatch_error + json"

section \<open>The cohort\<close>

text \<open>\<^verbatim>\<open>(hash << 5) - hash + char\<close>, cut to 32 bits after every character.\<close>

definition hash_step :: "32 word \<Rightarrow> char \<Rightarrow> 32 word" where
  "hash_step h c = push_bit 5 h - h + of_nat (of_char c)"

definition hash32 :: "string \<Rightarrow> 32 word" where
  "hash32 s = foldl hash_step 0 s"

definition hashString :: "string \<Rightarrow> int" where
  "hashString s = \<bar>sint (hash32 s)\<bar>"

definition isScoringEnabled :: "DispatchConfig list \<Rightarrow> bool" where
  "isScoringEnabled cs = bool_or_false (getConfig cs ROLLOUT_SETTINGS None) ''scoringEnabled''"

definition getRolloutPercentage :: "DispatchConfig list \<Rightarrow> rat" where
  "getRolloutPercentage cs = num_or (getConfig cs ROLLOUT_SETTINGS None) ''rolloutPercentage'' 0"

definition assignToCohort :: "DispatchConfig list \<Rightarrow> string \<Rightarrow> DispatchCohort" where
  "assignToCohort cs d = (
    if of_int (hashString d mod 100) < getRolloutPercentage cs then SCORING else CONTROL)"

section \<open>Rows\<close>

definition new_decision_id :: "DispatchDecision list \<Rightarrow> nat" where
  "new_decision_id ds = Suc (fold (\<lambda>r. max (decision_id r)) ds 0)"

definition insert_decision ::
  "int \<Rightarrow> string \<Rightarrow> DispatchCohort \<Rightarrow> DispatchMethod \<Rightarrow> json option \<Rightarrow> dispatch_state \<Rightarrow> dispatch_state \<times> nat" where
  "insert_decision now d co me md s = (
    let i = new_decision_id (decisions s)
    in (s\<lparr> decisions := decisions s @ [\<lparr> decision_id = i, deliveryId = d, cohort = co, dispatchMethod = me,
           dispatchStatus = PENDING, scoreUsed = None, fallbackReason = None, processingTimeMs = None,
           metadata = md, createdAt = now \<rparr>] \<rparr>, i))"

definition createDispatchDecision ::
  "int \<Rightarrow> string \<Rightarrow> DispatchCohort \<Rightarrow> DispatchMethod \<Rightarrow> json option \<Rightarrow> dispatch_state \<Rightarrow> dispatch_state \<times> nat" where
  "createDispatchDecision = insert_decision"

definition fallbackToLegacyDispatch :: "int \<Rightarrow> string \<Rightarrow> string \<Rightarrow> json option \<Rightarrow> dispatch_state \<Rightarrow> dispatch_state \<times> nat" where
  "fallbackToLegacyDispatch now d reason md = createDispatchDecision now d CONTROL LEGACY
    (Some (JObj ((''fallbackReason'', JStr reason) # opt_field ''originalMetadata'' md (\<lambda>j. j))))"

text \<open>The changes of \<^verbatim>\<open>updateDispatchDecision\<close> are a function on the row.\<close>

definition updateDispatchDecision ::
  "nat \<Rightarrow> (DispatchDecision \<Rightarrow> DispatchDecision) \<Rightarrow> (dispatch_state, dispatch_error, unit) action" where
  "updateDispatchDecision i f s = (case lookup_by decision_id i (decisions s) of
      None \<Rightarrow> (s, Inl (Some 404, ''Dispatch decision not found''))
    | Some r \<Rightarrow> (s\<lparr> decisions := save_by decision_id (f r) (decisions s) \<rparr>, Inr ()))"

section \<open>Health\<close>

definition recent :: "int \<Rightarrow> DispatchDecision list \<Rightarrow> DispatchDecision list" where
  "recent now ds = filter (\<lambda>r. now - HOUR_MS \<le> createdAt r) ds"

definition rate :: "nat \<Rightarrow> nat \<Rightarrow> rat \<Rightarrow> rat" where
  "rate k n d = (if n = 0 then d else of_nat k / of_nat n)"

definition getRecentFailureRate :: "int \<Rightarrow> DispatchDecision list \<Rightarrow> rat" where
  "getRecentFailureRate now ds =
    rate (count_rows (\<lambda>r. dispatchStatus r = FAILED) (recent now ds)) (length (recent now ds)) 0"

definition getAverageProcessingTime :: "int \<Rightarrow> DispatchDecision list \<Rightarrow> rat" where
  "getAverageProcessingTime now ds = (
    let ts = List.map_filter processingTimeMs (recent now ds)
    in if ts = [] then 0 else of_int (sum_list ts) / of_nat (length ts))"

definition getRecentAcceptanceRate :: "int \<Rightarrow> DispatchDecision list \<Rightarrow> rat" where
  "getRecentAcceptanceRate now ds = (
    let rs = filter (\<lambda>r. dispatchMethod r = SCORING_BASED) (recent now ds)
    in rate (count_rows (\<lambda>r. dispatchStatus r = ASSIGNED) rs) (length rs) 1)"

definition getSuccessRate :: "int option \<Rightarrow> DispatchDecision list \<Rightarrow> rat" where
  "getSuccessRate since ds = (
    let rs = (case since of None \<Rightarrow> ds | Some t \<Rightarrow> filter (\<lambda>r. t \<le> createdAt r) ds)
    in rate (count_rows (\<lambda>r. dispatchStatus r = ASSIGNED) rs) (length rs) 1)"

text \<open>The thresholds of the configured object, all three the defaults when there is no
  such object; a comparison with a missing threshold is false.\<close>

definition fallback_thresholds :: "DispatchConfig list \<Rightarrow> (string \<times> json) list" where
  "fallback_thresholds cs = (
    case map_of (object_fields (getConfig cs ROLLOUT_SETTINGS None)) ''fallbackThresholds'' of
      Some (JObj kvs) \<Rightarrow> kvs
    | _ \<Rightarrow> [(''maxProcessingTime'', JNum 5000), (''maxFailureRate'', JNum (1/10)), (''minAcceptanceRate'', JNum (7/10))])"

definition exceeds :: "rat \<Rightarrow> json option \<Rightarrow> bool" where
  "exceeds x t = (case t of Some (JNum y) \<Rightarrow> x > y | _ \<Rightarrow> False)"

definition falls_below :: "rat \<Rightarrow> json option \<Rightarrow> bool" where
  "falls_below x t = (case t of Some (JNum y) \<Rightarrow> x < y | _ \<Rightarrow> False)"

text \<open>The reason of a fallback; the numbers in its text are left out.\<close>

definition shouldFallback :: "int \<Rightarrow> DispatchConfig list \<Rightarrow> DispatchDecision list \<Rightarrow> string option" where
  "shouldFallback now cs ds = (
    let th = map_of (fallback_thresholds cs)
    in if exceeds (getRecentFailureRate now ds) (th ''maxFailureRate'') then Some ''High failure rate''
       else if exceeds (getAverageProcessingTime now ds) (th ''maxProcessingTime'') then Some ''High processing time''
       else if falls_below (getRecentAcceptanceRate now ds) (th ''minAcceptanceRate'') then Some ''Low acceptance rate''
       else None)"

section \<open>The idempotent fallback\<close>

definition is_claim :: "DispatchDecision \<Rightarrow> bool" where
  "is_claim r = (case metadata r of
      Some (JObj kvs) \<Rightarrow> map_of kvs ''fallbackClaim'' = Some (JBool True)
    | _ \<Rightarrow> False)"

definition legacy_rows :: "string \<Rightarrow> DispatchDecision list \<Rightarrow> DispatchDecision list" where
  "legacy_rows d ds = filter (\<lambda>r. deliveryId r = d \<and> dispatchMethod r = LEGACY) ds"

datatype verdict = Already_Executed | In_Progress | Free

definition claim_verdict :: "DispatchDecision option \<Rightarrow> verdict" where
  "claim_verdict e = (case e of
      None \<Rightarrow> Free
    | Some r \<Rightarrow>
        if dispatchStatus r = ASSIGNED then Already_Executed
        else if dispatchStatus r = PENDING \<and> is_claim r then In_Progress
        else Free)"

text \<open>The claiming transaction reads with a row lock and then inserts. A lock holds the
  rows that exist, so the two halves are definitions of their own.\<close>

type_synonym picker = "DispatchDecision list \<Rightarrow> DispatchDecision option"

definition claim_read :: "picker \<Rightarrow> string \<Rightarrow> dispatch_state \<Rightarrow> verdict" where
  "claim_read pick d s = claim_verdict (pick (legacy_rows d (decisions s)))"

definition claim_insert :: "int \<Rightarrow> string \<Rightarrow> string \<Rightarrow> dispatch_state \<Rightarrow> dispatch_state \<times> nat" where
  "claim_insert now d reason = insert_decision now d CONTROL LEGACY
    (Some (JObj [(''fallbackClaim'', JBool True), (''fallbackReason'', JStr reason), (''claimedAt'', JIso now)]))"

datatype dispatch_result =
    Skipped verdict string
  | Legacy_Done string json
  | Scored string rat

definition run_claim ::
  "int \<Rightarrow> callback \<Rightarrow> string \<Rightarrow> string \<Rightarrow> nat \<Rightarrow> (dispatch_state, dispatch_error, dispatch_result) action" where
  "run_claim now cb d reason i s = (
    let n = length (callback_log s);
        s1 = s\<lparr> callback_log := callback_log s @ [(d, reason)] \<rparr>
    in case cb n d reason of
         Inr x \<Rightarrow> (case updateDispatchDecision i (\<lambda>r. r\<lparr> dispatchStatus := ASSIGNED,
               metadata := Some (JObj [(''fallbackClaim'', JBool True), (''fallbackReason'', JStr reason),
                 (''executedAt'', JIso now)]) \<rparr>) s1 of
             (s2, Inl e) \<Rightarrow> (s2, Inl e)
           | (s2, Inr _) \<Rightarrow> (s2, Inr (Legacy_Done reason x)))
       | Inl e \<Rightarrow> (case updateDispatchDecision i (\<lambda>r. r\<lparr> dispatchStatus := FAILED, fallbackReason := Some (snd e),
               metadata := Some (JObj [(''fallbackClaim'', JBool True), (''fallbackReason'', JStr reason),
                 (''failedAt'', JIso now), (''error'', JStr (snd e))]) \<rparr>) s1 of
             (s2, Inl e') \<Rightarrow> (s2, Inl e')
           | (s2, Inr _) \<Rightarrow> (s2, Inl e)))"

definition executeIdempotentFallback ::
  "int \<Rightarrow> picker \<Rightarrow> callback \<Rightarrow> string \<Rightarrow> string \<Rightarrow> (dispatch_state, dispatch_error, dispatch_result) action" where
  "executeIdempotentFallback now pick cb d reason s = (case claim_read pick d s of
      Free \<Rightarrow> (case claim_insert now d reason s of (s1, i) \<Rightarrow> run_claim now cb d reason i s1)
    | v \<Rightarrow> (s, Inr (Skipped v reason)))"

section \<open>Dispatch\<close>

definition executeScoringDispatch :: "(string \<times> rat) list \<Rightarrow> dispatch_error + dispatch_result" where
  "executeScoringDispatch eligible = (case sort_key (\<lambda>x. - snd x) eligible of
      [] \<Rightarrow> Inl (Some 400, ''No eligible drivers found for scoring dispatch'')
    | (d, x) # _ \<Rightarrow> Inr (Scored d x))"

text \<open>The catch clause of \<^verbatim>\<open>executeSafeDispatch\<close>: \<^verbatim>\<open>i\<close> is the decision of step 1.\<close>

definition dispatch_catch ::
  "int \<Rightarrow> int \<Rightarrow> picker \<Rightarrow> callback \<Rightarrow> string \<Rightarrow> nat \<Rightarrow> dispatch_error
    \<Rightarrow> (dispatch_state, dispatch_error, dispatch_result) action" where
  "dispatch_catch now elapsed pick cb d i e s = (
    if (case fst e of Some st \<Rightarrow> st \<ge> 400 | None \<Rightarrow> False) then (s, Inl e)
    else (case updateDispatchDecision i (\<lambda>r. r\<lparr> dispatchStatus := FAILED, fallbackReason := Some (snd e),
             processingTimeMs := Some elapsed \<rparr>) s of
           (s1, Inl e') \<Rightarrow> (s1, Inl e')
         | (s1, Inr _) \<Rightarrow> executeIdempotentFallback now pick cb d (''Dispatch error: '' @ snd e) s1))"

definition scoring_branch ::
  "int \<Rightarrow> int \<Rightarrow> picker \<Rightarrow> DispatchConfig list \<Rightarrow> callback \<Rightarrow> string \<Rightarrow> (string \<times> rat) list \<Rightarrow> nat
    \<Rightarrow> (dispatch_state, dispatch_error, dispatch_result) action" where
  "scoring_branch now elapsed pick cs cb d eligible i s = (case shouldFallback now cs (decisions s) of
      Some reason \<Rightarrow> (case updateDispatchDecision i (\<lambda>r. r\<lparr> dispatchStatus := FAILED,
            fallbackReason := Some reason, processingTimeMs := Some elapsed \<rparr>) s of
          (s1, Inl e) \<Rightarrow> (s1, Inl e)
        | (s1, Inr _) \<Rightarrow> executeIdempotentFallback now pick cb d reason s1)
    | None \<Rightarrow> (case executeScoringDispatch eligible of
          Inl e \<Rightarrow> (s, Inl e)
        | Inr x \<Rightarrow> (case updateDispatchDecision i (\<lambda>r. r\<lparr> dispatchStatus := ASSIGNED,
              processingTimeMs := Some elapsed,
              scoreUsed := (case x of Scored _ sc \<Rightarrow> Some sc | _ \<Rightarrow> None) \<rparr>) s of
            (s1, Inl e) \<Rightarrow> (s1, Inl e)
          | (s1, Inr _) \<Rightarrow> (s1, Inr x))))"

definition control_branch ::
  "int \<Rightarrow> int \<Rightarrow> picker \<Rightarrow> callback \<Rightarrow> string \<Rightarrow> nat \<Rightarrow> (dispatch_state, dispatch_error, dispatch_result) action" where
  "control_branch now elapsed pick cb d i s = (case executeIdempotentFallback now pick cb d ''Control group'' s of
      (s1, Inl e) \<Rightarrow> (s1, Inl e)
    | (s1, Inr x) \<Rightarrow> (case updateDispatchDecision i (\<lambda>r. r\<lparr> dispatchStatus := ASSIGNED,
          processingTimeMs := Some elapsed, dispatchMethod := LEGACY \<rparr>) s1 of
        (s2, Inl e) \<Rightarrow> (s2, Inl e)
      | (s2, Inr _) \<Rightarrow> (s2, Inr x)))"

definition executeSafeDispatch ::
  "int \<Rightarrow> int \<Rightarrow> picker \<Rightarrow> DispatchConfig list \<Rightarrow> callback \<Rightarrow> string \<Rightarrow> (string \<times> rat) list
    \<Rightarrow> (dispatch_state, dispatch_error, dispatch_result) action" where
  "executeSafeDispatch now elapsed pick cs cb d eligible s = (
    let co = assignToCohort cs d
    in case insert_decision now d co (if co = SCORING then SCORING_BASED else LEGACY) None s of
      (s1, i) \<Rightarrow>
        (case (if co = SCORING then scoring_branch now elapsed pick cs cb d eligible i s1
               else control_branch now elapsed pick cb d i s1) of
          (s2, Inr x) \<Rightarrow> (s2, Inr x)
        | (s2, Inl e) \<Rightarrow> dispatch_catch now elapsed pick cb d i e s2))"

section \<open>Searching drivers\<close>

definition ready :: "driver \<Rightarrow> bool" where
  "ready dr = (dr_isActive dr \<and> dr_status dr = AVAILABLE \<and> dr_registrationStatus dr = APPROVED)"

text \<open>\<^verbatim>\<open>distance\<close> is the distance the database computes.\<close>

definition driver_distance :: "(rat \<Rightarrow> rat \<Rightarrow> rat \<Rightarrow> rat \<Rightarrow> rat) \<Rightarrow> rat \<Rightarrow> rat \<Rightarrow> driver \<Rightarrow> rat option" where
  "driver_distance distance lat lon dr = (case (dr_currentLat dr, dr_currentLon dr) of
      (Some a, Some b) \<Rightarrow> Some (distance lat lon a b)
    | _ \<Rightarrow> None)"

definition findAvailableFromDb ::
  "(rat \<Rightarrow> rat \<Rightarrow> rat \<Rightarrow> rat \<Rightarrow> rat) \<Rightarrow> rat \<Rightarrow> rat \<Rightarrow> rat \<Rightarrow> nat \<Rightarrow> driver list \<Rightarrow> driver list" where
  "findAvailableFromDb distance lat lon radius limit drs = take limit
    (sort_key (\<lambda>dr. case driver_distance distance lat lon dr of Some x \<Rightarrow> x | None \<Rightarrow> 0)
      (filter (\<lambda>dr. ready dr \<and> (case driver_distance distance lat lon dr of Some x \<Rightarrow> x \<le> radius | None \<Rightarrow> False)) drs))"

text \<open>\<^verbatim>\<open>redis\<close> is the answer of the geo index for the place, with the radius in
  kilometres: the drivers' ids, nearest first, or \<^verbatim>\<open>None\<close> when it is unavailable.
  \<^verbatim>\<open>ORDER BY lastActiveAt DESC\<close> puts the drivers without that time first.\<close>

definition findAvailable ::
  "(rat \<Rightarrow> rat \<Rightarrow> rat \<Rightarrow> rat \<Rightarrow> rat) \<Rightarrow> (rat \<Rightarrow> rat \<Rightarrow> rat \<Rightarrow> string list option)
    \<Rightarrow> (rat \<times> rat) option \<Rightarrow> rat option \<Rightarrow> driver list \<Rightarrow> driver list" where
  "findAvailable distance redis place radiusKm drs = (
    let radius = (case radiusKm of Some x \<Rightarrow> if x = 0 then 5 else x | None \<Rightarrow> 5);
        rs = filter ready drs;
        by_activity = take 50 (filter (\<lambda>dr. dr_lastActiveAt dr = None) rs
          @ sort_key (\<lambda>dr. case dr_lastActiveAt dr of Some t \<Rightarrow> - t | None \<Rightarrow> 0)
              (filter (\<lambda>dr. dr_lastActiveAt dr \<noteq> None) rs))
    in case place of
        None \<Rightarrow> by_activity
      | Some (lat, lon) \<Rightarrow> (case redis lat lon radius of
            None \<Rightarrow> by_activity
          | Some [] \<Rightarrow> findAvailableFromDb distance lat lon radius 50 drs
          | Some ids \<Rightarrow> List.map_filter (\<lambda>i. lookup_by dr_id i rs) ids))"

definition getEligibleDrivers ::
  "int \<Rightarrow> DispatchConfig list \<Rightarrow> stats_table \<Rightarrow> driver list \<Rightarrow> nat \<Rightarrow> DispatchScore list
    \<Rightarrow> DispatchScore list \<times> (string \<times> rat) list" where
  "getEligibleDrivers now cs t available limit ss = (
    if available = [] then (ss, [])
    else
      let ids = map dr_id available
      in case areDriversEligible now cs t ids ss of (ss1, eligible) \<Rightarrow>
         case getCurrentScores now cs t ids ss1 of (ss2, scores) \<Rightarrow>
           (ss2, take limit (sort_key (\<lambda>x. - snd x)
             (map (\<lambda>d. (d, case scores d of Some x \<Rightarrow> x | None \<Rightarrow> 0))
               (filter (\<lambda>d. case eligible d of Some b \<Rightarrow> b | None \<Rightarrow> False) ids)))))"

section \<open>The hash and the roll-out\<close>

text \<open>The hash that chooses the cohort, computed by shifts that are cut to 32 bits
  after every character, is the polynomial of the character codes in 31, modulo
  2 to the power of 32.\<close>

theorem hash_is_polynomial:
  "hash32 s = (\<Sum>i<length s. of_nat (of_char (s ! i)) * 31 ^ (length s - Suc i))"
proof (induction s rule: rev_induct)
  case (snoc c s)
  have step: "hash_step h c = h * 31 + of_nat (of_char c)" for h :: "32 word"
    by (simp add: hash_step_def push_bit_eq_mult)
  have "(\<Sum>i<length s. of_nat (of_char ((s @ [c]) ! i)) * (31::32 word) ^ (length s - i))
      = (\<Sum>i<length s. of_nat (of_char (s ! i)) * 31 ^ (length s - Suc i)) * 31"
    unfolding sum_distrib_right
  proof (rule sum.cong)
    fix i assume "i \<in> {..<length s}"
    then have "length s - i = Suc (length s - Suc i)" "(s @ [c]) ! i = s ! i" by (auto simp: nth_append)
    then show "of_nat (of_char ((s @ [c]) ! i)) * (31::32 word) ^ (length s - i)
        = of_nat (of_char (s ! i)) * 31 ^ (length s - Suc i) * 31" by simp
  qed simp
  then show ?case using snoc by (simp add: hash32_def step)
qed (simp add: hash32_def)

lemma hashString_bound: "0 \<le> hashString d" "hashString d \<le> 2 ^ 31"
  using sint_range_size[of "hash32 d"] by (auto simp: hashString_def word_size)

text \<open>Raising the roll-out percentage never moves a delivery out of the scoring
  cohort; at zero or less no delivery is in it, at a hundred or more every one is.\<close>

theorem rollout_is_monotone:
  assumes "getRolloutPercentage cs \<le> getRolloutPercentage cs'"
  shows "(assignToCohort cs d = SCORING \<longrightarrow> assignToCohort cs' d = SCORING)
    \<and> (getRolloutPercentage cs \<le> 0 \<longrightarrow> assignToCohort cs d = CONTROL)
    \<and> (100 \<le> getRolloutPercentage cs \<longrightarrow> assignToCohort cs d = SCORING)"
proof -
  have "0 \<le> hashString d mod 100" "hashString d mod 100 < 100" by simp_all
  then have "(0::rat) \<le> of_int (hashString d mod 100)" "(of_int (hashString d mod 100) :: rat) < 100"
    by (simp_all only: of_int_0_le_iff of_int_less_numeral_iff)
  then show ?thesis using assms by (auto simp: assignToCohort_def)
qed

definition rollout_row :: "rat \<Rightarrow> DispatchConfig" where
  "rollout_row x = \<lparr> config_id = 1, configType = ROLLOUT_SETTINGS, configScope = GLOBAL, scopeValue = None,
     configKey = ''rollout_settings'', configValue = JObj [(''rolloutPercentage'', JNum x)],
     config_version = 1, isActive = True \<rparr>"

lemma rollout_is_monotone_witness:
  "assignToCohort [rollout_row 30] ''d'' = SCORING \<and> assignToCohort [rollout_row 60] ''d'' = SCORING"
proof -
  have le: "getRolloutPercentage [rollout_row 30] \<le> getRolloutPercentage [rollout_row 60]" by code_simp
  have "assignToCohort [rollout_row 30] ''d'' = SCORING" by code_simp
  then show ?thesis using rollout_is_monotone[OF le, of "''d''"] by blast
qed

section \<open>Rows of decisions\<close>

definition pick_ok :: "picker \<Rightarrow> bool" where
  "pick_ok pick = (\<forall>rs. (case pick rs of None \<Rightarrow> rs = [] | Some r \<Rightarrow> r \<in> set rs))"

definition first_row :: picker where
  "first_row rs = (case rs of [] \<Rightarrow> None | r # _ \<Rightarrow> Some r)"

lemma first_row_ok: "pick_ok first_row"
  by (simp add: pick_ok_def first_row_def split: list.split)

lemma pick_singleton: "pick_ok pick \<Longrightarrow> pick [r] = Some r"
  by (auto simp: pick_ok_def split: option.splits dest!: spec[of _ "[r]"])

lemma pick_nil: "pick_ok pick \<Longrightarrow> pick [] = None"
  by (auto simp: pick_ok_def split: option.splits dest!: spec[of _ "[]"])

lemma pick_in: "pick_ok pick \<Longrightarrow> rs \<noteq> [] \<Longrightarrow> \<exists>r. pick rs = Some r \<and> r \<in> set rs"
  by (auto simp: pick_ok_def split: option.splits dest!: spec[of _ rs])

lemma fold_max_ge: "m \<le> fold (\<lambda>r. max (f r)) rs (m :: nat)" "r \<in> set rs \<Longrightarrow> f r \<le> fold (\<lambda>r. max (f r)) rs m"
proof (induction rs arbitrary: m)
  case (Cons a rs)
  { case 1 then show ?case using Cons(1)[of "max (f a) m"] by simp }
  { case 2 then show ?case using Cons(1)[of "max (f a) m"] Cons(2)[of "max (f a) m"] by auto }
qed simp_all

lemma new_id_fresh: "new_decision_id ds \<notin> decision_id ` set ds"
  using fold_max_ge(2)[of _ ds decision_id 0] by (fastforce simp: new_decision_id_def)

lemma lookup_new:
  "lookup_by decision_id (new_decision_id ds) (ds @ [r]) = (if decision_id r = new_decision_id ds then Some r else None)"
  using new_id_fresh[of ds] by (simp add: lookup_by_append lookup_by_None[THEN iffD2])

lemma save_new:
  assumes "decision_id r = new_decision_id ds" "decision_id q = new_decision_id ds"
  shows "save_by decision_id q (ds @ [r]) = ds @ [q]"
proof -
  have "map (\<lambda>x. if decision_id x = new_decision_id ds then q else x) ds = ds"
    using new_id_fresh[of ds] by (intro map_idI) force
  then show ?thesis using assms by (simp add: save_by_present)
qed

text \<open>Inserting a row and updating it at once.\<close>

definition decision_row ::
  "nat \<Rightarrow> int \<Rightarrow> string \<Rightarrow> DispatchCohort \<Rightarrow> DispatchMethod \<Rightarrow> json option \<Rightarrow> DispatchDecision" where
  "decision_row i now d co me md = \<lparr> decision_id = i, deliveryId = d, cohort = co, dispatchMethod = me,
     dispatchStatus = PENDING, scoreUsed = None, fallbackReason = None, processingTimeMs = None,
     metadata = md, createdAt = now \<rparr>"

lemma insert_decision_eq: "insert_decision now d co me md s =
    (s\<lparr> decisions := decisions s @ [decision_row (new_decision_id (decisions s)) now d co me md] \<rparr>, new_decision_id (decisions s))"
  by (simp add: insert_decision_def decision_row_def Let_def)

lemma decision_row_simps [simp]:
  "decision_id (decision_row i now d co me md) = i" "deliveryId (decision_row i now d co me md) = d"
  "dispatchMethod (decision_row i now d co me md) = me" "dispatchStatus (decision_row i now d co me md) = PENDING"
  "metadata (decision_row i now d co me md) = md"
  by (simp_all add: decision_row_def)

lemma update_last:
  assumes "decisions s = ds @ [r]" "decision_id r = new_decision_id ds" "decision_id (f r) = decision_id r"
  shows "updateDispatchDecision (new_decision_id ds) f s = (s\<lparr> decisions := ds @ [f r] \<rparr>, Inr ())"
  using assms by (simp add: updateDispatchDecision_def lookup_new save_new)

lemma legacy_rows_append: "legacy_rows d (xs @ ys) = legacy_rows d xs @ legacy_rows d ys"
  by (simp add: legacy_rows_def)

section \<open>The fallback\<close>

definition claim_row :: "nat \<Rightarrow> int \<Rightarrow> string \<Rightarrow> string \<Rightarrow> DispatchDecision" where
  "claim_row i now d reason = decision_row i now d CONTROL LEGACY
    (Some (JObj [(''fallbackClaim'', JBool True), (''fallbackReason'', JStr reason), (''claimedAt'', JIso now)]))"

definition done_row :: "nat \<Rightarrow> int \<Rightarrow> string \<Rightarrow> string \<Rightarrow> DispatchDecision" where
  "done_row i now d reason = (claim_row i now d reason)\<lparr> dispatchStatus := ASSIGNED,
     metadata := Some (JObj [(''fallbackClaim'', JBool True), (''fallbackReason'', JStr reason), (''executedAt'', JIso now)]) \<rparr>"

definition failed_row :: "nat \<Rightarrow> int \<Rightarrow> string \<Rightarrow> string \<Rightarrow> string \<Rightarrow> DispatchDecision" where
  "failed_row i now d reason m = (claim_row i now d reason)\<lparr> dispatchStatus := FAILED, fallbackReason := Some m,
     metadata := Some (JObj [(''fallbackClaim'', JBool True), (''fallbackReason'', JStr reason),
                 (''failedAt'', JIso now), (''error'', JStr m)]) \<rparr>"

lemma claim_row_simps [simp]:
  "decision_id (claim_row i now d reason) = i" "decision_id (done_row i now d reason) = i"
  "decision_id (failed_row i now d reason m) = i"
  "legacy_rows d [claim_row i now d reason] = [claim_row i now d reason]"
  "legacy_rows d [done_row i now d reason] = [done_row i now d reason]"
  "legacy_rows d [failed_row i now d reason m] = [failed_row i now d reason m]"
  by (simp_all add: claim_row_def done_row_def failed_row_def legacy_rows_def)

lemma claim_verdict_simps [simp]:
  "claim_verdict None = Free"
  "claim_verdict (Some (claim_row i now d reason)) = In_Progress"
  "claim_verdict (Some (done_row i now d reason)) = Already_Executed"
  "claim_verdict (Some (failed_row i now d reason m)) = Free"
  by (simp_all add: claim_verdict_def claim_row_def done_row_def failed_row_def is_claim_def)

lemma fallback_free:
  assumes "claim_read pick d s = Free"
  shows "executeIdempotentFallback now pick cb d reason s = (
    let i = new_decision_id (decisions s); log = callback_log s @ [(d, reason)]
    in case cb (length (callback_log s)) d reason of
         Inr x \<Rightarrow> (s\<lparr> decisions := decisions s @ [done_row i now d reason], callback_log := log \<rparr>, Inr (Legacy_Done reason x))
       | Inl e \<Rightarrow> (s\<lparr> decisions := decisions s @ [failed_row i now d reason (snd e)], callback_log := log \<rparr>, Inl e))"
proof -
  let ?i = "new_decision_id (decisions s)"
  let ?s1 = "s\<lparr> decisions := decisions s @ [claim_row ?i now d reason], callback_log := callback_log s @ [(d, reason)] \<rparr>"
  have up: "updateDispatchDecision ?i f ?s1 = (?s1\<lparr> decisions := decisions s @ [f (claim_row ?i now d reason)] \<rparr>, Inr ())"
    if "decision_id (f (claim_row ?i now d reason)) = ?i" for f
    by (rule update_last) (use that in simp_all)
  have "claim_insert now d reason s = (s\<lparr> decisions := decisions s @ [claim_row ?i now d reason] \<rparr>, ?i)"
    by (simp add: claim_insert_def insert_decision_eq claim_row_def)
  then show ?thesis
    using assms by (simp add: executeIdempotentFallback_def run_claim_def Let_def up done_row_def failed_row_def
        split: sum.split)
qed

lemma fallback_skips:
  assumes "claim_read pick d s \<noteq> Free"
  shows "executeIdempotentFallback now pick cb d reason s = (s, Inr (Skipped (claim_read pick d s) reason))"
  using assms by (simp add: executeIdempotentFallback_def split: verdict.split)

lemma claim_read_none: "pick_ok pick \<Longrightarrow> legacy_rows d (decisions s) = [] \<Longrightarrow> claim_read pick d s = Free"
  by (simp add: claim_read_def pick_nil)

text \<open>Fallbacks of any deliveries, one after another: each with its time, its callback,
  its delivery and its reason.\<close>

fun fallbacks :: "picker \<Rightarrow> (int \<times> callback \<times> string \<times> string) list \<Rightarrow> dispatch_state
    \<Rightarrow> dispatch_state \<times> (dispatch_error + dispatch_result) list" where
  "fallbacks pick [] s = (s, [])"
| "fallbacks pick ((now, cb, d, reason) # fs) s =
    (let (s1, r) = executeIdempotentFallback now pick cb d reason s; (s2, rs) = fallbacks pick fs s1 in (s2, r # rs))"

lemma length_fallbacks: "length (snd (fallbacks pick fs s)) = length fs"
  by (induction fs arbitrary: s) (auto simp: Let_def split: prod.splits, metis snd_conv)

definition calls_of :: "string \<Rightarrow> dispatch_state \<Rightarrow> (string \<times> string) list" where
  "calls_of d s = filter (\<lambda>c. fst c = d) (callback_log s)"

lemma fallback_of_other:
  assumes "executeIdempotentFallback now pick cb d' reason s = (s1, r)" "d' \<noteq> d"
  shows "legacy_rows d (decisions s1) = legacy_rows d (decisions s) \<and> calls_of d s1 = calls_of d s"
proof (cases "claim_read pick d' s = Free")
  case True
  have "legacy_rows d [done_row i now d' reason] = []" "legacy_rows d [failed_row i now d' reason m] = []" for i m
    using assms(2) by (simp_all add: legacy_rows_def done_row_def failed_row_def claim_row_def)
  then show ?thesis
    using assms fallback_free[OF True, of now cb reason]
    by (auto simp: Let_def legacy_rows_append calls_of_def split: sum.splits)
qed (use assms fallback_skips in force)

lemma fallbacks_after_success:
  assumes "pick_ok pick" "legacy_rows d (decisions s) = [done_row i t d reason]"
    and "fallbacks pick fs s = (s', rs)"
  shows "legacy_rows d (decisions s') = [done_row i t d reason] \<and> calls_of d s' = calls_of d s
    \<and> list_all2 (\<lambda>(now, cb, d', reason') r. d' = d \<longrightarrow> r = Inr (Skipped Already_Executed reason')) fs rs"
  using assms(2,3)
proof (induction fs arbitrary: s rs)
  case (Cons f fs)
  obtain now cb d' reason' where f: "f = (now, cb, d', reason')" by (cases f)
  obtain s1 r where e: "executeIdempotentFallback now pick cb d' reason' s = (s1, r)" by fastforce
  obtain rs1 where rs: "fallbacks pick fs s1 = (s', rs1)" "rs = r # rs1"
    using Cons.prems(2) f e by (auto split: prod.splits)
  have "legacy_rows d (decisions s1) = [done_row i t d reason] \<and> calls_of d s1 = calls_of d s
      \<and> (d' = d \<longrightarrow> r = Inr (Skipped Already_Executed reason'))"
  proof (cases "d' = d")
    case True
    have "claim_read pick d s = Already_Executed"
      using Cons.prems(1) assms(1) by (simp add: claim_read_def pick_singleton)
    then show ?thesis using fallback_skips[of pick d s] e True Cons.prems(1) by simp
  qed (use fallback_of_other[OF e] Cons.prems(1) in simp)
  then show ?case using Cons.IH[OF _ rs(1)] rs(2) f by simp
qed simp

text \<open>C14: A delivery that no legacy row mentions gets the fallback once, when fallbacks run
  one after another (none starts before the one before it has ended) and the callback of its
  first one succeeds: that callback is called, and through any number of later fallbacks of this
  and of other deliveries, with any times, callbacks and outcomes, no callback is called for it again,
  its legacy rows do not change, and each later fallback for it returns that it was already
  executed.\<close>

theorem fallback_runs_once:
  assumes "pick_ok pick" "legacy_rows d (decisions s) = []"
    and "cb (length (callback_log s)) d reason = Inr x"
    and "fallbacks pick ((now, cb, d, reason) # fs) s = (s', r # rs)"
  shows "r = Inr (Legacy_Done reason x) \<and> calls_of d s' = calls_of d s @ [(d, reason)]
    \<and> legacy_rows d (decisions s') = [done_row (new_decision_id (decisions s)) now d reason]
    \<and> list_all2 (\<lambda>(now', cb', d', reason') r'. d' = d \<longrightarrow> r' = Inr (Skipped Already_Executed reason')) fs rs"
proof -
  let ?s1 = "s\<lparr> decisions := decisions s @ [done_row (new_decision_id (decisions s)) now d reason],
      callback_log := callback_log s @ [(d, reason)] \<rparr>"
  have e: "executeIdempotentFallback now pick cb d reason s = (?s1, Inr (Legacy_Done reason x))"
    using assms(3) fallback_free[OF claim_read_none[OF assms(1,2)]] by (simp add: Let_def)
  have l: "legacy_rows d (decisions ?s1) = [done_row (new_decision_id (decisions s)) now d reason]"
    using assms(2) by (simp add: legacy_rows_append)
  have r: "r = Inr (Legacy_Done reason x)" and f: "fallbacks pick fs ?s1 = (s', rs)"
    using assms(4) e by (auto split: prod.splits)
  show ?thesis
    using fallbacks_after_success[OF assms(1) l f] r by (simp add: calls_of_def)
qed

definition empty_dispatch :: dispatch_state where
  "empty_dispatch = \<lparr> decisions = [], callback_log = [] \<rparr>"

definition passing :: callback where
  "passing = (\<lambda>_ _ _. Inr JNull)"

definition three_fallbacks :: "(int \<times> callback \<times> string \<times> string) list" where
  "three_fallbacks = [(5, passing, ''d'', ''r''), (7, passing, ''e'', ''p''), (9, passing, ''d'', ''q'')]"

lemma fallback_runs_once_witness:
  "calls_of ''d'' (fst (fallbacks first_row three_fallbacks empty_dispatch)) = [(''d'', ''r'')]
    \<and> snd (fallbacks first_row three_fallbacks empty_dispatch) ! 2 = Inr (Skipped Already_Executed ''q'')"
proof -
  obtain s' rs where f: "fallbacks first_row three_fallbacks empty_dispatch = (s', rs)" by (metis surj_pair)
  then have "length rs = 3"
    using length_fallbacks[of first_row three_fallbacks empty_dispatch] by (simp add: three_fallbacks_def)
  then obtain r r1 r2 where "rs = [r, r1, r2]" by (auto simp: length_Suc_conv numeral_3_eq_3)
  then have e: "fallbacks first_row three_fallbacks empty_dispatch = (s', [r, r1, r2])" using f by simp
  have "legacy_rows ''d'' (decisions empty_dispatch) = []" "calls_of ''d'' empty_dispatch = []"
    by (simp_all add: empty_dispatch_def legacy_rows_def calls_of_def)
  then show ?thesis
    using fallback_runs_once[OF first_row_ok _ _ e[unfolded three_fallbacks_def], of JNull] e
    by (simp add: passing_def)
qed

text \<open>When the first callback of the delivery fails, its row stays; after a second call that succeeded
  the check takes whichever of the two rows the database gives it, and may call a third time.\<close>

definition last_row :: picker where
  "last_row rs = (if rs = [] then None else Some (last rs))"

lemma last_row_ok: "pick_ok last_row"
  by (simp add: pick_ok_def last_row_def)

theorem retried_fallback_may_run_again:
  assumes "legacy_rows d (decisions s) = [failed_row i t d r0 m, done_row j u d r1]"
  shows "claim_read first_row d s = Free \<and> claim_read last_row d s = Already_Executed
    \<and> callback_log (fst (executeIdempotentFallback now first_row cb d reason s)) = callback_log s @ [(d, reason)]"
proof -
  have "claim_read first_row d s = Free" "claim_read last_row d s = Already_Executed"
    by (simp_all add: claim_read_def assms first_row_def last_row_def)
  then show ?thesis using fallback_free[of first_row d s now cb reason] by (simp add: Let_def split: sum.split)
qed

lemma retried_fallback_may_run_again_witness:
  "claim_read first_row ''d'' \<lparr> decisions = [failed_row 1 0 ''d'' ''r'' ''m'', done_row 2 5 ''d'' ''r''], callback_log = [] \<rparr> = Free"
proof -
  have "legacy_rows ''d'' [failed_row 1 0 ''d'' ''r'' ''m'', done_row 2 5 ''d'' ''r'']
      = [failed_row 1 0 ''d'' ''r'' ''m'', done_row 2 5 ''d'' ''r'']"
    by (simp add: legacy_rows_def failed_row_def done_row_def claim_row_def)
  then show ?thesis
    using retried_fallback_may_run_again[of "''d''" "\<lparr> decisions = [failed_row 1 0 ''d'' ''r'' ''m'', done_row 2 5 ''d'' ''r''],
      callback_log = [] \<rparr>" 1 0 "''r''" "''m''" 2 5 "''r''"] by simp
qed

section \<open>Two requests at once\<close>

text \<open>Requests for the delivery \<^verbatim>\<open>d\<close> interleave at their database accesses: a request
  reads under the lock, inserts its claim and commits, and runs the callback.
  The rows that a read found stay locked until the claim is inserted.\<close>

datatype phase = Waiting | Checked verdict bool | Claimed nat | Finished

definition locks_held :: "(nat \<Rightarrow> phase) \<Rightarrow> bool" where
  "locks_held ph = (\<exists>p v. ph p = Checked v True)"

inductive fallback_step ::
  "int \<Rightarrow> picker \<Rightarrow> callback \<Rightarrow> string \<Rightarrow> string \<Rightarrow> dispatch_state \<times> (nat \<Rightarrow> phase) \<Rightarrow> dispatch_state \<times> (nat \<Rightarrow> phase) \<Rightarrow> bool"
  for now pick cb d reason where
  Read: "ph p = Waiting \<Longrightarrow> \<not> locks_held ph \<Longrightarrow>
    fallback_step now pick cb d reason (s, ph)
      (s, ph(p := Checked (claim_read pick d s) (legacy_rows d (decisions s) \<noteq> [])))"
| Insert: "ph p = Checked Free l \<Longrightarrow> claim_insert now d reason s = (s', i) \<Longrightarrow>
    fallback_step now pick cb d reason (s, ph) (s', ph(p := Claimed i))"
| Skip: "ph p = Checked v l \<Longrightarrow> v \<noteq> Free \<Longrightarrow>
    fallback_step now pick cb d reason (s, ph) (s, ph(p := Finished))"
| Run: "ph p = Claimed i \<Longrightarrow> run_claim now cb d reason i s = (s', r) \<Longrightarrow>
    fallback_step now pick cb d reason (s, ph) (s', ph(p := Finished))"

lemma run_claim_log: "callback_log (fst (run_claim now cb d reason i s)) = callback_log s @ [(d, reason)]"
  by (auto simp: run_claim_def updateDispatchDecision_def Let_def split: sum.splits option.splits prod.splits)

text \<open>The row lock does not protect the first claim: it locks the rows that exist, and a
  delivery of the scoring cohort has no legacy row. Two requests for it can both
  read before either inserts, and then both run the callback.\<close>

theorem concurrent_fallbacks_both_run:
  assumes "pick_ok pick" "legacy_rows d (decisions s) = []"
  shows "\<exists>s' ph. (fallback_step now pick cb d reason)\<^sup>*\<^sup>* (s, \<lambda>_. Waiting) (s', ph)
    \<and> ph 0 = Finished \<and> ph 1 = Finished \<and> callback_log s' = callback_log s @ [(d, reason), (d, reason)]"
proof -
  let ?R = "fallback_step now pick cb d reason"
  let ?p0 = "(\<lambda>_. Waiting) :: nat \<Rightarrow> phase"
  note free = claim_read_none[OF assms]
  let ?p1 = "?p0(0 := Checked Free False)" and ?p2 = "?p0(0 := Checked Free False, 1 := Checked Free False)"
  have r1: "?R (s, ?p0) (s, ?p1)"
    using Read[of ?p0 0 now pick cb d reason s] free assms(2) by (simp add: locks_held_def)
  have r2: "?R (s, ?p1) (s, ?p2)"
    using Read[of ?p1 1 now pick cb d reason s] free assms(2) by (simp add: locks_held_def)
  obtain s1 i where i: "claim_insert now d reason s = (s1, i)" by fastforce
  obtain s2 j where j: "claim_insert now d reason s1 = (s2, j)" by fastforce
  obtain s3 a where a: "run_claim now cb d reason i s2 = (s3, a)" by fastforce
  obtain s4 b where b: "run_claim now cb d reason j s3 = (s4, b)" by fastforce
  have r3: "?R (s, ?p2) (s1, ?p2(0 := Claimed i))" by (rule Insert[OF _ i, of _ _ False]) simp
  have r4: "?R (s1, ?p2(0 := Claimed i)) (s2, ?p2(0 := Claimed i, 1 := Claimed j))"
    by (rule Insert[OF _ j, of _ _ False]) simp
  have r5: "?R (s2, ?p2(0 := Claimed i, 1 := Claimed j)) (s3, ?p2(0 := Claimed i, 1 := Claimed j, 0 := Finished))"
    by (rule Run[OF _ a]) simp
  have r6: "?R (s3, ?p2(0 := Claimed i, 1 := Claimed j, 0 := Finished))
      (s4, ?p2(0 := Claimed i, 1 := Claimed j, 0 := Finished, 1 := Finished))"
    by (rule Run[OF _ b]) simp
  have "callback_log s2 = callback_log s" using i j by (auto simp: claim_insert_def insert_decision_eq)
  then have "callback_log s4 = callback_log s @ [(d, reason), (d, reason)]"
    using run_claim_log[of now cb d reason i s2] run_claim_log[of now cb d reason j s3] by (simp add: a b)
  moreover have "?R\<^sup>*\<^sup>* (s, ?p0) (s4, ?p2(0 := Claimed i, 1 := Claimed j, 0 := Finished, 1 := Finished))"
    using r1 r2 r3 r4 r5 r6 by (meson converse_rtranclp_into_rtranclp rtranclp.rtrancl_refl)
  ultimately show ?thesis by (intro exI conjI) (assumption, simp_all)
qed

lemma concurrent_fallbacks_both_run_witness:
  "\<exists>s' ph. (fallback_step 5 first_row (\<lambda>_ _ _. Inr JNull) ''d'' ''r'')\<^sup>*\<^sup>* (empty_dispatch, \<lambda>_. Waiting) (s', ph)
    \<and> ph 0 = Finished \<and> ph 1 = Finished
    \<and> callback_log s' = callback_log empty_dispatch @ [(''d'', ''r''), (''d'', ''r'')]"
  by (rule concurrent_fallbacks_both_run[OF first_row_ok]) (simp add: empty_dispatch_def legacy_rows_def)

section \<open>Whole dispatches\<close>

lemma fallback_log:
  assumes "claim_read pick d s = Free"
  shows "callback_log (fst (executeIdempotentFallback now pick cb d reason s)) = callback_log s @ [(d, reason)]"
  using fallback_free[OF assms, of now cb reason] by (simp add: Let_def split: sum.split)

lemma update_before_last:
  assumes "decision_id r = new_decision_id ds" "decision_id (f r) = decision_id r"
    "decision_id q = new_decision_id (ds @ [r])" "decisions s = ds @ [r, q]"
  shows "updateDispatchDecision (new_decision_id ds) f s
    = (s\<lparr> decisions := ds @ [f r, q] \<rparr>, Inr ())"
proof -
  have q: "decision_id q \<noteq> new_decision_id ds"
    using new_id_fresh[of "ds @ [r]"] assms(1,3) by auto
  have l: "lookup_by decision_id (new_decision_id ds) (ds @ [r, q]) = Some r"
    using new_id_fresh[of ds] assms(1) by (simp add: lookup_by_append lookup_by_None[THEN iffD2])
  have "map (\<lambda>x. if decision_id x = new_decision_id ds then f r else x) ds = ds"
    using new_id_fresh[of ds] by (intro map_idI) force
  then have "save_by decision_id (f r) (ds @ [r, q]) = ds @ [f r, q]"
    using assms(1,2) q by (simp add: save_by_present)
  then show ?thesis using l assms(4) by (simp add: updateDispatchDecision_def)
qed

text \<open>The first row of a control-cohort dispatch is a legacy row without a claim, which
  does not stop its own fallback.\<close>

definition control_row :: "nat \<Rightarrow> int \<Rightarrow> string \<Rightarrow> DispatchDecision" where
  "control_row i now d = decision_row i now d CONTROL LEGACY None"

lemma control_row_free:
  assumes "pick_ok pick" "legacy_rows d ds = []" "decisions s = ds @ [control_row i now d]"
  shows "claim_read pick d s = Free"
proof -
  have "legacy_rows d (decisions s) = [control_row i now d]"
    using assms(2,3) by (simp add: legacy_rows_append control_row_def) (simp add: legacy_rows_def)
  then show ?thesis
    using pick_singleton[OF assms(1)] by (simp add: claim_read_def claim_verdict_def control_row_def is_claim_def)
qed

lemma failed_rows_free:
  assumes "pick_ok pick" "\<And>r. r \<in> set (legacy_rows d (decisions s)) \<Longrightarrow> dispatchStatus r = FAILED"
  shows "claim_read pick d s = Free"
proof (cases "legacy_rows d (decisions s) = []")
  case False
  then obtain r where "pick (legacy_rows d (decisions s)) = Some r" "r \<in> set (legacy_rows d (decisions s))"
    using pick_in[OF assms(1)] by blast
  then show ?thesis using assms(2)[of r] by (simp add: claim_read_def claim_verdict_def)
qed (use assms(1) claim_read_none in blast)

lemma failing_control_first:
  assumes "pick_ok pick" "legacy_rows d (decisions s) = []"
    and "cb (length (callback_log s)) d ''Control group'' = Inl e"
  shows "control_branch now elapsed pick cb d i
      (s\<lparr> decisions := decisions s @ [control_row (new_decision_id (decisions s)) now d] \<rparr>)
    = (s\<lparr> decisions := decisions s @ [control_row (new_decision_id (decisions s)) now d,
          failed_row (new_decision_id (decisions s @ [control_row (new_decision_id (decisions s)) now d])) now d
            ''Control group'' (snd e)],
        callback_log := callback_log s @ [(d, ''Control group'')] \<rparr>, Inl e)"
proof -
  let ?s1 = "s\<lparr> decisions := decisions s @ [control_row (new_decision_id (decisions s)) now d] \<rparr>"
  have "claim_read pick d ?s1 = Free" by (rule control_row_free[OF assms(1,2)]) simp
  then show ?thesis using fallback_free[of pick d ?s1 now cb "''Control group''"] assms(3)
    by (simp add: control_branch_def Let_def)
qed

text \<open>A control-cohort dispatch whose callback raises an error that is not an HTTP error
  runs the callback a second time in the same request, and an HTTP error is passed
  on after the first call.\<close>

theorem failing_control_dispatch:
  assumes "pick_ok pick" "assignToCohort cs d = CONTROL" "legacy_rows d (decisions s) = []"
    and "cb (length (callback_log s)) d ''Control group'' = Inl (st, m)"
    and "executeSafeDispatch now elapsed pick cs cb d eligible s = (s', r)"
  shows "if (case st of Some c \<Rightarrow> 400 \<le> c | None \<Rightarrow> False)
    then r = Inl (st, m) \<and> callback_log s' = callback_log s @ [(d, ''Control group'')]
    else callback_log s' = callback_log s @ [(d, ''Control group''), (d, ''Dispatch error: '' @ m)]"
proof -
  let ?i = "new_decision_id (decisions s)"
  let ?r = "control_row ?i now d"
  let ?q = "failed_row (new_decision_id (decisions s @ [?r])) now d ''Control group'' m"
  let ?s2 = "s\<lparr> decisions := decisions s @ [?r, ?q], callback_log := callback_log s @ [(d, ''Control group'')] \<rparr>"
  define f :: "DispatchDecision \<Rightarrow> DispatchDecision" where "f = (\<lambda>r. r\<lparr> dispatchStatus := FAILED, fallbackReason := Some m, processingTimeMs := Some elapsed \<rparr>)"
  let ?s3 = "?s2\<lparr> decisions := decisions s @ [f ?r, ?q] \<rparr>"
  have run: "executeSafeDispatch now elapsed pick cs cb d eligible s = dispatch_catch now elapsed pick cb d ?i (st, m) ?s2"
    using failing_control_first[where cb = cb and now = now and elapsed = elapsed and i = ?i, OF assms(1,3,4)] assms(2)
    by (simp add: executeSafeDispatch_def insert_decision_eq flip: control_row_def)
  show ?thesis
  proof (cases "case st of Some c \<Rightarrow> 400 \<le> c | None \<Rightarrow> False")
    case True
    then have "(s', r) = (?s2, Inl (st, m))" using run assms(5) by (simp add: dispatch_catch_def)
    then show ?thesis using True by simp
  next
    case False
    have "updateDispatchDecision ?i f ?s2 = (?s3, Inr ())"
      using update_before_last[of ?r "decisions s" f ?q ?s2] by (simp add: f_def) (simp add: control_row_def)
    then have "(s', r) = executeIdempotentFallback now pick cb d (''Dispatch error: '' @ m) ?s3"
      using run assms(5) False by (simp add: dispatch_catch_def f_def)
    moreover have "claim_read pick d ?s3 = Free"
    proof (rule failed_rows_free[OF assms(1)])
      fix r assume "r \<in> set (legacy_rows d (decisions ?s3))"
      then have "r \<in> set (legacy_rows d (decisions s)) \<union> set (legacy_rows d [f ?r, ?q])"
        by (auto simp: legacy_rows_def)
      then have "r \<in> {f ?r, ?q}" unfolding assms(3) by (auto simp: legacy_rows_def split: if_splits)
      then show "dispatchStatus r = FAILED" by (auto simp: f_def failed_row_def)
    qed
    ultimately have "callback_log s' = callback_log ?s3 @ [(d, ''Dispatch error: '' @ m)]"
      using fallback_log by (metis fst_conv)
    then show ?thesis using False by simp
  qed
qed

lemma failing_control_dispatch_witness:
  "callback_log (fst (executeSafeDispatch 5 1 first_row [] (\<lambda>_ _ _. Inl (None, ''down'')) ''d'' [] empty_dispatch))
    = [(''d'', ''Control group''), (''d'', ''Dispatch error: down'')]"
proof -
  have c: "assignToCohort [] ''d'' = CONTROL" by code_simp
  show ?thesis
    using failing_control_dispatch[OF first_row_ok c, of empty_dispatch "\<lambda>_ _ _. Inl (None, ''down'')" None "''down''" 5 1 "[]"]
    by (cases "executeSafeDispatch 5 1 first_row [] (\<lambda>_ _ _. Inl (None, ''down'')) ''d'' [] empty_dispatch")
      (simp add: empty_dispatch_def legacy_rows_def)
qed

text \<open>A scoring-cohort dispatch without an eligible driver fails with the status 400,
  runs no callback, and leaves its decision \<^verbatim>\<open>PENDING\<close>.\<close>

theorem no_eligible_driver_stays_pending:
  assumes "assignToCohort cs d = SCORING"
    and "shouldFallback now cs (decisions (fst (insert_decision now d SCORING SCORING_BASED None s))) = None"
    and "executeSafeDispatch now elapsed pick cs cb d [] s = (s', r)"
  shows "r = Inl (Some 400, ''No eligible drivers found for scoring dispatch'')
    \<and> callback_log s' = callback_log s
    \<and> map dispatchStatus (decisions s') = map dispatchStatus (decisions s) @ [PENDING]"
  using assms by (simp add: executeSafeDispatch_def Let_def insert_decision_eq scoring_branch_def
      executeScoringDispatch_def dispatch_catch_def) auto

definition scored_rows :: dispatch_state where
  "scored_rows = \<lparr> decisions = map (\<lambda>i. (decision_row i 0 ''e'' SCORING SCORING_BASED None)\<lparr> dispatchStatus := ASSIGNED \<rparr>) [1, 2, 3],
     callback_log = [] \<rparr>"

lemma no_eligible_driver_stays_pending_witness:
  "map dispatchStatus (decisions (fst (executeSafeDispatch 5 1 first_row [rollout_row 100] (\<lambda>_ _ _. Inr JNull) ''d'' []
      scored_rows))) = [ASSIGNED, ASSIGNED, ASSIGNED, PENDING]"
proof -
  have a: "assignToCohort [rollout_row 100] ''d'' = SCORING" by code_simp
  have b: "shouldFallback 5 [rollout_row 100]
      (decisions (fst (insert_decision 5 ''d'' SCORING SCORING_BASED None scored_rows))) = None" by code_simp
  show ?thesis
    using no_eligible_driver_stays_pending[OF a b, of 1 first_row "\<lambda>_ _ _. Inr JNull"]
    by (cases "executeSafeDispatch 5 1 first_row [rollout_row 100] (\<lambda>_ _ _. Inr JNull) ''d'' [] scored_rows")
      (simp add: scored_rows_def)
qed

section \<open>Scoring never starts\<close>

text \<open>No scoring decision has been assigned.\<close>

definition unscored :: "DispatchDecision list \<Rightarrow> bool" where
  "unscored ds = list_all (\<lambda>r. \<not> (dispatchMethod r = SCORING_BASED \<and> dispatchStatus r = ASSIGNED)) ds"

lemma unscored_append: "unscored (xs @ ys) \<longleftrightarrow> unscored xs \<and> unscored ys"
  by (simp add: unscored_def)

lemma unscored_update:
  assumes "unscored (decisions s)" "updateDispatchDecision i f s = (s', x)"
    and "\<And>r. \<not> (dispatchMethod (f r) = SCORING_BASED \<and> dispatchStatus (f r) = ASSIGNED)"
  shows "unscored (decisions s')"
proof (cases "lookup_by decision_id i (decisions s)")
  case (Some r)
  then have "s' = s\<lparr> decisions := save_by decision_id (f r) (decisions s) \<rparr>"
    using assms(2) by (simp add: updateDispatchDecision_def)
  then show ?thesis using assms(1,3)
    by (auto simp: unscored_def save_by_def update_rows_def list_all_iff)
qed (use assms(1,2) in \<open>simp add: updateDispatchDecision_def\<close>)

lemma unscored_fallback:
  assumes "unscored (decisions s)" "executeIdempotentFallback now pick cb d reason s = (s', r)"
  shows "unscored (decisions s') \<and> (\<forall>a b. r \<noteq> Inr (Scored a b))"
proof (cases "claim_read pick d s = Free")
  case True
  have "unscored [done_row i now d reason]" "unscored [failed_row i now d reason m]" for i m
    by (simp_all add: unscored_def done_row_def failed_row_def claim_row_def)
  then show ?thesis
    using fallback_free[OF True, of now cb reason] assms
    by (auto simp: Let_def unscored_append split: sum.splits)
qed (use fallback_skips assms in fastforce)

lemma unscored_catch:
  assumes "unscored (decisions s)" "dispatch_catch now elapsed pick cb d i e s = (s', r)"
  shows "unscored (decisions s') \<and> (\<forall>a b. r \<noteq> Inr (Scored a b))"
proof (cases "case fst e of Some st \<Rightarrow> st \<ge> 400 | None \<Rightarrow> False")
  case False
  define f :: "DispatchDecision \<Rightarrow> DispatchDecision" where
    "f = (\<lambda>r. r\<lparr> dispatchStatus := FAILED, fallbackReason := Some (snd e), processingTimeMs := Some elapsed \<rparr>)"
  obtain s1 x where u: "updateDispatchDecision i f s = (s1, x)" by fastforce
  have s1: "unscored (decisions s1)" by (rule unscored_update[OF assms(1) u]) (simp add: f_def)
  show ?thesis
  proof (cases x)
    case (Inl e')
    then show ?thesis using u s1 assms(2) False by (auto simp: dispatch_catch_def simp flip: f_def)
  next
    case (Inr y)
    then have "executeIdempotentFallback now pick cb d (''Dispatch error: '' @ snd e) s1 = (s', r)"
      using u assms(2) False by (simp add: dispatch_catch_def flip: f_def)
    then show ?thesis by (rule unscored_fallback[OF s1])
  qed
qed (use assms in \<open>auto simp: dispatch_catch_def\<close>)

lemma unscored_control:
  assumes "unscored (decisions s)" "control_branch now elapsed pick cb d i s = (s', r)"
  shows "unscored (decisions s') \<and> (\<forall>a b. r \<noteq> Inr (Scored a b))"
proof -
  obtain s1 x where f: "executeIdempotentFallback now pick cb d ''Control group'' s = (s1, x)" by fastforce
  have s1: "unscored (decisions s1)" "\<And>a b. x \<noteq> Inr (Scored a b)" using unscored_fallback[OF assms(1) f] by auto
  define g :: "DispatchDecision \<Rightarrow> DispatchDecision" where
    "g = (\<lambda>r. r\<lparr> dispatchStatus := ASSIGNED, processingTimeMs := Some elapsed, dispatchMethod := LEGACY \<rparr>)"
  obtain s2 y where u: "updateDispatchDecision i g s1 = (s2, y)" by fastforce
  have s2: "unscored (decisions s2)" by (rule unscored_update[OF s1(1) u]) (simp add: g_def)
  show ?thesis
    using assms(2) s1 s2 f u by (auto simp: control_branch_def simp flip: g_def split: sum.splits)
qed

text \<open>The acceptance rate that is checked counts the decision the dispatch itself has just
  inserted.\<close>

lemma own_decision_forces_fallback:
  assumes "map_of (fallback_thresholds cs) ''minAcceptanceRate'' = Some (JNum y)" "0 < y"
    and "unscored ds" "dispatchMethod r = SCORING_BASED" "dispatchStatus r = PENDING" "createdAt r = now"
  shows "shouldFallback now cs (ds @ [r]) \<noteq> None"
proof -
  have "r \<in> set (filter (\<lambda>r. dispatchMethod r = SCORING_BASED) (recent now (ds @ [r])))"
    using assms(4,6) by (simp add: recent_def HOUR_MS_def)
  then have "length (filter (\<lambda>r. dispatchMethod r = SCORING_BASED) (recent now (ds @ [r]))) \<noteq> 0"
    by (metis empty_iff length_0_conv list.set(1))
  moreover have "filter (\<lambda>r. dispatchStatus r = ASSIGNED)
      (filter (\<lambda>r. dispatchMethod r = SCORING_BASED) (recent now (ds @ [r]))) = []"
    using assms(3,5) by (auto simp: filter_empty_conv recent_def unscored_def list_all_iff)
  ultimately have "getRecentAcceptanceRate now (ds @ [r]) = 0"
    by (simp add: getRecentAcceptanceRate_def Let_def rate_def count_rows_def)
  then have "falls_below (getRecentAcceptanceRate now (ds @ [r])) (map_of (fallback_thresholds cs) ''minAcceptanceRate'')"
    using assms(1,2) by (simp add: falls_below_def)
  then show ?thesis by (simp add: shouldFallback_def Let_def)
qed

lemma unscored_scoring:
  assumes "unscored (decisions s)" "shouldFallback now cs (decisions s) \<noteq> None"
    and "scoring_branch now elapsed pick cs cb d eligible i s = (s', r)"
  shows "unscored (decisions s') \<and> (\<forall>a b. r \<noteq> Inr (Scored a b))"
proof -
  obtain reason where reason: "shouldFallback now cs (decisions s) = Some reason" using assms(2) by blast
  define f :: "DispatchDecision \<Rightarrow> DispatchDecision" where
    "f = (\<lambda>r. r\<lparr> dispatchStatus := FAILED, fallbackReason := Some reason, processingTimeMs := Some elapsed \<rparr>)"
  obtain s1 x where u: "updateDispatchDecision i f s = (s1, x)" by fastforce
  have s1: "unscored (decisions s1)" by (rule unscored_update[OF assms(1) u]) (simp add: f_def)
  show ?thesis
    using assms(3) reason u s1 unscored_fallback[OF s1, of now pick cb d reason s' r]
    by (auto simp: scoring_branch_def simp flip: f_def split: sum.splits)
qed

lemma unscored_dispatch:
  assumes "map_of (fallback_thresholds cs) ''minAcceptanceRate'' = Some (JNum y)" "0 < y"
    and "unscored (decisions s)" "executeSafeDispatch now elapsed pick cs cb d eligible s = (s', r)"
  shows "unscored (decisions s') \<and> (\<forall>a b. r \<noteq> Inr (Scored a b))"
proof -
  let ?co = "assignToCohort cs d"
  let ?row = "decision_row (new_decision_id (decisions s)) now d ?co (if ?co = SCORING then SCORING_BASED else LEGACY) None"
  let ?s1 = "s\<lparr> decisions := decisions s @ [?row] \<rparr>"
  let ?i = "new_decision_id (decisions s)"
  have s1: "unscored (decisions ?s1)" using assms(3) by (simp add: unscored_append) (simp add: unscored_def)
  obtain s2 x where b: "(if ?co = SCORING then scoring_branch now elapsed pick cs cb d eligible ?i ?s1
      else control_branch now elapsed pick cb d ?i ?s1) = (s2, x)" by fastforce
  have s2: "unscored (decisions s2) \<and> (\<forall>a b. x \<noteq> Inr (Scored a b))"
  proof (cases "?co = SCORING")
    case True
    have "shouldFallback now cs (decisions ?s1) \<noteq> None"
      using own_decision_forces_fallback[OF assms(1,2,3), of ?row now] True by (simp add: decision_row_def)
    then show ?thesis using unscored_scoring[OF s1, of now cs elapsed pick cb d eligible ?i s2 x] b True by simp
  next
    case False
    then show ?thesis using unscored_control[OF s1, of now elapsed pick cb d ?i s2 x] b by simp
  qed
  show ?thesis
  proof (cases x)
    case (Inl e)
    then have "dispatch_catch now elapsed pick cb d ?i e s2 = (s', r)"
      using assms(4) b by (simp add: executeSafeDispatch_def Let_def insert_decision_eq split: if_splits)
    then show ?thesis using unscored_catch s2 by blast
  next
    case (Inr z)
    then have "(s', r) = (s2, Inr z)"
      using assms(4) b by (simp add: executeSafeDispatch_def Let_def insert_decision_eq split: if_splits)
    then show ?thesis using s2 Inr by simp
  qed
qed

text \<open>A sequence of dispatches: time, processing time, delivery and eligible drivers of each.\<close>

fun dispatch_all ::
  "picker \<Rightarrow> DispatchConfig list \<Rightarrow> callback \<Rightarrow> (int \<times> int \<times> string \<times> (string \<times> rat) list) list \<Rightarrow> dispatch_state
    \<Rightarrow> (dispatch_error + dispatch_result) list" where
  "dispatch_all pick cs cb [] s = []"
| "dispatch_all pick cs cb ((now, elapsed, d, eligible) # rest) s =
    (case executeSafeDispatch now elapsed pick cs cb d eligible s of
       (s', r) \<Rightarrow> r # dispatch_all pick cs cb rest s')"



section \<open>The drivers that are found\<close>

lemma found_by_id:
  "dr \<in> set (List.map_filter (\<lambda>i. lookup_by dr_id i (filter ready drs)) ids) \<Longrightarrow> dr \<in> set (filter ready drs)"
proof -
  assume "dr \<in> set (List.map_filter (\<lambda>i. lookup_by dr_id i (filter ready drs)) ids)"
  then obtain i where "lookup_by dr_id i (filter ready drs) = Some dr" by (auto simp: List.map_filter_def)
  then show ?thesis using lookup_by_SomeD by fastforce
qed

lemma found_near: "dr \<in> set (findAvailableFromDb distance lat lon radius n drs) \<Longrightarrow> dr \<in> set (filter ready drs)"
  by (auto simp: findAvailableFromDb_def dest: in_set_takeD)

lemma findAvailable_ready:
  assumes "dr \<in> set (findAvailable distance redis place radius drs)"
  shows "dr \<in> set drs \<and> ready dr"
proof -
  have "dr \<in> set (filter ready drs)"
  proof (cases place)
    case None
    then show ?thesis using assms by (auto simp: findAvailable_def Let_def dest!: in_set_takeD)
  next
    case (Some q)
    obtain lat lon where q: "q = (lat, lon)" by (cases q)
    let ?r = "case radius of Some x \<Rightarrow> if x = 0 then 5 else x | None \<Rightarrow> 5"
    show ?thesis
    proof (cases "redis lat lon ?r")
      case None
      then show ?thesis using assms by (auto simp: findAvailable_def Let_def Some q dest!: in_set_takeD)
    next
      case ids: (Some ids)
      show ?thesis
      proof (cases ids)
        case Nil
        then show ?thesis using assms found_near by (simp add: findAvailable_def Let_def Some q ids)
      next
        case (Cons i js)
        then have "dr \<in> set (List.map_filter (\<lambda>i. lookup_by dr_id i (filter ready drs)) ids)"
          using assms by (simp add: findAvailable_def Let_def Some q ids)
        then show ?thesis by (rule found_by_id)
      qed
    qed
  qed
  then show ?thesis by simp
qed

text \<open>The drivers offered to a scoring dispatch are among the available ones, at most as
  many as the limit, best score first, and each has a score of at least fifty or no
  statistics yet, although eligibility and scores are read from the table in two
  separate batches that may each calculate missing scores.\<close>

theorem eligible_drivers_meet_threshold:
  assumes "distinct (map dr_id available)"
    and "getEligibleDrivers now cs t available limit ss = (ss', result)"
  shows "length result \<le> limit \<and> sorted (map (\<lambda>x. - snd x) result)
    \<and> (\<forall>(d, x) \<in> set result. d \<in> dr_id ` set available \<and> (getStats d t = None \<or> 50 \<le> x))"
proof (cases "available = []")
  case False
  let ?ids = "map dr_id available"
  obtain ss1 el where e: "areDriversEligible now cs t ?ids ss = (ss1, el)" by fastforce
  obtain ss2 sc where g: "getCurrentScores now cs t ?ids ss1 = (ss2, sc)" by fastforce
  let ?c = "map (\<lambda>d. (d, case sc d of Some x \<Rightarrow> x | None \<Rightarrow> 0))
               (filter (\<lambda>d. case el d of Some b \<Rightarrow> b | None \<Rightarrow> False) ?ids)"
  have result: "result = take limit (sort_key (\<lambda>x. - snd x) ?c)"
    using assms(2) False e g by (simp add: getEligibleDrivers_def Let_def)
  have c: "d \<in> dr_id ` set available \<and> (getStats d t = None \<or> 50 \<le> x)" if "(d, x) \<in> set ?c" for d x
    using that areDriversEligible_reported[OF assms(1) e] getCurrentScores_reported[OF assms(1) g]
    by (auto split: option.splits if_splits)
  have sub: "set result \<subseteq> set ?c" unfolding result by (rule set_take_sort_key)
  have "sorted (map (\<lambda>x. - snd x) result)" unfolding result take_map[symmetric]
    by (intro sorted_wrt_take sorted_sort_key)
  moreover have "length result \<le> limit" unfolding result by simp
  moreover have "\<forall>(d, x) \<in> set result. d \<in> dr_id ` set available \<and> (getStats d t = None \<or> 50 \<le> x)"
    using sub c by fast
  ultimately show ?thesis by blast
qed (use assms(2) in \<open>simp add: getEligibleDrivers_def\<close>)

definition some_driver :: "string \<Rightarrow> driver" where
  "some_driver i = \<lparr> dr_id = i, dr_name = None, dr_phone = None, dr_email = None, dr_googleSub = None,
     dr_cityId = None, dr_zoneId = None, dr_vehicleType = None, dr_vehicleNumber = None, dr_isActive = True,
     dr_status = AVAILABLE, dr_currentLat = None, dr_currentLon = None, dr_lastActiveAt = None,
     dr_lastLocationUpdateAt = None, dr_lastStatusUpdateAt = None, dr_registrationStatus = APPROVED,
     dr_approvedAt = None, dr_approvedById = None, dr_rejectionReason = None \<rparr>"

lemma eligible_drivers_meet_threshold_witness:
  "(case getEligibleDrivers 0 [] [new_stats ''a''] [some_driver ''a'', some_driver ''b''] 20 [] of (_, result) \<Rightarrow>
     map fst result = [''a'', ''b''] \<and> (\<forall>(d, x) \<in> set result. getStats d [new_stats ''a''] = None \<or> 50 \<le> x))"
proof -
  obtain ss' result where e: "getEligibleDrivers 0 [] [new_stats ''a''] [some_driver ''a'', some_driver ''b''] 20 []
      = (ss', result)" by fastforce
  have "map fst (snd (getEligibleDrivers 0 [] [new_stats ''a''] [some_driver ''a'', some_driver ''b''] 20 []))
      = [''a'', ''b'']" by code_simp
  moreover have "distinct (map dr_id [some_driver ''a'', some_driver ''b''])" by (simp add: some_driver_def)
  ultimately show ?thesis using eligible_drivers_meet_threshold[OF _ e] by (auto simp: e)
qed

end
