(* ===== verification/Idempotency.thy ===== *)
theory Idempotency
  imports Prelude
begin

text \<open>
  The idempotency interceptor of POST requests
  (\<^verbatim>\<open>src/common/interceptors/idempotency.interceptor.ts\<close>): a record in Redis under
  the key the client sends, claimed with \<^verbatim>\<open>SET NX\<close>, completed with the response, or
  marked as failed. Every access to Redis is one step, and the steps of several
  requests interleave by a schedule. Values in Redis are kept parsed; one that is
  not JSON is \<^verbatim>\<open>Corrupt\<close>.
\<close>

section \<open>Records\<close>

record cached_response =
  statusCode :: nat
  resp_body :: json
  resp_headers :: "(string \<times> string) list"

datatype idempotency_record =
    PROCESSING "int option"
  | COMPLETED "cached_response option"
  | FAILED_RETRYABLE "int option"
  | Unknown_State

datatype redis_value = Record idempotency_record | Corrupt

type_synonym redis = "string \<Rightarrow> (redis_value \<times> int) option"

definition REPLAYABLE_HEADERS :: "string list" where
  "REPLAYABLE_HEADERS = [''content-type'', ''content-length'', ''etag'', ''location'', ''x-request-id'']"

definition DEFAULT_TTL_SECONDS :: int where "DEFAULT_TTL_SECONDS = 86400"

definition PROCESSING_TIMEOUT_SECONDS :: int where "PROCESSING_TIMEOUT_SECONDS = 300"

text \<open>The Redis commands, at the time \<^verbatim>\<open>now\<close> in milliseconds.\<close>

definition redis_get :: "int \<Rightarrow> string \<Rightarrow> redis \<Rightarrow> redis_value option" where
  "redis_get now k rd = (case rd k of Some (v, expiry) \<Rightarrow> (if now < expiry then Some v else None) | None \<Rightarrow> None)"

definition redis_set :: "int \<Rightarrow> string \<Rightarrow> redis_value \<Rightarrow> int \<Rightarrow> redis \<Rightarrow> redis" where
  "redis_set now k v ttl rd = rd(k \<mapsto> (v, now + ttl * 1000))"

definition redis_set_nx :: "int \<Rightarrow> string \<Rightarrow> redis_value \<Rightarrow> int \<Rightarrow> redis \<Rightarrow> redis \<times> bool" where
  "redis_set_nx now k v ttl rd =
    (if redis_get now k rd = None then (redis_set now k v ttl rd, True) else (rd, False))"

definition redis_set_xx :: "int \<Rightarrow> string \<Rightarrow> redis_value \<Rightarrow> int \<Rightarrow> redis \<Rightarrow> redis \<times> bool" where
  "redis_set_xx now k v ttl rd =
    (if redis_get now k rd \<noteq> None then (redis_set now k v ttl rd, True) else (rd, False))"

definition redis_del :: "string \<Rightarrow> redis \<Rightarrow> redis" where
  "redis_del k rd = rd(k := None)"

section \<open>Requests\<close>

record request =
  req_method :: string
  req_path :: string
  req_body :: json
  req_key :: "string option"

datatype request_error = Http int | Coded string | Other_Error

datatype outcome = Response cached_response | Raised request_error

datatype conflict =
    Corrupted_State
  | No_Cached_Response
  | Being_Processed int int
  | Retry_After int
  | Window_Expired
  | Unknown_Record

datatype reply =
    Passed outcome
  | Replayed cached_response
  | Conflict conflict
  | Type_Error

datatype phase =
    Fresh
  | Missed
  | Gone
  | Seen redis_value
  | Running bool
  | Replied reply

definition isRetryableError :: "request_error \<Rightarrow> bool" where
  "isRetryableError e = (case e of
      Http status \<Rightarrow> status \<ge> 500 \<or> status = 429
    | Coded code \<Rightarrow> code \<in> set [''ECONNRESET'', ''ETIMEDOUT'', ''ECONNREFUSED'', ''ENOTFOUND'']
    | Other_Error \<Rightarrow> False)"

definition redis_key :: "request \<Rightarrow> string" where
  "redis_key r = ''idempotency:rest:'' @ (case req_key r of Some k \<Rightarrow> k | None \<Rightarrow> [])"

definition guarded :: "request \<Rightarrow> bool" where
  "guarded r = (req_method r = ''POST'' \<and> truthy (req_key r))"

definition claim :: "int \<Rightarrow> request \<Rightarrow> redis \<Rightarrow> redis \<times> bool" where
  "claim now r = redis_set_nx now (redis_key r) (Record (PROCESSING None)) PROCESSING_TIMEOUT_SECONDS"

definition cacheable :: "cached_response \<Rightarrow> cached_response" where
  "cacheable x = x\<lparr> statusCode := (if statusCode x = 0 then 200 else statusCode x),
     resp_headers := List.map_filter (\<lambda>h. map_option (Pair h) (map_of (resp_headers x) h)) REPLAYABLE_HEADERS \<rparr>"

text \<open>What \<^verbatim>\<open>tap\<close> and \<^verbatim>\<open>catchError\<close> write when the handler is done.\<close>

definition finish :: "int \<Rightarrow> request \<Rightarrow> outcome \<Rightarrow> redis \<Rightarrow> redis" where
  "finish now r out rd = (case out of
      Response x \<Rightarrow> redis_set now (redis_key r) (Record (COMPLETED (Some (cacheable x)))) DEFAULT_TTL_SECONDS rd
    | Raised e \<Rightarrow>
        if isRetryableError e
        then redis_set now (redis_key r) (Record (FAILED_RETRYABLE (Some (now + 30000)))) DEFAULT_TTL_SECONDS rd
        else redis_del (redis_key r) rd)"

definition ceil_seconds :: "int \<Rightarrow> int" where
  "ceil_seconds ms = ceiling (of_int ms / 1000 :: rat)"

definition given :: "int option \<Rightarrow> bool" where
  "given t = (case t of None \<Rightarrow> False | Some x \<Rightarrow> x \<noteq> 0)"

definition on_processing :: "int \<Rightarrow> int option \<Rightarrow> reply" where
  "on_processing now retryAfter = (
    let secs = (if given retryAfter then ceil_seconds (the retryAfter - now) else 5)
    in Conflict (Being_Processed (max 1 secs) secs))"

definition on_failed :: "int \<Rightarrow> request \<Rightarrow> int option \<Rightarrow> redis \<Rightarrow> phase \<times> redis" where
  "on_failed now r retryAfter rd = (
    case redis_set_xx now (redis_key r) (Record (PROCESSING None)) PROCESSING_TIMEOUT_SECONDS rd of
      (rd', True) \<Rightarrow> (Running True, rd')
    | (rd', False) \<Rightarrow>
        if given retryAfter \<and> now < the retryAfter
        then (Replied (Conflict (Retry_After (ceil_seconds (the retryAfter - now)))), rd')
        else (Replied (Conflict Window_Expired), redis_del (redis_key r) rd'))"

text \<open>The state check. A value that was gone and whose key could not be claimed either
  is \<^verbatim>\<open>JSON.parse(null)\<close>, whose \<^verbatim>\<open>state\<close> cannot be read.\<close>

definition on_seen :: "int \<Rightarrow> request \<Rightarrow> redis_value \<Rightarrow> redis \<Rightarrow> phase \<times> redis" where
  "on_seen now r v rd = (case v of
      Corrupt \<Rightarrow> (Replied (Conflict Corrupted_State), redis_del (redis_key r) rd)
    | Record (COMPLETED (Some x)) \<Rightarrow> (Replied (Replayed x), rd)
    | Record (COMPLETED None) \<Rightarrow> (Replied (Conflict No_Cached_Response), redis_del (redis_key r) rd)
    | Record (PROCESSING t) \<Rightarrow> (Replied (on_processing now t), rd)
    | Record (FAILED_RETRYABLE t) \<Rightarrow> on_failed now r t rd
    | Record Unknown_State \<Rightarrow> (Replied (Conflict Unknown_Record), redis_del (redis_key r) rd))"

text \<open>One step of a request; \<^verbatim>\<open>out\<close> is what the handler does if this step is its end.\<close>

definition intercept_step :: "int \<Rightarrow> request \<Rightarrow> outcome \<Rightarrow> phase \<Rightarrow> redis \<Rightarrow> phase \<times> redis" where
  "intercept_step now r out ph rd = (case ph of
      Fresh \<Rightarrow>
        if \<not> guarded r then (Running False, rd)
        else (case claim now r rd of (rd', won) \<Rightarrow> (if won then Running True else Missed, rd'))
    | Missed \<Rightarrow> (case redis_get now (redis_key r) rd of None \<Rightarrow> (Gone, rd) | Some v \<Rightarrow> (Seen v, rd))
    | Gone \<Rightarrow> (case claim now r rd of (rd', won) \<Rightarrow> (if won then Running True else Replied Type_Error, rd'))
    | Seen v \<Rightarrow> on_seen now r v rd
    | Running claimed \<Rightarrow> (Replied (Passed out), if claimed then finish now r out rd else rd)
    | Replied _ \<Rightarrow> (ph, rd))"

section \<open>Schedules\<close>

text \<open>The phases of the requests, the store, and the log of the handlers that ended:
  request and outcome. A schedule says which request moves at what time.\<close>

record world =
  w_phase :: "nat \<Rightarrow> phase"
  w_redis :: redis
  w_runs :: "(nat \<times> outcome) list"

type_synonym schedule = "(nat \<times> int \<times> outcome) list"

definition world_step :: "(nat \<Rightarrow> request) \<Rightarrow> nat \<times> int \<times> outcome \<Rightarrow> world \<Rightarrow> world" where
  "world_step reqs e w = (case e of (i, now, out) \<Rightarrow>
    case intercept_step now (reqs i) out (w_phase w i) (w_redis w) of
      (ph, rd) \<Rightarrow> w\<lparr> w_phase := (w_phase w)(i := ph), w_redis := rd,
        w_runs := w_runs w @ (case w_phase w i of Running _ \<Rightarrow> [(i, out)] | _ \<Rightarrow> []) \<rparr>)"

definition run_schedule :: "(nat \<Rightarrow> request) \<Rightarrow> schedule \<Rightarrow> world \<Rightarrow> world" where
  "run_schedule reqs = for_each (world_step reqs)"

definition start :: "redis \<Rightarrow> world" where
  "start rd = \<lparr> w_phase = (\<lambda>_. Fresh), w_redis = rd, w_runs = [] \<rparr>"

section \<open>At most one run within the processing time\<close>

text \<open>How far the requests of one key are: nothing claimed yet, \<^verbatim>\<open>p\<close> at work, or \<^verbatim>\<open>p\<close> done
  with its response.\<close>

datatype stage = Idle | Busy nat | Served nat cached_response

fun stored :: "stage \<Rightarrow> int \<Rightarrow> (redis_value \<times> int) option \<Rightarrow> bool" where
  "stored Idle limit v = (v = None)"
| "stored (Busy p) limit v = (\<exists>e. v = Some (Record (PROCESSING None), e) \<and> limit \<le> e)"
| "stored (Served p x) limit v = (\<exists>e. v = Some (Record (COMPLETED (Some (cacheable x))), e) \<and> limit \<le> e)"

text \<open>The phases of the requests that did not win the claim.\<close>

fun loser :: "stage \<Rightarrow> phase \<Rightarrow> bool" where
  "loser st Fresh = True"
| "loser st Missed = (st \<noteq> Idle)"
| "loser st (Seen v) = (st \<noteq> Idle \<and> (v = Record (PROCESSING None)
     \<or> (\<exists>p x. st = Served p x \<and> v = Record (COMPLETED (Some (cacheable x))))))"
| "loser st (Replied (Replayed y)) = (\<exists>p x. st = Served p x \<and> y = cacheable x)"
| "loser st (Replied (Conflict _)) = (st \<noteq> Idle)"
| "loser st _ = False"

fun winner :: "stage \<Rightarrow> nat option" where
  "winner Idle = None"
| "winner (Busy p) = Some p"
| "winner (Served p x) = Some p"

fun winner_phase :: "stage \<Rightarrow> phase" where
  "winner_phase (Served p x) = Replied (Passed (Response x))"
| "winner_phase _ = Running True"

fun runs_of :: "stage \<Rightarrow> (nat \<times> outcome) list" where
  "runs_of (Served p x) = [(p, Response x)]"
| "runs_of _ = []"

definition at_stage :: "string \<Rightarrow> int \<Rightarrow> stage \<Rightarrow> world \<Rightarrow> bool" where
  "at_stage k limit st w = (stored st limit (w_redis w k) \<and> w_runs w = runs_of st
    \<and> (\<forall>i. if winner st = Some i then w_phase w i = winner_phase st else loser st (w_phase w i)))"

text \<open>A losing request moves within its stage, or claims the key while it is idle.\<close>

lemma live_value:
  assumes "stored st limit (rd k)" "now < limit"
  shows "redis_get now k rd = (case st of Idle \<Rightarrow> None | Busy p \<Rightarrow> Some (Record (PROCESSING None))
    | Served p x \<Rightarrow> Some (Record (COMPLETED (Some (cacheable x)))))"
  using assms by (cases st) (auto simp: redis_get_def)

lemma loser_step:
  assumes l: "loser st ph" and s: "stored st limit (rd (redis_key r))" and g: "guarded r"
    and t: "now < limit" "limit \<le> now + 300000"
    and e: "intercept_step now r out ph rd = (ph', rd')"
  shows "(st = Idle \<and> ph' = Running True \<and> stored (Busy p) limit (rd' (redis_key r)))
    \<or> (st \<noteq> Idle \<and> loser st ph' \<and> rd' = rd) \<or> (ph' = ph \<and> rd' = rd)"
proof -
  note live = live_value[where rd = rd and k = "redis_key r", OF s t(1)]
  show ?thesis
proof (cases ph)
  case Fresh
  show ?thesis
    using e g t live unfolding Fresh
    by (cases st) (auto simp: intercept_step_def claim_def redis_set_nx_def redis_set_def PROCESSING_TIMEOUT_SECONDS_def)
next
  case Missed
  then show ?thesis using e l live by (cases st) (auto simp: intercept_step_def)
next
  case (Seen v)
  then show ?thesis using e l by (cases st) (auto simp: intercept_step_def on_seen_def on_processing_def Let_def)
qed (use e l in \<open>auto simp: intercept_step_def\<close>)
qed

lemma loser_stable:
  assumes "loser Idle ph" shows "loser st ph"
  using assms by (cases "(st, ph)" rule: loser.cases) auto

lemma loser_served: "loser (Busy p) ph \<Longrightarrow> loser (Served p x) ph"
  by (cases "(Busy p, ph)" rule: loser.cases) auto

lemma stage_step:
  assumes w: "at_stage k limit st w" and r: "\<And>i. guarded (reqs i) \<and> redis_key (reqs i) = k"
    and t: "now < limit" "limit \<le> now + 300000" and out: "out = Response x"
  shows "\<exists>st'. at_stage k limit st' (world_step reqs (i, now, out) w)"
proof -
  obtain ph' rd' where e: "intercept_step now (reqs i) out (w_phase w i) (w_redis w) = (ph', rd')" by fastforce
  have k: "redis_key (reqs i) = k" using r by simp
  let ?w = "world_step reqs (i, now, out) w"
  have w': "w_phase ?w = (w_phase w)(i := ph')" "w_redis ?w = rd'"
    "w_runs ?w = w_runs w @ (case w_phase w i of Running _ \<Rightarrow> [(i, out)] | _ \<Rightarrow> [])"
    by (simp_all add: world_step_def e)
  have s: "stored st limit (w_redis w (redis_key (reqs i)))" and runs: "w_runs w = runs_of st"
    and ph: "\<And>j. if winner st = Some j then w_phase w j = winner_phase st else loser st (w_phase w j)"
    using w k by (simp_all add: at_stage_def)
  show ?thesis
  proof (cases "winner st = Some i")
    case True
    show ?thesis
    proof (cases st)
      case (Busy p)
      then have p: "p = i" "w_phase w i = Running True" using True ph[of i] by simp_all
      have f: "ph' = Replied (Passed out)" "rd' = finish now (reqs i) out (w_redis w)"
        using e p by (simp_all add: intercept_step_def)
      have "at_stage k limit (Served i x) ?w"
        unfolding at_stage_def w' runs p f
        using t k ph loser_served Busy p
        by (auto simp: finish_def out redis_set_def DEFAULT_TTL_SECONDS_def)
      then show ?thesis ..
    next
      case (Served p y)
      then have "w_phase w i = Replied (Passed (Response y))" using True ph[of i] by simp
      then have "(ph', rd') = (w_phase w i, w_redis w)" "w_runs ?w = w_runs w"
        using e by (simp add: intercept_step_def, simp add: w'(3))
      then have "ph' = w_phase w i" "rd' = w_redis w" "w_runs ?w = w_runs w" by simp_all
      then have "at_stage k limit st ?w" using w w' by (simp add: at_stage_def)
      then show ?thesis ..
    qed (use True in simp)
  next
    case False
    then have l: "loser st (w_phase w i)" using ph[of i] by simp
    then have runs': "w_runs ?w = w_runs w" unfolding w' by (cases "w_phase w i") simp_all
    from loser_step[OF l s _ t e, of i] r[of i]
    consider (claim) "st = Idle" "ph' = Running True" "stored (Busy i) limit (rd' k)"
      | (wait) "loser st ph'" "rd' = w_redis w"
      | (stay) "ph' = w_phase w i" "rd' = w_redis w" using k by metis
    then show ?thesis
    proof cases
      case claim
      then have "at_stage k limit (Busy i) ?w"
        using runs runs' ph loser_stable w' by (auto simp: at_stage_def)
      then show ?thesis ..
    next
      case wait
      then have "at_stage k limit st ?w" using w w' runs' False by (auto simp: at_stage_def)
      then show ?thesis ..
    next
      case stay
      then have "at_stage k limit st ?w" using w w' runs' by (simp add: at_stage_def)
      then show ?thesis ..
    qed
  qed
qed

lemma stage_schedule:
  assumes "at_stage k limit st w" "\<And>i. guarded (reqs i) \<and> redis_key (reqs i) = k"
    and "\<And>i now out. (i, now, out) \<in> set sched \<Longrightarrow> now < limit \<and> limit \<le> now + 300000 \<and> (\<exists>x. out = Response x)"
  shows "\<exists>st'. at_stage k limit st' (run_schedule reqs sched w)"
  unfolding run_schedule_def
proof (rule for_each_invariant)
  fix e w assume e: "e \<in> set sched" and "\<exists>st. at_stage k limit st w"
  then obtain st where w: "at_stage k limit st w" by blast
  obtain i now out where q: "e = (i, now, out)" by (cases e)
  obtain x where "now < limit" "limit \<le> now + 300000" "out = Response x" using assms(3)[of i now out] e q by blast
  then show "\<exists>st. at_stage k limit st (world_step reqs e w)" unfolding q by (rule stage_step[OF w assms(2)])
next
  show "\<exists>st. at_stage k limit st w" using assms(1) ..
qed

text \<open>Times within the processing timeout of \<^verbatim>\<open>since\<close>, and handlers that respond.\<close>

definition prompt_step :: "int \<Rightarrow> nat \<times> int \<times> outcome \<Rightarrow> bool" where
  "prompt_step since e = (case e of (i, now, out) \<Rightarrow>
    since \<le> now \<and> now < since + 300000 \<and> (case out of Response _ \<Rightarrow> True | Raised _ \<Rightarrow> False))"

text \<open>C17: However any number of requests with one key interleave, while no handler fails and
  five minutes have not passed, the handler runs at most once, every replayed
  response is the cached part of the one that run gave, and no request ends with
  the type error.\<close>

theorem one_run_for_one_key:
  assumes "\<And>i. guarded (reqs i) \<and> redis_key (reqs i) = k" "rd k = None" "list_all (prompt_step since) sched"
  shows "length (w_runs (run_schedule reqs sched (start rd))) \<le> 1
    \<and> (\<forall>i x. w_phase (run_schedule reqs sched (start rd)) i = Replied (Replayed x) \<longrightarrow>
        (\<exists>p y. w_runs (run_schedule reqs sched (start rd)) = [(p, Response y)] \<and> x = cacheable y))
    \<and> (\<forall>i. w_phase (run_schedule reqs sched (start rd)) i \<noteq> Replied Type_Error)"
proof -
  have idle: "at_stage k (since + 300000) Idle (start rd)" using assms(2) by (simp add: at_stage_def start_def)
  have times: "now < since + 300000 \<and> since + 300000 \<le> now + 300000 \<and> (\<exists>x. out = Response x)"
    if "(i, now, out) \<in> set sched" for i now out
  proof -
    have "prompt_step since (i, now, out)" using assms(3) that by (simp add: list_all_iff)
    then show ?thesis by (cases out) (simp_all add: prompt_step_def)
  qed
  have "\<exists>st. at_stage k (since + 300000) st (run_schedule reqs sched (start rd))"
    by (rule stage_schedule[OF idle assms(1) times])
  then obtain st where st: "at_stage k (since + 300000) st (run_schedule reqs sched (start rd))" ..
  let ?w = "run_schedule reqs sched (start rd)"
  have ph: "if winner st = Some j then w_phase ?w j = winner_phase st else loser st (w_phase ?w j)" for j
    using st by (simp add: at_stage_def)
  have runs: "w_runs ?w = runs_of st" using st by (simp add: at_stage_def)
  have "length (runs_of st) \<le> 1" by (cases st) simp_all
  moreover have "\<exists>p y. runs_of st = [(p, Response y)] \<and> x = cacheable y" if "w_phase ?w i = Replied (Replayed x)" for i x
    using ph[of i] that by (cases st) (auto split: if_splits)
  moreover have "w_phase ?w i \<noteq> Replied Type_Error" for i
    using ph[of i] by (cases st) (auto split: if_splits)
  ultimately show ?thesis unfolding runs by blast
qed

definition post :: "string \<Rightarrow> string \<Rightarrow> request" where
  "post path key = \<lparr> req_method = ''POST'', req_path = path, req_body = JNull, req_key = Some key \<rparr>"

definition ok_response :: "json \<Rightarrow> cached_response" where
  "ok_response j = \<lparr> statusCode = 201, resp_body = j, resp_headers = [(''etag'', ''1''), (''set-cookie'', ''s'')] \<rparr>"

lemma one_run_for_one_key_witness:
  "length (w_runs (run_schedule (\<lambda>_. post ''/a'' ''k'')
      [(0, 5, Response (ok_response JNull)), (1, 5, Response (ok_response JNull)), (1, 6, Response (ok_response JNull)),
       (0, 7, Response (ok_response JNull)), (1, 8, Response (ok_response JNull))] (start (\<lambda>_. None)))) \<le> 1"
  by (rule one_run_for_one_key[where k = "redis_key (post ''/a'' ''k'')" and since = 5, THEN conjunct1])
    (simp_all add: guarded_def post_def prompt_step_def)

section \<open>Replays, retries and expiry\<close>

lemma redis_simps [simp]:
  "redis_get now k (redis_set t k v ttl rd) = (if now < t + ttl * 1000 then Some v else None)"
  "redis_get now k (redis_del k rd) = None"
  by (simp_all add: redis_get_def redis_set_def redis_del_def)

text \<open>C18: The response of a request comes back, with its body, its status and the headers that
  are kept, for a second request with the same key within a day, whatever the
  path and the body of that request are.\<close>

theorem replay_roundtrip:
  assumes "guarded (reqs 0)" "guarded (reqs 1)" "redis_key (reqs 1) = redis_key (reqs 0)"
    and "redis_get t (redis_key (reqs 0)) rd = None" "t \<le> t'" "t' < t + 86400000"
  shows "w_phase (run_schedule reqs [(0, t, out), (0, t, Response x), (1, t', out), (1, t', out), (1, t', out)] (start rd)) 1
    = Replied (Replayed (cacheable x))"
  using assms by (simp add: run_schedule_def world_step_def intercept_step_def start_def claim_def redis_set_nx_def
      finish_def on_seen_def DEFAULT_TTL_SECONDS_def)

lemma cacheable_body: "resp_body (cacheable x) = resp_body x" "statusCode x \<noteq> 0 \<Longrightarrow> statusCode (cacheable x) = statusCode x"
  by (simp_all add: cacheable_def)

lemma replay_roundtrip_witness:
  "w_phase (run_schedule (\<lambda>i. post (if i = 0 then ''/deliveries'' else ''/offers'') ''k'')
      [(0, 5, Raised Other_Error), (0, 5, Response (ok_response (JNum 1))), (1, 9, Raised Other_Error),
       (1, 9, Raised Other_Error), (1, 9, Raised Other_Error)] (start (\<lambda>_. None))) 1
    = Replied (Replayed (cacheable (ok_response (JNum 1))))"
  by (rule replay_roundtrip) (simp_all add: guarded_def post_def redis_key_def redis_get_def)

text \<open>Reclaiming a failed attempt does not exclude anyone: \<^verbatim>\<open>SET XX\<close> succeeds for every
  request that has read the failed record, so two of them run the handler, and both
  before the time until which a retry was to wait.\<close>

theorem failed_attempt_is_reclaimed_twice:
  assumes "guarded (reqs 0)" "guarded (reqs 1)" "redis_key (reqs 1) = redis_key (reqs 0)"
    and "redis_get now (redis_key (reqs 0)) rd = Some (Record (FAILED_RETRYABLE (Some later)))" "now < later"
  shows "w_runs (run_schedule reqs ([(0, now, a), (1, now, a), (0, now, a), (1, now, a), (0, now, a), (1, now, a)]
      @ [(0, now, a), (1, now, b)]) (start rd)) = [(0, a), (1, b)]"
  using assms by (simp add: run_schedule_def world_step_def intercept_step_def start_def claim_def redis_set_nx_def
      on_seen_def on_failed_def redis_set_xx_def PROCESSING_TIMEOUT_SECONDS_def)

lemma failed_attempt_is_reclaimed_twice_witness:
  "w_runs (run_schedule (\<lambda>_. post ''/a'' ''k'')
      ([(0, 5, Raised Other_Error), (1, 5, Raised Other_Error), (0, 5, Raised Other_Error), (1, 5, Raised Other_Error),
        (0, 5, Raised Other_Error), (1, 5, Raised Other_Error)]
      @ [(0, 5, Raised Other_Error), (1, 5, Response (ok_response JNull))])
      (start ((\<lambda>_. None)(''idempotency:rest:k'' := Some (Record (FAILED_RETRYABLE (Some 30000)), 86400000)))))
    = [(0, Raised Other_Error), (1, Response (ok_response JNull))]"
  by (rule failed_attempt_is_reclaimed_twice[where later = 30000]) (simp_all add: guarded_def post_def redis_key_def redis_get_def)

text \<open>When the record expires between the failed claim and the read, and another request
  claims the key before the second claim, the request ends with a type error, the
  parse of \<^verbatim>\<open>null\<close>, instead of a conflict.\<close>

theorem expiry_race_is_a_type_error:
  assumes "guarded (reqs 0)" "guarded (reqs 1)" "redis_key (reqs 1) = redis_key (reqs 0)"
    and "rd (redis_key (reqs 0)) = Some (v, expiry)" "t < expiry" "expiry \<le> t'" "t' < u" "u < t' + 300000"
  shows "w_phase (run_schedule reqs [(0, t, out), (0, t', out), (1, t', out), (0, u, out)] (start rd)) 0 = Replied Type_Error"
  using assms by (simp add: run_schedule_def world_step_def intercept_step_def start_def claim_def redis_set_nx_def
      redis_get_def redis_set_def PROCESSING_TIMEOUT_SECONDS_def)

lemma expiry_race_is_a_type_error_witness:
  "w_phase (run_schedule (\<lambda>_. post ''/a'' ''k'')
      [(0, 5, Raised Other_Error), (0, 10, Raised Other_Error), (1, 10, Raised Other_Error), (0, 11, Raised Other_Error)]
      (start ((\<lambda>_. None)(''idempotency:rest:k'' := Some (Record (PROCESSING None), 8))))) 0 = Replied Type_Error"
  by (rule expiry_race_is_a_type_error[where expiry = 8 and v = "Record (PROCESSING None)"])
    (simp_all add: guarded_def post_def redis_key_def)

end
