(* ===== verification/Backfill.thy ===== *)
theory Backfill
  imports Prelude
begin

text \<open>
  The background back-fill worker (\<^verbatim>\<open>src/schema/workers/backfill.worker.ts\<close>) and its
  job rows (\<^verbatim>\<open>src/schema/entities/backfill-job.entity.ts\<close>): the poll with its claim,
  the batch loop with its time-out, retries and progress, the administration of
  jobs, and the partitioned variant. The table a job works on is a list of
  (id, row); what the statement of the job assigns is a function on rows. The
  batch sizes, the clock, the failing transactions and the writes of other sessions
  to the job table are parameters. An id of the program is \<^const>\<open>None\<close> where it is
  \<^verbatim>\<open>undefined\<close>.
\<close>

section \<open>Jobs\<close>

datatype BackfillJobStatus = PENDING | PROCESSING | COMPLETED | FAILED | DEFERRED

record BackfillJob =
  bj_id :: string
  tableName :: string
  sqlStatement :: string
  totalRows :: nat
  processedRows :: nat
  lastProcessedId :: "int option"
  bj_status :: BackfillJobStatus
  retryCount :: nat
  maxRetries :: nat
  errorMessage :: "string option"
  startedAt :: "int option"
  completedAt :: "int option"
  lastProcessedAt :: "int option"
  bj_createdAt :: int

definition progressPercentage :: "BackfillJob \<Rightarrow> int" where
  "progressPercentage j = (if totalRows j = 0 then 0 else js_round (of_nat (processedRows j) / of_nat (totalRows j) * 100))"

definition isComplete :: "BackfillJob \<Rightarrow> bool" where
  "isComplete j = (bj_status j = COMPLETED \<or> bj_status j = FAILED)"

definition canRetry :: "BackfillJob \<Rightarrow> bool" where
  "canRetry j = (bj_status j = FAILED \<and> retryCount j < maxRetries j)"

definition updateProgress :: "int \<Rightarrow> nat \<Rightarrow> int option \<Rightarrow> BackfillJob \<Rightarrow> BackfillJob" where
  "updateProgress now processed la j = j\<lparr> processedRows := processed, lastProcessedId := la, lastProcessedAt := Some now \<rparr>"

definition markAsStarted :: "int \<Rightarrow> BackfillJob \<Rightarrow> BackfillJob" where
  "markAsStarted now j = j\<lparr> bj_status := PROCESSING, startedAt := Some now, retryCount := 0, errorMessage := None \<rparr>"

definition markAsCompleted :: "int \<Rightarrow> BackfillJob \<Rightarrow> BackfillJob" where
  "markAsCompleted now j = j\<lparr> bj_status := COMPLETED, completedAt := Some now \<rparr>"

definition markAsFailed :: "string \<Rightarrow> BackfillJob \<Rightarrow> BackfillJob" where
  "markAsFailed msg j = j\<lparr> bj_status := FAILED, errorMessage := Some msg, retryCount := retryCount j + 1 \<rparr>"

definition markAsDeferred :: "string \<Rightarrow> BackfillJob \<Rightarrow> BackfillJob" where
  "markAsDeferred reason j = j\<lparr> bj_status := DEFERRED, errorMessage := Some reason \<rparr>"

text \<open>Saving leaves a column alone whose property is \<^verbatim>\<open>undefined\<close>; a new row has the
  column's default.\<close>

definition stored_job :: "BackfillJob \<Rightarrow> BackfillJob list \<Rightarrow> BackfillJob" where
  "stored_job j jobs = (case lastProcessedId j of
      Some _ \<Rightarrow> j
    | None \<Rightarrow> j\<lparr> lastProcessedId := (case lookup_by bj_id (bj_id j) jobs of Some r \<Rightarrow> lastProcessedId r | None \<Rightarrow> Some 0) \<rparr>)"

definition save_job :: "BackfillJob \<Rightarrow> BackfillJob list \<Rightarrow> BackfillJob list" where
  "save_job j jobs = save_by bj_id (stored_job j jobs) jobs"

section \<open>The worker\<close>

definition MAX_CONCURRENT_JOBS :: nat where "MAX_CONCURRENT_JOBS = 3"

definition MAX_RETRY_DELAY_MS :: nat where "MAX_RETRY_DELAY_MS = 300000"

definition MIN_RETRY_DELAY_MS :: nat where "MIN_RETRY_DELAY_MS = 1000"

definition JOB_TIMEOUT_MS :: int where "JOB_TIMEOUT_MS = 3600000"

type_synonym 'r rows = "(int \<times> 'r) list"

record 'r bf_state =
  bf_jobs :: "BackfillJob list"
  bf_table :: "'r rows"

text \<open>What happens around the iterations of a job, by number: the time, the batch size, the
  error of the transaction, and what other sessions write to the job table before.\<close>

record 'r batch_env =
  be_now :: "nat \<Rightarrow> int"
  be_size :: "nat \<Rightarrow> nat"
  be_error :: "nat \<Rightarrow> string option"
  be_others :: "nat \<Rightarrow> BackfillJob list \<Rightarrow> BackfillJob list"
  be_assign :: "'r \<Rightarrow> 'r"

text \<open>What a query gives back: a SELECT its rows, here their ids; an UPDATE, with or without
  RETURNING, an array of two elements, the rows and their number. Only a row has a
  property \<^verbatim>\<open>id\<close>.\<close>

datatype query_item = Row int | Row_Array "int list" | Affected nat

fun item_id :: "query_item \<Rightarrow> int option" where
  "item_id (Row i) = Some i"
| "item_id (Row_Array is) = None"
| "item_id (Affected n) = None"

definition update_result :: "int list \<Rightarrow> query_item list" where
  "update_result ids = [Row_Array ids, Affected (length ids)]"

text \<open>The driver sends \<^verbatim>\<open>undefined\<close> as NULL, and no id is greater than NULL.\<close>

definition batch_ids :: "int option \<Rightarrow> nat \<Rightarrow> 'r rows \<Rightarrow> int list" where
  "batch_ids la n t = (case la of
      None \<Rightarrow> []
    | Some l \<Rightarrow> take n (sort (filter (\<lambda>i. l < i) (map fst t))))"

definition assign_rows :: "('r \<Rightarrow> 'r) \<Rightarrow> int list \<Rightarrow> 'r rows \<Rightarrow> 'r rows" where
  "assign_rows f ids t = map (\<lambda>(i, r). (i, if i \<in> set ids then f r else r)) t"

text \<open>The batch in one transaction: the new table, and the number of rows and the last id
  as the code reads them off the result.\<close>

definition executeBatchWithAtomicCheckpoint ::
  "'r batch_env \<Rightarrow> int option \<Rightarrow> nat \<Rightarrow> 'r rows \<Rightarrow> 'r rows \<times> nat \<times> int option" where
  "executeBatchWithAtomicCheckpoint E la n t = (
    let ids = batch_ids la n t; result = update_result ids; processedRows = length result
    in (assign_rows (be_assign E) ids t, processedRows, if processedRows > 0 then item_id (last result) else la))"

text \<open>The legacy variant selects first, and takes the greatest selected id itself.\<close>

definition executeBatch :: "'r batch_env \<Rightarrow> int option \<Rightarrow> nat \<Rightarrow> 'r rows \<Rightarrow> 'r rows \<times> nat \<times> int option" where
  "executeBatch E la n t = (
    let batchIdsResult = map Row (batch_ids la n t)
    in if length batchIdsResult = 0 then (t, 0, la)
       else
         let batchIds = map (the \<circ> item_id) batchIdsResult; updateResult = update_result batchIds
         in (assign_rows (be_assign E) batchIds t, length updateResult, Some (last (sort batchIds))))"

definition timed_out :: "int \<Rightarrow> BackfillJob \<Rightarrow> bool" where
  "timed_out now j = (case startedAt j of None \<Rightarrow> False | Some t \<Rightarrow> now - t > JOB_TIMEOUT_MS)"

definition retry_delay :: "nat \<Rightarrow> nat" where
  "retry_delay n = ((\<lambda>d. min (d * 2) MAX_RETRY_DELAY_MS) ^^ n) MIN_RETRY_DELAY_MS"

definition checkpoint :: "nat \<Rightarrow> int \<Rightarrow> nat \<Rightarrow> int option \<Rightarrow> BackfillJob \<Rightarrow> BackfillJob" where
  "checkpoint bc now processed la j = (if bc mod 5 = 0 then updateProgress now processed la j else j)"

lemma checkpoint_fields [simp]:
  "totalRows (checkpoint bc now p la j) = totalRows j" "maxRetries (checkpoint bc now p la j) = maxRetries j"
  "bj_id (checkpoint bc now p la j) = bj_id j" "startedAt (checkpoint bc now p la j) = startedAt j"
  "bj_status (checkpoint bc now p la j) = bj_status j"
  by (simp_all add: checkpoint_def updateProgress_def)

text \<open>The loop over the batches. \<^verbatim>\<open>k\<close> numbers the iterations and \<^verbatim>\<open>bc\<close> is \<^verbatim>\<open>batchCount\<close>. It
  ends because a batch either processes a row, or ends the loop, or uses up a
  retry.\<close>

function batch_loop ::
  "'r batch_env \<Rightarrow> nat \<Rightarrow> BackfillJob \<Rightarrow> int option \<Rightarrow> nat \<Rightarrow> nat \<Rightarrow> nat \<Rightarrow> 'r bf_state
    \<Rightarrow> 'r bf_state \<times> (string + BackfillJob \<times> int option \<times> nat \<times> nat)" where
  "batch_loop E k j la processed retries bc s0 = (
    let s = s0\<lparr> bf_jobs := be_others E k (bf_jobs s0) \<rparr>
    in if \<not> processed < totalRows j then (s, Inr (j, la, processed, k))
       else if timed_out (be_now E k) j
       then (s\<lparr> bf_jobs := save_job (markAsFailed ''Job timeout'' j) (bf_jobs s) \<rparr>, Inl ''exceeded timeout'')
       else (case be_error E k of
           Some msg \<Rightarrow>
             if retries + 1 > maxRetries j
             then (s\<lparr> bf_jobs := save_job (markAsFailed msg j) (bf_jobs s) \<rparr>, Inl (''failed: '' @ msg))
             else batch_loop E (k + 1) j la processed (retries + 1) (bc + 1) s
         | None \<Rightarrow> (case executeBatchWithAtomicCheckpoint E la (be_size E k) (bf_table s) of (t, n, la') \<Rightarrow>
             if n = 0 then (s\<lparr> bf_table := t \<rparr>, Inr (j, la, processed, k))
             else
               let j' = checkpoint (bc + 1) (be_now E k) (processed + n) la' j;
                   jobs = (if (bc + 1) mod 5 = 0 then save_job j' (bf_jobs s) else bf_jobs s)
               in batch_loop E (k + 1) j' la' (processed + n) 0 (bc + 1) (s\<lparr> bf_table := t, bf_jobs := jobs \<rparr>))))"
  by pat_completeness auto
termination
  by (relation "measures [\<lambda>(E, k, j, la, processed, retries, bc, s). totalRows j - processed,
      \<lambda>(E, k, j, la, processed, retries, bc, s). Suc (maxRetries j) - retries]") auto

declare batch_loop.simps [simp del]

definition processJobInBatches ::
  "'r batch_env \<Rightarrow> BackfillJob \<Rightarrow> ('r bf_state, string, unit) action" where
  "processJobInBatches E j0 s = (
    let j = markAsStarted (be_now E 0) j0;
        s1 = s\<lparr> bf_jobs := save_job j (bf_jobs s) \<rparr>
    in case batch_loop E 0 j (lastProcessedId j) (processedRows j) 0 0 s1 of
         (s2, Inl e) \<Rightarrow> (s2, Inl e)
       | (s2, Inr (j', la, processed, k)) \<Rightarrow>
           (s2\<lparr> bf_jobs := save_job (markAsCompleted (be_now E k) (updateProgress (be_now E k) processed la j'))
                 (bf_jobs s2) \<rparr>, Inr ()))"

definition claimJob :: "int \<Rightarrow> string \<Rightarrow> BackfillJob list \<Rightarrow> BackfillJob list \<times> bool" where
  "claimJob now i jobs = (
    let p = (\<lambda>j. bj_id j = i \<and> bj_status j = PENDING)
    in (update_rows p (\<lambda>j. j\<lparr> bj_status := PROCESSING, startedAt := Some now, retryCount := 0, errorMessage := None \<rparr>) jobs,
        count_rows p jobs = 1))"

definition getPendingJobs :: "BackfillJob list \<Rightarrow> BackfillJob list" where
  "getPendingJobs jobs = (
    let running = count_rows (\<lambda>j. bj_status j = PROCESSING) jobs
    in take (MAX_CONCURRENT_JOBS - running) (sort_key bj_createdAt (filter (\<lambda>j. bj_status j = PENDING) jobs)))"

text \<open>The loop over the pending jobs; an error of a job is logged and the next one follows.
  \<^verbatim>\<open>Es\<close> gives what happens around the iterations of each job.\<close>

definition process_pending :: "(string \<Rightarrow> 'r batch_env) \<Rightarrow> BackfillJob \<Rightarrow> 'r bf_state \<Rightarrow> 'r bf_state" where
  "process_pending Es j s = (case claimJob (be_now (Es (bj_id j)) 0) (bj_id j) (bf_jobs s) of
      (jobs, False) \<Rightarrow> s
    | (jobs, True) \<Rightarrow> fst (processJobInBatches (Es (bj_id j)) j (s\<lparr> bf_jobs := jobs \<rparr>)))"

text \<open>One poll: nothing while the system is not ready, this instance still runs, or the
  advisory lock is taken.\<close>

definition processPendingJobs ::
  "bool \<Rightarrow> bool \<Rightarrow> bool \<Rightarrow> (string \<Rightarrow> 'r batch_env) \<Rightarrow> 'r bf_state \<Rightarrow> 'r bf_state" where
  "processPendingJobs is_ready isRunning locked Es s = (
    if \<not> is_ready \<or> isRunning \<or> \<not> locked then s
    else for_each (process_pending Es) (getPendingJobs (bf_jobs s)) s)"

text \<open>The check of a job that no other function calls.\<close>

definition name_char :: "char \<Rightarrow> bool" where
  "name_char c = (let n = of_char c :: nat
    in 48 \<le> n \<and> n \<le> 57 \<or> 65 \<le> n \<and> n \<le> 90 \<or> n = 95 \<or> 97 \<le> n \<and> n \<le> 122)"

definition validateJob :: "BackfillJob \<Rightarrow> string + unit" where
  "validateJob j = (
    if tableName j = [] \<or> \<not> list_all name_char (tableName j) then Inl ''Invalid table name''
    else if includes_str '';'' (sqlStatement j) then Inl ''Multiple SQL statements not allowed''
    else if totalRows j = 0 then Inl ''Invalid job size''
    else Inr ())"

text \<open>The text of the batch query, white space apart: the statement of the job stands after
  \<^verbatim>\<open>SET\<close>.\<close>

definition batch_query :: "string \<Rightarrow> string \<Rightarrow> string" where
  "batch_query table statement =
    ''WITH batch AS ( SELECT id FROM \"'' @ table @ ''\" WHERE id > $1 ORDER BY id LIMIT $2 ) UPDATE \"'' @ table
      @ ''\" t SET '' @ statement @ '' FROM batch WHERE t.id = batch.id RETURNING t.id''"

section \<open>Administration\<close>

definition retryJob :: "string \<Rightarrow> (BackfillJob list, string, unit) action" where
  "retryJob i jobs = (case lookup_by bj_id i jobs of
      None \<Rightarrow> (jobs, Inl ''not found'')
    | Some j \<Rightarrow>
        if bj_status j \<noteq> FAILED \<and> bj_status j \<noteq> DEFERRED then (jobs, Inl ''not in a retryable state'')
        else if \<not> canRetry j then (jobs, Inl ''has exceeded maximum retry attempts'')
        else (save_job (j\<lparr> bj_status := PENDING, errorMessage := None, retryCount := 0, lastProcessedId := Some 0,
                processedRows := 0, completedAt := None \<rparr>) jobs, Inr ()))"

definition cancelJob :: "int \<Rightarrow> string \<Rightarrow> (BackfillJob list, string, unit) action" where
  "cancelJob now i jobs = (case lookup_by bj_id i jobs of
      None \<Rightarrow> (jobs, Inl ''not found'')
    | Some j \<Rightarrow>
        if bj_status j = COMPLETED then (jobs, Inl ''is already completed and cannot be cancelled'')
        else (save_job (j\<lparr> bj_status := FAILED, errorMessage := Some ''Cancelled by administrator'',
                completedAt := Some now \<rparr>) jobs, Inr ()))"

section \<open>Partitions\<close>

text \<open>The bounds of the ten partitions; \<^verbatim>\<open>lo\<close> and \<^verbatim>\<open>hi\<close> are the least and the greatest id.\<close>

definition partition_bound :: "int \<Rightarrow> int \<Rightarrow> int \<Rightarrow> int" where
  "partition_bound lo hi i = lo + ((hi - lo) * i) div 10"

definition createPartitions :: "int \<Rightarrow> int \<Rightarrow> (int \<times> int) list" where
  "createPartitions lo hi = map (\<lambda>i. (partition_bound lo hi i, partition_bound lo hi (i + 1))) [0..9]"

definition executePartitionBatch ::
  "'r batch_env \<Rightarrow> int option \<Rightarrow> int \<Rightarrow> nat \<Rightarrow> 'r rows \<Rightarrow> 'r rows \<times> nat \<times> int option" where
  "executePartitionBatch E start_id end_id n t = (
    let ids = (case start_id of None \<Rightarrow> [] | Some a \<Rightarrow> take n (sort (filter (\<lambda>i. a \<le> i \<and> i \<le> end_id) (map fst t))));
        result = update_result ids; processedRows = length result
    in (assign_rows (be_assign E) ids t, processedRows, if processedRows > 0 then item_id (last result) else start_id))"

text \<open>The loop over a partition; \<^verbatim>\<open>None\<close> when the iterations allowed are used up. No
  number is at least \<^verbatim>\<open>undefined\<close>.\<close>

definition js_le :: "int option \<Rightarrow> int \<Rightarrow> bool" where
  "js_le x b = (case x of None \<Rightarrow> False | Some a \<Rightarrow> a \<le> b)"

fun processPartition :: "nat \<Rightarrow> 'r batch_env \<Rightarrow> nat \<Rightarrow> int option \<Rightarrow> int \<Rightarrow> 'r rows \<Rightarrow> 'r rows option" where
  "processPartition 0 E k current end_id t = None"
| "processPartition (Suc fuel) E k current end_id t = (
    if \<not> js_le current end_id then Some t
    else case executePartitionBatch E current end_id (be_size E k) t of (t', n, current') \<Rightarrow>
      if n = 0 then Some t' else processPartition fuel E (k + 1) current' end_id t')"

section \<open>One batch only\<close>

interpretation job_repo: repository "lookup_by bj_id" "save_by bj_id" bj_id
  by unfold_locales (auto simp: lookup_save_by dest: lookup_by_SomeD)

lemma stored_job_fields [simp]:
  "bj_id (stored_job j jobs) = bj_id j" "bj_status (stored_job j jobs) = bj_status j"
  "processedRows (stored_job j jobs) = processedRows j" "totalRows (stored_job j jobs) = totalRows j"
  "lastProcessedId j = Some l \<Longrightarrow> stored_job j jobs = j"
  by (simp_all add: stored_job_def split: option.split)

lemma lookup_save_job:
  "lookup_by bj_id k (save_job j jobs) = (if k = bj_id j then Some (stored_job j jobs) else lookup_by bj_id k jobs)"
  using job_repo.find_save[of k "stored_job j jobs" jobs] by (simp add: save_job_def)

lemma fst_assign_rows [simp]: "map fst (assign_rows f ids t) = map fst t"
  by (induction t) (auto simp: assign_rows_def)

lemma assign_rows_nil [simp]: "assign_rows f [] t = t"
  by (auto simp: assign_rows_def intro!: map_idI)

text \<open>Every batch counts as two rows and leaves no last id.\<close>

lemma batch_result:
  "executeBatchWithAtomicCheckpoint E la n t = (assign_rows (be_assign E) (batch_ids la n t) t, 2, None)"
  by (simp add: executeBatchWithAtomicCheckpoint_def update_result_def Let_def)

lemma batch_loop_counts:
  "batch_loop E k j la p r bc s = (s', Inr (j', la', p', k')) \<Longrightarrow>
    bj_id j' = bj_id j \<and> totalRows j' = totalRows j
    \<and> (if p < totalRows j then totalRows j \<le> p' \<and> p' \<le> totalRows j + 1 else p' = p)"
proof (induction E k j la p r bc s rule: batch_loop.induct)
  case (1 E k j la p r bc s0)
  note run = "1.prems"[unfolded batch_loop.simps[of E k]]
  show ?case
  proof (cases "p < totalRows j \<and> \<not> timed_out (be_now E k) j")
    case False
    then show ?thesis using run by (auto simp: Let_def split: if_splits)
  next
    case True
    show ?thesis
    proof (cases "be_error E k")
      case (Some msg)
      then show ?thesis using run True "1.IH"(2)[OF refl _ _ Some] by (auto simp: Let_def split: if_splits)
    next
      case None
      show ?thesis
        using run True None "1.IH"(1)[OF refl _ _ None batch_result[symmetric] refl _ refl refl]
        by (auto simp: Let_def batch_result split: if_splits)
    qed
  qed
qed

lemma batch_loop_without_position:
  "batch_loop E k j la p r bc s = (s', Inr x) \<Longrightarrow> la = None \<Longrightarrow> bf_table s' = bf_table s"
proof (induction E k j la p r bc s rule: batch_loop.induct)
  case (1 E k j la p r bc s0)
  note run = "1.prems"(1)[unfolded batch_loop.simps[of E k]]
  have none: "assign_rows (be_assign E) (batch_ids la n t) t = t" for n t
    using "1.prems"(2) by (simp add: batch_ids_def)
  show ?case
  proof (cases "p < totalRows j \<and> \<not> timed_out (be_now E k) j")
    case False
    then show ?thesis using run by (auto simp: Let_def split: if_splits)
  next
    case True
    show ?thesis
    proof (cases "be_error E k")
      case (Some msg)
      then show ?thesis
        using run True "1.IH"(2)[OF refl _ _ Some] "1.prems"(2) by (auto simp: Let_def split: if_splits)
    next
      case None
      show ?thesis
        using run True None none "1.IH"(1)[OF refl _ _ None batch_result[symmetric] refl _ refl refl]
        by (auto simp: Let_def batch_result split: if_splits)
    qed
  qed
qed

lemma batch_loop_first:
  "batch_loop E k j (Some l) p r bc s = (s', Inr x) \<Longrightarrow> p < totalRows j \<Longrightarrow>
    \<exists>m. (\<forall>i. k \<le> i \<and> i < k + m \<longrightarrow> be_error E i \<noteq> None) \<and> be_error E (k + m) = None
      \<and> bf_table s' = assign_rows (be_assign E) (batch_ids (Some l) (be_size E (k + m)) (bf_table s)) (bf_table s)"
proof (induction E k j "Some l" p r bc s rule: batch_loop.induct)
  case (1 E k j p r bc s0)
  note run = "1.prems"(1)[unfolded batch_loop.simps[of E k]]
  have nt: "\<not> timed_out (be_now E k) j" using run "1.prems"(2) by (auto simp: Let_def)
  show ?case
  proof (cases "be_error E k")
    case (Some msg)
    then obtain m where m: "\<forall>i. k + 1 \<le> i \<and> i < k + 1 + m \<longrightarrow> be_error E i \<noteq> None" "be_error E (k + 1 + m) = None"
      "bf_table s' = assign_rows (be_assign E) (batch_ids (Some l) (be_size E (k + 1 + m)) (bf_table s0)) (bf_table s0)"
      using run nt "1.prems"(2) "1.hyps"(2)[OF refl _ _ Some] by (auto simp: Let_def split: if_splits)
    have "be_error E i \<noteq> None" if "k \<le> i" "i < k + Suc m" for i
      using that m(1) Some by (cases "i = k") auto
    then show ?thesis using m(2,3) by (intro exI[of _ "Suc m"]) simp
  next
    case None
    then have "bf_table s' = assign_rows (be_assign E) (batch_ids (Some l) (be_size E k) (bf_table s0)) (bf_table s0)"
      using run nt "1.prems"(2)
      by (auto simp: Let_def batch_result split: if_splits dest!: batch_loop_without_position)
    then show ?thesis using None by (intro exI[of _ 0]) auto
  qed
qed

lemma process_loop:
  assumes "processJobInBatches E j s = (s', Inr ())"
  obtains s2 j' la p k where
    "batch_loop E 0 (markAsStarted (be_now E 0) j) (lastProcessedId j) (processedRows j) 0 0
       (s\<lparr> bf_jobs := save_job (markAsStarted (be_now E 0) j) (bf_jobs s) \<rparr>) = (s2, Inr (j', la, p, k))"
    "s' = s2\<lparr> bf_jobs := save_job (markAsCompleted (be_now E k) (updateProgress (be_now E k) p la j')) (bf_jobs s2) \<rparr>"
  using assms by (auto simp: processJobInBatches_def Let_def markAsStarted_def split: prod.splits sum.splits)

text \<open>C20: A job that ends without an error has updated its first batch and nothing else. The
  code reads the row count and the last id off the pair that the query of an UPDATE
  returns, so every batch counts as two rows and leaves the position \<^verbatim>\<open>undefined\<close>, from which
  the later batches select no row. When the job starts below its total, its
  assignment has therefore been applied to the rows beyond its start, in the order of their
  ids and as many as the batch size, that the first iteration selected whose
  transaction did not fail, and to no other; when it starts at its total, to none.
  Either way the job ends \<^verbatim>\<open>COMPLETED\<close>, with its whole total, or one row more, counted as processed; whatever the
  batch sizes, the failures and retries, and what other sessions wrote to the
  job table (they leave the rows of the job's own table alone). The position is an integer at the start.\<close>

theorem backfill_updates_first_batch_only:
  assumes "processJobInBatches E j s = (s', Inr ())" "lastProcessedId j = Some l"
  shows "(if processedRows j < totalRows j
      then \<exists>k. (\<forall>i < k. be_error E i \<noteq> None) \<and> be_error E k = None
        \<and> bf_table s' = assign_rows (be_assign E)
            (take (be_size E k) (sort (filter (\<lambda>i. l < i) (map fst (bf_table s))))) (bf_table s)
      else bf_table s' = bf_table s)
    \<and> (\<exists>j'. lookup_by bj_id (bj_id j) (bf_jobs s') = Some j' \<and> bj_status j' = COMPLETED
        \<and> (if processedRows j < totalRows j then processedRows j' \<in> {totalRows j, totalRows j + 1}
           else processedRows j' = processedRows j))"
proof -
  obtain s2 j' la p k where l: "batch_loop E 0 (markAsStarted (be_now E 0) j) (lastProcessedId j) (processedRows j) 0 0
       (s\<lparr> bf_jobs := save_job (markAsStarted (be_now E 0) j) (bf_jobs s) \<rparr>) = (s2, Inr (j', la, p, k))"
    and s': "s' = s2\<lparr> bf_jobs := save_job (markAsCompleted (be_now E k) (updateProgress (be_now E k) p la j')) (bf_jobs s2) \<rparr>"
    by (rule process_loop[OF assms(1)])
  have c: "bj_id j' = bj_id j" "if processedRows j < totalRows j then p \<in> {totalRows j, totalRows j + 1} else p = processedRows j"
    using batch_loop_counts[OF l] by (auto simp: markAsStarted_def)
  have "if processedRows j < totalRows j
      then \<exists>k. (\<forall>i < k. be_error E i \<noteq> None) \<and> be_error E k = None
        \<and> bf_table s2 = assign_rows (be_assign E) (batch_ids (Some l) (be_size E k) (bf_table s)) (bf_table s)
      else bf_table s2 = bf_table s"
    using batch_loop_first[OF l[unfolded assms(2)]] l[unfolded batch_loop.simps[of E 0]]
    by (auto simp: markAsStarted_def Let_def)
  then show ?thesis
    using c by (auto simp: s' batch_ids_def lookup_save_job markAsCompleted_def updateProgress_def)
qed

definition sample_job :: "nat \<Rightarrow> BackfillJob" where
  "sample_job n = \<lparr> bj_id = ''j'', tableName = ''deliveries'', sqlStatement = ''x = x + 1'', totalRows = n, processedRows = 0,
     lastProcessedId = Some 0, bj_status = PENDING, retryCount = 0, maxRetries = 5, errorMessage = None,
     startedAt = None, completedAt = None, lastProcessedAt = None, bj_createdAt = 0 \<rparr>"

text \<open>Batches of two, the first of which fails once.\<close>

definition sample_env :: "int batch_env" where
  "sample_env = \<lparr> be_now = (\<lambda>k. int k), be_size = (\<lambda>_. 2), be_error = (\<lambda>k. if k = 0 then Some ''deadlock'' else None),
     be_others = (\<lambda>_ jobs. jobs), be_assign = (\<lambda>x. x + 1) \<rparr>"

definition sample_bf :: "int bf_state" where
  "sample_bf = \<lparr> bf_jobs = [sample_job 3], bf_table = [(7, 10), (2, 20), (5, 30)] \<rparr>"

lemma backfill_updates_first_batch_only_witness:
  "(case processJobInBatches sample_env (sample_job 3) sample_bf of
      (s', Inr _) \<Rightarrow> bf_table s' = [(7, 10), (2, 21), (5, 31)] | (_, Inl _) \<Rightarrow> False)"
proof -
  have "snd (processJobInBatches sample_env (sample_job 3) sample_bf) = Inr ()" by code_simp
  then obtain s' where e: "processJobInBatches sample_env (sample_job 3) sample_bf = (s', Inr ())"
    by (cases "processJobInBatches sample_env (sample_job 3) sample_bf") simp
  have "lastProcessedId (sample_job 3) = Some 0" "processedRows (sample_job 3) < totalRows (sample_job 3)"
    by (simp_all add: sample_job_def)
  then have "\<exists>k. bf_table s' = assign_rows (be_assign sample_env)
      (take (be_size sample_env k) (sort (filter (\<lambda>i. 0 < i) (map fst (bf_table sample_bf))))) (bf_table sample_bf)"
    using backfill_updates_first_batch_only[OF e] by auto
  then have "bf_table s' = [(7, 10), (2, 21), (5, 31)]"
    by (simp add: sample_env_def sample_bf_def assign_rows_def)
  then show ?thesis by (simp add: e)
qed

section \<open>Administration and polling\<close>

text \<open>Cancelling a job that runs does not stop it: whatever other sessions write to the job
  table while it runs, a cancellation at every iteration included, a run that ends
  without an error leaves the job \<^verbatim>\<open>COMPLETED\<close>.\<close>

theorem running_job_overwrites_cancel:
  assumes "processJobInBatches E j s = (s', Inr ())"
  shows "map_option bj_status (lookup_by bj_id (bj_id j) (bf_jobs s')) = Some COMPLETED"
proof -
  obtain s2 j' la p k where l: "batch_loop E 0 (markAsStarted (be_now E 0) j) (lastProcessedId j) (processedRows j) 0 0
       (s\<lparr> bf_jobs := save_job (markAsStarted (be_now E 0) j) (bf_jobs s) \<rparr>) = (s2, Inr (j', la, p, k))"
    and s': "s' = s2\<lparr> bf_jobs := save_job (markAsCompleted (be_now E k) (updateProgress (be_now E k) p la j')) (bf_jobs s2) \<rparr>"
    by (rule process_loop[OF assms])
  have "bj_id j' = bj_id j" using batch_loop_counts[OF l] by (simp add: markAsStarted_def)
  then show ?thesis by (simp add: s' lookup_save_job markAsCompleted_def updateProgress_def)
qed

definition cancelling_env :: "int batch_env" where
  "cancelling_env = sample_env\<lparr> be_others := (\<lambda>k jobs. fst (cancelJob (int k) ''j'' jobs)) \<rparr>"

lemma running_job_overwrites_cancel_witness:
  "(case processJobInBatches cancelling_env (sample_job 3)
       \<lparr> bf_jobs = [sample_job 3], bf_table = [(7, 10), (2, 20), (5, 30)] \<rparr> of
      (s', _) \<Rightarrow> map_option bj_status (lookup_by bj_id ''j'' (bf_jobs s')) = Some COMPLETED)"
proof -
  let ?s = "\<lparr> bf_jobs = [sample_job 3], bf_table = [(7, 10), (2, 20), (5, 30)] \<rparr>"
  have "snd (processJobInBatches cancelling_env (sample_job 3) ?s) = Inr ()" by code_simp
  then obtain s' where e: "processJobInBatches cancelling_env (sample_job 3) ?s = (s', Inr ())"
    by (cases "processJobInBatches cancelling_env (sample_job 3) ?s") simp
  then show ?thesis using running_job_overwrites_cancel[OF e] by (simp add: sample_job_def)
qed

text \<open>Jobs that a stopped worker left in \<^verbatim>\<open>PROCESSING\<close> are never taken up again, and three
  of them stop the whole worker: a poll then changes nothing, however many jobs wait.\<close>

theorem stuck_jobs_stop_the_worker:
  assumes "3 \<le> count_rows (\<lambda>j. bj_status j = PROCESSING) (bf_jobs s)"
  shows "processPendingJobs is_ready isRunning locked Es s = s"
  using assms by (simp add: processPendingJobs_def getPendingJobs_def MAX_CONCURRENT_JOBS_def Let_def)

lemma stuck_jobs_stop_the_worker_witness:
  "processPendingJobs True False True (\<lambda>_. sample_env)
      \<lparr> bf_jobs = replicate 3 ((sample_job 3)\<lparr> bj_status := PROCESSING \<rparr>) @ [(sample_job 1)\<lparr> bj_id := ''k'' \<rparr>],
        bf_table = [(1, 1)] \<rparr>
    = \<lparr> bf_jobs = replicate 3 ((sample_job 3)\<lparr> bj_status := PROCESSING \<rparr>) @ [(sample_job 1)\<lparr> bj_id := ''k'' \<rparr>],
        bf_table = [(1, 1)] \<rparr>"
  by (rule stuck_jobs_stop_the_worker) (simp add: count_rows_def numeral_3_eq_3)

text \<open>A deferred job is admitted by the first check of \<^verbatim>\<open>retryJob\<close> and refused by the second.\<close>

lemma deferred_job_is_not_retried:
  "lookup_by bj_id i jobs = Some j \<Longrightarrow> bj_status j = DEFERRED \<Longrightarrow>
    retryJob i jobs = (jobs, Inl ''has exceeded maximum retry attempts'')"
  by (simp add: retryJob_def canRetry_def)

text \<open>A retried job starts over: it has no position and no processed rows.\<close>

lemma retry_starts_over:
  assumes "retryJob i jobs = (jobs', Inr ())"
  shows "\<exists>j. lookup_by bj_id i jobs' = Some j \<and> lastProcessedId j = Some 0 \<and> processedRows j = 0 \<and> bj_status j = PENDING"
  using assms by (auto simp: retryJob_def lookup_save_job dest: job_repo.found_key split: option.splits if_splits)

section \<open>Partitioned processing\<close>

text \<open>The ten partitions cover the ids from the least to the greatest, and every partition
  begins at the id where the one before it ends, an id that both include.\<close>

theorem partitions_share_endpoints:
  assumes "lo \<le> hi"
  shows "length (createPartitions lo hi) = 10 \<and> fst (hd (createPartitions lo hi)) = lo
    \<and> snd (last (createPartitions lo hi)) = hi
    \<and> map snd (butlast (createPartitions lo hi)) = map fst (tl (createPartitions lo hi))
    \<and> sorted (map fst (createPartitions lo hi))"
proof -
  have l: "[0..9] = [0, 1, 2, 3, 4, 5, 6, 7, 8, 9 :: int]" by code_simp
  have m: "partition_bound lo hi a \<le> partition_bound lo hi b" if "a \<le> b" for a b
    using assms that by (simp add: partition_bound_def zdiv_mono1 mult_left_mono)
  have ends: "partition_bound lo hi 0 = lo" "partition_bound lo hi 10 = hi" by (simp_all add: partition_bound_def)
  have up: "sorted (map (partition_bound lo hi) [0, 1, 2, 3, 4, 5, 6, 7, 8, 9])" by (simp add: m)
  show ?thesis unfolding createPartitions_def l using up by (simp add: ends)
qed

lemma partitions_share_endpoints_witness: "snd (last (createPartitions 1 95)) = 95"
  using partitions_share_endpoints[of 1 95] by simp

text \<open>C21: The loop over a partition ends after one batch: the last id read off the
  result of the update is \<^verbatim>\<open>undefined\<close>, which is not at most the end of the partition. Two
  iterations are enough for any partition and batch sizes: when no query fails, the rows of the first batch
  are updated, and the rest of the partition is not.\<close>

theorem partition_updates_first_batch:
  assumes "2 \<le> fuel"
  shows "processPartition fuel E k (Some a) b t
    = Some (assign_rows (be_assign E) (take (be_size E k) (sort (filter (\<lambda>i. a \<le> i \<and> i \<le> b) (map fst t)))) t)"
proof -
  obtain n where f: "fuel = Suc (Suc n)" using assms by (metis Suc_le_D add_2_eq_Suc le_add_diff_inverse)
  show ?thesis
  proof (cases "a \<le> b")
    case True
    then show ?thesis by (simp add: f js_le_def executePartitionBatch_def update_result_def Let_def)
  next
    case False
    then have "filter (\<lambda>i. a \<le> i \<and> i \<le> b) (map fst t) = []" by (auto simp: filter_empty_conv)
    then show ?thesis using False by (simp add: f js_le_def)
  qed
qed

lemma partition_updates_first_batch_witness:
  "processPartition 2 sample_env 0 (Some 1) 10 [(4, 0), (9, 0), (7, 0)] = Some [(4, 1), (9, 0), (7, 1)]"
  using partition_updates_first_batch[of 2 sample_env 0 1 10 "[(4, 0), (9, 0), (7, 0)]"]
  by (simp add: sample_env_def assign_rows_def)

end
