(* ===== verification/Authorization.thy ===== *)
theory Authorization
  imports Deliveries
begin

text \<open>
  Who may do what: the permission tables of \<^verbatim>\<open>auth/permissions.ts\<close>, the route guard
  \<^verbatim>\<open>auth/policy.guard.ts\<close>, the policies of \<^verbatim>\<open>authorization/\<close>, the delivery actions of
  \<^verbatim>\<open>deliveries/delivery-authorization.service.ts\<close>, the context checks of
  \<^verbatim>\<open>auth/abac.service.ts\<close> and the two service guards. Identifiers that come
  from the body or the query of a request are JSON values; the delivery table is read
  through an argument \<^verbatim>\<open>lookup\<close>.
\<close>

section \<open>Permissions\<close>

datatype permission_key =
    DRIVER_READ_OWN_PROFILE | DRIVER_UPDATE_OWN_LOCATION | DRIVER_READ_OWN_EARNINGS |
    DRIVER_ACCEPT_DELIVERY | DRIVER_REJECT_DELIVERY | DRIVER_UPDATE_DELIVERY_STATUS |
    DRIVER_CONTACT_CUSTOMER | DRIVER_CONTACT_SELLER | DRIVER_UPLOAD_PROOF | ASSIGNMENT_CREATE |
    ASSIGNMENT_REASSIGN | ADMIN_READ_DRIVER_ANY | ADMIN_UPDATE_DRIVER_STATUS |
    ADMIN_CREATE_DRIVER | ADMIN_DELETE_DRIVER | ADMIN_READ_DELIVERY_ANY | ADMIN_READ_ADMIN_ANY |
    ADMIN_UPDATE_ADMIN | ADMIN_READ_AUDIT_OWN | ADMIN_FORCE_ASSIGN_DRIVER |
    ADMIN_CANCEL_DELIVERY | ADMIN_RETRY_DISPATCH | ADMIN_OVERRIDE_DELIVERY |
    ADMIN_READ_ZONE_ANY | ADMIN_UPDATE_ZONE_CONFIG | SUPER_ADMIN_CREATE_ADMIN |
    SUPER_ADMIN_DELETE_ADMIN | SUPER_ADMIN_READ_AUDIT_ANY | SUPER_ADMIN_READ_SYSTEM_STATS |
    SUPER_ADMIN_RESET_ADMIN_PASSWORD | SUPER_ADMIN_MANAGE_CITIES | SUPER_ADMIN_MANAGE_ZONES |
    SYSTEM_WEBHOOK_INBOUND | SYSTEM_READ_DRIVER_LOCATION

fun Permission :: "permission_key \<Rightarrow> string" where
  "Permission DRIVER_READ_OWN_PROFILE = ''driver:read:own_profile''"
| "Permission DRIVER_UPDATE_OWN_LOCATION = ''driver:update:own_location''"
| "Permission DRIVER_READ_OWN_EARNINGS = ''driver:read:own_earnings''"
| "Permission DRIVER_ACCEPT_DELIVERY = ''driver:action:accept_delivery''"
| "Permission DRIVER_REJECT_DELIVERY = ''driver:action:reject_delivery''"
| "Permission DRIVER_UPDATE_DELIVERY_STATUS = ''driver:update:delivery_status''"
| "Permission DRIVER_CONTACT_CUSTOMER = ''driver:action:contact_customer''"
| "Permission DRIVER_CONTACT_SELLER = ''driver:action:contact_seller''"
| "Permission DRIVER_UPLOAD_PROOF = ''driver:action:upload_proof''"
| "Permission ASSIGNMENT_CREATE = ''assignment:create:any''"
| "Permission ASSIGNMENT_REASSIGN = ''assignment:reassign:any''"
| "Permission ADMIN_READ_DRIVER_ANY = ''admin:read:driver:any''"
| "Permission ADMIN_UPDATE_DRIVER_STATUS = ''admin:update:driver_status''"
| "Permission ADMIN_CREATE_DRIVER = ''admin:create:driver''"
| "Permission ADMIN_DELETE_DRIVER = ''admin:delete:driver''"
| "Permission ADMIN_READ_DELIVERY_ANY = ''admin:read:delivery:any''"
| "Permission ADMIN_READ_ADMIN_ANY = ''admin:read:admin:any''"
| "Permission ADMIN_UPDATE_ADMIN = ''admin:update:admin''"
| "Permission ADMIN_READ_AUDIT_OWN = ''admin:read:audit:own''"
| "Permission ADMIN_FORCE_ASSIGN_DRIVER = ''admin:action:force_assign_driver''"
| "Permission ADMIN_CANCEL_DELIVERY = ''admin:action:cancel_delivery''"
| "Permission ADMIN_RETRY_DISPATCH = ''admin:action:retry_dispatch''"
| "Permission ADMIN_OVERRIDE_DELIVERY = ''admin:action:override_delivery''"
| "Permission ADMIN_READ_ZONE_ANY = ''admin:read:zone:any''"
| "Permission ADMIN_UPDATE_ZONE_CONFIG = ''admin:update:zone_config''"
| "Permission SUPER_ADMIN_CREATE_ADMIN = ''super_admin:create:admin''"
| "Permission SUPER_ADMIN_DELETE_ADMIN = ''super_admin:delete:admin''"
| "Permission SUPER_ADMIN_READ_AUDIT_ANY = ''super_admin:read:audit:any''"
| "Permission SUPER_ADMIN_READ_SYSTEM_STATS = ''super_admin:read:system_stats''"
| "Permission SUPER_ADMIN_RESET_ADMIN_PASSWORD = ''super_admin:reset:admin_password''"
| "Permission SUPER_ADMIN_MANAGE_CITIES = ''super_admin:manage:cities''"
| "Permission SUPER_ADMIN_MANAGE_ZONES = ''super_admin:manage:zones''"
| "Permission SYSTEM_WEBHOOK_INBOUND = ''system:webhook:inbound''"
| "Permission SYSTEM_READ_DRIVER_LOCATION = ''system:read:driver_location''"

definition all_permissions :: "string list" where
  "all_permissions = map Permission
    [DRIVER_READ_OWN_PROFILE, DRIVER_UPDATE_OWN_LOCATION, DRIVER_READ_OWN_EARNINGS,
     DRIVER_ACCEPT_DELIVERY, DRIVER_REJECT_DELIVERY, DRIVER_UPDATE_DELIVERY_STATUS,
     DRIVER_CONTACT_CUSTOMER, DRIVER_CONTACT_SELLER, DRIVER_UPLOAD_PROOF, ASSIGNMENT_CREATE,
     ASSIGNMENT_REASSIGN, ADMIN_READ_DRIVER_ANY, ADMIN_UPDATE_DRIVER_STATUS, ADMIN_CREATE_DRIVER,
     ADMIN_DELETE_DRIVER, ADMIN_READ_DELIVERY_ANY, ADMIN_READ_ADMIN_ANY, ADMIN_UPDATE_ADMIN,
     ADMIN_READ_AUDIT_OWN, ADMIN_FORCE_ASSIGN_DRIVER, ADMIN_CANCEL_DELIVERY,
     ADMIN_RETRY_DISPATCH, ADMIN_OVERRIDE_DELIVERY, ADMIN_READ_ZONE_ANY,
     ADMIN_UPDATE_ZONE_CONFIG, SUPER_ADMIN_CREATE_ADMIN, SUPER_ADMIN_DELETE_ADMIN,
     SUPER_ADMIN_READ_AUDIT_ANY, SUPER_ADMIN_READ_SYSTEM_STATS, SUPER_ADMIN_RESET_ADMIN_PASSWORD,
     SUPER_ADMIN_MANAGE_CITIES, SUPER_ADMIN_MANAGE_ZONES, SYSTEM_WEBHOOK_INBOUND,
     SYSTEM_READ_DRIVER_LOCATION]"

definition permissions_from :: "string \<Rightarrow> string list" where
  "permissions_from prefix = filter (starts_with prefix) all_permissions"

text \<open>An index that is not a role of the table gives \<^verbatim>\<open>undefined\<close>.\<close>

definition RolePermissions :: "string \<Rightarrow> string list option" where
  "RolePermissions role =
    (if role = ''DRIVER'' then Some (map Permission
       [DRIVER_READ_OWN_PROFILE, DRIVER_UPDATE_OWN_LOCATION, DRIVER_READ_OWN_EARNINGS,
        DRIVER_ACCEPT_DELIVERY, DRIVER_REJECT_DELIVERY, DRIVER_UPDATE_DELIVERY_STATUS,
        DRIVER_CONTACT_CUSTOMER, DRIVER_CONTACT_SELLER, DRIVER_UPLOAD_PROOF])
     else if role = ''ADMIN'' then Some (permissions_from ''admin:''
       @ map Permission [ASSIGNMENT_CREATE, ASSIGNMENT_REASSIGN])
     else if role = ''DISPATCHER'' then Some (map Permission
       [ADMIN_READ_DELIVERY_ANY, ADMIN_FORCE_ASSIGN_DRIVER, ASSIGNMENT_CREATE,
        ASSIGNMENT_REASSIGN, ADMIN_RETRY_DISPATCH])
     else if role = ''OPS_ADMIN'' then Some (map Permission
       [ADMIN_READ_DRIVER_ANY, ADMIN_UPDATE_DRIVER_STATUS, ADMIN_CANCEL_DELIVERY,
        ADMIN_OVERRIDE_DELIVERY, ADMIN_RETRY_DISPATCH, ADMIN_READ_DELIVERY_ANY,
        ASSIGNMENT_REASSIGN])
     else if role = ''CITY_ADMIN'' then Some (map Permission
       [ADMIN_READ_DRIVER_ANY, ADMIN_UPDATE_DRIVER_STATUS, ADMIN_READ_DELIVERY_ANY,
        ADMIN_FORCE_ASSIGN_DRIVER, ADMIN_CANCEL_DELIVERY, ADMIN_RETRY_DISPATCH,
        ASSIGNMENT_CREATE, ASSIGNMENT_REASSIGN])
     else if role = ''SUPER_ADMIN'' then Some (permissions_from ''super_admin:''
       @ permissions_from ''admin:'' @ permissions_from ''assignment:'')
     else if role = ''SYSTEM'' then Some (map Permission [SYSTEM_WEBHOOK_INBOUND, SYSTEM_READ_DRIVER_LOCATION])
     else None)"

section \<open>Decisions\<close>

record AuthorizationDecision =
  allowed :: bool
  reason :: "string option"

definition allow :: AuthorizationDecision where
  "allow = \<lparr> allowed = True, reason = None \<rparr>"

definition deny :: "string \<Rightarrow> AuthorizationDecision" where
  "deny r = \<lparr> allowed = False, reason = Some r \<rparr>"

lemma allow_deny [simp]:
  "allowed allow" "\<not> allowed (deny r)" "reason allow = None" "reason (deny r) = Some r"
  by (simp_all add: allow_def deny_def)

record AuthorizationActor =
  ac_userId :: "string option"
  ac_driverId :: "string option"
  ac_role :: "string option"
  ac_type :: "string option"
  ac_permissions :: "string list option"
  ac_cityId :: "string option"
  ac_zoneId :: "string option"
  ac_isActive :: "bool option"

record AuthorizationResourceContext =
  rs_deliveryId :: "json option"
  rs_driverId :: "json option"
  rs_cityId :: "json option"
  rs_zoneId :: "json option"
  rs_path :: string
  rs_method :: string
  rs_body :: "json option"

text \<open>Truthiness and \<^verbatim>\<open>||\<close> of JSON values, and \<^verbatim>\<open>a || b\<close> of optional strings.\<close>

fun json_truthy :: "json option \<Rightarrow> bool" where
  "json_truthy None = False"
| "json_truthy (Some JNull) = False"
| "json_truthy (Some (JBool b)) = b"
| "json_truthy (Some (JNum x)) = (x \<noteq> 0)"
| "json_truthy (Some (JStr s)) = (s \<noteq> [])"
| "json_truthy (Some (JIso t)) = True"
| "json_truthy (Some (JArr xs)) = True"
| "json_truthy (Some (JObj kvs)) = True"

definition json_or :: "json option \<Rightarrow> json option \<Rightarrow> json option" where
  "json_or a b = (if json_truthy a then a else b)"

definition str_or :: "string option \<Rightarrow> string option \<Rightarrow> string option" where
  "str_or a b = (if truthy a then a else b)"

text \<open>\<^verbatim>\<open>value.k\<close>: only objects have the property; reading it of a missing
  value raises unless the access is optional.\<close>

fun json_get :: "string \<Rightarrow> json \<Rightarrow> json option" where
  "json_get k (JObj kvs) = map_of kvs k"
| "json_get k _ = None"

definition json_get_opt :: "string \<Rightarrow> json option \<Rightarrow> json option" where
  "json_get_opt k v = (case v of None \<Rightarrow> None | Some j \<Rightarrow> json_get k j)"

section \<open>Actions on deliveries\<close>

datatype DeliveryAction = VIEW | PICKUP | DELIVER | CANCEL | REASSIGN | RETRY | VIEW_PROOFS

fun status_text :: "delivery_status \<Rightarrow> string" where
  "status_text PENDING = ''PENDING''"
| "status_text ASSIGNED = ''ASSIGNED''"
| "status_text PICKED_UP = ''PICKED_UP''"
| "status_text IN_TRANSIT = ''IN_TRANSIT''"
| "status_text DELIVERED = ''DELIVERED''"
| "status_text FAILED = ''FAILED''"
| "status_text CANCELLED = ''CANCELLED''"

definition checkViewPermission :: "string \<Rightarrow> string \<Rightarrow> delivery \<Rightarrow> AuthorizationDecision" where
  "checkViewPermission actorId role d =
    (if role = ''DRIVER'' then (if dl_driverId d \<noteq> Some actorId then deny ''NOT_ASSIGNED_DRIVER'' else allow)
     else if role = ''ADMIN'' then allow
     else deny ''INSUFFICIENT_ROLE'')"

definition checkPickupPermission :: "string \<Rightarrow> delivery \<Rightarrow> AuthorizationDecision" where
  "checkPickupPermission actorId d =
    (if dl_driverId d \<noteq> Some actorId then deny ''NOT_ASSIGNED_DRIVER''
     else if dl_status d \<noteq> ASSIGNED then deny (''INVALID_STATUS_'' @ status_text (dl_status d))
     else allow)"

definition checkDeliverPermission :: "string \<Rightarrow> delivery \<Rightarrow> AuthorizationDecision" where
  "checkDeliverPermission actorId d =
    (if dl_driverId d \<noteq> Some actorId then deny ''NOT_ASSIGNED_DRIVER''
     else if dl_status d \<noteq> PICKED_UP \<and> dl_status d \<noteq> IN_TRANSIT
       then deny (''INVALID_STATUS_'' @ status_text (dl_status d))
     else allow)"

definition checkCancelPermission :: "string \<Rightarrow> string \<Rightarrow> delivery \<Rightarrow> AuthorizationDecision" where
  "checkCancelPermission actorId role d =
    (if role = ''DRIVER'' then
       (if dl_driverId d \<noteq> Some actorId then deny ''NOT_ASSIGNED_DRIVER''
        else if dl_status d = PICKED_UP \<or> dl_status d = DELIVERED then deny ''ALREADY_PICKED_UP''
        else allow)
     else if role = ''ADMIN'' \<or> role = ''SUPER_ADMIN'' then
       (if dl_status d = DELIVERED then deny ''ALREADY_DELIVERED'' else allow)
     else deny ''INSUFFICIENT_ROLE'')"

definition checkReassignPermission :: "string \<Rightarrow> delivery \<Rightarrow> AuthorizationDecision" where
  "checkReassignPermission role d =
    (if role \<noteq> ''ADMIN'' \<and> role \<noteq> ''SUPER_ADMIN'' then deny ''ADMIN_ONLY_ACTION''
     else if dl_status d = DELIVERED \<or> dl_status d = CANCELLED then deny ''DELIVERY_TERMINAL_STATE''
     else allow)"

definition checkRetryPermission :: "string \<Rightarrow> delivery \<Rightarrow> AuthorizationDecision" where
  "checkRetryPermission role d =
    (if role \<noteq> ''ADMIN'' \<and> role \<noteq> ''SUPER_ADMIN'' then deny ''ADMIN_ONLY_ACTION''
     else if dl_status d \<noteq> FAILED \<and> dl_status d \<noteq> CANCELLED then deny ''DELIVERY_NOT_FAILED''
     else allow)"

text \<open>The entity has no city: the service resolves none.\<close>

definition resolveDeliveryCity :: "delivery \<Rightarrow> string option" where
  "resolveDeliveryCity d = None"

definition canPerformAction ::
    "(json \<Rightarrow> delivery option) \<Rightarrow> string \<Rightarrow> string \<Rightarrow> string option \<Rightarrow> json \<Rightarrow> DeliveryAction
      \<Rightarrow> AuthorizationDecision" where
  "canPerformAction lookup actorId role cityId deliveryId action = (case lookup deliveryId of
      None \<Rightarrow> deny ''DELIVERY_NOT_FOUND''
    | Some d \<Rightarrow>
        if role = ''SUPER_ADMIN'' then allow
        else if role = ''ADMIN'' \<and> truthy (resolveDeliveryCity d) \<and> resolveDeliveryCity d \<noteq> cityId
          then deny ''CITY_SCOPE_VIOLATION''
        else (case action of
            VIEW \<Rightarrow> checkViewPermission actorId role d
          | PICKUP \<Rightarrow> checkPickupPermission actorId d
          | DELIVER \<Rightarrow> checkDeliverPermission actorId d
          | CANCEL \<Rightarrow> checkCancelPermission actorId role d
          | REASSIGN \<Rightarrow> checkReassignPermission role d
          | RETRY \<Rightarrow> checkRetryPermission role d
          | VIEW_PROOFS \<Rightarrow> deny ''UNKNOWN_ACTION''))"

section \<open>Policies\<close>

definition ASSIGNMENT_ROLES :: "string list" where
  "ASSIGNMENT_ROLES = [''DISPATCHER'', ''OPS_ADMIN'', ''CITY_ADMIN'', ''ADMIN'', ''SUPER_ADMIN'', ''SYSTEM'']"

definition assignment_policy :: "AuthorizationActor \<Rightarrow> string \<Rightarrow> AuthorizationDecision" where
  "assignment_policy actor permission =
    (if \<not> starts_with ''assignment:'' permission then allow
     else if \<not> truthy (ac_role actor) \<or> the (ac_role actor) \<notin> set ASSIGNMENT_ROLES
       then deny ''ASSIGNMENT_ROLE_REQUIRED''
     else allow)"

definition driver_policy ::
    "AuthorizationActor \<Rightarrow> string \<Rightarrow> AuthorizationResourceContext \<Rightarrow> AuthorizationDecision" where
  "driver_policy actor permission resource =
    (if \<not> starts_with ''driver:'' permission then allow
     else if json_truthy (rs_driverId resource) \<and> truthy (ac_driverId actor)
          \<and> rs_driverId resource \<noteq> map_option JStr (ac_driverId actor)
       then deny ''DRIVER_OWNERSHIP_VIOLATION''
     else if ac_isActive actor = Some False \<and> permission \<noteq> ''driver:read:own_profile''
       then deny ''DRIVER_INACTIVE''
     else allow)"

definition resolveAction :: "string \<Rightarrow> AuthorizationResourceContext \<Rightarrow> DeliveryAction option" where
  "resolveAction permission resource =
    (if permission = Permission ADMIN_READ_DELIVERY_ANY then Some VIEW
     else if permission = Permission ADMIN_CANCEL_DELIVERY then Some CANCEL
     else if permission = Permission ADMIN_RETRY_DISPATCH then Some RETRY
     else if permission = Permission ADMIN_FORCE_ASSIGN_DRIVER then Some REASSIGN
     else if permission = Permission DRIVER_UPDATE_DELIVERY_STATUS then
       (let status = json_get_opt ''status'' (rs_body resource)
        in if status = Some (JStr ''PICKED_UP'') then Some PICKUP
           else if status = Some (JStr ''DELIVERED'') \<or> status = Some (JStr ''IN_TRANSIT'') then Some DELIVER
           else if status = Some (JStr ''CANCELLED'') then Some CANCEL
           else Some VIEW)
     else None)"

definition delivery_policy ::
    "(json \<Rightarrow> delivery option) \<Rightarrow> AuthorizationActor \<Rightarrow> string \<Rightarrow> AuthorizationResourceContext
      \<Rightarrow> AuthorizationDecision" where
  "delivery_policy lookup actor permission resource = (case resolveAction permission resource of
      None \<Rightarrow> allow
    | Some action \<Rightarrow>
        if \<not> json_truthy (rs_deliveryId resource) then allow
        else let actorId = str_or (ac_driverId actor) (ac_userId actor)
          in if \<not> truthy actorId \<or> \<not> truthy (ac_role actor) then deny ''MISSING_ACTOR_CONTEXT''
             else let d = canPerformAction lookup (the actorId) (the (ac_role actor)) (ac_cityId actor)
                      (the (rs_deliveryId resource)) action
               in \<lparr> allowed = allowed d, reason = reason d \<rparr>)"

definition evaluateAdminScope ::
    "AuthorizationActor \<Rightarrow> string \<Rightarrow> AuthorizationResourceContext \<Rightarrow> AuthorizationDecision" where
  "evaluateAdminScope actor permission resource =
    (if \<not> (starts_with ''admin:'' permission \<or> starts_with ''assignment:'' permission) then allow
     else if \<not> truthy (ac_role actor) then deny ''MISSING_ROLE''
     else if the (ac_role actor) \<in> {''ADMIN'', ''CITY_ADMIN'', ''DISPATCHER'', ''OPS_ADMIN''} then
       (if \<not> truthy (ac_cityId actor) then deny ''MISSING_ADMIN_CITY_SCOPE''
        else if json_truthy (rs_cityId resource) \<and> rs_cityId resource \<noteq> map_option JStr (ac_cityId actor)
          then deny ''CITY_SCOPE_VIOLATION''
        else allow)
     else allow)"

text \<open>\<^verbatim>\<open>if (!d.allowed) return d;\<close> and on to the next policy.\<close>

definition and_also :: "AuthorizationDecision \<Rightarrow> AuthorizationDecision \<Rightarrow> AuthorizationDecision" where
  "and_also d e = (if \<not> allowed d then d else e)"

definition authorize ::
    "(json \<Rightarrow> delivery option) \<Rightarrow> AuthorizationActor \<Rightarrow> string \<Rightarrow> AuthorizationResourceContext
      \<Rightarrow> AuthorizationDecision" where
  "authorize lookup actor permission resource =
    (if ac_role actor = Some ''SYSTEM'' \<or> ac_type actor = Some ''system'' then allow
     else if ac_role actor = Some ''SUPER_ADMIN'' then allow
     else if (case ac_permissions actor of None \<Rightarrow> True | Some ps \<Rightarrow> permission \<notin> set ps)
       then deny ''MISSING_PERMISSION''
     else and_also (assignment_policy actor permission)
       (and_also (driver_policy actor permission resource)
         (and_also (delivery_policy lookup actor permission resource)
           (and_also (evaluateAdminScope actor permission resource) allow))))"

section \<open>The route guard\<close>

text \<open>What the token strategy leaves as \<^verbatim>\<open>request.user\<close>.\<close>

record auth_user =
  u_userId :: "string option"
  u_driverId :: "string option"
  u_sub :: "string option"
  u_type :: "string option"
  u_role :: "string option"
  u_email :: "string option"
  u_permissions :: "string list option"
  u_isActive :: "bool option"
  u_status :: "string option"
  u_cityId :: "string option"
  u_zoneId :: "string option"

record http_request =
  rq_params :: "(string \<times> string) list"
  rq_route :: "string option"
  rq_path :: string
  rq_method :: string
  rq_body :: "json option"
  rq_query :: "json option"
  rq_user :: "auth_user option"

record policy_context =
  pc_userId :: "string option"
  pc_driverId :: "string option"
  pc_role :: "string option"
  pc_cityId :: "string option"
  pc_zoneId :: "string option"
  pc_permissions :: "string list"
  pc_isActive :: bool
  pc_resourceCityId :: "json option"
  pc_resourceZoneId :: "json option"
  pc_resourceDriverId :: "json option"
  pc_resourceDeliveryId :: "json option"

definition of_user :: "http_request \<Rightarrow> (auth_user \<Rightarrow> 'a option) \<Rightarrow> 'a option" where
  "of_user rq f = (case rq_user rq of None \<Rightarrow> None | Some u \<Rightarrow> f u)"

definition inferred_id :: "http_request \<Rightarrow> string option \<times> string option" where
  "inferred_id rq = (let i = map_of (rq_params rq) ''id''; path = or_default (rq_route rq) []
    in if \<not> truthy i then (None, None)
       else if includes_str ''/drivers'' path then (i, None)
       else if includes_str ''/deliveries'' path then (None, i)
       else (None, None))"

text \<open>The named parameter, else the identifier inferred from the route, else
  the body, else the query; a request without a body raises when the body
  is reached. The last operand, a property of the user that no code sets
  on the requests the guard sees, is \<^verbatim>\<open>undefined\<close>.\<close>

definition resource_id :: "http_request \<Rightarrow> string \<Rightarrow> string option \<Rightarrow> string + json option" where
  "resource_id rq k inferred =
    (if truthy (map_of (rq_params rq) k) then Inr (map_option JStr (map_of (rq_params rq) k))
     else if truthy inferred then Inr (map_option JStr inferred)
     else case rq_body rq of
         None \<Rightarrow> Inl ''TypeError''
       | Some JNull \<Rightarrow> Inl ''TypeError''
       | Some b \<Rightarrow> Inr (json_or (json_get k b) (json_or (json_get_opt k (rq_query rq)) None)))"

definition buildPolicyContext :: "http_request \<Rightarrow> string + policy_context" where
  "buildPolicyContext rq =
    (case resource_id rq ''cityId'' None of
        Inl e \<Rightarrow> Inl e
      | Inr city \<Rightarrow> (case resource_id rq ''zoneId'' None of
        Inl e \<Rightarrow> Inl e
      | Inr zone \<Rightarrow> (case resource_id rq ''driverId'' (fst (inferred_id rq)) of
        Inl e \<Rightarrow> Inl e
      | Inr drv \<Rightarrow> (case resource_id rq ''deliveryId'' (snd (inferred_id rq)) of
        Inl e \<Rightarrow> Inl e
      | Inr dlv \<Rightarrow> Inr \<lparr>
          pc_userId = str_or (of_user rq u_userId) (of_user rq u_sub),
          pc_driverId = of_user rq u_driverId,
          pc_role = str_or (of_user rq u_role) (of_user rq u_type),
          pc_cityId = of_user rq u_cityId,
          pc_zoneId = of_user rq u_zoneId,
          pc_permissions = (case of_user rq u_permissions of None \<Rightarrow> [] | Some ps \<Rightarrow> ps),
          pc_isActive = (of_user rq u_isActive \<noteq> Some False),
          pc_resourceCityId = city, pc_resourceZoneId = zone,
          pc_resourceDriverId = drv, pc_resourceDeliveryId = dlv \<rparr>))))"

definition guard_actor :: "policy_context \<Rightarrow> AuthorizationActor" where
  "guard_actor pc = \<lparr> ac_userId = pc_userId pc, ac_driverId = pc_driverId pc, ac_role = pc_role pc,
     ac_type = None, ac_permissions = Some (pc_permissions pc), ac_cityId = pc_cityId pc,
     ac_zoneId = pc_zoneId pc, ac_isActive = Some (pc_isActive pc) \<rparr>"

definition guard_resource :: "http_request \<Rightarrow> policy_context \<Rightarrow> AuthorizationResourceContext" where
  "guard_resource rq pc = \<lparr> rs_deliveryId = pc_resourceDeliveryId pc, rs_driverId = pc_resourceDriverId pc,
     rs_cityId = pc_resourceCityId pc, rs_zoneId = pc_resourceZoneId pc, rs_path = rq_path rq,
     rs_method = rq_method rq, rs_body = rq_body rq \<rparr>"

record authorization_entry =
  az_actorId :: string
  az_actorRole :: string
  az_action :: string
  az_resource :: string
  az_resourceId :: json
  az_decision :: string
  az_reason :: "string option"
  az_requiredPermissions :: "string list"
  az_cityId :: "string option"
  az_zoneId :: "string option"

definition authorization_entry_of ::
    "http_request \<Rightarrow> policy_context \<Rightarrow> string list \<Rightarrow> string \<Rightarrow> string option \<Rightarrow> authorization_entry" where
  "authorization_entry_of rq pc required decision why =
    \<lparr> az_actorId = or_default (str_or (pc_userId pc) (pc_driverId pc)) ''unknown'',
      az_actorRole = or_default (pc_role pc) ''unknown'',
      az_action = rq_method rq, az_resource = rq_path rq,
      az_resourceId = the (json_or (pc_resourceDeliveryId pc) (json_or (pc_resourceDriverId pc)
        (json_or (pc_resourceCityId pc) (Some (JStr ''unknown''))))),
      az_decision = decision, az_reason = why, az_requiredPermissions = required,
      az_cityId = pc_cityId pc, az_zoneId = pc_zoneId pc \<rparr>"

text \<open>Writing the entry may fail, which is only logged (\<^verbatim>\<open>logFromRequest\<close>).\<close>

definition logAuthorization ::
    "bool \<Rightarrow> authorization_entry \<Rightarrow> authorization_entry list \<Rightarrow> authorization_entry list" where
  "logAuthorization saved e es = (if saved then es @ [e] else es)"

datatype guard_outcome = Granted | Forbidden | Raised string

definition first_denial :: "AuthorizationDecision list \<Rightarrow> string" where
  "first_denial ds = or_default (case find (\<lambda>d. \<not> allowed d) ds of None \<Rightarrow> None | Some d \<Rightarrow> reason d)
     ''INSUFFICIENT_PERMISSIONS''"

definition canActivate ::
    "(json \<Rightarrow> delivery option) \<Rightarrow> bool \<Rightarrow> string list option \<Rightarrow> http_request \<Rightarrow> authorization_entry list
      \<Rightarrow> authorization_entry list \<times> guard_outcome" where
  "canActivate lookup saved required rq es =
    (case required of
        None \<Rightarrow> (es, Granted)
      | Some [] \<Rightarrow> (es, Granted)
      | Some ps \<Rightarrow> (case buildPolicyContext rq of
            Inl e \<Rightarrow> (es, Raised e)
          | Inr pc \<Rightarrow>
              let decisions = map (\<lambda>p. authorize lookup (guard_actor pc) p (guard_resource rq pc)) ps
              in if \<not> list_ex allowed decisions
                 then (logAuthorization saved
                     (authorization_entry_of rq pc ps ''DENY'' (Some (first_denial decisions))) es, Forbidden)
                 else (logAuthorization saved (authorization_entry_of rq pc ps ''ALLOW'' None) es, Granted)))"

section \<open>Context checks and service guards\<close>

record access_context =
  ax_timeOfDay :: int
  ax_deliveryZoneStatus :: string
  ax_weatherAlert :: "string option"

definition canAcceptDeliveries :: "access_context \<Rightarrow> AuthorizationDecision" where
  "canAcceptDeliveries c =
    (if ax_timeOfDay c \<ge> 23 \<or> ax_timeOfDay c < 5 then deny ''OUTSIDE_OPERATING_HOURS''
     else if ax_deliveryZoneStatus c = ''LOCKDOWN'' then deny ''ZONE_LOCKED_DOWN''
     else if ax_weatherAlert c = Some ''SEVERE'' then deny ''WEATHER_ALERT''
     else allow)"

definition canPerformHighRiskOperation :: "string \<Rightarrow> string \<Rightarrow> access_context \<Rightarrow> bool \<times> bool option" where
  "canPerformHighRiskOperation adminRole operation c =
    (if adminRole = ''SUPER_ADMIN'' then (True, Some (operation \<in> {''DELETE_DRIVER'', ''DELETE_ADMIN''}))
     else if operation = ''FORCE_ASSIGN_DRIVER'' \<and> ax_timeOfDay c \<ge> 22 then (False, None)
     else (True, None))"

text \<open>\<^verbatim>\<open>SystemAuthGuard\<close>: the service that is let in, or the error. The secret is the
  configured one, if any.\<close>

definition system_guard :: "string option \<Rightarrow> string option \<Rightarrow> string option \<Rightarrow> string + string \<times> string" where
  "system_guard configured secret serviceToken =
    (if truthy secret then
       (if secret \<noteq> configured then Inl ''Invalid webhook secret'' else Inr (''webhook'', ''driver-service''))
     else if truthy serviceToken then Inr (''service'', ''internal'')
     else Inl ''Missing system authentication'')"

definition vendure_guard :: "string option \<Rightarrow> string option \<Rightarrow> string + unit" where
  "vendure_guard configured header =
    (let secret = (case configured of None \<Rightarrow> [] | Some c \<Rightarrow> c)
     in if \<not> truthy header \<or> header \<noteq> Some secret then Inl ''Invalid service secret'' else Inr ())"

section \<open>Facts\<close>

lemma and_also_allowed [simp]: "allowed (and_also d e) \<longleftrightarrow> allowed d \<and> allowed e"
  by (simp add: and_also_def)

text \<open>What an allowed decision for an ordinary actor has passed.\<close>

lemma authorize_allowed:
  assumes "allowed (authorize lookup actor p rs)"
    and "ac_role actor \<noteq> Some ''SYSTEM''" "ac_type actor \<noteq> Some ''system''" "ac_role actor \<noteq> Some ''SUPER_ADMIN''"
  obtains ps where "ac_permissions actor = Some ps" "p \<in> set ps"
    "allowed (assignment_policy actor p)" "allowed (driver_policy actor p rs)"
    "allowed (delivery_policy lookup actor p rs)" "allowed (evaluateAdminScope actor p rs)"
  using assms by (auto simp: authorize_def split: option.splits if_splits)

lemma driver_policy_own_id:
  assumes "allowed (driver_policy actor p rs)" "starts_with ''driver:'' p"
    and "json_truthy (rs_driverId rs)" "truthy (ac_driverId actor)"
  shows "rs_driverId rs = map_option JStr (ac_driverId actor)"
  using assms by (auto simp: driver_policy_def split: if_splits)

lemma driver_policy_active:
  assumes "allowed (driver_policy actor p rs)" "starts_with ''driver:'' p" "p \<noteq> ''driver:read:own_profile''"
  shows "ac_isActive actor \<noteq> Some False"
  using assms by (auto simp: driver_policy_def split: if_splits)

lemma canActivate_granted:
  assumes "snd (canActivate lookup saved (Some ps) rq es) = Granted" "ps \<noteq> []"
  obtains pc p where "buildPolicyContext rq = Inr pc" "p \<in> set ps"
    "allowed (authorize lookup (guard_actor pc) p (guard_resource rq pc))"
  using assms by (cases ps)
    (auto simp: canActivate_def Let_def list_ex_iff split: sum.splits if_splits)

lemma guard_simps [simp]:
  "ac_role (guard_actor pc) = pc_role pc" "ac_type (guard_actor pc) = None"
  "ac_permissions (guard_actor pc) = Some (pc_permissions pc)" "ac_driverId (guard_actor pc) = pc_driverId pc"
  "ac_userId (guard_actor pc) = pc_userId pc" "ac_cityId (guard_actor pc) = pc_cityId pc"
  "ac_isActive (guard_actor pc) = Some (pc_isActive pc)"
  "rs_driverId (guard_resource rq pc) = pc_resourceDriverId pc"
  "rs_cityId (guard_resource rq pc) = pc_resourceCityId pc"
  "rs_deliveryId (guard_resource rq pc) = pc_resourceDeliveryId pc"
  "rs_body (guard_resource rq pc) = rq_body rq"
  by (simp_all add: guard_actor_def guard_resource_def)

lemma buildPolicyContext_user:
  assumes "buildPolicyContext rq = Inr pc"
  shows "pc_driverId pc = of_user rq u_driverId"
    and "pc_role pc = str_or (of_user rq u_role) (of_user rq u_type)"
    and "pc_cityId pc = of_user rq u_cityId"
    and "pc_isActive pc = (of_user rq u_isActive \<noteq> Some False)"
    and "pc_permissions pc = (case of_user rq u_permissions of None \<Rightarrow> [] | Some ps \<Rightarrow> ps)"
  using assms by (auto simp: buildPolicyContext_def split: sum.splits)

lemma buildPolicyContext_driver:
  assumes "buildPolicyContext rq = Inr pc"
  shows "resource_id rq ''driverId'' (fst (inferred_id rq)) = Inr (pc_resourceDriverId pc)"
  using assms by (auto simp: buildPolicyContext_def split: sum.splits)

lemma inferred_driver:
  assumes "map_of (rq_params rq) ''id'' = Some i" "i \<noteq> []" "map_of (rq_params rq) ''driverId'' = None"
    and "rq_route rq = Some r" "includes_str ''/drivers'' r"
  shows "resource_id rq ''driverId'' (fst (inferred_id rq)) = Inr (Some (JStr i))"
proof -
  have "r \<noteq> []" using assms(5) by auto
  then show ?thesis using assms by (simp add: resource_id_def inferred_id_def or_default_def Let_def)
qed

section \<open>Samples\<close>

definition sample_user :: "string \<Rightarrow> string list \<Rightarrow> auth_user" where
  "sample_user role ps = \<lparr> u_userId = None, u_driverId = Some ''d1'', u_sub = Some ''d1'', u_type = Some ''driver'',
     u_role = Some role, u_email = None, u_permissions = Some ps, u_isActive = Some True, u_status = None,
     u_cityId = Some ''c1'', u_zoneId = None \<rparr>"

definition sample_request :: "auth_user \<Rightarrow> http_request" where
  "sample_request u = \<lparr> rq_params = [(''id'', ''d1'')], rq_route = Some ''/drivers/:id/location'',
     rq_path = ''/drivers/d1/location'', rq_method = ''PATCH'', rq_body = Some (JObj []),
     rq_query = None, rq_user = Some u \<rparr>"

definition sample_actor :: "string \<Rightarrow> string list \<Rightarrow> AuthorizationActor" where
  "sample_actor role ps = \<lparr> ac_userId = None, ac_driverId = Some ''r1'', ac_role = Some role, ac_type = None,
     ac_permissions = Some ps, ac_cityId = Some ''c1'', ac_zoneId = None, ac_isActive = Some True \<rparr>"

definition sample_resource :: "json option \<Rightarrow> AuthorizationResourceContext" where
  "sample_resource body = \<lparr> rs_deliveryId = Some (JStr ''x1''), rs_driverId = None, rs_cityId = None,
     rs_zoneId = None, rs_path = ''/'', rs_method = ''PATCH'', rs_body = body \<rparr>"

lemmas sample_defs = sample_user_def sample_request_def sample_actor_def sample_resource_def

section \<open>Routes of drivers\<close>

text \<open>A request that the guard lets through on a route under \<^verbatim>\<open>/drivers\<close>
  protected by driver permissions, by a driver session that is neither a super
  admin's nor the system's, names the session's own driver id and holds one
  of the required permissions; unless that is reading the profile, the
  session is an active one.\<close>

theorem driver_routes_need_own_id:
  assumes "snd (canActivate lookup saved (Some ps) rq es) = Granted" "ps \<noteq> []"
    and "\<forall>p \<in> set ps. starts_with ''driver:'' p"
    and "rq_user rq = Some u" "u_driverId u = Some d" "d \<noteq> []"
    and "u_role u = Some role" "role \<noteq> []" "role \<noteq> ''SYSTEM''" "role \<noteq> ''SUPER_ADMIN''"
    and "map_of (rq_params rq) ''id'' = Some i" "i \<noteq> []" "map_of (rq_params rq) ''driverId'' = None"
    and "rq_route rq = Some r" "includes_str ''/drivers'' r"
  shows "i = d \<and> (\<exists>p \<in> set ps. (case u_permissions u of None \<Rightarrow> False | Some us \<Rightarrow> p \<in> set us)
    \<and> (p = ''driver:read:own_profile'' \<or> u_isActive u \<noteq> Some False))"
proof -
  obtain pc p where pc: "buildPolicyContext rq = Inr pc" and p: "p \<in> set ps"
    and ok: "allowed (authorize lookup (guard_actor pc) p (guard_resource rq pc))"
    using canActivate_granted[OF assms(1,2)] .
  note user = buildPolicyContext_user[OF pc]
  have role: "pc_role pc = Some role" using user(2) assms(4,7,8) by (simp add: of_user_def str_or_def)
  have d: "pc_driverId pc = Some d" using user(1) assms(4,5) by (simp add: of_user_def)
  have r: "pc_resourceDriverId pc = Some (JStr i)"
    using buildPolicyContext_driver[OF pc] inferred_driver[OF assms(11-15)] by simp
  obtain us where us: "pc_permissions pc = us" "p \<in> set us"
    and drv: "allowed (driver_policy (guard_actor pc) p (guard_resource rq pc))"
    using authorize_allowed[OF ok] role assms(9,10) by auto
  have dp: "starts_with ''driver:'' p" using p assms(3) by blast
  have "i = d" using driver_policy_own_id[OF drv dp] d r assms(6,12) by simp
  moreover have "p = ''driver:read:own_profile'' \<or> u_isActive u \<noteq> Some False"
    using driver_policy_active[OF drv dp] user(4) assms(4) by (auto simp: of_user_def)
  moreover have "case u_permissions u of None \<Rightarrow> False | Some us \<Rightarrow> p \<in> set us"
    using us user(5) assms(4) by (auto simp: of_user_def split: option.splits)
  ultimately show ?thesis using p by blast
qed

lemma driver_routes_need_own_id_witness:
  "snd (canActivate (\<lambda>_. None) True (Some [Permission DRIVER_UPDATE_OWN_LOCATION])
      (sample_request (sample_user ''DRIVER'' [Permission DRIVER_UPDATE_OWN_LOCATION])) []) = Granted
    \<and> ''d1'' = (''d1'' :: string)"
proof -
  let ?rq = "sample_request (sample_user ''DRIVER'' [Permission DRIVER_UPDATE_OWN_LOCATION])"
  have g: "snd (canActivate (\<lambda>_. None) True (Some [Permission DRIVER_UPDATE_OWN_LOCATION]) ?rq []) = Granted"
    by code_simp
  have "''d1'' = (''d1'' :: string)"
    using driver_routes_need_own_id[OF g, of "sample_user ''DRIVER'' [Permission DRIVER_UPDATE_OWN_LOCATION]"
        "''d1''" "''DRIVER''" "''d1''" "''/drivers/:id/location''"]
    by (simp add: sample_defs starts_with_def)
  with g show ?thesis by simp
qed

section \<open>Cities\<close>

text \<open>The city of an admin is compared with nothing but the city the request
  itself names: for a request that names none, the decision is the same for
  an admin of any other city, on whatever delivery.\<close>

theorem admin_city_is_never_compared:
  assumes "truthy (ac_cityId actor)" "truthy (Some c)" "\<not> json_truthy (rs_cityId rs)"
  shows "authorize lookup (actor\<lparr> ac_cityId := Some c \<rparr>) p rs = authorize lookup actor p rs"
proof -
  have "delivery_policy lookup (actor\<lparr> ac_cityId := Some c \<rparr>) p rs = delivery_policy lookup actor p rs"
    by (simp add: delivery_policy_def canPerformAction_def resolveDeliveryCity_def Let_def
        split: option.splits DeliveryAction.splits)
  moreover have "evaluateAdminScope (actor\<lparr> ac_cityId := Some c \<rparr>) p rs = evaluateAdminScope actor p rs"
    using assms by (simp add: evaluateAdminScope_def)
  ultimately show ?thesis
    by (simp add: authorize_def assignment_policy_def driver_policy_def)
qed

lemma admin_city_is_never_compared_witness:
  "authorize (\<lambda>_. None) ((sample_actor ''ADMIN'' [])\<lparr> ac_cityId := Some ''c2'' \<rparr>) ''admin:read:delivery:any''
      (sample_resource None)
    = authorize (\<lambda>_. None) (sample_actor ''ADMIN'' []) ''admin:read:delivery:any'' (sample_resource None)"
  by (rule admin_city_is_never_compared) (simp_all add: sample_defs)

section \<open>Roles\<close>

text \<open>Dispatchers, operations admins and city admins hold the permission to
  read any delivery, and no request of theirs that names a delivery and needs
  a permission on deliveries is ever allowed.\<close>

theorem scoped_roles_never_act:
  assumes "role \<in> {''DISPATCHER'', ''OPS_ADMIN'', ''CITY_ADMIN''}" "ac_role actor = Some role"
    and "ac_type actor \<noteq> Some ''system''"
    and "p \<in> Permission ` {ADMIN_READ_DELIVERY_ANY, ADMIN_CANCEL_DELIVERY, ADMIN_RETRY_DISPATCH,
      ADMIN_FORCE_ASSIGN_DRIVER}"
    and "json_truthy (rs_deliveryId rs)"
  shows "Permission ADMIN_READ_DELIVERY_ANY \<in> set (the (RolePermissions role))
    \<and> \<not> allowed (authorize lookup actor p rs)"
proof
  show "Permission ADMIN_READ_DELIVERY_ANY \<in> set (the (RolePermissions role))"
    using assms(1) by (auto simp: RolePermissions_def)
  have ne: "role \<noteq> ''SYSTEM''" "role \<noteq> ''SUPER_ADMIN''" "role \<noteq> ''ADMIN''" "role \<noteq> ''DRIVER''" "role \<noteq> []"
    using assms(1) by auto
  obtain a where a: "resolveAction p rs = Some a" "a \<in> {VIEW, CANCEL, RETRY, REASSIGN}"
    using assms(4) by (auto simp: resolveAction_def)
  have "\<not> allowed (canPerformAction lookup i role c j a)" for i c j
    using a(2) ne by (auto simp: canPerformAction_def checkViewPermission_def checkCancelPermission_def
        checkRetryPermission_def checkReassignPermission_def split: option.splits)
  then have "\<not> allowed (delivery_policy lookup actor p rs)"
    using a(1) assms(2,5) ne by (simp add: delivery_policy_def Let_def)
  then show "\<not> allowed (authorize lookup actor p rs)"
    using authorize_allowed[of lookup actor p rs] assms(2,3) ne by auto
qed

lemma scoped_roles_never_act_witness:
  "\<not> allowed (authorize (\<lambda>_. Some (sample_delivery FAILED)) (sample_actor ''CITY_ADMIN'' (the (RolePermissions ''CITY_ADMIN'')))
      (Permission ADMIN_RETRY_DISPATCH) (sample_resource None))"
  using scoped_roles_never_act[of "''CITY_ADMIN''" "sample_actor ''CITY_ADMIN'' (the (RolePermissions ''CITY_ADMIN''))"
      "Permission ADMIN_RETRY_DISPATCH" "sample_resource None" "\<lambda>_. Some (sample_delivery FAILED)"]
  by (simp add: sample_defs)

section \<open>Updates by drivers\<close>

text \<open>C25: When a driver's status update to \<^verbatim>\<open>PICKED_UP\<close> or \<^verbatim>\<open>DELIVERED\<close> is authorised,
  the delivery is the driver's own and the state machine of deliveries allows the
  move.\<close>

theorem authorised_updates_follow_machine:
  assumes "allowed (authorize lookup actor (Permission DRIVER_UPDATE_DELIVERY_STATUS) rs)"
    and "ac_role actor = Some ''DRIVER''" "ac_type actor \<noteq> Some ''system''" "ac_driverId actor = Some i" "i \<noteq> []"
    and "rs_deliveryId rs = Some j" "json_truthy (Some j)" "lookup j = Some d"
    and "json_get_opt ''status'' (rs_body rs) = Some (JStr st)" "st = ''PICKED_UP'' \<or> st = ''DELIVERED''"
  shows "dl_driverId d = Some i \<and> mapStringToDeliveryStatus st \<in> set (allowedTransitions (dl_status d))"
proof -
  have "allowed (delivery_policy lookup actor (Permission DRIVER_UPDATE_DELIVERY_STATUS) rs)"
    by (rule authorize_allowed[OF assms(1)]) (use assms(2,3) in auto)
  then have ok: "allowed (canPerformAction lookup i ''DRIVER'' (ac_cityId actor) j
      (if st = ''PICKED_UP'' then PICKUP else DELIVER))"
    using assms(2,4-7,9,10) by (auto simp: delivery_policy_def resolveAction_def str_or_def Let_def)
  show ?thesis
    using assms(10)
  proof
    assume st: "st = ''PICKED_UP''"
    then have "allowed (checkPickupPermission i d)" using ok assms(8) by (simp add: canPerformAction_def)
    then show ?thesis using st
      by (auto simp: checkPickupPermission_def mapStringToDeliveryStatus_def split: if_splits)
  next
    assume st: "st = ''DELIVERED''"
    then have "allowed (checkDeliverPermission i d)" using ok assms(8) by (simp add: canPerformAction_def)
    then show ?thesis using st
      by (auto simp: checkDeliverPermission_def mapStringToDeliveryStatus_def split: if_splits)
  qed
qed

lemma authorised_updates_follow_machine_witness:
  "dl_driverId (sample_delivery ASSIGNED) = Some ''r1''
    \<and> mapStringToDeliveryStatus ''PICKED_UP'' \<in> set (allowedTransitions (dl_status (sample_delivery ASSIGNED)))"
  by (rule authorised_updates_follow_machine[of "\<lambda>_. Some (sample_delivery ASSIGNED)"
        "sample_actor ''DRIVER'' [Permission DRIVER_UPDATE_DELIVERY_STATUS]"
        "sample_resource (Some (JObj [(''status'', JStr ''PICKED_UP'')]))" "''r1''" "JStr ''x1''"])
    (simp_all add: sample_defs sample_delivery_def authorize_def assignment_policy_def driver_policy_def
      delivery_policy_def evaluateAdminScope_def resolveAction_def canPerformAction_def resolveDeliveryCity_def
      checkPickupPermission_def starts_with_def str_or_def json_get_opt_def Let_def)

text \<open>A driver whose delivery is on the way may cancel it, as far as the
  authorisation goes; the state machine refuses.\<close>

lemma in_transit_cancel_is_authorised:
  assumes "dl_driverId d = Some i" "dl_status d = IN_TRANSIT"
  shows "allowed (checkCancelPermission i ''DRIVER'' d) \<and> CANCELLED \<notin> set (allowedTransitions (dl_status d))"
  using assms by (simp add: checkCancelPermission_def)

text \<open>Any non-empty service token is accepted when no webhook secret is sent.\<close>

lemma any_service_token:
  assumes "t \<noteq> []"
  shows "system_guard configured None (Some t) = Inr (''service'', ''internal'')"
  using assms by (simp add: system_guard_def)

end
