(* ===== verification/Auth_Sessions.thy ===== *)
theory Auth_Sessions
  imports Authorization Drivers Js_Regex
begin

text \<open>
  Sessions: the logins, refreshes and logouts of \<^verbatim>\<open>auth/auth.service.ts\<close>, the check
  of a token on every request with its revocation cache (\<^verbatim>\<open>auth/jwt.strategy.ts\<close>)
  and the administrators of \<^verbatim>\<open>shared/admin.service.ts\<close> and
  \<^verbatim>\<open>entities/admin-user.entity.ts\<close>. The token library, the password hash, the random
  numbers and the row the object mapper writes for an entity are in an
  environment record, one for every request, with the time of the request and
  whether Redis answers it.
\<close>

section \<open>State\<close>

record admin_user =
  ad_id :: string
  ad_email :: string
  ad_passwordHash :: string
  ad_role :: string
  ad_isActive :: bool
  ad_cityId :: "string option"
  ad_createdById :: "string option"
  ad_lastLoginAt :: "int option"
  ad_failedLoginAttempts :: nat
  ad_lockedUntil :: "int option"
  ad_updatedAt :: int

record jwt_payload =
  j_sub :: string
  j_type :: string
  j_role :: "string option"
  j_driverId :: "string option"
  j_userId :: "string option"
  j_email :: "string option"
  j_permissions :: "string list option"
  j_isActive :: "bool option"
  j_status :: "string option"
  j_cityId :: "string option"
  j_zoneId :: "string option"
  j_deviceId :: "string option"

record revocation_entry =
  rv_isRevoked :: bool
  rv_expiresAt :: int

text \<open>A key of Redis has its value and the time it expires.\<close>

record auth_state =
  st_drivers :: driver_db
  st_admins :: "admin_user list"
  st_cities :: "string list"
  st_redis :: "string \<Rightarrow> (string \<times> int) option"
  st_cache :: "(string \<times> revocation_entry) list"
  st_mail :: "(string \<times> string) list"

record 'tok auth_env =
  au_drv :: driver_env
  au_redis_up :: bool
  au_mail_up :: bool
  au_sign :: "jwt_payload \<Rightarrow> int \<Rightarrow> int \<Rightarrow> 'tok"
  au_verify :: "'tok \<Rightarrow> int \<Rightarrow> jwt_payload option"
  au_compare :: "string \<Rightarrow> string \<Rightarrow> bool"
  au_hash :: "string \<Rightarrow> string"
  au_row :: "admin_user \<Rightarrow> admin_user \<Rightarrow> admin_user"
  au_new_id :: string
  au_randomInt :: nat
  au_password :: string

abbreviation au_now :: "'tok auth_env \<Rightarrow> int" where
  "au_now E \<equiv> de_now (au_drv E)"

datatype auth_error =
    Auth_Unauthorized string
  | Auth_Not_Found string
  | Auth_Bad_Request string
  | Auth_Bad_Password "string list"
  | Auth_Conflict string
  | Auth_Forbidden string
  | Auth_Redis_Down
  | Auth_Mail_Failed

type_synonym 'a auth_op = "(auth_state, auth_error, 'a) action"

definition find_admin :: "string \<Rightarrow> admin_user list \<Rightarrow> admin_user option" where
  "find_admin i as = lookup_by ad_id i as"

text \<open>\<^verbatim>\<open>save\<close>: the row written for an entity, given the row there is.\<close>

definition save_admin :: "'tok auth_env \<Rightarrow> admin_user \<Rightarrow> auth_state \<Rightarrow> auth_state" where
  "save_admin E a s = s\<lparr> st_admins := save_by ad_id
     (case find_admin (ad_id a) (st_admins s) of None \<Rightarrow> a | Some old \<Rightarrow> au_row E old a) (st_admins s) \<rparr>"

definition redis_get :: "string \<Rightarrow> int \<Rightarrow> auth_state \<Rightarrow> string option" where
  "redis_get k now s = (case st_redis s k of
      None \<Rightarrow> None | Some (v, expires) \<Rightarrow> if now < expires then Some v else None)"

definition redis_set :: "string \<Rightarrow> string \<Rightarrow> int \<Rightarrow> int \<Rightarrow> auth_state \<Rightarrow> auth_state" where
  "redis_set k v secs now s = s\<lparr> st_redis := (st_redis s)(k \<mapsto> (v, now + secs * 1000)) \<rparr>"

definition redis_del :: "string \<Rightarrow> auth_state \<Rightarrow> auth_state" where
  "redis_del k s = s\<lparr> st_redis := (st_redis s)(k := None) \<rparr>"

definition revoked_key :: "string \<Rightarrow> string" where
  "revoked_key i = ''revoked_token:'' @ i"

definition otp_key :: "string \<Rightarrow> string" where
  "otp_key email = ''auth:otp:'' @ email"

section \<open>Administrators\<close>

definition isLocked :: "int \<Rightarrow> admin_user \<Rightarrow> bool" where
  "isLocked now a = (case ad_lockedUntil a of None \<Rightarrow> False | Some t \<Rightarrow> now < t)"

definition recordFailedLogin :: "nat \<Rightarrow> int \<Rightarrow> int \<Rightarrow> admin_user \<Rightarrow> admin_user" where
  "recordFailedLogin maxAttempts lockMs now a =
    (let n = ad_failedLoginAttempts a + 1
     in a\<lparr> ad_failedLoginAttempts := n,
           ad_lockedUntil := (if n \<ge> maxAttempts then Some (now + lockMs) else ad_lockedUntil a) \<rparr>)"

definition resetFailedLoginAttempts :: "admin_user \<Rightarrow> admin_user" where
  "resetFailedLoginAttempts a = a\<lparr> ad_failedLoginAttempts := 0, ad_lockedUntil := None \<rparr>"

definition admin_canAccessCity :: "admin_user \<Rightarrow> string \<Rightarrow> bool" where
  "admin_canAccessCity a c = (ad_role a = ''SUPER_ADMIN'' \<or> ad_cityId a = Some c)"

definition isAdmin_entity :: "admin_user \<Rightarrow> bool" where
  "isAdmin_entity a = (ad_role a \<in> {''ADMIN'', ''SUPER_ADMIN''})"

text \<open>\<^verbatim>\<open>validateAdmin\<close> reads and checks the account, waits for the comparison of the password, and
  saves the account it has read; another login may come between the two parts.\<close>

definition read_login :: "'tok auth_env \<Rightarrow> string \<Rightarrow> auth_state \<Rightarrow> auth_error + admin_user" where
  "read_login E email s = (case lookup_by ad_email email (st_admins s) of
      None \<Rightarrow> Inl (Auth_Not_Found ''Invalid credentials'')
    | Some a \<Rightarrow>
        if \<not> ad_isActive a then Inl (Auth_Bad_Request ''Admin account is disabled'')
        else if isLocked (au_now E) a
          then Inl (Auth_Bad_Request (''Account is locked. Try again after ''
            @ de_ms (au_drv E) (the (ad_lockedUntil a))))
        else Inr a)"

definition finish_login :: "'tok auth_env \<Rightarrow> admin_user \<Rightarrow> string \<Rightarrow> admin_user auth_op" where
  "finish_login E a password s =
    (if \<not> au_compare E password (ad_passwordHash a)
     then (save_admin E (recordFailedLogin 5 (15 * 60 * 1000) (au_now E) a) s,
           Inl (Auth_Bad_Request ''Invalid credentials''))
     else let a' = (resetFailedLoginAttempts a)\<lparr> ad_lastLoginAt := Some (au_now E) \<rparr>
          in (save_admin E a' s, Inr a'))"

definition validateAdmin :: "'tok auth_env \<Rightarrow> string \<Rightarrow> string \<Rightarrow> admin_user auth_op" where
  "validateAdmin E email password s = (case read_login E email s of
      Inl e \<Rightarrow> (s, Inl e)
    | Inr a \<Rightarrow> finish_login E a password s)"

lemmas login_defs = validateAdmin_def read_login_def finish_login_def

definition admin_findById :: "string \<Rightarrow> admin_user auth_op" where
  "admin_findById i s = (case find_admin i (st_admins s) of
      None \<Rightarrow> (s, Inl (Auth_Not_Found (''Admin with ID '' @ i @ '' not found'')))
    | Some a \<Rightarrow> (s, Inr a))"

definition findByEmailSafe :: "string \<Rightarrow> auth_state \<Rightarrow> admin_user option" where
  "findByEmailSafe email s = lookup_by ad_email email (st_admins s)"

definition validatePassword :: "string \<Rightarrow> string list" where
  "validatePassword p =
    (if length p < 8 then [''Password must be at least 8 characters long''] else [])
    @ (if \<not> list_ex (\<lambda>c. let n = (of_char c :: nat) in 97 \<le> n \<and> n \<le> 122) p
       then [''Password must contain at least one lowercase letter''] else [])
    @ (if \<not> list_ex (\<lambda>c. let n = (of_char c :: nat) in 65 \<le> n \<and> n \<le> 90) p
       then [''Password must contain at least one uppercase letter''] else [])
    @ (if \<not> list_ex is_digit p then [''Password must contain at least one number''] else [])
    @ (if \<not> list_ex (\<lambda>c. c \<in> set ''!@#$%^&*'') p
       then [''Password must contain at least one special character''] else [])"

record create_admin =
  cr_email :: string
  cr_password :: string
  cr_role :: string
  cr_cityId :: "string option"

definition create_admin_user :: "'tok auth_env \<Rightarrow> create_admin \<Rightarrow> string option \<Rightarrow> admin_user auth_op" where
  "create_admin_user E dto createdBy s =
    (if lookup_by ad_email (cr_email dto) (st_admins s) \<noteq> None
       then (s, Inl (Auth_Conflict ''Admin with this email already exists''))
     else if validatePassword (cr_password dto) \<noteq> []
       then (s, Inl (Auth_Bad_Password (validatePassword (cr_password dto))))
     else if truthy (cr_cityId dto) \<and> the (cr_cityId dto) \<notin> set (st_cities s)
       then (s, Inl (Auth_Not_Found (''City with ID '' @ the (cr_cityId dto) @ '' not found'')))
     else let a = \<lparr> ad_id = au_new_id E, ad_email = cr_email dto,
              ad_passwordHash = au_hash E (cr_password dto), ad_role = cr_role dto, ad_isActive = True,
              ad_cityId = cr_cityId dto, ad_createdById = createdBy, ad_lastLoginAt = None,
              ad_failedLoginAttempts = 0, ad_lockedUntil = None, ad_updatedAt = au_now E \<rparr>
       in (save_admin E a s, Inr a))"

record update_admin =
  ua_email :: "string option"
  ua_role :: "string option"
  ua_cityId :: "string option"
  ua_isActive :: "bool option"

text \<open>\<^verbatim>\<open>Object.assign(admin, dto)\<close> for the properties the request gives.\<close>

definition assign_dto :: "update_admin \<Rightarrow> admin_user \<Rightarrow> admin_user" where
  "assign_dto dto a = a\<lparr>
     ad_email := (case ua_email dto of None \<Rightarrow> ad_email a | Some v \<Rightarrow> v),
     ad_role := (case ua_role dto of None \<Rightarrow> ad_role a | Some v \<Rightarrow> v),
     ad_cityId := (case ua_cityId dto of None \<Rightarrow> ad_cityId a | Some v \<Rightarrow> Some v),
     ad_isActive := (case ua_isActive dto of None \<Rightarrow> ad_isActive a | Some v \<Rightarrow> v) \<rparr>"

definition needsInvalidation :: "update_admin \<Rightarrow> admin_user \<Rightarrow> bool" where
  "needsInvalidation dto a =
    ((truthy (ua_role dto) \<and> ua_role dto \<noteq> Some (ad_role a))
     \<or> (truthy (ua_cityId dto) \<and> ua_cityId dto \<noteq> ad_cityId a)
     \<or> ua_isActive dto = Some False)"

definition update_admin_user ::
    "'tok auth_env \<Rightarrow> string \<Rightarrow> update_admin \<Rightarrow> auth_user \<Rightarrow> admin_user auth_op" where
  "update_admin_user E i dto updatedBy s = (case find_admin i (st_admins s) of
      None \<Rightarrow> (s, Inl (Auth_Not_Found (''Admin with ID '' @ i @ '' not found'')))
    | Some a \<Rightarrow>
        if u_role updatedBy \<noteq> Some ''SUPER_ADMIN'' \<and> u_cityId updatedBy \<noteq> ad_cityId a
          then (s, Inl (Auth_Bad_Request ''Cannot modify admin users from other cities.''))
        else if u_role updatedBy \<noteq> Some ''SUPER_ADMIN'' \<and> ua_role dto = Some ''SUPER_ADMIN''
          then (s, Inl (Auth_Bad_Request ''Only Super Admins can grant Super Admin privileges.''))
        else if truthy (ua_email dto) \<and> ua_email dto \<noteq> Some (ad_email a)
             \<and> lookup_by ad_email (the (ua_email dto)) (st_admins s) \<noteq> None
          then (s, Inl (Auth_Conflict ''Admin with this email already exists''))
        else if truthy (ua_cityId dto) \<and> the (ua_cityId dto) \<notin> set (st_cities s)
          then (s, Inl (Auth_Not_Found (''City with ID '' @ the (ua_cityId dto) @ '' not found'')))
        else let a' = (assign_dto dto a)\<lparr> ad_updatedAt := au_now E \<rparr>; s1 = save_admin E a' s
          in if \<not> needsInvalidation dto a then (s1, Inr a')
             else if au_redis_up E then (redis_set (revoked_key i) ''true'' 86400 (au_now E) s1, Inr a')
             else (s1, Inl Auth_Redis_Down))"

definition remove_admin :: "'tok auth_env \<Rightarrow> string \<Rightarrow> auth_user \<Rightarrow> unit auth_op" where
  "remove_admin E i deletedBy s = (case find_admin i (st_admins s) of
      None \<Rightarrow> (s, Inl (Auth_Not_Found (''Admin with ID '' @ i @ '' not found'')))
    | Some a \<Rightarrow>
        if u_role deletedBy \<noteq> Some ''SUPER_ADMIN''
          then (s, Inl (Auth_Bad_Request ''Only superadmin can delete admins''))
        else if ad_role a = ''SUPER_ADMIN'' then (s, Inl (Auth_Bad_Request ''Cannot delete superadmin''))
        else (save_admin E (a\<lparr> ad_isActive := False, ad_updatedAt := au_now E \<rparr>) s, Inr ()))"

definition resetPassword :: "'tok auth_env \<Rightarrow> string \<Rightarrow> string option \<Rightarrow> string auth_op" where
  "resetPassword E i newPassword s = (case find_admin i (st_admins s) of
      None \<Rightarrow> (s, Inl (Auth_Not_Found (''Admin with ID '' @ i @ '' not found'')))
    | Some a \<Rightarrow> let p = or_default newPassword (au_password E)
        in (save_admin E (a\<lparr> ad_passwordHash := au_hash E p, ad_updatedAt := au_now E \<rparr>) s, Inr p))"

section \<open>Tokens on requests\<close>

definition CACHE_TTL_MS :: int where
  "CACHE_TTL_MS = 30 * 1000"

definition CACHE_MAX_SIZE :: nat where
  "CACHE_MAX_SIZE = 1000"

text \<open>The entries in the order of insertion, sorted by expiry; the first fifth of
  the limit goes.\<close>

definition evictOldestEntries :: "(string \<times> revocation_entry) list \<Rightarrow> (string \<times> revocation_entry) list" where
  "evictOldestEntries c =
    (let gone = map fst (take (CACHE_MAX_SIZE div 5) (sort_key (rv_expiresAt \<circ> snd) c))
     in filter (\<lambda>e. fst e \<notin> set gone) c)"

definition clearRevocationCache :: "string \<Rightarrow> auth_state \<Rightarrow> auth_state" where
  "clearRevocationCache i s = s\<lparr> st_cache := filter (\<lambda>e. fst e \<noteq> i) (st_cache s) \<rparr>"

definition cache_put :: "string \<Rightarrow> revocation_entry \<Rightarrow> auth_state \<Rightarrow> auth_state" where
  "cache_put i e s = (let c = save_by fst (i, e) (st_cache s)
    in s\<lparr> st_cache := (if length c > CACHE_MAX_SIZE then evictOldestEntries c else c) \<rparr>)"

text \<open>On an error of Redis the answer is no, and is not cached.\<close>

definition ask_redis :: "'tok auth_env \<Rightarrow> string \<Rightarrow> auth_state \<Rightarrow> auth_state \<times> bool" where
  "ask_redis E i s =
    (if \<not> au_redis_up E then (s, False)
     else let r = (redis_get (revoked_key i) (au_now E) s \<noteq> None)
       in (cache_put i \<lparr> rv_isRevoked = r, rv_expiresAt = au_now E + CACHE_TTL_MS \<rparr> s, r))"

definition isTokenRevoked :: "'tok auth_env \<Rightarrow> string \<Rightarrow> auth_state \<Rightarrow> auth_state \<times> bool" where
  "isTokenRevoked E i s =
    (case lookup_by fst i (st_cache s) of
       Some (_, e) \<Rightarrow> if au_now E < rv_expiresAt e then (s, rv_isRevoked e) else ask_redis E i s
     | None \<Rightarrow> ask_redis E i s)"

definition no_user :: auth_user where
  "no_user = \<lparr> u_userId = None, u_driverId = None, u_sub = None, u_type = None, u_role = None, u_email = None,
     u_permissions = None, u_isActive = None, u_status = None, u_cityId = None, u_zoneId = None \<rparr>"

definition perms_or :: "string list option \<Rightarrow> string list option \<Rightarrow> string list option" where
  "perms_or a b = (if a = None then b else a)"

text \<open>Every error of the check, its own included, is wrapped.\<close>

definition validate_token :: "'tok auth_env \<Rightarrow> jwt_payload \<Rightarrow> auth_user auth_op" where
  "validate_token E p s = (let (s1, revoked) = isTokenRevoked E (j_sub p) s in
    if revoked then (s1, Inl (Auth_Unauthorized
      ''Token validation failed: Session invalidated. Please log in again.''))
    else if j_role p = Some ''SYSTEM'' \<or> j_type p = ''system'' then
      (s1, Inr (no_user\<lparr> u_role := Some ''SYSTEM'', u_type := Some ''system'',
         u_sub := Some (or_default (Some (j_sub p)) ''system''),
         u_permissions := perms_or (j_permissions p) (RolePermissions ''SYSTEM'') \<rparr>))
    else if j_type p = ''driver'' then
      (s1, Inr (no_user\<lparr> u_driverId := Some (j_sub p), u_sub := Some (j_sub p), u_type := Some ''driver'',
         u_role := Some (or_default (j_role p) ''DRIVER''), u_email := j_email p,
         u_permissions := perms_or (j_permissions p) (RolePermissions ''DRIVER''),
         u_isActive := j_isActive p, u_status := j_status p, u_cityId := j_cityId p, u_zoneId := j_zoneId p \<rparr>))
    else if j_type p = ''admin'' then
      (s1, Inr (no_user\<lparr> u_userId := Some (j_sub p), u_sub := Some (j_sub p), u_type := Some ''admin'',
         u_role := j_role p, u_email := j_email p, u_permissions := j_permissions p,
         u_isActive := j_isActive p, u_cityId := j_cityId p \<rparr>))
    else (s1, Inl (Auth_Unauthorized ''Token validation failed: Invalid token payload structure'')))"

text \<open>\<^verbatim>\<open>AuthGuard("jwt")\<close>: the library verifies the token, the strategy the session.\<close>

definition jwt_guard :: "'tok auth_env \<Rightarrow> 'tok \<Rightarrow> auth_user auth_op" where
  "jwt_guard E tok s = (case au_verify E tok (au_now E) of
      None \<Rightarrow> (s, Inl (Auth_Unauthorized ''Unauthorized''))
    | Some p \<Rightarrow> validate_token E p s)"

section \<open>Logins\<close>

definition validateDriver :: "string \<Rightarrow> driver auth_op" where
  "validateDriver i s = (case find_driver i (dd_drivers (st_drivers s)) of
      None \<Rightarrow> (s, Inl (Auth_Unauthorized ''Invalid driver''))
    | Some d \<Rightarrow> if \<not> dr_isActive d then (s, Inl (Auth_Unauthorized ''Driver disabled'')) else (s, Inr d))"

definition driver_payload :: "driver \<Rightarrow> string option \<Rightarrow> jwt_payload" where
  "driver_payload d dev = \<lparr> j_sub = dr_id d, j_type = ''driver'', j_role = Some ''DRIVER'',
     j_driverId = Some (dr_id d), j_userId = None, j_email = dr_email d,
     j_permissions = RolePermissions ''DRIVER'', j_isActive = Some (dr_isActive d),
     j_status = Some (driver_status_name (dr_status d)), j_cityId = dr_cityId d, j_zoneId = dr_zoneId d,
     j_deviceId = dev \<rparr>"

definition login :: "'tok auth_env \<Rightarrow> driver \<Rightarrow> string option \<Rightarrow> 'tok \<times> driver" where
  "login E d dev = (au_sign E (driver_payload d dev) (au_now E) (12 * 60 * 60), d)"

definition admin_payload :: "admin_user \<Rightarrow> jwt_payload" where
  "admin_payload a = \<lparr> j_sub = ad_id a, j_type = ''admin'', j_role = Some (ad_role a), j_driverId = None,
     j_userId = Some (ad_id a), j_email = Some (ad_email a),
     j_permissions = perms_or (RolePermissions (ad_role a)) (Some []),
     j_isActive = Some (ad_isActive a), j_status = None, j_cityId = ad_cityId a, j_zoneId = None,
     j_deviceId = None \<rparr>"

definition adminLogin :: "'tok auth_env \<Rightarrow> admin_user \<Rightarrow> 'tok" where
  "adminLogin E a = au_sign E (admin_payload a) (au_now E) (8 * 60 * 60)"

definition adminLoginWithCredentials :: "'tok auth_env \<Rightarrow> string \<Rightarrow> string \<Rightarrow> 'tok auth_op" where
  "adminLoginWithCredentials E email password s = (case validateAdmin E email password s of
      (s', Inl e) \<Rightarrow> (s', Inl e)
    | (s', Inr a) \<Rightarrow> (s', Inr (adminLogin E a)))"

datatype session_user = Driver_User driver | Admin_User admin_user

definition validateUser :: "jwt_payload \<Rightarrow> session_user auth_op" where
  "validateUser p s =
    (if j_type p = ''driver'' \<and> j_driverId p \<noteq> None then
       (case validateDriver (the (j_driverId p)) s of
          (s', Inl e) \<Rightarrow> (s', Inl e) | (s', Inr d) \<Rightarrow> (s', Inr (Driver_User d)))
     else if j_type p = ''admin'' \<and> j_userId p \<noteq> None then
       (case admin_findById (the (j_userId p)) s of
          (s', Inl e) \<Rightarrow> (s', Inl e) | (s', Inr a) \<Rightarrow> (s', Inr (Admin_User a)))
     else (s, Inl (Auth_Unauthorized ''Invalid token'')))"

text \<open>The first component tells whether the driver awaits the approval; the
  identity is what the library verified, if it did.\<close>

record google_user =
  gu_sub :: string
  gu_email :: string
  gu_name :: "string option"

definition google_driver :: "driver_env \<Rightarrow> google_user \<Rightarrow> driver" where
  "google_driver D g = \<lparr> dr_id = de_new_id D,
     dr_name = Some (case gu_name g of None \<Rightarrow> ''Driver'' | Some n \<Rightarrow> n), dr_phone = None,
     dr_email = Some (gu_email g), dr_googleSub = Some (gu_sub g), dr_cityId = None,
     dr_zoneId = None, dr_vehicleType = None, dr_vehicleNumber = None, dr_isActive = False,
     dr_status = AVAILABLE, dr_currentLat = None, dr_currentLon = None, dr_lastActiveAt = None,
     dr_lastLocationUpdateAt = None, dr_lastStatusUpdateAt = None,
     dr_registrationStatus = PROFILE_INCOMPLETE, dr_approvedAt = None, dr_approvedById = None,
     dr_rejectionReason = None \<rparr>"

definition put_auth_driver :: "driver \<Rightarrow> auth_state \<Rightarrow> auth_state" where
  "put_auth_driver d s = s\<lparr> st_drivers := put_driver d (st_drivers s) \<rparr>"

definition loginWithGoogle :: "'tok auth_env \<Rightarrow> google_user option \<Rightarrow> ('tok option \<times> driver) auth_op" where
  "loginWithGoogle E identity s = (case identity of
      None \<Rightarrow> (s, Inl (Auth_Unauthorized ''Google authentication failed''))
    | Some g \<Rightarrow>
        let (s1, d) = (case lookup_by dr_googleSub (Some (gu_sub g)) (dd_drivers (st_drivers s)) of
            Some d \<Rightarrow> (s, d)
          | None \<Rightarrow> let d = google_driver (au_drv E) g in (put_auth_driver d s, d))
        in if \<not> dr_isActive d then (s1, Inr (None, d))
           else (s1, Inr (Some (fst (login E d None)), d)))"

definition requestEmailOtp :: "'tok auth_env \<Rightarrow> string \<Rightarrow> unit auth_op" where
  "requestEmailOtp E email s = (let e = toLowerCase email in
    if findByEmailSafe e s \<noteq> None
      then (s, Inl (Auth_Bad_Request
        ''Admin accounts must use password login. Please use the admin login page.''))
    else if \<not> au_redis_up E then (s, Inl Auth_Redis_Down)
    else let otp = nat_str (au_randomInt E); s1 = redis_set (otp_key e) otp 300 (au_now E) s
      in if au_mail_up E then (s1\<lparr> st_mail := st_mail s1 @ [(email, otp)] \<rparr>, Inr ())
         else (s1, Inl Auth_Mail_Failed))"

record 'tok otp_result =
  ot_token :: 'tok
  ot_driver :: driver
  ot_profileComplete :: bool
  ot_isApproved :: bool

definition verifyEmailOtp :: "'tok auth_env \<Rightarrow> string \<Rightarrow> string \<Rightarrow> 'tok otp_result auth_op" where
  "verifyEmailOtp E email otp s = (let e = toLowerCase email in
    if \<not> au_redis_up E then (s, Inl Auth_Redis_Down)
    else let stored = redis_get (otp_key e) (au_now E) s in
    if \<not> truthy stored \<or> stored \<noteq> Some otp then (s, Inl (Auth_Unauthorized ''Invalid or expired OTP''))
    else let (db, d) = createDriverFromAuth (au_drv E) e None (st_drivers s);
             s1 = redis_del (revoked_key (dr_id d)) (redis_del (otp_key e) (s\<lparr> st_drivers := db \<rparr>))
      in (s1, Inr \<lparr> ot_token = fst (login E d None), ot_driver = d,
            ot_profileComplete = profile_complete d, ot_isApproved = dr_isActive d \<rparr>))"

text \<open>No session is asked for: the address alone names the driver.\<close>

definition registerDriver :: "'tok auth_env \<Rightarrow> string \<Rightarrow> profile_data \<Rightarrow> (driver \<times> bool) auth_op" where
  "registerDriver E email p s = (case lookup_by dr_email (Some (toLowerCase email)) (dd_drivers (st_drivers s)) of
      None \<Rightarrow> (s, Inl (Auth_Unauthorized ''Please verify OTP first before registering''))
    | Some d \<Rightarrow> (case completeProfile (au_drv E) (dr_id d) p (st_drivers s) of
          (db, Inl e) \<Rightarrow> (s\<lparr> st_drivers := db \<rparr>, Inl (Auth_Bad_Request ''Driver not found''))
        | (db, Inr d') \<Rightarrow> (s\<lparr> st_drivers := db \<rparr>, Inr (d', isProfileComplete (dr_id d') db))))"

definition getDriverProfile :: "string \<Rightarrow> driver auth_op" where
  "getDriverProfile i s = (case find_driver i (dd_drivers (st_drivers s)) of
      None \<Rightarrow> (s, Inl (Auth_Not_Found ''Driver not found'')) | Some d \<Rightarrow> (s, Inr d))"

definition refreshToken :: "'tok auth_env \<Rightarrow> auth_user \<Rightarrow> 'tok auth_op" where
  "refreshToken E u s =
    (if u_type u = Some ''driver'' \<and> truthy (u_driverId u) then
       (case find_driver (the (u_driverId u)) (dd_drivers (st_drivers s)) of
          None \<Rightarrow> (s, Inl (Auth_Unauthorized ''Driver not found''))
        | Some d \<Rightarrow> (s, Inr (fst (login E d None))))
     else if u_type u = Some ''admin'' \<and> truthy (u_userId u) then
       (case admin_findById (the (u_userId u)) s of
          (s', Inl e) \<Rightarrow> (s', Inl e)
        | (s', Inr a) \<Rightarrow> (s', Inr (adminLogin E a)))
     else (s, Inl (Auth_Unauthorized ''Invalid token'')))"

definition logout :: "'tok auth_env \<Rightarrow> auth_user \<Rightarrow> unit auth_op" where
  "logout E u s =
    (if u_type u = Some ''driver'' \<and> truthy (u_driverId u) \<and> au_redis_up E then
       (let i = the (u_driverId u);
            s1 = s\<lparr> st_drivers := (st_drivers s)\<lparr> dd_redis := dd_redis (st_drivers s) @ [Mark_Offline i] \<rparr> \<rparr>
        in (redis_set (revoked_key i) ''true'' 86400 (au_now E) s1, Inr ()))
     else (s, Inr ()))"

text \<open>\<^verbatim>\<open>POST /auth/refresh\<close>.\<close>

definition refresh_request :: "'tok auth_env \<Rightarrow> 'tok \<Rightarrow> 'tok auth_op" where
  "refresh_request E tok s = (case jwt_guard E tok s of
      (s1, Inl e) \<Rightarrow> (s1, Inl e)
    | (s1, Inr u) \<Rightarrow> refreshToken E u s1)"

text \<open>\<^verbatim>\<open>POST /auth/login\<close>, with the switch that allows it.\<close>

definition legacy_login :: "'tok auth_env \<Rightarrow> string option \<Rightarrow> string \<Rightarrow> string option \<Rightarrow> ('tok \<times> driver) auth_op" where
  "legacy_login E switch i dev s =
    (if switch \<noteq> Some ''true'' then (s, Inl (Auth_Forbidden
       ''Legacy driverId login is disabled. Use Google login or secure auth flow.''))
     else case validateDriver i s of
        (s', Inl e) \<Rightarrow> (s', Inl e)
      | (s', Inr d) \<Rightarrow> (s', Inr (login E d dev)))"

section \<open>The revocation cache\<close>

definition cache_ok :: "(string \<times> revocation_entry) list \<Rightarrow> bool" where
  "cache_ok c = (distinct (map fst c) \<and> length c \<le> CACHE_MAX_SIZE)"

lemma evict_length:
  assumes "distinct (map fst c)" "CACHE_MAX_SIZE \<le> length c"
  shows "length (evictOldestEntries c) = length c - CACHE_MAX_SIZE div 5"
proof -
  let ?q = "sort_key (rv_expiresAt \<circ> snd) c"
  let ?gone = "take (CACHE_MAX_SIZE div 5) ?q"
  let ?kept = "filter (\<lambda>e. fst e \<notin> set (map fst ?gone)) c"
  have d: "distinct c" "distinct ?gone"
    using assms(1) by (auto simp: distinct_map)
  have sub: "set ?gone \<subseteq> set c" by (metis set_take_subset set_sort)
  have inj: "inj_on fst (set c)" using assms(1) by (simp add: distinct_map)
  have "set ?kept = set c - set ?gone"
    using sub inj by (auto dest: inj_onD)
  then have "length ?kept = card (set c - set ?gone)"
    using d(1) by (metis distinct_card distinct_filter)
  also have "\<dots> = card (set c) - card (set ?gone)"
    using sub by (intro card_Diff_subset) auto
  also have "\<dots> = length c - length ?gone"
    using d by (simp add: distinct_card)
  finally show ?thesis
    using assms(2) by (simp add: evictOldestEntries_def Let_def CACHE_MAX_SIZE_def)
qed

lemma cache_ok_put: "cache_ok (st_cache s) \<Longrightarrow> cache_ok (st_cache (cache_put i e s))"
proof -
  assume ok: "cache_ok (st_cache s)"
  let ?c = "save_by fst (i, e) (st_cache s)"
  have d: "distinct (map fst ?c)" using ok by (simp add: cache_ok_def distinct_save_by)
  have l: "length ?c \<le> Suc CACHE_MAX_SIZE"
    using ok by (simp add: cache_ok_def save_by_def)
  show ?thesis
  proof (cases "length ?c > CACHE_MAX_SIZE")
    case True
    then have "length (evictOldestEntries ?c) \<le> CACHE_MAX_SIZE"
      using evict_length[OF d] l by (simp add: CACHE_MAX_SIZE_def)
    moreover have "distinct (map fst (evictOldestEntries ?c))"
      using d by (simp add: evictOldestEntries_def Let_def distinct_map_filter)
    ultimately show ?thesis using True by (simp add: cache_put_def cache_ok_def Let_def)
  qed (use d in \<open>simp add: cache_put_def cache_ok_def Let_def\<close>)
qed

lemma set_save_by: "set (save_by key r rs) \<subseteq> insert r (set rs)"
  by (auto simp: save_by_def update_rows_def)

lemma set_cache_put: "set (st_cache (cache_put i e s)) \<subseteq> insert (i, e) (set (st_cache s))"
  using set_save_by[of fst "(i, e)" "st_cache s"]
  by (auto simp: cache_put_def evictOldestEntries_def Let_def)

lemma ask_redis_cache: "fst (ask_redis E i s) = s \<or> (\<exists>r. fst (ask_redis E i s)
      = cache_put i \<lparr> rv_isRevoked = r, rv_expiresAt = au_now E + CACHE_TTL_MS \<rparr> s)"
  unfolding ask_redis_def by (cases "au_redis_up E") (simp_all add: Let_def, metis)

lemma isTokenRevoked_state: "fst (isTokenRevoked E i s) = s \<or> fst (isTokenRevoked E i s) = fst (ask_redis E i s)"
  by (simp add: isTokenRevoked_def split: option.split)

lemma isTokenRevoked_cache:
  obtains "fst (isTokenRevoked E i s) = s"
  | r where "fst (isTokenRevoked E i s)
      = cache_put i \<lparr> rv_isRevoked = r, rv_expiresAt = au_now E + CACHE_TTL_MS \<rparr> s"
  using isTokenRevoked_state[of E i s] ask_redis_cache[of E i s] by metis

lemma jwt_guard_state: "fst (jwt_guard E tok s) = (case au_verify E tok (au_now E) of
    None \<Rightarrow> s | Some p \<Rightarrow> fst (isTokenRevoked E (j_sub p) s))"
  by (auto simp: jwt_guard_def validate_token_def Let_def split: option.splits prod.splits)

fun run_guards :: "('tok auth_env \<times> 'tok) list \<Rightarrow> auth_state \<Rightarrow> auth_state" where
  "run_guards [] s = s"
| "run_guards ((E, tok) # rs) s = run_guards rs (fst (jwt_guard E tok s))"

definition cache_within :: "int \<Rightarrow> (string \<times> revocation_entry) list \<Rightarrow> bool" where
  "cache_within t c = (\<forall>e \<in> set c. rv_expiresAt (snd e) \<le> t + CACHE_TTL_MS)"

lemma jwt_guard_cache:
  assumes "cache_ok (st_cache s)" "cache_within t (st_cache s)" "au_now E \<le> t"
  shows "cache_ok (st_cache (fst (jwt_guard E tok s))) \<and> cache_within t (st_cache (fst (jwt_guard E tok s)))"
proof (cases "au_verify E tok (au_now E)")
  case (Some p)
  show ?thesis
  proof (cases rule: isTokenRevoked_cache[of E "j_sub p" s])
    case 1
    then show ?thesis using Some assms by (simp add: jwt_guard_state)
  next
    case (2 r)
    then have "fst (jwt_guard E tok s)
        = cache_put (j_sub p) \<lparr> rv_isRevoked = r, rv_expiresAt = au_now E + CACHE_TTL_MS \<rparr> s"
      using Some by (simp add: jwt_guard_state)
    then show ?thesis
      using assms cache_ok_put set_cache_put[of "j_sub p" "\<lparr> rv_isRevoked = r, rv_expiresAt = au_now E + CACHE_TTL_MS \<rparr>" s]
      by (auto simp: cache_within_def)
  qed
qed (use assms in \<open>simp add: jwt_guard_state\<close>)

text \<open>However many sessions send requests, the revocation cache, empty at first,
  never holds more than its limit, and no verdict in it is kept for longer than
  thirty seconds after the last request.\<close>

theorem revocation_cache_bounded:
  assumes "st_cache s = []" "\<forall>r \<in> set rs. au_now (fst r) \<le> t"
  shows "length (st_cache (run_guards rs s)) \<le> 1000
    \<and> (\<forall>e \<in> set (st_cache (run_guards rs s)). rv_expiresAt (snd e) \<le> t + 30000)"
proof -
  have "cache_ok (st_cache s) \<and> cache_within t (st_cache s)"
    using assms(1) by (simp add: cache_ok_def cache_within_def)
  then have "cache_ok (st_cache (run_guards rs s)) \<and> cache_within t (st_cache (run_guards rs s))"
    using assms(2)
  proof (induction rs arbitrary: s)
    case (Cons r rs)
    obtain E tok where r: "r = (E, tok)" by (cases r)
    show ?case using Cons.IH[of "fst (jwt_guard E tok s)"] Cons.prems jwt_guard_cache[of s t E tok] r by simp
  qed simp
  then show ?thesis by (simp add: cache_ok_def cache_within_def CACHE_MAX_SIZE_def CACHE_TTL_MS_def)
qed

section \<open>The lock of an account\<close>

text \<open>The row written for an entity is the entity, except that a property that is
  \<^verbatim>\<open>undefined\<close> is not written.\<close>

definition row_ok :: "'tok auth_env \<Rightarrow> bool" where
  "row_ok E = (\<forall>old a. au_row E old a = a
     \<or> (ad_lockedUntil a = None \<and> au_row E old a = a\<lparr> ad_lockedUntil := ad_lockedUntil old \<rparr>))"

lemma lookup_save_same_row:
  assumes "lookup_by k v rs = Some a" "key a' = key a" "k a' = k a" "distinct (map key rs)"
  shows "lookup_by k v (save_by key a' rs) = Some a'"
proof -
  have a: "a \<in> set rs" "k a = v" using lookup_by_SomeD[OF assms(1)] by auto
  have "save_by key a' rs = map (\<lambda>q. if key q = key a' then a' else q) rs"
    using a assms(2) by (intro save_by_present) auto
  moreover have "lookup_by k v (map (\<lambda>q. if key q = key a' then a' else q) rs) = Some a'"
    using assms(1,4)
  proof (induction rs)
    case (Cons r rs)
    show ?case
    proof (cases "k r = v")
      case True
      then show ?thesis using Cons.prems(1) assms(2,3) by simp
    next
      case False
      then have "lookup_by k v rs = Some a" using Cons.prems(1) by simp
      moreover from this have "key r \<noteq> key a" using Cons.prems(2) lookup_by_SomeD[of k v rs a] by auto
      ultimately show ?thesis using Cons False assms(2) by simp
    qed
  qed simp
  ultimately show ?thesis by simp
qed

lemma distinct_save_admin:
  "distinct (map ad_id (st_admins s)) \<Longrightarrow> distinct (map ad_id (st_admins (save_admin E a s)))"
  by (simp add: save_admin_def distinct_save_by)

definition written_row :: "'tok auth_env \<Rightarrow> admin_user \<Rightarrow> auth_state \<Rightarrow> admin_user" where
  "written_row E a s = (case find_admin (ad_id a) (st_admins s) of None \<Rightarrow> a | Some old \<Rightarrow> au_row E old a)"

lemma st_admins_save: "st_admins (save_admin E a s) = save_by ad_id (written_row E a s) (st_admins s)"
  by (simp add: save_admin_def written_row_def)

lemma lookup_email_save_admin:
  assumes "lookup_by ad_email email (st_admins s) = Some a" "distinct (map ad_id (st_admins s))"
    and "ad_id a' = ad_id a" "ad_email a' = ad_email a" "row_ok E"
  shows "lookup_by ad_email email (st_admins (save_admin E a' s)) = Some (au_row E a a')"
proof -
  have f: "find_admin (ad_id a') (st_admins s) = Some a"
    using lookup_by_SomeD[OF assms(1)] lookup_by_distinct[OF assms(2)] assms(3) by (simp add: find_admin_def)
  have r: "ad_id (au_row E a a') = ad_id a" "ad_email (au_row E a a') = ad_email a"
    using assms(3-5) unfolding row_ok_def by (metis admin_user.select_convs(1) admin_user.surjective
        admin_user.update_convs(10), metis admin_user.select_convs(2) admin_user.surjective admin_user.update_convs(10))
  show ?thesis
    using lookup_save_same_row[OF assms(1) _ _ assms(2), of "au_row E a a'"] r f
    by (simp add: st_admins_save written_row_def)
qed

text \<open>Logins one after the other, with what each of them answers.\<close>

fun attempts :: "('tok auth_env \<times> string) list \<Rightarrow> string \<Rightarrow> auth_state \<Rightarrow>
    auth_state \<times> (auth_error + admin_user) list" where
  "attempts [] email s = (s, [])"
| "attempts ((E, pw) # as) email s =
    (let (s1, r) = validateAdmin E email pw s; (s2, rs) = attempts as email s1 in (s2, r # rs))"

definition guess :: "auth_error + admin_user \<Rightarrow> bool" where
  "guess r = (r = Inl (Auth_Bad_Request ''Invalid credentials''))"

definition lock_inv :: "int \<Rightarrow> int \<Rightarrow> admin_user \<Rightarrow> bool" where
  "lock_inv t0 t1 a = (ad_failedLoginAttempts a \<ge> 5 \<longrightarrow> (\<exists>l. ad_lockedUntil a = Some l
     \<and> t0 + (int (ad_failedLoginAttempts a) - 4) * 900000 \<le> l \<and> l \<le> t1 + 900000))"

lemma recordFailedLogin_simps [simp]:
  "ad_id (recordFailedLogin n ms t a) = ad_id a" "ad_email (recordFailedLogin n ms t a) = ad_email a"
  "ad_passwordHash (recordFailedLogin n ms t a) = ad_passwordHash a"
  "ad_failedLoginAttempts (recordFailedLogin n ms t a) = ad_failedLoginAttempts a + 1"
  by (simp_all add: recordFailedLogin_def Let_def)

lemma row_of_failed_login:
  assumes "row_ok E"
  shows "au_row E a (recordFailedLogin n ms t a) = recordFailedLogin n ms t a"
  using assms[unfolded row_ok_def, rule_format, of a "recordFailedLogin n ms t a"]
  by (auto simp: recordFailedLogin_def Let_def split: if_splits)

lemma failed_login_lock_inv:
  assumes "lock_inv t0 t1 a" "\<not> isLocked t a" "t0 \<le> t" "t \<le> t1"
  shows "lock_inv t0 t1 (recordFailedLogin 5 900000 t a)"
proof (cases "ad_failedLoginAttempts a \<ge> 5")
  case True
  then obtain l where "ad_lockedUntil a = Some l"
      "t0 + (int (ad_failedLoginAttempts a) - 4) * 900000 \<le> l"
    using assms(1) unfolding lock_inv_def by blast
  moreover from this have "l \<le> t" using assms(2) by (simp add: isLocked_def)
  ultimately show ?thesis using assms(4) True by (simp add: lock_inv_def recordFailedLogin_def Let_def)
next
  case False
  then show ?thesis using assms(3,4) by (auto simp: lock_inv_def recordFailedLogin_def Let_def)
qed

lemma wrong_login_step:
  assumes "lookup_by ad_email email (st_admins s) = Some a" "distinct (map ad_id (st_admins s))"
    and "\<not> au_compare E pw (ad_passwordHash a)" "row_ok E" "lock_inv t0 t1 a" "t0 \<le> au_now E" "au_now E \<le> t1"
    and "validateAdmin E email pw s = (s', r)"
  shows "\<exists>b. lookup_by ad_email email (st_admins s') = Some b \<and> distinct (map ad_id (st_admins s'))
    \<and> ad_passwordHash b = ad_passwordHash a \<and> lock_inv t0 t1 b
    \<and> ad_failedLoginAttempts b = ad_failedLoginAttempts a + (if guess r then 1 else 0)"
proof (cases "ad_isActive a \<and> \<not> isLocked (au_now E) a")
  case True
  let ?b = "recordFailedLogin 5 900000 (au_now E) a"
  have s': "s' = save_admin E ?b s" "guess r"
    using assms(1,3,8) True by (auto simp: login_defs guess_def)
  have "lookup_by ad_email email (st_admins s') = Some ?b"
    using lookup_email_save_admin[OF assms(1,2) _ _ assms(4), of ?b] row_of_failed_login[OF assms(4)] s'(1)
    by simp
  moreover have "lock_inv t0 t1 ?b" using failed_login_lock_inv assms(5-7) True by blast
  ultimately show ?thesis using s' distinct_save_admin[OF assms(2)] by auto
next
  case False
  then have "s' = s" "\<not> guess r"
    using assms(1,8) by (auto simp: login_defs guess_def split: if_splits)
  then show ?thesis using assms(1,2,5) by auto
qed

lemma attempts_lock_inv:
  assumes "lookup_by ad_email email (st_admins s) = Some a" "distinct (map ad_id (st_admins s))"
    and "\<forall>x \<in> set as. \<not> au_compare (fst x) (snd x) (ad_passwordHash a) \<and> row_ok (fst x)
      \<and> t0 \<le> au_now (fst x) \<and> au_now (fst x) \<le> t1"
    and "lock_inv t0 t1 a"
  shows "\<exists>b. lock_inv t0 t1 b \<and> ad_failedLoginAttempts b
    = ad_failedLoginAttempts a + length (filter guess (snd (attempts as email s)))"
  using assms
proof (induction as arbitrary: s a)
  case (Cons x as)
  obtain E pw where x: "x = (E, pw)" by (cases x)
  obtain s' r where v: "validateAdmin E email pw s = (s', r)" by fastforce
  obtain b where b: "lookup_by ad_email email (st_admins s') = Some b" "distinct (map ad_id (st_admins s'))"
      "ad_passwordHash b = ad_passwordHash a" "lock_inv t0 t1 b"
      "ad_failedLoginAttempts b = ad_failedLoginAttempts a + (if guess r then 1 else 0)"
    using wrong_login_step[OF Cons.prems(1,2) _ _ Cons.prems(4) _ _ v] Cons.prems(3) x by auto
  then obtain c where "lock_inv t0 t1 c" "ad_failedLoginAttempts c
      = ad_failedLoginAttempts b + length (filter guess (snd (attempts as email s')))"
    using Cons.IH[OF b(1,2) _ b(4)] Cons.prems(3) by auto
  then show ?case using b(5) v x by (auto simp: Let_def split: prod.splits)
qed auto

text \<open>C27: When wrong passwords are tried one after another for an account that starts
  without failures, each try ending before the next one starts and none of them right, then
  at most five are compared with the stored one, and one more for every quarter
  of an hour that passes, whenever they are sent.\<close>

theorem lockout_bounds_guesses:
  assumes "lookup_by ad_email email (st_admins s) = Some a" "distinct (map ad_id (st_admins s))"
    and "ad_failedLoginAttempts a = 0" "t0 \<le> t1"
    and "\<forall>x \<in> set as. \<not> au_compare (fst x) (snd x) (ad_passwordHash a) \<and> row_ok (fst x)
      \<and> t0 \<le> au_now (fst x) \<and> au_now (fst x) \<le> t1"
  shows "int (length (filter guess (snd (attempts as email s)))) \<le> 5 + (t1 - t0) div 900000"
proof -
  have "lock_inv t0 t1 a" using assms(3) by (simp add: lock_inv_def)
  then obtain b where b: "lock_inv t0 t1 b"
      "ad_failedLoginAttempts b = length (filter guess (snd (attempts as email s)))"
    using attempts_lock_inv[OF assms(1,2,5)] assms(3) by auto
  show ?thesis
  proof (cases "ad_failedLoginAttempts b \<ge> 5")
    case True
    then have "(int (ad_failedLoginAttempts b) - 5) * 900000 \<le> t1 - t0"
      using b(1) by (auto simp: lock_inv_def)
    then have "int (ad_failedLoginAttempts b) - 5 \<le> (t1 - t0) div 900000"
      using zdiv_mono1[of "(int (ad_failedLoginAttempts b) - 5) * 900000" "t1 - t0" 900000] by simp
    then show ?thesis using b(2) by simp
  next
    case False
    then show ?thesis using b(2) assms(4) by (simp add: pos_imp_zdiv_nonneg_iff)
  qed
qed

section \<open>Logins that overlap\<close>

text \<open>The reads and the ends of logins for one account, in any order: \<^verbatim>\<open>pend\<close> holds the
  accounts that logins under way have read. The answers are listed in the order in
  which they are given.\<close>

datatype login_step = Login_Reads nat | Login_Ends nat

fun run_logins :: "(nat \<Rightarrow> 'tok auth_env) \<Rightarrow> (nat \<Rightarrow> string) \<Rightarrow> string \<Rightarrow> login_step list \<Rightarrow> (nat \<Rightarrow> admin_user option)
    \<Rightarrow> auth_state \<Rightarrow> auth_state \<times> (auth_error + admin_user) list" where
  "run_logins Es pws email [] pend s = (s, [])"
| "run_logins Es pws email (Login_Reads k # xs) pend s = (case read_login (Es k) email s of
      Inl e \<Rightarrow> (let (s', rs) = run_logins Es pws email xs pend s in (s', Inl e # rs))
    | Inr a \<Rightarrow> run_logins Es pws email xs (pend(k \<mapsto> a)) s)"
| "run_logins Es pws email (Login_Ends k # xs) pend s = (case pend k of
      None \<Rightarrow> run_logins Es pws email xs pend s
    | Some a \<Rightarrow> (let (s1, r) = finish_login (Es k) a (pws k) s;
                     (s', rs) = run_logins Es pws email xs (pend(k := None)) s1 in (s', r # rs)))"

text \<open>Logins that do not overlap are the attempts above.\<close>

lemma sequential_logins:
  assumes "\<And>k. pend k = None"
  shows "run_logins Es pws email (concat (map (\<lambda>k. [Login_Reads k, Login_Ends k]) ks)) pend s
    = attempts (map (\<lambda>k. (Es k, pws k)) ks) email s"
  using assms
proof (induction ks arbitrary: s pend)
  case (Cons k ks)
  have p: "pend(k := None) = pend" using Cons.prems by (simp add: fun_upd_idem)
  show ?case using Cons by (auto simp: validateAdmin_def p Let_def split: sum.splits prod.splits)
qed simp

lemma logins_read:
  assumes "\<And>k. k \<in> set ks \<Longrightarrow> read_login (Es k) email s = Inr a"
  shows "run_logins Es pws email (map Login_Reads ks @ xs) pend s
    = run_logins Es pws email xs (\<lambda>k. if k \<in> set ks then Some a else pend k) s"
  using assms
proof (induction ks arbitrary: pend)
  case (Cons k ks)
  have e: "(\<lambda>i. if i \<in> set ks then Some a else (pend(k \<mapsto> a)) i) = (\<lambda>i. if i \<in> set (k # ks) then Some a else pend i)"
    by auto
  have "run_logins Es pws email (map Login_Reads ks @ xs) (pend(k \<mapsto> a)) s
      = run_logins Es pws email xs (\<lambda>i. if i \<in> set ks then Some a else (pend(k \<mapsto> a)) i) s"
    by (rule Cons.IH) (use Cons.prems in simp)
  then show ?case unfolding e using Cons.prems by simp
qed simp

lemma failed_row_fields:
  assumes "row_ok E"
  shows "ad_id (au_row E b (recordFailedLogin n ms t a)) = ad_id a"
    "ad_email (au_row E b (recordFailedLogin n ms t a)) = ad_email a"
    "ad_failedLoginAttempts (au_row E b (recordFailedLogin n ms t a)) = ad_failedLoginAttempts a + 1"
  using assms[unfolded row_ok_def, rule_format, of b "recordFailedLogin n ms t a"] by auto

lemma logins_end:
  assumes "\<And>k. k \<in> set ks \<Longrightarrow> pend k = Some a \<and> \<not> au_compare (Es k) (pws k) (ad_passwordHash a) \<and> row_ok (Es k)"
    and "distinct ks" "lookup_by ad_email email (st_admins s) = Some b" "distinct (map ad_id (st_admins s))"
    and "ad_id b = ad_id a" "ad_email b = ad_email a"
  shows "\<exists>s' c. run_logins Es pws email (map Login_Ends ks) pend s
      = (s', replicate (length ks) (Inl (Auth_Bad_Request ''Invalid credentials'')))
    \<and> lookup_by ad_email email (st_admins s') = Some c
    \<and> ad_failedLoginAttempts c = (if ks = [] then ad_failedLoginAttempts b else ad_failedLoginAttempts a + 1)"
  using assms
proof (induction ks arbitrary: pend s b)
  case (Cons k ks)
  let ?f = "recordFailedLogin 5 900000 (au_now (Es k)) a"
  let ?s1 = "save_admin (Es k) ?f s" and ?c = "au_row (Es k) b ?f"
  have k: "pend k = Some a" "\<not> au_compare (Es k) (pws k) (ad_passwordHash a)" "row_ok (Es k)"
    using Cons.prems(1)[of k] by auto
  have f: "finish_login (Es k) a (pws k) s = (?s1, Inl (Auth_Bad_Request ''Invalid credentials''))"
    using k(2) by (simp add: finish_login_def)
  have l: "lookup_by ad_email email (st_admins ?s1) = Some ?c"
    using lookup_email_save_admin[OF Cons.prems(3,4) _ _ k(3), of ?f] Cons.prems(5,6) by simp
  have "\<exists>s' c. run_logins Es pws email (map Login_Ends ks) (pend(k := None)) ?s1
      = (s', replicate (length ks) (Inl (Auth_Bad_Request ''Invalid credentials'')))
    \<and> lookup_by ad_email email (st_admins s') = Some c
    \<and> ad_failedLoginAttempts c = (if ks = [] then ad_failedLoginAttempts ?c else ad_failedLoginAttempts a + 1)"
    using Cons.prems(1,2) by (intro Cons.IH l distinct_save_admin Cons.prems(4)) (auto simp: failed_row_fields k(3))
  then show ?case using k f failed_row_fields(3)[OF k(3)] by (auto simp: Let_def)
qed auto

text \<open>Logins that overlap escape the lock: when any number of wrong passwords is sent at once, so that every
  login reads the account before the first of them ends, all of them are compared with the
  stored password, and the account counts one failure more.\<close>

theorem overlapping_guesses_escape:
  assumes "lookup_by ad_email email (st_admins s) = Some a" "distinct (map ad_id (st_admins s))" "ad_isActive a" "0 < n"
    and "\<And>k. k < n \<Longrightarrow> \<not> isLocked (au_now (Es k)) a \<and> \<not> au_compare (Es k) (pws k) (ad_passwordHash a) \<and> row_ok (Es k)"
  shows "\<exists>s' c. run_logins Es pws email (map Login_Reads [0..<n] @ map Login_Ends [0..<n]) (\<lambda>_. None) s
      = (s', replicate n (Inl (Auth_Bad_Request ''Invalid credentials'')))
    \<and> lookup_by ad_email email (st_admins s') = Some c \<and> ad_failedLoginAttempts c = ad_failedLoginAttempts a + 1"
proof -
  have "read_login (Es k) email s = Inr a" if "k \<in> set [0..<n]" for k
    using that assms(1,3,5) by (simp add: read_login_def)
  then have r: "run_logins Es pws email (map Login_Reads [0..<n] @ map Login_Ends [0..<n]) (\<lambda>_. None) s
      = run_logins Es pws email (map Login_Ends [0..<n]) (\<lambda>k. if k \<in> set [0..<n] then Some a else None) s"
    by (rule logins_read)
  have "\<exists>s' c. run_logins Es pws email (map Login_Ends [0..<n]) (\<lambda>k. if k \<in> set [0..<n] then Some a else None) s
      = (s', replicate (length [0..<n]) (Inl (Auth_Bad_Request ''Invalid credentials'')))
    \<and> lookup_by ad_email email (st_admins s') = Some c
    \<and> ad_failedLoginAttempts c = (if [0..<n] = [] then ad_failedLoginAttempts a else ad_failedLoginAttempts a + 1)"
    using assms(5) by (intro logins_end[OF _ distinct_upt assms(1,2)]) auto
  then show ?thesis using r assms(4) by simp
qed

section \<open>Revocation\<close>

text \<open>What is used of the token library: a signed token gives its payload back
  until a second before it expires, and nothing once it has expired.\<close>

definition token_ok :: "(jwt_payload \<Rightarrow> int \<Rightarrow> int \<Rightarrow> 'tok) \<Rightarrow> ('tok \<Rightarrow> int \<Rightarrow> jwt_payload option) \<Rightarrow> bool" where
  "token_ok sign verify = (\<forall>p t secs t'.
     (t \<le> t' \<and> t' < t + secs * 1000 - 1000 \<longrightarrow> verify (sign p t secs) t' = Some p)
     \<and> (t + secs * 1000 \<le> t' \<longrightarrow> verify (sign p t secs) t' = None))"

lemma token_okD:
  "token_ok sign verify \<Longrightarrow> t \<le> t' \<Longrightarrow> t' < t + secs * 1000 - 1000 \<Longrightarrow> verify (sign p t secs) t' = Some p"
  by (simp add: token_ok_def)

lemma lookup_fst: "lookup_by fst i c = Some (j, e) \<Longrightarrow> j = i \<and> (i, e) \<in> set c"
  by (auto dest: lookup_by_SomeD)

definition not_revoked :: "string \<Rightarrow> auth_state \<Rightarrow> bool" where
  "not_revoked i s = (st_redis s (revoked_key i) = None \<and> (\<forall>e. (i, e) \<in> set (st_cache s) \<longrightarrow> \<not> rv_isRevoked e))"

lemma cache_put_other [simp]:
  "st_redis (cache_put i e s) = st_redis s" "st_admins (cache_put i e s) = st_admins s"
  "st_drivers (cache_put i e s) = st_drivers s"
  by (simp_all add: cache_put_def Let_def)

lemma isTokenRevoked_other [simp]:
  "st_redis (fst (isTokenRevoked E i s)) = st_redis s" "st_admins (fst (isTokenRevoked E i s)) = st_admins s"
  "st_drivers (fst (isTokenRevoked E i s)) = st_drivers s"
  using isTokenRevoked_cache[of E i s] by (metis cache_put_other)+

lemma ask_redis_not_revoked:
  assumes "not_revoked i s"
  shows "\<not> snd (ask_redis E i s)" "not_revoked i (fst (ask_redis E i s))"
proof -
  have g: "redis_get (revoked_key i) (au_now E) s = None"
    using assms by (simp add: not_revoked_def redis_get_def)
  then show "\<not> snd (ask_redis E i s)" by (simp add: ask_redis_def Let_def)
  show "not_revoked i (fst (ask_redis E i s))"
    using assms g set_cache_put[of i "\<lparr> rv_isRevoked = False, rv_expiresAt = au_now E + CACHE_TTL_MS \<rparr>" s]
    by (auto simp: ask_redis_def not_revoked_def Let_def)
qed

lemma isTokenRevoked_not_revoked:
  assumes "not_revoked i s"
  shows "\<not> snd (isTokenRevoked E i s)" "not_revoked i (fst (isTokenRevoked E i s))"
proof -
  have "\<not> snd (isTokenRevoked E i s) \<and> not_revoked i (fst (isTokenRevoked E i s))"
  proof (cases "lookup_by fst i (st_cache s)")
    case (Some x)
    then obtain e where "x = (i, e)" "(i, e) \<in> set (st_cache s)" using lookup_fst by (metis surj_pair)
    then show ?thesis using Some assms ask_redis_not_revoked[OF assms, of E]
      by (simp add: isTokenRevoked_def not_revoked_def)
  qed (use ask_redis_not_revoked[OF assms, of E] in \<open>simp add: isTokenRevoked_def\<close>)
  then show "\<not> snd (isTokenRevoked E i s)" "not_revoked i (fst (isTokenRevoked E i s))" by simp_all
qed

text \<open>A session refreshed again and again, each time before its token expires.\<close>

fun refresh_chain :: "'tok auth_env list \<Rightarrow> 'tok \<Rightarrow> auth_state \<Rightarrow> auth_state \<times> 'tok option" where
  "refresh_chain [] tok s = (s, Some tok)"
| "refresh_chain (E # Es) tok s = (case refresh_request E tok s of
      (s1, Inl e) \<Rightarrow> (s1, None)
    | (s1, Inr tok') \<Rightarrow> refresh_chain Es tok' s1)"

fun in_time :: "(jwt_payload \<Rightarrow> int \<Rightarrow> int \<Rightarrow> 'tok) \<Rightarrow> ('tok \<Rightarrow> int \<Rightarrow> jwt_payload option) \<Rightarrow> int \<Rightarrow> 'tok auth_env list \<Rightarrow> bool" where
  "in_time sign verify t [] = True"
| "in_time sign verify t (E # Es) = (t \<le> au_now E \<and> au_now E < t + 8 * 60 * 60 * 1000 - 1000
     \<and> au_sign E = sign \<and> au_verify E = verify \<and> in_time sign verify (au_now E) Es)"

lemma validate_admin_token:
  assumes "not_revoked (ad_id a) s" "ad_role a \<noteq> ''SYSTEM''"
  shows "\<exists>u. validate_token E (admin_payload a) s = (fst (isTokenRevoked E (ad_id a) s), Inr u)
    \<and> u_type u = Some ''admin'' \<and> u_userId u = Some (ad_id a)"
proof -
  have "\<not> snd (isTokenRevoked E (ad_id a) s)" by (rule isTokenRevoked_not_revoked[OF assms(1)])
  then show ?thesis using assms(2)
    by (cases "isTokenRevoked E (ad_id a) s") (simp add: validate_token_def admin_payload_def no_user_def)
qed

lemma refresh_admin:
  assumes "not_revoked (ad_id a) s" "ad_role a \<noteq> ''SYSTEM''" "ad_id a \<noteq> []"
    and "au_verify E tok (au_now E) = Some (admin_payload a)" "find_admin (ad_id a) (st_admins s) = Some b"
  shows "refresh_request E tok s = (fst (isTokenRevoked E (ad_id a) s), Inr (adminLogin E b))"
proof -
  obtain u where "validate_token E (admin_payload a) s = (fst (isTokenRevoked E (ad_id a) s), Inr u)"
      "u_type u = Some ''admin''" "u_userId u = Some (ad_id a)"
    using validate_admin_token[OF assms(1,2)] by blast
  then show ?thesis
    using assms(3-5) by (simp add: refresh_request_def jwt_guard_def refreshToken_def admin_findById_def)
qed

lemma refresh_chain_goes_on:
  assumes "token_ok sign verify" "not_revoked i s" "i \<noteq> []" "find_admin i (st_admins s) = Some b"
    and "ad_role b \<noteq> ''SYSTEM''" "ad_id a = i" "ad_role a \<noteq> ''SYSTEM''"
    and "in_time sign verify t Es"
  shows "snd (refresh_chain Es (sign (admin_payload a) t (8 * 60 * 60)) s) \<noteq> None"
  using assms
proof (induction Es arbitrary: s t a)
  case (Cons E Es)
  let ?tok = "sign (admin_payload a) t (8 * 60 * 60)"
  have v: "au_verify E ?tok (au_now E) = Some (admin_payload a)"
    using Cons.prems(8) token_okD[OF Cons.prems(1)] by simp
  have bi: "ad_id b = i" using Cons.prems(4) lookup_by_SomeD by (force simp: find_admin_def)
  have "refresh_request E ?tok s = (fst (isTokenRevoked E i s), Inr (adminLogin E b))"
    using refresh_admin[OF _ _ _ v] Cons.prems by simp
  moreover have "snd (refresh_chain Es (sign (admin_payload b) (au_now E) (8 * 60 * 60))
      (fst (isTokenRevoked E i s))) \<noteq> None"
    by (rule Cons.IH[OF Cons.prems(1) isTokenRevoked_not_revoked(2)[OF Cons.prems(2)] Cons.prems(3) _ Cons.prems(5) bi
          Cons.prems(5)]) (use Cons.prems(4,8) in simp_all)
  ultimately show ?case using Cons.prems(8) by (simp add: adminLogin_def)
qed simp

text \<open>Removing an administrator disables the account and revokes nothing: the
  session of the removed one can be refreshed for ever, each refresh within
  eight hours of the one before.\<close>

theorem removed_admin_keeps_session:
  assumes "remove_admin E i deletedBy s = (s1, Inr ())"
    and "find_admin i (st_admins s) = Some a" "i \<noteq> []" "ad_role a \<noteq> ''SYSTEM''" "row_ok E"
    and "not_revoked i s" "token_ok sign verify" "in_time sign verify t Es"
  shows "(case find_admin i (st_admins s1) of None \<Rightarrow> False | Some b \<Rightarrow> \<not> ad_isActive b)
    \<and> snd (refresh_chain Es (sign (admin_payload a) t (8 * 60 * 60)) s1) \<noteq> None"
proof -
  have ai: "ad_id a = i" using assms(2) lookup_by_SomeD by (force simp: find_admin_def)
  let ?b = "a\<lparr> ad_isActive := False, ad_updatedAt := au_now E \<rparr>"
  have s1: "s1 = save_admin E ?b s"
    using assms(1,2) by (simp add: remove_admin_def split: if_splits)
  have b: "ad_id (au_row E a ?b) = i" "ad_role (au_row E a ?b) = ad_role a" "\<not> ad_isActive (au_row E a ?b)"
    using assms(5)[unfolded row_ok_def, rule_format, of a ?b] ai by auto
  have f: "find_admin i (st_admins s1) = Some (au_row E a ?b)"
    using assms(2) ai b(1) lookup_save_by[of ad_id i "au_row E a ?b" "st_admins s"]
    by (simp add: s1 save_admin_def find_admin_def)
  have "not_revoked i s1" using assms(6) by (simp add: s1 save_admin_def not_revoked_def)
  then show ?thesis
    using refresh_chain_goes_on[OF assms(7) _ assms(3) f _ ai assms(4,8)] b f assms(4) by simp
qed

text \<open>A revoked account is refused whatever the token, once the cached verdicts
  from before are gone.\<close>

lemma revoked_is_refused:
  assumes "st_redis s (revoked_key i) = Some (v, expires)" "au_now E < expires" "au_redis_up E"
    and "cache_within t (st_cache s)" "t + CACHE_TTL_MS \<le> au_now E"
    and "au_verify E tok (au_now E) = Some p" "j_sub p = i"
  shows "snd (jwt_guard E tok s)
    = Inl (Auth_Unauthorized ''Token validation failed: Session invalidated. Please log in again.'')"
proof -
  have "snd (ask_redis E i s)" using assms(1-3) by (simp add: ask_redis_def redis_get_def Let_def)
  moreover have "\<not> au_now E < rv_expiresAt e" if "lookup_by fst i (st_cache s) = Some (j, e)" for j e
    using that lookup_fst[OF that] assms(4,5) by (force simp: cache_within_def)
  ultimately have "snd (isTokenRevoked E i s)"
    by (auto simp: isTokenRevoked_def split: option.splits prod.splits)
  then show ?thesis using assms(6,7)
    by (cases "isTokenRevoked E i s") (simp add: jwt_guard_def validate_token_def)
qed

lemma validateAdmin_state [simp]:
  "validateAdmin E email pw s = (s', r) \<Longrightarrow> st_redis s' = st_redis s \<and> st_cache s' = st_cache s"
  by (auto simp: login_defs save_admin_def Let_def split: option.splits if_splits)

lemma update_revokes:
  assumes "update_admin_user E i dto by s = (s1, Inr a1)" "find_admin i (st_admins s) = Some a"
    and "needsInvalidation dto a"
  shows "st_redis s1 (revoked_key i) = Some (''true'', au_now E + 86400000)" "st_cache s1 = st_cache s"
  using assms by (auto simp: update_admin_user_def redis_set_def save_admin_def Let_def split: if_splits)

text \<open>After the role or the city of an administrator is changed, no token of
  the account is accepted, from thirty seconds to a day later; a new login
  with the right password succeeds and its token is refused like the old
  ones.\<close>

theorem new_login_is_refused:
  assumes "update_admin_user E1 i dto by s = (s1, Inr a1)" "find_admin i (st_admins s) = Some a"
    and "needsInvalidation dto a" "cache_within (au_now E1) (st_cache s)"
    and "adminLoginWithCredentials E2 email pw s1 = (s2, Inr tok)"
    and "lookup_by ad_email email (st_admins s1) = Some b" "ad_id b = i"
    and "token_ok (au_sign E2) (au_verify E3)" "au_now E2 \<le> au_now E3" "au_now E3 < au_now E2 + 28000000"
    and "au_redis_up E3" "au_now E1 + 30000 \<le> au_now E3" "au_now E3 < au_now E1 + 86400000"
  shows "snd (jwt_guard E3 tok s2)
    = Inl (Auth_Unauthorized ''Token validation failed: Session invalidated. Please log in again.'')"
proof -
  obtain c where c: "validateAdmin E2 email pw s1 = (s2, Inr c)" and tok: "tok = adminLogin E2 c"
    using assms(5) by (auto simp: adminLoginWithCredentials_def split: prod.splits sum.splits)
  have ci: "ad_id c = i"
    using c assms(6,7) by (auto simp: login_defs resetFailedLoginAttempts_def Let_def split: if_splits)
  have "au_verify E3 tok (au_now E3) = Some (admin_payload c)"
    using token_okD[OF assms(8,9)] assms(10) by (simp add: tok adminLogin_def)
  moreover have "st_redis s2 (revoked_key i) = Some (''true'', au_now E1 + 86400000)" "st_cache s2 = st_cache s"
    using update_revokes[OF assms(1-3)] validateAdmin_state[OF c] by simp_all
  ultimately show ?thesis
    using revoked_is_refused[of s2 i _ _ E3 "au_now E1"] assms(4,11-13) ci
    by (simp add: admin_payload_def CACHE_TTL_MS_def)
qed

section \<open>One-time passwords\<close>

lemma nat_str_not_empty [simp]: "nat_str n \<noteq> []"
  by (subst nat_str.simps) simp

lemma createDriverFromAuth_email:
  "createDriverFromAuth D e g db = (db', d) \<Longrightarrow> dr_email d = Some e"
  by (auto simp: createDriverFromAuth_def Let_def dest: lookup_by_SomeD split: option.splits)

lemma verifyEmailOtp_ok_iff:
  "isl (snd (verifyEmailOtp E email otp s)) \<longleftrightarrow>
    \<not> (au_redis_up E \<and> otp \<noteq> [] \<and> redis_get (otp_key (toLowerCase email)) (au_now E) s = Some otp)"
  by (cases "redis_get (otp_key (toLowerCase email)) (au_now E) s")
    (auto simp: verifyEmailOtp_def Let_def split: prod.splits)

lemma verified_otp_is_gone:
  assumes "verifyEmailOtp E email otp s = (s1, Inr r)"
  shows "st_redis s1 (otp_key (toLowerCase email)) = None"
  using assms by (auto simp: verifyEmailOtp_def redis_del_def Let_def split: prod.splits if_splits)


section \<open>Routes of super administrators\<close>

lemma admin_not_super: "starts_with ''admin:'' p \<Longrightarrow> \<not> starts_with ''super_admin:'' p"
  by (cases p) (auto simp: starts_with_def)

lemma ordinary_permission:
  assumes "k \<in> {DRIVER_READ_OWN_PROFILE, DRIVER_UPDATE_OWN_LOCATION, DRIVER_READ_OWN_EARNINGS, DRIVER_ACCEPT_DELIVERY,
    DRIVER_REJECT_DELIVERY, DRIVER_UPDATE_DELIVERY_STATUS, DRIVER_CONTACT_CUSTOMER, DRIVER_CONTACT_SELLER,
    DRIVER_UPLOAD_PROOF, ASSIGNMENT_CREATE, ASSIGNMENT_REASSIGN, ADMIN_READ_DRIVER_ANY, ADMIN_UPDATE_DRIVER_STATUS,
    ADMIN_READ_DELIVERY_ANY, ADMIN_FORCE_ASSIGN_DRIVER, ADMIN_CANCEL_DELIVERY, ADMIN_RETRY_DISPATCH,
    ADMIN_OVERRIDE_DELIVERY, SYSTEM_WEBHOOK_INBOUND, SYSTEM_READ_DRIVER_LOCATION}"
  shows "\<not> starts_with ''super_admin:'' (Permission k)"
  using assms by (auto simp: starts_with_def)

lemma ordinary_roles:
  assumes "RolePermissions role = Some ps" "role \<noteq> ''SUPER_ADMIN''" "p \<in> set ps"
  shows "\<not> starts_with ''super_admin:'' p"
  using assms admin_not_super ordinary_permission
  by (auto simp: RolePermissions_def permissions_from_def simp del: Permission.simps split: if_splits)

text \<open>C26: With a token issued by the login of administrators, a route protected by
  permissions of super administrators lets only accounts with the role
  \<^verbatim>\<open>SUPER_ADMIN\<close> or the role \<^verbatim>\<open>SYSTEM\<close> through, the two roles that the policy lets pass everywhere.\<close>

theorem super_admin_routes_need_super_admin:
  assumes "validate_token E (admin_payload a) s = (s', Inr u)" "rq_user rq = Some u"
    and "ps \<noteq> []" "\<forall>p \<in> set ps. starts_with ''super_admin:'' p"
    and "snd (canActivate lookup saved (Some ps) rq es) = Granted"
  shows "ad_role a = ''SUPER_ADMIN'' \<or> ad_role a = ''SYSTEM''"
proof (rule ccontr)
  assume neg: "\<not> (ad_role a = ''SUPER_ADMIN'' \<or> ad_role a = ''SYSTEM'')"
  then have u: "u_role u = Some (ad_role a)" "u_type u = Some ''admin''"
      "u_permissions u = perms_or (RolePermissions (ad_role a)) (Some [])"
    using assms(1) by (auto simp: validate_token_def admin_payload_def Let_def split: prod.splits if_splits)
  obtain pc p where pc: "buildPolicyContext rq = Inr pc" and p: "p \<in> set ps"
    and ok: "allowed (authorize lookup (guard_actor pc) p (guard_resource rq pc))"
    using canActivate_granted[OF assms(5,3)] .
  note user = buildPolicyContext_user[OF pc]
  have "pc_role pc \<noteq> Some ''SYSTEM''" "pc_role pc \<noteq> Some ''SUPER_ADMIN''"
    using user(2) assms(2) u neg by (auto simp: of_user_def str_or_def)
  then have "p \<in> set (pc_permissions pc)"
    using authorize_allowed[OF ok] by auto
  then obtain us where "RolePermissions (ad_role a) = Some us" "p \<in> set us"
    using user(5) assms(2) u(3) by (auto simp: of_user_def perms_or_def split: if_splits)
  then have "\<not> starts_with ''super_admin:'' p"
    using ordinary_roles neg by blast
  then show False using p assms(4) by blast
qed

section \<open>Registration\<close>

text \<open>Anyone who knows the address of an approved driver, with no session and
  no password, takes the approval away: the registration writes the given
  profile over the driver's and sends the driver back to \<^verbatim>\<open>PENDING_APPROVAL\<close>.\<close>

theorem register_revokes_approval:
  assumes "lookup_by dr_email (Some (toLowerCase email)) (dd_drivers (st_drivers s)) = Some d"
    and "distinct (map dr_id (dd_drivers (st_drivers s)))" "dr_registrationStatus d = APPROVED"
    and "truthy (pd_name p)" "truthy (pd_phone p)" "truthy (pd_cityId p)"
  shows "\<exists>s1 d1 c. registerDriver E email p s = (s1, Inr (d1, c))
    \<and> find_driver (dr_id d) (dd_drivers (st_drivers s1)) = Some d1
    \<and> dr_registrationStatus d1 = PENDING_APPROVAL \<and> dr_name d1 = pd_name p \<and> dr_phone d1 = pd_phone p
    \<and> dr_cityId d1 = pd_cityId p"
proof -
  have f: "find_driver (dr_id d) (dd_drivers (st_drivers s)) = Some d"
    using lookup_by_SomeD[OF assms(1)] lookup_by_distinct[OF assms(2)] by (simp add: find_driver_def)
  have c: "profile_complete (apply_profile p d)"
    using assms(4-6) by (simp add: profile_complete_def apply_profile_def if_given_def)
  let ?d = "(apply_profile p d)\<lparr> dr_registrationStatus := PENDING_APPROVAL \<rparr>"
  let ?db = "emitProfileCompleted (au_drv E) ?d (put_driver ?d (st_drivers s))"
  have "completeProfile (au_drv E) (dr_id d) p (st_drivers s) = (?db, Inr ?d)"
    using f c by (simp add: completeProfile_def Let_def)
  moreover have "find_driver (dr_id d) (dd_drivers ?db) = Some ?d"
    using driver_repo.find_save[of "dr_id d" ?d "dd_drivers (st_drivers s)"]
    by (simp add: emitProfileCompleted_def emit_def put_driver_def apply_profile_def)
  ultimately show ?thesis
    using assms(1,4-6) by (simp add: registerDriver_def apply_profile_def if_given_def)
qed

section \<open>Samples\<close>

type_synonym sample_token = "jwt_payload \<times> int \<times> int"

definition sample_sign :: "jwt_payload \<Rightarrow> int \<Rightarrow> int \<Rightarrow> sample_token" where
  "sample_sign p t secs = (p, t, secs)"

definition sample_verify :: "sample_token \<Rightarrow> int \<Rightarrow> jwt_payload option" where
  "sample_verify tok now = (case tok of (p, t, secs) \<Rightarrow> if now < t + secs * 1000 then Some p else None)"

lemma sample_token_ok: "token_ok sample_sign sample_verify"
  by (simp add: token_ok_def sample_sign_def sample_verify_def)

definition sample_auth_env :: "int \<Rightarrow> sample_token auth_env" where
  "sample_auth_env t = \<lparr> au_drv = sample_driver_env\<lparr> de_now := t \<rparr>, au_redis_up = True, au_mail_up = True,
     au_sign = sample_sign, au_verify = sample_verify, au_compare = (\<lambda>p h. p = h), au_hash = (\<lambda>p. p),
     au_row = (\<lambda>old a. a), au_new_id = ''a9'', au_randomInt = 123456, au_password = ''secret'' \<rparr>"

definition sample_admin :: "string \<Rightarrow> admin_user" where
  "sample_admin role = \<lparr> ad_id = ''a1'', ad_email = ''x@y'', ad_passwordHash = ''pw'', ad_role = role,
     ad_isActive = True, ad_cityId = Some ''c1'', ad_createdById = None, ad_lastLoginAt = None,
     ad_failedLoginAttempts = 0, ad_lockedUntil = None, ad_updatedAt = 0 \<rparr>"

definition sample_auth_state :: "string \<Rightarrow> auth_state" where
  "sample_auth_state role = \<lparr> st_drivers = sample_driver_db, st_admins = [sample_admin role], st_cities = [''c1''],
     st_redis = (\<lambda>_. None), st_cache = [], st_mail = [] \<rparr>"

definition super_user :: auth_user where
  "super_user = no_user\<lparr> u_role := Some ''SUPER_ADMIN'' \<rparr>"

lemmas sample_auth_defs = sample_auth_env_def sample_admin_def sample_auth_state_def super_user_def no_user_def

lemma sample_row_ok: "row_ok (sample_auth_env t)"
  by (simp add: row_ok_def sample_auth_env_def)

lemma sample_now [simp]: "au_now (sample_auth_env t) = t" "au_redis_up (sample_auth_env t)"
    "au_randomInt (sample_auth_env t) = 123456"
  by (simp_all add: sample_auth_env_def)

lemma sample_lookup:
  "lookup_by ad_email ''x@y'' (st_admins (sample_auth_state r)) = Some (sample_admin r)"
  "find_admin ''a1'' (st_admins (sample_auth_state r)) = Some (sample_admin r)"
  by (simp_all add: sample_auth_state_def sample_admin_def find_admin_def)

lemma revocation_cache_bounded_witness:
  "length (st_cache (run_guards [(sample_auth_env 5, (admin_payload (sample_admin ''ADMIN''), 0, 100))]
      (sample_auth_state ''ADMIN''))) \<le> 1000"
  using revocation_cache_bounded[of "sample_auth_state ''ADMIN''"
      "[(sample_auth_env 5, (admin_payload (sample_admin ''ADMIN''), 0, 100))]" 5]
  by (simp add: sample_auth_state_def)

lemma lockout_bounds_guesses_witness:
  "int (length (filter guess (snd (attempts [(sample_auth_env 1, ''no''), (sample_auth_env 2, ''no'')] ''x@y''
      (sample_auth_state ''ADMIN''))))) \<le> 5 + (10 - 0) div 900000"
  by (rule lockout_bounds_guesses[OF sample_lookup(1)])
    (simp_all add: sample_row_ok, simp_all add: sample_auth_defs)

lemma overlapping_guesses_escape_witness:
  "snd (run_logins (\<lambda>k. sample_auth_env (int k)) (\<lambda>_. ''no'') ''x@y''
      (map Login_Reads [0..<100] @ map Login_Ends [0..<100]) (\<lambda>_. None) (sample_auth_state ''ADMIN''))
    = replicate 100 (Inl (Auth_Bad_Request ''Invalid credentials''))"
proof -
  have a: "ad_isActive (sample_admin ''ADMIN'')" "\<not> isLocked t (sample_admin ''ADMIN'')"
    "distinct (map ad_id (st_admins (sample_auth_state ''ADMIN'')))"
    "\<not> au_compare (sample_auth_env t) ''no'' (ad_passwordHash (sample_admin ''ADMIN''))" for t
    by (simp_all add: sample_auth_defs isLocked_def)
  have "\<exists>s' c. run_logins (\<lambda>k. sample_auth_env (int k)) (\<lambda>_. ''no'') ''x@y''
      (map Login_Reads [0..<100] @ map Login_Ends [0..<100]) (\<lambda>_. None) (sample_auth_state ''ADMIN'')
    = (s', replicate 100 (Inl (Auth_Bad_Request ''Invalid credentials'')))
    \<and> lookup_by ad_email ''x@y'' (st_admins s') = Some c
    \<and> ad_failedLoginAttempts c = ad_failedLoginAttempts (sample_admin ''ADMIN'') + 1"
    by (rule overlapping_guesses_escape[OF sample_lookup(1) a(3) a(1)]) (simp_all add: a sample_row_ok)
  then show ?thesis by (metis snd_conv)
qed

lemma removed_admin_keeps_session_witness:
  "snd (refresh_chain [sample_auth_env 1000, sample_auth_env 28000000]
      (sample_sign (admin_payload (sample_admin ''ADMIN'')) 0 (8 * 60 * 60))
      (fst (remove_admin (sample_auth_env 500) ''a1'' super_user (sample_auth_state ''ADMIN'')))) \<noteq> None"
proof -
  obtain s1 where s1: "remove_admin (sample_auth_env 500) ''a1'' super_user (sample_auth_state ''ADMIN'') = (s1, Inr ())"
    by (simp add: remove_admin_def sample_lookup) (simp add: sample_auth_defs)
  have "not_revoked ''a1'' (sample_auth_state ''ADMIN'')"
    by (simp add: not_revoked_def sample_auth_state_def)
  moreover have "in_time sample_sign sample_verify 0 [sample_auth_env 1000, sample_auth_env 28000000]"
    by (simp, simp add: sample_auth_env_def)
  ultimately show ?thesis
    using removed_admin_keeps_session[OF s1 sample_lookup(2) _ _ sample_row_ok _ sample_token_ok,
        of 0 "[sample_auth_env 1000, sample_auth_env 28000000]"]
    by (simp add: s1 sample_admin_def)
qed

definition to_dispatcher :: update_admin where
  "to_dispatcher = \<lparr> ua_email = None, ua_role = Some ''DISPATCHER'', ua_cityId = None, ua_isActive = None \<rparr>"

lemma new_login_is_refused_witness:
  "\<exists>s2 tok. adminLoginWithCredentials (sample_auth_env 20000) ''x@y'' ''pw''
      (fst (update_admin_user (sample_auth_env 10000) ''a1'' to_dispatcher super_user (sample_auth_state ''ADMIN'')))
      = (s2, Inr tok)
    \<and> snd (jwt_guard (sample_auth_env 50000) tok s2)
      = Inl (Auth_Unauthorized ''Token validation failed: Session invalidated. Please log in again.'')"
proof -
  let ?a = "(assign_dto to_dispatcher (sample_admin ''ADMIN''))\<lparr> ad_updatedAt := 10000 \<rparr>"
  obtain s1 where s1: "update_admin_user (sample_auth_env 10000) ''a1'' to_dispatcher super_user (sample_auth_state ''ADMIN'')
      = (s1, Inr ?a)" "st_admins s1 = [?a]"
    by (simp add: update_admin_user_def sample_lookup)
      (simp add: sample_auth_defs to_dispatcher_def assign_dto_def needsInvalidation_def save_admin_def redis_set_def
        save_by_def find_admin_def update_rows_def Let_def)
  then obtain s2 tok where s2: "adminLoginWithCredentials (sample_auth_env 20000) ''x@y'' ''pw'' s1 = (s2, Inr tok)"
    by (simp add: adminLoginWithCredentials_def login_defs)
      (simp add: sample_auth_defs assign_dto_def to_dispatcher_def isLocked_def finish_login_def Let_def)
  have "snd (jwt_guard (sample_auth_env 50000) tok s2)
      = Inl (Auth_Unauthorized ''Token validation failed: Session invalidated. Please log in again.'')"
    by (rule new_login_is_refused[OF s1(1) sample_lookup(2) _ _ s2, of ?a])
      (use sample_token_ok in \<open>simp_all add: s1(2) needsInvalidation_def to_dispatcher_def cache_within_def
        sample_auth_state_def sample_admin_def assign_dto_def sample_auth_env_def\<close>)
  then show ?thesis using s1(1) s2 by simp
qed


lemma super_admin_routes_need_super_admin_witness:
  "ad_role (sample_admin ''SUPER_ADMIN'') = ''SUPER_ADMIN'' \<or> ad_role (sample_admin ''SUPER_ADMIN'') = ''SYSTEM''"
proof -
  let ?s = "sample_auth_state ''SUPER_ADMIN''"
  obtain s' u where v: "validate_token (sample_auth_env 5) (admin_payload (sample_admin ''SUPER_ADMIN'')) ?s = (s', Inr u)"
    "u_role u = Some ''SUPER_ADMIN''"
    using validate_admin_token[of "sample_admin ''SUPER_ADMIN''" ?s "sample_auth_env 5"]
    by (auto simp: not_revoked_def sample_auth_state_def sample_admin_def validate_token_def admin_payload_def Let_def
        split: prod.splits if_splits)
  have g: "snd (canActivate (\<lambda>_. None) True (Some [Permission SUPER_ADMIN_MANAGE_CITIES]) (sample_request u) []) = Granted"
    using v(2) by (simp add: canActivate_def buildPolicyContext_def resource_id_def inferred_id_def sample_request_def
        of_user_def str_or_def authorize_def or_default_def Let_def)
  show ?thesis
    by (rule super_admin_routes_need_super_admin[OF v(1) _ _ _ g]) (simp_all add: sample_request_def starts_with_def)
qed

lemma register_revokes_approval_witness:
  "\<exists>s1 d1 c. registerDriver (sample_auth_env 5) ''d@x''
      \<lparr> pd_name = Some ''Eve'', pd_phone = Some ''1'', pd_cityId = Some ''c2'', pd_vehicleType = None, pd_vehicleNumber = None \<rparr>
      ((sample_auth_state ''ADMIN'')\<lparr> st_drivers := sample_driver_db\<lparr> dd_drivers := [(sample_driver ''d1'' APPROVED)\<lparr> dr_email := Some ''d@x'' \<rparr>] \<rparr> \<rparr>)
    = (s1, Inr (d1, c)) \<and> dr_registrationStatus d1 = PENDING_APPROVAL"
proof -
  let ?d = "(sample_driver ''d1'' APPROVED)\<lparr> dr_email := Some ''d@x'' \<rparr>"
  have l: "toLowerCase ''d@x'' = ''d@x''" by code_simp
  show ?thesis
    using register_revokes_approval[of "''d@x''" "(sample_auth_state ''ADMIN'')\<lparr> st_drivers :=
        sample_driver_db\<lparr> dd_drivers := [?d] \<rparr> \<rparr>" ?d "\<lparr> pd_name = Some ''Eve'', pd_phone = Some ''1'',
        pd_cityId = Some ''c2'', pd_vehicleType = None, pd_vehicleNumber = None \<rparr>" "sample_auth_env 5"]
    by (auto simp: l sample_driver_def)
qed

end
