(* ===== verification/Intent_Translator.thy ===== *)
theory Intent_Translator
  imports Js_Text
begin

text \<open>
  Declarative intents (\<^verbatim>\<open>schema/engine/intent/schema-intent.ts\<close>): their validation and
  templates, and their translation into the phases of an expand, migrate and
  contract migration (\<^verbatim>\<open>intent-translator.ts\<close>). A property of an intent that is not given
  is \<^verbatim>\<open>undefined\<close> and rendered so; what raises a \<^verbatim>\<open>TypeError\<close> is an error value. The
  parser takes any value; the columns, the one property whose methods the code
  calls, are a value of any kind here, the other properties are texts and numbers.
\<close>

section \<open>Intents\<close>

record intent_metadata =
  im_author :: "string option"
  im_description :: "string option"
  im_priority :: "string option"
  im_estimatedImpact :: "string option"
  im_created :: "string option"
  im_tags :: "string list option"

record intent_options =
  io_backfillStrategy :: "string option"
  io_batchSize :: "int option"
  io_downtimeRequired :: "bool option"
  io_estimatedRows :: "int option"
  io_rollbackStrategy :: "string option"

text \<open>What a file can hold as columns: an array (here the texts as which \<^verbatim>\<open>join\<close>
  writes its elements), a string, a number or a boolean (whether it is truthy), an
  object (whether its property \<^verbatim>\<open>length\<close> is 0), or null.\<close>

datatype columns_value = Col_Array "string list" | Col_Text string | Col_Scalar bool | Col_Object bool | Col_Null

record intent_payload =
  ip_table :: "string option"
  ip_column :: "string option"
  ip_newColumn :: "string option"
  ip_newTable :: "string option"
  ip_oldTable :: "string option"
  ip_newType :: "string option"
  ip_indexName :: "string option"
  ip_columns :: "columns_value option"
  ip_constraintName :: "string option"
  ip_constraintType :: "string option"
  ip_constraintDefinition :: "string option"
  ip_options :: "intent_options option"

text \<open>The data of an intent file, any part of which may be missing.\<close>

record intent_data =
  id_version :: "string option"
  id_type :: "string option"
  id_metadata :: "intent_metadata option"
  id_payload :: "intent_payload option"

record SchemaIntent =
  si_version :: string
  si_type :: string
  si_metadata :: intent_metadata
  si_payload :: intent_payload

datatype intent_phase = EXPAND | DATA | CONTRACT

datatype operation_type = SQL | BACKFILL | VALIDATION | CLEANUP

record IntentOperation =
  it_type :: operation_type
  it_sql :: string
  it_description :: string
  it_estimatedTime :: "string option"
  it_requiresApproval :: "bool option"

record IntentPhase =
  ph_phase :: intent_phase
  ph_operations :: "IntentOperation list"
  ph_dependencies :: "intent_phase list"
  ph_estimatedDuration :: string
  ph_rollbackOperations :: "IntentOperation list"

record IntentTranslation =
  tr_phases :: "IntentPhase list"
  tr_estimatedTime :: string
  tr_requiredApprovals :: "string list"
  tr_rollbackPlan :: "string list"

section \<open>Validation\<close>

record intent_validation =
  iv_valid :: bool
  iv_errors :: "string list"
  iv_warnings :: "string list"
  iv_suggestions :: "string list"

definition msg_if :: "bool \<Rightarrow> string \<Rightarrow> string list" where
  "msg_if b m = (if b then [m] else [])"

lemma msg_if_empty [simp]: "msg_if b m = [] \<longleftrightarrow> \<not> b"
  by (simp add: msg_if_def)

text \<open>\<^verbatim>\<open>!columns || columns.length === 0\<close>; numbers and booleans have no length.\<close>

definition no_columns :: "intent_payload \<Rightarrow> bool" where
  "no_columns p = (case ip_columns p of
      None \<Rightarrow> True
    | Some Col_Null \<Rightarrow> True
    | Some (Col_Array cs) \<Rightarrow> cs = []
    | Some (Col_Text t) \<Rightarrow> t = []
    | Some (Col_Scalar b) \<Rightarrow> \<not> b
    | Some (Col_Object zero) \<Rightarrow> zero)"

text \<open>What the columns are to \<^verbatim>\<open>columns.join\<close>: only arrays have the method.\<close>

definition joinable :: "intent_payload \<Rightarrow> string list option" where
  "joinable p = (case ip_columns p of Some (Col_Array cs) \<Rightarrow> Some cs | _ \<Rightarrow> None)"

definition nullish_columns :: "intent_payload \<Rightarrow> bool" where
  "nullish_columns p = (ip_columns p = None \<or> ip_columns p = Some Col_Null)"

definition validateRenameColumn :: "intent_payload \<Rightarrow> string list" where
  "validateRenameColumn p =
    msg_if (\<not> truthy (ip_column p)) ''RENAME_COLUMN intent must specify old column name''
    @ msg_if (\<not> truthy (ip_newColumn p)) ''RENAME_COLUMN intent must specify new column name''
    @ msg_if (ip_column p = ip_newColumn p) ''Old and new column names must be different''"

definition validateChangeColumnType :: "intent_payload \<Rightarrow> string list" where
  "validateChangeColumnType p =
    msg_if (\<not> truthy (ip_column p)) ''CHANGE_COLUMN_TYPE intent must specify column name''
    @ msg_if (\<not> truthy (ip_newType p)) ''CHANGE_COLUMN_TYPE intent must specify new type''"

definition validateAddColumn :: "intent_payload \<Rightarrow> string list" where
  "validateAddColumn p =
    msg_if (\<not> truthy (ip_column p)) ''ADD_COLUMN intent must specify column name''
    @ msg_if (\<not> truthy (ip_newType p)) ''ADD_COLUMN intent must specify column type''"

definition validateDropColumn :: "intent_payload \<Rightarrow> string list" where
  "validateDropColumn p = msg_if (\<not> truthy (ip_column p)) ''DROP_COLUMN intent must specify column name''"

definition validateAddIndex :: "intent_payload \<Rightarrow> string list" where
  "validateAddIndex p =
    msg_if (\<not> truthy (ip_indexName p)) ''ADD_INDEX intent must specify index name''
    @ msg_if (no_columns p) ''ADD_INDEX intent must specify columns''"

definition validateDropIndex :: "intent_payload \<Rightarrow> string list" where
  "validateDropIndex p = msg_if (\<not> truthy (ip_indexName p)) ''DROP_INDEX intent must specify index name''"

definition validateAddConstraint :: "intent_payload \<Rightarrow> string list" where
  "validateAddConstraint p =
    msg_if (\<not> truthy (ip_constraintName p)) ''ADD_CONSTRAINT intent must specify constraint name''
    @ msg_if (\<not> truthy (ip_constraintType p)) ''ADD_CONSTRAINT intent must specify constraint type''"

definition validateDropConstraint :: "intent_payload \<Rightarrow> string list" where
  "validateDropConstraint p =
    msg_if (\<not> truthy (ip_constraintName p)) ''DROP_CONSTRAINT intent must specify constraint name''"

definition validateRenameTable :: "intent_payload \<Rightarrow> string list" where
  "validateRenameTable p =
    msg_if (\<not> truthy (ip_newTable p)) ''RENAME_TABLE intent must specify new table name''
    @ msg_if (ip_table p = ip_newTable p) ''Old and new table names must be different''"

definition validateSplitTable :: "intent_payload \<Rightarrow> string list" where
  "validateSplitTable p =
    msg_if (\<not> truthy (ip_newTable p)) ''SPLIT_TABLE intent must specify new table name''
    @ msg_if (no_columns p) ''SPLIT_TABLE intent must specify columns to move''"

definition validateMergeTables :: "intent_payload \<Rightarrow> string list" where
  "validateMergeTables p =
    msg_if (\<not> truthy (ip_newTable p)) ''MERGE_TABLES intent must specify target table name''
    @ msg_if (\<not> truthy (ip_oldTable p)) ''MERGE_TABLES intent must specify source table name''"

definition validate_type :: "string option \<Rightarrow> intent_payload \<Rightarrow> string list" where
  "validate_type ty p =
    (if ty = Some ''RENAME_COLUMN'' then validateRenameColumn p
     else if ty = Some ''CHANGE_COLUMN_TYPE'' then validateChangeColumnType p
     else if ty = Some ''ADD_COLUMN'' then validateAddColumn p
     else if ty = Some ''DROP_COLUMN'' then validateDropColumn p
     else if ty = Some ''ADD_INDEX'' then validateAddIndex p
     else if ty = Some ''DROP_INDEX'' then validateDropIndex p
     else if ty = Some ''ADD_CONSTRAINT'' then validateAddConstraint p
     else if ty = Some ''DROP_CONSTRAINT'' then validateDropConstraint p
     else if ty = Some ''RENAME_TABLE'' then validateRenameTable p
     else if ty = Some ''SPLIT_TABLE'' then validateSplitTable p
     else if ty = Some ''MERGE_TABLES'' then validateMergeTables p
     else [])"

text \<open>\<^verbatim>\<open>/^[a-z_][a-z0-9_]*$/\<close>\<close>

definition snake_start :: "char \<Rightarrow> bool" where
  "snake_start c = (let n = (of_char c :: nat) in (97 \<le> n \<and> n \<le> 122) \<or> n = 95)"

fun snake_case :: "string \<Rightarrow> bool" where
  "snake_case [] = False"
| "snake_case (c # s) = (snake_start c \<and> list_all (\<lambda>d. snake_start d \<or> is_digit d) s)"

definition checkCommonIssues :: "intent_metadata \<Rightarrow> intent_payload \<Rightarrow> string list" where
  "checkCommonIssues m p =
    msg_if (truthy (im_description m) \<and> length (the (im_description m)) > 500)
      ''Description is very long, consider shortening''
    @ msg_if (\<not> truthy (im_priority m)) ''Consider specifying priority for better planning''
    @ msg_if (\<not> truthy (im_estimatedImpact m)) ''Consider specifying estimated impact for better risk assessment''
    @ msg_if (truthy (ip_column p) \<and> \<not> snake_case (the (ip_column p)))
      ''Column name should follow snake_case convention''
    @ msg_if (truthy (ip_table p) \<and> \<not> snake_case (the (ip_table p)))
      ''Table name should follow snake_case convention''"

definition required_fields :: "intent_data \<Rightarrow> string list" where
  "required_fields d =
    msg_if (\<not> truthy (id_type d)) ''Intent must specify a type''
    @ (case id_metadata d of None \<Rightarrow> [''Intent must include metadata'']
       | Some m \<Rightarrow> msg_if (\<not> truthy (im_author m)) ''Intent metadata must include author''
           @ msg_if (\<not> truthy (im_description m)) ''Intent metadata must include description'')
    @ (case id_payload d of None \<Rightarrow> [''Intent must include payload'']
       | Some p \<Rightarrow> msg_if (\<not> truthy (ip_table p)) ''Intent payload must include table name'')"

definition only_error :: "string \<Rightarrow> intent_validation" where
  "only_error e = \<lparr> iv_valid = False, iv_errors = [e], iv_warnings = [], iv_suggestions = [] \<rparr>"

text \<open>A missing payload or metadata is recorded as an error and then read.\<close>

definition parse :: "intent_data \<Rightarrow> string + intent_validation" where
  "parse d =
    (if \<not> truthy (id_version d) then Inr (only_error ''Intent must specify a version'')
     else if id_version d \<noteq> Some ''1.0'' then Inr (only_error (''Unsupported intent version: ''
       @ the (id_version d) @ ''. Supported versions: 1.0''))
     else case (id_metadata d, id_payload d) of
         (Some m, Some p) \<Rightarrow>
           let errors = required_fields d @ validate_type (id_type d) p
           in Inr \<lparr> iv_valid = (errors = []), iv_errors = errors, iv_warnings = checkCommonIssues m p,
                    iv_suggestions = [] \<rparr>
       | _ \<Rightarrow> Inl ''TypeError'')"

text \<open>The intent that a file holds, once its parts are there.\<close>

definition as_intent :: "intent_data \<Rightarrow> SchemaIntent option" where
  "as_intent d = (case (id_version d, id_type d, id_metadata d, id_payload d) of
      (Some v, Some ty, Some m, Some p) \<Rightarrow> Some \<lparr> si_version = v, si_type = ty, si_metadata = m, si_payload = p \<rparr>
    | _ \<Rightarrow> None)"

section \<open>Operations\<close>

text \<open>An operation of a phase, with its time and whether it needs an approval, and
  one of a rollback, which has neither.\<close>

definition operation :: "operation_type \<Rightarrow> string \<Rightarrow> string \<Rightarrow> string \<Rightarrow> bool option \<Rightarrow> IntentOperation" where
  "operation ty s d t app = \<lparr> it_type = ty, it_sql = s, it_description = d, it_estimatedTime = Some t,
     it_requiresApproval = app \<rparr>"

definition rollback_op :: "operation_type \<Rightarrow> string \<Rightarrow> string \<Rightarrow> IntentOperation" where
  "rollback_op ty s d = \<lparr> it_type = ty, it_sql = s, it_description = d, it_estimatedTime = None,
     it_requiresApproval = None \<rparr>"

definition phase_of :: "intent_phase \<Rightarrow> IntentOperation list \<Rightarrow> intent_phase list \<Rightarrow> string
    \<Rightarrow> IntentOperation list \<Rightarrow> IntentPhase" where
  "phase_of ph ops deps t rb = \<lparr> ph_phase = ph, ph_operations = ops, ph_dependencies = deps,
     ph_estimatedDuration = t, ph_rollbackOperations = rb \<rparr>"

text \<open>\<^verbatim>\<open>options?.estimatedRows ? `${Math.ceil(rows / n)} minutes` : otherwise\<close>\<close>

definition minutes_for :: "intent_options option \<Rightarrow> int \<Rightarrow> string \<Rightarrow> string" where
  "minutes_for opts n otherwise = (case opts of
      None \<Rightarrow> otherwise
    | Some x \<Rightarrow> (case io_estimatedRows x of
        None \<Rightarrow> otherwise
      | Some rows \<Rightarrow> if rows = 0 then otherwise
          else int_str (\<lceil>(of_int rows :: rat) / of_int n\<rceil>) @ '' minutes''))"

definition downtime :: "intent_options option \<Rightarrow> bool option" where
  "downtime opts = Some (case opts of None \<Rightarrow> False | Some x \<Rightarrow> io_downtimeRequired x = Some True)"

section \<open>Translation\<close>

definition translateRenameColumn :: "intent_payload \<Rightarrow> string + IntentPhase list" where
  "translateRenameColumn p =
   (let t = show_text (ip_table p);
        oldC = show_text (ip_column p);
        newC = show_text (ip_newColumn p);
        opts = ip_options p
    in Inr [phase_of EXPAND
       [operation SQL
          (''ALTER TABLE '' @ t @ '' ADD COLUMN '' @ newC @ '' VARCHAR(255)'')
          (''Add new column '' @ newC @ '' to '' @ t) ''00:00:05'' None]
       [] ''00:00:10''
       [rollback_op SQL (''ALTER TABLE '' @ t @ '' DROP COLUMN '' @ newC)
          (''Remove new column '' @ newC)],
     phase_of DATA
       [operation BACKFILL
          (''UPDATE '' @ t @ '' SET '' @ newC @ '' = '' @ oldC)
          (''Copy data from '' @ oldC @ '' to '' @ newC) (minutes_for opts 10000 ''00:05:00'') (downtime opts)]
       [EXPAND] (minutes_for opts 10000 ''00:05:00'')
       [rollback_op SQL (''UPDATE '' @ t @ '' SET '' @ newC @ '' = NULL'')
          ''Clear data from new column''],
     phase_of CONTRACT
       [operation SQL
          (''ALTER TABLE '' @ t @ '' DROP COLUMN '' @ oldC)
          (''Remove old column '' @ oldC) ''00:00:05'' (Some True)]
       [DATA] ''00:00:10''
       [rollback_op SQL (''ALTER TABLE '' @ t @ '' ADD COLUMN '' @ oldC @ '' VARCHAR(255)'')
          (''Restore old column '' @ oldC),
        rollback_op BACKFILL (''UPDATE '' @ t @ '' SET '' @ oldC @ '' = '' @ newC)
          ''Copy data back to old column'']])"

definition translateChangeColumnType :: "intent_payload \<Rightarrow> string + IntentPhase list" where
  "translateChangeColumnType p =
   (let t = show_text (ip_table p);
        c = show_text (ip_column p);
        ty = show_text (ip_newType p);
        opts = ip_options p
    in Inr [phase_of EXPAND
       [operation SQL
          (''ALTER TABLE '' @ t @ '' ADD COLUMN '' @ c @ ''_temp '' @ ty)
          (''Add temporary column '' @ c @ ''_temp with new type'') ''00:00:05'' None]
       [] ''00:00:10''
       [rollback_op SQL (''ALTER TABLE '' @ t @ '' DROP COLUMN '' @ c @ ''_temp'')
          ''Remove temporary column''],
     phase_of DATA
       [operation BACKFILL
          (''UPDATE '' @ t @ '' SET '' @ c @ ''_temp = CAST('' @ c @ '' AS '' @ ty @ '')'')
          (''Convert data from '' @ c @ '' to '' @ c @ ''_temp'') (minutes_for opts 5000 ''00:10:00'') (downtime opts)]
       [EXPAND] (minutes_for opts 5000 ''00:10:00'')
       [rollback_op SQL (''UPDATE '' @ t @ '' SET '' @ c @ ''_temp = NULL'')
          ''Clear temporary column data''],
     phase_of CONTRACT
       [operation SQL
          (''ALTER TABLE '' @ t @ '' DROP COLUMN '' @ c)
          (''Remove original column '' @ c) ''00:00:05'' (Some True),
        operation SQL
          (''ALTER TABLE '' @ t @ '' RENAME COLUMN '' @ c @ ''_temp TO '' @ c)
          ''Rename temporary column to original name'' ''00:00:05'' None]
       [DATA] ''00:00:15''
       [rollback_op SQL (''ALTER TABLE '' @ t @ '' ADD COLUMN '' @ c @ '' VARCHAR(255)'')
          ''Restore original column'',
        rollback_op BACKFILL (''UPDATE '' @ t @ '' SET '' @ c @ '' = '' @ c @ ''_temp'')
          ''Copy data back to original column'']])"

definition translateAddColumn :: "intent_payload \<Rightarrow> string + IntentPhase list" where
  "translateAddColumn p =
   (let t = show_text (ip_table p);
        c = show_text (ip_column p);
        ty = show_text (ip_newType p);
        opts = ip_options p
    in Inr ([phase_of EXPAND
       [operation SQL
          (''ALTER TABLE '' @ t @ '' ADD COLUMN '' @ c @ '' '' @ ty)
          (''Add new column '' @ c @ '' to '' @ t) ''00:00:05'' None]
       [] ''00:00:10''
       [rollback_op SQL (''ALTER TABLE '' @ t @ '' DROP COLUMN '' @ c)
          (''Remove new column '' @ c)]]
     @ (if \<not> truthy (case opts of None \<Rightarrow> None | Some x \<Rightarrow> io_backfillStrategy x) then [] else [phase_of DATA
       [operation BACKFILL
          (''UPDATE '' @ t @ '' SET '' @ c @ '' = '' @ [CHR 0x27] @ ''default_value'' @ [CHR 0x27] @ '' WHERE ''
            @ c @ '' IS NULL'')
          (''Backfill default values for '' @ c) (minutes_for opts 10000 ''00:02:00'') None]
       [EXPAND] (minutes_for opts 10000 ''00:02:00'')
       [rollback_op SQL (''UPDATE '' @ t @ '' SET '' @ c @ '' = NULL'')
          ''Clear backfilled values'']])))"

definition translateDropColumn :: "intent_payload \<Rightarrow> string + IntentPhase list" where
  "translateDropColumn p =
   (let t = show_text (ip_table p);
        c = show_text (ip_column p)
    in Inr [phase_of EXPAND
       [operation VALIDATION
          (''SELECT COUNT(*) FROM information_schema.key_column_usage WHERE column_name = '' @ [CHR 0x27] @ c
            @ [CHR 0x27] @ '' AND table_name = '' @ [CHR 0x27] @ t @ [CHR 0x27])
          (''Check for foreign key references to '' @ c) ''00:00:05'' None]
       [] ''00:00:10''
       [],
     phase_of CONTRACT
       [operation SQL
          (''ALTER TABLE '' @ t @ '' DROP COLUMN '' @ c)
          (''Remove column '' @ c @ '' from '' @ t) ''00:00:05'' (Some True)]
       [EXPAND] ''00:00:10''
       [rollback_op SQL (''ALTER TABLE '' @ t @ '' ADD COLUMN '' @ c @ '' VARCHAR(255)'')
          ''Restore dropped column'']])"

definition translateAddIndex :: "intent_payload \<Rightarrow> string + IntentPhase list" where
  "translateAddIndex p = (case joinable p of None \<Rightarrow> Inl ''TypeError'' | Some cols \<Rightarrow>
    let t = show_text (ip_table p);
        ix = show_text (ip_indexName p);
        opts = ip_options p
    in Inr [phase_of EXPAND
       [operation SQL
          (''CREATE INDEX '' @ ix @ '' ON '' @ t @ '' ('' @ js_join '', '' cols @ '')'')
          (''Create index '' @ ix @ '' on '' @ t) (minutes_for opts 100000 ''00:01:00'') (downtime opts)]
       [] (minutes_for opts 100000 ''00:01:00'')
       [rollback_op SQL (''DROP INDEX '' @ ix)
          (''Remove index '' @ ix)]])"

definition translateDropIndex :: "intent_payload \<Rightarrow> string + IntentPhase list" where
  "translateDropIndex p = (if \<not> nullish_columns p \<and> joinable p = None then Inl ''TypeError'' else
    let t = show_text (ip_table p);
        ix = show_text (ip_indexName p)
    in Inr [phase_of EXPAND
       [operation VALIDATION
          (''SELECT * FROM pg_stat_user_indexes WHERE indexrelname = '' @ [CHR 0x27] @ ix @ [CHR 0x27])
          ''Check index usage statistics'' ''00:00:05'' None]
       [] ''00:00:10''
       [],
     phase_of CONTRACT
       [operation SQL
          (''DROP INDEX '' @ ix)
          (''Remove index '' @ ix) ''00:00:05'' None]
       [EXPAND] ''00:00:10''
       [rollback_op SQL (''CREATE INDEX '' @ ix @ '' ON '' @ t @ '' (''
            @ or_default (map_option (js_join '', '') (joinable p)) ''*'' @ '')'')
          ''Restore dropped index'']])"

definition translateAddConstraint :: "intent_payload \<Rightarrow> string + IntentPhase list" where
  "translateAddConstraint p = (case joinable p of None \<Rightarrow> Inl ''TypeError'' | Some cols \<Rightarrow>
    let t = show_text (ip_table p);
        cn = show_text (ip_constraintName p);
        ct = show_text (ip_constraintType p)
    in Inr [phase_of EXPAND
       [operation VALIDATION
          (''SELECT COUNT(*) FROM '' @ t @ '' WHERE ''
            @ (if truthy (ip_constraintDefinition p) then the (ip_constraintDefinition p) else js_join '' IS NOT NULL AND '' cols)
            @ '' IS NOT NULL'')
          ''Validate constraint can be applied to existing data'' ''00:00:10'' None]
       [] ''00:00:15''
       [],
     phase_of CONTRACT
       [operation SQL
          (''ALTER TABLE '' @ t @ '' ADD CONSTRAINT '' @ cn @ '' '' @ ct @ '' ('' @ js_join '', '' cols @ '')'')
          (''Add '' @ ct @ '' constraint '' @ cn) ''00:00:05'' None]
       [EXPAND] ''00:00:10''
       [rollback_op SQL (''ALTER TABLE '' @ t @ '' DROP CONSTRAINT '' @ cn)
          (''Remove constraint '' @ cn)]])"

definition translateDropConstraint :: "intent_payload \<Rightarrow> string + IntentPhase list" where
  "translateDropConstraint p =
   (let t = show_text (ip_table p);
        cn = show_text (ip_constraintName p)
    in Inr [phase_of EXPAND
       [operation VALIDATION
          (''SELECT * FROM information_schema.table_constraints WHERE constraint_name = '' @ [CHR 0x27] @ cn
            @ [CHR 0x27] @ '' AND table_name = '' @ [CHR 0x27] @ t @ [CHR 0x27])
          ''Check constraint definition and dependencies'' ''00:00:05'' None]
       [] ''00:00:10''
       [],
     phase_of CONTRACT
       [operation SQL
          (''ALTER TABLE '' @ t @ '' DROP CONSTRAINT '' @ cn)
          (''Remove constraint '' @ cn) ''00:00:05'' None]
       [EXPAND] ''00:00:10''
       [rollback_op SQL (''ALTER TABLE '' @ t @ '' ADD CONSTRAINT '' @ cn @ '' CHECK (true)'')
          (''Restore constraint '' @ cn)]])"

definition translateRenameTable :: "intent_payload \<Rightarrow> string + IntentPhase list" where
  "translateRenameTable p =
   (let t = show_text (ip_table p);
        newT = show_text (ip_newTable p)
    in Inr [phase_of EXPAND
       [operation VALIDATION
          (''SELECT COUNT(*) FROM information_schema.tables WHERE table_name = '' @ [CHR 0x27] @ newT @ [CHR 0x27])
          ''Check new table name is not already in use'' ''00:00:05'' None]
       [] ''00:00:10''
       [],
     phase_of CONTRACT
       [operation SQL
          (''ALTER TABLE '' @ t @ '' RENAME TO '' @ newT)
          (''Rename table from '' @ t @ '' to '' @ newT) ''00:00:05'' (Some True)]
       [EXPAND] ''00:00:10''
       [rollback_op SQL (''ALTER TABLE '' @ newT @ '' RENAME TO '' @ t)
          ''Restore original table name'']])"

definition translateSplitTable :: "intent_payload \<Rightarrow> string + IntentPhase list" where
  "translateSplitTable p = (case joinable p of None \<Rightarrow> Inl ''TypeError'' | Some cols \<Rightarrow>
    let t = show_text (ip_table p);
        newT = show_text (ip_newTable p);
        opts = ip_options p
    in Inr [phase_of EXPAND
       [operation SQL
          (''CREATE TABLE '' @ newT @ '' AS SELECT '' @ js_join '', '' cols @ '' FROM '' @ t @ '' WHERE 1=0'')
          (''Create new table '' @ newT @ '' with selected columns'') ''00:00:10'' None]
       [] ''00:00:15''
       [rollback_op SQL (''DROP TABLE '' @ newT)
          (''Remove new table '' @ newT)],
     phase_of DATA
       [operation BACKFILL
          (''INSERT INTO '' @ newT @ '' SELECT '' @ js_join '', '' cols @ '' FROM '' @ t)
          (''Copy data to new table '' @ newT) (minutes_for opts 5000 ''00:05:00'') (downtime opts)]
       [EXPAND] (minutes_for opts 5000 ''00:05:00'')
       [rollback_op SQL (''TRUNCATE TABLE '' @ newT)
          ''Clear data from new table''],
     phase_of CONTRACT
       [operation SQL
          (''ALTER TABLE '' @ t @ '' DROP COLUMN '' @ js_join '', DROP COLUMN '' cols)
          ''Remove split columns from original table'' ''00:00:10'' (Some True)]
       [DATA] ''00:00:15''
       [rollback_op SQL (''ALTER TABLE '' @ t @ '' ADD COLUMN '' @ js_join '' VARCHAR(255), ADD COLUMN '' cols
            @ '' VARCHAR(255)'')
          ''Restore columns to original table'']])"

definition translateMergeTables :: "intent_payload \<Rightarrow> string + IntentPhase list" where
  "translateMergeTables p =
   (let tgt = show_text (ip_newTable p);
        src = show_text (ip_oldTable p);
        opts = ip_options p
    in Inr [phase_of EXPAND
       [operation VALIDATION
          (''SELECT column_name, data_type FROM information_schema.columns WHERE table_name = '' @ [CHR 0x27] @ src
            @ [CHR 0x27])
          ''Get source table schema'' ''00:00:05'' None,
        operation VALIDATION
          (''SELECT column_name, data_type FROM information_schema.columns WHERE table_name = '' @ [CHR 0x27] @ tgt
            @ [CHR 0x27])
          ''Get target table schema'' ''00:00:05'' None]
       [] ''00:00:15''
       [],
     phase_of DATA
       [operation BACKFILL
          (''INSERT INTO '' @ tgt @ '' SELECT * FROM '' @ src)
          (''Merge data from '' @ src @ '' to '' @ tgt) (minutes_for opts 10000 ''00:10:00'') (downtime opts)]
       [EXPAND] (minutes_for opts 10000 ''00:10:00'')
       [rollback_op SQL (''DELETE FROM '' @ tgt @ '' WHERE id IN (SELECT id FROM '' @ src @ '')'')
          ''Remove merged data from target table''],
     phase_of CONTRACT
       [operation SQL
          (''DROP TABLE '' @ src)
          (''Remove source table '' @ src) ''00:00:05'' (Some True)]
       [DATA] ''00:00:10''
       [rollback_op SQL (''CREATE TABLE '' @ src @ '' AS SELECT * FROM '' @ tgt @ '' WHERE 1=0'')
          ''Restore source table structure'']])"

section \<open>The whole translation\<close>

definition translate_phases :: "SchemaIntent \<Rightarrow> string + IntentPhase list" where
  "translate_phases i = (let p = si_payload i; ty = si_type i in
    if ty = ''RENAME_COLUMN'' then translateRenameColumn p
    else if ty = ''CHANGE_COLUMN_TYPE'' then translateChangeColumnType p
    else if ty = ''ADD_COLUMN'' then translateAddColumn p
    else if ty = ''DROP_COLUMN'' then translateDropColumn p
    else if ty = ''ADD_INDEX'' then translateAddIndex p
    else if ty = ''DROP_INDEX'' then translateDropIndex p
    else if ty = ''ADD_CONSTRAINT'' then translateAddConstraint p
    else if ty = ''DROP_CONSTRAINT'' then translateDropConstraint p
    else if ty = ''RENAME_TABLE'' then translateRenameTable p
    else if ty = ''SPLIT_TABLE'' then translateSplitTable p
    else if ty = ''MERGE_TABLES'' then translateMergeTables p
    else Inr [])"

text \<open>The parts of \<^verbatim>\<open>hh:mm:ss\<close>; a missing part is \<^verbatim>\<open>undefined\<close> and counts 0.\<close>

definition time_seconds :: "string \<Rightarrow> nat" where
  "time_seconds t = (let ps = map number_or_0 (split_on (CHR '':'') t);
      part = (\<lambda>k. if k < length ps then ps ! k else 0)
    in part 0 * 3600 + part 1 * 60 + part 2)"

definition intent_operation_seconds :: "IntentOperation \<Rightarrow> nat" where
  "intent_operation_seconds x = (if truthy (it_estimatedTime x) then time_seconds (the (it_estimatedTime x)) else 0)"

definition format_time :: "nat \<Rightarrow> string" where
  "format_time n = pad2 (nat_str (n div 3600)) @ '':'' @ pad2 (nat_str (n mod 3600 div 60)) @ '':''
     @ pad2 (nat_str (n mod 60))"

definition total_seconds :: "IntentPhase list \<Rightarrow> nat" where
  "total_seconds phs = sum_list (map intent_operation_seconds (concat (map ph_operations phs)))"

definition calculateEstimatedTime :: "IntentPhase list \<Rightarrow> string" where
  "calculateEstimatedTime phs = format_time (total_seconds phs)"

definition determineApprovals :: "SchemaIntent \<Rightarrow> IntentPhase list \<Rightarrow> string list" where
  "determineApprovals i phs = rev (remdups (rev
    (concat (map (\<lambda>ph. if list_ex (\<lambda>x. it_requiresApproval x = Some True) (ph_operations ph)
       then [''Database Administrator''] else []) phs)
     @ msg_if (im_priority (si_metadata i) = Some ''CRITICAL'') ''Engineering Manager''
     @ msg_if (im_estimatedImpact (si_metadata i) = Some ''MASSIVE'') ''CTO'')))"

definition generateRollbackPlan :: "IntentPhase list \<Rightarrow> string list" where
  "generateRollbackPlan phs = concat (map (map it_description \<circ> ph_rollbackOperations) (rev phs))"

definition translate :: "SchemaIntent \<Rightarrow> string + IntentTranslation" where
  "translate i = (case translate_phases i of
      Inl e \<Rightarrow> Inl e
    | Inr phs \<Rightarrow> Inr \<lparr> tr_phases = phs, tr_estimatedTime = calculateEstimatedTime phs,
        tr_requiredApprovals = determineApprovals i phs, tr_rollbackPlan = generateRollbackPlan phs \<rparr>)"

section \<open>Facts\<close>

lemmas translate_defs = translateRenameColumn_def translateChangeColumnType_def translateAddColumn_def
  translateDropColumn_def translateAddIndex_def translateDropIndex_def translateAddConstraint_def
  translateDropConstraint_def translateRenameTable_def translateSplitTable_def translateMergeTables_def

lemmas validate_defs = validateRenameColumn_def validateChangeColumnType_def validateAddColumn_def
  validateDropColumn_def validateAddIndex_def validateDropIndex_def validateAddConstraint_def
  validateDropConstraint_def validateRenameTable_def validateSplitTable_def validateMergeTables_def

lemma phase_of_simps [simp]:
  "ph_phase (phase_of ph ops deps t rb) = ph" "ph_operations (phase_of ph ops deps t rb) = ops"
  "ph_dependencies (phase_of ph ops deps t rb) = deps" "ph_rollbackOperations (phase_of ph ops deps t rb) = rb"
  by (simp_all add: phase_of_def)

lemma operation_simps [simp]:
  "it_requiresApproval (operation ty s d t app) = app" "it_estimatedTime (operation ty s d t app) = Some t"
  "it_sql (operation ty s d t app) = s"
  by (simp_all add: operation_def)

text \<open>Every phase depends on the one before it and on nothing else, and comes
  later in the order of the pattern.\<close>

fun phase_rank :: "intent_phase \<Rightarrow> nat" where
  "phase_rank EXPAND = 0"
| "phase_rank DATA = 1"
| "phase_rank CONTRACT = 2"

fun chained :: "intent_phase option \<Rightarrow> IntentPhase list \<Rightarrow> bool" where
  "chained prev [] = True"
| "chained prev (p # ps) = (
     (case prev of None \<Rightarrow> ph_phase p = EXPAND \<and> ph_dependencies p = []
      | Some q \<Rightarrow> phase_rank q < phase_rank (ph_phase p) \<and> ph_dependencies p = [q])
     \<and> chained (Some (ph_phase p)) ps)"

lemma chained_phases: "translate_phases i = Inr phs \<Longrightarrow> chained None phs"
  unfolding translate_phases_def Let_def
  by (auto simp: translate_defs Let_def split: if_splits option.splits)

section \<open>Samples\<close>

definition sample_intent_data :: "string \<Rightarrow> intent_data" where
  "sample_intent_data ty = \<lparr> id_version = Some ''1.0'', id_type = Some ty,
     id_metadata = Some \<lparr> im_author = Some ''a'', im_description = Some ''d'', im_priority = Some ''LOW'',
       im_estimatedImpact = None, im_created = None, im_tags = None \<rparr>,
     id_payload = Some \<lparr> ip_table = Some ''users'', ip_column = Some ''mail'', ip_newColumn = Some ''email'',
       ip_newTable = None, ip_oldTable = None, ip_newType = None, ip_indexName = None, ip_columns = None,
       ip_constraintName = Some ''k'', ip_constraintType = Some ''UNIQUE'', ip_constraintDefinition = None,
       ip_options = None \<rparr> \<rparr>"

definition sample_intent :: "string \<Rightarrow> SchemaIntent" where
  "sample_intent ty = the (as_intent (sample_intent_data ty))"

lemmas sample_intent_defs = sample_intent_def sample_intent_data_def as_intent_def

section \<open>Times\<close>

lemma time_seconds_format: "time_seconds (format_time n) = n"
proof -
  have s: "split_on (CHR '':'') (format_time n)
      = [pad2 (nat_str (n div 3600)), pad2 (nat_str (n mod 3600 div 60)), pad2 (nat_str (n mod 60))]"
    by (simp add: format_time_def split_on_append split_on_word no_colon_in_padded)
  have "n div 3600 * 3600 + n mod 3600 div 60 * 60 + n mod 60 = n"
  proof -
    have "n div 3600 * 3600 + n mod 3600 = n" by (rule div_mult_mod_eq)
    moreover have "n mod 3600 div 60 * 60 + n mod 3600 mod 60 = n mod 3600" by (rule div_mult_mod_eq)
    moreover have "n mod 3600 mod 60 = n mod 60" by (rule mod_mod_cancel) simp
    ultimately show ?thesis by linarith
  qed
  then show ?thesis
    by (simp add: time_seconds_def s number_of_padded Let_def nth_Cons')
qed

text \<open>The phases an intent is translated into are a chain from \<^verbatim>\<open>EXPAND\<close> up: the
  first depends on nothing, every other on exactly the one before it, so that
  no contraction runs before the back-fill it relies on; and the estimated
  time, read back, is the sum of the times of the operations.\<close>

theorem translated_phases_form_chain:
  assumes "translate i = Inr tr"
  shows "chained None (tr_phases tr) \<and> time_seconds (tr_estimatedTime tr) = total_seconds (tr_phases tr)"
proof -
  obtain phs where "translate_phases i = Inr phs" "tr = \<lparr> tr_phases = phs, tr_estimatedTime = calculateEstimatedTime phs,
      tr_requiredApprovals = determineApprovals i phs, tr_rollbackPlan = generateRollbackPlan phs \<rparr>"
    using assms by (auto simp: translate_def split: sum.splits)
  then show ?thesis by (simp add: chained_phases calculateEstimatedTime_def time_seconds_format)
qed


lemma translated_phases_form_chain_witness:
  "chained None (tr_phases (projr (translate (sample_intent ''RENAME_COLUMN''))))
    \<and> length (tr_phases (projr (translate (sample_intent ''RENAME_COLUMN'')))) = 3"
proof -
  obtain tr where tr: "translate (sample_intent ''RENAME_COLUMN'') = Inr tr" "length (tr_phases tr) = 3"
    by (simp add: translate_def translate_phases_def translateRenameColumn_def sample_intent_defs Let_def)
  from translated_phases_form_chain[OF tr(1)] tr show ?thesis by simp
qed

section \<open>Approvals\<close>

lemma determineApprovals_simps:
  "distinct (determineApprovals i phs)"
  "''Database Administrator'' \<in> set (determineApprovals i phs) \<longleftrightarrow>
    (\<exists>ph \<in> set phs. list_ex (\<lambda>x. it_requiresApproval x = Some True) (ph_operations ph))"
  by (auto simp: determineApprovals_def msg_if_def)

text \<open>An intent that removes or renames a column or a table is never translated
  without asking for the approval of a database administrator, and asks nobody
  twice.\<close>

theorem destructive_intents_need_approval:
  assumes "translate i = Inr tr"
    and "si_type i \<in> {''RENAME_COLUMN'', ''CHANGE_COLUMN_TYPE'', ''DROP_COLUMN'', ''RENAME_TABLE'',
      ''SPLIT_TABLE'', ''MERGE_TABLES''}"
  shows "''Database Administrator'' \<in> set (tr_requiredApprovals tr) \<and> distinct (tr_requiredApprovals tr)"
proof -
  obtain phs where phs: "translate_phases i = Inr phs" "tr_requiredApprovals tr = determineApprovals i phs"
    using assms(1) by (auto simp: translate_def split: sum.splits)
  have "\<exists>ph \<in> set phs. list_ex (\<lambda>x. it_requiresApproval x = Some True) (ph_operations ph)"
    using phs(1) assms(2) unfolding translate_phases_def Let_def
    by (auto simp: translate_defs Let_def split: option.splits)
  then show ?thesis using phs(2) by (simp add: determineApprovals_simps)
qed

lemma destructive_intents_need_approval_witness:
  "''Database Administrator'' \<in> set (tr_requiredApprovals (projr (translate (sample_intent ''DROP_COLUMN''))))"
proof -
  obtain tr where tr: "translate (sample_intent ''DROP_COLUMN'') = Inr tr"
    by (simp add: translate_def translate_phases_def translateDropColumn_def sample_intent_defs Let_def)
  from destructive_intents_need_approval[OF this] show ?thesis
    by (simp add: tr) (simp add: sample_intent_defs)
qed

section \<open>Valid intents\<close>

lemma parse_valid:
  assumes "parse d = Inr v" "iv_valid v" "as_intent d = Some i"
  shows "validate_type (Some (si_type i)) (si_payload i) = []"
proof -
  obtain ver ty m p where d: "id_version d = Some ver" "id_type d = Some ty" "id_metadata d = Some m"
      "id_payload d = Some p" and i: "si_type i = ty" "si_payload i = p"
    using assms(3) by (auto simp: as_intent_def split: option.splits)
  show ?thesis
  proof (cases "truthy (Some ver) \<and> ver = ''1.0''")
    case True
    then have "iv_valid v = (required_fields d @ validate_type (Some ty) p = [])"
      using assms(1) by (simp only: parse_def d Let_def) (auto simp: d)
    then show ?thesis using assms(2) i by simp
  next
    case False
    then have "\<not> iv_valid v"
      using assms(1) by (auto simp only: parse_def d only_error_def intent_validation.simps sum.inject simp_thms split: if_split_asm)
    then show ?thesis using assms(2) by simp
  qed
qed

text \<open>C28: A valid intent, whose columns may be any value and whose other properties are texts, is
  translated without an exception, except when columns are joined that are no array: those of
  \<^verbatim>\<open>ADD_CONSTRAINT\<close>, for which the validation does not even ask, and a string, a number, a
  boolean or an object given as the columns of \<^verbatim>\<open>ADD_INDEX\<close>, \<^verbatim>\<open>DROP_INDEX\<close>
  or \<^verbatim>\<open>SPLIT_TABLE\<close>, which the validation lets pass.\<close>

theorem valid_intents_translate:
  assumes "parse d = Inr v" "iv_valid v" "as_intent d = Some i"
  shows "isl (translate i) \<longleftrightarrow> (\<nexists>cs. ip_columns (si_payload i) = Some (Col_Array cs))
    \<and> (si_type i = ''ADD_CONSTRAINT''
      \<or> ip_columns (si_payload i) \<noteq> None \<and> ip_columns (si_payload i) \<noteq> Some Col_Null
        \<and> si_type i \<in> {''ADD_INDEX'', ''DROP_INDEX'', ''SPLIT_TABLE''})"
proof -
  note ok = parse_valid[OF assms]
  have "isl (translate i) \<longleftrightarrow> isl (translate_phases i)"
    by (simp add: translate_def split: sum.split)
  moreover have "nullish_columns (si_payload i) \<longrightarrow> si_type i \<noteq> ''ADD_INDEX'' \<and> si_type i \<noteq> ''SPLIT_TABLE''"
    using ok by (auto simp: validate_type_def validate_defs no_columns_def nullish_columns_def)
  moreover have "isl (translate_phases i) \<longleftrightarrow> joinable (si_payload i) = None
    \<and> (si_type i = ''ADD_CONSTRAINT'' \<or> si_type i = ''ADD_INDEX'' \<or> si_type i = ''SPLIT_TABLE''
      \<or> si_type i = ''DROP_INDEX'' \<and> \<not> nullish_columns (si_payload i))"
    by (cases "joinable (si_payload i)") (simp_all add: translate_phases_def translate_defs Let_def)
  moreover have "joinable (si_payload i) = None \<longleftrightarrow> (\<nexists>cs. ip_columns (si_payload i) = Some (Col_Array cs))"
    by (auto simp: joinable_def split: option.split columns_value.split)
  ultimately show ?thesis by (auto simp: nullish_columns_def)
qed

lemma valid_intents_translate_witness:
  "isl (translate (sample_intent ''ADD_CONSTRAINT'')) \<and> \<not> isl (translate (sample_intent ''RENAME_COLUMN''))"
proof -
  have "isl (translate (sample_intent ty)) \<longleftrightarrow> ty = ''ADD_CONSTRAINT''"
    if "ty = ''ADD_CONSTRAINT'' \<or> ty = ''RENAME_COLUMN''" for ty
  proof -
    have "\<exists>v. parse (sample_intent_data ty) = Inr v \<and> iv_valid v"
      using that by (elim disjE) (simp_all add: parse_def sample_intent_data_def required_fields_def validate_type_def
          validateAddConstraint_def validateRenameColumn_def msg_if_def)
    then obtain v where "parse (sample_intent_data ty) = Inr v" "iv_valid v" by blast
    moreover have "as_intent (sample_intent_data ty) = Some (sample_intent ty)"
      by (simp add: sample_intent_defs)
    ultimately show ?thesis using valid_intents_translate[of "sample_intent_data ty"] by (simp add: sample_intent_defs)
  qed
  then show ?thesis by simp
qed

text \<open>A missing part of the file is found, and the file then read as if it were there.\<close>

lemma missing_part_raises:
  assumes "id_version d = Some ''1.0''" "id_metadata d = None \<or> id_payload d = None"
  shows "parse d = Inl ''TypeError''"
  using assms by (auto simp: parse_def split: option.splits)

text \<open>A type the engine does not know is valid, and translated into nothing.\<close>

lemma unknown_type_is_valid:
  assumes "ip_table p = Some t" "t \<noteq> []" "im_author m = Some a" "a \<noteq> []" "im_description m = Some s" "s \<noteq> []"
  shows "parse \<lparr> id_version = Some ''1.0'', id_type = Some ''DROP_DATABASE'', id_metadata = Some m,
      id_payload = Some p \<rparr> = Inr \<lparr> iv_valid = True, iv_errors = [], iv_warnings = checkCommonIssues m p,
      iv_suggestions = [] \<rparr>"
  using assms by (simp add: parse_def required_fields_def validate_type_def msg_if_def)

text \<open>An estimate of rows makes the estimated time shorter: it is a number of
  minutes in words, which counts as nothing.\<close>

lemma minutes_count_nothing: "time_seconds (int_str k @ '' minutes'') = 0"
proof -
  have "CHR '':'' \<notin> set (int_str k)"
    using nat_str_digits[of "nat (- k)"] nat_str_digits[of "nat k"]
    by (auto simp: int_str_def list_all_iff is_digit_def dest!: bspec)
  then have "split_on (CHR '':'') (int_str k @ '' minutes'') = [int_str k @ '' minutes'']"
    by (intro split_on_word) simp
  then show ?thesis
    by (simp add: time_seconds_def number_or_0_def is_digit_def Let_def)
qed

lemma rows_shorten_estimate:
  assumes "si_type i = ''RENAME_COLUMN''" "ip_options (si_payload i) = Some x"
    and "io_estimatedRows x = Some r" "r \<noteq> 0" "translate i = Inr tr"
  shows "total_seconds (tr_phases tr) = 10"
proof -
  have t5: "time_seconds ''00:00:05'' = 5"
    by (simp add: time_seconds_def number_or_0_def digits_value_def is_digit_def Let_def)
  have "minutes_for (Some x) 10000 ''00:05:00'' = int_str \<lceil>(of_int r :: rat) / of_int 10000\<rceil> @ '' minutes''"
    using assms(3,4) by (simp add: minutes_for_def)
  then have "time_seconds (minutes_for (Some x) 10000 ''00:05:00'') = 0"
    using minutes_count_nothing by metis
  then show ?thesis
    using assms t5 by (auto simp: translate_def translate_phases_def translateRenameColumn_def total_seconds_def
        intent_operation_seconds_def Let_def)
qed

section \<open>Templates\<close>

definition blank_payload :: intent_payload where
  "blank_payload = \<lparr> ip_table = Some ''your_table_name'', ip_column = None, ip_newColumn = None, ip_newTable = None,
     ip_oldTable = None, ip_newType = None, ip_indexName = None, ip_columns = None, ip_constraintName = None,
     ip_constraintType = None, ip_constraintDefinition = None, ip_options = None \<rparr>"

definition template_payload :: "string \<Rightarrow> intent_payload \<times> string" where
  "template_payload ty = (let p = blank_payload in
     if ty = ''RENAME_COLUMN'' then (p\<lparr> ip_column := Some ''old_column_name'', ip_newColumn := Some ''new_column_name'' \<rparr>,
       ''Rename column from old_name to new_name'')
     else if ty = ''CHANGE_COLUMN_TYPE'' then (p\<lparr> ip_column := Some ''column_name'', ip_newType := Some ''VARCHAR(255)'' \<rparr>,
       ''Change column type to VARCHAR(255)'')
     else if ty = ''ADD_COLUMN'' then (p\<lparr> ip_column := Some ''new_column_name'', ip_newType := Some ''INTEGER'' \<rparr>,
       ''Add new integer column'')
     else if ty = ''DROP_COLUMN'' then (p\<lparr> ip_column := Some ''old_column_name'' \<rparr>,
       ''Remove deprecated column'')
     else if ty = ''ADD_INDEX'' then (p\<lparr> ip_indexName := Some ''idx_table_column'', ip_columns := Some (Col_Array [''column_name'']) \<rparr>,
       ''Add index for better query performance'')
     else if ty = ''DROP_INDEX'' then (p\<lparr> ip_indexName := Some ''idx_table_column'' \<rparr>,
       ''Remove unused index'')
     else if ty = ''ADD_CONSTRAINT'' then (p\<lparr> ip_constraintName := Some ''constraint_name'', ip_constraintType := Some ''UNIQUE'', ip_columns := Some (Col_Array [''column_name'']) \<rparr>,
       ''Add unique constraint'')
     else if ty = ''DROP_CONSTRAINT'' then (p\<lparr> ip_constraintName := Some ''constraint_name'' \<rparr>,
       ''Remove constraint'')
     else if ty = ''RENAME_TABLE'' then (p\<lparr> ip_newTable := Some ''new_table_name'' \<rparr>,
       ''Rename table for better naming'')
     else if ty = ''SPLIT_TABLE'' then (p\<lparr> ip_newTable := Some ''new_table_name'', ip_columns := Some (Col_Array [''column1'', ''column2'']) \<rparr>,
       ''Split table to improve performance'')
     else if ty = ''MERGE_TABLES'' then (p\<lparr> ip_newTable := Some ''target_table'', ip_oldTable := Some ''source_table'' \<rparr>,
       ''Merge tables for better organization'')
     else (p, ''Describe the schema change intent''))"

definition createTemplate :: "string \<Rightarrow> string \<Rightarrow> SchemaIntent" where
  "createTemplate now ty = (let (p, desc) = template_payload ty in
     \<lparr> si_version = ''1.0'', si_type = ty,
       si_metadata = \<lparr> im_author = Some ''developer@example.com'', im_description = Some desc,
         im_priority = Some ''MEDIUM'', im_estimatedImpact = Some ''MODERATE'', im_created = Some now,
         im_tags = Some [''schema-evolution''] \<rparr>,
       si_payload = p \<rparr>)"

text \<open>An intent as the data it is stored as.\<close>

definition as_data :: "SchemaIntent \<Rightarrow> intent_data" where
  "as_data i = \<lparr> id_version = Some (si_version i), id_type = Some (si_type i),
     id_metadata = Some (si_metadata i), id_payload = Some (si_payload i) \<rparr>"

definition intent_types :: "string list" where
  "intent_types = [''RENAME_COLUMN'', ''CHANGE_COLUMN_TYPE'', ''ADD_COLUMN'', ''DROP_COLUMN'', ''ADD_INDEX'', ''DROP_INDEX'',
     ''ADD_CONSTRAINT'', ''DROP_CONSTRAINT'', ''RENAME_TABLE'', ''SPLIT_TABLE'', ''MERGE_TABLES'']"

text \<open>The template of every type of intent, stored and parsed, is valid without
  a warning and is translated without an exception.\<close>

theorem templates_are_valid:
  assumes "ty \<in> set intent_types"
  shows "parse (as_data (createTemplate now ty))
      = Inr \<lparr> iv_valid = True, iv_errors = [], iv_warnings = [], iv_suggestions = [] \<rparr>
    \<and> \<not> isl (translate (createTemplate now ty))"
  using assms unfolding intent_types_def list.set insert_iff empty_iff simp_thms
  by (elim disjE; simp add: parse_def as_data_def createTemplate_def template_payload_def blank_payload_def
      required_fields_def validate_type_def validate_defs no_columns_def joinable_def nullish_columns_def checkCommonIssues_def msg_if_def
      snake_start_def is_digit_def translate_def translate_phases_def translate_defs Let_def)

lemma templates_are_valid_witness:
  "\<not> isl (translate (createTemplate ''now'' ''SPLIT_TABLE''))"
  using templates_are_valid[of "''SPLIT_TABLE''" "''now''"] by (simp add: intent_types_def)

end
