(* ===== verification/Schema_Diff.thy ===== *)
theory Schema_Diff
  imports Js_Text "HOL-Library.AList"
begin

text \<open>
  The comparison of the entities with the database
  (\<^verbatim>\<open>schema/services/schema-diff.service.ts\<close>): the tables and columns of both sides
  as objects keyed by normalised names, the differences with their severities,
  the summary, and the coarse comparison of table names. An object is the list
  of its entries in the order of insertion; names that JavaScript objects
  inherit (\<^verbatim>\<open>constructor\<close>, \<^verbatim>\<open>toString\<close>) and names that are numbers, which an object
  would order first, are outside the model. The answers of the catalogue
  queries and the metadata of the entities are arguments.
\<close>

section \<open>Objects\<close>

definition js_object :: "('x \<Rightarrow> string) \<Rightarrow> ('x \<Rightarrow> 'v) \<Rightarrow> 'x list \<Rightarrow> (string \<times> 'v) list" where
  "js_object k v xs = foldl (\<lambda>acc x. AList.update (k x) (v x) acc) [] xs"

lemma js_object_keys_distinct: "distinct (map fst (js_object k v xs))"
proof -
  have "distinct (map fst acc) \<Longrightarrow> distinct (map fst (foldl (\<lambda>acc x. AList.update (k x) (v x) acc) acc xs))" for acc
    by (induction xs arbitrary: acc) (simp_all add: distinct_update)
  then show ?thesis by (simp add: js_object_def)
qed

lemma js_object_snoc: "js_object k v (xs @ [x]) = AList.update (k x) (v x) (js_object k v xs)"
  by (simp add: js_object_def)

lemma js_object_lookup: "map_of (js_object k v xs) key
    = map_option v (lookup_by k key (rev xs))"
  by (induction xs rule: rev_induct) (auto simp: js_object_snoc update_conv' lookup_by_def js_object_def)

lemma js_object_keys: "fst ` set (js_object k v xs) = k ` set xs"
  by (induction xs rule: rev_induct) (auto simp: js_object_snoc dom_update js_object_def)

section \<open>Data\<close>

datatype difference_severity = LOW_DIFFERENCE | MEDIUM_DIFFERENCE | HIGH_DIFFERENCE

text \<open>A default: absent (\<^verbatim>\<open>undefined\<close> and \<^verbatim>\<open>null\<close>), a value of a scalar type (a number
  with the text it prints as), or an object, array or function with its text.\<close>

datatype default_value =
    No_Default
  | Bool_Default bool
  | Number_Default string
  | Text_Default string
  | Object_Default string

datatype entity_type = TypeClass string | TypeName string

record diff_column =
  dc_name :: string
  dc_type :: string
  dc_nullable :: bool
  dc_default :: default_value
  dc_primaryKey :: bool
  dc_unique :: bool

record diff_table =
  dt_name :: string
  dt_columns :: "(string \<times> diff_column) list"
  dt_indexes :: "(string \<times> string) list"
  dt_constraints :: "(string \<times> string \<times> string) list"

type_synonym diff_schema = "(string \<times> diff_table) list"

text \<open>One side of a difference; the unique flag, as every field, only when it is given.\<close>

record difference_side =
  sd_type :: "string option"
  sd_nullable :: "bool option"
  sd_default :: default_value
  sd_primaryKey :: "bool option"
  sd_unique :: "bool option"

definition no_side :: difference_side where
  "no_side = \<lparr> sd_type = None, sd_nullable = None, sd_default = No_Default, sd_primaryKey = None, sd_unique = None \<rparr>"

definition whole_side :: "diff_column \<Rightarrow> difference_side" where
  "whole_side c = \<lparr> sd_type = Some (dc_type c), sd_nullable = Some (dc_nullable c), sd_default = dc_default c,
     sd_primaryKey = Some (dc_primaryKey c), sd_unique = Some (dc_unique c) \<rparr>"

record ColumnDifference =
  cd_severity :: difference_severity
  cd_description :: string
  cd_entity :: difference_side
  cd_database :: difference_side

record SchemaDifference =
  df_table :: string
  df_column :: "string option"
  df_severity :: difference_severity
  df_description :: string
  df_entity :: difference_side
  df_database :: difference_side

text \<open>What the catalogue and the entities say.\<close>

record db_column =
  bc_name :: string
  bc_type :: string
  bc_nullable :: bool
  bc_default :: "string option"
  bc_primary_key :: bool

record db_table =
  bt_name :: string
  bt_columns :: "db_column list"
  bt_indexes :: "(string \<times> string) list"
  bt_constraints :: "(string \<times> string \<times> string) list"

record entity_column =
  ec_databaseName :: string
  ec_type :: entity_type
  ec_isNullable :: bool
  ec_default :: default_value
  ec_isPrimary :: bool

record entity_metadata =
  em_tableName :: string
  em_columns :: "entity_column list"

section \<open>Normal forms\<close>

definition is_lower :: "char \<Rightarrow> bool" where
  "is_lower c = (let n = (of_char c :: nat) in 97 \<le> n \<and> n \<le> 122)"

definition is_upper :: "char \<Rightarrow> bool" where
  "is_upper c = (let n = (of_char c :: nat) in 65 \<le> n \<and> n \<le> 90)"

text \<open>\<^verbatim>\<open>/([a-z])([A-Z])/g\<close>: a match takes both letters, and the next one cannot begin
  with the second.\<close>

fun split_camel :: "string \<Rightarrow> string" where
  "split_camel (a # b # s) = (if is_lower a \<and> is_upper b then a # CHR ''_'' # b # split_camel s
     else a # split_camel (b # s))"
| "split_camel s = s"

definition normalizeTableName :: "string \<Rightarrow> string" where
  "normalizeTableName tableName = toLowerCase (split_camel tableName)"

fun normalizeEntityType :: "entity_type \<Rightarrow> string" where
  "normalizeEntityType (TypeClass n) = (
     if n = ''String'' then ''varchar''
     else if n = ''Number'' then ''integer''
     else if n = ''Date'' then ''timestamp''
     else if n = ''Boolean'' then ''boolean''
     else toLowerCase n)"
| "normalizeEntityType (TypeName n) = n"

definition db_type_map :: "(string \<times> string) list" where
  "db_type_map = [(''character varying'', ''varchar''), (''varchar'', ''varchar''),
     (''timestamp without time zone'', ''timestamp''), (''timestamp'', ''timestamp''),
     (''integer'', ''int''), (''int4'', ''int''), (''bigint'', ''bigint''), (''int8'', ''bigint''),
     (''numeric'', ''decimal''), (''decimal'', ''decimal''), (''boolean'', ''boolean''),
     (''uuid'', ''uuid''), (''jsonb'', ''jsonb''), (''USER-DEFINED'', ''enum'')]"

definition normalizeDbType :: "string \<Rightarrow> string" where
  "normalizeDbType ty = (case map_of db_type_map ty of Some n \<Rightarrow> n | None \<Rightarrow> ty)"

text \<open>The text of a default, unless it is falsy.\<close>

fun default_text :: "default_value \<Rightarrow> string option" where
  "default_text No_Default = None"
| "default_text (Bool_Default b) = (if b then Some ''true'' else None)"
| "default_text (Number_Default n) = (if n = ''0'' \<or> n = ''NaN'' then None else Some n)"
| "default_text (Text_Default s) = (if s = [] then None else Some s)"
| "default_text (Object_Default s) = Some s"

definition cast_char :: "char \<Rightarrow> bool" where
  "cast_char c = (is_word c \<or> is_space c)"

text \<open>\<^verbatim>\<open>/::[\w\s]+/g\<close> replaced by nothing.\<close>

function strip_casts :: "string \<Rightarrow> string" where
  "strip_casts [] = []"
| "strip_casts (c # s) = (if lit_matches ''::'' (c # s) \<and> (case drop 1 s of d # _ \<Rightarrow> cast_char d | [] \<Rightarrow> False)
     then strip_casts (dropWhile cast_char (drop 1 s)) else c # strip_casts s)"
  by pat_completeness auto

termination
  by (relation "measure length") (auto intro!: le_imp_less_Suc intro: order_trans[OF length_dropWhile_le])

definition normalizeDefault :: "default_value \<Rightarrow> string option" where
  "normalizeDefault v = (case default_text v of
     None \<Rightarrow> None
   | Some s \<Rightarrow> if includes_str ''createDateDefault'' s \<or> includes_str ''updateDateDefault'' s then Some ''now''
       else let t = (if s = ''[object Object]'' then ''{}'' else s)
            in Some (trim (filter (\<lambda>c. c \<noteq> CHR 0x27) (filter (\<lambda>c. c \<notin> {CHR ''('', CHR '')''}) (strip_casts t)))))"

section \<open>The two schemas\<close>

definition sql_like_prefix :: "string \<Rightarrow> string \<Rightarrow> bool" where
  "sql_like_prefix p s = (starts_with p s \<and> length p < length s)"

text \<open>The underscore of \<^verbatim>\<open>LIKE 'pg_%'\<close> stands for any character.\<close>

definition listed_table :: "string \<Rightarrow> bool" where
  "listed_table n = (\<not> sql_like_prefix ''pg'' n \<and> \<not> sql_like_prefix ''information'' n \<and> \<not> sql_like_prefix ''sql'' n
     \<and> n \<notin> {''_migrations'', ''_migrations_lock''})"

definition of_db_column :: "db_column \<Rightarrow> diff_column" where
  "of_db_column c = \<lparr> dc_name = bc_name c, dc_type = bc_type c, dc_nullable = bc_nullable c,
     dc_default = (case bc_default c of None \<Rightarrow> No_Default | Some s \<Rightarrow> Text_Default s),
     dc_primaryKey = bc_primary_key c, dc_unique = False \<rparr>"

definition of_db_table :: "db_table \<Rightarrow> diff_table" where
  "of_db_table t = \<lparr> dt_name = normalizeTableName (bt_name t),
     dt_columns = js_object bc_name of_db_column (bt_columns t),
     dt_indexes = js_object fst snd (bt_indexes t), dt_constraints = js_object fst snd (bt_constraints t) \<rparr>"

definition getDatabaseSchemaDetails :: "db_table list \<Rightarrow> diff_schema" where
  "getDatabaseSchemaDetails db = js_object (\<lambda>t. normalizeTableName (bt_name t)) of_db_table
     (filter (\<lambda>t. listed_table (bt_name t)) db)"

definition of_entity_column :: "entity_column \<Rightarrow> diff_column" where
  "of_entity_column c = \<lparr> dc_name = ec_databaseName c, dc_type = normalizeEntityType (ec_type c),
     dc_nullable = ec_isNullable c, dc_default = ec_default c, dc_primaryKey = ec_isPrimary c, dc_unique = False \<rparr>"

definition of_entity :: "entity_metadata \<Rightarrow> diff_table" where
  "of_entity m = \<lparr> dt_name = normalizeTableName (em_tableName m),
     dt_columns = js_object ec_databaseName of_entity_column (em_columns m), dt_indexes = [], dt_constraints = [] \<rparr>"

definition getEntitySchemaDetails :: "entity_metadata list \<Rightarrow> diff_schema" where
  "getEntitySchemaDetails ms = js_object (\<lambda>m. normalizeTableName (em_tableName m)) of_entity ms"

section \<open>Columns\<close>

definition diff_if :: "bool \<Rightarrow> ColumnDifference \<Rightarrow> ColumnDifference list" where
  "diff_if b d = (if b then [d] else [])"

definition yes_no :: "bool \<Rightarrow> string \<Rightarrow> string \<Rightarrow> string" where
  "yes_no b y n = (if b then y else n)"

definition quoted_name :: "string \<Rightarrow> string" where
  "quoted_name n = [CHR 0x27] @ n @ [CHR 0x27]"

definition mismatch :: "string \<Rightarrow> string \<Rightarrow> string \<Rightarrow> string" where
  "mismatch what e d = what @ '' mismatch: entity '' @ e @ '', database '' @ d"

definition default_side :: "string option \<Rightarrow> default_value" where
  "default_side d = (case d of None \<Rightarrow> No_Default | Some s \<Rightarrow> Text_Default s)"

definition compareColumns :: "diff_column \<Rightarrow> diff_column \<Rightarrow> ColumnDifference list" where
  "compareColumns e d = (let
       entityType = normalizeDbType (normalizeEntityType (TypeName (dc_type e)));
       dbType = normalizeDbType (dc_type d);
       entityDefault = normalizeDefault (dc_default e);
       dbDefault = normalizeDefault (dc_default d)
     in diff_if (entityType \<noteq> dbType)
          \<lparr> cd_severity = HIGH_DIFFERENCE,
            cd_description = mismatch ''Type'' (''has  @ entityType @ '') (''has  @ dbType @ ''),
            cd_entity = no_side\<lparr> sd_type := Some entityType \<rparr>, cd_database = no_side\<lparr> sd_type := Some dbType \<rparr> \<rparr>
      @ diff_if (dc_nullable e \<noteq> dc_nullable d)
          \<lparr> cd_severity = MEDIUM_DIFFERENCE,
            cd_description = mismatch ''Nullable'' (''is '' @ yes_no (dc_nullable e) ''nullable'' ''NOT NULL'')
              (''is '' @ yes_no (dc_nullable d) ''nullable'' ''NOT NULL''),
            cd_entity = no_side\<lparr> sd_nullable := Some (dc_nullable e) \<rparr>,
            cd_database = no_side\<lparr> sd_nullable := Some (dc_nullable d) \<rparr> \<rparr>
      @ diff_if (entityDefault \<noteq> dbDefault \<and> entityDefault \<noteq> None)
          \<lparr> cd_severity = MEDIUM_DIFFERENCE,
            cd_description = mismatch ''Default value'' (''has  @ show_text entityDefault @ '')
              (''has  @ show_text dbDefault @ ''),
            cd_entity = no_side\<lparr> sd_default := default_side entityDefault \<rparr>,
            cd_database = no_side\<lparr> sd_default := default_side dbDefault \<rparr> \<rparr>
      @ diff_if (dc_primaryKey e \<noteq> dc_primaryKey d)
          \<lparr> cd_severity = HIGH_DIFFERENCE,
            cd_description = mismatch ''Primary key'' (''is '' @ yes_no (dc_primaryKey e) ''PRIMARY KEY'' ''NOT PRIMARY KEY'')
              (''is '' @ yes_no (dc_primaryKey d) ''PRIMARY KEY'' ''NOT PRIMARY KEY''),
            cd_entity = no_side\<lparr> sd_primaryKey := Some (dc_primaryKey e) \<rparr>,
            cd_database = no_side\<lparr> sd_primaryKey := Some (dc_primaryKey d) \<rparr> \<rparr>
      @ diff_if (dc_unique e \<noteq> dc_unique d)
          \<lparr> cd_severity = MEDIUM_DIFFERENCE,
            cd_description = mismatch ''Unique constraint'' (''is '' @ yes_no (dc_unique e) ''UNIQUE'' ''NOT UNIQUE'')
              (''is '' @ yes_no (dc_unique d) ''UNIQUE'' ''NOT UNIQUE''),
            cd_entity = no_side\<lparr> sd_unique := Some (dc_unique e) \<rparr>,
            cd_database = no_side\<lparr> sd_unique := Some (dc_unique d) \<rparr> \<rparr>)"

definition at_column :: "string \<Rightarrow> string \<Rightarrow> ColumnDifference \<Rightarrow> SchemaDifference" where
  "at_column t c d = \<lparr> df_table = t, df_column = Some c, df_severity = cd_severity d,
     df_description = cd_description d, df_entity = cd_entity d, df_database = cd_database d \<rparr>"

section \<open>Schemas\<close>

definition missing_column :: "string \<Rightarrow> string \<Rightarrow> diff_column \<Rightarrow> SchemaDifference" where
  "missing_column t c ec = \<lparr> df_table = t, df_column = Some c, df_severity = HIGH_DIFFERENCE,
     df_description = ''Column '' @ quoted_name c @ '' exists in entity but not in database table '' @ quoted_name t,
     df_entity = whole_side ec, df_database = no_side \<rparr>"

definition extra_column :: "string \<Rightarrow> string \<Rightarrow> diff_column \<Rightarrow> SchemaDifference" where
  "extra_column t c dc = \<lparr> df_table = t, df_column = Some c, df_severity = MEDIUM_DIFFERENCE,
     df_description = ''Column '' @ quoted_name c @ '' exists in database but not in entity table '' @ quoted_name t,
     df_entity = no_side, df_database = whole_side dc \<rparr>"

definition compare_table :: "string \<Rightarrow> diff_table \<Rightarrow> diff_table \<Rightarrow> SchemaDifference list" where
  "compare_table t entityTable dbTable =
     concat (map (\<lambda>(c, ec). case map_of (dt_columns dbTable) c of
         None \<Rightarrow> [missing_column t c ec]
       | Some dc \<Rightarrow> map (at_column t c) (compareColumns ec dc)) (dt_columns entityTable))
     @ concat (map (\<lambda>(c, dc). case map_of (dt_columns entityTable) c of
         None \<Rightarrow> [extra_column t c dc]
       | Some _ \<Rightarrow> []) (dt_columns dbTable))"

definition missing_table :: "string \<Rightarrow> SchemaDifference" where
  "missing_table t = \<lparr> df_table = t, df_column = None, df_severity = HIGH_DIFFERENCE,
     df_description = ''Table '' @ quoted_name t @ '' exists in entities but not in database'',
     df_entity = no_side, df_database = no_side \<rparr>"

definition extra_table :: "string \<Rightarrow> SchemaDifference" where
  "extra_table t = \<lparr> df_table = t, df_column = None, df_severity = MEDIUM_DIFFERENCE,
     df_description = ''Table '' @ quoted_name t @ '' exists in database but not in entities'',
     df_entity = no_side, df_database = no_side \<rparr>"

definition compareSchemas :: "diff_schema \<Rightarrow> diff_schema \<Rightarrow> SchemaDifference list" where
  "compareSchemas dbSchema entitySchema =
     concat (map (\<lambda>(t, et). case map_of dbSchema t of
         None \<Rightarrow> [missing_table t]
       | Some dt \<Rightarrow> compare_table t et dt) entitySchema)
     @ concat (map (\<lambda>(t, dt). case map_of entitySchema t of
         None \<Rightarrow> [extra_table t]
       | Some _ \<Rightarrow> []) dbSchema)"

section \<open>The report\<close>

record diff_summary =
  totalDifferences :: nat
  criticalDifferences :: nat
  mediumDifferences :: nat
  lowDifferences :: nat

definition generateSummary :: "SchemaDifference list \<Rightarrow> diff_summary" where
  "generateSummary ds = foldl (\<lambda>s d. case df_severity d of
       HIGH_DIFFERENCE \<Rightarrow> s\<lparr> criticalDifferences := criticalDifferences s + 1 \<rparr>
     | MEDIUM_DIFFERENCE \<Rightarrow> s\<lparr> mediumDifferences := mediumDifferences s + 1 \<rparr>
     | LOW_DIFFERENCE \<Rightarrow> s\<lparr> lowDifferences := lowDifferences s + 1 \<rparr>)
     \<lparr> totalDifferences = length ds, criticalDifferences = 0, mediumDifferences = 0, lowDifferences = 0 \<rparr> ds"

definition getNewTables :: "diff_schema \<Rightarrow> diff_schema \<Rightarrow> string list" where
  "getNewTables dbSchema entitySchema = filter (\<lambda>t. map_of dbSchema t = None) (map fst entitySchema)"

definition getDroppedTables :: "diff_schema \<Rightarrow> diff_schema \<Rightarrow> string list" where
  "getDroppedTables dbSchema entitySchema = filter (\<lambda>t. map_of entitySchema t = None) (map fst dbSchema)"

text \<open>A \<^verbatim>\<open>Set\<close> keeps the order in which its members were added first.\<close>

definition getAlteredTables :: "SchemaDifference list \<Rightarrow> string list" where
  "getAlteredTables ds = foldl (\<lambda>acc d. if df_table d = [] \<or> df_table d \<in> set acc then acc else acc @ [df_table d]) [] ds"

record DetailedSchemaDiff =
  dd_differences :: "SchemaDifference list"
  dd_newTables :: "string list"
  dd_droppedTables :: "string list"
  dd_alteredTables :: "string list"
  dd_summary :: diff_summary

definition getDetailedSchemaDiff :: "db_table list \<Rightarrow> entity_metadata list \<Rightarrow> DetailedSchemaDiff" where
  "getDetailedSchemaDiff db ms = (let
       dbSchema = getDatabaseSchemaDetails db;
       entitySchema = getEntitySchemaDetails ms;
       differences = compareSchemas dbSchema entitySchema
     in \<lparr> dd_differences = differences,
          dd_newTables = getNewTables dbSchema entitySchema,
          dd_droppedTables = getDroppedTables dbSchema entitySchema,
          dd_alteredTables = getAlteredTables differences,
          dd_summary = generateSummary differences \<rparr>)"

section \<open>The comparison of names\<close>

record SchemaDiff =
  sdf_up :: "string list"
  sdf_down :: "string list"
  sdf_newTables :: "string list"
  sdf_droppedTables :: "string list"
  sdf_alteredTables :: "string list"

definition public_table :: "string \<Rightarrow> bool" where
  "public_table n = (\<not> starts_with ''pg_'' n \<and> \<not> starts_with ''information_'' n \<and> \<not> starts_with ''sql_'' n
     \<and> n \<noteq> ''_migrations'' \<and> n \<noteq> ''_migrations_lock'')"

definition detectSchemaDiff :: "string list \<Rightarrow> string list \<Rightarrow> SchemaDiff" where
  "detectSchemaDiff table_names entity_names = (let
       publicTables = filter public_table table_names;
       newTables = filter (\<lambda>m. normalizeTableName m \<notin> set publicTables) entity_names;
       droppedTables = filter (\<lambda>t. normalizeTableName t \<notin> normalizeTableName ` set entity_names) publicTables
     in \<lparr> sdf_up = map (\<lambda>m. ''-- CREATE TABLE '' @ m) newTables @ map (\<lambda>t. ''-- DROP TABLE '' @ t) droppedTables,
          sdf_down = map (\<lambda>m. ''-- DROP TABLE '' @ m) newTables @ map (\<lambda>t. ''-- CREATE TABLE '' @ t) droppedTables,
          sdf_newTables = newTables, sdf_droppedTables = droppedTables, sdf_alteredTables = [] \<rparr>)"

section \<open>When two columns agree\<close>

definition column_agrees :: "diff_column \<Rightarrow> diff_column \<Rightarrow> bool" where
  "column_agrees e d = (normalizeDbType (dc_type e) = normalizeDbType (dc_type d)
     \<and> dc_nullable e = dc_nullable d
     \<and> (normalizeDefault (dc_default e) = None \<or> normalizeDefault (dc_default e) = normalizeDefault (dc_default d))
     \<and> dc_primaryKey e = dc_primaryKey d \<and> dc_unique e = dc_unique d)"

lemma diff_if_empty [simp]: "diff_if b d = [] \<longleftrightarrow> \<not> b"
  by (simp add: diff_if_def)

lemma compareColumns_empty: "compareColumns e d = [] \<longleftrightarrow> column_agrees e d"
  by (auto simp: compareColumns_def Let_def column_agrees_def)

lemma never_low: "cd \<in> set (compareColumns e d) \<Longrightarrow> cd_severity cd \<noteq> LOW_DIFFERENCE"
  by (auto simp: compareColumns_def Let_def diff_if_def split: if_splits)

section \<open>When two schemas agree\<close>

text \<open>Two objects hold the same keys, and under each key values related by \<^verbatim>\<open>r\<close>.\<close>

definition same_objects :: "('v \<Rightarrow> 'w \<Rightarrow> bool) \<Rightarrow> (string \<times> 'v) list \<Rightarrow> (string \<times> 'w) list \<Rightarrow> bool" where
  "same_objects r a b = (\<forall>k. rel_option r (map_of a k) (map_of b k))"

definition tables_agree :: "diff_table \<Rightarrow> diff_table \<Rightarrow> bool" where
  "tables_agree e d = same_objects column_agrees (dt_columns e) (dt_columns d)"

lemma object_scan_empty:
  assumes "distinct (map fst a)" "distinct (map fst b)"
    and "\<And>k v w. map_of a k = Some v \<Longrightarrow> map_of b k = Some w \<Longrightarrow> f k v w = [] \<longleftrightarrow> r v w"
  shows "concat (map (\<lambda>(k, v). case map_of b k of None \<Rightarrow> [x k v] | Some w \<Rightarrow> f k v w) a)
      @ concat (map (\<lambda>(k, w). case map_of a k of None \<Rightarrow> [y k w] | Some _ \<Rightarrow> []) b) = []
    \<longleftrightarrow> same_objects r a b"
proof -
  have one: "(case map_of b k of None \<Rightarrow> [x k v] | Some w \<Rightarrow> f k v w) = [] \<longleftrightarrow> (\<exists>w. map_of b k = Some w \<and> r v w)"
    if "map_of a k = Some v" for k v
    using that by (cases "map_of b k") (simp_all add: assms(3))
  have two: "(case map_of a k of None \<Rightarrow> [y k w] | Some _ \<Rightarrow> []) = [] \<longleftrightarrow> (\<exists>v. map_of a k = Some v)" for k w
    by (cases "map_of a k") simp_all
  have l: "concat (map (\<lambda>(k, v). case map_of b k of None \<Rightarrow> [x k v] | Some w \<Rightarrow> f k v w) a) = []
      \<longleftrightarrow> (\<forall>k v. map_of a k = Some v \<longrightarrow> (\<exists>w. map_of b k = Some w \<and> r v w))"
  proof -
    have "concat (map (\<lambda>(k, v). case map_of b k of None \<Rightarrow> [x k v] | Some w \<Rightarrow> f k v w) a) = []
        \<longleftrightarrow> (\<forall>k v. map_of a k = Some v \<longrightarrow> (case map_of b k of None \<Rightarrow> [x k v] | Some w \<Rightarrow> f k v w) = [])"
      unfolding concat_eq_Nil_conv set_map ball_simps map_of_eq_Some_iff[OF assms(1)]
      by (simp only: Ball_def split_paired_All prod.case)
    then show ?thesis by (simp only: one cong: imp_cong)
  qed
  have r: "concat (map (\<lambda>(k, w). case map_of a k of None \<Rightarrow> [y k w] | Some _ \<Rightarrow> []) b) = []
      \<longleftrightarrow> (\<forall>k w. map_of b k = Some w \<longrightarrow> (\<exists>v. map_of a k = Some v))"
    unfolding concat_eq_Nil_conv set_map ball_simps map_of_eq_Some_iff[OF assms(2)]
    by (simp only: Ball_def split_paired_All prod.case two)
  show ?thesis
    unfolding append_is_Nil_conv l r same_objects_def
  proof (intro iffI allI)
    fix k
    assume "(\<forall>k v. map_of a k = Some v \<longrightarrow> (\<exists>w. map_of b k = Some w \<and> r v w))
      \<and> (\<forall>k w. map_of b k = Some w \<longrightarrow> (\<exists>v. map_of a k = Some v))"
    then show "rel_option r (map_of a k) (map_of b k)"
      by (cases "map_of a k"; cases "map_of b k") force+
  next
    assume h: "\<forall>k. rel_option r (map_of a k) (map_of b k)"
    have "\<exists>w. map_of b k = Some w \<and> r v w" if "map_of a k = Some v" for k v
      using h[rule_format, of k] that by (cases "map_of b k") auto
    moreover have "\<exists>v. map_of a k = Some v" if "map_of b k = Some w" for k w
      using h[rule_format, of k] that by (cases "map_of a k") auto
    ultimately show "(\<forall>k v. map_of a k = Some v \<longrightarrow> (\<exists>w. map_of b k = Some w \<and> r v w))
      \<and> (\<forall>k w. map_of b k = Some w \<longrightarrow> (\<exists>v. map_of a k = Some v))" by blast
  qed
qed

lemma compare_table_empty:
  assumes "distinct (map fst (dt_columns e))" "distinct (map fst (dt_columns d))"
  shows "compare_table t e d = [] \<longleftrightarrow> tables_agree e d"
  unfolding compare_table_def tables_agree_def
  by (rule object_scan_empty[OF assms]) (auto simp: compareColumns_empty)

definition schemas_agree :: "diff_schema \<Rightarrow> diff_schema \<Rightarrow> bool" where
  "schemas_agree dbSchema entitySchema = same_objects tables_agree entitySchema dbSchema"

lemma columns_distinct:
  "map_of (getDatabaseSchemaDetails db) t = Some d \<Longrightarrow> distinct (map fst (dt_columns d))"
  "map_of (getEntitySchemaDetails ms) t = Some e \<Longrightarrow> distinct (map fst (dt_columns e))"
  by (auto simp: getDatabaseSchemaDetails_def getEntitySchemaDetails_def js_object_lookup of_db_table_def of_entity_def
      js_object_keys_distinct)

lemma report_empty: "dd_differences (getDetailedSchemaDiff db ms) = []
    \<longleftrightarrow> schemas_agree (getDatabaseSchemaDetails db) (getEntitySchemaDetails ms)"
proof -
  have d: "distinct (map fst (getEntitySchemaDetails ms))" "distinct (map fst (getDatabaseSchemaDetails db))"
    by (simp_all add: getEntitySchemaDetails_def getDatabaseSchemaDetails_def js_object_keys_distinct)
  show ?thesis
    unfolding getDetailedSchemaDiff_def Let_def schemas_agree_def DetailedSchemaDiff.select_convs compareSchemas_def
    by (rule object_scan_empty[OF d]) (rule compare_table_empty, erule columns_distinct, erule columns_distinct)
qed

text \<open>C29: The detailed report lists no difference exactly when the two schemas agree: the
  same tables under their normalised names, the same columns in each, and under
  each column the same normal form of the type, the same nullability and key,
  and the same normalised default unless the entity has none.\<close>

theorem report_empty_iff_schemas_agree:
  "dd_differences (getDetailedSchemaDiff db ms) = []
    \<longleftrightarrow> schemas_agree (getDatabaseSchemaDetails db) (getEntitySchemaDetails ms)"
  by (rule report_empty)

section \<open>What the report counts\<close>

lemma generateSummary_counts:
  "generateSummary ds = \<lparr> totalDifferences = length ds,
     criticalDifferences = length (filter (\<lambda>d. df_severity d = HIGH_DIFFERENCE) ds),
     mediumDifferences = length (filter (\<lambda>d. df_severity d = MEDIUM_DIFFERENCE) ds),
     lowDifferences = length (filter (\<lambda>d. df_severity d = LOW_DIFFERENCE) ds) \<rparr>"
proof -
  have "foldl (\<lambda>s d. case df_severity d of
       HIGH_DIFFERENCE \<Rightarrow> s\<lparr> criticalDifferences := criticalDifferences s + 1 \<rparr>
     | MEDIUM_DIFFERENCE \<Rightarrow> s\<lparr> mediumDifferences := mediumDifferences s + 1 \<rparr>
     | LOW_DIFFERENCE \<Rightarrow> s\<lparr> lowDifferences := lowDifferences s + 1 \<rparr>)
     \<lparr> totalDifferences = n, criticalDifferences = h, mediumDifferences = m, lowDifferences = l \<rparr> ds
    = \<lparr> totalDifferences = n,
     criticalDifferences = h + length (filter (\<lambda>d. df_severity d = HIGH_DIFFERENCE) ds),
     mediumDifferences = m + length (filter (\<lambda>d. df_severity d = MEDIUM_DIFFERENCE) ds),
     lowDifferences = l + length (filter (\<lambda>d. df_severity d = LOW_DIFFERENCE) ds) \<rparr>" for n h m l
    by (induction ds arbitrary: h m l) (auto split: difference_severity.split)
  from this[of "length ds" 0 0 0] show ?thesis by (simp add: generateSummary_def)
qed

lemma compareSchemas_not_low: "d \<in> set (compareSchemas db es) \<Longrightarrow> df_severity d \<noteq> LOW_DIFFERENCE"
  by (auto simp: compareSchemas_def compare_table_def missing_table_def extra_table_def missing_column_def
      extra_column_def at_column_def never_low split: option.splits)

lemma getAlteredTables_props:
  "distinct (getAlteredTables ds)" "set (getAlteredTables ds) = df_table ` set ds - {[]}"
  by (induction ds rule: rev_induct) (auto simp: getAlteredTables_def)

lemma dropped_and_new_differ:
  "t \<in> set (getNewTables db es) \<Longrightarrow> missing_table t \<in> set (compareSchemas db es)"
  "t \<in> set (getDroppedTables db es) \<Longrightarrow> extra_table t \<in> set (compareSchemas db es)"
  by (force simp: getNewTables_def getDroppedTables_def compareSchemas_def)+

text \<open>The report counts every difference once, none of them as low, and lists
  among the altered tables, without repetition, also the new and the dropped ones.\<close>

lemma report_totals:
  fixes db ms
  defines "r \<equiv> getDetailedSchemaDiff db ms"
  shows "totalDifferences (dd_summary r) = criticalDifferences (dd_summary r) + mediumDifferences (dd_summary r)"
    "lowDifferences (dd_summary r) = 0" "distinct (dd_alteredTables r)"
    "set (dd_newTables r) \<union> set (dd_droppedTables r) - {[]} \<subseteq> set (dd_alteredTables r)"
proof -
  let ?ds = "dd_differences r"
  have ds: "dd_summary r = generateSummary ?ds" "dd_alteredTables r = getAlteredTables ?ds"
    "?ds = compareSchemas (getDatabaseSchemaDetails db) (getEntitySchemaDetails ms)"
    "dd_newTables r = getNewTables (getDatabaseSchemaDetails db) (getEntitySchemaDetails ms)"
    "dd_droppedTables r = getDroppedTables (getDatabaseSchemaDetails db) (getEntitySchemaDetails ms)"
    by (simp_all add: r_def getDetailedSchemaDiff_def Let_def)
  have nl: "\<forall>d \<in> set ?ds. df_severity d \<noteq> LOW_DIFFERENCE"
    unfolding ds(3) using compareSchemas_not_low by blast
  then have "filter (\<lambda>d. df_severity d \<noteq> HIGH_DIFFERENCE) ?ds = filter (\<lambda>d. df_severity d = MEDIUM_DIFFERENCE) ?ds"
    by (intro filter_cong refl) (auto intro: difference_severity.exhaust)
  then show "totalDifferences (dd_summary r) = criticalDifferences (dd_summary r) + mediumDifferences (dd_summary r)"
    using sum_length_filter_compl[of "\<lambda>d. df_severity d = HIGH_DIFFERENCE" ?ds]
    by (simp add: ds(1) generateSummary_counts)
  show "lowDifferences (dd_summary r) = 0"
    using nl by (simp add: ds(1) generateSummary_counts filter_empty_conv)
  show "distinct (dd_alteredTables r)"
    by (simp add: ds(2) getAlteredTables_props)
  have new: "t \<in> df_table ` set ?ds" if "t \<in> set (dd_newTables r)" for t
    using imageI[OF dropped_and_new_differ(1)[OF that[unfolded ds(4)]], of df_table]
    unfolding ds(3) by (simp add: missing_table_def)
  have dropped: "t \<in> df_table ` set ?ds" if "t \<in> set (dd_droppedTables r)" for t
    using imageI[OF dropped_and_new_differ(2)[OF that[unfolded ds(5)]], of df_table]
    unfolding ds(3) by (simp add: extra_table_def)
  show "set (dd_newTables r) \<union> set (dd_droppedTables r) - {[]} \<subseteq> set (dd_alteredTables r)"
    using new dropped by (auto simp: ds(2) getAlteredTables_props)
qed

section \<open>What the comparison does not see\<close>

text \<open>An entity default of \<^verbatim>\<open>false\<close>, \<^verbatim>\<open>0\<close> or the empty string agrees with every default of the database.\<close>

lemma falsy_default_agrees:
  assumes "dc_default e \<in> {Bool_Default False, Number_Default ''0'', Text_Default []}"
  shows "compareColumns e (d\<lparr> dc_default := x \<rparr>) = compareColumns e (d\<lparr> dc_default := y \<rparr>)"
proof -
  have "normalizeDefault (dc_default e) = None"
    using assms by (auto simp: normalizeDefault_def)
  then show ?thesis by (simp add: compareColumns_def Let_def diff_if_def)
qed

text \<open>A column with a time zone never agrees with its own entity, since the
  catalogue writes its type in words the table of types does not have.\<close>

lemma time_zone_never_agrees:
  assumes "dc_type e = ''timestamptz''" "dc_type d = ''timestamp with time zone''"
  shows "\<not> column_agrees e d"
  by (simp add: column_agrees_def assms normalizeDbType_def db_type_map_def)

text \<open>Indexes and constraints are read from the catalogue and never compared.\<close>

definition strip_table :: "diff_table \<Rightarrow> diff_table" where
  "strip_table t = t\<lparr> dt_indexes := [], dt_constraints := [] \<rparr>"

lemma schemas_agree_stripped:
  "schemas_agree (map (\<lambda>(k, v). (k, strip_table v)) s) es = schemas_agree s es"
proof -
  have look: "map_of (map (\<lambda>(k, v). (k, strip_table v)) s) t = map_option strip_table (map_of s t)" for t
    by (induction s) auto
  have "tables_agree e (strip_table d) = tables_agree e d" for e d
    by (simp add: tables_agree_def strip_table_def)
  then show ?thesis
    unfolding schemas_agree_def same_objects_def look option.rel_map by simp
qed

lemma indexes_never_compared:
  assumes "map (\<lambda>(k, v). (k, strip_table v)) (getDatabaseSchemaDetails db)
    = map (\<lambda>(k, v). (k, strip_table v)) (getDatabaseSchemaDetails db')"
  shows "dd_differences (getDetailedSchemaDiff db ms) = [] \<longleftrightarrow> dd_differences (getDetailedSchemaDiff db' ms) = []"
  unfolding report_empty using schemas_agree_stripped assms by metis

text \<open>The coarse comparison looks at names only, and normalises the names of the
  database on one side only: a table whose name in the database has a capital
  letter after a small one is new for ever.\<close>

lemma coarse_diff_names_only:
  assumes "normalizeTableName ` set entity_names = set (filter public_table table_names)"
    and "\<forall>t \<in> set table_names. normalizeTableName t = t"
  shows "detectSchemaDiff table_names entity_names
    = \<lparr> sdf_up = [], sdf_down = [], sdf_newTables = [], sdf_droppedTables = [], sdf_alteredTables = [] \<rparr>"
proof -
  have "filter (\<lambda>m. normalizeTableName m \<notin> set (filter public_table table_names)) entity_names = []"
    using assms(1) by (auto simp: filter_empty_conv)
  moreover have "filter (\<lambda>t. normalizeTableName t \<notin> normalizeTableName ` set entity_names) (filter public_table table_names) = []"
    unfolding filter_empty_conv assms(1) using assms(2) by auto
  ultimately show ?thesis by (simp add: detectSchemaDiff_def Let_def)
qed

lemma camel_table_is_new:
  assumes "public_table t" "listed_table t" "normalizeTableName t \<noteq> t"
  shows "sdf_newTables (detectSchemaDiff [t] [t]) = [t]"
    "dd_newTables (getDetailedSchemaDiff [\<lparr> bt_name = t, bt_columns = [], bt_indexes = [], bt_constraints = [] \<rparr>]
        [\<lparr> em_tableName = t, em_columns = [] \<rparr>]) = []"
  using assms by (simp_all add: detectSchemaDiff_def getDetailedSchemaDiff_def getNewTables_def
      getDatabaseSchemaDetails_def getEntitySchemaDetails_def js_object_def Let_def)

text \<open>The two comparisons do not even list the same tables: the underscore of the
  query's \<^verbatim>\<open>LIKE\<close> stands for any character.\<close>

lemma like_prefix_snoc: "starts_with (p @ [c]) s \<Longrightarrow> sql_like_prefix p s"
proof -
  assume "starts_with (p @ [c]) s"
  then have "s = (p @ [c]) @ drop (Suc (length p)) s"
    by (metis append_take_drop_id starts_with_def length_append_singleton)
  then obtain r where "s = p @ c # r" by simp
  then show ?thesis by (simp add: sql_like_prefix_def)
qed

lemma listed_is_public: "listed_table n \<Longrightarrow> public_table n"
  using like_prefix_snoc[of "''pg''" "CHR ''_''" n] like_prefix_snoc[of "''information''" "CHR ''_''" n]
    like_prefix_snoc[of "''sql''" "CHR ''_''" n]
  unfolding listed_table_def public_table_def append.simps insert_iff empty_iff by blast

end
