(* ===== verification/Schema_Policy.thy ===== *)
theory Schema_Policy
  imports Js_Text
begin

text \<open>
  The policies a schema change is held against
  (\<^verbatim>\<open>schema/engine/policy\<close>): the compatibility rules, the operational rules and
  the decision of the engine. The hour of the day, the metadata of the tables and
  the maintenance window are arguments; a character outside ASCII in a message
  is written as its bytes.
\<close>

section \<open>Data\<close>

datatype violation_severity = CRITICAL_VIOLATION | WARNING_VIOLATION | INFO_VIOLATION

record PolicyViolation =
  pv_rule :: string
  pv_severity :: violation_severity
  pv_message :: string
  pv_operation :: string
  pv_suggestedFix :: "string option"

record MaintenanceWindow =
  mw_start :: string
  mw_end :: string
  mw_timezone :: string

record table_metadata =
  tm_estimatedRows :: "int option"
  tm_requiresDowntime :: bool

datatype policy_decision = ALLOW | DENY | REQUIRE_APPROVAL

record PolicyDecision =
  pd_decision :: policy_decision
  pd_reasons :: "string list"
  pd_violations :: "PolicyViolation list"

definition violation :: "string \<Rightarrow> violation_severity \<Rightarrow> string \<Rightarrow> string \<Rightarrow> string \<Rightarrow> PolicyViolation" where
  "violation r sev msg sql fix = \<lparr> pv_rule = r, pv_severity = sev, pv_message = msg, pv_operation = sql,
     pv_suggestedFix = Some fix \<rparr>"

lemma violation_simps [simp]:
  "pv_rule (violation r sev msg sql fix) = r" "pv_severity (violation r sev msg sql fix) = sev"
  "pv_operation (violation r sev msg sql fix) = sql"
  by (simp_all add: violation_def)

section \<open>Compatibility rules\<close>

text \<open>\<^verbatim>\<open>\w+\.\w+\<close>.\<close>

definition dotted :: "rx list" where
  "dotted = words @ [Lit ''.''] @ words"

definition isDirectColumnRename :: "string \<Rightarrow> bool" where
  "isDirectColumnRename sql = (rx_test (kw2 ''RENAME'' ''COLUMN'') sql \<and> \<not> rx_test (kw2 ''ADD'' ''COLUMN'') sql)"

definition isDirectColumnTypeChange :: "string \<Rightarrow> bool" where
  "isDirectColumnTypeChange sql = (rx_test (kw2 ''ALTER'' ''COLUMN'' @ [Many any_char, Lit ''TYPE'']) sql
     \<and> \<not> rx_test (kw2 ''ADD'' ''COLUMN'') sql)"

definition isDirectColumnDrop :: "string \<Rightarrow> bool" where
  "isDirectColumnDrop sql = (rx_test (kw2 ''DROP'' ''COLUMN'') sql \<and> \<not> rx_test (kw2 ''ADD'' ''COLUMN'') sql)"

definition isDirectTableDrop :: "string \<Rightarrow> bool" where
  "isDirectTableDrop sql = (rx_test (kw2 ''DROP'' ''TABLE'') sql \<and> \<not> rx_test (kw2 ''CREATE'' ''TABLE'') sql)"

definition isDirectConstraintDrop :: "string \<Rightarrow> bool" where
  "isDirectConstraintDrop sql = rx_test (kw2 ''DROP'' ''CONSTRAINT'') sql"

definition isConstraintAddition :: "string \<Rightarrow> bool" where
  "isConstraintAddition sql = rx_test (kw2 ''ADD'' ''CONSTRAINT'') sql"

text \<open>The arrow between the two sides of a change.\<close>

definition arrow :: string where
  "arrow = '' '' @ [CHR 0xE2, CHR 0x86, CHR 0x92] @ '' ''"

text \<open>One violation for a statement that has the first form and matches the second.\<close>

definition check_statement :: "bool \<Rightarrow> rx list \<Rightarrow> (captures \<Rightarrow> PolicyViolation) \<Rightarrow> string \<Rightarrow> PolicyViolation list" where
  "check_statement b p f sql = (if b then (case rx_match p sql of None \<Rightarrow> [] | Some cs \<Rightarrow> [f cs]) else [])"

definition column_rename_pattern :: "rx list" where
  "column_rename_pattern = kw2 ''RENAME'' ''COLUMN'' @ spaces @ grp 1 dotted @ spaces @ [Lit ''TO''] @ spaces @ grp 2 words"

definition column_retype_pattern :: "rx list" where
  "column_retype_pattern = kw2 ''ALTER'' ''COLUMN'' @ spaces @ grp 1 dotted @ spaces @ [Lit ''TYPE''] @ spaces @ grp 2 words"

definition checkColumnRenames :: "string list \<Rightarrow> PolicyViolation list" where
  "checkColumnRenames up = concat (map (\<lambda>sql. check_statement (isDirectColumnRename sql) column_rename_pattern
     (\<lambda>cs. violation ''NO_DIRECT_COLUMN_RENAME'' CRITICAL_VIOLATION
        (''Direct column rename detected: '' @ captured cs 1 @ arrow @ captured cs 2) sql
        ''Use Expand-Migrate-Contract pattern: 1) Add new column, 2) Backfill data, 3) Update application code, 4) Drop old column'') sql) up)"

definition checkColumnTypeChanges :: "string list \<Rightarrow> PolicyViolation list" where
  "checkColumnTypeChanges up = concat (map (\<lambda>sql. check_statement (isDirectColumnTypeChange sql) column_retype_pattern
     (\<lambda>cs. violation ''NO_DIRECT_COLUMN_TYPE_CHANGE'' CRITICAL_VIOLATION
        (''Direct column type change detected: '' @ captured cs 1 @ arrow @ captured cs 2) sql
        ''Use Expand-Migrate-Contract pattern: 1) Add new column with correct type, 2) Migrate data, 3) Update application code, 4) Drop old column'') sql) up)"

definition checkColumnDrops :: "string list \<Rightarrow> PolicyViolation list" where
  "checkColumnDrops up = concat (map (\<lambda>sql. check_statement (isDirectColumnDrop sql)
     (kw2 ''DROP'' ''COLUMN'' @ spaces @ grp 1 dotted)
     (\<lambda>cs. violation ''NO_DIRECT_COLUMN_DROP'' CRITICAL_VIOLATION
        (''Direct column drop detected: '' @ captured cs 1) sql
        ''Use Expand-Migrate-Contract pattern: 1) Ensure column is no longer referenced, 2) Drop column in separate migration'') sql) up)"

definition checkTableDrops :: "string list \<Rightarrow> PolicyViolation list" where
  "checkTableDrops up = concat (map (\<lambda>sql. check_statement (isDirectTableDrop sql)
     (kw2 ''DROP'' ''TABLE'' @ spaces @ grp 1 words)
     (\<lambda>cs. violation ''NO_DIRECT_TABLE_DROP'' CRITICAL_VIOLATION
        (''Direct table drop detected: '' @ captured cs 1) sql
        ''Use Expand-Migrate-Contract pattern: 1) Ensure table is no longer referenced, 2) Drop table in separate migration'') sql) up)"

definition checkConstraintChanges :: "string list \<Rightarrow> PolicyViolation list" where
  "checkConstraintChanges up = concat (map (\<lambda>sql.
     if isDirectConstraintDrop sql then check_statement True (kw2 ''DROP'' ''CONSTRAINT'' @ spaces @ grp 1 dotted)
       (\<lambda>cs. violation ''NO_DIRECT_CONSTRAINT_DROP'' WARNING_VIOLATION
          (''Direct constraint drop detected: '' @ captured cs 1) sql
          ''Evaluate if constraint can be safely removed. Consider data integrity implications.'') sql
     else if isConstraintAddition sql then check_statement True (kw2 ''ADD'' ''CONSTRAINT'' @ spaces @ grp 1 dotted)
       (\<lambda>cs. violation ''CONSTRAINT_ADDITION_RISK'' WARNING_VIOLATION
          (''Constraint addition may fail due to existing data: '' @ captured cs 1) sql
          ''Verify existing data complies with constraint before adding. Consider data migration if needed.'') sql
     else []) up)"

definition compatibility_evaluate :: "string list \<Rightarrow> PolicyViolation list" where
  "compatibility_evaluate up = checkColumnRenames up @ checkColumnTypeChanges up @ checkColumnDrops up
     @ checkTableDrops up @ checkConstraintChanges up"

record rule_validation =
  rv_valid :: bool
  rv_errors :: "string list"
  rv_warnings :: "string list"

definition compatibility_validate :: rule_validation where
  "compatibility_validate = \<lparr> rv_valid = True, rv_errors = [], rv_warnings = [] \<rparr>"

section \<open>Operational rules\<close>

definition defaultMaintenanceWindow :: MaintenanceWindow where
  "defaultMaintenanceWindow = \<lparr> mw_start = ''02:00'', mw_end = ''04:00'', mw_timezone = ''UTC'' \<rparr>"

definition isBlockingOperation :: "string \<Rightarrow> bool" where
  "isBlockingOperation sql = list_ex (\<lambda>p. rx_test p sql)
     [kw2 ''DROP'' ''COLUMN'',
      kw2 ''ALTER'' ''COLUMN'' @ [Many any_char, Lit ''DROP''],
      kw2 ''DROP'' ''CONSTRAINT'',
      kw2 ''ALTER'' ''TABLE'' @ [Many any_char, Lit ''DROP''],
      kw2 ''RENAME'' ''COLUMN'',
      kw2 ''ALTER'' ''COLUMN'' @ [Many any_char, Lit ''TYPE'']]"

definition isHighRiskOperation :: "string \<Rightarrow> bool" where
  "isHighRiskOperation sql = list_ex (\<lambda>p. rx_test p sql)
     [kw2 ''DROP'' ''TABLE'',
      kw2 ''DROP'' ''COLUMN'',
      kw2 ''ALTER'' ''COLUMN'' @ [Many any_char, Lit ''TYPE''],
      kw2 ''ALTER'' ''TABLE'' @ [Many any_char, Lit ''DROP'']]"

fun first_capture :: "rx list list \<Rightarrow> string \<Rightarrow> string option" where
  "first_capture [] sql = None"
| "first_capture (p # ps) sql = (case rx_match p sql of
     Some cs \<Rightarrow> Some (captured cs 1) | None \<Rightarrow> first_capture ps sql)"

definition extractTableName_op :: "string \<Rightarrow> string option" where
  "extractTableName_op sql = first_capture
     [kw2 ''CREATE'' ''TABLE'' @ spaces @ grp 1 words,
      kw2 ''ALTER'' ''TABLE'' @ spaces @ grp 1 words,
      kw2 ''DROP'' ''TABLE'' @ spaces @ grp 1 words,
      kw2 ''INSERT'' ''INTO'' @ spaces @ grp 1 words,
      [Lit ''UPDATE''] @ spaces @ grp 1 words,
      kw2 ''DELETE'' ''FROM'' @ spaces @ grp 1 words,
      kw2 ''RENAME'' ''TABLE'' @ spaces @ grp 1 words] sql"

text \<open>\<^verbatim>\<open>parseInt\<close> of the part before the colon; \<^verbatim>\<open>None\<close> is \<^verbatim>\<open>NaN\<close>.\<close>

definition is_hex :: "char \<Rightarrow> bool" where
  "is_hex c = (is_digit c \<or> (97 \<le> (of_char (lower c) :: nat) \<and> (of_char (lower c) :: nat) \<le> 102))"

definition hex_value :: "string \<Rightarrow> nat" where
  "hex_value s = foldl (\<lambda>n c. 16 * n + (if is_digit c then of_char c - 48 else of_char (lower c) - 87)) 0 s"

definition unsigned :: "string \<Rightarrow> nat option" where
  "unsigned s = (if lit_matches ''0x'' s
     then (let ds = takeWhile is_hex (drop 2 s) in if ds = [] then None else Some (hex_value ds))
     else (let ds = takeWhile is_digit s in if ds = [] then None else Some (digits_value ds)))"

definition parseInt :: "string \<Rightarrow> int option" where
  "parseInt s = (case dropWhile is_space s of
       [] \<Rightarrow> None
     | c # r \<Rightarrow> if c = CHR ''-'' then map_option (\<lambda>n. - int n) (unsigned r)
         else if c = CHR ''+'' then map_option int (unsigned r)
         else map_option int (unsigned (c # r)))"

definition window_hour :: "string \<Rightarrow> int option" where
  "window_hour s = parseInt (hd (split_on (CHR '':'') s))"

definition in_window :: "int \<Rightarrow> MaintenanceWindow \<Rightarrow> bool" where
  "in_window hour w = (case (window_hour (mw_start w), window_hour (mw_end w)) of
     (Some s, Some e) \<Rightarrow> s \<le> hour \<and> hour \<le> e
   | _ \<Rightarrow> False)"

definition checkMaintenanceWindow :: "int \<Rightarrow> string list \<Rightarrow> MaintenanceWindow \<Rightarrow> PolicyViolation list" where
  "checkMaintenanceWindow hour up w = (if in_window hour w then [] else
     map (\<lambda>sql. violation ''OPERATION_OUTSIDE_MAINTENANCE_WINDOW'' CRITICAL_VIOLATION
         (''Blocking operation scheduled outside maintenance window ('' @ mw_start w @ ''-'' @ mw_end w @ '')'') sql
         ''Schedule operation during maintenance window or use non-blocking alternatives'')
       (filter isBlockingOperation up))"

definition LARGE_TABLE_THRESHOLD :: int where
  "LARGE_TABLE_THRESHOLD = 1000000"

type_synonym operation_metadata = "(string \<times> table_metadata) list"

definition rows_of :: "operation_metadata \<Rightarrow> string \<Rightarrow> int" where
  "rows_of meta t = (case map_of meta t of None \<Rightarrow> 0 | Some m \<Rightarrow> (case tm_estimatedRows m of None \<Rightarrow> 0 | Some r \<Rightarrow> r))"

definition check_size :: "operation_metadata \<Rightarrow> string \<Rightarrow> PolicyViolation list" where
  "check_size meta sql = (case extractTableName_op sql of None \<Rightarrow> [] | Some t \<Rightarrow>
     (let rows = rows_of meta t; tail = '' operation on large table ('' @ t @ '') with '' @ int_str rows @ '' estimated rows''
      in if LARGE_TABLE_THRESHOLD < rows then
           if isHighRiskOperation sql then [violation ''LARGE_TABLE_HIGH_RISK_OPERATION'' CRITICAL_VIOLATION
               (''High-risk'' @ tail) sql
               ''Consider using online schema change tools or schedule during low-traffic periods'']
           else if isBlockingOperation sql then [violation ''LARGE_TABLE_BLOCKING_OPERATION'' WARNING_VIOLATION
               (''Blocking'' @ tail) sql
               ''Schedule during maintenance window or use non-blocking alternatives'']
           else []
         else []))"

definition checkTableSizeLimits :: "string list \<Rightarrow> operation_metadata \<Rightarrow> PolicyViolation list" where
  "checkTableSizeLimits up meta = concat (map (check_size meta) up)"

definition requires_downtime :: "operation_metadata \<Rightarrow> string \<Rightarrow> bool" where
  "requires_downtime meta sql = (case extractTableName_op sql of None \<Rightarrow> False
     | Some t \<Rightarrow> (case map_of meta t of None \<Rightarrow> False | Some m \<Rightarrow> tm_requiresDowntime m))"

definition checkBlockingOperations :: "string list \<Rightarrow> operation_metadata \<Rightarrow> PolicyViolation list" where
  "checkBlockingOperations up meta = map (\<lambda>sql. violation ''BLOCKING_OPERATION_DETECTED''
       (if requires_downtime meta sql then CRITICAL_VIOLATION else WARNING_VIOLATION)
       (''Blocking operation detected: '' @ sql) sql
       (if requires_downtime meta sql then ''Schedule during maintenance window with application downtime''
        else ''Consider using online schema change tools''))
     (filter isBlockingOperation up)"

definition hasColumnConflict :: "string \<Rightarrow> string \<Rightarrow> string \<Rightarrow> string \<Rightarrow> bool" where
  "hasColumnConflict op1 op2 action1 action2 =
     (case rx_match ([Lit action1] @ spaces @ [Lit ''COLUMN'', Many any_char, WordBoundary] @ grp 1 words @ [WordBoundary]) op1 of
        None \<Rightarrow> False
      | Some cs \<Rightarrow> rx_test ([Lit action2] @ spaces @ [Lit ''COLUMN'', Many any_char, WordBoundary, Lit (captured cs 1), WordBoundary]) op2)"

definition hasSameColumnAlter :: "string \<Rightarrow> string \<Rightarrow> bool" where
  "hasSameColumnAlter op1 op2 =
     (case rx_match (kw2 ''ALTER'' ''COLUMN'' @ [Many any_char, WordBoundary] @ grp 1 words @ [WordBoundary]) op1 of
        None \<Rightarrow> False
      | Some cs \<Rightarrow> rx_test (kw2 ''ALTER'' ''COLUMN'' @ [Many any_char, WordBoundary, Lit (captured cs 1), WordBoundary]) op2)"

definition isConflictingOperations :: "string \<Rightarrow> string \<Rightarrow> bool" where
  "isConflictingOperations op1 op2 = (case (extractTableName_op op1, extractTableName_op op2) of
     (Some t1, Some t2) \<Rightarrow> t1 = t2 \<and>
       (hasColumnConflict op1 op2 ''ADD'' ''DROP''
        \<or> hasColumnConflict op2 op1 ''ADD'' ''DROP''
        \<or> hasSameColumnAlter op1 op2
        \<or> (rx_test (kw2 ''ADD'' ''CONSTRAINT'') op1 \<and> rx_test (kw2 ''DROP'' ''CONSTRAINT'') op2)
        \<or> (rx_test (kw2 ''DROP'' ''CONSTRAINT'') op1 \<and> rx_test (kw2 ''ADD'' ''CONSTRAINT'') op2))
   | _ \<Rightarrow> False)"

fun checkOperationConflicts :: "string list \<Rightarrow> PolicyViolation list" where
  "checkOperationConflicts [] = []"
| "checkOperationConflicts (op1 # ops) =
     map (\<lambda>op2. violation ''OPERATION_CONFLICT_DETECTED'' WARNING_VIOLATION
         (''Conflicting operations detected: '' @ op1 @ '' and '' @ op2) (op1 @ '' | '' @ op2)
         ''Split conflicting operations into separate migrations or reorder them'')
       (filter (isConflictingOperations op1) ops)
     @ checkOperationConflicts ops"

definition operational_evaluate :: "int \<Rightarrow> string list \<Rightarrow> operation_metadata \<Rightarrow> MaintenanceWindow option \<Rightarrow> PolicyViolation list" where
  "operational_evaluate hour up meta w = (let
       currentWindow = (case w of None \<Rightarrow> defaultMaintenanceWindow | Some x \<Rightarrow> x)
     in checkMaintenanceWindow hour up currentWindow @ checkTableSizeLimits up meta
        @ checkBlockingOperations up meta @ checkOperationConflicts up)"

definition isValidMaintenanceWindow :: "MaintenanceWindow \<Rightarrow> bool" where
  "isValidMaintenanceWindow w = (case (window_hour (mw_start w), window_hour (mw_end w)) of
     (Some s, Some e) \<Rightarrow> 0 \<le> s \<and> s \<le> 23 \<and> 0 \<le> e \<and> e \<le> 23 \<and> s < e \<and> 0 < length (mw_timezone w)
   | _ \<Rightarrow> False)"

definition operational_validate :: rule_validation where
  "operational_validate = (let errors = (if isValidMaintenanceWindow defaultMaintenanceWindow then []
       else [''Invalid default maintenance window configuration''])
     in \<lparr> rv_valid = (errors = []), rv_errors = errors, rv_warnings = [] \<rparr>)"

section \<open>The engine\<close>

record PolicyContext =
  pc_up :: "string list"
  pc_metadata :: operation_metadata
  pc_window :: "MaintenanceWindow option"

definition evaluate :: "int \<Rightarrow> PolicyContext \<Rightarrow> PolicyDecision" where
  "evaluate hour c = (let
       violations = compatibility_evaluate (pc_up c) @ operational_evaluate hour (pc_up c) (pc_metadata c) (pc_window c);
       critical = filter (\<lambda>v. pv_severity v = CRITICAL_VIOLATION) violations;
       warning = filter (\<lambda>v. pv_severity v = WARNING_VIOLATION) violations
     in if critical \<noteq> [] then \<lparr> pd_decision = DENY,
          pd_reasons = [''Critical violations detected: '' @ js_join '', '' (map pv_rule critical)], pd_violations = violations \<rparr>
        else if warning \<noteq> [] then \<lparr> pd_decision = REQUIRE_APPROVAL,
          pd_reasons = [''Warning violations detected: '' @ js_join '', '' (map pv_rule warning)], pd_violations = violations \<rparr>
        else \<lparr> pd_decision = ALLOW, pd_reasons = [''All policies passed''], pd_violations = violations \<rparr>)"

record ComplianceReport =
  cr_compliant :: bool
  cr_violations :: "PolicyViolation list"
  cr_critical :: nat
  cr_warning :: nat
  cr_info :: nat

definition getComplianceReport :: "int \<Rightarrow> PolicyContext \<Rightarrow> ComplianceReport" where
  "getComplianceReport hour c = (let d = evaluate hour c;
       count = (\<lambda>s. length (filter (\<lambda>v. pv_severity v = s) (pd_violations d)))
     in \<lparr> cr_compliant = (pd_decision d = ALLOW), cr_violations = pd_violations d,
          cr_critical = count CRITICAL_VIOLATION, cr_warning = count WARNING_VIOLATION, cr_info = count INFO_VIOLATION \<rparr>)"

definition generateSuggestions :: "PolicyViolation list \<Rightarrow> string list" where
  "generateSuggestions vs = concat (map (\<lambda>v. case pv_suggestedFix v of None \<Rightarrow> [] | Some f \<Rightarrow> if f = [] then [] else [f]) vs)"

definition validateConfiguration :: rule_validation where
  "validateConfiguration = (let
       errors = rv_errors compatibility_validate @ rv_errors operational_validate;
       warnings = rv_warnings compatibility_validate @ rv_warnings operational_validate
     in \<lparr> rv_valid = (errors = []), rv_errors = errors, rv_warnings = warnings \<rparr>)"

section \<open>The decision\<close>

lemma evaluate_violations:
  "pd_violations (evaluate hour c) = compatibility_evaluate (pc_up c)
    @ operational_evaluate hour (pc_up c) (pc_metadata c) (pc_window c)"
  by (simp add: evaluate_def Let_def)

lemma evaluate_decision:
  "pd_decision (evaluate hour c) =
    (if \<exists>v \<in> set (pd_violations (evaluate hour c)). pv_severity v = CRITICAL_VIOLATION then DENY
     else if \<exists>v \<in> set (pd_violations (evaluate hour c)). pv_severity v = WARNING_VIOLATION then REQUIRE_APPROVAL
     else ALLOW)"
  unfolding evaluate_violations unfolding evaluate_def Let_def filter_empty_conv
  by (simp add: Bex_def)

lemmas rule_checks = checkColumnRenames_def checkColumnTypeChanges_def checkColumnDrops_def checkTableDrops_def
  checkConstraintChanges_def checkMaintenanceWindow_def checkTableSizeLimits_def check_size_def
  checkBlockingOperations_def

lemma in_check_statement: "v \<in> set (check_statement b p f sql) \<Longrightarrow> \<exists>cs. v = f cs"
  by (cases b; cases "rx_match p sql") (auto simp: check_statement_def)

lemma conflict_violations:
  "v \<in> set (checkOperationConflicts ops) \<Longrightarrow> pv_severity v = WARNING_VIOLATION \<and> (\<exists>f. pv_suggestedFix v = Some f \<and> f \<noteq> [])"
  by (induction ops) (auto simp: violation_def)

text \<open>Every violation is critical or a warning, and proposes a way out.\<close>

lemma violation_shape:
  assumes "v \<in> set (pd_violations (evaluate hour c))"
  shows "pv_severity v \<noteq> INFO_VIOLATION" "\<exists>f. pv_suggestedFix v = Some f \<and> f \<noteq> []"
proof -
  have "v \<in> set (compatibility_evaluate (pc_up c)) \<or> v \<in> set (operational_evaluate hour (pc_up c) (pc_metadata c) (pc_window c))"
    using assms by (simp add: evaluate_violations)
  then have "pv_severity v \<noteq> INFO_VIOLATION \<and> (\<exists>f. pv_suggestedFix v = Some f \<and> f \<noteq> [])"
  proof
    assume "v \<in> set (compatibility_evaluate (pc_up c))"
    then show ?thesis
      by (auto simp: compatibility_evaluate_def rule_checks violation_def dest!: in_check_statement split: if_splits)
  next
    assume "v \<in> set (operational_evaluate hour (pc_up c) (pc_metadata c) (pc_window c))"
    then show ?thesis
      by (auto simp: operational_evaluate_def Let_def rule_checks violation_def
          dest!: conflict_violations split: if_splits option.splits)
  qed
  then show "pv_severity v \<noteq> INFO_VIOLATION" "\<exists>f. pv_suggestedFix v = Some f \<and> f \<noteq> []" by simp_all
qed

lemma report_accounts:
  "length (cr_violations (getComplianceReport hour c)) = cr_critical (getComplianceReport hour c) + cr_warning (getComplianceReport hour c)"
  "cr_info (getComplianceReport hour c) = 0"
  "cr_compliant (getComplianceReport hour c) \<longleftrightarrow> cr_violations (getComplianceReport hour c) = []"
  "length (generateSuggestions (cr_violations (getComplianceReport hour c))) = length (cr_violations (getComplianceReport hour c))"
proof -
  let ?vs = "pd_violations (evaluate hour c)"
  have r: "cr_violations (getComplianceReport hour c) = ?vs"
    "cr_critical (getComplianceReport hour c) = length (filter (\<lambda>v. pv_severity v = CRITICAL_VIOLATION) ?vs)"
    "cr_warning (getComplianceReport hour c) = length (filter (\<lambda>v. pv_severity v = WARNING_VIOLATION) ?vs)"
    "cr_info (getComplianceReport hour c) = length (filter (\<lambda>v. pv_severity v = INFO_VIOLATION) ?vs)"
    "cr_compliant (getComplianceReport hour c) = (pd_decision (evaluate hour c) = ALLOW)"
    by (simp_all add: getComplianceReport_def Let_def)
  have shape: "pv_severity v = CRITICAL_VIOLATION \<or> pv_severity v = WARNING_VIOLATION" if "v \<in> set ?vs" for v
    using violation_shape(1)[OF that] by (cases "pv_severity v") simp_all
  have "filter (\<lambda>v. pv_severity v \<noteq> CRITICAL_VIOLATION) ?vs = filter (\<lambda>v. pv_severity v = WARNING_VIOLATION) ?vs"
    using shape by (intro filter_cong refl) force
  then show "length (cr_violations (getComplianceReport hour c)) = cr_critical (getComplianceReport hour c) + cr_warning (getComplianceReport hour c)"
    using sum_length_filter_compl[of "\<lambda>v. pv_severity v = CRITICAL_VIOLATION" ?vs] by (simp add: r)
  show "cr_info (getComplianceReport hour c) = 0"
    using violation_shape(1)[of _ hour c] by (auto simp: r(4) filter_empty_conv)
  show "cr_compliant (getComplianceReport hour c) \<longleftrightarrow> cr_violations (getComplianceReport hour c) = []"
  proof -
    have "pd_decision (evaluate hour c) = ALLOW \<longleftrightarrow> (\<forall>v \<in> set ?vs. pv_severity v \<noteq> CRITICAL_VIOLATION \<and> pv_severity v \<noteq> WARNING_VIOLATION)"
      by (subst evaluate_decision) auto
    also have "\<dots> \<longleftrightarrow> set ?vs = {}" by (metis shape all_not_in_conv)
    finally show ?thesis by (simp add: r)
  qed
  have "length (generateSuggestions vs) = length vs" if "\<forall>v \<in> set vs. \<exists>f. pv_suggestedFix v = Some f \<and> f \<noteq> []" for vs
    using that by (induction vs) (auto simp: generateSuggestions_def)
  then show "length (generateSuggestions (cr_violations (getComplianceReport hour c))) = length (cr_violations (getComplianceReport hour c))"
    unfolding r using violation_shape(2) by blast
qed

text \<open>A change with a blocking statement is never simply allowed, and outside the
  maintenance window it is denied, whatever the other statements are.\<close>

theorem blocking_change_is_held:
  assumes "sql \<in> set (pc_up c)" "isBlockingOperation sql"
  shows "pd_decision (evaluate hour c) \<noteq> ALLOW
    \<and> (pd_decision (evaluate hour c) = DENY
       \<or> in_window hour (case pc_window c of None \<Rightarrow> defaultMaintenanceWindow | Some w \<Rightarrow> w))"
proof -
  let ?w = "case pc_window c of None \<Rightarrow> defaultMaintenanceWindow | Some w \<Rightarrow> w"
  have "\<exists>v \<in> set (checkBlockingOperations (pc_up c) (pc_metadata c)). pv_severity v \<in> {CRITICAL_VIOLATION, WARNING_VIOLATION}"
    using assms by (auto simp: checkBlockingOperations_def)
  then have "\<exists>v \<in> set (pd_violations (evaluate hour c)). pv_severity v \<in> {CRITICAL_VIOLATION, WARNING_VIOLATION}"
    by (auto simp: evaluate_violations operational_evaluate_def Let_def)
  moreover have "\<exists>v \<in> set (pd_violations (evaluate hour c)). pv_severity v = CRITICAL_VIOLATION" if "\<not> in_window hour ?w"
  proof -
    have "\<exists>v \<in> set (checkMaintenanceWindow hour (pc_up c) ?w). pv_severity v = CRITICAL_VIOLATION"
      using that assms by (auto simp: checkMaintenanceWindow_def)
    then show ?thesis by (auto simp: evaluate_violations operational_evaluate_def Let_def)
  qed
  ultimately show ?thesis unfolding evaluate_decision[of hour c] by auto
qed

definition drop_column_change :: PolicyContext where
  "drop_column_change = \<lparr> pc_up = [''ALTER TABLE users DROP COLUMN mail''], pc_metadata = [], pc_window = None \<rparr>"

lemma blocking_change_is_held_witness:
  "pd_decision (evaluate 12 drop_column_change) = DENY"
proof -
  have "isBlockingOperation ''ALTER TABLE users DROP COLUMN mail''" by code_simp
  then have "pd_decision (evaluate 12 drop_column_change) \<noteq> ALLOW
    \<and> (pd_decision (evaluate 12 drop_column_change) = DENY
       \<or> in_window 12 (case pc_window drop_column_change of None \<Rightarrow> defaultMaintenanceWindow | Some w \<Rightarrow> w))"
    by (intro blocking_change_is_held) (simp_all add: drop_column_change_def)
  moreover have "\<not> in_window 12 defaultMaintenanceWindow" by code_simp
  ultimately show ?thesis by (simp add: drop_column_change_def)
qed

section \<open>What the rules let through\<close>

text \<open>The compatibility rules ask for a name with a dot, which no statement of the
  engine has; without one, only the rule on tables is left.\<close>

lemma rules_need_dot:
  assumes "\<forall>sql \<in> set up. CHR ''.'' \<notin> set sql"
  shows "compatibility_evaluate up = checkTableDrops up"
proof -
  have none: "check_statement b p f sql = []" if "sql \<in> set up" "Lit ''.'' \<in> set p" for b p f sql
    using rx_match_needs_dot[OF that(2)] assms that(1) by (simp add: check_statement_def)
  have dot: "Lit ''.'' \<in> set column_rename_pattern" "Lit ''.'' \<in> set column_retype_pattern"
    "Lit ''.'' \<in> set (q @ spaces @ grp 1 dotted)" for q
    by (simp_all add: column_rename_pattern_def column_retype_pattern_def grp_def dotted_def)
  have "checkColumnRenames up = []" "checkColumnTypeChanges up = []" "checkColumnDrops up = []"
      "checkConstraintChanges up = []"
    unfolding checkColumnRenames_def checkColumnTypeChanges_def checkColumnDrops_def checkConstraintChanges_def
    using none[OF _ dot(1)] none[OF _ dot(2)] none[OF _ dot(3)] by auto
  then show ?thesis by (simp add: compatibility_evaluate_def)
qed

text \<open>A column may then be dropped inside the window on approval alone.\<close>

lemma plain_drop_in_window:
  "pd_decision (evaluate 3 drop_column_change) = REQUIRE_APPROVAL"
  by code_simp

definition drop_table_change :: PolicyContext where
  "drop_table_change = \<lparr> pc_up = [''DROP TABLE \"users\"''], pc_metadata = [], pc_window = None \<rparr>"

text \<open>The drop of a table whose name is quoted, the form TypeORM writes, is allowed
  at every hour, in every window and whatever is known of the table.\<close>

theorem quoted_table_drop_is_allowed:
  "evaluate hour (drop_table_change\<lparr> pc_metadata := meta, pc_window := w \<rparr>)
    = \<lparr> pd_decision = ALLOW, pd_reasons = [''All policies passed''], pd_violations = [] \<rparr>"
proof -
  let ?s = "''DROP TABLE \"users\"''"
  have "compatibility_evaluate [?s] = []" by code_simp
  moreover have b: "\<not> isBlockingOperation ?s" by code_simp
  moreover have "extractTableName_op ?s = None" by code_simp
  ultimately have "compatibility_evaluate [?s] @ operational_evaluate hour [?s] meta w = []"
    by (simp add: operational_evaluate_def checkMaintenanceWindow_def checkTableSizeLimits_def check_size_def
        checkBlockingOperations_def Let_def)
  then show ?thesis
    by (simp add: evaluate_def drop_table_change_def)
qed

text \<open>Greedy matching takes the last word of a statement for the column: adding a
  column with its type and dropping it again is not seen as a conflict, while two
  columns of one type are.\<close>

lemma add_then_drop_not_seen:
  "\<not> isConflictingOperations ''ALTER TABLE t ADD COLUMN a integer'' ''ALTER TABLE t DROP COLUMN a''"
  "isConflictingOperations ''ALTER TABLE t ALTER COLUMN a TYPE text'' ''ALTER TABLE t ALTER COLUMN b TYPE text''"
  by code_simp+

text \<open>A window over midnight is never open, and its zone is never looked at.\<close>

lemma overnight_window_never_open:
  assumes "window_hour (mw_start w) = Some s" "window_hour (mw_end w) = Some e" "e < s"
  shows "\<not> in_window hour w"
  using assms by (simp add: in_window_def)

lemma zone_never_read: "in_window hour (w\<lparr> mw_timezone := z \<rparr>) = in_window hour w"
  by (simp add: in_window_def)

lemma configuration_always_valid:
  "validateConfiguration = \<lparr> rv_valid = True, rv_errors = [], rv_warnings = [] \<rparr>"
proof -
  have "isValidMaintenanceWindow defaultMaintenanceWindow" by code_simp
  then show ?thesis by (simp add: validateConfiguration_def operational_validate_def compatibility_validate_def)
qed

end
