(* ===== verification/Migration_Readiness.thy ===== *)
theory Migration_Readiness
  imports Backfill Js_Text
begin

text \<open>
  When a schema difference may be migrated
  (\<^verbatim>\<open>schema/services/migration-readiness.service.ts\<close>,
  \<^verbatim>\<open>schema/entities/schema-difference.entity.ts\<close>): the row of a difference with the
  steps its own methods make, the check of its back-fill job and column, and the
  summary over all rows. The counts the database answers for a column are an
  argument, an error of a query being one of the answers.
\<close>

section \<open>Rows\<close>

datatype SchemaDifferenceStatus =
    DRIFT_DETECTED | BACKFILL_SCHEDULED | BACKFILLING | READY_FOR_MIGRATION | MIGRATED

datatype SchemaDifferenceType =
    COLUMN_TYPE_CHANGE | COLUMN_NULLABLE_CHANGE | COLUMN_DEFAULT_CHANGE | COLUMN_ADDITION | COLUMN_REMOVAL
  | INDEX_ADDITION | INDEX_REMOVAL | CONSTRAINT_ADDITION | CONSTRAINT_REMOVAL | TABLE_ADDITION | TABLE_REMOVAL

datatype readiness_kind = PENDING_READINESS | BACKFILLING_READINESS | READY_READINESS | MIGRATED_READINESS

datatype validation_status = VALIDATION_PENDING | VALIDATION_PASSED | VALIDATION_FAILED

text \<open>The column \<^verbatim>\<open>backfillJobId\<close> and the foreign key \<^verbatim>\<open>backfill_job_id\<close> of the relation
  are two columns.\<close>

record difference_row =
  sr_id :: string
  sr_type :: SchemaDifferenceType
  sr_status :: SchemaDifferenceStatus
  sr_readiness :: readiness_kind
  sr_validationStatus :: validation_status
  sr_backfillSql :: "string option"
  sr_migrationName :: "string option"
  sr_backfillJobId :: "string option"
  sr_backfill_job_id :: "string option"
  sr_backfillScheduledAt :: "int option"
  sr_backfillStartedAt :: "int option"
  sr_backfillCompletedAt :: "int option"
  sr_readyForMigrationAt :: "int option"
  sr_migratedAt :: "int option"
  sr_errorMessage :: "string option"

definition requiresBackfill :: "difference_row \<Rightarrow> bool" where
  "requiresBackfill d = (sr_type d \<in> {COLUMN_TYPE_CHANGE, COLUMN_NULLABLE_CHANGE, COLUMN_DEFAULT_CHANGE})"

definition isReadyForMigration :: "difference_row \<Rightarrow> bool" where
  "isReadyForMigration d = (sr_status d = READY_FOR_MIGRATION \<and> sr_readiness d = READY_READINESS
     \<and> sr_validationStatus d = VALIDATION_PASSED)"

definition isMigrated :: "difference_row \<Rightarrow> bool" where
  "isMigrated d = (sr_status d = MIGRATED \<and> sr_readiness d = MIGRATED_READINESS)"

definition row_updateStatus :: "int \<Rightarrow> SchemaDifferenceStatus \<Rightarrow> difference_row \<Rightarrow> difference_row" where
  "row_updateStatus now st d0 = (let d = d0\<lparr> sr_status := st \<rparr> in case st of
       BACKFILL_SCHEDULED \<Rightarrow> d\<lparr> sr_backfillScheduledAt := Some now \<rparr>
     | BACKFILLING \<Rightarrow> d\<lparr> sr_backfillStartedAt := Some now, sr_readiness := BACKFILLING_READINESS \<rparr>
     | READY_FOR_MIGRATION \<Rightarrow> d\<lparr> sr_readyForMigrationAt := Some now, sr_readiness := READY_READINESS,
         sr_validationStatus := VALIDATION_PASSED \<rparr>
     | MIGRATED \<Rightarrow> d\<lparr> sr_migratedAt := Some now, sr_readiness := MIGRATED_READINESS \<rparr>
     | DRIFT_DETECTED \<Rightarrow> d)"

definition markAsBackfillRequired :: "int \<Rightarrow> string \<Rightarrow> string \<Rightarrow> difference_row \<Rightarrow> difference_row" where
  "markAsBackfillRequired now sql name d = row_updateStatus now BACKFILL_SCHEDULED
     (d\<lparr> sr_backfillSql := Some sql, sr_migrationName := Some name \<rparr>)"

definition markBackfillStarted :: "int \<Rightarrow> string \<Rightarrow> difference_row \<Rightarrow> difference_row" where
  "markBackfillStarted now jid d = row_updateStatus now BACKFILLING (d\<lparr> sr_backfillJobId := Some jid \<rparr>)"

definition markBackfillCompleted :: "int \<Rightarrow> difference_row \<Rightarrow> difference_row" where
  "markBackfillCompleted now d = row_updateStatus now READY_FOR_MIGRATION (d\<lparr> sr_backfillCompletedAt := Some now \<rparr>)"

definition row_markAsMigrated :: "int \<Rightarrow> difference_row \<Rightarrow> difference_row" where
  "row_markAsMigrated now d = row_updateStatus now MIGRATED d"

definition setValidationStatus :: "validation_status \<Rightarrow> string option \<Rightarrow> difference_row \<Rightarrow> difference_row" where
  "setValidationStatus st msg d = (let d' = d\<lparr> sr_validationStatus := st \<rparr>
     in if truthy msg then d'\<lparr> sr_errorMessage := msg \<rparr> else d')"

section \<open>The check of a column\<close>

text \<open>A job with the target type of its metadata.\<close>

record readiness_job = BackfillJob +
  bj_targetType :: "string option"

datatype count_kind = NULL_VALUES | INVALID_UUIDS | EMPTY_STRINGS

type_synonym count_query = "count_kind \<Rightarrow> string \<Rightarrow> string \<Rightarrow> string + nat"

definition count_error :: "nat \<Rightarrow> string \<Rightarrow> string list" where
  "count_error n rest = (if 0 < n then [''Found '' @ nat_str n @ rest] else [])"

definition validateColumnData :: "count_query \<Rightarrow> string \<Rightarrow> string \<Rightarrow> string \<Rightarrow> bool \<times> string list" where
  "validateColumnData q t c ty = (
     let failed = (\<lambda>e. (False, [''Column validation failed: '' @ e]));
         answer = (\<lambda>errors. (errors = [], errors))
     in case q NULL_VALUES t c of
       Inl e \<Rightarrow> failed e
     | Inr nulls \<Rightarrow> let e1 = count_error nulls ('' NULL values in converted column '' @ c) in
         if toLowerCase ty = ''uuid'' then
           (case q INVALID_UUIDS t c of
              Inl e \<Rightarrow> failed e
            | Inr invalid \<Rightarrow> let e2 = count_error invalid ('' invalid UUID values in column '' @ c) in
                (case q EMPTY_STRINGS t c of
                   Inl e \<Rightarrow> failed e
                 | Inr blank \<Rightarrow> answer (e1 @ e2 @ count_error blank ('' empty string values in column '' @ c))))
         else answer e1)"

text \<open>\<^verbatim>\<open>/UPDATE\s+(\w+)\s+SET\s+(\w+)\s*=/i\<close>.\<close>

definition update_pattern :: "rx list" where
  "update_pattern = [Lit ''UPDATE''] @ spaces @ grp 1 words @ spaces @ [Lit ''SET''] @ spaces @ grp 2 words
     @ [Many is_space, Lit ''='']"

definition getBackfillJobDetails :: "readiness_job list \<Rightarrow> string \<Rightarrow> string + string \<times> string \<times> string" where
  "getBackfillJobDetails jobs jid = (case lookup_by bj_id jid jobs of
     None \<Rightarrow> Inl (''Backfill job '' @ jid @ '' not found'')
   | Some j \<Rightarrow> (case rx_match update_pattern (sqlStatement j) of
       None \<Rightarrow> Inl ''Could not extract table and column from backfill SQL''
     | Some cs \<Rightarrow> Inr (captured cs 1, captured cs 2, or_default (bj_targetType j) ''uuid'')))"

definition progress_errors :: "readiness_job \<Rightarrow> string list" where
  "progress_errors j =
     (if processedRows j < totalRows j then [''Incomplete processing: '' @ nat_str (processedRows j) @ ''/''
        @ nat_str (totalRows j) @ '' rows processed''] else [])
     @ (if truthy (errorMessage j) then [''Processing errors: '' @ show_text (errorMessage j)] else [])"

definition validateBackfillCompletion :: "count_query \<Rightarrow> readiness_job list \<Rightarrow> readiness_job \<Rightarrow> bool \<times> string list" where
  "validateBackfillCompletion q jobs j = (case getBackfillJobDetails jobs (bj_id j) of
     Inl e \<Rightarrow> (False, [''Validation failed: '' @ e])
   | Inr (t, c, ty) \<Rightarrow> (let (valid, es) = validateColumnData q t c ty;
         errors = progress_errors j @ (if valid then [] else es)
       in (errors = [], errors)))"

section \<open>The service\<close>

record MigrationReadinessStatus =
  rs_isReady :: bool
  rs_status :: readiness_kind
  rs_backfillJobId :: "string option"
  rs_validationStatus :: "validation_status option"
  rs_validationErrors :: "string list option"

definition readiness_verdict :: "bool \<Rightarrow> readiness_kind \<Rightarrow> string option \<Rightarrow> validation_status option \<Rightarrow> string list option
    \<Rightarrow> MigrationReadinessStatus" where
  "readiness_verdict ready st jid val errs = \<lparr> rs_isReady = ready, rs_status = st, rs_backfillJobId = jid,
     rs_validationStatus = val, rs_validationErrors = errs \<rparr>"

record readiness_state =
  rd_diffs :: "difference_row list"
  rd_jobs :: "readiness_job list"

definition related_job :: "readiness_state \<Rightarrow> difference_row \<Rightarrow> readiness_job option" where
  "related_job s d = (case sr_backfill_job_id d of None \<Rightarrow> None | Some k \<Rightarrow> lookup_by bj_id k (rd_jobs s))"

definition mark_ready :: "string \<Rightarrow> readiness_state \<Rightarrow> readiness_state" where
  "mark_ready k s = s\<lparr> rd_diffs := update_rows (\<lambda>d. sr_id d = k)
     (\<lambda>d. d\<lparr> sr_readiness := READY_READINESS, sr_validationStatus := VALIDATION_PASSED \<rparr>) (rd_diffs s) \<rparr>"

definition checkReadiness ::
  "count_query \<Rightarrow> string \<Rightarrow> (readiness_state, string, MigrationReadinessStatus) action" where
  "checkReadiness q k s = (case lookup_by sr_id k (rd_diffs s) of
     None \<Rightarrow> (s, Inl (''Schema difference '' @ k @ '' not found''))
   | Some d \<Rightarrow>
       if sr_status d = MIGRATED then (s, Inr (readiness_verdict False MIGRATED_READINESS None None None))
       else if sr_readiness d = READY_READINESS \<and> sr_validationStatus d = VALIDATION_PASSED then
         (s, Inr (readiness_verdict True READY_READINESS (if truthy (sr_backfillJobId d) then sr_backfillJobId d else None)
            (Some VALIDATION_PASSED) None))
       else (case related_job s d of
           None \<Rightarrow> (s, Inr (readiness_verdict False PENDING_READINESS None None None))
         | Some j \<Rightarrow>
             if bj_status j = PROCESSING then (s, Inr (readiness_verdict False BACKFILLING_READINESS (Some (bj_id j)) None None))
             else if bj_status j = COMPLETED then
               (case validateBackfillCompletion q (rd_jobs s) j of (valid, errors) \<Rightarrow>
                  if valid then (mark_ready k s, Inr (readiness_verdict True READY_READINESS (Some (bj_id j)) (Some VALIDATION_PASSED) None))
                  else (s, Inr (readiness_verdict False BACKFILLING_READINESS (Some (bj_id j)) (Some VALIDATION_FAILED) (Some errors))))
             else (s, Inr (readiness_verdict False BACKFILLING_READINESS (Some (bj_id j)) (Some VALIDATION_FAILED)
                 (Some [''Backfill job failed''])))))"

definition markAsMigrated :: "int \<Rightarrow> string \<Rightarrow> readiness_state \<Rightarrow> readiness_state" where
  "markAsMigrated now k s = s\<lparr> rd_diffs := update_rows (\<lambda>d. sr_id d = k)
     (\<lambda>d. d\<lparr> sr_status := MIGRATED, sr_readiness := MIGRATED_READINESS, sr_validationStatus := VALIDATION_PASSED,
       sr_migratedAt := Some now \<rparr>) (rd_diffs s) \<rparr>"

fun check_all :: "count_query \<Rightarrow> string list \<Rightarrow> (readiness_state, string, MigrationReadinessStatus list) action" where
  "check_all q [] s = (s, Inr [])"
| "check_all q (k # ks) s = (case checkReadiness q k s of
     (s1, Inl e) \<Rightarrow> (s1, Inl e)
   | (s1, Inr r) \<Rightarrow> (case check_all q ks s1 of
       (s2, Inl e) \<Rightarrow> (s2, Inl e)
     | (s2, Inr rs) \<Rightarrow> (s2, Inr (r # rs))))"

definition getAllReadinessStatus :: "count_query \<Rightarrow> (readiness_state, string, MigrationReadinessStatus list) action" where
  "getAllReadinessStatus q s = check_all q (map sr_id (filter (\<lambda>d. sr_status d = DRIFT_DETECTED) (rd_diffs s))) s"

record readiness_summary =
  sm_total :: nat
  sm_readyForMigration :: nat
  sm_backfilling :: nat
  sm_pending :: nat
  sm_migrated :: nat

definition getReadinessSummary :: "count_query \<Rightarrow> (readiness_state, string, readiness_summary) action" where
  "getReadinessSummary q s = (case check_all q (map sr_id (rd_diffs s)) s of
     (s', Inl e) \<Rightarrow> (s', Inl e)
   | (s', Inr rs) \<Rightarrow> (s', Inr \<lparr> sm_total = length (rd_diffs s),
       sm_readyForMigration = length (filter (\<lambda>r. rs_status r = READY_READINESS) rs),
       sm_backfilling = length (filter (\<lambda>r. rs_status r = BACKFILLING_READINESS) rs),
       sm_pending = length (filter (\<lambda>r. rs_status r = PENDING_READINESS) rs),
       sm_migrated = length (filter (\<lambda>r. rs_status r = MIGRATED_READINESS) rs) \<rparr>))"

section \<open>What ready means\<close>

definition passed_row :: "difference_row \<Rightarrow> bool" where
  "passed_row d = (sr_readiness d = READY_READINESS \<and> sr_validationStatus d = VALIDATION_PASSED)"

text \<open>The rows, the counts and the text of the statement that make a job valid.\<close>

definition column_clean :: "count_query \<Rightarrow> string \<Rightarrow> string \<Rightarrow> string \<Rightarrow> bool" where
  "column_clean q t c ty = (q NULL_VALUES t c = Inr 0
     \<and> (toLowerCase ty = ''uuid'' \<longrightarrow> q INVALID_UUIDS t c = Inr 0 \<and> q EMPTY_STRINGS t c = Inr 0))"

definition job_validated :: "count_query \<Rightarrow> readiness_job list \<Rightarrow> readiness_job \<Rightarrow> bool" where
  "job_validated q jobs j = (bj_status j = COMPLETED \<and> totalRows j \<le> processedRows j \<and> \<not> truthy (errorMessage j)
     \<and> (\<exists>t c ty. getBackfillJobDetails jobs (bj_id j) = Inr (t, c, ty) \<and> column_clean q t c ty))"

lemma count_error_empty [simp]: "count_error n r = [] \<longleftrightarrow> n = 0"
  by (simp add: count_error_def)

lemma validateColumnData_valid: "fst (validateColumnData q t c ty) \<longleftrightarrow> column_clean q t c ty"
  by (auto simp: validateColumnData_def column_clean_def Let_def split: sum.split)

lemma progress_errors_empty:
  "progress_errors j = [] \<longleftrightarrow> totalRows j \<le> processedRows j \<and> \<not> truthy (errorMessage j)"
  by (auto simp: progress_errors_def)

lemma validateColumnData_errors: "snd (validateColumnData q t c ty) = [] \<longleftrightarrow> fst (validateColumnData q t c ty)"
  by (auto simp: validateColumnData_def Let_def split: sum.split)

lemma validateBackfillCompletion_valid:
  "fst (validateBackfillCompletion q jobs j) \<longleftrightarrow> progress_errors j = []
    \<and> (\<exists>t c ty. getBackfillJobDetails jobs (bj_id j) = Inr (t, c, ty) \<and> column_clean q t c ty)"
proof (cases "getBackfillJobDetails jobs (bj_id j)")
  case (Inr r)
  obtain t c ty where r: "r = (t, c, ty)" by (cases r)
  obtain v es where ve: "validateColumnData q t c ty = (v, es)" by (cases "validateColumnData q t c ty")
  then have "v \<longleftrightarrow> column_clean q t c ty" "es = [] \<longleftrightarrow> v"
    using validateColumnData_valid[of q t c ty] validateColumnData_errors[of q t c ty] by simp_all
  then show ?thesis
    using Inr r ve by (auto simp: validateBackfillCompletion_def Let_def)
qed (simp add: validateBackfillCompletion_def)

lemma readiness_verdict_simps [simp]:
  "rs_isReady (readiness_verdict ready st jid val errs) = ready" "rs_status (readiness_verdict ready st jid val errs) = st"
  by (simp_all add: readiness_verdict_def)

lemma checkReadiness_ready:
  assumes "lookup_by sr_id k (rd_diffs s) = Some d" "checkReadiness q k s = (s', Inr r)"
  shows "rs_isReady r \<longleftrightarrow> sr_status d \<noteq> MIGRATED
      \<and> (passed_row d \<or> (\<exists>j. related_job s d = Some j \<and> job_validated q (rd_jobs s) j))"
proof (cases "sr_status d = MIGRATED \<or> passed_row d")
  case True
  then show ?thesis using assms by (auto simp: checkReadiness_def passed_row_def split: if_splits)
next
  case undecided: False
  show ?thesis
  proof (cases "related_job s d")
    case None
    then show ?thesis using assms undecided by (auto simp: checkReadiness_def passed_row_def)
  next
    case (Some j)
    obtain v es where ve: "validateBackfillCompletion q (rd_jobs s) j = (v, es)"
      by (cases "validateBackfillCompletion q (rd_jobs s) j")
    have v: "v \<longleftrightarrow> progress_errors j = []
        \<and> (\<exists>t c ty. getBackfillJobDetails (rd_jobs s) (bj_id j) = Inr (t, c, ty) \<and> column_clean q t c ty)"
      using validateBackfillCompletion_valid[of q "rd_jobs s" j] by (simp add: ve)
    have "rs_isReady r \<longleftrightarrow> bj_status j = COMPLETED \<and> v"
      using assms undecided Some ve by (auto simp: checkReadiness_def passed_row_def split: if_splits)
    then show ?thesis using undecided Some v by (simp add: job_validated_def progress_errors_empty)
  qed
qed

lemma checkReadiness_state:
  "fst (checkReadiness q k s) = s \<or> (fst (checkReadiness q k s) = mark_ready k s)"
  by (auto simp: checkReadiness_def split: option.split sum.split prod.split)

section \<open>Verdicts do not change\<close>

datatype readiness_step =
    Check_Difference string
  | Check_Drifted
  | Summarise
  | Mark_Migrated int string
  | Write_Jobs "readiness_job list"

fun readiness_do :: "count_query \<Rightarrow> readiness_state \<Rightarrow> readiness_step \<Rightarrow> readiness_state" where
  "readiness_do q s (Check_Difference k) = fst (checkReadiness q k s)"
| "readiness_do q s Check_Drifted = fst (getAllReadinessStatus q s)"
| "readiness_do q s Summarise = fst (getReadinessSummary q s)"
| "readiness_do q s (Mark_Migrated now k) = markAsMigrated now k s"
| "readiness_do q s (Write_Jobs js) = s\<lparr> rd_jobs := js \<rparr>"

definition settled :: "string \<Rightarrow> readiness_state \<Rightarrow> bool" where
  "settled k s = (case lookup_by sr_id k (rd_diffs s) of None \<Rightarrow> False
     | Some d \<Rightarrow> sr_status d = MIGRATED \<or> passed_row d)"

lemma settled_mark_ready: "settled k s \<Longrightarrow> settled k (mark_ready k' s)"
  by (cases "lookup_by sr_id k (rd_diffs s)") (auto simp: settled_def mark_ready_def lookup_by_update passed_row_def)

lemma settled_check: "settled k s \<Longrightarrow> settled k (fst (checkReadiness q k' s))"
  using checkReadiness_state[of q k' s] settled_mark_ready by metis

lemma settled_check_all: "settled k s \<Longrightarrow> settled k (fst (check_all q ks s))"
proof (induction ks arbitrary: s)
  case (Cons k' ks)
  have "settled k (fst (checkReadiness q k' s))" by (rule settled_check[OF Cons.prems])
  then show ?case using Cons.IH[of "fst (checkReadiness q k' s)"] by (auto split: prod.split sum.split)
qed simp

lemma settled_do: "settled k s \<Longrightarrow> settled k (readiness_do q s x)"
proof (cases x)
  case (Mark_Migrated now k')
  assume "settled k s"
  then show ?thesis
    using Mark_Migrated by (cases "lookup_by sr_id k (rd_diffs s)") (auto simp: markAsMigrated_def settled_def lookup_by_update)
next
  case Check_Drifted
  assume "settled k s"
  then show ?thesis using Check_Drifted settled_check_all[of k s] by (simp add: getAllReadinessStatus_def)
next
  case Summarise
  assume "settled k s"
  then have "settled k (fst (check_all q (map sr_id (rd_diffs s)) s))" by (rule settled_check_all)
  then show ?thesis using Summarise by (auto simp: getReadinessSummary_def split: prod.split sum.split)
next
  case (Check_Difference k')
  assume "settled k s"
  then show ?thesis using Check_Difference settled_check[of k s q k'] by simp
qed (simp_all add: settled_def)

lemma settled_run: "settled k s \<Longrightarrow> settled k (foldl (readiness_do q) s xs)"
  by (induction xs arbitrary: s) (simp_all add: settled_do)

lemma settled_verdict:
  assumes "settled k s"
  shows "\<exists>r. checkReadiness q k s = (s, Inr r) \<and> (rs_isReady r \<or> rs_status r = MIGRATED_READINESS)"
  using assms by (auto simp: settled_def checkReadiness_def passed_row_def split: option.splits)

lemma ready_is_settled:
  assumes "checkReadiness q k s = (s', Inr r)" "rs_isReady r"
  shows "settled k s'"
proof (cases "lookup_by sr_id k (rd_diffs s)")
  case (Some d)
  have "s' = s \<or> s' = mark_ready k s" using checkReadiness_state[of q k s] assms(1) by simp
  moreover have "sr_id d = k" using lookup_by_SomeD[OF Some] by simp
  then have "settled k (mark_ready k s)"
    using Some by (simp add: settled_def mark_ready_def lookup_by_update passed_row_def)
  moreover have "settled k s \<or> s' = mark_ready k s"
    using assms Some by (auto simp: settled_def checkReadiness_def passed_row_def split: if_splits option.splits prod.splits)
  ultimately show ?thesis by auto
qed (use assms in \<open>simp add: checkReadiness_def\<close>)

text \<open>C30: A difference that was not ready becomes ready only when its related job is completed,
  has processed every row without an error and left a clean column; and from then
  on it stays ready until it is migrated, whatever is checked, summarised, migrated
  or written to the jobs, and whatever the database answers later.\<close>

theorem ready_is_validated_once:
  assumes "lookup_by sr_id k (rd_diffs s) = Some d" "\<not> passed_row d"
    and "checkReadiness q k s = (s', Inr r)" "rs_isReady r"
  shows "(\<exists>j. related_job s d = Some j \<and> job_validated q (rd_jobs s) j)
    \<and> (\<exists>r'. checkReadiness q'' k (foldl (readiness_do q') s' xs) = (foldl (readiness_do q') s' xs, Inr r')
        \<and> (rs_isReady r' \<or> rs_status r' = MIGRATED_READINESS))"
proof
  show "\<exists>j. related_job s d = Some j \<and> job_validated q (rd_jobs s) j"
    using checkReadiness_ready[OF assms(1,3)] assms(2,4) by simp
  have "settled k (foldl (readiness_do q') s' xs)"
    by (rule settled_run) (rule ready_is_settled[OF assms(3,4)])
  then show "\<exists>r'. checkReadiness q'' k (foldl (readiness_do q') s' xs) = (foldl (readiness_do q') s' xs, Inr r')
      \<and> (rs_isReady r' \<or> rs_status r' = MIGRATED_READINESS)"
    by (rule settled_verdict)
qed

section \<open>Samples\<close>

definition sample_difference :: difference_row where
  "sample_difference = \<lparr> sr_id = ''d'', sr_type = COLUMN_TYPE_CHANGE, sr_status = DRIFT_DETECTED,
     sr_readiness = PENDING_READINESS, sr_validationStatus = VALIDATION_PENDING, sr_backfillSql = None,
     sr_migrationName = None, sr_backfillJobId = None, sr_backfill_job_id = Some ''j'', sr_backfillScheduledAt = None,
     sr_backfillStartedAt = None, sr_backfillCompletedAt = None, sr_readyForMigrationAt = None, sr_migratedAt = None,
     sr_errorMessage = None \<rparr>"

definition sample_readiness_job :: "string \<Rightarrow> readiness_job" where
  "sample_readiness_job stmt = \<lparr> bj_id = ''j'', tableName = ''t'', sqlStatement = stmt, totalRows = 2, processedRows = 2,
     lastProcessedId = Some 2, bj_status = COMPLETED, retryCount = 0, maxRetries = 3, errorMessage = None, startedAt = Some 0,
     completedAt = Some 1, lastProcessedAt = Some 1, bj_createdAt = 0, bj_targetType = None \<rparr>"

definition sample_readiness :: "string \<Rightarrow> readiness_state" where
  "sample_readiness stmt = \<lparr> rd_diffs = [sample_difference], rd_jobs = [sample_readiness_job stmt] \<rparr>"

lemma sample_details:
  "getBackfillJobDetails [sample_readiness_job ''UPDATE t SET c = 1''] ''j'' = Inr (''t'', ''c'', ''uuid'')"
  "getBackfillJobDetails [sample_readiness_job ''c = 1''] ''j'' = Inl ''Could not extract table and column from backfill SQL''"
  by code_simp+

lemma sample_check:
  "checkReadiness (\<lambda>_ _ _. Inr 0) ''d'' (sample_readiness ''UPDATE t SET c = 1'')
    = (mark_ready ''d'' (sample_readiness ''UPDATE t SET c = 1''), Inr (readiness_verdict True READY_READINESS (Some ''j'') (Some VALIDATION_PASSED) None))"
proof -
  have "fst (validateBackfillCompletion (\<lambda>_ _ _. Inr 0) [sample_readiness_job ''UPDATE t SET c = 1''] (sample_readiness_job ''UPDATE t SET c = 1''))"
    unfolding validateBackfillCompletion_valid progress_errors_empty
    using sample_details(1) by (simp add: sample_readiness_job_def column_clean_def)
  then show ?thesis
    by (auto simp: checkReadiness_def sample_readiness_def sample_difference_def related_job_def split: prod.split)
      (simp_all add: sample_readiness_job_def)
qed

lemma ready_is_validated_once_witness:
  "\<exists>r'. checkReadiness (\<lambda>_ _ _. Inl ''gone'') ''d''
        (foldl (readiness_do (\<lambda>_ _ _. Inr 5)) (mark_ready ''d'' (sample_readiness ''UPDATE t SET c = 1'')) [Write_Jobs [], Summarise])
      = (foldl (readiness_do (\<lambda>_ _ _. Inr 5)) (mark_ready ''d'' (sample_readiness ''UPDATE t SET c = 1'')) [Write_Jobs [], Summarise], Inr r')
    \<and> (rs_isReady r' \<or> rs_status r' = MIGRATED_READINESS)"
proof -
  have d: "lookup_by sr_id ''d'' (rd_diffs (sample_readiness ''UPDATE t SET c = 1'')) = Some sample_difference"
    by (simp add: sample_readiness_def sample_difference_def)
  have p: "\<not> passed_row sample_difference" by (simp add: passed_row_def sample_difference_def)
  show ?thesis
    by (rule conjunct2[OF ready_is_validated_once[OF d p sample_check]]) simp
qed

section \<open>The summary\<close>

lemma check_all_length: "check_all q ks s = (s', Inr rs) \<Longrightarrow> length rs = length ks"
  by (induction ks arbitrary: s s' rs) (auto split: prod.splits sum.splits)

text \<open>Every row is counted under one status.\<close>

lemma summary_adds_up:
  assumes "getReadinessSummary q s = (s', Inr m)"
  shows "sm_total m = sm_readyForMigration m + sm_backfilling m + sm_pending m + sm_migrated m"
proof -
  obtain rs where rs: "check_all q (map sr_id (rd_diffs s)) s = (s', Inr rs)" "sm_total m = length (rd_diffs s)"
    "sm_readyForMigration m = length (filter (\<lambda>r. rs_status r = READY_READINESS) rs)"
    "sm_backfilling m = length (filter (\<lambda>r. rs_status r = BACKFILLING_READINESS) rs)"
    "sm_pending m = length (filter (\<lambda>r. rs_status r = PENDING_READINESS) rs)"
    "sm_migrated m = length (filter (\<lambda>r. rs_status r = MIGRATED_READINESS) rs)"
    using assms by (auto simp: getReadinessSummary_def split: prod.splits sum.splits)
  have "length xs = length (filter (\<lambda>r. rs_status r = READY_READINESS) xs) + length (filter (\<lambda>r. rs_status r = BACKFILLING_READINESS) xs)
      + length (filter (\<lambda>r. rs_status r = PENDING_READINESS) xs) + length (filter (\<lambda>r. rs_status r = MIGRATED_READINESS) xs)" for xs
  proof (induction xs)
    case (Cons x xs)
    then show ?case by (cases "rs_status x") simp_all
  qed simp
  from this[of rs] show ?thesis using rs(2-) check_all_length[OF rs(1)] by simp
qed

section \<open>What the steps of a row do not do\<close>

text \<open>Starting the back-fill through the row's own method fills \<^verbatim>\<open>backfillJobId\<close> and not the
  key of the relation, which the check reads: the row stays pending whatever
  becomes of the job.\<close>

lemma started_row_stays_pending:
  assumes "sr_backfill_job_id d = None" "sr_validationStatus d \<noteq> VALIDATION_PASSED"
  shows "snd (checkReadiness q (sr_id d) \<lparr> rd_diffs = [markBackfillStarted now jid d], rd_jobs = js \<rparr>)
    = Inr (readiness_verdict False PENDING_READINESS None None None)"
  using assms by (simp add: checkReadiness_def markBackfillStarted_def row_updateStatus_def related_job_def)

text \<open>The check writes the readiness and not the status, so a row it has found ready is
  not ready by the row's own test.\<close>

lemma checked_row_not_ready:
  assumes "lookup_by sr_id k (rd_diffs s) = Some d" "sr_status d \<noteq> READY_FOR_MIGRATION"
  shows "\<exists>d'. lookup_by sr_id k (rd_diffs (mark_ready k s)) = Some d' \<and> \<not> isReadyForMigration d'"
  using assms lookup_by_SomeD[OF assms(1)] by (simp add: mark_ready_def lookup_by_update isReadyForMigration_def)

text \<open>A job in the form the back-fill worker can run, an assignment, is never ready,
  since the check looks for a whole statement.\<close>

lemma assignment_is_never_ready:
  "snd (checkReadiness q ''d'' (sample_readiness ''c = 1'')) = Inr (readiness_verdict False BACKFILLING_READINESS (Some ''j'')
     (Some VALIDATION_FAILED) (Some [''Validation failed: Could not extract table and column from backfill SQL'']))"
proof -
  have "validateBackfillCompletion q [sample_readiness_job ''c = 1''] (sample_readiness_job ''c = 1'')
      = (False, [''Validation failed: Could not extract table and column from backfill SQL''])"
    using sample_details(2) by (simp add: validateBackfillCompletion_def sample_readiness_job_def)
  then show ?thesis
    by (auto simp: checkReadiness_def sample_readiness_def sample_difference_def related_job_def split: prod.split)
      (simp_all add: sample_readiness_job_def)
qed

text \<open>The search for invalid identifiers compares the column with a pattern, which
  the database refuses for a column of type \<^verbatim>\<open>uuid\<close>: a column converted to it is
  never ready.\<close>

lemma uuid_column_is_never_ready:
  assumes "\<And>t c. \<exists>e. q INVALID_UUIDS t c = Inl e" "toLowerCase (or_default (bj_targetType j) ''uuid'') = ''uuid''"
    and "lookup_by bj_id (bj_id j) jobs = Some j"
  shows "\<not> job_validated q jobs j"
proof -
  have "\<not> column_clean q t c (or_default (bj_targetType j) ''uuid'')" for t c
    using assms(1)[of t c] assms(2) by (auto simp: column_clean_def)
  then show ?thesis
    using assms(3) by (auto simp: job_validated_def getBackfillJobDetails_def split: option.splits)
qed

end
