(* ===== verification/Schema_Lock.thy ===== *)
theory Schema_Lock
  imports Prelude
begin

text \<open>
  The lock of the schema (\<^verbatim>\<open>schema/services/schema-lock.service.ts\<close>). An advisory
  lock of PostgreSQL belongs to the session that took it, which may take it again
  and has to give it back as often; giving back a lock one does not hold changes
  nothing. The service takes a connection from the pool for every call and
  returns it at once, so each call may run in another session; the session of a
  call, or the error of the connection, is an argument.
\<close>

type_synonym session = nat

text \<open>The holder and how often it has taken the lock.\<close>

type_synonym advisory_lock = "(session \<times> nat) option"

definition pg_try_advisory_lock :: "session \<Rightarrow> advisory_lock \<Rightarrow> advisory_lock \<times> bool" where
  "pg_try_advisory_lock s l = (case l of
     None \<Rightarrow> (Some (s, 1), True)
   | Some (t, n) \<Rightarrow> if t = s then (Some (s, n + 1), True) else (l, False))"

definition pg_advisory_unlock :: "session \<Rightarrow> advisory_lock \<Rightarrow> advisory_lock \<times> bool" where
  "pg_advisory_unlock s l = (case l of
     None \<Rightarrow> (None, False)
   | Some (t, n) \<Rightarrow> if t = s then (if n \<le> 1 then None else Some (s, n - 1), True) else (l, False))"

section \<open>The service\<close>

type_synonym connection = "string + session"

definition acquireLock :: "connection \<Rightarrow> (advisory_lock, string, bool) action" where
  "acquireLock c l = (case c of Inl e \<Rightarrow> (l, Inl e)
     | Inr s \<Rightarrow> (case pg_try_advisory_lock s l of (l', b) \<Rightarrow> (l', Inr b)))"

definition releaseLock :: "connection \<Rightarrow> (advisory_lock, string, unit) action" where
  "releaseLock c l = (case c of Inl e \<Rightarrow> (l, Inl e)
     | Inr s \<Rightarrow> (fst (pg_advisory_unlock s l), Inr ()))"

text \<open>\<^verbatim>\<open>pg_advisory_lock\<close> waits until the lock is free; \<^verbatim>\<open>None\<close> is a call that is left
  waiting. What other sessions do between the two queries is an argument.\<close>

definition isLockHeld :: "connection \<Rightarrow> (advisory_lock \<Rightarrow> advisory_lock) \<Rightarrow> advisory_lock
    \<Rightarrow> (advisory_lock \<times> (string + bool)) option" where
  "isLockHeld c others l = (case c of
     Inl e \<Rightarrow> Some (l, Inl e)
   | Inr s \<Rightarrow> (case pg_advisory_unlock s l of (l1, held) \<Rightarrow>
       if held then (case pg_try_advisory_lock s (others l1) of (l2, got) \<Rightarrow>
           if got then Some (l2, Inr True) else None)
       else Some (l1, Inr False)))"

definition withLock :: "connection \<Rightarrow> connection \<Rightarrow> ('s, string, 'a) action
    \<Rightarrow> (advisory_lock \<times> 's, string, 'a) action" where
  "withLock a b operation = (\<lambda>(l, s). case acquireLock a l of
     (l1, Inl e) \<Rightarrow> ((l1, s), Inl e)
   | (l1, Inr False) \<Rightarrow> ((l1, s), Inl ''Could not acquire schema lock - another migration is in progress'')
   | (l1, Inr True) \<Rightarrow> (case operation s of (s1, r) \<Rightarrow>
       (case releaseLock b l1 of
         (l2, Inl e) \<Rightarrow> ((l2, s1), Inl e)
       | (l2, Inr _) \<Rightarrow> ((l2, s1), r))))"

section \<open>What the lock does\<close>

datatype lock_call = Acquire session | Release session

fun lock_do :: "advisory_lock \<Rightarrow> lock_call \<Rightarrow> advisory_lock" where
  "lock_do l (Acquire s) = fst (acquireLock (Inr s) l)"
| "lock_do l (Release s) = fst (releaseLock (Inr s) l)"

definition well_counted :: "advisory_lock \<Rightarrow> bool" where
  "well_counted l = (case l of None \<Rightarrow> True | Some (_, n) \<Rightarrow> 0 < n)"

lemma well_counted_do: "well_counted l \<Longrightarrow> well_counted (lock_do l c)"
  by (cases c; cases l) (auto simp: well_counted_def acquireLock_def releaseLock_def pg_try_advisory_lock_def
      pg_advisory_unlock_def split: if_splits)

lemma other_sessions_change_nothing:
  assumes "l = Some (s, n)" "c = Acquire t \<or> c = Release t" "t \<noteq> s"
  shows "lock_do l c = l"
  using assms by (auto simp: acquireLock_def releaseLock_def pg_try_advisory_lock_def pg_advisory_unlock_def)

lemma held_lock_stays:
  assumes "\<forall>c \<in> set cs. case c of Acquire t \<Rightarrow> t \<noteq> s | Release t \<Rightarrow> t \<noteq> s"
  shows "foldl lock_do (Some (s, n)) cs = Some (s, n)"
  using assms
proof (induction cs)
  case (Cons c cs)
  then have "lock_do (Some (s, n)) c = Some (s, n)"
    using other_sessions_change_nothing[of "Some (s, n)" s n c "case c of Acquire t \<Rightarrow> t | Release t \<Rightarrow> t"]
    by (cases c) auto
  then show ?case using Cons by simp
qed simp

text \<open>One session holds the lock at a time: from the moment a session has acquired it
  until a call runs in that session again, whatever other sessions call, every
  other session is refused. A release in another session does not count: the lock
  is then held although everyone has released it.\<close>

theorem lock_excludes_other_sessions:
  assumes "acquireLock (Inr s) l = (l', Inr True)"
    and "\<forall>c \<in> set cs. case c of Acquire t \<Rightarrow> t \<noteq> s | Release t \<Rightarrow> t \<noteq> s" "t \<noteq> s"
  shows "acquireLock (Inr t) (foldl lock_do l' cs) = (l', Inr False)"
proof -
  obtain n where l': "l' = Some (s, n)"
    using assms(1) by (cases l) (auto simp: acquireLock_def pg_try_advisory_lock_def split: if_splits prod.splits)
  then have "foldl lock_do l' cs = Some (s, n)" using held_lock_stays[OF assms(2)] by simp
  then show ?thesis using assms(3) l' by (simp add: acquireLock_def pg_try_advisory_lock_def)
qed

lemma lock_excludes_other_sessions_witness:
  "acquireLock (Inr 3) (foldl lock_do (Some (1, 1)) [Release 2, Acquire 2, Release 2]) = (Some (1, 1), Inr False)"
  by (rule lock_excludes_other_sessions[where s = 1 and l = None])
    (simp_all add: acquireLock_def pg_try_advisory_lock_def)

text \<open>With one connection the lock is given back; with two it is not, and the next
  call in any session but the first is refused for good.\<close>

lemma withLock_same_session:
  assumes "l = None"
  shows "withLock (Inr s) (Inr s) operation (l, x) = ((None, fst (operation x)), snd (operation x))"
  using assms by (simp add: withLock_def acquireLock_def releaseLock_def pg_try_advisory_lock_def
      pg_advisory_unlock_def split: prod.split)

lemma withLock_leaks:
  assumes "a \<noteq> b" "c \<noteq> a"
  shows "fst (fst (withLock (Inr a) (Inr b) operation (None, x))) = Some (a, 1)"
    "snd (withLock (Inr c) d operation' (fst (withLock (Inr a) (Inr b) operation (None, x))))
      = Inl ''Could not acquire schema lock - another migration is in progress''"
  using assms by (simp_all add: withLock_def acquireLock_def releaseLock_def pg_try_advisory_lock_def
      pg_advisory_unlock_def split: prod.split)

text \<open>The question whether the lock is held is about the session that asks.\<close>

lemma isLockHeld_sees_own_lock_only:
  "s \<noteq> t \<Longrightarrow> isLockHeld (Inr s) others (Some (t, n)) = Some (Some (t, n), Inr False)"
  by (simp add: isLockHeld_def pg_advisory_unlock_def)

lemma isLockHeld_can_lose_lock:
  "s \<noteq> t \<Longrightarrow> isLockHeld (Inr s) (\<lambda>l. fst (pg_try_advisory_lock t l)) (Some (s, 1)) = None"
  by (simp add: isLockHeld_def pg_advisory_unlock_def pg_try_advisory_lock_def)

end
