(* ===== verification/Drift_Engine.thy ===== *)
theory Drift_Engine
  imports Schema_Diff
begin

text \<open>
  Drift between entities, migrations and database (\<^verbatim>\<open>schema/engine/drift-engine.ts\<close>)
  and the cache of the last report (\<^verbatim>\<open>schema/services/drift-cache.service.ts\<close>): the
  report and its flags, the engine's own comparison of snapshots, the plan of
  resolution, the background run and the status the cache answers. The answers
  of the data source, with their errors, and the clock are arguments.
\<close>

section \<open>The report\<close>

datatype drift_type = ENTITY_DRIFT | MIGRATION_DRIFT | SCHEMA_DRIFT

datatype drift_severity = DRIFT_LOW | DRIFT_MEDIUM | DRIFT_HIGH | DRIFT_CRITICAL

record DriftDetail =
  dd_type :: drift_type
  dd_description :: string
  dd_severity :: drift_severity
  dd_affectedTables :: "string list option"
  dd_suggestedAction :: string

record DriftReport =
  entityDrift :: bool
  migrationDrift :: bool
  schemaDrift :: bool
  driftDetails :: "DriftDetail list"
  drift_recommendations :: "string list"
  detailedDiff :: "DetailedSchemaDiff option"

text \<open>What the data source answers: whether it is there and initialised, and the
  outcome of the query for pending migrations and of the detailed comparison.\<close>

record drift_source =
  ds_present :: bool
  ds_initialized :: bool
  ds_migrations :: "string + bool"
  ds_diff :: "string + DetailedSchemaDiff"

definition ensureReady :: "drift_source \<Rightarrow> string + unit" where
  "ensureReady S = (if \<not> ds_present S then Inl ''DriftEngine DataSource not injected''
     else if \<not> ds_initialized S then Inl ''DataSource not initialized'' else Inr ())"

definition checkMigrationDrift :: "drift_source \<Rightarrow> string + bool" where
  "checkMigrationDrift S = (case ensureReady S of
     Inl e \<Rightarrow> Inl e
   | Inr _ \<Rightarrow> (case ds_migrations S of Inl _ \<Rightarrow> Inr False | Inr pending \<Rightarrow> Inr pending))"

definition only_if :: "bool \<Rightarrow> 'a \<Rightarrow> 'a list" where
  "only_if b x = (if b then [x] else [])"

definition checkFullDrift :: "drift_source \<Rightarrow> string + DriftReport" where
  "checkFullDrift S = (case checkMigrationDrift S of
     Inl e \<Rightarrow> Inl e
   | Inr migration \<Rightarrow> (let
         detailed = (case ds_diff S of Inl _ \<Rightarrow> None | Inr d \<Rightarrow> Some d);
         differences = (case detailed of None \<Rightarrow> [] | Some d \<Rightarrow> filter (\<lambda>x. df_table x \<noteq> []) (dd_differences d));
         drift = (0 < length differences)
       in Inr \<lparr> entityDrift = drift, migrationDrift = migration, schemaDrift = drift,
            driftDetails =
              only_if drift \<lparr> dd_type = ENTITY_DRIFT, dd_description = ''Entity definitions differ from database schema'',
                dd_severity = DRIFT_HIGH, dd_affectedTables = Some (map df_table differences),
                dd_suggestedAction = ''Run schema synchronization or generate new migrations'' \<rparr>
              @ only_if migration \<lparr> dd_type = MIGRATION_DRIFT, dd_description = ''Pending migrations detected'',
                dd_severity = DRIFT_CRITICAL, dd_affectedTables = None,
                dd_suggestedAction = ''Run pending migrations before deployment'' \<rparr>
              @ only_if drift \<lparr> dd_type = SCHEMA_DRIFT, dd_description = ''Database schema differs from expected state'',
                dd_severity = DRIFT_HIGH, dd_affectedTables = Some (map df_table differences),
                dd_suggestedAction = ''Compare schema snapshots and resolve discrepancies'' \<rparr>,
            drift_recommendations =
              only_if drift ''Review entity changes and generate appropriate migrations''
              @ only_if migration ''Execute pending migrations in development environment''
              @ only_if drift ''Investigate manual schema changes and update entity definitions'',
            detailedDiff = detailed \<rparr>))"

definition validateResolution :: "drift_source \<Rightarrow> string + bool" where
  "validateResolution S = (case checkFullDrift S of
     Inl e \<Rightarrow> Inl e
   | Inr r \<Rightarrow> Inr (\<not> entityDrift r \<and> \<not> migrationDrift r \<and> \<not> schemaDrift r))"

section \<open>Snapshots\<close>

record snapshot_column =
  sn_name :: string
  sn_type :: entity_type
  sn_nullable :: bool
  sn_primaryKey :: bool

record snapshot_table =
  st_name :: string
  st_columns :: "snapshot_column list"

definition buildDatabaseSnapshot :: "db_table list \<Rightarrow> snapshot_table list" where
  "buildDatabaseSnapshot db = map (\<lambda>t. \<lparr> st_name = bt_name t,
     st_columns = map (\<lambda>c. \<lparr> sn_name = bc_name c, sn_type = TypeName (bc_type c), sn_nullable = bc_nullable c,
       sn_primaryKey = False \<rparr>) (bt_columns t) \<rparr>) db"

text \<open>The type of an entity column is taken as it is, and a class is never equal to a name.\<close>

definition buildEntitySnapshot :: "entity_metadata list \<Rightarrow> snapshot_table list" where
  "buildEntitySnapshot ms = map (\<lambda>m. \<lparr> st_name = em_tableName m,
     st_columns = map (\<lambda>c. \<lparr> sn_name = ec_databaseName c, sn_type = ec_type c,
       sn_nullable = ec_isNullable c, sn_primaryKey = ec_isPrimary c \<rparr>) (em_columns m) \<rparr>) ms"

definition column_map :: "snapshot_table \<Rightarrow> (string \<times> snapshot_column) list" where
  "column_map t = js_object sn_name (\<lambda>c. c) (st_columns t)"

definition snapshot_column_differs :: "snapshot_table \<Rightarrow> string \<times> snapshot_column \<Rightarrow> bool" where
  "snapshot_column_differs current = (\<lambda>(name, col). case map_of (column_map current) name of
     None \<Rightarrow> True
   | Some c \<Rightarrow> sn_type c \<noteq> sn_type col \<or> sn_nullable c \<noteq> sn_nullable col \<or> sn_primaryKey c \<noteq> sn_primaryKey col)"

definition compareSnapshots :: "snapshot_table list \<Rightarrow> snapshot_table list \<Rightarrow> bool" where
  "compareSnapshots current expected =
     (list_ex (\<lambda>t. t \<notin> st_name ` set current) (map st_name expected)
      \<or> list_ex (\<lambda>t. t \<notin> st_name ` set expected) (map st_name current)
      \<or> list_ex (\<lambda>e. case lookup_by st_name (st_name e) current of
            None \<Rightarrow> False
          | Some c \<Rightarrow> list_ex (snapshot_column_differs c) (column_map e)) expected)"

text \<open>The two checks on snapshots differ only in the connection they open; an error counts
  as no drift.\<close>

definition checkEntityDrift :: "drift_source \<Rightarrow> string + db_table list \<Rightarrow> entity_metadata list \<Rightarrow> string + bool" where
  "checkEntityDrift S db ms = (case ensureReady S of
     Inl e \<Rightarrow> Inl e
   | Inr _ \<Rightarrow> (case db of Inl _ \<Rightarrow> Inr False
       | Inr ts \<Rightarrow> Inr (compareSnapshots (buildDatabaseSnapshot ts) (buildEntitySnapshot ms))))"

definition checkSchemaDrift :: "drift_source \<Rightarrow> string + db_table list \<Rightarrow> entity_metadata list \<Rightarrow> string + bool" where
  "checkSchemaDrift S db ms = (case ensureReady S of
     Inl e \<Rightarrow> Inl e
   | Inr _ \<Rightarrow> (case db of Inl _ \<Rightarrow> Inr False
       | Inr ts \<Rightarrow> Inr (compareSnapshots (buildDatabaseSnapshot ts) (buildEntitySnapshot ms))))"

section \<open>The plan of resolution\<close>

datatype drift_action_type = GENERATE_MIGRATIONS | EXECUTE_MIGRATIONS | RESOLVE_SCHEMA_CONFLICTS

record DriftAction =
  da_type :: drift_action_type
  da_description :: string
  da_estimatedTime :: string
  da_riskLevel :: drift_severity
  da_requiresApproval :: bool

record resolution_plan =
  rp_actions :: "DriftAction list"
  rp_estimatedTime :: string
  rp_riskLevel :: drift_severity

definition formatTime :: "nat \<Rightarrow> string" where
  "formatTime seconds = (if seconds < 60 then nat_str seconds @ ''s''
     else if seconds < 3600 then nat_str (seconds div 60) @ ''m '' @ nat_str (seconds mod 60) @ ''s''
     else nat_str (seconds div 3600) @ ''h '' @ nat_str (seconds mod 3600 div 60) @ ''m'')"

definition generateResolutionPlan :: "DriftReport \<Rightarrow> resolution_plan" where
  "generateResolutionPlan r = (let
       actions = only_if (entityDrift r) \<lparr> da_type = GENERATE_MIGRATIONS,
           da_description = ''Generate migrations for entity changes'', da_estimatedTime = ''5m'',
           da_riskLevel = DRIFT_MEDIUM, da_requiresApproval = True \<rparr>
         @ only_if (migrationDrift r) \<lparr> da_type = EXECUTE_MIGRATIONS,
           da_description = ''Execute pending migrations'', da_estimatedTime = ''10m'',
           da_riskLevel = DRIFT_HIGH, da_requiresApproval = True \<rparr>
         @ only_if (schemaDrift r) \<lparr> da_type = RESOLVE_SCHEMA_CONFLICTS,
           da_description = ''Resolve schema conflicts'', da_estimatedTime = ''15m'',
           da_riskLevel = DRIFT_HIGH, da_requiresApproval = True \<rparr>;
       totalSeconds = (if entityDrift r then 300 else 0) + (if migrationDrift r then 600 else 0)
         + (if schemaDrift r then 900 else 0)
     in \<lparr> rp_actions = actions, rp_estimatedTime = formatTime totalSeconds,
          rp_riskLevel = (if actions = [] then DRIFT_LOW
            else if list_ex (\<lambda>a. da_riskLevel a = DRIFT_HIGH) actions then DRIFT_HIGH else DRIFT_MEDIUM) \<rparr>)"

section \<open>The cache\<close>

record drift_cache =
  cachedDrift :: "DriftReport option"
  lastRun :: "int option"
  lastError :: "string option"
  lastErrorTime :: "int option"
  lastDurationMs :: "int option"

definition empty_cache :: drift_cache where
  "empty_cache = \<lparr> cachedDrift = None, lastRun = None, lastError = None, lastErrorTime = None, lastDurationMs = None \<rparr>"

datatype cache_status = CACHE_HEALTHY | CACHE_DEGRADED | CACHE_FAILED | CACHE_UNKNOWN

record cache_answer =
  ca_report :: "DriftReport option"
  ca_lastRun :: "int option"
  ca_lastDurationMs :: "int option"
  ca_status :: cache_status
  ca_error :: "string option"

definition cache_update :: "int \<Rightarrow> DriftReport \<Rightarrow> int \<Rightarrow> drift_cache \<Rightarrow> drift_cache" where
  "cache_update now r ms c = c\<lparr> cachedDrift := Some r, lastRun := Some now, lastDurationMs := Some ms,
     lastError := None, lastErrorTime := None \<rparr>"

definition markFailed :: "int \<Rightarrow> string \<Rightarrow> drift_cache \<Rightarrow> drift_cache" where
  "markFailed now e c = c\<lparr> lastError := Some e, lastErrorTime := Some now \<rparr>"

definition cache_clear :: "drift_cache \<Rightarrow> drift_cache" where
  "cache_clear c = empty_cache"

definition MAX_AGE_MS :: int where "MAX_AGE_MS = 5 * 60 * 1000"

definition has_drift :: "DriftReport \<Rightarrow> bool" where
  "has_drift r = (entityDrift r \<or> migrationDrift r \<or> schemaDrift r)"

definition cache_get :: "int \<Rightarrow> drift_cache \<Rightarrow> cache_answer" where
  "cache_get now c = (let
       answer = (\<lambda>st err. \<lparr> ca_report = cachedDrift c, ca_lastRun = lastRun c, ca_lastDurationMs = lastDurationMs c,
         ca_status = st, ca_error = err \<rparr>);
       later = (case (lastError c, lastErrorTime c) of
           (Some e, Some t) \<Rightarrow> if now - t < MAX_AGE_MS then answer CACHE_DEGRADED (Some (''Drift check failed: '' @ e))
             else answer CACHE_UNKNOWN (Some ''No recent drift data available'')
         | _ \<Rightarrow> answer CACHE_UNKNOWN (Some ''No recent drift data available''))
     in case (cachedDrift c, lastRun c) of
          (Some r, Some t) \<Rightarrow> if now - t < MAX_AGE_MS
            then answer (if has_drift r then CACHE_DEGRADED else CACHE_HEALTHY) None else later
        | _ \<Rightarrow> later)"

record cache_stats =
  cs_hasData :: bool
  cs_lastRun :: "int option"
  cs_lastDurationMs :: "int option"
  cs_hasError :: bool
  cs_errorAge :: "int option"
  cs_dataAge :: "int option"

definition cache_getStats :: "int \<Rightarrow> drift_cache \<Rightarrow> cache_stats" where
  "cache_getStats now c = \<lparr> cs_hasData = (cachedDrift c \<noteq> None), cs_lastRun = lastRun c,
     cs_lastDurationMs = lastDurationMs c, cs_hasError = (lastError c \<noteq> None),
     cs_errorAge = map_option (\<lambda>t. now - t) (lastErrorTime c), cs_dataAge = map_option (\<lambda>t. now - t) (lastRun c) \<rparr>"

text \<open>A run of the analysis that starts at \<^verbatim>\<open>t0\<close> and ends at \<^verbatim>\<open>t1\<close>, if none is under way.\<close>

definition runBackgroundDriftAnalysis :: "bool \<Rightarrow> int \<Rightarrow> int \<Rightarrow> drift_source \<Rightarrow> drift_cache \<Rightarrow> drift_cache" where
  "runBackgroundDriftAnalysis running t0 t1 S c = (if running then c
     else (case checkFullDrift S of
         Inr r \<Rightarrow> cache_update t1 r (t1 - t0) c
       | Inl e \<Rightarrow> markFailed t1 e c))"

section \<open>What the report says\<close>

lemma only_if_empty [simp]: "only_if b x = [] \<longleftrightarrow> \<not> b"
  by (simp add: only_if_def)

definition diff_found :: "drift_source \<Rightarrow> bool" where
  "diff_found S = (case ds_diff S of Inl _ \<Rightarrow> False | Inr d \<Rightarrow> \<exists>x \<in> set (dd_differences d). df_table x \<noteq> [])"

definition migrations_pending :: "drift_source \<Rightarrow> bool" where
  "migrations_pending S = (ds_migrations S = Inr True)"

lemma checkMigrationDrift_ready:
  "ensureReady S = Inr () \<Longrightarrow> checkMigrationDrift S = Inr (migrations_pending S)"
  by (auto simp: checkMigrationDrift_def migrations_pending_def split: sum.split)

lemma checkFullDrift_flags:
  assumes "ensureReady S = Inr ()"
  shows "\<exists>r. checkFullDrift S = Inr r \<and> entityDrift r = diff_found S \<and> schemaDrift r = diff_found S
    \<and> migrationDrift r = migrations_pending S \<and> (driftDetails r = [] \<longleftrightarrow> \<not> has_drift r)"
proof (cases "ds_diff S")
  case (Inl e)
  then show ?thesis
    by (simp add: checkFullDrift_def checkMigrationDrift_ready[OF assms] diff_found_def has_drift_def Let_def)
next
  case (Inr d)
  then show ?thesis
    by (simp add: checkFullDrift_def checkMigrationDrift_ready[OF assms] diff_found_def has_drift_def Let_def filter_empty_conv)
qed

lemma checkFullDrift_error: "checkFullDrift S = Inl e \<longleftrightarrow> ensureReady S = Inl e"
proof (cases "ensureReady S")
  case (Inr u)
  then show ?thesis using checkFullDrift_flags[of S] by auto
qed (simp add: checkFullDrift_def checkMigrationDrift_def)

text \<open>The tables of a difference are the tables of the two schemas.\<close>

lemma df_table_simps [simp]:
  "df_table (missing_table t) = t" "df_table (extra_table t) = t" "df_table (missing_column t c e) = t"
  "df_table (extra_column t c d) = t" "df_table (at_column t c x) = t"
  by (simp_all add: missing_table_def extra_table_def missing_column_def extra_column_def at_column_def)

lemma compare_table_at: "x \<in> set (compare_table t e d) \<Longrightarrow> df_table x = t"
  by (auto simp: compare_table_def split: option.splits)

lemma difference_table:
  assumes "x \<in> set (compareSchemas db es)"
  shows "df_table x \<in> fst ` set db \<union> fst ` set es"
proof -
  have "(\<exists>(t, et) \<in> set es. x \<in> set (case map_of db t of None \<Rightarrow> [missing_table t] | Some dt \<Rightarrow> compare_table t et dt))
      \<or> (\<exists>(t, dt) \<in> set db. x \<in> set (case map_of es t of None \<Rightarrow> [extra_table t] | Some _ \<Rightarrow> []))"
    using assms by (auto simp: compareSchemas_def)
  then show ?thesis
  proof
    assume "\<exists>(t, et) \<in> set es. x \<in> set (case map_of db t of None \<Rightarrow> [missing_table t] | Some dt \<Rightarrow> compare_table t et dt)"
    then obtain t et where t: "(t, et) \<in> set es" "x \<in> set (case map_of db t of None \<Rightarrow> [missing_table t] | Some dt \<Rightarrow> compare_table t et dt)"
      by blast
    then have "df_table x = t" by (cases "map_of db t") (auto dest: compare_table_at)
    then show ?thesis using t(1) by force
  next
    assume "\<exists>(t, dt) \<in> set db. x \<in> set (case map_of es t of None \<Rightarrow> [extra_table t] | Some _ \<Rightarrow> [])"
    then obtain t dt where t: "(t, dt) \<in> set db" "x \<in> set (case map_of es t of None \<Rightarrow> [extra_table t] | Some _ \<Rightarrow> [])"
      by blast
    then have "df_table x = t" by (cases "map_of es t") auto
    then show ?thesis using t(1) by force
  qed
qed

lemma split_camel_empty [simp]: "split_camel s = [] \<longleftrightarrow> s = []"
  by (cases s rule: split_camel.cases) simp_all

lemma normalizeTableName_empty [simp]: "normalizeTableName s = [] \<longleftrightarrow> s = []"
  by (simp add: normalizeTableName_def toLowerCase_def)

text \<open>With named tables, a resolution is validated exactly when no migration is known to
  be pending and the schemas agree; and also when the comparison itself fails.\<close>

lemma resolution_validated:
  assumes "ensureReady S = Inr ()" "\<forall>t \<in> set db. bt_name t \<noteq> []" "\<forall>m \<in> set ms. em_tableName m \<noteq> []"
    and "ds_diff S = Inr (getDetailedSchemaDiff db ms) \<or> ds_diff S = Inl e"
  shows "validateResolution S = Inr (\<not> migrations_pending S \<and>
    (ds_diff S = Inl e \<or> schemas_agree (getDatabaseSchemaDetails db) (getEntitySchemaDetails ms)))"
proof -
  obtain r where r: "checkFullDrift S = Inr r" "entityDrift r = diff_found S" "schemaDrift r = diff_found S"
      "migrationDrift r = migrations_pending S"
    using checkFullDrift_flags[OF assms(1)] by blast
  have "df_table x \<noteq> []" if x: "x \<in> set (dd_differences (getDetailedSchemaDiff db ms))" for x
  proof -
    have "df_table x \<in> fst ` set (getDatabaseSchemaDetails db) \<union> fst ` set (getEntitySchemaDetails ms)"
      using x difference_table by (simp add: getDetailedSchemaDiff_def Let_def)
    then show ?thesis
      using assms(2,3) by (auto simp: getDatabaseSchemaDetails_def getEntitySchemaDetails_def js_object_keys)
  qed
  then have "diff_found S \<longleftrightarrow> dd_differences (getDetailedSchemaDiff db ms) \<noteq> []"
    if "ds_diff S = Inr (getDetailedSchemaDiff db ms)"
    using that by (cases "dd_differences (getDetailedSchemaDiff db ms)") (auto simp: diff_found_def)
  then have "diff_found S \<longleftrightarrow> \<not> (ds_diff S = Inl e \<or> schemas_agree (getDatabaseSchemaDetails db) (getEntitySchemaDetails ms))"
    using assms(4) by (auto simp: report_empty diff_found_def)
  then show ?thesis using r by (auto simp: validateResolution_def)
qed

text \<open>While no query can be answered, the report is free of drift, and the cache healthy.\<close>

lemma failed_queries_look_healthy:
  assumes "ensureReady S = Inr ()" "ds_migrations S = Inl e" "ds_diff S = Inl e'" "now - t1 < MAX_AGE_MS"
  shows "ca_status (cache_get now (runBackgroundDriftAnalysis False t0 t1 S c)) = CACHE_HEALTHY"
proof -
  obtain r where r: "checkFullDrift S = Inr r" "entityDrift r = diff_found S" "schemaDrift r = diff_found S"
      "migrationDrift r = migrations_pending S"
    using checkFullDrift_flags[OF assms(1)] by blast
  have "\<not> has_drift r" using r assms(2,3) by (simp add: has_drift_def diff_found_def migrations_pending_def)
  then show ?thesis
    using assms(4) by (simp add: runBackgroundDriftAnalysis_def r(1) cache_update_def cache_get_def)
qed

section \<open>What the cache answers\<close>

datatype cache_event = Analysis bool int int drift_source | Clear_Cache

fun cache_do :: "drift_cache \<Rightarrow> cache_event \<Rightarrow> drift_cache" where
  "cache_do c (Analysis running t0 t1 S) = runBackgroundDriftAnalysis running t0 t1 S c"
| "cache_do c Clear_Cache = cache_clear c"

definition ran :: "cache_event list \<Rightarrow> int \<Rightarrow> DriftReport \<Rightarrow> bool" where
  "ran es t r = (\<exists>t0 S. Analysis False t0 t S \<in> set es \<and> checkFullDrift S = Inr r)"

definition cache_sound :: "cache_event list \<Rightarrow> drift_cache \<Rightarrow> bool" where
  "cache_sound es c = (\<forall>r t. cachedDrift c = Some r \<longrightarrow> lastRun c = Some t \<longrightarrow> ran es t r)"

lemma ran_mono: "ran es t r \<Longrightarrow> ran (es @ [e]) t r"
  by (auto simp: ran_def)

lemma cache_sound_run: "cache_sound es (foldl cache_do empty_cache es)"
proof (induction es rule: rev_induct)
  case Nil
  show ?case by (simp add: cache_sound_def empty_cache_def)
next
  case (snoc e es)
  let ?c = "foldl cache_do empty_cache es"
  show ?case
  proof (cases e)
    case (Analysis running t0 t1 S)
    show ?thesis
    proof (cases "\<not> running \<and> (\<exists>r. checkFullDrift S = Inr r)")
      case True
      then obtain r where "checkFullDrift S = Inr r" "\<not> running" by blast
      then show ?thesis
        using Analysis by (auto simp: cache_sound_def ran_def runBackgroundDriftAnalysis_def cache_update_def)
    next
      case False
      then have "cachedDrift (cache_do ?c e) = cachedDrift ?c" "lastRun (cache_do ?c e) = lastRun ?c"
        using Analysis by (auto simp: runBackgroundDriftAnalysis_def markFailed_def split: sum.split)
      then show ?thesis using snoc ran_mono by (auto simp: cache_sound_def)
    qed
  next
    case Clear_Cache
    then show ?thesis by (simp add: cache_sound_def cache_clear_def empty_cache_def)
  qed
qed

lemma cache_get_healthy:
  assumes "ca_status (cache_get now c) = CACHE_HEALTHY"
  shows "\<exists>r t. cachedDrift c = Some r \<and> lastRun c = Some t \<and> now - t < MAX_AGE_MS \<and> \<not> has_drift r"
  using assms by (auto simp: cache_get_def Let_def split: option.splits if_splits)

lemma cache_get_never_failed: "ca_status (cache_get now c) \<noteq> CACHE_FAILED"
  by (auto simp: cache_get_def Let_def split: option.splits if_splits)

text \<open>C33: Whatever runs and clearings there have been, the cache answers HEALTHY only when a
  run of the last five minutes made a report without drift, and it never answers
  FAILED, also not after runs that failed.\<close>

theorem healthy_means_recent_clean_run:
  assumes "status = ca_status (cache_get now (foldl cache_do empty_cache es))"
  shows "status \<noteq> CACHE_FAILED \<and> (status = CACHE_HEALTHY \<longrightarrow>
    (\<exists>t0 t1 S r. Analysis False t0 t1 S \<in> set es \<and> checkFullDrift S = Inr r \<and> \<not> has_drift r
      \<and> now - t1 < 5 * 60 * 1000))"
proof -
  let ?c = "foldl cache_do empty_cache es"
  have "\<exists>t0 t1 S r. Analysis False t0 t1 S \<in> set es \<and> checkFullDrift S = Inr r \<and> \<not> has_drift r
      \<and> now - t1 < 5 * 60 * 1000" if h: "status = CACHE_HEALTHY"
  proof -
    obtain r t where r: "cachedDrift ?c = Some r" "lastRun ?c = Some t" "now - t < MAX_AGE_MS" "\<not> has_drift r"
      using cache_get_healthy[OF h[unfolded assms]] by blast
    then have "ran es t r" using cache_sound_run[of es] by (simp add: cache_sound_def)
    then obtain t0 S where "Analysis False t0 t S \<in> set es" "checkFullDrift S = Inr r" by (auto simp: ran_def)
    then show ?thesis using r unfolding MAX_AGE_MS_def by blast
  qed
  moreover have "status \<noteq> CACHE_FAILED" using cache_get_never_failed[of now ?c] by (simp only: assms not_False_eq_True)
  ultimately show ?thesis by iprover
qed

definition quiet_source :: drift_source where
  "quiet_source = \<lparr> ds_present = True, ds_initialized = True, ds_migrations = Inr False, ds_diff = Inl ''no answer'' \<rparr>"

lemma healthy_means_recent_clean_run_witness:
  "\<exists>t0 t1 S r. Analysis False t0 t1 S \<in> set [Analysis False 0 7 quiet_source] \<and> checkFullDrift S = Inr r \<and> \<not> has_drift r
    \<and> 100 - t1 < 5 * 60 * 1000"
proof -
  have "CACHE_HEALTHY = ca_status (cache_get 100 (foldl cache_do empty_cache [Analysis False 0 7 quiet_source]))"
    by (simp add: cache_get_def runBackgroundDriftAnalysis_def checkFullDrift_def checkMigrationDrift_def ensureReady_def
        quiet_source_def cache_update_def has_drift_def MAX_AGE_MS_def Let_def)
  from healthy_means_recent_clean_run[OF this] show ?thesis by simp
qed

text \<open>A clean report outlives a later failure for five minutes.\<close>

lemma failure_is_hidden_by_success:
  assumes "checkFullDrift S = Inr r" "\<not> has_drift r" "now - t1 < MAX_AGE_MS"
  shows "ca_status (cache_get now (markFailed t2 e (runBackgroundDriftAnalysis False t0 t1 S c))) = CACHE_HEALTHY"
  using assms by (simp add: runBackgroundDriftAnalysis_def cache_update_def markFailed_def cache_get_def)

section \<open>The engine's own comparison\<close>

text \<open>The snapshot of the database has no primary keys, and has the table of the
  migrations: the checks of entity and schema drift always find drift.\<close>

lemma primary_key_is_drift:
  assumes "m \<in> set ms" "c \<in> set (em_columns m)" "ec_isPrimary c"
    and "\<forall>c' \<in> set (em_columns m). ec_databaseName c' = ec_databaseName c \<longrightarrow> c' = c"
  shows "compareSnapshots (buildDatabaseSnapshot db) (buildEntitySnapshot ms)"
proof -
  let ?cur = "buildDatabaseSnapshot db"
  let ?sc = "\<lambda>c. \<lparr> sn_name = ec_databaseName c, sn_type = ec_type c, sn_nullable = ec_isNullable c, sn_primaryKey = ec_isPrimary c \<rparr>"
  let ?e = "\<lparr> st_name = em_tableName m, st_columns = map ?sc (em_columns m) \<rparr>"
  have e: "?e \<in> set (buildEntitySnapshot ms)" using assms(1) by (auto simp: buildEntitySnapshot_def)
  show ?thesis
  proof (cases "lookup_by st_name (st_name ?e) ?cur")
    case None
    then have "st_name ?e \<notin> st_name ` set ?cur" by (simp add: lookup_by_None)
    then have "list_ex (\<lambda>t. t \<notin> st_name ` set ?cur) (map st_name (buildEntitySnapshot ms))"
      unfolding list_ex_iff set_map using e by blast
    then show ?thesis by (simp add: compareSnapshots_def)
  next
    case (Some cur)
    have "cur \<in> set ?cur" using lookup_by_SomeD[OF Some] by blast
    then have np: "\<not> sn_primaryKey x" if "x \<in> set (st_columns cur)" for x
      using that by (auto simp: buildDatabaseSnapshot_def)
    have look: "map_of (column_map t) n = lookup_by sn_name n (rev (st_columns t))" for t n
      by (simp add: column_map_def js_object_lookup option.map_ident)
    have "lookup_by sn_name (ec_databaseName c) (rev (st_columns ?e)) = Some (?sc c)"
    proof -
      obtain y where y: "lookup_by sn_name (ec_databaseName c) (rev (st_columns ?e)) = Some y"
        using assms(2) by (cases "lookup_by sn_name (ec_databaseName c) (rev (st_columns ?e))")
          (auto simp: lookup_by_None image_iff)
      then obtain c' where "c' \<in> set (em_columns m)" "y = ?sc c'" "ec_databaseName c' = ec_databaseName c"
        using lookup_by_SomeD[OF y] by auto
      moreover from this have "c' = c" using assms(4) by blast
      ultimately show ?thesis using y by simp
    qed
    then have "(ec_databaseName c, ?sc c) \<in> set (column_map ?e)" by (intro map_of_SomeD) (simp only: look)
    moreover have "snapshot_column_differs cur (ec_databaseName c, ?sc c)"
      using np assms(3) lookup_by_SomeD[of sn_name "ec_databaseName c" "rev (st_columns cur)"]
      by (auto simp: snapshot_column_differs_def look split: option.split)
    ultimately have "list_ex (snapshot_column_differs cur) (column_map ?e)" by (auto simp: list_ex_iff)
    then show ?thesis using Some e by (force simp: compareSnapshots_def list_ex_iff)
  qed
qed

lemma migrations_table_is_drift:
  assumes "t \<in> set db" "bt_name t = ''_migrations''" "''_migrations'' \<notin> em_tableName ` set ms"
  shows "compareSnapshots (buildDatabaseSnapshot db) (buildEntitySnapshot ms)"
  using assms by (force simp: compareSnapshots_def list_ex_iff buildDatabaseSnapshot_def buildEntitySnapshot_def)

section \<open>The plan of resolution\<close>

lemma resolution_plan_facts:
  "rp_actions (generateResolutionPlan r) = [] \<longleftrightarrow> \<not> has_drift r"
  "rp_riskLevel (generateResolutionPlan r) = DRIFT_LOW \<longleftrightarrow> \<not> has_drift r"
  "a \<in> set (rp_actions (generateResolutionPlan r)) \<Longrightarrow> da_requiresApproval a"
  by (auto simp: generateResolutionPlan_def has_drift_def only_if_def Let_def)

end
