(* ===== verification/Schema_Classification.thy ===== *)
theory Schema_Classification
  imports Sql_Classify Js_Text
begin

text \<open>
  The classification the running service uses
  (\<^verbatim>\<open>schema/services/schema-classification.service.ts\<close>): the category and reason of
  a statement for the orchestrator, and the coarser classification of changes
  with risk and target. The lemmas compare it with the classifier of the engine
  (\<^verbatim>\<open>Sql_Classify\<close>), which has rules the service has not.
\<close>

section \<open>Classes of changes\<close>

datatype change_type = BREAKING_CHANGE | DATA_CHANGE | FIX_CHANGE | SAFE_CHANGE

datatype risk_level = RISK_CRITICAL | RISK_HIGH | RISK_MEDIUM | RISK_LOW

record StatementClassification =
  sc_type :: change_type
  sc_riskLevel :: risk_level
  sc_description :: string
  sc_requiresReview :: bool

definition upper_trim :: "string \<Rightarrow> string" where
  "upper_trim s = trim (toUpperCase s)"

definition keyword_then_space :: "string \<Rightarrow> rx list" where
  "keyword_then_space w = [Lit w] @ spaces"

definition column_type_rx :: "rx list" where
  "column_type_rx = kw2 ''ALTER'' ''COLUMN'' @ [Many any_char, Lit ''TYPE'']"

definition isBreakingChange :: "string \<Rightarrow> bool" where
  "isBreakingChange s = list_ex (\<lambda>p. rx_test p s)
     [kw2 ''DROP'' ''TABLE'', kw2 ''DROP'' ''COLUMN'', column_type_rx, kw2 ''DROP'' ''INDEX'',
      kw2 ''DROP'' ''CONSTRAINT'', [Lit ''TRUNCATE'']]"

definition isDataOperation :: "string \<Rightarrow> bool" where
  "isDataOperation s = list_ex (\<lambda>p. rx_test p s)
     [kw2 ''INSERT'' ''INTO'', keyword_then_space ''UPDATE'', kw2 ''DELETE'' ''FROM'', keyword_then_space ''COPY'']"

definition isFixOperation :: "string \<Rightarrow> bool" where
  "isFixOperation s = list_ex (\<lambda>p. rx_test p s)
     [kw2 ''COMMENT'' ''ON'', keyword_then_space ''GRANT'', keyword_then_space ''REVOKE'']"

definition getBreakingRiskLevel :: "string \<Rightarrow> risk_level" where
  "getBreakingRiskLevel s =
     (if rx_test (kw2 ''DROP'' ''TABLE'') s then RISK_CRITICAL
      else if rx_test (kw2 ''DROP'' ''COLUMN'') s then RISK_HIGH
      else if rx_test column_type_rx s then RISK_HIGH
      else if rx_test (kw2 ''DROP'' ''INDEX'') s then RISK_MEDIUM
      else RISK_MEDIUM)"

definition getBreakingDescription :: "string \<Rightarrow> string" where
  "getBreakingDescription s =
     (if rx_test (kw2 ''DROP'' ''TABLE'') s then ''Table deletion - will result in complete data loss''
      else if rx_test (kw2 ''DROP'' ''COLUMN'') s then ''Column deletion - will result in data loss''
      else if rx_test column_type_rx s then ''Column type change - may cause data conversion issues''
      else if rx_test (kw2 ''DROP'' ''INDEX'') s then ''Index deletion - will impact query performance''
      else ''Breaking schema change'')"

definition getDataRiskLevel :: "string \<Rightarrow> risk_level" where
  "getDataRiskLevel s =
     (if rx_test (kw2 ''DELETE'' ''FROM'') s then RISK_HIGH
      else if rx_test (keyword_then_space ''UPDATE'') s then RISK_MEDIUM
      else if rx_test (kw2 ''INSERT'' ''INTO'') s then RISK_LOW
      else RISK_MEDIUM)"

definition getDataDescription :: "string \<Rightarrow> string" where
  "getDataDescription s =
     (if rx_test (kw2 ''DELETE'' ''FROM'') s then ''Data deletion operation''
      else if rx_test (keyword_then_space ''UPDATE'') s then ''Data update operation''
      else if rx_test (kw2 ''INSERT'' ''INTO'') s then ''Data insertion operation''
      else if rx_test (keyword_then_space ''COPY'') s then ''Bulk data copy operation''
      else ''Data manipulation operation'')"

definition classifyStatement :: "string \<Rightarrow> StatementClassification" where
  "classifyStatement statement = (let s = upper_trim statement in
     if isBreakingChange s then \<lparr> sc_type = BREAKING_CHANGE, sc_riskLevel = getBreakingRiskLevel s,
       sc_description = getBreakingDescription s, sc_requiresReview = True \<rparr>
     else if isDataOperation s then \<lparr> sc_type = DATA_CHANGE, sc_riskLevel = getDataRiskLevel s,
       sc_description = getDataDescription s, sc_requiresReview = True \<rparr>
     else if isFixOperation s then \<lparr> sc_type = FIX_CHANGE, sc_riskLevel = RISK_LOW,
       sc_description = ''Schema fix operation'', sc_requiresReview = False \<rparr>
     else \<lparr> sc_type = SAFE_CHANGE, sc_riskLevel = RISK_LOW,
       sc_description = ''Safe schema operation'', sc_requiresReview = False \<rparr>)"

section \<open>Operation and target\<close>

definition extractOperation :: "string \<Rightarrow> string" where
  "extractOperation statement = (let s = upper_trim statement in
     if starts_with ''CREATE TABLE'' s then ''CREATE_TABLE''
     else if starts_with ''DROP TABLE'' s then ''DROP_TABLE''
     else if starts_with ''ALTER TABLE'' s then
       (if includes_str ''ADD COLUMN'' s then ''ADD_COLUMN''
        else if includes_str ''DROP COLUMN'' s then ''DROP_COLUMN''
        else if includes_str ''ALTER COLUMN'' s then ''ALTER_COLUMN_TYPE''
        else if includes_str ''ADD CONSTRAINT'' s then ''ADD_CONSTRAINT''
        else if includes_str ''DROP CONSTRAINT'' s then ''DROP_CONSTRAINT''
        else ''ALTER_TABLE'')
     else if starts_with ''CREATE INDEX'' s then ''ADD_INDEX''
     else if starts_with ''DROP INDEX'' s then ''DROP_INDEX''
     else if starts_with ''INSERT INTO'' s then ''INSERT_DATA''
     else if starts_with ''UPDATE'' s then ''UPDATE_DATA''
     else if starts_with ''DELETE FROM'' s then ''DELETE_DATA''
     else if starts_with ''TRUNCATE'' s then ''TRUNCATE_TABLE''
     else ''UNKNOWN'')"

record change_target =
  ct_table :: "string option"
  ct_column :: "string option"
  ct_index :: "string option"
  ct_foreignKey :: "string option"
  ct_columns :: "string list option"

definition is_backtick :: "char \<Rightarrow> bool" where
  "is_backtick c = (c = CHR 0x60)"

text \<open>A name between optional back-ticks, after white space.\<close>

definition ticked_name :: "rx list" where
  "ticked_name = spaces @ [Alt [[One is_backtick], []]] @ grp 1 words @ [Alt [[One is_backtick], []]]"

definition first_group :: "rx list \<Rightarrow> string \<Rightarrow> string option" where
  "first_group p s = map_option (\<lambda>cs. captured cs 1) (rx_match p s)"

definition extractTarget :: "string \<Rightarrow> change_target" where
  "extractTarget statement = (let s = upper_trim statement in
     \<lparr> ct_table = first_group ([Alt [[Lit ''TABLE''], [Lit ''INDEX''], [Lit ''CONSTRAINT'']]] @ ticked_name) s,
       ct_column = first_group ([Alt [[Lit ''COLUMN''], [Lit ''ADD''], [Lit ''DROP'']]] @ ticked_name) s,
       ct_index = first_group ([Lit ''INDEX''] @ ticked_name) s,
       ct_foreignKey = first_group ([Lit ''CONSTRAINT''] @ ticked_name) s,
       ct_columns = map_option (\<lambda>w. filter (\<lambda>c. c \<noteq> []) (map (\<lambda>c. filter (\<lambda>x. \<not> is_backtick x) (trim c)) (split_on (CHR '','') w)))
         (first_group ([Lit ''(''] @ grp 1 [One (\<lambda>c. c \<noteq> CHR '')''), Many (\<lambda>c. c \<noteq> CHR '')'')] @ [Lit '')'']) s) \<rparr>)"

record classified_change =
  cc_id :: nat
  cc_type :: change_type
  cc_operation :: string
  cc_target :: change_target
  cc_description :: string
  cc_riskLevel :: risk_level
  cc_requiresReview :: bool

definition classify_change :: "nat \<Rightarrow> string \<Rightarrow> classified_change" where
  "classify_change i change = (let c = classifyStatement change in
     \<lparr> cc_id = i, cc_type = sc_type c, cc_operation = extractOperation change, cc_target = extractTarget change,
       cc_description = sc_description c, cc_riskLevel = sc_riskLevel c, cc_requiresReview = sc_requiresReview c \<rparr>)"

definition classifyChanges :: "string list \<Rightarrow> classified_change list" where
  "classifyChanges changes = map (\<lambda>(i, c). classify_change i c) (enumerate 0 changes)"

section \<open>The categories of the orchestrator\<close>

definition SERVICE_RULES :: "sql_rule list" where
  "SERVICE_RULES = [
     rule (bkw2 ''DROP'' ''TABLE'') BREAKING ''Table deletion'',
     rule (bkw2 ''DROP'' ''COLUMN'') BREAKING ''Column deletion'',
     rule (bkw2 ''ALTER'' ''COLUMN'' @ [Many any_char, Lit ''TYPE'', WordBoundary]) BREAKING
       ''Changing column type can corrupt data''] @ DATA_RULES @ SAFE_RULES"

definition service_operation :: "string \<Rightarrow> SchemaOperation" where
  "service_operation s = (case apply_rules SERVICE_RULES (upper_trim s) of (c, r) \<Rightarrow>
     \<lparr> sql = s, category = c, op_reason = r, op_metadata = None, op_dependencies = [], op_conflicts = [] \<rparr>)"

definition service_classifyOperations :: "string list \<Rightarrow> SchemaOperation list" where
  "service_classifyOperations = map service_operation"

definition getDominantCategory :: "SchemaOperation list \<Rightarrow> SqlCategory" where
  "getDominantCategory cs = (let has = (\<lambda>c. c \<in> category ` set cs) in
     if has BREAKING then BREAKING else if has DATA then DATA else if has SAFE then SAFE else FIX_CATEGORY)"

definition service_needsPhaseDecomposition :: "SchemaOperation list \<Rightarrow> bool" where
  "service_needsPhaseDecomposition cs = (let categories = category ` set cs in
     BREAKING \<in> categories \<and> (SAFE \<in> categories \<or> DATA \<in> categories))"

section \<open>The two classifiers\<close>

definition EXTRA_RULES :: "sql_rule list" where
  "EXTRA_RULES = [
    rule (bkw2 ''DROP'' ''TYPE'') BREAKING ''DROP TYPE is destructive'',
    rule (bkw2 ''ALTER'' ''TYPE'') BREAKING ''ALTER TYPE can cause table rewrites'',
    rule (kw2 ''SET'' ''NOT'' @ spaces @ [Lit ''NULL'']) BREAKING
      ''SET NOT NULL enforces constraint (needs data prep first)'',
    rule (bkw2 ''RENAME'' ''COLUMN'') BREAKING ''RENAME COLUMN breaks existing queries'',
    rule (bkw2 ''RENAME'' ''TABLE'') BREAKING ''RENAME TABLE breaks existing queries'']"

definition extra_rule_matches :: "string \<Rightarrow> bool" where
  "extra_rule_matches s = list_ex (\<lambda>r. rx_test (rule_pattern r) s) EXTRA_RULES"

lemma engine_breaking_patterns:
  "(\<exists>r \<in> set BREAKING_RULES. rx_test (rule_pattern r) s) \<longleftrightarrow>
    (\<exists>r \<in> set (take 3 SERVICE_RULES). rx_test (rule_pattern r) s) \<or> extra_rule_matches s"
  by (auto simp: BREAKING_RULES_def SERVICE_RULES_def EXTRA_RULES_def extra_rule_matches_def rule_def)

lemma apply_rules_breaking: "\<exists>r \<in> set rs. rx_test (rule_pattern r) s \<Longrightarrow> \<forall>r \<in> set rs. rule_category r = BREAKING
    \<Longrightarrow> fst (apply_rules (rs @ rs') s) = BREAKING"
  by (simp add: apply_rules_append apply_rules_category)

lemma service_category: "category (service_operation s) = fst (apply_rules SERVICE_RULES (upper_trim s))"
  by (simp add: service_operation_def case_prod_unfold)

lemma service_rules_split: "SERVICE_RULES = take 3 SERVICE_RULES @ DATA_RULES @ SAFE_RULES"
  "\<forall>r \<in> set (take 3 SERVICE_RULES). rule_category r = BREAKING"
  by (simp_all add: SERVICE_RULES_def rule_def)

lemma classifiers_compared:
  "fst (classifySqlStatement t) = (if extra_rule_matches t then BREAKING else fst (apply_rules SERVICE_RULES t))"
proof -
  let ?three = "\<exists>r \<in> set (take 3 SERVICE_RULES). rx_test (rule_pattern r) t"
  have e: "fst (classifySqlStatement t) = BREAKING" if "?three \<or> extra_rule_matches t"
    using that engine_breaking_patterns[of t] breaking_rule_wins[of _ t] by blast
  have s: "fst (apply_rules SERVICE_RULES t) = BREAKING" if ?three
    using apply_rules_breaking[OF that service_rules_split(2), of "DATA_RULES @ SAFE_RULES"] service_rules_split(1) by simp
  have "fst (classifySqlStatement t) = fst (apply_rules (DATA_RULES @ SAFE_RULES) t)"
      "fst (apply_rules SERVICE_RULES t) = fst (apply_rules (DATA_RULES @ SAFE_RULES) t)"
    if n: "\<not> ?three" "\<not> extra_rule_matches t"
  proof -
    show "fst (classifySqlStatement t) = fst (apply_rules (DATA_RULES @ SAFE_RULES) t)"
      using n engine_breaking_patterns[of t] unfolding classifySqlStatement_def SQL_RULES_def apply_rules_append[of BREAKING_RULES]
      by simp
    show "fst (apply_rules SERVICE_RULES t) = fst (apply_rules (DATA_RULES @ SAFE_RULES) t)"
      using n(1) by (subst service_rules_split(1), subst apply_rules_append) simp
  qed
  then show ?thesis using e s by (cases ?three; cases "extra_rule_matches t") simp_all
qed

text \<open>The classifier of the running service agrees with the engine's on the statement in
  capitals, except that it has no rule for dropping or altering a type, for
  \<^verbatim>\<open>SET NOT NULL\<close> and for renaming a column or a table: on those the engine says
  BREAKING, and the service whatever its other rules say.\<close>

theorem service_classifier_agrees:
  "category (classifyOperation (upper_trim s))
    = (if extra_rule_matches (upper_trim s) then BREAKING else category (service_operation s))"
  unfolding service_category using classifiers_compared[of "upper_trim s"]
  by (simp add: classifyOperation_def case_prod_unfold)

lemma rename_is_safe_for_service:
  "category (service_operation ''ALTER TABLE t RENAME COLUMN a TO b'') = SAFE"
  "category (classifyOperation ''ALTER TABLE t RENAME COLUMN a TO b'') = BREAKING"
  "cc_operation (classify_change 0 ''ALTER TABLE t RENAME COLUMN a TO b'') = ''ALTER_TABLE''"
  by code_simp+

section \<open>The comments of the coarse comparison\<close>

lemma trim_after_word:
  assumes "p \<noteq> []" "\<not> is_space (hd p)" "\<not> is_space (last p)"
  shows "\<exists>v. trim (p @ CHR '' '' # y) = p @ v \<and> (v = [] \<or> hd v = CHR '' '')"
proof -
  obtain a p' where a: "p = a # p'" using assms(1) by (cases p) auto
  obtain q z where z: "p = q @ [z]" using assms(1) by (cases p rule: rev_cases) auto
  have lead: "dropWhile is_space (p @ w) = p @ w" for w using assms(2) a by simp
  have trail: "dropWhile is_space (rev p @ w) = rev p @ w" for w using assms(3) z by simp
  have sp: "is_space (CHR '' '')" by (simp add: is_space_def)
  have t: "trim (p @ CHR '' '' # y) = rev (dropWhile is_space (rev y @ CHR '' '' # rev p))"
    by (simp add: trim_def lead)
  show ?thesis
  proof (cases "dropWhile is_space (rev y)")
    case Nil
    then have "dropWhile is_space (rev y @ CHR '' '' # rev p) = rev p"
      using sp trail[of "[]"] by (simp add: dropWhile_append dropWhile_eq_Nil_conv)
    then show ?thesis using t by (intro exI[of _ "[]"]) simp
  next
    case (Cons c d)
    then have "dropWhile is_space (rev y @ CHR '' '' # rev p) = dropWhile is_space (rev y) @ CHR '' '' # rev p"
    proof -
      have "dropWhile is_space (rev y) \<noteq> []" using Cons by simp
      then have "\<not> (\<forall>x \<in> set (rev y). is_space x)" unfolding dropWhile_eq_Nil_conv .
      then obtain x where "x \<in> set (rev y)" "\<not> is_space x" by blast
      then show ?thesis by (rule dropWhile_append1)
    qed
    then have "trim (p @ CHR '' '' # y) = p @ CHR '' '' # rev (dropWhile is_space (rev y))" using t by simp
    then show ?thesis by (intro exI[of _ "CHR '' '' # rev (dropWhile is_space (rev y))"]) simp
  qed
qed

lemma dropped_table_is_breaking: "category (service_operation (''-- DROP TABLE '' @ x)) = BREAKING"
proof -
  have u: "toUpperCase (''-- DROP TABLE '' @ x) = ''-- DROP TABLE'' @ CHR '' '' # map upper x"
    by (simp add: toUpperCase_def upper_def)
  obtain v where v: "trim (''-- DROP TABLE'' @ CHR '' '' # map upper x) = ''-- DROP TABLE'' @ v"
      "v = [] \<or> hd v = CHR '' ''"
    using trim_after_word[of "''-- DROP TABLE''" "map upper x"] by (auto simp: is_space_def)
  have "rx_test (bkw2 ''DROP'' ''TABLE'') (''-- '' @ ''DROP'' @ '' '' @ ''TABLE'' @ v)"
    using v(2) by (intro bkw2_found) (auto simp: word_edge_before_def word_edge_after_def is_word_def is_space_def)
  then have "rx_test (bkw2 ''DROP'' ''TABLE'') (upper_trim (''-- DROP TABLE '' @ x))"
    unfolding upper_trim_def u v(1) by simp
  then show ?thesis
    by (simp add: service_operation_def SERVICE_RULES_def rule_def)
qed

end
