(* ===== verification/Schema_Orchestrator.thy ===== *)
theory Schema_Orchestrator
  imports Schema_Lock Drift_Engine Schema_Classification Exec_Planner
begin

text \<open>
  The convergence of the schema at start (\<^verbatim>\<open>schema/services/schema-orchestrator.service.ts\<close>):
  under the lock, the report of drift, the coarse comparison of the tables, the
  classification of its statements, risks, compatibility and validation, and the
  execution through the planner of \<^verbatim>\<open>Exec_Planner\<close>. The data source, its statements
  and its errors are arguments; spans and logs are left out.
\<close>

section \<open>Risks, compatibility and validation\<close>

definition service_risk :: "SchemaOperation \<Rightarrow> RiskReport" where
  "service_risk op = (case category op of
       BREAKING \<Rightarrow> \<lparr> risk_operation = sql op, risk_severity = CRITICAL, risk_category = DATA_LOSS,
         risk_description = op_reason op, mitigation = None, requiresApproval = True \<rparr>
     | DATA \<Rightarrow> \<lparr> risk_operation = sql op, risk_severity = MEDIUM, risk_category = PERFORMANCE,
         risk_description = op_reason op, mitigation = None, requiresApproval = False \<rparr>
     | SAFE \<Rightarrow> \<lparr> risk_operation = sql op, risk_severity = LOW, risk_category = PERFORMANCE,
         risk_description = op_reason op, mitigation = None, requiresApproval = False \<rparr>
     | FIX_CATEGORY \<Rightarrow> \<lparr> risk_operation = sql op, risk_severity = MEDIUM, risk_category = COMPATIBILITY,
         risk_description = op_reason op, mitigation = None, requiresApproval = False \<rparr>)"

definition service_analyzeRisks :: "SchemaOperation list \<Rightarrow> RiskReport list" where
  "service_analyzeRisks = map service_risk"

record service_compatibility =
  ox_breakingChanges :: "string list"
  ox_backwardCompatible :: bool
  ox_apiCompatibility :: bool
  ox_migrationCompatibility :: bool
  ox_recommendations :: "string list"

definition service_checkCompatibility :: "SchemaOperation list \<Rightarrow> service_compatibility" where
  "service_checkCompatibility classified = (let breaking = map sql (filter (\<lambda>op. category op = BREAKING) classified) in
     \<lparr> ox_breakingChanges = breaking, ox_backwardCompatible = (breaking = []), ox_apiCompatibility = (breaking = []),
       ox_migrationCompatibility = True,
       ox_recommendations = map (\<lambda>s. ''Review application code for references to affected schema elements in: '' @ s) breaking \<rparr>)"

record service_validation =
  sv_isValid :: bool
  sv_errors :: "string list"
  sv_warnings :: "string list"

definition service_validateMigrationPlan ::
  "SchemaOperation list \<Rightarrow> RiskReport list \<Rightarrow> service_compatibility \<Rightarrow> service_validation" where
  "service_validateMigrationPlan classified risks compatibility = (let
       critical = filter (\<lambda>r. risk_severity r = CRITICAL) risks;
       errors = (if critical \<noteq> [] then [''Critical risks detected: '' @ js_join '', '' (map risk_operation critical)] else [])
         @ (if ox_breakingChanges compatibility \<noteq> [] then [''Breaking compatibility changes detected: ''
             @ js_join '', '' (ox_breakingChanges compatibility)] else []);
       warnings = (if service_needsPhaseDecomposition classified
         then [''Mixed operation types detected - consider splitting into separate migrations''] else [])
     in \<lparr> sv_isValid = (errors = []), sv_errors = errors, sv_warnings = warnings \<rparr>)"

section \<open>Execution\<close>

definition category_phase :: "phase_name \<Rightarrow> SqlCategory \<Rightarrow> SchemaOperation list \<Rightarrow> PhasePlan" where
  "category_phase p c classified = (let ops = filter (\<lambda>op. category op = c) classified in
     \<lparr> phase = p, phase_operations = ops, phase_order = map sql ops \<rparr>)"

definition runtime_plan :: "(SchemaOperation list \<Rightarrow> string) \<Rightarrow> SchemaOperation list \<Rightarrow> RiskReport list
    \<Rightarrow> service_compatibility \<Rightarrow> MigrationExecutionPlan" where
  "runtime_plan hash classified risks compatibility = \<lparr>
     plan_operations = classified,
     plan_phases = [category_phase EXPAND SAFE classified, category_phase DATA_PHASE DATA classified,
       category_phase CONTRACT BREAKING classified],
     executionOrder = map sql classified, plan_dependencies = [], plan_risks = risks,
     breakingChanges = ox_breakingChanges compatibility, plan_hash = hash classified \<rparr>"

text \<open>What surrounds a convergence: the connections of the lock, what the data source
  answers, the entities, the row counts, the name of the migration, and whether
  the jobs can be saved.\<close>

record 'db convergence_env =
  ce_acquire :: connection
  ce_release :: connection
  ce_source :: drift_source
  ce_tables :: "string + string list"
  ce_entities :: "string list"
  ce_query :: "string \<Rightarrow> ('db, string, unit) action"
  ce_rows :: "string \<Rightarrow> nat"
  ce_migrationId :: string
  ce_hash :: "SchemaOperation list \<Rightarrow> string"
  ce_save :: "string + unit"

record 'db convergence_state =
  co_lock :: advisory_lock
  co_db :: 'db
  co_jobs :: "PlannedJob list"

definition executeMigration :: "'db convergence_env \<Rightarrow> SchemaOperation list \<Rightarrow> RiskReport list
    \<Rightarrow> service_compatibility \<Rightarrow> ('db convergence_state, string, unit) action" where
  "executeMigration E classified risks compatibility s = (let plan = runtime_plan (ce_hash E) classified risks compatibility in
     case executeFastPhases (ce_query E) plan (co_db s) of
       (db, Inl e) \<Rightarrow> (s\<lparr> co_db := db \<rparr>, Inl e)
     | (db, Inr (executedPhases, skippedPhases)) \<Rightarrow> (let s1 = s\<lparr> co_db := db \<rparr> in
         if skippedPhases \<noteq> [] then (case ce_save E of
             Inl e \<Rightarrow> (s1, Inl e)
           | Inr _ \<Rightarrow> (s1\<lparr> co_jobs := co_jobs s @ createBackfillJobs (ce_rows E) plan (ce_migrationId E) \<rparr>, Inr ()))
         else (s1, Inr ())))"

text \<open>The report is logged; nothing is repaired.\<close>

definition checkAndRepairDrift :: "drift_source \<Rightarrow> string + unit" where
  "checkAndRepairDrift S = (case checkFullDrift S of Inl e \<Rightarrow> Inl e | Inr _ \<Rightarrow> Inr ())"

definition converge_body :: "'db convergence_env \<Rightarrow> ('db convergence_state, string, unit) action" where
  "converge_body E s = (case checkAndRepairDrift (ce_source E) of
     Inl e \<Rightarrow> (s, Inl e)
   | Inr _ \<Rightarrow> (case ce_tables E of
       Inl e \<Rightarrow> (s, Inl e)
     | Inr tables \<Rightarrow> (let diff = detectSchemaDiff tables (ce_entities E) in
         if sdf_up diff = [] then (s, Inr ())
         else (let classified = service_classifyOperations (sdf_up diff);
                 risks = service_analyzeRisks classified;
                 compatibility = service_checkCompatibility classified;
                 validation = service_validateMigrationPlan classified risks compatibility
               in if \<not> sv_isValid validation
                  then (s, Inl (''Migration validation failed: '' @ js_join '', '' (sv_errors validation)))
                  else executeMigration E classified risks compatibility s))))"

definition converge :: "'db convergence_env \<Rightarrow> ('db convergence_state, string, unit) action" where
  "converge E s = (case acquireLock (ce_acquire E) (co_lock s) of
     (l, Inl e) \<Rightarrow> (s\<lparr> co_lock := l \<rparr>, Inl e)
   | (l, Inr False) \<Rightarrow> (s\<lparr> co_lock := l \<rparr>, Inr ())
   | (l, Inr True) \<Rightarrow> (case converge_body E (s\<lparr> co_lock := l \<rparr>) of (s1, r) \<Rightarrow>
       (case releaseLock (ce_release E) (co_lock s1) of
         (l2, Inl e) \<Rightarrow> (s1\<lparr> co_lock := l2 \<rparr>, Inl e)
       | (l2, Inr _) \<Rightarrow> (s1\<lparr> co_lock := l2 \<rparr>, r))))"

section \<open>What runs\<close>

lemma breaking_is_invalid:
  "sv_isValid (service_validateMigrationPlan ops (service_analyzeRisks ops) (service_checkCompatibility ops))
    \<longleftrightarrow> (\<forall>op \<in> set ops. category op \<noteq> BREAKING)"
proof -
  have crit: "risk_severity (service_risk op) = CRITICAL \<longleftrightarrow> category op = BREAKING" for op
    by (simp add: service_risk_def split: SqlCategory.split)
  show ?thesis
    by (auto simp: service_validateMigrationPlan_def service_checkCompatibility_def service_analyzeRisks_def Let_def
        filter_empty_conv crit)
qed

lemma run_statements_idle:
  "\<forall>x \<in> set ss. \<forall>db. query x db = (db, Inr ()) \<Longrightarrow> run_statements query ss db = (db, Inr ())"
  by (induction ss arbitrary: db) auto

lemma runtime_plan_statements:
  "x \<in> set (boot_statements (plan_phases (runtime_plan h ops risks c))) \<Longrightarrow> x \<in> sql ` set ops"
  by (auto simp: runtime_plan_def boot_statements_def category_phase_def Let_def split: if_splits)

lemma service_operations_sql: "map sql (service_classifyOperations up) = up"
  by (induction up) (simp_all add: service_classifyOperations_def service_operation_def case_prod_unfold)

lemma executeMigration_idle:
  assumes "\<forall>x \<in> sql ` set ops. \<forall>db. ce_query E x db = (db, Inr ())"
  shows "co_db (fst (executeMigration E ops risks c s)) = co_db s
    \<and> co_lock (fst (executeMigration E ops risks c s)) = co_lock s"
proof -
  have run: "run_statements (ce_query E) (boot_statements (plan_phases (runtime_plan (ce_hash E) ops risks c))) (co_db s)
      = (co_db s, Inr ())"
    using assms runtime_plan_statements by (intro run_statements_idle) blast
  obtain ex sk where "executeFastPhases (ce_query E) (runtime_plan (ce_hash E) ops risks c) (co_db s) = (co_db s, Inr (ex, sk))"
    unfolding executeFastPhases_def fast_phases_run run by simp
  then show ?thesis by (simp add: executeMigration_def Let_def split: sum.split)
qed

text \<open>The statements of the coarse comparison are comments.\<close>

definition is_comment :: "string \<Rightarrow> bool" where
  "is_comment s = (starts_with ''-- '' s \<and> \<not> list_ex is_newline s)"

lemma diff_statements_are_comments:
  assumes "\<forall>m \<in> set entities. \<not> list_ex is_newline m" "\<forall>t \<in> set tables. \<not> list_ex is_newline t"
  shows "\<forall>x \<in> set (sdf_up (detectSchemaDiff tables entities)). is_comment x"
  using assms by (auto simp: detectSchemaDiff_def Let_def is_comment_def starts_with_def is_newline_def)

lemma converge_body_idle:
  assumes "\<forall>x. is_comment x \<longrightarrow> (\<forall>db. ce_query E x db = (db, Inr ()))"
    and "\<forall>m \<in> set (ce_entities E). \<not> list_ex is_newline m"
    and "\<forall>ts. ce_tables E = Inr ts \<longrightarrow> (\<forall>t \<in> set ts. \<not> list_ex is_newline t)"
  shows "co_db (fst (converge_body E s)) = co_db s \<and> co_lock (fst (converge_body E s)) = co_lock s"
proof (cases "checkAndRepairDrift (ce_source E)")
  case ready: (Inr u)
  show ?thesis
  proof (cases "ce_tables E")
    case (Inr ts)
    let ?ops = "service_classifyOperations (sdf_up (detectSchemaDiff ts (ce_entities E)))"
    have "\<forall>x \<in> sql ` set ?ops. is_comment x"
      using diff_statements_are_comments[OF assms(2), of ts] assms(3) Inr
        service_operations_sql[of "sdf_up (detectSchemaDiff ts (ce_entities E))"] by (metis set_map)
    then have "\<forall>x \<in> sql ` set ?ops. \<forall>db. ce_query E x db = (db, Inr ())" using assms(1) by blast
    from executeMigration_idle[OF this] show ?thesis
      using ready Inr by (simp add: converge_body_def Let_def)
  qed (simp add: converge_body_def ready)
qed (simp add: converge_body_def)

lemma dropped_table_fails:
  assumes "checkAndRepairDrift (ce_source E) = Inr ()" "ce_tables E = Inr ts"
    and "sdf_droppedTables (detectSchemaDiff ts (ce_entities E)) \<noteq> []"
  shows "\<exists>msg. converge_body E s = (s, Inl msg)"
proof -
  let ?d = "detectSchemaDiff ts (ce_entities E)"
  obtain t where t: "t \<in> set (sdf_droppedTables ?d)" using assms(3) by (cases "sdf_droppedTables ?d") auto
  then have up: "''-- DROP TABLE '' @ t \<in> set (sdf_up ?d)"
    by (auto simp: detectSchemaDiff_def Let_def)
  let ?ops = "service_classifyOperations (sdf_up ?d)"
  have "service_operation (''-- DROP TABLE '' @ t) \<in> set ?ops"
    using up by (auto simp: service_classifyOperations_def)
  then have "\<not> sv_isValid (service_validateMigrationPlan ?ops (service_analyzeRisks ?ops) (service_checkCompatibility ?ops))"
    unfolding breaking_is_invalid using dropped_table_is_breaking by blast
  moreover have "sdf_up ?d \<noteq> []" using up by auto
  ultimately show ?thesis using assms(1,2) by (simp add: converge_body_def Let_def)
qed


definition sample_convergence :: "string list \<Rightarrow> session \<Rightarrow> session \<Rightarrow> nat convergence_env" where
  "sample_convergence tables a b = \<lparr> ce_acquire = Inr a, ce_release = Inr b, ce_source = quiet_source,
     ce_tables = Inr tables, ce_entities = [''drivers'', ''offers''],
     ce_query = (\<lambda>x db. (if is_comment x then db else db + 1, Inr ())), ce_rows = (\<lambda>_. 0), ce_migrationId = ''m'',
     ce_hash = (\<lambda>_. []), ce_save = Inr () \<rparr>"

definition start_convergence :: "nat convergence_state" where
  "start_convergence = \<lparr> co_lock = None, co_db = 5, co_jobs = [] \<rparr>"


text \<open>A convergence whose release runs in another session leaves the lock taken, and the
  next one, in any other session, returns as if another pod were migrating.\<close>

lemma converge_leaks_lock:
  assumes "ce_acquire E = Inr a" "ce_release E = Inr b" "a \<noteq> b" "co_lock s = None"
    and "\<forall>x. is_comment x \<longrightarrow> (\<forall>db. ce_query E x db = (db, Inr ()))"
    and "\<forall>m \<in> set (ce_entities E). \<not> list_ex is_newline m"
    and "\<forall>ts. ce_tables E = Inr ts \<longrightarrow> (\<forall>t \<in> set ts. \<not> list_ex is_newline t)"
  shows "co_lock (fst (converge E s)) = Some (a, 1)"
    "ce_acquire E' = Inr c \<Longrightarrow> c \<noteq> a \<Longrightarrow> converge E' (fst (converge E s)) = (fst (converge E s), Inr ())"
proof -
  have a: "acquireLock (ce_acquire E) (co_lock s) = (Some (a, 1), Inr True)"
    using assms(1,4) by (simp add: acquireLock_def pg_try_advisory_lock_def)
  obtain s1 q where body: "converge_body E (s\<lparr> co_lock := Some (a, 1) \<rparr>) = (s1, q)"
    by (cases "converge_body E (s\<lparr> co_lock := Some (a, 1) \<rparr>)")
  have "co_lock s1 = Some (a, 1)"
    using converge_body_idle[OF assms(5-7), of "s\<lparr> co_lock := Some (a, 1) \<rparr>"] body by simp
  then have "releaseLock (ce_release E) (co_lock s1) = (Some (a, 1), Inr ())"
    using assms(2,3) by (simp add: releaseLock_def pg_advisory_unlock_def)
  then show l: "co_lock (fst (converge E s)) = Some (a, 1)"
    using a body by (simp add: converge_def)
  show "ce_acquire E' = Inr c \<Longrightarrow> c \<noteq> a \<Longrightarrow> converge E' (fst (converge E s)) = (fst (converge E s), Inr ())"
    using l by (simp add: converge_def acquireLock_def pg_try_advisory_lock_def)
qed

end
