(* ===== verification/Schema_Control_Plane.thy ===== *)
theory Schema_Control_Plane
  imports Schema_Orchestrator Migration_Readiness
begin

text \<open>
  The start of the application and its reports on the schema
  (\<^verbatim>\<open>schema/services/schema-control-plane.service.ts\<close>): the boot sequence with the
  strict mode, the check of drift, the checks of tables, the status of drift and
  of the schema. Queries with their errors are arguments.
\<close>

section \<open>Boot\<close>

definition criticalTables :: "string list" where
  "criticalTables = [''drivers'', ''deliveries'', ''assignments'', ''admin_users'', ''cities'', ''zones'', ''audit_logs'']"

definition checkDataSourceConnection :: "string + unit \<Rightarrow> string + unit" where
  "checkDataSourceConnection ping = (case ping of Inl e \<Rightarrow> Inl (''DataSource connection failed: '' @ e) | Inr _ \<Rightarrow> Inr ())"

text \<open>The version is read and not compared.\<close>

definition checkSchemaVersion :: "string + bool \<Rightarrow> string + string list \<Rightarrow> string + unit" where
  "checkSchemaVersion has_table latest = (case has_table of
     Inl e \<Rightarrow> Inl (''Schema version check failed: '' @ e)
   | Inr b \<Rightarrow> if \<not> b then Inr () else (case latest of
       Inl e \<Rightarrow> Inl (''Schema version check failed: '' @ e)
     | Inr names \<Rightarrow> Inr ()))"

fun missing_critical :: "(string \<Rightarrow> string + bool) \<Rightarrow> string list \<Rightarrow> string + unit" where
  "missing_critical exists [] = Inr ()"
| "missing_critical exists (t # ts) = (case exists t of
     Inl e \<Rightarrow> Inl e
   | Inr b \<Rightarrow> if b then missing_critical exists ts else Inl (''Critical table missing: '' @ t))"

definition validateCriticalSchema :: "(string \<Rightarrow> string + bool) \<Rightarrow> string + unit" where
  "validateCriticalSchema exists = (case missing_critical exists criticalTables of
     Inl e \<Rightarrow> Inl (''Critical schema validation failed: '' @ e) | Inr _ \<Rightarrow> Inr ())"

definition verifySchemaIntegrity :: "(string \<Rightarrow> string + bool) \<Rightarrow> bool" where
  "verifySchemaIntegrity exists = (missing_critical exists (criticalTables @ [''_migrations'']) = Inr ())"

text \<open>A placeholder: whatever the database answers, nothing is pending.\<close>

definition getPendingMigrations :: "string + bool \<Rightarrow> nat" where
  "getPendingMigrations has_table = 0"

record boot_answers =
  ba_ping :: "string + unit"
  ba_has_migrations :: "string + bool"
  ba_latest :: "string + string list"
  ba_exists :: "string \<Rightarrow> string + bool"

datatype boot_outcome = Boot_Completed | Boot_Exited | Boot_Continued

definition boot_steps :: "boot_answers \<Rightarrow> 'db convergence_env \<Rightarrow> ('db convergence_state, string, unit) action" where
  "boot_steps A E s = (case checkDataSourceConnection (ba_ping A) of
     Inl e \<Rightarrow> (s, Inl e)
   | Inr _ \<Rightarrow> (case checkSchemaVersion (ba_has_migrations A) (ba_latest A) of
       Inl e \<Rightarrow> (s, Inl e)
     | Inr _ \<Rightarrow> (case converge E s of
         (s1, Inl e) \<Rightarrow> (s1, Inl e)
       | (s1, Inr _) \<Rightarrow> (s1, validateCriticalSchema (ba_exists A)))))"

definition onApplicationBootstrap :: "bool \<Rightarrow> boot_answers \<Rightarrow> 'db convergence_env \<Rightarrow> 'db convergence_state
    \<Rightarrow> 'db convergence_state \<times> boot_outcome" where
  "onApplicationBootstrap strict A E s = (case boot_steps A E s of
     (s1, Inr _) \<Rightarrow> (s1, Boot_Completed)
   | (s1, Inl _) \<Rightarrow> (s1, if strict then Boot_Exited else Boot_Continued))"

definition forceConvergence :: "'db convergence_env \<Rightarrow> ('db convergence_state, string, unit) action" where
  "forceConvergence = converge"

section \<open>Drift\<close>

text \<open>Whether the drift should block the start; its only caller logs the answer.\<close>

definition checkForDrift :: "drift_source \<Rightarrow> string + bool" where
  "checkForDrift S = (case checkFullDrift S of
     Inl e \<Rightarrow> Inl e
   | Inr r \<Rightarrow> Inr ((entityDrift r \<or> schemaDrift r) \<and> (case detailedDiff r of
         None \<Rightarrow> False
       | Some d \<Rightarrow> 0 < length (filter (\<lambda>x. df_severity x = HIGH_DIFFERENCE) (dd_differences d)))))"

datatype drift_summary_status = DS_HEALTHY | DS_DRIFT_DETECTED | DS_BACKFILLING | DS_READY_FOR_MIGRATION

record drift_status =
  dr_summary :: diff_summary
  dr_backfillJobs :: nat
  dr_readyForMigration :: nat
  dr_status :: drift_summary_status

definition getDriftStatus :: "string + DetailedSchemaDiff \<Rightarrow> string + nat \<Rightarrow> string + readiness_summary
    \<Rightarrow> string + nat \<Rightarrow> string + drift_status" where
  "getDriftStatus diff jobs summary active = (case diff of Inl e \<Rightarrow> Inl e | Inr d \<Rightarrow>
     (case jobs of Inl e \<Rightarrow> Inl e | Inr n \<Rightarrow>
     (case summary of Inl e \<Rightarrow> Inl e | Inr m \<Rightarrow>
       (let answer = (\<lambda>st. Inr \<lparr> dr_summary = dd_summary d, dr_backfillJobs = n,
              dr_readyForMigration = sm_readyForMigration m, dr_status = st \<rparr>);
            base = (if 0 < totalDifferences (dd_summary d) then DS_DRIFT_DETECTED else DS_HEALTHY)
        in if 0 < n then (case active of
             Inl e \<Rightarrow> Inl e
           | Inr k \<Rightarrow> answer (if 0 < k then DS_BACKFILLING
               else if 0 < sm_readyForMigration m then DS_READY_FOR_MIGRATION else base))
           else answer base))))"

section \<open>The status of the schema\<close>

datatype schema_health = SCHEMA_HEALTHY | SCHEMA_DEGRADED | SCHEMA_FAILED

record schema_status =
  ss_connected :: bool
  ss_driftDetected :: bool
  ss_readyForMigration :: nat
  ss_backfilling :: nat
  ss_pending :: nat
  ss_migrated :: nat
  ss_status :: schema_health
  ss_error :: "string option"

record cached_drift_status =
  cd_driftDetected :: bool
  cd_status :: cache_status
  cd_error :: "string option"

definition getCachedDriftStatus :: "cache_answer \<Rightarrow> cached_drift_status" where
  "getCachedDriftStatus a = \<lparr> cd_driftDetected = (ca_status a = CACHE_DEGRADED), cd_status = ca_status a,
     cd_error = ca_error a \<rparr>"

definition no_readiness :: readiness_summary where
  "no_readiness = \<lparr> sm_total = 0, sm_readyForMigration = 0, sm_backfilling = 0, sm_pending = 0, sm_migrated = 0 \<rparr>"

definition status_with :: "bool \<Rightarrow> bool \<Rightarrow> readiness_summary \<Rightarrow> schema_health \<Rightarrow> string option \<Rightarrow> schema_status" where
  "status_with conn drift m st e = \<lparr> ss_connected = conn, ss_driftDetected = drift,
     ss_readyForMigration = sm_readyForMigration m, ss_backfilling = sm_backfilling m, ss_pending = sm_pending m,
     ss_migrated = sm_migrated m, ss_status = st, ss_error = e \<rparr>"

definition getSchemaStatus :: "string + unit \<Rightarrow> cache_answer \<Rightarrow> string + readiness_summary \<Rightarrow> schema_status" where
  "getSchemaStatus ping cached readiness = (case ping of
     Inl e \<Rightarrow> status_with False False no_readiness SCHEMA_FAILED (Some (''Schema status check failed: '' @ e))
   | Inr _ \<Rightarrow> (let
         c = getCachedDriftStatus cached;
         m = (case readiness of Inl _ \<Rightarrow> no_readiness | Inr m \<Rightarrow> m);
         readinessError = (case readiness of Inl e \<Rightarrow> Some (''Migration readiness check failed: '' @ e) | Inr _ \<Rightarrow> None)
       in if cd_status c = CACHE_FAILED \<or> readinessError \<noteq> None
          then status_with True (cd_driftDetected c) m SCHEMA_FAILED (if truthy (cd_error c) then cd_error c else readinessError)
          else if cd_driftDetected c \<or> cd_status c = CACHE_DEGRADED
          then status_with True (cd_driftDetected c) m SCHEMA_DEGRADED (Some ''Schema drift detected'')
          else status_with True (cd_driftDetected c) m SCHEMA_HEALTHY None))"

section \<open>What a boot guarantees\<close>

lemma missing_critical_none:
  "missing_critical exists ts = Inr () \<longleftrightarrow> (\<forall>t \<in> set ts. exists t = Inr True)"
  by (induction ts) (auto split: sum.split)

lemma validated_tables_exist:
  "validateCriticalSchema exists = Inr () \<longleftrightarrow> (\<forall>t \<in> set criticalTables. exists t = Inr True)"
  unfolding missing_critical_none[symmetric] validateCriticalSchema_def by (auto split: sum.split)

lemma integrity_is_stronger:
  "verifySchemaIntegrity exists \<Longrightarrow> validateCriticalSchema exists = Inr ()"
  by (simp add: verifySchemaIntegrity_def missing_critical_none validated_tables_exist)

lemma boot_steps_ok:
  assumes "boot_steps A E s = (s1, Inr ())"
  shows "(\<forall>t \<in> set criticalTables. ba_exists A t = Inr True) \<and> ba_ping A = Inr () \<and> converge E s = (s1, Inr ())"
proof -
  have p: "checkDataSourceConnection (ba_ping A) = Inr ()"
    using assms by (cases "checkDataSourceConnection (ba_ping A)") (simp_all add: boot_steps_def)
  have v: "checkSchemaVersion (ba_has_migrations A) (ba_latest A) = Inr ()"
    using assms p by (cases "checkSchemaVersion (ba_has_migrations A) (ba_latest A)") (simp_all add: boot_steps_def)
  obtain s2 r where c: "converge E s = (s2, r)" by (cases "converge E s")
  then have "r = Inr ()" using assms p v by (cases r) (simp_all add: boot_steps_def)
  then have "s2 = s1" "validateCriticalSchema (ba_exists A) = Inr ()"
    using assms p v c by (simp_all add: boot_steps_def)
  moreover have "ba_ping A = Inr ()" using p by (cases "ba_ping A") (simp_all add: checkDataSourceConnection_def)
  ultimately show ?thesis using c \<open>r = Inr ()\<close> by (simp add: validated_tables_exist)
qed

lemma converge_fails_on_unknown_table:
  assumes "snd (acquireLock (ce_acquire E) (co_lock s)) = Inr True" "ce_tables E = Inr ts"
    and "sdf_droppedTables (detectSchemaDiff ts (ce_entities E)) \<noteq> []"
  shows "isl (snd (converge E s))"
proof -
  obtain l where l: "acquireLock (ce_acquire E) (co_lock s) = (l, Inr True)"
    using assms(1) by (cases "acquireLock (ce_acquire E) (co_lock s)") simp
  have "\<exists>s1 m. converge_body E (s\<lparr> co_lock := l \<rparr>) = (s1, Inl m)"
  proof (cases "checkAndRepairDrift (ce_source E)")
    case (Inl e)
    then show ?thesis by (simp add: converge_body_def)
  next
    case (Inr u)
    then have "checkAndRepairDrift (ce_source E) = Inr ()" by (cases u) simp
    from dropped_table_fails[OF this assms(2,3)] show ?thesis by blast
  qed
  then obtain s1 m where "converge_body E (s\<lparr> co_lock := l \<rparr>) = (s1, Inl m)" by blast
  then show ?thesis using l by (auto simp: converge_def split: prod.split sum.split)
qed

text \<open>A boot that completes has found the database and every critical table. In strict
  mode, the process that gets the lock does not start as long as the database has
  one table that no entity names; without strict mode it starts whatever fails.\<close>

theorem boot_outcomes:
  "(snd (onApplicationBootstrap strict A E s) = Boot_Completed \<longrightarrow>
      ba_ping A = Inr () \<and> (\<forall>t \<in> set criticalTables. ba_exists A t = Inr True))
    \<and> (\<forall>ts. snd (acquireLock (ce_acquire E) (co_lock s)) = Inr True \<and> ce_tables E = Inr ts
        \<and> sdf_droppedTables (detectSchemaDiff ts (ce_entities E)) \<noteq> []
        \<longrightarrow> snd (onApplicationBootstrap True A E s) = Boot_Exited)
    \<and> snd (onApplicationBootstrap False A E s) \<noteq> Boot_Exited"
proof (intro conjI allI impI)
  assume "snd (onApplicationBootstrap strict A E s) = Boot_Completed"
  then obtain s1 where "boot_steps A E s = (s1, Inr ())"
    by (cases "boot_steps A E s"; cases "snd (boot_steps A E s)") (auto simp: onApplicationBootstrap_def split: if_splits)
  from boot_steps_ok[OF this] show "ba_ping A = Inr ()" "\<forall>t \<in> set criticalTables. ba_exists A t = Inr True"
    by simp_all
next
  fix ts
  assume h: "snd (acquireLock (ce_acquire E) (co_lock s)) = Inr True \<and> ce_tables E = Inr ts
    \<and> sdf_droppedTables (detectSchemaDiff ts (ce_entities E)) \<noteq> []"
  have "isl (snd (boot_steps A E s))"
  proof (rule ccontr)
    assume "\<not> isl (snd (boot_steps A E s))"
    then obtain s1 where "boot_steps A E s = (s1, Inr ())"
      by (cases "boot_steps A E s"; cases "snd (boot_steps A E s)") auto
    then have "converge E s = (s1, Inr ())" using boot_steps_ok by blast
    then show False using converge_fails_on_unknown_table[of E s ts] h by simp
  qed
  then show "snd (onApplicationBootstrap True A E s) = Boot_Exited"
    by (auto simp: onApplicationBootstrap_def isl_def split: prod.splits)
next
  show "snd (onApplicationBootstrap False A E s) \<noteq> Boot_Exited"
    by (auto simp: onApplicationBootstrap_def split: prod.split sum.split)
qed

definition sample_boot :: boot_answers where
  "sample_boot = \<lparr> ba_ping = Inr (), ba_has_migrations = Inr True, ba_latest = Inr [''m''], ba_exists = (\<lambda>_. Inr True) \<rparr>"

lemma boot_outcomes_witness:
  "snd (onApplicationBootstrap True sample_boot (sample_convergence [''drivers'', ''old''] 1 1) start_convergence) = Boot_Exited"
proof -
  have "sdf_droppedTables (detectSchemaDiff [''drivers'', ''old''] [''drivers'', ''offers'']) \<noteq> []" by code_simp
  then have "snd (acquireLock (ce_acquire (sample_convergence [''drivers'', ''old''] 1 1)) (co_lock start_convergence)) = Inr True
      \<and> ce_tables (sample_convergence [''drivers'', ''old''] 1 1) = Inr [''drivers'', ''old'']
      \<and> sdf_droppedTables (detectSchemaDiff [''drivers'', ''old''] (ce_entities (sample_convergence [''drivers'', ''old''] 1 1))) \<noteq> []"
    by (simp add: sample_convergence_def start_convergence_def acquireLock_def pg_try_advisory_lock_def)
  then show ?thesis using boot_outcomes by blast
qed

section \<open>What the reports leave out\<close>

text \<open>Without a recent report the status of drift is unknown and the schema healthy; the
  FAILED the status asks for, the cache never says.\<close>

lemma unknown_drift_is_healthy:
  "ca_status a = CACHE_UNKNOWN \<Longrightarrow> ss_status (getSchemaStatus (Inr ()) a (Inr m)) = SCHEMA_HEALTHY"
  by (simp add: getSchemaStatus_def getCachedDriftStatus_def status_with_def Let_def)

lemma start_is_healthy: "ss_status (getSchemaStatus (Inr ()) (cache_get now empty_cache) (Inr m)) = SCHEMA_HEALTHY"
  by (rule unknown_drift_is_healthy) (simp add: cache_get_def empty_cache_def)

lemma schema_fails_only_by_ping_or_readiness:
  "ss_status (getSchemaStatus ping (cache_get now c) readiness) = SCHEMA_FAILED \<longleftrightarrow> isl ping \<or> isl readiness"
  using cache_get_never_failed[of now c]
  by (cases ping; cases readiness) (auto simp: getSchemaStatus_def getCachedDriftStatus_def status_with_def Let_def)

text \<open>An active job hides the drift, and a ready row hides it as soon as there has ever
  been a job.\<close>

lemma jobs_hide_drift:
  assumes "0 < n" "0 < sm_readyForMigration m"
  shows "\<exists>r. getDriftStatus (Inr d) (Inr n) (Inr m) (Inr k) = Inr r \<and> dr_status r \<noteq> DS_DRIFT_DETECTED"
  using assms by (simp add: getDriftStatus_def Let_def)

text \<open>A pending migration alone is no drift to the check.\<close>

lemma pending_migration_is_no_drift:
  assumes "ensureReady S = Inr ()" "\<not> diff_found S"
  shows "checkForDrift S = Inr False"
  using checkFullDrift_flags[OF assms(1)] assms(2) by (auto simp: checkForDrift_def)

end
