(* ===== verification/Schema_Compatibility.thy ===== *)
theory Schema_Compatibility
  imports Schema_Classification
begin

text \<open>
  The analysis of the compatibility of proposed changes
  (\<^verbatim>\<open>schema/services/schema-compatibility.service.ts\<close>) on the classification of
  \<^verbatim>\<open>Schema_Classification\<close>: risk of a change, dependencies and conflicts between
  changes, the graph, breaking changes, score, risk assessment, strategies and
  recommendations. The hash of the snapshot is an argument.
\<close>

section \<open>Risk of a change\<close>

definition calculateChangeRisk :: "classified_change \<Rightarrow> risk_level" where
  "calculateChangeRisk c =
     (if cc_type c = BREAKING_CHANGE then
        (if cc_operation c = ''DROP_TABLE'' then RISK_CRITICAL
         else if cc_operation c = ''DROP_COLUMN'' then RISK_HIGH
         else if cc_operation c = ''ALTER_COLUMN_TYPE'' then RISK_HIGH
         else if cc_operation c = ''DROP_INDEX'' then RISK_MEDIUM
         else RISK_MEDIUM)
      else if cc_type c = SAFE_CHANGE then RISK_LOW
      else RISK_MEDIUM)"

definition assessImpact :: "classified_change \<Rightarrow> string" where
  "assessImpact c =
     (if cc_operation c = ''DROP_TABLE'' then ''CRITICAL: Will result in complete data loss for the table''
      else if cc_operation c = ''DROP_COLUMN'' then
        ''HIGH: Will result in data loss for the column and may break application code''
      else if cc_operation c = ''ALTER_COLUMN_TYPE'' then
        ''MEDIUM: May cause data conversion issues and application compatibility problems''
      else if cc_operation c = ''DROP_INDEX'' then ''LOW: Will impact query performance but no data loss''
      else ''UNKNOWN: Impact assessment not available'')"

definition assessRollbackComplexity :: "classified_change \<Rightarrow> string" where
  "assessRollbackComplexity c =
     (if cc_operation c = ''DROP_TABLE'' then ''CRITICAL: Rollback requires data restoration from backup''
      else if cc_operation c = ''DROP_COLUMN'' then
        ''HIGH: Rollback requires data restoration and schema modification''
      else if cc_operation c = ''ALTER_COLUMN_TYPE'' then
        ''MEDIUM: Rollback requires data conversion back to original type''
      else if cc_operation c = ''DROP_INDEX'' then ''LOW: Rollback is straightforward index recreation''
      else ''UNKNOWN: Rollback complexity not assessed'')"

definition labelled :: "string \<Rightarrow> string option \<Rightarrow> string list" where
  "labelled l x = (if truthy x then [l @ show_text x] else [])"

definition getAffectedEntities :: "classified_change \<Rightarrow> string list" where
  "getAffectedEntities c = labelled ''Table: '' (ct_table (cc_target c)) @ labelled ''Column: '' (ct_column (cc_target c))
     @ labelled ''Index: '' (ct_index (cc_target c)) @ labelled ''Foreign Key: '' (ct_foreignKey (cc_target c))"

section \<open>Dependencies and conflicts\<close>

definition undefined_columns :: string where
  "undefined_columns = ''TypeError: columns of undefined''"

text \<open>\<^verbatim>\<open>None\<close> is no dependency; reading columns a statement has none of raises.\<close>

definition analyzeDependency :: "classified_change \<Rightarrow> classified_change \<Rightarrow> string + (string \<times> string) option" where
  "analyzeDependency c1 c2 = (let t1 = cc_target c1; t2 = cc_target c2 in
     if cc_operation c1 = ''CREATE_TABLE'' \<and> (cc_operation c2 = ''ADD_COLUMN'' \<or> cc_operation c2 = ''ADD_INDEX'')
        \<and> ct_table t2 = ct_table t1
     then Inr (Some (''table_dependency'', ''Change 2 depends on table created in Change 1: '' @ show_text (ct_table t1)))
     else if cc_operation c1 = ''ADD_COLUMN'' \<and> cc_operation c2 = ''ADD_INDEX'' \<and> ct_table t1 = ct_table t2 then
       (case ct_columns t2 of
          None \<Rightarrow> Inl undefined_columns
        | Some cs \<Rightarrow> Inr (if (case ct_column t1 of None \<Rightarrow> False | Some c \<Rightarrow> c \<in> set cs)
            then Some (''column_dependency'', ''Change 2 depends on column created in Change 1: '' @ show_text (ct_column t1))
            else None))
     else if cc_operation c1 = ''ADD_INDEX'' \<and> cc_operation c2 = ''ADD_FOREIGN_KEY'' \<and> ct_table t1 = ct_table t2 then
       (case (ct_columns t2, ct_columns t1) of
          (Some cs, Some ds) \<Rightarrow> Inr (if ds \<noteq> [] \<and> hd ds \<in> set cs
            then Some (''index_dependency'', ''Change 2 depends on index created in Change 1: undefined'') else None)
        | _ \<Rightarrow> Inl undefined_columns)
     else Inr None)"

record change_conflict =
  cf_type :: string
  cf_severity :: risk_level
  cf_description :: string

definition analyzeConflict :: "classified_change \<Rightarrow> classified_change \<Rightarrow> change_conflict option" where
  "analyzeConflict c1 c2 = (let t1 = cc_target c1; t2 = cc_target c2;
       versus = cc_operation c1 @ '' vs '' @ cc_operation c2 in
     if ct_table t1 = ct_table t2 then
       (if (cc_operation c1 = ''DROP_TABLE'' \<or> cc_operation c1 = ''DROP_COLUMN'')
           \<and> (cc_operation c2 = ''ADD_TABLE'' \<or> cc_operation c2 = ''ADD_COLUMN'')
        then Some \<lparr> cf_type = ''drop_add_conflict'', cf_severity = RISK_CRITICAL,
          cf_description = ''Conflicting operations on table '' @ show_text (ct_table t1) @ '': '' @ versus \<rparr>
        else if truthy (ct_column t1) \<and> truthy (ct_column t2) \<and> ct_column t1 = ct_column t2
        then Some \<lparr> cf_type = ''column_conflict'', cf_severity = RISK_HIGH,
          cf_description = ''Multiple operations on column '' @ show_text (ct_column t1) @ '': '' @ versus \<rparr>
        else None)
     else None)"

section \<open>The graph\<close>

record graph_node =
  gn_id :: nat
  gn_change :: classified_change
  gn_dependencies :: "nat list"
  gn_conflicts :: "nat list"
  gn_riskLevel :: risk_level

record graph_edge =
  ge_from :: nat
  ge_to :: nat
  ge_type :: string
  ge_reason :: string

record graph_conflict =
  gc_change1 :: nat
  gc_change2 :: nat
  gc_conflict :: change_conflict

record compatibility_graph =
  cg_nodes :: "graph_node list"
  cg_edges :: "graph_edge list"
  cg_conflicts :: "graph_conflict list"

definition initial_nodes :: "classified_change list \<Rightarrow> graph_node list" where
  "initial_nodes cs = map (\<lambda>(i, c). \<lparr> gn_id = i, gn_change = c, gn_dependencies = [], gn_conflicts = [],
     gn_riskLevel = calculateChangeRisk c \<rparr>) (enumerate 0 cs)"

definition add_dependency :: "nat \<Rightarrow> nat \<Rightarrow> (string \<times> string) option \<Rightarrow> compatibility_graph \<Rightarrow> compatibility_graph" where
  "add_dependency i j d g = (case d of None \<Rightarrow> g | Some (ty, reason) \<Rightarrow>
     g\<lparr> cg_edges := cg_edges g @ [\<lparr> ge_from = i, ge_to = j, ge_type = ty, ge_reason = reason \<rparr>],
        cg_nodes := (cg_nodes g)[j := (cg_nodes g ! j)\<lparr> gn_dependencies := gn_dependencies (cg_nodes g ! j) @ [i] \<rparr>] \<rparr>)"

definition note_conflict :: "nat \<Rightarrow> nat \<Rightarrow> graph_node list \<Rightarrow> graph_node list" where
  "note_conflict i j ns = ns[i := (ns ! i)\<lparr> gn_conflicts := gn_conflicts (ns ! i) @ [j] \<rparr>]"

definition add_conflict :: "nat \<Rightarrow> nat \<Rightarrow> change_conflict option \<Rightarrow> compatibility_graph \<Rightarrow> compatibility_graph" where
  "add_conflict i j c g = (case c of None \<Rightarrow> g | Some x \<Rightarrow>
     g\<lparr> cg_conflicts := cg_conflicts g @ [\<lparr> gc_change1 = i, gc_change2 = j, gc_conflict = x \<rparr>],
        cg_nodes := note_conflict j i (note_conflict i j (cg_nodes g)) \<rparr>)"

text \<open>The pairs of the two loops, in their order.\<close>

definition index_pairs :: "nat \<Rightarrow> (nat \<times> nat) list" where
  "index_pairs n = concat (map (\<lambda>i. map (\<lambda>j. (i, j)) [Suc i..<n]) [0..<n])"

fun add_pairs :: "classified_change list \<Rightarrow> (nat \<times> nat) list \<Rightarrow> compatibility_graph \<Rightarrow> string + compatibility_graph" where
  "add_pairs cs [] g = Inr g"
| "add_pairs cs ((i, j) # ps) g = (case analyzeDependency (cs ! i) (cs ! j) of
     Inl e \<Rightarrow> Inl e
   | Inr d \<Rightarrow> add_pairs cs ps (add_conflict i j (analyzeConflict (cs ! i) (cs ! j)) (add_dependency i j d g)))"

definition buildCompatibilityGraph :: "classified_change list \<Rightarrow> string + compatibility_graph" where
  "buildCompatibilityGraph cs = add_pairs cs (index_pairs (length cs))
     \<lparr> cg_nodes = initial_nodes cs, cg_edges = [], cg_conflicts = [] \<rparr>"

definition findConflicts :: "classified_change list \<Rightarrow> change_conflict list" where
  "findConflicts cs = concat (map (\<lambda>(i, j). case analyzeConflict (cs ! i) (cs ! j) of None \<Rightarrow> [] | Some x \<Rightarrow> [x])
     (index_pairs (length cs)))"

section \<open>Breaking changes and score\<close>

record breaking_change =
  bc_change :: classified_change
  bc_impact :: string
  bc_affectedEntities :: "string list"
  bc_rollbackComplexity :: string

record breaking_changes =
  br_critical :: "breaking_change list"
  br_high :: "breaking_change list"
  br_medium :: "breaking_change list"
  br_low :: "breaking_change list"
  br_total :: nat

definition breaking_of :: "risk_level \<Rightarrow> classified_change list \<Rightarrow> breaking_change list" where
  "breaking_of r cs = map (\<lambda>c. \<lparr> bc_change = c, bc_impact = assessImpact c, bc_affectedEntities = getAffectedEntities c,
     bc_rollbackComplexity = assessRollbackComplexity c \<rparr>)
     (filter (\<lambda>c. calculateChangeRisk c = r) (filter (\<lambda>c. cc_type c = BREAKING_CHANGE) cs))"

definition analyzeBreakingChanges :: "classified_change list \<Rightarrow> breaking_changes" where
  "analyzeBreakingChanges cs = \<lparr> br_critical = breaking_of RISK_CRITICAL cs, br_high = breaking_of RISK_HIGH cs,
     br_medium = breaking_of RISK_MEDIUM cs, br_low = breaking_of RISK_LOW cs,
     br_total = length (filter (\<lambda>c. cc_type c = BREAKING_CHANGE) cs) \<rparr>"

definition high_risk_operation :: "classified_change \<Rightarrow> bool" where
  "high_risk_operation c = (cc_operation c \<in> {''DROP_TABLE'', ''DROP_COLUMN'', ''ALTER_COLUMN_TYPE''})"

definition calculateCompatibilityScore :: "classified_change list \<Rightarrow> breaking_changes \<Rightarrow> int" where
  "calculateCompatibilityScore cs b = (if length cs = 0 then 100 else
     (let score = 100 - int (br_total b) * 10 - int (length (br_critical b)) * 25 - int (length (br_high b)) * 15
        - int (length (filter high_risk_operation cs)) * 20
      in max 0 (min 100 score)))"

section \<open>Risk assessment\<close>

datatype overall_risk = OVERALL_CRITICAL | OVERALL_HIGH | OVERALL_MEDIUM | OVERALL_LOW

definition calculateOverallRisk :: "breaking_changes \<Rightarrow> overall_risk" where
  "calculateOverallRisk b = (if 0 < length (br_critical b) then OVERALL_CRITICAL
     else if 2 < length (br_high b) then OVERALL_HIGH
     else if 0 < length (br_high b) then OVERALL_MEDIUM else OVERALL_LOW)"

definition calculateMitigationPriority :: "breaking_changes \<Rightarrow> overall_risk" where
  "calculateMitigationPriority b = (if 0 < length (br_critical b) then OVERALL_CRITICAL
     else if 1 < length (br_high b) then OVERALL_HIGH
     else if 0 < length (br_high b) then OVERALL_MEDIUM else OVERALL_LOW)"

definition estimateDowntime :: "breaking_changes \<Rightarrow> string" where
  "estimateDowntime b = (if 0 < length (br_critical b) then ''CRITICAL: Extended downtime required (hours)''
     else if 2 < length (br_high b) then ''HIGH: Significant downtime required (30-60 minutes)''
     else if 0 < length (br_high b) then ''MEDIUM: Moderate downtime required (10-30 minutes)''
     else ''LOW: Minimal downtime required (< 10 minutes)'')"

definition calculateRollbackRisk :: "breaking_changes \<Rightarrow> string" where
  "calculateRollbackRisk b = (if 0 < length (br_critical b) then ''CRITICAL: Rollback may be impossible without data loss''
     else if 2 < length (br_high b) then ''HIGH: Rollback is complex and risky''
     else if 0 < length (br_high b) then ''MEDIUM: Rollback is possible but requires careful execution''
     else ''LOW: Rollback is straightforward'')"

definition text_if :: "bool \<Rightarrow> 'a \<Rightarrow> 'a list" where
  "text_if b x = (if b then [x] else [])"

definition identifyRiskFactors :: "classified_change list \<Rightarrow> breaking_changes \<Rightarrow> string list" where
  "identifyRiskFactors cs b = text_if (0 < length (br_critical b)) ''Critical breaking changes detected''
     @ text_if (0 < length (br_high b)) ''High-risk operations identified''
     @ text_if (list_ex (\<lambda>c. cc_operation c \<in> {''DROP_TABLE'', ''DROP_COLUMN''}) cs) ''Data loss operations detected''
     @ text_if (list_ex (\<lambda>c. cc_operation c \<in> {''DROP_INDEX'', ''ALTER_COLUMN_TYPE''}) cs)
         ''Performance-impacting changes identified''"

record risk_assessment =
  ra_overallRisk :: overall_risk
  ra_riskFactors :: "string list"
  ra_mitigationPriority :: overall_risk
  ra_estimatedDowntime :: string
  ra_rollbackRisk :: string

definition calculateRiskAssessment :: "classified_change list \<Rightarrow> breaking_changes \<Rightarrow> risk_assessment" where
  "calculateRiskAssessment cs b = \<lparr> ra_overallRisk = calculateOverallRisk b, ra_riskFactors = identifyRiskFactors cs b,
     ra_mitigationPriority = calculateMitigationPriority b, ra_estimatedDowntime = estimateDowntime b,
     ra_rollbackRisk = calculateRollbackRisk b \<rparr>"

record mitigation_strategy =
  ms_type :: string
  ms_description :: string
  ms_priority :: overall_risk
  ms_steps :: "string list"

definition generateMitigationStrategies :: "breaking_changes \<Rightarrow> mitigation_strategy list" where
  "generateMitigationStrategies b =
     text_if (0 < length (br_critical b)) \<lparr> ms_type = ''CRITICAL_BACKUP_REQUIRED'',
       ms_description = ''Full database backup required before migration'', ms_priority = OVERALL_CRITICAL,
       ms_steps = [''Create complete database backup'', ''Verify backup integrity'', ''Plan rollback procedure'',
         ''Coordinate with stakeholders for extended downtime''] \<rparr>
     @ text_if (0 < length (br_high b)) \<lparr> ms_type = ''HIGH_RISK_MITIGATION'',
       ms_description = ''High-risk operations require careful planning'', ms_priority = OVERALL_HIGH,
       ms_steps = [''Create table/column backups'', ''Test migration in staging environment'', ''Prepare rollback scripts'',
         ''Coordinate application deployment''] \<rparr>
     @ [\<lparr> ms_type = ''VALIDATION_REQUIRED'', ms_description = ''Post-migration validation required'',
       ms_priority = OVERALL_MEDIUM,
       ms_steps = [''Verify data integrity'', ''Test application functionality'', ''Monitor performance metrics'',
         ''Validate backup/restore procedures''] \<rparr>]"

record change_recommendation =
  cr_priority :: overall_risk
  cr_category :: string
  cr_message :: string
  cr_action :: string

definition change_recommendations :: "classified_change list \<Rightarrow> breaking_changes \<Rightarrow> change_recommendation list" where
  "change_recommendations cs b =
     text_if (0 < length (br_critical b)) \<lparr> cr_priority = OVERALL_CRITICAL, cr_category = ''BREAKING_CHANGES'',
       cr_message = ''Critical breaking changes detected. Consider alternative approaches or extensive testing.'',
       cr_action = ''Review breaking changes and consider non-breaking alternatives'' \<rparr>
     @ text_if (0 < length (br_high b)) \<lparr> cr_priority = OVERALL_HIGH, cr_category = ''TESTING_REQUIRED'',
       cr_message = ''High-risk operations require comprehensive testing.'',
       cr_action = ''Test migration in staging environment with production-like data'' \<rparr>
     @ text_if (findConflicts cs \<noteq> []) \<lparr> cr_priority = OVERALL_HIGH, cr_category = ''DEPENDENCY_RESOLUTION'',
       cr_message = ''Conflicting operations detected. Reorder changes to resolve conflicts.'',
       cr_action = ''Reorder migration operations to resolve dependencies and conflicts'' \<rparr>
     @ text_if (10 < length cs) \<lparr> cr_priority = OVERALL_MEDIUM, cr_category = ''BATCH_SIZE'',
       cr_message = ''Large number of changes detected. Consider splitting into smaller migrations.'',
       cr_action = ''Split large migrations into smaller, focused changes'' \<rparr>"

section \<open>The analysis\<close>

record SchemaCompatibilityGraph =
  sg_currentSchemaHash :: string
  sg_proposedChanges :: "classified_change list"
  sg_graph :: compatibility_graph
  sg_breakingChanges :: breaking_changes
  sg_riskAssessment :: risk_assessment
  sg_mitigationStrategies :: "mitigation_strategy list"
  sg_compatibilityScore :: int
  sg_recommendations :: "change_recommendation list"

definition analyzeCompatibility :: "string \<Rightarrow> string list \<Rightarrow> string + SchemaCompatibilityGraph" where
  "analyzeCompatibility hash proposed = (let cs = classifyChanges proposed in
     case buildCompatibilityGraph cs of
       Inl e \<Rightarrow> Inl (''Schema compatibility analysis failed: '' @ e)
     | Inr g \<Rightarrow> (let b = analyzeBreakingChanges cs in
         Inr \<lparr> sg_currentSchemaHash = hash, sg_proposedChanges = cs, sg_graph = g, sg_breakingChanges = b,
           sg_riskAssessment = calculateRiskAssessment cs b, sg_mitigationStrategies = generateMitigationStrategies b,
           sg_compatibilityScore = calculateCompatibilityScore cs b, sg_recommendations = change_recommendations cs b \<rparr>))"

section \<open>The graph is consistent\<close>

definition graph_ok :: "nat \<Rightarrow> compatibility_graph \<Rightarrow> bool" where
  "graph_ok n g = (length (cg_nodes g) = n
     \<and> (\<forall>e \<in> set (cg_edges g). ge_from e < ge_to e \<and> ge_to e < n)
     \<and> (\<forall>j < n. gn_dependencies (cg_nodes g ! j) = map ge_from (filter (\<lambda>e. ge_to e = j) (cg_edges g)))
     \<and> (\<forall>i < n. \<forall>j. j \<in> set (gn_conflicts (cg_nodes g ! i)) \<longleftrightarrow>
          (\<exists>c \<in> set (cg_conflicts g). (gc_change1 c = i \<and> gc_change2 c = j) \<or> (gc_change1 c = j \<and> gc_change2 c = i))))"

lemma index_pairs_bounds: "(i, j) \<in> set (index_pairs n) \<Longrightarrow> i < j \<and> j < n"
  by (auto simp: index_pairs_def)

lemma graph_ok_dependency:
  assumes "graph_ok n g" "i < j" "j < n"
  shows "graph_ok n (add_dependency i j d g)"
proof (cases d)
  case (Some p)
  obtain ty reason where "p = (ty, reason)" by (cases p)
  then show ?thesis
    using assms Some by (auto simp: add_dependency_def graph_ok_def nth_list_update)
qed (use assms in \<open>simp add: add_dependency_def\<close>)

lemma note_conflict_nth:
  "i < length ns \<Longrightarrow> k < length ns \<Longrightarrow> gn_conflicts (note_conflict i j ns ! k)
    = (if k = i then gn_conflicts (ns ! k) @ [j] else gn_conflicts (ns ! k))"
  "i < length ns \<Longrightarrow> k < length ns \<Longrightarrow> gn_dependencies (note_conflict i j ns ! k) = gn_dependencies (ns ! k)"
  "length (note_conflict i j ns) = length ns"
  by (auto simp: note_conflict_def nth_list_update)

lemma graph_ok_conflict:
  assumes "graph_ok n g" "i < j" "j < n"
  shows "graph_ok n (add_conflict i j c g)"
proof (cases c)
  case (Some x)
  let ?ns = "cg_nodes g" and ?new = "\<lparr> gc_change1 = i, gc_change2 = j, gc_conflict = x \<rparr>"
  let ?ns' = "note_conflict j i (note_conflict i j ?ns)"
  have n: "length ?ns = n" using assms(1) by (simp add: graph_ok_def)
  have g': "add_conflict i j c g = g\<lparr> cg_conflicts := cg_conflicts g @ [?new], cg_nodes := ?ns' \<rparr>"
    by (simp add: add_conflict_def Some)
  have i: "i < n" using assms(2,3) by simp
  have dep: "gn_dependencies (?ns' ! k) = gn_dependencies (?ns ! k)" if "k < n" for k
    using that i assms(3) n by (simp add: note_conflict_nth)
  have con: "y \<in> set (gn_conflicts (?ns' ! k)) \<longleftrightarrow> y \<in> set (gn_conflicts (?ns ! k)) \<or> (k = i \<and> y = j) \<or> (k = j \<and> y = i)"
    if "k < n" for k y
    using that i assms(2,3) n by (auto simp: note_conflict_nth)
  have old: "y \<in> set (gn_conflicts (?ns ! k)) \<longleftrightarrow>
      (\<exists>c \<in> set (cg_conflicts g). (gc_change1 c = k \<and> gc_change2 c = y) \<or> (gc_change1 c = y \<and> gc_change2 c = k))"
    if "k < n" for k y
    using assms(1) that by (simp add: graph_ok_def)
  have "y \<in> set (gn_conflicts (?ns' ! k)) \<longleftrightarrow>
      (\<exists>c \<in> set (cg_conflicts g @ [?new]). (gc_change1 c = k \<and> gc_change2 c = y) \<or> (gc_change1 c = y \<and> gc_change2 c = k))"
    if "k < n" for k y
    unfolding con[OF that] old[OF that] by auto
  then show ?thesis
    using assms(1) dep n unfolding g' graph_ok_def by (simp add: note_conflict_nth)
qed (use assms in \<open>simp add: add_conflict_def\<close>)

lemma graph_ok_pairs:
  "\<forall>(i, j) \<in> set ps. i < j \<and> j < n \<Longrightarrow> graph_ok n g \<Longrightarrow> add_pairs cs ps g = Inr g' \<Longrightarrow> graph_ok n g'"
proof (induction cs ps g arbitrary: g' rule: add_pairs.induct)
  case (2 cs i j ps g)
  then obtain d where d: "analyzeDependency (cs ! i) (cs ! j) = Inr d"
    by (cases "analyzeDependency (cs ! i) (cs ! j)") simp_all
  have "graph_ok n (add_conflict i j (analyzeConflict (cs ! i) (cs ! j)) (add_dependency i j d g))"
    using 2(2,3) by (intro graph_ok_conflict graph_ok_dependency) simp_all
  then show ?case using 2(1)[OF d] 2(2,4) d by simp
qed simp

lemma graph_ok_build:
  assumes "buildCompatibilityGraph cs = Inr g"
  shows "graph_ok (length cs) g"
proof -
  have "graph_ok (length cs) \<lparr> cg_nodes = initial_nodes cs, cg_edges = [], cg_conflicts = [] \<rparr>"
    by (simp add: graph_ok_def initial_nodes_def nth_enumerate_eq)
  moreover have "\<forall>(i, j) \<in> set (index_pairs (length cs)). i < j \<and> j < length cs"
    using index_pairs_bounds by blast
  ultimately show ?thesis
    using assms graph_ok_pairs[of "index_pairs (length cs)" "length cs" _ cs g] unfolding buildCompatibilityGraph_def by blast
qed

text \<open>The graph of an analysis has edges from earlier to later changes only, so that the
  order of the changes satisfies it; the dependencies of a node are the sources of
  its edges, and the conflicts of the nodes are symmetric and are those listed.\<close>

theorem compatibility_graph_consistent:
  assumes "analyzeCompatibility h proposed = Inr r"
  shows "graph_ok (length proposed) (sg_graph r)"
proof -
  obtain g where "buildCompatibilityGraph (classifyChanges proposed) = Inr g" "sg_graph r = g"
    using assms by (cases "buildCompatibilityGraph (classifyChanges proposed)")
      (auto simp: analyzeCompatibility_def Let_def)
  then show ?thesis using graph_ok_build by (force simp: classifyChanges_def)
qed

definition sample_changes :: "string list" where
  "sample_changes = [''DROP TABLE a'', ''TRUNCATE b'']"

lemma sample_analysis:
  "\<exists>r. analyzeCompatibility ''h'' sample_changes = Inr r"
proof -
  have "analyzeDependency (classify_change 0 ''DROP TABLE a'') (classify_change 1 ''TRUNCATE b'') = Inr None"
    by code_simp
  then show ?thesis
    by (simp add: analyzeCompatibility_def buildCompatibilityGraph_def index_pairs_def classifyChanges_def
        sample_changes_def Let_def upt_rec)
qed

lemma compatibility_graph_consistent_witness:
  "\<exists>r. analyzeCompatibility ''h'' sample_changes = Inr r \<and> graph_ok (length sample_changes) (sg_graph r)"
proof -
  obtain r where r: "analyzeCompatibility ''h'' sample_changes = Inr r" using sample_analysis by blast
  from compatibility_graph_consistent[OF r] show ?thesis using r by blast
qed

section \<open>The score\<close>



text \<open>Every breaking change is in one of the lists, and none in the list of low ones.\<close>

lemma breaking_lists:
  "br_total (analyzeBreakingChanges cs) = length (br_critical (analyzeBreakingChanges cs))
    + length (br_high (analyzeBreakingChanges cs)) + length (br_medium (analyzeBreakingChanges cs))"
  "br_low (analyzeBreakingChanges cs) = []"
proof -
  let ?f = "\<lambda>r xs. length (filter (\<lambda>c. calculateChangeRisk c = r) (filter (\<lambda>c. cc_type c = BREAKING_CHANGE) xs))"
  have low: "calculateChangeRisk c \<noteq> RISK_LOW" if "cc_type c = BREAKING_CHANGE" for c
    using that by (simp add: calculateChangeRisk_def)
  have "length (filter (\<lambda>c. cc_type c = BREAKING_CHANGE) xs) = ?f RISK_CRITICAL xs + ?f RISK_HIGH xs + ?f RISK_MEDIUM xs" for xs
  proof (induction xs)
    case (Cons x xs)
    then show ?case using low[of x] by (cases "calculateChangeRisk x") auto
  qed simp
  then show "br_total (analyzeBreakingChanges cs) = length (br_critical (analyzeBreakingChanges cs))
      + length (br_high (analyzeBreakingChanges cs)) + length (br_medium (analyzeBreakingChanges cs))"
    by (simp add: analyzeBreakingChanges_def breaking_of_def)
  show "br_low (analyzeBreakingChanges cs) = []"
    using low by (auto simp: analyzeBreakingChanges_def breaking_of_def filter_empty_conv)
qed

text \<open>The compatibility score is between 0 and 100; it is 100 exactly when no change is
  breaking and none drops a table or a column or alters a column; and one dropped
  table, recognised as such, takes at least 55 points.\<close>

theorem compatibility_score_bounds:
  fixes cs
  defines "s \<equiv> calculateCompatibilityScore cs (analyzeBreakingChanges cs)"
  shows "0 \<le> s \<and> s \<le> 100
    \<and> (s = 100 \<longleftrightarrow> (\<forall>c \<in> set cs. cc_type c \<noteq> BREAKING_CHANGE \<and> \<not> high_risk_operation c))
    \<and> ((\<exists>c \<in> set cs. cc_type c = BREAKING_CHANGE \<and> cc_operation c = ''DROP_TABLE'') \<longrightarrow> s \<le> 45)"
proof (cases cs)
  case Nil
  then show ?thesis by (simp add: s_def calculateCompatibilityScore_def)
next
  case (Cons a as)
  let ?b = "analyzeBreakingChanges cs"
  let ?h = "length (filter high_risk_operation cs)"
  have s: "s = max 0 (min 100 (100 - int (br_total ?b) * 10 - int (length (br_critical ?b)) * 25
      - int (length (br_high ?b)) * 15 - int ?h * 20))"
    using Cons by (simp add: s_def calculateCompatibilityScore_def)
  have le: "length (br_critical ?b) \<le> br_total ?b" "length (br_high ?b) \<le> br_total ?b"
    using breaking_lists(1)[of cs] by simp_all
  have "s = 100 \<longleftrightarrow> br_total ?b = 0 \<and> ?h = 0"
  proof
    assume "s = 100"
    then show "br_total ?b = 0 \<and> ?h = 0" using s by linarith
  next
    assume "br_total ?b = 0 \<and> ?h = 0"
    then show "s = 100" using s le by simp
  qed
  also have "\<dots> \<longleftrightarrow> (\<forall>c \<in> set cs. cc_type c \<noteq> BREAKING_CHANGE \<and> \<not> high_risk_operation c)"
    by (auto simp: analyzeBreakingChanges_def filter_empty_conv)
  finally have full: "s = 100 \<longleftrightarrow> (\<forall>c \<in> set cs. cc_type c \<noteq> BREAKING_CHANGE \<and> \<not> high_risk_operation c)" .
  have "s \<le> 45" if h: "\<exists>c \<in> set cs. cc_type c = BREAKING_CHANGE \<and> cc_operation c = ''DROP_TABLE''"
  proof -
    obtain c where c: "c \<in> set cs" "cc_type c = BREAKING_CHANGE" "cc_operation c = ''DROP_TABLE''" using h by blast
    have "calculateChangeRisk c = RISK_CRITICAL" "high_risk_operation c"
      using c by (simp_all add: calculateChangeRisk_def high_risk_operation_def)
    then have "br_critical ?b \<noteq> []" "filter high_risk_operation cs \<noteq> []"
      using c by (auto simp: analyzeBreakingChanges_def breaking_of_def filter_empty_conv)
    then have "0 < length (br_critical ?b)" "0 < ?h" by simp_all
    then show ?thesis using s le by linarith
  qed
  then show ?thesis using full s by simp
qed

lemma compatibility_score_bounds_witness:
  "calculateCompatibilityScore [classify_change 0 ''DROP TABLE a''] (analyzeBreakingChanges [classify_change 0 ''DROP TABLE a'']) \<le> 45"
proof -
  have "cc_type (classify_change 0 ''DROP TABLE a'') = BREAKING_CHANGE \<and> cc_operation (classify_change 0 ''DROP TABLE a'') = ''DROP_TABLE''"
    by code_simp
  then show ?thesis
    using compatibility_score_bounds[of "[classify_change 0 ''DROP TABLE a'']"] by simp
qed

section \<open>What the analysis misreads\<close>

text \<open>A truncation is breaking and of no consequence to the assessment.\<close>

lemma truncation_is_low_risk:
  "calculateChangeRisk (classify_change 0 ''TRUNCATE users'') = RISK_MEDIUM"
  "calculateOverallRisk (analyzeBreakingChanges [classify_change 0 ''TRUNCATE users'']) = OVERALL_LOW"
  "calculateRollbackRisk (analyzeBreakingChanges [classify_change 0 ''TRUNCATE users'']) = ''LOW: Rollback is straightforward''"
  by code_simp+

text \<open>The column of an \<^verbatim>\<open>ADD COLUMN\<close> is read as the word COLUMN, so any two additions to
  one table are a conflict, and the table of an index as the name of the index,
  so an index never depends on its table.\<close>

lemma column_is_misread:
  "ct_column (extractTarget ''ALTER TABLE t ADD COLUMN a int'') = Some ''COLUMN''"
  "map_option cf_type (analyzeConflict (classify_change 0 ''ALTER TABLE t ADD COLUMN a int'') (classify_change 1 ''ALTER TABLE t ADD COLUMN b int''))
    = Some ''column_conflict''"
  by code_simp+

lemma index_is_misread:
  "ct_table (extractTarget ''CREATE INDEX i ON t (a)'') = Some ''I''"
  "analyzeDependency (classify_change 0 ''CREATE TABLE t (a int)'') (classify_change 1 ''CREATE INDEX i ON t (a)'') = Inr None"
  by code_simp+

end
