(* ===== verification/Readiness.thy ===== *)
theory Readiness
  imports Js_Text
begin

text \<open>
  Start-up phases (\<^verbatim>\<open>bootstrap/system-readiness.service.ts\<close>), the report on
  configured features (\<^verbatim>\<open>bootstrap/feature-status.service.ts\<close>), the readings of the
  connection pool (\<^verbatim>\<open>observability/db-pool.logger.ts\<close>) and the indicators of the
  health endpoint (\<^verbatim>\<open>health/*.health.ts\<close>). Answers of the database are arguments,
  \<^verbatim>\<open>Inl\<close> being a query that raises; numbers are exact, and a count the driver sends
  as a string is its number.
\<close>

section \<open>Start-up phases\<close>

datatype StartupPhase =
  PHASE_INFRASTRUCTURE | PHASE_SCHEMA | PHASE_WORKERS | PHASE_API | PHASE_READY

record readiness_service =
  rd_currentPhase :: StartupPhase
  rd_phaseStartTime :: "int option"
  rd_completedPhases :: "StartupPhase list"
  rd_ready :: bool
  rd_modules :: "string list"

definition new_readiness :: readiness_service where
  "new_readiness = \<lparr> rd_currentPhase = PHASE_INFRASTRUCTURE, rd_phaseStartTime = None,
     rd_completedPhases = [], rd_ready = False, rd_modules = [] \<rparr>"

definition startPhase :: "int \<Rightarrow> StartupPhase \<Rightarrow> readiness_service \<Rightarrow> readiness_service" where
  "startPhase now p s = s\<lparr> rd_currentPhase := p, rd_phaseStartTime := Some now, rd_ready := False \<rparr>"

definition completePhase :: "StartupPhase \<Rightarrow> readiness_service \<Rightarrow> readiness_service" where
  "completePhase p s =
    (if rd_currentPhase s \<noteq> p then s
     else s\<lparr> rd_completedPhases := set_add p (rd_completedPhases s),
             rd_ready := (if p = PHASE_READY then True else rd_ready s) \<rparr>)"

definition registerModule :: "string \<Rightarrow> readiness_service \<Rightarrow> readiness_service" where
  "registerModule m s = s\<lparr> rd_modules := set_add m (rd_modules s) \<rparr>"

definition isReady :: "readiness_service \<Rightarrow> bool" where
  "isReady s = rd_ready s"

record readiness_view =
  rq_currentPhase :: StartupPhase
  rq_phaseStartTime :: "int option"
  rq_completedPhases :: "StartupPhase list"
  rq_isReady :: bool

definition getReadinessState :: "readiness_service \<Rightarrow> readiness_view" where
  "getReadinessState s = \<lparr> rq_currentPhase = rd_currentPhase s, rq_phaseStartTime = rd_phaseStartTime s,
     rq_completedPhases = rd_completedPhases s, rq_isReady = rd_ready s \<rparr>"

text \<open>The calls the start of the application makes, in their order.\<close>

datatype phase_call = Start StartupPhase | Complete StartupPhase

fun phase_step :: "int \<Rightarrow> phase_call \<Rightarrow> readiness_service \<Rightarrow> readiness_service" where
  "phase_step now (Start p) s = startPhase now p s"
| "phase_step now (Complete p) s = completePhase p s"

definition bootstrap_calls :: "phase_call list" where
  "bootstrap_calls =
    [Start PHASE_INFRASTRUCTURE, Complete PHASE_INFRASTRUCTURE, Start PHASE_SCHEMA,
     Start PHASE_WORKERS, Complete PHASE_WORKERS, Start PHASE_API, Complete PHASE_API,
     Start PHASE_READY, Complete PHASE_READY]"

text \<open>\<^verbatim>\<open>waitUntilReady\<close>: \<^verbatim>\<open>clock k\<close> is the time of the \<^verbatim>\<open>k\<close>-th test of the loop and
  \<^verbatim>\<open>ready t\<close> the flag at the time \<^verbatim>\<open>t\<close>. The value is the number of the test that ends the loop.\<close>

partial_function (option) wait_loop :: "(int \<Rightarrow> bool) \<Rightarrow> (nat \<Rightarrow> int) \<Rightarrow> int \<Rightarrow> nat \<Rightarrow> nat option" where
  "wait_loop ready clock start k =
    (if \<not> ready (clock k) \<and> clock k - start < 300000 then wait_loop ready clock start (Suc k) else Some k)"

definition waitUntilReady :: "(int \<Rightarrow> bool) \<Rightarrow> (nat \<Rightarrow> int) \<Rightarrow> int \<Rightarrow> (string + unit) option" where
  "waitUntilReady ready clock start = (case wait_loop ready clock start 0 of
      None \<Rightarrow> None
    | Some k \<Rightarrow> Some (if \<not> ready (clock k)
        then Inl ''System readiness timeout: System did not become ready within 5 minutes'' else Inr ()))"

section \<open>Features\<close>

datatype feature_status = FEATURE_ENABLED | FEATURE_DISABLED

definition feature :: "bool \<Rightarrow> feature_status" where
  "feature b = (if b then FEATURE_ENABLED else FEATURE_DISABLED)"

record feature_report =
  fr_push :: feature_status
  fr_redis :: feature_status
  fr_realtime :: feature_status
  fr_outbox :: feature_status

definition isPushEnabled :: "(string \<Rightarrow> string option) \<Rightarrow> bool" where
  "isPushEnabled config \<longleftrightarrow> truthy (config ''FIREBASE_CONFIG'') \<or> truthy (config ''FIREBASE_SERVICE_ACCOUNT'')"

definition isRedisEnabled :: "(string \<Rightarrow> string option) \<Rightarrow> bool" where
  "isRedisEnabled config \<longleftrightarrow> truthy (config ''REDIS_URL'') \<or> truthy (config ''REDIS_HOST'')"

definition isRealtimeEnabled :: "(string \<Rightarrow> string option) \<Rightarrow> bool" where
  "isRealtimeEnabled config \<longleftrightarrow>
    truthy (config ''WEBSOCKET_PORT'') \<and> config ''WEBSOCKET_PORT'' \<noteq> Some ''0''"

text \<open>The answer is the \<^verbatim>\<open>exists\<close> of the first row, if there is a row.\<close>

definition isOutboxEnabled :: "string + bool option \<Rightarrow> bool" where
  "isOutboxEnabled answer = (case answer of Inl _ \<Rightarrow> False | Inr b \<Rightarrow> b = Some True)"

definition generateFeatureReport :: "(string \<Rightarrow> string option) \<Rightarrow> string + bool option \<Rightarrow> feature_report" where
  "generateFeatureReport config answer = \<lparr> fr_push = feature (isPushEnabled config),
     fr_redis = feature (isRedisEnabled config), fr_realtime = feature (isRealtimeEnabled config),
     fr_outbox = feature (isOutboxEnabled answer) \<rparr>"

record feature_detail =
  fd_name :: string
  fd_status :: feature_status
  fd_reason :: "string option"
  fd_impact :: "string option"

definition feature_row :: "string \<Rightarrow> bool \<Rightarrow> string \<Rightarrow> string \<Rightarrow> feature_detail" where
  "feature_row name b reason impact = \<lparr> fd_name = name, fd_status = feature b,
     fd_reason = (if b then None else Some reason), fd_impact = (if b then None else Some impact) \<rparr>"

record feature_details =
  fs_features :: "feature_detail list"
  fs_enabled :: nat
  fs_disabled :: nat
  fs_total :: nat

definition getDetailedFeatureStatus :: "(string \<Rightarrow> string option) \<Rightarrow> string + bool option \<Rightarrow> feature_details" where
  "getDetailedFeatureStatus config answer = (let
      features =
       [feature_row ''Push Notifications'' (isPushEnabled config)
          ''Missing Firebase configuration'' ''Driver notifications unavailable'',
        feature_row ''Redis'' (isRedisEnabled config)
          ''Missing Redis configuration'' ''Caching and session storage unavailable'',
        feature_row ''Realtime (WebSocket)'' (isRealtimeEnabled config)
          ''WebSocket not configured'' ''Real-time updates unavailable'',
        feature_row ''Outbox'' (isOutboxEnabled answer)
          ''Outbox table not found'' ''Event-driven processing unavailable'']
    in \<lparr> fs_features = features,
         fs_enabled = count_rows (\<lambda>f. fd_status f = FEATURE_ENABLED) features,
         fs_disabled = count_rows (\<lambda>f. fd_status f = FEATURE_DISABLED) features,
         fs_total = length features \<rparr>)"

section \<open>The connection pool\<close>

text \<open>\<^verbatim>\<open>v || d\<close> on a number that may be missing.\<close>

definition or_number :: "'a::zero option \<Rightarrow> 'a \<Rightarrow> 'a" where
  "or_number v d = (case v of None \<Rightarrow> d | Some n \<Rightarrow> if n = 0 then d else n)"

record pool_row =
  pr_active_connections :: "nat option"
  pr_max_connections :: "nat option"

record pool_stats =
  ps_poolSize :: nat
  ps_activeConnections :: nat
  ps_idleConnections :: int
  ps_waitingClients :: nat

definition getPoolStats :: "string + pool_row \<Rightarrow> pool_stats" where
  "getPoolStats answer = (case answer of
      Inl _ \<Rightarrow> \<lparr> ps_poolSize = 10, ps_activeConnections = 0, ps_idleConnections = 10, ps_waitingClients = 0 \<rparr>
    | Inr r \<Rightarrow> (let a = or_number (pr_active_connections r) 0; m = or_number (pr_max_connections r) 100
        in \<lparr> ps_poolSize = m, ps_activeConnections = a, ps_idleConnections = int m - int a, ps_waitingClients = 0 \<rparr>))"

definition pool_share :: "pool_stats \<Rightarrow> rat" where
  "pool_share st = (if ps_poolSize st > 0 then of_nat (ps_activeConnections st) / of_nat (ps_poolSize st) else 0)"

record pool_status =
  po_healthy :: bool
  po_poolSize :: nat
  po_activeConnections :: nat
  po_utilization :: rat
  po_waitingClients :: nat

text \<open>The catch clause is left out: \<^const>\<open>getPoolStats\<close> handles every error itself.\<close>

definition getPoolStatus :: "string + pool_row \<Rightarrow> pool_status" where
  "getPoolStatus answer = (let st = getPoolStats answer; u = pool_share st
    in \<lparr> po_healthy = (u < 9/10 \<and> ps_waitingClients st = 0), po_poolSize = ps_poolSize st,
         po_activeConnections = ps_activeConnections st, po_utilization = u * 100,
         po_waitingClients = ps_waitingClients st \<rparr>)"

record perf_row =
  pf_active_queries :: "nat option"
  pf_longest_running_query :: "rat option"
  pf_lock_waits :: "nat option"
  pf_deadlocks :: "nat option"

record performance_metrics =
  pm_activeQueries :: nat
  pm_longestRunningQuery :: rat
  pm_lockWaits :: nat
  pm_deadlocks :: nat

definition getPerformanceMetrics :: "string + perf_row \<Rightarrow> performance_metrics" where
  "getPerformanceMetrics answer = (case answer of
      Inl _ \<Rightarrow> \<lparr> pm_activeQueries = 0, pm_longestRunningQuery = 0, pm_lockWaits = 0, pm_deadlocks = 0 \<rparr>
    | Inr r \<Rightarrow> \<lparr> pm_activeQueries = or_number (pf_active_queries r) 0,
        pm_longestRunningQuery = or_number (pf_longest_running_query r) 0,
        pm_lockWaits = or_number (pf_lock_waits r) 0, pm_deadlocks = or_number (pf_deadlocks r) 0 \<rparr>)"

datatype quality = GOOD | POOR

datatype overall_health = OVERALL_HEALTHY | OVERALL_WARNING | OVERALL_CRITICAL

record database_metrics =
  dm_pool :: pool_stats
  dm_poolHealthy :: bool
  dm_utilization :: rat
  dm_maxConnections :: nat
  dm_performance :: performance_metrics
  dm_connectionHealth :: bool
  dm_queryPerformance :: quality
  dm_lockHealth :: quality
  dm_overallHealth :: overall_health

definition getDatabaseMetrics :: "string + pool_row \<Rightarrow> string + perf_row \<Rightarrow> database_metrics" where
  "getDatabaseMetrics pool perf = (let
      st = getPoolStats pool; u = pool_share st; pm = getPerformanceMetrics perf;
      connectionHealth = (u < 8/10 \<and> ps_waitingClients st = 0);
      queryPerformance = (if pm_longestRunningQuery pm < 30000 then GOOD else POOR);
      lockHealth = (if pm_lockWaits pm < 10 then GOOD else POOR);
      h1 = (if \<not> connectionHealth \<or> queryPerformance = POOR \<or> lockHealth = POOR then OVERALL_WARNING else OVERALL_HEALTHY);
      h2 = (if u > 9/10 \<or> pm_longestRunningQuery pm > 60000 then OVERALL_CRITICAL else h1)
    in \<lparr> dm_pool = st, dm_poolHealthy = connectionHealth, dm_utilization = u * 100,
         dm_maxConnections = ps_poolSize st, dm_performance = pm, dm_connectionHealth = connectionHealth,
         dm_queryPerformance = queryPerformance, dm_lockHealth = lockHealth, dm_overallHealth = h2 \<rparr>)"

definition testConnection :: "string + unit \<Rightarrow> bool" where
  "testConnection ping = (\<not> isl ping)"

datatype duration_log = Slow_Query string | Query_Time string | Not_Logged

text \<open>\<^verbatim>\<open>logQueryDuration\<close>: which line is written, with its label.\<close>

definition logQueryDuration :: "rat \<Rightarrow> string option \<Rightarrow> duration_log" where
  "logQueryDuration duration label = (let
      labelStr = (if truthy label then '' ['' @ the label @ '']'' else [])
    in if duration > 1000 then Slow_Query labelStr
       else if duration > 500 then Query_Time labelStr else Not_Logged)"

section \<open>Indicators\<close>

datatype indicator = Up | Down "string option"

definition database_isHealthy :: "string + unit \<Rightarrow> indicator" where
  "database_isHealthy ping = (case ping of Inl e \<Rightarrow> Down (Some e) | Inr _ \<Rightarrow> Up)"

definition redis_isHealthy :: "string + bool \<Rightarrow> indicator" where
  "redis_isHealthy ping = (case ping of Inl e \<Rightarrow> Down None | Inr b \<Rightarrow> if b then Up else Down None)"

record outbox_counts =
  oc_pending :: nat
  oc_processing :: nat
  oc_failed :: nat
  oc_oldest_pending :: "int option"

record outbox_report =
  or_up :: bool
  or_pending :: nat
  or_failed :: nat
  or_processing :: nat
  or_oldestPendingAge :: "int option"
  or_lagWarning :: bool

definition outbox_isHealthy :: "int \<Rightarrow> string + outbox_counts \<Rightarrow> string + outbox_report" where
  "outbox_isHealthy now answer = (case answer of
      Inl e \<Rightarrow> Inl e
    | Inr c \<Rightarrow> (let age = map_option (\<lambda>t. now - t) (oc_oldest_pending c)
        in Inr \<lparr> or_up = (oc_pending c < 1000 \<and> oc_failed c < 100), or_pending = oc_pending c,
             or_failed = oc_failed c, or_processing = oc_processing c, or_oldestPendingAge = age,
             or_lagWarning = (case age of None \<Rightarrow> False | Some a \<Rightarrow> a > 300000) \<rparr>))"

section \<open>What readiness means\<close>

definition readiness_ok :: "readiness_service \<Rightarrow> bool" where
  "readiness_ok s \<longleftrightarrow> distinct (rd_completedPhases s)
     \<and> (rd_ready s \<longrightarrow> rd_currentPhase s = PHASE_READY \<and> PHASE_READY \<in> set (rd_completedPhases s))"

lemma phase_step_ok: "readiness_ok s \<Longrightarrow> readiness_ok (phase_step now c s)"
  by (cases c) (auto simp: readiness_ok_def startPhase_def completePhase_def distinct_set_add split: if_splits)

theorem ready_means_ready_phase:
  "readiness_ok (for_each (phase_step now) cs new_readiness)"
  by (rule for_each_invariant) (simp_all add: phase_step_ok, simp add: readiness_ok_def new_readiness_def)

text \<open>The start of the application never completes the phase of the schema, and is ready all the same.\<close>

theorem boot_skips_schema_phase:
  "let s = for_each (phase_step now) bootstrap_calls new_readiness
   in isReady s \<and> rd_completedPhases s = [PHASE_INFRASTRUCTURE, PHASE_WORKERS, PHASE_API, PHASE_READY]"
  by (simp add: bootstrap_calls_def new_readiness_def startPhase_def completePhase_def set_add_def isReady_def Let_def)

text \<open>Completing the schema when it is verified, later, has no effect: it is no longer the current phase.\<close>

lemma late_schema_completion_is_dropped:
  "completePhase PHASE_SCHEMA (for_each (phase_step now) bootstrap_calls new_readiness)
    = for_each (phase_step now) bootstrap_calls new_readiness"
  by (simp add: bootstrap_calls_def new_readiness_def startPhase_def completePhase_def)

section \<open>Waiting\<close>

lemma wait_loop_stop:
  assumes "wait_loop ready clock start k = Some n"
  shows "k \<le> n \<and> (ready (clock n) \<or> clock n - start \<ge> 300000)
    \<and> (\<forall>j. k \<le> j \<and> j < n \<longrightarrow> \<not> ready (clock j) \<and> clock j - start < 300000)"
proof (rule wait_loop.raw_induct[OF _ assms], goal_cases)
  case (1 wl ready clock start k n)
  show ?case
  proof (cases "\<not> ready (clock k) \<and> clock k - start < 300000")
    case True
    with 1(2) have "wl ready clock start (Suc k) = Some n" by simp
    from 1(1)[OF this] True show ?thesis
      by (metis Suc_leD Suc_leI le_neq_implies_less)
  next
    case False
    with 1(2) show ?thesis by auto
  qed
qed

lemma wait_loop_ends:
  assumes "\<And>k. clock (Suc k) \<ge> clock k + 1000" "clock k \<ge> start"
  shows "\<exists>n. wait_loop ready clock start k = Some n"
  using assms(2)
proof (induction "nat (start + 300000 - clock k)" arbitrary: k rule: less_induct)
  case less
  show ?case
  proof (cases "\<not> ready (clock k) \<and> clock k - start < 300000")
    case True
    have c: "clock (Suc k) \<ge> clock k + 1000" by (rule assms(1))
    with True have "nat (start + 300000 - clock (Suc k)) < nat (start + 300000 - clock k)" by simp
    moreover have "clock (Suc k) \<ge> start" using c less.prems by simp
    ultimately have "\<exists>n. wait_loop ready clock start (Suc k) = Some n" by (rule less.hyps)
    then show ?thesis using True by (simp add: wait_loop.simps[of _ _ _ k])
  next
    case False
    then show ?thesis by (subst wait_loop.simps) auto
  qed
qed

lemma clock_grows:
  assumes "\<And>k. clock (Suc k) \<ge> clock k + (1000::int)"
  shows "clock k \<ge> clock 0 + 1000 * int k"
proof (induction k)
  case (Suc k)
  then show ?case using assms[of k] by simp
qed simp

lemma clock_mono:
  assumes "\<And>k. clock (Suc k) \<ge> clock k + (1000::int)" "i \<le> j"
  shows "clock i \<le> clock j"
proof (rule lift_Suc_mono_le[OF _ assms(2)])
  show "clock n \<le> clock (Suc n)" for n using assms(1)[of n] by simp
qed

text \<open>When tests are at least a second apart, \<^const>\<open>waitUntilReady\<close> returns, and it
  succeeds exactly when some test less than five minutes after the start, or the first test
  after them, finds the system ready with no earlier test past the five minutes.\<close>

theorem wait_until_ready_returns:
  assumes "\<And>k. clock (Suc k) \<ge> clock k + 1000" "clock 0 \<ge> start"
  shows "\<exists>n r. wait_loop ready clock start 0 = Some n \<and> n \<le> 300
    \<and> waitUntilReady ready clock start = Some r
    \<and> (r = Inr () \<longleftrightarrow> (\<exists>k. ready (clock k) \<and> (\<forall>j<k. clock j - start < 300000)))"
proof -
  obtain n where n: "wait_loop ready clock start 0 = Some n" using wait_loop_ends[OF assms] by blast
  note stop = wait_loop_stop[OF n]
  have le: "n \<le> 300"
  proof (rule ccontr)
    assume "\<not> n \<le> 300"
    then have "clock 300 - start < 300000" using stop by auto
    moreover have "clock 300 \<ge> clock 0 + 1000 * int 300" using assms(1) by (rule clock_grows[of clock])
    ultimately show False using assms(2) by simp
  qed
  have "ready (clock n) \<longleftrightarrow> (\<exists>k. ready (clock k) \<and> (\<forall>j<k. clock j - start < 300000))"
  proof
    assume "ready (clock n)"
    then show "\<exists>k. ready (clock k) \<and> (\<forall>j<k. clock j - start < 300000)" using stop by auto
  next
    assume "\<exists>k. ready (clock k) \<and> (\<forall>j<k. clock j - start < 300000)"
    then obtain k where k: "ready (clock k)" "\<And>j. j < k \<Longrightarrow> clock j - start < 300000" by blast
    have "\<not> k < n" using stop k(1) by auto
    moreover have "ready (clock n)" if "n < k" using stop k(2)[OF that] by auto
    ultimately show "ready (clock n)" using k(1) by (metis linorder_neqE_nat)
  qed
  then show ?thesis using n le by (auto simp: waitUntilReady_def)
qed

theorem wait_until_ready_returns_witness:
  "\<exists>n r. wait_loop (\<lambda>t. t \<ge> 4500) (\<lambda>k. 1000 * int k) 0 0 = Some n \<and> n \<le> 300
    \<and> waitUntilReady (\<lambda>t. t \<ge> 4500) (\<lambda>k. 1000 * int k) 0 = Some r
    \<and> (r = Inr () \<longleftrightarrow> (\<exists>k. 4500 \<le> 1000 * int k \<and> (\<forall>j<k. 1000 * int j - 0 < 300000)))"
  by (rule wait_until_ready_returns[of "\<lambda>k. 1000 * int k" 0 "\<lambda>t. t \<ge> 4500"]) simp_all

section \<open>What the reports say\<close>

lemma feature_counts_add_up:
  "fs_enabled (getDetailedFeatureStatus config answer) + fs_disabled (getDetailedFeatureStatus config answer) = 4"
  by (simp add: getDetailedFeatureStatus_def feature_row_def feature_def count_rows_def Let_def)

lemma unconfigured_features_have_reasons:
  "f \<in> set (fs_features (getDetailedFeatureStatus config answer)) \<Longrightarrow>
   fd_status f = FEATURE_DISABLED \<longleftrightarrow> fd_reason f \<noteq> None"
  by (auto simp: getDetailedFeatureStatus_def feature_row_def feature_def Let_def)

lemma pool_share_bounds: "0 \<le> pool_share st"
  by (simp add: pool_share_def)

text \<open>With a database that answers no query the pool is reported healthy, and so is the database.\<close>

lemma dead_database_has_healthy_pool:
  "po_healthy (getPoolStatus (Inl e)) \<and> dm_overallHealth (getDatabaseMetrics (Inl e) (Inl e')) = OVERALL_HEALTHY"
  by (simp add: getPoolStatus_def getDatabaseMetrics_def getPoolStats_def getPerformanceMetrics_def pool_share_def Let_def)

lemma database_health_cases:
  "dm_overallHealth (getDatabaseMetrics pool perf) = OVERALL_HEALTHY \<longleftrightarrow>
     pool_share (getPoolStats pool) < 8/10 \<and> pm_longestRunningQuery (getPerformanceMetrics perf) < 30000
     \<and> pm_lockWaits (getPerformanceMetrics perf) < 10"
  "dm_overallHealth (getDatabaseMetrics pool perf) = OVERALL_CRITICAL \<longleftrightarrow>
     pool_share (getPoolStats pool) > 9/10 \<or> pm_longestRunningQuery (getPerformanceMetrics perf) > 60000"
  by (auto simp: getDatabaseMetrics_def getPoolStats_def Let_def split: sum.splits)

lemma waitingClients_0 [simp]: "ps_waitingClients (getPoolStats answer) = 0"
  by (auto simp: getPoolStats_def Let_def split: sum.splits)

end
