(* ===== verification/Health.thy ===== *)
theory Health
  imports Readiness Schema_Control_Plane
begin

text \<open>
  The health reports of the application: the aggregator
  (\<^verbatim>\<open>health/health-aggregator.service.ts\<close>) and the dashboard with its alerts and
  recommendations (\<^verbatim>\<open>health/health-dashboard.service.ts\<close>), over the readings of
  \<^verbatim>\<open>Readiness\<close> and the status of the schema. A time is the text of the ISO time;
  the readings of the process are an argument passed on.
\<close>

section \<open>Environment\<close>

record 'p health_env =
  he_now :: string
  he_readiness :: readiness_service
  he_config :: "string \<Rightarrow> string option"
  he_outbox :: "string + bool option"
  he_pool :: "string + pool_row"
  he_perf :: "string + perf_row"
  he_ping :: "string + unit"
  he_drift :: cache_answer
  he_migrations :: "string + readiness_summary"
  he_push :: bool
  he_process :: 'p

definition schema_of :: "'p health_env \<Rightarrow> schema_status" where
  "schema_of E = Schema_Control_Plane.getSchemaStatus (he_ping E) (he_drift E) (he_migrations E)"

definition features_of :: "'p health_env \<Rightarrow> feature_report" where
  "features_of E = generateFeatureReport (he_config E) (he_outbox E)"

definition metrics_of :: "'p health_env \<Rightarrow> database_metrics" where
  "metrics_of E = getDatabaseMetrics (he_pool E) (he_perf E)"

definition pool_of :: "'p health_env \<Rightarrow> pool_status" where
  "pool_of E = getPoolStatus (he_pool E)"

definition required_schema_version :: string where
  "required_schema_version = ''1774246118589''"

section \<open>Aggregator\<close>

record system_section =
  sy_ready :: bool
  sy_currentPhase :: StartupPhase
  sy_completedPhases :: "StartupPhase list"

definition system_section_of :: "readiness_view \<Rightarrow> system_section" where
  "system_section_of r = \<lparr> sy_ready = rq_isReady r, sy_currentPhase = rq_currentPhase r,
     sy_completedPhases = rq_completedPhases r \<rparr>"

record system_status =
  st_system :: system_section
  st_schema :: schema_status
  st_version :: string
  st_lastConvergence :: string
  st_pool :: pool_status
  st_features :: feature_report
  st_push :: feature_status

text \<open>The time of the last convergence is the time of the report, or \<^verbatim>\<open>never\<close> without a connection.\<close>

definition last_convergence :: "'p health_env \<Rightarrow> string" where
  "last_convergence E = (if isl (he_ping E) then ''never'' else he_now E)"

definition getSystemStatus :: "'p health_env \<Rightarrow> system_status" where
  "getSystemStatus E = \<lparr> st_system = system_section_of (getReadinessState (he_readiness E)),
     st_schema = schema_of E, st_version = required_schema_version, st_lastConvergence = last_convergence E,
     st_pool = pool_of E, st_features = features_of E, st_push = feature (he_push E) \<rparr>"

definition getFeatureStatus :: "'p health_env \<Rightarrow> feature_report" where
  "getFeatureStatus E = features_of E"

definition getDbPoolStatus :: "bool \<Rightarrow> 'p health_env \<Rightarrow> pool_status + database_metrics \<times> string" where
  "getDbPoolStatus includeDetails E =
    (if \<not> includeDetails then Inl (pool_of E) else Inr (metrics_of E, he_now E))"

record pool_detail =
  pd_idleConnections :: nat
  pd_idleInTransaction :: nat
  pd_idleInTransactionAborted :: nat
  pd_waitingForLocks :: nat
  pd_waitingForLWLocks :: nat
  pd_maxConnections :: nat

text \<open>The columns of the first row in the order the detail uses them.\<close>

definition getDetailedPoolInfo ::
    "string + nat option \<times> nat option \<times> nat option \<times> nat option \<times> nat option \<times> nat option \<Rightarrow> string + pool_detail" where
  "getDetailedPoolInfo answer = (case answer of
      Inl _ \<Rightarrow> Inl ''Could not retrieve detailed pool information''
    | Inr (idle, idle_tx, aborted, locks, lwlocks, limit) \<Rightarrow> Inr \<lparr> pd_idleConnections = or_number idle 0,
        pd_idleInTransaction = or_number idle_tx 0, pd_idleInTransactionAborted = or_number aborted 0,
        pd_waitingForLocks = or_number locks 0, pd_waitingForLWLocks = or_number lwlocks 0,
        pd_maxConnections = or_number limit 100 \<rparr>)"

record schema_detail =
  sd_tableCount :: nat
  sd_columnCount :: nat
  sd_viewCount :: nat
  sd_functionCount :: nat

definition getDetailedSchemaInfo ::
    "string + nat option \<times> nat option \<times> nat option \<times> nat option \<Rightarrow> string + schema_detail" where
  "getDetailedSchemaInfo answer = (case answer of
      Inl _ \<Rightarrow> Inl ''Could not retrieve detailed schema information''
    | Inr (tables, columns, views, routines) \<Rightarrow> Inr \<lparr> sd_tableCount = or_number tables 0,
        sd_columnCount = or_number columns 0, sd_viewCount = or_number views 0,
        sd_functionCount = or_number routines 0 \<rparr>)"

definition health_getSchemaStatus ::
    "bool \<Rightarrow> string + nat option \<times> nat option \<times> nat option \<times> nat option \<Rightarrow> 'p health_env
      \<Rightarrow> schema_status \<times> ((string + schema_detail) \<times> string) option" where
  "health_getSchemaStatus includeDetails answer E =
    (schema_of E, if \<not> includeDetails then None else Some (getDetailedSchemaInfo answer, he_now E))"

record 'p system_metrics =
  ym_timestamp :: string
  ym_system :: 'p
  ym_readiness :: system_section
  ym_connected :: bool
  ym_version :: string
  ym_driftDetected :: bool
  ym_pool :: pool_status
  ym_features :: feature_report
  ym_push :: feature_status

definition getSystemMetrics :: "'p health_env \<Rightarrow> 'p system_metrics" where
  "getSystemMetrics E = \<lparr> ym_timestamp = he_now E, ym_system = he_process E,
     ym_readiness = system_section_of (getReadinessState (he_readiness E)),
     ym_connected = ss_connected (schema_of E), ym_version = required_schema_version,
     ym_driftDetected = ss_driftDetected (schema_of E), ym_pool = pool_of E,
     ym_features = features_of E, ym_push = feature (he_push E) \<rparr>"

datatype component_state =
  C_HEALTHY | C_UNHEALTHY | C_WARNING | C_DEGRADED | C_DISABLED | C_STARTING

text \<open>The figures a component reports beside its status: an enabled flag with an
  impact, the database's readings, the schema's, or the phases.\<close>

datatype component_details =
    Enabled bool string
  | Database_Details string bool bool rat
  | Schema_Details bool string string
  | Phase_Details StartupPhase "StartupPhase list"

record component_entry =
  ce_status :: component_state
  ce_dependencies :: "string list"
  ce_details :: component_details

definition enabled_or :: "component_state \<Rightarrow> feature_status \<Rightarrow> component_state" where
  "enabled_or s f = (if f = FEATURE_ENABLED then C_HEALTHY else s)"

definition feature_entry :: "component_state \<Rightarrow> feature_status \<Rightarrow> string list \<Rightarrow> string \<Rightarrow> component_entry" where
  "feature_entry s f deps impact = \<lparr> ce_status = enabled_or s f, ce_dependencies = deps,
     ce_details = Enabled (f = FEATURE_ENABLED) impact \<rparr>"

definition getComponentHealth :: "'p health_env \<Rightarrow> (string \<times> component_entry) list" where
  "getComponentHealth E = (let s = schema_of E; p = pool_of E; f = features_of E;
      r = getReadinessState (he_readiness E)
    in [(''database'', \<lparr> ce_status = (if ss_connected s then C_HEALTHY else C_UNHEALTHY), ce_dependencies = [],
           ce_details = Database_Details required_schema_version (ss_driftDetected s) (po_healthy p) (po_utilization p) \<rparr>),
        (''redis'', feature_entry C_DEGRADED (fr_redis f) [''database''] ''Redis cache and session storage''),
        (''outbox'', feature_entry C_DEGRADED (fr_outbox f) [''database''] ''Domain event processing and outbox pattern''),
        (''realtime'', feature_entry C_DEGRADED (fr_realtime f) [''redis''] ''Real-time notifications and WebSocket connections''),
        (''push'', feature_entry C_DISABLED (feature (he_push E)) [''redis'']
           ''Push notifications for driver assignments and updates''),
        (''schema'', \<lparr> ce_status = (if ss_driftDetected s then C_WARNING else C_HEALTHY), ce_dependencies = [''database''],
           ce_details = Schema_Details (ss_driftDetected s) (last_convergence E) required_schema_version \<rparr>),
        (''system'', \<lparr> ce_status = (if rq_isReady r then C_HEALTHY else C_STARTING),
           ce_dependencies = [''database'', ''schema''],
           ce_details = Phase_Details (rq_currentPhase r) (rq_completedPhases r) \<rparr>)])"

definition issue :: "bool \<Rightarrow> 'a \<Rightarrow> 'a list" where
  "issue b m = (if b then [m] else [])"

definition getCriticalIssues :: "schema_status \<Rightarrow> pool_status \<Rightarrow> feature_report \<Rightarrow> string list" where
  "getCriticalIssues s p f =
     issue (\<not> ss_connected s) ''Database connection failed''
   @ issue (ss_driftDetected s) ''Schema drift detected - database schema does not match application expectations''
   @ issue (\<not> po_healthy p) ''Database pool unhealthy - high utilization or connection issues''
   @ issue (fr_redis f \<noteq> FEATURE_ENABLED) ''Redis disabled - realtime features will be degraded''
   @ issue (fr_outbox f \<noteq> FEATURE_ENABLED) ''Outbox disabled - domain events may not be processed''"

definition aggregated_health :: "schema_status \<Rightarrow> pool_status \<Rightarrow> feature_report \<Rightarrow> overall_health" where
  "aggregated_health s p f =
    (if \<not> ss_connected s \<or> ss_driftDetected s then OVERALL_CRITICAL
     else if \<not> po_healthy p \<or> fr_redis f \<noteq> FEATURE_ENABLED \<or> fr_outbox f \<noteq> FEATURE_ENABLED then OVERALL_WARNING
     else OVERALL_HEALTHY)"

record health_summary_report =
  hs_timestamp :: string
  hs_overallHealth :: overall_health
  hs_systemReady :: bool
  hs_criticalIssues :: "string list"
  hs_summary :: "(string \<times> component_state) list"
  hs_poolUtilization :: rat
  hs_activeConnections :: nat
  hs_poolSize :: nat

definition healthSummary :: "'p health_env \<Rightarrow> health_summary_report" where
  "healthSummary E = (let s = schema_of E; p = pool_of E; f = features_of E
    in \<lparr> hs_timestamp = he_now E, hs_overallHealth = aggregated_health s p f,
         hs_systemReady = rq_isReady (getReadinessState (he_readiness E)),
         hs_criticalIssues = getCriticalIssues s p f,
         hs_summary =
          [(''database'', if ss_connected s then C_HEALTHY else C_UNHEALTHY),
           (''schema'', if ss_driftDetected s then C_WARNING else C_HEALTHY),
           (''redis'', enabled_or C_DEGRADED (fr_redis f)),
           (''realtime'', enabled_or C_DEGRADED (fr_realtime f)),
           (''push'', enabled_or C_DISABLED (feature (he_push E))),
           (''outbox'', enabled_or C_DEGRADED (fr_outbox f))],
         hs_poolUtilization = po_utilization p, hs_activeConnections = po_activeConnections p,
         hs_poolSize = po_poolSize p \<rparr>)"

section \<open>Dashboard\<close>

record alert_thresholds =
  th_dbPoolUtilization :: rat
  th_dbPoolCritical :: rat
  th_longestQuery :: rat
  th_lockWaits :: nat
  th_memoryUsage :: rat

definition alertThresholds :: alert_thresholds where
  "alertThresholds = \<lparr> th_dbPoolUtilization = 80, th_dbPoolCritical = 90, th_longestQuery = 30000,
     th_lockWaits = 10, th_memoryUsage = 80 \<rparr>"

definition dashboard_health :: "database_metrics \<Rightarrow> schema_status \<Rightarrow> feature_report \<Rightarrow> overall_health" where
  "dashboard_health m s f =
    (if \<not> ss_connected s \<or> ss_driftDetected s then OVERALL_CRITICAL
     else if dm_overallHealth m = OVERALL_CRITICAL then OVERALL_CRITICAL
     else if dm_overallHealth m = OVERALL_WARNING \<or> fr_redis f \<noteq> FEATURE_ENABLED \<or> fr_outbox f \<noteq> FEATURE_ENABLED
     then OVERALL_WARNING
     else OVERALL_HEALTHY)"

record component_health =
  ch_status :: component_state
  ch_message :: string
  ch_lastCheck :: string
  ch_dependencies :: "string list"

definition component_if ::
    "string \<Rightarrow> bool \<Rightarrow> string \<Rightarrow> component_state \<Rightarrow> string \<Rightarrow> string list \<Rightarrow> component_health" where
  "component_if now good m bad m' deps = \<lparr> ch_status = (if good then C_HEALTHY else bad),
     ch_message = (if good then m else m'), ch_lastCheck = now, ch_dependencies = deps \<rparr>"

definition generateComponentStatuses ::
    "bool \<Rightarrow> database_metrics \<Rightarrow> schema_status \<Rightarrow> feature_report \<Rightarrow> readiness_view \<Rightarrow> string
      \<Rightarrow> (string \<times> component_health) list" where
  "generateComponentStatuses push m s f r now =
    [(''database'', component_if now (dm_overallHealth m = OVERALL_HEALTHY) ''Database connection healthy''
        C_WARNING ''Database performance issues detected'' []),
     (''schema'', component_if now (\<not> ss_driftDetected s) ''Schema in sync''
        C_WARNING ''Schema drift detected - manual intervention required'' [''database'']),
     (''redis'', component_if now (fr_redis f = FEATURE_ENABLED) ''Redis cache operational''
        C_DISABLED ''Redis disabled - degraded performance'' [''database'']),
     (''realtime'', component_if now (fr_realtime f = FEATURE_ENABLED) ''Real-time notifications active''
        C_DISABLED ''Real-time features disabled'' [''redis'']),
     (''push'', component_if now push ''Push notifications enabled''
        C_DISABLED ''Push notifications disabled'' [''redis'']),
     (''outbox'', component_if now (fr_outbox f = FEATURE_ENABLED) ''Outbox pattern active''
        C_DISABLED ''Outbox disabled - events may be lost'' [''database'']),
     (''system'', component_if now (rq_isReady r) ''System fully operational''
        C_STARTING ''System starting up'' [''database'', ''schema''])]"

datatype alert_severity = ALERT_CRITICAL | ALERT_WARNING | ALERT_INFO

record alert =
  al_id :: string
  al_severity :: alert_severity
  al_title :: string
  al_message :: string
  al_timestamp :: string
  al_acknowledged :: bool

definition alert_if :: "bool \<Rightarrow> string \<Rightarrow> alert_severity \<Rightarrow> string \<Rightarrow> string \<Rightarrow> string \<Rightarrow> alert list" where
  "alert_if b i sev title msg now = issue b \<lparr> al_id = i, al_severity = sev, al_title = title,
     al_message = msg, al_timestamp = now, al_acknowledged = False \<rparr>"

text \<open>\<^verbatim>\<open>x.toFixed(1)\<close> of a number that is not negative.\<close>

definition toFixed1 :: "rat \<Rightarrow> string" where
  "toFixed1 x = (let n = nat (js_round (x * 10)) in nat_str (n div 10) @ ''.'' @ nat_str (n mod 10))"

definition pool_message :: "database_metrics \<Rightarrow> string" where
  "pool_message m = ''Database connection pool at '' @ toFixed1 (dm_utilization m) @ ''% capacity''"

definition generateAlerts :: "string \<Rightarrow> database_metrics \<Rightarrow> schema_status \<Rightarrow> feature_report \<Rightarrow> alert list" where
  "generateAlerts now m s f = (let longest = pm_longestRunningQuery (dm_performance m); waits = pm_lockWaits (dm_performance m)
    in (if dm_utilization m > th_dbPoolCritical alertThresholds
        then alert_if True ''db-pool-critical'' ALERT_CRITICAL ''Database Pool Critical'' (pool_message m) now
        else alert_if (dm_utilization m > th_dbPoolUtilization alertThresholds)
          ''db-pool-warning'' ALERT_WARNING ''Database Pool Warning'' (pool_message m) now)
     @ alert_if (longest > th_longestQuery alertThresholds) ''slow-query'' ALERT_WARNING ''Slow Query Detected''
         (''Query running for '' @ int_str (floor (longest / 1000)) @ '' seconds'') now
     @ alert_if (waits > th_lockWaits alertThresholds) ''lock-waits'' ALERT_WARNING ''High Lock Contention''
         (nat_str waits @ '' queries waiting for locks'') now
     @ alert_if (ss_driftDetected s) ''schema-drift'' ALERT_CRITICAL ''Schema Drift Detected''
         ''Database schema does not match application expectations'' now
     @ alert_if (fr_redis f \<noteq> FEATURE_ENABLED) ''redis-disabled'' ALERT_WARNING ''Redis Disabled''
         ''Redis cache is disabled - system performance may be degraded'' now
     @ alert_if (fr_outbox f \<noteq> FEATURE_ENABLED) ''outbox-disabled'' ALERT_WARNING ''Outbox Disabled''
         ''Outbox pattern is disabled - domain events may not be processed'' now)"

definition health_recommendations :: "database_metrics \<Rightarrow> schema_status \<Rightarrow> feature_report \<Rightarrow> string list" where
  "health_recommendations m s f = (let
      rs = issue (dm_utilization m > th_dbPoolUtilization alertThresholds)
             ''Consider increasing database connection pool size or optimizing queries to reduce connection usage''
         @ issue (pm_longestRunningQuery (dm_performance m) > th_longestQuery alertThresholds)
             ''Review slow queries and consider adding indexes or query optimization''
         @ issue (pm_lockWaits (dm_performance m) > th_lockWaits alertThresholds)
             ''Investigate lock contention - consider query optimization or transaction restructuring''
         @ issue (ss_driftDetected s)
             ''Run schema migration to resolve drift - ensure all services are updated''
         @ issue (fr_redis f \<noteq> FEATURE_ENABLED)
             ''Enable Redis cache to improve system performance and enable realtime features''
         @ issue (fr_outbox f \<noteq> FEATURE_ENABLED)
             ''Enable outbox pattern for reliable domain event processing''
    in if rs = [] then [''System is operating within normal parameters''] else rs)"

record 'p health_dashboard =
  hd_timestamp :: string
  hd_overallHealth :: overall_health
  hd_systemReady :: bool
  hd_componentStatus :: "(string \<times> component_health) list"
  hd_database :: database_metrics
  hd_system :: 'p
  hd_alerts :: "alert list"
  hd_recommendations :: "string list"

definition getHealthDashboard :: "'p health_env \<Rightarrow> 'p health_dashboard" where
  "getHealthDashboard E = (let m = metrics_of E; s = schema_of E; f = features_of E;
      r = getReadinessState (he_readiness E)
    in \<lparr> hd_timestamp = he_now E, hd_overallHealth = dashboard_health m s f, hd_systemReady = rq_isReady r,
         hd_componentStatus = generateComponentStatuses (he_push E) m s f r (he_now E),
         hd_database = m, hd_system = he_process E, hd_alerts = generateAlerts (he_now E) m s f,
         hd_recommendations = health_recommendations m s f \<rparr>)"

section \<open>Levels of health\<close>

fun health_level :: "overall_health \<Rightarrow> nat" where
  "health_level OVERALL_HEALTHY = 0"
| "health_level OVERALL_WARNING = 1"
| "health_level OVERALL_CRITICAL = 2"

instantiation overall_health :: linorder
begin

definition less_eq_overall_health :: "overall_health \<Rightarrow> overall_health \<Rightarrow> bool" where
  "less_eq_overall_health a b = (health_level a \<le> health_level b)"

definition less_overall_health :: "overall_health \<Rightarrow> overall_health \<Rightarrow> bool" where
  "less_overall_health a b = (health_level a < health_level b)"

instance
proof
  fix a b :: overall_health
  show "a \<le> b \<Longrightarrow> b \<le> a \<Longrightarrow> a = b"
    by (cases a; cases b) (simp_all add: less_eq_overall_health_def)
qed (auto simp: less_eq_overall_health_def less_overall_health_def)

end

lemma health_order:
  "OVERALL_HEALTHY \<le> h" "h \<le> OVERALL_CRITICAL" "h \<le> OVERALL_HEALTHY \<longleftrightarrow> h = OVERALL_HEALTHY"
  by (cases h; simp add: less_eq_overall_health_def)+

section \<open>What the reports say together\<close>

lemma issue_Nil [simp]: "issue b m = [] \<longleftrightarrow> \<not> b"
  by (simp add: issue_def)

lemma alert_if_Nil [simp]: "alert_if b i sev t msg now = [] \<longleftrightarrow> \<not> b"
  by (simp add: alert_if_def)

lemma in_alert_if:
  "a \<in> set (alert_if b i sev t msg now) \<longleftrightarrow> b \<and> a = \<lparr> al_id = i, al_severity = sev, al_title = t,
     al_message = msg, al_timestamp = now, al_acknowledged = False \<rparr>"
  by (auto simp: alert_if_def issue_def)

lemma no_alerts:
  "generateAlerts now m s f = [] \<longleftrightarrow> dm_utilization m \<le> 80 \<and> pm_longestRunningQuery (dm_performance m) \<le> 30000
     \<and> pm_lockWaits (dm_performance m) \<le> 10 \<and> \<not> ss_driftDetected s
     \<and> fr_redis f = FEATURE_ENABLED \<and> fr_outbox f = FEATURE_ENABLED"
  by (auto simp: generateAlerts_def alertThresholds_def Let_def split: if_splits)

lemma metrics_parts [simp]:
  "dm_utilization (metrics_of E) = pool_share (getPoolStats (he_pool E)) * 100"
  "dm_performance (metrics_of E) = getPerformanceMetrics (he_perf E)"
  "dm_pool (metrics_of E) = getPoolStats (he_pool E)"
  by (simp_all add: metrics_of_def getDatabaseMetrics_def Let_def)

lemma metrics_health:
  "dm_overallHealth (metrics_of E) = OVERALL_HEALTHY \<longleftrightarrow>
     dm_utilization (metrics_of E) < 80 \<and> pm_longestRunningQuery (dm_performance (metrics_of E)) < 30000
     \<and> pm_lockWaits (dm_performance (metrics_of E)) < 10"
  "dm_overallHealth (metrics_of E) = OVERALL_CRITICAL \<longleftrightarrow>
     dm_utilization (metrics_of E) > 90 \<or> pm_longestRunningQuery (dm_performance (metrics_of E)) > 60000"
  unfolding metrics_of_def database_health_cases using metrics_parts[of E, unfolded metrics_of_def] by auto

lemma dashboard_healthy:
  "dashboard_health m s f = OVERALL_HEALTHY \<longleftrightarrow> ss_connected s \<and> \<not> ss_driftDetected s
     \<and> dm_overallHealth m = OVERALL_HEALTHY \<and> fr_redis f = FEATURE_ENABLED \<and> fr_outbox f = FEATURE_ENABLED"
  by (cases "dm_overallHealth m") (auto simp: dashboard_health_def)

text \<open>C34: The dashboard is healthy exactly when the database is connected, there is no alert,
  and none of the three readings stands exactly on its threshold, where the health already
  warns and the alerts do not yet.\<close>

theorem healthy_iff_no_alerts:
  "hd_overallHealth (getHealthDashboard E) = OVERALL_HEALTHY \<longleftrightarrow>
     ss_connected (schema_of E) \<and> hd_alerts (getHealthDashboard E) = []
     \<and> dm_utilization (metrics_of E) \<noteq> 80
     \<and> pm_longestRunningQuery (dm_performance (metrics_of E)) \<noteq> 30000
     \<and> pm_lockWaits (dm_performance (metrics_of E)) \<noteq> 10"
proof -
  have "hd_overallHealth (getHealthDashboard E) = dashboard_health (metrics_of E) (schema_of E) (features_of E)"
    "hd_alerts (getHealthDashboard E) = generateAlerts (he_now E) (metrics_of E) (schema_of E) (features_of E)"
    by (simp_all add: getHealthDashboard_def Let_def)
  then show ?thesis
    by (simp only: dashboard_healthy no_alerts metrics_health) (simp only: order.strict_iff_order, blast)
qed

text \<open>Recommendations other than the all-clear come with alerts, and the other way round.\<close>

lemma all_clear_iff_no_alerts:
  "hd_recommendations (getHealthDashboard E) = [''System is operating within normal parameters'']
     \<longleftrightarrow> hd_alerts (getHealthDashboard E) = []"
proof -
  let ?m = "metrics_of E" and ?s = "schema_of E" and ?f = "features_of E"
  have "health_recommendations ?m ?s ?f = [''System is operating within normal parameters'']
      \<longleftrightarrow> generateAlerts (he_now E) ?m ?s ?f = []"
    unfolding no_alerts
    by (auto simp: health_recommendations_def alertThresholds_def issue_def Let_def)
  then show ?thesis by (simp add: getHealthDashboard_def Let_def)
qed

theorem critical_alert_is_critical:
  assumes "a \<in> set (hd_alerts (getHealthDashboard E))" "al_severity a = ALERT_CRITICAL"
  shows "hd_overallHealth (getHealthDashboard E) = OVERALL_CRITICAL"
proof -
  have "dm_utilization (metrics_of E) > 90 \<or> ss_driftDetected (schema_of E)"
    using assms by (auto simp: getHealthDashboard_def generateAlerts_def in_alert_if alertThresholds_def Let_def split: if_splits)
  then have "dm_overallHealth (metrics_of E) = OVERALL_CRITICAL \<or> ss_driftDetected (schema_of E)"
    by (auto simp: metrics_health)
  then show ?thesis by (auto simp: getHealthDashboard_def dashboard_health_def Let_def)
qed

theorem critical_alert_is_critical_witness:
  "\<exists>E :: unit health_env. hd_overallHealth (getHealthDashboard E) = OVERALL_CRITICAL"
proof -
  let ?E = "\<lparr> he_now = ''t'', he_readiness = new_readiness, he_config = (\<lambda>_. None), he_outbox = Inr (Some True),
    he_pool = Inr \<lparr> pr_active_connections = Some 95, pr_max_connections = Some 100 \<rparr>, he_perf = Inl ''e'',
    he_ping = Inr (), he_drift = cache_get 0 empty_cache,
    he_migrations = Inr no_readiness, he_push = False, he_process = () \<rparr>"
  have "hd_alerts (getHealthDashboard ?E) \<noteq> [] \<and> al_severity (hd (hd_alerts (getHealthDashboard ?E))) = ALERT_CRITICAL"
    by (simp add: getHealthDashboard_def generateAlerts_def alert_if_def issue_def alertThresholds_def getPoolStats_def
        pool_share_def or_number_def Let_def)
  then show ?thesis
    by (intro exI[of _ ?E] critical_alert_is_critical[of "hd (hd_alerts (getHealthDashboard ?E))"]) simp_all
qed

text \<open>The dashboard never reports a milder health than the summary of the same readings.\<close>

theorem dashboard_not_milder_than_summary:
  "hs_overallHealth (healthSummary E) \<le> hd_overallHealth (getHealthDashboard E)"
proof -
  have p: "po_healthy (pool_of E) \<longleftrightarrow> dm_utilization (metrics_of E) < 90"
    by (simp add: pool_of_def getPoolStatus_def Let_def mult.commute)
  show ?thesis
  proof (cases "hd_overallHealth (getHealthDashboard E)")
    case OVERALL_HEALTHY
    then have "ss_connected (schema_of E) \<and> \<not> ss_driftDetected (schema_of E)
        \<and> dm_overallHealth (metrics_of E) = OVERALL_HEALTHY
        \<and> fr_redis (features_of E) = FEATURE_ENABLED \<and> fr_outbox (features_of E) = FEATURE_ENABLED"
      by (simp add: getHealthDashboard_def dashboard_healthy Let_def)
    then show ?thesis
      using p metrics_health(1)[of E] by (auto simp: healthSummary_def aggregated_health_def health_order Let_def)
  next
    case OVERALL_WARNING
    then show ?thesis
      by (auto simp: healthSummary_def getHealthDashboard_def aggregated_health_def dashboard_health_def Let_def
          less_eq_overall_health_def split: if_splits)
  qed (simp add: health_order)
qed

text \<open>A database that answers nothing is critical, without a critical alert, and its
  component on the dashboard is healthy.\<close>

theorem dead_database_raises_no_critical_alert:
  assumes "he_ping E = Inl e" "he_pool E = Inl e" "he_perf E = Inl e" "he_outbox E = Inl e"
  shows "hd_overallHealth (getHealthDashboard E) = OVERALL_CRITICAL
    \<and> (\<forall>a \<in> set (hd_alerts (getHealthDashboard E)). al_severity a = ALERT_WARNING)
    \<and> map_option ch_status (map_of (hd_componentStatus (getHealthDashboard E)) ''database'') = Some C_HEALTHY
    \<and> map_option ce_status (map_of (getComponentHealth E) ''database'') = Some C_UNHEALTHY"
proof -
  have s: "\<not> ss_connected (schema_of E)" "\<not> ss_driftDetected (schema_of E)"
    using assms(1) by (simp_all add: schema_of_def getSchemaStatus_def status_with_def)
  have m: "dm_overallHealth (metrics_of E) = OVERALL_HEALTHY" "dm_utilization (metrics_of E) = 0"
    using assms by (simp_all add: metrics_of_def getDatabaseMetrics_def getPoolStats_def getPerformanceMetrics_def
        pool_share_def Let_def del: metrics_parts)
  have a: "\<forall>a \<in> set (hd_alerts (getHealthDashboard E)). al_severity a = ALERT_WARNING"
    using s m(2) by (auto simp: getHealthDashboard_def generateAlerts_def in_alert_if alertThresholds_def Let_def simp del: metrics_parts)
  have c: "map_option ch_status (map_of (hd_componentStatus (getHealthDashboard E)) ''database'') = Some C_HEALTHY"
    using m by (simp add: getHealthDashboard_def generateComponentStatuses_def component_if_def Let_def)
  show ?thesis
    using s a c by (simp add: getHealthDashboard_def dashboard_health_def getComponentHealth_def Let_def)
qed

theorem dead_database_raises_no_critical_alert_witness:
  "\<exists>E :: unit health_env. he_ping E = Inl ''down'' \<and> hd_overallHealth (getHealthDashboard E) = OVERALL_CRITICAL
    \<and> (\<forall>a \<in> set (hd_alerts (getHealthDashboard E)). al_severity a = ALERT_WARNING)"
proof -
  let ?E = "\<lparr> he_now = ''t'', he_readiness = new_readiness, he_config = (\<lambda>_. None), he_outbox = Inl ''down'',
    he_pool = Inl ''down'', he_perf = Inl ''down'', he_ping = Inl ''down'', he_drift = cache_get 0 empty_cache,
    he_migrations = Inl ''down'', he_push = False, he_process = () \<rparr>"
  show ?thesis
    using dead_database_raises_no_critical_alert[of ?E "''down''"] by (intro exI[of _ ?E]) simp
qed

end
