(* ===== verification/Audit_Log.thy ===== *)
theory Audit_Log
  imports Authorization Js_Text
begin

text \<open>
  The audit trail: its rows (\<^verbatim>\<open>entities/audit-log.entity.ts\<close>), the service that writes,
  queries and cleans them (\<^verbatim>\<open>shared/audit.service.ts\<close>), the controller
  (\<^verbatim>\<open>admin/controllers/audit.controller.ts\<close>) and the interceptor that writes a row for
  every changing request (\<^verbatim>\<open>interceptors/audit-logging.interceptor.ts\<close>). Times are
  milliseconds; the days of the retention are days of 24 hours.
\<close>

section \<open>Rows\<close>

record audit_dto =
  lg_userId :: string
  lg_userEmail :: "string option"
  lg_userRole :: "string option"
  lg_action :: string
  lg_resourceType :: string
  lg_resourceId :: string
  lg_changes :: "json option"
  lg_ipAddress :: "string option"
  lg_userAgent :: "string option"
  lg_requestId :: "string option"

record audit_log = audit_dto +
  lg_id :: string
  lg_createdAt :: int

text \<open>The clock, the generated ids by the number of rows, and the database's answer to an insert.\<close>

record audit_env =
  ae_now :: int
  ae_new_id :: "nat \<Rightarrow> string"
  ae_reject :: "audit_dto \<Rightarrow> string option"

definition audit_row :: "audit_env \<Rightarrow> audit_dto \<Rightarrow> audit_log list \<Rightarrow> audit_log" where
  "audit_row E d logs = audit_dto.extend d \<lparr> lg_id = ae_new_id E (length logs), lg_createdAt = ae_now E \<rparr>"

definition audit_save :: "audit_env \<Rightarrow> audit_dto \<Rightarrow> (audit_log list, string, audit_log) action" where
  "audit_save E d logs = (case ae_reject E d of
      Some e \<Rightarrow> (logs, Inl e)
    | None \<Rightarrow> (logs @ [audit_row E d logs], Inr (audit_row E d logs)))"

section \<open>Queries\<close>

definition newest_first :: "audit_log list \<Rightarrow> audit_log list" where
  "newest_first logs = sort_key (\<lambda>l. - lg_createdAt l) logs"

text \<open>\<^verbatim>\<open>getManyAndCount\<close>: the page, and the number of all matches.\<close>

definition audit_query :: "(audit_log \<Rightarrow> bool) \<Rightarrow> nat \<Rightarrow> nat \<Rightarrow> audit_log list \<Rightarrow> audit_log list \<times> nat" where
  "audit_query p skip take_n logs = (let ms = newest_first (filter p logs) in (page_of skip take_n ms, length ms))"

record audit_filters =
  af_action :: "string option"
  af_resourceType :: "string option"
  af_userId :: "string option"
  af_startDate :: "int option"
  af_endDate :: "int option"

definition no_filters :: audit_filters where
  "no_filters = \<lparr> af_action = None, af_resourceType = None, af_userId = None, af_startDate = None, af_endDate = None \<rparr>"

text \<open>\<^verbatim>\<open>if (filters?.x) query.andWhere("x = :x")\<close>\<close>

definition if_equals :: "string option \<Rightarrow> string \<Rightarrow> bool" where
  "if_equals v x = (truthy v \<longrightarrow> v = Some x)"

definition from_date :: "audit_filters \<Rightarrow> audit_log \<Rightarrow> bool" where
  "from_date f l = (case af_startDate f of None \<Rightarrow> True | Some t \<Rightarrow> lg_createdAt l \<ge> t)"

definition to_date :: "audit_filters \<Rightarrow> audit_log \<Rightarrow> bool" where
  "to_date f l = (case af_endDate f of None \<Rightarrow> True | Some t \<Rightarrow> lg_createdAt l \<le> t)"

definition findByUser :: "string \<Rightarrow> nat \<Rightarrow> nat \<Rightarrow> audit_filters \<Rightarrow> audit_log list \<Rightarrow> audit_log list \<times> nat" where
  "findByUser userId skip take_n f = audit_query (\<lambda>l. lg_userId l = userId
     \<and> if_equals (af_action f) (lg_action l) \<and> if_equals (af_resourceType f) (lg_resourceType l)
     \<and> from_date f l \<and> to_date f l) skip take_n"

definition findByResource :: "string \<Rightarrow> string \<Rightarrow> nat \<Rightarrow> nat \<Rightarrow> audit_log list \<Rightarrow> audit_log list \<times> nat" where
  "findByResource resourceType resourceId skip take_n =
     audit_query (\<lambda>l. lg_resourceType l = resourceType \<and> lg_resourceId l = resourceId) skip take_n"

definition findByAction :: "string \<Rightarrow> nat \<Rightarrow> nat \<Rightarrow> audit_filters \<Rightarrow> audit_log list \<Rightarrow> audit_log list \<times> nat" where
  "findByAction action skip take_n f = audit_query (\<lambda>l. lg_action l = action
     \<and> from_date f l \<and> to_date f l \<and> if_equals (af_userId f) (lg_userId l)) skip take_n"

definition findByDateRange ::
    "int \<Rightarrow> int \<Rightarrow> nat \<Rightarrow> nat \<Rightarrow> audit_filters \<Rightarrow> audit_log list \<Rightarrow> audit_log list \<times> nat" where
  "findByDateRange startDate endDate skip take_n f = audit_query (\<lambda>l. lg_createdAt l \<ge> startDate
     \<and> lg_createdAt l \<le> endDate \<and> if_equals (af_action f) (lg_action l)
     \<and> if_equals (af_resourceType f) (lg_resourceType l) \<and> if_equals (af_userId f) (lg_userId l)) skip take_n"

text \<open>\<^verbatim>\<open>GROUP BY key ORDER BY count DESC\<close>\<close>

definition counts_desc :: "(audit_log \<Rightarrow> string) \<Rightarrow> audit_log list \<Rightarrow> (string \<times> nat) list" where
  "counts_desc key logs = sort_key (\<lambda>(k, n). - int n) (count_by key logs)"

record audit_stats =
  as_total :: nat
  as_byAction :: "(string \<times> nat) list"
  as_byResourceType :: "(string \<times> nat) list"
  as_byUser :: "(string \<times> nat) list"
  as_recentActivity :: "audit_log list"

definition audit_getStats :: "audit_log list \<Rightarrow> audit_stats" where
  "audit_getStats logs = \<lparr> as_total = length logs, as_byAction = counts_desc lg_action logs,
     as_byResourceType = counts_desc lg_resourceType logs, as_byUser = take 10 (counts_desc lg_userId logs),
     as_recentActivity = take 20 (newest_first logs) \<rparr>"

definition cleanupOldLogs :: "int \<Rightarrow> int \<Rightarrow> audit_log list \<Rightarrow> audit_log list \<times> nat" where
  "cleanupOldLogs now retentionDays logs = (let cutoff = now - retentionDays * 86400000
    in (filter (\<lambda>l. \<not> lg_createdAt l < cutoff) logs, count_rows (\<lambda>l. lg_createdAt l < cutoff) logs))"

section \<open>Rows from requests\<close>

record web_request =
  wr_method :: string
  wr_url :: string
  wr_params :: "string \<Rightarrow> string option"
  wr_body :: "json option"
  wr_headers :: "string \<Rightarrow> string option"
  wr_remoteAddress :: "string option"
  wr_ip :: "string option"
  wr_user :: "auth_user option"

definition getClientIp :: "web_request \<Rightarrow> string option" where
  "getClientIp r = or_else (wr_headers r ''x-forwarded-for'')
     (or_else (wr_headers r ''x-real-ip'') (or_else (wr_remoteAddress r) (wr_ip r)))"

definition user_field :: "web_request \<Rightarrow> (auth_user \<Rightarrow> string option) \<Rightarrow> string option" where
  "user_field r f = (case wr_user r of None \<Rightarrow> None | Some u \<Rightarrow> f u)"

definition request_dto :: "web_request \<Rightarrow> string \<Rightarrow> string \<Rightarrow> string \<Rightarrow> json option \<Rightarrow> audit_dto" where
  "request_dto r action resourceType resourceId changes = \<lparr>
     lg_userId = or_default (or_else (user_field r u_userId) (user_field r u_driverId)) ''anonymous'',
     lg_userEmail = user_field r u_email, lg_userRole = user_field r u_role, lg_action = action,
     lg_resourceType = resourceType, lg_resourceId = resourceId, lg_changes = changes,
     lg_ipAddress = getClientIp r, lg_userAgent = wr_headers r ''user-agent'',
     lg_requestId = wr_headers r ''x-request-id'' \<rparr>"

text \<open>A row that cannot be written is dropped.\<close>

definition logFromRequest ::
    "audit_env \<Rightarrow> web_request \<Rightarrow> string \<Rightarrow> string \<Rightarrow> string \<Rightarrow> json option \<Rightarrow> audit_log list \<Rightarrow> audit_log list" where
  "logFromRequest E r action resourceType resourceId changes logs =
     fst (audit_save E (request_dto r action resourceType resourceId changes) logs)"

section \<open>The interceptor\<close>

record audit_options =
  ao_resourceType :: string
  ao_resourceIdParam :: "string option"
  ao_action :: "string option"

definition extractResourceIdFromParams :: "web_request \<Rightarrow> string option \<Rightarrow> string option" where
  "extractResourceIdFromParams r paramName =
    (if \<not> truthy paramName then None
     else (let v = or_else (wr_params r (the paramName)) (wr_params r ''id'') in if truthy v then v else None))"

definition getActionName :: "string \<Rightarrow> string" where
  "getActionName m =
    (if m = ''POST'' then ''CREATE''
     else if m = ''PUT'' \<or> m = ''PATCH'' then ''UPDATE''
     else if m = ''DELETE'' then ''DELETE''
     else m)"

definition segment :: "string list \<Rightarrow> string option" where
  "segment ss = (case ss of [] \<Rightarrow> None | s # _ \<Rightarrow> Some s)"

fun resource_of :: "string list \<Rightarrow> string \<times> string option" where
  "resource_of [] = (''UNKNOWN'', None)"
| "resource_of (s # ss) =
    (if s = ''drivers'' then (''DRIVER'', segment ss)
     else if s = ''admin'' \<and> segment ss = Some ''users'' then (''ADMIN'', segment (drop 1 ss))
     else if s = ''deliveries'' then (''DELIVERY'', segment ss)
     else if s = ''proofs'' then (''PROOF'', segment ss)
     else if s = ''cities'' then (''CITY'', segment ss)
     else if s = ''zones'' then (''ZONE'', segment ss)
     else resource_of ss)"

definition getResourceInfo :: "web_request \<Rightarrow> string \<times> string option" where
  "getResourceInfo r = resource_of (filter (\<lambda>s. s \<noteq> []) (split_on (CHR ''/'') (wr_url r)))"

definition extractChanges :: "web_request \<Rightarrow> json" where
  "extractChanges r = JObj
    ((if wr_method r \<in> {''POST'', ''PUT'', ''PATCH''} then opt_field ''after'' (wr_body r) (\<lambda>b. b)
      else if wr_method r = ''DELETE'' then [(''before'', JObj (opt_field ''id''
        (or_else (wr_params r ''id'') (or_else (wr_params r ''userId'') (wr_params r ''driverId''))) JStr))]
      else [])
     @ [(''request'', JObj ([(''method'', JStr (wr_method r)), (''url'', JStr (wr_url r))]
          @ opt_field ''userAgent'' (wr_headers r ''user-agent'') JStr @ opt_field ''ip'' (getClientIp r) JStr))])"

text \<open>What a row of the request says: its action, and the resource.\<close>

definition audit_subject :: "web_request \<Rightarrow> audit_options option \<Rightarrow> string \<times> string \<times> string option" where
  "audit_subject r opts =
    (or_default (case opts of None \<Rightarrow> None | Some o1 \<Rightarrow> ao_action o1) (getActionName (wr_method r)),
     case opts of
       Some o1 \<Rightarrow> (ao_resourceType o1, extractResourceIdFromParams r (ao_resourceIdParam o1))
     | None \<Rightarrow> getResourceInfo r)"

text \<open>\<^verbatim>\<open>skip\<close> is the \<^verbatim>\<open>skipLogging\<close> already set on the request; the handler is a step on a
  state of its own, and a row is written only after it returns.\<close>

definition intercept ::
    "audit_env \<Rightarrow> bool \<Rightarrow> audit_options option \<Rightarrow> web_request \<Rightarrow> ('s, 'e, 'a) action
      \<Rightarrow> 's \<times> audit_log list \<Rightarrow> ('s \<times> audit_log list) \<times> ('e + 'a)" where
  "intercept E skip opts r handler st = (case handler (fst st) of (s', res) \<Rightarrow>
    (if wr_method r = ''GET'' \<or> skip then ((s', snd st), res)
     else case res of
       Inl e \<Rightarrow> ((s', snd st), res)
     | Inr x \<Rightarrow> (case audit_subject r opts of (action, resourceType, resourceId) \<Rightarrow>
         if action \<noteq> [] \<and> resourceType \<noteq> []
         then ((s', logFromRequest E r action resourceType (or_default resourceId ''unknown'')
                 (Some (extractChanges r)) (snd st)), res)
         else ((s', snd st), res))))"

section \<open>The controller\<close>

datatype audit_http_error = Audit_Bad_Request string

record audit_params =
  ap_skip :: nat
  ap_take :: nat
  ap_filters :: audit_filters

definition getMyLogs ::
    "auth_user \<Rightarrow> audit_params \<Rightarrow> audit_log list \<Rightarrow> audit_http_error + audit_log list \<times> nat" where
  "getMyLogs u q logs = (if \<not> truthy (u_userId u) then Inl (Audit_Bad_Request ''Authenticated admin userId is missing'')
     else Inr (findByUser (the (u_userId u)) (ap_skip q) (ap_take q) (ap_filters q) logs))"

definition getByAction :: "string \<Rightarrow> audit_params \<Rightarrow> audit_log list \<Rightarrow> audit_log list \<times> nat" where
  "getByAction action q = findByAction action (ap_skip q) (ap_take q) (ap_filters q)"

definition getByResource :: "string \<Rightarrow> string \<Rightarrow> nat \<Rightarrow> nat \<Rightarrow> audit_log list \<Rightarrow> audit_log list \<times> nat" where
  "getByResource = findByResource"

text \<open>The dates are parsed by the run-time; a date that is missing is refused.\<close>

definition getByDateRange :: "audit_params \<Rightarrow> audit_log list \<Rightarrow> audit_http_error + audit_log list \<times> nat" where
  "getByDateRange q logs = (case (af_startDate (ap_filters q), af_endDate (ap_filters q)) of
      (Some a, Some b) \<Rightarrow> Inr (findByDateRange a b (ap_skip q) (ap_take q) (ap_filters q) logs)
    | _ \<Rightarrow> Inl (Audit_Bad_Request ''startDate and endDate are required''))"

text \<open>The clean-up is a route of the method GET.\<close>

definition cleanup_route :: "int \<Rightarrow> int \<Rightarrow> audit_log list \<Rightarrow> audit_log list \<times> string \<times> nat" where
  "cleanup_route now retentionDays logs = (case cleanupOldLogs now retentionDays logs of (logs', n) \<Rightarrow>
     (logs', ''Cleaned up '' @ nat_str n @ '' old audit logs'', n))"

section \<open>What the trail keeps\<close>

lemma audit_save_appends: "audit_save E d logs = (logs', r) \<Longrightarrow> logs' = logs \<or> (\<exists>l. logs' = logs @ [l] \<and> r = Inr l)"
  by (auto simp: audit_save_def split: option.splits)

lemma logFromRequest_appends:
  "\<exists>new. logFromRequest E r a t i c logs = logs @ new \<and> length new \<le> 1"
proof -
  obtain logs' res where s: "audit_save E (request_dto r a t i c) logs = (logs', res)" by fastforce
  from audit_save_appends[OF this] consider "logs' = logs @ []" | l where "logs' = logs @ [l]" by auto
  then show ?thesis using s by cases (auto simp: logFromRequest_def)
qed

text \<open>The interceptor returns what the handler returns, adds at most one row, and none when the
  handler raises, whatever the database answers to the row.\<close>

theorem interceptor_is_transparent:
  assumes "intercept E skip opts r handler (s, logs) = ((s', logs'), res)"
  shows "(s', res) = handler s \<and> (\<exists>new. logs' = logs @ new \<and> length new \<le> 1
    \<and> (isl res \<or> wr_method r = ''GET'' \<longrightarrow> new = []))"
proof -
  obtain t y where h: "handler s = (t, y)" by fastforce
  obtain a rt ri where sub: "audit_subject r opts = (a, rt, ri)" by (cases "audit_subject r opts") auto
  obtain new where n: "logFromRequest E r a rt (or_default ri ''unknown'') (Some (extractChanges r)) logs = logs @ new"
    "length new \<le> 1"
    using logFromRequest_appends by blast
  show ?thesis
    using assms n(2) by (auto simp: intercept_def h sub n(1) split: if_splits sum.splits)
qed

text \<open>Reading any query page by page, with enough pages, gives every matching row once, newest first.\<close>

theorem pages_give_every_match:
  assumes "snd (findByUser userId 0 m f logs) \<le> n * m"
  shows "concat (map (\<lambda>k. fst (findByUser userId (k * m) m f logs)) [0..<n])
    = newest_first (filter (\<lambda>l. lg_userId l = userId \<and> if_equals (af_action f) (lg_action l)
        \<and> if_equals (af_resourceType f) (lg_resourceType l) \<and> from_date f l \<and> to_date f l) logs)"
  using assms by (simp add: findByUser_def audit_query_def Let_def pages_cover)

text \<open>The clean-up removes exactly the rows older than the retention, tells how many, and
  changes no query of a range that begins within the retention.\<close>

theorem cleanup_keeps_recent_queries:
  assumes "cleanupOldLogs now days logs = (kept, n)" "from \<ge> now - days * 86400000"
  shows "n + length kept = length logs
    \<and> (\<forall>l. l \<in> set kept \<longleftrightarrow> l \<in> set logs \<and> lg_createdAt l \<ge> now - days * 86400000)
    \<and> findByDateRange from until skip take_n f kept = findByDateRange from until skip take_n f logs"
proof -
  have k: "kept = filter (\<lambda>l. \<not> lg_createdAt l < now - days * 86400000) logs"
    "n = length (filter (\<lambda>l. lg_createdAt l < now - days * 86400000) logs)"
    using assms(1) by (simp_all add: cleanupOldLogs_def count_rows_def Let_def)
  have "filter (\<lambda>l. lg_createdAt l \<ge> from \<and> P l) kept = filter (\<lambda>l. lg_createdAt l \<ge> from \<and> P l) logs" for P
    unfolding k(1) using assms(2) by (induction logs) auto
  then have "findByDateRange from until skip take_n f kept = findByDateRange from until skip take_n f logs"
    by (simp add: findByDateRange_def audit_query_def)
  moreover have "n + length kept = length logs"
    unfolding k by (rule sum_length_filter_compl)
  ultimately show ?thesis by (auto simp: k)
qed

definition sample_log :: "string \<Rightarrow> int \<Rightarrow> audit_log" where
  "sample_log i t = \<lparr> lg_userId = ''u'', lg_userEmail = None, lg_userRole = None, lg_action = ''UPDATE'',
     lg_resourceType = ''DRIVER'', lg_resourceId = ''d'', lg_changes = None, lg_ipAddress = None,
     lg_userAgent = None, lg_requestId = None, lg_id = i, lg_createdAt = t \<rparr>"

theorem cleanup_keeps_recent_queries_witness:
  "findByDateRange 86400000 200000000 0 50 no_filters (fst (cleanupOldLogs 172800000 1 [sample_log ''a'' 5, sample_log ''b'' 100000000]))
    = findByDateRange 86400000 200000000 0 50 no_filters [sample_log ''a'' 5, sample_log ''b'' 100000000]"
  by (rule cleanup_keeps_recent_queries[of 172800000 1 "[sample_log ''a'' 5, sample_log ''b'' 100000000]" _
      "snd (cleanupOldLogs 172800000 1 [sample_log ''a'' 5, sample_log ''b'' 100000000])" 86400000
      200000000 0 50 no_filters, THEN conjunct2, THEN conjunct2]) simp_all

lemma sum_sort_counts: "sum_list (map snd (counts_desc key logs)) = length logs"
proof -
  have "mset (map snd (counts_desc key logs)) = mset (map snd (count_by key logs))"
    by (simp add: counts_desc_def)
  then show ?thesis using count_by_total sum_mset_sum_list by metis
qed

theorem stats_counts_add_up:
  "sum_list (map snd (as_byAction (audit_getStats logs))) = as_total (audit_getStats logs)
   \<and> sum_list (map snd (as_byResourceType (audit_getStats logs))) = as_total (audit_getStats logs)"
  by (simp add: audit_getStats_def sum_sort_counts)

text \<open>A caller chooses the address that is recorded for it.\<close>

lemma forwarded_address_is_recorded:
  "wr_headers r ''x-forwarded-for'' = Some a \<Longrightarrow> a \<noteq> [] \<Longrightarrow> lg_ipAddress (request_dto r act t i c) = Some a"
  by (simp add: request_dto_def getClientIp_def or_else_def)

text \<open>The query string of a request stays in the recorded id.\<close>

lemma query_string_is_part_of_id:
  "getResourceInfo \<lparr> wr_method = ''PATCH'', wr_url = ''/deliveries/7?force=1'', wr_params = (\<lambda>_. None),
     wr_body = None, wr_headers = (\<lambda>_. None), wr_remoteAddress = None, wr_ip = None, wr_user = None \<rparr>
   = (''DELIVERY'', Some ''7?force=1'')"
  by (simp add: getResourceInfo_def segment_def)

theorem pages_give_every_match_witness:
  "concat (map (\<lambda>k. fst (findByUser ''u'' (k * 1) 1 no_filters [sample_log ''a'' 5, sample_log ''b'' 7])) [0..<2])
    = newest_first (filter (\<lambda>l. lg_userId l = ''u'' \<and> if_equals (af_action no_filters) (lg_action l)
        \<and> if_equals (af_resourceType no_filters) (lg_resourceType l) \<and> from_date no_filters l \<and> to_date no_filters l)
        [sample_log ''a'' 5, sample_log ''b'' 7])"
  by (rule pages_give_every_match) (simp add: findByUser_def audit_query_def newest_first_def Let_def)

end
