(* ===== verification/Driver_Admin.thy ===== *)
theory Driver_Admin
  imports Drivers Audit_Log
begin

text \<open>
  The administration of drivers: the rest of \<^verbatim>\<open>drivers/drivers.service.ts\<close> (creation,
  activation, removal, filtered lists), \<^verbatim>\<open>admin/driver-admin.application.ts\<close> with its
  audit rows and bulk updates, and the routes of
  \<^verbatim>\<open>admin/controllers/driver-status.controller.ts\<close>. Each write is a write of its own: no
  transaction joins the driver's row and its audit row.
\<close>

section \<open>Drivers service\<close>

record driver_row = driver +
  dw_authProvider :: string
  dw_createdAt :: int

record create_driver_dto =
  cd_name :: string
  cd_phone :: string
  cd_cityId :: string
  cd_isActive :: "bool option"
  cd_vehicleType :: "string option"
  cd_vehicleNumber :: "string option"

text \<open>The columns left out have the defaults of the table; the phone is unique in it.\<close>

definition driver_create :: "driver_env \<Rightarrow> create_driver_dto \<Rightarrow> (driver_db, string, driver) action" where
  "driver_create E dto s =
    (if Some (cd_phone dto) \<in> dr_phone ` set (dd_drivers s) then (s, Inl ''duplicate key value'')
     else let d = \<lparr> dr_id = de_new_id E, dr_name = Some (cd_name dto), dr_phone = Some (cd_phone dto), dr_email = None,
               dr_googleSub = None, dr_cityId = Some (cd_cityId dto), dr_zoneId = None,
               dr_vehicleType = cd_vehicleType dto, dr_vehicleNumber = cd_vehicleNumber dto,
               dr_isActive = (case cd_isActive dto of None \<Rightarrow> True | Some b \<Rightarrow> b), dr_status = AVAILABLE,
               dr_currentLat = None, dr_currentLon = None, dr_lastActiveAt = None,
               dr_lastLocationUpdateAt = None, dr_lastStatusUpdateAt = None,
               dr_registrationStatus = PROFILE_INCOMPLETE, dr_approvedAt = None,
               dr_approvedById = None, dr_rejectionReason = None \<rparr>
          in (put_driver d s, Inr d))"

definition driver_findAll :: "driver_row list \<Rightarrow> driver_row list" where
  "driver_findAll rows = sort_key (\<lambda>d. - dw_createdAt d) rows"

text \<open>\<^verbatim>\<open>LIKE\<close>: \<^verbatim>\<open>%\<close> stands for any text, \<^verbatim>\<open>_\<close> for a character, a backslash quotes the next one.\<close>

fun like :: "string \<Rightarrow> string \<Rightarrow> bool" where
  "like [] s = (s = [])"
| "like (c # p) [] = (c = CHR ''%'' \<and> like p [])"
| "like (c # p) (x # s) =
    (if c = CHR ''%'' then like p (x # s) \<or> like (c # p) s
     else if c = CHR ''_'' then like p s
     else if c = CHR 0x5C then (case p of [] \<Rightarrow> False | d # p' \<Rightarrow> d = x \<and> like p' s)
     else c = x \<and> like p s)"

record driver_options =
  do_cityId :: "string option"
  do_zoneId :: "string option"
  do_status :: "driver_status option"
  do_registrationStatus :: "registration_status option"
  do_isActive :: "bool option"
  do_authProvider :: "string option"
  do_search :: "string option"
  do_skip :: "nat option"
  do_take :: "nat option"

definition no_options :: driver_options where
  "no_options = \<lparr> do_cityId = None, do_zoneId = None, do_status = None, do_registrationStatus = None,
     do_isActive = None, do_authProvider = None, do_search = None, do_skip = None, do_take = None \<rparr>"

definition if_value :: "'a option \<Rightarrow> 'a \<Rightarrow> bool" where
  "if_value v x = (case v of None \<Rightarrow> True | Some y \<Rightarrow> y = x)"

definition search_matches :: "string \<Rightarrow> driver_row \<Rightarrow> bool" where
  "search_matches term d = (let p = ''%'' @ toLowerCase term @ ''%'';
      hit = (\<lambda>v. case v of None \<Rightarrow> False | Some t \<Rightarrow> like p (toLowerCase t))
    in hit (dr_name d) \<or> hit (dr_phone d) \<or> hit (dr_email d))"

definition driver_matches :: "driver_options \<Rightarrow> driver_row \<Rightarrow> bool" where
  "driver_matches q d \<longleftrightarrow>
     (truthy (do_cityId q) \<longrightarrow> dr_cityId d = do_cityId q) \<and> (truthy (do_zoneId q) \<longrightarrow> dr_zoneId d = do_zoneId q)
   \<and> if_value (do_status q) (dr_status d) \<and> if_value (do_registrationStatus q) (dr_registrationStatus d)
   \<and> if_value (do_isActive q) (dr_isActive d)
   \<and> (truthy (do_authProvider q) \<longrightarrow> Some (dw_authProvider d) = do_authProvider q)
   \<and> (truthy (do_search q) \<longrightarrow> search_matches (the (do_search q)) d)"

text \<open>A provider that is no value of the column's type makes the query raise.\<close>

definition findAllWithFilters :: "driver_options \<Rightarrow> driver_row list \<Rightarrow> string + driver_row list \<times> nat" where
  "findAllWithFilters q rows =
    (if truthy (do_authProvider q) \<and> the (do_authProvider q) \<notin> {''legacy'', ''google'', ''email''}
     then Inl ''invalid input value for enum auth_provider_enum''
     else let ms = driver_findAll (filter (driver_matches q) rows)
          in Inr (page_of (case do_skip q of None \<Rightarrow> 0 | Some n \<Rightarrow> n) (case do_take q of None \<Rightarrow> 50 | Some n \<Rightarrow> n) ms, length ms))"

definition setActive :: "driver_env \<Rightarrow> string \<Rightarrow> bool \<Rightarrow> (driver_db, driver_error, driver) action" where
  "setActive E i isActive s = (case find_driver i (dd_drivers s) of
      None \<Rightarrow> (s, Inl Driver_Not_Found)
    | Some d0 \<Rightarrow> let d = d0\<lparr> dr_isActive := isActive, dr_lastActiveAt := Some (de_now E) \<rparr>
        in (set_active_effects isActive i (put_driver d s), Inr d))"

definition remove_driver :: "string \<Rightarrow> (driver_db, driver_error, unit) action" where
  "remove_driver i s =
    (if find_driver i (dd_drivers s) = None then (s, Inl Driver_Not_Found)
     else (s\<lparr> dd_drivers := filter (\<lambda>d. dr_id d \<noteq> i) (dd_drivers s), dd_redis := dd_redis s @ [Mark_Offline i] \<rparr>, Inr ()))"

definition findByGoogleSub :: "string \<Rightarrow> driver list \<Rightarrow> driver option" where
  "findByGoogleSub g ds = lookup_by dr_googleSub (Some g) ds"

definition driver_findByEmail :: "string \<Rightarrow> driver list \<Rightarrow> driver option" where
  "driver_findByEmail e ds = lookup_by dr_email (Some e) ds"

section \<open>Administration\<close>

record admin_actor =
  aa_userId :: "string option"
  aa_driverId :: "string option"
  aa_email :: "string option"
  aa_role :: string
  aa_cityId :: "string option"

record admin_env =
  ad_driver :: driver_env
  ad_audit :: audit_env

record admin_state =
  an_db :: driver_db
  an_logs :: "audit_log list"

datatype admin_error = Driver_Error driver_error | Audit_Failed string

fun action_name :: "bool \<Rightarrow> string" where
  "action_name True = ''DRIVER_ENABLED''"
| "action_name False = ''DRIVER_DISABLED''"

definition is_active_json :: "bool \<Rightarrow> json" where
  "is_active_json b = JObj [(''isActive'', JBool b)]"

definition activation_dto :: "admin_actor \<Rightarrow> string \<Rightarrow> bool \<Rightarrow> bool \<Rightarrow> audit_dto" where
  "activation_dto actor i old new = \<lparr> lg_userId = or_default (or_else (aa_userId actor) (aa_driverId actor)) ''unknown'',
     lg_userEmail = aa_email actor, lg_userRole = Some (aa_role actor), lg_action = action_name new,
     lg_resourceType = ''DRIVER'', lg_resourceId = i,
     lg_changes = Some (JObj [(''before'', is_active_json old), (''after'', is_active_json new),
       (''fields'', JArr [JStr ''isActive''])]),
     lg_ipAddress = None, lg_userAgent = None, lg_requestId = None \<rparr>"

text \<open>\<^verbatim>\<open>await\<close> of a call of the drivers service, and of the audit row after it.\<close>

definition call_drivers :: "(driver_db, driver_error, 'a) action \<Rightarrow> (admin_state, admin_error, 'a) action" where
  "call_drivers m s = (case m (an_db s) of
      (db, Inl e) \<Rightarrow> (s\<lparr> an_db := db \<rparr>, Inl (Driver_Error e))
    | (db, Inr x) \<Rightarrow> (s\<lparr> an_db := db \<rparr>, Inr x))"

definition then_audit :: "admin_env \<Rightarrow> audit_dto \<Rightarrow> (admin_state, admin_error, 'a) action \<Rightarrow> (admin_state, admin_error, 'a) action" where
  "then_audit E dto m s = (case m s of
      (s', Inl e) \<Rightarrow> (s', Inl e)
    | (s', Inr x) \<Rightarrow> (case audit_save (ad_audit E) dto (an_logs s') of
          (logs, Inl e) \<Rightarrow> (s', Inl (Audit_Failed e))
        | (logs, Inr _) \<Rightarrow> (s'\<lparr> an_logs := logs \<rparr>, Inr x)))"

definition admin_updateDriverStatus ::
    "admin_env \<Rightarrow> string \<Rightarrow> bool \<Rightarrow> admin_actor \<Rightarrow> (admin_state, admin_error, driver) action" where
  "admin_updateDriverStatus E i isActive actor s = (case find_driver i (dd_drivers (an_db s)) of
      None \<Rightarrow> (s, Inl (Driver_Error Driver_Not_Found))
    | Some d \<Rightarrow> then_audit E (activation_dto actor i (dr_isActive d) isActive)
        (call_drivers (setActive (ad_driver E) i isActive)) s)"

definition enableDriver :: "admin_env \<Rightarrow> string \<Rightarrow> admin_actor \<Rightarrow> (admin_state, admin_error, driver) action" where
  "enableDriver E i actor s = (case find_driver i (dd_drivers (an_db s)) of
      None \<Rightarrow> (s, Inl (Driver_Error Driver_Not_Found))
    | Some d \<Rightarrow> if dr_isActive d then (s, Inr d)
        else then_audit E (activation_dto actor i False True) (call_drivers (setActive (ad_driver E) i True)) s)"

text \<open>The token is revoked once more here, after \<^const>\<open>setActive\<close> has done so.\<close>

definition revoke_again :: "string \<Rightarrow> (driver_db, driver_error, driver) action \<Rightarrow> (driver_db, driver_error, driver) action" where
  "revoke_again i m s = (case m s of
      (s', Inl e) \<Rightarrow> (s', Inl e)
    | (s', Inr d) \<Rightarrow> (s'\<lparr> dd_redis := dd_redis s' @ [Revoke_Token i 86400] \<rparr>, Inr d))"

definition disableDriver :: "admin_env \<Rightarrow> string \<Rightarrow> admin_actor \<Rightarrow> (admin_state, admin_error, driver) action" where
  "disableDriver E i actor s = (case find_driver i (dd_drivers (an_db s)) of
      None \<Rightarrow> (s, Inl (Driver_Error Driver_Not_Found))
    | Some d \<Rightarrow> if \<not> dr_isActive d then (s, Inr d)
        else then_audit E (activation_dto actor i True False)
          (call_drivers (revoke_again i (setActive (ad_driver E) i False))) s)"

section \<open>Bulk update\<close>

datatype bulk_status = BULK_SUCCESS | BULK_SKIPPED | BULK_ERROR

record bulk_entry =
  bk_driverId :: string
  bk_status :: bulk_status
  bk_driver :: "driver option"
  bk_message :: "string option"

definition skipped_entry :: "string \<Rightarrow> bool \<Rightarrow> bulk_entry" where
  "skipped_entry i isActive = \<lparr> bk_driverId = i, bk_status = BULK_SKIPPED, bk_driver = None,
     bk_message = Some (''Driver already '' @ (if isActive then ''enabled'' else ''disabled'')) \<rparr>"

definition success_entry :: "string \<Rightarrow> driver \<Rightarrow> bulk_entry" where
  "success_entry i d = \<lparr> bk_driverId = i, bk_status = BULK_SUCCESS, bk_driver = Some d, bk_message = None \<rparr>"

definition error_entry :: "string \<Rightarrow> string \<Rightarrow> bulk_entry" where
  "error_entry i m = \<lparr> bk_driverId = i, bk_status = BULK_ERROR, bk_driver = None, bk_message = Some m \<rparr>"

fun admin_error_text :: "string \<Rightarrow> admin_error \<Rightarrow> string" where
  "admin_error_text i (Driver_Error Driver_Not_Found) = ''Driver '' @ i @ '' not found''"
| "admin_error_text i (Driver_Error (Driver_Bad_Request m)) = m"
| "admin_error_text i (Driver_Error Driver_Forbidden) =
     ''You do not have permission to manage drivers outside your city.''"
| "admin_error_text i (Audit_Failed m) = m"

definition city_refusal :: "driver \<Rightarrow> admin_actor \<Rightarrow> string" where
  "city_refusal d actor = ''You do not have permission to manage drivers outside your city. Driver is in ''
     @ show_text (dr_cityId d) @ '', you are in '' @ show_text (aa_cityId actor)"

text \<open>One round of the loop: the state it leaves, and what it adds to \<^verbatim>\<open>results\<close> and \<^verbatim>\<open>errors\<close>.\<close>

definition bulk_round ::
    "admin_env \<Rightarrow> bool \<Rightarrow> admin_actor \<Rightarrow> string \<Rightarrow> admin_state \<Rightarrow> admin_state \<times> bulk_entry list \<times> bulk_entry list" where
  "bulk_round E isActive actor i s = (case find_driver i (dd_drivers (an_db s)) of
      None \<Rightarrow> (s, [], [error_entry i (admin_error_text i (Driver_Error Driver_Not_Found))])
    | Some d \<Rightarrow>
        if dr_isActive d = isActive then (s, [skipped_entry i isActive], [])
        else if aa_role actor \<noteq> ''SUPER_ADMIN'' \<and> aa_cityId actor \<noteq> dr_cityId d
        then (s, [], [error_entry i (city_refusal d actor)])
        else (case then_audit E (activation_dto actor i (dr_isActive d) isActive)
                (call_drivers (setActiveWithCityIsolation (ad_driver E) i isActive (aa_role actor) (aa_cityId actor))) s of
            (s', Inl e) \<Rightarrow> (s', [], [error_entry i (admin_error_text i e)])
          | (s', Inr d') \<Rightarrow> (s', [success_entry i d'], [])))"

record bulk_result =
  br_results :: "bulk_entry list"
  br_errors :: "bulk_entry list"
  br_total :: nat
  br_success :: nat
  br_skipped :: nat
  br_errorCount :: nat

fun bulk_rounds ::
    "admin_env \<Rightarrow> bool \<Rightarrow> admin_actor \<Rightarrow> string list \<Rightarrow> admin_state \<times> bulk_entry list \<times> bulk_entry list
      \<Rightarrow> admin_state \<times> bulk_entry list \<times> bulk_entry list" where
  "bulk_rounds E isActive actor [] acc = acc"
| "bulk_rounds E isActive actor (i # is) (s, rs, es) = (case bulk_round E isActive actor i s of
     (s', r, e) \<Rightarrow> bulk_rounds E isActive actor is (s', rs @ r, es @ e))"

definition bulkUpdateDriverStatus ::
    "admin_env \<Rightarrow> string list \<Rightarrow> bool \<Rightarrow> admin_actor \<Rightarrow> admin_state \<Rightarrow> admin_state \<times> bulk_result" where
  "bulkUpdateDriverStatus E ids isActive actor s = (case bulk_rounds E isActive actor ids (s, [], []) of
     (s', rs, es) \<Rightarrow> (s', \<lparr> br_results = rs, br_errors = es, br_total = length ids,
        br_success = count_rows (\<lambda>r. bk_status r = BULK_SUCCESS) rs,
        br_skipped = count_rows (\<lambda>r. bk_status r = BULK_SKIPPED) rs, br_errorCount = length es \<rparr>))"

section \<open>Lists and statistics\<close>

definition getDriverStatusHistory :: "string \<Rightarrow> nat \<Rightarrow> nat \<Rightarrow> audit_log list \<Rightarrow> audit_log list \<times> nat" where
  "getDriverStatusHistory i skip take_n = findByResource ''DRIVER'' i skip take_n"

definition getDriver :: "string \<Rightarrow> driver list \<Rightarrow> driver_error + driver" where
  "getDriver i ds = (case find_driver i ds of None \<Rightarrow> Inl Driver_Not_Found | Some d \<Rightarrow> Inr d)"

definition listDrivers :: "driver_options \<Rightarrow> driver_row list \<Rightarrow> string + driver_row list \<times> nat" where
  "listDrivers = findAllWithFilters"

record driver_stats_report =
  dt_total :: nat
  dt_active :: nat
  dt_pendingApproval :: nat
  dt_profileIncomplete :: nat
  dt_rejected :: nat
  dt_byCity :: "(string \<times> nat) list"
  dt_byStatus :: "(driver_status \<times> nat) list"
  dt_byRegistrationStatus :: "(registration_status \<times> nat) list"

definition driver_counts :: "driver_row list \<Rightarrow> driver_stats_report" where
  "driver_counts ds = \<lparr> dt_total = length ds, dt_active = count_rows dr_isActive ds,
     dt_pendingApproval = count_rows (\<lambda>d. dr_registrationStatus d = PENDING_APPROVAL) ds,
     dt_profileIncomplete = count_rows (\<lambda>d. dr_registrationStatus d = PROFILE_INCOMPLETE) ds,
     dt_rejected = count_rows (\<lambda>d. dr_registrationStatus d = REJECTED) ds,
     dt_byCity = count_by (\<lambda>d. the (dr_cityId d)) (filter (\<lambda>d. truthy (dr_cityId d)) ds),
     dt_byStatus = count_by dr_status ds, dt_byRegistrationStatus = count_by dr_registrationStatus ds \<rparr>"

definition getDriverStats :: "string option \<Rightarrow> driver_row list \<Rightarrow> string + driver_stats_report" where
  "getDriverStats cityId rows =
    map_sum (\<lambda>e. e) (\<lambda>(ds, n). driver_counts ds)
      (findAllWithFilters (no_options\<lparr> do_cityId := cityId, do_skip := Some 0, do_take := Some 10000 \<rparr>) rows)"

section \<open>Routes\<close>

definition scoped_city :: "admin_actor \<Rightarrow> string option \<Rightarrow> string option" where
  "scoped_city u cityId = (if aa_role u = ''ADMIN'' \<and> \<not> truthy cityId then aa_cityId u else cityId)"

definition route_listDrivers :: "admin_actor \<Rightarrow> driver_options \<Rightarrow> driver_row list \<Rightarrow> string + driver_row list \<times> nat" where
  "route_listDrivers u q rows = listDrivers (q\<lparr> do_cityId := scoped_city u (do_cityId q) \<rparr>) rows"

text \<open>Only city, zone and page of the query are used; the page is filtered afterwards.\<close>

definition listPendingDrivers :: "admin_actor \<Rightarrow> driver_options \<Rightarrow> driver_row list \<Rightarrow> string + driver_row list \<times> nat" where
  "listPendingDrivers u q rows = map_sum (\<lambda>e. e)
     (\<lambda>(ds, n). let ps = filter (\<lambda>d. dr_registrationStatus d = PENDING_APPROVAL) ds in (ps, length ps))
     (listDrivers (no_options\<lparr> do_cityId := scoped_city u (do_cityId q), do_zoneId := do_zoneId q,
        do_skip := do_skip q, do_take := do_take q \<rparr>) rows)"

definition route_admin_id :: "admin_actor \<Rightarrow> string" where
  "route_admin_id u = or_default (or_else (aa_userId u) (aa_driverId u)) ''system''"

definition route_approveDriver :: "admin_env \<Rightarrow> admin_actor \<Rightarrow> string \<Rightarrow> (driver_db, driver_error, driver) action" where
  "route_approveDriver E u i = approveDriver (ad_driver E) i (route_admin_id u)"

definition route_rejectDriver ::
    "admin_env \<Rightarrow> admin_actor \<Rightarrow> string \<Rightarrow> string option \<Rightarrow> (driver_db, driver_error, driver) action" where
  "route_rejectDriver E u i why s =
    (if \<not> truthy why then (s, Inl (Driver_Bad_Request ''Rejection reason is required''))
     else rejectDriver (ad_driver E) i (route_admin_id u) (the why) s)"

text \<open>The routes of the method PATCH in the order of their declaration; a segment is a word or a parameter.\<close>

datatype patch_route = R_Status | R_Enable | R_Disable | R_Bulk | R_Approve | R_Reject

datatype route_segment = Word string | Param

definition patch_routes :: "(route_segment list \<times> patch_route) list" where
  "patch_routes =
    [([Param, Word ''status''], R_Status), ([Param, Word ''enable''], R_Enable), ([Param, Word ''disable''], R_Disable),
     ([Word ''bulk'', Word ''status''], R_Bulk), ([Param, Word ''approve''], R_Approve), ([Param, Word ''reject''], R_Reject)]"

fun segments_match :: "route_segment list \<Rightarrow> string list \<Rightarrow> bool" where
  "segments_match [] ss = (ss = [])"
| "segments_match (Word w # ps) ss = (case ss of [] \<Rightarrow> False | s # ss' \<Rightarrow> s = w \<and> segments_match ps ss')"
| "segments_match (Param # ps) ss = (case ss of [] \<Rightarrow> False | s # ss' \<Rightarrow> s \<noteq> [] \<and> segments_match ps ss')"

text \<open>The first route whose pattern matches is chosen.\<close>

definition route_of :: "string list \<Rightarrow> patch_route option" where
  "route_of path = map_option snd (find (\<lambda>(ps, r). segments_match ps path) patch_routes)"

section \<open>Bulk updates\<close>

lemma call_drivers_logs [simp]: "an_logs (fst (call_drivers m s)) = an_logs s"
  by (auto simp: call_drivers_def split: prod.splits sum.splits)

lemma call_drivers_db: "an_db (fst (call_drivers m s)) = fst (m (an_db s))"
  by (auto simp: call_drivers_def split: prod.splits sum.splits)

lemma then_audit_db: "an_db (fst (then_audit E dto m s)) = an_db (fst (m s))"
  by (auto simp: then_audit_def split: prod.splits sum.splits)

lemma find_put_driver:
  "find_driver j (dd_drivers (put_driver d s)) = (if j = dr_id d then Some d else find_driver j (dd_drivers s))"
  by (simp add: put_driver_def driver_repo.find_save)

lemma set_active_effects_drivers [simp]: "dd_drivers (set_active_effects b i s) = dd_drivers s"
  by (simp add: set_active_effects_def)

lemma isolated_activation:
  assumes "setActiveWithCityIsolation E i b role city s = (s', r)" "role \<noteq> ''SUPER_ADMIN''"
    "find_driver j (dd_drivers s) = Some d" "dr_cityId d \<noteq> city"
  shows "find_driver j (dd_drivers s') = Some d"
proof (cases "find_driver i (dd_drivers s)")
  case (Some d0)
  then have "dr_id d0 = i" by (rule driver_repo.found_key)
  then show ?thesis
    using assms Some
    by (auto simp: setActiveWithCityIsolation_def put_driver_def driver_repo.find_save Let_def split: if_splits)
qed (use assms in \<open>simp add: setActiveWithCityIsolation_def\<close>)

lemma bulk_round_isolated:
  assumes "bulk_round E b actor i s = (s', r, e)" "aa_role actor \<noteq> ''SUPER_ADMIN''"
    "find_driver j (dd_drivers (an_db s)) = Some d" "dr_cityId d \<noteq> aa_cityId actor"
  shows "find_driver j (dd_drivers (an_db s')) = Some d"
proof (cases "s' = s")
  case False
  obtain d0 where f: "find_driver i (dd_drivers (an_db s)) = Some d0"
    using assms(1) False by (auto simp: bulk_round_def split: option.splits)
  let ?m = "then_audit E (activation_dto actor i (dr_isActive d0) b)
    (call_drivers (setActiveWithCityIsolation (ad_driver E) i b (aa_role actor) (aa_cityId actor))) s"
  have "s' = fst ?m"
    using assms(1) False f by (auto simp: bulk_round_def split: if_splits prod.splits sum.splits)
  then have "an_db s' = fst (setActiveWithCityIsolation (ad_driver E) i b (aa_role actor) (aa_cityId actor) (an_db s))"
    by (simp add: then_audit_db call_drivers_db)
  then show ?thesis
    using isolated_activation[OF _ assms(2,3,4)] by (metis prod.collapse)
qed (use assms in simp)

lemma bulk_round_entries:
  assumes "bulk_round E b actor i s = (s', r, e)"
  shows "length r + length e = 1 \<and> (\<forall>x \<in> set r. bk_status x = BULK_SUCCESS \<or> bk_status x = BULK_SKIPPED)
    \<and> map bk_driverId (r @ e) = [i]"
  using assms
  by (auto simp: bulk_round_def error_entry_def success_entry_def skipped_entry_def
      split: option.splits if_splits prod.splits sum.splits)

lemma bulk_rounds_isolated:
  assumes "bulk_rounds E b actor is (s, rs, es) = (s', rs', es')" "aa_role actor \<noteq> ''SUPER_ADMIN''"
    "find_driver j (dd_drivers (an_db s)) = Some d" "dr_cityId d \<noteq> aa_cityId actor"
  shows "find_driver j (dd_drivers (an_db s')) = Some d"
  using assms
proof (induction "is" arbitrary: s rs es)
  case (Cons i "is")
  obtain s1 r e where b: "bulk_round E b actor i s = (s1, r, e)" by (metis prod_cases3)
  show ?case
    using Cons.IH[of s1 "rs @ r" "es @ e"] Cons.prems bulk_round_isolated[OF b] b by simp
qed simp

lemma bulk_rounds_entries:
  assumes "bulk_rounds E b actor is (s, rs, es) = (s', rs', es')"
    "\<forall>x \<in> set rs. bk_status x = BULK_SUCCESS \<or> bk_status x = BULK_SKIPPED"
  shows "length rs' + length es' = length rs + length es + length is
    \<and> (\<forall>x \<in> set rs'. bk_status x = BULK_SUCCESS \<or> bk_status x = BULK_SKIPPED)
    \<and> bk_driverId ` set (rs' @ es') = bk_driverId ` set (rs @ es) \<union> set is"
  using assms
proof (induction "is" arbitrary: s rs es)
  case (Cons i "is")
  obtain s1 r e where b: "bulk_round E b actor i s = (s1, r, e)" by (metis prod_cases3)
  note en = bulk_round_entries[OF b]
  from en have "set (map bk_driverId (r @ e)) = {i}" by simp
  then have ids: "bk_driverId ` set r \<union> bk_driverId ` set e = {i}" by (simp add: image_Un)
  have "length rs' + length es' = length (rs @ r) + length (es @ e) + length is
    \<and> (\<forall>x \<in> set rs'. bk_status x = BULK_SUCCESS \<or> bk_status x = BULK_SKIPPED)
    \<and> bk_driverId ` set (rs' @ es') = bk_driverId ` set ((rs @ r) @ (es @ e)) \<union> set is"
    using Cons.prems b en by (intro Cons.IH[of s1]) auto
  moreover have "bk_driverId ` set ((rs @ r) @ (es @ e)) = bk_driverId ` set (rs @ es) \<union> {i}"
    using ids by (auto simp: image_Un)
  ultimately show ?case using en by simp
qed simp

lemma count_two_kinds:
  "\<forall>x \<in> set rs. bk_status x = BULK_SUCCESS \<or> bk_status x = BULK_SKIPPED \<Longrightarrow>
   count_rows (\<lambda>r. bk_status r = BULK_SUCCESS) rs + count_rows (\<lambda>r. bk_status r = BULK_SKIPPED) rs = length rs"
  by (induction rs) (auto simp: count_rows_def)

text \<open>C35: A bulk update accounts for every requested driver, and by an administrator who is no
  super admin it leaves the drivers of other cities as they are.\<close>

theorem bulk_update_stays_in_city:
  assumes "bulkUpdateDriverStatus E ids isActive actor s = (s', R)"
  shows "br_total R = br_success R + br_skipped R + br_errorCount R
    \<and> bk_driverId ` set (br_results R @ br_errors R) = set ids
    \<and> (aa_role actor \<noteq> ''SUPER_ADMIN'' \<longrightarrow>
        (\<forall>j d. find_driver j (dd_drivers (an_db s)) = Some d \<and> dr_cityId d \<noteq> aa_cityId actor \<longrightarrow>
          find_driver j (dd_drivers (an_db s')) = Some d))"
proof -
  obtain rs es where b: "bulk_rounds E isActive actor ids (s, [], []) = (s', rs, es)"
    using assms by (auto simp: bulkUpdateDriverStatus_def split: prod.splits)
  have R: "R = \<lparr> br_results = rs, br_errors = es, br_total = length ids,
      br_success = count_rows (\<lambda>r. bk_status r = BULK_SUCCESS) rs,
      br_skipped = count_rows (\<lambda>r. bk_status r = BULK_SKIPPED) rs, br_errorCount = length es \<rparr>"
    using assms b by (simp add: bulkUpdateDriverStatus_def)
  have n: "length rs + length es = length ids"
    and k: "\<forall>x \<in> set rs. bk_status x = BULK_SUCCESS \<or> bk_status x = BULK_SKIPPED"
    and i: "bk_driverId ` set (rs @ es) = set ids"
    using bulk_rounds_entries[OF b] by auto
  have c: "br_total R = br_success R + br_skipped R + br_errorCount R"
    using n count_two_kinds[OF k] by (simp add: R)
  have iso: "find_driver j (dd_drivers (an_db s')) = Some d"
    if "aa_role actor \<noteq> ''SUPER_ADMIN''" "find_driver j (dd_drivers (an_db s)) = Some d" "dr_cityId d \<noteq> aa_cityId actor" for j d
    using bulk_rounds_isolated[OF b that] .
  have "bk_driverId ` set (br_results R @ br_errors R) = set ids" using i by (simp add: R)
  then show ?thesis using c iso by blast
qed

section \<open>Single updates\<close>

text \<open>The single update checks no city: any administrator who reaches the route turns any
  driver on or off, and when the audit row fails the caller sees an error although the driver
  has been changed.\<close>

theorem single_update_ignores_city:
  assumes "find_driver i (dd_drivers (an_db s)) = Some d"
    "admin_updateDriverStatus E i isActive actor s = (s', r)"
  shows "find_driver i (dd_drivers (an_db s')) = Some (d\<lparr> dr_isActive := isActive, dr_lastActiveAt := Some (de_now (ad_driver E)) \<rparr>)
    \<and> (\<not> isActive \<longrightarrow> Revoke_Token i 86400 \<in> set (dd_redis (an_db s')))
    \<and> (isl r \<longleftrightarrow> ae_reject (ad_audit E) (activation_dto actor i (dr_isActive d) isActive) \<noteq> None)"
proof -
  have id: "dr_id d = i" using assms(1) by (rule driver_repo.found_key)
  let ?d = "d\<lparr> dr_isActive := isActive, dr_lastActiveAt := Some (de_now (ad_driver E)) \<rparr>"
  let ?db = "set_active_effects isActive i (put_driver ?d (an_db s))"
  have c: "call_drivers (setActive (ad_driver E) i isActive) s = (s\<lparr> an_db := ?db \<rparr>, Inr ?d)"
    using assms(1) by (simp add: call_drivers_def setActive_def Let_def)
  have db: "an_db s' = ?db"
    using assms c then_audit_db[of E "activation_dto actor i (dr_isActive d) isActive" "call_drivers (setActive (ad_driver E) i isActive)" s]
    by (simp add: admin_updateDriverStatus_def)
  have "isl r \<longleftrightarrow> ae_reject (ad_audit E) (activation_dto actor i (dr_isActive d) isActive) \<noteq> None"
    using assms c by (auto simp: admin_updateDriverStatus_def then_audit_def audit_save_def split: option.splits)
  then show ?thesis
    using id by (auto simp: db driver_repo.find_save set_active_effects_def)
qed

section \<open>Routes\<close>

text \<open>The pattern of the single update stands before that of the bulk update and takes its requests.\<close>

theorem bulk_route_is_shadowed:
  "route_of [''bulk'', ''status''] = Some R_Status \<and> route_of path \<noteq> Some R_Bulk"
proof -
  have "route_of path \<noteq> Some R_Bulk"
  proof (cases "segments_match [Word ''bulk'', Word ''status''] path")
    case True
    then have "path = [''bulk'', ''status'']" by (auto split: list.splits)
    then show ?thesis by (simp add: route_of_def patch_routes_def)
  next
    case False
    then show ?thesis by (simp add: route_of_def patch_routes_def split: if_splits)
  qed
  then show ?thesis by (simp add: route_of_def patch_routes_def)
qed

text \<open>The scope of an administrator is only a default: a city that is given is used.\<close>

lemma given_city_is_used: "truthy cityId \<Longrightarrow> scoped_city u cityId = cityId"
  by (simp add: scoped_city_def)

section \<open>Lists and statistics\<close>

lemma no_search_matches: "driver_matches no_options d"
  by (simp add: driver_matches_def no_options_def if_value_def)

lemma city_matches: "driver_matches (no_options\<lparr> do_cityId := c, do_skip := a, do_take := b \<rparr>) d
    \<longleftrightarrow> (truthy c \<longrightarrow> dr_cityId d = c)"
  by (simp add: driver_matches_def no_options_def if_value_def)

text \<open>The groups of the statistics add up, to at most ten thousand drivers.\<close>

theorem driver_stats_add_up:
  assumes "getDriverStats cityId rows = Inr R"
  shows "sum_list (map snd (dt_byStatus R)) = dt_total R \<and> sum_list (map snd (dt_byRegistrationStatus R)) = dt_total R
    \<and> sum_list (map snd (dt_byCity R)) \<le> dt_total R \<and> dt_active R \<le> dt_total R \<and> dt_total R \<le> 10000"
proof -
  obtain ds where R: "R = driver_counts ds" and "length ds \<le> 10000"
    using assms by (auto simp: getDriverStats_def findAllWithFilters_def no_options_def Let_def page_of_def)
  then show ?thesis
    by (simp add: driver_counts_def count_by_total count_rows_def)
qed

definition plain_driver :: "string \<Rightarrow> registration_status \<Rightarrow> int \<Rightarrow> driver_row" where
  "plain_driver i st t = \<lparr> dr_id = i, dr_name = None, dr_phone = None, dr_email = None, dr_googleSub = None,
     dr_cityId = None, dr_zoneId = None, dr_vehicleType = None, dr_vehicleNumber = None, dr_isActive = True,
     dr_status = AVAILABLE, dr_currentLat = None, dr_currentLon = None, dr_lastActiveAt = None,
     dr_lastLocationUpdateAt = None, dr_lastStatusUpdateAt = None, dr_registrationStatus = st,
     dr_approvedAt = None, dr_approvedById = None, dr_rejectionReason = None,
     dw_authProvider = ''legacy'', dw_createdAt = t \<rparr>"

text \<open>The list of pending drivers filters a page: here the first page, of one driver, has none of them
  and says there are none.\<close>

lemma pending_driver_is_hidden:
  "listPendingDrivers \<lparr> aa_userId = Some ''a'', aa_driverId = None, aa_email = None, aa_role = ''SUPER_ADMIN'', aa_cityId = None \<rparr>
     (no_options\<lparr> do_take := Some 1 \<rparr>) [plain_driver ''old'' PENDING_APPROVAL 1, plain_driver ''new'' APPROVED 2] = Inr ([], 0)"
  by (simp add: listPendingDrivers_def listDrivers_def findAllWithFilters_def driver_findAll_def driver_matches_def
      no_options_def if_value_def scoped_city_def page_of_def plain_driver_def Let_def)

text \<open>Wild cards of the search are not quoted.\<close>

lemma like_all: "like (CHR ''%'' # [CHR ''%'']) s"
  by (induction s) auto


section \<open>Witnesses\<close>

definition sample_admin_env :: admin_env where
  "sample_admin_env = \<lparr> ad_driver = \<lparr> de_now = 7, de_ms = (\<lambda>_. ''''), de_new_id = ''n'', de_REGISTERED = ''r'',
       de_PROFILE_COMPLETED = ''p'', de_APPROVAL_REQUESTED = ''q'', de_APPROVED = ''a'', de_REJECTED = ''x'' \<rparr>,
     ad_audit = \<lparr> ae_now = 7, ae_new_id = nat_str, ae_reject = (\<lambda>_. None) \<rparr> \<rparr>"

definition sample_admin :: admin_actor where
  "sample_admin = \<lparr> aa_userId = Some ''a'', aa_driverId = None, aa_email = None, aa_role = ''ADMIN'', aa_cityId = Some ''c1'' \<rparr>"

definition sample_admin_state :: admin_state where
  "sample_admin_state = \<lparr> an_db = \<lparr> dd_drivers = [driver.truncate (plain_driver ''d'' APPROVED 1)\<lparr> dr_cityId := Some ''c2'' \<rparr>],
     dd_stats = [], dd_outbox = \<lparr> ot_rows = [], ot_next_id = 1 \<rparr>, dd_audit = [], dd_redis = [] \<rparr>, an_logs = [] \<rparr>"

theorem bulk_update_stays_in_city_witness:
  "\<exists>s' R. bulkUpdateDriverStatus sample_admin_env [''d''] False sample_admin sample_admin_state = (s', R)
    \<and> br_total R = br_success R + br_skipped R + br_errorCount R"
  using bulk_update_stays_in_city[of sample_admin_env "[''d'']" False sample_admin sample_admin_state] prod.collapse by metis

theorem single_update_ignores_city_witness:
  "\<exists>d' s' r. admin_updateDriverStatus sample_admin_env ''d'' False sample_admin sample_admin_state = (s', r)
    \<and> find_driver ''d'' (dd_drivers (an_db s')) = Some d' \<and> \<not> dr_isActive d' \<and> dr_cityId d' = Some ''c2''
    \<and> aa_cityId sample_admin = Some ''c1''"
proof -
  let ?d = "driver.truncate (plain_driver ''d'' APPROVED 1)\<lparr> dr_cityId := Some ''c2'' \<rparr>"
  obtain s' r where u: "admin_updateDriverStatus sample_admin_env ''d'' False sample_admin sample_admin_state = (s', r)"
    by fastforce
  have f: "find_driver ''d'' (dd_drivers (an_db sample_admin_state)) = Some ?d"
    by (simp add: sample_admin_state_def find_driver_def plain_driver_def driver.defs)
  from single_update_ignores_city[OF f u]
  have "find_driver ''d'' (dd_drivers (an_db s')) = Some (?d\<lparr> dr_isActive := False, dr_lastActiveAt := Some (de_now (ad_driver sample_admin_env)) \<rparr>)"
    by simp
  then show ?thesis using u by (intro exI[of _ s'] exI) (auto simp: sample_admin_def)
qed

end
