(* ===== verification/Driver_Earnings.thy ===== *)
theory Driver_Earnings
  imports Driver_Admin Dispatch_Scoring
begin

text \<open>
  The earnings of a driver over a day, a week or a month with their daily history, and
  the diagnostic score (\<^verbatim>\<open>getDriverEarnings\<close> and \<^verbatim>\<open>getDriverScore\<close> of
  \<^verbatim>\<open>drivers/drivers.service.ts\<close>). The server's zone is a constant offset from UTC, \<^verbatim>\<open>z\<close>
  milliseconds to the east: the period starts at a local midnight, and the history goes by UTC
  dates. A calendar day is the number of days since 1 January 1970, and a date of the history is
  the day it names.
\<close>

section \<open>Calendar\<close>

definition day_ms :: int where
  "day_ms = 86400000"

text \<open>The UTC date of an instant, and its date in the zone.\<close>

definition day_of :: "int \<Rightarrow> int" where
  "day_of t = t div day_ms"

definition local_day :: "int \<Rightarrow> int \<Rightarrow> int" where
  "local_day z t = day_of (t + z)"

text \<open>The instant of the midnight at which a day of the zone begins.\<close>

definition midnight :: "int \<Rightarrow> int \<Rightarrow> int" where
  "midnight z k = k * day_ms - z"

text \<open>\<^verbatim>\<open>getDay\<close>: 0 is Sunday; day 0 was a Thursday.\<close>

definition getDay :: "int \<Rightarrow> int \<Rightarrow> int" where
  "getDay z t = (local_day z t + 4) mod 7"

text \<open>\<^verbatim>\<open>getDate\<close>: the day of the month in the proleptic Gregorian calendar, counted in eras of
  400 years that begin in March.\<close>

definition getDate :: "int \<Rightarrow> int \<Rightarrow> int" where
  "getDate z t = (let doe = (local_day z t + 719468) mod 146097;
      yoe = (doe - doe div 1460 + doe div 36524 - doe div 146096) div 365;
      doy = doe - (365 * yoe + yoe div 4 - yoe div 100);
      mp = (5 * doy + 2) div 153
    in doy - (153 * mp + 2) div 5 + 1)"

section \<open>Earnings\<close>

datatype EarningsPeriod = TODAY | WEEK | MONTH

definition start_day :: "EarningsPeriod \<Rightarrow> int \<Rightarrow> int \<Rightarrow> int" where
  "start_day p z now = (case p of
      TODAY \<Rightarrow> local_day z now
    | WEEK \<Rightarrow> local_day z now - (if getDay z now = 0 then 6 else getDay z now - 1)
    | MONTH \<Rightarrow> local_day z now - (getDate z now - 1))"

fun period_label :: "EarningsPeriod \<Rightarrow> string" where
  "period_label TODAY = ''Today''"
| "period_label WEEK = ''This Week''"
| "period_label MONTH = ''This Month''"

definition earnings_deliveries :: "string \<Rightarrow> int \<Rightarrow> int \<Rightarrow> delivery list \<Rightarrow> delivery list" where
  "earnings_deliveries driverId start now ds = sort_key dl_createdAt
     (filter (\<lambda>d. dl_driverId d = Some driverId \<and> start \<le> dl_createdAt d \<and> dl_createdAt d \<le> now) ds)"

definition unsuccessful :: "delivery \<Rightarrow> bool" where
  "unsuccessful d \<longleftrightarrow> dl_status d = FAILED \<or> dl_status d = CANCELLED"

definition baseRatePerDelivery :: nat where
  "baseRatePerDelivery = 50"

definition timed_delivery :: "delivery \<Rightarrow> bool" where
  "timed_delivery d \<longleftrightarrow> dl_status d = DELIVERED \<and> dl_deliveredAt d \<noteq> None \<and> dl_assignedAt d \<noteq> None"

definition delivery_minutes :: "delivery \<Rightarrow> rat" where
  "delivery_minutes d = of_int (the (dl_deliveredAt d) - the (dl_assignedAt d)) / (1000 * 60)"

definition avg_minutes :: "delivery list \<Rightarrow> int" where
  "avg_minutes ds = (let ts = filter timed_delivery ds
    in if length ts > 0 then js_round (sum_list (map delivery_minutes ts) / of_nat (length ts)) else 0)"

record daily_earnings =
  eh_date :: int
  eh_totalDeliveries :: nat
  eh_completedDeliveries :: nat
  eh_failedDeliveries :: nat
  eh_earnings :: nat

definition empty_day :: "int \<Rightarrow> daily_earnings" where
  "empty_day d = \<lparr> eh_date = d, eh_totalDeliveries = 0, eh_completedDeliveries = 0, eh_failedDeliveries = 0, eh_earnings = 0 \<rparr>"

text \<open>\<^verbatim>\<open>while (currentDate <= now)\<close>: the UTC dates of the local midnights.\<close>

function days_from :: "int \<Rightarrow> int \<Rightarrow> int list" where
  "days_from current now = (if current \<le> now then day_of current # days_from (current + day_ms) now else [])"
  by pat_completeness auto
termination by (relation "measure (\<lambda>(c, n). nat (n + 1 - c))") (auto simp: day_ms_def)

declare days_from.simps [simp del]

definition count_delivery :: "delivery \<Rightarrow> daily_earnings \<Rightarrow> daily_earnings" where
  "count_delivery d r = (let r1 = r\<lparr> eh_totalDeliveries := eh_totalDeliveries r + 1 \<rparr>
    in if dl_status d = DELIVERED then r1\<lparr> eh_completedDeliveries := eh_completedDeliveries r + 1,
            eh_earnings := eh_earnings r + baseRatePerDelivery \<rparr>
       else if unsuccessful d then r1\<lparr> eh_failedDeliveries := eh_failedDeliveries r + 1 \<rparr>
       else r1)"

definition populate :: "delivery \<Rightarrow> daily_earnings list \<Rightarrow> daily_earnings list" where
  "populate d h = update_rows (\<lambda>r. eh_date r = day_of (dl_createdAt d)) (count_delivery d) h"

definition daily_history :: "int \<Rightarrow> int \<Rightarrow> delivery list \<Rightarrow> daily_earnings list" where
  "daily_history start now ds = sort_key eh_date (for_each populate ds (map empty_day (days_from start now)))"

record earnings_response =
  er_period :: string
  er_totalDeliveries :: nat
  er_completedDeliveries :: nat
  er_failedDeliveries :: nat
  er_totalEarnings :: nat
  er_avgDeliveryTimeMinutes :: int
  er_history :: "daily_earnings list"

definition getDriverEarnings ::
    "driver list \<Rightarrow> delivery list \<Rightarrow> int \<Rightarrow> int \<Rightarrow> string \<Rightarrow> EarningsPeriod \<Rightarrow> driver_error + earnings_response" where
  "getDriverEarnings drivers deliveries z now driverId period = (case find_driver driverId drivers of
      None \<Rightarrow> Inl Driver_Not_Found
    | Some _ \<Rightarrow> (let
          startDate = midnight z (start_day period z now);
          ds = earnings_deliveries driverId startDate now deliveries;
          completed = count_rows (\<lambda>d. dl_status d = DELIVERED) ds
        in Inr \<lparr> er_period = period_label period, er_totalDeliveries = length ds, er_completedDeliveries = completed,
             er_failedDeliveries = count_rows unsuccessful ds, er_totalEarnings = completed * baseRatePerDelivery,
             er_avgDeliveryTimeMinutes = avg_minutes ds, er_history = daily_history startDate now ds \<rparr>))"

section \<open>Score\<close>

record driver_score =
  sc_driverId :: string
  sc_totalScore :: rat
  sc_isEligible :: bool
  sc_calculatedAt :: int

datatype score_error = No_Driver | Score_Failed string

text \<open>The score is read first; the eligibility reads it again from the rows this leaves.\<close>

definition getDriverScore ::
    "int \<Rightarrow> DispatchConfig list \<Rightarrow> stats_table \<Rightarrow> driver list \<Rightarrow> string \<Rightarrow> (DispatchScore list, score_error, driver_score) action" where
  "getDriverScore now cs t drivers i ss = (case find_driver i drivers of
      None \<Rightarrow> (ss, Inl No_Driver)
    | Some _ \<Rightarrow> (case getCurrentScore now cs t i ss of
        (ss1, Inl e) \<Rightarrow> (ss1, Inl (Score_Failed e))
      | (ss1, Inr x) \<Rightarrow> (case isDriverEligible now cs t i ss1 of (ss2, b) \<Rightarrow>
          (ss2, Inr \<lparr> sc_driverId = i, sc_totalScore = x, sc_isEligible = b, sc_calculatedAt = now \<rparr>))))"

section \<open>The history adds up\<close>

lemma midnight_le: "midnight z k \<le> now \<longleftrightarrow> k \<le> local_day z now"
proof -
  define q where "q = (now + z) div 86400000"
  define m where "m = (now + z) mod 86400000"
  have "now + z = q * 86400000 + m" "0 \<le> m" "m < 86400000"
    by (simp_all add: q_def m_def)
  then have "k * 86400000 \<le> now + z \<longleftrightarrow> k \<le> q" by linarith
  then show ?thesis by (auto simp: midnight_def local_day_def day_of_def day_ms_def q_def)
qed

lemma day_of_midnight: "day_of (midnight z k) = k + day_of (- z)"
  using div_mult_self3[of day_ms k "- z"] by (simp add: day_of_def midnight_def day_ms_def)

lemma midnight_utc: "day_of (midnight 0 k) = k"
  by (simp add: midnight_def day_of_def day_ms_def)

lemma day_of_mono: "s \<le> t \<Longrightarrow> day_of s \<le> day_of t"
  by (simp add: day_of_def day_ms_def zdiv_mono1)

text \<open>The last date of the history is the UTC date of the last local midnight.\<close>

lemma days_from_upto: "days_from (midnight z k) now = [day_of (midnight z k)..day_of (midnight z (local_day z now))]"
proof (induction "nat (local_day z now + 1 - k)" arbitrary: k)
  case 0
  then have "local_day z now < k" by simp
  then show ?case by (subst days_from.simps) (simp add: midnight_le day_of_midnight)
next
  case (Suc n)
  then have le: "k \<le> local_day z now" by simp
  have "midnight z k + day_ms = midnight z (k + 1)" by (simp add: midnight_def distrib_right)
  moreover have "days_from (midnight z (k + 1)) now
      = [day_of (midnight z (k + 1))..day_of (midnight z (local_day z now))]"
    using Suc.hyps(2) by (intro Suc.hyps(1)) simp
  ultimately show ?case
    using le by (subst days_from.simps) (simp add: midnight_le day_of_midnight upto_rec1 add.commute add.left_commute)
qed

lemma count_delivery_date [simp]: "eh_date (count_delivery d r) = eh_date r"
  by (simp add: count_delivery_def Let_def)

lemma populate_dates [simp]: "map eh_date (populate d h) = map eh_date h"
  unfolding populate_def by (rule map_update_rows) simp

lemma populate_sum:
  assumes "distinct (map eh_date h)" "\<And>r. f (count_delivery d r) = f r + (c :: nat)"
  shows "sum_list (map f (populate d h)) = sum_list (map f h) + (if day_of (dl_createdAt d) \<in> eh_date ` set h then c else 0)"
  using assms(1)
proof (induction h)
  case (Cons r h)
  show ?case
  proof (cases "eh_date r = day_of (dl_createdAt d)")
    case True
    then have "populate d h = h"
      unfolding populate_def using Cons.prems(1) by (intro update_rows_none) (auto simp: image_iff)
    then show ?thesis using True assms(2) by (simp add: populate_def update_rows_def)
  next
    case False
    then have "sum_list (map f (populate d h)) = sum_list (map f h) + (if day_of (dl_createdAt d) \<in> eh_date ` set h then c else 0)"
      using Cons by auto
    then show ?thesis using False by (auto simp: populate_def update_rows_def)
  qed
qed (simp add: populate_def update_rows_def)

text \<open>The deliveries whose date the history has.\<close>

definition dated :: "int list \<Rightarrow> delivery list \<Rightarrow> delivery list" where
  "dated dates ds = filter (\<lambda>d. day_of (dl_createdAt d) \<in> set dates) ds"

lemma history_sum:
  assumes "distinct (map eh_date h)" "\<And>d r. f (count_delivery d r) = f r + (c d :: nat)"
  shows "sum_list (map f (for_each populate ds h)) = sum_list (map f h) + sum_list (map c (dated (map eh_date h) ds))"
  using assms(1)
proof (induction ds arbitrary: h)
  case (Cons d ds)
  have "sum_list (map f (for_each populate ds (populate d h)))
      = sum_list (map f (populate d h)) + sum_list (map c (dated (map eh_date (populate d h)) ds))"
    using Cons.prems by (intro Cons.IH) simp
  moreover have "sum_list (map f (populate d h)) = sum_list (map f h) + (if day_of (dl_createdAt d) \<in> eh_date ` set h then c d else 0)"
    using Cons.prems assms(2) by (intro populate_sum)
  ultimately show ?case by (simp add: dated_def)
qed (simp add: dated_def)

definition counted_deliveries :: "int \<Rightarrow> int \<Rightarrow> delivery list \<Rightarrow> delivery list" where
  "counted_deliveries z now ds = filter (\<lambda>d. day_of (dl_createdAt d) \<le> day_of (midnight z (local_day z now))) ds"

lemma daily_history_sum:
  assumes "\<And>d. d \<in> set ds \<Longrightarrow> midnight z k \<le> dl_createdAt d"
    "\<And>d r. f (count_delivery d r) = f r + (c d :: nat)" "\<And>x. f (empty_day x) = 0"
  shows "sum_list (map f (daily_history (midnight z k) now ds)) = sum_list (map c (counted_deliveries z now ds))"
proof -
  let ?dates = "[day_of (midnight z k)..day_of (midnight z (local_day z now))]"
  let ?h = "map empty_day ?dates"
  have dates: "map eh_date ?h = ?dates" by (simp add: empty_day_def comp_def)
  have "dated ?dates ds = counted_deliveries z now ds"
    unfolding dated_def counted_deliveries_def
    by (rule filter_cong[OF refl]) (use assms(1) day_of_mono in auto)
  then have "sum_list (map f (for_each populate ds ?h)) = sum_list (map f ?h) + sum_list (map c (counted_deliveries z now ds))"
    using history_sum[of ?h f c ds] assms(2) dates by simp
  moreover have "sum_list (map f ?h) = 0" using assms(3) by (simp add: comp_def)
  moreover have "sum_list (map f (daily_history (midnight z k) now ds)) = sum_list (map f (for_each populate ds ?h))"
  proof -
    have "mset (map f (daily_history (midnight z k) now ds)) = mset (map f (for_each populate ds ?h))"
      by (simp add: daily_history_def days_from_upto)
    then show ?thesis by (metis sum_mset_sum_list)
  qed
  ultimately show ?thesis by simp
qed

lemma sum_indicator: "sum_list (map (\<lambda>d. if p d then n else 0) ds) = count_rows p ds * (n :: nat)"
  by (induction ds) (auto simp: count_rows_def)

lemma completed_and_failed: "count_rows (\<lambda>d. dl_status d = DELIVERED) ds + count_rows unsuccessful ds \<le> length ds"
  by (induction ds) (auto simp: count_rows_def unsuccessful_def)

text \<open>C36: For each period the daily history adds up to the deliveries of the period whose UTC date is not
  later than that of the last local midnight: all of them, those completed, those failed, and
  the earnings, which are fifty a completed one. On a server whose zone is UTC these are all the
  deliveries of the period, and the history adds up to the totals of the response. The zone
  is a constant offset.\<close>

theorem earnings_history_adds_up:
  assumes "getDriverEarnings drivers deliveries z now i period = Inr R"
  shows "\<exists>ds. length ds = er_totalDeliveries R
    \<and> (\<forall>d. d \<in> set ds \<longleftrightarrow> d \<in> set deliveries \<and> dl_driverId d = Some i
        \<and> midnight z (start_day period z now) \<le> dl_createdAt d \<and> dl_createdAt d \<le> now)
    \<and> (let cs = counted_deliveries z now ds in
         sum_list (map eh_totalDeliveries (er_history R)) = length cs
       \<and> sum_list (map eh_completedDeliveries (er_history R)) = count_rows (\<lambda>d. dl_status d = DELIVERED) cs
       \<and> sum_list (map eh_failedDeliveries (er_history R)) = count_rows unsuccessful cs
       \<and> sum_list (map eh_earnings (er_history R)) = 50 * count_rows (\<lambda>d. dl_status d = DELIVERED) cs)
    \<and> (z = 0 \<longrightarrow> sum_list (map eh_totalDeliveries (er_history R)) = er_totalDeliveries R
       \<and> sum_list (map eh_completedDeliveries (er_history R)) = er_completedDeliveries R
       \<and> sum_list (map eh_failedDeliveries (er_history R)) = er_failedDeliveries R
       \<and> sum_list (map eh_earnings (er_history R)) = er_totalEarnings R)"
proof -
  let ?k = "start_day period z now"
  define ds where "ds = earnings_deliveries i (midnight z ?k) now deliveries"
  let ?cs = "counted_deliveries z now ds"
  have R: "er_history R = daily_history (midnight z ?k) now ds" "er_totalDeliveries R = length ds"
      "er_completedDeliveries R = count_rows (\<lambda>d. dl_status d = DELIVERED) ds"
      "er_failedDeliveries R = count_rows unsuccessful ds"
      "er_totalEarnings R = count_rows (\<lambda>d. dl_status d = DELIVERED) ds * baseRatePerDelivery"
    using assms by (auto simp: getDriverEarnings_def ds_def Let_def split: option.splits)
  have range: "midnight z ?k \<le> dl_createdAt d" if "d \<in> set ds" for d
    using that by (simp add: ds_def earnings_deliveries_def)
  note sum = daily_history_sum[OF range]
  have t: "sum_list (map eh_totalDeliveries (er_history R)) = sum_list (map (\<lambda>_. 1) ?cs)"
    unfolding R by (rule sum) (simp_all add: count_delivery_def empty_day_def Let_def)
  have c: "sum_list (map eh_completedDeliveries (er_history R))
      = sum_list (map (\<lambda>d. if dl_status d = DELIVERED then 1 else 0) ?cs)"
    unfolding R by (rule sum) (simp_all add: count_delivery_def empty_day_def Let_def)
  have f: "sum_list (map eh_failedDeliveries (er_history R))
      = sum_list (map (\<lambda>d. if unsuccessful d then 1 else 0) ?cs)"
    unfolding R by (rule sum) (auto simp: count_delivery_def empty_day_def unsuccessful_def Let_def)
  have e: "sum_list (map eh_earnings (er_history R))
      = sum_list (map (\<lambda>d. if dl_status d = DELIVERED then baseRatePerDelivery else 0) ?cs)"
    unfolding R by (rule sum) (simp_all add: count_delivery_def empty_day_def Let_def)
  have utc: "?cs = ds" if "z = 0"
    unfolding counted_deliveries_def that midnight_utc
    by (rule filter_True) (auto simp: ds_def earnings_deliveries_def local_day_def intro: day_of_mono)
  show ?thesis
    by (rule exI[of _ ds])
      (use t c f e utc in \<open>auto simp: R sum_indicator sum_list_triv baseRatePerDelivery_def Let_def,
        auto simp: ds_def earnings_deliveries_def\<close>)
qed

definition one_driver :: "driver list" where
  "one_driver = [driver.truncate (plain_driver ''d'' APPROVED 1)]"

theorem earnings_history_adds_up_witness:
  "\<exists>R. getDriverEarnings one_driver [] 0 1704067200000 ''d'' MONTH = Inr R
    \<and> sum_list (map eh_earnings (er_history R)) = er_totalEarnings R"
proof -
  obtain R where R: "getDriverEarnings one_driver [] 0 1704067200000 ''d'' MONTH = Inr R"
    by (simp add: getDriverEarnings_def one_driver_def find_driver_def plain_driver_def driver.defs Let_def)
  from earnings_history_adds_up[OF this] show ?thesis using R by blast
qed

text \<open>On a server in India, at noon on 1 January 2024, the delivery completed at eleven is part of
  the day's totals and missing from the day's history, whose only date is 31 December.\<close>

definition eleven_delivery :: delivery where
  "eleven_delivery = (sample_delivery DELIVERED)\<lparr> dl_driverId := Some ''d'', dl_createdAt := 1704087000000 \<rparr>"

lemma local_history_misses_today:
  "\<exists>R. getDriverEarnings one_driver [eleven_delivery] 19800000 1704090600000 ''d'' TODAY = Inr R
    \<and> er_totalEarnings R = 50 \<and> map eh_date (er_history R) = [day_of 1703980800000]
    \<and> sum_list (map eh_earnings (er_history R)) = 0"
proof -
  obtain R where R: "getDriverEarnings one_driver [eleven_delivery] 19800000 1704090600000 ''d'' TODAY = Inr R"
    by (simp add: getDriverEarnings_def one_driver_def find_driver_def plain_driver_def driver.defs Let_def)
  have d: "start_day TODAY 19800000 1704090600000 = local_day 19800000 1704090600000" by (simp add: start_day_def)
  have l: "local_day 19800000 1704090600000 = 19723" "day_of (midnight 19800000 19723) = 19722"
    "day_of 1704087000000 = 19723" "midnight 19800000 19723 = 1704047400000"
    by (simp_all add: local_day_def day_of_def midnight_def day_ms_def)
  have h: "daily_history (midnight 19800000 19723) 1704090600000 ds
      = sort_key eh_date (for_each populate ds [empty_day 19722])" for ds
    unfolding daily_history_def days_from_upto l(1,2) by simp
  have ds: "earnings_deliveries ''d'' (midnight 19800000 19723) 1704090600000 [eleven_delivery] = [eleven_delivery]"
    by (simp add: earnings_deliveries_def eleven_delivery_def sample_delivery_def l)
  have p: "populate eleven_delivery [empty_day 19722] = [empty_day 19722]"
    by (simp add: populate_def update_rows_def empty_day_def eleven_delivery_def sample_delivery_def l)
  have delivered: "dl_status eleven_delivery = DELIVERED" by (simp add: eleven_delivery_def sample_delivery_def)
  have "er_totalEarnings R = 50"
    using R by (auto simp: getDriverEarnings_def d l(1) ds delivered Let_def count_rows_def baseRatePerDelivery_def
        split: option.splits)
  moreover have "er_history R = [empty_day 19722]"
    using R by (auto simp: getDriverEarnings_def d l(1) ds h p Let_def split: option.splits)
  ultimately show ?thesis using R by (auto simp: empty_day_def day_of_def day_ms_def)
qed

text \<open>1 January 2024 was a Monday, 29 February 2024 a Thursday.\<close>

lemma calendar_samples:
  "getDate 0 1704067200000 = 1" "getDay 0 1704067200000 = 1" "getDate 0 1709164800000 = 29" "getDay 0 1709164800000 = 4"
  by (simp_all add: getDate_def getDay_def local_day_def day_of_def day_ms_def Let_def)

end
