(* ===== verification/Presence.thy ===== *)
theory Presence
  imports Offers
begin

text \<open>
  The drivers in the shared store: the guarded execution of commands and the
  availability operations of \<^verbatim>\<open>redis/redis.service.ts\<close>, the messages of a driver
  (\<^verbatim>\<open>websocket/driver-realtime.service.ts\<close>, \<^verbatim>\<open>drivers/driver-state.service.ts\<close>) and the push
  notifications (\<^verbatim>\<open>push/push.service.ts\<close>). The store is a position set, a hash of
  statuses and keys with a time of expiry; times are milliseconds.
\<close>

section \<open>Guarded execution\<close>

text \<open>\<^verbatim>\<open>breaker.fire\<close> is the circuit breaker of a package: the \<^verbatim>\<open>k\<close>-th attempt turns the
  store into another and gives a result or raises.\<close>

fun attempts :: "nat \<Rightarrow> nat \<Rightarrow> (nat \<Rightarrow> ('s, string, 'a) action) \<Rightarrow> 's \<Rightarrow> 's \<times> 'a option" where
  "attempts 0 k fire s = (s, None)"
| "attempts (Suc n) k fire s = (case fire k s of
      (s', Inr x) \<Rightarrow> (s', Some x)
    | (s', Inl e) \<Rightarrow> if n = 0 then (s', None) else attempts n (k + 1) fire s')"

definition maxRetries :: nat where
  "maxRetries = 2"

definition safeExecute :: "bool \<Rightarrow> (nat \<Rightarrow> ('s, string, 'a) action) \<Rightarrow> 's \<Rightarrow> 's \<times> 'a option" where
  "safeExecute isHealthy fire s = (if \<not> isHealthy then (s, None) else attempts (maxRetries + 1) 0 fire s)"

text \<open>The waits between the attempts.\<close>

definition retry_delay :: "nat \<Rightarrow> nat" where
  "retry_delay i = 50 * 2 ^ i"

definition redis_ping :: "bool \<Rightarrow> (nat \<Rightarrow> ('s, string, string) action) \<Rightarrow> 's \<Rightarrow> 's \<times> bool" where
  "redis_ping isHealthy fire s = (case safeExecute isHealthy fire s of (s', r) \<Rightarrow> (s', r = Some ''PONG''))"

section \<open>Store\<close>

record store =
  so_geo :: "string \<Rightarrow> (rat \<times> rat) option"
  so_status :: "string \<Rightarrow> string option"
  so_keys :: "string \<Rightarrow> (string \<times> int option) option"

definition empty_store :: store where
  "empty_store = \<lparr> so_geo = (\<lambda>_. None), so_status = (\<lambda>_. None), so_keys = (\<lambda>_. None) \<rparr>"

text \<open>A key is gone from its time of expiry on.\<close>

definition live_key :: "int \<Rightarrow> store \<Rightarrow> string \<Rightarrow> string option" where
  "live_key now s k = (case so_keys s k of
      None \<Rightarrow> None
    | Some (v, None) \<Rightarrow> Some v
    | Some (v, Some t) \<Rightarrow> if now < t then Some v else None)"

definition set_ex :: "int \<Rightarrow> string \<Rightarrow> string \<Rightarrow> int \<Rightarrow> store \<Rightarrow> store" where
  "set_ex now k v seconds s = s\<lparr> so_keys := (so_keys s)(k := Some (v, Some (now + 1000 * seconds))) \<rparr>"

definition del_key :: "string \<Rightarrow> store \<Rightarrow> store" where
  "del_key k s = s\<lparr> so_keys := (so_keys s)(k := None) \<rparr>"

definition geo_member :: "string \<Rightarrow> string" where
  "geo_member i = ''driver:'' @ i"

definition online_key :: "string \<Rightarrow> string" where
  "online_key i = ''driver:online:'' @ i"

definition go_online :: "int \<Rightarrow> string \<Rightarrow> rat \<Rightarrow> rat \<Rightarrow> string \<Rightarrow> int \<Rightarrow> store \<Rightarrow> store" where
  "go_online now i lat lon status ttl s = set_ex now (online_key i) ''1'' ttl
     (s\<lparr> so_geo := (so_geo s)(geo_member i := Some (lon, lat)), so_status := (so_status s)(i := Some status) \<rparr>)"

definition go_away :: "string \<Rightarrow> string \<Rightarrow> store \<Rightarrow> store" where
  "go_away i status s = del_key (online_key i)
     (s\<lparr> so_geo := (so_geo s)(geo_member i := None), so_status := (so_status s)(i := Some status) \<rparr>)"

text \<open>Each operation is one pipeline, executed under the guard; \<^verbatim>\<open>run\<close> gives, for the pipeline's
  effect, what the attempts do with it.\<close>

type_synonym pipeline_run = "(store \<Rightarrow> store) \<Rightarrow> nat \<Rightarrow> (store, string, unit) action"

definition exec_pipeline :: "bool \<Rightarrow> pipeline_run \<Rightarrow> (store \<Rightarrow> store) \<Rightarrow> store \<Rightarrow> store" where
  "exec_pipeline isHealthy run p s = fst (safeExecute isHealthy (run p) s)"

definition updateDriverLocation :: "bool \<Rightarrow> pipeline_run \<Rightarrow> int \<Rightarrow> string \<Rightarrow> rat \<Rightarrow> rat \<Rightarrow> int \<Rightarrow> store \<Rightarrow> store" where
  "updateDriverLocation h run now i lat lon ttl = exec_pipeline h run (go_online now i lat lon ''AVAILABLE'' ttl)"

definition markDriverBusy :: "bool \<Rightarrow> pipeline_run \<Rightarrow> string \<Rightarrow> store \<Rightarrow> store" where
  "markDriverBusy h run i = exec_pipeline h run (go_away i ''BUSY'')"

definition markDriverOffline :: "bool \<Rightarrow> pipeline_run \<Rightarrow> string \<Rightarrow> store \<Rightarrow> store" where
  "markDriverOffline h run i = exec_pipeline h run (go_away i ''OFFLINE'')"

definition updateDriverPresence ::
    "bool \<Rightarrow> pipeline_run \<Rightarrow> int \<Rightarrow> string \<Rightarrow> rat \<Rightarrow> rat \<Rightarrow> string \<Rightarrow> int \<Rightarrow> store \<Rightarrow> store" where
  "updateDriverPresence h run now i lat lon status ttl = exec_pipeline h run
     (if status = ''AVAILABLE'' \<or> status = ''BUSY'' then go_online now i lat lon status ttl else go_away i ''OFFLINE'')"

section \<open>Search\<close>

text \<open>\<^verbatim>\<open>member.replace("driver:", "")\<close>: the first occurrence is removed.\<close>

fun drop_first :: "string \<Rightarrow> string \<Rightarrow> string" where
  "drop_first p [] = []"
| "drop_first p (c # s) = (if starts_with p (c # s) then drop (length p) (c # s) else c # drop_first p s)"

text \<open>The pair of answers for one member: a command of the pipeline fails or answers.\<close>

type_synonym pipeline_answers = "(string + string option) \<times> (string + nat)"

definition answers_for :: "int \<Rightarrow> store \<Rightarrow> string \<Rightarrow> pipeline_answers" where
  "answers_for now s member = (let i = drop_first ''driver:'' member
    in (Inr (so_status s i), Inr (if live_key now s (online_key i) = None then 0 else 1)))"

fun available_of :: "(string \<times> rat) list \<Rightarrow> pipeline_answers list \<Rightarrow> (string \<times> rat) list" where
  "available_of [] as = []"
| "available_of (r # rs) [] = []"
| "available_of ((member, km) # rs) (a # as) =
    (case a of
       (Inr status, Inr online) \<Rightarrow>
         (if status = Some ''AVAILABLE'' \<and> online = 1 then (drop_first ''driver:'' member, km) # available_of rs as
          else available_of rs as)
     | _ \<Rightarrow> available_of rs as)"

text \<open>The command is cut to a hundred kilometres; a missing answer to it is no driver, a missing
  answer to the pipeline a type error.\<close>

definition safe_radius :: "rat \<Rightarrow> rat" where
  "safe_radius r = min r 100"

definition findAvailableDrivers ::
    "(rat \<Rightarrow> nat \<Rightarrow> (string \<times> rat) list option) \<Rightarrow> ((string \<times> rat) list \<Rightarrow> pipeline_answers list option)
      \<Rightarrow> rat \<Rightarrow> nat \<Rightarrow> string + (string \<times> rat) list" where
  "findAvailableDrivers geosearch pipeline radiusKm limit = (case geosearch (safe_radius radiusKm) limit of
      None \<Rightarrow> Inr []
    | Some results \<Rightarrow> if results = [] then Inr []
        else (case pipeline results of
            None \<Rightarrow> Inl ''Cannot read properties of null''
          | Some answers \<Rightarrow> Inr (available_of results answers)))"

section \<open>Messages of a driver\<close>

text \<open>Answers are the \<^verbatim>\<open>ok\<close> flag; the guarded operations never raise, so the flag is true.\<close>

definition rt_handleLocation :: "bool \<Rightarrow> pipeline_run \<Rightarrow> int \<Rightarrow> string \<Rightarrow> rat \<Rightarrow> rat \<Rightarrow> store \<Rightarrow> store \<times> bool" where
  "rt_handleLocation h run now i lat lon s = (updateDriverLocation h run now i lat lon 60 s, True)"

definition handlePresence ::
    "bool \<Rightarrow> pipeline_run \<Rightarrow> int \<Rightarrow> string \<Rightarrow> rat \<Rightarrow> rat \<Rightarrow> string \<Rightarrow> store \<Rightarrow> store \<times> bool" where
  "handlePresence h run now i lat lon status s = (updateDriverPresence h run now i lat lon status 45 s, True)"

definition handleDriverBusy :: "bool \<Rightarrow> pipeline_run \<Rightarrow> string \<Rightarrow> store \<Rightarrow> store \<times> bool" where
  "handleDriverBusy h run i s = (markDriverBusy h run i s, True)"

definition handleDriverOffline :: "bool \<Rightarrow> pipeline_run \<Rightarrow> string \<Rightarrow> store \<Rightarrow> store \<times> bool" where
  "handleDriverOffline h run i s = (markDriverOffline h run i s, True)"

definition rt_handleStatus :: "driver_env \<Rightarrow> string \<Rightarrow> driver_status \<Rightarrow> driver_db \<Rightarrow> driver_db \<times> bool" where
  "rt_handleStatus E i st s = (case Drivers.updateDriverStatus E i st s of (s', r) \<Rightarrow> (s', \<not> isl r))"

text \<open>The active delivery: the last assigned of the driver's open ones; a row without an
  assignment time comes first in a descending order.\<close>

definition open_delivery :: "string \<Rightarrow> delivery \<Rightarrow> bool" where
  "open_delivery i d \<longleftrightarrow> dl_driverId d = Some i \<and> dl_status d \<in> {ASSIGNED, PICKED_UP, IN_TRANSIT}"

definition findActiveForDriver :: "string \<Rightarrow> delivery list \<Rightarrow> delivery option" where
  "findActiveForDriver i ds = (let ms = filter (open_delivery i) ds
    in case filter (\<lambda>d. dl_assignedAt d = None) ms @ sort_key (\<lambda>d. - the (dl_assignedAt d)) (filter (\<lambda>d. dl_assignedAt d \<noteq> None) ms) of
         [] \<Rightarrow> None | d # _ \<Rightarrow> Some d)"

definition getDriverOffers :: "string \<Rightarrow> driver_offer list \<Rightarrow> driver_offer list" where
  "getDriverOffers i fs = sort_key (\<lambda>f. - of_createdAt f) (filter (\<lambda>f. of_driverId f = i) fs)"

record driver_state =
  ds_delivery :: "delivery option"
  ds_offers :: "driver_offer list"
  ds_hasActiveDelivery :: bool
  ds_hasOffers :: bool

definition driver_getState :: "string \<Rightarrow> delivery list \<Rightarrow> driver_offer list \<Rightarrow> driver_state" where
  "driver_getState i ds fs = (let d = findActiveForDriver i ds; ps = filter (\<lambda>f. of_status f = Of_PENDING) (getDriverOffers i fs)
    in \<lparr> ds_delivery = d, ds_offers = ps, ds_hasActiveDelivery = (d \<noteq> None), ds_hasOffers = (length ps > 0) \<rparr>)"

text \<open>\<^verbatim>\<open>up\<close> is whether the plain client answers; it is used without the guard.\<close>

definition rt_handleHeartbeat ::
    "bool \<Rightarrow> int \<Rightarrow> string \<Rightarrow> delivery list \<Rightarrow> driver_offer list \<Rightarrow> store \<Rightarrow> store \<times> bool \<times> driver_state option" where
  "rt_handleHeartbeat up now i ds fs s =
    (if \<not> up then (s, False, None) else (set_ex now (online_key i) ''1'' 60 s, True, Some (driver_getState i ds fs)))"

section \<open>Push notifications\<close>

text \<open>\<^verbatim>\<open>init\<close>: whether another application is initialised already, and whether the credential is accepted.\<close>

definition push_isEnabled :: "bool \<Rightarrow> bool \<Rightarrow> bool" where
  "push_isEnabled has_app accepted = (\<not> has_app \<and> accepted)"

definition push_key :: "string \<Rightarrow> string" where
  "push_key i = ''push:'' @ i"

datatype send_error = Not_Registered | Other_Error

text \<open>The service sends to the token it reads; a token that is no longer registered is removed.\<close>

definition sendToDriver ::
    "bool \<Rightarrow> (string \<Rightarrow> send_error + unit) \<Rightarrow> int \<Rightarrow> string \<Rightarrow> store \<Rightarrow> store \<times> bool" where
  "sendToDriver enabled send now i s = (let token = live_key now s (push_key i)
    in if \<not> truthy token then (s, False)
       else if \<not> enabled then (s, False)
       else (case send (the token) of
           Inr _ \<Rightarrow> (s, True)
         | Inl Not_Registered \<Rightarrow> (del_key (push_key i) s, False)
         | Inl Other_Error \<Rightarrow> (s, False)))"

definition notifyOffer ::
    "bool \<Rightarrow> (string \<Rightarrow> send_error + unit) \<Rightarrow> int \<Rightarrow> string \<Rightarrow> bool \<Rightarrow> store \<Rightarrow> store \<times> bool" where
  "notifyOffer enabled send now i wsConnected s =
    (if wsConnected then (s, False) else if \<not> enabled then (s, False) else sendToDriver enabled send now i s)"

section \<open>Guarded execution gives up after three attempts\<close>

lemma attempts_fail:
  assumes "\<And>k s. isl (snd (fire k s))"
  shows "snd (attempts n k fire s) = None"
proof (induction n arbitrary: k s)
  case (Suc n)
  obtain s' e where "fire k s = (s', Inl e)" using assms[of k s] by (metis isl_def prod.collapse)
  then show ?case using Suc by simp
qed simp

lemma safeExecute_unhealthy [simp]: "safeExecute False fire s = (s, None)"
  by (simp add: safeExecute_def)

text \<open>An attempt that answers ends the execution with its answer and its state.\<close>

lemma safeExecute_first: "fire 0 s = (s', Inr x) \<Longrightarrow> safeExecute True fire s = (s', Some x)"
  by (simp add: safeExecute_def maxRetries_def numeral_2_eq_2)

text \<open>A store that answers at once.\<close>

definition answering :: pipeline_run where
  "answering p k s = (p s, Inr ())"

lemma exec_answering [simp]: "exec_pipeline True answering p s = p s"
  by (simp add: exec_pipeline_def safeExecute_first[of "answering p" s "p s" "()"] answering_def)

section \<open>Who is found\<close>

lemma drop_first_member [simp]: "drop_first ''driver:'' (geo_member i) = i"
  by (simp add: geo_member_def starts_with_def)

lemma available_of_answers:
  "available_of (map (\<lambda>(i, x). (geo_member i, x)) rs) (map (\<lambda>(i, x). answers_for now s (geo_member i)) rs)
    = filter (\<lambda>(i, x). so_status s i = Some ''AVAILABLE'' \<and> live_key now s (online_key i) \<noteq> None) rs"
proof (induction rs)
  case (Cons r rs)
  have a: "answers_for now s (geo_member i) = (Inr (so_status s i), Inr (if live_key now s (online_key i) = None then 0 else 1))" for i
    by (simp only: answers_for_def Let_def drop_first_member)
  show ?case using Cons by (cases r) (simp add: a drop_first_member del: drop_first.simps)
qed simp

lemma online_key_inj [simp]: "online_key i = online_key j \<longleftrightarrow> i = j"
  by (simp add: online_key_def)

lemma live_set_ex: "live_key now' (set_ex now k v n s) k' = (if k' = k then (if now' < now + 1000 * n then Some v else None) else live_key now' s k')"
  by (simp add: live_key_def set_ex_def)

lemma live_del_key: "live_key now (del_key k s) k' = (if k' = k then None else live_key now s k')"
  by (simp add: live_key_def del_key_def)

lemma live_other_fields [simp]:
  "live_key now (s\<lparr> so_geo := g, so_status := st \<rparr>) k = live_key now s k"
  by (simp add: live_key_def)

lemma key_ops_keep [simp]:
  "so_status (set_ex now k v n s) = so_status s" "so_geo (set_ex now k v n s) = so_geo s"
  "so_status (del_key k s) = so_status s" "so_geo (del_key k s) = so_geo s"
  by (simp_all add: set_ex_def del_key_def)

definition findable :: "int \<Rightarrow> store \<Rightarrow> string \<Rightarrow> bool" where
  "findable now s i \<longleftrightarrow> so_status s i = Some ''AVAILABLE'' \<and> live_key now s (online_key i) \<noteq> None"

lemma findable_cases:
  "findable now' (go_online now i la lo st n s) j \<longleftrightarrow>
     (if j = i then st = ''AVAILABLE'' \<and> now' < now + 1000 * n else findable now' s j)"
  "findable now' (go_away i st s) j \<longleftrightarrow> j \<noteq> i \<and> findable now' s j"
  by (auto simp: findable_def go_online_def go_away_def live_set_ex live_del_key)

lemma answers_map:
  "map (\<lambda>(m, x). answers_for now s m) (map (\<lambda>(i, x). (geo_member i, x)) rs)
    = map (\<lambda>(i, x). answers_for now s (geo_member i)) rs"
  by (induction rs) auto

lemma search_answers:
  assumes "geosearch (safe_radius radiusKm) limit = Some (map (\<lambda>(i, x). (geo_member i, x)) rs)"
    "\<And>ms. pipeline ms = Some (map (\<lambda>(m, x). answers_for now s m) ms)"
  shows "findAvailableDrivers geosearch pipeline radiusKm limit = Inr (filter (\<lambda>(i, x). findable now s i) rs)"
proof (cases "rs = []")
  case False
  have "findAvailableDrivers geosearch pipeline radiusKm limit
      = Inr (available_of (map (\<lambda>(i, x). (geo_member i, x)) rs)
          (map (\<lambda>(m, x). answers_for now s m) (map (\<lambda>(i, x). (geo_member i, x)) rs)))"
    using False unfolding findAvailableDrivers_def assms by simp
  then show ?thesis unfolding answers_map available_of_answers findable_def .
qed (use assms in \<open>simp add: findAvailableDrivers_def\<close>)

datatype presence_op =
    Located string rat rat
  | Went_Busy string
  | Went_Offline string
  | Present string rat rat string
  | Beat string

text \<open>What becomes of an attempt: it is lost before the store has executed it, its answer is
  lost, or it is answered.\<close>

datatype attempt = Lost | Unanswered | Answered

definition run_with :: "(nat \<Rightarrow> attempt) \<Rightarrow> pipeline_run" where
  "run_with f p k s = (case f k of
      Lost \<Rightarrow> (s, Inl ''lost'')
    | Unanswered \<Rightarrow> (p s, Inl ''no answer'')
    | Answered \<Rightarrow> (p s, Inr ()))"

text \<open>An operation with its time, whether the guard takes the store for healthy, and what becomes of its
  attempts.\<close>

type_synonym timed_op = "int \<times> presence_op \<times> bool \<times> (nat \<Rightarrow> attempt)"

fun presence_step :: "timed_op \<Rightarrow> store \<Rightarrow> store" where
  "presence_step (t, Located i la lo, h, f) s = fst (rt_handleLocation h (run_with f) t i la lo s)"
| "presence_step (t, Went_Busy i, h, f) s = fst (handleDriverBusy h (run_with f) i s)"
| "presence_step (t, Went_Offline i, h, f) s = fst (handleDriverOffline h (run_with f) i s)"
| "presence_step (t, Present i la lo st, h, f) s = fst (handlePresence h (run_with f) t i la lo st s)"
| "presence_step (t, Beat i, h, f) s = fst (rt_handleHeartbeat (f 0 \<noteq> Lost) t i [] [] s)"

text \<open>The operations that reach the store: a heartbeat goes past the guard and is not retried.\<close>

fun reaches_store :: "timed_op \<Rightarrow> bool" where
  "reaches_store (t, Beat i, h, f) = (f 0 \<noteq> Lost)"
| "reaches_store (t, x, h, f) = (h \<and> (f 0 \<noteq> Lost \<or> f 1 \<noteq> Lost \<or> f 2 \<noteq> Lost))"

lemma exec_run_with:
  assumes "\<And>s. p (p s) = p s"
  shows "exec_pipeline h (run_with f) p s = (if h \<and> (f 0 \<noteq> Lost \<or> f 1 \<noteq> Lost \<or> f 2 \<noteq> Lost) then p s else s)"
  by (cases "f 0"; cases "f (Suc 0)"; cases "f 2")
    (simp_all add: exec_pipeline_def safeExecute_def maxRetries_def run_with_def numeral_2_eq_2 assms)

lemma pipelines_idempotent:
  "go_online now i lat lon st ttl (go_online now i lat lon st ttl s) = go_online now i lat lon st ttl s"
  "go_away i st (go_away i st s) = go_away i st s"
  by (simp_all add: go_online_def go_away_def set_ex_def del_key_def)

definition go_present :: "int \<Rightarrow> string \<Rightarrow> rat \<Rightarrow> rat \<Rightarrow> string \<Rightarrow> int \<Rightarrow> store \<Rightarrow> store" where
  "go_present now i lat lon status ttl =
    (if status = ''AVAILABLE'' \<or> status = ''BUSY'' then go_online now i lat lon status ttl else go_away i ''OFFLINE'')"

lemma go_present_idempotent: "go_present now i lat lon st ttl (go_present now i lat lon st ttl s) = go_present now i lat lon st ttl s"
  by (simp add: go_present_def pipelines_idempotent)

text \<open>What a step does to the store when it reaches it.\<close>

fun op_effect :: "int \<Rightarrow> presence_op \<Rightarrow> store \<Rightarrow> store" where
  "op_effect t (Located i la lo) = go_online t i la lo ''AVAILABLE'' 60"
| "op_effect t (Went_Busy i) = go_away i ''BUSY''"
| "op_effect t (Went_Offline i) = go_away i ''OFFLINE''"
| "op_effect t (Present i la lo st) = go_present t i la lo st 45"
| "op_effect t (Beat i) = set_ex t (online_key i) ''1'' 60"

lemma presence_step_effect:
  "presence_step (t, x, h, f) s = (if reaches_store (t, x, h, f) then op_effect t x s else s)"
  by (cases x) (auto simp add: rt_handleLocation_def handleDriverBusy_def handleDriverOffline_def handlePresence_def
      updateDriverLocation_def markDriverBusy_def markDriverOffline_def updateDriverPresence_def rt_handleHeartbeat_def
      exec_run_with pipelines_idempotent go_present_idempotent simp flip: go_present_def)

text \<open>The specification: a driver's status and the time its presence ends, from its last operations.\<close>

fun presence_spec :: "string \<Rightarrow> int \<times> presence_op \<Rightarrow> string option \<times> int option \<Rightarrow> string option \<times> int option" where
  "presence_spec i (t, Located j la lo) p = (if j = i then (Some ''AVAILABLE'', Some (t + 60000)) else p)"
| "presence_spec i (t, Went_Busy j) p = (if j = i then (Some ''BUSY'', None) else p)"
| "presence_spec i (t, Went_Offline j) p = (if j = i then (Some ''OFFLINE'', None) else p)"
| "presence_spec i (t, Present j la lo st) p = (if j = i
     then (if st = ''AVAILABLE'' \<or> st = ''BUSY'' then (Some st, Some (t + 45000)) else (Some ''OFFLINE'', None)) else p)"
| "presence_spec i (t, Beat j) p = (if j = i then (fst p, Some (t + 60000)) else p)"

definition view_of :: "store \<Rightarrow> string \<Rightarrow> string option \<times> int option" where
  "view_of s i = (so_status s i, case so_keys s (online_key i) of None \<Rightarrow> None | Some (v, e) \<Rightarrow> e)"

lemma view_effect: "view_of (op_effect t x s) i = presence_spec i (t, x) (view_of s i)"
  by (cases x) (auto simp: view_of_def go_present_def go_online_def go_away_def set_ex_def del_key_def)

definition stored_ops :: "timed_op list \<Rightarrow> (int \<times> presence_op) list" where
  "stored_ops ops = map (\<lambda>(t, x, h, f). (t, x)) (filter reaches_store ops)"

lemma view_steps: "view_of (for_each presence_step ops s) i = for_each (presence_spec i) (stored_ops ops) (view_of s i)"
proof (induction ops arbitrary: s)
  case (Cons op ops)
  obtain t x h f where op: "op = (t, x, h, f)" by (cases op)
  have "view_of (for_each presence_step (op # ops) s) i
      = for_each (presence_spec i) (stored_ops ops) (view_of (if reaches_store op then op_effect t x s else s) i)"
    using Cons[of "presence_step op s"] by (simp add: op presence_step_effect)
  then show ?case by (simp add: stored_ops_def view_effect op)
qed (simp add: stored_ops_def)

definition keys_expire :: "store \<Rightarrow> bool" where
  "keys_expire s \<longleftrightarrow> (\<forall>i v. so_keys s (online_key i) \<noteq> Some (v, None))"

lemma step_keys_expire: "keys_expire s \<Longrightarrow> keys_expire (presence_step op s)"
proof -
  assume k: "keys_expire s"
  obtain t x h f where op: "op = (t, x, h, f)" by (cases op)
  have "keys_expire (op_effect t x s)" using k
    by (cases x) (auto simp: keys_expire_def go_present_def go_online_def go_away_def set_ex_def del_key_def)
  then show ?thesis using k unfolding op presence_step_effect by simp
qed

lemma findable_view:
  "keys_expire s \<Longrightarrow> findable now s i \<longleftrightarrow> (\<exists>e. view_of s i = (Some ''AVAILABLE'', Some e) \<and> now < e)"
  by (auto simp: findable_def view_of_def live_key_def keys_expire_def split: option.splits)

text \<open>C37: After any sequence of positions, presences, heartbeats and busy and offline messages, of which
  some may be skipped while the store is taken for unhealthy, fail at all their attempts, or be executed
  although their answer is lost, a search that the store answers returns exactly those of the
  positions it reads whose driver last became available and has been seen within its time (a minute after a
  position or a heartbeat, which keeps the status, forty-five seconds after a presence), as the
  operations of that driver alone say that reached the store, in the order of the search.\<close>

theorem search_refines_presence:
  assumes "geosearch (safe_radius radiusKm) limit = Some (map (\<lambda>(i, x). (geo_member i, x)) rs)"
    "\<And>ms. pipeline ms = Some (map (\<lambda>(m, x). answers_for now (for_each presence_step ops empty_store) m) ms)"
  shows "findAvailableDrivers geosearch pipeline radiusKm limit
    = Inr (filter (\<lambda>(i, x). \<exists>e. for_each (presence_spec i) (stored_ops ops) (None, None) = (Some ''AVAILABLE'', Some e)
        \<and> now < e) rs)"
proof -
  let ?s = "for_each presence_step ops empty_store"
  have k: "keys_expire ?s"
    by (rule for_each_invariant) (simp_all add: step_keys_expire, simp add: keys_expire_def empty_store_def)
  have v: "view_of ?s i = for_each (presence_spec i) (stored_ops ops) (None, None)" for i
    by (simp add: view_steps) (simp add: view_of_def empty_store_def)
  show ?thesis
    unfolding search_answers[of geosearch radiusKm limit rs pipeline now ?s, OF assms] by (simp add: findable_view[OF k] v)
qed

text \<open>The second driver's message that it is busy is lost; the third driver's needs a second attempt.\<close>

definition sample_ops :: "timed_op list" where
  "sample_ops = [(0, Located ''a'' 1 1, True, \<lambda>_. Answered), (5, Located ''b'' 1 1, True, \<lambda>_. Unanswered),
     (6, Located ''c'' 1 1, True, \<lambda>_. Answered), (9, Went_Busy ''b'', False, \<lambda>_. Answered),
     (9, Went_Busy ''c'', True, \<lambda>k. if k = 0 then Lost else Answered)]"

theorem search_refines_presence_witness:
  "findAvailableDrivers (\<lambda>r n. Some (map (\<lambda>(i, x). (geo_member i, x)) [(''a'', 1), (''b'', 2), (''c'', 3)]))
     (\<lambda>ms. Some (map (\<lambda>(m, x). answers_for 50000 (for_each presence_step sample_ops empty_store) m) ms)) 5 50
   = Inr [(''a'', 1), (''b'', 2)]"
  by (subst search_refines_presence[of _ _ _ "[(''a'', 1), (''b'', 2), (''c'', 3)]" _ 50000 sample_ops])
    (simp_all add: stored_ops_def sample_ops_def)

text \<open>Positions are never removed when a presence runs out: a search whose nearest positions are
  all stale returns nobody, whoever is available further away.\<close>

lemma stale_positions_fill_the_search:
  assumes "geosearch (safe_radius radiusKm) limit = Some (map (\<lambda>(i, x). (geo_member i, x)) rs)"
    "\<And>ms. pipeline ms = Some (map (\<lambda>(m, x). answers_for now s m) ms)" "\<And>i x. (i, x) \<in> set rs \<Longrightarrow> \<not> findable now s i"
  shows "findAvailableDrivers geosearch pipeline radiusKm limit = Inr []"
proof -
  have "filter (\<lambda>(i, x). findable now s i) rs = []"
    using assms(3) by (auto simp: filter_empty_conv)
  then show ?thesis unfolding search_answers[of geosearch radiusKm limit rs pipeline now s, OF assms(1,2)] by simp
qed

text \<open>A position of a busy driver makes the store call it available.\<close>

lemma location_makes_available:
  "so_status (fst (rt_handleLocation True answering now i la lo (go_away i ''BUSY'' s))) i = Some ''AVAILABLE''"
  by (simp add: rt_handleLocation_def updateDriverLocation_def go_online_def set_ex_def)

text \<open>The answer says that the position was stored also when the store is not used at all.\<close>

lemma location_is_acknowledged_without_store: "rt_handleLocation False run now i la lo s = (s, True)"
  by (simp add: rt_handleLocation_def updateDriverLocation_def exec_pipeline_def)

lemma first_in_set: "(case xs of [] \<Rightarrow> None | d # _ \<Rightarrow> Some d) = Some x \<Longrightarrow> x \<in> set xs"
  by (cases xs) auto

text \<open>The state shown to a driver lists only its own pending offers and its own open delivery.\<close>

lemma state_is_own:
  "f \<in> set (ds_offers (driver_getState i ds fs)) \<Longrightarrow> of_driverId f = i \<and> of_status f = Of_PENDING"
  "ds_delivery (driver_getState i ds fs) = Some d \<Longrightarrow> d \<in> set ds \<and> open_delivery i d"
proof -
  show "f \<in> set (ds_offers (driver_getState i ds fs)) \<Longrightarrow> of_driverId f = i \<and> of_status f = Of_PENDING"
    by (simp add: driver_getState_def getDriverOffers_def Let_def)
  assume "ds_delivery (driver_getState i ds fs) = Some d"
  then have "d \<in> set (filter (\<lambda>d. dl_assignedAt d = None) (filter (open_delivery i) ds)
      @ sort_key (\<lambda>d. - the (dl_assignedAt d)) (filter (\<lambda>d. dl_assignedAt d \<noteq> None) (filter (open_delivery i) ds)))"
    unfolding driver_getState_def findActiveForDriver_def Let_def driver_state.simps by (rule first_in_set)
  then show "d \<in> set ds \<and> open_delivery i d" by auto
qed

lemma unregistered_token_is_removed:
  "send tok = Inl Not_Registered \<Longrightarrow> live_key now s (push_key i) = Some tok \<Longrightarrow> tok \<noteq> [] \<Longrightarrow>
   live_key now (fst (sendToDriver True send now i s)) (push_key i) = None"
  by (simp add: sendToDriver_def live_del_key)

end
