(* ===== verification/Websocket.thy ===== *)
theory Websocket
  imports Presence
begin

text \<open>
  The WebSocket gateway of the drivers (\<^verbatim>\<open>websocket/websocket.gateway.ts\<close>) with its guard
  (\<^verbatim>\<open>websocket/websocket.guard.ts\<close>), the rooms of \<^verbatim>\<open>websocket/websocket.service.ts\<close> and the
  handler of proofs (\<^verbatim>\<open>websocket/events/proof.handler.ts\<close>): connections with their rate limit
  and their sessions, disconnections, the job that looks for expired presence, and the
  messages. The verification of tokens is an argument; metrics are not modelled.
\<close>

section \<open>State\<close>

text \<open>For each driver the times of its recent connections and the ids of its sockets; for each
  socket the driver in its data; the sockets that are open.\<close>

record ws_state =
  ws_attempts :: "string \<Rightarrow> int list"
  ws_sessions :: "string \<Rightarrow> string list"
  ws_data :: "string \<Rightarrow> string option"
  ws_open :: "string set"
  ws_store :: store
  ws_drivers :: driver_db

text \<open>\<^verbatim>\<open>wn_jwt\<close> gives the \<^verbatim>\<open>driverId\<close> and the \<^verbatim>\<open>sub\<close> of a token it accepts; \<^verbatim>\<open>wn_registry\<close> is whether
  \<^verbatim>\<open>server.sockets.sockets\<close> is a map, which depends on the class of the server; \<^verbatim>\<open>wn_ttl\<close> is the
  answer of TTL for the milliseconds that remain.\<close>

record ws_env =
  wn_jwt :: "string \<Rightarrow> (string option \<times> string option) option"
  wn_registry :: bool
  wn_ttl :: "int \<Rightarrow> int"
  wn_driver :: driver_env

definition ws_register :: "string \<Rightarrow> string list \<Rightarrow> string list" where
  "ws_register event events = set_add event events"

definition MAX_CONNECTIONS_PER_MINUTE :: nat where
  "MAX_CONNECTIONS_PER_MINUTE = 30"

section \<open>Connections\<close>

definition handshake_token :: "string option \<Rightarrow> string option \<Rightarrow> string option" where
  "handshake_token auth authorization = or_else auth (map_option (drop_first ''Bearer '') authorization)"

datatype connect_outcome =
  No_Token | Bad_Token | No_Driver_Id | Rate_Limited string | Session_Lookup_Failed string | Connected string

definition recent_attempts :: "int \<Rightarrow> int list \<Rightarrow> int list" where
  "recent_attempts now ts = filter (\<lambda>t. now - t < 60000) ts"

text \<open>The older sockets of the driver that are still open are closed; they leave the set of
  sessions when their own disconnection is handled.\<close>

definition accept_session :: "string \<Rightarrow> string \<Rightarrow> ws_state \<Rightarrow> ws_state" where
  "accept_session i c s = s\<lparr> ws_open := insert c (ws_open s - {k \<in> set (ws_sessions s i). k \<noteq> c}),
     ws_sessions := (ws_sessions s)(i := set_add c (ws_sessions s i)), ws_data := (ws_data s)(c := Some i) \<rparr>"

definition handleConnection ::
    "ws_env \<Rightarrow> int \<Rightarrow> string \<Rightarrow> string option \<Rightarrow> string option \<Rightarrow> ws_state \<Rightarrow> ws_state \<times> connect_outcome" where
  "handleConnection E now c auth authorization s = (let token = handshake_token auth authorization in
    if \<not> truthy token then (s, No_Token)
    else (case wn_jwt E (the token) of
        None \<Rightarrow> (s, Bad_Token)
      | Some (d, sub) \<Rightarrow> (let driverId = or_else d sub in
          if \<not> truthy driverId then (s, No_Driver_Id)
          else (let i = the driverId; recent = recent_attempts now (ws_attempts s i) in
            if length recent \<ge> MAX_CONNECTIONS_PER_MINUTE then (s, Rate_Limited i)
            else (let s1 = s\<lparr> ws_attempts := (ws_attempts s)(i := recent @ [now]) \<rparr> in
              if ws_sessions s i \<noteq> [] \<and> \<not> wn_registry E then (s1, Session_Lookup_Failed i)
              else (accept_session i c s1, Connected i))))))"

section \<open>Disconnections and presence\<close>

definition presence_key :: "string \<Rightarrow> string" where
  "presence_key i = ''driver:presence:ttl:'' @ i"

definition forget_session :: "string \<Rightarrow> string \<Rightarrow> ws_state \<Rightarrow> ws_state" where
  "forget_session i c s = s\<lparr> ws_sessions := (ws_sessions s)(i := filter (\<lambda>k. k \<noteq> c) (ws_sessions s i)) \<rparr>"

definition handleDisconnect :: "ws_env \<Rightarrow> bool \<Rightarrow> int \<Rightarrow> string \<Rightarrow> ws_state \<Rightarrow> ws_state" where
  "handleDisconnect E redis_up now c s0 = (let s = s0\<lparr> ws_open := ws_open s0 - {c} \<rparr> in
    case ws_data s c of
      None \<Rightarrow> s
    | Some i \<Rightarrow> if i = [] then s
        else (let s1 = forget_session i c s in
          if redis_up then s1\<lparr> ws_store := set_ex now (presence_key i) ''1'' 30 (ws_store s1) \<rparr>
          else s1\<lparr> ws_drivers := fst (Drivers.updateDriverStatus (wn_driver E) i OFFLINE (ws_drivers s1)) \<rparr>))"

text \<open>SCAN gives the keys that exist; the loop ends at the first driver whose update raises.\<close>

definition scanned :: "int \<Rightarrow> store \<Rightarrow> string list \<Rightarrow> string list" where
  "scanned now st ids = filter (\<lambda>i. live_key now st (presence_key i) \<noteq> None) ids"

definition remaining_ms :: "int \<Rightarrow> store \<Rightarrow> string \<Rightarrow> int" where
  "remaining_ms now st k = (case so_keys st k of Some (v, Some t) \<Rightarrow> t - now | _ \<Rightarrow> 0)"

definition connected_drivers :: "ws_env \<Rightarrow> ws_state \<Rightarrow> string set" where
  "connected_drivers E s = (if \<not> wn_registry E then {} else {i. i \<noteq> [] \<and> (\<exists>c \<in> ws_open s. ws_data s c = Some i)})"

fun process_keys :: "ws_env \<Rightarrow> int \<Rightarrow> string set \<Rightarrow> string list \<Rightarrow> ws_state \<Rightarrow> ws_state" where
  "process_keys E now online [] s = s"
| "process_keys E now online (i # is) s =
    (if i \<in> online then process_keys E now online is (s\<lparr> ws_store := del_key (presence_key i) (ws_store s) \<rparr>)
     else if wn_ttl E (remaining_ms now (ws_store s) (presence_key i)) \<le> 0
     then (case Drivers.updateDriverStatus (wn_driver E) i OFFLINE (ws_drivers s) of
         (db, Inl e) \<Rightarrow> s\<lparr> ws_drivers := db \<rparr>
       | (db, Inr _) \<Rightarrow> process_keys E now online is
           (s\<lparr> ws_drivers := db, ws_store := del_key (presence_key i) (ws_store s) \<rparr>))
     else process_keys E now online is s)"

definition processExpiredPresence :: "ws_env \<Rightarrow> int \<Rightarrow> string list \<Rightarrow> ws_state \<Rightarrow> ws_state" where
  "processExpiredPresence E now ids s =
     process_keys E now (connected_drivers E s) (scanned now (ws_store s) ids) s"

section \<open>Messages\<close>

text \<open>The guard of every message verifies the token again, takes the driver from it and writes it
  into the data of the socket; its token may also come from the query string.\<close>

definition ws_canActivate ::
    "ws_env \<Rightarrow> string \<Rightarrow> string option \<Rightarrow> string option \<Rightarrow> ws_state \<Rightarrow> ws_state \<times> bool" where
  "ws_canActivate E c auth query s = (let token = or_else auth query in
    if \<not> truthy token then (s, False)
    else (case wn_jwt E (the token) of
        None \<Rightarrow> (s, False)
      | Some (d, sub) \<Rightarrow> (s\<lparr> ws_data := (ws_data s)(c := d) \<rparr>, True)))"

definition room :: "string \<Rightarrow> string" where
  "room i = ''driver:'' @ i"

definition isDriverConnected :: "(string \<Rightarrow> string set option) \<Rightarrow> string \<Rightarrow> bool" where
  "isDriverConnected rooms i = (case rooms (room i) of None \<Rightarrow> False | Some ks \<Rightarrow> ks \<noteq> {})"

record proof_event =
  pv_deliveryId :: string
  pv_proofType :: string
  pv_imageUrl :: "string option"

datatype proof_answer = Proof_Error string | Proof_Accepted string string

definition handleProofUploaded ::
    "env \<Rightarrow> proof_event \<Rightarrow> ('x db_scheme, delivery_error, proof_answer) action" where
  "handleProofUploaded E p s = (let st = (if pv_proofType p = ''PICKUP'' then ''PICKED_UP'' else ''DELIVERED'') in
    case find_delivery (pv_deliveryId p) (db_deliveries s) of
      None \<Rightarrow> (s, Inr (Proof_Error (pv_deliveryId p)))
    | Some d \<Rightarrow> (let
          terminal = {DELIVERED, CANCELLED, FAILED};
          alreadyPickedUp = (st = ''PICKED_UP'' \<and> dl_status d \<in> {PICKED_UP, IN_TRANSIT} \<union> terminal);
          alreadyDelivered = (st = ''DELIVERED'' \<and> dl_status d \<in> terminal);
          accepted = Proof_Accepted (pv_deliveryId p) (pv_proofType p)
        in if \<not> alreadyPickedUp \<and> \<not> alreadyDelivered
           then (case updateStatusInternal E (pv_deliveryId p) \<lparr> ud_status = st, ud_proofUrl = pv_imageUrl p,
                     ud_failureCode = None, ud_failureReason = None \<rparr> s of
               (s', Inl e) \<Rightarrow> (s', Inl e)
             | (s', Inr _) \<Rightarrow> (s', Inr accepted))
           else (s, Inr accepted)))"

record ack_envelope =
  ev_messageId :: string
  ev_timestamp :: int
  ev_requiresAck :: bool
  ev_data :: json

definition sendWithAck :: "string \<Rightarrow> int \<Rightarrow> json \<Rightarrow> bool option \<Rightarrow> string option \<Rightarrow> ack_envelope" where
  "sendWithAck generated now payload requiresAck messageId = \<lparr> ev_messageId = or_default messageId generated,
     ev_timestamp = now, ev_requiresAck = (requiresAck = Some True), ev_data = payload \<rparr>"

section \<open>Runs\<close>

datatype ws_event =
    Connect int string "string option" "string option"
  | Disconnect bool int string

fun ws_time :: "ws_event \<Rightarrow> int" where
  "ws_time (Connect t c a h) = t"
| "ws_time (Disconnect up t c) = t"

fun ws_step :: "ws_env \<Rightarrow> ws_event \<Rightarrow> ws_state \<Rightarrow> ws_state" where
  "ws_step E (Connect t c a h) s = fst (handleConnection E t c a h s)"
| "ws_step E (Disconnect up t c) s = handleDisconnect E up t c s"

text \<open>The times at which connections of a driver got past the rate limit.\<close>

fun passed :: "ws_env \<Rightarrow> string \<Rightarrow> ws_event list \<Rightarrow> ws_state \<Rightarrow> int list" where
  "passed E i [] s = []"
| "passed E i (e # es) s = (case e of
      Connect t c a h \<Rightarrow> (if snd (handleConnection E t c a h s) \<in> {Connected i, Session_Lookup_Failed i} then [t] else [])
    | Disconnect up t c \<Rightarrow> []) @ passed E i es (ws_step E e s)"

definition start_ws :: "driver_db \<Rightarrow> ws_state" where
  "start_ws db = \<lparr> ws_attempts = (\<lambda>_. []), ws_sessions = (\<lambda>_. []), ws_data = (\<lambda>_. None), ws_open = {},
     ws_store = empty_store, ws_drivers = db \<rparr>"

section \<open>The rate limit\<close>

text \<open>What is remembered of the passed times: those less than a minute before the last of them.\<close>

definition remembers :: "int list \<Rightarrow> int list \<Rightarrow> bool" where
  "remembers as ps \<longleftrightarrow> (ps = [] \<longrightarrow> as = []) \<and> (ps \<noteq> [] \<longrightarrow> as = recent_attempts (last ps) ps)"

definition window :: "int \<Rightarrow> int list \<Rightarrow> int list" where
  "window t ps = filter (\<lambda>x. t - 60000 < x \<and> x \<le> t) ps"

definition limited :: "int list \<Rightarrow> bool" where
  "limited ps \<longleftrightarrow> (\<forall>t. length (window t ps) \<le> MAX_CONNECTIONS_PER_MINUTE)"

lemma recent_of_remembered:
  assumes "remembers as ps" "\<And>x. x \<in> set ps \<Longrightarrow> x \<le> now"
  shows "recent_attempts now as = recent_attempts now ps"
proof (cases "ps = []")
  case False
  then have "last ps \<le> now" using assms(2) by simp
  then show ?thesis
    using assms(1) False by (auto simp: remembers_def recent_attempts_def intro: filter_cong)
qed (use assms in \<open>simp add: remembers_def\<close>)

lemma pass_once:
  assumes "remembers as ps" "limited ps" "\<And>x. x \<in> set ps \<Longrightarrow> x \<le> now"
    "length (recent_attempts now as) < MAX_CONNECTIONS_PER_MINUTE"
  shows "remembers (recent_attempts now as @ [now]) (ps @ [now]) \<and> limited (ps @ [now])"
proof -
  have r: "recent_attempts now as = recent_attempts now ps"
    using assms(1,3) by (rule recent_of_remembered)
  have "length (window t (ps @ [now])) \<le> MAX_CONNECTIONS_PER_MINUTE" for t
  proof (cases "now \<le> t")
    case True
    have "length (window t ps) \<le> length (recent_attempts now ps)"
    proof -
      have "window t ps = filter (\<lambda>x. t - 60000 < x \<and> x \<le> t) (recent_attempts now ps)"
        using True by (auto simp: window_def recent_attempts_def intro: filter_cong)
      then show ?thesis by simp
    qed
    then show ?thesis using assms(4) r by (simp add: window_def)
  next
    case False
    then show ?thesis using assms(2) by (simp add: window_def limited_def)
  qed
  moreover have "remembers (recent_attempts now as @ [now]) (ps @ [now])"
    by (simp only: r remembers_def last_snoc) (simp add: recent_attempts_def)
  ultimately show ?thesis by (simp add: limited_def)
qed

lemma connection_attempts:
  assumes "handleConnection E t c a h s = (s', out)"
  shows "ws_attempts s' i = (if out \<in> {Connected i, Session_Lookup_Failed i}
      then recent_attempts t (ws_attempts s i) @ [t] else ws_attempts s i)
    \<and> (out \<in> {Connected i, Session_Lookup_Failed i} \<longrightarrow> length (recent_attempts t (ws_attempts s i)) < MAX_CONNECTIONS_PER_MINUTE)"
  using assms
  by (auto simp: handleConnection_def accept_session_def Let_def split: if_splits option.splits prod.splits)

lemma disconnect_attempts [simp]: "ws_attempts (handleDisconnect E up t c s) = ws_attempts s"
  by (simp add: handleDisconnect_def forget_session_def Let_def split: option.splits)

lemma passed_limited:
  assumes "sorted (map ws_time es)" "remembers (ws_attempts s i) ps" "limited ps"
    "\<And>x e. x \<in> set ps \<Longrightarrow> e \<in> set es \<Longrightarrow> x \<le> ws_time e"
  shows "limited (ps @ passed E i es s)"
  using assms
proof (induction es arbitrary: s ps)
  case (Cons e es)
  have srt: "sorted (map ws_time es)" and le: "\<And>e'. e' \<in> set es \<Longrightarrow> ws_time e \<le> ws_time e'"
    using Cons.prems(1) by auto
  show ?case
  proof (cases e)
    case (Connect t c a h)
    obtain s' out where h: "handleConnection E t c a h s = (s', out)" by fastforce
    note at = connection_attempts[OF h, of i]
    show ?thesis
    proof (cases "out \<in> {Connected i, Session_Lookup_Failed i}")
      case True
      have b: "\<And>x. x \<in> set ps \<Longrightarrow> x \<le> t" using Cons.prems(4)[of _ e] Connect by simp
      have len: "length (recent_attempts t (ws_attempts s i)) < MAX_CONNECTIONS_PER_MINUTE"
        and eq: "ws_attempts s' i = recent_attempts t (ws_attempts s i) @ [t]"
        using at True by (blast, simp)
      note p = pass_once[OF Cons.prems(2,3) b len]
      have bound: "\<And>x e'. x \<in> set (ps @ [t]) \<Longrightarrow> e' \<in> set es \<Longrightarrow> x \<le> ws_time e'"
        using le Connect Cons.prems(4) by auto
      have "limited ((ps @ [t]) @ passed E i es s')"
        using srt p eq bound by (intro Cons.IH) simp_all
      then show ?thesis using Connect h True by auto
    next
      case False
      have "limited (ps @ passed E i es s')"
        using srt at False Cons.prems by (intro Cons.IH) auto
      then show ?thesis using Connect h False by simp
    qed
  next
    case (Disconnect up t c)
    have "limited (ps @ passed E i es (handleDisconnect E up t c s))"
      using srt Cons.prems by (intro Cons.IH) auto
    then show ?thesis using Disconnect by simp
  qed
qed simp

text \<open>C38: Whatever connections and disconnections come, at most thirty connections of a driver
  get past the rate limit within any minute.\<close>

theorem at_most_thirty_connections_a_minute:
  assumes "sorted (map ws_time es)"
  shows "length (window t (passed E i es (start_ws db))) \<le> 30"
proof -
  have "limited ([] @ passed E i es (start_ws db))"
    using assms by (intro passed_limited) (auto simp: remembers_def limited_def window_def start_ws_def)
  then show ?thesis by (simp add: limited_def MAX_CONNECTIONS_PER_MINUTE_def)
qed

section \<open>One session\<close>

text \<open>Every open socket of a driver is among its sessions, and no driver has two open sockets.\<close>

definition single_session :: "ws_state \<Rightarrow> bool" where
  "single_session s \<longleftrightarrow> (\<forall>c \<in> ws_open s. \<forall>i. ws_data s c = Some i \<longrightarrow> c \<in> set (ws_sessions s i))
    \<and> (\<forall>c \<in> ws_open s. \<forall>k \<in> ws_open s. \<forall>i. ws_data s c = Some i \<and> ws_data s k = Some i \<longrightarrow> c = k)"

lemma accept_single:
  assumes "single_session s" "c \<notin> ws_open s"
  shows "single_session (accept_session i c s)"
proof -
  have a: "\<And>k j. k \<in> ws_open s \<Longrightarrow> ws_data s k = Some j \<Longrightarrow> k \<in> set (ws_sessions s j)"
    and b: "\<And>k l j. k \<in> ws_open s \<Longrightarrow> l \<in> ws_open s \<Longrightarrow> ws_data s k = Some j \<Longrightarrow> ws_data s l = Some j \<Longrightarrow> k = l"
    using assms(1) unfolding single_session_def by blast+
  let ?s = "accept_session i c s"
  have opened: "k = c \<or> k \<in> ws_open s \<and> k \<notin> set (ws_sessions s i)" if "k \<in> ws_open ?s" for k
    using that by (auto simp: accept_session_def)
  have data: "ws_data ?s k = (if k = c then Some i else ws_data s k)" for k
    by (simp add: accept_session_def)
  have "k \<in> set (ws_sessions ?s j)" if "k \<in> ws_open ?s" "ws_data ?s k = Some j" for k j
    using opened[OF that(1)] that(2) a[of k j] by (auto simp: data accept_session_def split: if_splits)
  moreover have "k = l" if "k \<in> ws_open ?s" "l \<in> ws_open ?s" "ws_data ?s k = Some j" "ws_data ?s l = Some j" for k l j
    using opened[OF that(1)] opened[OF that(2)] that(3,4) a b[of k l j] by (auto simp: data split: if_splits)
  ultimately show ?thesis unfolding single_session_def by blast
qed

lemma refused_keeps:
  assumes "handleConnection E t c a h s = (s', out)"
  shows "\<exists>b. (\<exists>i. s' = accept_session i c (s\<lparr> ws_attempts := b \<rparr>)) \<or> s' = s\<lparr> ws_attempts := b \<rparr>"
proof (cases "s' = s")
  case True
  then have "s' = s\<lparr> ws_attempts := ws_attempts s \<rparr>" by simp
  then show ?thesis by blast
next
  case False
  then show ?thesis
    using assms by (auto simp: handleConnection_def Let_def split: if_splits option.splits prod.splits)
qed

lemma single_attempts [simp]: "single_session (s\<lparr> ws_attempts := a \<rparr>) = single_session s"
  by (simp add: single_session_def)

lemma disconnect_single: "single_session s \<Longrightarrow> single_session (handleDisconnect E up t c s)"
  unfolding single_session_def handleDisconnect_def forget_session_def Let_def
  by (auto split: option.splits)

text \<open>A socket has an id of its own.\<close>

fun fresh_sockets :: "ws_event list \<Rightarrow> string set \<Rightarrow> bool" where
  "fresh_sockets [] used = True"
| "fresh_sockets (Connect t c a h # es) used = (c \<notin> used \<and> fresh_sockets es (insert c used))"
| "fresh_sockets (Disconnect up t c # es) used = fresh_sockets es used"

lemma step_single:
  assumes "single_session s" "fresh_sockets (e # es) used" "ws_open s \<subseteq> used"
  shows "single_session (ws_step E e s) \<and> (\<exists>used'. fresh_sockets es used' \<and> ws_open (ws_step E e s) \<subseteq> used')"
proof (cases e)
  case (Connect t c a h)
  obtain s' out where h: "handleConnection E t c a h s = (s', out)" by fastforce
  have c: "c \<notin> ws_open s" "fresh_sockets es (insert c used)" using assms(2,3) Connect by auto
  have step: "ws_step E e s = s'" using Connect h by simp
  obtain b where "(\<exists>i. s' = accept_session i c (s\<lparr> ws_attempts := b \<rparr>)) \<or> s' = s\<lparr> ws_attempts := b \<rparr>"
    using refused_keeps[OF h] by blast
  then have "single_session s' \<and> ws_open s' \<subseteq> insert c used"
  proof
    assume "\<exists>i. s' = accept_session i c (s\<lparr> ws_attempts := b \<rparr>)"
    then obtain i where s': "s' = accept_session i c (s\<lparr> ws_attempts := b \<rparr>)" by blast
    have "single_session (accept_session i c (s\<lparr> ws_attempts := b \<rparr>))"
      using assms(1) c(1) by (intro accept_single) simp_all
    moreover have "ws_open (accept_session i c (s\<lparr> ws_attempts := b \<rparr>)) \<subseteq> insert c used"
      using assms(3) by (auto simp: accept_session_def)
    ultimately show ?thesis unfolding s' by blast
  next
    assume "s' = s\<lparr> ws_attempts := b \<rparr>"
    then show ?thesis using assms(1,3) by auto
  qed
  then show ?thesis using c(2) unfolding step by blast
next
  case (Disconnect up t c)
  have "ws_open (handleDisconnect E up t c s) \<subseteq> ws_open s"
    by (auto simp: handleDisconnect_def forget_session_def Let_def split: option.splits if_splits)
  then show ?thesis
    using Disconnect assms disconnect_single by auto
qed

text \<open>When the sockets of the server can be looked up, no sequence of connections and
  disconnections leaves a driver with two open sockets.\<close>

theorem one_socket_per_driver:
  assumes "fresh_sockets es {}"
  shows "single_session (for_each (ws_step E) es (start_ws db))"
proof -
  have "single_session s \<Longrightarrow> fresh_sockets es used \<Longrightarrow> ws_open s \<subseteq> used \<Longrightarrow> single_session (for_each (ws_step E) es s)" for s used
  proof (induction es arbitrary: s used)
    case (Cons e es)
    from step_single[OF Cons.prems, of E] obtain used' where
      "single_session (ws_step E e s)" "fresh_sockets es used'" "ws_open (ws_step E e s) \<subseteq> used'" by blast
    then show ?case using Cons.IH by simp
  qed simp
  moreover have "single_session (start_ws db)" "ws_open (start_ws db) \<subseteq> {}"
    by (simp_all add: start_ws_def single_session_def)
  ultimately show ?thesis using assms by blast
qed

section \<open>Presence\<close>

lemma process_keys_others:
  "i \<notin> set is \<Longrightarrow> find_driver i (dd_drivers (ws_drivers (process_keys E now online is s))) = find_driver i (dd_drivers (ws_drivers s))"
proof (induction "is" arbitrary: s)
  case (Cons j js)
  have u: "find_driver i (dd_drivers (fst (Drivers.updateDriverStatus (wn_driver E) j OFFLINE db))) = find_driver i (dd_drivers db)" for db
  proof (cases "find_driver j (dd_drivers db)")
    case (Some d)
    then have "dr_id d = j" by (rule driver_repo.found_key)
    then show ?thesis using Some Cons.prems
      by (simp add: Drivers.updateDriverStatus_def put_driver_def driver_repo.find_save Let_def)
  qed (simp add: Drivers.updateDriverStatus_def)
  show ?case
  proof (cases "Drivers.updateDriverStatus (wn_driver E) j OFFLINE (ws_drivers s)")
    case (Pair db r)
    then have "find_driver i (dd_drivers db) = find_driver i (dd_drivers (ws_drivers s))"
      using u[of "ws_drivers s"] by simp
    then show ?thesis using Cons Pair by (cases r) auto
  qed
qed simp

text \<open>The job that is to mark a driver offline when its presence has run out never sees it:
  the key is gone by then, and the driver's row stays as it is.\<close>

theorem expired_presence_is_never_noticed:
  assumes "live_key now (ws_store s) (presence_key i) = None"
  shows "find_driver i (dd_drivers (ws_drivers (processExpiredPresence E now ids s))) = find_driver i (dd_drivers (ws_drivers s))"
  using assms by (simp add: processExpiredPresence_def scanned_def process_keys_others)

section \<open>Proofs from anybody\<close>

text \<open>The handler knows neither the sender nor the driver of the delivery, and answers that the
  proof of a cancelled delivery is accepted.\<close>

lemma proof_of_cancelled_is_accepted:
  assumes "find_delivery (pv_deliveryId p) (db_deliveries s) = Some d" "dl_status d \<in> {CANCELLED, FAILED}"
  shows "handleProofUploaded E p s = (s, Inr (Proof_Accepted (pv_deliveryId p) (pv_proofType p)))"
  using assms by (auto simp: handleProofUploaded_def Let_def)

text \<open>The guard overwrites the driver of a socket that connected with the subject of its token, and
  its disconnection then leaves the session behind.\<close>

lemma guard_drops_the_driver:
  assumes "wn_jwt E tok = Some (None, Some i)" "tok \<noteq> []"
  shows "ws_data (fst (ws_canActivate E c (Some tok) q s)) c = None"
    "ws_sessions (handleDisconnect E up now c (fst (ws_canActivate E c (Some tok) q s))) = ws_sessions s"
  using assms by (simp_all add: ws_canActivate_def or_else_def handleDisconnect_def Let_def)

section \<open>Witnesses\<close>

definition sample_ws_env :: ws_env where
  "sample_ws_env = \<lparr> wn_jwt = (\<lambda>t. Some (Some t, None)), wn_registry = True, wn_ttl = (\<lambda>ms. ms div 1000),
     wn_driver = \<lparr> de_now = 0, de_ms = (\<lambda>_. ''''), de_new_id = ''n'', de_REGISTERED = ''r'',
       de_PROFILE_COMPLETED = ''p'', de_APPROVAL_REQUESTED = ''q'', de_APPROVED = ''a'', de_REJECTED = ''x'' \<rparr> \<rparr>"

definition sample_socket_db :: driver_db where
  "sample_socket_db = \<lparr> dd_drivers = [], dd_stats = [], dd_outbox = \<lparr> ot_rows = [], ot_next_id = 1 \<rparr>, dd_audit = [], dd_redis = [] \<rparr>"

definition sample_ws_events :: "ws_event list" where
  "sample_ws_events = [Connect 0 ''k1'' (Some ''d'') None, Connect 5 ''k2'' (Some ''d'') None, Disconnect True 6 ''k1'']"

theorem at_most_thirty_connections_a_minute_witness:
  "length (window 10 (passed sample_ws_env ''d'' sample_ws_events (start_ws sample_socket_db))) \<le> 30
   \<and> passed sample_ws_env ''d'' sample_ws_events (start_ws sample_socket_db) = [0, 5]"
proof
  show "length (window 10 (passed sample_ws_env ''d'' sample_ws_events (start_ws sample_socket_db))) \<le> 30"
    by (rule at_most_thirty_connections_a_minute) (simp add: sample_ws_events_def)
  show "passed sample_ws_env ''d'' sample_ws_events (start_ws sample_socket_db) = [0, 5]"
    by (simp add: sample_ws_events_def sample_ws_env_def handleConnection_def handshake_token_def or_else_def
        start_ws_def recent_attempts_def MAX_CONNECTIONS_PER_MINUTE_def accept_session_def Let_def)
qed

theorem one_socket_per_driver_witness:
  "single_session (for_each (ws_step sample_ws_env) sample_ws_events (start_ws sample_socket_db))"
  by (rule one_socket_per_driver) (simp add: sample_ws_events_def)

theorem expired_presence_is_never_noticed_witness:
  "find_driver ''d'' (dd_drivers (ws_drivers (processExpiredPresence sample_ws_env 30006 [''d'']
      (handleDisconnect sample_ws_env True 6 ''k'' ((start_ws sample_socket_db)\<lparr> ws_data := (\<lambda>_. Some ''d'') \<rparr>)))))
    = find_driver ''d'' (dd_drivers sample_socket_db)"
proof -
  let ?s = "handleDisconnect sample_ws_env True 6 ''k'' ((start_ws sample_socket_db)\<lparr> ws_data := (\<lambda>_. Some ''d'') \<rparr>)"
  have "live_key 30006 (ws_store ?s) (presence_key ''d'') = None" "ws_drivers ?s = sample_socket_db"
    by (simp_all add: handleDisconnect_def forget_session_def start_ws_def live_set_ex Let_def)
  then show ?thesis using expired_presence_is_never_noticed[of 30006 ?s "''d''" sample_ws_env "[''d'']"] by simp
qed

end
