(* ===== verification/Metrics.thy ===== *)
theory Metrics
  imports Outbox_Service Deliveries
begin

text \<open>
  The in-memory metrics of the outbox (\<^verbatim>\<open>domain-events/metrics.service.ts\<close>): gauges,
  histograms and counters, their text form, percentiles and the health check; and the rows
  of measured times of deliveries (\<^verbatim>\<open>delivery-intelligence/delivery/delivery-metrics.service.ts\<close>).
  A map keeps the order of its first insertions; sums are exact.
\<close>

section \<open>Metrics of the outbox\<close>

record gauge =
  ga_name :: string
  ga_help :: string
  ga_value :: nat

record histogram =
  hi_name :: string
  hi_help :: string
  hi_buckets :: "rat list"
  hi_observations :: "rat list"
  hi_sum :: rat
  hi_count :: nat

record metrics =
  mt_gauges :: "gauge list"
  mt_histograms :: "histogram list"
  mt_counters :: "(string \<times> nat) list"

definition new_histogram :: "string \<Rightarrow> string \<Rightarrow> rat list \<Rightarrow> histogram" where
  "new_histogram name help buckets = \<lparr> hi_name = name, hi_help = help, hi_buckets = buckets, hi_observations = [],
     hi_sum = 0, hi_count = 0 \<rparr>"

definition new_gauge :: "string \<Rightarrow> string \<Rightarrow> gauge" where
  "new_gauge name help = \<lparr> ga_name = name, ga_help = help, ga_value = 0 \<rparr>"

definition initMetrics :: metrics where
  "initMetrics = \<lparr>
     mt_gauges =
      [new_gauge ''outbox_pending_total'' ''Number of pending outbox events'',
       new_gauge ''outbox_processing_total'' ''Number of processing outbox events'',
       new_gauge ''outbox_failed_total'' ''Number of failed outbox events'',
       new_gauge ''outbox_completed_total'' ''Number of completed outbox events''],
     mt_histograms =
      [new_histogram ''outbox_lag_seconds'' ''Lag between event creation and processing in seconds''
         [1, 5, 10, 30, 60, 300, 600, 1800, 3600],
       new_histogram ''outbox_processing_duration_seconds'' ''Time taken to process an outbox event in seconds''
         [1/10, 1/2, 1, 2, 5, 10, 30],
       new_histogram ''outbox_retry_delay_seconds'' ''Delay between retries in seconds'' [1, 5, 10, 30, 60, 300, 600]],
     mt_counters =
      [(''outbox_events_processed_total'', 0), (''outbox_events_failed_total'', 0), (''outbox_events_retried_total'', 0),
       (''outbox_circuit_breaker_open_total'', 0), (''outbox_circuit_breaker_half_open_total'', 0),
       (''outbox_circuit_breaker_closed_total'', 0)] \<rparr>"

definition setGauge :: "string \<Rightarrow> nat \<Rightarrow> metrics \<Rightarrow> metrics" where
  "setGauge name v m = m\<lparr> mt_gauges := update_rows (\<lambda>g. ga_name g = name) (\<lambda>g. g\<lparr> ga_value := v \<rparr>) (mt_gauges m) \<rparr>"

definition getGaugeValue :: "string \<Rightarrow> metrics \<Rightarrow> nat" where
  "getGaugeValue name m = (case lookup_by ga_name name (mt_gauges m) of None \<Rightarrow> 0 | Some g \<Rightarrow> ga_value g)"

definition getCounterValue :: "string \<Rightarrow> metrics \<Rightarrow> nat" where
  "getCounterValue name m = (case lookup_by fst name (mt_counters m) of None \<Rightarrow> 0 | Some c \<Rightarrow> snd c)"

definition incrementCounter :: "string \<Rightarrow> metrics \<Rightarrow> metrics" where
  "incrementCounter name m = m\<lparr> mt_counters := save_by fst (name, getCounterValue name m + 1) (mt_counters m) \<rparr>"

definition observe :: "rat \<Rightarrow> histogram \<Rightarrow> histogram" where
  "observe v h = h\<lparr> hi_observations := hi_observations h @ [v], hi_sum := hi_sum h + v, hi_count := hi_count h + 1 \<rparr>"

definition recordHistogram :: "string \<Rightarrow> rat \<Rightarrow> metrics \<Rightarrow> metrics" where
  "recordHistogram name v m = m\<lparr> mt_histograms := update_rows (\<lambda>h. hi_name h = name) (observe v) (mt_histograms m) \<rparr>"

definition recordProcessingDuration :: "rat \<Rightarrow> metrics \<Rightarrow> metrics" where
  "recordProcessingDuration = recordHistogram ''outbox_processing_duration_seconds''"

definition recordRetryDelay :: "rat \<Rightarrow> metrics \<Rightarrow> metrics" where
  "recordRetryDelay = recordHistogram ''outbox_retry_delay_seconds''"

definition incrementEventsProcessed :: "metrics \<Rightarrow> metrics" where
  "incrementEventsProcessed = incrementCounter ''outbox_events_processed_total''"

definition incrementEventsFailed :: "metrics \<Rightarrow> metrics" where
  "incrementEventsFailed = incrementCounter ''outbox_events_failed_total''"

definition incrementRetries :: "metrics \<Rightarrow> metrics" where
  "incrementRetries = incrementCounter ''outbox_events_retried_total''"

definition lower_char :: "char \<Rightarrow> char" where
  "lower_char c = (let n = (of_char c :: nat) in if 65 \<le> n \<and> n \<le> 90 then char_of (n + 32) else c)"

definition recordCircuitBreakerState :: "string \<Rightarrow> metrics \<Rightarrow> metrics" where
  "recordCircuitBreakerState st = incrementCounter (''outbox_circuit_breaker_'' @ map lower_char st @ ''_total'')"

text \<open>\<^verbatim>\<open>lags\<close> are the ages of the pending rows in seconds, or nothing when the query raises, which
  leaves the histogram as it is.\<close>

definition updateLagHistogram :: "rat list option \<Rightarrow> metrics \<Rightarrow> metrics" where
  "updateLagHistogram lags m = (case lags of
      None \<Rightarrow> m
    | Some vs \<Rightarrow> m\<lparr> mt_histograms := update_rows (\<lambda>h. hi_name h = ''outbox_lag_seconds'')
        (\<lambda>h. for_each observe vs (h\<lparr> hi_observations := [], hi_sum := 0, hi_count := 0 \<rparr>)) (mt_histograms m) \<rparr>)"

record outbox_status_counts =
  sc_pending :: nat
  sc_processing :: nat
  sc_failed :: nat
  sc_completed :: nat

definition updateMetrics :: "outbox_status_counts option \<Rightarrow> rat list option \<Rightarrow> metrics \<Rightarrow> metrics" where
  "updateMetrics counts lags m = (case counts of
      None \<Rightarrow> m
    | Some c \<Rightarrow> updateLagHistogram lags (setGauge ''outbox_completed_total'' (sc_completed c)
        (setGauge ''outbox_failed_total'' (sc_failed c) (setGauge ''outbox_processing_total'' (sc_processing c)
          (setGauge ''outbox_pending_total'' (sc_pending c) m)))))"

text \<open>The lines of the buckets: the upper bound and the number written after it.\<close>

fun bucket_lines :: "rat list \<Rightarrow> nat \<Rightarrow> rat list \<Rightarrow> (rat \<times> nat) list" where
  "bucket_lines obs cumulative [] = []"
| "bucket_lines obs cumulative (b # bs) = (let c = cumulative + length (filter (\<lambda>x. x \<le> b) obs)
     in (b, c) # bucket_lines obs c bs)"

datatype metric_text =
    Gauge_Text string string nat
  | Histogram_Text string string "(rat \<times> nat) list" nat rat nat
  | Counter_Text string nat

definition histogram_text :: "histogram \<Rightarrow> metric_text" where
  "histogram_text h = Histogram_Text (hi_name h) (hi_help h)
     (bucket_lines (hi_observations h) 0 (sort_key (\<lambda>b. b) (hi_buckets h))) (hi_count h) (hi_sum h) (hi_count h)"

definition getMetricsText :: "metrics \<Rightarrow> metric_text list" where
  "getMetricsText m = map (\<lambda>g. Gauge_Text (ga_name g) (ga_help g) (ga_value g)) (mt_gauges m)
     @ map histogram_text (mt_histograms m) @ map (\<lambda>(n, v). Counter_Text n v) (mt_counters m)"

definition calculatePercentile :: "histogram \<Rightarrow> nat \<Rightarrow> rat" where
  "calculatePercentile h percentile =
    (if length (hi_observations h) = 0 then 0
     else let s = sort (hi_observations h);
              index = \<lceil>of_nat percentile / 100 * of_nat (length s) :: rat\<rceil> - 1
          in s ! nat (max 0 (min index (int (length s) - 1))))"

record metrics_summary =
  ms_pending :: nat
  ms_processing :: nat
  ms_failed :: nat
  ms_completed :: nat
  ms_lagP95 :: rat
  ms_lagP99 :: rat
  ms_avgProcessingTime :: rat
  ms_totalProcessed :: nat
  ms_totalFailed :: nat
  ms_totalRetries :: nat

text \<open>The two histograms are always there; an empty one stands for a missing one.\<close>

definition histogram_of :: "string \<Rightarrow> metrics \<Rightarrow> histogram" where
  "histogram_of name m = (case lookup_by hi_name name (mt_histograms m) of
     None \<Rightarrow> new_histogram name [] [] | Some h \<Rightarrow> h)"

definition metrics_summary_of :: "metrics \<Rightarrow> metrics_summary" where
  "metrics_summary_of m = (let lag = histogram_of ''outbox_lag_seconds'' m;
      proc = histogram_of ''outbox_processing_duration_seconds'' m
    in \<lparr> ms_pending = getGaugeValue ''outbox_pending_total'' m, ms_processing = getGaugeValue ''outbox_processing_total'' m,
         ms_failed = getGaugeValue ''outbox_failed_total'' m, ms_completed = getGaugeValue ''outbox_completed_total'' m,
         ms_lagP95 = calculatePercentile lag 95, ms_lagP99 = calculatePercentile lag 99,
         ms_avgProcessingTime = (if hi_count proc > 0 then hi_sum proc / of_nat (hi_count proc) else 0),
         ms_totalProcessed = getCounterValue ''outbox_events_processed_total'' m,
         ms_totalFailed = getCounterValue ''outbox_events_failed_total'' m,
         ms_totalRetries = getCounterValue ''outbox_events_retried_total'' m \<rparr>)"

definition getMetricsSummary ::
    "outbox_status_counts option \<Rightarrow> rat list option \<Rightarrow> metrics \<Rightarrow> metrics \<times> metrics_summary" where
  "getMetricsSummary counts lags m = (let m' = updateMetrics counts lags m in (m', metrics_summary_of m'))"

datatype metric_issue = High_Lag rat | Too_Many_Failed nat | Large_Backlog nat | High_Failure_Rate rat

definition summary_issues :: "metrics_summary \<Rightarrow> metric_issue list" where
  "summary_issues s = (let totalEvents = ms_totalProcessed s + ms_totalFailed s;
      failureRate = (if totalEvents > 0 then of_nat (ms_totalFailed s) / of_nat totalEvents else (0 :: rat))
    in (if ms_lagP95 s > 300 then [High_Lag (ms_lagP95 s)] else [])
     @ (if ms_failed s > 100 then [Too_Many_Failed (ms_failed s)] else [])
     @ (if ms_pending s > 1000 then [Large_Backlog (ms_pending s)] else [])
     @ (if failureRate > 1/10 then [High_Failure_Rate (failureRate * 100)] else []))"

definition checkHealth ::
    "outbox_status_counts option \<Rightarrow> rat list option \<Rightarrow> metrics \<Rightarrow> metrics \<times> bool \<times> metric_issue list \<times> metrics_summary" where
  "checkHealth counts lags m = (case getMetricsSummary counts lags m of (m', s) \<Rightarrow>
     (m', summary_issues s = [], summary_issues s, s))"

section \<open>What the metrics keep\<close>

definition histogram_ok :: "histogram \<Rightarrow> bool" where
  "histogram_ok h \<longleftrightarrow> hi_count h = length (hi_observations h) \<and> hi_sum h = sum_list (hi_observations h)"

definition metrics_ok :: "metrics \<Rightarrow> bool" where
  "metrics_ok m \<longleftrightarrow> list_all histogram_ok (mt_histograms m)
    \<and> map hi_name (mt_histograms m) = map hi_name (mt_histograms initMetrics)
    \<and> map ga_name (mt_gauges m) = map ga_name (mt_gauges initMetrics)
    \<and> distinct (map fst (mt_counters m))"

lemma observe_ok: "histogram_ok h \<Longrightarrow> histogram_ok (observe v h)"
  by (simp add: histogram_ok_def observe_def)

lemma observe_name [simp]: "hi_name (observe v h) = hi_name h"
  by (simp add: observe_def)

lemma observes_ok: "histogram_ok h \<Longrightarrow> histogram_ok (for_each observe vs h) \<and> hi_name (for_each observe vs h) = hi_name h"
  by (induction vs arbitrary: h) (simp_all add: observe_ok)

lemma update_list_all: "list_all P rs \<Longrightarrow> (\<And>r. P r \<Longrightarrow> P (f r)) \<Longrightarrow> list_all P (update_rows p f rs)"
  by (auto simp: list_all_iff update_rows_def)

lemma init_ok: "metrics_ok initMetrics"
  by (simp add: metrics_ok_def initMetrics_def histogram_ok_def new_histogram_def new_gauge_def)

lemma record_ok: "metrics_ok m \<Longrightarrow> metrics_ok (recordHistogram name v m)"
  by (simp add: metrics_ok_def recordHistogram_def update_list_all observe_ok map_update_rows)

lemma counter_ok: "metrics_ok m \<Longrightarrow> metrics_ok (incrementCounter name m)"
  by (simp add: metrics_ok_def incrementCounter_def distinct_save_by)

lemma gauge_ok: "metrics_ok m \<Longrightarrow> metrics_ok (setGauge name v m)"
  by (simp add: metrics_ok_def setGauge_def map_update_rows)

lemma lag_ok: "metrics_ok m \<Longrightarrow> metrics_ok (updateLagHistogram lags m)"
proof (cases lags)
  case (Some vs)
  assume ok: "metrics_ok m"
  have reset: "histogram_ok (h\<lparr> hi_observations := [], hi_sum := 0, hi_count := 0 \<rparr>)" for h
    by (simp add: histogram_ok_def)
  show ?thesis
    using ok Some observes_ok[OF reset]
    by (simp add: metrics_ok_def updateLagHistogram_def update_list_all map_update_rows)
qed (simp add: updateLagHistogram_def)

text \<open>Every operation keeps the counts and the sums of the histograms true to their observations.\<close>

theorem metrics_operations_keep_ok:
  assumes "metrics_ok m"
  shows "metrics_ok (recordProcessingDuration v m)" "metrics_ok (recordRetryDelay v m)"
    "metrics_ok (incrementEventsProcessed m)" "metrics_ok (incrementEventsFailed m)" "metrics_ok (incrementRetries m)"
    "metrics_ok (recordCircuitBreakerState st m)" "metrics_ok (updateMetrics counts lags m)"
  using assms
  by (simp_all add: recordProcessingDuration_def recordRetryDelay_def incrementEventsProcessed_def
      incrementEventsFailed_def incrementRetries_def recordCircuitBreakerState_def updateMetrics_def
      record_ok counter_ok gauge_ok lag_ok split: option.splits)

lemma counter_counts:
  "getCounterValue name (incrementCounter name' m) = getCounterValue name m + (if name = name' then 1 else 0)"
  by (simp add: getCounterValue_def incrementCounter_def lookup_save_by)

text \<open>A percentile is an observation, no smaller than the asked share of them.\<close>

theorem percentile_is_observed:
  assumes "hi_observations h \<noteq> []"
  shows "calculatePercentile h p \<in> set (hi_observations h)"
proof -
  let ?s = "sort (hi_observations h)"
  let ?i = "nat (max 0 (min (\<lceil>of_nat p / 100 * of_nat (length ?s) :: rat\<rceil> - 1) (int (length ?s) - 1)))"
  have "?i < length ?s" using assms by (simp add: nat_less_iff max_def min_def)
  then have "?s ! ?i \<in> set ?s" by (rule nth_mem)
  then show ?thesis using assms by (simp add: calculatePercentile_def Let_def)
qed

section \<open>The buckets are counted twice\<close>

text \<open>The number at a bucket is the sum over all buckets up to it, each of which already counts
  the smaller observations.\<close>

lemma bucket_lines_sum:
  "i < length bs \<Longrightarrow> snd (bucket_lines obs c bs ! i)
     = c + (\<Sum>b \<leftarrow> take (Suc i) bs. length (filter (\<lambda>x. x \<le> b) obs))"
proof (induction bs arbitrary: c i)
  case (Cons b bs)
  then show ?case by (cases i) (simp_all add: Let_def)
qed simp

lemma bucket_lines_length [simp]: "length (bucket_lines obs c bs) = length bs"
  by (induction bs arbitrary: c) (simp_all add: Let_def)

text \<open>An observation below the first of \<^verbatim>\<open>n\<close> buckets is counted \<^verbatim>\<open>i\<close> times in the \<^verbatim>\<open>i\<close>-th line: the line of the last
  bucket exceeds that of the infinite bucket, which counts it once, as soon as there are two buckets.\<close>

theorem buckets_count_observations_again:
  assumes "sort_key (\<lambda>b. b) (hi_buckets h) = bs" "histogram_ok h" "hi_observations h \<noteq> []" "length bs \<ge> 2"
    "\<And>x. x \<in> set (hi_observations h) \<Longrightarrow> x \<le> bs ! 0"
  shows "\<exists>lines n s. histogram_text h = Histogram_Text (hi_name h) (hi_help h) lines n s n
    \<and> n = length (hi_observations h) \<and> (\<forall>i < length bs. snd (lines ! i) = (i + 1) * n) \<and> snd (last lines) > n"
proof -
  let ?obs = "hi_observations h"
  have srt: "sorted bs" using assms(1) sorted_sort_key[of "\<lambda>b. b" "hi_buckets h"] by simp
  have all: "filter (\<lambda>x. x \<le> b) ?obs = ?obs" if "b \<in> set bs" for b
  proof -
    have "bs ! 0 \<le> b" using srt that assms(4) by (metis in_set_conv_nth sorted_nth_mono zero_le)
    then have "\<And>x. x \<in> set ?obs \<Longrightarrow> x \<le> b" using assms(5) order_trans by blast
    then show ?thesis by (simp add: filter_id_conv)
  qed
  have line: "snd (bucket_lines ?obs 0 bs ! i) = (i + 1) * length ?obs" if "i < length bs" for i
  proof -
    have "(\<Sum>b \<leftarrow> take (Suc i) bs. length (filter (\<lambda>x. x \<le> b) ?obs)) = (\<Sum>b \<leftarrow> take (Suc i) bs. length ?obs)"
      using all by (intro arg_cong[where f = sum_list] map_cong) (auto dest: in_set_takeD)
    moreover have "length (take (Suc i) bs) = i + 1" using that by simp
    ultimately show ?thesis using bucket_lines_sum[OF that, of ?obs 0] by (simp add: sum_list_triv del: length_take)
  qed
  have ne: "bucket_lines ?obs 0 bs \<noteq> []" using assms(4) by (cases bs) (auto simp: Let_def)
  have "last (bucket_lines ?obs 0 bs) = bucket_lines ?obs 0 bs ! (length bs - 1)"
    using ne by (simp add: last_conv_nth)
  then have "snd (last (bucket_lines ?obs 0 bs)) = length bs * length ?obs"
    using line[of "length bs - 1"] assms(4) by (cases bs) auto
  moreover have "length ?obs < length bs * length ?obs" using assms(3,4) by simp
  ultimately have "(\<forall>i < length bs. snd (bucket_lines ?obs 0 bs ! i) = (i + 1) * length ?obs)
      \<and> snd (last (bucket_lines ?obs 0 bs)) > length ?obs"
    using line by metis
  moreover have "histogram_text h = Histogram_Text (hi_name h) (hi_help h) (bucket_lines ?obs 0 bs)
      (length ?obs) (hi_sum h) (length ?obs)"
    using assms(1,2) by (simp add: histogram_text_def histogram_ok_def)
  ultimately show ?thesis by blast
qed

theorem buckets_count_observations_again_witness:
  "\<exists>lines n s. histogram_text (observe (1/20) (new_histogram ''h'' ''t'' [1/10, 1/2, 1]))
      = Histogram_Text ''h'' ''t'' lines n s n \<and> snd (last lines) > n"
proof -
  let ?h = "observe (1/20) (new_histogram ''h'' ''t'' [1/10, 1/2, 1])"
  have "\<exists>lines n s. histogram_text ?h = Histogram_Text (hi_name ?h) (hi_help ?h) lines n s n
    \<and> n = length (hi_observations ?h) \<and> (\<forall>i < length [1/10, 1/2, 1::rat]. snd (lines ! i) = (i + 1) * n) \<and> snd (last lines) > n"
    by (rule buckets_count_observations_again) (auto simp: observe_def new_histogram_def histogram_ok_def)
  then show ?thesis by (auto simp: observe_def new_histogram_def)
qed

section \<open>Times of deliveries\<close>

record delivery_metrics =
  dx_deliveryId :: string
  dx_sellerOrderId :: string
  dx_driverId :: "string option"
  dx_zoneId :: "string option"
  dx_assignedAt :: "int option"
  dx_pickedUpAt :: "int option"
  dx_deliveredAt :: "int option"
  dx_failedAt :: "int option"
  dx_assignmentTimeSeconds :: int
  dx_pickupTimeSeconds :: int
  dx_inTransitTimeSeconds :: int
  dx_totalTimeSeconds :: int
  dx_retryCount :: nat
  dx_reassignmentCount :: nat
  dx_slaBreached :: bool
  dx_createdAt :: int

definition new_metrics_row :: "int \<Rightarrow> string \<Rightarrow> string \<Rightarrow> delivery_metrics" where
  "new_metrics_row now d o1 = \<lparr> dx_deliveryId = d, dx_sellerOrderId = o1, dx_driverId = None, dx_zoneId = None,
     dx_assignedAt = None, dx_pickedUpAt = None, dx_deliveredAt = None, dx_failedAt = None,
     dx_assignmentTimeSeconds = 0, dx_pickupTimeSeconds = 0, dx_inTransitTimeSeconds = 0, dx_totalTimeSeconds = 0,
     dx_retryCount = 0, dx_reassignmentCount = 0, dx_slaBreached = False, dx_createdAt = now \<rparr>"

text \<open>\<^verbatim>\<open>INSERT ... ON CONFLICT DO NOTHING\<close>, and the row there is.\<close>

definition ensureMetrics :: "int \<Rightarrow> string \<Rightarrow> string \<Rightarrow> delivery_metrics list \<Rightarrow> delivery_metrics list \<times> delivery_metrics" where
  "ensureMetrics now d o1 t = (case lookup_by dx_deliveryId d t of
      Some r \<Rightarrow> (t, r)
    | None \<Rightarrow> (t @ [new_metrics_row now d o1], new_metrics_row now d o1))"

definition calculateTimeSeconds :: "int \<Rightarrow> int \<Rightarrow> int" where
  "calculateTimeSeconds a b = js_round (of_int (b - a) / 1000)"

definition or_time :: "int option \<Rightarrow> int \<Rightarrow> int" where
  "or_time v d = (case v of None \<Rightarrow> d | Some t \<Rightarrow> t)"

definition with_metrics ::
    "int \<Rightarrow> delivery \<Rightarrow> (delivery_metrics \<Rightarrow> delivery_metrics) \<Rightarrow> delivery_metrics list \<Rightarrow> delivery_metrics list" where
  "with_metrics now d f t = (case ensureMetrics now (dl_id d) (dl_sellerOrderId d) t of (t', r) \<Rightarrow> save_by dx_deliveryId (f r) t')"

definition recordAssignment :: "int \<Rightarrow> delivery \<Rightarrow> delivery_metrics list \<Rightarrow> delivery_metrics list" where
  "recordAssignment now d = with_metrics now d (\<lambda>r. r\<lparr>
     dx_driverId := (if truthy (dl_driverId d) then dl_driverId d else dx_driverId r), dx_assignedAt := Some now,
     dx_assignmentTimeSeconds := calculateTimeSeconds (dl_createdAt d) now \<rparr>)"

definition recordPickup :: "int \<Rightarrow> delivery \<Rightarrow> delivery_metrics list \<Rightarrow> delivery_metrics list" where
  "recordPickup now d = with_metrics now d (\<lambda>r. r\<lparr> dx_pickedUpAt := Some now,
     dx_pickupTimeSeconds := calculateTimeSeconds (or_time (dx_assignedAt r) (dl_createdAt d)) now \<rparr>)"

definition recordDelivery :: "int \<Rightarrow> delivery \<Rightarrow> delivery_metrics list \<Rightarrow> delivery_metrics list" where
  "recordDelivery now d = with_metrics now d (\<lambda>r. r\<lparr> dx_deliveredAt := Some now,
     dx_inTransitTimeSeconds := calculateTimeSeconds (or_time (dx_pickedUpAt r) (or_time (dx_assignedAt r) (dl_createdAt d))) now,
     dx_totalTimeSeconds := calculateTimeSeconds (or_time (dx_assignedAt r) (dl_createdAt d)) now \<rparr>)"

definition recordFailure :: "int \<Rightarrow> delivery \<Rightarrow> delivery_metrics list \<Rightarrow> delivery_metrics list" where
  "recordFailure now d = with_metrics now d (\<lambda>r. r\<lparr> dx_failedAt := Some now \<rparr>)"

definition recordCancellation :: "int \<Rightarrow> delivery \<Rightarrow> delivery_metrics list \<Rightarrow> delivery_metrics list" where
  "recordCancellation now d = with_metrics now d (\<lambda>r. r)"

definition incrementReassignment :: "int \<Rightarrow> string \<Rightarrow> delivery_metrics list \<Rightarrow> delivery_metrics list" where
  "incrementReassignment now i t = (case ensureMetrics now i [] t of
     (t', r) \<Rightarrow> save_by dx_deliveryId (r\<lparr> dx_reassignmentCount := dx_reassignmentCount r + 1 \<rparr>) t')"

record metrics_filters =
  mf_driverId :: "string option"
  mf_zoneId :: "string option"
  mf_startDate :: "int option"
  mf_endDate :: "int option"

definition metrics_match :: "metrics_filters \<Rightarrow> delivery_metrics \<Rightarrow> bool" where
  "metrics_match f r \<longleftrightarrow> (truthy (mf_driverId f) \<longrightarrow> dx_driverId r = mf_driverId f)
     \<and> (truthy (mf_zoneId f) \<longrightarrow> dx_zoneId r = mf_zoneId f)
     \<and> (case mf_startDate f of None \<Rightarrow> True | Some a \<Rightarrow> dx_createdAt r \<ge> a)
     \<and> (case mf_endDate f of None \<Rightarrow> True | Some b \<Rightarrow> dx_createdAt r \<le> b)"

text \<open>\<^verbatim>\<open>AVG\<close> over no rows is null, which the callers replace by 0.\<close>

definition average_total :: "delivery_metrics list \<Rightarrow> rat" where
  "average_total rs = (if rs = [] then 0
     else of_int (sum_list (map dx_totalTimeSeconds rs)) / of_nat (length rs))"

record delivery_summary =
  dy_totalDeliveries :: nat
  dy_completedDeliveries :: nat
  dy_failedDeliveries :: nat
  dy_avgDeliveryTimeSeconds :: rat

definition getSummary :: "metrics_filters \<Rightarrow> delivery_metrics list \<Rightarrow> delivery_summary" where
  "getSummary f t = (let rs = filter (metrics_match f) t
    in \<lparr> dy_totalDeliveries = length rs, dy_completedDeliveries = count_rows (\<lambda>r. dx_deliveredAt r \<noteq> None) rs,
         dy_failedDeliveries = count_rows (\<lambda>r. dx_failedAt r \<noteq> None) rs, dy_avgDeliveryTimeSeconds = average_total rs \<rparr>)"

definition getByDriverId :: "string \<Rightarrow> delivery_metrics list \<Rightarrow> delivery_metrics list" where
  "getByDriverId i t = sort_key (\<lambda>r. - dx_createdAt r) (filter (\<lambda>r. dx_driverId r = Some i) t)"

definition in_transit :: "delivery_metrics \<Rightarrow> bool" where
  "in_transit r \<longleftrightarrow> dx_pickedUpAt r \<noteq> None \<and> dx_deliveredAt r = None \<and> dx_failedAt r = None"

definition getInTransitDeliveries :: "delivery_metrics list \<Rightarrow> nat" where
  "getInTransitDeliveries t = count_rows in_transit t"

definition getStuckDeliveries :: "int \<Rightarrow> delivery_metrics list \<Rightarrow> delivery_metrics list" where
  "getStuckDeliveries now t = filter (\<lambda>r. in_transit r \<and> the (dx_pickedUpAt r) < now - 2 * 3600000) t"

lemma ensure_found:
  "ensureMetrics now d o1 t = (t', r) \<Longrightarrow> lookup_by dx_deliveryId d t' = Some r \<and> dx_deliveryId r = d"
  by (auto simp: ensureMetrics_def new_metrics_row_def lookup_by_append dest: lookup_by_SomeD split: option.splits)

lemma ensure_distinct:
  "ensureMetrics now d o1 t = (t', r) \<Longrightarrow> distinct (map dx_deliveryId t) \<Longrightarrow> distinct (map dx_deliveryId t')"
  by (auto simp: ensureMetrics_def new_metrics_row_def lookup_by_None split: option.splits)

lemma with_metrics_distinct:
  "distinct (map dx_deliveryId t) \<Longrightarrow> distinct (map dx_deliveryId (with_metrics now d f t))"
  by (auto simp: with_metrics_def dest: ensure_distinct intro!: distinct_save_by split: prod.splits)

lemma with_metrics_lookup:
  assumes "\<And>r. dx_deliveryId (f r) = dx_deliveryId r" "i \<noteq> dl_id d"
  shows "lookup_by dx_deliveryId i (with_metrics now d f t) = lookup_by dx_deliveryId i t"
proof -
  obtain t' r where e: "ensureMetrics now (dl_id d) (dl_sellerOrderId d) t = (t', r)" by fastforce
  have "lookup_by dx_deliveryId i t' = lookup_by dx_deliveryId i t"
    using e assms(2) by (auto simp: ensureMetrics_def new_metrics_row_def lookup_by_append split: option.splits)
  then show ?thesis
    using e assms ensure_found[OF e] by (simp add: with_metrics_def lookup_save_by)
qed

text \<open>A delivery has one row, and its measured times with a clock that does not go back are not negative.\<close>

theorem recorded_times_are_not_negative:
  assumes "lookup_by dx_deliveryId (dl_id d) (recordDelivery now d t) = Some r"
    "dl_createdAt d \<le> now" "\<And>q a. lookup_by dx_deliveryId (dl_id d) t = Some q \<Longrightarrow>
      dx_assignedAt q = Some a \<or> dx_pickedUpAt q = Some a \<Longrightarrow> a \<le> now"
  shows "0 \<le> dx_inTransitTimeSeconds r \<and> 0 \<le> dx_totalTimeSeconds r \<and> dx_deliveredAt r = Some now"
proof -
  obtain t' q where e: "ensureMetrics now (dl_id d) (dl_sellerOrderId d) t = (t', q)" by fastforce
  have pos: "0 \<le> calculateTimeSeconds a b" if "a \<le> b" for a b
    using js_round_mono[of "0" "of_int (b - a) / 1000"] that js_round_int[of 0] by (simp add: calculateTimeSeconds_def)
  have q: "or_time (dx_assignedAt q) (dl_createdAt d) \<le> now \<and> or_time (dx_pickedUpAt q) (or_time (dx_assignedAt q) (dl_createdAt d)) \<le> now"
    using e assms(2,3) by (auto simp: ensureMetrics_def new_metrics_row_def or_time_def split: option.splits)
  have "r = q\<lparr> dx_deliveredAt := Some now,
     dx_inTransitTimeSeconds := calculateTimeSeconds (or_time (dx_pickedUpAt q) (or_time (dx_assignedAt q) (dl_createdAt d))) now,
     dx_totalTimeSeconds := calculateTimeSeconds (or_time (dx_assignedAt q) (dl_createdAt d)) now \<rparr>"
    using assms(1) e ensure_found[OF e] by (simp add: recordDelivery_def with_metrics_def lookup_save_by)
  then show ?thesis using q pos by simp
qed

text \<open>The mean counts the rows that are not delivered yet, whose total is 0.\<close>

lemma open_rows_lower_the_mean:
  "average_total [(new_metrics_row 0 ''a'' ''o'')\<lparr> dx_totalTimeSeconds := 100 \<rparr>, new_metrics_row 0 ''b'' ''p''] = 50"
  by (simp add: average_total_def new_metrics_row_def)

end
