(* ===== verification/Schema_Verifier.thy ===== *)
theory Schema_Verifier
  imports Js_Text
begin

text \<open>
  The snapshot of the database from its catalogue
  (\<^verbatim>\<open>scripts/migration-engine/database-snapshot.ts\<close>, the copy of
  \<^verbatim>\<open>schema/engine/database-snapshot.ts\<close>) and the worker that compares it with the expected
  schema and repairs the differences (\<^verbatim>\<open>worker/schema-verifier.worker.ts\<close>). The rows of the
  catalogue queries are arguments, and so is the execution of a statement: what a
  statement does to the database is a hypothesis where it matters. A transaction follows
  PostgreSQL: after a statement fails, the others fail until its end, and its commit undoes it.
\<close>

section \<open>The snapshot of the database\<close>

record column_schema =
  co_name :: string
  co_type :: string
  co_nullable :: bool
  co_default :: "string option"
  co_primaryKey :: bool
  co_unique :: bool

record table_schema =
  tb_name :: string
  tb_columns :: "column_schema list"
  tb_indexes :: "string list"
  tb_constraints :: "string list"

record index_schema =
  ix_name :: string
  ix_table :: string
  ix_columns :: "string list"
  ix_unique :: bool

record constraint_schema =
  cn_name :: string
  cn_table :: string
  cn_type :: string
  cn_definition :: string

record enum_schema =
  en_name :: string
  en_values :: "string list"

record schema_snapshot =
  ss_tables :: "table_schema list"
  ss_indexes :: "index_schema list"
  ss_constraints :: "constraint_schema list"
  ss_enums :: "enum_schema list"

text \<open>The rows of the six queries; a row of a constraint or of an enumeration has the fields of the
  object it becomes.\<close>

record column_row =
  cr_table :: string
  cr_column :: string
  cr_type :: string
  cr_notNull :: bool
  cr_hasDefault :: bool
  cr_default :: "string option"

record index_row =
  ir_table :: string
  ir_index :: string
  ir_column :: string
  ir_unique :: bool

record catalogue =
  cg_columns :: "column_row list"
  cg_primaryKeys :: "(string \<times> string) list"
  cg_uniques :: "(string \<times> string) list"
  cg_indexes :: "index_row list"
  cg_constraints :: "constraint_schema list"
  cg_enums :: "enum_schema list"

definition new_table :: "string \<Rightarrow> table_schema" where
  "new_table t = \<lparr> tb_name = t, tb_columns = [], tb_indexes = [], tb_constraints = [] \<rparr>"

definition column_of :: "column_row \<Rightarrow> column_schema" where
  "column_of r = \<lparr> co_name = cr_column r, co_type = cr_type r, co_nullable = (\<not> cr_notNull r),
     co_default = (if cr_hasDefault r then cr_default r else None), co_primaryKey = False, co_unique = False \<rparr>"

definition table_in :: "string \<Rightarrow> table_schema list \<Rightarrow> table_schema" where
  "table_in t ts = (case lookup_by tb_name t ts of None \<Rightarrow> new_table t | Some tb \<Rightarrow> tb)"

definition add_column :: "column_row \<Rightarrow> table_schema list \<Rightarrow> table_schema list" where
  "add_column r ts = (let tb = table_in (cr_table r) ts
     in save_by tb_name (tb\<lparr> tb_columns := tb_columns tb @ [column_of r] \<rparr>) ts)"

definition group_columns :: "column_row list \<Rightarrow> table_schema list" where
  "group_columns rows = for_each add_column rows []"

text \<open>\<^verbatim>\<open>find\<close> gives the first column of the name, which is then written.\<close>

fun set_first :: "('r \<Rightarrow> bool) \<Rightarrow> ('r \<Rightarrow> 'r) \<Rightarrow> 'r list \<Rightarrow> 'r list" where
  "set_first p f [] = []"
| "set_first p f (x # xs) = (if p x then f x # xs else x # set_first p f xs)"

definition mark_column :: "(column_schema \<Rightarrow> column_schema) \<Rightarrow> string \<times> string \<Rightarrow> table_schema list \<Rightarrow> table_schema list" where
  "mark_column f k ts = update_rows (\<lambda>tb. tb_name tb = fst k)
     (\<lambda>tb. tb\<lparr> tb_columns := set_first (\<lambda>c. co_name c = snd k) f (tb_columns tb) \<rparr>) ts"

definition mark_primary :: "string \<times> string \<Rightarrow> table_schema list \<Rightarrow> table_schema list" where
  "mark_primary = mark_column (\<lambda>c. c\<lparr> co_primaryKey := True \<rparr>)"

definition mark_unique :: "string \<times> string \<Rightarrow> table_schema list \<Rightarrow> table_schema list" where
  "mark_unique = mark_column (\<lambda>c. c\<lparr> co_unique := True \<rparr>)"

text \<open>The map of the indexes is keyed by the names of table and index joined by a dot.\<close>

definition index_key :: "index_row \<Rightarrow> string" where
  "index_key r = ir_table r @ ''.'' @ ir_index r"

definition add_index :: "index_row \<Rightarrow> (string \<times> index_schema) list \<Rightarrow> (string \<times> index_schema) list" where
  "add_index r m = (let ix = (case map_of m (index_key r) of
        None \<Rightarrow> \<lparr> ix_name = ir_index r, ix_table = ir_table r, ix_columns = [], ix_unique = ir_unique r \<rparr>
      | Some ix \<Rightarrow> ix)
    in save_by fst (index_key r, ix\<lparr> ix_columns := set_add (ir_column r) (ix_columns ix) \<rparr>) m)"

definition group_indexes :: "index_row list \<Rightarrow> index_schema list" where
  "group_indexes rows = map snd (for_each add_index rows [])"

definition link_table :: "index_schema list \<Rightarrow> constraint_schema list \<Rightarrow> table_schema \<Rightarrow> table_schema" where
  "link_table ixs cns tb = tb\<lparr>
     tb_indexes := map ix_name (filter (\<lambda>ix. ix_table ix = tb_name tb) ixs),
     tb_constraints := map cn_name (filter (\<lambda>cn. cn_table cn = tb_name tb) cns) \<rparr>"

definition snapshot_of :: "catalogue \<Rightarrow> schema_snapshot" where
  "snapshot_of C = (let ixs = group_indexes (cg_indexes C);
      tables = for_each mark_unique (cg_uniques C) (for_each mark_primary (cg_primaryKeys C) (group_columns (cg_columns C)))
    in \<lparr> ss_tables = map (link_table ixs (cg_constraints C)) tables, ss_indexes = ixs,
         ss_constraints = cg_constraints C, ss_enums = cg_enums C \<rparr>)"

section \<open>Comparing schemas\<close>

datatype verifier_drift_type = Missing_Table | Missing_Column | Missing_Index | Missing_Constraint | Type_Mismatch | Extra_Object

datatype drift_object = Obj_Table | Obj_Column | Obj_Index | Obj_Constraint

datatype drift_grade = Grade_Low | Grade_Medium | Grade_High | Grade_Critical

datatype overall_severity = Sev_None | Sev_Minor | Sev_Moderate | Sev_Severe

record schema_drift =
  sd_type :: verifier_drift_type
  sd_objectName :: string
  sd_objectType :: drift_object
  sd_expected :: string
  sd_actual :: "string option"
  sd_severity :: drift_grade
  sd_autoRepairable :: bool
  sd_suggestedFix :: "string option"

record drift_detection =
  de_hasDrift :: bool
  de_drifts :: "schema_drift list"
  de_severity :: overall_severity
  de_autoRepairable :: bool
  de_requiresManualIntervention :: bool

definition drift_missing_table :: "string \<Rightarrow> schema_drift" where
  "drift_missing_table t = \<lparr> sd_type = Missing_Table, sd_objectName = t, sd_objectType = Obj_Table,
     sd_expected = ''Table should exist'', sd_actual = None, sd_severity = Grade_Critical,
     sd_autoRepairable = False, sd_suggestedFix = None \<rparr>"

definition drift_missing_column :: "string \<Rightarrow> column_schema \<Rightarrow> schema_drift" where
  "drift_missing_column t c = \<lparr> sd_type = Missing_Column, sd_objectName = t @ ''.'' @ co_name c, sd_objectType = Obj_Column,
     sd_expected = ''Column '' @ co_name c @ '' should exist'', sd_actual = None, sd_severity = Grade_High,
     sd_autoRepairable = True,
     sd_suggestedFix = Some (''ALTER TABLE '' @ t @ '' ADD COLUMN '' @ co_name c @ '' '' @ co_type c) \<rparr>"

definition type_mismatch :: "string \<Rightarrow> column_schema \<Rightarrow> column_schema \<Rightarrow> schema_drift" where
  "type_mismatch t c cur = \<lparr> sd_type = Type_Mismatch, sd_objectName = t @ ''.'' @ co_name c, sd_objectType = Obj_Column,
     sd_expected = ''Column type should be '' @ co_type c, sd_actual = Some (''Column type is '' @ co_type cur),
     sd_severity = Grade_Medium, sd_autoRepairable = False, sd_suggestedFix = None \<rparr>"

definition missing_index :: "string \<Rightarrow> string \<Rightarrow> schema_drift" where
  "missing_index t i = \<lparr> sd_type = Missing_Index, sd_objectName = t @ ''.'' @ i, sd_objectType = Obj_Index,
     sd_expected = ''Index '' @ i @ '' should exist'', sd_actual = None, sd_severity = Grade_Medium,
     sd_autoRepairable = True, sd_suggestedFix = Some (''CREATE INDEX '' @ i @ '' ON '' @ t @ '' (...)'') \<rparr>"

definition drift_extra_table :: "string \<Rightarrow> schema_drift" where
  "drift_extra_table t = \<lparr> sd_type = Extra_Object, sd_objectName = t, sd_objectType = Obj_Table,
     sd_expected = ''Table should not exist'', sd_actual = None, sd_severity = Grade_Low,
     sd_autoRepairable = True, sd_suggestedFix = Some (''DROP TABLE '' @ t) \<rparr>"

definition column_drifts :: "string \<Rightarrow> table_schema \<Rightarrow> column_schema \<Rightarrow> schema_drift list" where
  "column_drifts t cur c = (case lookup_by co_name (co_name c) (tb_columns cur) of
      None \<Rightarrow> [drift_missing_column t c]
    | Some d \<Rightarrow> if co_type d \<noteq> co_type c then [type_mismatch t c d] else [])"

definition index_drifts :: "string \<Rightarrow> table_schema \<Rightarrow> string \<Rightarrow> schema_drift list" where
  "index_drifts t cur i = (if i \<in> set (tb_indexes cur) \<and> i \<noteq> [] then [] else [missing_index t i])"

definition table_drifts :: "table_schema list \<Rightarrow> table_schema \<Rightarrow> schema_drift list" where
  "table_drifts current e = (case lookup_by tb_name (tb_name e) current of
      None \<Rightarrow> [drift_missing_table (tb_name e)]
    | Some cur \<Rightarrow> concat (map (column_drifts (tb_name e) cur) (tb_columns e))
        @ concat (map (index_drifts (tb_name e) cur) (tb_indexes e)))"

definition extra_drifts :: "table_schema list \<Rightarrow> table_schema \<Rightarrow> schema_drift list" where
  "extra_drifts expected t = (case lookup_by tb_name (tb_name t) expected of None \<Rightarrow> [drift_extra_table (tb_name t)] | Some _ \<Rightarrow> [])"

definition calculateDriftSeverity :: "schema_drift list \<Rightarrow> overall_severity" where
  "calculateDriftSeverity ds =
    (if ds = [] then Sev_None
     else let critical = count_rows (\<lambda>d. sd_severity d = Grade_Critical) ds;
              high = count_rows (\<lambda>d. sd_severity d = Grade_High) ds;
              medium = count_rows (\<lambda>d. sd_severity d = Grade_Medium) ds
       in if critical > 0 then Sev_Severe
          else if high > 2 then Sev_Severe
          else if high > 0 \<or> medium > 5 then Sev_Moderate
          else if medium > 0 then Sev_Minor else Sev_Minor)"

definition verifier_compareSchemas :: "schema_snapshot \<Rightarrow> schema_snapshot \<Rightarrow> drift_detection" where
  "verifier_compareSchemas expected current =
    (let ds = concat (map (table_drifts (ss_tables current)) (ss_tables expected))
            @ concat (map (extra_drifts (ss_tables expected)) (ss_tables current))
     in \<lparr> de_hasDrift = (0 < length ds), de_drifts = ds, de_severity = calculateDriftSeverity ds,
          de_autoRepairable = list_all sd_autoRepairable ds,
          de_requiresManualIntervention = list_ex (\<lambda>d. \<not> sd_autoRepairable d) ds \<rparr>)"

section \<open>Repairs\<close>

datatype repair_type = Repair_Create | Repair_Alter | Repair_Drop

record repair_action =
  ra_type :: repair_type
  ra_sql :: string
  ra_description :: string
  ra_estimatedTime :: string
  ra_requiresApproval :: bool

definition getColumnDefinition :: "string \<Rightarrow> string \<Rightarrow> string" where
  "getColumnDefinition t c = ''VARCHAR(255)''"

definition getIndexDefinition :: "string \<Rightarrow> string \<Rightarrow> string" where
  "getIndexDefinition t i = ''(id)''"

text \<open>The first two parts of a name split at its dots; a part that is missing is
  \<^verbatim>\<open>undefined\<close>, which a template literal shows.\<close>

definition name_part :: "nat \<Rightarrow> string \<Rightarrow> string" where
  "name_part i n = (let ps = split_on (CHR ''.'') n in if i < length ps then ps ! i else ''undefined'')"

definition createMissingColumnRepair :: "schema_drift \<Rightarrow> repair_action" where
  "createMissingColumnRepair d = (let t = name_part 0 (sd_objectName d); c = name_part 1 (sd_objectName d)
     in \<lparr> ra_type = Repair_Create, ra_sql = ''ALTER TABLE '' @ t @ '' ADD COLUMN '' @ c @ '' '' @ getColumnDefinition t c,
          ra_description = ''Add missing column '' @ c @ '' to '' @ t, ra_estimatedTime = ''00:00:05'',
          ra_requiresApproval = False \<rparr>)"

definition createMissingIndexRepair :: "schema_drift \<Rightarrow> repair_action" where
  "createMissingIndexRepair d = (let t = name_part 0 (sd_objectName d); i = name_part 1 (sd_objectName d)
     in \<lparr> ra_type = Repair_Create, ra_sql = ''CREATE INDEX '' @ i @ '' ON '' @ t @ '' '' @ getIndexDefinition t i,
          ra_description = ''Add missing index '' @ i @ '' to '' @ t, ra_estimatedTime = ''00:01:00'',
          ra_requiresApproval = False \<rparr>)"

fun object_word :: "drift_object \<Rightarrow> string" where
  "object_word Obj_Table = ''TABLE''"
| "object_word Obj_Column = ''COLUMN''"
| "object_word Obj_Index = ''INDEX''"
| "object_word Obj_Constraint = ''CONSTRAINT''"

definition createExtraObjectRepair :: "schema_drift \<Rightarrow> repair_action" where
  "createExtraObjectRepair d = (if sd_objectType d = Obj_Table
     then \<lparr> ra_type = Repair_Drop, ra_sql = ''DROP TABLE '' @ sd_objectName d,
            ra_description = ''Remove extra table '' @ sd_objectName d, ra_estimatedTime = ''00:00:05'',
            ra_requiresApproval = True \<rparr>
     else \<lparr> ra_type = Repair_Drop, ra_sql = ''DROP '' @ object_word (sd_objectType d) @ '' '' @ sd_objectName d,
            ra_description = ''Remove extra '' @ object_word (sd_objectType d) @ '' '' @ sd_objectName d,
            ra_estimatedTime = ''00:00:05'', ra_requiresApproval = False \<rparr>)"

definition createRepairAction :: "schema_drift \<Rightarrow> repair_action option" where
  "createRepairAction d = (case sd_type d of
      Missing_Column \<Rightarrow> Some (createMissingColumnRepair d)
    | Missing_Index \<Rightarrow> Some (createMissingIndexRepair d)
    | Extra_Object \<Rightarrow> Some (createExtraObjectRepair d)
    | _ \<Rightarrow> None)"

text \<open>A connection in a transaction: the database as the transaction sees it and as it was
  when it began, and whether a statement has failed.\<close>

record 'db connection =
  cx_now :: 'db
  cx_begin :: 'db
  cx_failed :: bool

definition tx_begin :: "'db \<Rightarrow> 'db connection" where
  "tx_begin db = \<lparr> cx_now = db, cx_begin = db, cx_failed = False \<rparr>"

definition tx_query :: "(string \<Rightarrow> 'db \<Rightarrow> string + 'db) \<Rightarrow> string \<Rightarrow> 'db connection \<Rightarrow> 'db connection \<times> (string + unit)" where
  "tx_query exec sql c =
    (if cx_failed c then (c, Inl ''current transaction is aborted, commands ignored until end of transaction block'')
     else case exec sql (cx_now c) of
        Inl e \<Rightarrow> (c\<lparr> cx_failed := True \<rparr>, Inl e)
      | Inr db \<Rightarrow> (c\<lparr> cx_now := db \<rparr>, Inr ()))"

definition tx_commit :: "'db connection \<Rightarrow> 'db" where
  "tx_commit c = (if cx_failed c then cx_begin c else cx_now c)"

record auto_repair_result =
  rr_success :: bool
  rr_repairs :: "repair_action list"
  rr_errors :: "string list"

definition repair_one ::
    "(string \<Rightarrow> 'db \<Rightarrow> string + 'db) \<Rightarrow> schema_drift \<Rightarrow> 'db connection \<times> auto_repair_result
      \<Rightarrow> 'db connection \<times> auto_repair_result" where
  "repair_one exec d s = (case createRepairAction d of
      None \<Rightarrow> s
    | Some a \<Rightarrow> (case tx_query exec (ra_sql a) (fst s) of
        (c, Inl e) \<Rightarrow> (c, (snd s)\<lparr> rr_errors := rr_errors (snd s) @ [''Failed to repair '' @ sd_objectName d @ '': '' @ e] \<rparr>)
      | (c, Inr _) \<Rightarrow> (c, (snd s)\<lparr> rr_repairs := rr_repairs (snd s) @ [a] \<rparr>)))"

text \<open>What the connection may raise: on connecting, on \<^verbatim>\<open>BEGIN\<close>, and on \<^verbatim>\<open>COMMIT\<close>. A roll-back
  without a transaction raises itself.\<close>

record connection_faults =
  cf_connect :: "string option"
  cf_begin :: "string option"
  cf_commit :: "string option"

definition no_repair :: auto_repair_result where
  "no_repair = \<lparr> rr_success = False, rr_repairs = [], rr_errors = [] \<rparr>"

definition performAutoRepair ::
    "(string \<Rightarrow> 'db \<Rightarrow> string + 'db) \<Rightarrow> connection_faults \<Rightarrow> schema_drift list \<Rightarrow> ('db, string, auto_repair_result) action" where
  "performAutoRepair exec F ds db = (case cf_connect F of
      Some e \<Rightarrow> (db, Inl e)
    | None \<Rightarrow> (case cf_begin F of
        Some e \<Rightarrow> (db, Inl ''Transaction is not started yet, start transaction before committing or rolling it back.'')
      | None \<Rightarrow> (case for_each (repair_one exec) ds (tx_begin db, no_repair) of (c, r) \<Rightarrow>
          (case cf_commit F of
             Some e \<Rightarrow> (db, Inr (r\<lparr> rr_errors := rr_errors r @ [''Transaction failed: '' @ e] \<rparr>))
           | None \<Rightarrow> (tx_commit c, Inr (r\<lparr> rr_success := (length (rr_errors r) = 0) \<rparr>))))))"

datatype drift_outcome = Repair_Done auto_repair_result | Manual_Intervention | Drift_Noted

definition handleDrift ::
    "(string \<Rightarrow> 'db \<Rightarrow> string + 'db) \<Rightarrow> connection_faults \<Rightarrow> drift_detection \<Rightarrow> ('db, string, drift_outcome) action" where
  "handleDrift exec F r db =
    (if de_autoRepairable r \<and> length (de_drifts r) > 0
     then case performAutoRepair exec F (de_drifts r) db of
        (db', Inl e) \<Rightarrow> (db', Inl e) | (db', Inr rr) \<Rightarrow> (db', Inr (Repair_Done rr))
     else if de_requiresManualIntervention r then (db, Inr Manual_Intervention)
     else (db, Inr Drift_Noted))"

section \<open>The worker\<close>

text \<open>\<^verbatim>\<open>latest\<close> is the answer of the query for the newest executed migration: an error, no row, or
  its name.\<close>

definition getExpectedSchema :: "string + string option \<Rightarrow> string + schema_snapshot" where
  "getExpectedSchema latest = (case latest of
      Inl e \<Rightarrow> Inl e
    | Inr None \<Rightarrow> Inl ''No migrations found''
    | Inr (Some _) \<Rightarrow> Inr \<lparr> ss_tables = [], ss_indexes = [], ss_constraints = [], ss_enums = [] \<rparr>)"

datatype verification = Verification_Error string | Verification_Passed | Drift_Handled drift_outcome

definition performVerification ::
    "(string \<Rightarrow> 'db \<Rightarrow> string + 'db) \<Rightarrow> connection_faults \<Rightarrow> string + catalogue \<Rightarrow> string + string option
      \<Rightarrow> 'db \<Rightarrow> 'db \<times> verification" where
  "performVerification exec F read latest db = (case read of
      Inl e \<Rightarrow> (db, Verification_Error e)
    | Inr C \<Rightarrow> (case getExpectedSchema latest of
        Inl e \<Rightarrow> (db, Verification_Error e)
      | Inr expected \<Rightarrow> (let r = verifier_compareSchemas expected (snapshot_of C)
         in if de_hasDrift r
            then case handleDrift exec F r db of
                (db', Inl e) \<Rightarrow> (db', Verification_Error e) | (db', Inr out) \<Rightarrow> (db', Drift_Handled out)
            else (db, Verification_Passed))))"

text \<open>Starting awaits the first verification before it sets the timer; the timers that run are
  numbered, and \<^verbatim>\<open>intervalId\<close> is one of them or nothing.\<close>

record verifier =
  vf_isRunning :: bool
  vf_intervalId :: "nat option"
  vf_timers :: "nat list"

definition start_begin :: "verifier \<Rightarrow> verifier \<times> bool" where
  "start_begin v = (if vf_isRunning v then (v, False) else (v\<lparr> vf_isRunning := True \<rparr>, True))"

definition start_end :: "nat \<Rightarrow> verifier \<Rightarrow> verifier" where
  "start_end n v = v\<lparr> vf_intervalId := Some n, vf_timers := n # vf_timers v \<rparr>"

definition verifier_stop :: "verifier \<Rightarrow> verifier" where
  "verifier_stop v = (case vf_intervalId v of
      None \<Rightarrow> v\<lparr> vf_isRunning := False \<rparr>
    | Some n \<Rightarrow> v\<lparr> vf_timers := removeAll n (vf_timers v), vf_intervalId := None, vf_isRunning := False \<rparr>)"

definition getStatus :: "int \<Rightarrow> verifier \<Rightarrow> bool \<times> int \<times> nat" where
  "getStatus now v = (vf_isRunning v, now, 0)"

section \<open>What the snapshot holds\<close>

lemma for_each_append: "for_each f (xs @ ys) s = for_each f ys (for_each f xs s)"
  by (induction xs arbitrary: s) simp_all

lemma table_in_name [simp]: "tb_name (table_in t ts) = t"
  by (auto simp: table_in_def new_table_def dest: lookup_by_SomeD split: option.splits)

lemma lookup_group:
  "lookup_by tb_name t (group_columns rows) = (let rs = filter (\<lambda>r. cr_table r = t) rows
     in if rs = [] then None else Some ((new_table t)\<lparr> tb_columns := map column_of rs \<rparr>))"
proof (induction rows rule: rev_induct)
  case (snoc r rows)
  let ?ts = "group_columns rows"
  have "lookup_by tb_name t (group_columns (rows @ [r])) = (if t = cr_table r
      then Some ((table_in t ?ts)\<lparr> tb_columns := tb_columns (table_in t ?ts) @ [column_of r] \<rparr>) else lookup_by tb_name t ?ts)"
    by (simp add: group_columns_def for_each_append add_column_def lookup_save_by Let_def)
  then show ?case
    using snoc by (auto simp: table_in_def new_table_def Let_def)
qed (simp add: group_columns_def)

lemma group_names:
  "distinct (map tb_name (group_columns rows)) \<and> tb_name ` set (group_columns rows) = cr_table ` set rows"
proof (induction rows rule: rev_induct)
  case (snoc r rows)
  have "map tb_name (add_column r ts) = (if cr_table r \<in> tb_name ` set ts then map tb_name ts else map tb_name ts @ [cr_table r])" for ts
    by (simp add: add_column_def keys_save_by Let_def)
  then have "set (map tb_name (add_column r ts)) = insert (cr_table r) (tb_name ` set ts)"
    and "distinct (map tb_name ts) \<Longrightarrow> distinct (map tb_name (add_column r ts))" for ts
    by (auto split: if_splits)
  then show ?case using snoc by (simp add: group_columns_def for_each_append)
qed (simp add: group_columns_def)

definition column_shape :: "column_schema \<Rightarrow> string \<times> string \<times> bool \<times> string option" where
  "column_shape c = (co_name c, co_type c, co_nullable c, co_default c)"

lemma set_first_map: "(\<And>x. g (f x) = g x) \<Longrightarrow> map g (set_first p f xs) = map g xs"
  by (induction xs) simp_all

definition same_shape :: "table_schema list \<Rightarrow> table_schema list \<Rightarrow> bool" where
  "same_shape ts ts' \<longleftrightarrow> map (\<lambda>tb. (tb_name tb, map column_shape (tb_columns tb))) ts
     = map (\<lambda>tb. (tb_name tb, map column_shape (tb_columns tb))) ts'"

lemma mark_shape: "(\<And>c. column_shape (f c) = column_shape c) \<Longrightarrow> same_shape (mark_column f k ts) ts"
  by (simp add: same_shape_def mark_column_def update_rows_def set_first_map)

lemma marks_shape:
  "same_shape (for_each mark_unique us (for_each mark_primary ps ts)) ts"
proof -
  have step: "same_shape (mark_primary k s) ts" "same_shape (mark_unique k s) ts" if "same_shape s ts" for k s
    using that mark_shape[of "\<lambda>c. c\<lparr> co_primaryKey := True \<rparr>" k s] mark_shape[of "\<lambda>c. c\<lparr> co_unique := True \<rparr>" k s]
    by (simp_all add: same_shape_def mark_primary_def mark_unique_def column_shape_def)
  have "same_shape (for_each mark_primary ps ts) ts"
    by (rule for_each_invariant[where I = "\<lambda>s. same_shape s ts"]) (auto simp: step same_shape_def[of ts ts])
  then show ?thesis
    by (rule for_each_invariant[where I = "\<lambda>s. same_shape s ts"]) (rule step)
qed

text \<open>The snapshot lists every table of the catalogue once, with its columns in the order of the rows.\<close>

theorem snapshot_groups_rows:
  "distinct (map tb_name (ss_tables (snapshot_of C)))
   \<and> tb_name ` set (ss_tables (snapshot_of C)) = cr_table ` set (cg_columns C)
   \<and> (\<forall>tb \<in> set (ss_tables (snapshot_of C)). map column_shape (tb_columns tb)
        = map (\<lambda>r. column_shape (column_of r)) (filter (\<lambda>r. cr_table r = tb_name tb) (cg_columns C)))"
proof -
  let ?g = "group_columns (cg_columns C)"
  let ?h = "\<lambda>tb. (tb_name tb, map column_shape (tb_columns tb))"
  have eq: "map ?h (ss_tables (snapshot_of C)) = map ?h ?g"
    using marks_shape[of "cg_uniques C" "cg_primaryKeys C" ?g]
    by (simp add: snapshot_of_def Let_def same_shape_def comp_def link_table_def)
  then have "map fst (map ?h (ss_tables (snapshot_of C))) = map fst (map ?h ?g)" by (rule arg_cong)
  then have names: "map tb_name (ss_tables (snapshot_of C)) = map tb_name ?g" by (simp add: comp_def)
  have shape: "map column_shape (tb_columns tb) = map (\<lambda>r. column_shape (column_of r)) (filter (\<lambda>r. cr_table r = tb_name tb) (cg_columns C))"
    if "tb \<in> set (ss_tables (snapshot_of C))" for tb
  proof -
    have "?h tb \<in> set (map ?h ?g)" using that eq by (metis (no_types, lifting) image_eqI list.set_map)
    then obtain q where q: "q \<in> set ?g" "?h q = ?h tb" by auto
    then have "lookup_by tb_name (tb_name tb) ?g = Some q"
      using lookup_by_distinct[of tb_name ?g q] group_names[of "cg_columns C"] by simp
    then show ?thesis using q(2) by (auto simp: lookup_group new_table_def comp_def Let_def split: if_splits)
  qed
  moreover have "distinct (map tb_name (ss_tables (snapshot_of C)))"
    using group_names[of "cg_columns C"] names by simp
  moreover have "tb_name ` set (ss_tables (snapshot_of C)) = cr_table ` set (cg_columns C)"
    using group_names[of "cg_columns C"] names by (metis list.set_map)
  ultimately show ?thesis by blast
qed

section \<open>What a verification does\<close>

text \<open>There is no drift exactly when every expected table, column type and index is there and no other table.\<close>

definition conforms :: "table_schema list \<Rightarrow> table_schema \<Rightarrow> bool" where
  "conforms current e \<longleftrightarrow> (\<exists>cur. lookup_by tb_name (tb_name e) current = Some cur
     \<and> (\<forall>c \<in> set (tb_columns e). \<exists>d. lookup_by co_name (co_name c) (tb_columns cur) = Some d \<and> co_type d = co_type c)
     \<and> set (tb_indexes e) \<subseteq> set (tb_indexes cur) - {[]})"

lemma no_column_drift:
  "column_drifts t cur c = [] \<longleftrightarrow> (\<exists>d. lookup_by co_name (co_name c) (tb_columns cur) = Some d \<and> co_type d = co_type c)"
  by (auto simp: column_drifts_def split: option.splits)

lemma no_index_drift: "index_drifts t cur i = [] \<longleftrightarrow> i \<in> set (tb_indexes cur) - {[]}"
  by (simp add: index_drifts_def)

lemma no_table_drift: "table_drifts current e = [] \<longleftrightarrow> conforms current e"
  by (cases "lookup_by tb_name (tb_name e) current")
    (auto simp: table_drifts_def conforms_def no_column_drift no_index_drift subset_iff)

theorem no_drift_iff_conforms:
  "\<not> de_hasDrift (verifier_compareSchemas e c) \<longleftrightarrow>
     (\<forall>t \<in> set (ss_tables e). conforms (ss_tables c) t) \<and> tb_name ` set (ss_tables c) \<subseteq> tb_name ` set (ss_tables e)"
proof -
  have "concat (map (extra_drifts (ss_tables e)) (ss_tables c)) = [] \<longleftrightarrow> tb_name ` set (ss_tables c) \<subseteq> tb_name ` set (ss_tables e)"
    by (auto simp: extra_drifts_def lookup_by_None image_iff split: option.splits)
  then show ?thesis by (auto simp: verifier_compareSchemas_def Let_def no_table_drift)
qed

fun run_statements :: "(string \<Rightarrow> 'db \<Rightarrow> string + 'db) \<Rightarrow> string list \<Rightarrow> 'db \<Rightarrow> 'db option" where
  "run_statements exec [] db = Some db"
| "run_statements exec (q # qs) db = (case exec q db of Inl _ \<Rightarrow> None | Inr db' \<Rightarrow> run_statements exec qs db')"

definition repairs_for :: "schema_drift list \<Rightarrow> repair_action list" where
  "repairs_for ds = List.map_filter createRepairAction ds"

lemma repairs_for_simps [simp]:
  "repairs_for [] = []"
  "repairs_for (d # ds) = (case createRepairAction d of None \<Rightarrow> repairs_for ds | Some a \<Rightarrow> a # repairs_for ds)"
  by (auto simp: repairs_for_def List.map_filter_simps split: option.splits)

lemma repair_after_failure:
  "cx_failed c \<Longrightarrow> rr_errors r \<noteq> [] \<Longrightarrow> \<exists>r'. for_each (repair_one exec) ds (c, r) = (c, r') \<and> rr_errors r' \<noteq> []"
proof (induction ds arbitrary: r)
  case (Cons d ds)
  then show ?case by (cases "createRepairAction d") (auto simp: repair_one_def tx_query_def)
qed simp

lemma repair_loop:
  assumes "\<not> cx_failed c" "rr_errors r = []"
  shows "case run_statements exec (map ra_sql (repairs_for ds)) (cx_now c) of
      Some db \<Rightarrow> for_each (repair_one exec) ds (c, r) = (c\<lparr> cx_now := db \<rparr>, r\<lparr> rr_repairs := rr_repairs r @ repairs_for ds \<rparr>)
    | None \<Rightarrow> \<exists>c' r'. for_each (repair_one exec) ds (c, r) = (c', r') \<and> cx_failed c' \<and> cx_begin c' = cx_begin c \<and> rr_errors r' \<noteq> []"
  using assms
proof (induction ds arbitrary: c r)
  case (Cons d ds)
  show ?case
  proof (cases "createRepairAction d")
    case None
    then have "for_each (repair_one exec) (d # ds) (c, r) = for_each (repair_one exec) ds (c, r)"
      by (simp add: repair_one_def)
    then show ?thesis using Cons.IH[OF Cons.prems] None by (simp split: option.splits)
  next
    case (Some a)
    show ?thesis
    proof (cases "exec (ra_sql a) (cx_now c)")
      case (Inl e)
      let ?c = "c\<lparr> cx_failed := True \<rparr>"
      let ?r = "r\<lparr> rr_errors := rr_errors r @ [''Failed to repair '' @ sd_objectName d @ '': '' @ e] \<rparr>"
      have "\<exists>r'. for_each (repair_one exec) ds (?c, ?r) = (?c, r') \<and> rr_errors r' \<noteq> []"
        by (rule repair_after_failure) simp_all
      then show ?thesis using Some Inl Cons.prems by (auto simp: repair_one_def tx_query_def)
    next
      case (Inr db)
      have "for_each (repair_one exec) (d # ds) (c, r)
        = for_each (repair_one exec) ds (c\<lparr> cx_now := db \<rparr>, r\<lparr> rr_repairs := rr_repairs r @ [a] \<rparr>)"
        using Some Inr Cons.prems by (simp add: repair_one_def tx_query_def)
      then show ?thesis
        using Cons.IH[of "c\<lparr> cx_now := db \<rparr>" "r\<lparr> rr_repairs := rr_repairs r @ [a] \<rparr>"] Cons.prems Some Inr
        by (simp split: option.splits)
    qed
  qed
qed simp

lemma tx_begin_simps [simp]: "cx_now (tx_begin db) = db" "cx_begin (tx_begin db) = db" "\<not> cx_failed (tx_begin db)"
  by (simp_all add: tx_begin_def)

text \<open>The repairs are made all or none, and success is reported exactly when all are made.\<close>

theorem repairs_all_or_none:
  "case performAutoRepair exec F ds db of
     (db', Inl _) \<Rightarrow> db' = db
   | (db', Inr r) \<Rightarrow> if rr_success r
       then run_statements exec (map ra_sql (repairs_for ds)) db = Some db' \<and> rr_repairs r = repairs_for ds \<and> rr_errors r = []
       else db' = db \<and> rr_errors r \<noteq> []"
proof (cases "run_statements exec (map ra_sql (repairs_for ds)) db")
  case None
  then obtain c r where "for_each (repair_one exec) ds (tx_begin db, no_repair) = (c, r)" "cx_failed c" "cx_begin c = db" "rr_errors r \<noteq> []"
    using repair_loop[of "tx_begin db" no_repair exec ds] by (auto simp: no_repair_def)
  moreover have "rr_success r = False"
  proof -
    have "\<not> rr_success (snd (for_each (repair_one exec) ds (tx_begin db, no_repair)))"
      by (rule for_each_invariant) (auto simp: no_repair_def repair_one_def tx_query_def split: option.splits sum.splits)
    then show ?thesis using calculation by simp
  qed
  ultimately show ?thesis by (simp add: performAutoRepair_def tx_commit_def split: option.splits)
next
  case (Some db')
  then have "for_each (repair_one exec) ds (tx_begin db, no_repair)
      = ((tx_begin db)\<lparr> cx_now := db' \<rparr>, no_repair\<lparr> rr_repairs := repairs_for ds \<rparr>)"
    using repair_loop[of "tx_begin db" no_repair exec ds] by (simp add: no_repair_def)
  then show ?thesis
    using Some by (simp add: performAutoRepair_def tx_commit_def no_repair_def split: option.splits)
qed

section \<open>Every table is extra\<close>

lemma all_extra:
  "verifier_compareSchemas \<lparr> ss_tables = [], ss_indexes = [], ss_constraints = [], ss_enums = [] \<rparr> s
     = \<lparr> de_hasDrift = (ss_tables s \<noteq> []), de_drifts = map (\<lambda>t. drift_extra_table (tb_name t)) (ss_tables s),
         de_severity = (if ss_tables s = [] then Sev_None else Sev_Minor), de_autoRepairable = True,
         de_requiresManualIntervention = False \<rparr>"
proof -
  have d: "concat (map (extra_drifts []) ts) = map (\<lambda>t. drift_extra_table (tb_name t)) ts" for ts
    by (induction ts) (simp_all add: extra_drifts_def)
  show ?thesis
    by (auto simp: verifier_compareSchemas_def d calculateDriftSeverity_def count_rows_def drift_extra_table_def
        comp_def filter_empty_conv list_all_iff list_ex_iff)
qed

lemma extra_repair:
  "ra_sql (createExtraObjectRepair (drift_extra_table t)) = ''DROP TABLE '' @ t"
  "ra_requiresApproval (createExtraObjectRepair (drift_extra_table t))"
  by (simp_all add: createExtraObjectRepair_def drift_extra_table_def)

lemma extra_repairs:
  "repairs_for (map (\<lambda>t. drift_extra_table (tb_name t)) ts) = map (\<lambda>t. createExtraObjectRepair (drift_extra_table (tb_name t))) ts"
  by (induction ts) (simp_all add: createRepairAction_def drift_extra_table_def)

text \<open>The expected schema is always empty, so the repairs of a verification that reads the database are
  to drop every table of the snapshot, and each says that it requires approval.\<close>

theorem every_table_is_to_be_dropped:
  assumes "getExpectedSchema latest = Inr expected"
  shows "map ra_sql (repairs_for (de_drifts (verifier_compareSchemas expected s)))
      = map (\<lambda>t. ''DROP TABLE '' @ tb_name t) (ss_tables s)
    \<and> (\<forall>a \<in> set (repairs_for (de_drifts (verifier_compareSchemas expected s))). ra_requiresApproval a)"
proof -
  have "expected = \<lparr> ss_tables = [], ss_indexes = [], ss_constraints = [], ss_enums = [] \<rparr>"
    using assms by (auto simp: getExpectedSchema_def split: sum.splits option.splits)
  then show ?thesis by (simp add: all_extra extra_repairs extra_repair comp_def)
qed

text \<open>A worker stopped while its start awaits the first verification keeps its timer: it runs although
  the status says that it does not, and after a second start no stop ends it.\<close>

lemma stop_during_start_is_lost:
  fixes v :: verifier
  defines "v \<equiv> \<lparr> vf_isRunning = False, vf_intervalId = None, vf_timers = [] \<rparr>"
  defines "w \<equiv> start_end 1 (verifier_stop (fst (start_begin v)))"
  shows "vf_isRunning w = False \<and> vf_timers w = [1]"
    "vf_timers (verifier_stop (start_end 2 (fst (start_begin w)))) = [1]"
  by (simp_all add: v_def w_def start_begin_def start_end_def verifier_stop_def)

end
