(* ===== verification/Migration_Files.thy ===== *)
theory Migration_Files
  imports Lifecycle_Split Schema_Diff "HOL-Library.List_Lexorder" "HOL-Library.Char_ord"
begin

text \<open>
  Migration files: what the generator writes (\<^verbatim>\<open>schema/engine/generate-migration.ts\<close>), what
  is read back from a file (\<^verbatim>\<open>extractSqlStatements\<close> and the queries of
  \<^verbatim>\<open>detect-schema-diff.ts\<close>, \<^verbatim>\<open>classifyMigrationFile\<close> of \<^verbatim>\<open>classify-operations.ts\<close>), and the
  companions of a statement (\<^verbatim>\<open>generateCompanions\<close> of \<^verbatim>\<open>lifecycle-split.ts\<close>). The file system is a list
  of paths and texts; a text is its bytes in UTF-8, in which a dash has three. A
  directory is given without a slash at its end.
\<close>

section \<open>The text of a file\<close>

definition nl :: string where
  "nl = [CHR 0x0A]"

definition dash :: string where
  "dash = [CHR 0xE2, CHR 0x80, CHR 0x94]"

definition tick :: string where
  "tick = [CHR 0x27]"

definition up_statement :: "string \<Rightarrow> string" where
  "up_statement s = ''    await queryRunner.query(`'' @ nl @ ''      '' @ s @ nl @ ''    `);''"

definition file_start :: string where
  "file_start = ''import { MigrationInterface, QueryRunner } from 'typeorm';'' @ nl @ nl"

definition class_start :: "string \<Rightarrow> string" where
  "class_start className = nl @ ''export class '' @ className @ '' implements MigrationInterface {'' @ nl
     @ ''  name = '' @ tick @ className @ tick @ '';'' @ nl @ nl
     @ ''  public async up(queryRunner: QueryRunner): Promise<void> {'' @ nl"

definition class_end :: string where
  "class_end = nl @ ''  }'' @ nl @ nl @ ''  public async down(queryRunner: QueryRunner): Promise<void> {'' @ nl
     @ ''    // TODO: Implement rollback logic'' @ nl
     @ ''    throw new Error('' @ tick @ ''Manual rollback required '' @ dash @ '' see ROLLBACK PLAN in header'' @ tick @ '');'' @ nl
     @ ''  }'' @ nl @ ''}'' @ nl"

definition buildMigrationFile :: "string \<Rightarrow> string list \<Rightarrow> string \<Rightarrow> string" where
  "buildMigrationFile className stmts header =
     file_start @ header @ class_start className @ js_join (nl @ nl) (map up_statement stmts) @ class_end"

section \<open>Headers\<close>

datatype file_kind = SAFE_FILE | DATA_FILE | BREAKING_FILE

definition approval_line :: "file_kind \<Rightarrow> string" where
  "approval_line t = (if t = BREAKING_FILE
     then '' *'' @ nl @ '' * @approved-breaking: <REQUIRED '' @ dash @ '' reviewer name + reason this is safe to deploy>'' @ nl
     else [])"

fun checklist :: "file_kind \<Rightarrow> string" where
  "checklist SAFE_FILE = js_join nl [
     '' *   [ ] Reviewed generated SQL (not just the TypeScript)'',
     '' *   [ ] Uses IF NOT EXISTS / IF EXISTS for idempotency'',
     '' *   [ ] New indexes use CONCURRENTLY + transaction = false'',
     '' *   [ ] Tested migration:revert locally'',
     '' *   [ ] Passes: npm run db:verify'']"
| "checklist DATA_FILE = js_join nl [
     '' *   [ ] Data integrity verified on staging'',
     '' *   [ ] Batched for >10k rows (add @large-batch + loop)'',
     '' *   [ ] No schema changes mixed in'',
     '' *   [ ] Tested migration:revert locally'',
     '' *   [ ] Passes: npm run db:verify'']"
| "checklist BREAKING_FILE = js_join nl [
     '' *   [ ] @approved-breaking filled in with reviewer name and reason'',
     '' *   [ ] All app code no longer references dropped/changed column'',
     '' *   [ ] Backward-compat layer deployed before this migration'',
     '' *   [ ] Coordinated deploy window with team'',
     '' *   [ ] Tested migration:revert locally'',
     '' *   [ ] Passes: npm run db:verify'']"

fun type_word :: "file_kind \<Rightarrow> string" where
  "type_word SAFE_FILE = ''SAFE''"
| "type_word DATA_FILE = ''DATA''"
| "type_word BREAKING_FILE = ''BREAKING''"

fun risk_word :: "file_kind \<Rightarrow> string" where
  "risk_word SAFE_FILE = ''LOW''"
| "risk_word DATA_FILE = ''MEDIUM''"
| "risk_word BREAKING_FILE = ''HIGH''"

fun rollback_word :: "file_kind \<Rightarrow> string" where
  "rollback_word BREAKING_FILE = ''DATA_LOSS''"
| "rollback_word _ = ''SAFE''"

definition header_text :: "string \<Rightarrow> file_kind \<Rightarrow> string" where
  "header_text intent t = ''/**'' @ nl @ '' * INTENT:    '' @ intent @ nl @ '' * TYPE:      '' @ type_word t @ nl
     @ '' * RISK:      '' @ risk_word t @ nl @ '' * ROLLBACK:  '' @ rollback_word t @ nl
     @ approval_line t @ '' *'' @ nl @ '' * CHECKLIST (mark [x] before merging):'' @ nl
     @ checklist t @ nl @ '' */'' @ nl"

definition buildLifecycleHeader :: "file_kind \<Rightarrow> string \<Rightarrow> string \<Rightarrow> nat \<Rightarrow> string" where
  "buildLifecycleHeader t name title n =
     header_text (title @ '' phase for '' @ name @ '' '' @ dash @ '' '' @ nat_str n @ '' statement(s)'') t"

text \<open>A companion is a data or a breaking one.\<close>

record companion_migration =
  cm_phase :: file_kind
  cm_sql :: string
  cm_reason :: string

definition companion_type :: "file_kind \<Rightarrow> file_kind" where
  "companion_type p = (if p = DATA_FILE then DATA_FILE else BREAKING_FILE)"

definition buildCompanionHeader :: "file_kind \<Rightarrow> string \<Rightarrow> string" where
  "buildCompanionHeader p reason = header_text reason (companion_type p)"

section \<open>Writing\<close>

type_synonym files = "(string \<times> string) list"

definition prefix_of :: "file_kind \<Rightarrow> string" where
  "prefix_of t = type_word t @ ''_''"

definition path_join :: "string \<Rightarrow> string \<Rightarrow> string" where
  "path_join d f = d @ ''/'' @ f"

definition class_of :: "file_kind \<Rightarrow> string \<Rightarrow> string \<Rightarrow> string" where
  "class_of t name stamp = remove1 (CHR ''_'') (prefix_of t) @ name @ stamp"

definition file_of :: "file_kind \<Rightarrow> string \<Rightarrow> string \<Rightarrow> string" where
  "file_of t name stamp = stamp @ ''-'' @ prefix_of t @ name @ ''.ts''"

definition writeMigrationFile ::
    "nat \<Rightarrow> string \<Rightarrow> file_kind \<Rightarrow> string \<Rightarrow> string list \<Rightarrow> string \<Rightarrow> files \<Rightarrow> files \<times> string" where
  "writeMigrationFile now outputDir t name stmts header fs =
    (if stmts = [] then (fs, [])
     else let stamp = nat_str now; path = path_join outputDir (file_of t name stamp)
       in (save_by fst (path, buildMigrationFile (class_of t name stamp) stmts header) fs, path))"

definition basename :: "string \<Rightarrow> string" where
  "basename p = rev (takeWhile (\<lambda>c. c \<noteq> CHR ''/'') (rev p))"

definition basename_ts :: "string \<Rightarrow> string" where
  "basename_ts p = (let b = basename p in
     if drop (length b - 3) b = ''.ts'' \<and> 3 < length b then take (length b - 3) b else b)"

text \<open>\<^verbatim>\<open>String(parseInt(s, 10) + k)\<close> for the names of files, which begin with digits, and for the empty text.\<close>

definition stamp_plus :: "string \<Rightarrow> nat \<Rightarrow> string" where
  "stamp_plus s k = (let ds = takeWhile is_digit s in if ds = [] then ''NaN'' else nat_str (digits_value ds + k))"

definition companion_file :: "string \<Rightarrow> nat \<Rightarrow> companion_migration \<Rightarrow> string \<times> string \<times> string" where
  "companion_file basePath i c = (let t = companion_type (cm_phase c);
      stamp = stamp_plus (hd (split_on (CHR ''-'') (basename basePath))) (i + 1);
      name = js_join ''-'' (tl (split_on (CHR ''-'') (basename_ts basePath)))
    in (file_of t name stamp, class_of t name stamp, buildCompanionHeader (cm_phase c) (cm_reason c)))"

definition write_companion :: "string \<Rightarrow> string \<Rightarrow> nat \<times> companion_migration \<Rightarrow> files \<times> string list \<Rightarrow> files \<times> string list" where
  "write_companion basePath outputDir = (\<lambda>(i, c) (fs, created). case companion_file basePath i c of
     (file, className, header) \<Rightarrow> (let path = path_join outputDir file in
       (save_by fst (path, buildMigrationFile className [cm_sql c] header) fs, created @ [path])))"

definition writeCompanionMigrations ::
    "string \<Rightarrow> companion_migration list \<Rightarrow> string \<Rightarrow> files \<Rightarrow> files \<times> string list" where
  "writeCompanionMigrations basePath cs outputDir fs =
     for_each (write_companion basePath outputDir) (zip [0..<length cs] cs) (fs, [])"

fun phase_title :: "file_kind \<Rightarrow> string" where
  "phase_title SAFE_FILE = ''Expand''"
| "phase_title DATA_FILE = ''Migrate''"
| "phase_title BREAKING_FILE = ''Contract''"

definition write_phase ::
    "(file_kind \<Rightarrow> nat) \<Rightarrow> string \<Rightarrow> string \<Rightarrow> file_kind \<times> SchemaOperation list \<Rightarrow> files \<times> string list \<Rightarrow> files \<times> string list" where
  "write_phase clock outputDir name = (\<lambda>(t, ops) (fs, created). if length ops > 0
     then case writeMigrationFile (clock t) outputDir t name (map sql ops)
            (buildLifecycleHeader t name (phase_title t) (length ops)) fs of
          (fs', path) \<Rightarrow> (fs', if path \<noteq> [] then created @ [path] else created)
     else (fs, created))"

text \<open>\<^verbatim>\<open>clock\<close> gives the time at each of the three writes.\<close>

definition generateLifecycleMigrations ::
    "(file_kind \<Rightarrow> nat) \<Rightarrow> string \<Rightarrow> string \<Rightarrow> MigrationLifecycleSet \<Rightarrow> companion_migration list \<Rightarrow> files \<Rightarrow> files \<times> string list" where
  "generateLifecycleMigrations clock outputDir name S companions fs =
    (case for_each (write_phase clock outputDir name) [(SAFE_FILE, set_safe S), (DATA_FILE, set_data S), (BREAKING_FILE, set_breaking S)] (fs, []) of
      (fs1, created) \<Rightarrow> if length companions > 0
        then case writeCompanionMigrations (case created of [] \<Rightarrow> [] | p # _ \<Rightarrow> p) companions outputDir fs1 of
           (fs2, added) \<Rightarrow> (fs2, created @ added)
        else (fs1, created))"

section \<open>Reading\<close>

definition validateMigrationFile :: "string \<Rightarrow> files \<Rightarrow> bool" where
  "validateMigrationFile path fs = (case map_of fs path of
      None \<Rightarrow> False
    | Some content \<Rightarrow> includes_str (''import { MigrationInterface, QueryRunner } from 'typeorm'' @ tick) content
        \<and> includes_str ''implements MigrationInterface'' content
        \<and> includes_str ''public async up(queryRunner: QueryRunner)'' content
        \<and> includes_str ''public async down(queryRunner: QueryRunner)'' content)"

definition migration_name :: "string \<Rightarrow> bool" where
  "migration_name f = (drop (length f - 3) f = ''.ts'' \<and> length (takeWhile is_digit f) \<ge> 13
     \<and> (case dropWhile is_digit f of c # _ \<Rightarrow> c = CHR ''-'' | [] \<Rightarrow> False))"

definition dir_entries :: "string \<Rightarrow> files \<Rightarrow> string list" where
  "dir_entries d fs = map (drop (length d + 1)) (filter (\<lambda>p. starts_with (d @ ''/'') p
     \<and> CHR ''/'' \<notin> set (drop (length d + 1) p)) (map fst fs))"

definition getMigrationFiles :: "string \<Rightarrow> files \<Rightarrow> string list" where
  "getMigrationFiles d fs = sort (map (path_join d) (filter migration_name (dir_entries d fs)))"

text \<open>\<^verbatim>\<open>queryRunner\.query\(\s*`([\s\S]*?)`\s*[,)]\<close>, searched again and again: the group ends at the
  first backtick that white space and a comma or a parenthesis follow.\<close>

fun until_tick :: "string \<Rightarrow> string \<Rightarrow> (string \<times> string) option" where
  "until_tick acc [] = None"
| "until_tick acc (c # s) = (case dropWhile is_space s of
      d # rest \<Rightarrow> if c = CHR ''`'' \<and> (d = CHR '','' \<or> d = CHR '')'') then Some (rev acc, rest) else until_tick (c # acc) s
    | [] \<Rightarrow> until_tick (c # acc) s)"

definition query_call :: string where
  "query_call = ''queryRunner.query(''"

definition match_query :: "string \<Rightarrow> (string \<times> string) option" where
  "match_query s = (if starts_with query_call s
     then case dropWhile is_space (drop 18 s) of
        c # t \<Rightarrow> if c = CHR ''`'' then until_tick [] t else None
      | [] \<Rightarrow> None
     else None)"

lemma until_tick_shorter: "until_tick acc s = Some (b, r) \<Longrightarrow> length r < length s"
proof (induction acc s rule: until_tick.induct)
  case (2 acc c s)
  have "length (dropWhile is_space s) \<le> length s" by (rule length_dropWhile_le)
  then show ?case using 2 by (cases "dropWhile is_space s") (auto split: if_splits)
qed simp

lemma match_query_shorter: "match_query s = Some (b, r) \<Longrightarrow> length r < length s"
proof -
  assume m: "match_query s = Some (b, r)"
  then obtain t where t: "dropWhile is_space (drop 18 s) = CHR ''`'' # t" "until_tick [] t = Some (b, r)"
    by (auto simp: match_query_def split: if_splits list.splits)
  have "length (CHR ''`'' # t) \<le> length s"
    using length_dropWhile_le[of is_space "drop 18 s"] t(1) by (simp del: length_Cons)
  then show ?thesis using until_tick_shorter[OF t(2)] by simp
qed

function query_texts :: "string \<Rightarrow> string list" where
  "query_texts s = (case match_query s of
      Some (b, r) \<Rightarrow> b # query_texts r
    | None \<Rightarrow> (case s of [] \<Rightarrow> [] | c # t \<Rightarrow> query_texts t))"
  by pat_completeness auto
termination
  by (relation "measure length") (auto dest: match_query_shorter)

declare query_texts.simps [simp del]

definition extractSqlStatements :: "string \<Rightarrow> string list" where
  "extractSqlStatements content = concat (map (\<lambda>b. filter (\<lambda>s. length s > 5) (map trim (split_on (CHR '';'') b))) (query_texts content))"

section \<open>A file is read back as it was written\<close>

text \<open>A text without an opening parenthesis after a \<^verbatim>\<open>y\<close> holds no call of \<^verbatim>\<open>query\<close>; the scan remembers whether
  the last character was a \<^verbatim>\<open>y\<close>.\<close>

fun no_call :: "bool \<Rightarrow> string \<Rightarrow> bool" where
  "no_call p [] = True"
| "no_call p (c # s) = (\<not> (p \<and> c = CHR ''('') \<and> no_call (c = CHR ''y'') s)"

fun ends_y :: "bool \<Rightarrow> string \<Rightarrow> bool" where
  "ends_y p [] = p"
| "ends_y p (c # s) = ends_y (c = CHR ''y'') s"

lemma no_call_append: "no_call p (a @ b) \<longleftrightarrow> no_call p a \<and> no_call (ends_y p a) b"
  by (induction a arbitrary: p) auto

lemma no_call_plain: "CHR ''('' \<notin> set a \<Longrightarrow> no_call p a"
  by (induction a arbitrary: p) auto

lemma no_call_any: "no_call True s \<Longrightarrow> no_call p s"
  by (cases s) auto

lemma no_call_adjacent:
  "no_call p v \<Longrightarrow> Suc i < length v \<Longrightarrow> v ! i = CHR ''y'' \<Longrightarrow> v ! Suc i \<noteq> CHR ''(''"
proof (induction v arbitrary: p i)
  case (Cons c v)
  show ?case
  proof (cases i)
    case 0
    then show ?thesis using Cons.prems by (cases v) auto
  next
    case (Suc j)
    then show ?thesis using Cons by auto
  qed
qed simp

lemma no_call_start:
  assumes "no_call p v" "v \<noteq> []" "rest = [] \<or> hd rest = CHR '' ''"
  shows "\<not> starts_with query_call (v @ rest)"
proof
  assume s: "starts_with query_call (v @ rest)"
  have len: "length query_call = 18" by (simp add: query_call_def)
  have t: "take 18 (v @ rest) = query_call" using s len by (simp add: starts_with_def)
  show False
  proof (cases "18 \<le> length v")
    case True
    then have "take 18 v = query_call" using t by simp
    then have "v ! i = query_call ! i" if "i < 18" for i using nth_take[of i 18 v] that by simp
    from this[of 16] this[of 17] show False using no_call_adjacent[OF assms(1), of 16] True by (simp add: query_call_def)
  next
    case False
    have "length (take 18 (v @ rest)) = 18" using t len by simp
    then have "rest \<noteq> []" using False by auto
    then have sp: "(v @ rest) ! length v = CHR '' ''" using assms(3) by (simp add: nth_append hd_conv_nth)
    have "query_call ! length v = CHR '' ''"
      using nth_take[of "length v" 18 "v @ rest"] t sp False by simp
    moreover have "CHR '' '' \<notin> set query_call" by (simp add: query_call_def)
    ultimately show False using False len by (metis not_le nth_mem)
  qed
qed

lemma query_texts_skip: "\<not> starts_with query_call (c # s) \<Longrightarrow> query_texts (c # s) = query_texts s"
  by (subst query_texts.simps) (simp add: match_query_def)

lemma query_texts_nil [simp]: "query_texts [] = []"
  by (subst query_texts.simps) (simp add: match_query_def starts_with_def query_call_def)

lemma query_texts_head:
  "no_call p v \<Longrightarrow> rest = [] \<or> hd rest = CHR '' '' \<Longrightarrow> query_texts (v @ rest) = query_texts rest"
proof (induction v arbitrary: p)
  case (Cons c v)
  then have "query_texts ((c # v) @ rest) = query_texts (v @ rest)"
    using no_call_start[of p "c # v" rest] query_texts_skip[of c "v @ rest"] by simp
  then show ?case using Cons.IH[of "c = CHR ''y''"] Cons.prems by simp
qed simp

lemma query_texts_char: "c \<noteq> CHR ''q'' \<Longrightarrow> query_texts (c # s) = query_texts s"
  by (rule query_texts_skip) (simp add: starts_with_def query_call_def)

lemma until_tick_body:
  "CHR ''`'' \<notin> set b \<Longrightarrow> until_tick acc (b @ CHR ''`'' # CHR '')'' # r) = Some (rev acc @ b, r)"
proof (induction b arbitrary: acc)
  case Nil
  show ?case by (simp add: is_space_def)
next
  case (Cons c b)
  then show ?case by (auto split: list.split)
qed

definition clean_statement :: "string \<Rightarrow> bool" where
  "clean_statement s \<longleftrightarrow> length s > 5 \<and> \<not> is_space (hd s) \<and> \<not> is_space (last s)
     \<and> CHR ''`'' \<notin> set s \<and> CHR '';'' \<notin> set s"

definition statement_body :: "string \<Rightarrow> string" where
  "statement_body s = nl @ ''      '' @ s @ nl @ ''    ''"

lemma query_texts_statement:
  assumes "CHR ''`'' \<notin> set s"
  shows "query_texts (up_statement s @ r) = statement_body s # query_texts r"
proof -
  have "query_texts (up_statement s @ r) = query_texts (query_call @ ''`'' @ statement_body s @ ''`);'' @ r)"
    by (simp add: up_statement_def query_call_def statement_body_def query_texts_char)
  also have "match_query (query_call @ ''`'' @ statement_body s @ ''`);'' @ r) = Some (statement_body s, CHR '';'' # r)"
    using until_tick_body[of "statement_body s" "[]" "CHR '';'' # r"] assms
    by (simp add: match_query_def starts_with_def query_call_def is_space_def statement_body_def nl_def)
  then have "query_texts (query_call @ ''`'' @ statement_body s @ ''`);'' @ r) = statement_body s # query_texts (CHR '';'' # r)"
    by (subst query_texts.simps) simp
  finally show ?thesis by (simp add: query_texts_char)
qed

lemma query_texts_statements:
  "\<forall>s \<in> set ss. CHR ''`'' \<notin> set s \<Longrightarrow>
    query_texts (js_join (nl @ nl) (map up_statement ss) @ r) = map statement_body ss @ query_texts r"
proof (induction ss)
  case (Cons s ss)
  then show ?case
    by (cases ss) (simp_all add: query_texts_statement nl_def query_texts_char)
qed simp

lemma drop_spaces: "list_all is_space a \<Longrightarrow> r \<noteq> [] \<Longrightarrow> \<not> is_space (hd r) \<Longrightarrow> dropWhile is_space (a @ r) = r"
  by (induction a) (auto simp: neq_Nil_conv)

lemma trim_inside:
  assumes "list_all is_space a" "list_all is_space b" "s \<noteq> []" "\<not> is_space (hd s)" "\<not> is_space (last s)"
  shows "trim (a @ s @ b) = s"
proof -
  have "dropWhile is_space (a @ s @ b) = s @ b" using assms by (intro drop_spaces) auto
  moreover have "dropWhile is_space (rev b @ rev s) = rev s"
    using assms by (intro drop_spaces) (auto simp: list_all_iff hd_rev)
  ultimately show ?thesis by (simp add: trim_def)
qed

lemma extract_body:
  "clean_statement s \<Longrightarrow> filter (\<lambda>s. length s > 5) (map trim (split_on (CHR '';'') (statement_body s))) = [s]"
proof -
  assume c: "clean_statement s"
  have "trim ((nl @ ''      '') @ s @ nl @ ''    '') = s"
    by (rule trim_inside) (use c in \<open>auto simp: clean_statement_def nl_def is_space_def\<close>)
  moreover have "CHR '';'' \<notin> set (statement_body s)"
    using c by (auto simp: clean_statement_def statement_body_def nl_def)
  ultimately show ?thesis
    using c by (simp add: split_on_word statement_body_def clean_statement_def)
qed

lemma no_call_end: "no_call p class_end"
  by (simp add: class_end_def nl_def tick_def dash_def)

lemma no_call_header: "no_call True intent \<Longrightarrow> no_call p (header_text intent t)"
  by (cases t) (simp_all add: header_text_def approval_line_def nl_def dash_def no_call_append no_call_any)

lemma no_call_class: "CHR ''('' \<notin> set c \<Longrightarrow> no_call p (class_start c)"
  by (simp add: class_start_def nl_def tick_def no_call_append no_call_plain)

lemma no_call_lifecycle_header:
  "CHR ''('' \<notin> set name \<Longrightarrow> no_call p (buildLifecycleHeader t name (phase_title t) n)"
proof -
  assume n: "CHR ''('' \<notin> set name"
  have "CHR ''('' \<notin> set (nat_str n)"
    using nat_str_digits[of n] by (auto simp: list_all_iff is_digit_def dest!: bspec)
  then have "no_call True (phase_title t @ '' phase for '' @ name @ '' '' @ dash @ '' '' @ nat_str n @ '' statement(s)'')"
    using n by (cases t) (simp_all add: no_call_append no_call_plain dash_def)
  then show ?thesis unfolding buildLifecycleHeader_def by (rule no_call_header)
qed

lemma file_reads_back:
  assumes "no_call False header" "CHR ''('' \<notin> set c" "list_all clean_statement ss"
  shows "extractSqlStatements (buildMigrationFile c ss header) = ss"
proof -
  have head: "no_call False (file_start @ header @ class_start c)"
    using assms(1,2) by (simp add: no_call_append file_start_def nl_def no_call_class no_call_any)
  have ticks: "\<forall>s \<in> set ss. CHR ''`'' \<notin> set s" using assms(3) by (auto simp: list_all_iff clean_statement_def)
  have tail: "query_texts class_end = []"
    using query_texts_head[OF no_call_end[of False], of "[]"] by simp
  have "query_texts (buildMigrationFile c ss header) = map statement_body ss"
  proof (cases ss)
    case Nil
    have "no_call False (file_start @ header @ class_start c @ class_end)"
      using head by (simp add: no_call_append no_call_end)
    from query_texts_head[OF this, of "[]"] Nil show ?thesis by (simp add: buildMigrationFile_def)
  next
    case (Cons s rest)
    have "hd (js_join (nl @ nl) (map up_statement ss) @ class_end) = CHR '' ''"
      using Cons by (cases rest) (simp_all add: up_statement_def)
    then show ?thesis
      using query_texts_head[OF head, of "js_join (nl @ nl) (map up_statement ss) @ class_end"]
        query_texts_statements[OF ticks, of class_end] tail
      by (simp add: buildMigrationFile_def)
  qed
  moreover have "concat (map (\<lambda>b. filter (\<lambda>s. length s > 5) (map trim (split_on (CHR '';'') b))) (map statement_body ss)) = ss"
    using assms(3) by (induction ss) (simp_all add: extract_body)
  ultimately show ?thesis by (simp add: extractSqlStatements_def)
qed

lemma built_file_is_valid:
  assumes "map_of fs path = Some (buildMigrationFile c ss header)"
  shows "validateMigrationFile path fs"
proof -
  let ?f = "buildMigrationFile c ss header"
  let ?up = "js_join (nl @ nl) (map up_statement ss)"
  have "?f = [] @ (''import { MigrationInterface, QueryRunner } from 'typeorm'' @ tick) @ ('';'' @ nl @ nl @ header @ class_start c @ ?up @ class_end)"
    by (simp add: buildMigrationFile_def file_start_def tick_def)
  then have 1: "includes_str (''import { MigrationInterface, QueryRunner } from 'typeorm'' @ tick) ?f"
    by (metis includes_str_append)
  have "?f = (file_start @ header @ nl @ ''export class '' @ c @ '' '') @ ''implements MigrationInterface''
      @ ('' {'' @ nl @ ''  name = '' @ tick @ c @ tick @ '';'' @ nl @ nl
        @ ''  public async up(queryRunner: QueryRunner): Promise<void> {'' @ nl @ ?up @ class_end)"
    by (simp add: buildMigrationFile_def class_start_def)
  then have 2: "includes_str ''implements MigrationInterface'' ?f" by (metis includes_str_append)
  have "?f = (file_start @ header @ nl @ ''export class '' @ c @ '' implements MigrationInterface {'' @ nl
      @ ''  name = '' @ tick @ c @ tick @ '';'' @ nl @ nl @ ''  '') @ ''public async up(queryRunner: QueryRunner)''
      @ ('': Promise<void> {'' @ nl @ ?up @ class_end)"
    by (simp add: buildMigrationFile_def class_start_def)
  then have 3: "includes_str ''public async up(queryRunner: QueryRunner)'' ?f" by (metis includes_str_append)
  obtain v where "class_end = (nl @ ''  }'' @ nl @ nl @ ''  '') @ ''public async down(queryRunner: QueryRunner)'' @ v"
    by (simp add: class_end_def)
  then have "?f = (file_start @ header @ class_start c @ ?up @ nl @ ''  }'' @ nl @ nl @ ''  '')
      @ ''public async down(queryRunner: QueryRunner)'' @ v"
    by (simp add: buildMigrationFile_def)
  then have 4: "includes_str ''public async down(queryRunner: QueryRunner)'' ?f" by (metis includes_str_append)
  show ?thesis using assms 1 2 3 4 by (simp add: validateMigrationFile_def)
qed

lemma map_of_save:
  fixes fs :: files
  shows "map_of (save_by fst (p, c) fs) q = (if q = p then Some c else map_of fs q)"
proof -
  have m: "map_of xs k = map_option snd (lookup_by fst k xs)" for xs :: files and k
    by (induction xs) auto
  show ?thesis by (simp add: m lookup_save_by)
qed

definition phase_path :: "(file_kind \<Rightarrow> nat) \<Rightarrow> string \<Rightarrow> string \<Rightarrow> file_kind \<Rightarrow> string" where
  "phase_path clock d name t = path_join d (file_of t name (nat_str (clock t)))"

definition phase_text :: "(file_kind \<Rightarrow> nat) \<Rightarrow> string \<Rightarrow> file_kind \<Rightarrow> SchemaOperation list \<Rightarrow> string" where
  "phase_text clock name t ops = buildMigrationFile (class_of t name (nat_str (clock t))) (map sql ops)
     (buildLifecycleHeader t name (phase_title t) (length ops))"

lemma write_phase_eq:
  "write_phase clock d name (t, ops) (fs, cr) = (if ops = [] then (fs, cr)
     else (save_by fst (phase_path clock d name t, phase_text clock name t ops) fs, cr @ [phase_path clock d name t]))"
  by (simp add: write_phase_def writeMigrationFile_def phase_path_def phase_text_def path_join_def Let_def)

lemma phase_paths_differ: "phase_path clock d name t = phase_path clock d name t' \<longleftrightarrow> t = t'"
proof
  assume "phase_path clock d name t = phase_path clock d name t'"
  then have e: "file_of t name (nat_str (clock t)) = file_of t' name (nat_str (clock t'))"
    by (simp add: phase_path_def path_join_def)
  have strip: "dropWhile is_digit (file_of u name (nat_str n)) = ''-'' @ prefix_of u @ name @ ''.ts''" for u n
  proof -
    have "dropWhile is_digit (nat_str n @ ''-'' @ prefix_of u @ name @ ''.ts'') = dropWhile is_digit (''-'' @ prefix_of u @ name @ ''.ts'')"
      using nat_str_digits[of n] by (intro dropWhile_append2) (simp add: list_all_iff)
    then show ?thesis by (simp add: file_of_def is_digit_def)
  qed
  have "prefix_of t = prefix_of t'"
    using strip[of t "clock t"] strip[of t' "clock t'"] e by simp
  then show "t = t'" by (cases t; cases t') (simp_all add: prefix_of_def)
qed simp

lemma class_plain: "CHR ''('' \<notin> set name \<Longrightarrow> CHR ''('' \<notin> set (class_of t name (nat_str n))"
  using nat_str_digits[of n] by (cases t) (auto simp: class_of_def prefix_of_def list_all_iff is_digit_def dest!: bspec)

lemma phase_text_reads_back:
  "CHR ''('' \<notin> set name \<Longrightarrow> list_all clean_statement (map sql ops) \<Longrightarrow> extractSqlStatements (phase_text clock name t ops) = map sql ops"
  unfolding phase_text_def by (rule file_reads_back) (simp_all add: no_call_lifecycle_header class_plain)

definition read_file :: "files \<Rightarrow> string \<Rightarrow> string list" where
  "read_file fs p = (case map_of fs p of None \<Rightarrow> [] | Some c \<Rightarrow> extractSqlStatements c)"

text \<open>C40: The files generated for a set of operations, read in the order in which they are reported, give back
  exactly the statements of the expand, the data and the contract operations, and each
  passes the validation of a migration file, whatever files were there before. The statements are
  longer than five characters, begin and end with no white space and contain neither a
  semicolon nor a back quote, the name contains no opening parenthesis, and the generation is
  given no companions.\<close>

theorem generated_files_read_back:
  assumes "CHR ''('' \<notin> set name" "list_all clean_statement (map sql (set_safe S @ set_data S @ set_breaking S))"
    "generateLifecycleMigrations clock d name S [] fs = (fs', created)"
  shows "concat (map (read_file fs') created) = map sql (set_safe S @ set_data S @ set_breaking S)
    \<and> (\<forall>p \<in> set created. validateMigrationFile p fs') \<and> distinct created"
proof -
  let ?P = "phase_path clock d name" and ?T = "phase_text clock name"
  let ?part = "\<lambda>t ops. if ops = [] then [] else [(t, ops)]"
  let ?L = "?part SAFE_FILE (set_safe S) @ ?part DATA_FILE (set_data S) @ ?part BREAKING_FILE (set_breaking S)"
  have run: "for_each (write_phase clock d name) L (g, cr)
      = (for_each (\<lambda>(t, ops). save_by fst (?P t, ?T t ops)) [x \<leftarrow> L. snd x \<noteq> []] g, cr @ map (\<lambda>(t, ops). ?P t) [x \<leftarrow> L. snd x \<noteq> []])"
    for L g cr by (induction L arbitrary: g cr) (auto simp: write_phase_eq)
  have look: "map_of (for_each (\<lambda>(t, ops). save_by fst (?P t, ?T t ops)) L g) (?P t)
      = (case map_of L t of None \<Rightarrow> map_of g (?P t) | Some ops \<Rightarrow> Some (?T t ops))" if "distinct (map fst L)" for L g t
    using that
  proof (induction L arbitrary: g)
    case (Cons x L)
    obtain u b where x: "x = (u, b)" by (cases x)
    show ?case
    proof (cases "u = t")
      case True
      then have "map_of L t = None" using Cons.prems x by (simp add: map_of_eq_None_iff)
      then show ?thesis using Cons True x by (simp add: map_of_save)
    next
      case False
      then show ?thesis using Cons x not_sym[OF False] by (simp add: map_of_save phase_paths_differ split: option.split)
    qed
  qed simp
  have res: "fs' = for_each (\<lambda>(t, ops). save_by fst (?P t, ?T t ops)) ?L fs" "created = map (\<lambda>(t, ops). ?P t) ?L"
    using assms(3) by (auto simp: generateLifecycleMigrations_def run split: if_splits simp del: for_each.simps)
  have "distinct (map fst ?L)" by simp
  then have stored: "map_of fs' (?P t) = Some (?T t ops)" if "(t, ops) \<in> set ?L" for t ops
    using look[of ?L fs t] that unfolding res(1) by (simp only: map_of_is_SomeI option.case)
  have clean: "list_all clean_statement (map sql ops)" if "(t, ops) \<in> set ?L" for t ops
    using that assms(2) by (auto simp: list_all_iff split: if_splits)
  have read: "read_file fs' (?P t) = map sql ops" if "(t, ops) \<in> set ?L" for t ops
    using stored[OF that] phase_text_reads_back[OF assms(1) clean[OF that]] by (simp add: read_file_def)
  have "map (read_file fs') created = map (\<lambda>(t, ops). map sql ops) ?L"
    unfolding res(2) map_map comp_def using read by (intro map_cong) auto
  then have "concat (map (read_file fs') created) = concat (map (\<lambda>(t, ops). map sql ops) ?L)" by (rule arg_cong)
  also have "\<dots> = map sql (set_safe S @ set_data S @ set_breaking S)" by simp
  finally have "concat (map (read_file fs') created) = map sql (set_safe S @ set_data S @ set_breaking S)" .
  moreover have "validateMigrationFile p fs'" if "p \<in> set created" for p
  proof -
    obtain t ops where "(t, ops) \<in> set ?L" "p = ?P t" using \<open>p \<in> set created\<close> unfolding res(2) by force
    then show ?thesis using stored[of t ops] built_file_is_valid unfolding phase_text_def by blast
  qed
  moreover have "distinct created" unfolding res(2) by (simp add: phase_paths_differ)
  ultimately show ?thesis by blast
qed

definition split_sample :: MigrationLifecycleSet where
  "split_sample = \<lparr> set_safe = [simple_op ''ALTER TABLE \"t\" ADD \"c\" int'' SqlCategory.SAFE], set_data = [],
     set_breaking = [simple_op ''ALTER TABLE \"t\" DROP \"b\"'' SqlCategory.BREAKING,
       simple_op ''DROP TABLE \"u\"'' SqlCategory.BREAKING] \<rparr>"

theorem generated_files_read_back_witness:
  "\<exists>fs' created. generateLifecycleMigrations (\<lambda>_. 1774000000000) ''m'' ''Add'' split_sample [] [] = (fs', created)
    \<and> concat (map (read_file fs') created)
      = [''ALTER TABLE \"t\" ADD \"c\" int'', ''ALTER TABLE \"t\" DROP \"b\"'', ''DROP TABLE \"u\"'']"
proof -
  obtain fs' created where g: "generateLifecycleMigrations (\<lambda>_. 1774000000000) ''m'' ''Add'' split_sample [] [] = (fs', created)"
    by fastforce
  have "list_all clean_statement (map sql (set_safe split_sample @ set_data split_sample @ set_breaking split_sample))"
    by (simp add: split_sample_def simple_op_def clean_statement_def is_space_def)
  then have "concat (map (read_file fs') created) = map sql (set_safe split_sample @ set_data split_sample @ set_breaking split_sample)"
    using generated_files_read_back[OF _ _ g] by simp
  then show ?thesis using g by (simp add: split_sample_def simple_op_def)
qed

text \<open>A block with a semicolon inside comes back in pieces, and a statement of at most five characters not at all.\<close>

lemma inner_semicolon_splits:
  "extractSqlStatements (up_statement ''DO $$ BEGIN PERFORM 1; END $$'') = [''DO $$ BEGIN PERFORM 1'', ''END $$'']"
  using query_texts_statement[of "''DO $$ BEGIN PERFORM 1; END $$''" "[]"]
  by (simp add: extractSqlStatements_def statement_body_def nl_def trim_def is_space_def)

lemma short_statement_is_lost: "extractSqlStatements (up_statement ''ABORT'') = []"
  using query_texts_statement[of "''ABORT''" "[]"]
  by (simp add: extractSqlStatements_def statement_body_def nl_def trim_def is_space_def)

section \<open>Companions\<close>

text \<open>\<^verbatim>\<open>generateCompanions\<close> of the splitter.\<close>

definition added_column :: "rx list" where
  "added_column = [Lit ''ADD''] @ spaces @ quoted 1"

definition not_null_companions :: "string \<Rightarrow> string \<Rightarrow> companion_migration list" where
  "not_null_companions s table = (if isNotNullViolation s then (case rx_match added_column s of
      None \<Rightarrow> []
    | Some cs \<Rightarrow> (let column = captured cs 1 in
       [\<lparr> cm_phase = DATA_FILE,
          cm_sql = ''UPDATE \"'' @ table @ ''\" SET \"'' @ column @ ''\" = <DEFAULT_VALUE> WHERE \"'' @ column @ ''\" IS NULL'',
          cm_reason = ''Column \"'' @ column @ ''\" requires backfill before NOT NULL can be enforced'' \<rparr>,
        \<lparr> cm_phase = BREAKING_FILE,
          cm_sql = ''ALTER TABLE \"'' @ table @ ''\" ALTER COLUMN \"'' @ column @ ''\" SET NOT NULL'',
          cm_reason = ''Enforce NOT NULL on \"'' @ column @ ''\" after data is backfilled'' \<rparr>])) else [])"

definition rename_companions :: "string \<Rightarrow> string \<Rightarrow> companion_migration list" where
  "rename_companions s table = (if isColumnRename s then (case rx_match rename_pattern s of
      None \<Rightarrow> []
    | Some cs \<Rightarrow> (let oldCol = captured cs 1; newCol = captured cs 2 in
       [\<lparr> cm_phase = DATA_FILE,
          cm_sql = ''UPDATE \"'' @ table @ ''\" SET \"'' @ newCol @ ''\" = \"'' @ oldCol @ ''\"'',
          cm_reason = ''Copy data from \"'' @ oldCol @ ''\" to \"'' @ newCol @ ''\"'' \<rparr>,
        \<lparr> cm_phase = BREAKING_FILE,
          cm_sql = ''ALTER TABLE \"'' @ table @ ''\" DROP COLUMN \"'' @ oldCol @ ''\"'',
          cm_reason = ''Remove old column \"'' @ oldCol @ ''\" after rename'' \<rparr>])) else [])"

definition type_companions :: "string \<Rightarrow> string \<Rightarrow> companion_migration list" where
  "type_companions s table = (if isTypeChange s then (case rx_match type_change_pattern s of
      None \<Rightarrow> []
    | Some cs \<Rightarrow> (let column = captured cs 1; newType = captured cs 2; tempColumn = column @ ''_v2'' in
       [\<lparr> cm_phase = DATA_FILE,
          cm_sql = ''UPDATE \"'' @ table @ ''\" SET \"'' @ tempColumn @ ''\" = CAST(\"'' @ column @ ''\" AS '' @ newType @ '')'',
          cm_reason = ''Cast data from \"'' @ column @ ''\" to '' @ newType \<rparr>,
        \<lparr> cm_phase = BREAKING_FILE,
          cm_sql = ''ALTER TABLE \"'' @ table @ ''\" DROP COLUMN \"'' @ column @ ''\"; ALTER TABLE \"'' @ table
            @ ''\" RENAME COLUMN \"'' @ tempColumn @ ''\" TO \"'' @ column @ ''\"'',
          cm_reason = ''Remove old column and rename temp column to \"'' @ column @ ''\"'' \<rparr>])) else [])"

definition generateCompanions :: "string \<Rightarrow> string \<Rightarrow> companion_migration list" where
  "generateCompanions s table = not_null_companions s table @ rename_companions s table @ type_companions s table"

text \<open>A rename is split into an expand, a data and a contract operation, and then gets
  companions with the same data and contract statements: the old column is dropped twice.\<close>

definition rename_sample :: string where
  "rename_sample = ''ALTER TABLE \"t\" RENAME COLUMN \"a\" TO \"b\"''"

lemma rename_is_split_and_accompanied:
  "map sql (set_data (rewriteColumnRename [] (simple_op rename_sample SqlCategory.BREAKING)))
     = map cm_sql (filter (\<lambda>c. cm_phase c = DATA_FILE) (generateCompanions rename_sample ''t''))"
  "map sql (set_breaking (rewriteColumnRename [] (simple_op rename_sample SqlCategory.BREAKING)))
     = map cm_sql (filter (\<lambda>c. cm_phase c = BREAKING_FILE) (generateCompanions rename_sample ''t''))"
  "map sql (set_breaking (rewriteColumnRename [] (simple_op rename_sample SqlCategory.BREAKING)))
     = [''ALTER TABLE \"t\" DROP COLUMN \"a\"'']"
  by code_simp+

text \<open>Without a file before them, all companions of a phase are written to one path, so that only the last one is kept.\<close>

lemma companions_without_files_collide:
  "companion_type (cm_phase c) = companion_type (cm_phase c') \<Longrightarrow> fst (companion_file [] i c) = fst (companion_file [] j c')"
  by (simp add: companion_file_def stamp_plus_def basename_def basename_ts_def Let_def)

text \<open>The companions are numbered from the first file, and keep its prefix in their names; the other
  files are numbered by the clock. A contract companion sorts before the data file written two
  milliseconds after the first one.\<close>

lemma digits_plain: "CHR ''-'' \<notin> set (nat_str n)" "CHR ''/'' \<notin> set (nat_str n)"
  using nat_str_digits[of n] by (auto simp: list_all_iff is_digit_def dest!: bspec)

lemma prefix_plain: "CHR ''-'' \<notin> set (prefix_of t)" "CHR ''/'' \<notin> set (prefix_of t)"
  by (cases t; simp add: prefix_of_def)+

lemma basename_join: "CHR ''/'' \<notin> set f \<Longrightarrow> basename (path_join d f) = f"
proof -
  assume "CHR ''/'' \<notin> set f"
  then have "takeWhile (\<lambda>c. c \<noteq> CHR ''/'') (rev f @ CHR ''/'' # rev d) = rev f"
    by (subst takeWhile_append2) auto
  then show ?thesis by (simp add: basename_def path_join_def)
qed

lemma nat_str_nonempty: "nat_str n \<noteq> []"
  by (subst nat_str.simps) simp

lemma companion_name:
  assumes "CHR ''-'' \<notin> set name" "CHR ''/'' \<notin> set name"
  shows "fst (companion_file (path_join d (file_of t name (nat_str n))) i c)
    = file_of (companion_type (cm_phase c)) (prefix_of t @ name) (nat_str (n + i + 1))"
proof -
  let ?f = "file_of t name (nat_str n)"
  have b: "basename (path_join d ?f) = ?f"
    using assms digits_plain prefix_plain by (intro basename_join) (simp add: file_of_def)
  have bt: "basename_ts (path_join d ?f) = nat_str n @ CHR ''-'' # (prefix_of t @ name)"
    unfolding basename_ts_def b Let_def by (simp add: file_of_def)
  have "hd (split_on (CHR ''-'') ?f) = nat_str n"
    using split_on_append[OF digits_plain(1), of n] by (simp add: file_of_def)
  moreover have "takeWhile is_digit (nat_str n) = nat_str n"
    using nat_str_digits[of n] by (simp only: takeWhile_eq_all_conv list_all_iff)
  ultimately have "stamp_plus (hd (split_on (CHR ''-'') ?f)) (i + 1) = nat_str (n + i + 1)"
    by (simp add: stamp_plus_def nat_str_nonempty Let_def del: takeWhile_eq_all_conv)
  moreover have "tl (split_on (CHR ''-'') (nat_str n @ CHR ''-'' # (prefix_of t @ name))) = [prefix_of t @ name]"
    using assms(1) prefix_plain(1) by (simp add: split_on_append[OF digits_plain(1)] split_on_word)
  ultimately show ?thesis by (simp add: companion_file_def b bt Let_def)
qed

lemma companion_overtakes_data_file:
  "file_of DATA_FILE ''Add'' (nat_str 1774000000002)
     > fst (companion_file (path_join ''m'' (file_of SAFE_FILE ''Add'' (nat_str 1774000000000))) 0
         \<lparr> cm_phase = BREAKING_FILE, cm_sql = s, cm_reason = r \<rparr>)"
  by (subst companion_name) (simp_all add: file_of_def nat_str.simps less_char_def)

section \<open>Reading a migration and the database\<close>

record migration_classification =
  mc_categories :: "SqlCategory list"
  mc_statements :: "(string \<times> SqlCategory \<times> string) list"
  mc_dominantPrefix :: string
  mc_needsPhaseDecomposition :: bool
  mc_phases :: "SqlCategory list"

definition classifyMigrationFile :: "string \<Rightarrow> migration_classification" where
  "classifyMigrationFile content = (let sts = map (\<lambda>s. (s, classifySqlStatement s)) (extractSqlStatements content);
      cats = foldl (\<lambda>cs c. set_add c cs) [] (map (fst \<circ> snd) sts);
      has = (\<lambda>c. c \<in> set cats)
    in \<lparr> mc_categories = cats, mc_statements = sts,
         mc_dominantPrefix = (if has SqlCategory.BREAKING then ''BREAKING_'' else if has SqlCategory.DATA then ''DATA_'' else ''SAFE_''),
         mc_needsPhaseDecomposition = (has SqlCategory.BREAKING \<and> (has SqlCategory.SAFE \<or> has SqlCategory.DATA)),
         mc_phases = filter has [SqlCategory.SAFE, SqlCategory.DATA, SqlCategory.BREAKING] \<rparr>)"

text \<open>The queries of the schema builder are arguments.\<close>

definition engine_detectSchemaDiff :: "string list \<Rightarrow> string list \<Rightarrow> SchemaDiff" where
  "engine_detectSchemaDiff up down = \<lparr> sdf_up = up, sdf_down = down, sdf_newTables = [], sdf_droppedTables = [], sdf_alteredTables = [] \<rparr>"

definition temp_column_patterns :: "rx list list" where
  "temp_column_patterns = (let dq = [Alt [[One is_dquote], []]] in
     [[Lit ''ADD''] @ spaces @ dq @ grp 1 words @ dq @ spaces,
      kw2 ''ALTER'' ''COLUMN'' @ spaces @ dq @ grp 1 words @ dq,
      kw2 ''DROP'' ''COLUMN'' @ spaces @ dq @ grp 1 words @ dq,
      kw2 ''RENAME'' ''COLUMN'' @ spaces @ dq @ grp 1 words @ dq])"

definition temp_column_name :: "string \<Rightarrow> bool" where
  "temp_column_name c = list_ex (\<lambda>p. starts_with p (toLowerCase c)) [''_temp_'', ''_old_'', ''_new_'', ''temp_'', ''old_'', ''new_'']"

definition isTempColumnOperation :: "string \<Rightarrow> bool" where
  "isTempColumnOperation s = list_ex (\<lambda>p. case rx_match p s of None \<Rightarrow> False | Some cs \<Rightarrow> temp_column_name (captured cs 1)) temp_column_patterns"

definition detectSchemaDiffFiltered :: "string list \<Rightarrow> string list \<Rightarrow> SchemaDiff" where
  "detectSchemaDiffFiltered up down = (let keep = filter (\<lambda>s. \<not> isTempColumnOperation s) in engine_detectSchemaDiff (keep up) (keep down))"

definition put_type :: "string \<times> string \<times> string \<Rightarrow> type_map \<Rightarrow> type_map" where
  "put_type = (\<lambda>(table, column, ty) m.
     save_by fst (table, save_by fst (column, ty) (case map_of m table of None \<Rightarrow> [] | Some cols \<Rightarrow> cols)) m)"

definition detectSchemaDiffWithTypes :: "string list \<Rightarrow> string list \<Rightarrow> (string \<times> string \<times> string) list \<Rightarrow> SchemaDiff \<times> type_map" where
  "detectSchemaDiffWithTypes up down rows = (engine_detectSchemaDiff up down, for_each put_type rows [])"

text \<open>A statement on an ordinary column whose name begins like that of a temporary one is left out.\<close>

lemma ordinary_column_is_filtered:
  "sdf_up (detectSchemaDiffFiltered [''ALTER TABLE \"drivers\" ADD \"new_phone\" varchar''] []) = []"
  by code_simp

text \<open>A file of a generated set is classified by the statements it was written for.\<close>

lemma generated_file_is_classified:
  assumes "CHR ''('' \<notin> set name" "list_all clean_statement (map sql ops)"
  shows "mc_statements (classifyMigrationFile (phase_text clock name t ops)) = map (\<lambda>op. (sql op, classifySqlStatement (sql op))) ops"
  using phase_text_reads_back[OF assms, of clock t] by (simp add: classifyMigrationFile_def Let_def comp_def)
end
