(* ===== verification/Seller_Orders.thy ===== *)
theory Seller_Orders
  imports Safe_Dispatch Offers
begin

text \<open>
  The event that starts a delivery (\<^verbatim>\<open>events/events.controller.ts\<close>): its secret and signature, the
  key that suppresses duplicates, the delivery it finds or creates, and its dispatch, which is
  that of \<^verbatim>\<open>Safe_Dispatch\<close> with a callback that makes an offer (\<^verbatim>\<open>Offers\<close>) to the nearest driver.
  The accesses to Redis and to the deliveries are steps, so that requests interleave; a
  dispatch is one step here, its own interleavings are those of \<^verbatim>\<open>Safe_Dispatch\<close>. The
  eligible drivers, the digest and the reading of a number are arguments.
\<close>

section \<open>Requests\<close>

record order_payload =
  sp_eventId :: string
  sp_sellerOrderId :: string
  sp_channelId :: string
  sp_pickup :: "rat \<times> rat"
  sp_drop :: "rat \<times> rat"

record event_config =
  ec_expectedSecret :: "string option"
  ec_signatureSecret :: "string option"
  ec_enforceSignature :: bool

text \<open>\<^verbatim>\<open>get\<close> reads a variable of the environment.\<close>

definition event_config_of :: "(string \<Rightarrow> string option) \<Rightarrow> event_config" where
  "event_config_of get = \<lparr> ec_expectedSecret = get ''VENDURE_TO_DRIVER_SECRET'',
     ec_signatureSecret = or_else (get ''VENDURE_WEBHOOK_SIGNATURE_SECRET'') (get ''VENDURE_TO_DRIVER_SECRET''),
     ec_enforceSignature = (get ''ENFORCE_WEBHOOK_SIGNATURE'' = Some ''true'') \<rparr>"

definition webhookMaxClockSkewMs :: rat where
  "webhookMaxClockSkewMs = 5 * 60 * 1000"

definition signing_payload :: "order_payload \<Rightarrow> string \<Rightarrow> string" where
  "signing_payload p timestamp = sp_eventId p @ '':'' @ sp_sellerOrderId p @ '':'' @ sp_channelId p @ '':'' @ timestamp"

text \<open>\<^verbatim>\<open>num\<close> is \<^verbatim>\<open>Number\<close> where it is finite; the result is the message of the error.\<close>

definition validateSignature ::
    "(string \<Rightarrow> string \<Rightarrow> string) \<Rightarrow> (string \<Rightarrow> rat option) \<Rightarrow> event_config \<Rightarrow> int \<Rightarrow> order_payload
      \<Rightarrow> string option \<Rightarrow> string option \<Rightarrow> string option" where
  "validateSignature hmac num C now p ts sg =
    (if \<not> truthy ts \<or> \<not> truthy sg \<or> \<not> truthy (ec_signatureSecret C)
     then (if ec_enforceSignature C then Some ''Missing webhook signature headers'' else None)
     else case num (the ts) of
        None \<Rightarrow> Some ''Invalid webhook timestamp''
      | Some t \<Rightarrow>
         if \<bar>of_int now - t\<bar> > webhookMaxClockSkewMs then Some ''Webhook timestamp outside accepted skew''
         else if hmac (the (ec_signatureSecret C)) (signing_payload p (the ts)) \<noteq> the sg
         then Some ''Invalid webhook signature'' else None)"

record order_request =
  rq_payload :: order_payload
  rq_secret :: "string option"
  rq_timestamp :: "string option"
  rq_signature :: "string option"

definition admitted ::
    "(string \<Rightarrow> string \<Rightarrow> string) \<Rightarrow> (string \<Rightarrow> rat option) \<Rightarrow> event_config \<Rightarrow> int \<Rightarrow> order_request \<Rightarrow> string option" where
  "admitted hmac num C now r = (if rq_secret r \<noteq> ec_expectedSecret C then Some ''Invalid webhook secret''
     else validateSignature hmac num C now (rq_payload r) (rq_timestamp r) (rq_signature r))"

section \<open>State\<close>

text \<open>The keys of the events with the times at which they expire.\<close>

record order_sys =
  sy_offers :: offers_db
  sy_dispatch :: dispatch_state
  sy_keys :: "(string \<times> int) list"

definition getEventIdKey :: "string \<Rightarrow> string" where
  "getEventIdKey e = ''idempotency:vendure-event:'' @ e"

definition eventIdTtlSeconds :: int where
  "eventIdTtlSeconds = 60 * 60 * 24"

definition key_exists :: "int \<Rightarrow> string \<Rightarrow> order_sys \<Rightarrow> bool" where
  "key_exists now e s = (case map_of (sy_keys s) (getEventIdKey e) of None \<Rightarrow> False | Some t \<Rightarrow> now < t)"

definition set_key :: "int \<Rightarrow> string \<Rightarrow> order_sys \<Rightarrow> order_sys" where
  "set_key now e s = s\<lparr> sy_keys := (getEventIdKey e, now + eventIdTtlSeconds * 1000) # sy_keys s \<rparr>"

text \<open>What a request reads from outside while it runs: the environment of the offers, whether an insert into
  the deliveries fails, what the dispatch reads, and the search of drivers.\<close>

record order_env =
  ov_offer :: offer_env
  ov_create_error :: "string option"
  ov_elapsed :: int
  ov_pick :: picker
  ov_configs :: "DispatchConfig list"
  ov_eligible :: "(string \<times> rat) list"
  ov_distance :: "rat \<Rightarrow> rat \<Rightarrow> rat \<Rightarrow> rat \<Rightarrow> rat"
  ov_search :: "rat \<Rightarrow> rat \<Rightarrow> rat \<Rightarrow> string list option"

abbreviation ov_now :: "order_env \<Rightarrow> int" where
  "ov_now E \<equiv> now_of (ov_offer E)"

datatype order_error = Http_Error int string | Unique_Violation | Plain_Error string

datatype order_reply =
    Order_Success string string "string option"
  | Order_Ignored string
  | Order_Error string
  | Order_Refused int string

section \<open>The dispatch\<close>

fun offer_http :: "offer_error \<Rightarrow> dispatch_error" where
  "offer_http (Offer_Not_Found m) = (Some 404, m)"
| "offer_http (Offer_Conflict m) = (Some 409, m)"
| "offer_http (Offer_Bad_Request m) = (Some 400, m)"
| "offer_http (Offer_Publish_Failed m) = (None, m)"

definition findNearestAvailable :: "order_env \<Rightarrow> rat \<times> rat \<Rightarrow> driver list \<Rightarrow> driver option" where
  "findNearestAvailable E place drs = (case findAvailable (ov_distance E) (ov_search E) (Some place) (Some 5) drs of
     [] \<Rightarrow> None | dr # _ \<Rightarrow> Some dr)"

definition legacy_callback :: "order_env \<Rightarrow> order_payload \<Rightarrow> string \<Rightarrow> (offers_db, dispatch_error, json) action" where
  "legacy_callback E p d s = (case findNearestAvailable E (sp_pickup p) (ob_drivers s) of
      None \<Rightarrow> (s, Inl (Some 503, ''No drivers available''))
    | Some dr \<Rightarrow> (case createOfferForDriver (ov_offer E)
          \<lparr> co_driverId = dr_id dr, co_deliveryId = d, co_expiresInSeconds = Some 90 \<rparr> s of
        (s', Inl e) \<Rightarrow> (s', Inl (offer_http e))
      | (s', Inr _) \<Rightarrow> (s', Inr (JObj [(''status'', JStr ''success''), (''deliveryId'', JStr d),
          (''message'', JStr ''Legacy dispatch: Offer broadcasted to nearest driver'')]))))"

text \<open>The callback as the dispatch sees it: its outcome at each call, the calls being numbered by the log;
  every call works on the store that the calls before it left.\<close>

definition after_calls :: "order_env \<Rightarrow> order_payload \<Rightarrow> string \<Rightarrow> nat \<Rightarrow> offers_db \<Rightarrow> offers_db" where
  "after_calls E p d n = ((\<lambda>s. fst (legacy_callback E p d s)) ^^ n)"

definition dispatch_order :: "order_env \<Rightarrow> order_payload \<Rightarrow> string \<Rightarrow> (order_sys, dispatch_error, dispatch_result) action" where
  "dispatch_order E p d s = (let n0 = length (callback_log (sy_dispatch s)); o0 = sy_offers s;
      cb = (\<lambda>n d' reason. snd (legacy_callback E p d (after_calls E p d (n - n0) o0)))
    in case executeSafeDispatch (ov_now E) (ov_elapsed E) (ov_pick E) (ov_configs E) cb d (ov_eligible E) (sy_dispatch s) of
      (ds, r) \<Rightarrow> (s\<lparr> sy_dispatch := ds, sy_offers := after_calls E p d (length (callback_log ds) - n0) o0 \<rparr>, r))"

fun result_method :: "dispatch_result \<Rightarrow> string" where
  "result_method (Scored _ _) = ''SCORING_BASED''"
| "result_method _ = ''LEGACY''"

section \<open>The steps of a request\<close>

datatype order_phase =
    Ph_Arrived
  | Ph_Checked
  | Ph_Create
  | Ph_Dispatch string
  | Ph_Mark order_reply
  | Ph_Done order_reply

definition already_dispatched :: "delivery \<Rightarrow> bool" where
  "already_dispatched d = (dl_status d \<in> {delivery_status.ASSIGNED, PICKED_UP, DELIVERED})"

definition order_dto :: "order_payload \<Rightarrow> create_dto" where
  "order_dto p = \<lparr> cd_sellerOrderId = sp_sellerOrderId p, cd_channelId = sp_channelId p,
     cd_pickupLat = Num_Coord (of_rat (fst (sp_pickup p))), cd_pickupLon = Num_Coord (of_rat (snd (sp_pickup p))),
     cd_dropLat = Num_Coord (of_rat (fst (sp_drop p))), cd_dropLon = Num_Coord (of_rat (snd (sp_drop p))),
     cd_expectedPickupAt = None, cd_expectedDeliveryAt = None \<rparr>"

text \<open>An error by its status and its message.\<close>

definition dispatch_error_of :: "dispatch_error \<Rightarrow> order_error" where
  "dispatch_error_of e = (case fst e of
      Some st \<Rightarrow> if st \<ge> 400 then Http_Error st (snd e)
        else if includes_str ''unique constraint'' (snd e) then Unique_Violation else Plain_Error (snd e)
    | None \<Rightarrow> if includes_str ''unique constraint'' (snd e) then Unique_Violation else Plain_Error (snd e))"

fun create_http :: "delivery_error \<Rightarrow> order_error" where
  "create_http Not_Found = Http_Error 404 ''Delivery not found''"
| "create_http (Bad_Request m) = Http_Error 400 m"
| "create_http (delivery_error.Conflict m) = Http_Error 409 m"
| "create_http (delivery_error.Publish_Failed m) = dispatch_error_of (None, m)"

text \<open>The insert, with the unique constraint on the order of the seller.\<close>

definition create_order :: "order_env \<Rightarrow> order_payload \<Rightarrow> (order_sys, order_error, delivery) action" where
  "create_order E p s = (case ov_create_error E of
      Some m \<Rightarrow> (s, Inl (dispatch_error_of (None, m)))
    | None \<Rightarrow> if lookup_by dl_sellerOrderId (sp_sellerOrderId p) (db_deliveries (sy_offers s)) \<noteq> None
        then (s, Inl Unique_Violation)
        else (case create_delivery (oe_env (ov_offer E)) (order_dto p) (sy_offers s) of
            (o', Inl e) \<Rightarrow> (s\<lparr> sy_offers := o' \<rparr>, Inl (create_http e))
          | (o', Inr d) \<Rightarrow> (s\<lparr> sy_offers := o' \<rparr>, Inr d)))"

text \<open>The catch clause.\<close>

fun caught :: "order_error \<Rightarrow> order_phase" where
  "caught (Http_Error st m) = Ph_Done (Order_Refused st m)"
| "caught Unique_Violation = Ph_Mark (Order_Ignored ''Duplicate delivery suppressed by DB constraint'')"
| "caught (Plain_Error m) = Ph_Done (Order_Error m)"



definition order_step :: "order_env \<Rightarrow> order_payload \<Rightarrow> order_phase \<times> order_sys \<Rightarrow> order_phase \<times> order_sys" where
  "order_step E p = (\<lambda>(ph, s). case ph of
      Ph_Arrived \<Rightarrow> if key_exists (ov_now E) (sp_eventId p) s then (Ph_Done (Order_Ignored ''Duplicate event ignored''), s)
        else (Ph_Checked, s)
    | Ph_Checked \<Rightarrow> (case lookup_by dl_sellerOrderId (sp_sellerOrderId p) (db_deliveries (sy_offers s)) of
          None \<Rightarrow> (Ph_Create, s)
        | Some d \<Rightarrow> if already_dispatched d then (Ph_Mark (Order_Success (dl_id d) ''Already dispatched'' None), s)
            else (Ph_Dispatch (dl_id d), s))
    | Ph_Create \<Rightarrow> (case create_order E p s of
          (s', Inl e) \<Rightarrow> (caught e, s')
        | (s', Inr d) \<Rightarrow> (Ph_Dispatch (dl_id d), s'))
    | Ph_Dispatch d \<Rightarrow> (case dispatch_order E p d s of
          (s', Inl e) \<Rightarrow> (caught (dispatch_error_of e), s')
        | (s', Inr r) \<Rightarrow> (Ph_Mark (Order_Success d ''Dispatch completed'' (Some (result_method r))), s'))
    | Ph_Mark r \<Rightarrow> (Ph_Done r, set_key (ov_now E) (sp_eventId p) s)
    | Ph_Done r \<Rightarrow> (Ph_Done r, s))"

text \<open>A request that is admitted, alone: five steps are enough.\<close>

definition onSellerOrderReady ::
    "(string \<Rightarrow> string \<Rightarrow> string) \<Rightarrow> (string \<Rightarrow> rat option) \<Rightarrow> event_config \<Rightarrow> order_env \<Rightarrow> order_request \<Rightarrow> order_sys
      \<Rightarrow> order_phase \<times> order_sys" where
  "onSellerOrderReady hmac num C E r s = (case admitted hmac num C (ov_now E) r of
      Some m \<Rightarrow> (Ph_Done (Order_Refused 400 m), s)
    | None \<Rightarrow> (order_step E (rq_payload r) ^^ 5) (Ph_Arrived, s))"

text \<open>Requests with one payload that interleave: a schedule says which request takes the next step, in what environment.\<close>

fun run_orders :: "order_payload \<Rightarrow> (nat \<times> order_env) list \<Rightarrow> order_phase list \<times> order_sys \<Rightarrow> order_phase list \<times> order_sys" where
  "run_orders p [] x = x"
| "run_orders p ((k, E) # sched) (phs, s) = (case order_step E p (phs ! k, s) of
     (ph, s') \<Rightarrow> run_orders p sched (phs[k := ph], s'))"

section \<open>Replies and keys\<close>

fun order_rank :: "order_phase \<Rightarrow> nat" where
  "order_rank Ph_Arrived = 5"
| "order_rank Ph_Checked = 4"
| "order_rank Ph_Create = 3"
| "order_rank (Ph_Dispatch d) = 2"
| "order_rank (Ph_Mark r) = 1"
| "order_rank (Ph_Done r) = 0"

lemma caught_rank: "order_rank (caught e) \<le> Suc 0" "order_rank (caught e) \<le> 2"
  by (cases e; simp)+

lemma step_rank: "order_rank (fst (order_step E p x)) \<le> order_rank (fst x) - 1"
  using caught_rank by (cases x; cases "fst x") (auto simp: order_step_def split: option.splits prod.splits sum.splits)

lemma steps_rank: "order_rank (fst ((order_step E p ^^ n) x)) \<le> order_rank (fst x) - n"
proof (induction n)
  case (Suc n)
  then show ?case using step_rank[of E p "(order_step E p ^^ n) x"] by simp
qed simp

lemma five_steps_done: "\<exists>r s'. (order_step E p ^^ 5) (Ph_Arrived, s) = (Ph_Done r, s')"
proof -
  obtain ph s' where e: "(order_step E p ^^ 5) (Ph_Arrived, s) = (ph, s')" by fastforce
  then have "order_rank ph = 0" using steps_rank[where n = 5 and E = E and p = p and x = "(Ph_Arrived, s)"] by simp
  then show ?thesis using e by (cases ph) auto
qed

text \<open>What the phases know of the keys.\<close>

fun accepted :: "order_reply \<Rightarrow> bool" where
  "accepted (Order_Success _ _ _) = True"
| "accepted (Order_Ignored _) = True"
| "accepted _ = False"

fun key_known :: "order_env \<Rightarrow> order_payload \<Rightarrow> order_sys \<Rightarrow> order_phase \<times> order_sys \<Rightarrow> bool" where
  "key_known E p s0 (Ph_Mark r, s) \<longleftrightarrow> sy_keys s = sy_keys s0 \<and> accepted r"
| "key_known E p s0 (Ph_Done r, s) \<longleftrightarrow> (if accepted r then key_exists (ov_now E) (sp_eventId p) s else sy_keys s = sy_keys s0)"
| "key_known E p s0 (ph, s) \<longleftrightarrow> sy_keys s = sy_keys s0"

lemma dispatch_keys: "sy_keys (fst (dispatch_order E p d s)) = sy_keys s"
  by (simp add: dispatch_order_def Let_def split: prod.split)

lemma create_keys: "sy_keys (fst (create_order E p s)) = sy_keys s"
  by (simp add: create_order_def split: option.split prod.split sum.split)

lemma set_key_exists: "key_exists now e (set_key now e s)"
  by (simp add: key_exists_def set_key_def eventIdTtlSeconds_def)

lemma caught_known: "sy_keys s = sy_keys s0 \<Longrightarrow> key_known E p s0 (caught e, s)"
  by (cases e) simp_all

lemma step_known:
  assumes "key_known E p s0 x"
  shows "key_known E p s0 (order_step E p x)"
proof -
  obtain ph s where x: "x = (ph, s)" by (cases x)
  show ?thesis
  proof (cases ph)
    case Ph_Create
    then show ?thesis
      using assms x create_keys[of E p s] caught_known[of _ s0 E p]
      by (auto simp: order_step_def split: prod.splits sum.splits)
  next
    case (Ph_Dispatch d)
    then show ?thesis
      using assms x dispatch_keys[of E p d s] caught_known[of _ s0 E p]
      by (auto simp: order_step_def split: prod.splits sum.splits)
  qed (use assms x in \<open>auto simp: order_step_def set_key_exists split: option.splits\<close>)
qed

text \<open>A request always gets a reply. One that is refused or answered with an error leaves the
  keys as they were, so that it can be sent again; one that succeeds or is ignored leaves the key of its event.\<close>

theorem reply_decides_key:
  assumes "onSellerOrderReady hmac num C E r s = (ph, s')"
  shows "\<exists>reply. ph = Ph_Done reply \<and> (if accepted reply then key_exists (ov_now E) (sp_eventId (rq_payload r)) s'
    else sy_keys s' = sy_keys s)"
proof (cases "admitted hmac num C (ov_now E) r")
  case None
  let ?p = "rq_payload r"
  have run: "(order_step E ?p ^^ 5) (Ph_Arrived, s) = (ph, s')" using assms None by (simp add: onSellerOrderReady_def)
  then obtain reply where r: "ph = Ph_Done reply" using five_steps_done[of E ?p s] by auto
  have "key_known E ?p s ((order_step E ?p ^^ n) (Ph_Arrived, s))" for n
    by (induction n) (simp_all add: step_known)
  from this[of 5] show ?thesis using run r by simp
qed (use assms in \<open>auto simp: onSellerOrderReady_def\<close>)

section \<open>A successful request has made an offer\<close>

lemma after_calls_simps [simp]:
  "after_calls E p d 0 s = s"
  "after_calls E p d (Suc 0) s = fst (legacy_callback E p d s)"
  by (simp_all add: after_calls_def)

lemma control_dispatch:
  assumes "pick_ok (ov_pick E)" "assignToCohort (ov_configs E) d = CONTROL" "legacy_rows d (decisions (sy_dispatch s)) = []"
    "legacy_callback E p d (sy_offers s) = (o', Inr x)"
  shows "\<exists>ds. dispatch_order E p d s = (s\<lparr> sy_dispatch := ds, sy_offers := o' \<rparr>, Inr (Legacy_Done ''Control group'' x))"
proof -
  let ?n0 = "length (callback_log (sy_dispatch s))" and ?S = "sy_dispatch s"
  let ?cb = "\<lambda>n d' reason. snd (legacy_callback E p d (after_calls E p d (n - ?n0) (sy_offers s)))"
  let ?i = "new_decision_id (decisions ?S)"
  let ?s1 = "?S\<lparr> decisions := decisions ?S @ [control_row ?i (ov_now E) d] \<rparr>"
  have "claim_read (ov_pick E) d ?s1 = Free" by (rule control_row_free[OF assms(1,3)]) simp
  then obtain s2 where s2: "executeIdempotentFallback (ov_now E) (ov_pick E) ?cb d ''Control group'' ?s1
      = (s2, Inr (Legacy_Done ''Control group'' x))" "callback_log s2 = callback_log ?S @ [(d, ''Control group'')]"
    "\<exists>q. decisions s2 = decisions ?S @ [control_row ?i (ov_now E) d, q] \<and> decision_id q = new_decision_id (decisions ?s1)"
    using fallback_free[of "ov_pick E" d ?s1 "ov_now E" ?cb "''Control group''"] assms(4)
    by (simp add: Let_def done_row_def)
  then obtain q where q: "decisions s2 = decisions ?S @ [control_row ?i (ov_now E) d, q]" "decision_id q = new_decision_id (decisions ?s1)"
    by blast
  define f :: "DispatchDecision \<Rightarrow> DispatchDecision"
    where "f = (\<lambda>r. r\<lparr> dispatchStatus := DispatchStatus.ASSIGNED, processingTimeMs := Some (ov_elapsed E), dispatchMethod := LEGACY \<rparr>)"
  have up: "updateDispatchDecision ?i f s2 = (s2\<lparr> decisions := decisions ?S @ [f (control_row ?i (ov_now E) d), q] \<rparr>, Inr ())"
    using update_before_last[of "control_row ?i (ov_now E) d" "decisions ?S" f q s2] q by (simp add: f_def control_row_def)
  have "executeSafeDispatch (ov_now E) (ov_elapsed E) (ov_pick E) (ov_configs E) ?cb d (ov_eligible E) ?S
      = (s2\<lparr> decisions := decisions ?S @ [f (control_row ?i (ov_now E) d), q] \<rparr>, Inr (Legacy_Done ''Control group'' x))"
    using s2(1) up assms(2)
    by (simp add: executeSafeDispatch_def insert_decision_eq control_branch_def f_def flip: control_row_def)
  then show ?thesis using s2(2) assms(4) by (simp add: dispatch_order_def Let_def) blast
qed

lemma callback_cases:
  obtains (offer) dr f where "findNearestAvailable E (sp_pickup p) (ob_drivers s) = Some dr"
      "ob_offers (fst (legacy_callback E p d s)) = ob_offers s @ [f]" "of_deliveryId f = d" "of_driverId f = dr_id dr"
      "of_status f = Of_PENDING" "of_expiresAt f = ov_now E + 90000" "\<exists>x. snd (legacy_callback E p d s) = Inr x"
  | (refused) st m where "snd (legacy_callback E p d s) = Inl (Some st, m)" "st \<ge> 400" "fst (legacy_callback E p d s) = s"
proof (cases "findNearestAvailable E (sp_pickup p) (ob_drivers s)")
  case None
  then show ?thesis using refused by (simp add: legacy_callback_def)
next
  case (Some dr)
  let ?dto = "\<lparr> co_driverId = dr_id dr, co_deliveryId = d, co_expiresInSeconds = Some 90 \<rparr>"
  obtain o' r where c: "createOfferForDriver (ov_offer E) ?dto s = (o', r)" by fastforce
  show ?thesis
  proof (cases r)
    case (Inl e)
    then have "o' = s" "\<exists>m. e = Offer_Not_Found m \<or> e = Offer_Conflict m"
      using c by (auto simp: createOfferForDriver_def Let_def split: option.splits if_splits)
    then show ?thesis using refused Some c Inl by (auto simp: legacy_callback_def)
  next
    case (Inr f)
    then have "f = new_offer (ov_offer E) ?dto" "ob_offers o' = ob_offers s @ [f]"
      using c by (auto simp: createOfferForDriver_def Let_def split: option.splits if_splits)
    then show ?thesis using offer[of dr f] Some c Inr by (simp add: legacy_callback_def new_offer_def)
  qed
qed

lemma refused_dispatch:
  assumes "pick_ok (ov_pick E)" "assignToCohort (ov_configs E) d = CONTROL" "legacy_rows d (decisions (sy_dispatch s)) = []"
    "snd (legacy_callback E p d (sy_offers s)) = Inl (Some st, m)" "st \<ge> 400"
  shows "\<exists>ds. dispatch_order E p d s = (s\<lparr> sy_dispatch := ds, sy_offers := fst (legacy_callback E p d (sy_offers s)) \<rparr>, Inl (Some st, m))"
proof -
  let ?n0 = "length (callback_log (sy_dispatch s))"
  let ?cb = "\<lambda>n d' reason. snd (legacy_callback E p d (after_calls E p d (n - ?n0) (sy_offers s)))"
  obtain ds r where e: "executeSafeDispatch (ov_now E) (ov_elapsed E) (ov_pick E) (ov_configs E) ?cb d (ov_eligible E) (sy_dispatch s) = (ds, r)"
    by fastforce
  have "?cb ?n0 d ''Control group'' = Inl (Some st, m)" using assms(4) by simp
  then have "r = Inl (Some st, m) \<and> callback_log ds = callback_log (sy_dispatch s) @ [(d, ''Control group'')]"
    using failing_control_dispatch[OF assms(1-3) _ e, of "Some st" m] assms(5) by simp
  then show ?thesis using e by (simp add: dispatch_order_def Let_def) blast
qed

lemma five_steps: "(f ^^ 5) x = f (f (f (f (f x))))"
  by (simp add: eval_nat_numeral)

definition fresh_order :: "order_env \<Rightarrow> order_payload \<Rightarrow> order_sys \<Rightarrow> bool" where
  "fresh_order E p s \<longleftrightarrow> lookup_by dl_sellerOrderId (sp_sellerOrderId p) (db_deliveries (sy_offers s)) = None
     \<and> ov_create_error E = None \<and> \<not> key_exists (ov_now E) (sp_eventId p) s
     \<and> pick_ok (ov_pick E) \<and> assignToCohort (ov_configs E) (env_new_id (oe_env (ov_offer E))) = CONTROL
     \<and> legacy_rows (env_new_id (oe_env (ov_offer E))) (decisions (sy_dispatch s)) = []"

definition with_delivery :: "order_env \<Rightarrow> order_payload \<Rightarrow> order_sys \<Rightarrow> order_sys" where
  "with_delivery E p s = s\<lparr> sy_offers := (sy_offers s)\<lparr> db_deliveries :=
     save_delivery (new_delivery (oe_env (ov_offer E)) (order_dto p)) (db_deliveries (sy_offers s)) \<rparr> \<rparr>"

lemma create_fresh:
  "fresh_order E p s \<Longrightarrow> create_order E p s = (with_delivery E p s, Inr (new_delivery (oe_env (ov_offer E)) (order_dto p)))"
  by (simp add: fresh_order_def create_order_def create_delivery_def order_dto_def new_delivery_def with_delivery_def Let_def)

lemma fresh_steps:
  assumes "fresh_order E p s"
  shows "order_step E p (Ph_Arrived, s) = (Ph_Checked, s)" "order_step E p (Ph_Checked, s) = (Ph_Create, s)"
    "order_step E p (Ph_Create, s) = (Ph_Dispatch (env_new_id (oe_env (ov_offer E))), with_delivery E p s)"
  using assms create_fresh[OF assms] by (simp_all add: order_step_def fresh_order_def new_delivery_def)

text \<open>C15: In the control cohort, the first request of an order that is answered with success has made exactly one offer:
  of the delivery it created, pending for ninety seconds, to the nearest available driver.\<close>

theorem success_makes_offer:
  assumes "fresh_order E (rq_payload r) s"
    "onSellerOrderReady hmac num C E r s = (Ph_Done (Order_Success d m meth), s')"
  shows "\<exists>dr f. findNearestAvailable E (sp_pickup (rq_payload r)) (ob_drivers (sy_offers s)) = Some dr
    \<and> ob_offers (sy_offers s') = ob_offers (sy_offers s) @ [f] \<and> of_deliveryId f = d \<and> of_driverId f = dr_id dr
    \<and> of_status f = Of_PENDING \<and> of_expiresAt f = ov_now E + 90000"
proof -
  let ?p = "rq_payload r" and ?d = "env_new_id (oe_env (ov_offer E))"
  let ?s1 = "with_delivery E ?p s"
  have adm: "admitted hmac num C (ov_now E) r = None"
    using assms(2) by (auto simp: onSellerOrderReady_def split: option.splits)
  then have run: "order_step E ?p (order_step E ?p (Ph_Dispatch ?d, ?s1)) = (Ph_Done (Order_Success d m meth), s')"
    using assms(2) fresh_steps[OF assms(1)] by (simp add: onSellerOrderReady_def five_steps)
  have c: "pick_ok (ov_pick E)" "assignToCohort (ov_configs E) ?d = CONTROL" "legacy_rows ?d (decisions (sy_dispatch ?s1)) = []"
    using assms(1) by (simp_all add: fresh_order_def with_delivery_def)
  have same: "ob_offers (sy_offers ?s1) = ob_offers (sy_offers s)" "ob_drivers (sy_offers ?s1) = ob_drivers (sy_offers s)"
    by (simp_all add: with_delivery_def)
  show ?thesis
  proof (cases rule: callback_cases[where E = E and p = ?p and s = "sy_offers ?s1" and d = ?d])
    case (offer dr f)
    then obtain x where "legacy_callback E ?p ?d (sy_offers ?s1) = (fst (legacy_callback E ?p ?d (sy_offers ?s1)), Inr x)"
      by (metis prod.collapse)
    then obtain ds where "dispatch_order E ?p ?d ?s1
        = (?s1\<lparr> sy_dispatch := ds, sy_offers := fst (legacy_callback E ?p ?d (sy_offers ?s1)) \<rparr>, Inr (Legacy_Done ''Control group'' x))"
      using control_dispatch[OF c] by metis
    then have "d = ?d" "sy_offers s' = fst (legacy_callback E ?p ?d (sy_offers ?s1))"
      using run by (auto simp: order_step_def set_key_def)
    then show ?thesis using offer same by auto
  next
    case (refused st m')
    then obtain ds where "dispatch_order E ?p ?d ?s1
        = (?s1\<lparr> sy_dispatch := ds, sy_offers := fst (legacy_callback E ?p ?d (sy_offers ?s1)) \<rparr>, Inl (Some st, m'))"
      using refused_dispatch[OF c] by metis
    then show ?thesis using run refused(2) by (simp add: order_step_def dispatch_error_of_def)
  qed
qed

definition sample_order_env :: "string list \<Rightarrow> order_env" where
  "sample_order_env ids = \<lparr> ov_offer = sample_offer_env, ov_create_error = None, ov_elapsed = 1, ov_pick = first_row,
     ov_configs = [], ov_eligible = [], ov_distance = (\<lambda>_ _ _ _. 0), ov_search = (\<lambda>_ _ _. Some ids) \<rparr>"

definition sample_order_request :: order_request where
  "sample_order_request = \<lparr> rq_payload = \<lparr> sp_eventId = ''e1'', sp_sellerOrderId = ''o2'', sp_channelId = ''c'', sp_pickup = (0, 0), sp_drop = (1, 1) \<rparr>,
     rq_secret = None, rq_timestamp = None, rq_signature = None \<rparr>"

definition sample_config :: event_config where
  "sample_config = \<lparr> ec_expectedSecret = None, ec_signatureSecret = None, ec_enforceSignature = False \<rparr>"

definition sample_order_sys :: order_sys where
  "sample_order_sys = \<lparr> sy_offers = sample_offers_db fresh_delivery APPROVED, sy_dispatch = empty_dispatch, sy_keys = [] \<rparr>"

lemma sample_fresh: "fresh_order (sample_order_env ids) (rq_payload sample_order_request) sample_order_sys"
proof -
  have "assignToCohort [] ''id1'' = CONTROL" by code_simp
  then show ?thesis
    by (simp add: fresh_order_def sample_order_env_def sample_order_request_def sample_order_sys_def sample_offers_db_def
        fresh_delivery_def sample_delivery_def sample_offer_env_def sample_env_def key_exists_def first_row_ok
        empty_dispatch_def legacy_rows_def)
qed

text \<open>Without a configured secret a request without one is admitted.\<close>

lemma unset_secret_admits: "admitted hmac num sample_config now sample_order_request = None"
  by (simp add: admitted_def sample_config_def sample_order_request_def validateSignature_def)

lemma sample_callback:
  "\<exists>o' x. legacy_callback (sample_order_env [''r2'']) (rq_payload sample_order_request) ''id1''
     (sy_offers (with_delivery (sample_order_env [''r2'']) (rq_payload sample_order_request) sample_order_sys)) = (o', Inr x)"
proof -
  let ?E = "sample_order_env [''r2'']" and ?p = "rq_payload sample_order_request"
  let ?s = "sy_offers (with_delivery ?E ?p sample_order_sys)"
  have d: "find_delivery ''id1'' (db_deliveries ?s) = Some (new_delivery sample_env (order_dto ?p))"
    by (simp add: with_delivery_def sample_order_env_def sample_offer_env_def find_delivery_def save_delivery_def lookup_save_by
        new_delivery_def sample_env_def)
  have drs: "ob_drivers ?s = ob_drivers (sample_offers_db fresh_delivery APPROVED)"
    by (simp add: with_delivery_def sample_order_sys_def)
  have "findNearestAvailable ?E (sp_pickup ?p) (ob_drivers (sample_offers_db fresh_delivery APPROVED)) = Some (sample_driver ''r2'' APPROVED)"
    by (simp add: findNearestAvailable_def findAvailable_def sample_order_env_def sample_order_request_def sample_offers_db_def
        sample_driver_def ready_def List.map_filter_simps Let_def)
  then have "findNearestAvailable ?E (sp_pickup ?p) (ob_drivers ?s) = Some (sample_driver ''r2'' APPROVED)"
    using drs by metis
  moreover have "find_driver ''r2'' (ob_drivers ?s) = Some (sample_driver ''r2'' APPROVED)"
    by (simp add: drs sample_offers_db_def find_driver_def sample_driver_def)
  moreover have "fst (checkDeliveryAcceptanceCapability (oe_active sample_offer_env) (ob_drivers ?s) ''r2'') = None"
    using calculation(2) by (simp add: capability_iff sample_driver_def sample_offer_env_def)
  ultimately show ?thesis
    using d by (simp add: legacy_callback_def createOfferForDriver_def Let_def sample_driver_def sample_order_env_def
        new_delivery_def)
qed

theorem success_makes_offer_witness:
  "\<exists>d m meth s' f. onSellerOrderReady (\<lambda>_ _. []) (\<lambda>_. None) sample_config (sample_order_env [''r2'']) sample_order_request sample_order_sys
      = (Ph_Done (Order_Success d m meth), s')
    \<and> ob_offers (sy_offers s') = [sample_offer, f] \<and> of_deliveryId f = d \<and> of_status f = Of_PENDING"
proof -
  let ?E = "sample_order_env [''r2'']" and ?p = "rq_payload sample_order_request" and ?s = sample_order_sys
  have id: "env_new_id (oe_env (ov_offer ?E)) = ''id1''" by (simp add: sample_order_env_def sample_offer_env_def sample_env_def)
  obtain o' x where c: "legacy_callback ?E ?p ''id1'' (sy_offers (with_delivery ?E ?p ?s)) = (o', Inr x)"
    using sample_callback by blast
  have "pick_ok (ov_pick ?E)" "assignToCohort (ov_configs ?E) ''id1'' = CONTROL"
    "legacy_rows ''id1'' (decisions (sy_dispatch (with_delivery ?E ?p ?s))) = []"
    using sample_fresh[of "[''r2'']"] id by (simp_all add: fresh_order_def with_delivery_def)
  then obtain ds where "dispatch_order ?E ?p ''id1'' (with_delivery ?E ?p ?s)
      = ((with_delivery ?E ?p ?s)\<lparr> sy_dispatch := ds, sy_offers := o' \<rparr>, Inr (Legacy_Done ''Control group'' x))"
    using control_dispatch[OF _ _ _ c] by blast
  then have "\<exists>s'. onSellerOrderReady (\<lambda>_ _. []) (\<lambda>_. None) sample_config ?E sample_order_request ?s
      = (Ph_Done (Order_Success ''id1'' ''Dispatch completed'' (Some ''LEGACY'')), s')"
    using fresh_steps[OF sample_fresh[of "[''r2'']"]] id
    by (simp add: onSellerOrderReady_def unset_secret_admits five_steps) (simp add: order_step_def)
  then obtain s' where r: "onSellerOrderReady (\<lambda>_ _. []) (\<lambda>_. None) sample_config ?E sample_order_request ?s
      = (Ph_Done (Order_Success ''id1'' ''Dispatch completed'' (Some ''LEGACY'')), s')" by blast
  have o: "ob_offers (sy_offers ?s) = [sample_offer]" by (simp add: sample_order_sys_def sample_offers_db_def)
  obtain f where "ob_offers (sy_offers s') = [sample_offer, f]" "of_deliveryId f = ''id1''" "of_status f = Of_PENDING"
    using success_makes_offer[OF sample_fresh r] o by auto
  then show ?thesis using r by metis
qed

section \<open>A late duplicate\<close>

lemma order_saved: "lookup_by dl_sellerOrderId (sp_sellerOrderId p) (db_deliveries (sy_offers (with_delivery E p s))) \<noteq> None"
proof -
  let ?d = "new_delivery (oe_env (ov_offer E)) (order_dto p)" and ?ds = "db_deliveries (sy_offers s)"
  have "?d \<in> set (save_delivery ?d ?ds)"
    using lookup_by_SomeD[of dl_id "dl_id ?d" "save_delivery ?d ?ds" ?d] by (simp add: save_delivery_def lookup_save_by)
  moreover have "dl_sellerOrderId ?d = sp_sellerOrderId p" by (simp add: new_delivery_def order_dto_def)
  ultimately show ?thesis by (auto simp: with_delivery_def lookup_by_def find_None_iff)
qed

lemma create_again:
  "ov_create_error E = None \<Longrightarrow> create_order E p (with_delivery E p s) = (with_delivery E p s, Inl Unique_Violation)"
  using order_saved[of p E s] by (simp add: create_order_def)

lemma no_driver_callback:
  "findNearestAvailable E (sp_pickup p) (ob_drivers o0) = None
    \<Longrightarrow> legacy_callback E p d o0 = (o0, Inl (Some 503, ''No drivers available''))"
  by (simp add: legacy_callback_def)

text \<open>The steps in which a second request of a new order overtakes the dispatch of the first; a third is the retry.\<close>

definition race_schedule :: "order_env \<Rightarrow> order_env \<Rightarrow> (nat \<times> order_env) list" where
  "race_schedule E E' = [(0, E), (1, E), (0, E), (1, E), (0, E), (1, E), (1, E), (0, E), (2, E')]"

text \<open>C16: Two requests of a new order interleave and no driver is near: the second meets the
  unique constraint and sets the key before the first is refused with 503. The retry
  that the 503 asks for, at any time before the key expires, is then ignored as a duplicate and no offer was ever made.\<close>

theorem late_duplicate_hides_refused_order:
  assumes fresh: "fresh_order E p s"
    and none: "findNearestAvailable E (sp_pickup p) (ob_drivers (sy_offers s)) = None"
    and before: "ov_now E' < ov_now E + 24 * 60 * 60 * 1000"
  shows "\<exists>s'. run_orders p (race_schedule E E') ([Ph_Arrived, Ph_Arrived, Ph_Arrived], s)
      = ([Ph_Done (Order_Refused 503 ''No drivers available''),
          Ph_Done (Order_Ignored ''Duplicate delivery suppressed by DB constraint''),
          Ph_Done (Order_Ignored ''Duplicate event ignored'')], s')
    \<and> ob_offers (sy_offers s') = ob_offers (sy_offers s)"
proof -
  let ?d = "env_new_id (oe_env (ov_offer E))" and ?s1 = "with_delivery E p s"
  let ?s2 = "set_key (ov_now E) (sp_eventId p) ?s1"
  have dup: "order_step E p (Ph_Create, ?s1) = (Ph_Mark (Order_Ignored ''Duplicate delivery suppressed by DB constraint''), ?s1)"
    using fresh create_again[of E p s] by (simp add: order_step_def fresh_order_def)
  have mark: "order_step E p (Ph_Mark q, ?s1) = (Ph_Done q, ?s2)" for q by (simp add: order_step_def)
  have cb: "legacy_callback E p ?d (sy_offers ?s2) = (sy_offers ?s2, Inl (Some 503, ''No drivers available''))"
    using none by (intro no_driver_callback) (simp add: with_delivery_def set_key_def)
  have "pick_ok (ov_pick E)" "assignToCohort (ov_configs E) ?d = CONTROL" "legacy_rows ?d (decisions (sy_dispatch ?s2)) = []"
    using fresh by (simp_all add: fresh_order_def with_delivery_def set_key_def)
  then obtain ds where "dispatch_order E p ?d ?s2
      = (?s2\<lparr> sy_dispatch := ds, sy_offers := sy_offers ?s2 \<rparr>, Inl (Some 503, ''No drivers available''))"
    using refused_dispatch[of E ?d ?s2 p 503] cb by auto
  then have ref: "order_step E p (Ph_Dispatch ?d, ?s2)
      = (Ph_Done (Order_Refused 503 ''No drivers available''), ?s2\<lparr> sy_dispatch := ds \<rparr>)"
    by (simp add: order_step_def dispatch_error_of_def)
  have last: "order_step E' p (Ph_Arrived, ?s2\<lparr> sy_dispatch := ds \<rparr>)
      = (Ph_Done (Order_Ignored ''Duplicate event ignored''), ?s2\<lparr> sy_dispatch := ds \<rparr>)"
    using before by (simp add: order_step_def key_exists_def set_key_def eventIdTtlSeconds_def)
  have "ob_offers (sy_offers (?s2\<lparr> sy_dispatch := ds \<rparr>)) = ob_offers (sy_offers s)"
    by (simp add: with_delivery_def set_key_def)
  then show ?thesis
    by (simp add: race_schedule_def fresh_steps[OF fresh] dup mark ref last)
qed

theorem late_duplicate_hides_refused_order_witness:
  "\<exists>s'. run_orders (rq_payload sample_order_request) (race_schedule (sample_order_env [''r9'']) (sample_order_env [''r9'']))
      ([Ph_Arrived, Ph_Arrived, Ph_Arrived], sample_order_sys)
    = ([Ph_Done (Order_Refused 503 ''No drivers available''),
        Ph_Done (Order_Ignored ''Duplicate delivery suppressed by DB constraint''),
        Ph_Done (Order_Ignored ''Duplicate event ignored'')], s')
    \<and> ob_offers (sy_offers s') = ob_offers (sy_offers sample_order_sys)"
  by (rule late_duplicate_hides_refused_order[OF sample_fresh])
    (simp_all add: findNearestAvailable_def findAvailable_def sample_order_env_def sample_order_sys_def
      sample_offers_db_def sample_order_request_def sample_driver_def List.map_filter_simps Let_def)

end
