(* ===== verification/Event_Handlers.thy ===== *)
theory Event_Handlers
  imports Outbox_Worker Websocket Authorization
begin

text \<open>
  The handlers behind the outbox (\<^verbatim>\<open>domain-events/handlers/*.ts\<close>), their registration at the
  start (\<^verbatim>\<open>domain-events/domain-events.startup.service.ts\<close>) and the webhooks they send
  (\<^verbatim>\<open>webhooks/webhooks.service.ts\<close>), with what becomes of the events that deliveries and
  registrations publish. The request to the other service, with the retries of its
  library, the fresh identifiers and the rooms are arguments; the limits on concurrent
  requests are left out, since a handler here runs alone.
\<close>

section \<open>Webhooks\<close>

text \<open>\<^verbatim>\<open>he_post\<close> is the message of the error the \<open>n\<close>-th request ends with; \<^verbatim>\<open>he_show\<close> is \<^verbatim>\<open>String\<close>
  on values that are not strings.\<close>

record handler_env =
  he_url :: "string option"
  he_ws :: ws_events
  he_now :: int
  he_uuid :: "nat \<Rightarrow> string"
  he_post :: "nat \<Rightarrow> json \<Rightarrow> string option"
  he_show :: "json \<Rightarrow> string"
  he_io :: bool
  he_rooms :: "string \<Rightarrow> string set option"
  he_push :: bool
  he_send :: "string \<Rightarrow> send_error + unit"
  he_redis :: bool
  he_run :: pipeline_run

text \<open>The requests sent, the identifiers drawn, the messages to drivers, and Redis.\<close>

record event_world =
  ew_posts :: "json list"
  ew_ids :: nat
  ew_messages :: "(string \<times> json) list"
  ew_store :: store

definition sendToVendure :: "handler_env \<Rightarrow> (string \<times> json) list \<Rightarrow> string \<Rightarrow> (event_world, string, unit) action" where
  "sendToVendure H payload eventType w =
    (if \<not> truthy (he_url H) then (w, Inr ())
     else let x = JObj ([(''event'', JStr eventType), (''version'', JNum 1), (''timestamp'', JIso (he_now H))] @ payload);
              w' = w\<lparr> ew_posts := ew_posts w @ [x] \<rparr>
          in (case he_post H (length (ew_posts w)) x of None \<Rightarrow> (w', Inr ()) | Some m \<Rightarrow> (w', Inl m)))"

text \<open>\<^verbatim>\<open>randomUUID\<close>: the identifiers are drawn in order.\<close>

definition with_eventId ::
    "handler_env \<Rightarrow> ((string \<times> json) \<Rightarrow> (event_world, string, unit) action) \<Rightarrow> (event_world, string, unit) action" where
  "with_eventId H k w = k (''eventId'', JStr (he_uuid H (ew_ids w))) (w\<lparr> ew_ids := ew_ids w + 1 \<rparr>)"

definition emitDeliveryAssigned :: "handler_env \<Rightarrow> (string \<times> json) list \<Rightarrow> (event_world, string, unit) action" where
  "emitDeliveryAssigned H data = with_eventId H (\<lambda>i. sendToVendure H (i # data) (ws_DELIVERY_ASSIGNED (he_ws H)))"

definition emitDeliveryPickedUp :: "handler_env \<Rightarrow> (string \<times> json) list \<Rightarrow> (event_world, string, unit) action" where
  "emitDeliveryPickedUp H data = with_eventId H (\<lambda>i. sendToVendure H (i # data) (ws_DELIVERY_PICKUP_CONFIRMED (he_ws H)))"

definition emitDeliveryDelivered :: "handler_env \<Rightarrow> (string \<times> json) list \<Rightarrow> (event_world, string, unit) action" where
  "emitDeliveryDelivered H data = with_eventId H (\<lambda>i. sendToVendure H (i # data) (ws_DELIVERY_DROPOFF_CONFIRMED (he_ws H)))"

definition emitDeliveryFailed :: "handler_env \<Rightarrow> (string \<times> json) list \<Rightarrow> (event_world, string, unit) action" where
  "emitDeliveryFailed H data = with_eventId H (\<lambda>i. sendToVendure H (i # data) (ws_DELIVERY_FAILED (he_ws H)))"

definition emitDeliveryCancelled :: "handler_env \<Rightarrow> (string \<times> json) list \<Rightarrow> (event_world, string, unit) action" where
  "emitDeliveryCancelled H data = with_eventId H
     (\<lambda>i. sendToVendure H (i # (''cancelledAt'', JIso (he_now H)) # data) (ws_DELIVERY_CANCELLED (he_ws H)))"

section \<open>Reading payloads\<close>

text \<open>A field of an object literal; one that is undefined is not serialised.\<close>

definition copied :: "string \<Rightarrow> json \<Rightarrow> (string \<times> json) list" where
  "copied k p = opt_field k (json_get k p) (\<lambda>v. v)"

definition given_or :: "string \<Rightarrow> string \<Rightarrow> json \<Rightarrow> json \<Rightarrow> (string \<times> json) list" where
  "given_or k from d p = [(k, if json_truthy (json_get from p) then the (json_get from p) else d)]"

text \<open>\<^verbatim>\<open>String(v ?? "")\<close>.\<close>

definition text_of :: "handler_env \<Rightarrow> json option \<Rightarrow> string" where
  "text_of H v = (case v of None \<Rightarrow> [] | Some JNull \<Rightarrow> [] | Some (JStr s) \<Rightarrow> s | Some j \<Rightarrow> he_show H j)"

section \<open>Handlers\<close>

definition handle_assigned :: "handler_env \<Rightarrow> event_world handler" where
  "handle_assigned H ev w = (let p = ev_payload ev; driverId = text_of H (json_get ''driverId'' p) in
     if ev_eventType ev = [] then (w, Inl (''Missing eventType for outbox event '' @ nat_str (ev_id ev)))
     else if ev_eventType ev \<notin> {''DELIVERY_ASSIGNED_V1'', ''DELIVERY_ASSIGNED_V2'', ''DELIVERY_ASSIGNED_V3''}
     then (w, Inl (''Invalid event type for DeliveryAssignedHandler: '' @ ev_eventType ev))
     else if driverId = [] then (w, Inl ''DELIVERY_ASSIGNED payload missing driverId'')
     else let w1 = (if he_io H then w\<lparr> ew_messages := ew_messages w @ [(room driverId, p)] \<rparr> else w);
              sent = (if json_truthy (json_get ''sellerOrderId'' p) \<and> json_truthy (json_get ''channelId'' p)
                then emitDeliveryAssigned H (copied ''sellerOrderId'' p @ copied ''channelId'' p
                  @ [(''driverId'', JStr driverId), (''assignmentId'', JStr (text_of H (json_get ''assignmentId'' p)))]
                  @ given_or ''assignedAt'' ''assignedAt'' (JIso (he_now H)) p) w1
                else (w1, Inr ()))
          in (case sent of
              (w2, Inl e) \<Rightarrow> (w2, Inl e)
            | (w2, Inr _) \<Rightarrow> (w2\<lparr> ew_store := fst (notifyOffer (he_push H) (he_send H) (he_now H) driverId
                  (he_io H \<and> isDriverConnected (he_rooms H) driverId) (ew_store w2)) \<rparr>, Inr ())))"

definition handle_cancelled :: "handler_env \<Rightarrow> event_world handler" where
  "handle_cancelled H ev w = (let p = ev_payload ev in
     if ev_eventType ev = [] then (w, Inl (''Missing eventType for outbox event '' @ nat_str (ev_id ev)))
     else if ev_eventType ev \<notin> {''DELIVERY_CANCELLED_V1'', ''DELIVERY_CANCELLED_V2'', ''DELIVERY_CANCELLED_V3''}
     then (w, Inl (''Invalid event type for DeliveryCancelledHandler: '' @ ev_eventType ev))
     else if \<not> json_truthy (json_get ''sellerOrderId'' p) \<or> \<not> json_truthy (json_get ''channelId'' p)
     then (w, Inl ''DELIVERY_CANCELLED payload missing sellerOrderId or channelId'')
     else emitDeliveryCancelled H (copied ''sellerOrderId'' p @ copied ''channelId'' p
       @ given_or ''reason'' ''reason'' (JStr ''Cancelled by driver or system'') p) w)"

definition order_fields :: "json \<Rightarrow> (string \<times> json) list" where
  "order_fields p = copied ''sellerOrderId'' p @ copied ''channelId'' p"

definition handle_picked_up :: "handler_env \<Rightarrow> json \<Rightarrow> (event_world, string, unit) action" where
  "handle_picked_up H p = emitDeliveryPickedUp H (order_fields p @ copied ''pickupProofUrl'' p
     @ given_or ''pickedUpAt'' ''pickedUpAt'' (JIso (he_now H)) p)"

definition handle_dropped_off :: "handler_env \<Rightarrow> json \<Rightarrow> (event_world, string, unit) action" where
  "handle_dropped_off H p = emitDeliveryDelivered H (order_fields p @ copied ''deliveryProofUrl'' p
     @ given_or ''deliveredAt'' ''deliveredAt'' (JIso (he_now H)) p)"

text \<open>A confirmation is treated as the pick-up or the delivery.\<close>

definition handle_pickup_confirmed :: "handler_env \<Rightarrow> json \<Rightarrow> (event_world, string, unit) action" where
  "handle_pickup_confirmed H p = emitDeliveryPickedUp H (order_fields p @ copied ''pickupProofUrl'' p
     @ given_or ''pickedUpAt'' ''pickedUpAt'' (JIso (he_now H)) p)"

definition handle_dropoff_confirmed :: "handler_env \<Rightarrow> json \<Rightarrow> (event_world, string, unit) action" where
  "handle_dropoff_confirmed H p = emitDeliveryDelivered H (order_fields p @ copied ''deliveryProofUrl'' p
     @ given_or ''deliveredAt'' ''deliveredAt'' (JIso (he_now H)) p)"

definition handle_cancel_forwarded :: "handler_env \<Rightarrow> json \<Rightarrow> (event_world, string, unit) action" where
  "handle_cancel_forwarded H p = emitDeliveryCancelled H (order_fields p @ copied ''reason'' p)"

definition handle_failed :: "handler_env \<Rightarrow> json \<Rightarrow> (event_world, string, unit) action" where
  "handle_failed H p = emitDeliveryFailed H (order_fields p @ [(''failure'', JObj ((''code'', JStr ''DELIVERY_FAILED'')
     # given_or ''reason'' ''reason'' (JStr ''Unknown failure'') p
     @ given_or ''occurredAt'' ''failedAt'' (JIso (he_now H)) p))])"

definition handle_forwarding :: "handler_env \<Rightarrow> event_world handler" where
  "handle_forwarding H ev w = (let t = ev_eventType ev; p = ev_payload ev in
     if t = ''DELIVERY_ASSIGNED_V1'' then (w, Inr ())
     else if t = ''DELIVERY_PICKED_UP_V1'' then handle_picked_up H p w
     else if t = ''DELIVERY_DROPPED_OFF_V1'' then handle_dropped_off H p w
     else if t = ''PROOF_ACCEPTED_V1'' then (w, Inr ())
     else if t = ''DELIVERY_PICKUP_CONFIRMED_V1'' then handle_pickup_confirmed H p w
     else if t = ''DELIVERY_DROPOFF_CONFIRMED_V1'' then handle_dropoff_confirmed H p w
     else if t = ''DELIVERY_FAILED_V1'' then handle_failed H p w
     else if t = ''DELIVERY_CANCELLED_V1'' then handle_cancel_forwarded H p w
     else (w, Inl (''Unknown outbox event type: '' @ t)))"

text \<open>The location handler takes any value; it reads the fields of a
  \<^verbatim>\<open>DriverLocationUpdatedEvent\<close>. A value without them cannot be stored.\<close>

definition handle_location :: "handler_env \<Rightarrow> json \<Rightarrow> (event_world, string, unit) action" where
  "handle_location H p w =
    (if json_get ''status'' p \<noteq> Some (JStr ''AVAILABLE'') then (w, Inr ())
     else (case (json_get ''driverId'' p, json_get ''lat'' p, json_get ''lon'' p) of
         (Some (JStr i), Some (JNum la), Some (JNum lo)) \<Rightarrow>
           (w\<lparr> ew_store := Presence.updateDriverLocation (he_redis H) (he_run H) (he_now H) i la lo 60 (ew_store w) \<rparr>, Inr ())
       | _ \<Rightarrow> (w, Inr ())))"

text \<open>The registry hands it the event, as it does to every handler.\<close>

fun outbox_status_text :: "outbox_status \<Rightarrow> string" where
  "outbox_status_text OB_PENDING = ''PENDING''"
| "outbox_status_text OB_PROCESSING = ''PROCESSING''"
| "outbox_status_text OB_COMPLETED = ''COMPLETED''"
| "outbox_status_text OB_FAILED = ''FAILED''"

definition event_object :: "outbox_event \<Rightarrow> json" where
  "event_object ev = JObj ([(''id'', JNum (of_nat (ev_id ev))), (''eventType'', JStr (ev_eventType ev)),
     (''payload'', ev_payload ev), (''status'', JStr (outbox_status_text (ev_status ev))), (''priority'', JStr ''MEDIUM''),
     (''retryCount'', JNum (of_nat (ev_retryCount ev)))]
     @ opt_field ''lastError'' (ev_lastError ev) JStr @ opt_field ''nextRetryAt'' (ev_nextRetryAt ev) JIso
     @ [(''createdAt'', JIso (ev_createdAt ev))] @ opt_field ''processedAt'' (ev_processedAt ev) JIso
     @ opt_field ''lockedAt'' (ev_lockedAt ev) JIso @ opt_field ''lockedBy'' (ev_lockedBy ev) JStr
     @ [(''idempotencyKey'', JStr (ev_idempotencyKey ev)), (''version'', JNum (of_nat (ev_version ev)))])"

definition handle_lifecycle :: "event_world handler" where
  "handle_lifecycle ev w = (w, Inr ())"

section \<open>Registration\<close>

definition forwarded_types :: "string list" where
  "forwarded_types =
    [''DELIVERY_PICKUP_CONFIRMED_V1'', ''DELIVERY_PICKUP_CONFIRMED_V2'', ''DELIVERY_PICKUP_CONFIRMED_V3'',
     ''DELIVERY_DROPOFF_CONFIRMED_V1'', ''DELIVERY_DROPOFF_CONFIRMED_V2'', ''DELIVERY_DROPOFF_CONFIRMED_V3'',
     ''DELIVERY_FAILED_V1'', ''DELIVERY_FAILED_V2'', ''DELIVERY_FAILED_V3'',
     ''PROOF_ACCEPTED_V1'', ''PROOF_ACCEPTED_V2'', ''PROOF_ACCEPTED_V3'']"

definition registrations :: "handler_env \<Rightarrow> (string \<times> event_world handler) list" where
  "registrations H =
     map (\<lambda>t. (t, handle_assigned H)) [''DELIVERY_ASSIGNED_V1'', ''DELIVERY_ASSIGNED_V2'', ''DELIVERY_ASSIGNED_V3'']
   @ [(''DELIVERY_CANCELLED_V1'', handle_cancelled H)]
   @ map (\<lambda>t. (t, handle_forwarding H)) forwarded_types
   @ [(''DRIVER_LOCATION_UPDATED_V1'', \<lambda>ev. handle_location H (event_object ev))]
   @ map (\<lambda>t. (t, handle_lifecycle)) [''DRIVER_REGISTERED_V1'', ''DRIVER_PROFILE_COMPLETED_V1'', ''DRIVER_APPROVAL_REQUESTED_V1'']"

definition registerHandlers :: "handler_env \<Rightarrow> event_world registry" where
  "registerHandlers H = for_each (\<lambda>(t, h). register_handler t h) (registrations H) Map.empty"

definition required_types :: "string list" where
  "required_types = [''DELIVERY_ASSIGNED_V1'', ''DELIVERY_ASSIGNED_V2'', ''DELIVERY_ASSIGNED_V3'', ''DELIVERY_CANCELLED_V1'',
     ''DELIVERY_PICKUP_CONFIRMED_V1'', ''DELIVERY_DROPOFF_CONFIRMED_V1'', ''DELIVERY_FAILED_V1'', ''PROOF_ACCEPTED_V1'',
     ''DRIVER_LOCATION_UPDATED_V1'']"

definition startup_onModuleInit :: "handler_env \<Rightarrow> event_world registry \<times> (string list + unit)" where
  "startup_onModuleInit H = (let reg = registerHandlers H in (reg, validateHandlers reg required_types))"

section \<open>Who handles what\<close>

lemma registry_of:
  "for_each (\<lambda>(t, h). register_handler t h) rs m t = (case map_of (rev rs) t of None \<Rightarrow> m t | Some h \<Rightarrow> Some h)"
  by (induction rs arbitrary: m) (auto simp: register_handler_def split: option.splits)

lemma registered_types: "map fst (registrations H) = [''DELIVERY_ASSIGNED_V1'', ''DELIVERY_ASSIGNED_V2'', ''DELIVERY_ASSIGNED_V3'',
   ''DELIVERY_CANCELLED_V1''] @ forwarded_types @ [''DRIVER_LOCATION_UPDATED_V1'', ''DRIVER_REGISTERED_V1'',
   ''DRIVER_PROFILE_COMPLETED_V1'', ''DRIVER_APPROVAL_REQUESTED_V1'']"
  by (simp add: registrations_def comp_def)

lemma types_distinct: "distinct (map fst (registrations H))"
  unfolding registered_types forwarded_types_def by simp

lemma registered_handler: "(t, h) \<in> set (registrations H) \<Longrightarrow> registerHandlers H t = Some h"
  using map_of_eq_Some_iff[of "rev (registrations H)" t h] types_distinct[of H]
  by (simp add: registerHandlers_def registry_of rev_map[symmetric])

lemma unregistered: "t \<notin> fst ` set (registrations H) \<Longrightarrow> registerHandlers H t = None"
  by (simp add: registerHandlers_def registry_of map_of_eq_None_iff split: option.split)

lemma unregistered_fails: "t \<notin> fst ` set (registrations H) \<Longrightarrow> fails_on (registerHandlers H) t"
  by (auto simp: fails_on_def registry_handle_def unregistered)

text \<open>The start succeeds.\<close>

lemma startup_validates: "snd (startup_onModuleInit H) = Inr ()"
proof -
  have "registerHandlers H t \<noteq> None" if "t \<in> set required_types" for t
  proof -
    have "t \<in> set (map fst (registrations H))"
      using that by (auto simp: registered_types required_types_def forwarded_types_def)
    then show ?thesis using registered_handler by fastforce
  qed
  then have "filter (\<lambda>t. registerHandlers H t = None) required_types = []" by (auto simp: filter_empty_conv)
  then show ?thesis by (simp add: startup_onModuleInit_def validateHandlers_def Let_def)
qed

section \<open>Status changes\<close>

definition v1_names :: ws_events where
  "v1_names = \<lparr> ws_DELIVERY_ASSIGNED = ''DELIVERY_ASSIGNED_V1'', ws_DELIVERY_PICKUP_CONFIRMED = ''DELIVERY_PICKUP_CONFIRMED_V1'',
     ws_DELIVERY_DROPOFF_CONFIRMED = ''DELIVERY_DROPOFF_CONFIRMED_V1'', ws_DELIVERY_FAILED = ''DELIVERY_FAILED_V1'',
     ws_DELIVERY_CANCELLED = ''DELIVERY_CANCELLED_V1'' \<rparr>"

definition webhook :: "handler_env \<Rightarrow> event_world \<Rightarrow> string \<Rightarrow> (string \<times> json) list \<Rightarrow> json" where
  "webhook H w ty data = JObj ([(''event'', JStr ty), (''version'', JNum 1), (''timestamp'', JIso (he_now H)),
     (''eventId'', JStr (he_uuid H (ew_ids w)))] @ data)"

definition sent :: "handler_env \<Rightarrow> json \<Rightarrow> event_world \<Rightarrow> event_world \<times> (string + unit)" where
  "sent H x w = (w\<lparr> ew_posts := ew_posts w @ [x], ew_ids := ew_ids w + 1 \<rparr>,
     case he_post H (length (ew_posts w)) x of None \<Rightarrow> Inr () | Some m \<Rightarrow> Inl m)"

lemma webhook_sent:
  "truthy (he_url H) \<Longrightarrow> with_eventId H (\<lambda>i. sendToVendure H (i # data) ty) w = sent H (webhook H w ty data) w"
  by (simp add: with_eventId_def sendToVendure_def sent_def webhook_def Let_def split: option.split)

lemmas emit_defs = emitDeliveryAssigned_def emitDeliveryPickedUp_def emitDeliveryDelivered_def emitDeliveryFailed_def
  emitDeliveryCancelled_def

lemma forwarded_handler:
  "ev_eventType ev \<in> set forwarded_types \<Longrightarrow> registry_handle (registerHandlers H) ev w = handle_forwarding H ev w"
  using registered_handler[of "ev_eventType ev" "handle_forwarding H" H] by (auto simp: registry_handle_def registrations_def)

lemma cancelled_handler:
  "ev_eventType ev = ''DELIVERY_CANCELLED_V1'' \<Longrightarrow> registry_handle (registerHandlers H) ev w = handle_cancelled H ev w"
  using registered_handler[of "''DELIVERY_CANCELLED_V1''" "handle_cancelled H" H] by (auto simp: registry_handle_def registrations_def)

text \<open>The data of the webhook of a status change, as the payload of the update reaches it.\<close>

definition status_data :: "handler_env \<Rightarrow> update_dto \<Rightarrow> delivery \<Rightarrow> (string \<times> json) list" where
  "status_data H dto d = (let p = status_payload dto d; s = ud_status dto; t = JIso (he_now H) in
     (if s = ''CANCELLED'' then [(''cancelledAt'', t)] else []) @ order_fields p @
     (if s = ''PICKED_UP'' then copied ''pickupProofUrl'' p @ given_or ''pickedUpAt'' ''pickedUpAt'' t p
      else if s = ''DELIVERED'' then copied ''deliveryProofUrl'' p @ given_or ''deliveredAt'' ''deliveredAt'' t p
      else if s = ''FAILED'' then [(''failure'', JObj [(''code'', JStr ''DELIVERY_FAILED''), (''reason'', JStr ''Unknown failure''),
        (''occurredAt'', t)])]
      else [(''reason'', JStr ''Cancelled by driver or system'')]))"

lemma status_gets:
  "json_get ''sellerOrderId'' (status_payload dto d) = Some (JStr (dl_sellerOrderId d))"
  "json_get ''channelId'' (status_payload dto d) = Some (JStr (dl_channelId d))"
  "json_get ''reason'' (status_payload dto d) = None"
  "json_get ''failedAt'' (status_payload dto d) = None"
  by (auto simp: status_payload_def opt_field_def split: option.splits)

lemma status_handled:
  assumes "truthy (he_url H)" "he_ws H = v1_names" "ud_status dto \<in> {''PICKED_UP'', ''DELIVERED'', ''FAILED'', ''CANCELLED''}"
    "ev_eventType ev = getVendureEventType v1_names (ud_status dto)" "ev_payload ev = status_payload dto d"
    "dl_sellerOrderId d \<noteq> []" "dl_channelId d \<noteq> []"
  shows "registry_handle (registerHandlers H) ev w = sent H (webhook H w (ev_eventType ev) (status_data H dto d)) w"
proof -
  consider (p) "ud_status dto = ''PICKED_UP''" | (d) "ud_status dto = ''DELIVERED''" | (f) "ud_status dto = ''FAILED''"
    | (c) "ud_status dto = ''CANCELLED''" using assms(3) by blast
  then show ?thesis
  proof cases
    case p
    then have t: "ev_eventType ev = ''DELIVERY_PICKUP_CONFIRMED_V1''" using assms(4) by (simp add: getVendureEventType_def v1_names_def)
    then show ?thesis using p assms(1,2,5)
      by (simp add: forwarded_handler forwarded_types_def handle_forwarding_def handle_pickup_confirmed_def emit_defs webhook_sent
          status_data_def v1_names_def Let_def)
  next
    case d
    then have t: "ev_eventType ev = ''DELIVERY_DROPOFF_CONFIRMED_V1''" using assms(4) by (simp add: getVendureEventType_def v1_names_def)
    then show ?thesis using d assms(1,2,5)
      by (simp add: forwarded_handler forwarded_types_def handle_forwarding_def handle_dropoff_confirmed_def emit_defs webhook_sent
          status_data_def v1_names_def Let_def)
  next
    case f
    then have t: "ev_eventType ev = ''DELIVERY_FAILED_V1''" using assms(4) by (simp add: getVendureEventType_def v1_names_def)
    then show ?thesis using f assms(1,2,5)
      by (simp add: forwarded_handler forwarded_types_def handle_forwarding_def handle_failed_def emit_defs webhook_sent
          status_data_def v1_names_def Let_def given_or_def status_gets)
  next
    case c
    then have t: "ev_eventType ev = ''DELIVERY_CANCELLED_V1''" using assms(4) by (simp add: getVendureEventType_def v1_names_def)
    then show ?thesis using c assms(1,2,5-7)
      by (simp add: cancelled_handler handle_cancelled_def emit_defs webhook_sent
          status_data_def v1_names_def Let_def given_or_def status_gets order_fields_def)
  qed
qed

lemma status_data_order:
  "str_field ''sellerOrderId'' (webhook H w ty (status_data H dto d)) = (if dl_sellerOrderId d = [] then None else Some (dl_sellerOrderId d))"
  by (simp add: webhook_def status_data_def order_fields_def copied_def status_gets Let_def)

lemma assigned_status_event:
  assumes "ev_eventType ev = ''DELIVERY_ASSIGNED_V1''" "ev_payload ev = status_payload dto d"
  shows "registry_handle (registerHandlers H) ev w = (w, Inl ''DELIVERY_ASSIGNED payload missing driverId'')"
proof -
  have "json_get ''driverId'' (status_payload dto d) = None"
    by (auto simp: status_payload_def opt_field_def split: option.splits)
  moreover have "registerHandlers H ''DELIVERY_ASSIGNED_V1'' = Some (handle_assigned H)"
    by (rule registered_handler) (simp add: registrations_def)
  ultimately show ?thesis using assms by (simp add: registry_handle_def handle_assigned_def text_of_def)
qed

text \<open>C22: With a URL of Vendure configured, the event that a status update of a delivery with an order and a
  channel publishes is turned by the handlers of the start into exactly one request to
  Vendure, of the same event name and order, and counts as handled exactly when that request is accepted; except
  that of an update to ASSIGNED, whose payload names no driver: its handler refuses it and sends nothing.\<close>

theorem status_event_reaches_vendure:
  assumes "truthy (he_url H)" "he_ws H = v1_names" "isVendureStatus (ud_status dto)"
    "ev_eventType ev = getVendureEventType v1_names (ud_status dto)" "ev_payload ev = status_payload dto d"
    "dl_sellerOrderId d \<noteq> []" "dl_channelId d \<noteq> []"
  shows "if ud_status dto = ''ASSIGNED''
    then registry_handle (registerHandlers H) ev w = (w, Inl ''DELIVERY_ASSIGNED payload missing driverId'')
    else \<exists>w' r x. registry_handle (registerHandlers H) ev w = (w', r) \<and> ew_posts w' = ew_posts w @ [x]
      \<and> str_field ''event'' x = Some (ev_eventType ev) \<and> str_field ''sellerOrderId'' x = Some (dl_sellerOrderId d)
      \<and> (r = Inr () \<longleftrightarrow> he_post H (length (ew_posts w)) x = None)"
proof (cases "ud_status dto = ''ASSIGNED''")
  case True
  then show ?thesis using assigned_status_event[OF _ assms(5)] assms(4) by (simp add: getVendureEventType_def v1_names_def)
next
  case False
  then have st: "ud_status dto \<in> {''PICKED_UP'', ''DELIVERED'', ''FAILED'', ''CANCELLED''}"
    using assms(3) by (auto simp: isVendureStatus_def)
  let ?x = "webhook H w (ev_eventType ev) (status_data H dto d)"
  have "ev_eventType ev \<noteq> []" using st assms(4) by (auto simp: getVendureEventType_def v1_names_def)
  then have "str_field ''event'' ?x = Some (ev_eventType ev)" by (simp add: webhook_def)
  moreover have "str_field ''sellerOrderId'' ?x = Some (dl_sellerOrderId d)" using assms(6) by (simp add: status_data_order)
  ultimately show ?thesis
    using status_handled[OF assms(1,2) st assms(4-7), of w] False by (auto simp: sent_def split: option.split)
qed

text \<open>C24: The code and the reason with which a delivery failed never leave the service: the request about a failure
  says DELIVERY_FAILED, Unknown failure and the time of the request, whatever the update said.\<close>

theorem failure_reason_is_lost:
  assumes "truthy (he_url H)" "he_ws H = v1_names" "ud_status dto = ''FAILED''"
    "ev_eventType ev = ''DELIVERY_FAILED_V1''" "ev_payload ev = status_payload dto d"
  shows "ew_posts (fst (registry_handle (registerHandlers H) ev w)) = ew_posts w @ [JObj
    [(''event'', JStr ''DELIVERY_FAILED_V1''), (''version'', JNum 1), (''timestamp'', JIso (he_now H)),
     (''eventId'', JStr (he_uuid H (ew_ids w))), (''sellerOrderId'', JStr (dl_sellerOrderId d)), (''channelId'', JStr (dl_channelId d)),
     (''failure'', JObj [(''code'', JStr ''DELIVERY_FAILED''), (''reason'', JStr ''Unknown failure''), (''occurredAt'', JIso (he_now H))])]]"
  using assms by (simp add: forwarded_handler forwarded_types_def handle_forwarding_def handle_failed_def emit_defs webhook_sent
      v1_names_def given_or_def status_gets sent_def webhook_def order_fields_def copied_def Let_def)

text \<open>A request whose acceptance is lost is repeated with another identifier, so the receiver cannot tell that it is a repetition.\<close>

theorem repeated_event_has_new_id:
  assumes "truthy (he_url H)" "he_ws H = v1_names" "ud_status dto \<in> {''PICKED_UP'', ''DELIVERED'', ''FAILED'', ''CANCELLED''}"
    "ev_eventType ev = getVendureEventType v1_names (ud_status dto)" "ev_payload ev = status_payload dto d"
    "dl_sellerOrderId d \<noteq> []" "dl_channelId d \<noteq> []" "inj (he_uuid H)" "[] \<notin> range (he_uuid H)"
  shows "\<exists>x y. ew_posts (fst (registry_handle (registerHandlers H) ev (fst (registry_handle (registerHandlers H) ev w))))
      = ew_posts w @ [x, y] \<and> str_field ''eventId'' x \<noteq> str_field ''eventId'' y"
proof -
  have "he_uuid H (ew_ids w) \<noteq> he_uuid H (ew_ids w + 1)" using assms(8) by (auto dest: injD)
  moreover have "he_uuid H k \<noteq> []" for k using assms(9) by (metis rangeI)
  ultimately show ?thesis using status_handled[OF assms(1-7)] by (simp add: sent_def webhook_def)
qed

text \<open>The second and third versions are registered to a handler that knows the first only.\<close>

theorem other_versions_fail:
  assumes "t \<in> {''DELIVERY_PICKUP_CONFIRMED_V2'', ''DELIVERY_PICKUP_CONFIRMED_V3'', ''DELIVERY_DROPOFF_CONFIRMED_V2'',
    ''DELIVERY_DROPOFF_CONFIRMED_V3'', ''DELIVERY_FAILED_V2'', ''DELIVERY_FAILED_V3'', ''PROOF_ACCEPTED_V2'', ''PROOF_ACCEPTED_V3''}"
  shows "registerHandlers H t \<noteq> None \<and> fails_on (registerHandlers H) t"
proof -
  have "t \<in> set forwarded_types" using assms by (auto simp: forwarded_types_def)
  moreover from this have "registerHandlers H t = Some (handle_forwarding H)"
    by (intro registered_handler) (auto simp: registrations_def)
  moreover have "\<exists>w' m. registry_handle (registerHandlers H) ev w = (w', Inl m)" if "ev_eventType ev = t" for ev w
  proof -
    have "registry_handle (registerHandlers H) ev w = handle_forwarding H ev w"
      using that calculation(1) by (intro forwarded_handler) simp
    then show ?thesis using assms that by (auto simp: handle_forwarding_def Let_def)
  qed
  ultimately show ?thesis by (simp add: fails_on_def)
qed

section \<open>Locations\<close>

text \<open>The location handler is handed the event instead of its payload: it finds the status of the event, which is
  never \<^verbatim>\<open>AVAILABLE\<close>, and stores nothing.\<close>

theorem location_event_is_never_stored:
  assumes "ev_eventType ev = ''DRIVER_LOCATION_UPDATED_V1''"
  shows "registry_handle (registerHandlers H) ev w = (w, Inr ())"
proof -
  have "registerHandlers H ''DRIVER_LOCATION_UPDATED_V1'' = Some (\<lambda>ev. handle_location H (event_object ev))"
    by (rule registered_handler) (simp add: registrations_def)
  moreover have "json_get ''status'' (event_object ev) \<noteq> Some (JStr ''AVAILABLE'')"
    by (cases "ev_status ev") (simp_all add: event_object_def)
  ultimately show ?thesis using assms by (simp add: registry_handle_def handle_location_def)
qed

lemma location_payload_is_stored:
  "handle_location H (JObj [(''driverId'', JStr i), (''lat'', JNum la), (''lon'', JNum lo), (''status'', JStr ''AVAILABLE'')]) w
    = (w\<lparr> ew_store := Presence.updateDriverLocation (he_redis H) (he_run H) (he_now H) i la lo 60 (ew_store w) \<rparr>, Inr ())"
  by (simp add: handle_location_def)

section \<open>Approvals\<close>

lemma approval_row:
  assumes "approveDriver E i a s = (s', Inr d)" "isValidVersionedEventType (de_APPROVED E)"
    "find_key (de_APPROVED E @ '':ts:'' @ de_ms E (de_now E)) (ot_rows (dd_outbox s)) = None"
  shows "\<exists>p k. ot_rows (dd_outbox s') = ot_rows (dd_outbox s)
    @ [new_row (ot_next_id (dd_outbox s)) (de_APPROVED E) p 1 (de_now E) k]"
proof -
  have k: "generateIdempotencyKey (de_APPROVED E) (JObj [(''driverId'', JStr x)]) (de_now E) (de_ms E)
      = de_APPROVED E @ '':ts:'' @ de_ms E (de_now E)" for x
    by (simp add: generateIdempotencyKey_def split: option.split)
  show ?thesis
    using assms(1)
    by (auto simp: approveDriver_def emitDriverApproved_def emit_def publish_def assms(2) assms(3)[simplified] k put_driver_def Let_def new_row_def
        split: option.splits if_splits)
qed

text \<open>C23: Nothing handles the event that the approval of a driver publishes (its key was not in
  the table before): when one worker polls at increasing times among which there are ten that
  are five minutes apart or more, is not shutting down, the rows neither completed nor failed fit in
  one batch and no row lacks its type, the event is FAILED in the end.\<close>

theorem approval_event_fails:
  assumes "approveDriver E i a s = (s', Inr d)" "de_APPROVED E = ''DRIVER_APPROVED_V1''"
    "find_key (''DRIVER_APPROVED_V1:ts:'' @ de_ms E (de_now E)) (ot_rows (dd_outbox s)) = None"
    "ws_rows ws = ot_rows (dd_outbox s')" "rounds_ready n ws"
    "sorted ts" "subseq us ts" "spaced t0 us" "length us = 10"
  shows "\<exists>r. lookup_by ob_id (ot_next_id (dd_outbox s)) (ws_rows (rounds (registerHandlers H) worker n ts ws)) = Some r
    \<and> ob_status r = OB_FAILED"
proof -
  have "isValidVersionedEventType ''DRIVER_APPROVED_V1''" by code_simp
  then obtain p k where rows: "ws_rows ws = ot_rows (dd_outbox s)
      @ [new_row (ot_next_id (dd_outbox s)) ''DRIVER_APPROVED_V1'' p 1 (de_now E) k]"
    using approval_row[OF assms(1)] assms(2,3,4) by auto
  let ?r = "new_row (ot_next_id (dd_outbox s)) ''DRIVER_APPROVED_V1'' p 1 (de_now E) k"
  have "distinct (map ob_id (ws_rows ws))" using assms(5) by (simp add: rounds_ready_def)
  then have l: "lookup_by ob_id (ob_id ?r) (ws_rows ws) = Some ?r" by (rule lookup_by_distinct) (simp add: rows)
  have f: "fails_on (registerHandlers H) ''DRIVER_APPROVED_V1''"
  proof (rule unregistered_fails)
    have "''DRIVER_APPROVED_V1'' \<notin> set (map fst (registrations H))" by (simp add: registered_types forwarded_types_def)
    then show "''DRIVER_APPROVED_V1'' \<notin> fst ` set (registrations H)" by simp
  qed
  have "due t0 0 ?r" by (simp add: due_def claimable_def new_row_def)
  moreover have "MAX_RETRIES \<le> 0 + length us" "us \<noteq> []" using assms(9) by (auto simp: MAX_RETRIES_def)
  ultimately show ?thesis
    using rounds_due[OF assms(5) f assms(6-8) _ _ l, of 0 worker] by (simp add: new_row_def)
qed

section \<open>Concrete runs\<close>

definition sample_handlers :: "string option \<Rightarrow> handler_env" where
  "sample_handlers lost = \<lparr> he_url = Some ''u'', he_ws = v1_names, he_now = 7, he_uuid = (\<lambda>n. replicate (n + 1) CHR ''i''),
     he_post = (\<lambda>_ _. lost), he_show = (\<lambda>_. []), he_io = True, he_rooms = (\<lambda>_. None), he_push = False,
     he_send = (\<lambda>_. Inr ()), he_redis = True, he_run = answering \<rparr>"

definition empty_world :: event_world where
  "empty_world = \<lparr> ew_posts = [], ew_ids = 0, ew_messages = [], ew_store = empty_store \<rparr>"

definition failed_update :: update_dto where
  "failed_update = \<lparr> ud_status = ''FAILED'', ud_proofUrl = None, ud_failureCode = Some ''TIMEOUT'', ud_failureReason = Some ''flat tyre'' \<rparr>"

definition failed_event :: outbox_event where
  "failed_event = \<lparr> ev_id = 1, ev_eventType = ''DELIVERY_FAILED_V1'', ev_payload = status_payload failed_update fresh_delivery,
     ev_status = OB_PROCESSING, ev_priority = MEDIUM, ev_retryCount = 0, ev_lastError = None, ev_nextRetryAt = None,
     ev_createdAt = 0, ev_processedAt = None, ev_lockedAt = None, ev_lockedBy = None, ev_idempotencyKey = ''k'', ev_version = 1 \<rparr>"

theorem status_event_reaches_vendure_witness:
  "\<exists>w' r x. registry_handle (registerHandlers (sample_handlers (Some ''lost''))) failed_event empty_world = (w', r)
    \<and> ew_posts w' = [x] \<and> str_field ''event'' x = Some ''DELIVERY_FAILED_V1'' \<and> r \<noteq> Inr ()"
proof -
  let ?H = "sample_handlers (Some ''lost'')"
  have f: "truthy (he_url ?H)" "he_ws ?H = v1_names" by (simp_all add: sample_handlers_def)
  have g: "isVendureStatus (ud_status failed_update)"
    "ev_eventType failed_event = getVendureEventType v1_names (ud_status failed_update)"
    "ev_payload failed_event = status_payload failed_update fresh_delivery"
    by (simp_all add: failed_event_def failed_update_def getVendureEventType_def v1_names_def isVendureStatus_def)
  have ne: "ud_status failed_update \<noteq> ''ASSIGNED''" by (simp add: failed_update_def)
  have o: "dl_sellerOrderId fresh_delivery \<noteq> []" "dl_channelId fresh_delivery \<noteq> []"
    by (simp_all add: fresh_delivery_def sample_delivery_def)
  obtain w' r x where h: "registry_handle (registerHandlers ?H) failed_event empty_world = (w', r)"
    "ew_posts w' = ew_posts empty_world @ [x]" "str_field ''event'' x = Some (ev_eventType failed_event)"
    "r = Inr () \<longleftrightarrow> he_post ?H (length (ew_posts empty_world)) x = None"
    using status_event_reaches_vendure[OF f g o, of empty_world, unfolded if_not_P[OF ne]] by (elim exE conjE) (rule that; assumption)
  have e: "ew_posts empty_world = []" "ev_eventType failed_event = ''DELIVERY_FAILED_V1''"
    "he_post ?H k y \<noteq> None" for k y by (simp_all add: empty_world_def failed_event_def sample_handlers_def)
  show ?thesis using h e by (metis append_Nil)
qed

theorem failure_reason_is_lost_witness:
  "str_field ''reason'' (the (json_get ''failure'' (last (ew_posts
      (fst (registry_handle (registerHandlers (sample_handlers None)) failed_event empty_world)))))) = Some ''Unknown failure''
    \<and> ud_failureReason failed_update = Some ''flat tyre''"
  using failure_reason_is_lost[of "sample_handlers None" failed_update failed_event fresh_delivery empty_world]
  by (simp add: sample_handlers_def failed_update_def failed_event_def)

definition approving_env :: driver_env where
  "approving_env = sample_driver_env\<lparr> de_APPROVED := ''DRIVER_APPROVED_V1'' \<rparr>"

definition approved_sys :: "event_world worker_sys" where
  "approved_sys = \<lparr> ws_rows = ot_rows (dd_outbox (fst (approveDriver approving_env ''r1'' ''adm'' sample_driver_db))),
     ws_circuits = Map.empty, ws_lifecycle = initial_lifecycle, ws_world = empty_world \<rparr>"

theorem approval_event_fails_witness:
  "\<exists>r. lookup_by ob_id (ot_next_id (dd_outbox sample_driver_db)) (ws_rows (rounds (registerHandlers (sample_handlers None)) ''w1'' 10
      poll_times approved_sys)) = Some r \<and> ob_status r = OB_FAILED"
proof -
  have "\<exists>s' d. approveDriver approving_env ''r1'' ''adm'' sample_driver_db = (s', Inr d)"
    by (simp add: approveDriver_def find_driver_def sample_driver_db_def sample_driver_def Let_def)
  then obtain s' d where a: "approveDriver approving_env ''r1'' ''adm'' sample_driver_db = (s', Inr d)" by blast
  have ty: "de_APPROVED approving_env = ''DRIVER_APPROVED_V1''" by (simp add: approving_env_def)
  have none: "find_key k (ot_rows (dd_outbox sample_driver_db)) = None" for k
    by (simp add: sample_driver_db_def empty_outbox_def find_key_def)
  have "isValidVersionedEventType (de_APPROVED approving_env)" unfolding ty by code_simp
  then obtain p k where rows: "ot_rows (dd_outbox s')
      = [new_row (ot_next_id (dd_outbox sample_driver_db)) (de_APPROVED approving_env) p 1 (de_now approving_env) k]"
    using approval_row[OF a _ none] by (auto simp: sample_driver_db_def empty_outbox_def)
  then have ready: "rounds_ready 10 approved_sys"
    by (simp add: rounds_ready_def approved_sys_def a isShutdownRequested_def initial_lifecycle_def new_row_def)
  have "ws_rows approved_sys = ot_rows (dd_outbox s')" by (simp add: approved_sys_def a)
  then show ?thesis
    using ready by (rule approval_event_fails[OF a ty none _ _ poll_times_spread])
qed

end
