(* ===== verification/Spec2Isabelle.thy ===== *)
theory Spec2Isabelle
  imports Prelude Circuit_Breaker Outbox_Service Worker_Lifecycle Outbox_Worker Outbox_Refinement Outbox_Maintenance
    Deliveries Drivers Offers Lifecycle_Split Driver_Stats Dispatch_Scoring Safe_Dispatch Idempotency
    Backfill Auth_Sessions Intent_Translator Schema_Diff Schema_Policy Migration_Readiness
    Schema_Control_Plane Schema_Compatibility Health Driver_Earnings Websocket Metrics Schema_Verifier Migration_Files Seller_Orders Event_Handlers
begin

text \<open>
  This library models the driver micro-services of the repository: the back end
  that assigns deliveries to drivers (\<^verbatim>\<open>src/src\<close>, NestJS over PostgreSQL and Redis),
  and the engine that plans and runs the migrations of its schema
  (\<^verbatim>\<open>src/src/schema/engine\<close>).

  \<^bold>\<open>Parts and theories.\<close> Paths are under \<^verbatim>\<open>src/src\<close>; a definition has the name of the
  function it models.

  \<^item> \<^verbatim>\<open>Prelude\<close>: results of fallible operations, transactions, JSON, tables of rows with
    the look-up and save of a repository (locale \<open>repository\<close>), stable sorting, and transition
    tables (locale \<open>transition_table\<close>).
  \<^item> Events. \<^verbatim>\<open>Outbox_Service\<close>: publication with idempotency keys and the handlers
    (\<^verbatim>\<open>domain-events/outbox.service.ts\<close>, \<^verbatim>\<open>handlers\<close>). \<^verbatim>\<open>Outbox_Worker\<close>: claiming, delivery,
    retry and failure, alone and with overlapping workers (\<^verbatim>\<open>domain-events/outbox.worker.ts\<close>).
    \<^verbatim>\<open>Outbox_Refinement\<close>: the abstract queue that the overlapping workers implement.
    \<^verbatim>\<open>Outbox_Maintenance\<close>: janitor, archive and dead letters
    (\<^verbatim>\<open>domain-events/outbox-janitor.service.ts\<close>, \<^verbatim>\<open>outbox-archive.service.ts\<close>,
    \<^verbatim>\<open>dead-letter.service.ts\<close>).
    \<^verbatim>\<open>Event_Handlers\<close>: the handlers registered at the start and the webhooks
    they send (\<^verbatim>\<open>domain-events/handlers\<close>, \<^verbatim>\<open>webhooks/webhooks.service.ts\<close>), applied to what
    deliveries and registrations publish.
    \<^verbatim>\<open>Circuit_Breaker\<close> and \<^verbatim>\<open>Worker_Lifecycle\<close>: the breaker that guards handlers, the events in
    flight, graceful shutdown and the adaptive batch size.
  \<^item> Orders and deliveries. \<^verbatim>\<open>Seller_Orders\<close>: the event that starts a delivery
    (\<^verbatim>\<open>events/events.controller.ts\<close>); it finds or creates the delivery, dispatches it and makes the
    offer, so it joins the next two groups. \<^verbatim>\<open>Deliveries\<close>: assignment, status, OTP, proofs,
    cancellation and the SLA monitor (\<^verbatim>\<open>deliveries/*.service.ts\<close>). \<^verbatim>\<open>Drivers\<close>: registration,
    activation and capability (\<^verbatim>\<open>drivers/*.service.ts\<close>). \<^verbatim>\<open>Offers\<close>: offers and both ways of accepting
    one (\<^verbatim>\<open>offers/offers.service.ts\<close>, \<^verbatim>\<open>deliveries/delivery-state-machine.service.ts\<close>); it works on
    the state of the deliveries and the drivers together.
  \<^item> Dispatch. \<^verbatim>\<open>Driver_Stats\<close>: counters and running means
    (\<^verbatim>\<open>delivery-intelligence/driver\<close>). \<^verbatim>\<open>Dispatch_Scoring\<close>: configuration rows, scores, weights,
    decay and the batch reads (\<^verbatim>\<open>dispatch-scoring\<close>). \<^verbatim>\<open>Safe_Dispatch\<close>: cohorts, health checks,
    the idempotent fallback, dispatches and the search of drivers (\<^verbatim>\<open>safe-dispatch\<close>,
    \<^verbatim>\<open>drivers/drivers.service.ts\<close>).
  \<^item> Presence. \<^verbatim>\<open>Presence\<close>: the drivers on the map in Redis, with the search that the dispatch
    reads (\<^verbatim>\<open>redis/redis.service.ts\<close>, \<^verbatim>\<open>websocket/driver-realtime.service.ts\<close>,
    \<^verbatim>\<open>push/push.service.ts\<close>). \<^verbatim>\<open>Websocket\<close>: connections, sessions, rooms and proofs, which
    write the presence (\<^verbatim>\<open>websocket\<close>).
  \<^item> Requests. \<^verbatim>\<open>Idempotency\<close>: the interceptor of POST requests with its records in Redis
    (\<^verbatim>\<open>common/interceptors/idempotency.interceptor.ts\<close>). \<^verbatim>\<open>Authorization\<close>: the policies of
    drivers and deliveries (\<^verbatim>\<open>authorization\<close>, \<^verbatim>\<open>auth/policy.guard.ts\<close>). \<^verbatim>\<open>Auth_Sessions\<close>: logins, tokens, lockout and
    roles (\<^verbatim>\<open>auth\<close>, \<^verbatim>\<open>shared/admin.service.ts\<close>). \<^verbatim>\<open>Driver_Admin\<close>: the administration of drivers
    (\<^verbatim>\<open>admin/driver-admin.application.ts\<close>). \<^verbatim>\<open>Driver_Earnings\<close>: earnings and their history.
    \<^verbatim>\<open>Audit_Log\<close>: what the interceptor records and how it is queried
    (\<^verbatim>\<open>interceptors/audit-logging.interceptor.ts\<close>, \<^verbatim>\<open>shared/audit.service.ts\<close>).
  \<^item> Readings. \<^verbatim>\<open>Readiness\<close>: boot phases and the wait for readiness (\<^verbatim>\<open>bootstrap\<close>). \<^verbatim>\<open>Health\<close>: the
    checks and the dashboard they are combined in (\<^verbatim>\<open>health\<close>, \<^verbatim>\<open>observability/db-pool.logger.ts\<close>).
    \<^verbatim>\<open>Metrics\<close>: counters and histograms (\<^verbatim>\<open>domain-events/metrics.service.ts\<close>,
    \<^verbatim>\<open>delivery-intelligence/delivery\<close>).
  \<^item> Migrations. \<^verbatim>\<open>Js_Regex\<close> and \<^verbatim>\<open>Js_Text\<close>: a matcher for the regular expressions of the engine, with
    backtracking in the order of JavaScript, and functions on text. \<^verbatim>\<open>Sql_Classify\<close>, \<^verbatim>\<open>Sql_Risk\<close>, \<^verbatim>\<open>Operation_Graph\<close>:
    what a statement is, how risky, and which statements conflict. \<^verbatim>\<open>Dependency_Order\<close>,
    \<^verbatim>\<open>Migration_Plan\<close>, \<^verbatim>\<open>Exec_Planner\<close>: dependency maps, plans, their validation, order,
    simulation and execution. \<^verbatim>\<open>Migration_State\<close>: the state machine of a migration.
    \<^verbatim>\<open>Lifecycle_Split\<close>: the rewriting into expand, data and contract statements, and the whole
    pipeline from statements to a plan. \<^verbatim>\<open>Migration_Files\<close>: the files written from them and read
    back. \<^verbatim>\<open>Intent_Translator\<close>: intents, their validation and their plans
    (\<^verbatim>\<open>schema/engine/intent\<close>). \<^verbatim>\<open>Schema_Policy\<close>: the rules a plan is held to (\<^verbatim>\<open>schema/engine/policy\<close>).
  \<^item> The running schema (\<^verbatim>\<open>schema/services\<close>, \<^verbatim>\<open>worker\<close>). \<^verbatim>\<open>Schema_Diff\<close>: the comparison of entities and
    database; \<^verbatim>\<open>Schema_Classification\<close> and \<^verbatim>\<open>Schema_Compatibility\<close>: the statements of a difference and their risk;
    \<^verbatim>\<open>Schema_Lock\<close>: the advisory lock; \<^verbatim>\<open>Schema_Orchestrator\<close>: convergence, which runs the
    comparison, the classification and a plan under that lock; \<^verbatim>\<open>Drift_Engine\<close>: drift and its
    cache; \<^verbatim>\<open>Schema_Control_Plane\<close>: boot and status, over all of these;
    \<^verbatim>\<open>Migration_Readiness\<close>: when a difference may be migrated; \<^verbatim>\<open>Schema_Verifier\<close>: the worker that
    compares and repairs.
  \<^item> \<^verbatim>\<open>Backfill\<close>: the worker that runs data statements in batches
    (\<^verbatim>\<open>schema/workers/backfill.worker.ts\<close>). This theory joins it with the planner below.

  \<^bold>\<open>State and effects.\<close> A table is a list of rows in the order of the database; operations
  return the new state with \<^verbatim>\<open>Inl\<close> an error or \<^verbatim>\<open>Inr\<close> a result, and a transaction that raises
  undoes its writes. Where processes interleave, the accesses to the database are the steps:
  the step relations of the outbox workers and of the fallback, and the schedules of the
  interceptor, of the order requests and of the logins of administrators. Everywhere else an operation is one step, also where
  the code reads and writes without a transaction, so its properties are about operations that
  run one after another. The query of an UPDATE gives the pair of its rows and their number, as the
  database library does, and a property that the code finds missing is \<^verbatim>\<open>undefined\<close> in the model
  too (\<^verbatim>\<open>None\<close>). The zone of the server is a constant offset. The contract of the circuit
  breaker (\<^verbatim>\<open>contract_call\<close>), the abstract queue and the presence by driver are the specifications that
  the code is proved to refine. Fractions are rational numbers: the rounding of binary floating point is not
  modelled. Strings hold the characters below 256.

  \<^bold>\<open>Parameters.\<close> Code outside the repository is an argument: the clock, fresh identifiers,
  random numbers, digests, the handlers and callbacks of a caller, the event names of the
  contract package, the estimates of the database, the distance it computes, and the row it
  returns first of several. Hypotheses on them are
  named where they occur (for instance \<open>pick_ok\<close>: the row returned is one of those that
  match), with an instance in the witness of each property.

  \<^bold>\<open>What the lemmas show.\<close> For each component, the invariants its operations keep, in every
  interleaving where there are several processes, and what an operation does on each branch.
  Some properties state that the code does not do what its comments say; the
  manifest lists them as findings. Properties that the text of a theory numbers (C1, C2, and
  so on) are those of the manifest; the other theorems are the lemmas of the library.

  \<^bold>\<open>Termination, bounds and fuel.\<close> Functions are total by structural recursion or by a
  measure (the rows left and the retries left for the batch loop, the unvisited operations for the
  depth-first searches, the length of the text for the matcher). The loop over a partition
  has fuel, and two iterations are proved to be enough for every partition. The hash of
  \<^verbatim>\<open>Safe_Dispatch\<close> is on words of 32 bits.

  \<^bold>\<open>Not modelled.\<close> Routes that only forward, DTO validation and modules (wiring); the
  migrations themselves (statements for the database); the transport of requests to other services (mail,
  alerts); logging, tracing and console output; snapshots of the entity metadata and the replay of migrations
  on a scratch database; the second intent parser beside that of the engine; the copies of the engine
  under \<^verbatim>\<open>src/scripts\<close>, which duplicate \<^verbatim>\<open>src/src/schema/engine\<close>, and the other scripts; the
  command line. The manifest lists them with their files.
\<close>

section \<open>From the plan to the back-fill\<close>

text \<open>The planner and the back-fill worker do not agree on what the statement of a job is: a
  job planned for a data operation carries the whole statement of the operation, and
  the worker puts it after \<^verbatim>\<open>SET\<close> in the query of a batch.\<close>

theorem planned_job_nests_statement:
  assumes "job \<in> set (createBackfillJobs rows plan mid)"
  shows "\<exists>p \<in> set (plan_phases plan). \<exists>op \<in> set (phase_operations p).
    category op = SqlCategory.DATA \<and> extractTableName (sql op) = Some (job_tableName job)
    \<and> includes_str (''SET '' @ sql op) (batch_query (job_tableName job) (job_sqlStatement job))"
proof -
  obtain p op where op: "p \<in> set (plan_phases plan)" "op \<in> set (phase_operations p)" "category op = SqlCategory.DATA"
    "extractTableName (sql op) = Some (job_tableName job)" "job_sqlStatement job = sql op"
    using assms by (auto simp: createBackfillJobs_def backfill_job_def split: if_splits option.splits)
  let ?u = "''WITH batch AS ( SELECT id FROM \"'' @ job_tableName job @ ''\" WHERE id > $1 ORDER BY id LIMIT $2 ) UPDATE \"''
      @ job_tableName job @ ''\" t ''"
  let ?v = "'' FROM batch WHERE t.id = batch.id RETURNING t.id''"
  have "batch_query (job_tableName job) (sql op) = ?u @ (''SET '' @ sql op) @ ?v"
    by (simp add: batch_query_def)
  then have "includes_str (''SET '' @ sql op) (batch_query (job_tableName job) (sql op))"
    using includes_str_append[of "''SET '' @ sql op" ?u ?v] by metis
  then show ?thesis using op by metis
qed

definition data_plan :: MigrationExecutionPlan where
  "data_plan = sample_plan [simple_phase DATA_PHASE [simple_op ''UPDATE \"t\" SET a = 1'' SqlCategory.DATA]]"

lemma data_plan_job: "map job_sqlStatement (createBackfillJobs (\<lambda>_. 5) data_plan ''m'') = [''UPDATE \"t\" SET a = 1'']"
  by code_simp

lemma planned_job_nests_statement_witness:
  "\<exists>job \<in> set (createBackfillJobs (\<lambda>_. 5) data_plan ''m''). \<exists>p \<in> set (plan_phases data_plan).
    \<exists>op \<in> set (phase_operations p). includes_str (''SET '' @ sql op)
      (batch_query (job_tableName job) (job_sqlStatement job))"
proof -
  obtain job where "job \<in> set (createBackfillJobs (\<lambda>_. 5) data_plan ''m'')"
    using data_plan_job by (cases "createBackfillJobs (\<lambda>_. 5) data_plan ''m''") auto
  then show ?thesis using planned_job_nests_statement[of job "\<lambda>_. 5" data_plan "''m''"] by blast
qed

end
